(* ===== verification/Prelude.thy ===== *)
theory Prelude
  imports Main "HOL-Library.Multiset" "HOL-Library.List_Lexorder" "HOL-Library.Char_ord"
begin

text \<open>
  Shared ground of the development: what the code uses of Go's standard library, and the
  generic lemmas on it.  A Go string is a sequence of bytes and is modelled as HOL's
  \<^typ>\<open>string\<close>, whose characters are bytes; \<^verbatim>\<open>strings.Compare\<close> is the lexicographic order
  of \<^theory_text>\<open>List_Lexorder\<close> on them.  A nil-able pointer is an \<open>option\<close>.
  \<^verbatim>\<open>slices.SortFunc\<close> is \<open>sort_by\<close>, an insertion sort over the code's comparator: the locale
  \<open>comparator\<close> shows that on elements the comparator tells apart \<^emph>\<open>every\<close> sorting algorithm
  returns the same list, and that \<open>sort_by\<close> is stable (which is what
  \<^verbatim>\<open>slices.SortStableFunc\<close> promises).  \<open>bucket\<close> is the idiom \<open>map plus first-seen order\<close>
  that the code uses to group cards and bookmarks.
\<close>

named_theorems str_defs \<open>definitions of the Go string operations\<close>
named_theorems tree_simps \<open>equations that push observations through the rendered group tree\<close>
named_theorems api_simps \<open>equations of the calls to the Kubernetes API\<close>

section \<open>Go strings\<close>

definition has_prefix :: "string \<Rightarrow> string \<Rightarrow> bool" where
  [str_defs]: "has_prefix s p \<longleftrightarrow> take (length p) s = p"

definition has_suffix :: "string \<Rightarrow> string \<Rightarrow> bool" where
  [str_defs]: "has_suffix s p \<longleftrightarrow> length p \<le> length s \<and> drop (length s - length p) s = p"

definition cut_prefix :: "string \<Rightarrow> string \<Rightarrow> string option" where
  [str_defs]: "cut_prefix s p = (if has_prefix s p then Some (drop (length p) s) else None)"

text \<open>\<^verbatim>\<open>strings.Cut\<close> at a one-byte separator: what precedes it, and what follows it if it occurs.\<close>

fun cut_char :: "char \<Rightarrow> string \<Rightarrow> string \<times> string option" where
  "cut_char c [] = ([], None)"
| "cut_char c (x # xs) =
     (if x = c then ([], Some xs) else (case cut_char c xs of (a, b) \<Rightarrow> (x # a, b)))"

fun contains :: "string \<Rightarrow> string \<Rightarrow> bool" where
  "contains [] sub \<longleftrightarrow> sub = []"
| "contains (c # s) sub \<longleftrightarrow> has_prefix (c # s) sub \<or> contains s sub"

text \<open>\<^verbatim>\<open>strings.LastIndex\<close>; \<open>None\<close> stands for -1.\<close>

fun last_index :: "string \<Rightarrow> string \<Rightarrow> nat option" where
  "last_index sub [] = (if sub = [] then Some 0 else None)"
| "last_index sub (c # s) =
     (case last_index sub s of
        Some i \<Rightarrow> Some (Suc i)
      | None \<Rightarrow> if has_prefix (c # s) sub then Some 0 else None)"

text \<open>\<^verbatim>\<open>strings.ToLower\<close> on ASCII text.\<close>

definition lower_char :: "char \<Rightarrow> char" where
  "lower_char c = (if 65 \<le> (of_char c :: nat) \<and> (of_char c :: nat) \<le> 90
                   then char_of ((of_char c :: nat) + 32) else c)"

definition to_lower :: "string \<Rightarrow> string" where
  "to_lower s = map lower_char s"

fun join :: "string \<Rightarrow> string list \<Rightarrow> string" where
  "join sep [] = []"
| "join sep [x] = x"
| "join sep (x # y # xs) = x @ sep @ join sep (y # xs)"

text \<open>\<^verbatim>\<open>cmp.Or\<close> on strings, and the dereferencing idioms for \<^verbatim>\<open>*string\<close> and \<^verbatim>\<open>*bool\<close>.\<close>

definition or_str :: "string \<Rightarrow> string \<Rightarrow> string" where
  "or_str a b = (if a = [] then b else a)"

definition set_opt :: "'a option \<Rightarrow> 'a \<Rightarrow> 'a" where
  "set_opt p old = (case p of None \<Rightarrow> old | Some v \<Rightarrow> v)"

lemma set_opt_simps [simp]: "set_opt None old = old" "set_opt (Some v) old = v"
  by (simp_all add: set_opt_def)

abbreviation slash :: char where "slash \<equiv> CHR ''/''"

lemma has_prefix_append [simp]: "has_prefix (p @ s) p"
  by (simp add: has_prefix_def)

lemma has_prefixE: "has_prefix s p \<Longrightarrow> \<exists>r. s = p @ r"
  unfolding has_prefix_def by (metis append_take_drop_id)

lemma has_prefix_iff: "has_prefix s p \<longleftrightarrow> (\<exists>r. s = p @ r)"
  using has_prefixE by auto

lemma has_prefix_Nil [simp]: "has_prefix s []"
  by (simp add: has_prefix_def)

lemma has_prefix_Cons [simp]:
  "has_prefix (x # xs) (y # ys) \<longleftrightarrow> x = y \<and> has_prefix xs ys" "\<not> has_prefix [] (y # ys)"
  by (auto simp: has_prefix_def)

lemma has_suffix_append [simp]: "has_suffix (s @ p) p"
  by (simp add: has_suffix_def)

lemma cut_prefix_append [simp]: "cut_prefix (p @ s) p = Some s"
  by (simp add: cut_prefix_def)

lemma cut_char_notin: "c \<notin> set s \<Longrightarrow> cut_char c s = (s, None)"
  by (induction s) auto

lemma cut_char_append: "c \<notin> set a \<Longrightarrow> cut_char c (a @ c # b) = (a, Some b)"
  by (induction a) auto

lemma contains_iff: "contains s sub \<longleftrightarrow> (\<exists>a b. s = a @ sub @ b)"
proof (induction s)
  case Nil
  then show ?case by auto
next
  case (Cons c s)
  show ?case
  proof
    assume "contains (c # s) sub"
    then consider "has_prefix (c # s) sub" | "contains s sub" by auto
    then show "\<exists>a b. c # s = a @ sub @ b"
    proof cases
      case 1
      then obtain r where "c # s = [] @ sub @ r" using has_prefixE by fastforce
      then show ?thesis by blast
    next
      case 2
      with Cons.IH obtain a b where "c # s = (c # a) @ sub @ b" by auto
      then show ?thesis by blast
    qed
  next
    assume "\<exists>a b. c # s = a @ sub @ b"
    then obtain a b where ab: "c # s = a @ sub @ b" by blast
    show "contains (c # s) sub"
    proof (cases a)
      case Nil
      with ab have "has_prefix (c # s) sub" by (simp add: has_prefix_iff)
      then show ?thesis by simp
    next
      case (Cons x xs)
      with ab Cons.IH show ?thesis by auto
    qed
  qed
qed

lemma last_index_char_None: "last_index [c] s = None \<longleftrightarrow> c \<notin> set s"
  by (induction s) (auto split: option.splits)

lemma last_index_char_Some:
  "last_index [c] s = Some i \<Longrightarrow> i < length s \<and> s = take i s @ c # drop (Suc i) s \<and> c \<notin> set (drop (Suc i) s)"
proof (induction s arbitrary: i)
  case Nil
  then show ?case by simp
next
  case (Cons x s)
  show ?case
  proof (cases "last_index [c] s")
    case None
    with Cons.prems show ?thesis
      by (auto simp: last_index_char_None split: if_splits)
  next
    case (Some j)
    with Cons show ?thesis by auto
  qed
qed

lemma last_index_char_append:
  "c \<notin> set b \<Longrightarrow> last_index [c] (a @ c # b) = Some (length a)"
proof (induction a)
  case Nil
  then have "last_index [c] b = None" by (simp add: last_index_char_None)
  then show ?case by simp
next
  case (Cons x a)
  then show ?case by simp
qed

section \<open>Numbers in decimal\<close>

definition digit_char :: "nat \<Rightarrow> char" where
  "digit_char d = char_of (48 + d)"

definition digit_val :: "char \<Rightarrow> nat" where
  "digit_val c = of_char c - 48"

definition is_digit :: "char \<Rightarrow> bool" where
  "is_digit c \<longleftrightarrow> 48 \<le> (of_char c :: nat) \<and> (of_char c :: nat) \<le> 57"

text \<open>\<open>fmt_nat\<close> is \<^verbatim>\<open>%d\<close> on a non-negative integer, \<open>fmt_int\<close> on any.\<close>

fun fmt_nat :: "nat \<Rightarrow> string" where
  "fmt_nat n = (if n < 10 then [digit_char n] else fmt_nat (n div 10) @ [digit_char (n mod 10)])"

declare fmt_nat.simps [simp del]

definition fmt_int :: "int \<Rightarrow> string" where
  "fmt_int i = (if i < 0 then ''-'' @ fmt_nat (nat (- i)) else fmt_nat (nat i))"

definition digits_val :: "string \<Rightarrow> nat" where
  "digits_val s = foldl (\<lambda>a c. 10 * a + digit_val c) 0 s"

text \<open>\<^verbatim>\<open>strconv.Atoi\<close>: an optional sign, at least one digit, and a value of 64 bits.\<close>

definition atoi :: "string \<Rightarrow> int option" where
  "atoi s =
     (let (neg, ds) = (case s of [] \<Rightarrow> (False, [])
                       | c # r \<Rightarrow> if c = CHR ''-'' then (True, r)
                                 else if c = CHR ''+'' then (False, r) else (False, s));
          v = (if neg then - int (digits_val ds) else int (digits_val ds))
      in if ds = [] \<or> \<not> list_all is_digit ds then None
         else if - (2 ^ 63) \<le> v \<and> v < 2 ^ 63 then Some v else None)"

lemma of_char_digit_char [simp]: "d < 10 \<Longrightarrow> (of_char (digit_char d) :: nat) = 48 + d"
  by (simp add: digit_char_def of_char_of)

lemma digit_val_digit_char [simp]: "d < 10 \<Longrightarrow> digit_val (digit_char d) = d"
  by (simp add: digit_val_def)

lemma is_digit_digit_char [simp]: "d < 10 \<Longrightarrow> is_digit (digit_char d)"
  by (simp add: is_digit_def)

lemma is_digit_consts [simp]:
  "\<not> is_digit (CHR ''/'')" "\<not> is_digit (CHR ''-'')" "\<not> is_digit (CHR ''+'')" "\<not> is_digit (CHR ''m'')"
  by (simp_all add: is_digit_def)

lemma fmt_nat_digits: "list_all is_digit (fmt_nat n)"
proof (induction n rule: fmt_nat.induct)
  case (1 n)
  then show ?case by (simp add: fmt_nat.simps [of n])
qed

lemma fmt_nat_nonempty [simp]: "fmt_nat n \<noteq> []"
  by (simp add: fmt_nat.simps [of n])

lemma digits_val_fmt_nat [simp]: "digits_val (fmt_nat n) = n"
proof (induction n rule: fmt_nat.induct)
  case (1 n)
  then show ?case by (simp add: fmt_nat.simps [of n] digits_val_def)
qed

lemma fmt_nat_inject [simp]: "fmt_nat m = fmt_nat n \<longleftrightarrow> m = n"
  using digits_val_fmt_nat by metis

lemma slash_notin_fmt_nat [simp]: "slash \<notin> set (fmt_nat n)"
  using fmt_nat_digits [of n] by (auto simp: list_all_iff)

lemma fmt_nat_hd_digit: "fmt_nat n = c # r \<Longrightarrow> is_digit c"
  using fmt_nat_digits [of n] by simp

lemma atoi_fmt_nat: "n < 2 ^ 63 \<Longrightarrow> atoi (fmt_nat n) = Some (int n)"
proof -
  assume n: "n < 2 ^ 63"
  obtain c r where cr: "fmt_nat n = c # r" by (cases "fmt_nat n") auto
  then have c: "c \<noteq> CHR ''-''" "c \<noteq> CHR ''+''" using fmt_nat_hd_digit [OF cr] by auto
  have d: "list_all is_digit (c # r)" using fmt_nat_digits [of n] cr by simp
  have v: "digits_val (c # r) = n" using digits_val_fmt_nat [of n] cr by simp
  have "int n < 2 ^ 63" using n by (metis of_nat_less_iff of_nat_numeral of_nat_power)
  with c d v n show ?thesis unfolding cr atoi_def by simp
qed

section \<open>Sorting with a Go comparator\<close>

fun insert_by :: "('a \<Rightarrow> 'a \<Rightarrow> int) \<Rightarrow> 'a \<Rightarrow> 'a list \<Rightarrow> 'a list" where
  "insert_by cmp x [] = [x]"
| "insert_by cmp x (y # ys) = (if cmp x y \<le> 0 then x # y # ys else y # insert_by cmp x ys)"

definition sort_by :: "('a \<Rightarrow> 'a \<Rightarrow> int) \<Rightarrow> 'a list \<Rightarrow> 'a list" where
  "sort_by cmp xs = foldr (insert_by cmp) xs []"

lemma sort_by_simps [simp]:
  "sort_by cmp [] = []" "sort_by cmp (x # xs) = insert_by cmp x (sort_by cmp xs)"
  by (simp_all add: sort_by_def)

lemma mset_insert_by [simp]: "mset (insert_by cmp x ys) = add_mset x (mset ys)"
  by (induction ys) auto

lemma mset_sort_by [simp]: "mset (sort_by cmp xs) = mset xs"
  by (induction xs) auto

lemma set_sort_by [simp]: "set (sort_by cmp xs) = set xs"
  by (metis mset_sort_by set_mset_mset)

lemma length_sort_by [simp]: "length (sort_by cmp xs) = length xs"
  by (metis mset_sort_by size_mset)

lemma distinct_sort_by [simp]: "distinct (sort_by cmp xs) = distinct xs"
  by (metis mset_sort_by mset_eq_imp_distinct_iff)

definition str_compare :: "string \<Rightarrow> string \<Rightarrow> int" where
  "str_compare a b = (if a < b then -1 else if a = b then 0 else 1)"

locale comparator =
  fixes cmp :: "'a \<Rightarrow> 'a \<Rightarrow> int"
  assumes flip: "0 < cmp a b \<longleftrightarrow> cmp b a < 0"
    and le_trans: "cmp a b \<le> 0 \<Longrightarrow> cmp b c \<le> 0 \<Longrightarrow> cmp a c \<le> 0"
begin

lemma cmp_total: "cmp a b \<le> 0 \<or> cmp b a \<le> 0"
  using flip [of a b] by linarith

lemma cmp_refl: "cmp a a = 0"
  using flip [of a a] by linarith

lemma eq_sym: "cmp a b = 0 \<longleftrightarrow> cmp b a = 0"
  using flip [of a b] flip [of b a] by linarith

lemma eq_le: "cmp a b = 0 \<Longrightarrow> cmp a c \<le> 0 \<longleftrightarrow> cmp b c \<le> 0"
  using le_trans [of a b c] le_trans [of b a c] eq_sym [of a b] by auto

lemma less_le_trans: "cmp a b < 0 \<Longrightarrow> cmp b c \<le> 0 \<Longrightarrow> cmp a c < 0"
  using flip [of c a] flip [of b a] flip [of a b] le_trans [of b c a] cmp_total [of a c] flip [of a c]
  by (meson flip le_trans less_eq_int_def not_le)

lemma le_less_trans: "cmp a b \<le> 0 \<Longrightarrow> cmp b c < 0 \<Longrightarrow> cmp a c < 0"
  by (meson flip le_trans not_le)

lemma sorted_insert_by:
  "sorted_wrt (\<lambda>a b. cmp a b \<le> 0) ys \<Longrightarrow> sorted_wrt (\<lambda>a b. cmp a b \<le> 0) (insert_by cmp x ys)"
proof (induction ys)
  case Nil
  then show ?case by simp
next
  case (Cons y ys)
  have set_ins: "set (insert_by cmp x ys) = insert x (set ys)"
    by (metis mset_insert_by set_mset_mset set_mset_add_mset_insert)
  show ?case
  proof (cases "cmp x y \<le> 0")
    case True
    with Cons.prems show ?thesis by (auto intro: le_trans)
  next
    case False
    then have "cmp y x \<le> 0" using cmp_total by blast
    with False Cons set_ins show ?thesis by auto
  qed
qed

lemma sorted_sort_by: "sorted_wrt (\<lambda>a b. cmp a b \<le> 0) (sort_by cmp xs)"
  by (induction xs) (auto intro: sorted_insert_by)

lemma sorted_unique:
  assumes "mset xs = mset ys" "sorted_wrt (\<lambda>a b. cmp a b \<le> 0) xs"
    and "sorted_wrt (\<lambda>a b. cmp a b \<le> 0) ys"
    and "\<And>a b. a \<in> set xs \<Longrightarrow> b \<in> set xs \<Longrightarrow> cmp a b = 0 \<Longrightarrow> a = b"
  shows "xs = ys"
  using assms
proof (induction xs arbitrary: ys)
  case Nil
  then show ?case by simp
next
  case (Cons x xs)
  from Cons.prems(1) obtain y ys' where ys: "ys = y # ys'" by (cases ys) auto
  have sets: "set (x # xs) = set ys" using Cons.prems(1) by (metis set_mset_mset)
  then have mem: "x \<in> set (y # ys')" "y \<in> set (x # xs)" by (auto simp: ys)
  have "cmp x y \<le> 0" using mem Cons.prems(2) by (auto simp: cmp_refl)
  moreover have "cmp y x \<le> 0" using mem Cons.prems(3) by (auto simp: ys cmp_refl)
  ultimately have "cmp x y = 0" using flip [of x y] flip [of y x] by linarith
  with Cons.prems(4) mem have xy: "x = y" by simp
  with Cons.prems have "xs = ys'"
    by (intro Cons.IH) (auto simp: ys)
  with xy ys show ?case by simp
qed

text \<open>Whatever algorithm sorts: its result is \<open>sort_by\<close>'s, if the comparator tells the elements apart.\<close>

lemma any_sort_is_sort_by:
  assumes "mset ys = mset xs" "sorted_wrt (\<lambda>a b. cmp a b \<le> 0) ys"
    and "\<And>a b. a \<in> set xs \<Longrightarrow> b \<in> set xs \<Longrightarrow> cmp a b = 0 \<Longrightarrow> a = b"
  shows "ys = sort_by cmp xs"
  using assms by (intro sorted_unique) (auto simp: sorted_sort_by dest: mset_eq_setD)

lemma sort_by_perm:
  assumes "mset xs = mset ys"
    and "\<And>a b. a \<in> set xs \<Longrightarrow> b \<in> set xs \<Longrightarrow> cmp a b = 0 \<Longrightarrow> a = b"
  shows "sort_by cmp xs = sort_by cmp ys"
  using assms by (intro sorted_unique) (auto simp: sorted_sort_by)

lemma sort_by_sorted: "sorted_wrt (\<lambda>a b. cmp a b \<le> 0) xs \<Longrightarrow> sort_by cmp xs = xs"
proof (induction xs)
  case (Cons x xs)
  then show ?case by (cases xs) auto
qed simp

lemma insert_by_stable:
  "filter (\<lambda>y. cmp a y = 0) (insert_by cmp x ys) =
     (if cmp a x = 0 then x # filter (\<lambda>y. cmp a y = 0) ys else filter (\<lambda>y. cmp a y = 0) ys)"
proof (induction ys)
  case (Cons y ys)
  have "cmp a x = 0 \<Longrightarrow> cmp a y = 0 \<Longrightarrow> cmp x y \<le> 0"
    using eq_le [of a x y] by simp
  with Cons show ?case by auto
qed simp

lemma sort_by_stable: "filter (\<lambda>y. cmp a y = 0) (sort_by cmp xs) = filter (\<lambda>y. cmp a y = 0) xs"
  by (induction xs) (auto simp: insert_by_stable)

end

lemma comparator_str: "comparator str_compare"
  by unfold_locales (auto simp: str_compare_def split: if_splits)

lemma comparator_int: "comparator (\<lambda>a b :: int. a - b)"
  by unfold_locales auto

lemma comparator_key: "comparator cmp \<Longrightarrow> comparator (\<lambda>a b. cmp (f a) (f b))"
  unfolding comparator_def by blast

text \<open>\<^verbatim>\<open>if c := first(a, b); c != 0 { return c }; return second(a, b)\<close>\<close>

definition cmp_then :: "('a \<Rightarrow> 'a \<Rightarrow> int) \<Rightarrow> ('a \<Rightarrow> 'a \<Rightarrow> int) \<Rightarrow> 'a \<Rightarrow> 'a \<Rightarrow> int" where
  "cmp_then c1 c2 a b = (let c = c1 a b in if c \<noteq> 0 then c else c2 a b)"

lemma cmp_then_le: "cmp_then c1 c2 a b \<le> 0 \<longleftrightarrow> c1 a b < 0 \<or> (c1 a b = 0 \<and> c2 a b \<le> 0)"
  by (auto simp: cmp_then_def Let_def)

lemma comparator_then:
  assumes c1: "comparator c1" and c2: "comparator c2"
  shows "comparator (cmp_then c1 c2)"
proof
  fix a b
  show "0 < cmp_then c1 c2 a b \<longleftrightarrow> cmp_then c1 c2 b a < 0"
    using comparator.flip [OF c1, of a b] comparator.flip [OF c1, of b a]
      comparator.flip [OF c2, of a b] comparator.eq_sym [OF c1, of a b]
    by (auto simp: cmp_then_def Let_def)
next
  fix a b c
  assume "cmp_then c1 c2 a b \<le> 0" and "cmp_then c1 c2 b c \<le> 0"
  then show "cmp_then c1 c2 a c \<le> 0"
    unfolding cmp_then_le
    using comparator.less_le_trans [OF c1, of a b c] comparator.le_less_trans [OF c1, of a b c]
      comparator.eq_le [OF c1, of a b c] comparator.le_trans [OF c1, of a b c]
      comparator.le_trans [OF c2, of a b c]
    by force
qed

lemma cmp_then_eq: "cmp_then c1 c2 a b = 0 \<longleftrightarrow> c1 a b = 0 \<and> c2 a b = 0"
  by (auto simp: cmp_then_def Let_def)

lemma str_compare_eq [simp]: "str_compare a b = 0 \<longleftrightarrow> a = b"
  by (auto simp: str_compare_def)

section \<open>Grouping in first-seen order\<close>

fun bucket_add :: "'k \<Rightarrow> 'a \<Rightarrow> ('k \<times> 'a list) list \<Rightarrow> ('k \<times> 'a list) list" where
  "bucket_add k x [] = [(k, [x])]"
| "bucket_add k x ((k', xs) # gs) =
     (if k = k' then (k', xs @ [x]) # gs else (k', xs) # bucket_add k x gs)"

definition bucket :: "('a \<Rightarrow> 'k) \<Rightarrow> 'a list \<Rightarrow> ('k \<times> 'a list) list" where
  "bucket f xs = foldl (\<lambda>gs x. bucket_add (f x) x gs) [] xs"

lemma bucket_snoc [simp]: "bucket f [] = []" "bucket f (xs @ [x]) = bucket_add (f x) x (bucket f xs)"
  by (simp_all add: bucket_def)

lemma keys_bucket_add: "fst ` set (bucket_add k x gs) = insert k (fst ` set gs)"
  by (induction k x gs rule: bucket_add.induct) (simp_all add: insert_commute)

lemma distinct_bucket_add:
  "distinct (map fst gs) \<Longrightarrow> distinct (map fst (bucket_add k x gs))"
proof (induction gs)
  case (Cons g gs)
  then show ?case using keys_bucket_add [of k x gs] by (cases g) (auto simp: image_iff)
qed simp

lemma mset_bucket_add:
  "mset (concat (map snd (bucket_add k x gs))) = add_mset x (mset (concat (map snd gs)))"
  by (induction gs) auto

lemma keys_bucket: "fst ` set (bucket f xs) = f ` set xs"
  by (induction xs rule: rev_induct) (auto simp: keys_bucket_add)

lemma distinct_bucket: "distinct (map fst (bucket f xs))"
  by (induction xs rule: rev_induct) (auto simp: distinct_bucket_add)

lemma mset_bucket: "mset (concat (map snd (bucket f xs))) = mset xs"
  by (induction xs rule: rev_induct) (auto simp: mset_bucket_add)

lemma bucket_add_in:
  assumes "distinct (map fst gs)" "(k', ys) \<in> set (bucket_add k x gs)"
  shows "(k' \<noteq> k \<and> (k', ys) \<in> set gs) \<or>
         (k' = k \<and> (\<exists>zs. (k, zs) \<in> set gs \<and> ys = zs @ [x])) \<or>
         (k' = k \<and> k \<notin> fst ` set gs \<and> ys = [x])"
  using assms
proof (induction gs)
  case (Cons g gs)
  then show ?case by (cases g) (auto simp: image_iff split: if_splits)
qed simp

lemma bucket_in: "(k, ys) \<in> set (bucket f xs) \<Longrightarrow> ys = filter (\<lambda>x. f x = k) xs \<and> ys \<noteq> []"
proof (induction xs arbitrary: ys rule: rev_induct)
  case (snoc x xs)
  have none: "filter (\<lambda>y. f y = k) xs = []" if "k \<notin> fst ` set (bucket f xs)"
    using that by (auto simp: keys_bucket filter_empty_conv)
  from snoc bucket_add_in [OF distinct_bucket, of k ys "f x" x f xs] none show ?case
    by auto
qed simp

lemma bucket_in_key: "(k, ys) \<in> set (bucket f xs) \<Longrightarrow> y \<in> set ys \<Longrightarrow> f y = k \<and> y \<in> set xs"
  using bucket_in by fastforce

section \<open>Sums over lists\<close>

lemma concat_map_mset: "mset (concat (map f xs)) = (\<Sum>x\<leftarrow>xs. mset (f x))"
  by (induction xs) auto

lemma sum_list_concat_map:
  fixes h :: "'a \<Rightarrow> 'b multiset"
  shows "(\<Sum>c\<leftarrow>concat (map f gs). h c) = (\<Sum>g\<leftarrow>gs. \<Sum>c\<leftarrow>f g. h c)"
  by (induction gs) (simp_all add: sum_list_append)

lemma drop_Suc_length_append [simp]: "drop (Suc (length p)) (p @ x # r) = r"
  by simp

lemma sum_list_mset_perm:
  fixes f :: "'a \<Rightarrow> 'b multiset"
  assumes "mset xs = mset ys"
  shows "(\<Sum>x\<leftarrow>xs. f x) = (\<Sum>x\<leftarrow>ys. f x)"
proof -
  have "mset (map f xs) = mset (map f ys)" using assms by simp
  then show ?thesis by (metis sum_mset_sum_list)
qed

end
