(* ===== verification/Go_Maps.thy ===== *)
theory Go_Maps
  imports Prelude "HOL-Library.AList"
begin

text \<open>
  Go maps with string keys.  Go iterates over a map in an unspecified order, so a map is
  modelled by its bindings in the order the iteration happens to take: a theorem about a
  loop over such a list holds for every order.  The interface that the components use is
  the locale \<open>go_map\<close>; \<open>gget\<close>, \<open>gput\<close>, \<open>gdel\<close>, \<open>gprune\<close> on binding lists provide it.
\<close>

type_synonym 'v gomap = "(string \<times> 'v) list"

definition gget :: "'v gomap \<Rightarrow> string \<Rightarrow> 'v option" where
  "gget m k = map_of m k"

definition gput :: "string \<Rightarrow> 'v \<Rightarrow> 'v gomap \<Rightarrow> 'v gomap" where
  "gput k v m = AList.update k v m"

definition gdel :: "string \<Rightarrow> 'v gomap \<Rightarrow> 'v gomap" where
  "gdel k m = AList.delete k m"

text \<open>\<^verbatim>\<open>for k := range m { if !keep[k] { delete(m, k) } }\<close>\<close>

definition gprune :: "(string \<Rightarrow> bool) \<Rightarrow> 'v gomap \<Rightarrow> 'v gomap" where
  "gprune keep m = filter (\<lambda>(k, _). keep k) m"

definition gwf :: "'v gomap \<Rightarrow> bool" where
  "gwf m \<longleftrightarrow> distinct (map fst m)"

text \<open>\<^verbatim>\<open>maps.Copy(dst, src)\<close>, and the zero value \<^verbatim>\<open>""\<close> that reading an absent key gives.\<close>

definition gcopy :: "'v gomap \<Rightarrow> 'v gomap \<Rightarrow> 'v gomap" where
  "gcopy dst src = foldl (\<lambda>m (k, v). gput k v m) dst src"

definition gstr :: "string gomap \<Rightarrow> string \<Rightarrow> string" where
  "gstr m k = (case gget m k of None \<Rightarrow> [] | Some v \<Rightarrow> v)"

text \<open>\<^verbatim>\<open>maps.Equal\<close>\<close>

definition gequal :: "'v gomap \<Rightarrow> 'v gomap \<Rightarrow> bool" where
  "gequal a b \<longleftrightarrow> list_all (\<lambda>(k, _). gget a k = gget b k) (a @ b)"

locale go_map =
  fixes get :: "'m \<Rightarrow> string \<Rightarrow> 'v option"
    and put :: "string \<Rightarrow> 'v \<Rightarrow> 'm \<Rightarrow> 'm"
    and del :: "string \<Rightarrow> 'm \<Rightarrow> 'm"
    and prune :: "(string \<Rightarrow> bool) \<Rightarrow> 'm \<Rightarrow> 'm"
    and wf :: "'m \<Rightarrow> bool"
  assumes get_put: "get (put k v m) k' = (if k' = k then Some v else get m k')"
    and get_del: "wf m \<Longrightarrow> get (del k m) k' = (if k' = k then None else get m k')"
    and get_prune: "wf m \<Longrightarrow> get (prune keep m) k = (if keep k then get m k else None)"
    and wf_put: "wf m \<Longrightarrow> wf (put k v m)"
    and wf_del: "wf m \<Longrightarrow> wf (del k m)"
    and wf_prune: "wf m \<Longrightarrow> wf (prune keep m)"
begin

text \<open>Writes to different keys commute: the outcome of concurrent writers does not depend on their order.\<close>

lemma put_commute: "k \<noteq> k' \<Longrightarrow> get (put k v (put k' v' m)) = get (put k' v' (put k v m))"
  by (auto simp: get_put fun_eq_iff)

lemma get_foldl_put_other:
  "k \<notin> fst ` set kvs \<Longrightarrow> get (foldl (\<lambda>m (k, v). put k v m) m kvs) k = get m k"
  by (induction kvs arbitrary: m) (auto simp: get_put)

lemma get_foldl_put:
  "distinct (map fst kvs) \<Longrightarrow>
   get (foldl (\<lambda>m (k, v). put k v m) m kvs) k =
     (case map_of kvs k of None \<Rightarrow> get m k | Some v \<Rightarrow> Some v)"
proof (induction kvs arbitrary: m)
  case (Cons kv kvs)
  obtain k' v where kv: "kv = (k', v)" by (cases kv)
  show ?case
  proof (cases "k = k'")
    case True
    with Cons.prems have "k \<notin> fst ` set kvs" by (auto simp: kv)
    then show ?thesis using True by (simp add: kv get_foldl_put_other get_put)
  next
    case False
    with Cons show ?thesis by (simp add: kv get_put split: option.splits)
  qed
qed simp

lemma wf_foldl_put: "wf m \<Longrightarrow> wf (foldl (\<lambda>m (k, v). put k v m) m kvs)"
  by (induction kvs arbitrary: m) (auto intro: wf_put)

text \<open>Any two orders of the same writes to distinct keys leave the same map.\<close>

lemma writes_permute:
  assumes "distinct (map fst kvs)" "mset kvs' = mset kvs"
  shows "get (foldl (\<lambda>m (k, v). put k v m) m kvs') = get (foldl (\<lambda>m (k, v). put k v m) m kvs)"
proof
  fix k
  have "mset (map fst kvs') = mset (map fst kvs)" using assms(2) by simp
  then have d: "distinct (map fst kvs')" using assms(1) mset_eq_imp_distinct_iff by blast
  have "set kvs' = set kvs" using assms(2) mset_eq_setD by blast
  then have "map_of kvs' k = map_of kvs k"
    using map_of_eqI [of kvs' kvs] assms(1) d map_of_inject_set by metis
  then show "get (foldl (\<lambda>m (k, v). put k v m) m kvs') k = get (foldl (\<lambda>m (k, v). put k v m) m kvs) k"
    using assms(1) d by (simp add: get_foldl_put)
qed

text \<open>After pruning to the keys just written, exactly those remain.\<close>

lemma get_prune_writes:
  assumes "wf m" "distinct (map fst kvs)"
  shows "get (prune (\<lambda>k. k \<in> fst ` set kvs) (foldl (\<lambda>m (k, v). put k v m) m kvs)) = map_of kvs"
proof
  fix k
  have "map_of kvs k = None \<longleftrightarrow> k \<notin> fst ` set kvs" by (rule map_of_eq_None_iff)
  then show "get (prune (\<lambda>k. k \<in> fst ` set kvs) (foldl (\<lambda>m (k, v). put k v m) m kvs)) k = map_of kvs k"
    using assms by (auto simp: get_prune wf_foldl_put get_foldl_put split: option.splits)
qed

end

lemma map_of_filter_key: "map_of (filter (\<lambda>(k, _). P k) m) k = (if P k then map_of m k else None)"
  by (induction m) auto

interpretation gm: go_map gget gput gdel gprune gwf
proof
  fix k k' :: string and v :: 'a and m :: "'a gomap" and keep
  show "gget (gput k v m) k' = (if k' = k then Some v else gget m k')"
    by (simp add: gget_def gput_def update_conv')
  show "gget (gprune keep m) k = (if keep k then gget m k else None)"
    by (simp add: gget_def gprune_def map_of_filter_key)
  show "gget (gdel k m) k' = (if k' = k then None else gget m k')"
    by (simp add: gget_def gdel_def delete_conv')
  assume wf: "gwf m"
  show "gwf (gput k v m)" using wf by (simp add: gwf_def gput_def distinct_update)
  show "gwf (gdel k m)" using wf by (simp add: gwf_def gdel_def distinct_delete)
  show "gwf (gprune keep m)"
    using wf unfolding gwf_def gprune_def by (rule distinct_map_filter)
qed

lemma gget_Nil [simp]: "gget [] k = None"
  by (simp add: gget_def)

lemma gwf_Nil [simp]: "gwf []"
  by (simp add: gwf_def)

lemma gwf_values_keys: "gwf m \<Longrightarrow> (k, v) \<in> set m \<longleftrightarrow> gget m k = Some v"
  by (simp add: gwf_def gget_def)

lemma gget_gcopy:
  "gwf src \<Longrightarrow> gget (gcopy dst src) k = (case gget src k of None \<Rightarrow> gget dst k | Some v \<Rightarrow> Some v)"
  unfolding gcopy_def gwf_def by (subst gm.get_foldl_put) (auto simp: gget_def)

lemma gwf_gcopy: "gwf dst \<Longrightarrow> gwf (gcopy dst src)"
  unfolding gcopy_def by (rule gm.wf_foldl_put)

lemma gequal_iff: "gequal a b \<longleftrightarrow> gget a = gget b"
proof
  assume eq: "gequal a b"
  show "gget a = gget b"
  proof
    fix k
    show "gget a k = gget b k"
    proof (cases "k \<in> fst ` set (a @ b)")
      case True
      with eq show ?thesis by (auto simp: gequal_def list_all_iff)
    next
      case False
      then have "gget a k = None" "gget b k = None"
        by (auto simp: gget_def map_of_eq_None_iff image_Un)
      then show ?thesis by simp
    qed
  qed
qed (auto simp: gequal_def list_all_iff)

lemma gequal_refl [simp]: "gequal m m"
  by (simp add: gequal_iff)

lemma gput_fresh: "k \<notin> fst ` set m \<Longrightarrow> gput k v m = m @ [(k, v)]"
  unfolding gput_def by (induction m) auto

lemma gget_None_keys: "gget m k = None \<longleftrightarrow> k \<notin> fst ` set m"
  by (simp add: gget_def map_of_eq_None_iff)

end
