(* ===== verification/Api_Types.thy ===== *)
theory Api_Types
  imports Go_Maps
begin

text \<open>
  The custom resources of \<^verbatim>\<open>api/v1alpha1\<close>: one record per Go struct, one field per struct
  field (\<^verbatim>\<open>TypeMeta\<close> and the metadata no code reads left out), and the helper methods the
  packages share.  Pointers are options, Go maps are \<^typ>\<open>'v gomap\<close>, \<^verbatim>\<open>int32\<close> fields are
  \<open>int\<close>: the program compares and prints them but does no arithmetic that could leave
  their range.  A Kubernetes struct that the program only copies (an affinity, a
  toleration, a volume, \<dots>) is the JSON value it denotes.
\<close>

datatype json = JNull | JBool bool | JNum string | JStr string | JArr "json list" | JObj "(string \<times> json) list"

section \<open>\<^verbatim>\<open>common_types.go\<close>\<close>

record dashboard_ref =
  dr_name :: string

definition ref_name :: "dashboard_ref option \<Rightarrow> string" where
  "ref_name ref = (case ref of None \<Rightarrow> [] | Some r \<Rightarrow> dr_name r)"

definition bound_to :: "string \<Rightarrow> string \<Rightarrow> nat \<Rightarrow> bool" where
  "bound_to refName dashboardName namespaceDashboardCount =
     (if refName \<noteq> [] then refName = dashboardName else namespaceDashboardCount = 1)"

record secret_key_ref =
  skr_name :: string
  skr_key :: string

record secret_value_source =
  sv_value :: "string option"
  sv_key_ref :: "secret_key_ref option"

definition SecretPolicyUnrestricted :: string where "SecretPolicyUnrestricted = ''Unrestricted''"
definition SecretPolicyLabeled :: string where "SecretPolicyLabeled = ''Labeled''"
definition SecretAllowWidgetsLabel :: string where
  "SecretAllowWidgetsLabel = ''page.kubepage.dev/allow-widgets''"

section \<open>\<^verbatim>\<open>servicecard_types.go\<close>\<close>

record highlight_rule =
  hr_level :: string
  hr_when :: string
  hr_value :: string
  hr_value2 :: "string option"
  hr_negate :: "bool option"
  hr_case_sensitive :: "bool option"

record field_highlight =
  fh_rules :: "highlight_rule list"
  fh_scope :: "string option"

record label_requirement =
  lq_key :: string
  lq_operator :: string
  lq_values :: "string list"

record label_selector =
  ls_match_labels :: "string gomap"
  ls_match_expressions :: "label_requirement list"

record service_widget =
  sw_type :: string
  sw_url :: "string option"
  sw_secrets :: "secret_value_source gomap"
  sw_secret_ref :: "string option"
  sw_ca_cert :: "secret_value_source option"
  sw_config :: "json option"
  sw_fields :: "string list"
  sw_highlight :: "field_highlight gomap"
  sw_poll_interval :: "int option"

record service_entry =
  se_group :: string
  se_name :: string
  se_order :: "int option"
  se_href :: "string option"
  se_internal_url :: "string option"
  se_target :: "string option"
  se_icon :: "string option"
  se_description :: "string option"
  se_show_stats :: "bool option"
  se_error_display :: "bool option"
  se_monitor :: "string option"
  se_app :: "string option"
  se_namespace :: "string option"
  se_pod_selector :: "label_selector option"
  se_status_style :: "string option"
  se_widgets :: "service_widget list"

definition MonitorSelf :: string where "MonitorSelf = ''self''"
definition InternalURLAuto :: string where "InternalURLAuto = ''auto''"

definition BaseURL :: "service_entry \<Rightarrow> string" where
  "BaseURL se =
     (case se_internal_url se of
        Some u \<Rightarrow> if u \<noteq> [] then u else set_opt (se_href se) []
      | None \<Rightarrow> set_opt (se_href se) [])"

definition MonitorURLWithBase :: "service_entry \<Rightarrow> string \<Rightarrow> string" where
  "MonitorURLWithBase se base =
     (case se_monitor se of
        None \<Rightarrow> []
      | Some m \<Rightarrow> if m = [] then [] else if m = MonitorSelf then base else m)"

definition MonitorURL :: "service_entry \<Rightarrow> string" where
  "MonitorURL se = MonitorURLWithBase se (BaseURL se)"

record service_card_spec =
  sc_dashboard_ref :: "dashboard_ref option"
  sc_group :: string
  sc_services :: "service_entry list"

definition service_entries :: "service_card_spec \<Rightarrow> service_entry list" where
  "service_entries s =
     map (\<lambda>e. if se_group e = [] then e\<lparr>se_group := sc_group s\<rparr> else e) (sc_services s)"

text \<open>A condition of an object's status (\<^verbatim>\<open>metav1.Condition\<close>; its transition time is left out).\<close>

datatype cond_status = CondTrue | CondFalse | CondUnknown

record condition =
  cond_type :: string
  cond_status :: cond_status
  cond_reason :: string
  cond_message :: string
  cond_observed_generation :: int

record service_card =
  card_namespace :: string
  card_name :: string
  card_generation :: int
  card_spec :: service_card_spec
  card_conditions :: "condition list"
  card_entries :: int

section \<open>\<^verbatim>\<open>bookmark_types.go\<close>\<close>

record bookmark_entry =
  be_group :: string
  be_name :: string
  be_href :: string
  be_target :: "string option"
  be_order :: "int option"
  be_abbr :: "string option"
  be_icon :: "string option"
  be_description :: "string option"

record bookmark_spec =
  bm_dashboard_ref :: "dashboard_ref option"
  bm_group :: string
  bm_bookmarks :: "bookmark_entry list"

definition bookmark_entries :: "bookmark_spec \<Rightarrow> bookmark_entry list" where
  "bookmark_entries s =
     map (\<lambda>e. if be_group e = [] then e\<lparr>be_group := bm_group s\<rparr> else e) (bm_bookmarks s)"

record bookmark =
  bmk_namespace :: string
  bmk_name :: string
  bmk_generation :: int
  bmk_spec :: bookmark_spec
  bmk_conditions :: "condition list"
  bmk_entries :: int

section \<open>\<^verbatim>\<open>infowidget_types.go\<close>\<close>

definition AlignLeft :: string where "AlignLeft = ''Left''"
definition AlignRight :: string where "AlignRight = ''Right''"

record info_widget_entry =
  ie_type :: string
  ie_url :: "string option"
  ie_order :: "int option"
  ie_icon :: "string option"
  ie_align :: "string option"
  ie_secrets :: "secret_value_source gomap"
  ie_secret_ref :: "string option"
  ie_ca_cert :: "secret_value_source option"
  ie_config :: "json option"
  ie_poll_interval :: "int option"

record info_widget_spec =
  iw_dashboard_ref :: "dashboard_ref option"
  iw_widgets :: "info_widget_entry list"

definition info_entries :: "info_widget_spec \<Rightarrow> info_widget_entry list" where
  "info_entries s = iw_widgets s"

record info_widget =
  iwd_namespace :: string
  iwd_name :: string
  iwd_generation :: int
  iwd_spec :: info_widget_spec
  iwd_conditions :: "condition list"
  iwd_entries :: int

section \<open>\<^verbatim>\<open>style_types.go\<close>\<close>

record background_spec =
  bs_image :: "string option"
  bs_blur :: "string option"
  bs_saturate :: "int option"
  bs_brightness :: "int option"
  bs_opacity :: "int option"

record search_spec =
  ss_provider :: "string option"
  ss_url :: "string option"
  ss_target :: "string option"
  ss_filter_cards :: "bool option"
  ss_search_descriptions :: "bool option"
  ss_internet_search_entry :: "bool option"
  ss_visit_url_entry :: "bool option"

record layout_group_spec =
  lgs_name :: string
  lgs_columns :: "int option"
  lgs_style :: "string option"
  lgs_icon :: "string option"
  lgs_header :: "bool option"
  lgs_initially_collapsed :: "bool option"
  lgs_use_equal_heights :: "bool option"

record layout_tab_spec =
  lts_name :: string
  lts_groups :: "layout_group_spec list"

record style_spec =
  st_title :: "string option"
  st_description :: "string option"
  st_favicon :: "string option"
  st_card_blur :: "string option"
  st_target :: "string option"
  st_background :: "background_spec option"
  st_theme :: "string option"
  st_color :: "string option"
  st_header_style :: "string option"
  st_language :: "string option"
  st_full_width :: "bool option"
  st_search :: "search_spec option"
  st_layout :: "layout_tab_spec list"
  st_collapse :: "bool option"
  st_groups_initially_collapsed :: "bool option"
  st_use_equal_heights :: "bool option"
  st_bookmarks_style :: "string option"
  st_indexing :: "bool option"
  st_start_url :: "string option"
  st_custom_css :: "string option"
  st_custom_js :: "string option"
  st_status_style :: "string option"
  st_error_display :: "bool option"
  st_hide_version :: "bool option"

section \<open>\<^verbatim>\<open>dashboard_types.go\<close>\<close>

record widget_defaults_entry =
  wd_secrets :: "secret_value_source gomap"
  wd_ca_cert :: "secret_value_source option"

record metrics_spec =
  ms_enabled :: bool

record auth_spec =
  as_basic_auth_secret_ref :: "string option"

record network_policy_spec =
  ns_enabled :: bool
  ns_ingress_namespace_selector :: "label_selector option"
  ns_metrics_namespace_selector :: "label_selector option"
  ns_egress_cidrs :: "string list"

record discovery_spec =
  ds_enabled :: bool
  ds_sources :: "string list"
  ds_annotation_prefix :: "string option"
  ds_homepage_compat :: "bool option"
  ds_namespaces :: "string list"

definition DiscoverySourceIngress :: string where "DiscoverySourceIngress = ''Ingress''"
definition DiscoverySourceHTTPRoute :: string where "DiscoverySourceHTTPRoute = ''HTTPRoute''"

definition has_source :: "discovery_spec \<Rightarrow> string \<Rightarrow> bool" where
  "has_source d source =
     (if ds_sources d = [] then source = DiscoverySourceIngress else source \<in> set (ds_sources d))"

record service_spec =
  svs_type :: string
  svs_annotations :: "string gomap"

record ingress_tls_spec =
  its_secret_name :: string

record ingress_spec =
  is_enabled :: bool
  is_host :: string
  is_class_name :: "string option"
  is_annotations :: "string gomap"
  is_tls :: "ingress_tls_spec option"

record gateway_parent_ref =
  gp_name :: string
  gp_namespace :: "string option"
  gp_section_name :: "string option"

record gateway_spec =
  gs_enabled :: bool
  gs_hostnames :: "string list"
  gs_parent_ref :: gateway_parent_ref
  gs_annotations :: "string gomap"

text \<open>
  The scheduling and volume fields of \<^verbatim>\<open>DashboardSpec\<close>, copied into the pod template as they are; where
  the controller later compares them with \<^verbatim>\<open>reflect.DeepEqual\<close>, an absent list or map and an empty one are
  told apart.
\<close>

record pod_passthrough =
  pp_env :: "json list option"
  pp_host_users :: "bool option"
  pp_node_selector :: "string gomap option"
  pp_tolerations :: "json list option"
  pp_affinity :: "json option"
  pp_topology_spread :: "json list option"
  pp_image_pull_secrets :: "string list option"
  pp_volumes :: "json list"
  pp_volume_mounts :: "json list option"
  pp_priority_class :: "string option"

record dashboard_spec =
  ds_replicas :: "int option"
  ds_container_port :: int
  ds_poll_interval_seconds :: "int option"
  ds_pod :: pod_passthrough
  ds_pod_security_context :: "json gomap option"
  ds_container_security_context :: "json gomap option"
  ds_labels :: "string gomap"
  ds_annotations :: "string gomap option"
  ds_readiness_probe :: "json option"
  ds_liveness_probe :: "json option"
  ds_resources :: "json gomap"
  ds_service :: "service_spec option"
  ds_ingress :: "ingress_spec option"
  ds_gateway :: "gateway_spec option"
  ds_discovery :: "discovery_spec option"
  ds_metrics :: "metrics_spec option"
  ds_auth :: "auth_spec option"
  ds_network_policy :: "network_policy_spec option"
  ds_secret_policy :: "string option"
  ds_widget_defaults :: "widget_defaults_entry gomap"
  ds_style :: "style_spec option"
  ds_monitor_namespaces :: "string list"
  ds_cluster_domain :: "string option"

record dashboard_status =
  dst_conditions :: "condition list"
  dst_observed_generation :: int
  dst_bound_service_cards :: int
  dst_bound_bookmarks :: int
  dst_bound_info_widgets :: int
  dst_url :: string
  dst_discovery_namespaces :: "string list"
  dst_monitor_namespaces :: "string list"

record dashboard =
  d_namespace :: string
  d_name :: string
  d_generation :: int
  d_finalizers :: "string list"
  d_deleting :: bool
  d_spec :: dashboard_spec
  d_status :: dashboard_status

section \<open>Lemmas\<close>

lemma service_entries_length [simp]: "length (service_entries s) = length (sc_services s)"
  by (simp add: service_entries_def)

lemma service_entries_group:
  "e \<in> set (service_entries s) \<Longrightarrow> se_group e = [] \<Longrightarrow> sc_group s = []"
  by (auto simp: service_entries_def split: if_splits)

lemma bound_to_explicit: "r \<noteq> [] \<Longrightarrow> bound_to r d n \<longleftrightarrow> r = d"
  by (simp add: bound_to_def)

lemma bound_to_default: "bound_to [] d n \<longleftrightarrow> n = 1"
  by (simp add: bound_to_def)

section \<open>Zero values\<close>

text \<open>The zero values of the structs, from which the examples build their objects.\<close>

definition zero_pod_passthrough :: pod_passthrough where
  "zero_pod_passthrough = \<lparr>pp_env = None, pp_host_users = None, pp_node_selector = None,
     pp_tolerations = None, pp_affinity = None, pp_topology_spread = None, pp_image_pull_secrets = None,
     pp_volumes = [], pp_volume_mounts = None, pp_priority_class = None\<rparr>"

definition zero_dashboard_spec :: dashboard_spec where
  "zero_dashboard_spec = \<lparr>ds_replicas = None, ds_container_port = 0, ds_poll_interval_seconds = None,
     ds_pod = zero_pod_passthrough, ds_pod_security_context = None,
     ds_container_security_context = None, ds_labels = [], ds_annotations = None,
     ds_readiness_probe = None, ds_liveness_probe = None, ds_resources = [], ds_service = None,
     ds_ingress = None, ds_gateway = None, ds_discovery = None, ds_metrics = None, ds_auth = None,
     ds_network_policy = None, ds_secret_policy = None, ds_widget_defaults = [], ds_style = None,
     ds_monitor_namespaces = [], ds_cluster_domain = None\<rparr>"

definition zero_dashboard_status :: dashboard_status where
  "zero_dashboard_status = \<lparr>dst_conditions = [], dst_observed_generation = 0,
     dst_bound_service_cards = 0, dst_bound_bookmarks = 0, dst_bound_info_widgets = 0, dst_url = [],
     dst_discovery_namespaces = [], dst_monitor_namespaces = []\<rparr>"

definition ex_dashboard :: "string \<Rightarrow> string \<Rightarrow> dashboard" where
  "ex_dashboard ns name = \<lparr>d_namespace = ns, d_name = name, d_generation = 1, d_finalizers = [],
     d_deleting = False, d_spec = zero_dashboard_spec, d_status = zero_dashboard_status\<rparr>"

definition zero_service_widget :: service_widget where
  "zero_service_widget = \<lparr>sw_type = [], sw_url = None, sw_secrets = [], sw_secret_ref = None,
     sw_ca_cert = None, sw_config = None, sw_fields = [], sw_highlight = [], sw_poll_interval = None\<rparr>"

definition zero_service_entry :: service_entry where
  "zero_service_entry = \<lparr>se_group = [], se_name = [], se_order = None, se_href = None,
     se_internal_url = None, se_target = None, se_icon = None, se_description = None,
     se_show_stats = None, se_error_display = None, se_monitor = None, se_app = None,
     se_namespace = None, se_pod_selector = None, se_status_style = None, se_widgets = []\<rparr>"

definition zero_info_widget_entry :: info_widget_entry where
  "zero_info_widget_entry = \<lparr>ie_type = [], ie_url = None, ie_order = None, ie_icon = None,
     ie_align = None, ie_secrets = [], ie_secret_ref = None, ie_ca_cert = None, ie_config = None,
     ie_poll_interval = None\<rparr>"

definition ex_service_card :: "string \<Rightarrow> string \<Rightarrow> service_entry list \<Rightarrow> service_card" where
  "ex_service_card ns name es = \<lparr>card_namespace = ns, card_name = name, card_generation = 1,
     card_spec = \<lparr>sc_dashboard_ref = None, sc_group = [], sc_services = es\<rparr>,
     card_conditions = [], card_entries = 0\<rparr>"

end
