(* ===== verification/Reader.thy ===== *)
theory Reader
  imports Api_Types
begin

text \<open>
  What the dashboard process reads from the cluster.  \<^verbatim>\<open>client.Reader\<close> is third-party code: a
  reader is a parameter of the model, one function per call the code makes, and every call
  may fail.  \<open>%q\<close> formatting and the error texts are the code's.
\<close>

datatype 'a get_result = Found 'a | NotFound | GetError string

record service_port =
  port_name :: string
  port_number :: int

record kube_service =
  ksvc_name :: string
  ksvc_ports :: "service_port list"

record pod_condition =
  pc_type :: string
  pc_status :: string

record ingress_rule_src =
  ir_host :: string

record ingress_src =
  ing_namespace :: string
  ing_name :: string
  ing_annotations :: "string gomap"
  ing_rule_hosts :: "string list"
  ing_tls_hosts :: "string list list"

record route_src =
  rt_namespace :: string
  rt_name :: string
  rt_annotations :: "string gomap"
  rt_hostnames :: "string list"

text \<open>A pod is what the monitor looks at: its status conditions.\<close>

type_synonym pod = "pod_condition list"

record reader =
  rd_get_dashboard :: "string \<Rightarrow> string \<Rightarrow> dashboard get_result"
  rd_list_dashboards :: "string \<Rightarrow> string + dashboard list"
  rd_list_service_cards :: "string \<Rightarrow> string + service_card list"
  rd_list_bookmarks :: "string \<Rightarrow> string + bookmark list"
  rd_list_info_widgets :: "string \<Rightarrow> string + info_widget list"
  rd_get_secret :: "string \<Rightarrow> string \<Rightarrow> string gomap get_result"
  rd_get_service :: "string \<Rightarrow> string \<Rightarrow> kube_service get_result"
  rd_list_services :: "string \<Rightarrow> string \<times> string \<Rightarrow> string + kube_service list"
  rd_list_pods :: "string \<Rightarrow> label_selector \<Rightarrow> string + pod list"
  rd_list_ingresses :: "string \<Rightarrow> string + ingress_src list"
  rd_list_routes :: "string \<Rightarrow> string + route_src list"

definition hex_digit :: "nat \<Rightarrow> char" where
  "hex_digit d = (if d < 10 then char_of (48 + d) else char_of (87 + d))"

text \<open>\<^verbatim>\<open>%q\<close>: the quoted form of a string (bytes above 127 are taken to be printable text).\<close>

definition quote_char :: "char \<Rightarrow> string" where
  "quote_char c =
     (let n = (of_char c :: nat) in
      if n = 34 then [CHR 0x5C, c] else if n = 92 then [CHR 0x5C, c]
      else if n = 7 then [CHR 0x5C, CHR ''a''] else if n = 8 then [CHR 0x5C, CHR ''b'']
      else if n = 9 then [CHR 0x5C, CHR ''t''] else if n = 10 then [CHR 0x5C, CHR ''n'']
      else if n = 11 then [CHR 0x5C, CHR ''v''] else if n = 12 then [CHR 0x5C, CHR ''f'']
      else if n = 13 then [CHR 0x5C, CHR ''r'']
      else if n < 32 \<or> n = 127 then [CHR 0x5C, CHR ''x'', hex_digit (n div 16), hex_digit (n mod 16)]
      else [c])"

definition quoted :: "string \<Rightarrow> string" where
  "quoted s = [CHR 0x22] @ concat (map quote_char s) @ [CHR 0x22]"

text \<open>\<^verbatim>\<open>namespaceDashboardCount\<close> (\<^verbatim>\<open>site.go\<close>)\<close>

definition namespaceDashboardCount :: "reader \<Rightarrow> string \<Rightarrow> string + nat" where
  "namespaceDashboardCount rd ns =
     (case rd_list_dashboards rd ns of Inl e \<Rightarrow> Inl e | Inr ds \<Rightarrow> Inr (length ds))"

text \<open>A small cluster for the examples: one Dashboard, and the given cards, bookmarks and Secrets.\<close>

definition ex_reader :: "dashboard \<Rightarrow> service_card list \<Rightarrow> bookmark list \<Rightarrow> info_widget list \<Rightarrow>
    (string \<times> string gomap) list \<Rightarrow> reader" where
  "ex_reader d cards bms iws secrets = \<lparr>
     rd_get_dashboard = (\<lambda>ns n. if ns = d_namespace d \<and> n = d_name d then Found d else NotFound),
     rd_list_dashboards = (\<lambda>_. Inr [d]), rd_list_service_cards = (\<lambda>_. Inr cards),
     rd_list_bookmarks = (\<lambda>_. Inr bms), rd_list_info_widgets = (\<lambda>_. Inr iws),
     rd_get_secret = (\<lambda>_ n. case gget secrets n of Some s \<Rightarrow> Found s | None \<Rightarrow> NotFound),
     rd_get_service = (\<lambda>_ _. NotFound), rd_list_services = (\<lambda>_ _. Inr []),
     rd_list_pods = (\<lambda>_ _. Inr []), rd_list_ingresses = (\<lambda>_. Inr []),
     rd_list_routes = (\<lambda>_. Inr [])\<rparr>"

end
