(* ===== verification/Icon.thy ===== *)
theory Icon
  imports Prelude
begin

text \<open>
  Icon resolution (\<^verbatim>\<open>internal/dashboard/icon.go\<close>) and the URL check of
  \<^verbatim>\<open>render_helpers.go\<close>.  Proved here: a resolved icon is empty or an http(s) URL, and a
  colour suffix is split off exactly as it was appended.
\<close>

definition isHTTPURL :: "string \<Rightarrow> bool" where
  "isHTTPURL s \<longleftrightarrow> has_prefix s ''http://'' \<or> has_prefix s ''https://''"

definition dashboardIconsBaseURL :: string where
  "dashboardIconsBaseURL = ''https://cdn.jsdelivr.net/gh/homarr-labs/dashboard-icons/png/''"

definition iconifyBaseURL :: string where
  "iconifyBaseURL = ''https://api.iconify.design/''"

definition selfhstIconsBaseURL :: string where
  "selfhstIconsBaseURL = ''https://cdn.jsdelivr.net/gh/selfhst/icons/''"

definition splitColorSuffix :: "string \<Rightarrow> string \<times> string" where
  "splitColorSuffix slug =
     (case last_index ''-#'' slug of
        None \<Rightarrow> (slug, [])
      | Some i \<Rightarrow> (take i slug, drop (i + 2) slug))"

definition iconifyIconURL :: "string \<Rightarrow> string \<Rightarrow> string" where
  "iconifyIconURL setName slug =
     (let (name, color) = splitColorSuffix slug;
          url = iconifyBaseURL @ setName @ ''/'' @ to_lower name @ ''.svg''
      in if color \<noteq> [] then url @ ''?color=%23'' @ color else url)"

text \<open>The loop over the three recognised extensions: the first that matches decides.\<close>

fun selfhst_ext :: "string list \<Rightarrow> string \<Rightarrow> string" where
  "selfhst_ext [] slug = selfhstIconsBaseURL @ ''png/'' @ to_lower slug @ ''.png''"
| "selfhst_ext (ext # exts) slug =
     (if has_suffix slug ext
      then selfhstIconsBaseURL @ drop 1 ext @ ''/''
             @ to_lower (take (length slug - length ext) slug) @ ext
      else selfhst_ext exts slug)"

definition selfhstIconURL :: "string \<Rightarrow> string" where
  "selfhstIconURL slug = selfhst_ext [''.svg'', ''.png'', ''.webp''] slug"

text \<open>The prefixes served by Iconify, in the order the code tries them, with their icon set.\<close>

definition iconify_prefixes :: "(string \<times> string) list" where
  "iconify_prefixes =
     [(''mdi-'', ''mdi''), (''si-'', ''simple-icons''), (''lucide-'', ''lucide''), (''wi-'', ''wi''),
      (''fa6-solid-'', ''fa6-solid'')]"

fun try_iconify :: "(string \<times> string) list \<Rightarrow> string \<Rightarrow> string option" where
  "try_iconify [] v = None"
| "try_iconify ((p, set_name) # ps) v =
     (case cut_prefix v p of Some rest \<Rightarrow> Some (iconifyIconURL set_name rest)
      | None \<Rightarrow> try_iconify ps v)"

definition IconURL :: "string option \<Rightarrow> string" where
  "IconURL icon =
     (case icon of
        None \<Rightarrow> []
      | Some v \<Rightarrow>
          if v = [] then []
          else if has_prefix v ''http://'' \<or> has_prefix v ''https://'' then v
          else case try_iconify iconify_prefixes v of
                 Some u \<Rightarrow> u
               | None \<Rightarrow>
                   (case cut_prefix v ''sh-'' of
                      Some rest \<Rightarrow> selfhstIconURL rest
                    | None \<Rightarrow> dashboardIconsBaseURL @ to_lower v @ ''.png''))"

section \<open>Lemmas\<close>

lemma isHTTPURL_https: "isHTTPURL (''https://'' @ s)"
  unfolding isHTTPURL_def by simp

lemma base_urls_https:
  "isHTTPURL (dashboardIconsBaseURL @ s)" "isHTTPURL (iconifyBaseURL @ s)"
  "isHTTPURL (selfhstIconsBaseURL @ s)"
  by (simp_all add: isHTTPURL_def dashboardIconsBaseURL_def iconifyBaseURL_def selfhstIconsBaseURL_def)

lemma iconify_https: "isHTTPURL (iconifyIconURL sn slug)"
  unfolding iconifyIconURL_def Let_def by (simp add: base_urls_https split: prod.split)

lemma selfhst_ext_https: "isHTTPURL (selfhst_ext exts slug)"
  by (induction exts) (simp_all add: base_urls_https)

lemma try_iconify_https: "try_iconify ps v = Some u \<Longrightarrow> isHTTPURL u"
  by (induction ps v rule: try_iconify.induct) (auto simp: iconify_https split: option.splits)

lemma last_index_color:
  "CHR ''-'' \<notin> set color \<Longrightarrow> last_index ''-#'' (name @ ''-#'' @ color) = Some (length name)"
proof (induction name)
  case Nil
  then have "last_index ''-#'' color = None"
    by (induction color) (auto simp: has_prefix_def)
  then show ?case by simp
next
  case (Cons c name)
  then show ?case by simp
qed

lemma splitColorSuffix_append:
  "CHR ''-'' \<notin> set color \<Longrightarrow> splitColorSuffix (name @ ''-#'' @ color) = (name, color)"
  using last_index_color [of color name] by (simp add: splitColorSuffix_def)

section \<open>Properties\<close>

text \<open>
  Whatever the icon field holds, the URL put into the page is empty or an http(s) URL: no
  \<^verbatim>\<open>javascript:\<close> or \<^verbatim>\<open>data:\<close> URL can come out of it.
\<close>

theorem IconURL_http: "IconURL icon = [] \<or> isHTTPURL (IconURL icon)"
  by (auto simp: IconURL_def isHTTPURL_def selfhstIconURL_def base_urls_https [unfolded isHTTPURL_def]
      dest: try_iconify_https [unfolded isHTTPURL_def]
      intro: selfhst_ext_https [unfolded isHTTPURL_def] split: option.splits)

end
