(* ===== verification/Store.thy ===== *)
theory Store
  imports Go_Maps
begin

text \<open>
  The card store of \<^verbatim>\<open>internal/dashboard/store.go\<close>: the latest \<open>Card\<close> of every widget
  instance, keyed by \<open>Card.Key\<close>, written by the poller and read by the HTTP handlers.
  Proved here: the store's well-formedness is kept by every operation, \<open>Snapshot\<close> is sorted
  by the documented order, loses nothing, and does not depend on the iteration order of the
  underlying Go map.  The locale \<open>card_store\<close> is what a poll cycle relies on; the store
  provides it.
\<close>

text \<open>\<^verbatim>\<open>widget.go\<close>'s \<^verbatim>\<open>Field\<close>\<close>

record Field =
  f_label :: string
  f_value :: string
  f_percent :: "int option"
  f_highlight :: string

record Card =
  c_key :: string
  c_group :: string
  c_service_name :: string
  c_widget_type :: string
  c_order :: "int option"
  c_icon_url :: string
  c_description :: string
  c_href :: string
  c_target :: string
  c_header :: bool
  c_show_stats :: bool
  c_hide_errors :: bool
  c_status :: string
  c_status_style :: string
  c_latency :: string
  c_pod_status :: string
  c_pod_ready_text :: string
  c_fields :: "Field list"
  c_err :: string
  c_updated_at :: int

text \<open>The zero \<open>Card\<close>, on which the code's composite literals build.\<close>

definition zero_card :: Card where
  "zero_card = \<lparr>c_key = [], c_group = [], c_service_name = [], c_widget_type = [], c_order = None,
     c_icon_url = [], c_description = [], c_href = [], c_target = [], c_header = False,
     c_show_stats = False, c_hide_errors = False, c_status = [], c_status_style = [],
     c_latency = [], c_pod_status = [], c_pod_ready_text = [], c_fields = [], c_err = [],
     c_updated_at = 0\<rparr>"

type_synonym Store = "Card gomap"

definition NewStore :: Store where
  "NewStore = []"

definition Store_Set :: "Card \<Rightarrow> Store \<Rightarrow> Store" where
  "Store_Set c s = gput (c_key c) c s"

definition Store_Get :: "Store \<Rightarrow> string \<Rightarrow> Card option" where
  "Store_Get s key = gget s key"

definition Store_Prune :: "(string \<Rightarrow> bool) \<Rightarrow> Store \<Rightarrow> Store" where
  "Store_Prune keep s = gprune keep s"

fun compareOrder :: "int option \<Rightarrow> int option \<Rightarrow> int" where
  "compareOrder None None = 0"
| "compareOrder None (Some _) = 1"
| "compareOrder (Some _) None = -1"
| "compareOrder (Some a) (Some b) = (if a < b then -1 else if a > b then 1 else 0)"

definition compareCards :: "Card \<Rightarrow> Card \<Rightarrow> int" where
  "compareCards =
     cmp_then (\<lambda>a b. str_compare (c_group a) (c_group b))
    (cmp_then (\<lambda>a b. compareOrder (c_order a) (c_order b))
    (cmp_then (\<lambda>a b. str_compare (c_service_name a) (c_service_name b))
              (\<lambda>a b. str_compare (c_key a) (c_key b))))"

definition Store_Snapshot :: "Store \<Rightarrow> Card list" where
  "Store_Snapshot s = sort_by compareCards (map snd s)"

section \<open>The comparators\<close>

lemma comparator_order: "comparator compareOrder"
proof
  fix a b c
  show "0 < compareOrder a b \<longleftrightarrow> compareOrder b a < 0"
    by (cases a; cases b) auto
  show "compareOrder a b \<le> 0 \<Longrightarrow> compareOrder b c \<le> 0 \<Longrightarrow> compareOrder a c \<le> 0"
    by (cases a; cases b; cases c) (auto split: if_splits)
qed

interpretation order_cmp: comparator compareOrder
  by (rule comparator_order)

lemma comparator_cards: "comparator compareCards"
  unfolding compareCards_def
  by (rule comparator_then [OF comparator_key [OF comparator_str, of c_group]
        comparator_then [OF comparator_key [OF comparator_order, of c_order]
        comparator_then [OF comparator_key [OF comparator_str, of c_service_name]
                            comparator_key [OF comparator_str, of c_key]]]])

interpretation card_cmp: comparator compareCards
  by (rule comparator_cards)

lemma compareCards_key: "compareCards a b = 0 \<Longrightarrow> c_key a = c_key b"
  by (simp add: compareCards_def cmp_then_eq)

lemma compareOrder_None_last: "compareOrder (Some a) None < 0"
  by simp

section \<open>Well-formed stores\<close>

definition store_wf :: "Store \<Rightarrow> bool" where
  "store_wf s \<longleftrightarrow> gwf s \<and> list_all (\<lambda>(k, c). c_key c = k) s"

lemma store_wf_NewStore [simp]: "store_wf NewStore"
  by (simp add: store_wf_def NewStore_def)

lemma store_wf_iff: "store_wf s \<longleftrightarrow> gwf s \<and> (\<forall>k c. gget s k = Some c \<longrightarrow> c_key c = k)"
  unfolding store_wf_def list_all_iff using gwf_values_keys [of s] by fastforce

lemma store_wf_Set: "store_wf s \<Longrightarrow> store_wf (Store_Set c s)"
  by (auto simp: store_wf_iff Store_Set_def gm.get_put gm.wf_put split: if_splits)

lemma store_wf_Prune: "store_wf s \<Longrightarrow> store_wf (Store_Prune keep s)"
  by (auto simp: store_wf_iff Store_Prune_def gm.get_prune gm.wf_prune split: if_splits)

lemma set_Snapshot: "store_wf s \<Longrightarrow> set (Store_Snapshot s) = {c. \<exists>k. Store_Get s k = Some c}"
  using gwf_values_keys [of s]
  by (force simp: Store_Snapshot_def Store_Get_def store_wf_def image_iff)

lemma snapshot_keys_distinct: "store_wf s \<Longrightarrow> distinct (map c_key (Store_Snapshot s))"
proof -
  assume wf: "store_wf s"
  have "map c_key (map snd s) = map fst s"
    using wf by (auto simp: store_wf_def list_all_iff)
  moreover have "mset (map c_key (Store_Snapshot s)) = mset (map c_key (map snd s))"
    by (simp only: Store_Snapshot_def mset_map mset_sort_by)
  ultimately show ?thesis
    using wf mset_eq_imp_distinct_iff by (metis gwf_def store_wf_def)
qed

lemma mset_values_eq:
  assumes "gwf s" "gwf t" "gget s = gget t"
  shows "mset s = mset t"
proof -
  have "set s = set t" using assms gwf_values_keys [of s] gwf_values_keys [of t] by auto
  moreover have "distinct s" "distinct t" using assms by (auto simp: gwf_def distinct_map)
  ultimately show ?thesis by (simp add: set_eq_iff_mset_eq_distinct)
qed

lemma snapshot_iteration_order:
  assumes "store_wf s" "store_wf t" "gget s = gget t"
  shows "Store_Snapshot s = Store_Snapshot t"
  unfolding Store_Snapshot_def
proof (rule card_cmp.sort_by_perm)
  show "mset (map snd s) = mset (map snd t)"
    using mset_values_eq [of s t] assms by (simp add: store_wf_def)
  fix a b
  assume "a \<in> set (map snd s)" "b \<in> set (map snd s)" "compareCards a b = 0"
  then obtain k k' where "(k, a) \<in> set s" "(k', b) \<in> set s" and key: "c_key a = c_key b"
    using compareCards_key by auto
  then have ga: "gget s k = Some a" and gb: "gget s k' = Some b"
    using gwf_values_keys [of s] assms(1) by (auto simp: store_wf_def)
  with assms(1) key have "k = k'" by (auto simp: store_wf_iff)
  with ga gb show "a = b" by simp
qed

section \<open>What a poll cycle relies on\<close>

locale card_store =
  fixes put :: "'c \<Rightarrow> 's \<Rightarrow> 's"
    and get :: "'s \<Rightarrow> string \<Rightarrow> 'c option"
    and prune :: "(string \<Rightarrow> bool) \<Rightarrow> 's \<Rightarrow> 's"
    and snapshot :: "'s \<Rightarrow> 'c list"
    and wf :: "'s \<Rightarrow> bool"
    and key :: "'c \<Rightarrow> string"
  assumes get_put: "wf s \<Longrightarrow> get (put c s) k = (if k = key c then Some c else get s k)"
    and get_prune: "wf s \<Longrightarrow> get (prune keep s) k = (if keep k then get s k else None)"
    and wf_put: "wf s \<Longrightarrow> wf (put c s)"
    and wf_prune: "wf s \<Longrightarrow> wf (prune keep s)"
    and set_snapshot: "wf s \<Longrightarrow> set (snapshot s) = {c. \<exists>k. get s k = Some c}"
    and snapshot_ext: "wf s \<Longrightarrow> wf t \<Longrightarrow> get s = get t \<Longrightarrow> snapshot s = snapshot t"
begin

definition put_all :: "'c list \<Rightarrow> 's \<Rightarrow> 's" where
  "put_all cs s = foldl (\<lambda>s c. put c s) s cs"

lemma put_all_simps [simp]:
  "put_all [] s = s" "put_all (c # cs) s = put_all cs (put c s)"
  by (simp_all add: put_all_def)

lemma wf_put_all: "wf s \<Longrightarrow> wf (put_all cs s)"
  by (induction cs arbitrary: s) (auto intro: wf_put)

lemma get_put_all_notin: "wf s \<Longrightarrow> k \<notin> key ` set cs \<Longrightarrow> get (put_all cs s) k = get s k"
  by (induction cs arbitrary: s) (auto simp: get_put wf_put)

lemma get_put_all:
  "wf s \<Longrightarrow> distinct (map key cs) \<Longrightarrow> c \<in> set cs \<Longrightarrow> get (put_all cs s) (key c) = Some c"
proof (induction cs arbitrary: s)
  case (Cons d cs)
  show ?case
  proof (cases "c \<in> set cs")
    case True
    with Cons show ?thesis by (simp add: wf_put)
  next
    case False
    with Cons.prems have "c = d" "key d \<notin> key ` set cs" by auto
    with Cons.prems show ?thesis by (simp add: get_put_all_notin wf_put get_put)
  qed
qed simp

text \<open>
  A cycle that writes the cards \<open>cs\<close> and prunes to their keys shows exactly \<open>cs\<close>, in the same
  sequence whatever order the concurrent writers finish in.
\<close>

lemma cycle_get:
  assumes "wf s" "distinct (map key cs)"
  shows "get (prune (\<lambda>k. k \<in> key ` set cs) (put_all cs s)) k =
     (if k \<in> key ` set cs then Some (THE c. c \<in> set cs \<and> key c = k) else None)"
proof (cases "k \<in> key ` set cs")
  case True
  then obtain c where c: "c \<in> set cs" "k = key c" by auto
  have "(THE d. d \<in> set cs \<and> key d = k) = c"
    using assms(2) c by (intro the_equality) (auto simp: distinct_map inj_on_def)
  with assms c show ?thesis by (simp add: get_prune wf_put_all get_put_all)
next
  case False
  with assms show ?thesis by (simp add: get_prune wf_put_all)
qed

lemma cycle_snapshot:
  assumes "wf s" "distinct (map key cs)"
  shows "set (snapshot (prune (\<lambda>k. k \<in> key ` set cs) (put_all cs s))) = set cs"
proof -
  have "wf (prune (\<lambda>k. k \<in> key ` set cs) (put_all cs s))"
    using assms by (intro wf_prune wf_put_all)
  then have "set (snapshot (prune (\<lambda>k. k \<in> key ` set cs) (put_all cs s))) =
      {c. \<exists>k. k \<in> key ` set cs \<and> get (put_all cs s) k = Some c}"
    using assms by (auto simp: set_snapshot get_prune wf_put_all split: if_splits)
  also have "\<dots> = set cs"
    using assms by (auto simp: get_put_all)
  finally show ?thesis .
qed

lemma cycle_interleaving:
  assumes "wf s" "distinct (map key cs)" "mset cs' = mset cs"
  shows "snapshot (prune (\<lambda>k. k \<in> key ` set cs') (put_all cs' s)) =
         snapshot (prune (\<lambda>k. k \<in> key ` set cs) (put_all cs s))"
proof -
  have sets: "set cs' = set cs" using assms(3) by (rule mset_eq_setD)
  have "mset (map key cs') = mset (map key cs)" using assms(3) by simp
  then have d: "distinct (map key cs')" using assms(2) mset_eq_imp_distinct_iff by blast
  have "get (prune (\<lambda>k. k \<in> key ` set cs') (put_all cs' s)) =
        get (prune (\<lambda>k. k \<in> key ` set cs) (put_all cs s))"
    using cycle_get [OF assms(1) d] cycle_get [OF assms(1,2)] by (simp add: fun_eq_iff sets)
  then show ?thesis
    using assms(1) by (intro snapshot_ext wf_prune wf_put_all)
qed

end

interpretation store: card_store Store_Set Store_Get Store_Prune Store_Snapshot store_wf c_key
proof
  fix s t :: Store and c k keep
  assume wf: "store_wf s"
  then have g: "gwf s" by (simp add: store_wf_def)
  show "Store_Get (Store_Set c s) k = (if k = c_key c then Some c else Store_Get s k)"
    by (simp add: Store_Get_def Store_Set_def gm.get_put)
  show "Store_Get (Store_Prune keep s) k = (if keep k then Store_Get s k else None)"
    using g by (simp add: Store_Get_def Store_Prune_def gm.get_prune)
  show "store_wf (Store_Set c s)" using wf by (rule store_wf_Set)
  show "store_wf (Store_Prune keep s)" using wf by (rule store_wf_Prune)
  show "set (Store_Snapshot s) = {c. \<exists>k. Store_Get s k = Some c}" using wf by (rule set_Snapshot)
  assume "store_wf t" "Store_Get s = Store_Get t"
  with wf show "Store_Snapshot s = Store_Snapshot t"
    by (intro snapshot_iteration_order) (auto simp: Store_Get_def fun_eq_iff)
qed

section \<open>Properties\<close>

text \<open>
  After a poll cycle that writes the cards \<open>cs\<close> (the widgets of the cycle, with distinct keys)
  in whatever order their concurrent polls finish, and then prunes to their keys, the snapshot is
  exactly \<open>cs\<close> in display order: by group, then order with unset last, then service, then key.
  Neither the old contents nor the map's iteration order nor the interleaving shows.
\<close>

theorem snapshot_after_cycle:
  assumes "store_wf s" "distinct (map c_key cs)" "mset cs' = mset cs"
  shows "Store_Snapshot (Store_Prune (\<lambda>k. k \<in> c_key ` set cs) (foldl (\<lambda>s c. Store_Set c s) s cs')) =
    sort_by compareCards cs"
proof -
  let ?t = "\<lambda>cs. Store_Prune (\<lambda>k. k \<in> c_key ` set cs) (store.put_all cs s)"
  have "Store_Snapshot (?t cs) = sort_by compareCards (Store_Snapshot (?t cs))"
    using card_cmp.sorted_sort_by by (simp add: Store_Snapshot_def card_cmp.sort_by_sorted)
  also have "\<dots> = sort_by compareCards cs"
  proof (rule card_cmp.sort_by_perm)
    have "store_wf (?t cs)" using assms(1) by (intro store.wf_prune store.wf_put_all)
    then have "distinct (Store_Snapshot (?t cs))" using snapshot_keys_distinct distinct_map by blast
    moreover have "distinct cs" using assms(2) distinct_map by blast
    ultimately show "mset (Store_Snapshot (?t cs)) = mset cs"
      using store.cycle_snapshot [OF assms(1,2)] by (simp add: set_eq_iff_mset_eq_distinct)
    fix a b
    assume "a \<in> set (Store_Snapshot (?t cs))" "b \<in> set (Store_Snapshot (?t cs))" "compareCards a b = 0"
    with store.cycle_snapshot [OF assms(1,2)] have "a \<in> set cs" "b \<in> set cs" "c_key a = c_key b"
      by (auto dest: compareCards_key)
    with assms(2) show "a = b" by (simp add: distinct_map inj_on_def)
  qed
  finally have "Store_Snapshot (?t cs) = sort_by compareCards cs" .
  moreover have "set cs' = set cs" using assms(3) by (rule mset_eq_setD)
  ultimately show ?thesis
    using store.cycle_interleaving [OF assms] by (simp add: store.put_all_def)
qed

definition ex_card :: "string \<Rightarrow> string \<Rightarrow> int option \<Rightarrow> Card" where
  "ex_card k g ord = zero_card\<lparr>c_key := k, c_group := g, c_order := ord\<rparr>"

theorem snapshot_after_cycle_witness:
  "Store_Snapshot (Store_Prune (\<lambda>k. k \<in> c_key ` set
       [ex_card ''a'' ''G'' (Some 2), ex_card ''b'' ''G'' None, ex_card ''c'' ''F'' None])
     (foldl (\<lambda>s c. Store_Set c s) NewStore
       [ex_card ''b'' ''G'' None, ex_card ''c'' ''F'' None, ex_card ''a'' ''G'' (Some 2)])) =
   sort_by compareCards
     [ex_card ''a'' ''G'' (Some 2), ex_card ''b'' ''G'' None, ex_card ''c'' ''F'' None]"
  by (rule snapshot_after_cycle) (simp_all add: ex_card_def zero_card_def)

end
