(* ===== verification/Cards.thy ===== *)
theory Cards
  imports Store
begin

text \<open>
  The keys under which the poller stores its cards, and the merging of the cards of one
  service entry into the card that is rendered (\<^verbatim>\<open>mergeServiceCards\<close> and its helpers in
  \<^verbatim>\<open>internal/dashboard/server.go\<close>).  Proved here: keys of different origins never collide,
  the merge key is the entry's prefix, no field or error is lost by merging, and the
  fields come out in numeric widget order.
\<close>

section \<open>Keys\<close>

text \<open>The \<^verbatim>\<open>fmt.Sprintf\<close> calls and concatenations of \<^verbatim>\<open>poller.go\<close> and \<^verbatim>\<open>discovery.go\<close>.\<close>

definition widget_key :: "string \<Rightarrow> string \<Rightarrow> nat \<Rightarrow> nat \<Rightarrow> string" where
  "widget_key ns cr e i = ns @ ''/'' @ cr @ ''/'' @ fmt_nat e @ ''/'' @ fmt_nat i"

definition monitor_key :: "string \<Rightarrow> string \<Rightarrow> nat \<Rightarrow> string" where
  "monitor_key ns cr e = ns @ ''/'' @ cr @ ''/'' @ fmt_nat e @ ''/monitor''"

definition ingress_key :: "string \<Rightarrow> string \<Rightarrow> string" where
  "ingress_key ns name = ''discovery/'' @ ns @ ''/'' @ name"

definition route_key :: "string \<Rightarrow> string \<Rightarrow> string" where
  "route_key ns name = ''discovery/httproute/'' @ ns @ ''/'' @ name"

definition header_key :: "string \<Rightarrow> nat \<Rightarrow> string" where
  "header_key name idx = ''header/'' @ name @ ''/'' @ fmt_nat idx"

definition entry_prefix :: "string \<Rightarrow> string \<Rightarrow> nat \<Rightarrow> string" where
  "entry_prefix ns cr e = ns @ ''/'' @ cr @ ''/'' @ fmt_nat e"

lemma key_entry_prefix:
  "widget_key ns cr e i = entry_prefix ns cr e @ slash # fmt_nat i"
  "monitor_key ns cr e = entry_prefix ns cr e @ slash # ''monitor''"
  by (simp_all add: widget_key_def monitor_key_def entry_prefix_def)

text \<open>Where a card comes from: the specification of its key.\<close>

datatype card_source =
    SrcWidget string string nat nat
  | SrcMonitor string string nat
  | SrcIngress string string
  | SrcRoute string string
  | SrcHeader string nat

fun source_key :: "card_source \<Rightarrow> string" where
  "source_key (SrcWidget ns cr e i) = widget_key ns cr e i"
| "source_key (SrcMonitor ns cr e) = monitor_key ns cr e"
| "source_key (SrcIngress ns n) = ingress_key ns n"
| "source_key (SrcRoute ns n) = route_key ns n"
| "source_key (SrcHeader n i) = header_key n i"

text \<open>Kubernetes names hold no slash; and no entry lives in a namespace called \<^verbatim>\<open>discovery\<close>.\<close>

fun valid_source :: "card_source \<Rightarrow> bool" where
  "valid_source (SrcWidget ns cr e i) \<longleftrightarrow> slash \<notin> set ns \<and> slash \<notin> set cr \<and> ns \<noteq> ''discovery''"
| "valid_source (SrcMonitor ns cr e) \<longleftrightarrow> slash \<notin> set ns \<and> slash \<notin> set cr \<and> ns \<noteq> ''discovery''"
| "valid_source (SrcIngress ns n) \<longleftrightarrow> slash \<notin> set ns \<and> slash \<notin> set n"
| "valid_source (SrcRoute ns n) \<longleftrightarrow> slash \<notin> set ns \<and> slash \<notin> set n"
| "valid_source (SrcHeader n i) \<longleftrightarrow> slash \<notin> set n"

fun split_slash :: "string \<Rightarrow> string list" where
  "split_slash [] = [[]]"
| "split_slash (c # s) =
     (if c = slash then [] # split_slash s
      else (case split_slash s of [] \<Rightarrow> [[c]] | x # xs \<Rightarrow> (c # x) # xs))"

lemma split_slash_nonempty [simp]: "split_slash s \<noteq> []"
  by (induction s) (auto split: list.splits)

lemma split_slash_atom: "slash \<notin> set s \<Longrightarrow> split_slash s = [s]"
  by (induction s) auto

lemma split_slash_append: "slash \<notin> set a \<Longrightarrow> split_slash (a @ slash # b) = a # split_slash b"
  by (induction a) (auto split: list.splits)

lemma split_source_key:
  "valid_source s \<Longrightarrow> split_slash (source_key s) =
     (case s of
        SrcWidget ns cr e i \<Rightarrow> [ns, cr, fmt_nat e, fmt_nat i]
      | SrcMonitor ns cr e \<Rightarrow> [ns, cr, fmt_nat e, ''monitor'']
      | SrcIngress ns n \<Rightarrow> [''discovery'', ns, n]
      | SrcRoute ns n \<Rightarrow> [''discovery'', ''httproute'', ns, n]
      | SrcHeader n i \<Rightarrow> [''header'', n, fmt_nat i])"
  using split_slash_append [of "''discovery''"] split_slash_append [of "''header''"]
    split_slash_append [of "''httproute''"]
  by (cases s)
     (simp_all add: widget_key_def monitor_key_def ingress_key_def route_key_def header_key_def
        split_slash_append split_slash_atom)

lemma fmt_nat_not_monitor: "fmt_nat i \<noteq> ''monitor''"
  using fmt_nat_hd_digit [of i "CHR ''m''" "''onitor''"] by auto

lemma source_key_inject:
  assumes "valid_source s" "valid_source t" "source_key s = source_key t"
  shows "s = t"
proof -
  have "split_slash (source_key s) = split_slash (source_key t)" using assms(3) by simp
  with split_source_key [OF assms(1)] split_source_key [OF assms(2)] assms(1,2)
  show ?thesis
    by (cases s; cases t) (auto simp: fmt_nat_not_monitor fmt_nat_not_monitor [symmetric])
qed

section \<open>Merging\<close>

definition isDecimalDigits :: "string \<Rightarrow> bool" where
  "isDecimalDigits s \<longleftrightarrow> s \<noteq> [] \<and> list_all is_digit s"

definition mergeCardGroupKey :: "string \<Rightarrow> string" where
  "mergeCardGroupKey key =
     (if has_prefix key ''discovery/'' then key
      else case last_index ''/'' key of
             None \<Rightarrow> key
           | Some i \<Rightarrow>
               (let last = drop (Suc i) key
                in if last = ''monitor'' \<or> isDecimalDigits last then take i key else key))"

definition mergeWidgetIndex :: "string \<Rightarrow> int" where
  "mergeWidgetIndex key =
     (case last_index ''/'' key of
        None \<Rightarrow> 0
      | Some i \<Rightarrow> (case atoi (drop (Suc i) key) of None \<Rightarrow> 0 | Some n \<Rightarrow> n))"

definition compareWidgetIndex :: "Card \<Rightarrow> Card \<Rightarrow> int" where
  "compareWidgetIndex a b = mergeWidgetIndex (c_key a) - mergeWidgetIndex (c_key b)"

text \<open>The slice that \<^verbatim>\<open>mergeCards\<close> is called with is never empty: its first card and the rest.\<close>

definition mergeCards :: "Card \<Rightarrow> Card list \<Rightarrow> Card" where
  "mergeCards c0 rest =
     (let cards = sort_by compareWidgetIndex (c0 # rest);
          merged = hd cards;
          fields = concat (map c_fields cards);
          errs = filter (\<lambda>e. e \<noteq> []) (map c_err cards);
          latest = foldl (\<lambda>l c. if c_updated_at c > l then c_updated_at c else l)
                         (c_updated_at merged) cards
      in merged\<lparr>c_fields := fields, c_err := join ''; '' errs, c_updated_at := latest\<rparr>)"

definition merge_group :: "Card list \<Rightarrow> Card" where
  "merge_group cs = (case cs of [] \<Rightarrow> zero_card | [c] \<Rightarrow> c | c # d # r \<Rightarrow> mergeCards c (d # r))"

definition mergeServiceCards :: "Card list \<Rightarrow> Card list" where
  "mergeServiceCards cards =
     map (\<lambda>(_, cs). merge_group cs) (bucket (\<lambda>c. mergeCardGroupKey (c_key c)) cards)"

definition serviceCards :: "Card list \<Rightarrow> Card list" where
  "serviceCards cards = filter (\<lambda>c. \<not> c_header c) cards"

section \<open>Lemmas\<close>

interpretation widget_cmp: comparator compareWidgetIndex
  by unfold_locales (auto simp: compareWidgetIndex_def)

lemma last_index_widget_key:
  "last_index ''/'' (widget_key ns cr e i) = Some (length (entry_prefix ns cr e))"
  "last_index ''/'' (monitor_key ns cr e) = Some (length (entry_prefix ns cr e))"
  unfolding key_entry_prefix by (rule last_index_char_append; simp)+

lemma drop_widget_key:
  "drop (Suc (length (entry_prefix ns cr e))) (widget_key ns cr e i) = fmt_nat i"
  "drop (Suc (length (entry_prefix ns cr e))) (monitor_key ns cr e) = ''monitor''"
  "take (length (entry_prefix ns cr e)) (widget_key ns cr e i) = entry_prefix ns cr e"
  "take (length (entry_prefix ns cr e)) (monitor_key ns cr e) = entry_prefix ns cr e"
  by (simp_all add: key_entry_prefix)

lemma discovery_prefix_namespace:
  assumes "slash \<notin> set ns" "has_prefix (ns @ slash # r) ''discovery/''"
  shows "ns = ''discovery''"
proof -
  obtain q where q: "ns @ slash # r = ''discovery'' @ slash # q"
    using has_prefixE [OF assms(2)] by auto
  have "split_slash (ns @ slash # r) = ns # split_slash r"
    using assms(1) by (rule split_slash_append)
  moreover have "split_slash (''discovery'' @ slash # q) = ''discovery'' # split_slash q"
    by (rule split_slash_append) simp
  ultimately show ?thesis using q by simp
qed

lemma isDecimalDigits_fmt_nat [simp]: "isDecimalDigits (fmt_nat n)"
  by (simp add: isDecimalDigits_def fmt_nat_digits)

lemma merge_key_widget:
  assumes "slash \<notin> set ns" "ns \<noteq> ''discovery''"
  shows "mergeCardGroupKey (widget_key ns cr e i) = entry_prefix ns cr e"
    and "mergeCardGroupKey (monitor_key ns cr e) = entry_prefix ns cr e"
proof -
  have np: "\<not> has_prefix (widget_key ns cr e i) ''discovery/''"
      "\<not> has_prefix (monitor_key ns cr e) ''discovery/''"
    using assms discovery_prefix_namespace [of ns "cr @ ''/'' @ fmt_nat e @ ''/'' @ fmt_nat i"]
      discovery_prefix_namespace [of ns "cr @ ''/'' @ fmt_nat e @ ''/monitor''"]
    by (auto simp: widget_key_def monitor_key_def simp del: has_prefix_Cons)
  show "mergeCardGroupKey (widget_key ns cr e i) = entry_prefix ns cr e"
    using np(1) by (simp only: mergeCardGroupKey_def last_index_widget_key drop_widget_key
        Let_def isDecimalDigits_fmt_nat option.case if_False if_True simp_thms)
  show "mergeCardGroupKey (monitor_key ns cr e) = entry_prefix ns cr e"
    using np(2) by (simp only: mergeCardGroupKey_def last_index_widget_key drop_widget_key
        Let_def option.case if_False if_True simp_thms)
qed

lemma merge_index_widget: "i < 2 ^ 63 \<Longrightarrow> mergeWidgetIndex (widget_key ns cr e i) = int i"
  by (simp only: mergeWidgetIndex_def last_index_widget_key drop_widget_key option.case atoi_fmt_nat)

lemma mergeCards_fields:
  "c_fields (mergeCards c r) = concat (map c_fields (sort_by compareWidgetIndex (c # r)))"
  by (simp add: mergeCards_def Let_def)

lemma merge_group_fields:
  "cs \<noteq> [] \<Longrightarrow> c_fields (merge_group cs) = concat (map c_fields (sort_by compareWidgetIndex cs))"
  by (auto simp: merge_group_def mergeCards_fields split: list.splits)

lemma mset_merge_group_fields:
  "cs \<noteq> [] \<Longrightarrow> mset (c_fields (merge_group cs)) = (\<Sum>c\<leftarrow>cs. mset (c_fields c))"
  by (simp only: merge_group_fields concat_map_mset
      sum_list_mset_perm [of "sort_by compareWidgetIndex cs" cs, OF mset_sort_by] not_False_eq_True)

lemma mset_concat_fields: "mset (concat (map c_fields cards)) = (\<Sum>c\<leftarrow>cards. mset (c_fields c))"
  by (rule concat_map_mset)

lemma merge_preserves_fields:
  "(\<Sum>c\<leftarrow>mergeServiceCards cards. mset (c_fields c)) = (\<Sum>c\<leftarrow>cards. mset (c_fields c))"
proof -
  let ?gs = "bucket (\<lambda>c. mergeCardGroupKey (c_key c)) cards"
  have "(\<Sum>c\<leftarrow>mergeServiceCards cards. mset (c_fields c)) =
        (\<Sum>g\<leftarrow>?gs. mset (c_fields (merge_group (snd g))))"
    by (simp add: mergeServiceCards_def comp_def case_prod_unfold)
  also have "\<dots> = (\<Sum>g\<leftarrow>?gs. \<Sum>c\<leftarrow>snd g. mset (c_fields c))"
  proof -
    have "\<And>g. g \<in> set ?gs \<Longrightarrow> snd g \<noteq> []" using bucket_in by fastforce
    then show ?thesis by (intro arg_cong [of _ _ sum_list] map_cong mset_merge_group_fields) auto
  qed
  also have "\<dots> = (\<Sum>c\<leftarrow>concat (map snd ?gs). mset (c_fields c))"
    by (rule sum_list_concat_map [symmetric])
  also have "\<dots> = (\<Sum>c\<leftarrow>cards. mset (c_fields c))"
    by (rule sum_list_mset_perm) (rule mset_bucket)
  finally show ?thesis .
qed

lemma sorted_widgets_unique:
  assumes "mset cs = mset (map w [0..<n])" "n < 2 ^ 63"
    and "\<And>i. i < n \<Longrightarrow> c_key (w i) = widget_key ns cr e i"
  shows "sort_by compareWidgetIndex cs = map w [0..<n]"
proof (rule widget_cmp.any_sort_is_sort_by [symmetric])
  have idx: "mergeWidgetIndex (c_key (w i)) = int i" if "i < n" for i
    using that assms(2,3) merge_index_widget [of i ns cr e] by simp
  show "mset (map w [0..<n]) = mset cs" using assms(1) by simp
  show "sorted_wrt (\<lambda>a b. compareWidgetIndex a b \<le> 0) (map w [0..<n])"
    by (auto simp: sorted_wrt_map sorted_wrt_iff_nth_less compareWidgetIndex_def idx)
  have set: "set cs = w ` {0..<n}" using assms(1) mset_eq_setD by fastforce
  fix a b
  assume "a \<in> set cs" "b \<in> set cs" "compareWidgetIndex a b = 0"
  then show "a = b" by (auto simp: set compareWidgetIndex_def idx)
qed

lemma mergeServiceCards_one_each:
  "length (mergeServiceCards cards) = card ((\<lambda>c. mergeCardGroupKey (c_key c)) ` set cards)"
proof -
  let ?gs = "bucket (\<lambda>c. mergeCardGroupKey (c_key c)) cards"
  have "length ?gs = card (fst ` set ?gs)"
    using distinct_card [OF distinct_bucket] by (metis length_map list.set_map)
  then show ?thesis by (simp add: mergeServiceCards_def keys_bucket)
qed

lemma bucket_const:
  "xs \<noteq> [] \<Longrightarrow> (\<And>x. x \<in> set xs \<Longrightarrow> f x = k) \<Longrightarrow> bucket f xs = [(k, xs)]"
proof (induction xs rule: rev_induct)
  case (snoc x xs)
  then show ?case by (cases "xs = []") (simp_all add: bucket_def)
qed simp

section \<open>Properties\<close>

text \<open>
  C34. The store keys of cards of different origins never collide: two widgets, monitor cards,
  discovered Ingresses, discovered HTTPRoutes or header widgets with the same key are the same.
  Kubernetes names hold no slash, and the entries' namespace must not be called \<^verbatim>\<open>discovery\<close>.
\<close>

theorem source_key_injective:
  assumes "valid_source s" "valid_source t"
  shows "source_key s = source_key t \<longleftrightarrow> s = t"
  using source_key_inject [OF assms] by blast

theorem source_key_injective_witness:
  "source_key (SrcWidget ''web'' ''media'' 0 1) = source_key (SrcMonitor ''web'' ''media'' 0) \<longleftrightarrow>
     SrcWidget ''web'' ''media'' 0 1 = SrcMonitor ''web'' ''media'' 0"
  by (rule source_key_injective) simp_all

text \<open>The hypothesis on the namespace is needed: an entry's card can have a discovered route's key.\<close>

lemma source_key_collision:
  "source_key (SrcMonitor ''discovery'' ''httproute'' 0) = source_key (SrcRoute ''0'' ''monitor'')"
  by code_simp

text \<open>
  The cards of one entry's widgets, in whatever order the snapshot lists them (its key order
  puts widget 10 before widget 2), merge into one card that shows the widgets' fields in numeric
  widget order.
\<close>

theorem merged_widgets_in_order:
  assumes "mset cs = mset (map w [0..<n])" "0 < n" "n < 2 ^ 63"
    and "\<And>i. i < n \<Longrightarrow> c_key (w i) = widget_key ns cr e i"
    and "slash \<notin> set ns" "ns \<noteq> ''discovery''"
  shows "map c_fields (mergeServiceCards cs) = [concat (map (\<lambda>i. c_fields (w i)) [0..<n])]"
proof -
  have set: "set cs = w ` {0..<n}" using assms(1) mset_eq_setD by fastforce
  then have ne: "cs \<noteq> []" using assms(2) by auto
  have "mergeCardGroupKey (c_key c) = entry_prefix ns cr e" if "c \<in> set cs" for c
    using that set assms(4) merge_key_widget(1) [OF assms(5,6)] by auto
  from bucket_const [OF ne this] have "mergeServiceCards cs = [merge_group cs]"
    by (simp add: mergeServiceCards_def)
  then show ?thesis
    using merge_group_fields [OF ne] sorted_widgets_unique [OF assms(1,3,4)]
    by (simp add: comp_def)
qed

definition ex_widget_card :: "nat \<Rightarrow> Card" where
  "ex_widget_card i = zero_card\<lparr>c_key := widget_key ''web'' ''media'' 0 i,
     c_fields := [\<lparr>f_label = fmt_nat i, f_value = [], f_percent = None, f_highlight = []\<rparr>]\<rparr>"

theorem merged_widgets_in_order_witness:
  "map c_fields (mergeServiceCards (map ex_widget_card [1, 0, 2])) =
     [concat (map (\<lambda>i. c_fields (ex_widget_card i)) [0..<3])]"
proof (rule merged_widgets_in_order [where ns = "''web''" and cr = "''media''" and e = 0])
  have "[0..<3] = [0, 1, 2::nat]" by code_simp
  then show "mset (map ex_widget_card [1, 0, 2]) = mset (map ex_widget_card [0..<3])"
    by (simp add: add_mset_commute)
qed (simp_all add: ex_widget_card_def zero_card_def)

text \<open>
  Merging loses and duplicates nothing: over all the rendered cards the fields are the fields
  of the stored cards, and there is exactly one rendered card per merge key.
\<close>

theorem mergeServiceCards_complete:
  "(\<Sum>c\<leftarrow>mergeServiceCards cards. mset (c_fields c)) = (\<Sum>c\<leftarrow>cards. mset (c_fields c)) \<and>
   length (mergeServiceCards cards) = card ((\<lambda>c. mergeCardGroupKey (c_key c)) ` set cards)"
  by (simp add: merge_preserves_fields mergeServiceCards_one_each)

end
