(* ===== verification/Site.thy ===== *)
theory Site
  imports Reader Icon Cards
begin

text \<open>
  The look of the dashboard (\<^verbatim>\<open>internal/dashboard/site.go\<close>): \<open>LoadSite\<close> reads the Dashboard's
  \<^verbatim>\<open>spec.style\<close>, the bound Bookmarks and InfoWidgets and resolves them to render-ready data.
  Proved here: what \<open>applyStyle\<close> leaves alone, that the search URL it accepts is http(s),
  the ordering and completeness of the bookmark groups, and the header widgets' keys.
\<close>

record LayoutGroup =
  lg_name :: string
  lg_columns :: "int option"
  lg_style :: string
  lg_icon_url :: string
  lg_header :: "bool option"
  lg_initially_collapsed :: "bool option"
  lg_use_equal_heights :: "bool option"

record LayoutTab =
  lt_name :: string
  lt_groups :: "LayoutGroup list"

record HeaderWidget =
  hw_key :: string
  hw_name :: string
  hw_type :: string
  hw_order :: "int option"
  hw_icon_url :: string
  hw_config :: "string gomap"
  hw_align :: string

record Background =
  bg_image :: string
  bg_blur :: string
  bg_saturate :: "int option"
  bg_brightness :: "int option"
  bg_opacity :: "int option"

record Search =
  se_provider :: string
  se_url :: string
  se_search_target :: string
  se_filter_cards :: bool
  se_search_descriptions :: bool
  se_hide_internet_search :: bool
  se_hide_visit_url :: bool

record BookmarkCard =
  bc_name :: string
  bc_href :: string
  bc_target :: string
  bc_icon_url :: string
  bc_abbr :: string
  bc_description :: string

record BookmarkGroup =
  bg_name :: string
  bg_bookmarks :: "BookmarkCard list"
  bg_columns :: "int option"
  bg_style :: string
  bg_icon_url :: string
  bg_header :: bool
  bg_initially_collapsed :: bool
  bg_use_equal_heights :: bool

record Site =
  site_theme :: string
  site_color :: string
  site_header_style :: string
  site_language :: string
  site_full_width :: bool
  site_theme_fixed :: bool
  site_color_fixed :: bool
  site_title :: string
  site_description :: string
  site_favicon :: string
  site_card_blur :: string
  site_target :: string
  site_background :: "Background option"
  site_search :: Search
  site_disable_collapse :: bool
  site_groups_initially_collapsed :: bool
  site_use_equal_heights :: bool
  site_bookmarks_icons_only :: bool
  site_disable_indexing :: bool
  site_start_url :: string
  site_custom_css :: string
  site_custom_js :: string
  site_status_style :: string
  site_hide_errors :: bool
  site_hide_version :: bool
  site_bookmark_groups :: "BookmarkGroup list"
  site_header_widgets :: "HeaderWidget list"
  site_layout :: "LayoutTab list"

definition defaultTheme :: string where "defaultTheme = ''dark''"
definition defaultColor :: string where "defaultColor = ''slate''"
definition defaultHeaderStyle :: string where "defaultHeaderStyle = ''underlined''"
definition defaultTitle :: string where "defaultTitle = ''kubepage''"
definition defaultTarget :: string where "defaultTarget = ''_blank''"
definition bookmarksStyleIcons :: string where "bookmarksStyleIcons = ''icons''"
definition alignLeft :: string where "alignLeft = ''left''"
definition alignRight :: string where "alignRight = ''right''"
definition statusStyleDot :: string where "statusStyleDot = ''dot''"
definition headerTypeGreeting :: string where "headerTypeGreeting = ''greeting''"
definition headerTypeDatetime :: string where "headerTypeDatetime = ''datetime''"
definition headerTypeLogo :: string where "headerTypeLogo = ''logo''"

section \<open>Style\<close>

definition blurPx :: "string \<Rightarrow> string" where
  "blurPx keyword =
     (if keyword = ''none'' then ''''
      else if keyword = '''' then ''8px''
      else if keyword = ''sm'' then ''4px''
      else if keyword = ''md'' then ''12px''
      else if keyword = ''lg'' then ''16px''
      else if keyword = ''xl'' then ''24px''
      else if keyword = ''2xl'' then ''40px''
      else if keyword = ''3xl'' then ''64px''
      else '''')"

definition applyLookFields :: "Site \<Rightarrow> style_spec \<Rightarrow> Site" where
  "applyLookFields site spec = site\<lparr>
     site_title := set_opt (st_title spec) (site_title site),
     site_description := set_opt (st_description spec) (site_description site),
     site_favicon := set_opt (st_favicon spec) (site_favicon site),
     site_card_blur := set_opt (map_option blurPx (st_card_blur spec)) (site_card_blur site),
     site_target := set_opt (st_target spec) (site_target site),
     site_theme := set_opt (st_theme spec) (site_theme site),
     site_theme_fixed := (st_theme spec \<noteq> None \<or> site_theme_fixed site),
     site_color := set_opt (st_color spec) (site_color site),
     site_color_fixed := (st_color spec \<noteq> None \<or> site_color_fixed site),
     site_header_style := set_opt (st_header_style spec) (site_header_style site),
     site_language := set_opt (st_language spec) (site_language site),
     site_full_width := set_opt (st_full_width spec) (site_full_width site),
     site_background :=
       (case st_background spec of
          None \<Rightarrow> site_background site
        | Some b \<Rightarrow> Some \<lparr>bg_image = set_opt (bs_image b) [],
                         bg_blur = set_opt (map_option blurPx (bs_blur b)) [],
                         bg_saturate = bs_saturate b, bg_brightness = bs_brightness b,
                         bg_opacity = bs_opacity b\<rparr>)\<rparr>"

definition applySearch :: "Site \<Rightarrow> search_spec option \<Rightarrow> Site" where
  "applySearch site s =
     (case s of
        None \<Rightarrow> site
      | Some s \<Rightarrow>
          let q = site_search site in
          site\<lparr>site_search := q\<lparr>
            se_provider := set_opt (ss_provider s) (se_provider q),
            se_url := (case ss_url s of
                         Some u \<Rightarrow> if isHTTPURL u then u else se_url q
                       | None \<Rightarrow> se_url q),
            se_search_target := set_opt (ss_target s) (se_search_target q),
            se_filter_cards := set_opt (ss_filter_cards s) (se_filter_cards q),
            se_search_descriptions := set_opt (ss_search_descriptions s) (se_search_descriptions q),
            se_hide_internet_search :=
              set_opt (map_option Not (ss_internet_search_entry s)) (se_hide_internet_search q),
            se_hide_visit_url :=
              set_opt (map_option Not (ss_visit_url_entry s)) (se_hide_visit_url q)\<rparr>\<rparr>)"

definition layout_group :: "layout_group_spec \<Rightarrow> LayoutGroup" where
  "layout_group g = \<lparr>lg_name = lgs_name g, lg_columns = lgs_columns g,
     lg_style = set_opt (lgs_style g) [], lg_icon_url = IconURL (lgs_icon g),
     lg_header = lgs_header g, lg_initially_collapsed = lgs_initially_collapsed g,
     lg_use_equal_heights = lgs_use_equal_heights g\<rparr>"

text \<open>A nil layout leaves the (empty) layout of the site as it is, like an empty one.\<close>

definition applyLayout :: "Site \<Rightarrow> layout_tab_spec list \<Rightarrow> Site" where
  "applyLayout site layout =
     (if layout = [] then site
      else site\<lparr>site_layout :=
        map (\<lambda>t. \<lparr>lt_name = lts_name t, lt_groups = map layout_group (lts_groups t)\<rparr>) layout\<rparr>)"

definition applyBehaviorFields :: "Site \<Rightarrow> style_spec \<Rightarrow> Site" where
  "applyBehaviorFields site spec = site\<lparr>
     site_disable_collapse := set_opt (map_option Not (st_collapse spec)) (site_disable_collapse site),
     site_groups_initially_collapsed :=
       set_opt (st_groups_initially_collapsed spec) (site_groups_initially_collapsed site),
     site_use_equal_heights := set_opt (st_use_equal_heights spec) (site_use_equal_heights site),
     site_bookmarks_icons_only :=
       set_opt (map_option (\<lambda>b. b = bookmarksStyleIcons) (st_bookmarks_style spec))
               (site_bookmarks_icons_only site),
     site_disable_indexing := set_opt (map_option Not (st_indexing spec)) (site_disable_indexing site),
     site_start_url := set_opt (st_start_url spec) (site_start_url site),
     site_custom_css := set_opt (st_custom_css spec) (site_custom_css site),
     site_custom_js := set_opt (st_custom_js spec) (site_custom_js site),
     site_status_style := set_opt (st_status_style spec) (site_status_style site),
     site_hide_errors := set_opt (map_option Not (st_error_display spec)) (site_hide_errors site),
     site_hide_version := set_opt (st_hide_version spec) (site_hide_version site)\<rparr>"

definition applyStyle :: "Site \<Rightarrow> style_spec \<Rightarrow> Site" where
  "applyStyle site spec =
     applyBehaviorFields
       (applyLayout (applySearch (applyLookFields site spec) (st_search spec)) (st_layout spec)) spec"

definition boundStyleSpec :: "reader \<Rightarrow> string \<Rightarrow> string \<Rightarrow> string + style_spec option" where
  "boundStyleSpec rd ns name =
     (case rd_get_dashboard rd ns name of
        NotFound \<Rightarrow> Inr None
      | GetError e \<Rightarrow> Inl (''getting Dashboard: '' @ e)
      | Found d \<Rightarrow> Inr (ds_style (d_spec d)))"

section \<open>Header widgets\<close>

definition defaultHeaderAlign :: "string \<Rightarrow> string" where
  "defaultHeaderAlign t =
     (if t = headerTypeGreeting \<or> t = headerTypeDatetime then alignLeft else alignRight)"

text \<open>Scalars of the passthrough config; anything but a JSON object leaves the map empty.\<close>

fun scalar_text :: "json \<Rightarrow> string option" where
  "scalar_text (JStr s) = Some s"
| "scalar_text (JBool b) = Some (if b then ''true'' else ''false'')"
| "scalar_text (JNum n) = Some n"
| "scalar_text _ = None"

definition scalarConfig :: "json option \<Rightarrow> string gomap" where
  "scalarConfig raw =
     (case raw of
        Some (JObj m) \<Rightarrow>
          foldl (\<lambda>cfg (k, v). case scalar_text v of Some s \<Rightarrow> gput k s cfg | None \<Rightarrow> cfg) [] m
      | _ \<Rightarrow> [])"

record header_widget =
  fw_name :: string
  fw_idx :: nat
  fw_entry :: info_widget_entry

definition compareHeaderWidgets :: "header_widget \<Rightarrow> header_widget \<Rightarrow> int" where
  "compareHeaderWidgets =
     cmp_then (\<lambda>a b. compareOrder (ie_order (fw_entry a)) (ie_order (fw_entry b)))
    (cmp_then (\<lambda>a b. str_compare (fw_name a) (fw_name b))
              (\<lambda>a b. int (fw_idx a) - int (fw_idx b)))"

definition flat_header_widgets :: "info_widget list \<Rightarrow> string \<Rightarrow> nat \<Rightarrow> header_widget list" where
  "flat_header_widgets items dashboardName dashCount =
     concat (map (\<lambda>w.
       if bound_to (ref_name (iw_dashboard_ref (iwd_spec w))) dashboardName dashCount
       then map (\<lambda>(idx, entry). \<lparr>fw_name = iwd_name w, fw_idx = idx, fw_entry = entry\<rparr>)
                (List.enumerate 0 (info_entries (iwd_spec w)))
       else []) items)"

definition header_widget_view :: "header_widget \<Rightarrow> HeaderWidget" where
  "header_widget_view hw =
     (let e = fw_entry hw in
      \<lparr>hw_key = header_key (fw_name hw) (fw_idx hw), hw_name = fw_name hw, hw_type = ie_type e,
       hw_order = ie_order e, hw_icon_url = IconURL (ie_icon e),
       hw_config = scalarConfig (ie_config e),
       hw_align = (case ie_align e of
                     None \<Rightarrow> defaultHeaderAlign (ie_type e)
                   | Some a \<Rightarrow> if a = AlignRight then alignRight else alignLeft)\<rparr>)"

definition headerWidgets :: "info_widget list \<Rightarrow> string \<Rightarrow> nat \<Rightarrow> HeaderWidget list" where
  "headerWidgets items dashboardName dashCount =
     map header_widget_view
       (sort_by compareHeaderWidgets (flat_header_widgets items dashboardName dashCount))"

section \<open>Bookmarks\<close>

definition layoutGroupsByName :: "LayoutTab list \<Rightarrow> LayoutGroup gomap" where
  "layoutGroupsByName layout =
     foldl (\<lambda>m g. if gget m (lg_name g) = None then gput (lg_name g) g m else m) []
       (concat (map lt_groups layout))"

definition bound_bookmarks :: "bookmark list \<Rightarrow> string \<Rightarrow> nat \<Rightarrow> bookmark_entry list" where
  "bound_bookmarks items dashboardName dashCount =
     concat (map (\<lambda>b. bookmark_entries (bmk_spec b))
       (filter (\<lambda>b. bound_to (ref_name (bm_dashboard_ref (bmk_spec b))) dashboardName dashCount) items))"

text \<open>The order of a group: the least order among its bookmarks (nil counts as greatest).\<close>

definition bookmark_group_order :: "bookmark_entry list \<Rightarrow> int option" where
  "bookmark_group_order es =
     (case es of
        [] \<Rightarrow> None
      | e # r \<Rightarrow> foldl (\<lambda>o' e. if compareOrder (be_order e) o' < 0 then be_order e else o') (be_order e) r)"

definition compareBookmarkGroups ::
  "string \<times> bookmark_entry list \<Rightarrow> string \<times> bookmark_entry list \<Rightarrow> int" where
  "compareBookmarkGroups =
     cmp_then (\<lambda>a b. compareOrder (bookmark_group_order (snd a)) (bookmark_group_order (snd b)))
              (\<lambda>a b. str_compare (fst a) (fst b))"

definition compareBookmarks :: "bookmark_entry \<Rightarrow> bookmark_entry \<Rightarrow> int" where
  "compareBookmarks =
     cmp_then (\<lambda>a b. compareOrder (be_order a) (be_order b))
              (\<lambda>a b. str_compare (be_name a) (be_name b))"

definition bookmark_card :: "bookmark_entry \<Rightarrow> BookmarkCard" where
  "bookmark_card e = \<lparr>bc_name = be_name e, bc_href = be_href e, bc_target = set_opt (be_target e) [],
     bc_icon_url = IconURL (be_icon e), bc_abbr = set_opt (be_abbr e) [],
     bc_description = set_opt (be_description e) []\<rparr>"

definition bookmark_group :: "Site \<Rightarrow> string \<Rightarrow> bookmark_entry list \<Rightarrow> BookmarkGroup" where
  "bookmark_group site name es =
     (let bg = \<lparr>bg_name = name, bg_bookmarks = map bookmark_card (sort_by compareBookmarks es),
                bg_columns = None, bg_style = [], bg_icon_url = [], bg_header = True,
                bg_initially_collapsed = site_groups_initially_collapsed site,
                bg_use_equal_heights = site_use_equal_heights site\<rparr>
      in case gget (layoutGroupsByName (site_layout site)) name of
           None \<Rightarrow> bg
         | Some lg \<Rightarrow>
             bg\<lparr>bg_columns := lg_columns lg, bg_style := lg_style lg, bg_icon_url := lg_icon_url lg,
                bg_header := set_opt (lg_header lg) (bg_header bg),
                bg_initially_collapsed :=
                  set_opt (lg_initially_collapsed lg) (bg_initially_collapsed bg),
                bg_use_equal_heights := set_opt (lg_use_equal_heights lg) (bg_use_equal_heights bg)\<rparr>)"

definition groupBookmarks :: "bookmark list \<Rightarrow> string \<Rightarrow> nat \<Rightarrow> Site \<Rightarrow> BookmarkGroup list" where
  "groupBookmarks items dashboardName dashCount site =
     map (\<lambda>(name, es). bookmark_group site name es)
       (sort_by compareBookmarkGroups
          (bucket be_group (bound_bookmarks items dashboardName dashCount)))"

section \<open>\<^verbatim>\<open>LoadSite\<close>\<close>

definition default_site :: Site where
  "default_site = \<lparr>site_theme = defaultTheme, site_color = defaultColor,
     site_header_style = defaultHeaderStyle, site_language = [], site_full_width = False,
     site_theme_fixed = False, site_color_fixed = False, site_title = defaultTitle,
     site_description = [], site_favicon = [], site_card_blur = [], site_target = defaultTarget,
     site_background = None,
     site_search = \<lparr>se_provider = ''duckduckgo'', se_url = [], se_search_target = defaultTarget,
       se_filter_cards = True, se_search_descriptions = True, se_hide_internet_search = False,
       se_hide_visit_url = False\<rparr>,
     site_disable_collapse = False, site_groups_initially_collapsed = False,
     site_use_equal_heights = False, site_bookmarks_icons_only = False,
     site_disable_indexing = False, site_start_url = ''/'', site_custom_css = [],
     site_custom_js = [], site_status_style = statusStyleDot, site_hide_errors = False,
     site_hide_version = False, site_bookmark_groups = [], site_header_widgets = [],
     site_layout = []\<rparr>"

text \<open>Go returns the site built so far beside an error; every caller drops it then.\<close>

definition LoadSite :: "reader \<Rightarrow> string \<Rightarrow> string \<Rightarrow> string + Site" where
  "LoadSite rd ns dashboardName =
     (case boundStyleSpec rd ns dashboardName of
        Inl e \<Rightarrow> Inl e
      | Inr spec \<Rightarrow>
          let site = (case spec of None \<Rightarrow> default_site | Some s \<Rightarrow> applyStyle default_site s) in
          case namespaceDashboardCount rd ns of
            Inl e \<Rightarrow> Inl (''counting Dashboards: '' @ e)
          | Inr dashCount \<Rightarrow>
              (case rd_list_bookmarks rd ns of
                 Inl e \<Rightarrow> Inl (''listing Bookmarks: '' @ e)
               | Inr bms \<Rightarrow>
                   let site = site\<lparr>site_bookmark_groups := groupBookmarks bms dashboardName dashCount site\<rparr> in
                   case rd_list_info_widgets rd ns of
                     Inl e \<Rightarrow> Inl (''listing InfoWidgets: '' @ e)
                   | Inr iws \<Rightarrow>
                       Inr (site\<lparr>site_header_widgets := headerWidgets iws dashboardName dashCount\<rparr>)))"

section \<open>Lemmas\<close>

lemma comparator_header_widgets: "comparator compareHeaderWidgets"
  unfolding compareHeaderWidgets_def
  by (rule comparator_then
        [OF comparator_key [OF comparator_order, of "\<lambda>a. ie_order (fw_entry a)"]
        comparator_then [OF comparator_key [OF comparator_str, of fw_name]
                            comparator_key [OF comparator_int, of "\<lambda>a. int (fw_idx a)"]]])

lemma comparator_bookmark_groups: "comparator compareBookmarkGroups"
  unfolding compareBookmarkGroups_def
  by (rule comparator_then
        [OF comparator_key [OF comparator_order, of "\<lambda>a. bookmark_group_order (snd a)"]
            comparator_key [OF comparator_str, of fst]])

lemma comparator_bookmarks: "comparator compareBookmarks"
  unfolding compareBookmarks_def
  by (rule comparator_then [OF comparator_key [OF comparator_order, of be_order]
                               comparator_key [OF comparator_str, of be_name]])

interpretation header_cmp: comparator compareHeaderWidgets
  by (rule comparator_header_widgets)

interpretation bookmark_group_cmp: comparator compareBookmarkGroups
  by (rule comparator_bookmark_groups)

interpretation bookmark_cmp: comparator compareBookmarks
  by (rule comparator_bookmarks)

lemma bookmark_group_name [simp]: "bg_name (bookmark_group site name es) = name"
  by (simp add: bookmark_group_def Let_def split: option.splits)

lemma bookmark_group_cards [simp]:
  "bg_bookmarks (bookmark_group site name es) = map bookmark_card (sort_by compareBookmarks es)"
  by (simp add: bookmark_group_def Let_def split: option.splits)

lemma groupBookmarks_mset:
  "(\<Sum>g\<leftarrow>groupBookmarks items dn n site. mset (bg_bookmarks g)) =
     mset (map bookmark_card (bound_bookmarks items dn n))"
proof -
  let ?bs = "bucket be_group (bound_bookmarks items dn n)"
  have "(\<Sum>g\<leftarrow>groupBookmarks items dn n site. mset (bg_bookmarks g)) =
        (\<Sum>g\<leftarrow>sort_by compareBookmarkGroups ?bs. mset (map bookmark_card (snd g)))"
    by (simp add: groupBookmarks_def comp_def case_prod_unfold)
  also have "\<dots> = (\<Sum>g\<leftarrow>?bs. mset (map bookmark_card (snd g)))"
    by (rule sum_list_mset_perm) simp
  also have "\<dots> = mset (map bookmark_card (concat (map snd ?bs)))"
    by (simp only: map_concat map_map concat_map_mset comp_def)
  also have "\<dots> = mset (map bookmark_card (bound_bookmarks items dn n))"
    by (simp only: mset_map mset_bucket)
  finally show ?thesis .
qed

lemma groupBookmarks_names: "distinct (map bg_name (groupBookmarks items dn n site))"
proof -
  let ?bs = "bucket be_group (bound_bookmarks items dn n)"
  have "map bg_name (groupBookmarks items dn n site) = map fst (sort_by compareBookmarkGroups ?bs)"
    by (simp add: groupBookmarks_def comp_def case_prod_unfold)
  moreover have "mset (map fst (sort_by compareBookmarkGroups ?bs)) = mset (map fst ?bs)"
    by (simp only: mset_map mset_sort_by)
  ultimately show ?thesis using distinct_bucket mset_eq_imp_distinct_iff by metis
qed

lemma search_url_http:
  assumes "se_url (site_search site) = [] \<or> isHTTPURL (se_url (site_search site))"
  shows "se_url (site_search (applyStyle site spec)) = [] \<or>
         isHTTPURL (se_url (site_search (applyStyle site spec)))"
  using assms
  by (auto simp: applyStyle_def applyBehaviorFields_def applyLayout_def applySearch_def
      applyLookFields_def Let_def split: option.splits)

lemma applyStyle_frame:
  "site_bookmark_groups (applyStyle site spec) = site_bookmark_groups site"
  "site_header_widgets (applyStyle site spec) = site_header_widgets site"
  by (simp_all add: applyStyle_def applyBehaviorFields_def applyLayout_def applySearch_def
      applyLookFields_def Let_def split: option.splits)

lemma applyStyle_status:
  "site_status_style (applyStyle site spec) = set_opt (st_status_style spec) (site_status_style site)"
  "site_hide_errors (applyStyle site spec) =
     set_opt (map_option Not (st_error_display spec)) (site_hide_errors site)"
  by (simp_all add: applyStyle_def applyBehaviorFields_def applyLayout_def applySearch_def
      applyLookFields_def Let_def split: option.splits)

section \<open>Properties\<close>

text \<open>
  Every bookmark entry bound to the dashboard is shown exactly once: the groups carry distinct
  names, they are the groups the bound entries name, and each shows exactly the entries that name
  it, sorted by order and then name.
\<close>

theorem groupBookmarks_partition:
  "distinct (map bg_name (groupBookmarks items dn n site)) \<and>
   set (map bg_name (groupBookmarks items dn n site)) = be_group ` set (bound_bookmarks items dn n) \<and>
   map bg_bookmarks (groupBookmarks items dn n site) =
     map (\<lambda>g. map bookmark_card (sort_by compareBookmarks
       (filter (\<lambda>e. be_group e = bg_name g) (bound_bookmarks items dn n))))
     (groupBookmarks items dn n site)"
proof -
  let ?bs = "bucket be_group (bound_bookmarks items dn n)"
  have gs: "groupBookmarks items dn n site =
      map (\<lambda>x. bookmark_group site (fst x) (snd x)) (sort_by compareBookmarkGroups ?bs)"
    by (simp add: groupBookmarks_def case_prod_unfold)
  have part: "snd x = filter (\<lambda>e. be_group e = fst x) (bound_bookmarks items dn n)" if "x \<in> set ?bs" for x
    using bucket_in [of "fst x" "snd x"] that by simp
  have "set (map bg_name (groupBookmarks items dn n site)) = fst ` set ?bs"
    by (simp add: gs image_image)
  moreover have "map bg_bookmarks (groupBookmarks items dn n site) =
     map (\<lambda>g. map bookmark_card (sort_by compareBookmarks
       (filter (\<lambda>e. be_group e = bg_name g) (bound_bookmarks items dn n))))
     (groupBookmarks items dn n site)"
    by (simp add: gs part [symmetric])
  ultimately show ?thesis
    using groupBookmarks_names [of items dn n site] by (simp only: keys_bucket simp_thms)
qed

text \<open>
  The search URL of every site that \<^verbatim>\<open>LoadSite\<close> returns is empty or an http(s) URL, so the
  search box cannot be made to open a script URL.
\<close>

theorem LoadSite_search_url:
  assumes "LoadSite rd ns dn = Inr site"
  shows "se_url (site_search site) = [] \<or> isHTTPURL (se_url (site_search site))"
proof -
  obtain spec bms iws n where "site = (case spec of None \<Rightarrow> default_site | Some s \<Rightarrow> applyStyle default_site s)
      \<lparr>site_bookmark_groups := bms, site_header_widgets := iws\<rparr>"
    using assms by (auto simp: LoadSite_def Let_def split: sum.splits)
  then show ?thesis
    using search_url_http [of default_site] by (auto simp: default_site_def split: option.split)
qed

definition ex_search_dashboard :: "string \<Rightarrow> dashboard" where
  "ex_search_dashboard url = (ex_dashboard ''web'' ''home'')\<lparr>d_spec := zero_dashboard_spec\<lparr>ds_style := Some
     \<lparr>st_title = None, st_description = None, st_favicon = None, st_card_blur = None, st_target = None,
      st_background = None, st_theme = None, st_color = None, st_header_style = None,
      st_language = None, st_full_width = None,
      st_search = Some \<lparr>ss_provider = Some ''custom'', ss_url = Some url, ss_target = None,
        ss_filter_cards = None, ss_search_descriptions = None, ss_internet_search_entry = None,
        ss_visit_url_entry = None\<rparr>,
      st_layout = [], st_collapse = None, st_groups_initially_collapsed = None,
      st_use_equal_heights = None, st_bookmarks_style = None, st_indexing = None,
      st_start_url = None, st_custom_css = None, st_custom_js = None, st_status_style = None,
      st_error_display = None, st_hide_version = None\<rparr>\<rparr>\<rparr>"

theorem LoadSite_search_url_witness:
  "(let site = projr (LoadSite (ex_reader (ex_search_dashboard ''javascript:alert(1)'') [] [] [] [])
       ''web'' ''home'')
    in se_url (site_search site) = [] \<or> isHTTPURL (se_url (site_search site)))"
  unfolding Let_def
  by (rule LoadSite_search_url [where rd = "ex_reader (ex_search_dashboard ''javascript:alert(1)'') [] [] [] []"
        and ns = "''web''" and dn = "''home''"])
     (simp add: LoadSite_def boundStyleSpec_def namespaceDashboardCount_def ex_reader_def
        ex_search_dashboard_def ex_dashboard_def Let_def)

end
