(* ===== verification/Layout.thy ===== *)
theory Layout
  imports Site
begin

text \<open>
  Grouping and nesting of the cards (\<^verbatim>\<open>groupCards\<close>, \<^verbatim>\<open>nestGroups\<close> in
  \<^verbatim>\<open>internal/dashboard/server.go\<close>).
  \<^verbatim>\<open>nestGroups\<close> builds a mutable graph of nodes; the graph is the explicit store \<open>nest_state\<close>,
  with the invariant \<open>nest_inv\<close>.  Proved here: the rendered forest holds every card exactly once
  under the group path it asked for, and every group once, under its parent.
\<close>

section \<open>Definitions\<close>

record group_head =
  g_path :: string
  g_name :: string
  g_cards :: "Card list"
  g_columns :: "int option"
  g_style :: string
  g_icon_url :: string
  g_header :: bool
  g_initially_collapsed :: bool
  g_use_equal_heights :: bool

datatype cardGroup = CardGroup (cg_head: group_head) (cg_subgroups: "cardGroup list")

definition leafSegment :: "string \<Rightarrow> string" where
  "leafSegment path =
     (case last_index ''/'' path of Some i \<Rightarrow> drop (Suc i) path | None \<Rightarrow> path)"

text \<open>The head that both \<^verbatim>\<open>groupCards\<close> and \<^verbatim>\<open>ensure\<close> create for a path.\<close>

definition new_head :: "Site \<Rightarrow> string \<Rightarrow> group_head" where
  "new_head site path = \<lparr>g_path = path, g_name = leafSegment path, g_cards = [], g_columns = None,
     g_style = [], g_icon_url = [], g_header = True,
     g_initially_collapsed = site_groups_initially_collapsed site,
     g_use_equal_heights = site_use_equal_heights site\<rparr>"

text \<open>The flat groups carry no subgroups yet: they are heads.\<close>

definition groupCards :: "Card list \<Rightarrow> Site \<Rightarrow> group_head list" where
  "groupCards cards site =
     map (\<lambda>(path, cs). (new_head site path)\<lparr>g_cards := cs\<rparr>) (bucket c_group cards)"

record nest_state =
  ns_nodes :: "string \<rightharpoonup> group_head"
  ns_children :: "string \<Rightarrow> string list"
  ns_roots :: "string list"

definition parent_path :: "string \<Rightarrow> string option" where
  "parent_path path = map_option (\<lambda>i. take i path) (last_index ''/'' path)"

definition add_node :: "string \<Rightarrow> group_head \<Rightarrow> nest_state \<Rightarrow> nest_state" where
  "add_node p h st = st\<lparr>ns_nodes := (ns_nodes st)(p \<mapsto> h)\<rparr>"

definition add_child :: "string \<Rightarrow> string \<Rightarrow> nest_state \<Rightarrow> nest_state" where
  "add_child q p st = st\<lparr>ns_children := (ns_children st)(q := ns_children st q @ [p])\<rparr>"

definition add_root :: "string \<Rightarrow> nest_state \<Rightarrow> nest_state" where
  "add_root p st = st\<lparr>ns_roots := ns_roots st @ [p]\<rparr>"

lemma parent_path_length: "parent_path p = Some q \<Longrightarrow> length q < length p"
  by (auto simp: parent_path_def dest: last_index_char_Some)

function ensure :: "Site \<Rightarrow> string \<Rightarrow> nest_state \<Rightarrow> nest_state" where
  "ensure site path st =
     (if ns_nodes st path \<noteq> None then st
      else
        let st = add_node path (new_head site path) st
        in case parent_path path of
             Some q \<Rightarrow> add_child q path (ensure site q st)
           | None \<Rightarrow> add_root path st)"
  by pat_completeness auto
termination
  by (relation "measure (\<lambda>(_, path, _). length path)") (auto dest: parent_path_length)

declare ensure.simps [simp del]

definition fill_head :: "group_head \<Rightarrow> group_head \<Rightarrow> group_head" where
  "fill_head g n = n\<lparr>g_cards := g_cards g, g_columns := g_columns g, g_style := g_style g,
     g_icon_url := g_icon_url g, g_header := g_header g,
     g_initially_collapsed := g_initially_collapsed g, g_use_equal_heights := g_use_equal_heights g\<rparr>"

definition nest_one :: "Site \<Rightarrow> nest_state \<Rightarrow> group_head \<Rightarrow> nest_state" where
  "nest_one site st g =
     (let st = ensure site (g_path g) st
      in st\<lparr>ns_nodes := (ns_nodes st)(g_path g := map_option (fill_head g) (ns_nodes st (g_path g)))\<rparr>)"

definition empty_nest :: nest_state where
  "empty_nest = \<lparr>ns_nodes = (\<lambda>_. None), ns_children = (\<lambda>_. []), ns_roots = []\<rparr>"

definition nest_all :: "Site \<Rightarrow> group_head list \<Rightarrow> nest_state" where
  "nest_all site flat = foldl (nest_one site) empty_nest flat"

definition node_head :: "Site \<Rightarrow> nest_state \<Rightarrow> string \<Rightarrow> group_head" where
  "node_head site st p = (case ns_nodes st p of Some h \<Rightarrow> h | None \<Rightarrow> new_head site p)"

text \<open>
  The recursion of \<^verbatim>\<open>toValue\<close> goes down the child links; the fuel is one more than the length of
  the longest path, which \<open>nest_fuel_enough\<close> below shows to be enough.
\<close>

fun toValue :: "nat \<Rightarrow> Site \<Rightarrow> nest_state \<Rightarrow> string \<Rightarrow> cardGroup" where
  "toValue 0 site st p = CardGroup (node_head site st p) []"
| "toValue (Suc fuel) site st p =
     CardGroup (node_head site st p) (map (toValue fuel site st) (ns_children st p))"

definition nest_fuel :: "group_head list \<Rightarrow> nat" where
  "nest_fuel flat = Suc (foldr (\<lambda>g m. max (length (g_path g)) m) flat 0)"

definition nestGroups :: "group_head list \<Rightarrow> Site \<Rightarrow> cardGroup list" where
  "nestGroups flat site =
     (let st = nest_all site flat in map (toValue (nest_fuel flat) site st) (ns_roots st))"

section \<open>The graph of nodes\<close>

fun ancestors :: "nat \<Rightarrow> string \<Rightarrow> string list" where
  "ancestors 0 p = [p]"
| "ancestors (Suc n) p = p # (case parent_path p of Some q \<Rightarrow> ancestors n q | None \<Rightarrow> [])"

text \<open>The paths from \<open>p\<close> up to its root: \<open>p\<close> cut at each of its slashes.\<close>

definition anc :: "string \<Rightarrow> string set" where
  "anc p = set (ancestors (length p) p)"

lemma ancestors_more: "length p \<le> n \<Longrightarrow> set (ancestors n p) = set (ancestors (length p) p)"
proof (induction n arbitrary: p rule: less_induct)
  case (less n)
  show ?case
  proof (cases n)
    case 0
    with less.prems show ?thesis by simp
  next
    case (Suc m)
    show ?thesis
    proof (cases "parent_path p")
      case None
      then show ?thesis using Suc by (cases "length p") simp_all
    next
      case (Some q)
      then have q: "length q < length p" by (rule parent_path_length)
      then obtain k where k: "length p = Suc k" by (cases "length p") auto
      have "set (ancestors m q) = set (ancestors (length q) q)"
        using less.IH [of m q] Suc less.prems q by simp
      moreover have "set (ancestors k q) = set (ancestors (length q) q)"
        using less.IH [of k q] k q less.prems Suc by (cases "k < n") auto
      ultimately show ?thesis using Suc k Some by simp
    qed
  qed
qed

lemma anc_unfold: "anc p = insert p (case parent_path p of Some q \<Rightarrow> anc q | None \<Rightarrow> {})"
proof (cases "parent_path p")
  case None
  then show ?thesis by (cases "length p") (auto simp: anc_def)
next
  case (Some q)
  then have q: "length q < length p" by (rule parent_path_length)
  then obtain k where k: "length p = Suc k" by (cases "length p") auto
  then show ?thesis using Some q ancestors_more [of q k] by (simp add: anc_def)
qed

lemma anc_refl [simp]: "p \<in> anc p"
  by (subst anc_unfold) simp

lemma anc_length: "q \<in> anc p \<Longrightarrow> q = p \<or> length q < length p"
proof (induction "length p" arbitrary: p rule: less_induct)
  case less
  show ?case
  proof (cases "parent_path p")
    case None
    with less.prems anc_unfold [of p] show ?thesis by simp
  next
    case (Some r)
    then have "length r < length p" by (rule parent_path_length)
    with less.hyps [of r] less.prems Some anc_unfold [of p] show ?thesis by force
  qed
qed

lemma anc_trans: "q \<in> anc p \<Longrightarrow> r \<in> anc q \<Longrightarrow> r \<in> anc p"
proof (induction "length p" arbitrary: p rule: less_induct)
  case less
  show ?case
  proof (cases "parent_path p")
    case None
    with less.prems anc_unfold [of p] show ?thesis by simp
  next
    case (Some s)
    then have "length s < length p" by (rule parent_path_length)
    with less.hyps [of s] less.prems Some anc_unfold [of p] show ?thesis by auto
  qed
qed

text \<open>Below a proper ancestor there is a child of it on the way down.\<close>

lemma anc_step_down: "q \<in> anc p \<Longrightarrow> q \<noteq> p \<Longrightarrow> \<exists>c. c \<in> anc p \<and> parent_path c = Some q"
proof (induction "length p" arbitrary: p rule: less_induct)
  case less
  from less.prems obtain s where s: "parent_path p = Some s" "q \<in> anc s"
    using anc_unfold [of p] by (cases "parent_path p") auto
  then have "length s < length p" by (simp add: parent_path_length)
  show ?case
  proof (cases "q = s")
    case True
    with s show ?thesis by (intro exI [of _ p]) simp
  next
    case False
    with less.hyps [OF \<open>length s < length p\<close> s(2)] obtain c
      where "c \<in> anc s" "parent_path c = Some q" by blast
    with s anc_unfold [of p] show ?thesis by auto
  qed
qed

lemma anc_root: "\<exists>r. r \<in> anc p \<and> parent_path r = None"
proof (induction "length p" arbitrary: p rule: less_induct)
  case less
  show ?case
  proof (cases "parent_path p")
    case None
    then show ?thesis by (intro exI [of _ p]) simp
  next
    case (Some s)
    with less.hyps [of s] parent_path_length [OF Some] anc_unfold [of p] show ?thesis by auto
  qed
qed

text \<open>The ancestors of a path form a chain.\<close>

lemma anc_chain: "a \<in> anc p \<Longrightarrow> b \<in> anc p \<Longrightarrow> a \<in> anc b \<or> b \<in> anc a"
proof (induction "length p" arbitrary: p rule: less_induct)
  case less
  show ?case
  proof (cases "a = p \<or> b = p")
    case True
    with less.prems show ?thesis by auto
  next
    case False
    with less.prems obtain s where s: "parent_path p = Some s" "a \<in> anc s" "b \<in> anc s"
      using anc_unfold [of p] by (cases "parent_path p") auto
    with less.hyps [of s] parent_path_length [OF s(1)] show ?thesis by simp
  qed
qed

lemma siblings_disjoint:
  assumes "a \<in> anc p" "b \<in> anc p" "parent_path a = parent_path b"
  shows "a = b"
proof (rule ccontr)
  assume ne: "a \<noteq> b"
  have no: False if "x \<in> anc y" "x \<noteq> y" "parent_path x = parent_path y" for x y
  proof (cases "parent_path y")
    case None
    with that anc_unfold [of y] show False by simp
  next
    case (Some s)
    with that have "x \<in> anc s" using anc_unfold [of y] by simp
    with anc_length have "length x \<le> length s" by force
    with that(3) Some parent_path_length [of x s] show False by simp
  qed
  from anc_chain [OF assms(1,2)] no [of a b] no [of b a] ne assms(3) show False by auto
qed

text \<open>
  The invariant of the graph: closed under parents, every node linked exactly once, from its
  parent or from the roots.
\<close>

definition nest_inv :: "nest_state \<Rightarrow> bool" where
  "nest_inv st \<longleftrightarrow>
     finite (dom (ns_nodes st)) \<and>
     (\<forall>p h. ns_nodes st p = Some h \<longrightarrow> g_path h = p) \<and>
     (\<forall>p \<in> dom (ns_nodes st). \<forall>q. parent_path p = Some q \<longrightarrow> q \<in> dom (ns_nodes st)) \<and>
     (\<forall>q. distinct (ns_children st q) \<and>
          set (ns_children st q) = {p \<in> dom (ns_nodes st). parent_path p = Some q}) \<and>
     distinct (ns_roots st) \<and>
     set (ns_roots st) = {p \<in> dom (ns_nodes st). parent_path p = None}"

lemma nest_inv_empty: "nest_inv empty_nest"
  by (simp add: nest_inv_def empty_nest_def)

lemma ensure_add_node:
  "length q < length p \<Longrightarrow> ensure site q (add_node p h st) = add_node p h (ensure site q st)"
proof (induction site q st rule: ensure.induct)
  case (1 site q st)
  have ne: "q \<noteq> p" using "1.prems" by auto
  show ?case
  proof (cases "ns_nodes st q")
    case None
    have comm: "add_node q (new_head site q) (add_node p h st) = add_node p h (add_node q (new_head site q) st)"
      using ne by (simp add: add_node_def fun_upd_twist)
    have IH: "ensure site r (add_node p h (add_node q (new_head site q) st)) =
        add_node p h (ensure site r (add_node q (new_head site q) st))"
      if "parent_path q = Some r" for r
      using "1.IH" [of "add_node q (new_head site q) st" r] None that "1.prems" parent_path_length [OF that]
      by simp
    have "ns_nodes (add_node p h st) q = None" using None ne by (simp add: add_node_def)
    then show ?thesis
      using None IH
      by (simp add: ensure.simps [of site q] Let_def comm split: option.split)
         (simp add: add_node_def add_child_def add_root_def)
  next
    case (Some h')
    then have "ns_nodes (add_node p h st) q = Some h'" using ne by (simp add: add_node_def)
    with Some show ?thesis by (simp add: ensure.simps [of site q])
  qed
qed

lemma ensure_new:
  assumes "ns_nodes st p = None"
  shows "ensure site p st =
     add_node p (new_head site p)
       (case parent_path p of Some q \<Rightarrow> add_child q p (ensure site q st) | None \<Rightarrow> add_root p st)"
  using assms
  by (simp add: ensure.simps [of site p] Let_def ensure_add_node parent_path_length split: option.split)
     (simp add: add_node_def add_child_def add_root_def)

lemma ensure_old: "ns_nodes st p = Some h \<Longrightarrow> ensure site p st = st"
  by (simp add: ensure.simps [of site p])

lemma ensure_nodes:
  "ns_nodes (ensure site p st) q =
     (if q \<in> anc p \<and> ns_nodes st q = None \<and>
         (\<forall>r. q \<in> anc r \<longrightarrow> r \<in> anc p \<longrightarrow> ns_nodes st r = None)
      then Some (new_head site q) else ns_nodes st q)"
proof (induction "length p" arbitrary: p rule: less_induct)
  case less
  show ?case
  proof (cases "ns_nodes st p")
    case (Some h)
    then show ?thesis by (auto simp: ensure_old)
  next
    case None
    show ?thesis
    proof (cases "parent_path p")
      case None': None
      then have "anc p = {p}" using anc_unfold [of p] by simp
      with None None' show ?thesis
        by (auto simp: ensure_new add_node_def add_root_def)
    next
      case (Some s)
      have ap: "anc p = insert p (anc s)" using anc_unfold [of p] Some by simp
      have ns: "p \<notin> anc s" using anc_length [of p s] parent_path_length [OF Some] by auto
      have nodes: "ns_nodes (ensure site p st) q =
          (if q = p then Some (new_head site p) else ns_nodes (ensure site s st) q)"
        using None Some by (simp add: ensure_new add_node_def add_child_def)
      show ?thesis
      proof (cases "q = p")
        case True
        have "ns_nodes st r = None" if "p \<in> anc r" "r \<in> anc p" for r
          using that anc_length [of p r] anc_length [of r p] None by force
        then show ?thesis using True None nodes by simp
      next
        case False
        have up: "q \<in> anc p" if "q \<in> anc s" using that ap by simp
        have "(\<forall>r. q \<in> anc r \<longrightarrow> r \<in> anc p \<longrightarrow> ns_nodes st r = None) \<longleftrightarrow>
              (\<forall>r. q \<in> anc r \<longrightarrow> r \<in> anc s \<longrightarrow> ns_nodes st r = None)"
          using None ap by auto
        with False ap show ?thesis
          unfolding nodes less.hyps [OF parent_path_length [OF Some]] by simp
      qed
    qed
  qed
qed

lemma inv_closed:
  assumes "nest_inv st" "p \<in> dom (ns_nodes st)" "q \<in> anc p"
  shows "q \<in> dom (ns_nodes st)"
  using assms(2,3)
proof (induction "length p" arbitrary: p rule: less_induct)
  case less
  show ?case
  proof (cases "parent_path p")
    case None
    with less.prems anc_unfold [of p] show ?thesis by simp
  next
    case (Some s)
    with less.prems assms(1) have "s \<in> dom (ns_nodes st)" by (auto simp: nest_inv_def)
    with less.hyps [OF parent_path_length [OF Some]] less.prems Some anc_unfold [of p]
    show ?thesis by auto
  qed
qed

lemma ensure_lookup:
  assumes "nest_inv st"
  shows "ns_nodes (ensure site p st) q =
    (if q \<in> anc p \<and> ns_nodes st q = None then Some (new_head site q) else ns_nodes st q)"
proof -
  have "ns_nodes st r = None" if "q \<in> anc r" "ns_nodes st q = None" for r
    using inv_closed [OF assms, of r q] that by (cases "ns_nodes st r") auto
  then show ?thesis unfolding ensure_nodes by auto
qed

lemma ensure_dom:
  "nest_inv st \<Longrightarrow> dom (ns_nodes (ensure site p st)) = dom (ns_nodes st) \<union> anc p"
  by (auto simp: ensure_lookup dom_def split: if_splits)

lemma nest_inv_add_root:
  assumes "nest_inv st" "ns_nodes st p = None" "parent_path p = None"
  shows "nest_inv (add_node p (new_head site p) (add_root p st))"
  using assms unfolding nest_inv_def add_node_def add_root_def
  by (auto simp: new_head_def domIff)

lemma nest_inv_add_child:
  assumes "nest_inv st" "ns_nodes st p = None" "parent_path p = Some q" "q \<in> dom (ns_nodes st)"
  shows "nest_inv (add_node p (new_head site p) (add_child q p st))"
  using assms unfolding nest_inv_def add_node_def add_child_def
  by (auto simp: new_head_def domIff)

lemma nest_inv_ensure: "nest_inv st \<Longrightarrow> nest_inv (ensure site p st)"
proof (induction "length p" arbitrary: p rule: less_induct)
  case less
  show ?case
  proof (cases "ns_nodes st p")
    case (Some h)
    with less.prems show ?thesis by (simp add: ensure_old)
  next
    case None
    show ?thesis
    proof (cases "parent_path p")
      case None': None
      with None less.prems show ?thesis by (simp add: ensure_new nest_inv_add_root)
    next
      case (Some q)
      let ?t = "ensure site q st"
      have t: "nest_inv ?t" using less.hyps [OF parent_path_length [OF Some]] less.prems .
      have "p \<notin> anc q" using anc_length [of p q] parent_path_length [OF Some] by auto
      then have "ns_nodes ?t p = None" using None by (simp add: ensure_lookup [OF less.prems])
      moreover have "q \<in> dom (ns_nodes ?t)" by (simp add: ensure_dom [OF less.prems])
      ultimately show ?thesis using None Some t by (simp add: ensure_new nest_inv_add_child)
    qed
  qed
qed

lemma nest_inv_upd:
  assumes "nest_inv st" "\<And>h. g_path (f h) = g_path h"
  shows "nest_inv (st\<lparr>ns_nodes := (ns_nodes st)(p := map_option f (ns_nodes st p))\<rparr>)"
proof -
  have "dom ((ns_nodes st)(p := map_option f (ns_nodes st p))) = dom (ns_nodes st)"
    by (auto simp: dom_def)
  with assms show ?thesis unfolding nest_inv_def by auto
qed

lemma nest_one_inv: "nest_inv st \<Longrightarrow> nest_inv (nest_one site st g)"
  unfolding nest_one_def Let_def
  by (intro nest_inv_upd nest_inv_ensure) (auto simp: fill_head_def)

lemma nest_one_lookup:
  assumes "nest_inv st"
  shows "ns_nodes (nest_one site st g) q =
    (if q = g_path g then Some (fill_head g (case ns_nodes st q of Some h \<Rightarrow> h | None \<Rightarrow> new_head site q))
     else if q \<in> anc (g_path g) \<and> ns_nodes st q = None then Some (new_head site q)
     else ns_nodes st q)"
  by (auto simp: nest_one_def Let_def ensure_lookup [OF assms] split: option.split)

lemma nest_all_inv: "nest_inv (nest_all site flat)"
  by (induction flat rule: rev_induct) (auto simp: nest_all_def nest_inv_empty nest_one_inv)

lemma nest_all_snoc: "nest_all site (flat @ [g]) = nest_one site (nest_all site flat) g"
  by (simp add: nest_all_def)

text \<open>What the nodes hold: the flat group of that path if there is one, else an empty head.\<close>

lemma nest_all_lookup:
  assumes "distinct (map g_path flat)" "\<And>g. g \<in> set flat \<Longrightarrow> g_name g = leafSegment (g_path g)"
  shows "ns_nodes (nest_all site flat) q =
    (if q \<in> (\<Union>g \<in> set flat. anc (g_path g))
     then Some (case find (\<lambda>g. g_path g = q) flat of Some g \<Rightarrow> g | None \<Rightarrow> new_head site q)
     else None)"
  using assms
proof (induction flat rule: rev_induct)
  case Nil
  then show ?case by (simp add: nest_all_def empty_nest_def)
next
  case (snoc g flat)
  have fill: "fill_head g (new_head site (g_path g)) = g"
    using snoc.prems(2) [of g] by (simp add: fill_head_def new_head_def)
  have none: "find (\<lambda>h. g_path h = g_path g) flat = None"
    using snoc.prems(1) by (force simp: find_None_iff image_iff)
  have find: "find (\<lambda>h. g_path h = q) (flat @ [g]) =
      (if q = g_path g then Some g else find (\<lambda>h. g_path h = q) flat)"
    using none by (induction flat) auto
  have IH: "ns_nodes (nest_all site flat) q =
    (if q \<in> (\<Union>g \<in> set flat. anc (g_path g))
     then Some (case find (\<lambda>g. g_path g = q) flat of Some g \<Rightarrow> g | None \<Rightarrow> new_head site q)
     else None)"
    using snoc.prems by (intro snoc.IH) auto
  have absent: "find (\<lambda>h. g_path h = q) flat = None" if "q \<notin> (\<Union>g \<in> set flat. anc (g_path g))"
    using that by (auto simp: find_None_iff)
  show ?case
    unfolding nest_all_snoc nest_one_lookup [OF nest_all_inv] IH find
    using fill none absent by (auto split: option.splits)
qed

section \<open>The rendered forest\<close>

fun tree_sum :: "(group_head \<Rightarrow> 'b multiset) \<Rightarrow> cardGroup \<Rightarrow> 'b multiset" where
  "tree_sum f (CardGroup h subs) = f h + (\<Sum>s\<leftarrow>subs. tree_sum f s)"

text \<open>Where the cards are rendered: pairs of a group path and a card shown directly under it.\<close>

definition placed :: "group_head \<Rightarrow> (string \<times> Card) multiset" where
  "placed h = image_mset (Pair (g_path h)) (mset (g_cards h))"

fun tree_nested :: "cardGroup \<Rightarrow> bool" where
  "tree_nested (CardGroup h subs) \<longleftrightarrow>
     list_all (\<lambda>s. parent_path (g_path (cg_head s)) = Some (g_path h) \<and> tree_nested s) subs"

lemma node_head_path: "nest_inv st \<Longrightarrow> g_path (node_head site st p) = p"
  by (auto simp: node_head_def nest_inv_def new_head_def split: option.split)

lemma toValue_head [simp]: "cg_head (toValue n site st p) = node_head site st p"
  by (cases n) auto

lemma children_below:
  assumes "nest_inv st"
  shows "{q \<in> dom (ns_nodes st). p \<in> anc q \<and> q \<noteq> p} =
         (\<Union>c \<in> set (ns_children st p). {q \<in> dom (ns_nodes st). c \<in> anc q})" (is "?l = ?r")
proof
  have ch: "set (ns_children st p) = {c \<in> dom (ns_nodes st). parent_path c = Some p}"
    using assms by (simp add: nest_inv_def)
  show "?l \<subseteq> ?r"
  proof
    fix q assume q: "q \<in> ?l"
    then obtain c where "c \<in> anc q" "parent_path c = Some p" using anc_step_down [of p q] by auto
    with q ch inv_closed [OF assms, of q c] show "q \<in> ?r" by auto
  qed
  show "?r \<subseteq> ?l"
  proof
    fix q assume "q \<in> ?r"
    then obtain c where c: "parent_path c = Some p" "c \<in> anc q" "q \<in> dom (ns_nodes st)"
      using ch by auto
    have "p \<in> anc c" using c(1) anc_unfold [of c] by simp
    with c have "p \<in> anc q" using anc_trans by blast
    moreover have "q \<noteq> p"
      using anc_length [OF c(2)] parent_path_length [OF c(1)] by auto
    ultimately show "q \<in> ?l" using c by simp
  qed
qed

lemma toValue_sum:
  fixes f :: "group_head \<Rightarrow> 'b multiset"
  assumes inv: "nest_inv st"
  shows "p \<in> dom (ns_nodes st) \<Longrightarrow> \<forall>q \<in> dom (ns_nodes st). length q < length p + fuel \<Longrightarrow>
    tree_sum f (toValue fuel site st p) =
      (\<Sum>q \<in> {q \<in> dom (ns_nodes st). p \<in> anc q}. f (node_head site st q))"
proof (induction fuel arbitrary: p)
  case 0
  then show ?case by auto
next
  case (Suc fuel)
  let ?D = "dom (ns_nodes st)" and ?N = "\<lambda>q. f (node_head site st q)"
  let ?C = "ns_children st p"
  have fin: "finite ?D" and dist: "distinct ?C"
    and ch: "set ?C = {c \<in> ?D. parent_path c = Some p}"
    using inv by (auto simp: nest_inv_def)
  have sub: "tree_sum f (toValue fuel site st c) = (\<Sum>q \<in> {q \<in> ?D. c \<in> anc q}. ?N q)" if "c \<in> set ?C" for c
  proof -
    have "c \<in> ?D" "length p < length c" using that ch parent_path_length by auto
    moreover have "\<forall>q \<in> ?D. length q < length c + fuel"
    proof
      fix q assume "q \<in> ?D"
      with Suc.prems(2) have "length q < length p + Suc fuel" by blast
      with \<open>length p < length c\<close> show "length q < length c + fuel" by linarith
    qed
    ultimately show ?thesis by (intro Suc.IH)
  qed
  have "(\<Sum>s\<leftarrow>map (toValue fuel site st) ?C. tree_sum f s) =
        (\<Sum>c \<in> set ?C. tree_sum f (toValue fuel site st c))"
    using dist by (simp add: comp_def sum.distinct_set_conv_list)
  also have "\<dots> = (\<Sum>c \<in> set ?C. \<Sum>q \<in> {q \<in> ?D. c \<in> anc q}. ?N q)"
    using sub by simp
  also have "\<dots> = (\<Sum>q \<in> (\<Union>c \<in> set ?C. {q \<in> ?D. c \<in> anc q}). ?N q)"
  proof (rule sum.UNION_disjoint [symmetric])
    show "\<forall>c \<in> set ?C. \<forall>d \<in> set ?C. c \<noteq> d \<longrightarrow>
        {q \<in> ?D. c \<in> anc q} \<inter> {q \<in> ?D. d \<in> anc q} = {}"
      using siblings_disjoint ch by fastforce
  qed (use fin in auto)
  also have "\<dots> = (\<Sum>q \<in> {q \<in> ?D. p \<in> anc q \<and> q \<noteq> p}. ?N q)"
    by (simp only: children_below [OF inv])
  finally have subs: "(\<Sum>s\<leftarrow>map (toValue fuel site st) ?C. tree_sum f s) =
      (\<Sum>q \<in> {q \<in> ?D. p \<in> anc q \<and> q \<noteq> p}. ?N q)" .
  have "{q \<in> ?D. p \<in> anc q} = insert p {q \<in> ?D. p \<in> anc q \<and> q \<noteq> p}"
    using Suc.prems(1) by auto
  then show ?case using subs fin by simp
qed

lemma forest_sum:
  fixes f :: "group_head \<Rightarrow> 'b multiset"
  assumes inv: "nest_inv st" and fuel: "\<forall>q \<in> dom (ns_nodes st). length q < fuel"
  shows "(\<Sum>t\<leftarrow>map (toValue fuel site st) (ns_roots st). tree_sum f t) =
    (\<Sum>q \<in> dom (ns_nodes st). f (node_head site st q))"
proof -
  let ?D = "dom (ns_nodes st)" and ?N = "\<lambda>q. f (node_head site st q)" and ?R = "set (ns_roots st)"
  have fin: "finite ?D" and dist: "distinct (ns_roots st)"
    and roots: "?R = {p \<in> ?D. parent_path p = None}"
    using inv by (auto simp: nest_inv_def)
  have cover: "?D = (\<Union>r \<in> ?R. {q \<in> ?D. r \<in> anc q})"
  proof
    show "?D \<subseteq> (\<Union>r \<in> ?R. {q \<in> ?D. r \<in> anc q})"
    proof
      fix q assume q: "q \<in> ?D"
      obtain r where "r \<in> anc q" "parent_path r = None" using anc_root by blast
      moreover from this have "r \<in> ?R" using inv_closed [OF inv q] roots by simp
      ultimately show "q \<in> (\<Union>r \<in> ?R. {q \<in> ?D. r \<in> anc q})" using q by blast
    qed
  qed auto
  have "(\<Sum>t\<leftarrow>map (toValue fuel site st) (ns_roots st). tree_sum f t) =
        (\<Sum>r \<in> ?R. tree_sum f (toValue fuel site st r))"
    using dist by (simp add: comp_def sum.distinct_set_conv_list)
  also have "\<dots> = (\<Sum>r \<in> ?R. \<Sum>q \<in> {q \<in> ?D. r \<in> anc q}. ?N q)"
    using toValue_sum [OF inv, of _ fuel f site] fuel roots by (intro sum.cong) (auto simp: trans_less_add2)
  also have "\<dots> = (\<Sum>q \<in> (\<Union>r \<in> ?R. {q \<in> ?D. r \<in> anc q}). ?N q)"
  proof (rule sum.UNION_disjoint [symmetric])
    show "\<forall>r \<in> ?R. \<forall>s \<in> ?R. r \<noteq> s \<longrightarrow>
        {q \<in> ?D. r \<in> anc q} \<inter> {q \<in> ?D. s \<in> anc q} = {}"
      using siblings_disjoint roots by fastforce
  qed (use fin in auto)
  finally show ?thesis using cover by simp
qed

lemma nest_dom:
  "dom (ns_nodes (nest_all site flat)) = (\<Union>g \<in> set flat. anc (g_path g))"
proof (induction flat rule: rev_induct)
  case Nil
  then show ?case by (simp add: nest_all_def empty_nest_def)
next
  case (snoc g flat)
  have "dom (ns_nodes (nest_all site (flat @ [g]))) =
        dom (ns_nodes (nest_all site flat)) \<union> anc (g_path g)"
    unfolding nest_all_snoc
    by (auto simp: dom_def nest_one_lookup [OF nest_all_inv] split: if_splits)
  with snoc.IH show ?case by auto
qed

lemma nest_fuel_enough:
  "q \<in> dom (ns_nodes (nest_all site flat)) \<Longrightarrow> length q < nest_fuel flat"
proof -
  assume "q \<in> dom (ns_nodes (nest_all site flat))"
  then obtain g where g: "g \<in> set flat" "q \<in> anc (g_path g)" by (auto simp: nest_dom)
  have "length (g_path g) \<le> foldr (\<lambda>g m. max (length (g_path g)) m) flat 0"
    using g(1) by (induction flat) auto
  with anc_length [OF g(2)] show ?thesis by (auto simp: nest_fuel_def)
qed

lemma nestGroups_sum:
  "(\<Sum>t\<leftarrow>nestGroups flat site. tree_sum f t) =
     (\<Sum>q \<in> dom (ns_nodes (nest_all site flat)). f (node_head site (nest_all site flat) q))"
  unfolding nestGroups_def Let_def
  using forest_sum [OF nest_all_inv, of site flat "nest_fuel flat" f] nest_fuel_enough by blast


section \<open>What the forest shows\<close>

lemma node_head_nest_all:
  assumes "distinct (map g_path flat)" "\<And>g. g \<in> set flat \<Longrightarrow> g_name g = leafSegment (g_path g)"
  shows "node_head site (nest_all site flat) q =
    (case find (\<lambda>g. g_path g = q) flat of Some g \<Rightarrow> g | None \<Rightarrow> new_head site q)"
proof -
  have "find (\<lambda>g. g_path g = q) flat = None" if "q \<notin> (\<Union>g \<in> set flat. anc (g_path g))"
    using that by (auto simp: find_None_iff)
  then show ?thesis
    by (auto simp: node_head_def nest_all_lookup [OF assms] split: option.split)
qed

lemma find_by_key: "distinct (map k xs) \<Longrightarrow> x \<in> set xs \<Longrightarrow> find (\<lambda>y. k y = k x) xs = Some x"
  by (induction xs) (auto simp: image_iff)

text \<open>A measure that is zero on empty heads sums to its total over the flat groups.\<close>

lemma nestGroups_flat_sum:
  fixes f :: "group_head \<Rightarrow> 'b multiset"
  assumes dist: "distinct (map g_path flat)"
    and name: "\<And>g. g \<in> set flat \<Longrightarrow> g_name g = leafSegment (g_path g)"
    and zero: "\<And>q. f (new_head site q) = {#}"
  shows "(\<Sum>t\<leftarrow>nestGroups flat site. tree_sum f t) = (\<Sum>g\<leftarrow>flat. f g)"
proof -
  let ?st = "nest_all site flat"
  let ?D = "dom (ns_nodes ?st)" and ?N = "node_head site ?st"
  note N = node_head_nest_all [OF dist name, of site]
  have fin: "finite ?D" using nest_all_inv by (auto simp: nest_inv_def)
  have paths: "g_path ` set flat \<subseteq> ?D" by (auto simp: nest_dom)
  have "(\<Sum>q \<in> ?D. f (?N q)) = (\<Sum>q \<in> g_path ` set flat. f (?N q))"
  proof (rule sum.mono_neutral_right [OF fin paths])
    show "\<forall>q \<in> ?D - g_path ` set flat. f (?N q) = {#}"
    proof
      fix q assume "q \<in> ?D - g_path ` set flat"
      then have "find (\<lambda>g. g_path g = q) flat = None" by (auto simp: find_None_iff)
      then show "f (?N q) = {#}" using zero by (simp add: N)
    qed
  qed
  also have "\<dots> = (\<Sum>g \<in> set flat. f (?N (g_path g)))"
    using dist by (simp add: sum.reindex distinct_map)
  also have "\<dots> = (\<Sum>g \<in> set flat. f g)"
    using find_by_key [OF dist] by (intro sum.cong) (auto simp: N)
  also have "\<dots> = (\<Sum>g\<leftarrow>flat. f g)"
    using dist by (simp add: sum.distinct_set_conv_list distinct_map)
  finally show ?thesis by (simp add: nestGroups_sum)
qed

lemma groupCards_paths: "map g_path (groupCards cards site) = map fst (bucket c_group cards)"
  by (simp add: groupCards_def new_head_def split_def comp_def)

lemma groupCards_named: "g \<in> set (groupCards cards site) \<Longrightarrow> g_name g = leafSegment (g_path g)"
  by (auto simp: groupCards_def new_head_def)

lemma groupCards_distinct: "distinct (map g_path (groupCards cards site))"
  by (simp add: groupCards_paths distinct_bucket)

lemma sum_list_image_mset: "(\<Sum>x\<leftarrow>xs. image_mset f (g x)) = image_mset f (\<Sum>x\<leftarrow>xs. g x)"
  by (induction xs) auto

lemma groupCards_placed:
  "(\<Sum>g\<leftarrow>groupCards cards site. placed g) = image_mset (\<lambda>c. (c_group c, c)) (mset cards)"
proof -
  let ?f = "\<lambda>c. (c_group c, c)" and ?B = "bucket c_group cards"
  have one: "placed ((new_head site p)\<lparr>g_cards := cs\<rparr>) = image_mset ?f (mset cs)"
    if "(p, cs) \<in> set ?B" for p cs
    using bucket_in_key [OF that] by (auto simp: placed_def new_head_def intro!: image_mset_cong)
  have "(\<Sum>g\<leftarrow>groupCards cards site. placed g) = (\<Sum>x\<leftarrow>?B. image_mset ?f (mset (snd x)))"
    unfolding groupCards_def
    by (simp add: comp_def split_def) (rule arg_cong [where f = sum_list], auto simp: one)
  also have "\<dots> = image_mset ?f (mset (concat (map snd ?B)))"
    by (simp add: sum_list_image_mset mset_concat comp_def)
  finally show ?thesis by (simp add: mset_bucket)
qed

lemma placed_new_head: "placed (new_head site q) = {#}"
  by (simp add: placed_def new_head_def)

lemma nestGroups_placed:
  "(\<Sum>t\<leftarrow>nestGroups (groupCards cards site) site. tree_sum placed t) =
     image_mset (\<lambda>c. (c_group c, c)) (mset cards)"
  by (simp add: nestGroups_flat_sum groupCards_distinct groupCards_named placed_new_head
      groupCards_placed)

text \<open>Every prefix of a requested path is a group of the forest, once.\<close>

lemma nestGroups_paths:
  "(\<Sum>t\<leftarrow>nestGroups flat site. tree_sum (\<lambda>h. {#g_path h#}) t) =
     mset_set (\<Union>g \<in> set flat. anc (g_path g))"
proof -
  have fin: "finite (\<Union>g \<in> set flat. anc (g_path g))"
    by (auto simp: anc_def)
  have "(\<Sum>q \<in> A. {#q#}) = mset_set A" if "finite A" for A :: "string set"
    using that by (induction A) auto
  with fin show ?thesis
    by (simp add: nestGroups_sum node_head_path [OF nest_all_inv] nest_dom)
qed

lemma toValue_nested: "nest_inv st \<Longrightarrow> tree_nested (toValue fuel site st p)"
proof (induction fuel arbitrary: p)
  case (Suc fuel)
  then have "parent_path c = Some p" if "c \<in> set (ns_children st p)" for c
    using that by (auto simp: nest_inv_def)
  with Suc show ?case by (auto simp: list_all_iff node_head_path)
qed simp

lemma nestGroups_nested:
  "t \<in> set (nestGroups flat site) \<Longrightarrow> tree_nested t \<and> parent_path (g_path (cg_head t)) = None"
  using nest_all_inv [of site flat]
  by (auto simp: nestGroups_def Let_def toValue_nested node_head_path nest_inv_def)

lemma nestGroups_roots_distinct: "distinct (map (g_path \<circ> cg_head) (nestGroups flat site))"
  using nest_all_inv [of site flat]
  by (auto simp: nestGroups_def Let_def comp_def node_head_path nest_inv_def)

end
