(* ===== verification/Tabs.thy ===== *)
theory Tabs
  imports Layout "HOL-Library.Sublist"
begin

text \<open>
  Styling, ordering and tab placement of the group forest (\<^verbatim>\<open>applyLayoutStyles\<close>,
  \<^verbatim>\<open>orderSubgroups\<close>, \<^verbatim>\<open>layoutTabs\<close> in \<^verbatim>\<open>internal/dashboard/server.go\<close>).  Proved here: the
  tabs together show every card exactly once and every group path exactly once, nested under
  its parent, and the subgroups of a placed group follow the tab's order.
\<close>

section \<open>Definitions\<close>

record layoutTab =
  tab_name :: string
  tab_groups :: "cardGroup list"

definition otherTabName :: string where "otherTabName = ''Other''"

definition applyLayoutStyle :: "group_head \<Rightarrow> LayoutGroup \<Rightarrow> group_head" where
  "applyLayoutStyle g lg = g\<lparr>g_columns := lg_columns lg, g_style := lg_style lg,
     g_icon_url := lg_icon_url lg, g_header := set_opt (lg_header lg) (g_header g),
     g_initially_collapsed := set_opt (lg_initially_collapsed lg) (g_initially_collapsed g),
     g_use_equal_heights := set_opt (lg_use_equal_heights lg) (g_use_equal_heights g)\<rparr>"

fun applyLayoutStyles :: "LayoutGroup gomap \<Rightarrow> cardGroup \<Rightarrow> cardGroup" where
  "applyLayoutStyles styleByPath (CardGroup h subs) =
     CardGroup (case gget styleByPath (g_path h) of Some lg \<Rightarrow> applyLayoutStyle h lg | None \<Rightarrow> h)
               (map (applyLayoutStyles styleByPath) subs)"

definition rank :: "nat gomap \<Rightarrow> string \<Rightarrow> nat" where
  "rank orderByPath path = (case gget orderByPath path of Some i \<Rightarrow> i | None \<Rightarrow> length orderByPath)"

definition compareRank :: "nat gomap \<Rightarrow> cardGroup \<Rightarrow> cardGroup \<Rightarrow> int" where
  "compareRank orderByPath a b =
     int (rank orderByPath (g_path (cg_head a))) - int (rank orderByPath (g_path (cg_head b)))"

fun orderSubgroups :: "nat gomap \<Rightarrow> cardGroup \<Rightarrow> cardGroup" where
  "orderSubgroups orderByPath (CardGroup h subs) =
     CardGroup h (map (orderSubgroups orderByPath) (sort_by (compareRank orderByPath) subs))"

definition style_by_path :: "LayoutGroup list \<Rightarrow> LayoutGroup gomap" where
  "style_by_path lgs = foldl (\<lambda>m lg. gput (lg_name lg) lg m) [] lgs"

definition order_by_path :: "LayoutGroup list \<Rightarrow> nat gomap" where
  "order_by_path lgs = foldl (\<lambda>m (i, lg). gput (lg_name lg) i m) [] (List.enumerate 0 lgs)"

fun place_groups :: "LayoutGroup gomap \<Rightarrow> nat gomap \<Rightarrow> cardGroup gomap \<Rightarrow> LayoutGroup list \<Rightarrow>
    string list \<Rightarrow> cardGroup list \<times> string list" where
  "place_groups sty ord by_root [] used = ([], used)"
| "place_groups sty ord by_root (lg # lgs) used =
     (if contains (lg_name lg) ''/'' then place_groups sty ord by_root lgs used
      else case gget by_root (lg_name lg) of
             None \<Rightarrow> place_groups sty ord by_root lgs used
           | Some g \<Rightarrow>
               if lg_name lg \<in> set used then place_groups sty ord by_root lgs used
               else (case place_groups sty ord by_root lgs (lg_name lg # used) of
                       (gs, used') \<Rightarrow>
                         (orderSubgroups ord (applyLayoutStyles sty g) # gs, used')))"

fun place_tabs :: "cardGroup gomap \<Rightarrow> LayoutTab list \<Rightarrow> string list \<Rightarrow> layoutTab list \<times> string list" where
  "place_tabs by_root [] used = ([], used)"
| "place_tabs by_root (t # ts) used =
     (case place_groups (style_by_path (lt_groups t)) (order_by_path (lt_groups t)) by_root
             (lt_groups t) used of
        (gs, used') \<Rightarrow>
          (case place_tabs by_root ts used' of
             (tabs, used'') \<Rightarrow> (\<lparr>tab_name = lt_name t, tab_groups = gs\<rparr> # tabs, used'')))"

definition root_map :: "cardGroup list \<Rightarrow> cardGroup gomap" where
  "root_map tree = foldl (\<lambda>m g. gput (g_path (cg_head g)) g m) [] tree"

definition layoutTabs :: "Card list \<Rightarrow> Site \<Rightarrow> layoutTab list" where
  "layoutTabs cards site =
     (let tree = nestGroups (groupCards cards site) site;
          layout = site_layout site
      in if layout = [] then [\<lparr>tab_name = [], tab_groups = tree\<rparr>]
         else case place_tabs (root_map tree) layout [] of
                (tabs, used) \<Rightarrow>
                  let other = filter (\<lambda>g. g_path (cg_head g) \<notin> set used) tree
                  in if other \<noteq> [] then tabs @ [\<lparr>tab_name = otherTabName, tab_groups = other\<rparr>]
                     else tabs)"

section \<open>Styling and ordering keep the forest\<close>

lemma applyLayoutStyles_sum:
  assumes "\<And>h lg. f (applyLayoutStyle h lg) = f h"
  shows "tree_sum f (applyLayoutStyles sty t) = tree_sum f t"
proof (induction sty t rule: applyLayoutStyles.induct)
  case (1 sty h subs)
  then have "(\<Sum>s\<leftarrow>map (applyLayoutStyles sty) subs. tree_sum f s) = (\<Sum>s\<leftarrow>subs. tree_sum f s)"
    by (intro arg_cong [where f = sum_list]) simp
  then show ?case using assms by (simp split: option.split)
qed

lemma orderSubgroups_sum: "tree_sum f (orderSubgroups ord t) = tree_sum f t"
proof (induction ord t rule: orderSubgroups.induct)
  case (1 ord h subs)
  let ?s = "sort_by (compareRank ord) subs"
  have "(\<Sum>s\<leftarrow>map (orderSubgroups ord) ?s. tree_sum f s) = (\<Sum>s\<leftarrow>?s. tree_sum f s)"
    using 1 by (intro arg_cong [where f = sum_list]) simp
  also have "\<dots> = (\<Sum>s\<leftarrow>subs. tree_sum f s)"
    by (intro sum_list_mset_perm) simp
  finally show ?case by simp
qed

lemma applyLayoutStyle_path [simp]: "g_path (applyLayoutStyle h lg) = g_path h"
  by (simp add: applyLayoutStyle_def)

lemma applyLayoutStyle_placed: "placed (applyLayoutStyle h lg) = placed h"
  by (simp add: placed_def applyLayoutStyle_def)

lemma applyLayoutStyles_head [simp]: "g_path (cg_head (applyLayoutStyles sty t)) = g_path (cg_head t)"
  by (cases t) (simp split: option.split)

lemma orderSubgroups_head [simp]: "cg_head (orderSubgroups ord t) = cg_head t"
  by (cases t) simp

lemma applyLayoutStyles_nested: "tree_nested (applyLayoutStyles sty t) = tree_nested t"
proof (induction sty t rule: applyLayoutStyles.induct)
  case (1 sty h subs)
  then show ?case by (auto simp: list_all_iff split: option.split)
qed

lemma orderSubgroups_nested: "tree_nested (orderSubgroups ord t) = tree_nested t"
proof (induction ord t rule: orderSubgroups.induct)
  case (1 ord h subs)
  then show ?case by (auto simp: list_all_iff)
qed

section \<open>Placement\<close>

definition shown :: "(group_head \<Rightarrow> 'b multiset) \<Rightarrow> layoutTab list \<Rightarrow> 'b multiset" where
  "shown f tabs = (\<Sum>t\<leftarrow>tabs. \<Sum>g\<leftarrow>tab_groups t. tree_sum f g)"

lemma shown_simps [simp]:
  "shown f [] = {#}" "shown f (t # ts) = (\<Sum>g\<leftarrow>tab_groups t. tree_sum f g) + shown f ts"
  "shown f (ts @ us) = shown f ts + shown f us"
  by (simp_all add: shown_def)

text \<open>What one placement step may take: unused roots, each at most once.\<close>

definition takes :: "cardGroup gomap \<Rightarrow> string list \<Rightarrow> string list \<Rightarrow> string list \<Rightarrow> bool" where
  "takes by_root used used' ps \<longleftrightarrow> used' = rev ps @ used \<and> distinct ps \<and>
     set ps \<inter> set used = {} \<and> (\<forall>p \<in> set ps. gget by_root p \<noteq> None)"

lemma takes_append:
  "takes r u u' ps \<Longrightarrow> takes r u' u'' qs \<Longrightarrow> takes r u u'' (ps @ qs)"
  by (auto simp: takes_def)

definition dress :: "LayoutGroup gomap \<Rightarrow> nat gomap \<Rightarrow> cardGroup gomap \<Rightarrow> string \<Rightarrow> cardGroup" where
  "dress sty ord by_root p = orderSubgroups ord (applyLayoutStyles sty (the (gget by_root p)))"

lemma place_groups_skip:
  assumes "contains (lg_name lg) ''/'' \<or> gget by_root (lg_name lg) = None \<or> lg_name lg \<in> set used"
  shows "place_groups sty ord by_root (lg # lgs) used = place_groups sty ord by_root lgs used"
  using assms by (auto split: option.split)

lemma place_groups_take:
  assumes "\<not> contains (lg_name lg) ''/''" "gget by_root (lg_name lg) \<noteq> None" "lg_name lg \<notin> set used"
  shows "place_groups sty ord by_root (lg # lgs) used =
    (case place_groups sty ord by_root lgs (lg_name lg # used) of
       (gs, used') \<Rightarrow> (dress sty ord by_root (lg_name lg) # gs, used'))"
  using assms by (auto simp: dress_def)

lemma place_groups_takes:
  "place_groups sty ord by_root lgs used = (gs, used') \<Longrightarrow>
     \<exists>ps. takes by_root used used' ps \<and> gs = map (dress sty ord by_root) ps \<and>
          subseq ps (map lg_name lgs)"
proof (induction lgs arbitrary: used gs used')
  case Nil
  then show ?case by (intro exI [of _ "[]"]) (simp add: takes_def)
next
  case (Cons lg lgs)
  show ?case
  proof (cases "contains (lg_name lg) ''/'' \<or> gget by_root (lg_name lg) = None \<or> lg_name lg \<in> set used")
    case True
    with Cons.prems have "place_groups sty ord by_root lgs used = (gs, used')"
      by (simp add: place_groups_skip del: place_groups.simps)
    from Cons.IH [OF this] show ?thesis by (auto intro: list_emb_Cons)
  next
    case False
    obtain gs1 where rest: "place_groups sty ord by_root lgs (lg_name lg # used) = (gs1, used')"
      and gs: "gs = dress sty ord by_root (lg_name lg) # gs1"
      using Cons.prems False
      by (auto simp: place_groups_take simp del: place_groups.simps split: prod.splits)
    obtain ps where ps: "takes by_root (lg_name lg # used) used' ps" "subseq ps (map lg_name lgs)"
      "gs1 = map (dress sty ord by_root) ps"
      using Cons.IH [OF rest] by auto
    with gs False show ?thesis
      by (intro exI [of _ "lg_name lg # ps"]) (auto simp: takes_def)
  qed
qed

declare place_groups.simps [simp del] place_tabs.simps [simp del]

lemma dress_sum:
  assumes "\<And>h lg. f (applyLayoutStyle h lg) = f h"
  shows "tree_sum f (dress sty ord by_root p) = tree_sum f (the (gget by_root p))"
  by (simp add: dress_def orderSubgroups_sum applyLayoutStyles_sum assms)

lemma place_tabs_takes:
  assumes f: "\<And>h lg. f (applyLayoutStyle h lg) = f h"
  shows "place_tabs by_root ts used = (tabs, used') \<Longrightarrow>
     \<exists>ps. takes by_root used used' ps \<and>
          shown f tabs = (\<Sum>p\<leftarrow>ps. tree_sum f (the (gget by_root p)))"
proof (induction ts arbitrary: used tabs used')
  case Nil
  then show ?case by (intro exI [of _ "[]"]) (simp add: takes_def place_tabs.simps)
next
  case (Cons t ts)
  obtain gs u1 tabs1 where
    one: "place_groups (style_by_path (lt_groups t)) (order_by_path (lt_groups t)) by_root
            (lt_groups t) used = (gs, u1)"
    and rest: "place_tabs by_root ts u1 = (tabs1, used')"
    and tabs: "tabs = \<lparr>tab_name = lt_name t, tab_groups = gs\<rparr> # tabs1"
    using Cons.prems by (auto simp: place_tabs.simps split: prod.splits)
  obtain ps where ps: "takes by_root used u1 ps"
    "gs = map (dress (style_by_path (lt_groups t)) (order_by_path (lt_groups t)) by_root) ps"
    using place_groups_takes [OF one] by auto
  obtain qs where qs: "takes by_root u1 used' qs"
    "shown f tabs1 = (\<Sum>p\<leftarrow>qs. tree_sum f (the (gget by_root p)))"
    using Cons.IH [OF rest] by auto
  have "shown f tabs = (\<Sum>p\<leftarrow>ps @ qs. tree_sum f (the (gget by_root p)))"
    using tabs ps(2) qs(2) by (simp add: comp_def dress_sum [OF f])
  with takes_append [OF ps(1) qs(1)] show ?case by blast
qed

lemma gget_root_map:
  assumes "distinct (map (g_path \<circ> cg_head) tree)"
  shows "gget (root_map tree) p = find (\<lambda>g. g_path (cg_head g) = p) tree"
proof -
  have "gget (root_map tree) p = map_of (map (\<lambda>g. (g_path (cg_head g), g)) tree) p"
    using gm.get_foldl_put [of "map (\<lambda>g. (g_path (cg_head g), g)) tree" "[]" p] assms
    by (simp add: root_map_def foldl_map comp_def split: option.split)
  also have "\<dots> = find (\<lambda>g. g_path (cg_head g) = p) tree"
    by (induction tree) auto
  finally show ?thesis .
qed

lemma find_SomeD: "find P xs = Some x \<Longrightarrow> x \<in> set xs \<and> P x"
  by (induction xs) (auto split: if_splits)

text \<open>The roots taken and the roots left over are the whole forest.\<close>

lemma taken_and_left:
  fixes h :: "cardGroup \<Rightarrow> 'b multiset"
  assumes dist: "distinct (map (g_path \<circ> cg_head) tree)"
    and ps: "takes (root_map tree) [] used ps"
  shows "(\<Sum>p\<leftarrow>ps. h (the (gget (root_map tree) p))) +
         (\<Sum>g\<leftarrow>filter (\<lambda>g. g_path (cg_head g) \<notin> set used) tree. h g) = (\<Sum>g\<leftarrow>tree. h g)"
proof -
  let ?k = "g_path \<circ> cg_head" and ?get = "\<lambda>p. the (gget (root_map tree) p)"
  have look: "?get p \<in> set tree \<and> ?k (?get p) = p" if "p \<in> set ps" for p
  proof -
    have "gget (root_map tree) p \<noteq> None" using ps that by (simp add: takes_def)
    then obtain g where "find (\<lambda>g. g_path (cg_head g) = p) tree = Some g"
      by (auto simp: gget_root_map [OF dist])
    with find_SomeD [OF this] show ?thesis by (simp add: gget_root_map [OF dist])
  qed
  have "distinct (map ?k tree)" by (fact dist)
  then have inj: "inj_on ?k (set tree)" and dt: "distinct tree" by (simp_all add: distinct_map)
  have used: "set used = set ps" and dps: "distinct ps" using ps by (auto simp: takes_def)
  have "set (map ?get ps) = set (filter (\<lambda>g. ?k g \<in> set ps) tree)"
  proof
    show "set (filter (\<lambda>g. ?k g \<in> set ps) tree) \<subseteq> set (map ?get ps)"
      using look inj by (auto simp: inj_on_def image_iff) (metis look comp_apply)
  qed (use look in auto)
  moreover have "distinct (map ?get ps)"
    using dps look by (auto simp: distinct_map inj_on_def) metis
  ultimately have "mset (map ?get ps) = mset (filter (\<lambda>g. ?k g \<in> set ps) tree)"
    using dt by (metis set_eq_iff_mset_eq_distinct distinct_filter)
  from sum_list_mset_perm [OF this, of h]
  have "(\<Sum>p\<leftarrow>ps. h (?get p)) = (\<Sum>g\<leftarrow>filter (\<lambda>g. ?k g \<in> set ps) tree. h g)"
    by (simp add: comp_def)
  moreover have "(\<Sum>g\<leftarrow>filter P tree. h g) + (\<Sum>g\<leftarrow>filter (\<lambda>g. \<not> P g) tree. h g) = (\<Sum>g\<leftarrow>tree. h g)" for P
    by (induction tree) (auto simp: ac_simps)
  ultimately show ?thesis using used by simp
qed

lemma layoutTabs_shown:
  fixes f :: "group_head \<Rightarrow> 'b multiset"
  assumes f: "\<And>h lg. f (applyLayoutStyle h lg) = f h"
  shows "shown f (layoutTabs cards site) =
    (\<Sum>t\<leftarrow>nestGroups (groupCards cards site) site. tree_sum f t)"
proof (cases "site_layout site = []")
  case False
  let ?tree = "nestGroups (groupCards cards site) site"
  obtain tabs used where pl: "place_tabs (root_map ?tree) (site_layout site) [] = (tabs, used)"
    by fastforce
  obtain ps where ps: "takes (root_map ?tree) [] used ps"
    "shown f tabs = (\<Sum>p\<leftarrow>ps. tree_sum f (the (gget (root_map ?tree) p)))"
    using place_tabs_takes [where f = f, OF f pl] by auto
  have "shown f (layoutTabs cards site) =
      shown f tabs + (\<Sum>g\<leftarrow>filter (\<lambda>g. g_path (cg_head g) \<notin> set used) ?tree. tree_sum f g)"
    using False pl by (simp add: layoutTabs_def Let_def)
  with taken_and_left [OF nestGroups_roots_distinct ps(1), of "tree_sum f"] ps(2) show ?thesis
    by simp
qed (simp add: layoutTabs_def Let_def)

lemma layoutTabs_roots:
  assumes "t \<in> set (layoutTabs cards site)" "g \<in> set (tab_groups t)"
  shows "tree_nested g \<and> parent_path (g_path (cg_head g)) = None"
proof -
  let ?tree = "nestGroups (groupCards cards site) site"
  have whole: "tree_nested g \<and> parent_path (g_path (cg_head g)) = None" if "g \<in> set ?tree" for g
    using nestGroups_nested that by blast
  have dressed: "tree_nested (dress sty ord (root_map ?tree) p) \<and>
      parent_path (g_path (cg_head (dress sty ord (root_map ?tree) p))) = None"
    if "gget (root_map ?tree) p \<noteq> None" for sty ord p
  proof -
    have "the (gget (root_map ?tree) p) \<in> set ?tree"
      using that find_SomeD by (fastforce simp: gget_root_map [OF nestGroups_roots_distinct])
    with whole show ?thesis
      by (simp add: dress_def orderSubgroups_nested applyLayoutStyles_nested)
  qed
  have placed: "\<forall>t \<in> set tabs. \<forall>g \<in> set (tab_groups t).
      tree_nested g \<and> parent_path (g_path (cg_head g)) = None"
    if "place_tabs (root_map ?tree) ts used = (tabs, used')" for ts used tabs used'
    using that
  proof (induction ts arbitrary: used tabs used')
    case (Cons t ts)
    obtain gs u1 tabs1 where
      one: "place_groups (style_by_path (lt_groups t)) (order_by_path (lt_groups t)) (root_map ?tree)
            (lt_groups t) used = (gs, u1)"
      and rest: "place_tabs (root_map ?tree) ts u1 = (tabs1, used')"
      and tabs: "tabs = \<lparr>tab_name = lt_name t, tab_groups = gs\<rparr> # tabs1"
      using Cons.prems by (auto simp: place_tabs.simps split: prod.splits)
    from place_groups_takes [OF one] dressed Cons.IH [OF rest] show ?case
      unfolding tabs by (auto simp: takes_def)
  qed (simp add: place_tabs.simps)
  show ?thesis
  proof (cases "site_layout site = []")
    case True
    with assms whole show ?thesis by (auto simp: layoutTabs_def Let_def)
  next
    case False
    obtain tabs used where pl: "place_tabs (root_map ?tree) (site_layout site) [] = (tabs, used)"
      by fastforce
    with False assms whole placed [OF pl] show ?thesis
      by (auto simp: layoutTabs_def Let_def split: if_splits)
  qed
qed

section \<open>Order of subgroups\<close>

text \<open>The position a tab gives a path: its index among the tab's groups, or past them all.\<close>

definition position_in :: "LayoutGroup list \<Rightarrow> string \<Rightarrow> nat" where
  "position_in lgs p = length (takeWhile (\<lambda>lg. lg_name lg \<noteq> p) lgs)"

fun tree_sorted :: "(string \<Rightarrow> nat) \<Rightarrow> cardGroup \<Rightarrow> bool" where
  "tree_sorted r (CardGroup h subs) \<longleftrightarrow>
     sorted_wrt (\<lambda>a b. r (g_path (cg_head a)) \<le> r (g_path (cg_head b))) subs \<and>
     list_all (tree_sorted r) subs"

interpretation rank_cmp: comparator "compareRank ord" for ord
  unfolding compareRank_def using comparator_key [OF comparator_int] by fastforce

lemma orderSubgroups_sorted: "tree_sorted (rank ord) (orderSubgroups ord t)"
proof (induction ord t rule: orderSubgroups.induct)
  case (1 ord h subs)
  have "sorted_wrt (\<lambda>a b. compareRank ord a b \<le> 0) (sort_by (compareRank ord) subs)"
    by (rule rank_cmp.sorted_sort_by)
  with 1 show ?case by (simp add: list_all_iff sorted_wrt_map compareRank_def)
qed

lemma position_in_snoc:
  "position_in (lgs @ [lg]) q =
     (if q \<in> lg_name ` set lgs then position_in lgs q else if q = lg_name lg then length lgs
      else Suc (length lgs))"
  by (induction lgs) (auto simp: position_in_def)

lemma gget_order_by_path:
  "distinct (map lg_name lgs) \<Longrightarrow>
   (\<forall>p. gget (order_by_path lgs) p = (if p \<in> lg_name ` set lgs then Some (position_in lgs p) else None)) \<and>
   length (order_by_path lgs) = length lgs"
proof (induction lgs rule: rev_induct)
  case (snoc lg lgs)
  have en: "order_by_path (lgs @ [lg]) = gput (lg_name lg) (length lgs) (order_by_path lgs)"
    by (simp add: order_by_path_def enumerate_append_eq)
  have "gget (order_by_path lgs) (lg_name lg) = None" using snoc by simp
  then have "lg_name lg \<notin> fst ` set (order_by_path lgs)"
    by (simp add: gget_def map_of_eq_None_iff)
  from gput_fresh [OF this] have "length (gput (lg_name lg) (length lgs) (order_by_path lgs)) =
      Suc (length (order_by_path lgs))" by simp
  with snoc show ?case
    unfolding en by (auto simp: gm.get_put position_in_snoc)
qed (simp add: order_by_path_def)

lemma rank_order_by_path:
  assumes "distinct (map lg_name lgs)"
  shows "rank (order_by_path lgs) p = position_in lgs p"
proof -
  have "position_in lgs p = length lgs" if "p \<notin> lg_name ` set lgs"
    using that by (induction lgs) (auto simp: position_in_def)
  with gget_order_by_path [OF assms] show ?thesis by (simp add: rank_def)
qed

lemma sorted_wrt_subseq: "subseq xs ys \<Longrightarrow> sorted_wrt R ys \<Longrightarrow> sorted_wrt R xs"
proof (induction rule: list_emb.induct)
  case (list_emb_Cons2 x y xs ys)
  have "set xs \<subseteq> set ys"
  proof
    fix z assume "z \<in> set xs"
    with list_emb_Cons2.hyps(2) show "z \<in> set ys" by (blast elim: list_emb_set)
  qed
  with list_emb_Cons2 show ?case by (simp add: subset_iff)
qed simp_all

lemma positions_sorted:
  "distinct (map lg_name lgs) \<Longrightarrow>
     sorted_wrt (\<lambda>p q. position_in lgs p < position_in lgs q) (map lg_name lgs)"
proof (induction lgs rule: rev_induct)
  case (snoc lg lgs)
  have less: "position_in lgs p < length lgs" if "p \<in> lg_name ` set lgs" for p
    using that by (induction lgs) (auto simp: position_in_def)
  have "sorted_wrt (\<lambda>p q. position_in (lgs @ [lg]) p < position_in (lgs @ [lg]) q) (map lg_name lgs)"
    using snoc by (intro sorted_wrt_mono_rel [OF _ snoc.IH]) (auto simp: position_in_snoc)
  with snoc.prems less show ?case by (auto simp: sorted_wrt_append position_in_snoc)
qed simp

text \<open>One tab of the layout, as it must come out.\<close>

definition tab_ordered :: "LayoutTab \<Rightarrow> layoutTab \<Rightarrow> bool" where
  "tab_ordered t tab \<longleftrightarrow> tab_name tab = lt_name t \<and>
     sorted_wrt (\<lambda>a b. position_in (lt_groups t) (g_path (cg_head a)) <
                       position_in (lt_groups t) (g_path (cg_head b))) (tab_groups tab) \<and>
     list_all (tree_sorted (position_in (lt_groups t))) (tab_groups tab)"

lemma place_tabs_ordered:
  assumes roots: "\<And>p g. gget by_root p = Some g \<Longrightarrow> g_path (cg_head g) = p"
  shows "place_tabs by_root ts used = (tabs, used') \<Longrightarrow>
     list_all (\<lambda>t. distinct (map lg_name (lt_groups t))) ts \<Longrightarrow> list_all2 tab_ordered ts tabs"
proof (induction ts arbitrary: used tabs used')
  case (Cons t ts)
  let ?lgs = "lt_groups t"
  obtain gs u1 tabs1 where
    one: "place_groups (style_by_path ?lgs) (order_by_path ?lgs) by_root ?lgs used = (gs, u1)"
    and rest: "place_tabs by_root ts u1 = (tabs1, used')"
    and tabs: "tabs = \<lparr>tab_name = lt_name t, tab_groups = gs\<rparr> # tabs1"
    using Cons.prems by (auto simp: place_tabs.simps split: prod.splits)
  have dist: "distinct (map lg_name ?lgs)" using Cons.prems by simp
  obtain ps where ps: "takes by_root used u1 ps" "subseq ps (map lg_name ?lgs)"
    "gs = map (dress (style_by_path ?lgs) (order_by_path ?lgs) by_root) ps"
    using place_groups_takes [OF one] by auto
  have path: "g_path (cg_head (dress sty ord by_root p)) = p" if "p \<in> set ps" for p sty ord
    using ps(1) that roots by (force simp: takes_def dress_def)
  have "sorted_wrt (\<lambda>p q. position_in ?lgs p < position_in ?lgs q) ps"
    by (rule sorted_wrt_subseq [OF ps(2) positions_sorted [OF dist]])
  then have "sorted_wrt (\<lambda>a b. position_in ?lgs (g_path (cg_head a)) <
      position_in ?lgs (g_path (cg_head b))) gs"
    unfolding ps(3) sorted_wrt_map using path by (elim sorted_wrt_mono_rel [rotated]) simp
  moreover have "rank (order_by_path ?lgs) = position_in ?lgs"
    by (simp add: rank_order_by_path [OF dist] fun_eq_iff)
  then have "list_all (tree_sorted (position_in ?lgs)) gs"
    using orderSubgroups_sorted [of "order_by_path ?lgs"] by (simp add: ps(3) dress_def list_all_iff)
  ultimately have "tab_ordered t \<lparr>tab_name = lt_name t, tab_groups = gs\<rparr>"
    by (simp add: tab_ordered_def)
  with Cons rest tabs show ?case by simp
qed (simp add: place_tabs.simps)

section \<open>Properties\<close>

text \<open>
  Whatever the layout says, the tabs together show every card exactly once, in the group its
  entry names: placement, styling and ordering neither lose nor duplicate a card.
\<close>

theorem layoutTabs_cards_once:
  "shown placed (layoutTabs cards site) = image_mset (\<lambda>c. (c_group c, c)) (mset cards)"
  using layoutTabs_shown [of placed, OF applyLayoutStyle_placed] by (simp add: nestGroups_placed)

text \<open>
  The groups shown are the cards' group paths and all their slash-prefixes, each exactly once
  over all tabs; every subgroup hangs under the group that its path names, and every top-level
  group has a slash-free path.
\<close>

theorem layoutTabs_groups_once:
  "shown (\<lambda>h. {#g_path h#}) (layoutTabs cards site) = mset_set (\<Union>c \<in> set cards. anc (c_group c)) \<and>
   list_all (\<lambda>t. list_all (\<lambda>g. tree_nested g \<and> parent_path (g_path (cg_head g)) = None)
     (tab_groups t)) (layoutTabs cards site)"
proof -
  have "(\<Union>g \<in> set (groupCards cards site). anc (g_path g)) = (\<Union>p \<in> fst ` set (bucket c_group cards). anc p)"
    by (force simp: groupCards_def new_head_def)
  then show ?thesis
    using layoutTabs_shown [of "\<lambda>h. {#g_path h#}"] layoutTabs_roots
    by (auto simp: nestGroups_paths keys_bucket list_all_iff)
qed

text \<open>
  Where no tab lists a group twice, the tabs come out in the layout's order under their names,
  the groups placed in a tab follow the tab's list, and at every depth the listed subgroups follow
  the list and the unlisted ones come after them.
\<close>

theorem layoutTabs_order:
  assumes "list_all (\<lambda>t. distinct (map lg_name (lt_groups t))) (site_layout site)"
  shows "list_all2 tab_ordered (site_layout site)
    (take (length (site_layout site)) (layoutTabs cards site))"
proof (cases "site_layout site = []")
  case False
  let ?tree = "nestGroups (groupCards cards site) site"
  obtain tabs used where pl: "place_tabs (root_map ?tree) (site_layout site) [] = (tabs, used)"
    by fastforce
  have "g_path (cg_head g) = p" if "gget (root_map ?tree) p = Some g" for p g
    using that find_SomeD by (fastforce simp: gget_root_map [OF nestGroups_roots_distinct])
  from place_tabs_ordered [OF this pl assms] have ord: "list_all2 tab_ordered (site_layout site) tabs" .
  then have "length tabs = length (site_layout site)" by (simp add: list_all2_lengthD)
  with ord pl False show ?thesis by (simp add: layoutTabs_def Let_def)
qed simp

section \<open>Examples\<close>

definition ex_layout_group :: "string \<Rightarrow> LayoutGroup" where
  "ex_layout_group p = \<lparr>lg_name = p, lg_columns = None, lg_style = [], lg_icon_url = [],
     lg_header = None, lg_initially_collapsed = None, lg_use_equal_heights = None\<rparr>"

definition ex_layout_site :: "string list \<Rightarrow> Site" where
  "ex_layout_site ps = default_site\<lparr>site_layout :=
     [\<lparr>lt_name = ''Home'', lt_groups = map ex_layout_group ps\<rparr>]\<rparr>"

definition ex_grouped_card :: "string \<Rightarrow> Card" where
  "ex_grouped_card p = zero_card\<lparr>c_group := p\<rparr>"

theorem layoutTabs_order_witness:
  "list_all2 tab_ordered [\<lparr>lt_name = ''Home'', lt_groups = map ex_layout_group [''B'', ''A'', ''A/y'']\<rparr>]
     (take 1 (layoutTabs (map ex_grouped_card [''A/x'', ''C'', ''A/y'', ''B''])
        (ex_layout_site [''B'', ''A'', ''A/y''])))"
  using layoutTabs_order [of "ex_layout_site [''B'', ''A'', ''A/y'']"
      "map ex_grouped_card [''A/x'', ''C'', ''A/y'', ''B'']"]
  by (simp add: ex_layout_site_def ex_layout_group_def)

text \<open>
  Without that hypothesis the order can fail: the rank of an unlisted subgroup is the number of
  distinct names, which the last occurrence of a repeated name can reach.  Here the listed
  \<^verbatim>\<open>A/y\<close> stays behind the unlisted \<^verbatim>\<open>A/x\<close>.
\<close>

lemma layoutTabs_duplicate_name:
  "map (\<lambda>t. map (\<lambda>g. map (\<lambda>s. g_path (cg_head s)) (cg_subgroups g)) (tab_groups t))
     (layoutTabs (map ex_grouped_card [''A/x'', ''A/y'']) (ex_layout_site [''A'', ''A/y'', ''A/y''])) =
   [[[''A/x'', ''A/y'']]]"
  by code_simp

lemma layoutTabs_single_name:
  "map (\<lambda>t. map (\<lambda>g. map (\<lambda>s. g_path (cg_head s)) (cg_subgroups g)) (tab_groups t))
     (layoutTabs (map ex_grouped_card [''A/x'', ''A/y'']) (ex_layout_site [''A'', ''A/y''])) =
   [[[''A/y'', ''A/x'']]]"
  by code_simp

end
