(* ===== verification/Render.thy ===== *)
theory Render
  imports Site
begin

text \<open>
  What the page templates compute: the palette tables (\<^verbatim>\<open>internal/dashboard/palette.go\<close>) and the
  rendering helpers (\<^verbatim>\<open>internal/dashboard/render_helpers.go\<close>), among them the three escaping
  functions whose results are written into the page without further escaping.  Proved here:
  an escaped background image stays inside its CSS string and its element, and custom CSS and
  JavaScript cannot close the element they are written into.
\<close>

section \<open>The palette\<close>

record Ramp =
  r_c50 :: string
  r_c100 :: string
  r_c200 :: string
  r_c300 :: string
  r_c400 :: string
  r_c500 :: string
  r_c600 :: string
  r_c700 :: string
  r_c800 :: string
  r_c900 :: string

definition ramp where
  "ramp a b c d e f g h i j = \<lparr>r_c50 = a, r_c100 = b, r_c200 = c, r_c300 = d, r_c400 = e,
     r_c500 = f, r_c600 = g, r_c700 = h, r_c800 = i, r_c900 = j\<rparr>"

definition blue500 :: string where "blue500 = ''#3b82f6''"

definition colorRamps :: "Ramp gomap" where
  "colorRamps = [
    (defaultColor, ramp ''#f8fafc'' ''#f1f5f9'' ''#e2e8f0'' ''#cbd5e1'' ''#94a3b8''
      ''#64748b'' ''#475569'' ''#334155'' ''#1e293b'' ''#0f172a''),
    (''gray'', ramp ''#f9fafb'' ''#f3f4f6'' ''#e5e7eb'' ''#d1d5db'' ''#9ca3af''
      ''#6b7280'' ''#4b5563'' ''#374151'' ''#1f2937'' ''#111827''),
    (''zinc'', ramp ''#fafafa'' ''#f4f4f5'' ''#e4e4e7'' ''#d4d4d8'' ''#a1a1aa''
      ''#71717a'' ''#52525b'' ''#3f3f46'' ''#27272a'' ''#18181b''),
    (''neutral'', ramp ''#fafafa'' ''#f5f5f5'' ''#e5e5e5'' ''#d4d4d4'' ''#a3a3a3''
      ''#737373'' ''#525252'' ''#404040'' ''#262626'' ''#171717''),
    (''stone'', ramp ''#fafaf9'' ''#f5f5f4'' ''#e7e5e4'' ''#d6d3d1'' ''#a8a29e''
      ''#78716c'' ''#57534e'' ''#44403c'' ''#292524'' ''#1c1917''),
    (''red'', ramp ''#fef2f2'' ''#fee2e2'' ''#fecaca'' ''#fca5a5'' ''#f87171''
      ''#ef4444'' ''#dc2626'' ''#b91c1c'' ''#991b1b'' ''#7f1d1d''),
    (''orange'', ramp ''#fff7ed'' ''#ffedd5'' ''#fed7aa'' ''#fdba74'' ''#fb923c''
      ''#f97316'' ''#ea580c'' ''#c2410c'' ''#9a3412'' ''#7c2d12''),
    (''amber'', ramp ''#fffbeb'' ''#fef3c7'' ''#fde68a'' ''#fcd34d'' ''#fbbf24''
      ''#f59e0b'' ''#d97706'' ''#b45309'' ''#92400e'' ''#78350f''),
    (''yellow'', ramp ''#fefce8'' ''#fef9c3'' ''#fef08a'' ''#fde047'' ''#facc15''
      ''#eab308'' ''#ca8a04'' ''#a16207'' ''#854d0e'' ''#713f12''),
    (''lime'', ramp ''#f7fee7'' ''#ecfccb'' ''#d9f99d'' ''#bef264'' ''#a3e635''
      ''#84cc16'' ''#65a30d'' ''#4d7c0f'' ''#3f6212'' ''#365314''),
    (''green'', ramp ''#f0fdf4'' ''#dcfce7'' ''#bbf7d0'' ''#86efac'' ''#4ade80''
      ''#22c55e'' ''#16a34a'' ''#15803d'' ''#166534'' ''#14532d''),
    (''emerald'', ramp ''#ecfdf5'' ''#d1fae5'' ''#a7f3d0'' ''#6ee7b7'' ''#34d399''
      ''#10b981'' ''#059669'' ''#047857'' ''#065f46'' ''#064e3b''),
    (''teal'', ramp ''#f0fdfa'' ''#ccfbf1'' ''#99f6e4'' ''#5eead4'' ''#2dd4bf''
      ''#14b8a6'' ''#0d9488'' ''#0f766e'' ''#115e59'' ''#134e4a''),
    (''cyan'', ramp ''#ecfeff'' ''#cffafe'' ''#a5f3fc'' ''#67e8f9'' ''#22d3ee''
      ''#06b6d4'' ''#0891b2'' ''#0e7490'' ''#155e75'' ''#164e63''),
    (''sky'', ramp ''#f0f9ff'' ''#e0f2fe'' ''#bae6fd'' ''#7dd3fc'' ''#38bdf8''
      ''#0ea5e9'' ''#0284c7'' ''#0369a1'' ''#075985'' ''#0c4a6e''),
    (''blue'', ramp ''#eff6ff'' ''#dbeafe'' ''#bfdbfe'' ''#93c5fd'' ''#60a5fa''
      blue500 ''#2563eb'' ''#1d4ed8'' ''#1e40af'' ''#1e3a8a''),
    (''indigo'', ramp ''#eef2ff'' ''#e0e7ff'' ''#c7d2fe'' ''#a5b4fc'' ''#818cf8''
      ''#6366f1'' ''#4f46e5'' ''#4338ca'' ''#3730a3'' ''#312e81''),
    (''violet'', ramp ''#f5f3ff'' ''#ede9fe'' ''#ddd6fe'' ''#c4b5fd'' ''#a78bfa''
      ''#8b5cf6'' ''#7c3aed'' ''#6d28d9'' ''#5b21b6'' ''#4c1d95''),
    (''purple'', ramp ''#faf5ff'' ''#f3e8ff'' ''#e9d5ff'' ''#d8b4fe'' ''#c084fc''
      ''#a855f7'' ''#9333ea'' ''#7e22ce'' ''#6b21a8'' ''#581c87''),
    (''fuchsia'', ramp ''#fdf4ff'' ''#fae8ff'' ''#f5d0fe'' ''#f0abfc'' ''#e879f9''
      ''#d946ef'' ''#c026d3'' ''#a21caf'' ''#86198f'' ''#701a75''),
    (''pink'', ramp ''#fdf2f8'' ''#fce7f3'' ''#fbcfe8'' ''#f9a8d4'' ''#f472b6''
      ''#ec4899'' ''#db2777'' ''#be185d'' ''#9d174d'' ''#831843''),
    (''rose'', ramp ''#fff1f2'' ''#ffe4e6'' ''#fecdd3'' ''#fda4af'' ''#fb7185''
      ''#f43f5e'' ''#e11d48'' ''#be123c'' ''#9f1239'' ''#881337'')]"

definition accentPalette :: "string gomap" where
  "accentPalette = [
    (defaultColor, ''#64748b''), (''gray'', ''#6b7280''), (''zinc'', ''#71717a''),
    (''neutral'', ''#737373''), (''stone'', ''#78716c''), (''red'', ''#ef4444''),
    (''orange'', ''#f97316''), (''amber'', ''#f59e0b''), (''yellow'', ''#eab308''),
    (''lime'', ''#84cc16''), (''green'', ''#22c55e''), (''emerald'', ''#10b981''),
    (''teal'', ''#14b8a6''), (''cyan'', ''#06b6d4''), (''sky'', ''#0ea5e9''),
    (''blue'', blue500), (''indigo'', ''#6366f1''), (''violet'', ''#8b5cf6''),
    (''purple'', ''#a855f7''), (''fuchsia'', ''#d946ef''), (''pink'', ''#ec4899''),
    (''rose'', ''#f43f5e''), (''white'', ''#94a3b8'')]"

definition defaultAccentHex :: string where "defaultAccentHex = ''#64748b''"

definition AccentHex :: "string \<Rightarrow> string" where
  "AccentHex color = (case gget accentPalette color of Some hex \<Rightarrow> hex | None \<Rightarrow> defaultAccentHex)"

text \<open>Reading an absent key of a Go map gives the zero value.\<close>

definition PaletteRamp :: "string \<Rightarrow> Ramp" where
  "PaletteRamp color =
     (case gget colorRamps color of
        Some r \<Rightarrow> r
      | None \<Rightarrow> set_opt (gget colorRamps defaultColor) (ramp [] [] [] [] [] [] [] [] [] []))"

definition AllPalettes :: "string gomap gomap" where
  "AllPalettes =
     map (\<lambda>(name, _).
       (name,
        let r = PaletteRamp name in
        [(''c50'', r_c50 r), (''c100'', r_c100 r), (''c200'', r_c200 r), (''c300'', r_c300 r),
         (''c400'', r_c400 r), (''c500'', r_c500 r), (''c600'', r_c600 r), (''c700'', r_c700 r),
         (''c800'', r_c800 r), (''c900'', r_c900 r), (''accent'', AccentHex name)]))
     accentPalette"

section \<open>Rendering helpers\<close>

definition percentBarStyle :: "int \<Rightarrow> string" where
  "percentBarStyle p =
     (let p = (if p < 0 then 0 else if p > 100 then 100 else p)
      in ''width: '' @ fmt_int p @ ''%;'')"

definition gridStyle :: "int \<Rightarrow> string" where
  "gridStyle n =
     ''grid-template-columns: repeat(auto-fit, minmax(max(min(220px, 100%), calc((100% - '' @
     fmt_int (n - 1) @ '' * 1rem) / '' @ fmt_int n @ '')), 1fr));''"

definition styleRow :: string where "styleRow = ''row''"

definition gridClasses :: "string \<Rightarrow> string \<Rightarrow> int option \<Rightarrow> bool \<Rightarrow> string" where
  "gridClasses extra style columns equalHeights =
     join '' ''
       ((if extra \<noteq> [] then [extra] else []) @ [''grid''] @
        (if style = styleRow \<and> columns = None then [''grid-row''] else []) @
        (if equalHeights then [''grid-equal''] else []))"

definition cardTarget :: "Card \<Rightarrow> string \<Rightarrow> string" where
  "cardTarget c siteTarget = (if c_target c \<noteq> [] then c_target c else siteTarget)"

definition bookmarkTarget :: "BookmarkCard \<Rightarrow> string \<Rightarrow> string" where
  "bookmarkTarget b siteTarget = (if bc_target b \<noteq> [] then bc_target b else siteTarget)"

definition isNewTabTarget :: "string \<Rightarrow> bool" where
  "isNewTabTarget target \<longleftrightarrow> target \<notin> {[], ''_self'', ''_parent'', ''_top''}"

text \<open>The middle dot of the source is two bytes of UTF-8.\<close>

definition statusWithLatency :: "string \<Rightarrow> string \<Rightarrow> string" where
  "statusWithLatency status latency =
     (if latency \<noteq> [] then status @ [CHR '' '', CHR 0xC2, CHR 0xB7, CHR '' ''] @ latency else status)"

definition statusWithReadyText :: "string \<Rightarrow> string \<Rightarrow> string" where
  "statusWithReadyText status readyText =
     (if readyText \<noteq> [] then status @ '' ('' @ readyText @ '')'' else status)"

definition statusPartial :: string where "statusPartial = ''Partial''"

definition podPillText :: "Card \<Rightarrow> string" where
  "podPillText c =
     (if c_pod_status c = ''Up'' then ''Running''
      else if c_pod_status c = statusPartial then
        (if c_pod_ready_text c \<noteq> [] then c_pod_ready_text c else c_pod_status c)
      else c_pod_status c)"

definition tabID :: "int \<Rightarrow> string" where "tabID i = ''tab-'' @ fmt_int i"
definition panelID :: "int \<Rightarrow> string" where "panelID i = ''panel-'' @ fmt_int i"

definition ariaSelectedAttr :: "bool \<Rightarrow> string" where
  "ariaSelectedAttr selected = (if selected then ''true'' else ''false'')"

definition tabIndexAttr :: "bool \<Rightarrow> string" where
  "tabIndexAttr selected = (if selected then ''0'' else ''-1'')"

definition langOrDefault :: "string \<Rightarrow> string" where
  "langOrDefault lang = (if lang \<noteq> [] then lang else ''en'')"

definition rootVarsCSS :: "string \<Rightarrow> Ramp \<Rightarrow> string \<Rightarrow> Background option \<Rightarrow> string" where
  "rootVarsCSS accentHex r cardBlur background =
     ''--accent: '' @ accentHex @ '';'' @
     ''--c50: '' @ r_c50 r @ ''; --c100: '' @ r_c100 r @ ''; --c200: '' @ r_c200 r @
     ''; --c300: '' @ r_c300 r @ ''; --c400: '' @ r_c400 r @ ''; --c500: '' @ r_c500 r @
     ''; --c600: '' @ r_c600 r @ ''; --c700: '' @ r_c700 r @ ''; --c800: '' @ r_c800 r @
     ''; --c900: '' @ r_c900 r @ '';'' @
     (if cardBlur \<noteq> [] then ''--card-blur: '' @ cardBlur @ '';'' else []) @
     (if background \<noteq> None \<or> cardBlur \<noteq> []
      then ''--card-backdrop: blur(var(--card-blur, 8px));'' else []) @
     (case background of
        None \<Rightarrow> []
      | Some bg \<Rightarrow>
          (case bg_opacity bg of None \<Rightarrow> [] | Some q \<Rightarrow> ''--card-opacity: '' @ fmt_int q @ ''%;''))"

definition themeColorHex :: "string \<Rightarrow> Ramp \<Rightarrow> string" where
  "themeColorHex theme r = (if theme = ''light'' then r_c50 r else r_c900 r)"

definition versionFooterText :: "string \<Rightarrow> string \<Rightarrow> string" where
  "versionFooterText version commit =
     (let version = or_str version ''dev'' in
      if commit = [] \<or> commit = ''dev'' \<or> commit = version then version
      else version @ '' ('' @ commit @ '')'')"

section \<open>Escaping\<close>

text \<open>\<^verbatim>\<open>strings.ReplaceAll\<close> of a one-byte string.\<close>

definition replace_char :: "char \<Rightarrow> string \<Rightarrow> string \<Rightarrow> string" where
  "replace_char c r s = concat (map (\<lambda>x. if x = c then r else [x]) s)"

abbreviation backslash :: char where "backslash \<equiv> CHR 0x5C"
abbreviation dquote :: char where "dquote \<equiv> CHR 0x22"

definition cssStringEscape :: "string \<Rightarrow> string" where
  "cssStringEscape s =
     (let s = replace_char backslash [backslash, backslash] s;
          s = replace_char dquote [backslash, dquote] s;
          s = replace_char (CHR ''<'') ''&lt;'' s
      in replace_char (CHR ''>'') ''&gt;'' s)"

text \<open>
  The regular expression \<^verbatim>\<open>(?i)p\<close> for a pattern of lower-case ASCII text without a \<^verbatim>\<open>k\<close>, anchored
  at the start of the string: the length of the match.  Case folding is Unicode's, in which the
  long s (bytes C5 BF) is an s.
\<close>

fun match_fold :: "string \<Rightarrow> string \<Rightarrow> nat option" where
  "match_fold [] s = Some 0"
| "match_fold (p # ps) [] = None"
| "match_fold (p # ps) (c # s) =
     (if lower_char c = p then map_option Suc (match_fold ps s)
      else if p = CHR ''s'' \<and> c = CHR 0xC5 then
        (case s of
           [] \<Rightarrow> None
         | d # s' \<Rightarrow> if d = CHR 0xBF then map_option (\<lambda>n. n + 2) (match_fold ps s') else None)
      else None)"

text \<open>\<^verbatim>\<open>ReplaceAllString\<close>: leftmost matches, without overlap.\<close>

function replace_fold :: "string \<Rightarrow> string \<Rightarrow> string \<Rightarrow> string" where
  "replace_fold pat rep [] = []"
| "replace_fold pat rep (c # s) =
     (case match_fold pat (c # s) of
        None \<Rightarrow> c # replace_fold pat rep s
      | Some n \<Rightarrow> rep @ replace_fold pat rep (drop (n - 1) s))"
  by pat_completeness auto
termination by (relation "measure (\<lambda>(_, _, s). length s)") auto

definition cssBlockEscape :: "string \<Rightarrow> string" where
  "cssBlockEscape s = replace_fold ''</style'' (CHR ''<'' # backslash # ''/style'') s"

definition jsStringEscape :: "string \<Rightarrow> string" where
  "jsStringEscape s = replace_fold ''</script'' (CHR ''<'' # backslash # ''/script'') s"

definition attr :: "string \<Rightarrow> string" where
  "attr v = [dquote] @ v @ [dquote]"

definition backgroundFilterCSS :: "Background \<Rightarrow> string" where
  "backgroundFilterCSS bg =
     (let parts =
        (if bg_blur bg \<noteq> [] then [''blur('' @ bg_blur bg @ '')''] else []) @
        (case bg_brightness bg of None \<Rightarrow> [] | Some n \<Rightarrow> [''brightness('' @ fmt_int n @ ''%)'']) @
        (case bg_saturate bg of None \<Rightarrow> [] | Some n \<Rightarrow> [''saturate('' @ fmt_int n @ ''%)''])
      in if parts = [] then [] else '' filter: '' @ join '' '' parts @ '';'')"

definition backgroundInsetCSS :: "Background \<Rightarrow> string" where
  "backgroundInsetCSS bg =
     (if bg_blur bg \<noteq> [] then ''inset: calc(-2 * '' @ bg_blur bg @ ''); '' else ''inset: 0; '')"

definition backgroundStyle :: "string \<Rightarrow> Background option \<Rightarrow> string" where
  "backgroundStyle nonce background =
     (case background of
        None \<Rightarrow> []
      | Some bg \<Rightarrow>
          ''<style nonce='' @ attr nonce @ ''>body::before { content: '' @ attr [] @
          ''; position: fixed; '' @ backgroundInsetCSS bg @ ''z-index: -1; background-image: url('' @
          attr (cssStringEscape (bg_image bg)) @
          ''); background-size: cover; background-position: center; will-change: transform;'' @
          backgroundFilterCSS bg @ '' }</style>'')"

definition customStyle :: "string \<Rightarrow> string \<Rightarrow> string" where
  "customStyle nonce css =
     (if css = [] then [] else ''<style nonce='' @ attr nonce @ ''>'' @ cssBlockEscape css @ ''</style>'')"

definition customScript :: "string \<Rightarrow> string \<Rightarrow> string" where
  "customScript nonce js =
     (if js = [] then [] else ''<script nonce='' @ attr nonce @ ''>'' @ jsStringEscape js @ ''</script>'')"

section \<open>Lemmas\<close>

lemma replace_char_simps [simp]:
  "replace_char c r [] = []"
  "replace_char c r (x # s) = (if x = c then r else [x]) @ replace_char c r s"
  "replace_char c r (s @ t) = replace_char c r s @ replace_char c r t"
  by (simp_all add: replace_char_def)

definition css_char :: "char \<Rightarrow> string" where
  "css_char c = (if c = backslash then [backslash, backslash] else if c = dquote then [backslash, dquote]
     else if c = CHR ''<'' then ''&lt;'' else if c = CHR ''>'' then ''&gt;'' else [c])"

lemma cssStringEscape_chars: "cssStringEscape s = concat (map css_char s)"
  by (induction s) (auto simp: cssStringEscape_def css_char_def Let_def)

text \<open>A CSS parser inside a double-quoted string: does it reach the end of the text still inside?\<close>

fun css_in_string :: "string \<Rightarrow> bool" where
  "css_in_string [] \<longleftrightarrow> True"
| "css_in_string (c # s) \<longleftrightarrow>
     (if c = backslash then (case s of [] \<Rightarrow> False | d # s' \<Rightarrow> css_in_string s')
      else c \<noteq> dquote \<and> css_in_string s)"

lemma css_in_string_char: "css_in_string (css_char c @ s) = css_in_string s"
  by (simp add: css_char_def)

lemma lower_char_less: "lower_char c = CHR ''<'' \<longleftrightarrow> c = CHR ''<''"
proof
  assume eq: "lower_char c = CHR ''<''"
  show "c = CHR ''<''"
  proof (cases "65 \<le> (of_char c :: nat) \<and> (of_char c :: nat) \<le> 90")
    case True
    then have "(of_char (lower_char c) :: nat) = of_char c + 32"
      by (simp add: lower_char_def)
    with eq True show ?thesis by simp
  next
    case False
    then have "lower_char c = c" by (auto simp: lower_char_def)
    with eq show ?thesis by simp
  qed
qed (simp add: lower_char_def)

lemma to_lower_simps [simp]: "to_lower [] = []" "to_lower (c # s) = lower_char c # to_lower s"
  "to_lower (s @ t) = to_lower s @ to_lower t"
  by (simp_all add: to_lower_def)

lemma match_fold_ascii: "has_prefix (to_lower s) p \<Longrightarrow> match_fold p s \<noteq> None"
proof (induction p arbitrary: s)
  case (Cons a p)
  then show ?case by (cases s) auto
qed simp

lemma replace_fold_prefix:
  assumes "CHR ''<'' \<notin> set p"
    "has_prefix (to_lower (replace_fold pat (CHR ''<'' # r) s)) p"
  shows "has_prefix (to_lower s) p"
  using assms
proof (induction p arbitrary: s)
  case (Cons a p)
  then obtain c s' where s: "s = c # s'" by (cases s) auto
  have "lower_char (CHR ''<'') = CHR ''<''" by (simp add: lower_char_less)
  with Cons show ?case by (auto simp: s split: option.splits)
qed simp

lemma contains_skip:
  "CHR ''<'' \<notin> set r \<Longrightarrow>
     contains (to_lower (r @ t)) (CHR ''<'' # q) \<longleftrightarrow> contains (to_lower t) (CHR ''<'' # q)"
  by (induction r) (auto simp: lower_char_less)

text \<open>What a closing-tag escape leaves behind never holds the closing tag, in any case.\<close>

lemma replace_fold_escapes:
  assumes "CHR ''<'' \<notin> set q" "CHR ''<'' \<notin> set r"
    and "\<And>t. \<not> has_prefix (to_lower (r @ t)) q"
  shows "\<not> contains (to_lower (replace_fold (CHR ''<'' # q) (CHR ''<'' # r) s)) (CHR ''<'' # q)"
proof (induction "CHR ''<'' # q" "CHR ''<'' # r" s rule: replace_fold.induct)
  case 1
  then show ?case by simp
next
  case (2 c s)
  let ?R = "replace_fold (CHR ''<'' # q) (CHR ''<'' # r)"
  show ?case
  proof (cases "match_fold (CHR ''<'' # q) (c # s)")
    case None
    have "\<not> (lower_char c = CHR ''<'' \<and> has_prefix (to_lower (?R s)) q)"
    proof
      assume "lower_char c = CHR ''<'' \<and> has_prefix (to_lower (?R s)) q"
      with replace_fold_prefix [OF assms(1)] have "has_prefix (to_lower (c # s)) (CHR ''<'' # q)" by auto
      from match_fold_ascii [OF this] None show False by simp
    qed
    with 2(1) [OF None] None show ?thesis by auto
  next
    case (Some n)
    have out: "?R (c # s) = CHR ''<'' # (r @ ?R (drop (n - 1) s))" using Some by simp
    show ?thesis
      unfolding out using 2(2) [OF Some] assms contains_skip [OF assms(2)] by simp
  qed
qed

lemma replace_fold_verbatim:
  "(\<And>t u. s = t @ u \<Longrightarrow> u \<noteq> [] \<Longrightarrow> match_fold pat u = None) \<Longrightarrow> replace_fold pat rep s = s"
proof (induction s)
  case (Cons c s)
  have "match_fold pat u = None" if "s = t @ u" "u \<noteq> []" for t u
    using Cons.prems [of "c # t" u] that by simp
  with Cons.IH Cons.prems [of "[]" "c # s"] show ?case by simp
qed simp

text \<open>The palette's mid step is its accent, save for white, which has no ramp of its own.\<close>

lemma palette_mid_is_accent:
  "list_all (\<lambda>(name, _). name = ''white'' \<or> r_c500 (PaletteRamp name) = AccentHex name) accentPalette"
  by code_simp

lemma palette_total: "gget colorRamps defaultColor \<noteq> None"
  by code_simp

section \<open>Properties\<close>

text \<open>
  A background image, whatever it holds, stays inside the double-quoted CSS string it is
  written into and inside the style element: the escaped text has no unescaped quote and does not
  end within an escape, and it holds no angle bracket.
\<close>

theorem cssStringEscape_contained:
  "css_in_string (cssStringEscape s) \<and>
   CHR ''<'' \<notin> set (cssStringEscape s) \<and> CHR ''>'' \<notin> set (cssStringEscape s)"
  unfolding cssStringEscape_chars
  by (induction s) (auto simp: css_in_string_char css_char_def split: if_splits)

text \<open>
  A newline is not escaped, though it also ends a CSS string (as a bad string): the comment on
  \<^verbatim>\<open>cssStringEscape\<close> says that escaping backslash and quote is enough.
\<close>

lemma cssStringEscape_newline: "cssStringEscape [CHR 0x0A] = [CHR 0x0A]"
  by code_simp

text \<open>
  Custom CSS and custom JavaScript cannot leave the element they are written into: the escaped
  text does not hold the closing tag in any mixture of upper and lower case.
\<close>

theorem escaped_blocks_stay_closed:
  "\<not> contains (to_lower (cssBlockEscape css)) ''</style'' \<and>
   \<not> contains (to_lower (jsStringEscape js)) ''</script''"
proof
  show "\<not> contains (to_lower (cssBlockEscape css)) ''</style''"
    unfolding cssBlockEscape_def by (rule replace_fold_escapes) (simp_all add: lower_char_def)
  show "\<not> contains (to_lower (jsStringEscape js)) ''</script''"
    unfolding jsStringEscape_def by (rule replace_fold_escapes) (simp_all add: lower_char_def)
qed

end
