(* ===== verification/Header.thy ===== *)
theory Header
  imports Cards Site
begin

text \<open>
  The header strip (\<^verbatim>\<open>buildHeader\<close> and its helpers in \<^verbatim>\<open>internal/dashboard/server.go\<close>): joining
  the header-widget definitions with their live cards, default and weather icons, and the
  alignment partition.  Proved here: every definition gives exactly one view, left-aligned ones
  before right-aligned ones in their given order, exactly the first right-aligned one pushes
  right, and a polled widget shows the fields of the card stored under its own key.
\<close>

record headerFieldView =
  fv_value :: string
  fv_label :: string
  fv_icon_url :: string
  fv_percent :: "int option"
  fv_highlight :: string

record headerWidgetView =
  hv_type :: string
  hv_greeting :: string
  hv_format :: string
  hv_icon_url :: string
  hv_href :: string
  hv_fields :: "headerFieldView list"
  hv_err :: string
  hv_push_right :: bool

definition widgetTypeOpenMeteo :: string where "widgetTypeOpenMeteo = ''openmeteo''"
definition widgetTypeOpenWeatherMap :: string where "widgetTypeOpenWeatherMap = ''openweathermap''"
definition widgetTypeLonghorn :: string where "widgetTypeLonghorn = ''longhorn''"
definition labelConditions :: string where "labelConditions = ''Conditions''"
definition labelCPU :: string where "labelCPU = ''CPU''"
definition labelMemory :: string where "labelMemory = ''Memory''"
definition labelStorage :: string where "labelStorage = ''Storage''"

definition headerIconColor :: string where "headerIconColor = ''94a3b8''"

definition headerWidgetDefaultIcons :: "string gomap" where
  "headerWidgetDefaultIcons =
     [(''kubemetrics'', ''si-kubernetes-#'' @ headerIconColor),
      (widgetTypeLonghorn, ''lucide-hard-drive-#'' @ headerIconColor)]"

definition fieldIconSlugs :: "string gomap" where
  "fieldIconSlugs =
     [(labelCPU, ''lucide-cpu''), (labelMemory, ''fa6-solid-memory''),
      (labelStorage, ''lucide-hard-drive'')]"

definition fieldValue :: "Field list \<Rightarrow> string \<Rightarrow> string" where
  "fieldValue flds label =
     (case find (\<lambda>f. f_label f = label) flds of Some f \<Rightarrow> f_value f | None \<Rightarrow> [])"

text \<open>
  An iframe card reads its source and height back from the fields its poll made.
\<close>

definition iframeSrc :: "Field list \<Rightarrow> string" where "iframeSrc flds = fieldValue flds ''iframeSrc''"
definition iframeHeight :: "Field list \<Rightarrow> string" where "iframeHeight flds = fieldValue flds ''iframeHeight''"

definition staticIcon :: "string \<Rightarrow> string" where
  "staticIcon slug = IconURL (Some slug)"

text \<open>The cases of the \<^verbatim>\<open>switch\<close> in order: the first text that the condition contains wins.\<close>

definition weather_slugs :: "(string \<times> string) list" where
  "weather_slugs =
     [(''clear'', ''day-sunny''), (''thunderstorm'', ''day-thunderstorm''), (''shower'', ''day-showers''),
      (''drizzle'', ''day-sprinkle''), (''rain'', ''day-rain''), (''snow'', ''day-snow''),
      (''smoke'', ''smoke''), (''haze'', ''day-haze''), (''dust'', ''dust''), (''ash'', ''dust''),
      (''sand'', ''sandstorm''), (''fog'', ''day-fog''), (''mist'', ''day-fog''),
      (''tornado'', ''tornado''), (''squall'', ''strong-wind''), (''partly'', ''day-cloudy''),
      (''cloud'', ''day-cloudy'')]"

definition weatherIconURL :: "string \<Rightarrow> string" where
  "weatherIconURL condition =
     (let c = to_lower condition;
          slug = (case find (\<lambda>(w, _). contains c w) weather_slugs of
                    Some (_, s) \<Rightarrow> s | None \<Rightarrow> ''day-sunny'')
      in staticIcon (''wi-'' @ slug @ ''-#'' @ headerIconColor))"

definition is_weather :: "string \<Rightarrow> bool" where
  "is_weather t \<longleftrightarrow> t = widgetTypeOpenMeteo \<or> t = widgetTypeOpenWeatherMap"

definition defaultHeaderWidgetIcon :: "string \<Rightarrow> Field list \<Rightarrow> string" where
  "defaultHeaderWidgetIcon t flds =
     (if is_weather t then weatherIconURL (fieldValue flds labelConditions)
      else case gget headerWidgetDefaultIcons t of Some slug \<Rightarrow> staticIcon slug | None \<Rightarrow> [])"

definition headerFields :: "string \<Rightarrow> Field list \<Rightarrow> headerFieldView list" where
  "headerFields t flds =
     map (\<lambda>f.
       let v = \<lparr>fv_value = f_value f, fv_label = [], fv_icon_url = [], fv_percent = f_percent f,
                fv_highlight = f_highlight f\<rparr>
       in case gget fieldIconSlugs (f_label f) of
            Some slug \<Rightarrow> v\<lparr>fv_icon_url := staticIcon (slug @ ''-#'' @ headerIconColor)\<rparr>
          | None \<Rightarrow> if \<not> is_weather t then v\<lparr>fv_label := f_label f\<rparr> else v) flds"

text \<open>The loop over \<open>i\<close> reads \<^verbatim>\<open>views[i]\<close> and \<^verbatim>\<open>defs[i]\<close>, which are built one for one.\<close>

definition mark_push :: "headerWidgetView list \<Rightarrow> headerWidgetView list" where
  "mark_push right = (case right of [] \<Rightarrow> [] | v # vs \<Rightarrow> v\<lparr>hv_push_right := True\<rparr> # vs)"

definition partitionHeaderAlign :: "headerWidgetView list \<Rightarrow> HeaderWidget list \<Rightarrow> headerWidgetView list" where
  "partitionHeaderAlign views defs =
     (case foldl (\<lambda>(left, right) (v, d).
             if hw_align d = alignRight then (left, right @ [v]) else (left @ [v], right))
           ([], []) (zip views defs) of
        (left, right) \<Rightarrow> left @ mark_push right)"

definition live_cards :: "Card list \<Rightarrow> Card gomap" where
  "live_cards cards = foldl (\<lambda>m c. if c_header c then gput (c_key c) c m else m) [] cards"

definition header_view :: "Card gomap \<Rightarrow> HeaderWidget \<Rightarrow> headerWidgetView" where
  "header_view live d =
     (let v = \<lparr>hv_type = hw_type d, hv_greeting = [], hv_format = [], hv_icon_url = [], hv_href = [],
               hv_fields = [], hv_err = [], hv_push_right = False\<rparr>
      in if hw_type d = headerTypeGreeting then v\<lparr>hv_greeting := gstr (hw_config d) ''text''\<rparr>
         else if hw_type d = headerTypeDatetime then v\<lparr>hv_format := gstr (hw_config d) ''format''\<rparr>
         else if hw_type d = headerTypeLogo then
           v\<lparr>hv_icon_url := hw_icon_url d, hv_href := gstr (hw_config d) ''href''\<rparr>
         else
           let (liveFields, err) =
                 (case gget live (hw_key d) of Some c \<Rightarrow> (c_fields c, c_err c) | None \<Rightarrow> ([], []));
               icon = (if hw_icon_url d = [] then defaultHeaderWidgetIcon (hw_type d) liveFields
                       else hw_icon_url d)
           in v\<lparr>hv_icon_url := icon, hv_err := err, hv_fields := headerFields (hw_type d) liveFields\<rparr>)"

definition buildHeader :: "HeaderWidget list \<Rightarrow> Card list \<Rightarrow> headerWidgetView list" where
  "buildHeader defs cards =
     (let live = live_cards cards in partitionHeaderAlign (map (header_view live) defs) defs)"

section \<open>Lemmas\<close>

lemma partition_loop:
  "foldl (\<lambda>(left, right) (v, d).
      if hw_align d = alignRight then (left, right @ [v]) else (left @ [v], right))
     (l, r) (zip (map f defs) defs) =
   (l @ map f (filter (\<lambda>d. hw_align d \<noteq> alignRight) defs),
    r @ map f (filter (\<lambda>d. hw_align d = alignRight) defs))"
  by (induction defs arbitrary: l r) simp_all

lemma gget_live_other:
  "(\<And>c. c \<in> set cards \<Longrightarrow> c_header c \<Longrightarrow> c_key c \<noteq> k) \<Longrightarrow>
     gget (foldl (\<lambda>m c. if c_header c then gput (c_key c) c m else m) m cards) k = gget m k"
proof (induction cards arbitrary: m)
  case (Cons a cards)
  have "gget (if c_header a then gput (c_key a) a m else m) k = gget m k"
    using Cons.prems [of a] by (auto simp: gm.get_put)
  moreover have "c_key c \<noteq> k" if "c \<in> set cards" "c_header c" for c
    using Cons.prems that by simp
  ultimately show ?case using Cons.IH by simp
qed simp

lemma gget_live:
  assumes "distinct (map c_key cards)" "c \<in> set cards" "c_header c"
  shows "gget (live_cards cards) (c_key c) = Some c"
proof -
  obtain xs ys where split: "cards = xs @ c # ys" using assms(2) by (meson split_list)
  with assms(1) have "c_key d \<noteq> c_key c" if "d \<in> set ys" for d
    using that by (metis distinct.simps(2) distinct_append image_eqI list.set_map list.simps(9) map_append)
  from gget_live_other [of ys, OF this] assms(3) show ?thesis
    by (simp add: live_cards_def split gm.get_put)
qed

lemma staticIcon_http: "staticIcon slug = [] \<or> isHTTPURL (staticIcon slug)"
  unfolding staticIcon_def IconURL_def isHTTPURL_def selfhstIconURL_def
  by (auto simp: base_urls_https [unfolded isHTTPURL_def]
      dest: try_iconify_https [unfolded isHTTPURL_def]
      intro: selfhst_ext_https [unfolded isHTTPURL_def] split: option.splits)

section \<open>Properties\<close>

text \<open>
  The header strip shows one view per definition: first the left-aligned ones and then the
  right-aligned ones, each in the definitions' order, with exactly the first right-aligned one
  marked to push right; and a polled widget whose card the store holds shows that card's fields
  and error.
\<close>

theorem buildHeader_views:
  assumes "distinct (map c_key cards)"
  shows "buildHeader defs cards =
      map (header_view (live_cards cards)) (filter (\<lambda>d. hw_align d \<noteq> alignRight) defs) @
      mark_push (map (header_view (live_cards cards)) (filter (\<lambda>d. hw_align d = alignRight) defs)) \<and>
    (\<forall>c \<in> set cards. c_header c \<longrightarrow> gget (live_cards cards) (c_key c) = Some c)"
  using assms gget_live
  by (simp add: buildHeader_def Let_def partitionHeaderAlign_def partition_loop)

definition ex_header_widget :: "string \<Rightarrow> string \<Rightarrow> HeaderWidget" where
  "ex_header_widget k align = \<lparr>hw_key = k, hw_name = [], hw_type = ''glances'', hw_order = None,
     hw_icon_url = [], hw_config = [], hw_align = align\<rparr>"

definition ex_header_card :: "string \<Rightarrow> string \<Rightarrow> Card" where
  "ex_header_card k v = zero_card\<lparr>c_key := k, c_header := True,
     c_fields := [\<lparr>f_label = ''CPU'', f_value = v, f_percent = None, f_highlight = []\<rparr>]\<rparr>"

theorem buildHeader_views_witness:
  "(let cards = [ex_header_card ''header/a/0'' ''7%'', ex_header_card ''header/b/0'' ''9%''];
        defs = [ex_header_widget ''header/b/0'' ''right'', ex_header_widget ''header/a/0'' ''left'']
    in buildHeader defs cards =
      map (header_view (live_cards cards)) (filter (\<lambda>d. hw_align d \<noteq> alignRight) defs) @
      mark_push (map (header_view (live_cards cards)) (filter (\<lambda>d. hw_align d = alignRight) defs)))"
  using buildHeader_views [of "[ex_header_card ''header/a/0'' ''7%'', ex_header_card ''header/b/0'' ''9%'']"]
  by (simp add: Let_def ex_header_card_def)

end
