(* ===== verification/Caches.thy ===== *)
theory Caches
  imports Go_Maps
begin

text \<open>
  The two bounded tables of the dashboard pod: the deduplication of poll-failure log lines
  (\<^verbatim>\<open>internal/dashboard/pollfailure.go\<close>) and the per-URL client cache
  (\<^verbatim>\<open>internal/dashboard/clientcache.go\<close>).  Each operation holds its mutex.  Proved here: both stay
  bounded in every execution; a target's failure is logged exactly when its reason is new to it,
  as long as the table does not overflow, and an overflow loses no change.
\<close>

section \<open>Poll-failure log\<close>

definition maxPollFailureKeys :: nat where "maxPollFailureKeys = 256"

text \<open>\<open>err\<close> is the text of the cause, if there is one; the result is whether a line is logged.\<close>

definition logPollFailure :: "string \<Rightarrow> string option \<Rightarrow> string \<Rightarrow> string gomap \<Rightarrow> bool \<times> string gomap" where
  "logPollFailure key err msg seen =
     (let reason = (case err of Some e \<Rightarrow> msg @ '': '' @ e | None \<Rightarrow> msg)
      in if gstr seen key = reason then (False, seen)
         else
           let seen = (if length seen \<ge> maxPollFailureKeys then [] else seen)
           in (True, gput key reason seen))"

definition clearPollFailure :: "string \<Rightarrow> string gomap \<Rightarrow> string gomap" where
  "clearPollFailure key seen = gdel key seen"

datatype poll_outcome = PollFailed string "string option" string | PollOk string

fun outcome_step :: "poll_outcome \<Rightarrow> string gomap \<Rightarrow> bool \<times> string gomap" where
  "outcome_step (PollFailed key err msg) seen = logPollFailure key err msg seen"
| "outcome_step (PollOk key) seen = (False, clearPollFailure key seen)"

fun outcome_run :: "poll_outcome list \<Rightarrow> string gomap \<Rightarrow> bool list \<times> string gomap" where
  "outcome_run [] seen = ([], seen)"
| "outcome_run (x # xs) seen =
     (case outcome_step x seen of
        (b, seen) \<Rightarrow> (case outcome_run xs seen of (bs, seen) \<Rightarrow> (b # bs, seen)))"

section \<open>Client cache\<close>

definition boundedClientCacheCap :: nat where "boundedClientCacheCap = 32"

text \<open>
  Go's map iteration picks the victim: \<open>victim\<close> is any function that picks an entry of a non-empty
  map.  The second component lists the keys whose connections were closed.
\<close>

definition getOrCreate ::
  "('c gomap \<Rightarrow> string) \<Rightarrow> string \<Rightarrow> 'c \<Rightarrow> 'c gomap \<Rightarrow> 'c \<times> string list \<times> 'c gomap" where
  "getOrCreate victim key built clients =
     (case gget clients key of
        Some existing \<Rightarrow> (existing, [], clients)
      | None \<Rightarrow>
          let (closed, clients) =
                (if length clients \<ge> boundedClientCacheCap
                 then ([victim clients], gdel (victim clients) clients) else ([], clients))
          in (built, closed, gput key built clients))"

section \<open>Lemmas\<close>

lemma length_gput: "length (gput k v m) = (if k \<in> fst ` set m then length m else Suc (length m))"
  unfolding gput_def by (induction m) auto

lemma length_gput_le: "length (gput k v m) \<le> Suc (length m)"
  by (simp add: length_gput)

lemma length_gdel_le: "length (gdel k m) \<le> length m"
  unfolding gdel_def by (simp add: AList.delete_eq)

lemma length_gdel_less: "k \<in> fst ` set m \<Longrightarrow> length (gdel k m) < length m"
proof -
  assume "k \<in> fst ` set m"
  then obtain v where "(k, v) \<in> set m" by auto
  then show ?thesis
    unfolding gdel_def AList.delete_eq by (rule length_filter_less) simp
qed

lemma fst_gdel: "fst ` set (gdel k m) = fst ` set m - {k}"
  unfolding gdel_def by (simp add: dom_map_of_conv_image_fst [symmetric] delete_conv')

lemma outcome_step_bound:
  "length seen \<le> maxPollFailureKeys \<Longrightarrow> length (snd (outcome_step x seen)) \<le> maxPollFailureKeys"
proof (cases x)
  case (PollFailed key err msg)
  assume "length seen \<le> maxPollFailureKeys"
  with PollFailed length_gput_le [of key _ seen] length_gput_le [of key _ "[]"] show ?thesis
    by (fastforce simp: logPollFailure_def Let_def maxPollFailureKeys_def length_gput)
next
  case (PollOk key)
  assume "length seen \<le> maxPollFailureKeys"
  with PollOk length_gdel_le [of key seen] show ?thesis by (simp add: clearPollFailure_def)
qed

lemma outcome_run_bound:
  "length seen \<le> maxPollFailureKeys \<Longrightarrow> length (snd (outcome_run xs seen)) \<le> maxPollFailureKeys"
proof (induction xs arbitrary: seen)
  case (Cons x xs)
  obtain b l where x: "outcome_step x seen = (b, l)" by fastforce
  with outcome_step_bound [OF Cons.prems, of x] Cons.IH [of l] show ?case by (simp add: case_prod_unfold)
qed simp

text \<open>The unbounded log: the last reason of each target since it last succeeded.\<close>

fun outcome_spec :: "poll_outcome list \<Rightarrow> (string \<Rightarrow> string) \<Rightarrow> bool list" where
  "outcome_spec [] cur = []"
| "outcome_spec (PollFailed key err msg # xs) cur =
     (let reason = (case err of Some e \<Rightarrow> msg @ '': '' @ e | None \<Rightarrow> msg)
      in (cur key \<noteq> reason) # outcome_spec xs (cur(key := reason)))"
| "outcome_spec (PollOk key # xs) cur = False # outcome_spec xs (cur(key := []))"

fun outcome_key :: "poll_outcome \<Rightarrow> string" where
  "outcome_key (PollFailed key _ _) = key"
| "outcome_key (PollOk key) = key"

lemma gstr_gput: "gstr (gput k v m) = (gstr m)(k := v)"
  by (auto simp: gstr_def gm.get_put fun_eq_iff)

lemma gstr_gdel: "gwf m \<Longrightarrow> gstr (gdel k m) = (gstr m)(k := [])"
  by (auto simp: gstr_def gm.get_del fun_eq_iff)

lemma fst_gput: "fst ` set (gput k v m) = insert k (fst ` set m)"
  unfolding gput_def by (induction m) auto

lemma gstr_Nil [simp]: "gstr [] k = []"
  by (simp add: gstr_def)

definition failure_reason :: "string option \<Rightarrow> string \<Rightarrow> string" where
  "failure_reason err msg = (case err of Some e \<Rightarrow> msg @ '': '' @ e | None \<Rightarrow> msg)"

lemma logPollFailure_eq:
  "logPollFailure key err msg m =
     (if gstr m key = failure_reason err msg then (False, m)
      else (True, gput key (failure_reason err msg) (if length m \<ge> maxPollFailureKeys then [] else m)))"
  by (simp add: logPollFailure_def failure_reason_def Let_def)

lemma outcome_spec_eq:
  "outcome_spec (PollFailed key err msg # xs) cur =
     (cur key \<noteq> failure_reason err msg) # outcome_spec xs (cur(key := failure_reason err msg))"
  by (simp add: failure_reason_def Let_def)

lemma length_keys: "gwf m \<Longrightarrow> length m = card (fst ` set m)"
  by (metis distinct_card gwf_def length_map list.set_map)

lemma gwf_outcome_step: "gwf m \<Longrightarrow> gwf (snd (outcome_step x m))"
  by (cases x) (auto simp: logPollFailure_eq clearPollFailure_def gm.wf_put gm.wf_del)

lemma outcome_run_exact:
  assumes "gwf m" "fst ` set m \<subseteq> K" "outcome_key ` set xs \<subseteq> K" "finite K" "card K < maxPollFailureKeys"
  shows "fst (outcome_run xs m) = outcome_spec xs (gstr m)"
  using assms
proof (induction xs arbitrary: m)
  case (Cons x xs)
  obtain b m' where x: "outcome_step x m = (b, m')" by fastforce
  have wf: "gwf m'" using gwf_outcome_step [OF Cons.prems(1), of x] x by simp
  have "length m \<le> card K"
    using length_keys [OF Cons.prems(1)] card_mono [OF Cons.prems(4,2)] by simp
  then have short: "\<not> length m \<ge> maxPollFailureKeys" using Cons.prems(5) by simp
  show ?case
  proof (cases x)
    case (PollFailed key err msg)
    have "fst ` set m' \<subseteq> K"
      using x PollFailed Cons.prems(2,3) short fst_gput [of key "failure_reason err msg" m]
      by (simp add: logPollFailure_eq split: if_splits)
    with Cons wf have "fst (outcome_run xs m') = outcome_spec xs (gstr m')" by simp
    moreover have "b = (gstr m key \<noteq> failure_reason err msg)"
      "gstr m' = (gstr m)(key := failure_reason err msg)"
      using x PollFailed short by (auto simp: logPollFailure_eq gstr_gput split: if_splits)
    ultimately show ?thesis
      using x PollFailed by (simp add: outcome_spec_eq case_prod_unfold del: outcome_spec.simps)
  next
    case (PollOk key)
    have "fst ` set m' \<subseteq> K" 
      using x PollOk Cons.prems(2) fst_gdel [of key m] by (simp add: clearPollFailure_def) blast
    with Cons wf have "fst (outcome_run xs m') = outcome_spec xs (gstr m')" by simp
    moreover have "\<not> b" "gstr m' = (gstr m)(key := [])"
      using x PollOk gstr_gdel [OF Cons.prems(1)] by (auto simp: clearPollFailure_def)
    ultimately show ?thesis using x PollOk by (simp add: case_prod_unfold)
  qed
qed simp

text \<open>A table that has been dropped knows of each target its last reason or nothing.\<close>

lemma outcome_run_covers:
  assumes "gwf m" "\<forall>k. gstr m k = cur k \<or> gstr m k = []"
    and "\<forall>key err. PollFailed key err [] \<notin> set xs"
  shows "list_all2 (\<longrightarrow>) (outcome_spec xs cur) (fst (outcome_run xs m))"
  using assms
proof (induction xs arbitrary: m cur)
  case (Cons x xs)
  obtain b m' where x: "outcome_step x m = (b, m')" by fastforce
  have wf: "gwf m'" using gwf_outcome_step [OF Cons.prems(1), of x] x by simp
  show ?case
  proof (cases x)
    case (PollFailed key err msg)
    let ?r = "failure_reason err msg"
    have ne: "?r \<noteq> []" using Cons.prems(3) PollFailed by (auto simp: failure_reason_def split: option.split)
    have "\<forall>k. gstr m' k = (cur(key := ?r)) k \<or> gstr m' k = []"
      using x PollFailed Cons.prems(2) by (auto simp: logPollFailure_eq gstr_gput split: if_splits)
    with Cons wf have "list_all2 (\<longrightarrow>) (outcome_spec xs (cur(key := ?r))) (fst (outcome_run xs m'))" by simp
    moreover have "cur key \<noteq> ?r \<longrightarrow> b"
      using x PollFailed Cons.prems(2) ne by (simp add: logPollFailure_eq split: if_splits) metis
    ultimately show ?thesis
      using x PollFailed by (simp add: outcome_spec_eq case_prod_unfold del: outcome_spec.simps)
  next
    case (PollOk key)
    have "\<forall>k. gstr m' k = (cur(key := [])) k \<or> gstr m' k = []"
      using x PollOk Cons.prems(2) gstr_gdel [OF Cons.prems(1)] by (auto simp: clearPollFailure_def)
    with Cons wf have "list_all2 (\<longrightarrow>) (outcome_spec xs (cur(key := []))) (fst (outcome_run xs m'))" by simp
    then show ?thesis using x PollOk by (simp add: case_prod_unfold)
  qed
qed simp

lemma getOrCreate_bound:
  assumes "\<And>m. m \<noteq> [] \<Longrightarrow> victim m \<in> fst ` set m" "length clients \<le> boundedClientCacheCap"
  shows "length (snd (snd (getOrCreate victim key built clients))) \<le> boundedClientCacheCap"
proof -
  have "length (gput key built (gdel (victim clients) clients)) \<le> boundedClientCacheCap"
    if "length clients \<ge> boundedClientCacheCap"
    using length_gdel_less [of "victim clients" clients] assms that
      length_gput_le [of key built "gdel (victim clients) clients"]
    by (cases "clients = []") (auto simp: boundedClientCacheCap_def)
  with assms(2) length_gput_le [of key built clients] show ?thesis
    by (auto simp: getOrCreate_def Let_def split: option.split)
qed

section \<open>Properties\<close>

text \<open>
  Failure logging: no change of a target's failure reason since its last success goes unlogged,
  and while there are fewer than 256 targets nothing else is logged.  (Past that the table is
  dropped whole, which can only repeat lines; it never grows beyond 256 entries.)
\<close>

theorem poll_failures_logged:
  assumes "\<forall>key err. PollFailed key err [] \<notin> set xs"
  shows "list_all2 (\<longrightarrow>) (outcome_spec xs (\<lambda>_. [])) (fst (outcome_run xs [])) \<and>
    (card (outcome_key ` set xs) < 256 \<longrightarrow> fst (outcome_run xs []) = outcome_spec xs (\<lambda>_. [])) \<and>
    length (snd (outcome_run xs [])) \<le> 256"
proof -
  have empty: "gstr [] = (\<lambda>_. [])" by (simp add: gstr_def fun_eq_iff)
  show ?thesis
    using outcome_run_covers [of "[]" "\<lambda>_. []" xs] assms empty
      outcome_run_exact [of "[]" "outcome_key ` set xs" xs] outcome_run_bound [of "[]" xs]
    by (simp add: maxPollFailureKeys_def)
qed

theorem poll_failures_logged_witness:
  "list_all2 (\<longrightarrow>) (outcome_spec [PollFailed ''u'' None ''down'', PollOk ''u'', PollFailed ''u'' None ''down''] (\<lambda>_. []))
     (fst (outcome_run [PollFailed ''u'' None ''down'', PollOk ''u'', PollFailed ''u'' None ''down''] []))"
  using poll_failures_logged [of "[PollFailed ''u'' None ''down'', PollOk ''u'', PollFailed ''u'' None ''down'']"]
  by simp

text \<open>
  The client cache never holds more than 32 clients, whichever entry is evicted, hands out the
  client it holds for a key, and keeps the one it has just built.
\<close>

theorem client_cache_bounded:
  assumes "\<And>m :: 'c gomap. m \<noteq> [] \<Longrightarrow> victim m \<in> fst ` set m" "length clients \<le> 32"
  shows "length (snd (snd (getOrCreate victim key built clients))) \<le> 32 \<and>
    fst (getOrCreate victim key built clients) = set_opt (gget clients key) built \<and>
    gget (snd (snd (getOrCreate victim key built clients))) key = Some (set_opt (gget clients key) built)"
  using getOrCreate_bound [of victim clients key built] assms
  by (auto simp: boundedClientCacheCap_def getOrCreate_def Let_def gm.get_put split: option.split)

theorem client_cache_bounded_witness:
  "length (snd (snd (getOrCreate (\<lambda>m. fst (hd m)) ''u'' (7::nat) [(''v'', 3)]))) \<le> 32"
  using client_cache_bounded [of "\<lambda>m. fst (hd m)" "[(''v'', 3::nat)]" "''u''" 7] by simp

end
