(* ===== verification/Schedule.thy ===== *)
theory Schedule
  imports "HOL-Library.Multiset"
begin

text \<open>
  Closures run by a bounded pool of goroutines: a task reads and writes the state and may hand further
  tasks to the pool; the pool picks any waiting task.  The locale \<open>task_pool\<close> states when the
  schedule cannot be seen: every task works on keys of its own, and what it does there depends only
  on what is there.  The locale \<open>counted_pool\<close> counts the steps of goroutines that share a semaphore.  The
  poll cycle provides both interfaces (theory \<open>Cycle\<close>).
\<close>

inductive exec :: "('t \<Rightarrow> 's \<Rightarrow> 't list \<times> 's) \<Rightarrow> 't list \<Rightarrow> 's \<Rightarrow> 's \<Rightarrow> bool" for run where
  exec_done: "exec run [] s s"
| exec_task: "run t s = (new, s') \<Longrightarrow> exec run (as @ bs @ new) s' s'' \<Longrightarrow> exec run (as @ t # bs) s s''"

inductive_cases exec_NilE [elim!]: "exec run [] s s'"

text \<open>The order in which the tasks wait does not matter.\<close>

lemma exec_permute: "exec run ts s s' \<Longrightarrow> mset us = mset ts \<Longrightarrow> exec run us s s'"
proof (induction arbitrary: us rule: exec.induct)
  case (exec_done s)
  then show ?case by (simp add: exec.exec_done)
next
  case (exec_task t s new s1 as bs s')
  from exec_task.prems have "t \<in> set us" by (metis in_set_conv_decomp mset_eq_setD)
  then obtain as' bs' where us: "us = as' @ t # bs'" by (meson split_list)
  with exec_task.prems have "mset (as' @ bs' @ new) = mset (as @ bs @ new)" by simp
  with exec_task.IH have "exec run (as' @ bs' @ new) s1 s'" by blast
  with exec_task.hyps(1) show ?case unfolding us by (rule exec.exec_task)
qed

text \<open>One task with what it spawns, and the tasks one after the other.\<close>

definition run_leaves :: "('t \<Rightarrow> 's \<Rightarrow> 't list \<times> 's) \<Rightarrow> 't list \<Rightarrow> 's \<Rightarrow> 's" where
  "run_leaves run ts s = foldl (\<lambda>s t. snd (run t s)) s ts"

definition run_one :: "('t \<Rightarrow> 's \<Rightarrow> 't list \<times> 's) \<Rightarrow> 't \<Rightarrow> 's \<Rightarrow> 's" where
  "run_one run t s = (case run t s of (new, s') \<Rightarrow> run_leaves run new s')"

definition run_all :: "('t \<Rightarrow> 's \<Rightarrow> 't list \<times> 's) \<Rightarrow> 't list \<Rightarrow> 's \<Rightarrow> 's" where
  "run_all run ts s = foldl (\<lambda>s t. run_one run t s) s ts"

lemma run_leaves_simps [simp]:
  "run_leaves run [] s = s" "run_leaves run (t # ts) s = run_leaves run ts (snd (run t s))"
  by (simp_all add: run_leaves_def)

lemma run_all_simps [simp]:
  "run_all run [] s = s" "run_all run (t # ts) s = run_all run ts (run_one run t s)"
  by (simp_all add: run_all_def)

definition disjoint_keys :: "('t \<Rightarrow> 'k set) \<Rightarrow> 't list \<Rightarrow> bool" where
  "disjoint_keys keys ts \<longleftrightarrow> sorted_wrt (\<lambda>t u. keys t \<inter> keys u = {}) ts"

lemma disjoint_keys_simps [simp]:
  "disjoint_keys keys []"
  "disjoint_keys keys (t # ts) \<longleftrightarrow> (\<forall>u \<in> set ts. keys t \<inter> keys u = {}) \<and> disjoint_keys keys ts"
  "disjoint_keys keys (ts @ us) \<longleftrightarrow> disjoint_keys keys ts \<and> disjoint_keys keys us \<and>
     (\<forall>t \<in> set ts. \<forall>u \<in> set us. keys t \<inter> keys u = {})"
  by (auto simp: disjoint_keys_def sorted_wrt_append)

locale task_pool =
  fixes run :: "'t \<Rightarrow> 's \<Rightarrow> 't list \<times> 's"
    and keys :: "'t \<Rightarrow> 'k set"
    and view :: "'s \<Rightarrow> 'k \<Rightarrow> 'v"
    and ok :: "'s \<Rightarrow> bool"
  assumes frame: "ok s \<Longrightarrow> k \<notin> keys t \<Longrightarrow> view (snd (run t s)) k = view s k"
    and local_spawn: "ok s \<Longrightarrow> ok r \<Longrightarrow> fst (run t s) = fst (run t r)"
    and local_view: "ok s \<Longrightarrow> ok r \<Longrightarrow> (\<And>k. k \<in> keys t \<Longrightarrow> view s k = view r k) \<Longrightarrow> k \<in> keys t \<Longrightarrow>
      view (snd (run t s)) k = view (snd (run t r)) k"
    and ok_run: "ok s \<Longrightarrow> ok (snd (run t s))"
    and spawn_keys: "ok s \<Longrightarrow> n \<in> set (fst (run t s)) \<Longrightarrow> keys n \<subseteq> keys t"
    and spawn_disjoint: "ok s \<Longrightarrow> disjoint_keys keys (fst (run t s))"
    and spawn_leaf: "ok s \<Longrightarrow> n \<in> set (fst (run t s)) \<Longrightarrow> fst (run n r) = []"
begin

lemma ok_leaves: "ok s \<Longrightarrow> ok (run_leaves run ts s)"
  by (induction ts arbitrary: s) (auto intro: ok_run)

lemma leaves_frame:
  "ok s \<Longrightarrow> (\<And>t. t \<in> set ts \<Longrightarrow> k \<notin> keys t) \<Longrightarrow> view (run_leaves run ts s) k = view s k"
  by (induction ts arbitrary: s) (auto simp: frame ok_run)

lemma leaves_view:
  "ok s \<Longrightarrow> disjoint_keys keys ts \<Longrightarrow> n \<in> set ts \<Longrightarrow> k \<in> keys n \<Longrightarrow>
   view (run_leaves run ts s) k = view (snd (run n s)) k"
proof (induction ts arbitrary: s)
  case (Cons t ts)
  show ?case
  proof (cases "n \<in> set ts")
    case True
    with Cons.prems have disj: "keys t \<inter> keys n = {}" by auto
    with Cons True have "view (run_leaves run (t # ts) s) k = view (snd (run n (snd (run t s)))) k"
      by (simp add: ok_run)
    also have "\<dots> = view (snd (run n s)) k"
      by (rule local_view) (use Cons.prems disj in \<open>auto intro: ok_run frame\<close>)
    finally show ?thesis .
  next
    case False
    with Cons.prems have "n = t" by simp
    with Cons.prems show ?thesis by (auto simp: ok_run intro!: leaves_frame)
  qed
qed simp

lemma ok_one: "ok s \<Longrightarrow> ok (run_one run t s)"
  using ok_run [of s t] by (auto simp: run_one_def case_prod_unfold intro: ok_leaves)

lemma one_frame: "ok s \<Longrightarrow> k \<notin> keys t \<Longrightarrow> view (run_one run t s) k = view s k"
  using ok_run [of s t] spawn_keys [of s _ t]
  by (auto simp: run_one_def case_prod_unfold frame intro!: leaves_frame [THEN trans])

lemma one_view:
  assumes "ok s" "ok r" "\<And>k. k \<in> keys t \<Longrightarrow> view s k = view r k" "k \<in> keys t"
  shows "view (run_one run t s) k = view (run_one run t r) k"
proof -
  let ?new = "fst (run t s)" and ?s = "snd (run t s)" and ?r = "snd (run t r)"
  have new: "fst (run t r) = ?new" using local_spawn assms by metis
  have views: "view ?s k = view ?r k" if "k \<in> keys t" for k
    using local_view assms that by metis
  have oks: "ok ?s" "ok ?r" using assms by (simp_all add: ok_run)
  show ?thesis
  proof (cases "\<exists>n \<in> set ?new. k \<in> keys n")
    case True
    then obtain n where n: "n \<in> set ?new" "k \<in> keys n" by blast
    have "view (snd (run n ?s)) k = view (snd (run n ?r)) k"
      by (rule local_view) (use oks n spawn_keys [OF assms(1) n(1)] views in auto)
    with n oks spawn_disjoint [OF assms(1), of t] new show ?thesis
      by (simp add: run_one_def case_prod_unfold leaves_view)
  next
    case False
    with oks views assms(4) new show ?thesis
      by (simp add: run_one_def case_prod_unfold leaves_frame)
  qed
qed

text \<open>At a key of a task, every execution leaves what the task alone would; elsewhere nothing.\<close>

lemma exec_view:
  assumes "exec run ts s s'" "ok s" "disjoint_keys keys ts"
  shows "ok s' \<and> (\<forall>t \<in> set ts. \<forall>k \<in> keys t. view s' k = view (run_one run t s) k) \<and>
    (\<forall>k. (\<forall>t \<in> set ts. k \<notin> keys t) \<longrightarrow> view s' k = view s k)"
  using assms
proof (induction rule: exec.induct)
  case (exec_task t s new s1 as bs s')
  have s1: "s1 = snd (run t s)" "new = fst (run t s)" using exec_task.hyps(1) by simp_all
  have ok1: "ok s1" using exec_task.prems by (simp add: s1 ok_run)
  have disj: "disjoint_keys keys (as @ bs @ new)"
    using exec_task.prems spawn_disjoint [of s t] spawn_keys [of s _ t] s1 by fastforce
  note ih = exec_task.IH [OF ok1 disj]
  have other: "view s' k = view (run_one run u s) k" if "u \<in> set (as @ bs)" "k \<in> keys u" for u k
  proof -
    from that exec_task.prems have "keys u \<inter> keys t = {}" by auto
    then have "view s1 k = view s k" if "k \<in> keys u" for k
      using frame exec_task.prems that unfolding s1 by blast
    then have "view (run_one run u s1) k = view (run_one run u s) k"
      by (rule one_view [OF ok1 exec_task.prems(1) _ that(2)])
    moreover have "view s' k = view (run_one run u s1) k" using ih that by auto
    ultimately show ?thesis by simp
  qed
  have own: "view s' k = view (run_one run t s) k" if "k \<in> keys t" for k
  proof (cases "\<exists>n \<in> set new. k \<in> keys n")
    case True
    then obtain n where n: "n \<in> set new" "k \<in> keys n" by blast
    have "view s' k = view (run_one run n s1) k" using ih n by auto
    also have "\<dots> = view (snd (run n s1)) k"
      using spawn_leaf [of s n t s1] exec_task.prems n by (simp add: s1 run_one_def case_prod_unfold)
    also have "\<dots> = view (run_one run t s) k"
      using n ok1 spawn_disjoint [of s t] exec_task.prems
      by (simp add: run_one_def case_prod_unfold leaves_view flip: s1)
    finally show ?thesis .
  next
    case False
    with that exec_task.prems have "\<forall>u \<in> set (as @ bs @ new). k \<notin> keys u" by auto
    with ih have "view s' k = view s1 k" by blast
    with False ok1 show ?thesis
      by (simp add: run_one_def case_prod_unfold leaves_frame flip: s1)
  qed
  have rest: "view s' k = view s k" if "\<forall>u \<in> set (as @ t # bs). k \<notin> keys u" for k
  proof -
    from that spawn_keys [of s _ t] exec_task.prems have "\<forall>u \<in> set (as @ bs @ new). k \<notin> keys u"
      by (auto simp: s1)
    with ih have "view s' k = view s1 k" by blast
    with that exec_task.prems show ?thesis by (simp add: s1 frame)
  qed
  show ?case using ih other own rest by auto
qed simp

lemma exec_unique:
  assumes "exec run ts s s1" "exec run us s s2" "set us = set ts"
    and "ok s" "disjoint_keys keys ts" "disjoint_keys keys us"
  shows "view s1 = view s2"
proof
  fix k
  show "view s1 k = view s2 k"
    using exec_view [OF assms(1,4,5)] exec_view [OF assms(2,4,6)] assms(3) by (metis (full_types))
qed

lemma exec_leaves:
  "(\<And>n r. n \<in> set ns \<Longrightarrow> fst (run n r) = []) \<Longrightarrow> exec run ts (run_leaves run ns s) s' \<Longrightarrow>
   exec run (ts @ ns) s s'"
proof (induction ns arbitrary: s)
  case (Cons n ns)
  have "exec run (ts @ ns) (snd (run n s)) s'" using Cons by simp
  moreover have "run n s = ([], snd (run n s))" using Cons.prems(1) [of n s] by (simp add: prod_eq_iff)
  ultimately show ?case using exec_task [of run n s "[]" "snd (run n s)" ts ns s'] by simp
qed simp

lemma exec_run_all: "ok s \<Longrightarrow> exec run ts s (run_all run ts s)"
proof (induction ts arbitrary: s)
  case Nil
  show ?case by (simp add: exec_done)
next
  case (Cons t ts)
  have "exec run (ts @ fst (run t s)) (snd (run t s)) (run_all run ts (run_one run t s))"
    using Cons.IH [OF ok_one [OF Cons.prems], of t] spawn_leaf [OF Cons.prems]
    by (intro exec_leaves) (auto simp: run_one_def case_prod_unfold)
  then show ?case using exec_task [of run t s "fst (run t s)" "snd (run t s)" "[]" ts] by simp
qed

end

section \<open>The semaphore\<close>

text \<open>
  The goroutines of \<^verbatim>\<open>run\<close>: started at once, each waits for one of \<open>limit\<close> slots, runs its
  closure and gives the slot back.  A closure that starts further goroutines does not wait for them.
\<close>

inductive pool_step :: "('t \<Rightarrow> 's \<Rightarrow> 't list \<times> 's) \<Rightarrow> nat \<Rightarrow> 't list \<times> 't list \<times> 's \<Rightarrow> 't list \<times> 't list \<times> 's \<Rightarrow> bool"
  for run limit where
  acquire: "length rs < limit \<Longrightarrow> pool_step run limit (as @ t # bs, rs, s) (as @ bs, t # rs, s)"
| release: "run t s = (new, s') \<Longrightarrow> pool_step run limit (ws, as @ t # bs, s) (ws @ new, as @ bs, s')"

inductive pool_steps :: "('t \<Rightarrow> 's \<Rightarrow> 't list \<times> 's) \<Rightarrow> nat \<Rightarrow> nat \<Rightarrow> 't list \<times> 't list \<times> 's \<Rightarrow>
    't list \<times> 't list \<times> 's \<Rightarrow> bool" for run limit where
  no_step: "pool_steps run limit 0 c c"
| one_step: "pool_step run limit c c' \<Longrightarrow> pool_steps run limit n c' c'' \<Longrightarrow> pool_steps run limit (Suc n) c c''"

inductive_cases pool_stepE: "pool_step run limit (ws, rs, s) c'"
inductive_cases pool_steps_doneE: "pool_steps run limit 0 c c'"

lemma pool_steps_bounded:
  "pool_steps run limit n c c' \<Longrightarrow> length (fst (snd c)) \<le> limit \<Longrightarrow> length (fst (snd c')) \<le> limit"
proof (induction rule: pool_steps.induct)
  case (one_step c c' n c'')
  then show ?case by (auto elim!: pool_step.cases)
qed

text \<open>While anything waits or runs, some goroutine can go on.\<close>

lemma pool_progress:
  assumes "0 < limit" "ws \<noteq> [] \<or> rs \<noteq> []"
  shows "\<exists>c'. pool_step run limit (ws, rs, s) c'"
proof (cases rs)
  case Nil
  with assms obtain t ts where "ws = [] @ t # ts" by (cases ws) auto
  with Nil assms(1) show ?thesis using acquire [of "[]" limit run "[]" t ts s] by auto
next
  case (Cons t ts)
  then show ?thesis using release [of run t s _ _ limit ws "[]" ts] by (cases "run t s") auto
qed

text \<open>A finished run is one of the executions: the slots only restrict the order.\<close>

lemma pool_exec:
  "pool_steps run limit n c c' \<Longrightarrow> c' = ([], [], s') \<Longrightarrow> exec run (fst c @ fst (snd c)) (snd (snd c)) s'"
proof (induction rule: pool_steps.induct)
  case (no_step c)
  then show ?case by (simp add: exec_done)
next
  case (one_step c c' n c'')
  then have rest: "exec run (fst c' @ fst (snd c')) (snd (snd c')) s'" by blast
  from one_step.hyps(1) show ?case
  proof cases
    case (acquire rs as t bs s)
    with rest show ?thesis by (auto elim!: exec_permute)
  next
    case (release t s new s1 ws as bs)
    with rest have "exec run ((ws @ as) @ bs @ new) s1 s'" by (auto elim!: exec_permute)
    then have "exec run ((ws @ as) @ t # bs) s s'"
      using exec_task [of run t s new s1 "ws @ as" bs s'] release(3) by simp
    with release show ?thesis by simp
  qed
qed

locale counted_pool =
  fixes run :: "'t \<Rightarrow> 's \<Rightarrow> 't list \<times> 's"
    and closures :: "'t \<Rightarrow> nat"
  assumes counts: "closures t = Suc (sum_list (map closures (fst (run t s))))"
begin

definition work :: "'t list \<times> 't list \<times> 's \<Rightarrow> nat" where
  "work c = 2 * sum_list (map closures (fst c)) + sum_list (map (\<lambda>t. 2 * closures t - 1) (fst (snd c)))"

lemma step_work: "pool_step run limit c c' \<Longrightarrow> work c = Suc (work c')"
proof (induction rule: pool_step.induct)
  case (acquire rs as t bs s)
  have "0 < closures t" using counts [of t s] by simp
  then show ?case by (simp add: work_def)
next
  case (release t s new s' ws as bs)
  with counts [of t s] show ?case by (simp add: work_def)
qed

lemma steps_work: "pool_steps run limit n c c' \<Longrightarrow> work c = n + work c'"
  by (induction rule: pool_steps.induct) (auto dest: step_work)

lemma done_iff: "work (ws, rs, s) = 0 \<longleftrightarrow> ws = [] \<and> rs = []"
proof -
  have "0 < closures t \<and> \<not> 2 * closures t \<le> Suc 0" for t using counts [of t s] by simp
  then show ?thesis by (cases ws; cases rs) (auto simp: work_def)
qed

lemma finishes:
  assumes "0 < limit"
  shows "\<exists>s'. pool_steps run limit (work (ws, rs, s)) (ws, rs, s) ([], [], s')"
proof (induction "work (ws, rs, s)" arbitrary: ws rs s)
  case 0
  then have "ws = [] \<and> rs = []" using done_iff [of ws rs s] by simp
  then have "work (ws, rs, s) = 0" "ws = []" "rs = []" by (simp_all add: done_iff)
  then show ?case using no_step [of run limit "([], [], s)"] by auto
next
  case (Suc n)
  then have "ws \<noteq> [] \<or> rs \<noteq> []" by (auto simp: work_def)
  from pool_progress [OF assms this] obtain c' where step: "pool_step run limit (ws, rs, s) c'" ..
  obtain ws' rs' s' where c': "c' = (ws', rs', s')" by (cases c')
  have n: "n = work (ws', rs', s')" using step_work [OF step] Suc.hyps(2) by (simp add: c')
  from Suc.hyps(1) [OF n] obtain s2 where "pool_steps run limit n (ws', rs', s') ([], [], s2)" unfolding n [symmetric] ..
  then have "pool_steps run limit (Suc n) (ws, rs, s) ([], [], s2)" by (rule one_step [OF step [unfolded c']])
  then show ?case unfolding Suc.hyps(2) [symmetric] by blast
qed

end

end
