(* ===== verification/Highlight.thy ===== *)
theory Highlight
  imports Store Api_Types "HOL-Library.Log_Nat"
begin

text \<open>
  Field selection and the highlight rules (\<^verbatim>\<open>internal/dashboard/highlight.go\<close>).  Numbers are IEEE
  double-precision values, held exactly as integers in units of \<open>2\<^sup>-\<^sup>1\<^sup>0\<^sup>7\<^sup>4\<close>; \<open>ParseFloat\<close> is
  round-to-nearest-even with its range error.  The regular-expression compiler is the argument
  \<open>compile\<close>: \<open>None\<close> for a pattern it rejects, else the predicate its matcher decides.  The
  process-wide pattern cache is threaded through the evaluation; proved here: with a coherent
  cache the result is the cacheless one, and the cache stays coherent.
\<close>

section \<open>Selecting fields\<close>

definition norm_char :: "char \<Rightarrow> string" where
  "norm_char c =
     (let n = (of_char c :: nat) in
      if 65 \<le> n \<and> n \<le> 90 then [char_of (n - 65 + 97)]
      else if (97 \<le> n \<and> n \<le> 122) \<or> (48 \<le> n \<and> n \<le> 57) then [c] else [])"

text \<open>Every byte of a multi-byte rune is dropped, as the rune is.\<close>

definition normalizeFieldKey :: "string \<Rightarrow> string" where
  "normalizeFieldKey s = concat (map norm_char s)"

definition filterFields :: "Field list \<Rightarrow> string list \<Rightarrow> Field list" where
  "filterFields flds allowlist =
     (if allowlist = [] then flds
      else filter (\<lambda>f. normalizeFieldKey (f_label f) \<in> set (map normalizeFieldKey allowlist)) flds)"

section \<open>Numbers\<close>

text \<open>The first match of \<^verbatim>\<open>-?\d+(\.\d+)?\<close>: sign, digits before and after the point.\<close>

definition number_at :: "string \<Rightarrow> (bool \<times> string \<times> string) option" where
  "number_at s =
     (let (neg, t) = (case s of [] \<Rightarrow> (False, []) | c # r \<Rightarrow> if c = CHR ''-'' then (True, r) else (False, s));
          whole = takeWhile is_digit t;
          rest = dropWhile is_digit t;
          fpart = (case rest of [] \<Rightarrow> [] | c # r \<Rightarrow> if c = CHR ''.'' then takeWhile is_digit r else [])
      in if whole = [] then None else Some (neg, whole, fpart))"

fun find_number :: "string \<Rightarrow> (bool \<times> string \<times> string) option" where
  "find_number [] = None"
| "find_number (c # s) = (case number_at (c # s) of Some m \<Rightarrow> Some m | None \<Rightarrow> find_number s)"

definition round_even :: "int \<Rightarrow> int \<Rightarrow> int" where
  "round_even x y =
     (let q = x div y; r = x mod y in
      if 2 * r < y then q else if 2 * r > y then q + 1 else if even q then q else q + 1)"

text \<open>\<open>n / d\<close> rounded to 53 significant bits, in units of the smallest double; \<open>None\<close> out of range.\<close>

definition to_double :: "int \<Rightarrow> int \<Rightarrow> int option" where
  "to_double n d =
     (let x = n * 2 ^ 1074;
          s = nat (bitlen (x div d) - 53);
          v = round_even x (d * 2 ^ s) * 2 ^ s
      in if v < 2 ^ 2098 then Some v else None)"

definition decimal_val :: "string \<Rightarrow> int" where
  "decimal_val s = foldl (\<lambda>a c. 10 * a + int (digit_val c)) 0 s"

definition numericValue :: "string \<Rightarrow> int option" where
  "numericValue s =
     (case find_number s of
        None \<Rightarrow> None
      | Some (neg, whole, fpart) \<Rightarrow>
          map_option (\<lambda>v. if neg then - v else v)
            (to_double (decimal_val (whole @ fpart)) (10 ^ length fpart)))"

definition numeric_ops :: "string list" where
  "numeric_ops = [''gt'', ''gte'', ''lt'', ''lte'', ''eq'', ''ne'', ''between'', ''outside'']"

definition evaluateNumericRule :: "highlight_rule \<Rightarrow> string \<Rightarrow> bool" where
  "evaluateNumericRule r val =
     (case numericValue val of
        None \<Rightarrow> False
      | Some v \<Rightarrow>
          case numericValue (hr_value r) of
            None \<Rightarrow> False
          | Some bound \<Rightarrow>
              if hr_when r = ''gt'' then v > bound
              else if hr_when r = ''gte'' then v \<ge> bound
              else if hr_when r = ''lt'' then v < bound
              else if hr_when r = ''lte'' then v \<le> bound
              else if hr_when r = ''eq'' then v = bound
              else if hr_when r = ''ne'' then v \<noteq> bound
              else if hr_when r = ''between'' \<or> hr_when r = ''outside'' then
                (case hr_value2 r of
                   None \<Rightarrow> False
                 | Some v2 \<Rightarrow>
                     case numericValue v2 of
                       None \<Rightarrow> False
                     | Some bound2 \<Rightarrow>
                         let lo = (if bound > bound2 then bound2 else bound);
                             up = (if bound > bound2 then bound else bound2);
                             inside = (v \<ge> lo \<and> v \<le> up)
                         in if hr_when r = ''outside'' then \<not> inside else inside)
              else False)"

section \<open>Regular expressions and their cache\<close>

type_synonym regex = "string \<Rightarrow> bool"
type_synonym regex_cache = "regex option gomap"

definition compileRegexCached ::
  "(string \<Rightarrow> regex option) \<Rightarrow> string \<Rightarrow> regex_cache \<Rightarrow> regex option \<times> regex_cache" where
  "compileRegexCached compile pattern cache =
     (case gget cache pattern of
        Some c \<Rightarrow> (c, cache)
      | None \<Rightarrow> let re = compile pattern in (re, gput pattern re cache))"

definition regex_pattern :: "highlight_rule \<Rightarrow> string" where
  "regex_pattern r = (if hr_case_sensitive r = Some True then hr_value r else ''(?i)'' @ hr_value r)"

definition evaluateRegexRule ::
  "(string \<Rightarrow> regex option) \<Rightarrow> highlight_rule \<Rightarrow> string \<Rightarrow> regex_cache \<Rightarrow> bool \<times> regex_cache" where
  "evaluateRegexRule compile r val cache =
     (case compileRegexCached compile (regex_pattern r) cache of
        (re, cache) \<Rightarrow> (case re of None \<Rightarrow> False | Some m \<Rightarrow> m val, cache))"

definition evaluateStringRule ::
  "(string \<Rightarrow> regex option) \<Rightarrow> highlight_rule \<Rightarrow> string \<Rightarrow> regex_cache \<Rightarrow> bool \<times> regex_cache" where
  "evaluateStringRule compile r val cache =
     (if hr_when r = ''regex'' then evaluateRegexRule compile r val cache
      else
        let caseSensitive = (hr_case_sensitive r = Some True);
            v = (if caseSensitive then val else to_lower val);
            target = (if caseSensitive then hr_value r else to_lower (hr_value r))
        in (if hr_when r = ''equals'' then v = target
            else if hr_when r = ''includes'' then contains v target
            else if hr_when r = ''startsWith'' then has_prefix v target
            else if hr_when r = ''endsWith'' then has_suffix v target
            else False, cache))"

definition evaluateRule ::
  "(string \<Rightarrow> regex option) \<Rightarrow> highlight_rule \<Rightarrow> string \<Rightarrow> regex_cache \<Rightarrow> bool \<times> regex_cache" where
  "evaluateRule compile r val cache =
     (if hr_when r \<in> set numeric_ops then (evaluateNumericRule r val, cache)
      else evaluateStringRule compile r val cache)"

definition ruleMatches ::
  "(string \<Rightarrow> regex option) \<Rightarrow> highlight_rule \<Rightarrow> string \<Rightarrow> regex_cache \<Rightarrow> bool \<times> regex_cache" where
  "ruleMatches compile r val cache =
     (case evaluateRule compile r val cache of
        (matched, cache) \<Rightarrow> (if hr_negate r = Some True then \<not> matched else matched, cache))"

fun firstMatchingLevel ::
  "(string \<Rightarrow> regex option) \<Rightarrow> highlight_rule list \<Rightarrow> string \<Rightarrow> regex_cache \<Rightarrow> string \<times> regex_cache" where
  "firstMatchingLevel compile [] val cache = ([], cache)"
| "firstMatchingLevel compile (r # rs) val cache =
     (case ruleMatches compile r val cache of
        (m, cache) \<Rightarrow> if m then (hr_level r, cache) else firstMatchingLevel compile rs val cache)"

definition rules_by_key :: "field_highlight gomap \<Rightarrow> field_highlight gomap" where
  "rules_by_key rules = foldl (\<lambda>m (label, fh). gput (normalizeFieldKey label) fh m) [] rules"

definition highlight_field :: "(string \<Rightarrow> regex option) \<Rightarrow> field_highlight gomap \<Rightarrow> Field \<Rightarrow> regex_cache \<Rightarrow>
    Field \<times> regex_cache" where
  "highlight_field compile byKey f cache =
     (if f_highlight f \<noteq> [] then (f, cache)
      else case gget byKey (normalizeFieldKey (f_label f)) of
             None \<Rightarrow> (f, cache)
           | Some fh \<Rightarrow>
               (case firstMatchingLevel compile (fh_rules fh) (f_value f) cache of
                  (level, cache) \<Rightarrow> (if level \<noteq> [] then f\<lparr>f_highlight := level\<rparr> else f, cache)))"

fun highlight_fields :: "(string \<Rightarrow> regex option) \<Rightarrow> field_highlight gomap \<Rightarrow> Field list \<Rightarrow> regex_cache \<Rightarrow>
    Field list \<times> regex_cache" where
  "highlight_fields compile byKey [] cache = ([], cache)"
| "highlight_fields compile byKey (f # fs) cache =
     (case highlight_field compile byKey f cache of
        (f', cache) \<Rightarrow>
          (case highlight_fields compile byKey fs cache of (fs', cache) \<Rightarrow> (f' # fs', cache)))"

definition applyHighlights :: "(string \<Rightarrow> regex option) \<Rightarrow> Field list \<Rightarrow> field_highlight gomap \<Rightarrow>
    regex_cache \<Rightarrow> Field list \<times> regex_cache" where
  "applyHighlights compile flds rules cache =
     (if rules = [] then (flds, cache)
      else highlight_fields compile (rules_by_key rules) flds cache)"

section \<open>The cacheless reference\<close>

definition rule_spec :: "(string \<Rightarrow> regex option) \<Rightarrow> highlight_rule \<Rightarrow> string \<Rightarrow> bool" where
  "rule_spec compile r val = (fst (ruleMatches compile r val []))"

definition level_spec :: "(string \<Rightarrow> regex option) \<Rightarrow> highlight_rule list \<Rightarrow> string \<Rightarrow> string" where
  "level_spec compile rs val =
     (case find (\<lambda>r. rule_spec compile r val) rs of Some r \<Rightarrow> hr_level r | None \<Rightarrow> [])"

definition field_spec :: "(string \<Rightarrow> regex option) \<Rightarrow> field_highlight gomap \<Rightarrow> Field \<Rightarrow> Field" where
  "field_spec compile byKey f =
     (case gget byKey (normalizeFieldKey (f_label f)) of
        None \<Rightarrow> f
      | Some fh \<Rightarrow> f\<lparr>f_highlight := or_str (f_highlight f) (level_spec compile (fh_rules fh) (f_value f))\<rparr>)"

definition coherent :: "(string \<Rightarrow> regex option) \<Rightarrow> regex_cache \<Rightarrow> bool" where
  "coherent compile cache \<longleftrightarrow> (\<forall>p c. gget cache p = Some c \<longrightarrow> c = compile p)"

lemma coherent_Nil [simp]: "coherent compile []"
  by (simp add: coherent_def)

lemma compileRegexCached_coherent:
  "coherent compile cache \<Longrightarrow>
     fst (compileRegexCached compile p cache) = compile p \<and>
     coherent compile (snd (compileRegexCached compile p cache))"
  by (auto simp: compileRegexCached_def coherent_def Let_def gm.get_put split: option.split)

lemma regex_coherent:
  assumes "coherent compile cache"
  obtains c where "compileRegexCached compile p cache = (compile p, c)" "coherent compile c"
  using compileRegexCached_coherent [OF assms, of p] by (metis prod.collapse)

lemma ruleMatches_coherent:
  assumes "coherent compile cache"
  shows "fst (ruleMatches compile r val cache) = rule_spec compile r val \<and>
         coherent compile (snd (ruleMatches compile r val cache))"
proof -
  obtain c d where "compileRegexCached compile (regex_pattern r) cache = (compile (regex_pattern r), c)"
    "coherent compile c"
    "compileRegexCached compile (regex_pattern r) [] = (compile (regex_pattern r), d)"
    using regex_coherent [OF assms] regex_coherent [OF coherent_Nil] by metis
  with assms show ?thesis
    by (auto simp: rule_spec_def ruleMatches_def evaluateRule_def evaluateStringRule_def
        evaluateRegexRule_def Let_def split: option.splits)
qed

lemma firstMatchingLevel_coherent:
  "coherent compile cache \<Longrightarrow>
     fst (firstMatchingLevel compile rs val cache) = level_spec compile rs val \<and>
     coherent compile (snd (firstMatchingLevel compile rs val cache))"
proof (induction rs arbitrary: cache)
  case (Cons r rs)
  obtain m c where m: "ruleMatches compile r val cache = (m, c)" by fastforce
  with ruleMatches_coherent [OF Cons.prems, of r val] Cons.IH [of c]
  show ?case by (auto simp: level_spec_def)
qed (simp add: level_spec_def)

lemma highlight_field_coherent:
  assumes "coherent compile cache"
  shows "fst (highlight_field compile byKey f cache) = field_spec compile byKey f \<and>
         coherent compile (snd (highlight_field compile byKey f cache))"
proof (cases "gget byKey (normalizeFieldKey (f_label f))")
  case None
  then show ?thesis using assms by (auto simp: highlight_field_def field_spec_def)
next
  case (Some fh)
  obtain l c where l: "firstMatchingLevel compile (fh_rules fh) (f_value f) cache = (l, c)" by fastforce
  with firstMatchingLevel_coherent [OF assms, of "fh_rules fh" "f_value f"] Some assms
  show ?thesis by (auto simp: highlight_field_def field_spec_def or_str_def)
qed

lemma highlight_fields_coherent:
  "coherent compile cache \<Longrightarrow>
     fst (highlight_fields compile byKey fs cache) = map (field_spec compile byKey) fs \<and>
     coherent compile (snd (highlight_fields compile byKey fs cache))"
proof (induction fs arbitrary: cache)
  case (Cons f fs)
  obtain f' c where f: "highlight_field compile byKey f cache = (f', c)" by fastforce
  obtain fs' c' where fs: "highlight_fields compile byKey fs c = (fs', c')" by fastforce
  from highlight_field_coherent [OF Cons.prems, of byKey f] f
  have "f' = field_spec compile byKey f" "coherent compile c" by auto
  with Cons.IH [of c] fs f show ?case by simp
qed simp

lemma field_spec_keeps:
  "f_label (field_spec compile byKey f) = f_label f \<and> f_value (field_spec compile byKey f) = f_value f \<and>
   f_percent (field_spec compile byKey f) = f_percent f \<and>
   (f_highlight f \<noteq> [] \<longrightarrow> field_spec compile byKey f = f)"
  by (auto simp: field_spec_def or_str_def split: option.split)

section \<open>Properties\<close>

text \<open>
  Highlighting with the shared pattern cache gives what evaluating every rule afresh gives: each
  field keeps a level its widget set, else takes the level of the first rule, in declaration order,
  that matches; nothing else of the field changes, and the cache stays coherent.
\<close>

theorem applyHighlights_cached:
  assumes "coherent compile cache"
  shows "fst (applyHighlights compile fs rules cache) = map (field_spec compile (rules_by_key rules)) fs \<and>
         coherent compile (snd (applyHighlights compile fs rules cache))"
  using highlight_fields_coherent [OF assms] assms
  by (auto simp: applyHighlights_def rules_by_key_def field_spec_def map_idI)

definition ex_rule :: "string \<Rightarrow> string \<Rightarrow> string \<Rightarrow> highlight_rule" where
  "ex_rule level wh v = \<lparr>hr_level = level, hr_when = wh, hr_value = v, hr_value2 = None,
     hr_negate = None, hr_case_sensitive = None\<rparr>"

definition ex_compile :: "string \<Rightarrow> regex option" where
  "ex_compile p = (if has_prefix p ''(?i)*'' then None else Some (\<lambda>s. contains (''(?i)'' @ s) p))"

theorem applyHighlights_cached_witness:
  "coherent ex_compile [(''(?i)up'', ex_compile ''(?i)up'')] \<and>
   fst (applyHighlights ex_compile [\<lparr>f_label = ''Queue'', f_value = ''12.5 ms'', f_percent = None, f_highlight = []\<rparr>]
     [(''queue'', \<lparr>fh_rules = [ex_rule ''bad'' ''regex'' ''*'', ex_rule ''warn'' ''gt'' ''12''],
        fh_scope = None\<rparr>)] [(''(?i)up'', ex_compile ''(?i)up'')]) =
     map (field_spec ex_compile (rules_by_key [(''queue'', \<lparr>fh_rules =
        [ex_rule ''bad'' ''regex'' ''*'', ex_rule ''warn'' ''gt'' ''12''], fh_scope = None\<rparr>)]))
     [\<lparr>f_label = ''Queue'', f_value = ''12.5 ms'', f_percent = None, f_highlight = []\<rparr>]"
proof
  show co: "coherent ex_compile [(''(?i)up'', ex_compile ''(?i)up'')]"
    by (simp add: coherent_def gget_def)
  show "fst (applyHighlights ex_compile [\<lparr>f_label = ''Queue'', f_value = ''12.5 ms'', f_percent = None, f_highlight = []\<rparr>]
     [(''queue'', \<lparr>fh_rules = [ex_rule ''bad'' ''regex'' ''*'', ex_rule ''warn'' ''gt'' ''12''],
        fh_scope = None\<rparr>)] [(''(?i)up'', ex_compile ''(?i)up'')]) =
     map (field_spec ex_compile (rules_by_key [(''queue'', \<lparr>fh_rules =
        [ex_rule ''bad'' ''regex'' ''*'', ex_rule ''warn'' ''gt'' ''12''], fh_scope = None\<rparr>)]))
     [\<lparr>f_label = ''Queue'', f_value = ''12.5 ms'', f_percent = None, f_highlight = []\<rparr>]"
    using applyHighlights_cached [OF co] by blast
qed

end
