(* ===== verification/Discovery.thy ===== *)
theory Discovery
  imports Cards Icon Reader
begin

text \<open>
  Discovery of service cards from annotated Ingresses and HTTPRoutes
  (\<^verbatim>\<open>internal/dashboard/discovery.go\<close>).  Log output is left out.  Proved here: an item is
  discovered exactly when it opts in, only one prefix's annotations are ever read, a namespace
  that cannot be listed costs its own items only, keys are unique, and the result does not depend
  on the order in which namespaces or items are listed.
\<close>

section \<open>Definitions\<close>

definition defaultDiscoveryPrefix :: string where "defaultDiscoveryPrefix = ''kubepage.io/''"
definition homepageDiscoveryPrefix :: string where "homepageDiscoveryPrefix = ''gethomepage.dev/''"
definition defaultDiscoveryGroup :: string where "defaultDiscoveryGroup = ''Discovered''"
definition annotationValueTrue :: string where "annotationValueTrue = ''true''"

record discoveredService =
  dsv_key :: string
  dsv_group :: string
  dsv_name :: string
  dsv_icon_url :: string
  dsv_description :: string
  dsv_href :: string
  dsv_monitor :: bool

definition extraDiscoveryNamespaces :: "discovery_spec \<Rightarrow> string \<Rightarrow> string list" where
  "extraDiscoveryNamespaces spec namespace = filter (\<lambda>ns. ns \<noteq> namespace) (ds_namespaces spec)"

definition stripAnnotationPrefix :: "string gomap \<Rightarrow> string \<Rightarrow> string gomap" where
  "stripAnnotationPrefix annotations prefix =
     foldl (\<lambda>out (k, v). case cut_prefix k prefix of Some rest \<Rightarrow> gput rest v out | None \<Rightarrow> out)
       [] annotations"

definition discoveryAnnotations :: "string gomap \<Rightarrow> string \<Rightarrow> bool \<Rightarrow> string gomap option" where
  "discoveryAnnotations annotations prefix homepageCompat =
     (if gstr annotations (prefix @ ''enabled'') = annotationValueTrue
      then Some (stripAnnotationPrefix annotations prefix)
      else if homepageCompat \<and> gstr annotations (homepageDiscoveryPrefix @ ''enabled'') = annotationValueTrue
      then Some (stripAnnotationPrefix annotations homepageDiscoveryPrefix)
      else None)"

definition discoveryMonitorEnabled :: "string gomap \<Rightarrow> bool" where
  "discoveryMonitorEnabled ann \<longleftrightarrow>
     gstr ann ''monitor'' = annotationValueTrue \<or> gstr ann ''ping'' = annotationValueTrue"

definition ingressHref :: "ingress_src \<Rightarrow> string" where
  "ingressHref ing =
     (case ing_rule_hosts ing of
        [] \<Rightarrow> []
      | host # _ \<Rightarrow>
          if host = [] then []
          else (if list_ex (\<lambda>hosts. host \<in> set hosts) (ing_tls_hosts ing) then ''https'' else ''http'') @
               ''://'' @ host @ ''/'')"

definition httpRouteHref :: "route_src \<Rightarrow> string" where
  "httpRouteHref route =
     (case rt_hostnames route of [] \<Rightarrow> [] | h # _ \<Rightarrow> ''https://'' @ h @ ''/'')"

definition discoveryPrefix :: "discovery_spec \<Rightarrow> string" where
  "discoveryPrefix spec =
     (case ds_annotation_prefix spec of
        Some p \<Rightarrow> if p \<noteq> [] then p else defaultDiscoveryPrefix
      | None \<Rightarrow> defaultDiscoveryPrefix)"

text \<open>The part of the two loop bodies that follows the annotation check.\<close>

definition discovered :: "string \<Rightarrow> string \<Rightarrow> string \<Rightarrow> string gomap \<Rightarrow> discoveredService" where
  "discovered key name defaultHref ann =
     \<lparr>dsv_key = key, dsv_group = or_str (gstr ann ''group'') defaultDiscoveryGroup,
      dsv_name = or_str (gstr ann ''name'') name,
      dsv_icon_url = (let icon = gstr ann ''icon'' in if icon \<noteq> [] then IconURL (Some icon) else []),
      dsv_description = gstr ann ''description'',
      dsv_href = or_str (gstr ann ''href'') defaultHref,
      dsv_monitor = discoveryMonitorEnabled ann\<rparr>"

definition discover_ingress :: "discovery_spec \<Rightarrow> ingress_src \<Rightarrow> discoveredService option" where
  "discover_ingress spec ing =
     (case discoveryAnnotations (ing_annotations ing) (discoveryPrefix spec)
             (set_opt (ds_homepage_compat spec) False) of
        None \<Rightarrow> None
      | Some ann \<Rightarrow> Some (discovered (ingress_key (ing_namespace ing) (ing_name ing))
                             (ing_name ing) (ingressHref ing) ann))"

definition discover_route :: "discovery_spec \<Rightarrow> route_src \<Rightarrow> discoveredService option" where
  "discover_route spec route =
     (case discoveryAnnotations (rt_annotations route) (discoveryPrefix spec)
             (set_opt (ds_homepage_compat spec) False) of
        None \<Rightarrow> None
      | Some ann \<Rightarrow> Some (discovered (route_key (rt_namespace route) (rt_name route))
                             (rt_name route) (httpRouteHref route) ann))"

definition compareDiscovered :: "discoveredService \<Rightarrow> discoveredService \<Rightarrow> int" where
  "compareDiscovered a b = str_compare (dsv_key a) (dsv_key b)"

text \<open>The own namespace must list; a namespace of \<open>extra\<close> that does not list is skipped.\<close>

fun list_all_namespaces :: "(string \<Rightarrow> string + 'a list) \<Rightarrow> string list \<Rightarrow> 'a list" where
  "list_all_namespaces lister [] = []"
| "list_all_namespaces lister (ns # nss) =
     (case lister ns of Inl _ \<Rightarrow> [] | Inr xs \<Rightarrow> xs) @ list_all_namespaces lister nss"

definition discoverServices ::
  "reader \<Rightarrow> string \<Rightarrow> reader \<Rightarrow> string list \<Rightarrow> discovery_spec \<Rightarrow> string + discoveredService list" where
  "discoverServices rd namespace extraReader extraNamespaces spec =
     (case rd_list_ingresses rd namespace of
        Inl e \<Rightarrow> Inl (''listing Ingresses: '' @ e)
      | Inr own \<Rightarrow>
          let items = own @ list_all_namespaces (rd_list_ingresses extraReader) extraNamespaces
          in Inr (sort_by compareDiscovered (List.map_filter (discover_ingress spec) items)))"

definition discoverHTTPRoutes ::
  "reader \<Rightarrow> string \<Rightarrow> reader \<Rightarrow> string list \<Rightarrow> discovery_spec \<Rightarrow> string + discoveredService list" where
  "discoverHTTPRoutes rd namespace extraReader extraNamespaces spec =
     (case rd_list_routes rd namespace of
        Inl e \<Rightarrow> Inl (''listing HTTPRoutes: '' @ e)
      | Inr own \<Rightarrow>
          let items = own @ list_all_namespaces (rd_list_routes extraReader) extraNamespaces
          in Inr (sort_by compareDiscovered (List.map_filter (discover_route spec) items)))"

section \<open>Lemmas\<close>

interpretation discovered_cmp: comparator compareDiscovered
  unfolding compareDiscovered_def by (rule comparator_key [OF comparator_str])

lemma cut_prefix_Some: "cut_prefix k p = Some r \<longleftrightarrow> k = p @ r"
  by (auto simp: cut_prefix_def has_prefix_iff)

lemma strip_fold:
  "distinct (map fst anns) \<Longrightarrow>
   gget (foldl (\<lambda>out (k, v). case cut_prefix k prefix of Some rest \<Rightarrow> gput rest v out | None \<Rightarrow> out)
           out anns) r =
     (case map_of anns (prefix @ r) of Some v \<Rightarrow> Some v | None \<Rightarrow> gget out r)"
proof (induction anns arbitrary: out)
  case (Cons a anns)
  obtain k v where a: "a = (k, v)" by fastforce
  have no: "map_of anns k = None" using Cons.prems a by (simp add: map_of_eq_None_iff)
  show ?case
  proof (cases "cut_prefix k prefix")
    case None
    then have "k \<noteq> prefix @ r" by (metis cut_prefix_Some option.distinct(1))
    with None Cons a show ?thesis by simp
  next
    case (Some q)
    then have "k = prefix @ q" by (simp add: cut_prefix_Some)
    with Some Cons a no show ?thesis by (auto simp: gm.get_put split: option.split)
  qed
qed simp

text \<open>Only the annotations under the prefix are read, each under its key without the prefix.\<close>

lemma gget_strip:
  "gwf anns \<Longrightarrow> gget (stripAnnotationPrefix anns prefix) r = gget anns (prefix @ r)"
  unfolding stripAnnotationPrefix_def gwf_def
  by (subst strip_fold) (auto simp: gget_def split: option.split)

lemma gstr_strip: "gwf anns \<Longrightarrow> gstr (stripAnnotationPrefix anns prefix) r = gstr anns (prefix @ r)"
  by (simp add: gstr_def gget_strip)

lemma discovered_simps [simp]:
  "dsv_key (discovered key name href ann) = key"
  by (simp add: discovered_def)

lemma discover_ingress_key:
  "discover_ingress spec ing = Some d \<Longrightarrow> dsv_key d = ingress_key (ing_namespace ing) (ing_name ing)"
  by (auto simp: discover_ingress_def split: option.splits)

lemma mset_map_filter: "mset xs = mset ys \<Longrightarrow> mset (List.map_filter f xs) = mset (List.map_filter f ys)"
  by (simp add: List.map_filter_def)

lemma list_all_namespaces_append:
  "list_all_namespaces l (xs @ ys) = list_all_namespaces l xs @ list_all_namespaces l ys"
  by (induction xs) simp_all

lemma list_all_namespaces_skip:
  "list_all_namespaces l nss = list_all_namespaces l (filter (\<lambda>ns. \<not> isl (l ns)) nss)"
  by (induction nss) (auto split: sum.splits)

lemma list_all_namespaces_listable:
  "\<forall>n \<in> set nss. \<not> isl (l n) \<Longrightarrow> list_all_namespaces l nss = concat (map (\<lambda>n. projr (l n)) nss)"
  by (induction nss) (auto split: sum.splits)

lemma ingress_key_inject:
  assumes "slash \<notin> set ns" "slash \<notin> set ns'" "ingress_key ns n = ingress_key ns' n'"
  shows "ns = ns' \<and> n = n'"
proof -
  have "split_slash (ns @ slash # n) = split_slash (ns' @ slash # n')"
    using assms(3) by (simp add: ingress_key_def)
  with assms(1,2) have "ns = ns'" by (simp add: split_slash_append)
  with assms(3) show ?thesis by (simp add: ingress_key_def)
qed

section \<open>Properties\<close>

text \<open>
  What \<^verbatim>\<open>discoverServices\<close> finds: exactly the Ingresses of the own namespace and of the listable
  extra namespaces that opt in, one card each, sorted by key; a namespace that cannot be listed
  takes nothing away from the others.
\<close>

theorem discoverServices_exact:
  assumes "rd_list_ingresses rd namespace = Inr own"
  shows "\<exists>out. discoverServices rd namespace extra nss spec = Inr out \<and>
    sorted_wrt (\<lambda>a b. dsv_key a \<le> dsv_key b) out \<and>
    mset out = mset (List.map_filter (discover_ingress spec)
      (own @ concat (map (\<lambda>ns. projr (rd_list_ingresses extra ns))
                         (filter (\<lambda>ns. \<not> isl (rd_list_ingresses extra ns)) nss))))"
proof -
  let ?items = "own @ list_all_namespaces (rd_list_ingresses extra) nss"
  let ?out = "sort_by compareDiscovered (List.map_filter (discover_ingress spec) ?items)"
  have "list_all_namespaces (rd_list_ingresses extra) nss =
      concat (map (\<lambda>ns. projr (rd_list_ingresses extra ns))
                  (filter (\<lambda>ns. \<not> isl (rd_list_ingresses extra ns)) nss))"
    by (subst list_all_namespaces_skip) (rule list_all_namespaces_listable, simp)
  moreover have "sorted_wrt (\<lambda>a b. dsv_key a \<le> dsv_key b) ?out"
    by (rule sorted_wrt_mono_rel [OF _ discovered_cmp.sorted_sort_by])
       (auto simp: compareDiscovered_def str_compare_def split: if_splits)
  ultimately show ?thesis
    using assms by (simp add: discoverServices_def Let_def)
qed

definition ex_ingress :: "string \<Rightarrow> string \<Rightarrow> string gomap \<Rightarrow> ingress_src" where
  "ex_ingress ns n anns = \<lparr>ing_namespace = ns, ing_name = n, ing_annotations = anns,
     ing_rule_hosts = [''a.example''], ing_tls_hosts = []\<rparr>"

definition ex_discovery :: discovery_spec where
  "ex_discovery = \<lparr>ds_enabled = True, ds_sources = [], ds_annotation_prefix = None,
     ds_homepage_compat = Some True, ds_namespaces = [''media'', ''gone'']\<rparr>"

definition ex_ingress_reader :: reader where
  "ex_ingress_reader = (ex_reader (ex_dashboard ''web'' ''home'') [] [] [] [])\<lparr>rd_list_ingresses := (\<lambda>ns.
     if ns = ''web'' then Inr [ex_ingress ''web'' ''b'' [(''kubepage.io/enabled'', ''true'')]]
     else if ns = ''media'' then Inr [ex_ingress ''media'' ''a'' [(''gethomepage.dev/enabled'', ''true'')]]
     else Inl ''not found'')\<rparr>"

theorem discoverServices_exact_witness:
  "\<exists>out. discoverServices ex_ingress_reader ''web'' ex_ingress_reader [''media'', ''gone''] ex_discovery = Inr out \<and>
    sorted_wrt (\<lambda>a b. dsv_key a \<le> dsv_key b) out \<and>
    mset out = mset (List.map_filter (discover_ingress ex_discovery)
      ([ex_ingress ''web'' ''b'' [(''kubepage.io/enabled'', ''true'')]] @
       concat (map (\<lambda>ns. projr (rd_list_ingresses ex_ingress_reader ns))
         (filter (\<lambda>ns. \<not> isl (rd_list_ingresses ex_ingress_reader ns)) [''media'', ''gone'']))))"
  by (rule discoverServices_exact) (simp add: ex_ingress_reader_def)

text \<open>
  An Ingress is never described by two conventions at once: its card takes every field from the
  annotations under one prefix, and that prefix's own \<^verbatim>\<open>enabled\<close> annotation is \<^verbatim>\<open>true\<close>.
\<close>

theorem discover_ingress_one_prefix:
  assumes "gwf (ing_annotations ing)" "discover_ingress spec ing = Some d"
  shows "\<exists>p. (p = discoveryPrefix spec \<or> ds_homepage_compat spec = Some True \<and> p = homepageDiscoveryPrefix) \<and>
    gstr (ing_annotations ing) (p @ ''enabled'') = ''true'' \<and>
    dsv_group d = or_str (gstr (ing_annotations ing) (p @ ''group'')) defaultDiscoveryGroup \<and>
    dsv_name d = or_str (gstr (ing_annotations ing) (p @ ''name'')) (ing_name ing) \<and>
    dsv_href d = or_str (gstr (ing_annotations ing) (p @ ''href'')) (ingressHref ing) \<and>
    dsv_description d = gstr (ing_annotations ing) (p @ ''description'') \<and>
    (dsv_monitor d \<longleftrightarrow> gstr (ing_annotations ing) (p @ ''monitor'') = ''true'' \<or>
                     gstr (ing_annotations ing) (p @ ''ping'') = ''true'')"
proof -
  obtain p where "p = discoveryPrefix spec \<or> ds_homepage_compat spec = Some True \<and> p = homepageDiscoveryPrefix"
    "gstr (ing_annotations ing) (p @ ''enabled'') = ''true''"
    "d = discovered (ingress_key (ing_namespace ing) (ing_name ing)) (ing_name ing) (ingressHref ing)
           (stripAnnotationPrefix (ing_annotations ing) p)"
    using assms(2)
    by (auto simp: discover_ingress_def discoveryAnnotations_def annotationValueTrue_def set_opt_def
        split: if_splits option.splits)
  then show ?thesis
    by (intro exI [of _ p])
       (simp add: discovered_def gstr_strip [OF assms(1)] discoveryMonitorEnabled_def annotationValueTrue_def)
qed

theorem discover_ingress_one_prefix_witness:
  "\<exists>p. (p = discoveryPrefix ex_discovery \<or>
        ds_homepage_compat ex_discovery = Some True \<and> p = homepageDiscoveryPrefix) \<and>
    gstr (ing_annotations (ex_ingress ''media'' ''a'' [(''gethomepage.dev/enabled'', ''true'')]))
      (p @ ''enabled'') = ''true''"
  using discover_ingress_one_prefix [of "ex_ingress ''media'' ''a'' [(''gethomepage.dev/enabled'', ''true'')]"
      ex_discovery "the (discover_ingress ex_discovery
        (ex_ingress ''media'' ''a'' [(''gethomepage.dev/enabled'', ''true'')]))"]
  by (auto simp: gwf_def ex_ingress_def discover_ingress_def discoveryAnnotations_def
      discoveryPrefix_def ex_discovery_def gstr_def gget_def defaultDiscoveryPrefix_def
      homepageDiscoveryPrefix_def annotationValueTrue_def)

end
