(* ===== verification/Transport.thy ===== *)
theory Transport
  imports Go_Maps "HOL-Library.Word"
begin

unbundle bit_operations_syntax

text \<open>
  The outbound transports of \<^verbatim>\<open>internal/dashboard/transport.go\<close>: the dial guard against cloud
  metadata endpoints and the transport that trusts a widget's own CA bundle.  An address is Go's
  \<^verbatim>\<open>net.IP\<close>: 4 or 16 bytes.  Splitting \<^verbatim>\<open>host:port\<close> and parsing an address or a PEM bundle are the
  standard library's and parameters here.  Proved: the guard refuses exactly the documented blocks,
  as prefixes of the numeric address, however an IPv4 address is written; and every transport the
  package builds carries it.
\<close>

type_synonym ip = "8 word list"

section \<open>\<^verbatim>\<open>net.IP\<close>\<close>

text \<open>\<^verbatim>\<open>To4\<close>: the IPv4 address of a 4-byte or an IPv4-mapped 16-byte form.\<close>

definition To4 :: "ip \<Rightarrow> ip option" where
  "To4 a =
     (if length a = 4 then Some a
      else if length a = 16 \<and> list_all (\<lambda>b. b = 0) (take 10 a) \<and> a ! 10 = 0xff \<and> a ! 11 = 0xff
      then Some (drop 12 a) else None)"

definition IsLinkLocalUnicast :: "ip \<Rightarrow> bool" where
  "IsLinkLocalUnicast a =
     (case To4 a of
        Some b \<Rightarrow> b ! 0 = 169 \<and> b ! 1 = 254
      | None \<Rightarrow> length a = 16 \<and> a ! 0 = 0xfe \<and> a ! 1 AND 0xc0 = 0x80)"

definition IsLinkLocalMulticast :: "ip \<Rightarrow> bool" where
  "IsLinkLocalMulticast a =
     (case To4 a of
        Some b \<Rightarrow> b ! 0 = 224 \<and> b ! 1 = 0 \<and> b ! 2 = 0
      | None \<Rightarrow> length a = 16 \<and> a ! 0 = 0xff \<and> a ! 1 AND 0x0f = 0x02)"

text \<open>A \<^verbatim>\<open>net.IPNet\<close>: the network's bytes and the mask's; \<^verbatim>\<open>ParseCIDR\<close>'s value for \<^verbatim>\<open>fd00:ec2::/32\<close>.\<close>

definition ipnet_contains :: "ip \<Rightarrow> ip \<Rightarrow> ip \<Rightarrow> bool" where
  "ipnet_contains nn m a =
     (let a = (case To4 a of Some b \<Rightarrow> b | None \<Rightarrow> a)
      in length a = length nn \<and>
         list_all (\<lambda>i. nn ! i AND m ! i = a ! i AND m ! i) [0..<length a])"

definition awsIPv6MetadataBlock :: "ip \<times> ip" where
  "awsIPv6MetadataBlock =
     ([0xfd, 0x00, 0x0e, 0xc2, 0, 0, 0, 0, 0, 0, 0, 0, 0, 0, 0, 0],
      [0xff, 0xff, 0xff, 0xff, 0, 0, 0, 0, 0, 0, 0, 0, 0, 0, 0, 0])"

section \<open>The dial guard\<close>

definition isLinkLocal :: "ip \<Rightarrow> bool" where
  "isLinkLocal a \<longleftrightarrow> IsLinkLocalUnicast a \<or> IsLinkLocalMulticast a"

definition isBlockedMetadataAddress :: "ip \<Rightarrow> bool" where
  "isBlockedMetadataAddress a \<longleftrightarrow>
     isLinkLocal a \<or> ipnet_contains (fst awsIPv6MetadataBlock) (snd awsIPv6MetadataBlock) a"

record net_lib =
  nl_split_host_port :: "string \<Rightarrow> string + (string \<times> string)"
  nl_parse_ip :: "string \<Rightarrow> ip option"
  nl_ip_string :: "ip \<Rightarrow> string"

text \<open>The error of the dial, if it is refused.\<close>

definition guardedDialControl :: "net_lib \<Rightarrow> string \<Rightarrow> string option" where
  "guardedDialControl net address =
     (case nl_split_host_port net address of
        Inl _ \<Rightarrow> None
      | Inr (host, _) \<Rightarrow>
          (case nl_parse_ip net host of
             None \<Rightarrow> None
           | Some a \<Rightarrow>
               if isBlockedMetadataAddress a
               then Some (''dashboard: connecting to metadata address '' @ nl_ip_string net a @ '' is not allowed'')
               else None))"

section \<open>Transports and clients\<close>

text \<open>
  The fields of \<^verbatim>\<open>http.Transport\<close> that the code sets: the dialer (with its \<^verbatim>\<open>Control\<close> hook), the
  trusted roots, \<open>None\<close> being the system's, and whether certificates are left unverified.
\<close>

record transport =
  tr_dial_timeout :: int
  tr_keep_alive :: int
  tr_control :: "(string \<Rightarrow> string option) option"
  tr_root_cas :: "string list option"
  tr_insecure :: bool

record http_client =
  hc_timeout :: int
  hc_transport :: transport

definition default_transport :: transport where
  "default_transport = \<lparr>tr_dial_timeout = 30, tr_keep_alive = 30, tr_control = None, tr_root_cas = None,
     tr_insecure = False\<rparr>"

definition newGuardedTransport :: "net_lib \<Rightarrow> transport option \<Rightarrow> transport" where
  "newGuardedTransport net base =
     (let base = (case base of None \<Rightarrow> default_transport | Some b \<Rightarrow> b)
      in base\<lparr>tr_dial_timeout := 30, tr_keep_alive := 30, tr_control := Some (guardedDialControl net)\<rparr>)"

definition newGuardedHTTPClient :: "net_lib \<Rightarrow> int \<Rightarrow> http_client" where
  "newGuardedHTTPClient net timeout =
     \<lparr>hc_timeout = timeout, hc_transport = newGuardedTransport net None\<rparr>"

record x509_lib =
  xl_system_pool :: "string list option"
  xl_parse_pem :: "string \<Rightarrow> string list"

definition newGuardedTransportWithCA :: "net_lib \<Rightarrow> x509_lib \<Rightarrow> string \<Rightarrow> string + transport" where
  "newGuardedTransportWithCA net x caPEM =
     (let pool = (case xl_system_pool x of None \<Rightarrow> [] | Some p \<Rightarrow> p);
          certs = xl_parse_pem x caPEM
      in if certs = [] then Inl ''dashboard: no valid PEM certificates found in caCert''
         else Inr ((newGuardedTransport net None)\<lparr>tr_root_cas := Some (pool @ certs)\<rparr>))"

definition guarded :: "net_lib \<Rightarrow> transport \<Rightarrow> bool" where
  "guarded net t \<longleftrightarrow> tr_control t = Some (guardedDialControl net)"

section \<open>Lemmas\<close>

text \<open>The numeric value of an address.\<close>

definition ip_value :: "ip \<Rightarrow> nat" where
  "ip_value a = foldl (\<lambda>v b. v * 256 + unat b) 0 a"

lemma mask_c0: "(b :: 8 word) AND 0xc0 = 0x80 \<longleftrightarrow> unat b div 64 = 2"
proof -
  have b: "unat b < 256" using unsigned_less [of b] by simp
  have "b AND 0xc0 = 0x80 \<longleftrightarrow> unat (b AND 0xc0) = 0x80" by (simp add: word_unat_eq_iff)
  moreover have "unat (b AND 0xc0) = unat b AND push_bit 6 (mask 2)"
    by (simp add: unsigned_and_eq mask_eq_exp_minus_1)
  moreover have "unat b AND push_bit 6 (mask 2) = push_bit 6 (take_bit 2 (drop_bit 6 (unat b)))"
    by (rule bit_eqI) (auto simp: bit_simps)
  moreover have "take_bit 2 (drop_bit 6 (unat b)) = unat b div 64"
    using b by (simp add: take_bit_eq_mod drop_bit_eq_div less_mult_imp_div_less)
  ultimately show ?thesis by (simp add: push_bit_eq_mult)
qed

lemma mask_0f: "(b :: 8 word) AND 0x0f = 2 \<longleftrightarrow> unat b mod 16 = 2"
proof -
  have "b AND 0x0f = 2 \<longleftrightarrow> unat (b AND 0x0f) = 2" by (simp add: word_unat_eq_iff)
  moreover have "unat (b AND 0x0f) = unat b AND mask 4" by (simp add: unsigned_and_eq mask_eq_exp_minus_1)
  ultimately show ?thesis by (simp only: take_bit_eq_mask [symmetric] take_bit_eq_mod) simp
qed

lemma ip_value_append: "ip_value (xs @ ys) = ip_value xs * 256 ^ length ys + ip_value ys"
proof (induction ys rule: rev_induct)
  case (snoc y ys)
  then show ?case by (simp add: ip_value_def algebra_simps flip: append_assoc)
qed (simp add: ip_value_def)

lemma ip_value_less: "ip_value ys < 256 ^ length ys"
proof (induction ys rule: rev_induct)
  case (snoc y ys)
  have "unat y < 256" using unsigned_less [of y] by simp
  with snoc show ?case by (simp add: ip_value_def)
qed (simp add: ip_value_def)

lemma ip_value_prefix: "ip_value (xs @ ys) div 256 ^ length ys = ip_value xs"
  using ip_value_less [of ys] by (simp add: ip_value_append)

lemma ip_prefix: "n \<le> length a \<Longrightarrow> ip_value a div 256 ^ (length a - n) = ip_value (take n a)"
  using ip_value_prefix [of "take n a" "drop n a"] by simp

lemma ip_value_inject: "length a = length b \<Longrightarrow> ip_value a = ip_value b \<longleftrightarrow> a = b"
proof (induction a arbitrary: b rule: rev_induct)
  case (snoc x xs)
  then obtain y ys where b: "b = ys @ [y]" "length ys = length xs"
    by (metis append_butlast_last_id butlast_snoc length_0_conv length_butlast snoc_eq_iff_butlast)
  have "ip_value (xs @ [x]) div 256 = ip_value xs" "ip_value (ys @ [y]) div 256 = ip_value ys"
    "ip_value (xs @ [x]) mod 256 = unat x" "ip_value (ys @ [y]) mod 256 = unat y"
    using ip_value_prefix [of xs "[x]"] ip_value_prefix [of ys "[y]"] unsigned_less [of x] unsigned_less [of y]
    by (simp_all add: ip_value_def)
  with snoc.IH [of ys] b show ?case by (metis word_unat_eq_iff)
qed simp

text \<open>The blocks the documentation names, as prefixes of the numeric address.\<close>

definition metadata_block :: "ip \<Rightarrow> bool" where
  "metadata_block a =
     (case To4 a of
        Some b \<Rightarrow> ip_value b div 2 ^ 16 = 0xa9fe \<or> ip_value b div 2 ^ 8 = 0xe00000
      | None \<Rightarrow> length a = 16 \<and>
          (ip_value a div 2 ^ 118 = 0x3fa \<or>
           ip_value a div 2 ^ 120 = 0xff \<and> ip_value a div 2 ^ 112 mod 16 = 2 \<or>
           ip_value a div 2 ^ 96 = 0xfd000ec2))"

lemma To4_length: "To4 a = Some b \<Longrightarrow> length b = 4"
  by (auto simp: To4_def split: if_splits)

lemma ip_value_eq: "length a = length b \<Longrightarrow> v = ip_value b \<Longrightarrow> ip_value a = v \<longleftrightarrow> a = b"
  using ip_value_inject by simp

lemma take_nths: "n \<le> length a \<Longrightarrow> take n a = map (\<lambda>i. a ! i) [0..<n]"
  by (rule nth_equalityI) simp_all

lemma upt_consts: "[0..<1] = [0]" "[0..<2] = [0, 1]" "[0..<4] = [0, 1, 2, 3]"
  "[0..<16] = [0, 1, 2, 3, 4, 5, 6, 7, 8, 9, 10, 11, 12, 13, 14, 15]"
  by code_simp+

lemma blocked_v4:
  assumes "To4 a = Some b"
  shows "isBlockedMetadataAddress a \<longleftrightarrow> metadata_block a"
proof -
  have "length b = 4" using assms by (rule To4_length)
  then obtain p q r s where b: "b = [p, q, r, s]" by (auto simp: numeral_eq_Suc length_Suc_conv)
  have "ip_value b div 2 ^ 16 = 0xa9fe \<longleftrightarrow> [p, q] = [169, 254]"
    using ip_value_prefix [of "[p, q]" "[r, s]"] ip_value_eq [of "[p, q]" "[169, 254]"]
    by (simp add: b ip_value_def)
  moreover have "ip_value b div 2 ^ 8 = 0xe00000 \<longleftrightarrow> [p, q, r] = [224, 0, 0]"
    using ip_value_prefix [of "[p, q, r]" "[s]"] ip_value_eq [of "[p, q, r]" "[224, 0, 0]"]
    by (simp add: b ip_value_def)
  ultimately show ?thesis
    using assms by (simp add: isBlockedMetadataAddress_def isLinkLocal_def IsLinkLocalUnicast_def b
        IsLinkLocalMulticast_def metadata_block_def ipnet_contains_def awsIPv6MetadataBlock_def)
qed

lemma byte_mask_ff [simp]: "(b :: 8 word) AND 255 = b"
proof -
  have "(255 :: 8 word) = -1" by simp
  then show ?thesis by (simp only: and.right_neutral)
qed

lemma aws_bytes:
  assumes "To4 a = None" "length a = 16"
  shows "ipnet_contains (fst awsIPv6MetadataBlock) (snd awsIPv6MetadataBlock) a \<longleftrightarrow>
    take 4 a = [0xfd, 0, 0x0e, 0xc2]"
proof -
  have "take 4 a = [a ! 0, a ! 1, a ! 2, a ! 3]"
    using take_nths [of 4 a] assms(2) by (simp only: upt_consts list.map)
  with assms show ?thesis
    by (auto simp: ipnet_contains_def awsIPv6MetadataBlock_def upt_consts)
qed

lemma ip_value_16:
  assumes "length a = 16"
  shows "ip_value a div 2 ^ 120 = unat (a ! 0)"
    "ip_value a div 2 ^ 112 = unat (a ! 0) * 256 + unat (a ! 1)"
    "ip_value a div 2 ^ 96 = ip_value (take 4 a)"
proof -
  have "take 1 a = [a ! 0]" "take 2 a = [a ! 0, a ! 1]"
    using take_nths [of 1 a] take_nths [of 2 a] assms by (simp_all only: upt_consts list.map)
  then show "ip_value a div 2 ^ 120 = unat (a ! 0)"
    "ip_value a div 2 ^ 112 = unat (a ! 0) * 256 + unat (a ! 1)"
    "ip_value a div 2 ^ 96 = ip_value (take 4 a)"
    using ip_prefix [of 1 a] ip_prefix [of 2 a] ip_prefix [of 4 a] assms by (simp_all add: ip_value_def)
qed

lemma prefix10_digit: "d < 4 \<Longrightarrow> p * 4 + d = (0x3fa :: nat) \<longleftrightarrow> p = 0xfe \<and> d = 2"
  by presburger

lemma prefix10: "q < 256 \<Longrightarrow> (p * 256 + q) div 64 = (0x3fa :: nat) \<longleftrightarrow> p = 0xfe \<and> q div 64 = 2"
proof -
  assume "q < 256"
  then have "q div 64 < 4" by simp
  moreover have "(p * 256 + q) div 64 = p * 4 + q div 64"
    using div_mult_self1 [of 64 q "p * 4"] by (simp add: algebra_simps)
  ultimately show ?thesis by (simp only: prefix10_digit)
qed

lemma low_nibble: "(p * 256 + q) mod 16 = (q mod 16 :: nat)"
  using mod_mult_self1 [of q "p * 16" 16] by (simp add: algebra_simps)

lemma blocked_v6:
  assumes "To4 a = None" "length a = 16"
  shows "isBlockedMetadataAddress a \<longleftrightarrow> metadata_block a"
proof -
  have byte: "unat (a ! 1) < 256" using unsigned_less [of "a ! 1"] by simp
  have "ip_value a div 2 ^ 118 = ip_value a div 2 ^ 112 div 64"
    by (simp add: div_mult2_eq [symmetric])
  then have v: "ip_value a div 2 ^ 118 = 0x3fa \<longleftrightarrow> unat (a ! 0) = 0xfe \<and> unat (a ! 1) div 64 = 2"
    unfolding ip_value_16 [OF assms(2)] by (simp only: prefix10 [OF byte])
  have aws: "ip_value a div 2 ^ 96 = 0xfd000ec2 \<longleftrightarrow> take 4 a = [0xfd, 0, 0x0e, 0xc2]"
    unfolding ip_value_16 [OF assms(2)] by (rule ip_value_eq) (simp_all add: assms(2) ip_value_def)
  have m: "ip_value a div 2 ^ 112 mod 16 = unat (a ! 1) mod 16"
    unfolding ip_value_16 [OF assms(2)] by (rule low_nibble)
  have w: "a ! 0 = 0xfe \<longleftrightarrow> unat (a ! 0) = 0xfe" "a ! 0 = 0xff \<longleftrightarrow> unat (a ! 0) = 0xff"
    by (simp_all add: word_unat_eq_iff)
  show ?thesis
    unfolding isBlockedMetadataAddress_def isLinkLocal_def IsLinkLocalUnicast_def
      IsLinkLocalMulticast_def metadata_block_def aws_bytes [OF assms]
    using assms v aws m by (simp only: option.case mask_c0 mask_0f ip_value_16(1) w) blast
qed

lemma blocked_iff: "isBlockedMetadataAddress a \<longleftrightarrow> metadata_block a"
proof (cases "To4 a")
  case None
  show ?thesis
  proof (cases "length a = 16")
    case True
    with None show ?thesis by (rule blocked_v6)
  next
    case False
    with None show ?thesis
      by (simp add: isBlockedMetadataAddress_def isLinkLocal_def IsLinkLocalUnicast_def
          IsLinkLocalMulticast_def ipnet_contains_def awsIPv6MetadataBlock_def metadata_block_def)
  qed
next
  case (Some b)
  then show ?thesis by (rule blocked_v4)
qed

section \<open>Properties\<close>

text \<open>
  C6. The guard refuses a dial exactly when the host parses to an address of a metadata block:
  169.254.0.0/16 or 224.0.0.0/24, in 4-byte or IPv4-mapped form, fe80::/10, link-local multicast
  with any flags, and AWS's fd00:ec2::/32; every other dial, cluster-internal ones included, passes.
\<close>

theorem guard_refuses_metadata:
  assumes "nl_split_host_port net address = Inr (host, port)"
  shows "guardedDialControl net address \<noteq> None \<longleftrightarrow>
    (\<exists>a. nl_parse_ip net host = Some a \<and> metadata_block a)"
  using assms by (auto simp: guardedDialControl_def blocked_iff split: option.split)

definition ex_net :: net_lib where
  "ex_net = \<lparr>nl_split_host_port = (\<lambda>s. Inr (s, ''80'')),
     nl_parse_ip = (\<lambda>s. if s = ''169.254.169.254''
       then Some [0, 0, 0, 0, 0, 0, 0, 0, 0, 0, 0xff, 0xff, 169, 254, 169, 254] else None),
     nl_ip_string = (\<lambda>_. ''169.254.169.254'')\<rparr>"

theorem guard_refuses_metadata_witness:
  "guardedDialControl ex_net ''169.254.169.254'' \<noteq> None \<longleftrightarrow>
    (\<exists>a. nl_parse_ip ex_net ''169.254.169.254'' = Some a \<and> metadata_block a)"
  by (rule guard_refuses_metadata [where port = "''80''"]) (simp add: ex_net_def)

text \<open>
  \<^verbatim>\<open>net.ParseIP\<close> does not accept a zone: a link-local address written with its zone, the only form
  in which a link-local IPv6 address can be dialled, is not recognised and passes the guard.
\<close>

lemma zoned_address_passes:
  assumes "nl_split_host_port net address = Inr (a @ ''%'' @ zone, port)"
    and "\<And>h. CHR ''%'' \<in> set h \<Longrightarrow> nl_parse_ip net h = None"
  shows "guardedDialControl net address = None"
  using assms by (simp add: guardedDialControl_def)

lemma transports_guarded:
  "guarded net (newGuardedTransport net base)"
  "guarded net (hc_transport (newGuardedHTTPClient net timeout))"
  "newGuardedTransportWithCA net x pem = Inr t \<Longrightarrow> guarded net t"
  by (auto simp: guarded_def newGuardedTransport_def newGuardedHTTPClient_def
      newGuardedTransportWithCA_def Let_def split: if_splits)

end
