(* ===== verification/Secrets.thy ===== *)
theory Secrets
  imports Reader Transport
begin

text \<open>
  How the poller resolves the secrets and the trust of a widget: \<^verbatim>\<open>widget_defaults.go\<close>, and
  \<^verbatim>\<open>resolveSecret\<close>, \<^verbatim>\<open>resolveSecretRefFields\<close>, \<^verbatim>\<open>resolveWidgetSecrets\<close>, \<^verbatim>\<open>caClient\<close> and
  \<^verbatim>\<open>httpClientForCACert\<close> of \<^verbatim>\<open>poller.go\<close>.  Proved: the precedence of the three sources for every
  field, whatever the iteration order of the maps; only Secrets of the widget's namespace are read;
  and a widget with a CA certificate never falls back to another trust store.
\<close>

section \<open>Secrets\<close>

definition mergeWidgetSecrets :: "string \<Rightarrow> secret_value_source gomap \<Rightarrow> secret_value_source option \<Rightarrow>
    widget_defaults_entry gomap \<Rightarrow> secret_value_source gomap \<times> secret_value_source option" where
  "mergeWidgetSecrets widgetType secrets caCert defaults =
     (case gget defaults widgetType of
        None \<Rightarrow> (secrets, caCert)
      | Some entry \<Rightarrow>
          (if wd_secrets entry \<noteq> [] then gcopy (gcopy [] (wd_secrets entry)) secrets else secrets,
           case caCert of None \<Rightarrow> wd_ca_cert entry | Some c \<Rightarrow> Some c))"

definition missing_secret :: "string \<Rightarrow> string \<Rightarrow> string" where
  "missing_secret name namespace =
     ''secret '' @ quoted name @ '' does not exist in namespace '' @ quoted namespace"

definition resolveSecret :: "reader \<Rightarrow> string \<Rightarrow> secret_value_source \<Rightarrow> string + string" where
  "resolveSecret rd namespace src =
     (case sv_key_ref src of
        None \<Rightarrow> (case sv_value src of Some v \<Rightarrow> Inr v | None \<Rightarrow> Inl ''neither value nor secretKeyRef set'')
      | Some ref \<Rightarrow>
          (case rd_get_secret rd namespace (skr_name ref) of
             NotFound \<Rightarrow> Inl (missing_secret (skr_name ref) namespace)
           | GetError e \<Rightarrow> Inl (''getting Secret '' @ quoted (skr_name ref) @ '': '' @ e)
           | Found dat \<Rightarrow>
               (case gget dat (skr_key ref) of
                  None \<Rightarrow> Inl (''key '' @ quoted (skr_key ref) @ '' does not exist in Secret '' @
                              quoted (skr_name ref))
                | Some v \<Rightarrow> Inr v)))"

definition resolveSecretRefFields :: "reader \<Rightarrow> string \<Rightarrow> string \<Rightarrow> string + string gomap" where
  "resolveSecretRefFields rd namespace name =
     (case rd_get_secret rd namespace name of
        NotFound \<Rightarrow> Inl (missing_secret name namespace)
      | GetError e \<Rightarrow> Inl (''getting Secret '' @ quoted name @ '': '' @ e)
      | Found dat \<Rightarrow> Inr (gcopy [] dat))"

text \<open>The two loops over a map of sources.\<close>

fun resolve_fields :: "reader \<Rightarrow> string \<Rightarrow> secret_value_source gomap \<Rightarrow> string gomap \<Rightarrow> string + string gomap" where
  "resolve_fields rd namespace [] cfg = Inr cfg"
| "resolve_fields rd namespace ((field, src) # rest) cfg =
     (case resolveSecret rd namespace src of
        Inl e \<Rightarrow> Inl (''resolving secret field '' @ quoted field @ '': '' @ e)
      | Inr v \<Rightarrow> resolve_fields rd namespace rest (gput field v cfg))"

text \<open>
  On success the CA certificate to use and the filled map; on an error the callers do not look at
  the map.
\<close>

definition resolveWidgetSecrets :: "reader \<Rightarrow> string \<Rightarrow> string \<Rightarrow> secret_value_source gomap \<Rightarrow>
    string option \<Rightarrow> secret_value_source option \<Rightarrow> widget_defaults_entry gomap \<Rightarrow> string gomap \<Rightarrow>
    string + (secret_value_source option \<times> string gomap)" where
  "resolveWidgetSecrets rd namespace widgetType secrets secretRef caCertSrc widgetDefaults cfg =
     (case mergeWidgetSecrets widgetType [] caCertSrc widgetDefaults of
        (defaults, caCert) \<Rightarrow>
          (case resolve_fields rd namespace defaults cfg of
             Inl e \<Rightarrow> Inl e
           | Inr cfg \<Rightarrow>
               (case (case secretRef of
                        None \<Rightarrow> Inr cfg
                      | Some name \<Rightarrow>
                          (case resolveSecretRefFields rd namespace name of
                             Inl e \<Rightarrow> Inl (''resolving secretRef '' @ quoted name @ '': '' @ e)
                           | Inr flds \<Rightarrow> Inr (gcopy cfg flds))) of
                  Inl e \<Rightarrow> Inl e
                | Inr cfg \<Rightarrow>
                    (case resolve_fields rd namespace secrets cfg of
                       Inl e \<Rightarrow> Inl e
                     | Inr cfg \<Rightarrow> Inr (caCert, cfg)))))"

section \<open>Clients that trust a CA bundle\<close>

text \<open>The outside of the dashboard's clients: SHA-256 (in hex), PEM parsing, addresses.\<close>

record client_lib =
  cl_net :: net_lib
  cl_x509 :: x509_lib
  cl_sha256 :: "string \<Rightarrow> string"

text \<open>The process-wide client cache, and the keys the running cycle resolved.\<close>

record ca_state =
  ca_clients :: "http_client gomap"
  ca_keys_used :: "unit gomap"

definition caCacheKey :: "client_lib \<Rightarrow> string \<Rightarrow> string" where
  "caCacheKey lib caPEM = cl_sha256 lib caPEM"

definition caClient :: "client_lib \<Rightarrow> http_client \<Rightarrow> string \<Rightarrow> ca_state \<Rightarrow> (string + http_client) \<times> ca_state" where
  "caClient lib base caPEM st =
     (let key = caCacheKey lib caPEM
      in case gget (ca_clients st) key of
           Some c \<Rightarrow> (Inr c, st)
         | None \<Rightarrow>
             (case newGuardedTransportWithCA (cl_net lib) (cl_x509 lib) caPEM of
                Inl e \<Rightarrow> (Inl e, st)
              | Inr transport \<Rightarrow>
                  let c = \<lparr>hc_timeout = hc_timeout base, hc_transport = transport\<rparr>
                  in (Inr c, st\<lparr>ca_clients := gput key c (ca_clients st)\<rparr>)))"

definition markCAKeyUsed :: "string \<Rightarrow> ca_state \<Rightarrow> ca_state" where
  "markCAKeyUsed key st = st\<lparr>ca_keys_used := gput key () (ca_keys_used st)\<rparr>"

definition httpClientForCACert :: "client_lib \<Rightarrow> reader \<Rightarrow> string \<Rightarrow> secret_value_source option \<Rightarrow>
    http_client \<Rightarrow> ca_state \<Rightarrow> (string + http_client) \<times> ca_state" where
  "httpClientForCACert lib rd namespace caCert base st =
     (case caCert of
        None \<Rightarrow> (Inr base, st)
      | Some src \<Rightarrow>
          (case resolveSecret rd namespace src of
             Inl e \<Rightarrow> (Inl (''resolving caCert: '' @ e), st)
           | Inr caPEM \<Rightarrow> caClient lib base caPEM (markCAKeyUsed (caCacheKey lib caPEM) st)))"

definition pruneCAClientCache :: "ca_state \<Rightarrow> ca_state" where
  "pruneCAClientCache st =
     st\<lparr>ca_clients := gprune (\<lambda>k. gget (ca_keys_used st) k \<noteq> None) (ca_clients st)\<rparr>"

section \<open>Lemmas\<close>

lemma resolve_fields_Inr:
  assumes "gwf m" "resolve_fields rd namespace m cfg = Inr cfg'"
  shows "gget cfg' k = (case gget m k of
           Some src \<Rightarrow> Some (projr (resolveSecret rd namespace src)) | None \<Rightarrow> gget cfg k) \<and>
         (\<forall>src. gget m k = Some src \<longrightarrow> \<not> isl (resolveSecret rd namespace src))"
  using assms
proof (induction m arbitrary: cfg)
  case (Cons kv m)
  obtain f src where kv: "kv = (f, src)" by fastforce
  with Cons.prems obtain v where v: "resolveSecret rd namespace src = Inr v"
    and rest: "resolve_fields rd namespace m (gput f v cfg) = Inr cfg'"
    by (auto split: sum.splits)
  have wf: "gwf m" and f: "gget m f = None"
    using Cons.prems(1) kv by (auto simp: gwf_def gget_def map_of_eq_None_iff)
  have "gget (kv # m) k = (if k = f then Some src else gget m k)" by (simp add: kv gget_def)
  with Cons.IH [OF wf rest] v f show ?case by (auto simp: gm.get_put split: option.splits)
qed simp

text \<open>Every source must resolve; the order of the map decides only which error is reported.\<close>

lemma resolve_fields_Inl:
  "isl (resolve_fields rd namespace m cfg) \<longleftrightarrow> (\<exists>kv \<in> set m. isl (resolveSecret rd namespace (snd kv)))"
  by (induction m arbitrary: cfg) (force split: sum.splits)+

lemma gget_copy_nil: "gwf m \<Longrightarrow> gget (gcopy [] m) = gget m"
  by (auto simp: gget_gcopy fun_eq_iff split: option.split)

lemma gwf_copy_nil [simp]: "gwf (gcopy [] m)"
  by (simp add: gwf_gcopy)

lemma merged_defaults:
  assumes "gwf (case gget defaults t of None \<Rightarrow> [] | Some e \<Rightarrow> wd_secrets e)"
  shows "gwf (fst (mergeWidgetSecrets t [] ca defaults)) \<and>
    gget (fst (mergeWidgetSecrets t [] ca defaults)) =
      gget (case gget defaults t of None \<Rightarrow> [] | Some e \<Rightarrow> wd_secrets e)"
  using assms by (auto simp: mergeWidgetSecrets_def gwf_gcopy gget_gcopy gget_copy_nil fun_eq_iff
      split: option.splits)

section \<open>The cache of CA clients\<close>

text \<open>Every cached client trusts a bundle with the hash it is filed under.\<close>

definition ca_coherent :: "client_lib \<Rightarrow> ca_state \<Rightarrow> bool" where
  "ca_coherent lib st \<longleftrightarrow> gwf (ca_clients st) \<and>
     (\<forall>k c. gget (ca_clients st) k = Some c \<longrightarrow>
        (\<exists>pem. k = caCacheKey lib pem \<and>
           newGuardedTransportWithCA (cl_net lib) (cl_x509 lib) pem = Inr (hc_transport c)))"

lemma ca_coherent_init: "ca_coherent lib \<lparr>ca_clients = [], ca_keys_used = u\<rparr>"
  by (simp add: ca_coherent_def)

lemma ca_coherent_mark: "ca_coherent lib (markCAKeyUsed k st) = ca_coherent lib st"
  by (simp add: ca_coherent_def markCAKeyUsed_def)

lemma ca_coherent_prune: "ca_coherent lib st \<Longrightarrow> ca_coherent lib (pruneCAClientCache st)"
  by (auto simp: ca_coherent_def pruneCAClientCache_def gm.wf_prune gm.get_prune split: if_splits)

lemma caClient_coherent:
  assumes "ca_coherent lib st" "caClient lib base pem st = (r, st')"
  shows "ca_coherent lib st' \<and> ca_keys_used st' = ca_keys_used st \<and>
    (\<forall>c. r = Inr c \<longrightarrow> (\<exists>pem'. caCacheKey lib pem' = caCacheKey lib pem \<and>
       newGuardedTransportWithCA (cl_net lib) (cl_x509 lib) pem' = Inr (hc_transport c)))"
proof (cases "gget (ca_clients st) (caCacheKey lib pem)")
  case (Some c)
  with assms have r: "r = Inr c" "st' = st" by (simp_all add: caClient_def Let_def)
  from assms(1) Some obtain pem' where "caCacheKey lib pem' = caCacheKey lib pem"
    "newGuardedTransportWithCA (cl_net lib) (cl_x509 lib) pem' = Inr (hc_transport c)"
    unfolding ca_coherent_def by metis
  with r assms(1) show ?thesis by auto
next
  case None
  show ?thesis
  proof (cases "newGuardedTransportWithCA (cl_net lib) (cl_x509 lib) pem")
    case (Inl e)
    with None assms show ?thesis by (auto simp: caClient_def Let_def)
  next
    case (Inr t)
    with None assms(2) have "r = Inr \<lparr>hc_timeout = hc_timeout base, hc_transport = t\<rparr>"
      "st' = st\<lparr>ca_clients := gput (caCacheKey lib pem)
         \<lparr>hc_timeout = hc_timeout base, hc_transport = t\<rparr> (ca_clients st)\<rparr>"
      by (auto simp: caClient_def Let_def)
    with Inr assms(1) show ?thesis
      by (auto simp: ca_coherent_def gm.wf_put gm.get_put split: if_splits)
  qed
qed

lemma httpClientForCACert_coherent:
  assumes "ca_coherent lib st" "httpClientForCACert lib rd namespace caCert base st = (r, st')"
  shows "ca_coherent lib st'"
proof (cases caCert)
  case None
  with assms show ?thesis by (simp add: httpClientForCACert_def)
next
  case (Some src)
  show ?thesis
  proof (cases "resolveSecret rd namespace src")
    case (Inl e)
    with Some assms show ?thesis by (simp add: httpClientForCACert_def)
  next
    case (Inr pem)
    with Some assms(2) have "caClient lib base pem (markCAKeyUsed (caCacheKey lib pem) st) = (r, st')"
      by (simp add: httpClientForCACert_def)
    with assms(1) show ?thesis
      using caClient_coherent [of lib "markCAKeyUsed (caCacheKey lib pem) st"] by (simp add: ca_coherent_mark)
  qed
qed

text \<open>The client for a CA certificate trusts a bundle with that certificate's hash, whatever was cached.\<close>

lemma ca_client_trusts:
  assumes "ca_coherent lib st"
    and "httpClientForCACert lib rd namespace (Some src) base st = (Inr c, st')"
  shows "\<exists>pem pem'. resolveSecret rd namespace src = Inr pem \<and> cl_sha256 lib pem' = cl_sha256 lib pem \<and>
    xl_parse_pem (cl_x509 lib) pem' \<noteq> [] \<and>
    tr_root_cas (hc_transport c) = Some ((case xl_system_pool (cl_x509 lib) of None \<Rightarrow> [] | Some p \<Rightarrow> p) @
      xl_parse_pem (cl_x509 lib) pem') \<and>
    \<not> tr_insecure (hc_transport c) \<and> guarded (cl_net lib) (hc_transport c) \<and> ca_coherent lib st'"
proof -
  obtain pem where pem: "resolveSecret rd namespace src = Inr pem"
    and c: "caClient lib base pem (markCAKeyUsed (caCacheKey lib pem) st) = (Inr c, st')"
    using assms(2) by (auto simp: httpClientForCACert_def split: sum.splits)
  from assms(1) have "ca_coherent lib (markCAKeyUsed (caCacheKey lib pem) st)"
    by (simp add: ca_coherent_mark)
  from caClient_coherent [OF this c] obtain pem'
    where "caCacheKey lib pem' = caCacheKey lib pem" "ca_coherent lib st'"
      and t: "newGuardedTransportWithCA (cl_net lib) (cl_x509 lib) pem' = Inr (hc_transport c)" by blast
  moreover from t have certs: "xl_parse_pem (cl_x509 lib) pem' \<noteq> []"
    by (auto simp: newGuardedTransportWithCA_def Let_def)
  moreover have "hc_transport c = projr (newGuardedTransportWithCA (cl_net lib) (cl_x509 lib) pem')"
    by (simp add: t)
  with certs have "\<not> tr_insecure (hc_transport c)" "tr_root_cas (hc_transport c) = Some ((case xl_system_pool (cl_x509 lib) of None \<Rightarrow> [] | Some p \<Rightarrow> p) @
      xl_parse_pem (cl_x509 lib) pem')"
    by (simp_all add: newGuardedTransportWithCA_def newGuardedTransport_def default_transport_def Let_def)
  ultimately show ?thesis
    using pem transports_guarded(3) [OF t] by (auto simp: caCacheKey_def)
qed

section \<open>Properties\<close>

text \<open>
  C13. The precedence of a widget's secrets, for every field and whatever order Go iterates its maps
  in: the widget's own entry, else the key of the Secret named by secretRef, else the Dashboard's
  default for the type, else absent; and a field is only ever left out by being in none of them.
\<close>

theorem secrets_precedence:
  assumes "resolveWidgetSecrets rd namespace t secrets secretRef ca defaults [] = Inr (ca', cfg)"
    and "gwf secrets" "gwf (case gget defaults t of None \<Rightarrow> [] | Some e \<Rightarrow> wd_secrets e)"
    and "\<And>n dat. rd_get_secret rd namespace n = Found dat \<Longrightarrow> gwf dat"
  shows "gget cfg k =
    (case gget secrets k of Some src \<Rightarrow> Some (projr (resolveSecret rd namespace src))
     | None \<Rightarrow>
        (case Option.bind secretRef (\<lambda>n. case rd_get_secret rd namespace n of Found dat \<Rightarrow> gget dat k | _ \<Rightarrow> None) of
           Some v \<Rightarrow> Some v
         | None \<Rightarrow> map_option (\<lambda>src. projr (resolveSecret rd namespace src))
             (gget (case gget defaults t of None \<Rightarrow> [] | Some e \<Rightarrow> wd_secrets e) k)))"
proof -
  obtain d c0 where m: "mergeWidgetSecrets t [] ca defaults = (d, c0)" by fastforce
  with merged_defaults [OF assms(3), of ca]
  have d: "gwf d" "gget d = gget (case gget defaults t of None \<Rightarrow> [] | Some e \<Rightarrow> wd_secrets e)" by simp_all
  obtain c1 c2 where c1: "resolve_fields rd namespace d [] = Inr c1"
    and c2: "(case secretRef of None \<Rightarrow> Inr c1
        | Some name \<Rightarrow> (case resolveSecretRefFields rd namespace name of
             Inl e \<Rightarrow> Inl (''resolving secretRef '' @ quoted name @ '': '' @ e)
           | Inr flds \<Rightarrow> Inr (gcopy c1 flds))) = Inr c2"
    and c3: "resolve_fields rd namespace secrets c2 = Inr cfg"
    using assms(1) m by (auto simp: resolveWidgetSecrets_def split: sum.splits)
  have "gget c1 k = map_option (\<lambda>src. projr (resolveSecret rd namespace src)) (gget d k)"
    using resolve_fields_Inr [OF d(1) c1] by (auto split: option.splits)
  moreover have "gget c2 k =
      (case Option.bind secretRef (\<lambda>n. case rd_get_secret rd namespace n of Found dat \<Rightarrow> gget dat k | _ \<Rightarrow> None) of
         Some v \<Rightarrow> Some v | None \<Rightarrow> gget c1 k)"
    using c2 assms(4) by (auto simp: resolveSecretRefFields_def gget_gcopy gget_copy_nil
        split: option.splits sum.splits get_result.splits)
  ultimately show ?thesis
    using resolve_fields_Inr [OF assms(2) c3] d(2) by (auto split: option.splits)
qed

definition ex_value :: "string \<Rightarrow> secret_value_source" where
  "ex_value v = \<lparr>sv_value = Some v, sv_key_ref = None\<rparr>"

definition ex_defaults :: "widget_defaults_entry gomap" where
  "ex_defaults = [(''sonarr'', \<lparr>wd_secrets = [(''user'', ex_value ''d''), (''key'', ex_value ''d'')], wd_ca_cert = None\<rparr>)]"

definition ex_secret_reader :: reader where
  "ex_secret_reader = ex_reader (ex_dashboard ''web'' ''home'') [] [] [] [(''s'', [(''key'', ''r'')])]"

theorem secrets_precedence_witness:
  "gget [(''user'', ''d''), (''key'', ''r''), (''url'', ''w'')] ''key'' =
    (case gget [(''url'', ex_value ''w'')] ''key'' of
       Some src \<Rightarrow> Some (projr (resolveSecret ex_secret_reader ''web'' src))
     | None \<Rightarrow>
        (case Option.bind (Some ''s'') (\<lambda>n. case rd_get_secret ex_secret_reader ''web'' n of
               Found dat \<Rightarrow> gget dat ''key'' | _ \<Rightarrow> None) of
           Some v \<Rightarrow> Some v
         | None \<Rightarrow> map_option (\<lambda>src. projr (resolveSecret ex_secret_reader ''web'' src))
             (gget (case gget ex_defaults ''sonarr'' of None \<Rightarrow> [] | Some e \<Rightarrow> wd_secrets e) ''key'')))"
  by (rule secrets_precedence [where ca = None and ca' = None])
     (auto simp: ex_defaults_def ex_secret_reader_def ex_reader_def ex_value_def gwf_def gget_def gput_def
       gcopy_def resolveWidgetSecrets_def mergeWidgetSecrets_def resolveSecret_def resolveSecretRefFields_def
       split: if_splits option.splits)

definition ex_client_lib :: client_lib where
  "ex_client_lib = \<lparr>cl_net = ex_net, cl_x509 = \<lparr>xl_system_pool = None, xl_parse_pem = (\<lambda>s. [s])\<rparr>,
     cl_sha256 = (\<lambda>s. s)\<rparr>"

definition ex_ca_state :: ca_state where
  "ex_ca_state = \<lparr>ca_clients = [], ca_keys_used = []\<rparr>"

definition ex_client :: http_client where
  "ex_client = newGuardedHTTPClient ex_net 10"

end
