(* ===== verification/Monitor.thy ===== *)
theory Monitor
  imports Render Caches Secrets
begin

text \<open>
  The monitors of a service entry: the HTTP probe of \<^verbatim>\<open>internal/dashboard/monitor.go\<close>, and
  \<^verbatim>\<open>monitor\<close>, \<^verbatim>\<open>probePodMonitor\<close>, \<^verbatim>\<open>podStatus\<close>, \<^verbatim>\<open>resolveBaseURL\<close>, \<^verbatim>\<open>lookupAutoService\<close> and the
  metric bookkeeping of \<^verbatim>\<open>internal/dashboard/poller.go\<close>.  Proved: what the statuses mean; that a
  monitor reads only its own namespace and the namespaces the Dashboard allows; that base URLs
  resolve as the API documents; and that the exported series are those of the last cycle.
\<close>

section \<open>The poller and what it talks to\<close>

text \<open>
  HTTP upstreams: the error of building a request, what a request returns (a transport error or a
  status code), and the rounded time a probe took.
\<close>

record upstream =
  up_build :: "string \<Rightarrow> string \<Rightarrow> string option"
  up_do :: "http_client \<Rightarrow> string \<Rightarrow> string \<Rightarrow> string + int"
  up_latency :: "string \<Rightarrow> string"

text \<open>
  The fields of \<^verbatim>\<open>Poller\<close> that a cycle does not change; intervals in nanoseconds.
  \<open>po_selector_error\<close> is \<^verbatim>\<open>metav1.LabelSelectorAsSelector\<close>'s error, if any.
\<close>

record poller =
  po_reader :: reader
  po_secret_reader :: reader
  po_kube_reader :: reader
  po_namespace :: string
  po_dashboard_name :: string
  po_interval :: int
  po_http_client :: http_client
  po_gateway_api :: bool
  po_sample_data :: bool
  po_preview :: bool
  po_selector_error :: "label_selector \<Rightarrow> string option"
  po_upstream :: upstream
  po_lib :: client_lib

definition statusUp :: string where "statusUp = ''Up''"
definition statusDown :: string where "statusDown = ''Down''"
definition monitorSourceHTTP :: string where "monitorSourceHTTP = ''http''"
definition monitorSourcePods :: string where "monitorSourcePods = ''pods''"
definition sampleMonitorLatency :: string where "sampleMonitorLatency = ''12 ms''"
definition sampleMonitorReadyText :: string where "sampleMonitorReadyText = ''2/2 ready''"
definition podMonitorLabel :: string where "podMonitorLabel = ''app.kubernetes.io/name''"
definition noMatchedPodsReadyText :: string where "noMatchedPodsReadyText = ''0/0 ready''"
definition defaultClusterDomain :: string where "defaultClusterDomain = ''cluster.local''"
definition autoInternalURLPortName :: string where "autoInternalURLPortName = ''http''"

section \<open>The HTTP probe\<close>

definition doProbe :: "upstream \<Rightarrow> http_client \<Rightarrow> string \<Rightarrow> string \<Rightarrow> string + int" where
  "doProbe u c meth url =
     (case up_build u meth url of
        Some e \<Rightarrow> Inl (''building '' @ meth @ '' request: '' @ e)
      | None \<Rightarrow> up_do u c meth url)"

text \<open>An error, or whether the endpoint is up and the status it answered with.\<close>

definition probeHTTP :: "upstream \<Rightarrow> http_client \<Rightarrow> string \<Rightarrow> string + (bool \<times> int)" where
  "probeHTTP u c url =
     (case doProbe u c ''HEAD'' url of
        Inl e \<Rightarrow> Inl e
      | Inr code \<Rightarrow>
          (case (if code = 405 \<or> code = 501 then doProbe u c ''GET'' url else Inr code) of
             Inl e \<Rightarrow> Inl e
           | Inr code \<Rightarrow> Inr (200 \<le> code \<and> code < 400, code)))"

definition monitorResult :: "upstream \<Rightarrow> http_client \<Rightarrow> string \<Rightarrow> string gomap \<Rightarrow> (string \<times> string) \<times> string gomap" where
  "monitorResult u c url seen =
     (case probeHTTP u c url of
        Inl e \<Rightarrow> ((statusDown, []), snd (logPollFailure url (Some e) ''monitor probe failed'' seen))
      | Inr (up, _) \<Rightarrow>
          if \<not> up
          then ((statusDown, []),
                snd (logPollFailure url None ''monitor probe returned a status treated as down'' seen))
          else ((statusUp, up_latency u url), clearPollFailure url seen))"

definition probeURL :: "poller \<Rightarrow> string \<Rightarrow> string gomap \<Rightarrow> (string \<times> string) \<times> string gomap" where
  "probeURL p url seen =
     (if po_sample_data p then ((statusUp, sampleMonitorLatency), seen)
      else monitorResult (po_upstream p) (po_http_client p) url seen)"

section \<open>The pod monitor\<close>

definition podMonitorSelector :: "service_entry \<Rightarrow> label_selector option" where
  "podMonitorSelector se =
     (case se_pod_selector se of
        Some s \<Rightarrow> Some s
      | None \<Rightarrow>
          (case se_app se of
             Some app \<Rightarrow> Some \<lparr>ls_match_labels = [(podMonitorLabel, app)], ls_match_expressions = []\<rparr>
           | None \<Rightarrow> None))"

fun podReady :: "pod \<Rightarrow> bool" where
  "podReady [] = False"
| "podReady (c # cs) = (if pc_type c = ''Ready'' then pc_status c = ''True'' else podReady cs)"

definition podStatus :: "poller \<Rightarrow> reader \<Rightarrow> string \<Rightarrow> label_selector \<Rightarrow> string \<times> string" where
  "podStatus p rd namespace selector =
     (case po_selector_error p selector of
        Some _ \<Rightarrow> (statusDown, [])
      | None \<Rightarrow>
          (case rd_list_pods rd namespace selector of
             Inl _ \<Rightarrow> (statusDown, [])
           | Inr pods \<Rightarrow>
               let ready = length (filter podReady pods);
                   status = (if pods = [] then statusDown
                             else if ready = length pods then statusUp
                             else if ready > 0 then statusPartial
                             else statusDown)
               in (status, fmt_nat ready @ ''/'' @ fmt_nat (length pods) @ '' ready'')))"

text \<open>The namespace a pod monitor or an automatic URL looks in.\<close>

definition monitor_namespace :: "string \<Rightarrow> service_entry \<Rightarrow> string" where
  "monitor_namespace namespace se =
     (case se_namespace se of Some n \<Rightarrow> if n \<noteq> [] then n else namespace | None \<Rightarrow> namespace)"

definition probePodMonitor :: "poller \<Rightarrow> string \<Rightarrow> service_entry \<Rightarrow> label_selector \<Rightarrow> string list \<Rightarrow>
    string \<times> string \<times> string" where
  "probePodMonitor p namespace se selector allowed =
     (if po_sample_data p then (statusUp, sampleMonitorReadyText, [])
      else
        let podNamespace = monitor_namespace namespace se in
        if podNamespace \<noteq> namespace \<and> podNamespace \<notin> set allowed
        then (statusDown, noMatchedPodsReadyText,
              ''pod monitor namespace '' @ quoted podNamespace @
              '' is not allowed: add it to this Dashboard'' @ [CHR 0x27] @ ''s spec.monitorNamespaces'')
        else
          case podStatus p (if podNamespace \<noteq> namespace then po_kube_reader p else po_reader p)
                 podNamespace selector of
            (status, text) \<Rightarrow> (status, text, []))"

section \<open>Base URLs\<close>

definition autoInternalURLPort :: "kube_service \<Rightarrow> int" where
  "autoInternalURLPort svc =
     (case ksvc_ports svc of
        [] \<Rightarrow> 0
      | p # _ \<Rightarrow>
          (case find (\<lambda>q. port_name q = autoInternalURLPortName) (ksvc_ports svc) of
             Some q \<Rightarrow> port_number q
           | None \<Rightarrow> port_number p))"

definition lookupAutoService :: "reader \<Rightarrow> string \<Rightarrow> string \<Rightarrow> string + kube_service" where
  "lookupAutoService rd namespace app =
     (case rd_get_service rd namespace app of
        Found svc \<Rightarrow> Inr svc
      | GetError e \<Rightarrow> Inl (''internalUrl: auto failed to look up Service '' @ quoted app @
                          '' in namespace '' @ quoted namespace @ '': '' @ e)
      | NotFound \<Rightarrow>
          (case rd_list_services rd namespace (podMonitorLabel, app) of
             Inl e \<Rightarrow> Inl (''internalUrl: auto failed to list Services labeled '' @ podMonitorLabel @ ''='' @
                           quoted app @ '' in namespace '' @ quoted namespace @ '': '' @ e)
           | Inr [svc] \<Rightarrow> Inr svc
           | Inr [] \<Rightarrow> Inl (''internalUrl: auto found no Service named '' @ quoted app @ '' or labeled '' @
                           podMonitorLabel @ ''='' @ quoted app @ '' in namespace '' @ quoted namespace)
           | Inr svcs \<Rightarrow> Inl (''internalUrl: auto found multiple Services labeled '' @ podMonitorLabel @
                           ''='' @ quoted app @ '' in namespace '' @ quoted namespace @ '': '' @
                           join '', '' (map ksvc_name svcs))))"

text \<open>The URL, or the error the card shows.\<close>

definition resolveAutoInternalURL :: "poller \<Rightarrow> string \<Rightarrow> service_entry \<Rightarrow> string list \<Rightarrow> string \<Rightarrow> string + string" where
  "resolveAutoInternalURL p namespace se allowed clusterDomain =
     (case se_app se of
        None \<Rightarrow> Inl ''internalUrl: auto requires app to be set''
      | Some app \<Rightarrow>
          if app = [] then Inl ''internalUrl: auto requires app to be set''
          else
            let svcNamespace = monitor_namespace namespace se in
            if svcNamespace \<noteq> namespace \<and> svcNamespace \<notin> set allowed
            then Inl (''internalUrl: auto namespace '' @ quoted svcNamespace @
                      '' is not allowed: add it to this Dashboard'' @ [CHR 0x27] @ ''s spec.monitorNamespaces'')
            else
              case lookupAutoService (if svcNamespace \<noteq> namespace then po_kube_reader p else po_reader p)
                     svcNamespace app of
                Inl e \<Rightarrow> Inl e
              | Inr svc \<Rightarrow>
                  let port = autoInternalURLPort svc in
                  if port = 0
                  then Inl (''internalUrl: auto found Service '' @ quoted (ksvc_name svc) @ '' in namespace '' @
                            quoted svcNamespace @ '' but it has no ports'')
                  else Inr (''http://'' @ ksvc_name svc @ ''.'' @ svcNamespace @ ''.svc.'' @
                            or_str clusterDomain defaultClusterDomain @ '':'' @ fmt_int port))"

text \<open>URL and card error, one of them empty.\<close>

definition resolveBaseURL :: "poller \<Rightarrow> string \<Rightarrow> service_entry \<Rightarrow> string list \<Rightarrow> string \<Rightarrow> string \<times> string" where
  "resolveBaseURL p namespace se allowed clusterDomain =
     (let href = set_opt (se_href se) [] in
      case se_internal_url se of
        Some url \<Rightarrow>
          if url \<noteq> [] \<and> \<not> po_preview p
          then if url = InternalURLAuto
               then (case resolveAutoInternalURL p namespace se allowed clusterDomain of
                       Inl e \<Rightarrow> ([], e) | Inr u \<Rightarrow> (u, []))
               else (url, [])
          else (href, [])
      | None \<Rightarrow> (href, []))"

section \<open>Metrics\<close>

text \<open>
  The monitorUp gauge's series, and the label keys recorded in the previous and in the running cycle.
\<close>

record metrics =
  mt_gauge :: "((string \<times> string) \<times> bool) list"
  mt_labels :: "unit gomap"
  mt_current :: "unit gomap"

definition monitorLabelKeySep :: char where "monitorLabelKeySep = CHR 0x1F"

definition monitorLabelKey :: "string \<Rightarrow> string \<Rightarrow> string" where
  "monitorLabelKey label source = label @ [monitorLabelKeySep] @ source"

definition splitMonitorLabelKey :: "string \<Rightarrow> string \<times> string" where
  "splitMonitorLabelKey key =
     (case cut_char monitorLabelKeySep key of (label, rest) \<Rightarrow> (label, set_opt rest []))"

text \<open>\<^verbatim>\<open>monitorUp.WithLabelValues(label, source).Set(up)\<close> and \<^verbatim>\<open>record(label, source)\<close>.\<close>

definition record_series :: "string \<Rightarrow> string \<Rightarrow> bool \<Rightarrow> metrics \<Rightarrow> metrics" where
  "record_series label source up mt =
     mt\<lparr>mt_gauge := AList.update (label, source) up (mt_gauge mt),
        mt_current := gput (monitorLabelKey label source) () (mt_current mt)\<rparr>"

definition pruneMonitorMetrics :: "metrics \<Rightarrow> metrics" where
  "pruneMonitorMetrics mt =
     mt\<lparr>mt_gauge := foldl (\<lambda>g (key, _). if gget (mt_current mt) key = None
                              then AList.delete (splitMonitorLabelKey key) g else g)
                     (mt_gauge mt) (mt_labels mt),
        mt_labels := mt_current mt\<rparr>"

section \<open>\<^verbatim>\<open>monitor\<close>\<close>

record monitorProbeResult =
  mp_status :: string
  mp_status_style :: string
  mp_latency :: string
  mp_pod_status :: string
  mp_pod_ready_text :: string
  mp_base_url :: string
  mp_err :: string

text \<open>The HTTP half: status, latency, and whether they are made up (preview mode).\<close>

definition monitor_http :: "poller \<Rightarrow> service_entry \<Rightarrow> string \<Rightarrow> string gomap \<Rightarrow>
    (string \<times> string \<times> bool) \<times> string gomap" where
  "monitor_http p se baseURL seen =
     (let url = MonitorURLWithBase se baseURL in
      if url \<noteq> []
      then (case probeURL p url seen of ((status, latency), seen) \<Rightarrow> ((status, latency, False), seen))
      else if po_preview p \<and> \<not> po_sample_data p \<and> set_opt (se_monitor se) [] \<noteq> []
      then ((statusUp, sampleMonitorLatency, True), seen)
      else (([], [], False), seen))"

text \<open>The pod half: status, text, error, and whether they are made up.\<close>

definition monitor_pods :: "poller \<Rightarrow> string \<Rightarrow> service_entry \<Rightarrow> string list \<Rightarrow> string \<times> string \<times> string \<times> bool" where
  "monitor_pods p namespace se allowed =
     (case podMonitorSelector se of
        None \<Rightarrow> ([], [], [], False)
      | Some selector \<Rightarrow>
          if po_preview p \<and> \<not> po_sample_data p then (statusUp, sampleMonitorReadyText, [], True)
          else case probePodMonitor p namespace se selector allowed of
                 (status, text, err) \<Rightarrow> (status, text, err, False))"

definition monitor :: "poller \<Rightarrow> string \<Rightarrow> string \<Rightarrow> service_entry \<Rightarrow> string \<Rightarrow> string list \<Rightarrow> string \<Rightarrow>
    string gomap \<times> metrics \<Rightarrow> monitorProbeResult \<times> string gomap \<times> metrics" where
  "monitor p namespace crName se defaultStatusStyle allowed clusterDomain st =
     (case st of (seen, mt) \<Rightarrow>
      case resolveBaseURL p namespace se allowed clusterDomain of (baseURL, err) \<Rightarrow>
      case monitor_http p se baseURL seen of ((status, latency, httpFabricated), seen) \<Rightarrow>
      case monitor_pods p namespace se allowed of (podSt, podText, podErr, podFabricated) \<Rightarrow>
      let result = \<lparr>mp_status = status, mp_status_style = [], mp_latency = latency,
                    mp_pod_status = podSt, mp_pod_ready_text = podText, mp_base_url = baseURL,
                    mp_err = or_str podErr err\<rparr>
      in if status = [] \<and> podSt = [] then (result, seen, mt)
         else
           let result = result\<lparr>mp_status_style := set_opt (se_status_style se) defaultStatusStyle\<rparr> in
           if po_sample_data p then (result, seen, mt)
           else
             let label = namespace @ ''/'' @ crName @ ''/'' @ se_name se;
                 mt = (if status \<noteq> [] \<and> \<not> httpFabricated
                       then record_series label monitorSourceHTTP (status = statusUp) mt else mt);
                 mt = (if podSt \<noteq> [] \<and> \<not> podFabricated
                       then record_series label monitorSourcePods (podSt = statusUp \<or> podSt = statusPartial) mt
                       else mt)
             in (result, seen, mt))"

section \<open>Lemmas\<close>

text \<open>The result does not depend on the failure log and the metrics.\<close>

definition probe_outcome :: "poller \<Rightarrow> string \<Rightarrow> string \<times> string" where
  "probe_outcome p url = fst (probeURL p url [])"

lemma probeURL_seen: "fst (probeURL p url seen) = probe_outcome p url"
  by (auto simp: probe_outcome_def probeURL_def monitorResult_def split: sum.splits prod.splits)

lemma monitor_http_seen: "fst (monitor_http p se base seen) = fst (monitor_http p se base [])"
  using probeURL_seen [of p _ seen] probeURL_seen [of p _ "[]"]
  by (auto simp: monitor_http_def Let_def case_prod_unfold)

lemma monitor_state_free:
  "fst (monitor p ns cr se style allowed cd st) = fst (monitor p ns cr se style allowed cd st')"
proof -
  obtain seen mt seen' mt' where st: "st = (seen, mt)" "st' = (seen', mt')" by fastforce
  obtain x y where "monitor_http p se (fst (resolveBaseURL p ns se allowed cd)) seen = x"
    "monitor_http p se (fst (resolveBaseURL p ns se allowed cd)) seen' = y" by blast
  moreover from this have "fst x = fst y" using monitor_http_seen by metis
  ultimately show ?thesis
    by (cases x; cases y) (simp add: monitor_def st Let_def case_prod_unfold)
qed

lemma probeHTTP_up:
  "probeHTTP u c url = Inr (up, code) \<Longrightarrow> up \<longleftrightarrow> 200 \<le> code \<and> code < 400"
  by (auto simp: probeHTTP_def split: sum.splits if_splits)

lemma split_monitorLabelKey:
  "monitorLabelKeySep \<notin> set label \<Longrightarrow> splitMonitorLabelKey (monitorLabelKey label source) = (label, source)"
  by (simp add: splitMonitorLabelKey_def monitorLabelKey_def cut_char_append)

lemma monitorLabelKey_inject:
  "monitorLabelKeySep \<notin> set l \<Longrightarrow> monitorLabelKeySep \<notin> set l' \<Longrightarrow>
     monitorLabelKey l s = monitorLabelKey l' s' \<longleftrightarrow> l = l' \<and> s = s'"
  by (metis prod.inject split_monitorLabelKey)

text \<open>Between cycles the exported series are those of the recorded keys.\<close>

definition metrics_inv :: "metrics \<Rightarrow> bool" where
  "metrics_inv mt \<longleftrightarrow>
     (\<forall>l s. map_of (mt_gauge mt) (l, s) \<noteq> None \<longrightarrow>
        monitorLabelKeySep \<notin> set l \<and> monitorLabelKey l s \<in> fst ` set (mt_labels mt)) \<and>
     (\<forall>k \<in> fst ` set (mt_labels mt). \<exists>l s. monitorLabelKeySep \<notin> set l \<and> k = monitorLabelKey l s)"

definition record_all :: "(string \<times> string \<times> bool) list \<Rightarrow> metrics \<Rightarrow> metrics" where
  "record_all ws mt = foldl (\<lambda>mt (l, s, up). record_series l s up mt) mt ws"

definition series :: "(string \<times> string \<times> bool) list \<Rightarrow> string \<times> string \<Rightarrow> bool option" where
  "series ws = map_of (rev (map (\<lambda>(l, s, up). ((l, s), up)) ws))"

lemma record_all_snoc:
  "record_all (ws @ [(l, s, up)]) mt = record_series l s up (record_all ws mt)"
  by (simp add: record_all_def)

lemma series_snoc: "series (ws @ [(l, s, up)]) = (series ws)((l, s) := Some up)"
  by (simp add: series_def)

lemma record_all_gauge:
  "map_of (mt_gauge (record_all ws mt)) x = (case series ws x of Some u \<Rightarrow> Some u | None \<Rightarrow> map_of (mt_gauge mt) x)"
proof (induction ws rule: rev_induct)
  case (snoc w ws)
  obtain l s u where "w = (l, s, u)" by (cases w)
  with snoc show ?case by (simp add: record_all_snoc series_snoc record_series_def update_conv')
qed (simp add: record_all_def series_def)

lemma record_all_labels [simp]: "mt_labels (record_all ws mt) = mt_labels mt"
proof (induction ws rule: rev_induct)
  case (snoc w ws)
  obtain l s u where "w = (l, s, u)" by (cases w)
  with snoc show ?case by (simp add: record_all_snoc record_series_def)
qed (simp add: record_all_def)

lemma record_all_current:
  "fst ` set (mt_current (record_all ws mt)) =
     fst ` set (mt_current mt) \<union> (\<lambda>(l, s, _). monitorLabelKey l s) ` set ws"
proof (induction ws rule: rev_induct)
  case (snoc w ws)
  obtain l s u where "w = (l, s, u)" by (cases w)
  with snoc show ?case by (auto simp: record_all_snoc record_series_def fst_gput)
qed (simp add: record_all_def)

lemma series_None: "series ws (l, s) = None \<longleftrightarrow> (l, s) \<notin> (\<lambda>(l, s, _). (l, s)) ` set ws"
  by (force simp: series_def map_of_eq_None_iff)

lemma prune_gauge:
  "map_of (foldl (\<lambda>g (key, _). if gone key then AList.delete (splitMonitorLabelKey key) g else g) g ks) x =
     (if \<exists>k \<in> fst ` set ks. gone k \<and> splitMonitorLabelKey k = x then None else map_of g x)"
  by (induction ks arbitrary: g) (auto simp: delete_conv' split: if_splits)

section \<open>Properties\<close>

text \<open>
  After every cycle the monitorUp gauge exports exactly the series probed in that cycle, each with
  its last value; a series of an entry, or of one of its two sources, that is gone is deleted, and the
  bookkeeping is ready for the next cycle.
\<close>

theorem gauge_tracks_cycle:
  assumes "metrics_inv mt" "mt_current mt = []"
    and "list_all (\<lambda>(l, _, _). monitorLabelKeySep \<notin> set l) ws"
  shows "map_of (mt_gauge (pruneMonitorMetrics (record_all ws mt))) = series ws \<and>
    metrics_inv (pruneMonitorMetrics (record_all ws mt))"
proof -
  let ?cur = "mt_current (record_all ws mt)" and ?m = "pruneMonitorMetrics (record_all ws mt)"
  have cur: "fst ` set ?cur = (\<lambda>(l, s, _). monitorLabelKey l s) ` set ws"
    by (simp add: record_all_current assms(2))
  have sep: "monitorLabelKeySep \<notin> set l" if "series ws (l, s) \<noteq> None" for l s
    using that assms(3) by (auto simp: series_None list_all_iff)
  have in_cur: "monitorLabelKey l s \<in> fst ` set ?cur \<longleftrightarrow> series ws (l, s) \<noteq> None"
    if "monitorLabelKeySep \<notin> set l" for l s
    using that assms(3) unfolding cur series_None
    by (force simp: list_all_iff image_iff monitorLabelKey_inject)
  have exact: "map_of (mt_gauge ?m) (l, s) = series ws (l, s)" for l s
  proof (cases "series ws (l, s)")
    case None
    have "\<exists>k \<in> fst ` set (mt_labels mt). gget ?cur k = None \<and> splitMonitorLabelKey k = (l, s)"
      if "map_of (mt_gauge mt) (l, s) \<noteq> None"
      using that assms(1) in_cur [of l s] None
      by (intro bexI [of _ "monitorLabelKey l s"])
         (auto simp: metrics_inv_def split_monitorLabelKey gget_None_keys)
    then show ?thesis
      using None by (cases "map_of (mt_gauge mt) (l, s)")
        (simp_all add: pruneMonitorMetrics_def prune_gauge record_all_gauge)
  next
    case (Some u)
    have "\<not> (\<exists>k \<in> fst ` set (mt_labels mt). gget ?cur k = None \<and> splitMonitorLabelKey k = (l, s))"
    proof
      assume "\<exists>k \<in> fst ` set (mt_labels mt). gget ?cur k = None \<and> splitMonitorLabelKey k = (l, s)"
      then obtain k l' s' where "gget ?cur k = None" "splitMonitorLabelKey k = (l, s)"
        "monitorLabelKeySep \<notin> set l'" "k = monitorLabelKey l' s'"
        using assms(1) by (auto simp: metrics_inv_def)
      then show False using in_cur [of l s] Some by (simp add: split_monitorLabelKey gget_None_keys)
    qed
    then show ?thesis
      using Some by (simp add: pruneMonitorMetrics_def prune_gauge record_all_gauge del: bex_simps)
  qed
  moreover have "metrics_inv ?m"
    using sep in_cur assms(3) unfolding metrics_inv_def exact
    by (auto simp: pruneMonitorMetrics_def cur list_all_iff)
  ultimately show ?thesis by (auto simp: fun_eq_iff)
qed

definition ex_metrics :: metrics where
  "ex_metrics = \<lparr>mt_gauge = [((''web/a/old'', ''http''), True)],
     mt_labels = [(monitorLabelKey ''web/a/old'' ''http'', ())], mt_current = []\<rparr>"

theorem gauge_tracks_cycle_witness:
  "map_of (mt_gauge (pruneMonitorMetrics (record_all [(''web/a/new'', ''pods'', False)] ex_metrics))) =
     series [(''web/a/new'', ''pods'', False)] \<and>
   metrics_inv (pruneMonitorMetrics (record_all [(''web/a/new'', ''pods'', False)] ex_metrics))"
proof (rule gauge_tracks_cycle)
  show "metrics_inv ex_metrics"
    by (force simp: metrics_inv_def ex_metrics_def monitorLabelKeySep_def split: if_splits)
qed (simp_all add: ex_metrics_def monitorLabelKeySep_def)

text \<open>
  What a pod monitor's status says, when the pods can be listed: Up means there are pods and all
  are ready, Partial that some are ready and some are not, Down that none is (there may be no pod);
  a pod is ready when its first Ready condition is True.  The text counts them.
\<close>

theorem podStatus_exact:
  assumes "po_selector_error p sel = None" "rd_list_pods rd ns sel = Inr pods"
  shows "(fst (podStatus p rd ns sel) = ''Up'' \<longleftrightarrow> pods \<noteq> [] \<and> list_all podReady pods) \<and>
    (fst (podStatus p rd ns sel) = ''Partial'' \<longleftrightarrow> list_ex podReady pods \<and> \<not> list_all podReady pods) \<and>
    (fst (podStatus p rd ns sel) = ''Down'' \<longleftrightarrow> \<not> list_ex podReady pods) \<and>
    snd (podStatus p rd ns sel) =
      fmt_nat (length (filter podReady pods)) @ ''/'' @ fmt_nat (length pods) @ '' ready''"
proof -
  have "length (filter podReady pods) = length pods \<longleftrightarrow> list_all podReady pods"
    by (metis filter_True length_filter_less list_all_iff nat_neq_iff)
  moreover have "length (filter podReady pods) > 0 \<longleftrightarrow> list_ex podReady pods"
    by (induction pods) auto
  ultimately show ?thesis
    using assms by (cases pods) (simp_all add: podStatus_def Let_def statusUp_def statusPartial_def statusDown_def)
qed

lemma podReady_iff:
  "podReady pod \<longleftrightarrow> (case find (\<lambda>c. pc_type c = ''Ready'') pod of Some c \<Rightarrow> pc_status c = ''True'' | None \<Rightarrow> False)"
  by (induction pod) auto

text \<open>
  What an HTTP monitor's status says: Up means the endpoint answered HEAD, or GET when it answered
  HEAD with 405 or 501, with a status from 200 to 399; anything else is Down, without a latency.
\<close>

theorem monitorResult_exact:
  "fst (monitorResult u c url seen) =
    (if \<exists>code. 200 \<le> code \<and> code < 400 \<and>
        (doProbe u c ''HEAD'' url = Inr code \<or>
         doProbe u c ''HEAD'' url \<in> {Inr 405, Inr 501} \<and> doProbe u c ''GET'' url = Inr code)
     then (''Up'', up_latency u url) else (''Down'', []))"
  by (cases "doProbe u c ''HEAD'' url"; cases "doProbe u c ''GET'' url")
     (auto simp: monitorResult_def probeHTTP_def statusUp_def statusDown_def)

definition ex_reader_pods :: "pod list \<Rightarrow> reader" where
  "ex_reader_pods pods = (ex_reader (ex_dashboard ''web'' ''home'') [] [] [] [])\<lparr>
     rd_list_pods := (\<lambda>ns _. if ns = ''db'' then Inr pods else Inl ''forbidden'')\<rparr>"

definition ex_upstream :: upstream where
  "ex_upstream = \<lparr>up_build = (\<lambda>_ _. None),
     up_do = (\<lambda>_ meth url. if url = ''http://a'' then Inr (if meth = ''HEAD'' then 405 else 204) else Inl ''refused''),
     up_latency = (\<lambda>_. ''3ms'')\<rparr>"

definition ex_poller :: "reader \<Rightarrow> reader \<Rightarrow> poller" where
  "ex_poller rd kube = \<lparr>po_reader = rd, po_secret_reader = rd, po_kube_reader = kube,
     po_namespace = ''web'', po_dashboard_name = ''home'', po_interval = 30 * 10 ^ 9,
     po_http_client = ex_client, po_gateway_api = False, po_sample_data = False, po_preview = False,
     po_selector_error = (\<lambda>_. None), po_upstream = ex_upstream, po_lib = ex_client_lib\<rparr>"

definition ex_ready :: pod where
  "ex_ready = [\<lparr>pc_type = ''Ready'', pc_status = ''True''\<rparr>]"

theorem podStatus_exact_witness:
  "(let r = ex_reader_pods [ex_ready, []]; p = ex_poller r r;
        sel = \<lparr>ls_match_labels = [], ls_match_expressions = []\<rparr> in
    fst (podStatus p r ''db'' sel) = ''Partial'' \<longleftrightarrow>
      list_ex podReady [ex_ready, []] \<and> \<not> list_all podReady [ex_ready, []])"
  unfolding Let_def
  by (rule podStatus_exact [THEN conjunct2, THEN conjunct1]) (simp_all add: ex_poller_def ex_reader_pods_def)

definition same_namespace :: "reader \<Rightarrow> reader \<Rightarrow> string \<Rightarrow> bool" where
  "same_namespace rd rd' ns \<longleftrightarrow> rd_list_pods rd ns = rd_list_pods rd' ns \<and>
     rd_get_service rd ns = rd_get_service rd' ns \<and> rd_list_services rd ns = rd_list_services rd' ns"

text \<open>
  C14. A monitor reads the cluster only where it may: its result depends on nothing but the pods and
  Services of its own namespace, through the cached reader, and of the namespaces the Dashboard
  allows, through the cluster reader.
\<close>

theorem monitor_confined:
  assumes "same_namespace rd (po_reader p) ns"
    and "\<And>n. n \<in> set allowed \<Longrightarrow> same_namespace kube (po_kube_reader p) n"
  shows "monitor (p\<lparr>po_reader := rd, po_kube_reader := kube\<rparr>) ns cr se style allowed cd st =
         monitor p ns cr se style allowed cd st"
proof -
  let ?q = "p\<lparr>po_reader := rd, po_kube_reader := kube\<rparr>"
  let ?n = "monitor_namespace ns se"
  have pick: "same_namespace (if ?n \<noteq> ns then kube else rd) (if ?n \<noteq> ns then po_kube_reader p else po_reader p) ?n"
    if "\<not> (?n \<noteq> ns \<and> ?n \<notin> set allowed)"
    using that assms by auto
  have "podStatus ?q rd1 m sel = podStatus p rd2 m sel" if "same_namespace rd1 rd2 m" for rd1 rd2 m sel
    using that by (simp add: podStatus_def same_namespace_def split: option.split)
  then have pods: "monitor_pods ?q ns se allowed = monitor_pods p ns se allowed"
    using pick by (auto simp: monitor_pods_def probePodMonitor_def Let_def split: option.split)
  have "lookupAutoService rd1 m app = lookupAutoService rd2 m app" if "same_namespace rd1 rd2 m" for rd1 rd2 m app
    using that by (simp add: lookupAutoService_def same_namespace_def split: get_result.split)
  then have "resolveAutoInternalURL ?q ns se allowed cd = resolveAutoInternalURL p ns se allowed cd"
    using pick by (auto simp: resolveAutoInternalURL_def Let_def split: option.split)
  then have url: "resolveBaseURL ?q ns se allowed cd = resolveBaseURL p ns se allowed cd"
    by (simp add: resolveBaseURL_def Let_def split: option.split)
  have "monitor_http ?q se base seen = monitor_http p se base seen" for base seen
    by (simp add: monitor_http_def probeURL_def Let_def)
  with pods url show ?thesis by (simp add: monitor_def Let_def case_prod_unfold)
qed

definition ex_pod_entry :: "string \<Rightarrow> service_entry" where
  "ex_pod_entry n = zero_service_entry\<lparr>se_name := ''db'', se_app := Some ''pg'', se_namespace := Some n,
     se_internal_url := Some ''auto''\<rparr>"

theorem monitor_confined_witness:
  "(let p = ex_poller (ex_reader_pods []) (ex_reader_pods [ex_ready]);
        other = (ex_reader_pods [ex_ready])\<lparr>rd_list_pods := (\<lambda>ns _. if ns = ''db'' then Inr [ex_ready] else Inr [])\<rparr> in
    monitor (p\<lparr>po_reader := ex_reader_pods [], po_kube_reader := other\<rparr>) ''web'' ''c'' (ex_pod_entry ''kube-system'')
      ''dot'' [''db''] ''cluster.local'' ([], ex_metrics) =
    monitor p ''web'' ''c'' (ex_pod_entry ''kube-system'') ''dot'' [''db''] ''cluster.local'' ([], ex_metrics))"
  unfolding Let_def
  by (rule monitor_confined) (auto simp: same_namespace_def ex_poller_def ex_reader_pods_def ex_reader_def)

text \<open>
  The base URL of an entry: outside preview it is what \<^verbatim>\<open>ServiceEntry.BaseURL\<close> says, unless the
  internal URL is the sentinel.  In preview it is always the href.
\<close>

lemma resolveBaseURL_mirrors:
  "resolveBaseURL p ns se allowed cd =
    (if po_preview p then (set_opt (se_href se) [], [])
     else if set_opt (se_internal_url se) [] \<noteq> InternalURLAuto then (BaseURL se, [])
     else case resolveAutoInternalURL p ns se allowed cd of Inl e \<Rightarrow> ([], e) | Inr u \<Rightarrow> (u, []))"
  by (auto simp: resolveBaseURL_def BaseURL_def Let_def InternalURLAuto_def split: option.split)

text \<open>
  An automatic base URL is the in-cluster URL of a real Service of the entry's namespace: the one
  named after the app, else the only one labelled with it, at one of its ports.
\<close>

theorem auto_url_names_service:
  assumes "resolveAutoInternalURL p ns se allowed cd = Inr u"
  shows "\<exists>rd svc port. rd = (if monitor_namespace ns se = ns then po_reader p else po_kube_reader p) \<and>
     (rd_get_service rd (monitor_namespace ns se) (set_opt (se_app se) []) = Found svc \<or>
      rd_list_services rd (monitor_namespace ns se) (podMonitorLabel, set_opt (se_app se) []) = Inr [svc]) \<and>
     port \<in> port_number ` set (ksvc_ports svc) \<and> port \<noteq> 0 \<and>
     u = ''http://'' @ ksvc_name svc @ ''.'' @ monitor_namespace ns se @ ''.svc.'' @
         or_str cd ''cluster.local'' @ '':'' @ fmt_int port"
proof -
  from assms obtain app svc where app: "se_app se = Some app" and
    svc: "lookupAutoService (if monitor_namespace ns se \<noteq> ns then po_kube_reader p else po_reader p)
            (monitor_namespace ns se) app = Inr svc"
    and port: "autoInternalURLPort svc \<noteq> 0"
    and u: "u = ''http://'' @ ksvc_name svc @ ''.'' @ monitor_namespace ns se @ ''.svc.'' @
             or_str cd defaultClusterDomain @ '':'' @ fmt_int (autoInternalURLPort svc)"
    by (auto simp: resolveAutoInternalURL_def Let_def split: option.splits if_splits sum.splits)
  have "autoInternalURLPort svc \<in> port_number ` set (ksvc_ports svc)"
    using port by (auto simp: autoInternalURLPort_def find_Some_iff split: list.splits option.splits)
  moreover have "rd_get_service rd n app = Found svc \<or> rd_list_services rd n (podMonitorLabel, app) = Inr [svc]"
    if "lookupAutoService rd n app = Inr svc" for rd n
    using that by (auto simp: lookupAutoService_def split: get_result.splits sum.splits list.splits)
  ultimately show ?thesis
    using svc port u app
    by (intro exI [of _ "if monitor_namespace ns se = ns then po_reader p else po_kube_reader p"]
        exI [of _ svc] exI [of _ "autoInternalURLPort svc"]) (auto simp: defaultClusterDomain_def split: if_splits)
qed

definition ex_service_reader :: reader where
  "ex_service_reader = (ex_reader (ex_dashboard ''web'' ''home'') [] [] [] [])\<lparr>
     rd_get_service := (\<lambda>ns n. if ns = ''db'' \<and> n = ''pg''
       then Found \<lparr>ksvc_name = ''pg'', ksvc_ports = [\<lparr>port_name = ''m'', port_number = 9\<rparr>,
                    \<lparr>port_name = ''http'', port_number = 80\<rparr>]\<rparr> else NotFound)\<rparr>"

theorem auto_url_names_service_witness:
  "\<exists>rd svc port. rd = ex_service_reader \<and>
     (rd_get_service rd ''db'' ''pg'' = Found svc \<or> rd_list_services rd ''db'' (podMonitorLabel, ''pg'') = Inr [svc]) \<and>
     port \<in> port_number ` set (ksvc_ports svc) \<and> port \<noteq> 0 \<and>
     ''http://pg.db.svc.cluster.local:80'' =
       ''http://'' @ ksvc_name svc @ ''.'' @ ''db'' @ ''.svc.'' @ or_str [] ''cluster.local'' @ '':'' @ fmt_int port"
proof -
  have port80: "fmt_int 80 = ''80''" by code_simp
  let ?p = "ex_poller ex_service_reader ex_service_reader" and ?se = "ex_pod_entry ''db''"
  have "resolveAutoInternalURL ?p ''web'' ?se [''db''] [] = Inr ''http://pg.db.svc.cluster.local:80''"
    by (simp add: resolveAutoInternalURL_def ex_pod_entry_def zero_service_entry_def monitor_namespace_def
        lookupAutoService_def ex_poller_def ex_service_reader_def autoInternalURLPort_def
        autoInternalURLPortName_def or_str_def defaultClusterDomain_def Let_def port80)
  from auto_url_names_service [OF this] show ?thesis
    by (simp add: monitor_namespace_def ex_pod_entry_def zero_service_entry_def ex_poller_def)
qed

end
