(* ===== verification/Poller.thy ===== *)
theory Poller
  imports Icon Highlight Site Discovery Monitor
begin

text \<open>
  What the poller does for one card (\<^verbatim>\<open>internal/dashboard/poller.go\<close>, \<^verbatim>\<open>widget.go\<close>): the polling
  intervals (\<^verbatim>\<open>duePoll\<close>), a widget's poll (\<^verbatim>\<open>pollWidget\<close>), a header widget's
  (\<^verbatim>\<open>pollInfoWidget\<close>), a discovered service's (\<^verbatim>\<open>pollDiscoveredService\<close>), and the site-wide
  defaults.  A registered widget is what the \<^verbatim>\<open>Widget\<close>, \<^verbatim>\<open>ClusterWidget\<close> and \<^verbatim>\<open>Sampler\<close>
  interfaces let the poller see of it.  Proved: widgets with an interval of their own are polled
  that far apart; a skipped poll still shows the fresh monitor result; hidden errors stay hidden;
  and the defaults of the poller are those of the page.
\<close>

section \<open>Widgets\<close>

record WidgetConfig =
  wc_url :: string
  wc_secrets :: "string gomap"
  wc_config :: "json option"

record Widget =
  w_poll :: "http_client \<Rightarrow> WidgetConfig \<Rightarrow> string + Field list"
  w_poll_cluster :: "(reader \<Rightarrow> WidgetConfig \<Rightarrow> string + Field list) option"
  w_sample :: "(WidgetConfig \<Rightarrow> Field list) option"

text \<open>The registry; \<open>Inl\<close> is the panic of a second registration.\<close>

definition Register :: "string \<Rightarrow> Widget \<Rightarrow> Widget gomap \<Rightarrow> string + Widget gomap" where
  "Register widgetType w registry =
     (if gget registry widgetType \<noteq> None
      then Inl (''dashboard: widget type already registered: '' @ widgetType)
      else Inr (gput widgetType w registry))"

definition Lookup :: "Widget gomap \<Rightarrow> string \<Rightarrow> Widget option" where
  "Lookup registry widgetType = gget registry widgetType"

definition RegisteredTypes :: "Widget gomap \<Rightarrow> string list" where
  "RegisteredTypes registry = sort_by str_compare (map fst registry)"

section \<open>State\<close>

text \<open>
  What the closures of a cycle share: the store, the polling times and the warnings given, the CA
  clients, the compiled patterns, the failure log, the monitor metrics, and the poll metrics
  (widget type and success of every poll).
\<close>

record poll_state =
  ps_store :: Store
  ps_last_polled :: "int gomap"
  ps_clamp_warned :: "unit gomap"
  ps_ca :: ca_state
  ps_regex :: regex_cache
  ps_failures :: "string gomap"
  ps_metrics :: metrics
  ps_polls :: "(string \<times> bool) list"

record poll_env =
  pe_poller :: poller
  pe_registry :: "Widget gomap"
  pe_compile :: "string \<Rightarrow> regex option"

definition nanoseconds :: "int \<Rightarrow> int" where
  "nanoseconds s = s * 1000000000"

definition duePoll :: "poller \<Rightarrow> string \<Rightarrow> int option \<Rightarrow> int \<Rightarrow> poll_state \<Rightarrow> bool \<times> poll_state" where
  "duePoll p key overrideSeconds now st =
     (case overrideSeconds of
        None \<Rightarrow> (True, st)
      | Some s \<Rightarrow>
          if s \<le> 0 then (True, st)
          else
            let requested = nanoseconds s;
                interval = max requested (po_interval p);
                st = (if requested < po_interval p \<and> gget (ps_clamp_warned st) key = None
                      then st\<lparr>ps_clamp_warned := gput key () (ps_clamp_warned st)\<rparr> else st);
                due = (case gget (ps_last_polled st) key of
                         Some before \<Rightarrow> \<not> (now - before < interval) | None \<Rightarrow> True)
            in if due then (True, st\<lparr>ps_last_polled := gput key now (ps_last_polled st)\<rparr>)
               else (False, st))"

definition pruneWidgetLastPolled :: "(string \<Rightarrow> bool) \<Rightarrow> poll_state \<Rightarrow> poll_state" where
  "pruneWidgetLastPolled keep st =
     st\<lparr>ps_last_polled := gprune keep (ps_last_polled st),
        ps_clamp_warned := gprune keep (ps_clamp_warned st)\<rparr>"

definition put_card :: "Card \<Rightarrow> poll_state \<Rightarrow> poll_state" where
  "put_card crd st = st\<lparr>ps_store := Store_Set crd (ps_store st)\<rparr>"

definition log_failure :: "string \<Rightarrow> string option \<Rightarrow> string \<Rightarrow> poll_state \<Rightarrow> poll_state" where
  "log_failure key err msg st = st\<lparr>ps_failures := snd (logPollFailure key err msg (ps_failures st))\<rparr>"

text \<open>\<^verbatim>\<open>observePoll\<close>: the counter by type and result.\<close>

definition observePoll :: "string \<Rightarrow> string option \<Rightarrow> poll_state \<Rightarrow> poll_state" where
  "observePoll widgetType err st = st\<lparr>ps_polls := (widgetType, err = None) # ps_polls st\<rparr>"

definition labelStatus :: string where "labelStatus = ''Status''"
definition statusUnreach :: string where "statusUnreach = ''Unreachable''"
definition statusUnauth :: string where "statusUnauth = ''Unauthorized''"

definition metricErr :: "string + Field list \<Rightarrow> string option" where
  "metricErr r =
     (case r of
        Inl e \<Rightarrow> Some e
      | Inr flds \<Rightarrow>
          (case find (\<lambda>f. f_label f = labelStatus \<and>
                     (f_value f = statusUnreach \<or> f_value f = statusUnauth \<or>
                      has_prefix (f_value f) ''HTTP '')) flds of
             Some f \<Rightarrow> Some (''widget reported status '' @ quoted (f_value f))
           | None \<Rightarrow> None))"

definition apply_highlights :: "poll_env \<Rightarrow> Field list \<Rightarrow> field_highlight gomap \<Rightarrow> poll_state \<Rightarrow>
    Field list \<times> poll_state" where
  "apply_highlights env flds rules st =
     (case applyHighlights (pe_compile env) flds rules (ps_regex st) of
        (flds, cache) \<Rightarrow> (flds, st\<lparr>ps_regex := cache\<rparr>))"

definition http_client_for :: "poll_env \<Rightarrow> string \<Rightarrow> secret_value_source option \<Rightarrow> poll_state \<Rightarrow>
    (string + http_client) \<times> poll_state" where
  "http_client_for env namespace caCert st =
     (let p = pe_poller env in
      case httpClientForCACert (po_lib p) (po_secret_reader p) namespace caCert (po_http_client p) (ps_ca st) of
        (r, ca) \<Rightarrow> (r, st\<lparr>ps_ca := ca\<rparr>))"

section \<open>Service widgets\<close>

text \<open>The fields of the card literal that come from the entry.\<close>

definition entry_card :: "string \<Rightarrow> service_entry \<Rightarrow> Card" where
  "entry_card key se = zero_card\<lparr>c_key := key, c_group := se_group se, c_service_name := se_name se,
     c_order := se_order se, c_icon_url := IconURL (se_icon se),
     c_show_stats := set_opt (se_show_stats se) True,
     c_description := set_opt (se_description se) [],
     c_href := set_opt (se_href se) [], c_target := set_opt (se_target se) []\<rparr>"

definition hide_errors :: "service_entry \<Rightarrow> bool \<Rightarrow> bool" where
  "hide_errors se defaultHideErrors = (case se_error_display se of Some b \<Rightarrow> \<not> b | None \<Rightarrow> defaultHideErrors)"

text \<open>The monitor's fields on a card.\<close>

definition with_monitor :: "monitorProbeResult \<Rightarrow> bool \<Rightarrow> int \<Rightarrow> Card \<Rightarrow> Card" where
  "with_monitor m hide now crd =
     (let crd = crd\<lparr>c_hide_errors := hide, c_status := mp_status m, c_status_style := mp_status_style m,
                      c_latency := mp_latency m, c_pod_status := mp_pod_status m,
                      c_pod_ready_text := mp_pod_ready_text m, c_updated_at := now\<rparr>
      in if mp_err m \<noteq> [] \<and> \<not> hide then crd\<lparr>c_err := mp_err m\<rparr> else crd)"

definition show_error :: "string \<Rightarrow> Card \<Rightarrow> Card" where
  "show_error e crd = (if \<not> c_hide_errors crd then crd\<lparr>c_err := e\<rparr> else crd)"

definition mergeMonitorIntoStoredCard :: "string \<Rightarrow> service_entry \<Rightarrow> monitorProbeResult \<Rightarrow> bool \<Rightarrow> int \<Rightarrow>
    poll_state \<Rightarrow> poll_state" where
  "mergeMonitorIntoStoredCard key se m defaultHideErrors now st =
     (let crd = (case Store_Get (ps_store st) key of Some c \<Rightarrow> c | None \<Rightarrow> entry_card key se)
      in put_card (with_monitor m (hide_errors se defaultHideErrors) now crd) st)"

definition pollWidgetSample :: "poll_env \<Rightarrow> Card \<Rightarrow> Widget \<Rightarrow> WidgetConfig \<Rightarrow> service_widget \<Rightarrow>
    poll_state \<Rightarrow> poll_state" where
  "pollWidgetSample env crd impl cfg widget st =
     (case w_sample impl of
        None \<Rightarrow> put_card (show_error (''no sample data for widget type '' @ quoted (sw_type widget)) crd) st
      | Some sample \<Rightarrow>
          if c_show_stats crd
          then (case apply_highlights env (filterFields (sample cfg) (sw_fields widget)) (sw_highlight widget) st of
                  (flds, st) \<Rightarrow> put_card (crd\<lparr>c_fields := flds\<rparr>) st)
          else put_card crd st)"

text \<open>The end of \<^verbatim>\<open>pollWidget\<close>: secrets, client, the poll itself.\<close>

definition pollWidget_fetch :: "poll_env \<Rightarrow> string \<Rightarrow> service_widget \<Rightarrow> Widget \<Rightarrow> WidgetConfig \<Rightarrow>
    widget_defaults_entry gomap \<Rightarrow> Card \<Rightarrow> poll_state \<Rightarrow> poll_state" where
  "pollWidget_fetch env namespace widget impl cfg widgetDefaults crd st =
     (case resolveWidgetSecrets (po_secret_reader (pe_poller env)) namespace (sw_type widget) (sw_secrets widget)
             (sw_secret_ref widget) (sw_ca_cert widget) widgetDefaults (wc_secrets cfg) of
        Inl e \<Rightarrow> put_card (show_error e crd)
                  (log_failure (c_key crd) (Some e) ''resolving widget secrets failed'' st)
      | Inr (caCert, secrets) \<Rightarrow>
          (case http_client_for env namespace caCert st of
             (Inl e, st) \<Rightarrow> put_card (show_error e crd)
                  (log_failure (c_key crd) (Some e) ''building widget HTTP client from caCert failed'' st)
           | (Inr httpClient, st) \<Rightarrow>
               let r = w_poll impl httpClient (cfg\<lparr>wc_secrets := secrets\<rparr>);
                   st = observePoll (sw_type widget) (metricErr r) st
               in case r of
                    Inl e \<Rightarrow> put_card (show_error e crd) st
                  | Inr flds \<Rightarrow>
                      if c_show_stats crd
                      then (case apply_highlights env (filterFields flds (sw_fields widget))
                                   (sw_highlight widget) st of
                              (flds, st) \<Rightarrow> put_card (crd\<lparr>c_fields := flds\<rparr>) st)
                      else put_card crd st))"

definition pollWidget :: "poll_env \<Rightarrow> string \<Rightarrow> string \<Rightarrow> service_entry \<Rightarrow> service_widget option \<Rightarrow>
    monitorProbeResult \<Rightarrow> bool \<Rightarrow> widget_defaults_entry gomap \<Rightarrow> int \<Rightarrow> poll_state \<Rightarrow> poll_state" where
  "pollWidget env key namespace se widget m defaultHideErrors widgetDefaults now st =
     (let p = pe_poller env in
      case (case widget of None \<Rightarrow> (True, st) | Some w \<Rightarrow> duePoll p key (sw_poll_interval w) now st) of
        (False, st) \<Rightarrow> mergeMonitorIntoStoredCard key se m defaultHideErrors now st
      | (True, st) \<Rightarrow>
          let crd = with_monitor m (hide_errors se defaultHideErrors) now (entry_card key se) in
          (case widget of
             None \<Rightarrow> put_card crd st
           | Some widget \<Rightarrow>
               let crd = crd\<lparr>c_widget_type := sw_type widget\<rparr> in
               case Lookup (pe_registry env) (sw_type widget) of
                 None \<Rightarrow> put_card (show_error (''unsupported widget type '' @ quoted (sw_type widget)) crd)
                   (log_failure key None
                     ''unsupported widget type: the running dashboard image may be older than this config'' st)
               | Some impl \<Rightarrow>
                   let cfg = \<lparr>wc_url = set_opt (sw_url widget) (mp_base_url m), wc_secrets = [],
                              wc_config = sw_config widget\<rparr>
                   in if po_sample_data p \<or> (po_preview p \<and> sw_url widget = None \<and> wc_url cfg = [])
                      then pollWidgetSample env crd impl cfg widget st
                      else pollWidget_fetch env namespace widget impl cfg widgetDefaults crd st))"

section \<open>Header widgets\<close>

definition pollInfoWidgetSample :: "Card \<Rightarrow> Widget \<Rightarrow> WidgetConfig \<Rightarrow> poll_state \<Rightarrow> poll_state" where
  "pollInfoWidgetSample crd impl cfg st =
     (case w_sample impl of
        None \<Rightarrow> put_card (crd\<lparr>c_err := ''no sample data for widget type '' @ quoted (c_widget_type crd)\<rparr>) st
      | Some sample \<Rightarrow> put_card (crd\<lparr>c_fields := sample cfg\<rparr>) st)"

text \<open>\<open>impl\<close> is the widget the caller has looked up.\<close>

definition pollInfoWidget :: "poll_env \<Rightarrow> string \<Rightarrow> info_widget \<Rightarrow> info_widget_entry \<Rightarrow> Widget \<Rightarrow>
    widget_defaults_entry gomap \<Rightarrow> int \<Rightarrow> poll_state \<Rightarrow> poll_state" where
  "pollInfoWidget env key iw entry impl widgetDefaults now st =
     (let p = pe_poller env in
      case duePoll p key (ie_poll_interval entry) now st of
        (False, st) \<Rightarrow> st
      | (True, st) \<Rightarrow>
          let crd = zero_card\<lparr>c_key := key, c_service_name := iwd_name iw, c_widget_type := ie_type entry,
                       c_order := ie_order entry, c_header := True, c_show_stats := True, c_updated_at := now\<rparr>;
              cfg = \<lparr>wc_url = set_opt (ie_url entry) [], wc_secrets = [], wc_config = ie_config entry\<rparr>
          in if po_sample_data p then pollInfoWidgetSample crd impl cfg st
             else
               (case resolveWidgetSecrets (po_secret_reader p) (iwd_namespace iw) (ie_type entry)
                       (ie_secrets entry) (ie_secret_ref entry) (ie_ca_cert entry) widgetDefaults [] of
                  Inl e \<Rightarrow> put_card (crd\<lparr>c_err := e\<rparr>)
                            (log_failure key (Some e) ''resolving header widget secrets failed'' st)
                | Inr (caCert, secrets) \<Rightarrow>
                    (case (case w_poll_cluster impl of
                             Some poll_cluster \<Rightarrow> (poll_cluster (po_kube_reader p) (cfg\<lparr>wc_secrets := secrets\<rparr>), st)
                           | None \<Rightarrow>
                               (case http_client_for env (iwd_namespace iw) caCert st of
                                  (Inl e, st) \<Rightarrow> (Inl e, st)
                                | (Inr httpClient, st) \<Rightarrow> (w_poll impl httpClient (cfg\<lparr>wc_secrets := secrets\<rparr>), st))) of
                       (r, st) \<Rightarrow>
                         let st = observePoll (ie_type entry) (metricErr r) st
                         in put_card (case r of Inl e \<Rightarrow> crd\<lparr>c_err := e\<rparr> | Inr flds \<Rightarrow> crd\<lparr>c_fields := flds\<rparr>) st)))"

section \<open>Discovered services\<close>

definition pollDiscoveredService :: "poll_env \<Rightarrow> discoveredService \<Rightarrow> int \<Rightarrow> poll_state \<Rightarrow> poll_state" where
  "pollDiscoveredService env svc now st =
     (let p = pe_poller env;
          crd = zero_card\<lparr>c_key := dsv_key svc, c_group := dsv_group svc, c_service_name := dsv_name svc,
                   c_icon_url := dsv_icon_url svc, c_description := dsv_description svc,
                   c_href := dsv_href svc, c_updated_at := now\<rparr>
      in if dsv_monitor svc \<and> dsv_href svc \<noteq> []
         then (case probeURL p (dsv_href svc) (ps_failures st) of
                 ((status, latency), seen) \<Rightarrow>
                   let st = st\<lparr>ps_failures := seen\<rparr>;
                       st = (if po_sample_data p then st
                             else st\<lparr>ps_metrics := record_series (''discovery/'' @ dsv_key svc) monitorSourceHTTP
                                       (status = statusUp) (ps_metrics st)\<rparr>)
                   in put_card (crd\<lparr>c_status := status, c_latency := latency,
                                  c_status_style := statusStyleDot\<rparr>) st)
         else put_card crd st)"

section \<open>Configuration of a cycle\<close>

definition siteDefaults :: "poller \<Rightarrow> string \<times> bool" where
  "siteDefaults p =
     (case boundStyleSpec (po_reader p) (po_namespace p) (po_dashboard_name p) of
        Inl _ \<Rightarrow> (statusStyleDot, False)
      | Inr None \<Rightarrow> (statusStyleDot, False)
      | Inr (Some spec) \<Rightarrow>
          (set_opt (st_status_style spec) statusStyleDot,
           (case st_error_display spec of Some b \<Rightarrow> \<not> b | None \<Rightarrow> False)))"

text \<open>The Dashboard's spec, or the zero spec and \<open>False\<close> when it cannot be read.\<close>

definition dashboardSpecForPoll :: "poller \<Rightarrow> dashboard_spec \<times> bool" where
  "dashboardSpecForPoll p =
     (case rd_get_dashboard (po_reader p) (po_namespace p) (po_dashboard_name p) of
        Found d \<Rightarrow> (d_spec d, True)
      | _ \<Rightarrow> (zero_dashboard_spec, False))"

definition discoverySpecFromDashboard :: "dashboard_spec \<Rightarrow> bool \<Rightarrow> discovery_spec option" where
  "discoverySpecFromDashboard spec ok =
     (if \<not> ok then None
      else case ds_discovery spec of
             None \<Rightarrow> None
           | Some d \<Rightarrow> if ds_enabled d then Some d else None)"

definition discoverySpec :: "poller \<Rightarrow> discovery_spec option" where
  "discoverySpec p = (case dashboardSpecForPoll p of (spec, ok) \<Rightarrow> discoverySpecFromDashboard spec ok)"

definition widgetDefaults :: "poller \<Rightarrow> widget_defaults_entry gomap" where
  "widgetDefaults p = (case dashboardSpecForPoll p of (spec, ok) \<Rightarrow> if \<not> ok then [] else ds_widget_defaults spec)"

section \<open>Lemmas\<close>

lemma put_card_simps [simp]:
  "ps_store (put_card c st) = Store_Set c (ps_store st)"
  "ps_last_polled (put_card c st) = ps_last_polled st"
  "ps_clamp_warned (put_card c st) = ps_clamp_warned st"
  "ps_ca (put_card c st) = ps_ca st"
  "ps_regex (put_card c st) = ps_regex st"
  "ps_metrics (put_card c st) = ps_metrics st"
  by (simp_all add: put_card_def)

lemma log_failure_simps [simp]:
  "ps_store (log_failure k e msg st) = ps_store st"
  "ps_last_polled (log_failure k e msg st) = ps_last_polled st"
  "ps_clamp_warned (log_failure k e msg st) = ps_clamp_warned st"
  "ps_ca (log_failure k e msg st) = ps_ca st"
  "ps_regex (log_failure k e msg st) = ps_regex st"
  "ps_metrics (log_failure k e msg st) = ps_metrics st"
  by (simp_all add: log_failure_def)

lemma observePoll_simps [simp]:
  "ps_store (observePoll t e st) = ps_store st"
  "ps_last_polled (observePoll t e st) = ps_last_polled st"
  "ps_clamp_warned (observePoll t e st) = ps_clamp_warned st"
  "ps_ca (observePoll t e st) = ps_ca st"
  "ps_regex (observePoll t e st) = ps_regex st"
  "ps_metrics (observePoll t e st) = ps_metrics st"
  by (simp_all add: observePoll_def)

lemma duePoll_store [simp]: "ps_store (snd (duePoll p k ov now st)) = ps_store st"
  by (simp add: duePoll_def Let_def split: option.split)

text \<open>The decision of \<open>duePoll\<close>, and what it records.\<close>

definition poll_gap :: "poller \<Rightarrow> int \<Rightarrow> int" where
  "poll_gap p s = max (nanoseconds s) (po_interval p)"

lemma duePoll_every: "ov = None \<or> (\<exists>s \<le> 0. ov = Some s) \<Longrightarrow> duePoll p k ov now st = (True, st)"
  by (auto simp: duePoll_def)

lemma duePoll_interval:
  assumes "s > 0"
  shows "fst (duePoll p k (Some s) now st) \<longleftrightarrow>
      (case gget (ps_last_polled st) k of Some t \<Rightarrow> now - t \<ge> poll_gap p s | None \<Rightarrow> True)"
    and "gget (ps_last_polled (snd (duePoll p k (Some s) now st))) k' =
      (if k' = k \<and> fst (duePoll p k (Some s) now st) then Some now else gget (ps_last_polled st) k')"
  using assms by (auto simp: duePoll_def Let_def poll_gap_def gm.get_put not_less split: option.splits)

text \<open>A sequence of calls, of any keys, and the polls it allows.\<close>

fun due_polls :: "poller \<Rightarrow> (string \<Rightarrow> int option) \<Rightarrow> (string \<times> int) list \<Rightarrow> poll_state \<Rightarrow> (string \<times> int) list" where
  "due_polls p ov [] st = []"
| "due_polls p ov ((k, t) # calls) st =
     (case duePoll p k (ov k) t st of
        (due, st) \<Rightarrow> (if due then [(k, t)] else []) @ due_polls p ov calls st)"

definition times_of :: "string \<Rightarrow> (string \<times> int) list \<Rightarrow> int list" where
  "times_of k calls = map snd (filter (\<lambda>(k', _). k' = k) calls)"

lemma times_of_simps [simp]:
  "times_of k [] = []"
  "times_of k ((k', t) # calls) = (if k' = k then [t] else []) @ times_of k calls"
  "times_of k (xs @ ys) = times_of k xs @ times_of k ys"
  by (simp_all add: times_of_def)

lemma last_polled_other:
  "k' \<noteq> k \<Longrightarrow> gget (ps_last_polled (snd (duePoll p k' ov now st))) k = gget (ps_last_polled st) k"
  by (auto simp: duePoll_def Let_def gm.get_put split: option.splits)

lemma due_polls_spaced:
  assumes "ov k = Some s" "s > 0" "po_interval p \<ge> 0"
  shows "sorted_wrt (\<lambda>a b. b - a \<ge> poll_gap p s)
    ((case gget (ps_last_polled st) k of Some t \<Rightarrow> [t] | None \<Rightarrow> []) @ times_of k (due_polls p ov calls st))"
proof (induction calls arbitrary: st)
  case Nil
  show ?case by (simp split: option.split)
next
  case (Cons call calls)
  obtain k' t where call: "call = (k', t)" by fastforce
  obtain due l where d: "duePoll p k' (ov k') t st = (due, l)" by fastforce
  have gap: "poll_gap p s > 0" using assms(2) by (simp add: poll_gap_def nanoseconds_def less_max_iff_disj)
  show ?case
  proof (cases "k' = k")
    case False
    with last_polled_other [OF False, of p "ov k'" t st] d Cons.IH [of l]
    show ?thesis by (simp add: call)
  next
    case True
    with duePoll_interval [OF assms(2), of p k t st] assms(1) d
    have "due \<longleftrightarrow> (case gget (ps_last_polled st) k of Some t0 \<Rightarrow> t - t0 \<ge> poll_gap p s | None \<Rightarrow> True)"
      "gget (ps_last_polled l) k = (if due then Some t else gget (ps_last_polled st) k)"
      by simp_all
    with Cons.IH [of l] d True gap show ?thesis
      by (force simp: call split: option.splits if_splits)
  qed
qed

lemma due_polls_prompt:
  assumes "ov k = Some s" "s > 0" "(k, t) \<in> set calls"
  shows "\<exists>t' \<in> set ((case gget (ps_last_polled st) k of Some t \<Rightarrow> [t] | None \<Rightarrow> []) @
           times_of k (due_polls p ov calls st)). t - t' < poll_gap p s"
  using assms(3)
proof (induction calls arbitrary: st)
  case (Cons call calls)
  obtain k' t1 where call: "call = (k', t1)" by fastforce
  obtain due l where d: "duePoll p k' (ov k') t1 st = (due, l)" by fastforce
  have gap: "poll_gap p s > 0" using assms(2) by (simp add: poll_gap_def nanoseconds_def less_max_iff_disj)
  show ?case
  proof (cases "k' = k")
    case False
    with Cons.prems call have "(k, t) \<in> set calls" by simp
    with last_polled_other [OF False, of p "ov k'" t1 st] d Cons.IH [of l] False
    show ?thesis by (simp add: call)
  next
    case True
    with duePoll_interval [OF assms(2), of p k t1 st] assms(1) d
    have due: "due \<longleftrightarrow> (case gget (ps_last_polled st) k of Some t0 \<Rightarrow> t1 - t0 \<ge> poll_gap p s | None \<Rightarrow> True)"
      "gget (ps_last_polled l) k = (if due then Some t1 else gget (ps_last_polled st) k)"
      by simp_all
    show ?thesis
    proof (cases "(k, t) \<in> set calls")
      case in_rest: True
      from Cons.IH [OF this, of l] due d True show ?thesis
        by (auto simp: call split: option.splits if_splits)
    next
      case False
      with Cons.prems call True have "t = t1" by simp
      with due d True gap show ?thesis by (force simp: call split: option.splits)
    qed
  qed
qed simp

section \<open>Locality\<close>

text \<open>What the poll of a card changes: its own key's entries, and the caches, coherently.\<close>

definition only_key :: "string \<Rightarrow> poll_state \<Rightarrow> poll_state \<Rightarrow> bool" where
  "only_key key st st' \<longleftrightarrow>
     (\<forall>k. k \<noteq> key \<longrightarrow> Store_Get (ps_store st') k = Store_Get (ps_store st) k \<and>
        gget (ps_last_polled st') k = gget (ps_last_polled st) k \<and>
        gget (ps_clamp_warned st') k = gget (ps_clamp_warned st) k)"

lemma only_key_refl [simp]: "only_key key st st"
  by (simp add: only_key_def)

lemma only_key_trans: "only_key key a b \<Longrightarrow> only_key key b c \<Longrightarrow> only_key key a c"
  by (simp add: only_key_def)

lemma Store_Get_Set: "Store_Get (Store_Set c s) k = (if k = c_key c then Some c else Store_Get s k)"
  by (simp add: Store_Get_def Store_Set_def gm.get_put)

lemma only_key_put [simp]: "c_key c = key \<Longrightarrow> only_key key st (put_card c st)"
  by (simp add: only_key_def Store_Get_Set)

lemma only_key_duePoll: "only_key key st (snd (duePoll p key ov now st))"
  by (auto simp: only_key_def duePoll_def Let_def gm.get_put split: option.split)

lemma card_keys [simp]:
  "c_key (with_monitor m hide now c) = c_key c" "c_key (show_error e c) = c_key c"
  "c_key (entry_card key se) = key"
  by (simp_all add: with_monitor_def show_error_def entry_card_def Let_def)

section \<open>The poll without caches\<close>

text \<open>
  The caches a poll shares with others hold what computing afresh would give: every pattern its
  compilation, every CA client the client of the bundle with its hash.
\<close>

definition fresh_client :: "poll_env \<Rightarrow> string \<Rightarrow> string + http_client" where
  "fresh_client env pem =
     (let p = pe_poller env in
      case newGuardedTransportWithCA (cl_net (po_lib p)) (cl_x509 (po_lib p)) pem of
        Inl e \<Rightarrow> Inl e
      | Inr t \<Rightarrow> Inr \<lparr>hc_timeout = hc_timeout (po_http_client p), hc_transport = t\<rparr>)"

definition client_spec :: "poll_env \<Rightarrow> string \<Rightarrow> secret_value_source option \<Rightarrow> string + http_client" where
  "client_spec env namespace caCert =
     (case caCert of
        None \<Rightarrow> Inr (po_http_client (pe_poller env))
      | Some src \<Rightarrow>
          (case resolveSecret (po_secret_reader (pe_poller env)) namespace src of
             Inl e \<Rightarrow> Inl (''resolving caCert: '' @ e)
           | Inr pem \<Rightarrow> fresh_client env pem))"

definition caches_ok :: "poll_env \<Rightarrow> poll_state \<Rightarrow> bool" where
  "caches_ok env st \<longleftrightarrow> store_wf (ps_store st) \<and> coherent (pe_compile env) (ps_regex st) \<and>
     (\<forall>k c. gget (ca_clients (ps_ca st)) k = Some c \<longrightarrow>
        (\<exists>pem. k = cl_sha256 (po_lib (pe_poller env)) pem \<and> fresh_client env pem = Inr c))"

text \<open>No two CA bundles in use have the same SHA-256 hash.\<close>

definition no_collisions :: "poll_env \<Rightarrow> bool" where
  "no_collisions env \<longleftrightarrow> inj (cl_sha256 (po_lib (pe_poller env)))"

lemma caches_ok_put [simp]: "caches_ok env st \<Longrightarrow> caches_ok env (put_card c st)"
  by (simp add: caches_ok_def store_wf_Set)

lemma caches_ok_other [simp]:
  "caches_ok env (log_failure k e msg st) = caches_ok env st"
  "caches_ok env (observePoll t e st) = caches_ok env st"
  by (simp_all add: caches_ok_def)

lemma duePoll_caches [simp]: "caches_ok env (snd (duePoll p k ov now st)) = caches_ok env st"
  by (simp add: caches_ok_def duePoll_def Let_def split: option.split)

lemma caClient_fresh:
  assumes "caches_ok env st" "no_collisions env"
  shows "fst (caClient (po_lib (pe_poller env)) (po_http_client (pe_poller env)) pem (ps_ca st)) = fresh_client env pem"
    and "caches_ok env (st\<lparr>ps_ca := snd (caClient (po_lib (pe_poller env)) (po_http_client (pe_poller env)) pem (ps_ca st))\<rparr>)"
proof -
  let ?lib = "po_lib (pe_poller env)"
  have "fst (caClient ?lib (po_http_client (pe_poller env)) pem (ps_ca st)) = fresh_client env pem \<and>
    caches_ok env (st\<lparr>ps_ca := snd (caClient ?lib (po_http_client (pe_poller env)) pem (ps_ca st))\<rparr>)"
  proof (cases "gget (ca_clients (ps_ca st)) (caCacheKey ?lib pem)")
    case (Some c)
    then obtain pem' where "caCacheKey ?lib pem = cl_sha256 ?lib pem'" "fresh_client env pem' = Inr c"
      using assms(1) unfolding caches_ok_def by blast
    moreover from this(1) assms(2) have "pem' = pem"
      by (simp add: caCacheKey_def no_collisions_def inj_eq)
    ultimately show ?thesis using Some assms(1) by (simp add: caClient_def Let_def)
  next
    case None
    then have "caClient ?lib (po_http_client (pe_poller env)) pem (ps_ca st) =
        (fresh_client env pem, case fresh_client env pem of Inl _ \<Rightarrow> ps_ca st
           | Inr c \<Rightarrow> (ps_ca st)\<lparr>ca_clients := gput (cl_sha256 ?lib pem) c (ca_clients (ps_ca st))\<rparr>)"
      by (simp add: caClient_def fresh_client_def Let_def caCacheKey_def split: sum.split)
    then show ?thesis
      using assms(1) by (auto simp: caches_ok_def gm.get_put split: sum.split)
  qed
  then show "fst (caClient ?lib (po_http_client (pe_poller env)) pem (ps_ca st)) = fresh_client env pem"
    "caches_ok env (st\<lparr>ps_ca := snd (caClient ?lib (po_http_client (pe_poller env)) pem (ps_ca st))\<rparr>)"
    by simp_all
qed

lemma http_client_for_spec:
  assumes "caches_ok env st" "no_collisions env" "http_client_for env ns ca st = (r, st')"
  shows "r = client_spec env ns ca \<and> caches_ok env st' \<and> ps_store st' = ps_store st \<and>
    ps_last_polled st' = ps_last_polled st \<and> ps_clamp_warned st' = ps_clamp_warned st \<and>
    ps_regex st' = ps_regex st \<and> ps_metrics st' = ps_metrics st"
proof -
  have mark: "caches_ok env (st\<lparr>ps_ca := markCAKeyUsed k (ps_ca st)\<rparr>)" for k
    using assms(1) by (simp add: caches_ok_def markCAKeyUsed_def)
  show ?thesis
    using caClient_fresh [OF mark assms(2)] assms(1,3)
    by (auto simp: http_client_for_def httpClientForCACert_def client_spec_def Let_def case_prod_unfold
        split: option.splits sum.splits)
qed

lemma apply_highlights_spec:
  assumes "caches_ok env st" "apply_highlights env fs rules st = (fs', st')"
  shows "fs' = map (field_spec (pe_compile env) (rules_by_key rules)) fs \<and> caches_ok env st' \<and>
    ps_store st' = ps_store st \<and> ps_last_polled st' = ps_last_polled st \<and>
    ps_clamp_warned st' = ps_clamp_warned st \<and> ps_metrics st' = ps_metrics st"
proof -
  have "fst (applyHighlights (pe_compile env) fs rules (ps_regex st)) =
      map (field_spec (pe_compile env) (rules_by_key rules)) fs \<and>
    coherent (pe_compile env) (snd (applyHighlights (pe_compile env) fs rules (ps_regex st)))"
    using assms(1) highlight_fields_coherent [of "pe_compile env" "ps_regex st"]
    by (auto simp: caches_ok_def applyHighlights_def rules_by_key_def field_spec_def map_idI)
  with assms show ?thesis
    by (auto simp: apply_highlights_def caches_ok_def case_prod_unfold)
qed

text \<open>What a poll shows on the card: the fields, with the rules applied, or the error.\<close>

definition shown :: "poll_env \<Rightarrow> service_widget \<Rightarrow> Card \<Rightarrow> string + Field list \<Rightarrow> Card" where
  "shown env widget crd r =
     (case r of
        Inl e \<Rightarrow> show_error e crd
      | Inr flds \<Rightarrow>
          if c_show_stats crd
          then crd\<lparr>c_fields := map (field_spec (pe_compile env) (rules_by_key (sw_highlight widget)))
                                 (filterFields flds (sw_fields widget))\<rparr>
          else crd)"

definition widget_config :: "service_widget \<Rightarrow> monitorProbeResult \<Rightarrow> WidgetConfig" where
  "widget_config widget m = \<lparr>wc_url = set_opt (sw_url widget) (mp_base_url m), wc_secrets = [],
     wc_config = sw_config widget\<rparr>"

text \<open>The outcome of a due poll: sampled, or fetched with the resolved secrets and trust.\<close>

definition poll_outcome :: "poll_env \<Rightarrow> string \<Rightarrow> service_widget \<Rightarrow> monitorProbeResult \<Rightarrow>
    widget_defaults_entry gomap \<Rightarrow> string + Field list" where
  "poll_outcome env namespace widget m defaults =
     (let p = pe_poller env; cfg = widget_config widget m in
      case Lookup (pe_registry env) (sw_type widget) of
        None \<Rightarrow> Inl (''unsupported widget type '' @ quoted (sw_type widget))
      | Some impl \<Rightarrow>
          if po_sample_data p \<or> (po_preview p \<and> sw_url widget = None \<and> wc_url cfg = [])
          then (case w_sample impl of
                  None \<Rightarrow> Inl (''no sample data for widget type '' @ quoted (sw_type widget))
                | Some sample \<Rightarrow> Inr (sample cfg))
          else
            (case resolveWidgetSecrets (po_secret_reader p) namespace (sw_type widget) (sw_secrets widget)
                    (sw_secret_ref widget) (sw_ca_cert widget) defaults [] of
               Inl e \<Rightarrow> Inl e
             | Inr (caCert, secrets) \<Rightarrow>
                 (case client_spec env namespace caCert of
                    Inl e \<Rightarrow> Inl e
                  | Inr c \<Rightarrow> w_poll impl c (cfg\<lparr>wc_secrets := secrets\<rparr>))))"

definition widget_card :: "poll_env \<Rightarrow> string \<Rightarrow> string \<Rightarrow> service_entry \<Rightarrow> service_widget option \<Rightarrow>
    monitorProbeResult \<Rightarrow> bool \<Rightarrow> widget_defaults_entry gomap \<Rightarrow> int \<Rightarrow> Card" where
  "widget_card env key namespace se widget m hide defaults now =
     (let crd = with_monitor m (hide_errors se hide) now (entry_card key se) in
      case widget of
        None \<Rightarrow> crd
      | Some w \<Rightarrow> shown env w (crd\<lparr>c_widget_type := sw_type w\<rparr>) (poll_outcome env namespace w m defaults))"

definition same_times :: "poll_state \<Rightarrow> poll_state \<Rightarrow> bool" where
  "same_times a b \<longleftrightarrow> ps_last_polled a = ps_last_polled b \<and> ps_clamp_warned a = ps_clamp_warned b \<and>
     ps_metrics a = ps_metrics b"

lemma highlighted_put:
  assumes "caches_ok env st"
  shows "(case apply_highlights env fs rules st of (flds, st) \<Rightarrow> put_card (crd\<lparr>c_fields := flds\<rparr>) st) = st' \<Longrightarrow>
    ps_store st' = Store_Set (crd\<lparr>c_fields := map (field_spec (pe_compile env) (rules_by_key rules)) fs\<rparr>) (ps_store st) \<and>
    caches_ok env st' \<and> same_times st' st"
  using apply_highlights_spec [OF assms surjective_pairing, of fs rules]
  by (simp add: same_times_def case_prod_unfold) force

lemma pollWidgetSample_spec:
  assumes "caches_ok env st"
  shows "ps_store (pollWidgetSample env crd impl cfg w st) = Store_Set (shown env w crd
      (case w_sample impl of None \<Rightarrow> Inl (''no sample data for widget type '' @ quoted (sw_type w))
       | Some sample \<Rightarrow> Inr (sample cfg))) (ps_store st) \<and>
    caches_ok env (pollWidgetSample env crd impl cfg w st) \<and>
    same_times (pollWidgetSample env crd impl cfg w st) st"
  using assms highlighted_put [OF assms refl]
  by (auto simp: pollWidgetSample_def shown_def same_times_def split: option.split)

lemma pollWidget_fetch_spec:
  assumes "caches_ok env st" "no_collisions env"
  shows "ps_store (pollWidget_fetch env ns w impl cfg defaults crd st) = Store_Set (shown env w crd
      (case resolveWidgetSecrets (po_secret_reader (pe_poller env)) ns (sw_type w) (sw_secrets w)
              (sw_secret_ref w) (sw_ca_cert w) defaults (wc_secrets cfg) of
         Inl e \<Rightarrow> Inl e
       | Inr (caCert, secrets) \<Rightarrow>
           (case client_spec env ns caCert of
              Inl e \<Rightarrow> Inl e | Inr c \<Rightarrow> w_poll impl c (cfg\<lparr>wc_secrets := secrets\<rparr>)))) (ps_store st) \<and>
    caches_ok env (pollWidget_fetch env ns w impl cfg defaults crd st) \<and>
    same_times (pollWidget_fetch env ns w impl cfg defaults crd st) st"
proof (cases "resolveWidgetSecrets (po_secret_reader (pe_poller env)) ns (sw_type w) (sw_secrets w)
              (sw_secret_ref w) (sw_ca_cert w) defaults (wc_secrets cfg)")
  case (Inl e)
  with assms(1) show ?thesis by (simp add: pollWidget_fetch_def shown_def same_times_def)
next
  case (Inr cs)
  obtain caCert secrets where cs: "cs = (caCert, secrets)" by fastforce
  obtain r st1 where c: "http_client_for env ns caCert st = (r, st1)" by fastforce
  note h = http_client_for_spec [OF assms c]
  show ?thesis
  proof (cases r)
    case (Inl e)
    with h have "client_spec env ns caCert = Inl e" by simp
    with Inl Inr cs c conjunct2 [OF h] show ?thesis by (simp add: pollWidget_fetch_def shown_def same_times_def)
  next
    case client: (Inr httpClient)
    let ?r = "w_poll impl httpClient (cfg\<lparr>wc_secrets := secrets\<rparr>)"
    let ?st = "observePoll (sw_type w) (metricErr ?r) st1"
    have "caches_ok env ?st" using h by simp
    note put = highlighted_put [OF this refl]
    from Inr cs c client have "pollWidget_fetch env ns w impl cfg defaults crd st =
        (case ?r of Inl e \<Rightarrow> put_card (show_error e crd) ?st
         | Inr flds \<Rightarrow> if c_show_stats crd
             then (case apply_highlights env (filterFields flds (sw_fields w)) (sw_highlight w) ?st of
                     (flds, st) \<Rightarrow> put_card (crd\<lparr>c_fields := flds\<rparr>) st)
             else put_card crd ?st)"
      by (simp add: pollWidget_fetch_def Let_def)
    moreover have "client_spec env ns caCert = Inr httpClient" using h client by simp
    ultimately show ?thesis
      using Inr cs conjunct2 [OF h] put by (auto simp: shown_def same_times_def split: sum.split)
  qed
qed

text \<open>Whether \<open>pollWidget\<close> polls, and the state with the decision recorded.\<close>

definition widget_due :: "poll_env \<Rightarrow> string \<Rightarrow> service_widget option \<Rightarrow> int \<Rightarrow> poll_state \<Rightarrow> bool \<times> poll_state" where
  "widget_due env key widget now st =
     (case widget of None \<Rightarrow> (True, st) | Some w \<Rightarrow> duePoll (pe_poller env) key (sw_poll_interval w) now st)"

definition next_card :: "poll_env \<Rightarrow> string \<Rightarrow> string \<Rightarrow> service_entry \<Rightarrow> service_widget option \<Rightarrow>
    monitorProbeResult \<Rightarrow> bool \<Rightarrow> widget_defaults_entry gomap \<Rightarrow> int \<Rightarrow> poll_state \<Rightarrow> Card" where
  "next_card env key namespace se widget m hide defaults now st =
     (if fst (widget_due env key widget now st)
      then widget_card env key namespace se widget m hide defaults now
      else with_monitor m (hide_errors se hide) now
             (case Store_Get (ps_store st) key of Some c \<Rightarrow> c | None \<Rightarrow> entry_card key se))"

lemma widget_due_state:
  "ps_store (snd (widget_due env key w now st)) = ps_store st"
  "caches_ok env (snd (widget_due env key w now st)) = caches_ok env st"
  by (simp_all add: widget_due_def split: option.split)

lemma same_times_refl [simp]: "same_times st st"
  by (simp add: same_times_def)

lemma pollWidget_spec:
  assumes "caches_ok env st" "no_collisions env"
  shows "ps_store (pollWidget env key ns se w m hide defaults now st) =
      Store_Set (next_card env key ns se w m hide defaults now st) (ps_store st) \<and>
    caches_ok env (pollWidget env key ns se w m hide defaults now st) \<and>
    same_times (pollWidget env key ns se w m hide defaults now st) (snd (widget_due env key w now st))"
proof -
  obtain due st1 where due: "widget_due env key w now st = (due, st1)" by fastforce
  have st1: "ps_store st1 = ps_store st" "caches_ok env st1"
    using widget_due_state [of env key w now st] due assms(1) by simp_all
  show ?thesis
  proof (cases due)
    case False
    with due have "pollWidget env key ns se w m hide defaults now st = mergeMonitorIntoStoredCard key se m hide now st1"
      by (simp add: pollWidget_def widget_due_def Let_def)
    with due False st1 show ?thesis
      by (simp add: next_card_def mergeMonitorIntoStoredCard_def Let_def same_times_def)
  next
    case True
    show ?thesis
    proof (cases w)
      case None
      with due True st1 show ?thesis
        by (simp add: pollWidget_def widget_due_def next_card_def widget_card_def Let_def same_times_def)
    next
      case (Some widget)
      let ?crd = "(with_monitor m (hide_errors se hide) now (entry_card key se))\<lparr>c_widget_type := sw_type widget\<rparr>"
      let ?cfg = "widget_config widget m"
      have poll: "pollWidget env key ns se w m hide defaults now st =
        (case Lookup (pe_registry env) (sw_type widget) of
           None \<Rightarrow> put_card (show_error (''unsupported widget type '' @ quoted (sw_type widget)) ?crd)
             (log_failure key None
               ''unsupported widget type: the running dashboard image may be older than this config'' st1)
         | Some impl \<Rightarrow>
             if po_sample_data (pe_poller env) \<or> (po_preview (pe_poller env) \<and> sw_url widget = None \<and> wc_url ?cfg = [])
             then pollWidgetSample env ?crd impl ?cfg widget st1
             else pollWidget_fetch env ns widget impl ?cfg defaults ?crd st1)"
        using due True Some
        by (auto simp: pollWidget_def widget_due_def Let_def widget_config_def split: option.split)
      show ?thesis
      proof (cases "Lookup (pe_registry env) (sw_type widget)")
        case None
        with poll due True Some st1 show ?thesis
          by (simp add: next_card_def widget_card_def poll_outcome_def shown_def Let_def same_times_def)
      next
        case impl: (Some impl)
        have "wc_secrets ?cfg = []" by (simp add: widget_config_def)
        then have "ps_store (pollWidget env key ns se w m hide defaults now st) =
            Store_Set (shown env widget ?crd (poll_outcome env ns widget m defaults)) (ps_store st) \<and>
          caches_ok env (pollWidget env key ns se w m hide defaults now st) \<and>
          same_times (pollWidget env key ns se w m hide defaults now st) st1"
          using poll impl pollWidgetSample_spec [OF st1(2), of ?crd impl ?cfg widget] st1(1)
            pollWidget_fetch_spec [OF st1(2) assms(2), of ns widget impl ?cfg defaults ?crd]
          by (simp add: poll_outcome_def Let_def)
        with due True Some show ?thesis by (simp add: next_card_def widget_card_def Let_def)
      qed
    qed
  qed
qed

lemma shown_fields [simp]:
  "c_key (shown env w c r) = c_key c" "c_status (shown env w c r) = c_status c"
  "c_status_style (shown env w c r) = c_status_style c" "c_latency (shown env w c r) = c_latency c"
  "c_pod_status (shown env w c r) = c_pod_status c" "c_pod_ready_text (shown env w c r) = c_pod_ready_text c"
  "c_hide_errors (shown env w c r) = c_hide_errors c" "c_updated_at (shown env w c r) = c_updated_at c"
  by (simp_all add: shown_def show_error_def split: sum.split)

lemma with_monitor_fields [simp]:
  "c_status (with_monitor m h n c) = mp_status m" "c_latency (with_monitor m h n c) = mp_latency m"
  "c_status_style (with_monitor m h n c) = mp_status_style m"
  "c_pod_status (with_monitor m h n c) = mp_pod_status m"
  "c_pod_ready_text (with_monitor m h n c) = mp_pod_ready_text m"
  "c_hide_errors (with_monitor m h n c) = h" "c_updated_at (with_monitor m h n c) = n"
  "c_fields (with_monitor m h n c) = c_fields c" "c_widget_type (with_monitor m h n c) = c_widget_type c"
  by (simp_all add: with_monitor_def Let_def)

lemma next_card_key:
  assumes "store_wf (ps_store st)"
  shows "c_key (next_card env key ns se w m hide defaults now st) = key"
proof -
  have "c_key c = key" if "Store_Get (ps_store st) key = Some c" for c
    using assms that by (simp add: store_wf_iff Store_Get_def)
  then show ?thesis
    by (auto simp: next_card_def widget_card_def Let_def split: option.split)
qed

text \<open>The same for the header's widgets and the discovered services.\<close>

definition info_card :: "poll_env \<Rightarrow> string \<Rightarrow> info_widget \<Rightarrow> info_widget_entry \<Rightarrow> Widget \<Rightarrow>
    widget_defaults_entry gomap \<Rightarrow> int \<Rightarrow> Card" where
  "info_card env key iw entry impl defaults now =
     (let p = pe_poller env;
          crd = zero_card\<lparr>c_key := key, c_service_name := iwd_name iw, c_widget_type := ie_type entry,
                  c_order := ie_order entry, c_header := True, c_show_stats := True, c_updated_at := now\<rparr>;
          cfg = \<lparr>wc_url = set_opt (ie_url entry) [], wc_secrets = [], wc_config = ie_config entry\<rparr>;
          r = (if po_sample_data p
               then (case w_sample impl of
                       None \<Rightarrow> Inl (''no sample data for widget type '' @ quoted (ie_type entry))
                     | Some sample \<Rightarrow> Inr (sample cfg))
               else
                 (case resolveWidgetSecrets (po_secret_reader p) (iwd_namespace iw) (ie_type entry)
                         (ie_secrets entry) (ie_secret_ref entry) (ie_ca_cert entry) defaults [] of
                    Inl e \<Rightarrow> Inl e
                  | Inr (caCert, secrets) \<Rightarrow>
                      (case w_poll_cluster impl of
                         Some poll_cluster \<Rightarrow> poll_cluster (po_kube_reader p) (cfg\<lparr>wc_secrets := secrets\<rparr>)
                       | None \<Rightarrow>
                           (case client_spec env (iwd_namespace iw) caCert of
                              Inl e \<Rightarrow> Inl e
                            | Inr c \<Rightarrow> w_poll impl c (cfg\<lparr>wc_secrets := secrets\<rparr>)))))
      in case r of Inl e \<Rightarrow> crd\<lparr>c_err := e\<rparr> | Inr flds \<Rightarrow> crd\<lparr>c_fields := flds\<rparr>)"

lemma info_card_key [simp]: "c_key (info_card env key iw entry impl defaults now) = key"
  by (simp add: info_card_def Let_def split: sum.split)

lemma pollInfoWidget_spec:
  assumes "caches_ok env st" "no_collisions env"
    and "duePoll (pe_poller env) key (ie_poll_interval entry) now st = (due, st1)"
  shows "ps_store (pollInfoWidget env key iw entry impl defaults now st) =
      (if due then Store_Set (info_card env key iw entry impl defaults now) (ps_store st) else ps_store st) \<and>
    caches_ok env (pollInfoWidget env key iw entry impl defaults now st) \<and>
    same_times (pollInfoWidget env key iw entry impl defaults now st) st1"
proof -
  have st1: "ps_store st1 = ps_store st" "caches_ok env st1"
    using duePoll_store [of "pe_poller env" key "ie_poll_interval entry" now st]
      duePoll_caches [of env "pe_poller env" key "ie_poll_interval entry" now st] assms(1,3) by simp_all
  let ?secrets = "resolveWidgetSecrets (po_secret_reader (pe_poller env)) (iwd_namespace iw) (ie_type entry)
    (ie_secrets entry) (ie_secret_ref entry) (ie_ca_cert entry) defaults []"
  show ?thesis
  proof (cases "due \<and> \<not> po_sample_data (pe_poller env)")
    case False
    with st1 assms(3) show ?thesis
      by (auto simp: pollInfoWidget_def pollInfoWidgetSample_def info_card_def Let_def same_times_def
          split: option.split)
  next
    case live: True
    show ?thesis
    proof (cases ?secrets)
      case (Inl e)
      with live st1 assms(3) show ?thesis
        by (simp add: pollInfoWidget_def info_card_def Let_def same_times_def)
    next
      case (Inr cs)
      obtain caCert secrets where cs: "cs = (caCert, secrets)" by fastforce
      obtain r st2 where c: "http_client_for env (iwd_namespace iw) caCert st1 = (r, st2)" by fastforce
      note h = http_client_for_spec [OF st1(2) assms(2) c]
      show ?thesis
      proof (cases "w_poll_cluster impl")
        case (Some poll)
        with live Inr cs st1 assms(3) show ?thesis
          by (simp add: pollInfoWidget_def info_card_def Let_def same_times_def split: sum.split)
      next
        case None
        show ?thesis
        proof (cases r)
          case (Inl e)
          moreover have "client_spec env (iwd_namespace iw) caCert = Inl e" using h Inl by simp
          ultimately show ?thesis
            using live Inr cs c None st1 assms(3) conjunct2 [OF h]
            by (simp add: pollInfoWidget_def info_card_def Let_def same_times_def)
        next
          case client: (Inr cl)
          moreover have "client_spec env (iwd_namespace iw) caCert = Inr cl" using h client by simp
          ultimately show ?thesis
            using live Inr cs c None st1 assms(3) conjunct2 [OF h]
            by (simp add: pollInfoWidget_def info_card_def Let_def same_times_def split: sum.split)
        qed
      qed
    qed
  qed
qed

definition discovered_card :: "poller \<Rightarrow> discoveredService \<Rightarrow> int \<Rightarrow> Card" where
  "discovered_card p svc now =
     (let crd = zero_card\<lparr>c_key := dsv_key svc, c_group := dsv_group svc, c_service_name := dsv_name svc,
                  c_icon_url := dsv_icon_url svc, c_description := dsv_description svc,
                  c_href := dsv_href svc, c_updated_at := now\<rparr>
      in if dsv_monitor svc \<and> dsv_href svc \<noteq> []
         then crd\<lparr>c_status := fst (probe_outcome p (dsv_href svc)), c_latency := snd (probe_outcome p (dsv_href svc)),
                  c_status_style := statusStyleDot\<rparr>
         else crd)"

lemma pollDiscovered_spec:
  "ps_store (pollDiscoveredService env svc now st) = Store_Set (discovered_card (pe_poller env) svc now) (ps_store st)"
  "caches_ok env st \<Longrightarrow> caches_ok env (pollDiscoveredService env svc now st)"
  "ps_last_polled (pollDiscoveredService env svc now st) = ps_last_polled st"
  "ps_clamp_warned (pollDiscoveredService env svc now st) = ps_clamp_warned st"
  "c_key (discovered_card (pe_poller env) svc now) = dsv_key svc"
  using probeURL_seen [of "pe_poller env" "dsv_href svc" "ps_failures st"]
  by (simp_all add: pollDiscoveredService_def discovered_card_def caches_ok_def Let_def case_prod_unfold store_wf_Set)

section \<open>Properties\<close>

text \<open>
  A widget with an interval of its own is polled exactly as often as it asks for: two polls are at
  least its interval apart (or the poller's, if that is longer), and at every call the last poll is
  less than that in the past.  Calls for other widgets in between change nothing.
\<close>

theorem polls_spaced:
  assumes "ov k = Some s" "s > 0" "po_interval p \<ge> 0" "gget (ps_last_polled st) k = None"
  shows "sorted_wrt (\<lambda>a b. b - a \<ge> max (s * 1000000000) (po_interval p)) (times_of k (due_polls p ov calls st)) \<and>
    list_all (\<lambda>(k', t). k' \<noteq> k \<or> list_ex (\<lambda>t'. t - t' < max (s * 1000000000) (po_interval p))
      (times_of k (due_polls p ov calls st))) calls"
  using due_polls_spaced [where ov = ov and k = k and s = s and p = p and st = st and calls = calls]
    due_polls_prompt [where ov = ov and k = k and s = s and p = p and st = st and calls = calls] assms
  by (fastforce simp: list_all_iff list_ex_iff poll_gap_def nanoseconds_def)

definition ex_env :: poll_env where
  "ex_env = \<lparr>pe_poller = (ex_poller ex_secret_reader ex_secret_reader)\<lparr>po_interval := 15 * 1000000000\<rparr>,
     pe_registry = [(''sonarr'', \<lparr>w_poll = (\<lambda>_ cfg. Inr [\<lparr>f_label = ''Key'',
        f_value = gstr (wc_secrets cfg) ''key'', f_percent = None, f_highlight = []\<rparr>]),
        w_poll_cluster = None, w_sample = None\<rparr>)],
     pe_compile = (\<lambda>_. None)\<rparr>"

definition ex_poll_state :: poll_state where
  "ex_poll_state = \<lparr>ps_store = NewStore, ps_last_polled = [], ps_clamp_warned = [], ps_ca = ex_ca_state,
     ps_regex = [], ps_failures = [], ps_metrics = ex_metrics, ps_polls = []\<rparr>"

theorem polls_spaced_witness:
  "(let calls = map (\<lambda>i. (''web/a/0/0'', i * 10000000000)) [0, 1, 2, 3, 4, 5, 6];
        polled = times_of ''web/a/0/0'' (due_polls (pe_poller ex_env) (\<lambda>_. Some 20) calls ex_poll_state) in
    sorted_wrt (\<lambda>a b. b - a \<ge> max (20 * 1000000000) (po_interval (pe_poller ex_env))) polled)"
  unfolding Let_def
  by (rule polls_spaced [where s = 20, THEN conjunct1]) (simp_all add: ex_env_def ex_poll_state_def)

text \<open>
  After every poll cycle's visit the card shows this cycle's monitor result, whether or not the
  widget's own interval lets the widget be polled; the visit touches no other card; and a poll under
  hidden errors leaves no error on the card, whatever fails.
\<close>

theorem pollWidget_fresh:
  assumes "caches_ok env st" "no_collisions env"
    and "st' = pollWidget env key ns se w m hide defaults now st"
  shows "(\<exists>c. Store_Get (ps_store st') key = Some c \<and> c_key c = key \<and> c_status c = mp_status m \<and>
      c_latency c = mp_latency m \<and> c_pod_status c = mp_pod_status m \<and>
      c_pod_ready_text c = mp_pod_ready_text m \<and> c_updated_at c = now \<and>
      (fst (widget_due env key w now st) \<and> hide_errors se hide \<longrightarrow> c_err c = [])) \<and>
    (\<forall>k. k \<noteq> key \<longrightarrow> Store_Get (ps_store st') k = Store_Get (ps_store st) k) \<and> caches_ok env st'"
proof -
  let ?c = "next_card env key ns se w m hide defaults now st"
  have "store_wf (ps_store st)" using assms(1) by (simp add: caches_ok_def)
  then have key: "c_key ?c = key" by (rule next_card_key)
  have "c_err ?c = []" if "fst (widget_due env key w now st)" "hide_errors se hide"
    using that by (auto simp: next_card_def widget_card_def shown_def show_error_def with_monitor_def
        entry_card_def zero_card_def Let_def split: option.split sum.split)
  moreover have "c_status ?c = mp_status m \<and> c_latency ?c = mp_latency m \<and> c_pod_status ?c = mp_pod_status m \<and>
      c_pod_ready_text ?c = mp_pod_ready_text m \<and> c_updated_at ?c = now"
    by (simp add: next_card_def widget_card_def Let_def split: option.split)
  ultimately show ?thesis
    using pollWidget_spec [OF assms(1,2), of key ns se w m hide defaults now] key
    by (auto simp: assms(3) Store_Get_Set)
qed

definition ex_sonarr :: service_widget where
  "ex_sonarr = zero_service_widget\<lparr>sw_type := ''sonarr'', sw_secret_ref := Some ''s'', sw_poll_interval := Some 60\<rparr>"

definition ex_monitor_down :: monitorProbeResult where
  "ex_monitor_down = \<lparr>mp_status = ''Down'', mp_status_style = ''dot'', mp_latency = [], mp_pod_status = [],
     mp_pod_ready_text = [], mp_base_url = [], mp_err = ''boom''\<rparr>"

lemma ex_env_ok: "caches_ok ex_env ex_poll_state" "no_collisions ex_env"
  by (simp_all add: caches_ok_def no_collisions_def ex_poll_state_def ex_ca_state_def ex_env_def ex_poller_def
      ex_client_lib_def)

theorem pollWidget_fresh_witness:
  "\<exists>c. Store_Get (ps_store (pollWidget ex_env ''web/a/0/0'' ''web'' zero_service_entry (Some ex_sonarr)
      ex_monitor_down True [] 5 ex_poll_state)) ''web/a/0/0'' = Some c \<and> c_status c = ''Down''"
  using pollWidget_fresh [OF ex_env_ok refl, of "''web/a/0/0''" "''web''" zero_service_entry "Some ex_sonarr"
      ex_monitor_down True "[]" 5]
  by (auto simp: ex_monitor_down_def)

text \<open>
  The site-wide defaults a cycle uses are the ones the page is rendered with: the status style and
  the error display of the same Dashboard, with the same fallbacks.
\<close>

theorem siteDefaults_agree:
  assumes "LoadSite (po_reader p) (po_namespace p) (po_dashboard_name p) = Inr site"
  shows "siteDefaults p = (site_status_style site, site_hide_errors site)"
proof -
  from assms obtain spec where spec: "boundStyleSpec (po_reader p) (po_namespace p) (po_dashboard_name p) = Inr spec"
    by (auto simp: LoadSite_def split: sum.splits)
  with assms have "site_status_style site = site_status_style
      (case spec of None \<Rightarrow> default_site | Some s \<Rightarrow> applyStyle default_site s)"
    "site_hide_errors site = site_hide_errors
      (case spec of None \<Rightarrow> default_site | Some s \<Rightarrow> applyStyle default_site s)"
    by (auto simp: LoadSite_def Let_def split: sum.splits)
  with spec show ?thesis
    by (auto simp: siteDefaults_def applyStyle_status default_site_def split: option.splits)
qed

theorem siteDefaults_agree_witness:
  "siteDefaults (pe_poller ex_env) =
     (let site = projr (LoadSite ex_secret_reader ''web'' ''home'') in (site_status_style site, site_hide_errors site))"
  unfolding Let_def
  by (rule siteDefaults_agree)
     (simp add: ex_env_def ex_poller_def ex_secret_reader_def ex_reader_def LoadSite_def boundStyleSpec_def
       namespaceDashboardCount_def ex_dashboard_def Let_def)

text \<open>
  A skipped poll leaves the card's error as it is, also when the error came from an earlier monitor
  and this cycle's monitor has none: it stays until the widget's next due poll.
\<close>

lemma stale_monitor_error:
  assumes "store_wf (ps_store st)" "Store_Get (ps_store st) key = Some c" "mp_err m = []"
  shows "\<exists>c'. Store_Get (ps_store (mergeMonitorIntoStoredCard key se m hide now st)) key = Some c' \<and> c_err c' = c_err c"
proof -
  have "c_key c = key" using assms(1,2) by (simp add: store_wf_iff Store_Get_def)
  with assms show ?thesis
    by (simp add: mergeMonitorIntoStoredCard_def with_monitor_def Store_Get_Set Let_def)
qed

end
