(* ===== verification/Sse.thy ===== *)
theory Sse
  imports Prelude
begin

text \<open>
  Server-sent events: the \<^verbatim>\<open>Broadcaster\<close> (\<^verbatim>\<open>internal/dashboard/sse.go\<close>) and the comparison loop of
  \<^verbatim>\<open>handleEvents\<close> (\<^verbatim>\<open>server.go\<close>).  Each operation holds the mutex, so an execution is a sequence of
  them; only receiving from a channel needs no lock, and may fall anywhere inside \<^verbatim>\<open>Publish\<close>.
  Proved here: never more than 256 subscribers, publishing never blocks and leaves the newest
  hashes with every subscriber, and a connected page is told of every content change it has not
  seen, and of nothing else.
\<close>

section \<open>The broadcaster\<close>

record sseHashes =
  sh_fragment :: string
  sh_header :: string

definition maxSSESubscribers :: nat where "maxSSESubscribers = 256"

text \<open>A channel of capacity one is its number and what it buffers; \<open>b_next\<close> names the next \<^verbatim>\<open>make\<close>.\<close>

record Broadcaster =
  b_subs :: "(nat \<times> sseHashes option) list"
  b_next :: nat

definition NewBroadcaster :: Broadcaster where
  "NewBroadcaster = \<lparr>b_subs = [], b_next = 0\<rparr>"

definition Subscribe :: "Broadcaster \<Rightarrow> nat option \<times> Broadcaster" where
  "Subscribe b =
     (if length (b_subs b) \<ge> maxSSESubscribers then (None, b)
      else (Some (b_next b), b\<lparr>b_subs := b_subs b @ [(b_next b, None)], b_next := Suc (b_next b)\<rparr>))"

definition Unsubscribe :: "nat \<Rightarrow> Broadcaster \<Rightarrow> Broadcaster" where
  "Unsubscribe ch b = b\<lparr>b_subs := filter (\<lambda>(c, _). c \<noteq> ch) (b_subs b)\<rparr>"

definition HasSubscribers :: "Broadcaster \<Rightarrow> bool" where
  "HasSubscribers b \<longleftrightarrow> b_subs b \<noteq> []"

text \<open>
  The three \<^verbatim>\<open>select\<close>s of \<^verbatim>\<open>Publish\<close> on one channel.  The subscriber may empty the channel between
  the first and the second and between the second and the third: \<open>d1\<close>, \<open>d2\<close>.
\<close>

definition offer :: "sseHashes \<Rightarrow> bool \<Rightarrow> bool \<Rightarrow> sseHashes option \<Rightarrow> sseHashes option" where
  "offer h d1 d2 buf =
     (if buf = None then Some h
      else
        let buf = (if d1 then None else buf);
            buf = (case buf of Some _ \<Rightarrow> None | None \<Rightarrow> None);
            buf = (if d2 then None else buf)
        in if buf = None then Some h else buf)"

definition Publish :: "(nat \<Rightarrow> bool \<times> bool) \<Rightarrow> string \<Rightarrow> string \<Rightarrow> Broadcaster \<Rightarrow> Broadcaster" where
  "Publish drains fragment header b =
     (let h = \<lparr>sh_fragment = fragment, sh_header = header\<rparr>
      in b\<lparr>b_subs := map (\<lambda>(ch, buf). (ch, case drains ch of (d1, d2) \<Rightarrow> offer h d1 d2 buf)) (b_subs b)\<rparr>)"

text \<open>\<^verbatim>\<open><-ch\<close> when it does not block.\<close>

definition receive :: "nat \<Rightarrow> Broadcaster \<Rightarrow> sseHashes option \<times> Broadcaster" where
  "receive ch b =
     (Option.bind (map_of (b_subs b) ch) id,
      b\<lparr>b_subs := map (\<lambda>(c, buf). (c, if c = ch then None else buf)) (b_subs b)\<rparr>)"

text \<open>Executions, with the hashes published last as history.\<close>

inductive sse_reach :: "Broadcaster \<Rightarrow> sseHashes option \<Rightarrow> bool" where
  sse_new: "sse_reach NewBroadcaster None"
| sse_subscribe: "sse_reach b l \<Longrightarrow> sse_reach (snd (Subscribe b)) l"
| sse_unsubscribe: "sse_reach b l \<Longrightarrow> sse_reach (Unsubscribe ch b) l"
| sse_receive: "sse_reach b l \<Longrightarrow> sse_reach (snd (receive ch b)) l"
| sse_publish: "sse_reach b l \<Longrightarrow>
    sse_reach (Publish drains f h b) (Some \<lparr>sh_fragment = f, sh_header = h\<rparr>)"

inductive_cases sse_reachE: "sse_reach b l"

section \<open>The event loop of one connection\<close>

datatype sse_event = FragmentChanged | HeaderChanged

record sse_conn =
  sc_fragment :: string
  sc_header :: string

definition handle_hashes :: "sseHashes \<Rightarrow> sse_conn \<Rightarrow> sse_event list \<times> sse_conn" where
  "handle_hashes h c =
     (let (e1, c) = (if sh_fragment h \<noteq> [] \<and> sh_fragment h \<noteq> sc_fragment c
                     then ([FragmentChanged], c\<lparr>sc_fragment := sh_fragment h\<rparr>) else ([], c));
          (e2, c) = (if sh_header h \<noteq> [] \<and> sh_header h \<noteq> sc_header c
                     then ([HeaderChanged], c\<lparr>sc_header := sh_header h\<rparr>) else ([], c))
      in (e1 @ e2, c))"

fun event_loop :: "sseHashes list \<Rightarrow> sse_conn \<Rightarrow> sse_event list list \<times> sse_conn" where
  "event_loop [] c = ([], c)"
| "event_loop (h # hs) c =
     (case handle_hashes h c of
        (es, c) \<Rightarrow> (case event_loop hs c of (ess, c) \<Rightarrow> (es # ess, c)))"

section \<open>Lemmas\<close>

lemma offer_latest [simp]: "offer h d1 d2 buf = Some h"
  by (cases buf) (simp_all add: offer_def Let_def)

definition sse_inv :: "Broadcaster \<Rightarrow> sseHashes option \<Rightarrow> bool" where
  "sse_inv b l \<longleftrightarrow> length (b_subs b) \<le> maxSSESubscribers \<and> distinct (map fst (b_subs b)) \<and>
     (\<forall>ch buf. (ch, buf) \<in> set (b_subs b) \<longrightarrow> ch < b_next b \<and> (buf = None \<or> buf = l))"

lemma sse_inv_new: "sse_inv NewBroadcaster None"
  by (simp add: sse_inv_def NewBroadcaster_def)

lemma sse_inv_subscribe: "sse_inv b l \<Longrightarrow> sse_inv (snd (Subscribe b)) l"
  by (fastforce simp: sse_inv_def Subscribe_def)

lemma sse_inv_unsubscribe: "sse_inv b l \<Longrightarrow> sse_inv (Unsubscribe ch b) l"
  unfolding sse_inv_def Unsubscribe_def
  by (auto simp: distinct_map_filter intro: order_trans [OF length_filter_le])

lemma Publish_eq:
  "Publish drains f h b =
     b\<lparr>b_subs := map (\<lambda>s. (fst s, Some \<lparr>sh_fragment = f, sh_header = h\<rparr>)) (b_subs b)\<rparr>"
  by (simp add: Publish_def Let_def case_prod_unfold)

lemma receive_eq:
  "snd (receive ch b) = b\<lparr>b_subs := map (\<lambda>s. (fst s, if fst s = ch then None else snd s)) (b_subs b)\<rparr>"
  by (simp add: receive_def case_prod_unfold)

lemma sse_inv_receive: "sse_inv b l \<Longrightarrow> sse_inv (snd (receive ch b)) l"
  unfolding sse_inv_def receive_eq by (fastforce simp: comp_def)

lemma sse_inv_publish:
  "sse_inv b l \<Longrightarrow> sse_inv (Publish drains f h b) (Some \<lparr>sh_fragment = f, sh_header = h\<rparr>)"
  unfolding sse_inv_def Publish_eq by (fastforce simp: comp_def)

lemma sse_inv_reach: "sse_reach b l \<Longrightarrow> sse_inv b l"
  by (induction rule: sse_reach.induct)
     (auto intro: sse_inv_new sse_inv_subscribe sse_inv_unsubscribe sse_inv_receive sse_inv_publish)

text \<open>What the page has been told of: the last hash that is not empty, else its baseline.\<close>

definition newest :: "(sseHashes \<Rightarrow> string) \<Rightarrow> string \<Rightarrow> sseHashes list \<Rightarrow> string" where
  "newest f base hs = last (base # filter (\<lambda>x. x \<noteq> []) (map f hs))"

lemma newest_simps [simp]:
  "newest f base [] = base"
  "newest f base (h # hs) = newest f (if f h \<noteq> [] then f h else base) hs"
  by (simp_all add: newest_def)

lemma handle_hashes_conn:
  "snd (handle_hashes h c) =
     c\<lparr>sc_fragment := (if sh_fragment h \<noteq> [] then sh_fragment h else sc_fragment c),
       sc_header := (if sh_header h \<noteq> [] then sh_header h else sc_header c)\<rparr>"
  by (simp add: handle_hashes_def Let_def)

lemma handle_hashes_events:
  "(FragmentChanged \<in> set (fst (handle_hashes h c)) \<longleftrightarrow> sh_fragment h \<noteq> [] \<and> sh_fragment h \<noteq> sc_fragment c) \<and>
   (HeaderChanged \<in> set (fst (handle_hashes h c)) \<longleftrightarrow> sh_header h \<noteq> [] \<and> sh_header h \<noteq> sc_header c)"
  by (simp add: handle_hashes_def Let_def)

lemma event_loop_conn:
  "snd (event_loop hs c) =
     c\<lparr>sc_fragment := newest sh_fragment (sc_fragment c) hs, sc_header := newest sh_header (sc_header c) hs\<rparr>"
proof (induction hs arbitrary: c)
  case (Cons h hs)
  have "snd (event_loop (h # hs) c) = snd (event_loop hs (snd (handle_hashes h c)))"
    by (simp split: prod.split)
  then show ?case by (simp add: Cons.IH handle_hashes_conn)
qed simp

section \<open>Properties\<close>

text \<open>
  In every execution the broadcaster holds at most 256 subscribers, a channel buffers nothing but
  the hashes published last, and publishing, whenever the subscribers drain their channels
  meanwhile, leaves exactly the new hashes with every one of them.
\<close>

theorem broadcast_latest:
  assumes "sse_reach b l"
  shows "length (b_subs b) \<le> 256 \<and>
    (\<forall>(ch, buf) \<in> set (b_subs b). buf = None \<or> buf = l) \<and>
    map snd (b_subs (Publish drains f h b)) =
      replicate (length (b_subs b)) (Some \<lparr>sh_fragment = f, sh_header = h\<rparr>)"
  using sse_inv_reach [OF assms]
  by (fastforce simp: sse_inv_def maxSSESubscribers_def Publish_eq comp_def map_replicate_const)

theorem broadcast_latest_witness:
  "(let b = Publish (\<lambda>_. (False, False)) ''1'' ''2'' (snd (Subscribe NewBroadcaster))
    in length (b_subs b) \<le> 256 \<and>
       map snd (b_subs (Publish (\<lambda>_. (True, False)) ''3'' ''4'' b)) =
         replicate (length (b_subs b)) (Some \<lparr>sh_fragment = ''3'', sh_header = ''4''\<rparr>))"
  using broadcast_latest [OF sse_publish [OF sse_subscribe [OF sse_new]]] by (simp add: Let_def)

text \<open>
  C32. A connected page misses no change and hears no false alarm: after any sequence of received
  hashes, the next event for the fragment is sent exactly when the new hash is a real one and
  differs from the newest real one the page knows of (its baseline at first).
\<close>

theorem events_exact:
  "let (before, c) = event_loop hs c0
   in (FragmentChanged \<in> set (fst (handle_hashes h c)) \<longleftrightarrow>
         sh_fragment h \<noteq> [] \<and> sh_fragment h \<noteq> newest sh_fragment (sc_fragment c0) hs) \<and>
      (HeaderChanged \<in> set (fst (handle_hashes h c)) \<longleftrightarrow>
         sh_header h \<noteq> [] \<and> sh_header h \<noteq> newest sh_header (sc_header c0) hs)"
  using event_loop_conn [of hs c0] by (auto simp: handle_hashes_events split: prod.split)

end
