(* ===== verification/Auth.thy ===== *)
theory Auth
  imports Reader
begin

text \<open>
  HTTP Basic authentication (\<^verbatim>\<open>internal/dashboard/auth.go\<close>).  The bcrypt comparison, the dummy hash
  and the decoding of the \<^verbatim>\<open>Authorization\<close> header are arguments; times are seconds.  The
  process-wide credential cache is explicit state, and the other requests and reloads of the
  process are steps of the relation \<open>auth_reach\<close>.  Proved here: no request gets past the
  middleware unless it is the health probe, the Dashboard asks for no authentication, or it
  presents a password matching a hash of an htpasswd file that was current at most the cache's
  lifetime ago.
\<close>

section \<open>The htpasswd file\<close>

definition htpasswdSecretKey :: string where "htpasswdSecretKey = ''.htpasswd''"
definition basicAuthCacheTTL :: int where "basicAuthCacheTTL = 30"

text \<open>
  \<^verbatim>\<open>bufio.Scanner\<close>: the lines of the text, and no more once a line does not fit its buffer of
  65536 bytes.  \<^verbatim>\<open>strings.TrimSpace\<close> for ASCII white space.
\<close>

fun split_lines :: "string \<Rightarrow> string list" where
  "split_lines [] = [[]]"
| "split_lines (c # s) =
     (if c = CHR 0x0A then [] # split_lines s
      else (case split_lines s of [] \<Rightarrow> [[c]] | l # ls \<Rightarrow> (c # l) # ls))"

definition scan_lines :: "string \<Rightarrow> string list" where
  "scan_lines s = takeWhile (\<lambda>l. length l < 65536) (split_lines s)"

definition is_space :: "char \<Rightarrow> bool" where
  "is_space c \<longleftrightarrow> c = CHR 0x20 \<or> (9 \<le> (of_char c :: nat) \<and> (of_char c :: nat) \<le> 13)"

definition trim_space :: "string \<Rightarrow> string" where
  "trim_space s = rev (dropWhile is_space (rev (dropWhile is_space s)))"

definition htpasswd_line :: "string \<Rightarrow> (string \<times> string) option" where
  "htpasswd_line text =
     (let line = trim_space text in
      if line = [] \<or> has_prefix line ''#'' then None
      else case cut_char (CHR '':'') line of
             (user, None) \<Rightarrow> None
           | (user, Some hash) \<Rightarrow>
               if user = [] then None
               else if \<not> has_prefix hash ''$2a$'' \<and> \<not> has_prefix hash ''$2b$'' \<and> \<not> has_prefix hash ''$2y$''
               then None else Some (user, hash))"

definition parseHtpasswd :: "string \<Rightarrow> string gomap" where
  "parseHtpasswd data =
     foldl (\<lambda>m l. case htpasswd_line l of Some (u, h) \<Rightarrow> gput u h m | None \<Rightarrow> m) [] (scan_lines data)"

section \<open>Loading, with the cache\<close>

record authCacheEntry =
  ace_entries :: "string gomap"
  ace_enabled :: bool
  ace_expiry :: int

type_synonym auth_cache = "authCacheEntry gomap"

definition auth_cache_key :: "string \<Rightarrow> string \<Rightarrow> string" where
  "auth_cache_key namespace dashboardName = namespace @ ''/'' @ dashboardName"

text \<open>
  The two readings of the clock are \<open>now\<close> and, after the Secret has been read, \<open>later\<close>.  The
  last component is what was stored, for the history: the file's bytes.
\<close>

definition fetchBasicAuth ::
  "reader \<Rightarrow> string \<Rightarrow> string \<Rightarrow> string \<Rightarrow> int \<Rightarrow> auth_cache \<Rightarrow>
     (string + string gomap \<times> bool) \<times> auth_cache \<times> string option" where
  "fetchBasicAuth secretReader namespace dashboardName secretName later cache =
     (case rd_get_secret secretReader namespace secretName of
        NotFound \<Rightarrow>
          (Inl (''getting basic auth Secret '' @ quoted secretName @ '': not found''), cache, None)
      | GetError e \<Rightarrow>
          (Inl (''getting basic auth Secret '' @ quoted secretName @ '': '' @ e), cache, None)
      | Found data \<Rightarrow>
          (case gget data htpasswdSecretKey of
             None \<Rightarrow> (Inl (''basic auth Secret '' @ quoted secretName @ '' has no '' @
                            quoted htpasswdSecretKey @ '' key''), cache, None)
           | Some bytes \<Rightarrow>
               let entries = parseHtpasswd bytes
               in (Inr (entries, True),
                   gput (auth_cache_key namespace dashboardName)
                     \<lparr>ace_entries = entries, ace_enabled = True,
                      ace_expiry = later + basicAuthCacheTTL\<rparr> cache,
                   Some bytes)))"

definition loadBasicAuth ::
  "reader \<Rightarrow> reader \<Rightarrow> string \<Rightarrow> string \<Rightarrow> int \<Rightarrow> int \<Rightarrow> auth_cache \<Rightarrow>
     (string + string gomap \<times> bool) \<times> auth_cache \<times> string option" where
  "loadBasicAuth rd secretReader namespace dashboardName now later cache =
     (case rd_get_dashboard rd namespace dashboardName of
        NotFound \<Rightarrow> (Inr ([], False), cache, None)
      | GetError e \<Rightarrow> (Inl (''getting Dashboard: '' @ e), cache, None)
      | Found d \<Rightarrow>
          (case Option.bind (ds_auth (d_spec d)) as_basic_auth_secret_ref of
             None \<Rightarrow> (Inr ([], False), cache, None)
           | Some secretName \<Rightarrow>
               (case gget cache (auth_cache_key namespace dashboardName) of
                  Some c \<Rightarrow>
                    if now < ace_expiry c then (Inr (ace_entries c, ace_enabled c), cache, None)
                    else fetchBasicAuth secretReader namespace dashboardName secretName later cache
                | None \<Rightarrow> fetchBasicAuth secretReader namespace dashboardName secretName later cache)))"

definition InvalidateAuthCache :: "string \<Rightarrow> string \<Rightarrow> auth_cache \<Rightarrow> auth_cache" where
  "InvalidateAuthCache namespace dashboardName cache = gdel (auth_cache_key namespace dashboardName) cache"

section \<open>The middleware\<close>

definition healthzPath :: string where "healthzPath = ''/healthz''"
definition maxConcurrentAuthChecks :: nat where "maxConcurrentAuthChecks = 4"

datatype auth_verdict = Pass | Reject nat "(string \<times> string) list" string

text \<open>
  \<open>inflight\<close> is the number of comparisons running when this request reaches the semaphore, which
  admits a fifth one only when it is below four.
\<close>

definition basicAuthMiddleware ::
  "(string \<Rightarrow> string \<Rightarrow> bool) \<Rightarrow> string \<Rightarrow> reader \<Rightarrow> reader \<Rightarrow> string \<Rightarrow> string \<Rightarrow>
     string \<Rightarrow> (string \<times> string) option \<Rightarrow> int \<Rightarrow> int \<Rightarrow> nat \<Rightarrow> auth_cache \<Rightarrow>
     auth_verdict \<times> auth_cache \<times> string option" where
  "basicAuthMiddleware bcrypt dummyHash rd secretReader namespace dashboardName
     path creds now later inflight cache =
     (if path = healthzPath then (Pass, cache, None)
      else case loadBasicAuth rd secretReader namespace dashboardName now later cache of
             (Inl _, cache, w) \<Rightarrow> (Reject 500 [] ''resolving dashboard authentication'', cache, w)
           | (Inr (entries, enabled), cache, w) \<Rightarrow>
               if \<not> enabled then (Pass, cache, w)
               else
                 let unauthorized =
                   (Reject 401 [(''WWW-Authenticate'', ''Basic realm='' @ quoted ''kubepage dashboard'' @
                                  '', charset='' @ quoted ''UTF-8'')] ''authentication required'', cache, w)
                 in case creds of
                      None \<Rightarrow> unauthorized
                    | Some (username, password) \<Rightarrow>
                        let known = gget entries username \<noteq> None;
                            hash = set_opt (gget entries username) dummyHash
                        in if inflight < maxConcurrentAuthChecks then
                             (if known \<and> bcrypt hash password then (Pass, cache, w) else unauthorized)
                           else (Reject 429 [(''Retry-After'', ''1'')]
                                   ''too many concurrent authentication attempts'', cache, w))"

text \<open>
  The semaphore over a set of concurrent requests: a request that finds a free slot holds it for
  its comparison, any other is turned away.
\<close>

inductive sem_reach :: "nat \<Rightarrow> bool" where
  sem_idle: "sem_reach 0"
| sem_acquire: "sem_reach n \<Longrightarrow> n < maxConcurrentAuthChecks \<Longrightarrow> sem_reach (Suc n)"
| sem_release: "sem_reach (Suc n) \<Longrightarrow> sem_reach n"

section \<open>The cache over the life of the process\<close>

record auth_state =
  au_cache :: auth_cache
  au_log :: "(string \<times> string \<times> int) list"

text \<open>The log is history: the key, the bytes of each stored file, and when it was stored.\<close>

definition log_store :: "string \<Rightarrow> string option \<Rightarrow> int \<Rightarrow> (string \<times> string \<times> int) list \<Rightarrow>
    (string \<times> string \<times> int) list" where
  "log_store k w t log = (case w of Some bytes \<Rightarrow> (k, bytes, t) # log | None \<Rightarrow> log)"

inductive auth_reach :: "auth_state \<Rightarrow> bool" where
  reach_init: "auth_reach \<lparr>au_cache = [], au_log = []\<rparr>"
| reach_load: "auth_reach st \<Longrightarrow>
     loadBasicAuth rd srd ns name now later (au_cache st) = (r, cache, w) \<Longrightarrow>
     auth_reach \<lparr>au_cache = cache, au_log = log_store (auth_cache_key ns name) w later (au_log st)\<rparr>"
| reach_invalidate: "auth_reach st \<Longrightarrow>
     auth_reach (st\<lparr>au_cache := InvalidateAuthCache ns name (au_cache st)\<rparr>)"

definition auth_inv :: "auth_state \<Rightarrow> bool" where
  "auth_inv st \<longleftrightarrow> gwf (au_cache st) \<and> (\<forall>k c. gget (au_cache st) k = Some c \<longrightarrow>
     ace_enabled c \<and> (\<exists>bytes t. (k, bytes, t) \<in> set (au_log st) \<and>
       ace_entries c = parseHtpasswd bytes \<and> ace_expiry c = t + basicAuthCacheTTL))"

section \<open>Lemmas\<close>

text \<open>The Secret that the Dashboard names, when it can be read, and the file in it, when that can.\<close>

definition auth_secret :: "reader \<Rightarrow> string \<Rightarrow> string \<Rightarrow> string option" where
  "auth_secret rd ns name =
     (case rd_get_dashboard rd ns name of
        Found d \<Rightarrow> Option.bind (ds_auth (d_spec d)) as_basic_auth_secret_ref
      | _ \<Rightarrow> None)"

definition htpasswd_file :: "reader \<Rightarrow> string \<Rightarrow> string \<Rightarrow> string option" where
  "htpasswd_file srd ns sn =
     (case rd_get_secret srd ns sn of Found data \<Rightarrow> gget data htpasswdSecretKey | _ \<Rightarrow> None)"

definition auth_unresolved :: auth_verdict where
  "auth_unresolved = Reject 500 [] ''resolving dashboard authentication''"

definition auth_off :: "reader \<Rightarrow> string \<Rightarrow> string \<Rightarrow> bool" where
  "auth_off rd ns name \<longleftrightarrow> rd_get_dashboard rd ns name = NotFound \<or>
     (\<exists>d. rd_get_dashboard rd ns name = Found d \<and>
        Option.bind (ds_auth (d_spec d)) as_basic_auth_secret_ref = None)"

lemma fetchBasicAuth_cases:
  assumes "fetchBasicAuth srd ns name sn later cache = (r, cache', w)"
  obtains (err) e where "r = Inl e" "cache' = cache" "w = None"
    | (store) bytes where "htpasswd_file srd ns sn = Some bytes" "r = Inr (parseHtpasswd bytes, True)" "w = Some bytes"
        "cache' = gput (auth_cache_key ns name) \<lparr>ace_entries = parseHtpasswd bytes, ace_enabled = True,
           ace_expiry = later + basicAuthCacheTTL\<rparr> cache"
proof (cases "htpasswd_file srd ns sn")
  case None
  with assms have "\<exists>e. r = Inl e \<and> cache' = cache \<and> w = None"
    by (auto simp: fetchBasicAuth_def htpasswd_file_def split: get_result.splits option.splits)
  with err show ?thesis by blast
next
  case (Some bytes)
  with assms store show ?thesis
    by (auto simp: fetchBasicAuth_def htpasswd_file_def Let_def split: get_result.splits)
qed

lemma loadBasicAuth_cases:
  assumes "loadBasicAuth rd srd ns name now later cache = (r, cache', w)"
  obtains (off) "r = Inr ([], False)" "cache' = cache" "w = None" "auth_off rd ns name"
    | (err) e where "r = Inl e" "cache' = cache" "w = None"
    | (hit) c sn where "auth_secret rd ns name = Some sn" "gget cache (auth_cache_key ns name) = Some c" "now < ace_expiry c"
        "r = Inr (ace_entries c, ace_enabled c)" "cache' = cache" "w = None"
    | (store) bytes sn where "auth_secret rd ns name = Some sn" "htpasswd_file srd ns sn = Some bytes"
        "r = Inr (parseHtpasswd bytes, True)" "w = Some bytes"
        "cache' = gput (auth_cache_key ns name) \<lparr>ace_entries = parseHtpasswd bytes, ace_enabled = True,
           ace_expiry = later + basicAuthCacheTTL\<rparr> cache"
proof (cases "rd_get_dashboard rd ns name")
  case NotFound
  with assms off show ?thesis by (simp add: loadBasicAuth_def auth_off_def)
next
  case (GetError e)
  with assms have "\<exists>e. r = Inl e \<and> cache' = cache \<and> w = None" by (auto simp: loadBasicAuth_def)
  with err show ?thesis by blast
next
  case (Found d)
  show ?thesis
  proof (cases "Option.bind (ds_auth (d_spec d)) as_basic_auth_secret_ref")
    case None
    with assms Found off show ?thesis by (simp add: loadBasicAuth_def auth_off_def)
  next
    case (Some sn)
    with Found have sn: "auth_secret rd ns name = Some sn" by (simp add: auth_secret_def)
    have "(\<exists>c. gget cache (auth_cache_key ns name) = Some c \<and> now < ace_expiry c \<and>
          r = Inr (ace_entries c, ace_enabled c) \<and> cache' = cache \<and> w = None) \<or>
        fetchBasicAuth srd ns name sn later cache = (r, cache', w)"
      using assms Found Some by (auto simp: loadBasicAuth_def split: option.splits if_splits)
    then show ?thesis
    proof
      assume "fetchBasicAuth srd ns name sn later cache = (r, cache', w)"
      then show ?thesis by (cases rule: fetchBasicAuth_cases) (use err store sn in blast)+
    qed (use hit sn in blast)
  qed
qed

lemma auth_inv_reach: "auth_reach st \<Longrightarrow> auth_inv st"
proof (induction rule: auth_reach.induct)
  case reach_init
  then show ?case by (simp add: auth_inv_def)
next
  case (reach_load st rd srd ns name now later r cache w)
  from reach_load(2) show ?case
  proof (cases rule: loadBasicAuth_cases)
    case (store bytes)
    with reach_load.IH show ?thesis
      by (auto simp: auth_inv_def log_store_def gm.get_put gm.wf_put split: if_splits)
  qed (use reach_load.IH in \<open>auto simp: auth_inv_def log_store_def\<close>)
next
  case (reach_invalidate st ns name)
  then show ?case
    by (auto simp: auth_inv_def InvalidateAuthCache_def gm.get_del gm.wf_del split: if_splits)
qed

lemma middleware_pass:
  assumes "basicAuthMiddleware bcrypt dummy rd srd ns name path creds now later inflight cache0 = (Pass, cache, w)"
    and "path \<noteq> healthzPath" "loadBasicAuth rd srd ns name now later cache0 = (r, c, w')"
  shows "\<exists>entries enabled. r = Inr (entries, enabled) \<and> w = w' \<and>
    (enabled \<longrightarrow> inflight < maxConcurrentAuthChecks \<and>
      (\<exists>user pw hash. creds = Some (user, pw) \<and> bcrypt hash pw \<and> gget entries user = Some hash))"
proof (cases r)
  case (Inr p)
  obtain entries enabled where p: "p = (entries, enabled)" by fastforce
  note eq = assms(1) [unfolded basicAuthMiddleware_def Let_def assms(3) Inr p prod.case sum.case
      if_not_P [OF assms(2)]]
  show ?thesis
  proof (cases "enabled \<and> creds \<noteq> None")
    case False
    with eq Inr p show ?thesis by (cases creds) (auto split: if_splits)
  next
    case True
    then obtain user pw where "creds = Some (user, pw)" by auto
    with True eq Inr p show ?thesis
      by (cases "gget entries user") (auto split: if_split_asm)
  qed
next
  case (Inl e)
  with assms show ?thesis by (simp add: basicAuthMiddleware_def)
qed

lemma sem_bound: "sem_reach n \<Longrightarrow> n \<le> maxConcurrentAuthChecks"
  by (induction rule: sem_reach.induct) auto

section \<open>Properties\<close>

text \<open>
  C5. Fail closed.  After any history of loads and invalidations, a request that the middleware lets
  through is the health probe, or the Dashboard was read and is gone or configures no authentication,
  or it was read and names a Secret, a comparison slot was free, and the password matches the hash of
  its user in an htpasswd file: the one this request reads from that Secret, or one that an earlier
  request had read and stored less than the cache's lifetime before.  A Dashboard that cannot be read
  refuses every other request, whatever is cached; so does a Secret that is needed and cannot be read or
  has no such file.
\<close>

theorem auth_fail_closed:
  assumes reach: "auth_reach st"
    and run: "basicAuthMiddleware bcrypt dummy rd srd ns name path creds now later inflight (au_cache st) =
      (v, cache, w)"
  shows "(v = Pass \<longrightarrow> path = healthzPath \<or> auth_off rd ns name \<or>
      (\<exists>sn user pw hash bytes. auth_secret rd ns name = Some sn \<and> inflight < maxConcurrentAuthChecks \<and>
         creds = Some (user, pw) \<and> bcrypt hash pw \<and> gget (parseHtpasswd bytes) user = Some hash \<and>
         (htpasswd_file srd ns sn = Some bytes \<or>
          (\<exists>t. (auth_cache_key ns name, bytes, t) \<in> set (au_log st) \<and> now < t + basicAuthCacheTTL)))) \<and>
    (path \<noteq> healthzPath \<and> (\<exists>e. rd_get_dashboard rd ns name = GetError e) \<longrightarrow> v = auth_unresolved) \<and>
    (\<forall>sn. path \<noteq> healthzPath \<and> auth_secret rd ns name = Some sn \<and> htpasswd_file srd ns sn = None \<and>
       (\<forall>c. gget (au_cache st) (auth_cache_key ns name) = Some c \<longrightarrow> ace_expiry c \<le> now) \<longrightarrow> v = auth_unresolved)"
proof (intro conjI impI allI)
  obtain r c w' where load: "loadBasicAuth rd srd ns name now later (au_cache st) = (r, c, w')"
    by (metis prod_cases3)
  show "path = healthzPath \<or> auth_off rd ns name \<or>
      (\<exists>sn user pw hash bytes. auth_secret rd ns name = Some sn \<and> inflight < maxConcurrentAuthChecks \<and>
         creds = Some (user, pw) \<and> bcrypt hash pw \<and> gget (parseHtpasswd bytes) user = Some hash \<and>
         (htpasswd_file srd ns sn = Some bytes \<or>
          (\<exists>t. (auth_cache_key ns name, bytes, t) \<in> set (au_log st) \<and> now < t + basicAuthCacheTTL)))"
    if "v = Pass"
  proof (cases "path = healthzPath")
    case False
    note p = middleware_pass [OF run [unfolded that] False load]
    from load show ?thesis
    proof (cases rule: loadBasicAuth_cases)
      case (hit e)
      with auth_inv_reach [OF reach] obtain bytes t where "ace_enabled e"
        "(auth_cache_key ns name, bytes, t) \<in> set (au_log st)" "ace_entries e = parseHtpasswd bytes"
        "ace_expiry e = t + basicAuthCacheTTL"
        unfolding auth_inv_def by blast
      with p hit show ?thesis by fastforce
    next
      case (store bytes)
      with p show ?thesis by fastforce
    qed (use p in auto)
  qed simp
  show "v = auth_unresolved" if "path \<noteq> healthzPath \<and> (\<exists>e. rd_get_dashboard rd ns name = GetError e)"
    using run that by (auto simp: basicAuthMiddleware_def loadBasicAuth_def auth_unresolved_def)
  show "v = auth_unresolved" if *: "path \<noteq> healthzPath \<and> auth_secret rd ns name = Some sn \<and> htpasswd_file srd ns sn = None \<and>
      (\<forall>c. gget (au_cache st) (auth_cache_key ns name) = Some c \<longrightarrow> ace_expiry c \<le> now)" for sn
  proof -
    from load * have "\<exists>e. r = Inl e"
      by (cases rule: loadBasicAuth_cases) (auto simp: auth_off_def auth_secret_def dest: spec)
    with run * load show ?thesis by (auto simp: basicAuthMiddleware_def auth_unresolved_def)
  qed
qed

definition ex_auth_dashboard :: dashboard where
  "ex_auth_dashboard = (ex_dashboard ''web'' ''home'')\<lparr>d_spec := zero_dashboard_spec\<lparr>ds_auth :=
     Some \<lparr>as_basic_auth_secret_ref = Some ''users''\<rparr>\<rparr>\<rparr>"

definition ex_auth_reader :: reader where
  "ex_auth_reader = ex_reader ex_auth_dashboard [] [] [] [(''users'', [(''.htpasswd'', ''ann:$2y$ok'')])]"

definition ex_auth_run :: "reader \<Rightarrow> auth_verdict" where
  "ex_auth_run srd = fst (basicAuthMiddleware (\<lambda>h p. h = ''$2y$ok'') ''dummy'' ex_auth_reader srd ''web'' ''home''
     ''/'' (Some (''ann'', ''pw'')) 5 5 0 [])"

theorem auth_fail_closed_witness:
  "ex_auth_run ex_auth_reader = Pass \<and>
   (\<exists>hash bytes. htpasswd_file ex_auth_reader ''web'' ''users'' = Some bytes \<and>
      gget (parseHtpasswd bytes) ''ann'' = Some hash \<and> hash = ''$2y$ok'') \<and>
   ex_auth_run (ex_reader ex_auth_dashboard [] [] [] []) = auth_unresolved"
proof -
  have users: "auth_secret ex_auth_reader ''web'' ''home'' = Some ''users''"
    by (simp add: auth_secret_def ex_auth_reader_def ex_reader_def ex_auth_dashboard_def ex_dashboard_def)
  have on: "\<not> auth_off ex_auth_reader ''web'' ''home''"
    by (simp add: auth_off_def ex_auth_reader_def ex_reader_def ex_auth_dashboard_def ex_dashboard_def)
  have missing: "htpasswd_file (ex_reader ex_auth_dashboard [] [] [] []) ''web'' ''users'' = None"
    by (simp add: htpasswd_file_def ex_reader_def gget_def)
  have "parseHtpasswd ''ann:$2y$ok'' = [(''ann'', ''$2y$ok'')]"
    by (simp add: parseHtpasswd_def scan_lines_def htpasswd_line_def trim_space_def is_space_def
        Let_def gput_def)
  then have pass: "ex_auth_run ex_auth_reader = Pass"
    by (simp add: ex_auth_run_def basicAuthMiddleware_def loadBasicAuth_def fetchBasicAuth_def ex_auth_reader_def ex_reader_def
        ex_auth_dashboard_def ex_dashboard_def gget_def htpasswdSecretKey_def healthzPath_def
        maxConcurrentAuthChecks_def Let_def)
  have eq: "basicAuthMiddleware (\<lambda>h p. h = ''$2y$ok'') ''dummy'' ex_auth_reader srd ''web'' ''home'' ''/''
      (Some (''ann'', ''pw'')) 5 5 0 (au_cache \<lparr>au_cache = [], au_log = []\<rparr>) = (ex_auth_run srd, cache, w)"
    if "basicAuthMiddleware (\<lambda>h p. h = ''$2y$ok'') ''dummy'' ex_auth_reader srd ''web'' ''home'' ''/''
      (Some (''ann'', ''pw'')) 5 5 0 [] = (v, cache, w)" for srd v cache w
    using that by (simp add: ex_auth_run_def)
  obtain v1 c1 w1 v2 c2 w2 where
    "basicAuthMiddleware (\<lambda>h p. h = ''$2y$ok'') ''dummy'' ex_auth_reader ex_auth_reader ''web'' ''home'' ''/''
      (Some (''ann'', ''pw'')) 5 5 0 [] = (v1, c1, w1)"
    "basicAuthMiddleware (\<lambda>h p. h = ''$2y$ok'') ''dummy'' ex_auth_reader (ex_reader ex_auth_dashboard [] [] [] []) ''web'' ''home'' ''/''
      (Some (''ann'', ''pw'')) 5 5 0 [] = (v2, c2, w2)"
    by (metis prod_cases3)
  note closed = auth_fail_closed [OF reach_init eq [OF this(1)]] auth_fail_closed [OF reach_init eq [OF this(2)]]
  from closed(1) pass users on have "\<exists>hash bytes. htpasswd_file ex_auth_reader ''web'' ''users'' = Some bytes \<and>
      gget (parseHtpasswd bytes) ''ann'' = Some hash \<and> hash = ''$2y$ok''"
    by (auto simp: healthzPath_def)
  moreover from closed(2) users missing have "ex_auth_run (ex_reader ex_auth_dashboard [] [] [] []) = auth_unresolved"
    by (auto simp: healthzPath_def gget_def)
  ultimately show ?thesis using pass by blast
qed

text \<open>
  A changed reference is not noticed while the entry of the old Secret lives: the cache is keyed by
  the Dashboard alone.
\<close>

lemma auth_cache_ignores_ref:
  "rd_get_dashboard rd ns name = Found d \<Longrightarrow> ds_auth (d_spec d) = Some \<lparr>as_basic_auth_secret_ref = Some s\<rparr> \<Longrightarrow>
   gget cache (auth_cache_key ns name) = Some c \<Longrightarrow> now < ace_expiry c \<Longrightarrow>
   loadBasicAuth rd srd ns name now later cache = (Inr (ace_entries c, ace_enabled c), cache, None)"
  by (simp add: loadBasicAuth_def Let_def)

end
