(* ===== verification/Server.thy ===== *)
theory Server
  imports Tabs Header Render Auth Sse "HOL-Library.Word"
begin

text \<open>
  The HTTP handlers (\<^verbatim>\<open>internal/dashboard/server.go\<close>).  A handler is a function from the request's
  headers to a response (status, header map, body); writing to the connection does not fail.  The
  arguments \<open>render_cards\<close>, \<open>render_header\<close>, \<open>render_index\<close> are the generated templates,
  \<open>gz\<close> the gzip encoder, \<open>json_encode\<close> the JSON encoder and \<open>assets\<close> the embedded files.
  Proved here: the change hash that is pushed to the pages is the entity tag they get for the same
  content, a page that presents the current tag gets an empty 304 and any other the whole body,
  and every response of the whole chain (headers, authentication, multiplexer, handlers) carries the
  security headers.
\<close>

section \<open>Responses\<close>

record response =
  rs_status :: nat
  rs_headers :: "string gomap"
  rs_body :: string

definition set_header :: "string \<Rightarrow> string \<Rightarrow> response \<Rightarrow> response" where
  "set_header k v r = r\<lparr>rs_headers := gput k v (rs_headers r)\<rparr>"

definition empty_response :: response where
  "empty_response = \<lparr>rs_status = 200, rs_headers = [], rs_body = []\<rparr>"

text \<open>\<^verbatim>\<open>http.Error\<close>\<close>

definition http_error :: "string \<Rightarrow> nat \<Rightarrow> response \<Rightarrow> response" where
  "http_error msg status r =
     (set_header ''X-Content-Type-Options'' ''nosniff''
       (set_header ''Content-Type'' ''text/plain; charset=utf-8'' r))
     \<lparr>rs_status := status, rs_body := msg @ [CHR 0x0A]\<rparr>"

definition http_not_found :: "response \<Rightarrow> response" where
  "http_not_found r = http_error ''404 page not found'' 404 r"

section \<open>Entity tags\<close>

text \<open>FNV-1a on 64-bit words: the multiplication wraps.\<close>

definition fnv1a64 :: "string \<Rightarrow> 64 word" where
  "fnv1a64 b = foldl (\<lambda>h c. xor h (of_nat (of_char c)) * 1099511628211) 14695981039346656037 b"

fun fmt_hex :: "nat \<Rightarrow> string" where
  "fmt_hex n = (if n < 16 then [hex_digit n] else fmt_hex (n div 16) @ [hex_digit (n mod 16)])"

declare fmt_hex.simps [simp del]

definition etagFor :: "string \<Rightarrow> string" where
  "etagFor b = [CHR 0x22] @ fmt_hex (unat (fnv1a64 b)) @ [CHR 0x22]"

definition writeCachedHTML ::
  "(string \<Rightarrow> string) \<Rightarrow> string gomap \<Rightarrow> (string + string) \<Rightarrow> response \<Rightarrow> string + response" where
  "writeCachedHTML gz req rendered r =
     (case rendered of
        Inl e \<Rightarrow> Inl e
      | Inr buf \<Rightarrow>
          let sum = etagFor buf;
              r = set_header ''ETag'' sum r;
              r = set_header ''Cache-Control'' ''no-cache'' r;
              r = set_header ''Vary'' ''Accept-Encoding'' r
          in if gstr req ''If-None-Match'' = sum then Inr (r\<lparr>rs_status := 304\<rparr>)
             else
               let r = set_header ''Content-Type'' ''text/html; charset=utf-8'' r
               in if contains (gstr req ''Accept-Encoding'') ''gzip''
                  then Inr ((set_header ''Content-Encoding'' ''gzip'' r)\<lparr>rs_body := gz buf\<rparr>)
                  else Inr (r\<lparr>rs_body := buf\<rparr>))"

section \<open>Template data\<close>

record fragmentData =
  fd_tabs :: "layoutTab list"
  fd_bookmark_groups :: "BookmarkGroup list"
  fd_site_target :: string
  fd_disable_collapse :: bool
  fd_bookmarks_icons_only :: bool

definition buildFragmentData :: "Card list \<Rightarrow> Site \<Rightarrow> fragmentData" where
  "buildFragmentData cards site =
     \<lparr>fd_tabs = layoutTabs (mergeServiceCards (serviceCards cards)) site,
      fd_bookmark_groups = site_bookmark_groups site, fd_site_target = site_target site,
      fd_disable_collapse = site_disable_collapse site,
      fd_bookmarks_icons_only = site_bookmarks_icons_only site\<rparr>"

record indexData =
  id_site :: Site
  id_accent_hex :: string
  id_ramp :: Ramp
  id_refresh_seconds :: int
  id_fragment :: fragmentData
  id_version :: string
  id_commit :: string
  id_sample_data :: bool
  id_auth_enabled :: bool

record Server =
  sv_reader :: reader
  sv_secret_reader :: reader
  sv_namespace :: string
  sv_dashboard_name :: string
  sv_store :: Store
  sv_refresh_seconds :: int
  sv_version :: string
  sv_commit :: string
  sv_sample_data :: bool

section \<open>Handlers\<close>

definition handleFragment :: "(fragmentData \<Rightarrow> string + string) \<Rightarrow> (string \<Rightarrow> string) \<Rightarrow> Server \<Rightarrow>
    string gomap \<Rightarrow> response \<Rightarrow> response" where
  "handleFragment render_cards gz s req r =
     (case LoadSite (sv_reader s) (sv_namespace s) (sv_dashboard_name s) of
        Inl e \<Rightarrow> http_error e 500 r
      | Inr site \<Rightarrow>
          (case writeCachedHTML gz req (render_cards (buildFragmentData (Store_Snapshot (sv_store s)) site)) r of
             Inl e \<Rightarrow> http_error e 500 r
           | Inr r' \<Rightarrow> r'))"

definition handleHeader :: "(headerWidgetView list \<Rightarrow> string + string) \<Rightarrow> (string \<Rightarrow> string) \<Rightarrow> Server \<Rightarrow>
    string gomap \<Rightarrow> response \<Rightarrow> response" where
  "handleHeader render_header gz s req r =
     (case LoadSite (sv_reader s) (sv_namespace s) (sv_dashboard_name s) of
        Inl e \<Rightarrow> http_error e 500 r
      | Inr site \<Rightarrow>
          (case writeCachedHTML gz req
                  (render_header (buildHeader (site_header_widgets site) (Store_Snapshot (sv_store s)))) r of
             Inl e \<Rightarrow> http_error e 500 r
           | Inr r' \<Rightarrow> r'))"

definition currentHashes ::
  "(fragmentData \<Rightarrow> string + string) \<Rightarrow> (headerWidgetView list \<Rightarrow> string + string) \<Rightarrow>
     reader \<Rightarrow> string \<Rightarrow> string \<Rightarrow> Store \<Rightarrow> string \<times> string" where
  "currentHashes render_cards render_header rd namespace dashboardName store =
     (case LoadSite rd namespace dashboardName of
        Inl _ \<Rightarrow> ([], [])
      | Inr site \<Rightarrow>
          let cards = Store_Snapshot store
          in ((case render_cards (buildFragmentData cards site) of Inl _ \<Rightarrow> [] | Inr b \<Rightarrow> etagFor b),
              (case render_header (buildHeader (site_header_widgets site) cards) of
                 Inl _ \<Rightarrow> [] | Inr b \<Rightarrow> etagFor b)))"

text \<open>Rendering goes straight to the connection: an error after the first byte is not modelled.\<close>

definition handleIndex :: "(indexData \<Rightarrow> string + string) \<Rightarrow> Server \<Rightarrow> int \<Rightarrow> int \<Rightarrow> auth_cache \<Rightarrow>
    response \<Rightarrow> response \<times> auth_cache" where
  "handleIndex render_index s now later cache r =
     (let refresh = (if sv_refresh_seconds s \<le> 0 then 10 else sv_refresh_seconds s)
      in case LoadSite (sv_reader s) (sv_namespace s) (sv_dashboard_name s) of
           Inl e \<Rightarrow> (http_error e 500 r, cache)
         | Inr site \<Rightarrow>
             (case loadBasicAuth (sv_reader s) (sv_secret_reader s) (sv_namespace s) (sv_dashboard_name s)
                     now later cache of
                (Inl e, cache, _) \<Rightarrow> (http_error e 500 r, cache)
              | (Inr (_, authEnabled), cache, _) \<Rightarrow>
                  let r = set_header ''Content-Type'' ''text/html; charset=utf-8'' r;
                      data = \<lparr>id_site = site, id_accent_hex = AccentHex (site_color site),
                        id_ramp = PaletteRamp (site_color site), id_refresh_seconds = refresh,
                        id_fragment = buildFragmentData (Store_Snapshot (sv_store s)) site,
                        id_version = sv_version s, id_commit = sv_commit s,
                        id_sample_data = sv_sample_data s, id_auth_enabled = authEnabled\<rparr>
                  in ((case render_index data of
                         Inl e \<Rightarrow> http_error e 500 r | Inr b \<Rightarrow> r\<lparr>rs_body := b\<rparr>), cache)))"

definition pwaIconPath :: string where "pwaIconPath = ''/assets/icon.svg''"

definition manifest_json :: "Site \<Rightarrow> json" where
  "manifest_json site =
     (let bg = (if site_theme site = ''light'' then r_c50 (PaletteRamp (site_color site))
                else r_c900 (PaletteRamp (site_color site)))
      in JObj [(''name'', JStr (site_title site)), (''short_name'', JStr (site_title site)),
               (''theme_color'', JStr (AccentHex (site_color site))), (''background_color'', JStr bg),
               (''display'', JStr ''standalone''), (''start_url'', JStr (site_start_url site)),
               (''icons'', JArr [JObj [(''src'', JStr pwaIconPath), (''sizes'', JStr ''any''),
                                       (''type'', JStr ''image/svg+xml'')]])])"

definition handleManifest :: "(json \<Rightarrow> string) \<Rightarrow> Server \<Rightarrow> response \<Rightarrow> response" where
  "handleManifest json_encode s r =
     (case LoadSite (sv_reader s) (sv_namespace s) (sv_dashboard_name s) of
        Inl e \<Rightarrow> http_error e 500 r
      | Inr site \<Rightarrow>
          (set_header ''Content-Type'' ''application/manifest+json'' r)
            \<lparr>rs_body := json_encode (manifest_json site) @ [CHR 0x0A]\<rparr>)"

definition handleRobots :: "Server \<Rightarrow> response \<Rightarrow> response" where
  "handleRobots s r =
     (case LoadSite (sv_reader s) (sv_namespace s) (sv_dashboard_name s) of
        Inl e \<Rightarrow> http_error e 500 r
      | Inr site \<Rightarrow>
          (set_header ''Content-Type'' ''text/plain; charset=utf-8'' r)
            \<lparr>rs_body := ''User-agent: *'' @ [CHR 0x0A] @
              (if site_disable_indexing site then ''Disallow: /'' else ''Allow: /'') @ [CHR 0x0A]\<rparr>)"

definition handleAsset :: "(string \<Rightarrow> string option) \<Rightarrow> string \<Rightarrow> response \<Rightarrow> response" where
  "handleAsset assets name r =
     (if name = ''sw.js'' then http_not_found r
      else case assets (''assets/'' @ name) of
             None \<Rightarrow> http_not_found r
           | Some b \<Rightarrow>
               let r = (if has_suffix name ''.woff2'' then set_header ''Content-Type'' ''font/woff2'' r
                        else if has_suffix name ''.js''
                        then set_header ''Content-Type'' ''text/javascript; charset=utf-8'' r
                        else if has_suffix name ''.svg'' then set_header ''Content-Type'' ''image/svg+xml'' r
                        else r);
                   r = set_header ''Cache-Control'' ''public, max-age=31536000, immutable'' r
               in r\<lparr>rs_body := b\<rparr>)"

definition handleServiceWorker :: "string \<Rightarrow> response \<Rightarrow> response" where
  "handleServiceWorker swJS r =
     (set_header ''Cache-Control'' ''no-cache''
       (set_header ''Content-Type'' ''text/javascript; charset=utf-8'' r))\<lparr>rs_body := swJS\<rparr>"

section \<open>Security headers\<close>

text \<open>Unpadded URL-safe base 64 of the random bytes.\<close>

definition b64_char :: "nat \<Rightarrow> char" where
  "b64_char n = (if n < 26 then char_of (65 + n) else if n < 52 then char_of (71 + n)
     else if n < 62 then char_of (n - 4) else if n = 62 then CHR ''-'' else CHR ''_'')"

fun b64_encode :: "string \<Rightarrow> string" where
  "b64_encode (a # b # c # s) =
     (let n = (of_char a :: nat) * 65536 + of_char b * 256 + of_char c
      in [b64_char (n div 262144), b64_char (n div 4096 mod 64), b64_char (n div 64 mod 64),
          b64_char (n mod 64)] @ b64_encode s)"
| "b64_encode [a, b] =
     (let n = (of_char a :: nat) * 65536 + of_char b * 256
      in [b64_char (n div 262144), b64_char (n div 4096 mod 64), b64_char (n div 64 mod 64)])"
| "b64_encode [a] =
     (let n = (of_char a :: nat) * 65536 in [b64_char (n div 262144), b64_char (n div 4096 mod 64)])"
| "b64_encode [] = []"

definition nonceByteLength :: nat where "nonceByteLength = 16"

definition generateNonce :: "string \<Rightarrow> string" where
  "generateNonce rand = b64_encode (take nonceByteLength rand)"

definition squoted :: "string \<Rightarrow> string" where
  "squoted s = [CHR 0x27] @ s @ [CHR 0x27]"

definition contentSecurityPolicy :: "string \<Rightarrow> string" where
  "contentSecurityPolicy nonce =
     ''default-src '' @ squoted ''self'' @ ''; '' @
     ''img-src '' @ squoted ''self'' @ '' https: data:; '' @
     ''frame-src https:; '' @
     ''style-src '' @ squoted ''self'' @ '' '' @ squoted (''nonce-'' @ nonce) @ ''; '' @
     ''style-src-attr '' @ squoted ''unsafe-inline'' @ ''; '' @
     ''script-src '' @ squoted ''self'' @ '' '' @ squoted (''nonce-'' @ nonce) @ ''; '' @
     ''script-src-attr '' @ squoted ''unsafe-inline'' @ ''; '' @
     ''worker-src '' @ squoted ''self'' @ ''; '' @
     ''connect-src '' @ squoted ''self'' @ ''; '' @
     ''frame-ancestors '' @ squoted ''none'' @ ''; '' @
     ''base-uri '' @ squoted ''self'' @ ''; '' @
     ''form-action '' @ squoted ''self''"

text \<open>The inner handler gets the nonce through the request's context.\<close>

definition securityHeaders :: "(string \<Rightarrow> response \<Rightarrow> response) \<Rightarrow> string \<Rightarrow> response \<Rightarrow> response" where
  "securityHeaders inner rand r =
     (let nonce = generateNonce rand
      in inner nonce
           (set_header ''Referrer-Policy'' ''no-referrer''
             (set_header ''X-Frame-Options'' ''DENY''
               (set_header ''X-Content-Type-Options'' ''nosniff''
                 (set_header ''Content-Security-Policy'' (contentSecurityPolicy nonce) r)))))"

text \<open>\<^verbatim>\<open>securityHeaders(s.basicAuthMiddleware(mux))\<close>: \<open>mux\<close> is what the routed handler answers.\<close>

definition apply_verdict :: "auth_verdict \<Rightarrow> (response \<Rightarrow> response) \<Rightarrow> response \<Rightarrow> response" where
  "apply_verdict v inner r =
     (case v of
        Pass \<Rightarrow> inner r
      | Reject status headers msg \<Rightarrow>
          http_error msg status (foldl (\<lambda>r (k, v). set_header k v r) r headers))"

definition Routes :: "(string \<Rightarrow> response \<Rightarrow> response) \<Rightarrow> auth_verdict \<Rightarrow> string \<Rightarrow> response" where
  "Routes mux v rand = securityHeaders (\<lambda>nonce. apply_verdict v (mux nonce)) rand empty_response"

section \<open>Routing\<close>

text \<open>A new connection to \<^verbatim>\<open>/events\<close>; what is written to it afterwards is in theory \<^verbatim>\<open>Sse\<close>.\<close>

definition handleEvents :: "Broadcaster option \<Rightarrow> response \<Rightarrow> response" where
  "handleEvents broadcast r =
     (case broadcast of
        None \<Rightarrow> http_error ''server-sent events not available'' 501 r
      | Some b \<Rightarrow>
          (case fst (Subscribe b) of
             None \<Rightarrow> http_error ''too many active event streams'' 503 r
           | Some ch \<Rightarrow>
               set_header ''X-Accel-Buffering'' ''no'' (set_header ''Connection'' ''keep-alive''
                 (set_header ''Cache-Control'' ''no-cache'' (set_header ''Content-Type'' ''text/event-stream'' r)))))"

record request =
  rq_method :: string
  rq_uri :: string
  rq_path :: string
  rq_escaped_path :: string
  rq_headers :: "string gomap"
  rq_creds :: "(string \<times> string) option"

text \<open>
  Of \<^verbatim>\<open>http.ServeMux\<close>: the cleaning of a path, the unescaping of a segment, and the URL and the body of a
  redirect to the cleaned path.
\<close>

record mux_lib =
  mx_clean :: "string \<Rightarrow> string"
  mx_unescape :: "string \<Rightarrow> string"
  mx_location :: "request \<Rightarrow> string \<Rightarrow> string"
  mx_link :: "string \<Rightarrow> string"

record page_lib =
  pg_index :: "string \<Rightarrow> indexData \<Rightarrow> string + string"
  pg_cards :: "fragmentData \<Rightarrow> string + string"
  pg_header :: "headerWidgetView list \<Rightarrow> string + string"
  pg_gzip :: "string \<Rightarrow> string"
  pg_json :: "json \<Rightarrow> string"
  pg_assets :: "string \<Rightarrow> string option"
  pg_sw :: string

datatype route = Index_Page | Fragment_Page | Header_Page | Events | Asset string | Manifest | Robots
  | Service_Worker | Healthz

fun path_segments :: "string \<Rightarrow> string list" where
  "path_segments [] = [[]]"
| "path_segments (c # s) =
     (if c = slash then [] # path_segments s
      else case path_segments s of [] \<Rightarrow> [[c]] | seg # segs \<Rightarrow> (c # seg) # segs)"

text \<open>The patterns of \<^verbatim>\<open>Routes\<close>, on a path that starts with a slash; a wildcard takes no empty segment.\<close>

definition match_route :: "(string \<Rightarrow> string) \<Rightarrow> string \<Rightarrow> route option" where
  "match_route unescape path =
     (case map unescape (path_segments (drop 1 path)) of
        [a] \<Rightarrow>
          if a = [] then Some Index_Page
          else if a = ''fragment'' then Some Fragment_Page
          else if a = ''header'' then Some Header_Page
          else if a = ''events'' then Some Events
          else if a = ''manifest.json'' then Some Manifest
          else if a = ''robots.txt'' then Some Robots
          else if a = ''sw.js'' then Some Service_Worker
          else if a = ''healthz'' then Some Healthz
          else None
      | [a, file] \<Rightarrow> if a = ''assets'' \<and> file \<noteq> [] then Some (Asset file) else None
      | _ \<Rightarrow> None)"

fun serve_route :: "page_lib \<Rightarrow> Server \<Rightarrow> Broadcaster option \<Rightarrow> int \<Rightarrow> int \<Rightarrow> auth_cache \<Rightarrow> request \<Rightarrow> string \<Rightarrow>
    route \<Rightarrow> response \<Rightarrow> response" where
  "serve_route pg s bc now later cache rq nonce Index_Page r = fst (handleIndex (pg_index pg nonce) s now later cache r)"
| "serve_route pg s bc now later cache rq nonce Fragment_Page r = handleFragment (pg_cards pg) (pg_gzip pg) s (rq_headers rq) r"
| "serve_route pg s bc now later cache rq nonce Header_Page r = handleHeader (pg_header pg) (pg_gzip pg) s (rq_headers rq) r"
| "serve_route pg s bc now later cache rq nonce Events r = handleEvents bc r"
| "serve_route pg s bc now later cache rq nonce (Asset file) r = handleAsset (pg_assets pg) file r"
| "serve_route pg s bc now later cache rq nonce Manifest r = handleManifest (pg_json pg) s r"
| "serve_route pg s bc now later cache rq nonce Robots r = handleRobots s r"
| "serve_route pg s bc now later cache rq nonce Service_Worker r = handleServiceWorker (pg_sw pg) r"
| "serve_route pg s bc now later cache rq nonce Healthz r = r"

text \<open>
  \<^verbatim>\<open>ServeMux.ServeHTTP\<close> with these patterns, all of them for \<^verbatim>\<open>GET\<close>, which admits \<^verbatim>\<open>HEAD\<close>: a path that is
  not clean is redirected, unless the method is \<^verbatim>\<open>CONNECT\<close>.
\<close>

definition serve_mux :: "mux_lib \<Rightarrow> page_lib \<Rightarrow> Server \<Rightarrow> Broadcaster option \<Rightarrow> int \<Rightarrow> int \<Rightarrow> auth_cache \<Rightarrow> request \<Rightarrow>
    string \<Rightarrow> response \<Rightarrow> response" where
  "serve_mux ml pg s bc now later cache rq nonce r =
     (let path = (if rq_method rq = ''CONNECT'' then rq_escaped_path rq else mx_clean ml (rq_escaped_path rq))
      in if rq_uri rq = ''*'' then (set_header ''Connection'' ''close'' r)\<lparr>rs_status := 400\<rparr>
         else if path \<noteq> rq_escaped_path rq then
           let r = set_header ''Location'' (mx_location ml rq path) r
           in (if rq_method rq \<in> {''GET'', ''HEAD''} then set_header ''Content-Type'' ''text/html; charset=utf-8'' r else r)
                \<lparr>rs_status := 301, rs_body := if rq_method rq = ''GET'' then mx_link ml (mx_location ml rq path) else []\<rparr>
         else case match_route (mx_unescape ml) path of
                None \<Rightarrow> http_not_found r
              | Some rt \<Rightarrow>
                  if rq_method rq \<in> {''GET'', ''HEAD''} then serve_route pg s bc now later cache rq nonce rt r
                  else http_error ''Method Not Allowed'' 405 (set_header ''Allow'' ''GET, HEAD'' r))"

text \<open>One request through the whole chain; \<open>inflight\<close> password comparisons are under way.\<close>

definition respond :: "mux_lib \<Rightarrow> page_lib \<Rightarrow> Server \<Rightarrow> Broadcaster option \<Rightarrow> (string \<Rightarrow> string \<Rightarrow> bool) \<Rightarrow> string \<Rightarrow>
    request \<Rightarrow> int \<Rightarrow> int \<Rightarrow> nat \<Rightarrow> auth_cache \<Rightarrow> string \<Rightarrow> response" where
  "respond ml pg s bc bcrypt dummyHash rq now later inflight cache rand =
     (case basicAuthMiddleware bcrypt dummyHash (sv_reader s) (sv_secret_reader s) (sv_namespace s) (sv_dashboard_name s)
             (rq_path rq) (rq_creds rq) now later inflight cache of
        (verdict, cache, _) \<Rightarrow> Routes (serve_mux ml pg s bc now later cache rq) verdict rand)"

section \<open>Lemmas\<close>

lemma b64_first: "(n :: nat) < 16777216 \<Longrightarrow> n div 262144 < 64"
  by (simp add: less_mult_imp_div_less)

lemma b64_encode_chars: "set (b64_encode s) \<subseteq> b64_char ` {..<64}"
proof (induction s rule: b64_encode.induct)
  case (1 a b c s)
  have "(of_char a :: nat) < 256" "(of_char b :: nat) < 256" "(of_char c :: nat) < 256" by simp_all
  then have "(of_char a :: nat) * 65536 + of_char b * 256 + of_char c < 16777216" by linarith
  with 1 show ?case by (auto simp: Let_def b64_first)
next
  case (2 a b)
  have "(of_char a :: nat) < 256" "(of_char b :: nat) < 256" by simp_all
  then have "(of_char a :: nat) * 65536 + of_char b * 256 < 16777216" by linarith
  then show ?case by (auto simp: Let_def b64_first)
next
  case (3 a)
  have "(of_char a :: nat) < 256" by simp
  then have "(of_char a :: nat) div 4 < 64" by (intro less_mult_imp_div_less) simp
  then show ?case by (auto simp: Let_def)
qed simp

lemma b64_alphabet:
  "list_all (\<lambda>n. b64_char n \<notin> {CHR 0x22, CHR 0x27, CHR ''<'', CHR ''>'', CHR ''&'', CHR '';'', CHR '' ''}) [0..<64]"
  by (auto simp: list_all_iff b64_char_def char_of_eq_iff take_bit_eq_mod)

text \<open>A nonce needs no escaping in the header or in an attribute.\<close>

lemma nonce_safe:
  "set (generateNonce rand) \<inter> {CHR 0x22, CHR 0x27, CHR ''<'', CHR ''>'', CHR ''&'', CHR '';'', CHR '' ''} = {}"
  using b64_encode_chars [of "take nonceByteLength rand"] b64_alphabet
  unfolding generateNonce_def list_all_iff by fastforce

lemma set_header_fields [simp]:
  "rs_status (set_header k v r) = rs_status r" "rs_body (set_header k v r) = rs_body r"
  by (simp_all add: set_header_def)

lemma gstr_set_header:
  "gstr (rs_headers (set_header k v r)) k' = (if k' = k then v else gstr (rs_headers r) k')"
  by (simp add: set_header_def gstr_def gm.get_put)

lemma http_error_headers:
  "k \<notin> {''Content-Type'', ''X-Content-Type-Options''} \<Longrightarrow>
     gstr (rs_headers (http_error msg st r)) k = gstr (rs_headers r) k"
  by (auto simp: http_error_def gstr_set_header)

lemma http_error_nosniff: "gstr (rs_headers (http_error msg st r)) ''X-Content-Type-Options'' = ''nosniff''"
  by (simp add: http_error_def gstr_set_header)

text \<open>The responses of \<^verbatim>\<open>writeCachedHTML\<close>.\<close>

lemma writeCachedHTML_cases:
  assumes "writeCachedHTML gz req (Inr buf) r = Inr r'"
  shows "gstr (rs_headers r') ''ETag'' = etagFor buf \<and>
    (if gstr req ''If-None-Match'' = etagFor buf
     then rs_status r' = 304 \<and> rs_body r' = rs_body r
     else rs_status r' = rs_status r \<and>
       (if contains (gstr req ''Accept-Encoding'') ''gzip''
        then rs_body r' = gz buf \<and> gstr (rs_headers r') ''Content-Encoding'' = ''gzip''
        else rs_body r' = buf \<and> gstr (rs_headers r') ''Content-Encoding'' = gstr (rs_headers r) ''Content-Encoding''))"
  using assms by (auto simp: writeCachedHTML_def Let_def gstr_set_header split: if_splits)

text \<open>The headers that \<^verbatim>\<open>securityHeaders\<close> sets, and that nothing after it touches.\<close>

definition secured :: "string \<Rightarrow> response \<Rightarrow> bool" where
  "secured nonce r \<longleftrightarrow>
     gstr (rs_headers r) ''Content-Security-Policy'' = contentSecurityPolicy nonce \<and>
     gstr (rs_headers r) ''X-Content-Type-Options'' = ''nosniff'' \<and>
     gstr (rs_headers r) ''X-Frame-Options'' = ''DENY'' \<and> gstr (rs_headers r) ''Referrer-Policy'' = ''no-referrer''"

lemma secured_body [simp]:
  "secured nonce (r\<lparr>rs_body := b\<rparr>) = secured nonce r" "secured nonce (r\<lparr>rs_status := st\<rparr>) = secured nonce r"
  by (simp_all add: secured_def)

lemma secured_set_header [simp]:
  "k \<notin> {''Content-Security-Policy'', ''X-Content-Type-Options'', ''X-Frame-Options'', ''Referrer-Policy''} \<Longrightarrow>
     secured nonce (set_header k v r) = secured nonce r"
  by (auto simp: secured_def gstr_set_header)

lemma secured_error [simp]: "secured nonce r \<Longrightarrow> secured nonce (http_error msg st r)"
  by (simp add: secured_def http_error_headers http_error_nosniff)

lemma secured_cached: "secured nonce r \<Longrightarrow> writeCachedHTML gz req rendered r = Inr r' \<Longrightarrow> secured nonce r'"
  by (auto simp: writeCachedHTML_def Let_def split: sum.splits if_splits)

lemma secured_pages:
  assumes "secured nonce r"
  shows "secured nonce (fst (handleIndex render s now later cache r))"
    and "secured nonce (handleFragment render_cards gz s req r)"
    and "secured nonce (handleHeader render_header gz s req r)"
    and "secured nonce (handleEvents bc r)"
    and "secured nonce (handleAsset assets file r)"
    and "secured nonce (handleManifest json_encode s r)"
    and "secured nonce (handleRobots s r)"
    and "secured nonce (handleServiceWorker sw r)"
  using assms secured_cached [OF assms]
  by (auto simp: handleIndex_def handleFragment_def handleHeader_def handleEvents_def handleAsset_def
      handleManifest_def handleRobots_def handleServiceWorker_def http_not_found_def Let_def split: sum.split option.split prod.split)

lemma secured_mux: "secured nonce r \<Longrightarrow> secured nonce (serve_mux ml pg s bc now later cache rq nonce' r)"
proof -
  assume r: "secured nonce r"
  then have "secured nonce (serve_route pg s bc now later cache rq nonce' rt r)" for rt
    by (cases rt) (simp_all add: secured_pages)
  with r show ?thesis
    by (auto simp: serve_mux_def http_not_found_def Let_def split: option.split)
qed

text \<open>What the middleware refuses with.\<close>

lemma middleware_headers:
  assumes "basicAuthMiddleware bcrypt dummy rd srd ns name path creds now later inflight cache0 = (Reject status hs msg, cache, w)"
  shows "hs \<in> {[], [(''Retry-After'', ''1'')]} \<or> (\<exists>v. hs = [(''WWW-Authenticate'', v)])"
  using assms unfolding basicAuthMiddleware_def Let_def
  by (auto split: if_splits prod.splits sum.splits option.splits)

section \<open>Properties\<close>

text \<open>
  Push and poll agree: the hash that the event stream announces for the card grid is the entity
  tag of \<^verbatim>\<open>/fragment\<close> for the same store and site, and that page gets an empty 304 exactly when it
  presents this tag and otherwise the whole rendering, compressed if it accepts gzip.
\<close>

theorem fragment_etag_agrees:
  assumes "LoadSite (sv_reader s) (sv_namespace s) (sv_dashboard_name s) = Inr site"
    and "render_cards (buildFragmentData (Store_Snapshot (sv_store s)) site) = Inr html"
  shows "fst (currentHashes render_cards render_header (sv_reader s) (sv_namespace s)
      (sv_dashboard_name s) (sv_store s)) = etagFor html \<and>
    (let r = handleFragment render_cards gz s req empty_response
     in gstr (rs_headers r) ''ETag'' = etagFor html \<and>
        (if gstr req ''If-None-Match'' = etagFor html then rs_status r = 304 \<and> rs_body r = []
         else rs_status r = 200 \<and>
           (if contains (gstr req ''Accept-Encoding'') ''gzip''
            then rs_body r = gz html \<and> gstr (rs_headers r) ''Content-Encoding'' = ''gzip''
            else rs_body r = html \<and> gstr (rs_headers r) ''Content-Encoding'' = [])))"
proof -
  obtain r where r: "writeCachedHTML gz req (Inr html) empty_response = Inr r"
    by (cases "writeCachedHTML gz req (Inr html) empty_response")
       (auto simp: writeCachedHTML_def Let_def split: if_splits)
  from writeCachedHTML_cases [OF r] assms r show ?thesis
    by (auto simp: currentHashes_def handleFragment_def Let_def empty_response_def gstr_def gget_def)
qed

definition ex_server :: Server where
  "ex_server = \<lparr>sv_reader = ex_reader (ex_dashboard ''web'' ''home'') [] [] [] [],
     sv_secret_reader = ex_reader (ex_dashboard ''web'' ''home'') [] [] [] [], sv_namespace = ''web'',
     sv_dashboard_name = ''home'', sv_store = NewStore, sv_refresh_seconds = 15, sv_version = [],
     sv_commit = [], sv_sample_data = False\<rparr>"

theorem fragment_etag_agrees_witness:
  "fst (currentHashes (\<lambda>_. Inr ''<div/>'') (\<lambda>_. Inr []) (sv_reader ex_server) ''web'' ''home'' NewStore) =
     etagFor ''<div/>''"
  using fragment_etag_agrees [where s = ex_server and render_cards = "\<lambda>_. Inr ''<div/>''"
      and html = "''<div/>''" and site = default_site and render_header = "\<lambda>_. Inr []"]
  by (simp add: ex_server_def LoadSite_def boundStyleSpec_def namespaceDashboardCount_def ex_reader_def
      ex_dashboard_def zero_dashboard_spec_def groupBookmarks_def bound_bookmarks_def headerWidgets_def
      flat_header_widgets_def Let_def default_site_def)

text \<open>
  C38. Every response of the server's handler, whatever is requested and whoever asks, carries the content
  security policy of its own nonce and forbids sniffing, framing and referrers: the pages, the event
  stream, the assets, their errors, the multiplexer's own answers (not found, wrong method, redirect) and
  the refusals of authentication.  The nonce holds no character that could leave the header or an
  attribute.
\<close>

theorem responses_secured:
  "(let headers = rs_headers (respond ml pg s bc bcrypt dummy rq now later inflight cache rand); nonce = generateNonce rand
    in gstr headers ''Content-Security-Policy'' = contentSecurityPolicy nonce \<and>
       gstr headers ''X-Content-Type-Options'' = ''nosniff'' \<and> gstr headers ''X-Frame-Options'' = ''DENY'' \<and>
       gstr headers ''Referrer-Policy'' = ''no-referrer'' \<and>
       set nonce \<inter> {CHR 0x22, CHR 0x27, CHR ''<'', CHR ''>'', CHR ''&'', CHR '';'', CHR '' ''} = {})"
proof -
  obtain v cache' w where m: "basicAuthMiddleware bcrypt dummy (sv_reader s) (sv_secret_reader s) (sv_namespace s)
      (sv_dashboard_name s) (rq_path rq) (rq_creds rq) now later inflight cache = (v, cache', w)"
    by (metis prod_cases3)
  have "secured nonce (apply_verdict v (serve_mux ml pg s bc now later cache' rq nonce') r)"
    if "secured nonce r" for nonce nonce' r
  proof (cases v)
    case (Reject status hs msg)
    from middleware_headers [OF m [unfolded Reject]] that show ?thesis
      by (auto simp: apply_verdict_def Reject)
  qed (use that secured_mux in \<open>simp add: apply_verdict_def\<close>)
  then have "secured (generateNonce rand) (respond ml pg s bc bcrypt dummy rq now later inflight cache rand)"
    by (simp add: respond_def m Routes_def securityHeaders_def Let_def secured_def gstr_set_header)
  then show ?thesis using nonce_safe [of rand] by (simp add: secured_def Let_def)
qed

end
