(* ===== verification/Cycle.thy ===== *)
theory Cycle
  imports Schedule Poller Cards Sse Server
begin

text \<open>
  A poll cycle (\<^verbatim>\<open>pollOnce\<close> and \<^verbatim>\<open>Run\<close> of \<^verbatim>\<open>internal/dashboard/poller.go\<close>): the closures it hands
  to its bounded pool of goroutines, and what it prunes and publishes when all have finished.  A
  closure is one step: what closures share is guarded by mutexes, and what one writes is keyed by its
  card.  The pool is a parameter; \<open>exec\<close> (theory \<open>Schedule\<close>) says which executions Go allows.
  Proved: a cycle's page does not depend on the schedule, and shows exactly the cards of the cluster
  as it is, whatever was stored before.
\<close>

section \<open>Closures\<close>

datatype poll_task =
    EntryTask string string nat service_entry
  | WidgetTask string string service_entry service_widget monitorProbeResult
  | DiscoveredTask discoveredService
  | HeaderTask string info_widget info_widget_entry Widget

text \<open>What \<^verbatim>\<open>pollOnce\<close> reads once for the whole cycle; \<open>cy_clock\<close> is the time a card is polled at.\<close>

record cycle_cfg =
  cy_status_style :: string
  cy_hide_errors :: bool
  cy_widget_defaults :: "widget_defaults_entry gomap"
  cy_allowed :: "string list"
  cy_cluster_domain :: string
  cy_clock :: "string \<Rightarrow> int"

text \<open>The shared state and the keys to keep.\<close>

type_synonym cycle_state = "poll_state \<times> unit gomap"

definition markKeep :: "string \<Rightarrow> unit gomap \<Rightarrow> unit gomap" where
  "markKeep key keep = gput key () keep"

definition run_entry :: "poll_env \<Rightarrow> cycle_cfg \<Rightarrow> string \<Rightarrow> string \<Rightarrow> nat \<Rightarrow> service_entry \<Rightarrow> cycle_state \<Rightarrow>
    poll_task list \<times> cycle_state" where
  "run_entry env cfg namespace crName entryIdx se c =
     (case c of (st, keep) \<Rightarrow>
      case monitor (pe_poller env) namespace crName se (cy_status_style cfg) (cy_allowed cfg)
             (cy_cluster_domain cfg) (ps_failures st, ps_metrics st) of
        (m, seen, mt) \<Rightarrow>
          let st = st\<lparr>ps_failures := seen, ps_metrics := mt\<rparr> in
          if se_widgets se = []
          then if mp_status m = [] \<and> mp_pod_status m = [] then ([], (st, keep))
               else let key = monitor_key namespace crName entryIdx in
                    ([], (pollWidget env key namespace se None m (cy_hide_errors cfg) (cy_widget_defaults cfg)
                            (cy_clock cfg key) st, markKeep key keep))
          else (map (\<lambda>i. WidgetTask (widget_key namespace crName entryIdx i) namespace se (se_widgets se ! i) m)
                  [0..<length (se_widgets se)],
                (st, foldl (\<lambda>keep i. markKeep (widget_key namespace crName entryIdx i) keep) keep
                       [0..<length (se_widgets se)])))"

fun run_task :: "poll_env \<Rightarrow> cycle_cfg \<Rightarrow> poll_task \<Rightarrow> cycle_state \<Rightarrow> poll_task list \<times> cycle_state" where
  "run_task env cfg (EntryTask namespace crName entryIdx se) c = run_entry env cfg namespace crName entryIdx se c"
| "run_task env cfg (WidgetTask key namespace se w m) (st, keep) =
     ([], (pollWidget env key namespace se (Some w) m (cy_hide_errors cfg) (cy_widget_defaults cfg)
             (cy_clock cfg key) st, keep))"
| "run_task env cfg (DiscoveredTask svc) (st, keep) =
     ([], (pollDiscoveredService env svc (cy_clock cfg (dsv_key svc)) st, keep))"
| "run_task env cfg (HeaderTask key iw entry impl) (st, keep) =
     ([], (pollInfoWidget env key iw entry impl (cy_widget_defaults cfg) (cy_clock cfg key) st, keep))"

section \<open>The closures of a cycle\<close>

definition entry_tasks :: "string \<Rightarrow> nat \<Rightarrow> service_card list \<Rightarrow> poll_task list" where
  "entry_tasks dashboardName dashCount cards =
     concat (map (\<lambda>e. if bound_to (ref_name (sc_dashboard_ref (card_spec e))) dashboardName dashCount
                      then map (\<lambda>i. EntryTask (card_namespace e) (card_name e) i (service_entries (card_spec e) ! i))
                             [0..<length (service_entries (card_spec e))]
                      else []) cards)"

definition discovered_tasks :: "poller \<Rightarrow> discovery_spec option \<Rightarrow> poll_task list" where
  "discovered_tasks p spec =
     (case spec of
        None \<Rightarrow> []
      | Some spec \<Rightarrow>
          let ns = po_namespace p; extra = extraDiscoveryNamespaces spec ns in
          (if has_source spec DiscoverySourceIngress
           then (case discoverServices (po_reader p) ns (po_kube_reader p) extra spec of
                   Inl _ \<Rightarrow> [] | Inr svcs \<Rightarrow> map DiscoveredTask svcs)
           else []) @
          (if has_source spec DiscoverySourceHTTPRoute \<and> po_gateway_api p
           then (case discoverHTTPRoutes (po_reader p) ns (po_kube_reader p) extra spec of
                   Inl _ \<Rightarrow> [] | Inr svcs \<Rightarrow> map DiscoveredTask svcs)
           else []))"

definition header_tasks :: "poll_env \<Rightarrow> nat \<Rightarrow> poll_task list" where
  "header_tasks env dashCount =
     (let p = pe_poller env in
      case rd_list_info_widgets (po_reader p) (po_namespace p) of
        Inl _ \<Rightarrow> []
      | Inr iws \<Rightarrow>
          concat (map (\<lambda>iw. if bound_to (ref_name (iw_dashboard_ref (iwd_spec iw))) (po_dashboard_name p) dashCount
             then List.map_filter (\<lambda>idx.
                    let entry = info_entries (iwd_spec iw) ! idx in
                    map_option (HeaderTask (header_key (iwd_name iw) idx) iw entry)
                      (Lookup (pe_registry env) (ie_type entry))) [0..<length (info_entries (iwd_spec iw))]
             else []) iws))"

text \<open>The keys \<^verbatim>\<open>pollOnce\<close> marks itself, before it starts the closure.\<close>

fun marked_key :: "poll_task \<Rightarrow> string list" where
  "marked_key (DiscoveredTask svc) = [dsv_key svc]"
| "marked_key (HeaderTask key iw entry impl) = [key]"
| "marked_key _ = []"

definition cycle_config :: "poller \<Rightarrow> (string \<Rightarrow> int) \<Rightarrow> cycle_cfg" where
  "cycle_config p clock =
     (case siteDefaults p of (style, hide) \<Rightarrow>
      let spec = fst (dashboardSpecForPoll p) in
      \<lparr>cy_status_style = style, cy_hide_errors = hide, cy_widget_defaults = ds_widget_defaults spec,
       cy_allowed = ds_monitor_namespaces spec,
       cy_cluster_domain = or_str (set_opt (ds_cluster_domain spec) []) defaultClusterDomain, cy_clock = clock\<rparr>)"

text \<open>\<open>None\<close> when the Dashboards cannot be counted or the ServiceCards not be listed: the cycle is given up.\<close>

definition cycle_tasks :: "poll_env \<Rightarrow> poll_task list option" where
  "cycle_tasks env =
     (let p = pe_poller env in
      case namespaceDashboardCount (po_reader p) (po_namespace p) of
        Inl _ \<Rightarrow> None
      | Inr dashCount \<Rightarrow>
          (case rd_list_service_cards (po_reader p) (po_namespace p) of
             Inl _ \<Rightarrow> None
           | Inr cards \<Rightarrow>
               Some (entry_tasks (po_dashboard_name p) dashCount cards @
                     discovered_tasks p (discoverySpec p) @ header_tasks env dashCount)))"

section \<open>\<^verbatim>\<open>pollOnce\<close> and \<^verbatim>\<open>Run\<close>\<close>

type_synonym task_pool = "(poll_task \<Rightarrow> cycle_state \<Rightarrow> poll_task list \<times> cycle_state) \<Rightarrow>
  poll_task list \<Rightarrow> cycle_state \<Rightarrow> cycle_state"

definition begin_cycle :: "poll_state \<Rightarrow> poll_state" where
  "begin_cycle st = st\<lparr>ps_ca := (ps_ca st)\<lparr>ca_keys_used := []\<rparr>,
     ps_metrics := (ps_metrics st)\<lparr>mt_current := []\<rparr>\<rparr>"

definition end_cycle :: "cycle_state \<Rightarrow> poll_state" where
  "end_cycle c =
     (case c of (st, keep) \<Rightarrow>
      let kept = (\<lambda>k. gget keep k \<noteq> None);
          st = st\<lparr>ps_store := Store_Prune kept (ps_store st)\<rparr>;
          st = st\<lparr>ps_metrics := pruneMonitorMetrics (ps_metrics st)\<rparr>;
          st = pruneWidgetLastPolled kept st
      in st\<lparr>ps_ca := pruneCAClientCache (ps_ca st)\<rparr>)"

definition pollOnce :: "task_pool \<Rightarrow> poll_env \<Rightarrow> (string \<Rightarrow> int) \<Rightarrow> poll_state \<Rightarrow> poll_state" where
  "pollOnce pool env clock st =
     (case cycle_tasks env of
        None \<Rightarrow> begin_cycle st
      | Some tasks \<Rightarrow>
          let keep = foldl (\<lambda>keep key. markKeep key keep) [] (concat (map marked_key tasks))
          in end_cycle (pool (run_task env (cycle_config (pe_poller env) clock)) tasks (begin_cycle st, keep)))"

text \<open>The end of \<^verbatim>\<open>pollOnce\<close>: the hashes of the new page go to the open connections, if there are any.\<close>

definition publishCycle :: "(fragmentData \<Rightarrow> string + string) \<Rightarrow> (headerWidgetView list \<Rightarrow> string + string) \<Rightarrow>
    (nat \<Rightarrow> bool \<times> bool) \<Rightarrow> poller \<Rightarrow> poll_state \<Rightarrow> Broadcaster option \<Rightarrow> Broadcaster option" where
  "publishCycle render_cards render_header drains p st b =
     (case b of
        None \<Rightarrow> None
      | Some b \<Rightarrow>
          if HasSubscribers b
          then (case currentHashes render_cards render_header (po_reader p) (po_namespace p)
                       (po_dashboard_name p) (ps_store st) of
                  (fragment, header) \<Rightarrow> Some (Publish drains fragment header b))
          else Some b)"

text \<open>\<^verbatim>\<open>Run\<close>: one cycle at once and one per tick, each in the environment it finds.\<close>

definition Poller_Run :: "task_pool \<Rightarrow> (poll_env \<times> (string \<Rightarrow> int)) list \<Rightarrow> poll_state \<Rightarrow> poll_state" where
  "Poller_Run pool ticks st = foldl (\<lambda>st (env, clock). pollOnce pool env clock st) st ticks"

section \<open>What a closure touches\<close>

fun task_keys :: "poll_task \<Rightarrow> string list" where
  "task_keys (EntryTask namespace crName entryIdx se) =
     (if se_widgets se = [] then [monitor_key namespace crName entryIdx]
      else map (widget_key namespace crName entryIdx) [0..<length (se_widgets se)])"
| "task_keys (WidgetTask key namespace se w m) = [key]"
| "task_keys (DiscoveredTask svc) = [dsv_key svc]"
| "task_keys (HeaderTask key iw entry impl) = [key]"

definition card_view :: "poll_state \<Rightarrow> string \<Rightarrow> Card option \<times> int option \<times> unit option" where
  "card_view st k = (Store_Get (ps_store st) k, gget (ps_last_polled st) k, gget (ps_clamp_warned st) k)"

definition cycle_view :: "cycle_state \<Rightarrow> string \<Rightarrow> (Card option \<times> int option \<times> unit option) \<times> unit option" where
  "cycle_view c k = (card_view (fst c) k, gget (snd c) k)"

definition cycle_ok :: "poll_env \<Rightarrow> cycle_state \<Rightarrow> bool" where
  "cycle_ok env c \<longleftrightarrow> caches_ok env (fst c) \<and> no_collisions env"

lemma duePoll_view_other: "k \<noteq> key \<Longrightarrow> card_view (snd (duePoll p key ov now st)) k = card_view st k"
  by (auto simp: card_view_def duePoll_def Let_def gm.get_put split: option.split)

lemma duePoll_local:
  assumes "card_view st key = card_view st' key"
  shows "fst (duePoll p key ov now st) = fst (duePoll p key ov now st')"
    and "card_view (snd (duePoll p key ov now st)) key = card_view (snd (duePoll p key ov now st')) key"
  using assms by (auto simp: card_view_def duePoll_def Let_def gm.get_put split: option.split)

lemma widget_due_other: "k \<noteq> key \<Longrightarrow> card_view (snd (widget_due env key w now st)) k = card_view st k"
  by (simp add: widget_due_def duePoll_view_other split: option.split)

lemma widget_due_local:
  assumes "card_view st key = card_view st' key"
  shows "fst (widget_due env key w now st) = fst (widget_due env key w now st')"
    and "card_view (snd (widget_due env key w now st)) key = card_view (snd (widget_due env key w now st')) key"
  using assms duePoll_local [OF assms] by (simp_all add: widget_due_def split: option.split)

lemma next_card_local:
  "card_view st key = card_view st' key \<Longrightarrow>
   next_card env key ns se w m hide defaults now st = next_card env key ns se w m hide defaults now st'"
  using widget_due_local(1) [of st key st'] by (simp add: next_card_def card_view_def)

lemma pollWidget_view:
  assumes "caches_ok env st" "no_collisions env"
  shows "card_view (pollWidget env key ns se w m hide defaults now st) k =
    (if k = key then (Some (next_card env key ns se w m hide defaults now st),
                      snd (card_view (snd (widget_due env key w now st)) key))
     else card_view st k)"
proof -
  have "store_wf (ps_store st)" using assms(1) by (simp add: caches_ok_def)
  then show ?thesis
    using pollWidget_spec [OF assms, of key ns se w m hide defaults now] widget_due_other [of k key env w now st]
    by (auto simp: card_view_def same_times_def Store_Get_Set next_card_key)
qed

lemma pollInfoWidget_view:
  assumes "caches_ok env st" "no_collisions env"
  shows "card_view (pollInfoWidget env key iw entry impl defaults now st) k =
    (if k = key then
       (if fst (duePoll (pe_poller env) key (ie_poll_interval entry) now st)
        then Some (info_card env key iw entry impl defaults now) else Store_Get (ps_store st) key,
        snd (card_view (snd (duePoll (pe_poller env) key (ie_poll_interval entry) now st)) key))
     else card_view st k)"
  using pollInfoWidget_spec [OF assms surjective_pairing, where key = key and entry = entry and
      now = now and iw = iw and impl = impl and defaults = defaults]
    duePoll_view_other [of k key "pe_poller env" "ie_poll_interval entry" now st]
  by (auto simp: card_view_def same_times_def Store_Get_Set)

lemma pollDiscovered_view:
  "card_view (pollDiscoveredService env svc now st) k =
    (if k = dsv_key svc then (Some (discovered_card (pe_poller env) svc now), snd (card_view st k)) else card_view st k)"
  by (simp add: card_view_def Store_Get_Set pollDiscovered_spec)

lemma gget_markKeep: "gget (markKeep key keep) k = (if k = key then Some () else gget keep k)"
  by (simp add: markKeep_def gm.get_put)

lemma gget_marks: "gget (foldl (\<lambda>keep k. markKeep k keep) keep ks) k = (if k \<in> set ks then Some () else gget keep k)"
  by (induction ks arbitrary: keep) (auto simp: gget_markKeep)

lemma foldl_marks: "foldl (\<lambda>keep i. markKeep (f i) keep) keep xs = foldl (\<lambda>keep k. markKeep k keep) keep (map f xs)"
  by (induction xs arbitrary: keep) auto

lemma widget_key_inject: "widget_key ns cr e i = widget_key ns cr e j \<longleftrightarrow> i = j"
  by (simp add: widget_key_def)

text \<open>The closure of an entry, in terms of what its monitor finds.\<close>

definition entry_monitor :: "poll_env \<Rightarrow> cycle_cfg \<Rightarrow> string \<Rightarrow> string \<Rightarrow> service_entry \<Rightarrow> monitorProbeResult" where
  "entry_monitor env cfg ns cr se =
     fst (monitor (pe_poller env) ns cr se (cy_status_style cfg) (cy_allowed cfg) (cy_cluster_domain cfg)
           ([], \<lparr>mt_gauge = [], mt_labels = [], mt_current = []\<rparr>))"

lemma run_entry_eq:
  "\<exists>st'. card_view st' = card_view st \<and> caches_ok env st' = caches_ok env st \<and>
    run_entry env cfg ns cr e se (st, keep) =
      (let m = entry_monitor env cfg ns cr se in
       if se_widgets se = []
       then if mp_status m = [] \<and> mp_pod_status m = [] then ([], (st', keep))
            else ([], (pollWidget env (monitor_key ns cr e) ns se None m (cy_hide_errors cfg) (cy_widget_defaults cfg)
                         (cy_clock cfg (monitor_key ns cr e)) st', markKeep (monitor_key ns cr e) keep))
       else (map (\<lambda>i. WidgetTask (widget_key ns cr e i) ns se (se_widgets se ! i) m) [0..<length (se_widgets se)],
             (st', foldl (\<lambda>keep k. markKeep k keep) keep (map (widget_key ns cr e) [0..<length (se_widgets se)]))))"
proof -
  obtain m seen mt where m: "monitor (pe_poller env) ns cr se (cy_status_style cfg) (cy_allowed cfg)
      (cy_cluster_domain cfg) (ps_failures st, ps_metrics st) = (m, seen, mt)" by (metis prod.exhaust)
  then have "m = entry_monitor env cfg ns cr se"
    unfolding entry_monitor_def using monitor_state_free by (metis fst_conv)
  with m show ?thesis
    by (intro exI [of _ "st\<lparr>ps_failures := seen, ps_metrics := mt\<rparr>"])
       (simp add: run_entry_def card_view_def fun_eq_iff caches_ok_def Let_def
          foldl_marks [of "widget_key ns cr e"])
qed

lemma spawned:
  "fst (run_task env cfg t c) =
    (case t of
       EntryTask ns cr e se \<Rightarrow>
         map (\<lambda>i. WidgetTask (widget_key ns cr e i) ns se (se_widgets se ! i) (entry_monitor env cfg ns cr se))
           [0..<length (se_widgets se)]
     | _ \<Rightarrow> [])"
proof (cases t)
  case (EntryTask ns cr e se)
  with run_entry_eq [of "fst c" env cfg ns cr e se "snd c"] show ?thesis
    by (auto simp: Let_def split: if_splits)
qed (cases c; simp)+

text \<open>What a closure leaves at a key, from what it finds there.\<close>

definition step_view :: "poll_env \<Rightarrow> cycle_cfg \<Rightarrow> poll_task \<Rightarrow> cycle_state \<Rightarrow> string \<Rightarrow>
    (Card option \<times> int option \<times> unit option) \<times> unit option" where
  "step_view env cfg t c k =
     (case t of
        EntryTask ns cr e se \<Rightarrow>
          (if se_widgets se = []
           then (let m = entry_monitor env cfg ns cr se; key = monitor_key ns cr e in
                 if mp_status m = [] \<and> mp_pod_status m = [] then cycle_view c k
                 else ((Some (widget_card env key ns se None m (cy_hide_errors cfg) (cy_widget_defaults cfg)
                                (cy_clock cfg key)), snd (card_view (fst c) k)), Some ()))
           else (card_view (fst c) k, Some ()))
      | WidgetTask key ns se w m \<Rightarrow>
          ((Some (next_card env key ns se (Some w) m (cy_hide_errors cfg) (cy_widget_defaults cfg)
                    (cy_clock cfg key) (fst c)),
            snd (card_view (snd (widget_due env key (Some w) (cy_clock cfg key) (fst c))) key)), gget (snd c) k)
      | DiscoveredTask svc \<Rightarrow>
          ((Some (discovered_card (pe_poller env) svc (cy_clock cfg k)), snd (card_view (fst c) k)), gget (snd c) k)
      | HeaderTask key iw entry impl \<Rightarrow>
          ((if fst (duePoll (pe_poller env) key (ie_poll_interval entry) (cy_clock cfg key) (fst c))
            then Some (info_card env key iw entry impl (cy_widget_defaults cfg) (cy_clock cfg key))
            else Store_Get (ps_store (fst c)) key,
            snd (card_view (snd (duePoll (pe_poller env) key (ie_poll_interval entry) (cy_clock cfg key) (fst c))) key)),
           gget (snd c) k))"

lemma next_card_None:
  "next_card env key ns se None m hide defaults now st = widget_card env key ns se None m hide defaults now"
  by (simp add: next_card_def widget_due_def)

lemma run_task_view:
  assumes "cycle_ok env c"
  shows "cycle_view (snd (run_task env cfg t c)) k =
    (if k \<in> set (task_keys t) then step_view env cfg t c k else cycle_view c k)"
    and "cycle_ok env (snd (run_task env cfg t c))"
proof -
  obtain st keep where c: "c = (st, keep)" by fastforce
  with assms have ok: "caches_ok env st" "no_collisions env" by (simp_all add: cycle_ok_def)
  have "cycle_view (snd (run_task env cfg t c)) k =
      (if k \<in> set (task_keys t) then step_view env cfg t c k else cycle_view c k) \<and>
    cycle_ok env (snd (run_task env cfg t c))"
  proof (cases t)
    case (EntryTask ns cr e se)
    obtain st' where st': "card_view st' = card_view st" "caches_ok env st'"
      and run: "run_entry env cfg ns cr e se (st, keep) =
      (let m = entry_monitor env cfg ns cr se in
       if se_widgets se = []
       then if mp_status m = [] \<and> mp_pod_status m = [] then ([], (st', keep))
            else ([], (pollWidget env (monitor_key ns cr e) ns se None m (cy_hide_errors cfg) (cy_widget_defaults cfg)
                         (cy_clock cfg (monitor_key ns cr e)) st', markKeep (monitor_key ns cr e) keep))
       else (map (\<lambda>i. WidgetTask (widget_key ns cr e i) ns se (se_widgets se ! i) m) [0..<length (se_widgets se)],
             (st', foldl (\<lambda>keep k. markKeep k keep) keep (map (widget_key ns cr e) [0..<length (se_widgets se)]))))"
      using run_entry_eq [of st env cfg ns cr e se keep] ok(1) by blast
    have poll: "card_view (pollWidget env (monitor_key ns cr e) ns se None m hide defaults now st') k =
      (if k = monitor_key ns cr e then (Some (widget_card env (monitor_key ns cr e) ns se None m hide defaults now),
         snd (card_view st k)) else card_view st k)"
      "caches_ok env (pollWidget env (monitor_key ns cr e) ns se None m hide defaults now st')" for m hide defaults now
      using pollWidget_view [OF st'(2) ok(2)] pollWidget_spec [OF st'(2) ok(2)]
      by (simp_all add: st'(1) next_card_None widget_due_def)
    show ?thesis
      using st' poll ok
      by (auto simp: EntryTask c run step_view_def cycle_view_def cycle_ok_def Let_def gget_marks gget_markKeep)
  next
    case (WidgetTask key ns se w m)
    with ok pollWidget_view [OF ok] pollWidget_spec [OF ok] show ?thesis
      by (simp add: c step_view_def cycle_view_def cycle_ok_def)
  next
    case (DiscoveredTask svc)
    with ok pollDiscovered_view pollDiscovered_spec show ?thesis
      by (simp add: c step_view_def cycle_view_def cycle_ok_def)
  next
    case (HeaderTask key iw entry impl)
    with ok pollInfoWidget_view [OF ok] pollInfoWidget_spec [OF ok surjective_pairing] show ?thesis
      by (simp add: c step_view_def cycle_view_def cycle_ok_def)
  qed
  then show "cycle_view (snd (run_task env cfg t c)) k =
      (if k \<in> set (task_keys t) then step_view env cfg t c k else cycle_view c k)"
    "cycle_ok env (snd (run_task env cfg t c))" by simp_all
qed

lemma step_view_local:
  assumes "cycle_view c k = cycle_view d k" "k \<in> set (task_keys t)"
  shows "step_view env cfg t c k = step_view env cfg t d k"
proof (cases t)
  case (EntryTask ns cr e se)
  with assms(1) show ?thesis by (simp add: step_view_def cycle_view_def Let_def)
next
  case (WidgetTask key ns se w m)
  with assms have k: "k = key" and v: "card_view (fst c) key = card_view (fst d) key" by (simp_all add: cycle_view_def)
  have "next_card env key ns se (Some w) m h ds n (fst c) = next_card env key ns se (Some w) m h ds n (fst d)" for h ds n
    using v by (rule next_card_local)
  moreover have "card_view (snd (widget_due env key (Some w) n (fst c))) key =
      card_view (snd (widget_due env key (Some w) n (fst d))) key" for n
    using v by (rule widget_due_local(2))
  ultimately show ?thesis
    using assms(1) by (simp add: WidgetTask k step_view_def cycle_view_def)
next
  case (DiscoveredTask svc)
  with assms(1) show ?thesis by (simp add: step_view_def cycle_view_def)
next
  case (HeaderTask key iw entry impl)
  with assms have k: "k = key" and v: "card_view (fst c) key = card_view (fst d) key" by (simp_all add: cycle_view_def)
  from v have "Store_Get (ps_store (fst c)) key = Store_Get (ps_store (fst d)) key" by (simp add: card_view_def)
  with assms(1) duePoll_local [OF v, where p = "pe_poller env" and ov = "ie_poll_interval entry"] show ?thesis
    by (simp add: HeaderTask k step_view_def cycle_view_def)
qed

lemma widget_tasks_disjoint:
  "disjoint_keys (\<lambda>t. set (task_keys t)) (map (\<lambda>i. WidgetTask (widget_key ns cr e i) ns se (ws ! i) m) [0..<n])"
  by (induction n) (auto simp: widget_key_inject)

interpretation poll: task_pool "run_task env cfg" "\<lambda>t. set (task_keys t)" cycle_view "cycle_ok env" for env cfg
proof
  fix s r :: cycle_state and t n k
  assume ok: "cycle_ok env s"
  show "cycle_view (snd (run_task env cfg t s)) k = cycle_view s k" if "k \<notin> set (task_keys t)"
    using run_task_view(1) [OF ok] that by simp
  show "fst (run_task env cfg t s) = fst (run_task env cfg t r)"
    by (simp add: spawned)
  show "cycle_view (snd (run_task env cfg t s)) k = cycle_view (snd (run_task env cfg t r)) k"
    if "cycle_ok env r" "\<And>k. k \<in> set (task_keys t) \<Longrightarrow> cycle_view s k = cycle_view r k" "k \<in> set (task_keys t)"
    by (simp only: run_task_view(1) [OF ok] run_task_view(1) [OF that(1)] that(3) if_True
        step_view_local [OF that(2) [OF that(3)] that(3)])
  show "cycle_ok env (snd (run_task env cfg t s))"
    using ok by (rule run_task_view(2))
  show "set (task_keys n) \<subseteq> set (task_keys t)" if "n \<in> set (fst (run_task env cfg t s))"
    using that by (auto simp: spawned split: poll_task.splits)
  show "disjoint_keys (\<lambda>t. set (task_keys t)) (fst (run_task env cfg t s))"
    using widget_tasks_disjoint by (simp add: spawned split: poll_task.split)
  show "fst (run_task env cfg n r) = []" if "n \<in> set (fst (run_task env cfg t s))"
    using that by (auto simp: spawned split: poll_task.splits)
qed

definition maxConcurrentPolls :: nat where "maxConcurrentPolls = 8"

text \<open>How many closures a task stands for: itself and those it starts.\<close>

fun closures :: "poll_task \<Rightarrow> nat" where
  "closures (EntryTask ns cr e se) = Suc (length (se_widgets se))"
| "closures _ = 1"

interpretation semaphore: counted_pool "run_task env cfg" closures for env cfg
proof
  fix t s
  have "sum_list (map closures (map (\<lambda>i. WidgetTask (k i) ns se (w i) m) xs)) = length xs" for k ns se w m and xs :: "nat list"
    by (induction xs) simp_all
  then show "closures t = Suc (sum_list (map closures (fst (run_task env cfg t s))))"
    unfolding spawned by (cases t) simp_all
qed

text \<open>Keys of the whole cycle, each belonging to one closure.\<close>

definition cycle_keys :: "poll_task list \<Rightarrow> string list" where
  "cycle_keys ts = concat (map task_keys ts)"

lemma disjoint_tasks: "distinct (cycle_keys ts) \<Longrightarrow> disjoint_keys (\<lambda>t. set (task_keys t)) ts"
  by (induction ts) (auto simp: cycle_keys_def)

text \<open>What the pool of Go may do.\<close>

definition legal_pool :: "task_pool \<Rightarrow> bool" where
  "legal_pool pool \<longleftrightarrow> (\<forall>env cfg ts c. cycle_ok env c \<longrightarrow> exec (run_task env cfg) ts c (pool (run_task env cfg) ts c))"

lemma legal_sequential: "legal_pool run_all"
  by (simp add: legal_pool_def poll.exec_run_all)

lemma pool_view:
  assumes "legal_pool pool" "cycle_ok env c" "distinct (cycle_keys ts)"
  shows "cycle_view (pool (run_task env cfg) ts c) = cycle_view (run_all (run_task env cfg) ts c)"
    and "cycle_ok env (pool (run_task env cfg) ts c)"
proof -
  have run: "exec (run_task env cfg) ts c (pool (run_task env cfg) ts c)"
    using assms(1,2) unfolding legal_pool_def by blast
  note disj = disjoint_tasks [OF assms(3)]
  show "cycle_view (pool (run_task env cfg) ts c) = cycle_view (run_all (run_task env cfg) ts c)"
    by (rule poll.exec_unique [OF run poll.exec_run_all [OF assms(2)] refl assms(2) disj disj])
  show "cycle_ok env (pool (run_task env cfg) ts c)"
    using poll.exec_view [OF run assms(2) disj] by simp
qed

text \<open>The view of one entry's closure with the widget closures it starts.\<close>

lemma run_one_entry:
  assumes "cycle_ok env c" "k \<in> set (task_keys t)"
  shows "gget (snd (run_one (run_task env cfg) t c)) k =
    (case t of EntryTask ns cr e se \<Rightarrow>
       (let m = entry_monitor env cfg ns cr se in
        if se_widgets se = [] \<and> mp_status m = [] \<and> mp_pod_status m = [] then gget (snd c) k else Some ())
     | _ \<Rightarrow> gget (snd c) k)"
proof -
  have leaves: "\<And>n. n \<in> set ns \<Longrightarrow> \<exists>key ns se w m. n = WidgetTask key ns se w m" if "ns = fst (run_task env cfg t c)" for ns
    using that by (auto simp: spawned split: poll_task.splits)
  have keep: "gget (snd (run_leaves (run_task env cfg) ns d)) k = gget (snd d) k"
    if "\<And>n. n \<in> set ns \<Longrightarrow> \<exists>key ns se w m. n = WidgetTask key ns se w m" for ns d
    using that by (induction ns arbitrary: d) (force split: prod.splits)+
  have "gget (snd (run_one (run_task env cfg) t c)) k = snd (cycle_view (snd (run_task env cfg t c)) k)"
    using keep [OF leaves [OF refl]] by (simp add: run_one_def case_prod_unfold cycle_view_def)
  with run_task_view(1) [OF assms(1), of cfg t k] assms(2) show ?thesis
    by (auto simp: step_view_def cycle_view_def Let_def split: poll_task.split)
qed

declare run_task.simps [simp del]

section \<open>Between cycles\<close>

text \<open>A polling time belongs to a card in the store: an unpolled header widget keeps its card.\<close>

definition times_ok :: "cycle_state \<Rightarrow> bool" where
  "times_ok c \<longleftrightarrow> (\<forall>k. gget (ps_last_polled (fst c)) k \<noteq> None \<longrightarrow> Store_Get (ps_store (fst c)) k \<noteq> None)"

definition poll_inv :: "poll_env \<Rightarrow> poll_state \<Rightarrow> bool" where
  "poll_inv env st \<longleftrightarrow> cycle_ok env (st, []) \<and> times_ok (st, [])"

lemma times_ok_view:
  "times_ok c \<longleftrightarrow> (\<forall>k. fst (snd (fst (cycle_view c k))) \<noteq> None \<longrightarrow> fst (fst (cycle_view c k)) \<noteq> None)"
  by (simp add: times_ok_def cycle_view_def card_view_def)

lemma gget_gprune: "gget (gprune keep m) k = (if keep k then gget m k else None)"
  by (simp add: gget_def gprune_def map_of_filter_key)

lemma not_due_polled: "\<not> fst (duePoll p key ov now st) \<Longrightarrow> gget (ps_last_polled st) key \<noteq> None"
  by (auto simp: duePoll_def Let_def split: option.splits if_splits)

lemma duePoll_last:
  "gget (ps_last_polled (snd (duePoll p key ov now st))) k \<noteq> None \<Longrightarrow>
   \<not> fst (duePoll p key ov now st) \<Longrightarrow> gget (ps_last_polled st) k \<noteq> None"
  by (auto simp: duePoll_def Let_def split: option.splits if_splits)

lemma run_task_times:
  assumes "cycle_ok env c" "times_ok c"
  shows "times_ok (snd (run_task env cfg t c))"
proof -
  have "fst (fst (step_view env cfg t c k)) \<noteq> None"
    if "fst (snd (fst (step_view env cfg t c k))) \<noteq> None" "k \<in> set (task_keys t)" for k
  proof (cases t)
    case (HeaderTask key iw entry impl)
    with that assms(2) not_due_polled [of "pe_poller env" key "ie_poll_interval entry" "cy_clock cfg key" "fst c"]
    show ?thesis by (auto simp: step_view_def card_view_def times_ok_def)
  next
    case (EntryTask ns cr e se)
    with that assms(2) show ?thesis
      by (auto simp: step_view_def card_view_def cycle_view_def times_ok_def Let_def split: if_splits)
  qed (auto simp: step_view_def)
  with assms(2) show ?thesis
    by (auto simp: times_ok_view run_task_view(1) [OF assms(1)])
qed

lemma run_leaves_inv:
  "cycle_ok env c \<Longrightarrow> times_ok c \<Longrightarrow> times_ok (run_leaves (run_task env cfg) ts c)"
  by (induction ts arbitrary: c) (simp_all add: run_task_times run_task_view(2))

lemma run_one_inv:
  assumes "cycle_ok env c" "times_ok c"
  shows "times_ok (run_one (run_task env cfg) t c)"
  using run_leaves_inv [OF run_task_view(2) [OF assms(1)] run_task_times [OF assms]]
  by (simp add: run_one_def case_prod_unfold)

lemma run_all_inv:
  "cycle_ok env c \<Longrightarrow> times_ok c \<Longrightarrow> times_ok (run_all (run_task env cfg) ts c)"
  by (induction ts arbitrary: c) (simp_all add: run_one_inv poll.ok_one)

text \<open>What the cycle leaves under the key of one of an entry's widgets.\<close>

lemma run_one_widget:
  assumes "cycle_ok env c" "i < length (se_widgets se)" and key_def: "key = widget_key ns cr e i"
  shows "fst (cycle_view (run_one (run_task env cfg) (EntryTask ns cr e se) c) key) =
    (Some (next_card env key ns se (Some (se_widgets se ! i)) (entry_monitor env cfg ns cr se)
             (cy_hide_errors cfg) (cy_widget_defaults cfg) (cy_clock cfg key) (fst c)),
     snd (card_view (snd (widget_due env key (Some (se_widgets se ! i)) (cy_clock cfg key) (fst c))) key))"
proof -
  let ?t = "EntryTask ns cr e se" and ?w = "se_widgets se ! i" and ?m = "entry_monitor env cfg ns cr se"
  let ?c = "snd (run_task env cfg ?t c)" and ?leaf = "WidgetTask key ns se ?w ?m"
  have leaf: "?leaf \<in> set (fst (run_task env cfg ?t c))" using assms(2) by (auto simp: spawned key_def)
  have ok: "cycle_ok env ?c" using assms(1) by (rule run_task_view(2))
  have nonempty: "se_widgets se \<noteq> []" using assms(2) by auto
  have "cycle_view ?c key = (card_view (fst c) key, Some ())"
    using run_task_view(1) [OF assms(1), of cfg ?t key] assms(2) nonempty by (simp add: step_view_def key_def)
  then have same: "card_view (fst ?c) key = card_view (fst c) key" by (simp add: cycle_view_def)
  have "cycle_view (run_one (run_task env cfg) ?t c) key = cycle_view (snd (run_task env cfg ?leaf ?c)) key"
    unfolding run_one_def case_prod_unfold
    by (rule poll.leaves_view [OF ok poll.spawn_disjoint [OF assms(1)] leaf]) simp
  also have "\<dots> = step_view env cfg ?leaf ?c key" using run_task_view(1) [OF ok] by simp
  finally show ?thesis
    using next_card_local [OF same] widget_due_local(2) [OF same] by (simp add: step_view_def)
qed

text \<open>The keys of the cards the cycle keeps, as the cluster gives them.\<close>

definition expected_keys :: "poll_env \<Rightarrow> cycle_cfg \<Rightarrow> poll_task \<Rightarrow> string list" where
  "expected_keys env cfg t =
     (case t of
        EntryTask ns cr e se \<Rightarrow>
          (let m = entry_monitor env cfg ns cr se in
           if se_widgets se = [] \<and> mp_status m = [] \<and> mp_pod_status m = [] then [] else task_keys t)
      | _ \<Rightarrow> task_keys t)"

lemma expected_subset: "set (expected_keys env cfg t) \<subseteq> set (task_keys t)"
  by (auto simp: expected_keys_def Let_def split: poll_task.splits if_splits)

lemma run_one_expected:
  assumes "cycle_ok env c" "times_ok c" "k \<in> set (expected_keys env cfg t)"
  shows "Store_Get (ps_store (fst (run_one (run_task env cfg) t c))) k \<noteq> None"
proof -
  have k: "k \<in> set (task_keys t)" using assms(3) expected_subset by blast
  have leafless: "run_one (run_task env cfg) t c = snd (run_task env cfg t c)" if "fst (run_task env cfg t c) = []"
    using that by (simp add: run_one_def case_prod_unfold)
  have card: "fst (fst (cycle_view (snd (run_task env cfg t c)) k)) \<noteq> None"
    if "fst (fst (step_view env cfg t c k)) \<noteq> None"
    using that run_task_view(1) [OF assms(1)] k by simp
  show ?thesis
  proof (cases t)
    case (EntryTask ns cr e se)
    show ?thesis
    proof (cases "se_widgets se = []")
      case True
      with EntryTask assms(3) have "fst (fst (step_view env cfg t c k)) \<noteq> None"
        by (auto simp: expected_keys_def step_view_def Let_def split: if_splits)
      with card leafless True EntryTask show ?thesis by (simp add: spawned cycle_view_def card_view_def)
    next
      case False
      with EntryTask k obtain i where "i < length (se_widgets se)" "k = widget_key ns cr e i" by auto
      with run_one_widget [OF assms(1) this, of cfg] EntryTask show ?thesis
        by (simp add: cycle_view_def card_view_def)
    qed
  next
    case (HeaderTask key iw entry impl)
    have "fst (fst (step_view env cfg t c k)) \<noteq> None"
      using HeaderTask k assms(2) not_due_polled [of "pe_poller env" key "ie_poll_interval entry" "cy_clock cfg key" "fst c"]
      by (auto simp: step_view_def times_ok_def)
    with card leafless HeaderTask show ?thesis by (simp add: spawned cycle_view_def card_view_def)
  next
    case (WidgetTask key ns se w m)
    then have "fst (fst (step_view env cfg t c k)) \<noteq> None" by (simp add: step_view_def)
    with card leafless WidgetTask show ?thesis by (simp add: spawned cycle_view_def card_view_def)
  next
    case (DiscoveredTask svc)
    then have "fst (fst (step_view env cfg t c k)) \<noteq> None" by (simp add: step_view_def)
    with card leafless DiscoveredTask show ?thesis by (simp add: spawned cycle_view_def card_view_def)
  qed
qed

definition initial_keep :: "poll_task list \<Rightarrow> unit gomap" where
  "initial_keep ts = foldl (\<lambda>keep key. markKeep key keep) [] (concat (map marked_key ts))"

lemma gget_initial_keep: "gget (initial_keep ts) k = (if \<exists>t \<in> set ts. k \<in> set (marked_key t) then Some () else None)"
  by (simp add: initial_keep_def gget_marks)

lemma marked_keys: "set (marked_key t) \<subseteq> set (task_keys t)"
  by (cases t) auto

lemma begin_cycle_inv:
  "poll_inv env st \<Longrightarrow> cycle_ok env (begin_cycle st, keep) \<and> times_ok (begin_cycle st, keep)"
  by (auto simp: poll_inv_def cycle_ok_def times_ok_def begin_cycle_def caches_ok_def)

lemma begin_cycle_view [simp]: "card_view (begin_cycle st) = card_view st"
  by (simp add: fun_eq_iff card_view_def begin_cycle_def)

text \<open>The tasks of a cycle are entries, discovered services and header widgets; a key has one owner.\<close>

definition plain_tasks :: "poll_task list \<Rightarrow> bool" where
  "plain_tasks ts \<longleftrightarrow> distinct (cycle_keys ts) \<and>
     list_all (\<lambda>t. case t of WidgetTask _ _ _ _ _ \<Rightarrow> False | _ \<Rightarrow> True) ts"

lemma plain_not_widget: "plain_tasks ts \<Longrightarrow> WidgetTask key ns se w m \<notin> set ts"
  by (auto simp: plain_tasks_def list_all_iff)

lemma key_owner:
  assumes "distinct (cycle_keys ts)" "t \<in> set ts" "u \<in> set ts" "k \<in> set (task_keys t)" "k \<in> set (task_keys u)"
  shows "t = u"
  using assms
proof (induction ts)
  case (Cons a ts)
  then show ?case by (fastforce simp: cycle_keys_def)
qed simp

lemma cycle_keep:
  assumes "legal_pool pool" "cycle_ok env (st, initial_keep ts)" "times_ok (st, initial_keep ts)" "plain_tasks ts"
    and c_def: "c = pool (run_task env cfg) ts (st, initial_keep ts)"
  shows "gget (snd c) k \<noteq> None \<longleftrightarrow> (\<exists>t \<in> set ts. k \<in> set (expected_keys env cfg t))"
    and "gget (snd c) k \<noteq> None \<Longrightarrow> Store_Get (ps_store (fst c)) k \<noteq> None"
    and "cycle_ok env c" "times_ok c"
    and "t \<in> set ts \<Longrightarrow> k \<in> set (task_keys t) \<Longrightarrow>
      cycle_view c k = cycle_view (run_one (run_task env cfg) t (st, initial_keep ts)) k"
proof -
  let ?c0 = "(st, initial_keep ts)"
  have dist: "distinct (cycle_keys ts)" using assms(4) by (simp add: plain_tasks_def)
  have run: "exec (run_task env cfg) ts ?c0 c" using assms(1,2) unfolding legal_pool_def c_def by blast
  note view = poll.exec_view [OF run assms(2) disjoint_tasks [OF dist]]
  show own: "cycle_view c k = cycle_view (run_one (run_task env cfg) t ?c0) k"
    if "t \<in> set ts" "k \<in> set (task_keys t)" for t k
    using view that by blast
  show "cycle_ok env c" using view by simp
  show "times_ok c"
    using run_all_inv [OF assms(2,3)] pool_view(1) [OF assms(1,2) dist]
    unfolding times_ok_view c_def by simp
  have kept: "gget (snd c) k \<noteq> None \<longleftrightarrow> k \<in> set (expected_keys env cfg t)"
    if "t \<in> set ts" "k \<in> set (task_keys t)" for t k
  proof -
    have "(\<exists>u \<in> set ts. k \<in> set (marked_key u)) \<longleftrightarrow> k \<in> set (marked_key t)"
      using key_owner [OF dist _ that(1) _ that(2)] subsetD [OF marked_keys] that(1) by metis
    then have marked: "gget (initial_keep ts) k \<noteq> None \<longleftrightarrow> k \<in> set (marked_key t)"
      by (simp add: gget_initial_keep)
    have "gget (snd c) k = gget (snd (run_one (run_task env cfg) t ?c0)) k"
      using own [OF that] by (simp add: cycle_view_def)
    with run_one_entry [OF assms(2) that(2), of cfg] marked plain_not_widget [OF assms(4)] that
    show ?thesis by (cases t) (auto simp: expected_keys_def Let_def split: if_splits)
  qed
  have nowhere: "gget (snd c) k = None" if "\<forall>t \<in> set ts. k \<notin> set (task_keys t)" for k
  proof -
    have "cycle_view c k = cycle_view ?c0 k" using view that by blast
    moreover have "gget (initial_keep ts) k = None" using that marked_keys by (auto simp: gget_initial_keep)
    ultimately show ?thesis by (simp add: cycle_view_def)
  qed
  show iff: "gget (snd c) k \<noteq> None \<longleftrightarrow> (\<exists>t \<in> set ts. k \<in> set (expected_keys env cfg t))" for k
  proof (cases "\<exists>t \<in> set ts. k \<in> set (task_keys t)")
    case True
    then obtain t where t: "t \<in> set ts" "k \<in> set (task_keys t)" by blast
    have "k \<notin> set (expected_keys env cfg u)" if "u \<in> set ts" "u \<noteq> t" for u
      using key_owner [OF dist t(1) that(1) t(2)] that expected_subset by blast
    with kept [OF t] t(1) show ?thesis by blast
  next
    case False
    then have "gget (snd c) k = None" by (intro nowhere) blast
    with False expected_subset show ?thesis by blast
  qed
  show "Store_Get (ps_store (fst c)) k \<noteq> None" if "gget (snd c) k \<noteq> None"
  proof -
    from iff that obtain t where t: "t \<in> set ts" "k \<in> set (expected_keys env cfg t)" by blast
    then have "k \<in> set (task_keys t)" using expected_subset by blast
    with own [OF t(1)] run_one_expected [OF assms(2,3) t(2)] show ?thesis
      by (simp add: cycle_view_def card_view_def)
  qed
qed

lemma end_cycle_simps [simp]:
  "Store_Get (ps_store (end_cycle c)) k = (if gget (snd c) k \<noteq> None then Store_Get (ps_store (fst c)) k else None)"
  "gget (ps_last_polled (end_cycle c)) k = (if gget (snd c) k \<noteq> None then gget (ps_last_polled (fst c)) k else None)"
  by (simp_all add: end_cycle_def pruneWidgetLastPolled_def Store_Get_def Store_Prune_def gget_gprune
      case_prod_unfold Let_def)

lemma end_cycle_inv:
  assumes "cycle_ok env c" "times_ok c"
  shows "poll_inv env (end_cycle c)"
proof -
  have "cycle_ok env (end_cycle c, [])"
    using assms(1) by (auto simp: cycle_ok_def caches_ok_def end_cycle_def pruneWidgetLastPolled_def Let_def
        pruneCAClientCache_def case_prod_unfold gget_gprune store_wf_Prune split: if_splits)
  with assms(2) show ?thesis by (simp add: poll_inv_def times_ok_def)
qed

lemma pollOnce_eq:
  "cycle_tasks env = Some ts \<Longrightarrow>
   pollOnce pool env clock st =
     end_cycle (pool (run_task env (cycle_config (pe_poller env) clock)) ts (begin_cycle st, initial_keep ts))"
  by (simp add: pollOnce_def initial_keep_def)

lemma pollOnce_inv:
  assumes "legal_pool pool" "poll_inv env st" "\<And>ts. cycle_tasks env = Some ts \<Longrightarrow> plain_tasks ts"
  shows "poll_inv env (pollOnce pool env clock st)"
proof (cases "cycle_tasks env")
  case None
  with begin_cycle_inv [OF assms(2), of "[]"] show ?thesis by (simp add: pollOnce_def poll_inv_def)
next
  case (Some ts)
  note start = begin_cycle_inv [OF assms(2), of "initial_keep ts"]
  show ?thesis
    unfolding pollOnce_eq [OF Some]
    by (rule end_cycle_inv)
       (use cycle_keep(3,4) [OF assms(1) conjunct1 [OF start] conjunct2 [OF start] assms(3) [OF Some] refl] in auto)
qed

text \<open>Ticks of one process: the cluster and the upstreams may change, the libraries and the client do not.\<close>

definition same_process :: "poll_env \<Rightarrow> poll_env \<Rightarrow> bool" where
  "same_process a b \<longleftrightarrow> pe_compile a = pe_compile b \<and> po_lib (pe_poller a) = po_lib (pe_poller b) \<and>
     po_http_client (pe_poller a) = po_http_client (pe_poller b)"

lemma poll_inv_process: "same_process a b \<Longrightarrow> poll_inv a st = poll_inv b st"
proof -
  assume same: "same_process a b"
  then have "fresh_client a = fresh_client b"
    by (auto simp: fresh_client_def same_process_def fun_eq_iff Let_def split: sum.split)
  with same show ?thesis
    by (simp add: poll_inv_def cycle_ok_def caches_ok_def no_collisions_def same_process_def)
qed

lemma Poller_Run_inv:
  assumes "legal_pool pool" "poll_inv env st"
    and "list_all (\<lambda>(e, _). same_process env e \<and> (\<forall>ts. cycle_tasks e = Some ts \<longrightarrow> plain_tasks ts)) ticks"
  shows "poll_inv env (Poller_Run pool ticks st)"
  using assms(2,3)
proof (induction ticks arbitrary: st)
  case (Cons tick ticks)
  obtain e clock where tick: "tick = (e, clock)" by fastforce
  with Cons.prems have same: "same_process env e" and "\<And>ts. cycle_tasks e = Some ts \<Longrightarrow> plain_tasks ts" by auto
  with Cons.prems(1) have "poll_inv e (pollOnce pool e clock st)"
    using poll_inv_process [OF same] by (intro pollOnce_inv assms(1)) auto
  with Cons poll_inv_process [OF same] tick show ?case by (simp add: Poller_Run_def)
qed (simp add: Poller_Run_def)

lemma cycle_widget:
  assumes "legal_pool pool" "poll_inv env st" "cycle_tasks env = Some ts" "plain_tasks ts"
    and "EntryTask ns cr e se \<in> set ts" "i < length (se_widgets se)"
  shows "Store_Get (ps_store (pollOnce pool env clock st)) (widget_key ns cr e i) =
    (let cfg = cycle_config (pe_poller env) clock; key = widget_key ns cr e i in
     Some (next_card env key ns se (Some (se_widgets se ! i)) (entry_monitor env cfg ns cr se)
             (cy_hide_errors cfg) (cy_widget_defaults cfg) (clock key) st))"
proof -
  let ?cfg = "cycle_config (pe_poller env) clock" and ?key = "widget_key ns cr e i"
  note start = begin_cycle_inv [OF assms(2), of "initial_keep ts"]
  note keep = cycle_keep [where cfg = "?cfg", OF assms(1) conjunct1 [OF start] conjunct2 [OF start] assms(4) refl]
  have nonempty: "se_widgets se \<noteq> []" using assms(6) by auto
  then have key: "?key \<in> set (task_keys (EntryTask ns cr e se))"
    "?key \<in> set (expected_keys env ?cfg (EntryTask ns cr e se))"
    using assms(6) by (simp_all add: expected_keys_def)
  have "next_card env ?key ns se w m h d n (begin_cycle st) = next_card env ?key ns se w m h d n st" for w m h d n
    by (rule next_card_local) simp
  moreover have "cy_clock ?cfg = clock" by (simp add: cycle_config_def Let_def split: prod.split)
  ultimately show ?thesis
    using keep(1) [of ?key] keep(5) [OF assms(5) key(1)] key(2) assms(5)
      run_one_widget [where cfg = ?cfg, OF conjunct1 [OF start] assms(6) refl]
    by (auto simp: pollOnce_eq [OF assms(3)] cycle_view_def card_view_def Let_def)
qed

section \<open>Properties\<close>

text \<open>
  C3. The outcome of a cycle does not depend on how its closures are scheduled: two executions Go's
  pool allows leave the same card, or none, under every key, and so the same page.
\<close>

theorem cycle_schedule_free:
  assumes "legal_pool pool" "legal_pool pool'" "poll_inv env st"
    and "cycle_tasks env = Some ts" "plain_tasks ts"
  shows "Store_Snapshot (ps_store (pollOnce pool env clock st)) = Store_Snapshot (ps_store (pollOnce pool' env clock st))"
proof -
  let ?cfg = "cycle_config (pe_poller env) clock" and ?c0 = "(begin_cycle st, initial_keep ts)"
  have ok: "cycle_ok env ?c0" using begin_cycle_inv [OF assms(3)] by simp
  have dist: "distinct (cycle_keys ts)" using assms(5) by (simp add: plain_tasks_def)
  have "cycle_view (pool (run_task env ?cfg) ts ?c0) = cycle_view (pool' (run_task env ?cfg) ts ?c0)"
    using pool_view(1) [OF assms(1) ok dist] pool_view(1) [OF assms(2) ok dist] by simp
  then have "Store_Get (ps_store (pollOnce pool env clock st)) = Store_Get (ps_store (pollOnce pool' env clock st))"
    by (simp add: fun_eq_iff pollOnce_eq [OF assms(4)] cycle_view_def card_view_def)
  moreover have "store_wf (ps_store (pollOnce p env clock st))" if "legal_pool p" for p
    using pollOnce_inv [OF that assms(3), of clock] assms(4,5)
    by (simp add: poll_inv_def cycle_ok_def caches_ok_def)
  ultimately show ?thesis
    using assms(1,2) by (intro snapshot_iteration_order) (auto simp: Store_Get_def fun_eq_iff)
qed

text \<open>
  C2. After a cycle the page shows exactly the cards of the cluster as the cycle found it, whatever the
  store held: one for every widget of a bound entry, one for an entry without widgets whose monitor
  has a status, one for every discovered service and every bound header widget of a known type.
\<close>

theorem cycle_cards_exact:
  assumes "legal_pool pool" "poll_inv env st" "cycle_tasks env = Some ts" "plain_tasks ts"
  shows "set (map c_key (Store_Snapshot (ps_store (pollOnce pool env clock st)))) =
      set (concat (map (expected_keys env (cycle_config (pe_poller env) clock)) ts)) \<and>
    distinct (map c_key (Store_Snapshot (ps_store (pollOnce pool env clock st)))) \<and>
    poll_inv env (pollOnce pool env clock st)"
proof -
  let ?st = "pollOnce pool env clock st"
  note start = begin_cycle_inv [OF assms(2), of "initial_keep ts"]
  note keep = cycle_keep [where cfg = "cycle_config (pe_poller env) clock",
      OF assms(1) conjunct1 [OF start] conjunct2 [OF start] assms(4) refl]
  have inv: "poll_inv env ?st" using assms by (intro pollOnce_inv) auto
  then have wf: "store_wf (ps_store ?st)" by (simp add: poll_inv_def cycle_ok_def caches_ok_def)
  have "Store_Get (ps_store ?st) k \<noteq> None \<longleftrightarrow>
      k \<in> set (concat (map (expected_keys env (cycle_config (pe_poller env) clock)) ts))" for k
    using keep(1,2) [of k] by (auto simp: pollOnce_eq [OF assms(3)])
  moreover have "set (map c_key (Store_Snapshot (ps_store ?st))) = {k. Store_Get (ps_store ?st) k \<noteq> None}"
    using wf by (force simp: set_Snapshot store_wf_iff Store_Get_def)
  ultimately show ?thesis using snapshot_keys_distinct [OF wf] inv by auto
qed

section \<open>A small cluster\<close>

definition ex_cards :: "service_card list" where
  "ex_cards = [ex_service_card ''web'' ''media'' [zero_service_entry\<lparr>se_name := ''tv'', se_widgets := [ex_sonarr, ex_sonarr]\<rparr>,
     zero_service_entry\<lparr>se_name := ''up'', se_monitor := Some ''http://a''\<rparr>, zero_service_entry]]"

definition ex_cluster_env :: poll_env where
  "ex_cluster_env = ex_env\<lparr>pe_poller := (pe_poller ex_env)\<lparr>po_reader := ex_reader (ex_dashboard ''web'' ''home'') ex_cards [] [] []\<rparr>\<rparr>"

definition ex_tasks :: "poll_task list" where
  "ex_tasks = entry_tasks ''home'' 1 ex_cards"

lemma ex_cycle_tasks: "cycle_tasks ex_cluster_env = Some ex_tasks"
  by (simp add: cycle_tasks_def ex_cluster_env_def ex_env_def ex_poller_def ex_reader_def ex_tasks_def
      namespaceDashboardCount_def discovered_tasks_def discoverySpec_def dashboardSpecForPoll_def
      discoverySpecFromDashboard_def ex_dashboard_def zero_dashboard_spec_def header_tasks_def Let_def)

lemma ex_tasks_plain: "plain_tasks ex_tasks"
  by (simp add: plain_tasks_def ex_tasks_def entry_tasks_def ex_cards_def ex_service_card_def cycle_keys_def
      service_entries_def ref_name_def bound_to_def zero_service_entry_def key_entry_prefix entry_prefix_def
      fmt_nat.simps digit_char_def)

lemma ex_poll_inv: "poll_inv ex_cluster_env ex_poll_state"
  using ex_env_ok by (simp add: poll_inv_def cycle_ok_def times_ok_def caches_ok_def no_collisions_def
      fresh_client_def ex_cluster_env_def ex_poll_state_def ex_ca_state_def ex_env_def ex_poller_def)

text \<open>A pool that runs the waiting tasks from the back.\<close>

definition ex_reverse_pool :: task_pool where
  "ex_reverse_pool run ts c = run_all run (rev ts) c"

lemma legal_reverse: "legal_pool ex_reverse_pool"
  unfolding legal_pool_def ex_reverse_pool_def
  by (metis exec_permute mset_rev poll.exec_run_all)

theorem cycle_schedule_free_witness:
  "Store_Snapshot (ps_store (pollOnce run_all ex_cluster_env (\<lambda>_. 7) ex_poll_state)) =
   Store_Snapshot (ps_store (pollOnce ex_reverse_pool ex_cluster_env (\<lambda>_. 7) ex_poll_state))"
  by (rule cycle_schedule_free [OF legal_sequential legal_reverse ex_poll_inv ex_cycle_tasks ex_tasks_plain])

theorem cycle_cards_exact_witness:
  "set (map c_key (Store_Snapshot (ps_store (pollOnce run_all ex_cluster_env (\<lambda>_. 7) ex_poll_state)))) =
     set (concat (map (expected_keys ex_cluster_env (cycle_config (pe_poller ex_cluster_env) (\<lambda>_. 7))) ex_tasks))"
  using cycle_cards_exact [OF legal_sequential ex_poll_inv ex_cycle_tasks ex_tasks_plain] by blast

text \<open>
  C18. What a cycle shows for a widget without an interval of its own is what polling it alone, without
  any cache and on an empty store, would show: its entry, this cycle's monitor result, and its fields
  with the rules applied, or the error.
\<close>

theorem cycle_polls_widgets:
  assumes "legal_pool pool" "poll_inv env st" "cycle_tasks env = Some ts" "plain_tasks ts"
    and "EntryTask ns cr e se \<in> set ts" "i < length (se_widgets se)"
    and "sw_poll_interval (se_widgets se ! i) = None"
    and "cfg = cycle_config (pe_poller env) clock" "key = widget_key ns cr e i"
  shows "Store_Get (ps_store (pollOnce pool env clock st)) key =
    Some (widget_card env key ns se (Some (se_widgets se ! i)) (entry_monitor env cfg ns cr se)
            (cy_hide_errors cfg) (cy_widget_defaults cfg) (clock key))"
  using cycle_widget [OF assms(1-6), of clock]
  by (simp add: assms(7-9) next_card_def widget_due_def duePoll_def Let_def)

definition ex_plain_entry :: service_entry where
  "ex_plain_entry = zero_service_entry\<lparr>se_widgets := [ex_sonarr\<lparr>sw_poll_interval := None\<rparr>]\<rparr>"

definition ex_plain_widget_env :: poll_env where
  "ex_plain_widget_env = ex_env\<lparr>pe_poller := (pe_poller ex_env)\<lparr>po_reader :=
     ex_reader (ex_dashboard ''web'' ''home'') [ex_service_card ''web'' ''c''
       [ex_plain_entry]] [] [] []\<rparr>\<rparr>"

theorem cycle_polls_widgets_witness:
  "Store_Get (ps_store (pollOnce run_all ex_plain_widget_env (\<lambda>_. 7) ex_poll_state)) (widget_key ''web'' ''c'' 0 0) =
    (let cfg = cycle_config (pe_poller ex_plain_widget_env) (\<lambda>_. 7) in
     Some (widget_card ex_plain_widget_env (widget_key ''web'' ''c'' 0 0) ''web'' ex_plain_entry
       (Some (se_widgets ex_plain_entry ! 0)) (entry_monitor ex_plain_widget_env cfg ''web'' ''c'' ex_plain_entry)
       (cy_hide_errors cfg) (cy_widget_defaults cfg) 7))"
  unfolding Let_def
proof (rule cycle_polls_widgets [OF legal_sequential, where ts = "[EntryTask ''web'' ''c'' 0 ex_plain_entry]"])
  show "poll_inv ex_plain_widget_env ex_poll_state"
    using ex_env_ok by (simp add: poll_inv_def cycle_ok_def times_ok_def caches_ok_def no_collisions_def
        fresh_client_def ex_plain_widget_env_def ex_poll_state_def ex_ca_state_def ex_env_def ex_poller_def)
  show "cycle_tasks ex_plain_widget_env = Some [EntryTask ''web'' ''c'' 0 ex_plain_entry]"
    by (simp add: cycle_tasks_def ex_plain_widget_env_def ex_env_def ex_poller_def ex_reader_def entry_tasks_def
        namespaceDashboardCount_def discovered_tasks_def discoverySpec_def dashboardSpecForPoll_def
        discoverySpecFromDashboard_def ex_dashboard_def zero_dashboard_spec_def header_tasks_def Let_def
        ex_service_card_def service_entries_def ref_name_def bound_to_def zero_service_entry_def ex_plain_entry_def)
qed (simp_all add: plain_tasks_def cycle_keys_def ex_plain_entry_def)

text \<open>
  C12. Every cycle ends.  The goroutines that share the slots of a cycle never block one another,
  though closures start further ones while they hold a slot: at most 8 run at a time, each closure
  runs exactly once, in two steps, whatever order Go picks, any unfinished cycle can go on and finish,
  and what a finished one leaves is one of the executions the pool's contract describes.
\<close>

theorem cycle_terminates:
  assumes "pool_steps (run_task env cfg) maxConcurrentPolls n (ts, [], c) (ws, rs, c')"
  shows "length rs \<le> 8 \<and> n \<le> 2 * sum_list (map closures ts) \<and>
    (ws = [] \<and> rs = [] \<longleftrightarrow> n = 2 * sum_list (map closures ts)) \<and>
    (\<exists>c2. pool_steps (run_task env cfg) maxConcurrentPolls (2 * sum_list (map closures ts) - n) (ws, rs, c') ([], [], c2)) \<and>
    (ws = [] \<and> rs = [] \<longrightarrow> exec (run_task env cfg) ts c c')"
proof -
  let ?n = "2 * sum_list (map closures ts)"
  have start: "semaphore.work (ts, [], c) = ?n" by (simp add: semaphore.work_def)
  with semaphore.steps_work [OF assms] have work: "?n = n + semaphore.work (ws, rs, c')" by simp
  have "ws = [] \<and> rs = [] \<longleftrightarrow> n = ?n" using work semaphore.done_iff [of ws rs c'] by simp
  moreover have "exec (run_task env cfg) ts c c'" if "ws = [] \<and> rs = []"
    using pool_exec [OF assms] that by simp
  moreover have "length rs \<le> 8" using pool_steps_bounded [OF assms] by (simp add: maxConcurrentPolls_def)
  moreover have "\<exists>c2. pool_steps (run_task env cfg) maxConcurrentPolls (?n - n) (ws, rs, c') ([], [], c2)"
    using semaphore.finishes [of maxConcurrentPolls env cfg ws rs c'] work by (simp add: maxConcurrentPolls_def)
  moreover have "n \<le> ?n" using work by simp
  ultimately show ?thesis by blast
qed

theorem cycle_terminates_witness:
  "(let cfg = cycle_config (pe_poller ex_cluster_env) (\<lambda>_. 7); c = (begin_cycle ex_poll_state, [])
    in \<exists>c2. pool_steps (run_task ex_cluster_env cfg) maxConcurrentPolls 10 (ex_tasks, [], c) ([], [], c2))"
proof -
  have "sum_list (map closures ex_tasks) = 5"
    by (simp add: ex_tasks_def entry_tasks_def ex_cards_def ex_service_card_def service_entries_def ref_name_def
        bound_to_def zero_service_entry_def)
  then show ?thesis
    using cycle_terminates [OF no_step, where env = ex_cluster_env and ts = ex_tasks
        and cfg = "cycle_config (pe_poller ex_cluster_env) (\<lambda>_. 7)" and c = "(begin_cycle ex_poll_state, [])"]
    by (simp add: Let_def)
qed

end
