(* ===== verification/Binding.thy ===== *)
theory Binding
  imports Reader
begin

text \<open>
  The thin controllers of ServiceCard, Bookmark and InfoWidget: validation of widget configuration
  (\<^verbatim>\<open>internal/dashboard/widgetschema\<close>, \<^verbatim>\<open>internal/controller/widget_config.go\<close>), resolution of the
  Dashboard reference (\<^verbatim>\<open>conditions.go\<close>), and the generic reconciler with its Dashboard watch
  (\<^verbatim>\<open>bound_config_reconciler.go\<close> and the three adapters).  \<^verbatim>\<open>meta.SetStatusCondition\<close> is the argument
  \<open>set_cond\<close>, used only through the law \<open>sets_condition\<close>.  Proved here: an object
  is reported bound exactly when some Dashboard's pod renders it, the watch re-examines every object
  whose answer a Dashboard's coming or going can change, and the reported conditions are exact.
\<close>

section \<open>Configuration schemas\<close>

record ConfigSchema =
  sch_required :: "string list"
  sch_optional :: "string list"

definition ConfigSchemas :: "ConfigSchema gomap" where
  "ConfigSchemas = map (\<lambda>(t, r, q). (t, \<lparr>sch_required = r, sch_optional = q\<rparr>))
     [(''plex'', [], []),
      (''stash'', [], []),
      (''paperlessngx'', [], []),
      (''grafana'', [], []),
      (''prometheus'', [], []),
      (''truenas'', [], []),
      (''linkwarden'', [], []),
      (''homeassistant'', [], []),
      (''sonarr'', [], []),
      (''radarr'', [], []),
      (''jellyfin'', [], []),
      (''jellyseerr'', [], []),
      (''immich'', [], []),
      (''adguard'', [], []),
      (''pihole'', [], []),
      (''uptime-kuma'', [], []),
      (''portainer'', [], []),
      (''argocd'', [], []),
      (''gitea'', [], []),
      (''tautulli'', [], []),
      (''netdata'', [], []),
      (''gatus'', [], []),
      (''nextcloud'', [], []),
      (''cloudflared'', [''accountId'', ''tunnelId''], []),
      (''customapi'', [''mappings''], []),
      (''prometheusmetric'', [''query''], [''label'', ''emptyValue'']),
      (''unifi'', [], [''site'', ''insecureTLS'']),
      (''iframe'', [], [''height'']),
      (''proxmox'', [], [''node'', ''insecureTLS'']),
      (''opnsense'', [], [''wan'']),
      (''speedtest'', [], [''version'']),
      (''mealie'', [], [''version'']),
      (''greeting'', [], [''text'']),
      (''datetime'', [], [''format'']),
      (''logo'', [], []),
      (''openmeteo'', [''latitude'', ''longitude''], [''units'', ''label'']),
      (''openweathermap'', [''latitude'', ''longitude''], [''units'', ''label'']),
      (''kubemetrics'', [], [''cpuLabel'', ''memoryLabel'']),
      (''glances'', [], [''apiVersion'']),
      (''longhorn'', [], [])]"

definition ValidateConfig :: "string list \<Rightarrow> ConfigSchema \<Rightarrow> string list \<times> string list" where
  "ValidateConfig configKeys schema =
     (let missing = filter (\<lambda>k. k \<notin> set configKeys) (sch_required schema);
          known = sch_required schema @ sch_optional schema;
          unknown = filter (\<lambda>k. k \<notin> set known) configKeys
      in (sort_by str_compare missing, sort_by str_compare unknown))"

section \<open>Conditions\<close>

definition reasonDashboardNotFound :: string where "reasonDashboardNotFound = ''DashboardNotFound''"
definition reasonAmbiguousDashboardRef :: string where
  "reasonAmbiguousDashboardRef = ''AmbiguousDashboardRef''"
definition reasonBound :: string where "reasonBound = ''Bound''"
definition reasonInvalidWidgetConfig :: string where "reasonInvalidWidgetConfig = ''InvalidWidgetConfig''"
definition reasonUnknownConfigKeys :: string where "reasonUnknownConfigKeys = ''UnknownConfigKeys''"
definition reasonConfigValid :: string where "reasonConfigValid = ''ConfigValid''"
definition typeAvailableBound :: string where "typeAvailableBound = ''Available''"
definition typeConfigValid :: string where "typeConfigValid = ''ConfigValid''"

definition mk_cond :: "string \<Rightarrow> cond_status \<Rightarrow> string \<Rightarrow> string \<Rightarrow> int \<Rightarrow> condition" where
  "mk_cond t st reason msg gen = \<lparr>cond_type = t, cond_status = st, cond_reason = reason,
     cond_message = msg, cond_observed_generation = gen\<rparr>"

definition boundDashboardCondition ::
  "reader \<Rightarrow> string \<Rightarrow> string \<Rightarrow> int \<Rightarrow> string + condition" where
  "boundDashboardCondition c namespace instanceRefName generation =
     (if instanceRefName \<noteq> [] then
        (case rd_get_dashboard c namespace instanceRefName of
           NotFound \<Rightarrow> Inr (mk_cond typeAvailableBound CondFalse reasonDashboardNotFound
             (''Dashboard '' @ quoted instanceRefName @
              '' referenced by dashboardRef does not exist in namespace '' @ quoted namespace) generation)
         | GetError e \<Rightarrow> Inl e
         | Found _ \<Rightarrow> Inr (mk_cond typeAvailableBound CondTrue reasonBound
             (''Bound to Dashboard '' @ quoted instanceRefName) generation))
      else
        (case rd_list_dashboards c namespace of
           Inl e \<Rightarrow> Inl e
         | Inr [] \<Rightarrow> Inr (mk_cond typeAvailableBound CondFalse reasonDashboardNotFound
             (''dashboardRef is not set and namespace '' @ quoted namespace @
              '' has no Dashboard to default to'') generation)
         | Inr [d] \<Rightarrow> Inr (mk_cond typeAvailableBound CondTrue reasonBound
             (''dashboardRef is not set; defaulted to namespace '' @ quoted namespace @
              [CHR 0x27] @ ''s sole Dashboard '' @ quoted (d_name d)) generation)
         | Inr (d # e # ds) \<Rightarrow> Inr (mk_cond typeAvailableBound CondFalse reasonAmbiguousDashboardRef
             (''dashboardRef is not set and namespace '' @ quoted namespace @ '' has multiple Dashboards ('' @
              join '', '' (sort_by str_compare (map d_name (d # e # ds))) @
              ''); set dashboardRef to disambiguate'') generation)))"

section \<open>Widget configuration\<close>

record widgetConfigInstance =
  wc_location :: string
  wc_type :: string
  wc_raw :: "json option"

text \<open>\<^verbatim>\<open>null\<close> unmarshals into an empty map.\<close>

definition decodeConfigKeys :: "json option \<Rightarrow> string list option" where
  "decodeConfigKeys raw =
     (case raw of
        None \<Rightarrow> Some []
      | Some JNull \<Rightarrow> Some []
      | Some (JObj kvs) \<Rightarrow> Some (remdups (map fst kvs))
      | Some _ \<Rightarrow> None)"

text \<open>What one turn of the loop adds to \<^verbatim>\<open>invalidMsgs\<close> and to \<^verbatim>\<open>unknownMsgs\<close>.\<close>

definition instance_msgs :: "widgetConfigInstance \<Rightarrow> string list \<times> string list" where
  "instance_msgs inst =
     (case gget ConfigSchemas (wc_type inst) of
        None \<Rightarrow> ([], [])
      | Some schema \<Rightarrow>
          (case decodeConfigKeys (wc_raw inst) of
             None \<Rightarrow> ([wc_location inst @ '': config is not a JSON object''], [])
           | Some keys \<Rightarrow>
               (case ValidateConfig keys schema of
                  (missing, unknown) \<Rightarrow>
                    (if missing \<noteq> [] then [wc_location inst @ '': missing required config keys: '' @ join '', '' missing]
                     else [],
                     if unknown \<noteq> [] then [wc_location inst @ '': unknown config keys: '' @ join '', '' unknown]
                     else []))))"

definition validateWidgetConfigs :: "widgetConfigInstance list \<Rightarrow> int \<Rightarrow> condition option \<times> condition" where
  "validateWidgetConfigs instances generation =
     (let invalidMsgs = concat (map (fst \<circ> instance_msgs) instances);
          unknownMsgs = concat (map (snd \<circ> instance_msgs) instances)
      in (if invalidMsgs \<noteq> []
          then Some (mk_cond typeAvailableBound CondFalse reasonInvalidWidgetConfig (join ''; '' invalidMsgs) generation)
          else None,
          if invalidMsgs \<noteq> []
          then mk_cond typeConfigValid CondFalse reasonInvalidWidgetConfig
                 (join ''; '' (invalidMsgs @ unknownMsgs)) generation
          else if unknownMsgs \<noteq> []
          then mk_cond typeConfigValid CondFalse reasonUnknownConfigKeys (join ''; '' unknownMsgs) generation
          else mk_cond typeConfigValid CondTrue reasonConfigValid
                 ''Every widget config key is recognized'' generation))"

definition serviceCardWidgetConfigInstances :: "service_entry list \<Rightarrow> widgetConfigInstance list" where
  "serviceCardWidgetConfigInstances entries =
     concat (map (\<lambda>(entryIdx, e).
       let label = or_str (se_name e) (''entries['' @ fmt_nat entryIdx @ '']'')
       in map (\<lambda>(widgetIdx, w).
            \<lparr>wc_location = ''entry '' @ quoted label @ '' widget['' @ fmt_nat widgetIdx @ ''] (type '' @
               quoted (sw_type w) @ '')'',
             wc_type = sw_type w, wc_raw = sw_config w\<rparr>)
          (List.enumerate 0 (se_widgets e)))
       (List.enumerate 0 entries))"

definition infoWidgetConfigInstances :: "info_widget_entry list \<Rightarrow> widgetConfigInstance list" where
  "infoWidgetConfigInstances entries =
     map (\<lambda>(widgetIdx, e).
       \<lparr>wc_location = ''widget['' @ fmt_nat widgetIdx @ ''] (type '' @ quoted (ie_type e) @ '')'',
        wc_type = ie_type e, wc_raw = ie_config e\<rparr>)
     (List.enumerate 0 entries)"

section \<open>The generic reconciler\<close>

record 'o boundConfigReconciler =
  bc_namespace :: "'o \<Rightarrow> string"
  bc_name :: "'o \<Rightarrow> string"
  bc_generation :: "'o \<Rightarrow> int"
  bc_ref_name :: "'o \<Rightarrow> string"
  bc_conditions :: "'o \<Rightarrow> condition list"
  bc_set_conditions :: "condition list \<Rightarrow> 'o \<Rightarrow> 'o"
  bc_apply_entries :: "'o \<Rightarrow> 'o"
  bc_widget_configs :: "('o \<Rightarrow> widgetConfigInstance list) option"

definition serviceCardAdapter :: "service_card boundConfigReconciler" where
  "serviceCardAdapter = \<lparr>bc_namespace = card_namespace, bc_name = card_name,
     bc_generation = card_generation,
     bc_ref_name = (\<lambda>s. ref_name (sc_dashboard_ref (card_spec s))), bc_conditions = card_conditions,
     bc_set_conditions = (\<lambda>cs s. s\<lparr>card_conditions := cs\<rparr>),
     bc_apply_entries = (\<lambda>s. s\<lparr>card_entries := int (length (service_entries (card_spec s)))\<rparr>),
     bc_widget_configs = Some (\<lambda>s. serviceCardWidgetConfigInstances (service_entries (card_spec s)))\<rparr>"

definition bookmarkAdapter :: "bookmark boundConfigReconciler" where
  "bookmarkAdapter = \<lparr>bc_namespace = bmk_namespace, bc_name = bmk_name, bc_generation = bmk_generation,
     bc_ref_name = (\<lambda>b. ref_name (bm_dashboard_ref (bmk_spec b))), bc_conditions = bmk_conditions,
     bc_set_conditions = (\<lambda>cs b. b\<lparr>bmk_conditions := cs\<rparr>),
     bc_apply_entries = (\<lambda>b. b\<lparr>bmk_entries := int (length (bookmark_entries (bmk_spec b)))\<rparr>),
     bc_widget_configs = None\<rparr>"

definition infoWidgetAdapter :: "info_widget boundConfigReconciler" where
  "infoWidgetAdapter = \<lparr>bc_namespace = iwd_namespace, bc_name = iwd_name, bc_generation = iwd_generation,
     bc_ref_name = (\<lambda>w. ref_name (iw_dashboard_ref (iwd_spec w))), bc_conditions = iwd_conditions,
     bc_set_conditions = (\<lambda>cs w. w\<lparr>iwd_conditions := cs\<rparr>),
     bc_apply_entries = (\<lambda>w. w\<lparr>iwd_entries := int (length (info_entries (iwd_spec w)))\<rparr>),
     bc_widget_configs = Some (\<lambda>w. infoWidgetConfigInstances (info_entries (iwd_spec w)))\<rparr>"

text \<open>
  \<open>got\<close> is what reading the object gave and \<open>status_update\<close> the status write, \<open>None\<close> on success.
  The result is the error of the reconcile, if any, and the object whose status was written.
\<close>

definition bound_status ::
  "(condition \<Rightarrow> condition list \<Rightarrow> condition list) \<Rightarrow> 'o boundConfigReconciler \<Rightarrow> condition \<Rightarrow> 'o \<Rightarrow> 'o" where
  "bound_status set_cond r cond obj =
     bc_apply_entries r
       (case bc_widget_configs r of
          None \<Rightarrow> bc_set_conditions r (set_cond cond (bc_conditions r obj)) obj
        | Some configs \<Rightarrow>
            (case validateWidgetConfigs (configs obj) (bc_generation r obj) of
               (override, configValid) \<Rightarrow>
                 let cond = (case override of
                               Some ov \<Rightarrow> if cond_status cond = CondTrue then ov else cond
                             | None \<Rightarrow> cond)
                 in bc_set_conditions r (set_cond configValid (set_cond cond (bc_conditions r obj))) obj))"

definition bound_Reconcile ::
  "(condition \<Rightarrow> condition list \<Rightarrow> condition list) \<Rightarrow> 'o boundConfigReconciler \<Rightarrow> reader \<Rightarrow>
     ('o \<Rightarrow> string option) \<Rightarrow> 'o get_result \<Rightarrow> string option \<times> 'o option" where
  "bound_Reconcile set_cond r c status_update got =
     (case got of
        NotFound \<Rightarrow> (None, None)
      | GetError e \<Rightarrow> (Some e, None)
      | Found obj \<Rightarrow>
          (case boundDashboardCondition c (bc_namespace r obj) (bc_ref_name r obj) (bc_generation r obj) of
             Inl e \<Rightarrow> (Some e, None)
           | Inr cond \<Rightarrow>
               let obj = bound_status set_cond r cond obj in (status_update obj, Some obj)))"

text \<open>
  The Dashboard watch: \<open>indexed ns v\<close> is the cached list of the objects of \<open>ns\<close> whose index value is
  \<open>v\<close>, \<open>None\<close> when it fails, in which case the loop goes on.
\<close>

definition mapDashboardToRequests ::
  "'o boundConfigReconciler \<Rightarrow> (string \<Rightarrow> string \<Rightarrow> 'o list option) \<Rightarrow> dashboard \<Rightarrow>
     (string \<times> string) list" where
  "mapDashboardToRequests r indexed instance_d =
     concat (map (\<lambda>refValue.
       case indexed (d_namespace instance_d) refValue of
         None \<Rightarrow> []
       | Some ts \<Rightarrow> map (\<lambda>t. (bc_namespace r t, bc_name r t)) ts)
     [d_name instance_d, []])"

text \<open>What \<^verbatim>\<open>SetupDashboardRefIndexers\<close> makes the cache answer.\<close>

definition dashboardRefIndex ::
  "'o boundConfigReconciler \<Rightarrow> 'o list \<Rightarrow> string \<Rightarrow> string \<Rightarrow> 'o list option" where
  "dashboardRefIndex r objs ns refValue =
     Some (filter (\<lambda>t. bc_namespace r t = ns \<and> bc_ref_name r t = refValue) objs)"

section \<open>Lemmas\<close>

text \<open>A cluster state as its reads show it: \<open>ds\<close> are the Dashboards of the namespace.\<close>

definition reads_dashboards :: "reader \<Rightarrow> string \<Rightarrow> dashboard list \<Rightarrow> bool" where
  "reads_dashboards c ns ds \<longleftrightarrow> rd_list_dashboards c ns = Inr ds \<and> distinct (map d_name ds) \<and>
     (\<forall>n. rd_get_dashboard c ns n = (case find (\<lambda>d. d_name d = n) ds of Some d \<Rightarrow> Found d | None \<Rightarrow> NotFound))"

lemma mk_cond_simps [simp]:
  "cond_status (mk_cond t st reason msg gen) = st" "cond_type (mk_cond t st reason msg gen) = t"
  "cond_reason (mk_cond t st reason msg gen) = reason"
  "cond_observed_generation (mk_cond t st reason msg gen) = gen"
  by (simp_all add: mk_cond_def)

lemma boundDashboardCondition_type:
  "boundDashboardCondition c ns ref gen = Inr cond \<Longrightarrow>
     cond_type cond = typeAvailableBound \<and> cond_observed_generation cond = gen"
  by (auto simp: boundDashboardCondition_def split: if_splits get_result.splits sum.splits list.splits)

lemma boundDashboardCondition_True:
  assumes "reads_dashboards c ns ds" "boundDashboardCondition c ns ref gen = Inr cond"
  shows "cond_status cond = CondTrue \<longleftrightarrow>
     (if ref \<noteq> [] then \<exists>d \<in> set ds. d_name d = ref else length ds = 1)"
proof (cases "ref = []")
  case True
  with assms show ?thesis
    by (cases ds rule: remdups_adj.cases)
       (auto simp: boundDashboardCondition_def reads_dashboards_def)
next
  case False
  show ?thesis
  proof (cases "find (\<lambda>d. d_name d = ref) ds")
    case None
    with assms False show ?thesis
      by (auto simp: boundDashboardCondition_def reads_dashboards_def find_None_iff)
  next
    case (Some d)
    then have "\<exists>d \<in> set ds. d_name d = ref" by (auto simp: find_Some_iff)
    with assms False Some show ?thesis
      by (auto simp: boundDashboardCondition_def reads_dashboards_def)
  qed
qed

definition config_complete :: "widgetConfigInstance \<Rightarrow> bool" where
  "config_complete inst \<longleftrightarrow>
     (case gget ConfigSchemas (wc_type inst) of
        None \<Rightarrow> True
      | Some schema \<Rightarrow>
          (case decodeConfigKeys (wc_raw inst) of
             None \<Rightarrow> False
           | Some keys \<Rightarrow> set (sch_required schema) \<subseteq> set keys))"

definition config_known :: "widgetConfigInstance \<Rightarrow> bool" where
  "config_known inst \<longleftrightarrow>
     (case gget ConfigSchemas (wc_type inst) of
        None \<Rightarrow> True
      | Some schema \<Rightarrow>
          (case decodeConfigKeys (wc_raw inst) of
             None \<Rightarrow> True
           | Some keys \<Rightarrow> set keys \<subseteq> set (sch_required schema) \<union> set (sch_optional schema)))"

lemma sort_by_empty [simp]: "sort_by cmp xs = [] \<longleftrightarrow> xs = []"
  by (metis length_0_conv length_sort_by)

lemma instance_msgs_none:
  "fst (instance_msgs inst) = [] \<longleftrightarrow> config_complete inst"
  "snd (instance_msgs inst) = [] \<longleftrightarrow> config_known inst"
  by (auto simp: instance_msgs_def config_complete_def config_known_def ValidateConfig_def Let_def
      filter_empty_conv split: option.split)

lemma validate_override:
  "fst (validateWidgetConfigs insts gen) = None \<longleftrightarrow> list_all config_complete insts"
  by (simp add: validateWidgetConfigs_def Let_def instance_msgs_none list_all_iff)

lemma validate_override_False:
  "fst (validateWidgetConfigs insts gen) = Some ov \<Longrightarrow>
     cond_status ov = CondFalse \<and> cond_type ov = typeAvailableBound"
  by (auto simp: validateWidgetConfigs_def Let_def split: if_splits)

lemma validate_configValid:
  "cond_status (snd (validateWidgetConfigs insts gen)) = CondTrue \<longleftrightarrow>
     list_all (\<lambda>i. config_complete i \<and> config_known i) insts"
  "cond_type (snd (validateWidgetConfigs insts gen)) = typeConfigValid"
  by (auto simp: validateWidgetConfigs_def Let_def instance_msgs_none list_all_iff)

text \<open>\<^verbatim>\<open>meta.SetStatusCondition\<close>: the condition of that type is replaced, every other one kept.\<close>

definition status_of :: "string \<Rightarrow> condition list \<Rightarrow> cond_status option" where
  "status_of t cs = map_option cond_status (find (\<lambda>c. cond_type c = t) cs)"

definition sets_condition :: "(condition \<Rightarrow> condition list \<Rightarrow> condition list) \<Rightarrow> bool" where
  "sets_condition set_cond \<longleftrightarrow> (\<forall>c cs t. find (\<lambda>x. cond_type x = t) (set_cond c cs) =
     (if t = cond_type c then Some c else find (\<lambda>x. cond_type x = t) cs))"

lemma bound_status_conditions:
  assumes set: "sets_condition set_cond"
    and cond: "boundDashboardCondition c ns ref gen = Inr cond"
    and configs: "bc_widget_configs r = Some configs"
    and get_set: "\<And>cs x. bc_conditions r (bc_apply_entries r (bc_set_conditions r cs x)) = cs"
  shows "status_of typeAvailableBound (bc_conditions r (bound_status set_cond r cond obj)) =
      Some (if cond_status cond = CondTrue \<and> \<not> list_all config_complete (configs obj)
            then CondFalse else cond_status cond) \<and>
    (status_of typeConfigValid (bc_conditions r (bound_status set_cond r cond obj)) = Some CondTrue \<longleftrightarrow>
       list_all (\<lambda>i. config_complete i \<and> config_known i) (configs obj))"
proof -
  obtain ov cv where v: "validateWidgetConfigs (configs obj) (bc_generation r obj) = (ov, cv)" by fastforce
  have t: "typeAvailableBound \<noteq> typeConfigValid"
    by (simp add: typeAvailableBound_def typeConfigValid_def)
  have ct: "cond_type cond = typeAvailableBound" using boundDashboardCondition_type [OF cond] by simp
  have cvt: "cond_type cv = typeConfigValid"
    and cvs: "cond_status cv = CondTrue \<longleftrightarrow> list_all (\<lambda>i. config_complete i \<and> config_known i) (configs obj)"
    using validate_configValid [of "configs obj" "bc_generation r obj"] v by simp_all
  let ?cond = "case ov of Some x \<Rightarrow> if cond_status cond = CondTrue then x else cond | None \<Rightarrow> cond"
  have out: "bc_conditions r (bound_status set_cond r cond obj) =
      set_cond cv (set_cond ?cond (bc_conditions r obj))"
    by (simp add: bound_status_def configs v get_set Let_def)
  have "cond_type ?cond = typeAvailableBound \<and>
      cond_status ?cond = (if cond_status cond = CondTrue \<and> \<not> list_all config_complete (configs obj)
        then CondFalse else cond_status cond)"
  proof (cases ov)
    case None
    then have "list_all config_complete (configs obj)"
      using validate_override [of "configs obj" "bc_generation r obj"] v by simp
    with None ct show ?thesis by simp
  next
    case (Some x)
    then have "\<not> list_all config_complete (configs obj)"
      using validate_override [of "configs obj" "bc_generation r obj"] v by simp
    moreover have "cond_status x = CondFalse" "cond_type x = typeAvailableBound"
      using validate_override_False [of "configs obj" "bc_generation r obj" x] v Some by simp_all
    ultimately show ?thesis using Some ct by simp
  qed
  with set t cvt cvs show ?thesis unfolding out status_of_def sets_condition_def by simp
qed

lemma rendered_aux:
  assumes "reads_dashboards c ns ds" "boundDashboardCondition c ns ref gen = Inr cond"
  shows "(cond_status cond = CondTrue \<longleftrightarrow> (\<exists>d \<in> set ds. bound_to ref (d_name d) (length ds))) \<and>
    (\<forall>d \<in> set ds. \<forall>e \<in> set ds. bound_to ref (d_name d) (length ds) \<longrightarrow>
       bound_to ref (d_name e) (length ds) \<longrightarrow> d_name d = d_name e)"
proof -
  have "d = e" if "length ds = 1" "d \<in> set ds" "e \<in> set ds" for d e
    using that by (cases ds) auto
  then show ?thesis
    using boundDashboardCondition_True [OF assms] by (auto simp: bound_to_def length_Suc_conv)
qed

text \<open>A kind whose conditions are read back as they were set, and the widget configs it has.\<close>

definition stores_conditions :: "'o boundConfigReconciler \<Rightarrow> bool" where
  "stores_conditions r \<longleftrightarrow> (\<forall>cs x. bc_conditions r (bc_apply_entries r (bc_set_conditions r cs x)) = cs)"

lemma adapters_store_conditions:
  "stores_conditions serviceCardAdapter" "stores_conditions bookmarkAdapter" "stores_conditions infoWidgetAdapter"
  by (simp_all add: stores_conditions_def serviceCardAdapter_def bookmarkAdapter_def infoWidgetAdapter_def)

definition configs_of :: "'o boundConfigReconciler \<Rightarrow> 'o \<Rightarrow> widgetConfigInstance list" where
  "configs_of r obj = (case bc_widget_configs r of None \<Rightarrow> [] | Some configs \<Rightarrow> configs obj)"

lemma bound_status_available:
  assumes set: "sets_condition set_cond" and r: "stores_conditions r"
    and cond: "boundDashboardCondition c ns ref gen = Inr cond"
  shows "status_of typeAvailableBound (bc_conditions r (bound_status set_cond r cond obj)) = Some CondTrue \<longleftrightarrow>
    cond_status cond = CondTrue \<and> list_all config_complete (configs_of r obj)"
proof (cases "bc_widget_configs r")
  case None
  have "cond_type cond = typeAvailableBound" using boundDashboardCondition_type [OF cond] by simp
  with set r None show ?thesis
    by (simp add: bound_status_def configs_of_def stores_conditions_def status_of_def sets_condition_def)
next
  case (Some configs)
  have stored: "bc_conditions r (bc_apply_entries r (bc_set_conditions r cs x)) = cs" for cs x
    using r by (simp add: stores_conditions_def)
  from conjunct1 [OF bound_status_conditions [OF set cond Some stored, of obj]]
  show ?thesis by (auto simp: configs_of_def Some split: if_splits)
qed

section \<open>Properties\<close>

text \<open>
  C27. The Dashboard watch misses nothing: an object of the Dashboard's namespace that the event does
  not enqueue gets the same condition (or error) before and after any change to that Dashboard.
\<close>

theorem dashboard_watch_complete:
  assumes "obj \<in> set objs" "bc_namespace r obj = d_namespace d"
    and "(bc_namespace r obj, bc_name r obj) \<notin> set (mapDashboardToRequests r (dashboardRefIndex r objs) d)"
    and "\<And>n. n \<noteq> d_name d \<Longrightarrow>
      rd_get_dashboard before (d_namespace d) n = rd_get_dashboard after (d_namespace d) n"
  shows "boundDashboardCondition before (bc_namespace r obj) (bc_ref_name r obj) gen =
         boundDashboardCondition after (bc_namespace r obj) (bc_ref_name r obj) gen"
proof -
  have "bc_ref_name r obj \<noteq> d_name d" "bc_ref_name r obj \<noteq> []"
    using assms(1-3) by (force simp: mapDashboardToRequests_def dashboardRefIndex_def)+
  with assms(2,4) show ?thesis by (simp add: boundDashboardCondition_def)
qed

definition ex_ref_card :: "string \<Rightarrow> service_card" where
  "ex_ref_card ref = (ex_service_card ''web'' ''media'' [])\<lparr>card_spec :=
     \<lparr>sc_dashboard_ref = Some \<lparr>dr_name = ref\<rparr>, sc_group = [], sc_services = []\<rparr>\<rparr>"

theorem dashboard_watch_complete_witness:
  "boundDashboardCondition (ex_reader (ex_dashboard ''web'' ''home'') [] [] [] []) ''web'' ''other'' 1 =
   boundDashboardCondition (ex_reader (ex_dashboard ''db'' ''home'') [] [] [] []) ''web'' ''other'' 1"
  using dashboard_watch_complete [of "ex_ref_card ''other''" "[ex_ref_card ''other'']" serviceCardAdapter
      "ex_dashboard ''web'' ''home''" "ex_reader (ex_dashboard ''web'' ''home'') [] [] [] []"
      "ex_reader (ex_dashboard ''db'' ''home'') [] [] [] []" 1]
  by (simp add: ex_ref_card_def ex_service_card_def serviceCardAdapter_def ex_dashboard_def ex_reader_def
      mapDashboardToRequests_def dashboardRefIndex_def ref_name_def)

text \<open>
  C28. What a ServiceCard's status says: Available is True exactly when the card is bound and every
  widget of a known type has a JSON object with all required keys as its config; ConfigValid is True
  exactly when moreover no config has an unknown key, bound or not.
\<close>

theorem service_card_status_exact:
  assumes "sets_condition set_cond" "reads_dashboards c (card_namespace obj) ds"
    and "bound_Reconcile set_cond serviceCardAdapter c status_update (Found obj) = (err, Some out)"
  shows "(status_of typeAvailableBound (card_conditions out) = Some CondTrue \<longleftrightarrow>
      (\<exists>d \<in> set ds. bound_to (ref_name (sc_dashboard_ref (card_spec obj))) (d_name d) (length ds)) \<and>
      list_all config_complete (serviceCardWidgetConfigInstances (service_entries (card_spec obj)))) \<and>
    (status_of typeConfigValid (card_conditions out) = Some CondTrue \<longleftrightarrow>
      list_all (\<lambda>i. config_complete i \<and> config_known i)
        (serviceCardWidgetConfigInstances (service_entries (card_spec obj)))) \<and>
    card_entries out = int (length (sc_services (card_spec obj))) \<and> err = status_update out"
proof -
  let ?r = serviceCardAdapter and ?ref = "ref_name (sc_dashboard_ref (card_spec obj))"
  obtain cond where cond: "boundDashboardCondition c (card_namespace obj) ?ref (card_generation obj) = Inr cond"
    and out: "out = bound_status set_cond ?r cond obj" "err = status_update out"
    using assms(3) by (auto simp: bound_Reconcile_def serviceCardAdapter_def Let_def split: sum.splits)
  have acc: "bc_conditions ?r = card_conditions"
    "\<And>cs x. bc_conditions ?r (bc_apply_entries ?r (bc_set_conditions ?r cs x)) = cs"
    "bc_widget_configs ?r = Some (\<lambda>s. serviceCardWidgetConfigInstances (service_entries (card_spec s)))"
    by (simp_all add: serviceCardAdapter_def)
  have "card_entries out = int (length (sc_services (card_spec obj)))"
    by (simp add: out(1) bound_status_def serviceCardAdapter_def Let_def split: prod.split)
  with bound_status_conditions [OF assms(1) cond acc(3,2), of obj]
    conjunct1 [OF rendered_aux [OF assms(2) cond]] out(2)
  show ?thesis by (auto simp: out(1) acc(1) split: if_splits)
qed

fun ex_set_cond :: "condition \<Rightarrow> condition list \<Rightarrow> condition list" where
  "ex_set_cond c [] = [c]"
| "ex_set_cond c (x # xs) = (if cond_type x = cond_type c then c # xs else x # ex_set_cond c xs)"

lemma ex_sets_condition: "sets_condition ex_set_cond"
proof -
  have "find (\<lambda>x. cond_type x = t) (ex_set_cond c cs) =
      (if t = cond_type c then Some c else find (\<lambda>x. cond_type x = t) cs)" for c cs t
    by (induction c cs rule: ex_set_cond.induct) auto
  then show ?thesis by (simp add: sets_condition_def)
qed

definition ex_bound_card :: service_card where
  "ex_bound_card = ex_service_card ''web'' ''media'' [zero_service_entry\<lparr>se_widgets :=
     [zero_service_widget\<lparr>sw_type := ''cloudflared'', sw_config := Some (JObj [(''tunnelId'', JStr ''t'')])\<rparr>]\<rparr>]"

theorem service_card_status_exact_witness:
  "(let out = the (snd (bound_Reconcile ex_set_cond serviceCardAdapter
       (ex_reader (ex_dashboard ''web'' ''home'') [] [] [] []) (\<lambda>_. None) (Found ex_bound_card)))
    in status_of typeAvailableBound (card_conditions out) = Some CondTrue \<longleftrightarrow>
      (\<exists>d \<in> set [ex_dashboard ''web'' ''home'']. bound_to [] (d_name d) 1) \<and>
      list_all config_complete (serviceCardWidgetConfigInstances (service_entries (card_spec ex_bound_card))))"
proof -
  let ?c = "ex_reader (ex_dashboard ''web'' ''home'') [] [] [] []"
  let ?run = "bound_Reconcile ex_set_cond serviceCardAdapter ?c (\<lambda>_. None) (Found ex_bound_card)"
  have "reads_dashboards ?c (card_namespace ex_bound_card) [ex_dashboard ''web'' ''home'']"
    by (simp add: reads_dashboards_def ex_reader_def ex_dashboard_def ex_bound_card_def ex_service_card_def)
  moreover have "\<exists>err out. ?run = (err, Some out)"
    by (simp add: bound_Reconcile_def serviceCardAdapter_def ex_bound_card_def ex_service_card_def
        boundDashboardCondition_def ref_name_def ex_reader_def Let_def)
  then have "?run = (fst ?run, Some (the (snd ?run)))" by auto
  ultimately show ?thesis
    using service_card_status_exact [OF ex_sets_condition, of ?c ex_bound_card "[ex_dashboard ''web'' ''home'']"
        "\<lambda>_. None" "fst ?run" "the (snd ?run)"]
    by (simp add: Let_def ex_bound_card_def ex_service_card_def ref_name_def)
qed

text \<open>
  C23. The controllers and the dashboard pods agree: the Available condition that a reconcile stores on a
  ServiceCard, a Bookmark or an InfoWidget is True exactly when some Dashboard of its namespace renders
  it (by \<^verbatim>\<open>BoundTo\<close>) and all its widget configs are complete.  So it is True of nothing that no page
  shows, and of everything shown but what lacks a config; and no two Dashboards ever render the same
  object.
\<close>

theorem available_iff_rendered:
  assumes "sets_condition set_cond" "stores_conditions r" "reads_dashboards c (bc_namespace r obj) ds"
    and "bound_Reconcile set_cond r c status_update (Found obj) = (err, Some out)"
  shows "(status_of typeAvailableBound (bc_conditions r out) = Some CondTrue \<longleftrightarrow>
      (\<exists>d \<in> set ds. bound_to (bc_ref_name r obj) (d_name d) (length ds)) \<and>
      list_all config_complete (configs_of r obj)) \<and>
    (\<forall>d \<in> set ds. \<forall>e \<in> set ds. bound_to (bc_ref_name r obj) (d_name d) (length ds) \<longrightarrow>
       bound_to (bc_ref_name r obj) (d_name e) (length ds) \<longrightarrow> d_name d = d_name e)"
proof -
  obtain cond where cond: "boundDashboardCondition c (bc_namespace r obj) (bc_ref_name r obj) (bc_generation r obj) = Inr cond"
    and out: "out = bound_status set_cond r cond obj"
    using assms(4) by (auto simp: bound_Reconcile_def Let_def split: sum.splits)
  from bound_status_available [OF assms(1,2) cond, of obj] rendered_aux [OF assms(3) cond]
  show ?thesis unfolding out by blast
qed

text \<open>An InfoWidget on the page of the only Dashboard, whose config lacks two keys.\<close>

definition ex_bare_widget :: info_widget where
  "ex_bare_widget = \<lparr>iwd_namespace = ''web'', iwd_name = ''weather'', iwd_generation = 1,
     iwd_spec = \<lparr>iw_dashboard_ref = None, iw_widgets = [zero_info_widget_entry\<lparr>ie_type := ''openmeteo''\<rparr>]\<rparr>,
     iwd_conditions = [], iwd_entries = 0\<rparr>"

theorem available_iff_rendered_witness:
  "(let out = the (snd (bound_Reconcile ex_set_cond infoWidgetAdapter
       (ex_reader (ex_dashboard ''web'' ''home'') [] [] [] []) (\<lambda>_. None) (Found ex_bare_widget)))
    in bound_to [] ''home'' 1 \<and> status_of typeAvailableBound (iwd_conditions out) \<noteq> Some CondTrue)"
proof -
  let ?c = "ex_reader (ex_dashboard ''web'' ''home'') [] [] [] []"
  let ?run = "bound_Reconcile ex_set_cond infoWidgetAdapter ?c (\<lambda>_. None) (Found ex_bare_widget)"
  have dash: "reads_dashboards ?c (bc_namespace infoWidgetAdapter ex_bare_widget) [ex_dashboard ''web'' ''home'']"
    by (simp add: reads_dashboards_def ex_reader_def ex_dashboard_def ex_bare_widget_def infoWidgetAdapter_def)
  have "\<exists>err out. ?run = (err, Some out)"
    by (simp add: bound_Reconcile_def infoWidgetAdapter_def ex_bare_widget_def boundDashboardCondition_def
        ref_name_def ex_reader_def Let_def)
  then have run: "?run = (fst ?run, Some (the (snd ?run)))" by auto
  have "\<not> list_all config_complete (configs_of infoWidgetAdapter ex_bare_widget)"
    by code_simp
  then have "status_of typeAvailableBound (bc_conditions infoWidgetAdapter (the (snd ?run))) \<noteq> Some CondTrue"
    using available_iff_rendered [OF ex_sets_condition adapters_store_conditions(3) dash run] by blast
  then show ?thesis by (simp add: Let_def infoWidgetAdapter_def bound_to_def)
qed

end
