(* ===== verification/Kube.thy ===== *)
theory Kube
  imports Binding
begin

text \<open>
  What the Dashboard controller (\<^verbatim>\<open>internal/controller/dashboard_*.go\<close>) writes to the cluster.  The
  client of controller-runtime is third-party code: \<^verbatim>\<open>Get\<close>, \<^verbatim>\<open>Create\<close>, \<^verbatim>\<open>Update\<close> and \<^verbatim>\<open>Delete\<close> of
  every kind are arguments that read and change a world of any type \<^typ>\<open>'w\<close>, and every call may fail,
  with or without an effect.  An operation of the controller is a state transformer with errors over
  the Dashboard object it holds in memory and that world; \<^verbatim>\<open>keeps\<close> and \<^verbatim>\<open>triple\<close> are the
  logic in which its properties are proved.  The objects carry the fields that the controller sets
  or compares.
\<close>

section \<open>Operations that may fail\<close>

type_synonym ('a, 's) action = "'s \<Rightarrow> (string + 'a) \<times> 's"

definition ret :: "'a \<Rightarrow> ('a, 's) action" where
  "ret x s = (Inr x, s)"

definition fail :: "string \<Rightarrow> ('a, 's) action" where
  "fail e s = (Inl e, s)"

definition andThen :: "('a, 's) action \<Rightarrow> ('a \<Rightarrow> ('b, 's) action) \<Rightarrow> ('b, 's) action" where
  "andThen m f s = (case m s of (r, s') \<Rightarrow> (case r of Inl e \<Rightarrow> (Inl e, s') | Inr x \<Rightarrow> f x s'))"

text \<open>\<^verbatim>\<open>fmt.Errorf("...: %w", err)\<close>\<close>

definition wrap :: "string \<Rightarrow> ('a, 's) action \<Rightarrow> ('a, 's) action" where
  "wrap msg m s = (case m s of (r, s') \<Rightarrow> (case r of Inl e \<Rightarrow> (Inl (msg @ '': '' @ e), s') | Inr x \<Rightarrow> (Inr x, s')))"

text \<open>\<^verbatim>\<open>for _, x := range xs { if err := f(x); err != nil { return err \<close> }}\<close>

primrec each :: "('x \<Rightarrow> (unit, 's) action) \<Rightarrow> 'x list \<Rightarrow> (unit, 's) action" where
  "each f [] = ret ()"
| "each f (x # xs) = andThen (f x) (\<lambda>_. each f xs)"

text \<open>\<^verbatim>\<open>err := m(); ...; if err != nil { return err \<close>} after something else was done.\<close>

definition attempt :: "('a, 's) action \<Rightarrow> (string + 'a, 's) action" where
  "attempt m s = (case m s of (r, s') \<Rightarrow> (Inr r, s'))"

definition inspect :: "('s \<Rightarrow> 'a) \<Rightarrow> ('a, 's) action" where
  "inspect f s = (Inr (f s), s)"

definition from_sum :: "string + 'a \<Rightarrow> ('a, 's) action" where
  "from_sum r s = (r, s)"

lemmas action_defs = ret_def fail_def andThen_def wrap_def attempt_def inspect_def from_sum_def

section \<open>Objects\<close>

record object_meta =
  om_namespace :: string
  om_name :: string
  om_annotations :: "string gomap"
  om_owners :: "(string \<times> string) list"

definition meta :: "string \<Rightarrow> string \<Rightarrow> object_meta" where
  "meta ns name = \<lparr>om_namespace = ns, om_name = name, om_annotations = [], om_owners = []\<rparr>"

lemma meta_simps [simp]: "om_namespace (meta ns n) = ns" "om_name (meta ns n) = n"
  by (simp_all add: meta_def)

record service_account =
  sa_meta :: object_meta

record policy_rule =
  pr_api_groups :: "string list"
  pr_resources :: "string list"
  pr_verbs :: "string list"
  pr_resource_names :: "string list"

record role =
  ro_meta :: object_meta
  ro_rules :: "policy_rule list"

record role_ref =
  rr_api_group :: string
  rr_kind :: string
  rr_name :: string

record subject =
  su_kind :: string
  su_name :: string
  su_namespace :: string

record role_binding =
  rb_meta :: object_meta
  rb_role_ref :: role_ref
  rb_subjects :: "subject list"

text \<open>A \<^verbatim>\<open>ClusterRole\<close> and a \<^verbatim>\<open>ClusterRoleBinding\<close> are a role and a binding without a namespace.\<close>

record svc_port =
  sp_name :: string
  sp_port :: int
  sp_target_port :: int

record service =
  sv_meta :: object_meta
  sv_type :: string
  sv_selector :: "string gomap"
  sv_ports :: "svc_port list"
  sv_cluster_ip :: string

text \<open>\<^verbatim>\<open>PathType\<close> is left out: it is set once and never compared.\<close>

record service_backend =
  sb_name :: string
  sb_port :: int

record ingress_path =
  ip_path :: string
  ip_service :: "service_backend option"

record ingress_rule =
  igr_host :: string
  igr_paths :: "ingress_path list option"

record ingress_tls =
  igt_hosts :: "string list"
  igt_secret_name :: string

record ingress_obj_spec =
  igs_class_name :: "string option"
  igs_rules :: "ingress_rule list"
  igs_tls :: "ingress_tls list"

record ingress =
  ig_meta :: object_meta
  ig_spec :: ingress_obj_spec

record backend_ref =
  br_name :: string
  br_port :: "int option"

record http_route_spec =
  hs_parent_refs :: "gateway_parent_ref list"
  hs_hostnames :: "string list"
  hs_rules :: "backend_ref list list"

record http_route =
  hr_meta :: object_meta
  hr_spec :: http_route_spec

datatype protocol = TCP | UDP

datatype policy_peer = NamespacePeer label_selector | CIDRPeer string

record policy_traffic =
  pt_ports :: "(protocol \<times> int) list"
  pt_peers :: "policy_peer list"

record network_policy_obj_spec =
  nps_pod_selector :: "string gomap"
  nps_policy_types :: "string list"
  nps_ingress :: "policy_traffic list"
  nps_egress :: "policy_traffic list"

record network_policy =
  np_meta :: object_meta
  np_spec :: network_policy_obj_spec

text \<open>\<^verbatim>\<open>corev1.Probe\<close>: the user's own, or the fields that the default sets.\<close>

datatype probe = UserProbe json | DefaultProbe string int

record container =
  ct_name :: string
  ct_image :: string
  ct_pull_policy :: string
  ct_args :: "string list"
  ct_ports :: "(int \<times> string \<times> protocol) list"
  ct_env :: "json list option"
  ct_readiness :: probe
  ct_liveness :: probe
  ct_resources :: "json gomap"
  ct_security_context :: "json gomap"
  ct_volume_mounts :: "json list option"

record pod_spec =
  ps_host_users :: "bool option"
  ps_service_account :: string
  ps_node_selector :: "string gomap option"
  ps_tolerations :: "json list option"
  ps_affinity :: "json option"
  ps_topology_spread :: "json list option"
  ps_image_pull_secrets :: "string list option"
  ps_volumes :: "json list"
  ps_priority_class :: string
  ps_security_context :: "json gomap"
  ps_containers :: "container list"

record pod_template =
  tp_labels :: "string gomap"
  tp_annotations :: "string gomap option"
  tp_spec :: pod_spec

record deployment =
  dep_meta :: object_meta
  dep_replicas :: "int option"
  dep_selector :: "string gomap"
  dep_template :: pod_template
  dep_ready_replicas :: int

section \<open>The client\<close>

text \<open>
  \<^verbatim>\<open>Create\<close>, \<^verbatim>\<open>Update\<close> and \<^verbatim>\<open>Delete\<close> on one kind; a cluster-scoped kind has the empty namespace.
  \<^verbatim>\<open>Delete\<close> answers \<^verbatim>\<open>Found ()\<close> when it deleted the object.
\<close>

record ('o, 'w) kind_client =
  kc_get :: "string \<Rightarrow> string \<Rightarrow> 'w \<Rightarrow> 'o get_result \<times> 'w"
  kc_create :: "'o \<Rightarrow> 'w \<Rightarrow> string option \<times> 'w"
  kc_update :: "'o \<Rightarrow> 'w \<Rightarrow> string option \<times> 'w"
  kc_delete :: "string \<Rightarrow> string \<Rightarrow> 'w \<Rightarrow> unit get_result \<times> 'w"

text \<open>
  The reconciler's client.  \<^verbatim>\<open>ku_reader\<close> is what the lists return, \<^verbatim>\<open>ku_secret_labels\<close> the direct
  reader's \<^verbatim>\<open>Get\<close> of a Secret, \<^verbatim>\<open>ku_set_owner\<close> is \<^verbatim>\<open>ctrl.SetControllerReference\<close>, \<^verbatim>\<open>ku_set_condition\<close> is
  \<^verbatim>\<open>meta.SetStatusCondition\<close>, \<^verbatim>\<open>ku_derives\<close> is \<^verbatim>\<open>equality.Semantic.DeepDerivative\<close> on volumes and the finalizer
  functions are \<^verbatim>\<open>controllerutil\<close>'s.
\<close>

record 'w kube =
  ku_reader :: "'w \<Rightarrow> reader"
  ku_secret_labels :: "string \<Rightarrow> string \<Rightarrow> 'w \<Rightarrow> string gomap get_result"
  ku_set_owner :: "dashboard \<Rightarrow> object_meta \<Rightarrow> string + object_meta"
  ku_set_condition :: "condition \<Rightarrow> condition list \<Rightarrow> condition list"
  ku_derives :: "json list \<Rightarrow> json list \<Rightarrow> bool"
  ku_contains_finalizer :: "dashboard \<Rightarrow> string \<Rightarrow> bool"
  ku_add_finalizer :: "dashboard \<Rightarrow> string \<Rightarrow> dashboard"
  ku_remove_finalizer :: "dashboard \<Rightarrow> string \<Rightarrow> dashboard \<times> bool"
  ku_get_dashboard :: "string \<Rightarrow> string \<Rightarrow> 'w \<Rightarrow> dashboard get_result \<times> 'w"
  ku_update_dashboard :: "dashboard \<Rightarrow> 'w \<Rightarrow> string option \<times> 'w"
  ku_update_status :: "dashboard \<Rightarrow> 'w \<Rightarrow> string option \<times> 'w"
  ku_service_accounts :: "(service_account, 'w) kind_client"
  ku_roles :: "(role, 'w) kind_client"
  ku_role_bindings :: "(role_binding, 'w) kind_client"
  ku_cluster_roles :: "(role, 'w) kind_client"
  ku_cluster_role_bindings :: "(role_binding, 'w) kind_client"
  ku_deployments :: "(deployment, 'w) kind_client"
  ku_services :: "(service, 'w) kind_client"
  ku_ingresses :: "(ingress, 'w) kind_client"
  ku_http_routes :: "(http_route, 'w) kind_client"
  ku_network_policies :: "(network_policy, 'w) kind_client"

text \<open>The in-memory Dashboard and the world.\<close>

type_synonym 'w cstate = "dashboard \<times> 'w"

text \<open>Calls as operations; an error of a write ends the operation that made it.\<close>

definition kget :: "('o, 'w) kind_client \<Rightarrow> string \<Rightarrow> string \<Rightarrow> ('o get_result, 'w cstate) action" where
  "kget c ns n s = (case kc_get c ns n (snd s) of (r, w) \<Rightarrow> (Inr r, (fst s, w)))"

definition written :: "dashboard \<Rightarrow> string option \<times> 'w \<Rightarrow> (string + unit) \<times> 'w cstate" where
  "written d r = ((case fst r of None \<Rightarrow> Inr () | Some e \<Rightarrow> Inl e), (d, snd r))"

definition kcreate :: "('o, 'w) kind_client \<Rightarrow> 'o \<Rightarrow> (unit, 'w cstate) action" where
  "kcreate c x s = written (fst s) (kc_create c x (snd s))"

definition kupdate :: "('o, 'w) kind_client \<Rightarrow> 'o \<Rightarrow> (unit, 'w cstate) action" where
  "kupdate c x s = written (fst s) (kc_update c x (snd s))"

text \<open>\<^verbatim>\<open>if err := r.Delete(ctx, x); err != nil \&\& !apierrors.IsNotFound(err) { return err \<close>}\<close>

definition kdelete :: "('o, 'w) kind_client \<Rightarrow> string \<Rightarrow> string \<Rightarrow> (unit, 'w cstate) action" where
  "kdelete c ns n s =
     (case kc_delete c ns n (snd s) of (r, w) \<Rightarrow>
        ((case r of GetError e \<Rightarrow> Inl e | _ \<Rightarrow> Inr ()), (fst s, w)))"

definition klist :: "'w kube \<Rightarrow> (reader \<Rightarrow> string + 'a) \<Rightarrow> ('a, 'w cstate) action" where
  "klist k f s = (f (ku_reader k (snd s)), s)"

definition instance_of :: "(dashboard, 'w cstate) action" where
  "instance_of s = (Inr (fst s), s)"

definition set_instance :: "(dashboard \<Rightarrow> dashboard) \<Rightarrow> (unit, 'w cstate) action" where
  "set_instance f s = (Inr (), (f (fst s), snd s))"

definition set_status :: "(dashboard_status \<Rightarrow> dashboard_status) \<Rightarrow> (unit, 'w cstate) action" where
  "set_status f = set_instance (\<lambda>d. d\<lparr>d_status := f (d_status d)\<rparr>)"

text \<open>\<^verbatim>\<open>r.Status().Update(ctx, instance)\<close> and \<^verbatim>\<open>r.Update(ctx, instance)\<close>\<close>

definition updateStatus :: "'w kube \<Rightarrow> (unit, 'w cstate) action" where
  "updateStatus k s = written (fst s) (ku_update_status k (fst s) (snd s))"

definition updateInstance :: "'w kube \<Rightarrow> (unit, 'w cstate) action" where
  "updateInstance k s = written (fst s) (ku_update_dashboard k (fst s) (snd s))"

text \<open>\<^verbatim>\<open>r.Get(ctx, req.NamespacedName, instance)\<close>, an absent Dashboard being the error.\<close>

definition refetch :: "'w kube \<Rightarrow> string \<Rightarrow> string \<Rightarrow> (unit, 'w cstate) action" where
  "refetch k ns n s =
     (case ku_get_dashboard k ns n (snd s) of (r, w) \<Rightarrow>
        (case r of Found d \<Rightarrow> (Inr (), (d, w)) | NotFound \<Rightarrow> (Inl ''not found'', (fst s, w))
         | GetError e \<Rightarrow> (Inl e, (fst s, w))))"

text \<open>\<^verbatim>\<open>ctrl.SetControllerReference(instance, desired, r.Scheme)\<close>\<close>

definition own :: "'w kube \<Rightarrow> (object_meta \<Rightarrow> 'o) \<Rightarrow> object_meta \<Rightarrow> ('o, 'w cstate) action" where
  "own k mk m s = (map_sum id mk (ku_set_owner k (fst s) m), s)"

text \<open>
  The recurring \<^verbatim>\<open>Get\<close>, and then \<^verbatim>\<open>Create\<close> if the object is not found: most RBAC objects are never
  changed once they exist.
\<close>

definition ensureExists :: "('o, 'w) kind_client \<Rightarrow> string \<Rightarrow> string \<Rightarrow> 'o \<Rightarrow> (unit, 'w cstate) action" where
  "ensureExists c ns n desired =
     andThen (kget c ns n) (\<lambda>r. case r of
        NotFound \<Rightarrow> kcreate c desired
      | Found _ \<Rightarrow> ret ()
      | GetError e \<Rightarrow> fail e)"

section \<open>A logic of operations\<close>

text \<open>
  \<^verbatim>\<open>triple P m Q E\<close>: from a state of \<^verbatim>\<open>P\<close>, success leads to \<^verbatim>\<open>Q\<close> and an error to \<^verbatim>\<open>E\<close>;
  \<^verbatim>\<open>keeps I m\<close>: whatever happens, \<^verbatim>\<open>I\<close> is kept.
\<close>

definition triple :: "('s \<Rightarrow> bool) \<Rightarrow> ('a, 's) action \<Rightarrow> ('a \<Rightarrow> 's \<Rightarrow> bool) \<Rightarrow> ('s \<Rightarrow> bool) \<Rightarrow> bool" where
  "triple P m Q E \<longleftrightarrow> (\<forall>s. P s \<longrightarrow> (case m s of (r, s') \<Rightarrow> (case r of Inl _ \<Rightarrow> E s' | Inr x \<Rightarrow> Q x s')))"

abbreviation keeps :: "('s \<Rightarrow> bool) \<Rightarrow> ('a, 's) action \<Rightarrow> bool" where
  "keeps I m \<equiv> triple I m (\<lambda>_. I) I"

named_theorems triple_intros

lemma tripleI:
  assumes "\<And>s x s'. P s \<Longrightarrow> m s = (Inr x, s') \<Longrightarrow> Q x s'" "\<And>s e s'. P s \<Longrightarrow> m s = (Inl e, s') \<Longrightarrow> E s'"
  shows "triple P m Q E"
  unfolding triple_def
proof (intro allI impI)
  fix s assume "P s"
  obtain r s' where "m s = (r, s')" by (cases "m s")
  then show "case m s of (r, s') \<Rightarrow> case r of Inl _ \<Rightarrow> E s' | Inr x \<Rightarrow> Q x s'"
    using assms \<open>P s\<close> by (cases r) simp_all
qed

lemma triple_success: "triple P m Q E \<Longrightarrow> P s \<Longrightarrow> m s = (Inr x, s') \<Longrightarrow> Q x s'"
  unfolding triple_def by force

lemma triple_error: "triple P m Q E \<Longrightarrow> P s \<Longrightarrow> m s = (Inl e, s') \<Longrightarrow> E s'"
  unfolding triple_def by force

lemma triple_weaken:
  assumes "triple P m Q E" "\<And>s. P' s \<Longrightarrow> P s" "\<And>x s. Q x s \<Longrightarrow> Q' x s" "\<And>s. E s \<Longrightarrow> E' s"
  shows "triple P' m Q' E'"
  by (rule tripleI) (meson assms triple_success triple_error)+

lemma triple_pre: "triple P m Q E \<Longrightarrow> (\<And>s. P' s \<Longrightarrow> P s) \<Longrightarrow> triple P' m Q E"
  by (erule triple_weaken)

lemma triple_ret: "(\<And>s. P s \<Longrightarrow> Q x s) \<Longrightarrow> triple P (ret x) Q E"
  by (simp add: triple_def action_defs)

lemma triple_fail: "(\<And>s. P s \<Longrightarrow> E s) \<Longrightarrow> triple P (fail e) Q E"
  by (simp add: triple_def action_defs)

lemma triple_andThen:
  assumes m: "triple P m R E" and f: "\<And>x. triple (R x) (f x) Q E"
  shows "triple P (andThen m f) Q E"
proof (rule tripleI)
  fix s x s' assume "P s" and run: "andThen m f s = (Inr x, s')"
  then obtain y t where "m s = (Inr y, t)" "f y t = (Inr x, s')"
    by (auto simp: andThen_def split: prod.splits sum.splits)
  with \<open>P s\<close> show "Q x s'" by (meson m f triple_success)
next
  fix s e s' assume "P s" and run: "andThen m f s = (Inl e, s')"
  then consider "m s = (Inl e, s')" | y t where "m s = (Inr y, t)" "f y t = (Inl e, s')"
    by (auto simp: andThen_def split: prod.splits sum.splits)
  then show "E s'"
    using \<open>P s\<close> m f by cases (meson triple_success triple_error)+
qed

lemma triple_wrap [triple_intros]:
  assumes "triple P m Q E"
  shows "triple P (wrap msg m) Q E"
proof (rule tripleI)
  fix s x s' assume "P s" "wrap msg m s = (Inr x, s')"
  then show "Q x s'" using triple_success [OF assms] by (auto simp: wrap_def split: prod.splits sum.splits)
next
  fix s e s' assume "P s" "wrap msg m s = (Inl e, s')"
  then show "E s'" using triple_error [OF assms] by (auto simp: wrap_def split: prod.splits sum.splits)
qed

lemma triple_attempt:
  assumes "triple P m (\<lambda>x. Q (Inr x)) (\<lambda>s. \<forall>e. Q (Inl e) s)"
  shows "triple P (attempt m) Q E"
proof (rule tripleI)
  fix s x s' assume "P s" "attempt m s = (Inr x, s')"
  moreover from this have "m s = (x, s')" by (simp add: attempt_def split: prod.splits)
  ultimately show "Q x s'"
    using triple_success [OF assms] triple_error [OF assms] by (cases x) auto
qed (simp add: attempt_def split: prod.splits)

lemma triple_if [triple_intros]:
  "(b \<Longrightarrow> triple P m Q E) \<Longrightarrow> (\<not> b \<Longrightarrow> triple P m' Q E) \<Longrightarrow> triple P (if b then m else m') Q E"
  by simp

lemma triple_each:
  assumes "\<And>x. x \<in> set xs \<Longrightarrow> keeps I (f x)"
  shows "keeps I (each f xs)"
  using assms
proof (induction xs)
  case Nil
  show ?case by (simp add: triple_ret)
next
  case (Cons x xs)
  have "keeps I (f x)" "keeps I (each f xs)" using Cons by simp_all
  then show ?case by (simp add: triple_andThen [where R = "\<lambda>_. I"])
qed

text \<open>What each turn of a loop establishes for its element holds for all of them in the end.\<close>

lemma triple_each_all:
  assumes "\<And>x. triple I (f x) (\<lambda>_ s. I s \<and> G x s) I" "\<And>x y. keeps (\<lambda>s. I s \<and> G y s) (f x)"
  shows "triple I (each f xs) (\<lambda>_ s. I s \<and> (\<forall>x \<in> set xs. G x s)) I"
proof (induction xs)
  case Nil
  show ?case by (simp add: triple_ret)
next
  case (Cons x xs)
  have g: "triple (\<lambda>s. I s \<and> G x s) (each f xs) (\<lambda>_ s. I s \<and> G x s) (\<lambda>s. I s \<and> G x s)"
    by (rule triple_each) (rule assms(2))
  have "triple (\<lambda>s. I s \<and> G x s) (each f xs) (\<lambda>_ s. I s \<and> (\<forall>y \<in> set (x # xs). G y s)) I"
  proof (rule tripleI)
    fix s u s' assume pre: "I s \<and> G x s" and run: "each f xs s = (Inr u, s')"
    have "I s' \<and> G x s'" using g pre run by (rule triple_success)
    moreover have "I s' \<and> (\<forall>y \<in> set xs. G y s')"
      by (rule triple_success [OF Cons _ run]) (use pre in simp)
    ultimately show "I s' \<and> (\<forall>y \<in> set (x # xs). G y s')" by simp
  next
    fix s e s' assume pre: "I s \<and> G x s" and run: "each f xs s = (Inl e, s')"
    have "I s' \<and> G x s'" using g pre run by (rule triple_error)
    then show "I s'" ..
  qed
  then show ?case by (simp add: triple_andThen [OF assms(1)])
qed

lemma keeps_andThen [triple_intros]:
  "keeps I m \<Longrightarrow> (\<And>x. keeps I (f x)) \<Longrightarrow> keeps I (andThen m f)"
  by (rule triple_andThen)

lemma keeps_simple [triple_intros]:
  "keeps I (ret x)" "keeps I (fail e)" "keeps I (inspect f)" "keeps I (from_sum r)"
  "keeps I instance_of" "keeps I (klist k g)" "keeps I (own k mk m)"
  by (auto simp: triple_def action_defs instance_of_def klist_def own_def split: sum.splits)

lemma keeps_each [triple_intros]: "(\<And>x. keeps I (f x)) \<Longrightarrow> keeps I (each f xs)"
  by (rule triple_each)

lemma keeps_attempt [triple_intros]: "keeps I m \<Longrightarrow> keeps I (attempt m)"
  by (rule triple_attempt) simp

lemma keeps_get_result [triple_intros]:
  "(\<And>x. r = Found x \<Longrightarrow> keeps I (f x)) \<Longrightarrow> (r = NotFound \<Longrightarrow> keeps I m) \<Longrightarrow> (\<And>e. r = GetError e \<Longrightarrow> keeps I (g e)) \<Longrightarrow>
   keeps I (case r of Found x \<Rightarrow> f x | NotFound \<Rightarrow> m | GetError e \<Rightarrow> g e)"
  by (cases r) simp_all

lemma keeps_sum [triple_intros]:
  "(\<And>e. r = Inl e \<Longrightarrow> keeps I (f e)) \<Longrightarrow> (\<And>x. r = Inr x \<Longrightarrow> keeps I (g x)) \<Longrightarrow>
   keeps I (case r of Inl e \<Rightarrow> f e | Inr x \<Rightarrow> g x)"
  by (cases r) simp_all

section \<open>Successful runs\<close>

named_theorems run_simps

lemma andThen_Inr [run_simps]:
  "andThen m f s = (Inr y, s') \<longleftrightarrow> (\<exists>x t. m s = (Inr x, t) \<and> f x t = (Inr y, s'))"
  by (auto simp: andThen_def split: prod.splits sum.splits)

lemma wrap_Inr [run_simps]: "wrap msg m s = (Inr x, s') \<longleftrightarrow> m s = (Inr x, s')"
  by (auto simp: wrap_def split: prod.splits sum.splits)

lemma simple_Inr [run_simps]:
  "ret x s = (Inr y, s') \<longleftrightarrow> y = x \<and> s' = s"
  "fail e s \<noteq> (Inr y, s')"
  "instance_of t = (Inr d, t') \<longleftrightarrow> d = fst t \<and> t' = t"
  "klist k f t = (Inr z, t') \<longleftrightarrow> f (ku_reader k (snd t)) = Inr z \<and> t' = t"
  by (auto simp: action_defs instance_of_def klist_def)

lemma write_Inr [run_simps]:
  "kcreate c x s = (Inr u, s') \<longleftrightarrow> (\<exists>w'. kc_create c x (snd s) = (None, w') \<and> s' = (fst s, w'))"
  "kupdate c x s = (Inr u, s') \<longleftrightarrow> (\<exists>w'. kc_update c x (snd s) = (None, w') \<and> s' = (fst s, w'))"
  by (cases "kc_create c x (snd s)"; auto simp: kcreate_def written_def split: option.splits)
    (cases "kc_update c x (snd s)"; auto simp: kupdate_def written_def split: option.splits)

lemma kget_Inr [run_simps]:
  "kget c ns n s = (Inr r, s') \<longleftrightarrow> (\<exists>w'. kc_get c ns n (snd s) = (r, w') \<and> s' = (fst s, w'))"
  by (cases "kc_get c ns n (snd s)") (auto simp: kget_def)

lemma own_Inr [run_simps]:
  "own k mk m s = (Inr x, s') \<longleftrightarrow> (\<exists>m'. ku_set_owner k (fst s) m = Inr m' \<and> x = mk m' \<and> s' = s)"
  by (cases "ku_set_owner k (fst s) m") (auto simp: own_def)

end
