(* ===== verification/Names.thy ===== *)
theory Names
  imports Kube
begin

text \<open>
  The names and labels that the Dashboard controller derives from a Dashboard's name
  (\<^verbatim>\<open>dashboard_rbac.go\<close>, \<^verbatim>\<open>dashboard_controller.go\<close>).  SHA-256 is an argument.  Proved here: the
  names of cluster-scoped objects fit Kubernetes' limit, names of different purposes never
  coincide, and names or label values of two Dashboards coincide only if 64 bits of their hashes
  do (or one Dashboard's name was chosen to end with the other's hash).
\<close>

section \<open>Definitions\<close>

definition hex_byte :: "char \<Rightarrow> string" where
  "hex_byte c = (let n = (of_char c :: nat) in [hex_digit (n div 16), hex_digit (n mod 16)])"

text \<open>\<^verbatim>\<open>fmt.Sprintf("-\%x", sum[:8])\<close>\<close>

definition hash_suffix :: "(string \<Rightarrow> string) \<Rightarrow> string \<Rightarrow> string" where
  "hash_suffix sha256 key = CHR ''-'' # concat (map hex_byte (take 8 (sha256 key)))"

definition bounded_name :: "(string \<Rightarrow> string) \<Rightarrow> nat \<Rightarrow> string \<Rightarrow> string \<Rightarrow> string" where
  "bounded_name sha256 max_length full key =
     (if length full \<le> max_length then full
      else let suffix = hash_suffix sha256 key in take (max_length - length suffix) full @ suffix)"

definition clusterRBACNameMaxLength :: nat where "clusterRBACNameMaxLength = 253"

definition length_prefixed :: "string \<Rightarrow> dashboard \<Rightarrow> string" where
  "length_prefixed prefix d =
     prefix @ fmt_nat (length (d_namespace d)) @ ''-'' @ d_namespace d @ ''-'' @ d_name d"

definition clusterRBACName :: "(string \<Rightarrow> string) \<Rightarrow> dashboard \<Rightarrow> string" where
  "clusterRBACName sha256 d =
     bounded_name sha256 clusterRBACNameMaxLength (length_prefixed ''kubepage-'' d)
       (d_namespace d @ ''/'' @ d_name d)"

definition discoveryRBACName :: "(string \<Rightarrow> string) \<Rightarrow> dashboard \<Rightarrow> string" where
  "discoveryRBACName sha256 d =
     bounded_name sha256 clusterRBACNameMaxLength (length_prefixed ''kubepage-disc-'' d)
       (''disc/'' @ d_namespace d @ ''/'' @ d_name d)"

definition monitorRBACName :: "(string \<Rightarrow> string) \<Rightarrow> dashboard \<Rightarrow> string" where
  "monitorRBACName sha256 d =
     bounded_name sha256 clusterRBACNameMaxLength (length_prefixed ''kubepage-mon-'' d)
       (''mon/'' @ d_namespace d @ ''/'' @ d_name d)"

definition maxLabelValueLen :: nat where "maxLabelValueLen = 63"

definition instanceLabelValue :: "(string \<Rightarrow> string) \<Rightarrow> string \<Rightarrow> string" where
  "instanceLabelValue sha256 name = bounded_name sha256 maxLabelValueLen name name"

definition imageVersionLabel :: "string \<Rightarrow> string" where
  "imageVersionLabel img =
     (case last_index ''@'' img of
        Some at \<Rightarrow>
          let digest = drop (at + 1) img;
              digest = (case cut_char (CHR '':'') digest of (_, Some r) \<Rightarrow> r | (_, None) \<Rightarrow> digest)
          in take maxLabelValueLen digest
      | None \<Rightarrow>
          (case last_index '':'' img of Some idx \<Rightarrow> drop (idx + 1) img | None \<Rightarrow> []))"

definition selectorLabelsForDashboard :: "(string \<Rightarrow> string) \<Rightarrow> string \<Rightarrow> string gomap" where
  "selectorLabelsForDashboard sha256 instanceName =
     [(''app.kubernetes.io/name'', ''kubepage-operator''),
      (''app.kubernetes.io/managed-by'', ''DashboardController''),
      (''app.kubernetes.io/instance'', instanceLabelValue sha256 instanceName)]"

definition labelsForDashboard :: "(string \<Rightarrow> string) \<Rightarrow> string \<Rightarrow> string \<Rightarrow> string gomap" where
  "labelsForDashboard sha256 instanceName img =
     gput ''app.kubernetes.io/version'' (imageVersionLabel img)
       (selectorLabelsForDashboard sha256 instanceName)"

definition mergeStringMaps :: "string gomap \<Rightarrow> string gomap \<Rightarrow> string gomap" where
  "mergeStringMaps userValues builtinValues = gcopy (gcopy [] userValues) builtinValues"

section \<open>Lemmas\<close>

lemma hex_digit_inj: "a < 16 \<Longrightarrow> b < 16 \<Longrightarrow> hex_digit a = hex_digit b \<Longrightarrow> a = b"
proof -
  assume a: "a < 16" and b: "b < 16" and "hex_digit a = hex_digit b"
  then have "(of_char (hex_digit a) :: nat) = of_char (hex_digit b)" by simp
  with a b show "a = b" by (simp add: hex_digit_def split: if_splits)
qed

lemma hex_byte_inj: "hex_byte a = hex_byte b \<longleftrightarrow> a = b"
proof
  assume eq: "hex_byte a = hex_byte b"
  let ?a = "of_char a :: nat" and ?b = "of_char b :: nat"
  have lt: "?a < 256" "?b < 256" by simp_all
  then have "?a div 16 < 16" "?b div 16 < 16" by (simp_all add: less_mult_imp_div_less)
  with eq have "?a div 16 = ?b div 16" "?a mod 16 = ?b mod 16"
    by (auto simp: hex_byte_def Let_def intro: hex_digit_inj)
  then have "?a = ?b" by (metis div_mult_mod_eq)
  then show "a = b" by simp
qed simp

lemma length_hex_byte [simp]: "length (hex_byte c) = 2"
  by (simp add: hex_byte_def Let_def)

lemma length_hex_bytes [simp]: "length (concat (map hex_byte s)) = 2 * length s"
  by (induction s) simp_all

lemma hex_bytes_inj: "concat (map hex_byte s) = concat (map hex_byte t) \<Longrightarrow> s = t"
proof (induction s arbitrary: t)
  case Nil
  then show ?case by (cases t) (auto simp: hex_byte_def Let_def)
next
  case (Cons c s)
  from Cons.prems obtain c' t' where t: "t = c' # t'"
    by (cases t) (auto simp: hex_byte_def Let_def)
  with Cons.prems have "hex_byte c = hex_byte c'" "concat (map hex_byte s) = concat (map hex_byte t')"
    by (simp_all add: append_eq_append_conv)
  with Cons.IH t show ?case by (simp add: hex_byte_inj)
qed

lemma hash_suffix_inj:
  "hash_suffix sha a = hash_suffix sha b \<longleftrightarrow> take 8 (sha a) = take 8 (sha b)"
  by (auto simp: hash_suffix_def dest: hex_bytes_inj)

lemma length_hash_suffix: "length (sha key) = 32 \<Longrightarrow> length (hash_suffix sha key) = 17"
  by (simp add: hash_suffix_def)

lemma bounded_name_length:
  assumes "length (sha key) = 32" "17 \<le> n"
  shows "length (bounded_name sha n full key) \<le> n"
  using assms by (simp add: bounded_name_def Let_def length_hash_suffix)

text \<open>Two bounded names are the same for the same full name, or by a coincidence of hashes.\<close>

definition coincide :: "(string \<Rightarrow> string) \<Rightarrow> nat \<Rightarrow> string \<times> string \<Rightarrow> string \<times> string \<Rightarrow> bool" where
  "coincide sha n a b \<longleftrightarrow>
     (length (fst a) > n \<and> length (fst b) > n \<and> take 8 (sha (snd a)) = take 8 (sha (snd b))) \<or>
     (length (fst a) > n \<and> has_suffix (fst b) (hash_suffix sha (snd a))) \<or>
     (length (fst b) > n \<and> has_suffix (fst a) (hash_suffix sha (snd b)))"

lemma bounded_name_eq:
  assumes len: "\<And>k. length (sha k) = 32"
    and eq: "bounded_name sha n (fst a) (snd a) = bounded_name sha n (fst b) (snd b)"
  shows "fst a = fst b \<or> coincide sha n a b"
proof (cases "length (fst a) \<le> n"; cases "length (fst b) \<le> n")
  assume "length (fst a) \<le> n" "length (fst b) \<le> n"
  with eq show ?thesis by (simp add: bounded_name_def)
next
  assume "length (fst a) \<le> n" "\<not> length (fst b) \<le> n"
  with eq show ?thesis by (auto simp: bounded_name_def coincide_def Let_def)
next
  assume "\<not> length (fst a) \<le> n" "length (fst b) \<le> n"
  with eq show ?thesis by (auto simp: bounded_name_def coincide_def Let_def dest: sym)
next
  assume long: "\<not> length (fst a) \<le> n" "\<not> length (fst b) \<le> n"
  with eq have "hash_suffix sha (snd a) = hash_suffix sha (snd b)"
    by (simp add: bounded_name_def Let_def append_eq_append_conv length_hash_suffix len)
  with long show ?thesis by (simp add: coincide_def hash_suffix_inj)
qed

lemma dash_notin_fmt_nat: "CHR ''-'' \<notin> set (fmt_nat n)"
  using fmt_nat_digits [of n] by (auto simp: list_all_iff is_digit_def)

lemma length_prefixed_inj:
  assumes "length_prefixed p a = length_prefixed p b"
  shows "d_namespace a = d_namespace b \<and> d_name a = d_name b"
proof -
  have cut: "cut_char (CHR ''-'') (fmt_nat k @ ''-'' @ r) = (fmt_nat k, Some r)" for k r
    using cut_char_append [OF dash_notin_fmt_nat] by simp
  from assms have "cut_char (CHR ''-'') (fmt_nat (length (d_namespace a)) @ ''-'' @ d_namespace a @ ''-'' @ d_name a) =
      cut_char (CHR ''-'') (fmt_nat (length (d_namespace b)) @ ''-'' @ d_namespace b @ ''-'' @ d_name b)"
    by (simp add: length_prefixed_def)
  then have "length (d_namespace a) = length (d_namespace b) \<and>
      d_namespace a @ ''-'' @ d_name a = d_namespace b @ ''-'' @ d_name b"
    unfolding cut by simp
  then show ?thesis by auto
qed

text \<open>The first thirteen characters tell the three purposes apart, whether the name is cut or not.\<close>

lemma bounded_name_take:
  assumes "length (sha key) = 32" "m + 17 \<le> n" "m \<le> length full"
  shows "take m (bounded_name sha n full key) = take m full"
proof -
  have "m \<le> n - 17" using assms(2) by simp
  with assms show ?thesis by (simp add: bounded_name_def Let_def length_hash_suffix min_def)
qed

lemma rbac_name_heads:
  assumes "\<And>k. length (sha k) = 32"
  shows "take 9 (clusterRBACName sha d) = ''kubepage-''"
    and "is_digit (clusterRBACName sha d ! 9)"
    and "take 13 (discoveryRBACName sha d) = ''kubepage-disc''"
    and "take 12 (monitorRBACName sha d) = ''kubepage-mon''"
proof -
  let ?f = "length_prefixed ''kubepage-'' d"
  obtain c r where digits: "fmt_nat (length (d_namespace d)) = c # r"
    using fmt_nat_nonempty by (meson neq_Nil_conv)
  have t: "take 10 (clusterRBACName sha d) = take 10 ?f"
    unfolding clusterRBACName_def
    by (rule bounded_name_take) (simp_all add: assms clusterRBACNameMaxLength_def length_prefixed_def digits)
  also have f: "take 10 ?f = ''kubepage-'' @ [c]"
    by (simp add: length_prefixed_def digits)
  finally have head: "take 10 (clusterRBACName sha d) = ''kubepage-'' @ [c]" .
  then have "take 9 (take 10 (clusterRBACName sha d)) = ''kubepage-''" by simp
  then show "take 9 (clusterRBACName sha d) = ''kubepage-''" by simp
  have "clusterRBACName sha d ! 9 = take 10 (clusterRBACName sha d) ! 9" by simp
  also have "\<dots> = c" unfolding head by simp
  finally show "is_digit (clusterRBACName sha d ! 9)" using fmt_nat_hd_digit [OF digits] by simp
  have "take 13 (discoveryRBACName sha d) = take 13 (length_prefixed ''kubepage-disc-'' d)"
    unfolding discoveryRBACName_def
    by (rule bounded_name_take) (simp_all add: assms clusterRBACNameMaxLength_def length_prefixed_def)
  then show "take 13 (discoveryRBACName sha d) = ''kubepage-disc''" by (simp add: length_prefixed_def)
  have "take 12 (monitorRBACName sha d) = take 12 (length_prefixed ''kubepage-mon-'' d)"
    unfolding monitorRBACName_def
    by (rule bounded_name_take) (simp_all add: assms clusterRBACNameMaxLength_def length_prefixed_def)
  then show "take 12 (monitorRBACName sha d) = ''kubepage-mon''" by (simp add: length_prefixed_def)
qed

section \<open>Labels\<close>

text \<open>A \<^verbatim>\<open>matchLabels\<close> selector selects the pods that carry all its labels.\<close>

definition selects :: "string gomap \<Rightarrow> string gomap \<Rightarrow> bool" where
  "selects sel labels \<longleftrightarrow> list_all (\<lambda>(k, v). gget labels k = Some v) sel"

lemma gwf_labels: "gwf (labelsForDashboard sha n img)"
  unfolding labelsForDashboard_def
  by (rule gm.wf_put) (simp add: gwf_def selectorLabelsForDashboard_def)

lemma gget_merged:
  assumes "gwf user" "gwf builtin"
  shows "gget (mergeStringMaps user builtin) k =
    (case gget builtin k of None \<Rightarrow> gget user k | Some v \<Rightarrow> Some v)"
  unfolding mergeStringMaps_def using assms by (simp add: gget_gcopy split: option.split)

lemma gget_labels:
  "gget (labelsForDashboard sha n img) k =
    (if k = ''app.kubernetes.io/version'' then Some (imageVersionLabel img)
     else gget (selectorLabelsForDashboard sha n) k)"
  unfolding labelsForDashboard_def by (rule gm.get_put)

lemma gget_selector:
  "gget (selectorLabelsForDashboard sha n) ''app.kubernetes.io/name'' = Some ''kubepage-operator''"
  "gget (selectorLabelsForDashboard sha n) ''app.kubernetes.io/managed-by'' = Some ''DashboardController''"
  "gget (selectorLabelsForDashboard sha n) ''app.kubernetes.io/instance'' = Some (instanceLabelValue sha n)"
  by (simp_all add: selectorLabelsForDashboard_def gget_def)

lemma selects_pod:
  assumes "gwf user"
  shows "selects (selectorLabelsForDashboard sha a) (mergeStringMaps user (labelsForDashboard sha b img)) \<longleftrightarrow>
    instanceLabelValue sha a = instanceLabelValue sha b"
  unfolding selects_def selectorLabelsForDashboard_def [of sha a]
  by (auto simp: gget_merged [OF assms gwf_labels] gget_labels gget_selector)

section \<open>Properties\<close>

text \<open>
  The bounded names of two Dashboards under one prefix, \<open>q\<close> being put before the hashed namespace and name.
\<close>

definition rbac_coincide :: "(string \<Rightarrow> string) \<Rightarrow> string \<Rightarrow> string \<Rightarrow> dashboard \<Rightarrow> dashboard \<Rightarrow> bool" where
  "rbac_coincide sha p q a b \<longleftrightarrow>
     coincide sha 253 (length_prefixed p a, q @ d_namespace a @ ''/'' @ d_name a)
       (length_prefixed p b, q @ d_namespace b @ ''/'' @ d_name b)"

lemma rbac_name_eq:
  assumes len: "\<And>k. length (sha k) = 32"
    and eq: "bounded_name sha 253 (length_prefixed p a) (q @ d_namespace a @ ''/'' @ d_name a) =
      bounded_name sha 253 (length_prefixed p b) (q @ d_namespace b @ ''/'' @ d_name b)"
  shows "d_namespace a = d_namespace b \<and> d_name a = d_name b \<or> rbac_coincide sha p q a b"
  using bounded_name_eq [where sha = sha and n = 253 and a = "(length_prefixed p a, q @ d_namespace a @ ''/'' @ d_name a)" and
      b = "(length_prefixed p b, q @ d_namespace b @ ''/'' @ d_name b)", OF len] eq
  by (auto simp: rbac_coincide_def dest: length_prefixed_inj)

text \<open>
  C29. The names of the objects that no owner reference cleans up fit Kubernetes' limit of 253
  characters, and they never clash: not between the three purposes, of one Dashboard or of several, and
  for each purpose not between two Dashboards, unless 64 bits of their hashes coincide or one's name ends
  with the hash of the other's overlong one.
\<close>

theorem rbac_names_unique:
  assumes "\<And>k. length (sha k) = 32"
  shows "length (clusterRBACName sha a) \<le> 253 \<and> length (discoveryRBACName sha a) \<le> 253 \<and>
    length (monitorRBACName sha a) \<le> 253 \<and>
    distinct [clusterRBACName sha a, discoveryRBACName sha b, monitorRBACName sha c] \<and>
    (clusterRBACName sha a = clusterRBACName sha b \<longrightarrow>
      d_namespace a = d_namespace b \<and> d_name a = d_name b \<or> rbac_coincide sha ''kubepage-'' [] a b) \<and>
    (discoveryRBACName sha a = discoveryRBACName sha b \<longrightarrow>
      d_namespace a = d_namespace b \<and> d_name a = d_name b \<or> rbac_coincide sha ''kubepage-disc-'' ''disc/'' a b) \<and>
    (monitorRBACName sha a = monitorRBACName sha b \<longrightarrow>
      d_namespace a = d_namespace b \<and> d_name a = d_name b \<or> rbac_coincide sha ''kubepage-mon-'' ''mon/'' a b)"
proof (intro conjI impI)
  show "length (clusterRBACName sha a) \<le> 253" "length (discoveryRBACName sha a) \<le> 253"
    "length (monitorRBACName sha a) \<le> 253"
    unfolding clusterRBACName_def discoveryRBACName_def monitorRBACName_def clusterRBACNameMaxLength_def
    by (rule bounded_name_length; simp add: assms)+
  have "discoveryRBACName sha b ! 9 = take 13 (discoveryRBACName sha b) ! 9"
    "monitorRBACName sha c ! 9 = take 12 (monitorRBACName sha c) ! 9" by simp_all
  then have "discoveryRBACName sha b ! 9 = CHR ''d''" "monitorRBACName sha c ! 9 = CHR ''m''"
    unfolding rbac_name_heads(3,4) [where sha = sha, OF assms] by simp_all
  then show "distinct [clusterRBACName sha a, discoveryRBACName sha b, monitorRBACName sha c]"
    using rbac_name_heads(2) [where sha = sha and d = a, OF assms] by (auto simp: is_digit_def)
next
  assume "clusterRBACName sha a = clusterRBACName sha b"
  then show "d_namespace a = d_namespace b \<and> d_name a = d_name b \<or> rbac_coincide sha ''kubepage-'' [] a b"
    using rbac_name_eq [where sha = sha and a = a and b = b and p = "''kubepage-''" and q = "[]", OF assms]
    by (simp add: clusterRBACName_def clusterRBACNameMaxLength_def)
next
  assume "discoveryRBACName sha a = discoveryRBACName sha b"
  then show "d_namespace a = d_namespace b \<and> d_name a = d_name b \<or> rbac_coincide sha ''kubepage-disc-'' ''disc/'' a b"
    using rbac_name_eq [where sha = sha and a = a and b = b and p = "''kubepage-disc-''" and q = "''disc/''", OF assms]
    by (simp add: discoveryRBACName_def clusterRBACNameMaxLength_def)
next
  assume "monitorRBACName sha a = monitorRBACName sha b"
  then show "d_namespace a = d_namespace b \<and> d_name a = d_name b \<or> rbac_coincide sha ''kubepage-mon-'' ''mon/'' a b"
    using rbac_name_eq [where sha = sha and a = a and b = b and p = "''kubepage-mon-''" and q = "''mon/''", OF assms]
    by (simp add: monitorRBACName_def clusterRBACNameMaxLength_def)
qed

theorem rbac_names_unique_witness:
  "let sha = \<lambda>_. replicate 32 (CHR 0x61); a = ex_dashboard ''a'' ''b-c''; b = ex_dashboard ''a-b'' ''c''
   in clusterRBACName sha a \<noteq> clusterRBACName sha b \<and> discoveryRBACName sha a \<noteq> discoveryRBACName sha b \<and>
     monitorRBACName sha a \<noteq> monitorRBACName sha b"
proof -
  let ?sha = "\<lambda>_ :: string. replicate 32 (CHR 0x61)" and ?a = "ex_dashboard ''a'' ''b-c''" and ?b = "ex_dashboard ''a-b'' ''c''"
  have "\<not> rbac_coincide ?sha ''kubepage-'' [] ?a ?b" "\<not> rbac_coincide ?sha ''kubepage-disc-'' ''disc/'' ?a ?b"
    "\<not> rbac_coincide ?sha ''kubepage-mon-'' ''mon/'' ?a ?b"
    by code_simp+
  then show ?thesis
    using rbac_names_unique [where sha = ?sha and a = ?a and b = ?b]
    by (auto simp: ex_dashboard_def)
qed

text \<open>
  A Dashboard's Service, Deployment and NetworkPolicy select its own pods, whatever labels its
  spec adds to them, and never another Dashboard's pods, unless 64 bits of hashes coincide.
\<close>

theorem selectors_separate:
  assumes "\<And>k. length (sha k) = 32" "gwf user"
  shows "selects (selectorLabelsForDashboard sha a) (mergeStringMaps user (labelsForDashboard sha a img)) \<and>
    (selects (selectorLabelsForDashboard sha a) (mergeStringMaps user (labelsForDashboard sha b img)) \<longrightarrow>
       a = b \<or> coincide sha 63 (a, a) (b, b))"
  using bounded_name_eq [OF assms(1), where n = 63 and a = "(a, a)" and b = "(b, b)"]
  by (simp add: selects_pod [OF assms(2)] instanceLabelValue_def maxLabelValueLen_def)

theorem selectors_separate_witness:
  "selects (selectorLabelsForDashboard (\<lambda>_. replicate 32 (CHR 0x61)) ''home'')
     (mergeStringMaps [(''app.kubernetes.io/instance'', ''media'')]
       (labelsForDashboard (\<lambda>_. replicate 32 (CHR 0x61)) ''home'' ''repo:1''))"
  using selectors_separate [where sha = "\<lambda>_. replicate 32 (CHR 0x61)" and a = "''home''" and
      user = "[(''app.kubernetes.io/instance'', ''media'')]" and img = "''repo:1''"]
  by (simp add: gwf_def)

text \<open>A registry port without a tag is taken for the tag, and a slash is not allowed in a label.\<close>

lemma imageVersionLabel_port: "imageVersionLabel ''localhost:5000/kubepage'' = ''5000/kubepage''"
  by code_simp

end
