(* ===== verification/Mem_Server.thy ===== *)
theory Mem_Server
  imports Kube
begin

text \<open>
  A small API server in memory, at which the theorems about the controller are put to the test: it
  keeps every kind in a list, refuses to create what exists and to update what does not, and
  deletes at once.  The theorems hold for every server that keeps the promises they name; this one
  shows that the promises can be kept.
\<close>

record mem =
  mem_dashboard :: "dashboard option"
  mem_service_accounts :: "service_account list"
  mem_roles :: "role list"
  mem_role_bindings :: "role_binding list"
  mem_cluster_roles :: "role list"
  mem_cluster_role_bindings :: "role_binding list"
  mem_deployments :: "deployment list"
  mem_services :: "service list"
  mem_ingresses :: "ingress list"
  mem_http_routes :: "http_route list"
  mem_network_policies :: "network_policy list"

definition at_key :: "('o \<Rightarrow> object_meta) \<Rightarrow> string \<Rightarrow> string \<Rightarrow> 'o \<Rightarrow> bool" where
  "at_key key ns n x \<longleftrightarrow> om_namespace (key x) = ns \<and> om_name (key x) = n"

definition list_client :: "(mem \<Rightarrow> 'o list) \<Rightarrow> (('o list \<Rightarrow> 'o list) \<Rightarrow> mem \<Rightarrow> mem) \<Rightarrow> ('o \<Rightarrow> object_meta) \<Rightarrow>
    ('o, mem) kind_client" where
  "list_client sel upd key =
     \<lparr>kc_get = (\<lambda>ns n w. (case find (at_key key ns n) (sel w) of Some x \<Rightarrow> Found x | None \<Rightarrow> NotFound, w)),
      kc_create = (\<lambda>x w. if list_ex (at_key key (om_namespace (key x)) (om_name (key x))) (sel w)
        then (Some ''already exists'', w) else (None, upd (\<lambda>xs. x # xs) w)),
      kc_update = (\<lambda>x w. if list_ex (at_key key (om_namespace (key x)) (om_name (key x))) (sel w)
        then (None, upd (map (\<lambda>y. if at_key key (om_namespace (key x)) (om_name (key x)) y then x else y)) w)
        else (Some ''not found'', w)),
      kc_delete = (\<lambda>ns n w. if list_ex (at_key key ns n) (sel w)
        then (Found (), upd (filter (\<lambda>x. \<not> at_key key ns n x)) w) else (NotFound, w))\<rparr>"

text \<open>A cluster-scoped kind has no namespaces.\<close>

definition cluster_client :: "(mem \<Rightarrow> 'o list) \<Rightarrow> (('o list \<Rightarrow> 'o list) \<Rightarrow> mem \<Rightarrow> mem) \<Rightarrow> ('o \<Rightarrow> object_meta) \<Rightarrow>
    ('o, mem) kind_client" where
  "cluster_client sel upd key =
     (let c = list_client sel upd (\<lambda>x. (key x)\<lparr>om_namespace := []\<rparr>)
      in c\<lparr>kc_get := \<lambda>_. kc_get c [], kc_delete := \<lambda>_. kc_delete c []\<rparr>)"

definition mem_kube :: "reader \<Rightarrow> mem kube" where
  "mem_kube rd =
     \<lparr>ku_reader = (\<lambda>_. rd), ku_secret_labels = (\<lambda>_ _ _. NotFound),
      ku_set_owner = (\<lambda>d m. Inr (m\<lparr>om_owners := [(d_namespace d, d_name d)]\<rparr>)),
      ku_set_condition = ex_set_cond,
      ku_derives = (\<lambda>want have. want = [] \<or> want = have),
      ku_contains_finalizer = (\<lambda>d f. f \<in> set (d_finalizers d)),
      ku_add_finalizer = (\<lambda>d f. if f \<in> set (d_finalizers d) then d else d\<lparr>d_finalizers := d_finalizers d @ [f]\<rparr>),
      ku_remove_finalizer = (\<lambda>d f. (d\<lparr>d_finalizers := filter (\<lambda>x. x \<noteq> f) (d_finalizers d)\<rparr>, f \<in> set (d_finalizers d))),
      ku_get_dashboard = (\<lambda>ns n w. (case mem_dashboard w of
          Some d \<Rightarrow> if d_namespace d = ns \<and> d_name d = n then Found d else NotFound
        | None \<Rightarrow> NotFound, w)),
      ku_update_dashboard = (\<lambda>d w. case mem_dashboard w of
          None \<Rightarrow> (Some ''not found'', w)
        | Some old \<Rightarrow> (None, w\<lparr>mem_dashboard := if d_deleting old \<and> d_finalizers d = [] then None
            else Some (d\<lparr>d_status := d_status old\<rparr>)\<rparr>)),
      ku_update_status = (\<lambda>d w. case mem_dashboard w of
          None \<Rightarrow> (Some ''not found'', w)
        | Some old \<Rightarrow> (None, w\<lparr>mem_dashboard := Some (old\<lparr>d_status := d_status d\<rparr>)\<rparr>)),
      ku_service_accounts = list_client mem_service_accounts mem_service_accounts_update sa_meta,
      ku_roles = list_client mem_roles mem_roles_update ro_meta,
      ku_role_bindings = list_client mem_role_bindings mem_role_bindings_update rb_meta,
      ku_cluster_roles = cluster_client mem_cluster_roles mem_cluster_roles_update ro_meta,
      ku_cluster_role_bindings = cluster_client mem_cluster_role_bindings mem_cluster_role_bindings_update rb_meta,
      ku_deployments = list_client mem_deployments mem_deployments_update dep_meta,
      ku_services = list_client mem_services mem_services_update sv_meta,
      ku_ingresses = list_client mem_ingresses mem_ingresses_update ig_meta,
      ku_http_routes = list_client mem_http_routes mem_http_routes_update hr_meta,
      ku_network_policies = list_client mem_network_policies mem_network_policies_update np_meta\<rparr>"

definition empty_mem :: "dashboard \<Rightarrow> mem" where
  "empty_mem d =
     \<lparr>mem_dashboard = Some d, mem_service_accounts = [], mem_roles = [], mem_role_bindings = [],
      mem_cluster_roles = [], mem_cluster_role_bindings = [], mem_deployments = [], mem_services = [],
      mem_ingresses = [], mem_http_routes = [], mem_network_policies = []\<rparr>"

section \<open>The promises it keeps\<close>

lemma find_Some_iff: "find P xs = Some x \<Longrightarrow> P x \<and> x \<in> set xs"
  by (induction xs) (auto split: if_splits)

lemma find_list_ex: "find P xs = None \<longleftrightarrow> \<not> list_ex P xs"
  by (induction xs) auto

lemma find_map_repaired:
  "list_ex (at_key key (om_namespace (key x)) (om_name (key x))) xs \<Longrightarrow>
   find (at_key key (om_namespace (key x)) (om_name (key x)))
     (map (\<lambda>y. if at_key key (om_namespace (key x)) (om_name (key x)) y then x else y) xs) = Some x"
  by (induction xs) (auto simp: at_key_def)

lemma find_filtered: "find (at_key key ns n) (filter (\<lambda>x. \<not> at_key key ns n x) xs) = None"
  by (induction xs) simp_all

lemma list_client_reads:
  assumes "kc_get (list_client sel upd key) ns n w = (r, w')"
  shows "w' = w" "r = Found x \<Longrightarrow> find (at_key key ns n) (sel w) = Some x \<and> at_key key ns n x"
    "r = NotFound \<Longrightarrow> find (at_key key ns n) (sel w) = None"
  using assms by (auto simp: list_client_def split: option.splits dest: find_Some_iff)

lemma list_client_writes:
  assumes "at_key key ns n x" "\<And>f w. sel (upd f w) = f (sel w)"
    and "kc_create (list_client sel upd key) x w = (None, w') \<or> kc_update (list_client sel upd key) x w = (None, w')"
  shows "find (at_key key ns n) (sel w') = Some x"
proof -
  have k: "om_namespace (key x) = ns" "om_name (key x) = n" using assms(1) by (simp_all add: at_key_def)
  from assms(3) show ?thesis
  proof
    assume "kc_create (list_client sel upd key) x w = (None, w')"
    with assms(1,2) k show ?thesis by (auto simp: list_client_def split: if_splits)
  next
    assume "kc_update (list_client sel upd key) x w = (None, w')"
    with assms(2) k find_map_repaired [of key x "sel w"] show ?thesis
      by (auto simp: list_client_def split: if_splits)
  qed
qed

lemma list_client_deletes:
  assumes "\<And>f w. sel (upd f w) = f (sel w)" "kc_delete (list_client sel upd key) ns n w = (r, w')"
  shows "find (at_key key ns n) (sel w') = None"
  using assms find_filtered [of key ns n "sel w"] find_list_ex [of "at_key key ns n" "sel w"]
  by (auto simp: list_client_def split: if_splits)

end
