(* ===== verification/Rbac.thy ===== *)
theory Rbac
  imports Names Secrets Mem_Server
begin

text \<open>
  The RBAC objects of a Dashboard (\<^verbatim>\<open>internal/controller/dashboard_rbac.go\<close>): the Role of its pod
  with exactly the Secrets that its widgets name, the cluster role for node metrics, and the roles and
  bindings for discovery and pod monitors in other namespaces, which no owner reference cleans up
  and the status keeps track of.  Proved: the Role grants reading the referenced Secrets and no other,
  and the pod's poller never asks for more; and no call that fails, at whatever point, leaves
  a binding in a foreign namespace that the stored status does not name.
\<close>

section \<open>Rules\<close>

record DashboardReconciler =
  re_image :: string
  re_gateway_enabled :: bool
  re_sha256 :: "string \<Rightarrow> string"

definition kubeMetricsWidgetType :: string where "kubeMetricsWidgetType = ''kubemetrics''"
definition verbGet :: string where "verbGet = ''get''"
definition verbList :: string where "verbList = ''list''"
definition verbWatch :: string where "verbWatch = ''watch''"
definition resourcePods :: string where "resourcePods = ''pods''"
definition resourceServices :: string where "resourceServices = ''services''"
definition resourceSecrets :: string where "resourceSecrets = ''secrets''"
definition secretAllowWidgetsValue :: string where "secretAllowWidgetsValue = ''true''"
definition clusterRoleKind :: string where "clusterRoleKind = ''ClusterRole''"

lemmas rbac_consts = verbGet_def verbList_def verbWatch_def resourcePods_def resourceServices_def
  resourceSecrets_def

definition rule_on :: "string \<Rightarrow> string list \<Rightarrow> string list \<Rightarrow> policy_rule" where
  "rule_on grp resources verbs =
     \<lparr>pr_api_groups = [grp], pr_resources = resources, pr_verbs = verbs, pr_resource_names = []\<rparr>"

definition clusterMetricsRules :: "policy_rule list" where
  "clusterMetricsRules = [rule_on [] [''nodes''] [verbGet, verbList],
     rule_on ''metrics.k8s.io'' [''nodes''] [verbGet, verbList]]"

definition dashboardConfigRule :: policy_rule where
  "dashboardConfigRule = rule_on ''page.kubepage.dev''
     [''dashboards'', ''servicecards'', ''bookmarks'', ''infowidgets''] [verbGet, verbList, verbWatch]"

definition dashboardIngressRule :: policy_rule where
  "dashboardIngressRule =
     rule_on ''networking.k8s.io'' [''ingresses''] [verbGet, verbList, verbWatch]"

definition dashboardHTTPRouteRule :: policy_rule where
  "dashboardHTTPRouteRule =
     rule_on ''gateway.networking.k8s.io'' [''httproutes''] [verbGet, verbList, verbWatch]"

definition dashboardPodsRule :: policy_rule where
  "dashboardPodsRule =
     rule_on [] [resourcePods, resourceServices] [verbGet, verbList, verbWatch]"

definition dashboardRoles :: "string list \<Rightarrow> discovery_spec option \<Rightarrow> bool \<Rightarrow> policy_rule list" where
  "dashboardRoles secretNames discovery gatewayAPIEnabled =
     [dashboardConfigRule, dashboardPodsRule] @
     (case discovery of
        None \<Rightarrow> []
      | Some disc \<Rightarrow>
          if ds_enabled disc then
            (if has_source disc DiscoverySourceIngress then [dashboardIngressRule] else []) @
            (if has_source disc DiscoverySourceHTTPRoute \<and> gatewayAPIEnabled
             then [dashboardHTTPRouteRule] else [])
          else []) @
     (if secretNames \<noteq> []
      then [\<lparr>pr_api_groups = [[]], pr_resources = [resourceSecrets], pr_verbs = [verbGet],
             pr_resource_names = secretNames\<rparr>]
      else [])"

definition stringSlicesEqualSorted :: "string list \<Rightarrow> string list \<Rightarrow> bool" where
  "stringSlicesEqualSorted a b \<longleftrightarrow>
     length a = length b \<and> sort_by str_compare a = sort_by str_compare b"

definition policyRulesEqual :: "policy_rule list \<Rightarrow> policy_rule list \<Rightarrow> bool" where
  "policyRulesEqual a b \<longleftrightarrow> length a = length b \<and>
     list_all2 (\<lambda>x y. stringSlicesEqualSorted (pr_api_groups x) (pr_api_groups y) \<and>
       stringSlicesEqualSorted (pr_resources x) (pr_resources y) \<and>
       stringSlicesEqualSorted (pr_verbs x) (pr_verbs y) \<and>
       stringSlicesEqualSorted (pr_resource_names x) (pr_resource_names y)) a b"

section \<open>The Secrets that widgets reference\<close>

definition source_secret :: "secret_value_source \<Rightarrow> string list" where
  "source_secret src = (case sv_key_ref src of None \<Rightarrow> [] | Some r \<Rightarrow> [skr_name r])"

definition widget_secrets :: "secret_value_source gomap \<Rightarrow> string option \<Rightarrow> secret_value_source option \<Rightarrow>
    string list" where
  "widget_secrets secrets secretRef caCert =
     concat (map (source_secret \<circ> snd) secrets) @
     (case secretRef of None \<Rightarrow> [] | Some n \<Rightarrow> [n]) @
     (case caCert of None \<Rightarrow> [] | Some c \<Rightarrow> source_secret c)"

definition card_secrets :: "string \<Rightarrow> nat \<Rightarrow> service_card list \<Rightarrow> string list" where
  "card_secrets name dashCount cards =
     concat (map (\<lambda>c. if bound_to (ref_name (sc_dashboard_ref (card_spec c))) name dashCount
       then concat (map (\<lambda>entry. concat (map (\<lambda>w. widget_secrets (sw_secrets w) (sw_secret_ref w) (sw_ca_cert w))
              (se_widgets entry))) (service_entries (card_spec c)))
       else []) cards)"

definition info_secrets :: "string \<Rightarrow> nat \<Rightarrow> info_widget list \<Rightarrow> string list" where
  "info_secrets name dashCount infoWidgets =
     concat (map (\<lambda>w. if bound_to (ref_name (iw_dashboard_ref (iwd_spec w))) name dashCount
       then concat (map (\<lambda>e. widget_secrets (ie_secrets e) (ie_secret_ref e) (ie_ca_cert e))
              (info_entries (iwd_spec w)))
       else []) infoWidgets)"

definition default_secrets :: "widget_defaults_entry gomap \<Rightarrow> string list" where
  "default_secrets defaults =
     concat (map (\<lambda>(_, e). widget_secrets (wd_secrets e) None (wd_ca_cert e)) defaults)"

text \<open>The direct reader is asked for one Secret after the other.\<close>

fun filterLabeledSecrets :: "'w kube \<Rightarrow> string \<Rightarrow> string list \<Rightarrow> 'w \<Rightarrow> string + string list" where
  "filterLabeledSecrets k namespace [] w = Inr []"
| "filterLabeledSecrets k namespace (name # names) w =
     (case ku_secret_labels k namespace name w of
        NotFound \<Rightarrow> filterLabeledSecrets k namespace names w
      | GetError e \<Rightarrow> Inl (''getting Secret '' @ quoted name @ '' to check secretPolicy label: '' @ e)
      | Found labels \<Rightarrow>
          map_sum id (\<lambda>allowed. if gstr labels SecretAllowWidgetsLabel = secretAllowWidgetsValue
                                then name # allowed else allowed)
            (filterLabeledSecrets k namespace names w))"

definition referencedSecretNames :: "'w kube \<Rightarrow> (string list, 'w cstate) action" where
  "referencedSecretNames k =
     andThen instance_of (\<lambda>d.
     andThen (wrap ''counting Dashboards'' (klist k (\<lambda>rd. namespaceDashboardCount rd (d_namespace d)))) (\<lambda>dashCount.
     andThen (wrap ''listing ServiceCards'' (klist k (\<lambda>rd. rd_list_service_cards rd (d_namespace d)))) (\<lambda>cards.
     andThen (wrap ''listing InfoWidgets'' (klist k (\<lambda>rd. rd_list_info_widgets rd (d_namespace d)))) (\<lambda>infoWidgets.
     let out = sort_by str_compare (remdups (card_secrets (d_name d) dashCount cards @
                 info_secrets (d_name d) dashCount infoWidgets @ default_secrets (ds_widget_defaults (d_spec d))))
     in if ds_secret_policy (d_spec d) = Some SecretPolicyLabeled
        then (\<lambda>s. (filterLabeledSecrets k (d_namespace d) out (snd s), s))
        else ret out))))"

definition authSecretNames :: "dashboard \<Rightarrow> string list" where
  "authSecretNames d =
     (case Option.bind (ds_auth (d_spec d)) as_basic_auth_secret_ref of None \<Rightarrow> [] | Some n \<Rightarrow> [n])"

section \<open>The objects of the Dashboard's namespace\<close>

definition serviceAccountKind :: string where "serviceAccountKind = ''ServiceAccount''"
definition rbacGroup :: string where "rbacGroup = ''rbac.authorization.k8s.io''"

definition dashboard_subject :: "dashboard \<Rightarrow> subject list" where
  "dashboard_subject d =
     [\<lparr>su_kind = serviceAccountKind, su_name = d_name d, su_namespace = d_namespace d\<rparr>]"

definition role_binding_to :: "string \<Rightarrow> string \<Rightarrow> dashboard \<Rightarrow> object_meta \<Rightarrow> role_binding" where
  "role_binding_to kind name d m =
     \<lparr>rb_meta = m, rb_role_ref = \<lparr>rr_api_group = rbacGroup, rr_kind = kind, rr_name = name\<rparr>,
      rb_subjects = dashboard_subject d\<rparr>"

text \<open>\<^verbatim>\<open>Get\<close>; \<^verbatim>\<open>Create\<close> if absent; \<^verbatim>\<open>Update\<close> if the rules differ.\<close>

definition reconcileRules :: "(role, 'w) kind_client \<Rightarrow> role \<Rightarrow> (unit, 'w cstate) action" where
  "reconcileRules c desired =
     andThen (kget c (om_namespace (ro_meta desired)) (om_name (ro_meta desired))) (\<lambda>r. case r of
        NotFound \<Rightarrow> kcreate c desired
      | GetError e \<Rightarrow> fail e
      | Found found \<Rightarrow>
          if \<not> policyRulesEqual (ro_rules found) (ro_rules desired)
          then kupdate c (found\<lparr>ro_rules := ro_rules desired\<rparr>) else ret ())"

definition reconcileServiceAccount :: "'w kube \<Rightarrow> (unit, 'w cstate) action" where
  "reconcileServiceAccount k =
     andThen instance_of (\<lambda>d.
     andThen (own k service_account.make (meta (d_namespace d) (d_name d))) (\<lambda>desired.
     ensureExists (ku_service_accounts k) (d_namespace d) (d_name d) desired))"

definition roleSecretNames :: "'w kube \<Rightarrow> (string list, 'w cstate) action" where
  "roleSecretNames k =
     andThen instance_of (\<lambda>d.
     andThen (referencedSecretNames k) (\<lambda>secretNames.
     ret (if authSecretNames d \<noteq> []
          then remdups_adj (sort_by str_compare (secretNames @ authSecretNames d)) else secretNames)))"

definition reconcileRole :: "DashboardReconciler \<Rightarrow> 'w kube \<Rightarrow> (unit, 'w cstate) action" where
  "reconcileRole r k =
     andThen instance_of (\<lambda>d.
     andThen (roleSecretNames k) (\<lambda>secretNames.
     andThen (own k (\<lambda>m. \<lparr>ro_meta = m,
         ro_rules = dashboardRoles secretNames (ds_discovery (d_spec d)) (re_gateway_enabled r)\<rparr>)
       (meta (d_namespace d) (d_name d))) (\<lambda>desired.
     reconcileRules (ku_roles k) desired)))"

definition reconcileRoleBinding :: "'w kube \<Rightarrow> (unit, 'w cstate) action" where
  "reconcileRoleBinding k =
     andThen instance_of (\<lambda>d.
     andThen (own k (role_binding_to ''Role'' (d_name d) d) (meta (d_namespace d) (d_name d))) (\<lambda>desired.
     ensureExists (ku_role_bindings k) (d_namespace d) (d_name d) desired))"

definition reconcileDashboardRBAC :: "DashboardReconciler \<Rightarrow> 'w kube \<Rightarrow> (unit, 'w cstate) action" where
  "reconcileDashboardRBAC r k =
     andThen (wrap ''reconciling ServiceAccount'' (reconcileServiceAccount k)) (\<lambda>_.
     andThen (wrap ''reconciling Role'' (reconcileRole r k)) (\<lambda>_.
     wrap ''reconciling RoleBinding'' (reconcileRoleBinding k)))"

section \<open>Node metrics\<close>

definition instanceHasKubeMetricsWidget :: "'w kube \<Rightarrow> (bool, 'w cstate) action" where
  "instanceHasKubeMetricsWidget k =
     andThen instance_of (\<lambda>d.
     andThen (wrap ''listing InfoWidgets'' (klist k (\<lambda>rd. rd_list_info_widgets rd (d_namespace d)))) (\<lambda>infoWidgets.
     andThen (wrap ''counting Dashboards'' (klist k (\<lambda>rd. namespaceDashboardCount rd (d_namespace d)))) (\<lambda>dashCount.
     ret (list_ex (\<lambda>w. bound_to (ref_name (iw_dashboard_ref (iwd_spec w))) (d_name d) dashCount \<and>
            list_ex (\<lambda>e. ie_type e = kubeMetricsWidgetType) (info_entries (iwd_spec w))) infoWidgets))))"

definition reconcileClusterRole :: "DashboardReconciler \<Rightarrow> 'w kube \<Rightarrow> (unit, 'w cstate) action" where
  "reconcileClusterRole r k =
     andThen instance_of (\<lambda>d.
     reconcileRules (ku_cluster_roles k)
       \<lparr>ro_meta = meta [] (clusterRBACName (re_sha256 r) d), ro_rules = clusterMetricsRules\<rparr>)"

definition reconcileClusterRoleBinding :: "DashboardReconciler \<Rightarrow> 'w kube \<Rightarrow> (unit, 'w cstate) action" where
  "reconcileClusterRoleBinding r k =
     andThen instance_of (\<lambda>d.
     let name = clusterRBACName (re_sha256 r) d
     in ensureExists (ku_cluster_role_bindings k) [] name
          (role_binding_to clusterRoleKind name d (meta [] name)))"

text \<open>Both deletions are tried; the first error counts.\<close>

definition deleteClusterMetricsRBAC :: "DashboardReconciler \<Rightarrow> 'w kube \<Rightarrow> (unit, 'w cstate) action" where
  "deleteClusterMetricsRBAC r k =
     andThen instance_of (\<lambda>d.
     let name = clusterRBACName (re_sha256 r) d in
     andThen (attempt (wrap ''deleting ClusterRoleBinding'' (kdelete (ku_cluster_role_bindings k) [] name))) (\<lambda>crbErr.
     andThen (attempt (wrap ''deleting ClusterRole'' (kdelete (ku_cluster_roles k) [] name))) (\<lambda>crErr.
     from_sum (case crbErr of Inl e \<Rightarrow> Inl e | Inr _ \<Rightarrow> crErr))))"

definition reconcileClusterMetricsRBAC :: "DashboardReconciler \<Rightarrow> 'w kube \<Rightarrow> (unit, 'w cstate) action" where
  "reconcileClusterMetricsRBAC r k =
     andThen (instanceHasKubeMetricsWidget k) (\<lambda>wanted.
     if \<not> wanted then deleteClusterMetricsRBAC r k
     else andThen (wrap ''reconciling ClusterRole'' (reconcileClusterRole r k)) (\<lambda>_.
          wrap ''reconciling ClusterRoleBinding'' (reconcileClusterRoleBinding r k)))"

section \<open>Discovery in other namespaces\<close>

definition unionSortedDeduped :: "string list \<Rightarrow> string list \<Rightarrow> string list" where
  "unionSortedDeduped a b = remdups_adj (sort_by str_compare (a @ b))"

definition discoveryClusterRoleRules :: "discovery_spec \<Rightarrow> bool \<Rightarrow> policy_rule list" where
  "discoveryClusterRoleRules discovery gatewayAPIEnabled =
     (if has_source discovery DiscoverySourceIngress then [dashboardIngressRule] else []) @
     (if has_source discovery DiscoverySourceHTTPRoute \<and> gatewayAPIEnabled
      then [dashboardHTTPRouteRule] else [])"

definition discoveryNamespaces :: "dashboard \<Rightarrow> string list" where
  "discoveryNamespaces d =
     (case ds_discovery (d_spec d) of
        None \<Rightarrow> []
      | Some disc \<Rightarrow>
          if \<not> ds_enabled disc then []
          else remdups_adj (sort_by str_compare
                 (filter (\<lambda>ns. ns \<noteq> d_namespace d) (ds_namespaces disc))))"

definition deleteDiscoveryClusterRole :: "DashboardReconciler \<Rightarrow> 'w kube \<Rightarrow> (unit, 'w cstate) action" where
  "deleteDiscoveryClusterRole r k =
     andThen instance_of (\<lambda>d.
     wrap ''deleting discovery ClusterRole''
       (kdelete (ku_cluster_roles k) [] (discoveryRBACName (re_sha256 r) d)))"

text \<open>Only called when discovery is enabled.\<close>

definition reconcileDiscoveryClusterRole :: "DashboardReconciler \<Rightarrow> 'w kube \<Rightarrow> (unit, 'w cstate) action" where
  "reconcileDiscoveryClusterRole r k =
     andThen instance_of (\<lambda>d.
     case ds_discovery (d_spec d) of
       None \<Rightarrow> fail ''invalid memory address or nil pointer dereference''
     | Some disc \<Rightarrow>
         reconcileRules (ku_cluster_roles k)
           \<lparr>ro_meta = meta [] (discoveryRBACName (re_sha256 r) d),
            ro_rules = discoveryClusterRoleRules disc (re_gateway_enabled r)\<rparr>)"

definition reconcileDiscoveryRoleBinding :: "DashboardReconciler \<Rightarrow> 'w kube \<Rightarrow> string \<Rightarrow> (unit, 'w cstate) action" where
  "reconcileDiscoveryRoleBinding r k ns =
     andThen instance_of (\<lambda>d.
     let name = discoveryRBACName (re_sha256 r) d
     in ensureExists (ku_role_bindings k) ns name (role_binding_to clusterRoleKind name d (meta ns name)))"

definition deleteDiscoveryRoleBindings :: "DashboardReconciler \<Rightarrow> 'w kube \<Rightarrow> string list \<Rightarrow> (unit, 'w cstate) action" where
  "deleteDiscoveryRoleBindings r k namespaces =
     andThen instance_of (\<lambda>d.
     each (\<lambda>ns. wrap (''deleting discovery RoleBinding in namespace '' @ ns)
                  (kdelete (ku_role_bindings k) ns (discoveryRBACName (re_sha256 r) d))) namespaces)"

definition reconcileDiscoveryRBAC :: "DashboardReconciler \<Rightarrow> 'w kube \<Rightarrow> (unit, 'w cstate) action" where
  "reconcileDiscoveryRBAC r k =
     andThen instance_of (\<lambda>d.
     let desired = discoveryNamespaces d; previous = dst_discovery_namespaces (d_status d) in
     if desired = [] then
       andThen (deleteDiscoveryRoleBindings r k previous) (\<lambda>_.
       andThen (set_status (\<lambda>st. st\<lparr>dst_discovery_namespaces := []\<rparr>)) (\<lambda>_.
       deleteDiscoveryClusterRole r k))
     else
       andThen (wrap ''reconciling discovery ClusterRole'' (reconcileDiscoveryClusterRole r k)) (\<lambda>_.
       andThen (set_status (\<lambda>st. st\<lparr>dst_discovery_namespaces := unionSortedDeduped previous desired\<rparr>)) (\<lambda>_.
       andThen (wrap ''persisting discovery namespaces before creating RoleBindings'' (updateStatus k)) (\<lambda>_.
       andThen (each (\<lambda>ns. wrap (''reconciling discovery RoleBinding in namespace '' @ ns)
                              (reconcileDiscoveryRoleBinding r k ns)) desired) (\<lambda>_.
       andThen (deleteDiscoveryRoleBindings r k (filter (\<lambda>ns. ns \<notin> set desired) previous)) (\<lambda>_.
       set_status (\<lambda>st. st\<lparr>dst_discovery_namespaces := desired\<rparr>)))))))"

section \<open>Pod monitors in other namespaces\<close>

definition monitorClusterRoleRules :: "policy_rule list" where
  "monitorClusterRoleRules = [dashboardPodsRule]"

definition monitorNamespaces :: "dashboard \<Rightarrow> string list" where
  "monitorNamespaces d =
     remdups_adj (sort_by str_compare
       (filter (\<lambda>ns. ns \<noteq> d_namespace d) (ds_monitor_namespaces (d_spec d))))"

definition deleteMonitorClusterRole :: "DashboardReconciler \<Rightarrow> 'w kube \<Rightarrow> (unit, 'w cstate) action" where
  "deleteMonitorClusterRole r k =
     andThen instance_of (\<lambda>d.
     wrap ''deleting monitor ClusterRole''
       (kdelete (ku_cluster_roles k) [] (monitorRBACName (re_sha256 r) d)))"

definition reconcileMonitorClusterRole :: "DashboardReconciler \<Rightarrow> 'w kube \<Rightarrow> (unit, 'w cstate) action" where
  "reconcileMonitorClusterRole r k =
     andThen instance_of (\<lambda>d.
     reconcileRules (ku_cluster_roles k)
       \<lparr>ro_meta = meta [] (monitorRBACName (re_sha256 r) d), ro_rules = monitorClusterRoleRules\<rparr>)"

definition reconcileMonitorRoleBinding :: "DashboardReconciler \<Rightarrow> 'w kube \<Rightarrow> string \<Rightarrow> (unit, 'w cstate) action" where
  "reconcileMonitorRoleBinding r k ns =
     andThen instance_of (\<lambda>d.
     let name = monitorRBACName (re_sha256 r) d
     in ensureExists (ku_role_bindings k) ns name (role_binding_to clusterRoleKind name d (meta ns name)))"

definition deleteMonitorRoleBindings :: "DashboardReconciler \<Rightarrow> 'w kube \<Rightarrow> string list \<Rightarrow> (unit, 'w cstate) action" where
  "deleteMonitorRoleBindings r k namespaces =
     andThen instance_of (\<lambda>d.
     each (\<lambda>ns. wrap (''deleting monitor RoleBinding in namespace '' @ ns)
                  (kdelete (ku_role_bindings k) ns (monitorRBACName (re_sha256 r) d))) namespaces)"

definition reconcileMonitorRBAC :: "DashboardReconciler \<Rightarrow> 'w kube \<Rightarrow> (unit, 'w cstate) action" where
  "reconcileMonitorRBAC r k =
     andThen instance_of (\<lambda>d.
     let desired = monitorNamespaces d; previous = dst_monitor_namespaces (d_status d) in
     if desired = [] then
       andThen (deleteMonitorRoleBindings r k previous) (\<lambda>_.
       andThen (set_status (\<lambda>st. st\<lparr>dst_monitor_namespaces := []\<rparr>)) (\<lambda>_.
       deleteMonitorClusterRole r k))
     else
       andThen (wrap ''reconciling monitor ClusterRole'' (reconcileMonitorClusterRole r k)) (\<lambda>_.
       andThen (set_status (\<lambda>st. st\<lparr>dst_monitor_namespaces := unionSortedDeduped previous desired\<rparr>)) (\<lambda>_.
       andThen (wrap ''persisting monitor namespaces before creating RoleBindings'' (updateStatus k)) (\<lambda>_.
       andThen (each (\<lambda>ns. wrap (''reconciling monitor RoleBinding in namespace '' @ ns)
                              (reconcileMonitorRoleBinding r k ns)) desired) (\<lambda>_.
       andThen (deleteMonitorRoleBindings r k (filter (\<lambda>ns. ns \<notin> set desired) previous)) (\<lambda>_.
       set_status (\<lambda>st. st\<lparr>dst_monitor_namespaces := desired\<rparr>)))))))"

definition reconcileAllDashboardRBAC :: "DashboardReconciler \<Rightarrow> 'w kube \<Rightarrow> (unit, 'w cstate) action" where
  "reconcileAllDashboardRBAC r k =
     andThen (reconcileDashboardRBAC r k) (\<lambda>_.
     andThen (reconcileClusterMetricsRBAC r k) (\<lambda>_.
     andThen (reconcileDiscoveryRBAC r k) (\<lambda>_.
     reconcileMonitorRBAC r k)))"

section \<open>What the Role grants\<close>

text \<open>Kubernetes' reading of a Role: a rule without resource names is about every name.\<close>

definition rule_grants :: "policy_rule \<Rightarrow> string \<Rightarrow> string \<Rightarrow> string \<Rightarrow> string \<Rightarrow> bool" where
  "rule_grants rl verb grp resource name \<longleftrightarrow> verb \<in> set (pr_verbs rl) \<and> grp \<in> set (pr_api_groups rl) \<and>
     resource \<in> set (pr_resources rl) \<and> (pr_resource_names rl = [] \<or> name \<in> set (pr_resource_names rl))"

definition rules_grant :: "policy_rule list \<Rightarrow> string \<Rightarrow> string \<Rightarrow> string \<Rightarrow> string \<Rightarrow> bool" where
  "rules_grant rules verb grp resource name \<longleftrightarrow> list_ex (\<lambda>rl. rule_grants rl verb grp resource name) rules"

lemma dashboardRoles_secrets:
  "rules_grant (dashboardRoles names disc g) verb [] ''secrets'' n \<longleftrightarrow> verb = ''get'' \<and> n \<in> set names"
  by (cases names)
    (auto simp: rules_grant_def rule_grants_def dashboardRoles_def dashboardConfigRule_def
      dashboardPodsRule_def dashboardIngressRule_def dashboardHTTPRouteRule_def rule_on_def
      rbac_consts split: option.split)

definition referenced :: "dashboard \<Rightarrow> nat \<Rightarrow> service_card list \<Rightarrow> info_widget list \<Rightarrow> string list" where
  "referenced d dashCount cards infoWidgets =
     card_secrets (d_name d) dashCount cards @ info_secrets (d_name d) dashCount infoWidgets @
     default_secrets (ds_widget_defaults (d_spec d))"

definition labeled :: "'w kube \<Rightarrow> string \<Rightarrow> 'w \<Rightarrow> string \<Rightarrow> bool" where
  "labeled k ns w n \<longleftrightarrow> (\<exists>labels. ku_secret_labels k ns n w = Found labels \<and>
     gstr labels SecretAllowWidgetsLabel = secretAllowWidgetsValue)"

lemma filterLabeledSecrets_exact:
  "filterLabeledSecrets k ns names w = Inr out \<Longrightarrow> set out = {n \<in> set names. labeled k ns w n}"
proof (induction names arbitrary: out)
  case Nil
  then show ?case by simp
next
  case (Cons n names)
  show ?case
  proof (cases "ku_secret_labels k ns n w")
    case (Found labels)
    with Cons.prems obtain out' where "filterLabeledSecrets k ns names w = Inr out'"
      and out: "out = (if gstr labels SecretAllowWidgetsLabel = secretAllowWidgetsValue then n # out' else out')"
      by (cases "filterLabeledSecrets k ns names w") auto
    with Cons.IH have "set out' = {n \<in> set names. labeled k ns w n}" by simp
    with Found out show ?thesis by (auto simp: labeled_def)
  qed (use Cons in \<open>auto simp: labeled_def\<close>)
qed

lemma referencedSecretNames_run:
  assumes "referencedSecretNames k (d, w) = (Inr names, s')"
  shows "\<exists>ds cards iws. rd_list_dashboards (ku_reader k w) (d_namespace d) = Inr ds \<and>
    rd_list_service_cards (ku_reader k w) (d_namespace d) = Inr cards \<and>
    rd_list_info_widgets (ku_reader k w) (d_namespace d) = Inr iws \<and>
    set names = {n \<in> set (referenced d (length ds) cards iws).
      ds_secret_policy (d_spec d) = Some SecretPolicyLabeled \<longrightarrow> labeled k (d_namespace d) w n}"
proof -
  note run = assms [unfolded referencedSecretNames_def Let_def run_simps, folded referenced_def]
  from run have run': "\<exists>n cards iws. namespaceDashboardCount (ku_reader k w) (d_namespace d) = Inr n \<and>
      rd_list_service_cards (ku_reader k w) (d_namespace d) = Inr cards \<and>
      rd_list_info_widgets (ku_reader k w) (d_namespace d) = Inr iws \<and>
      (if ds_secret_policy (d_spec d) = Some SecretPolicyLabeled
       then (\<lambda>s. (filterLabeledSecrets k (d_namespace d)
              (sort_by str_compare (remdups (referenced d n cards iws))) (snd s), s))
       else ret (sort_by str_compare (remdups (referenced d n cards iws)))) (d, w) = (Inr names, s')"
    by simp
  then obtain n cards iws where n: "namespaceDashboardCount (ku_reader k w) (d_namespace d) = Inr n"
    and lists: "rd_list_service_cards (ku_reader k w) (d_namespace d) = Inr cards"
      "rd_list_info_widgets (ku_reader k w) (d_namespace d) = Inr iws"
    and names: "(if ds_secret_policy (d_spec d) = Some SecretPolicyLabeled
      then (\<lambda>s. (filterLabeledSecrets k (d_namespace d)
             (sort_by str_compare (remdups (referenced d n cards iws))) (snd s), s))
      else ret (sort_by str_compare (remdups (referenced d n cards iws)))) (d, w) = (Inr names, s')"
    by (elim exE conjE)
  from n obtain ds where ds: "rd_list_dashboards (ku_reader k w) (d_namespace d) = Inr ds" "n = length ds"
    by (auto simp: namespaceDashboardCount_def split: sum.splits)
  have "set names = {x \<in> set (referenced d n cards iws).
      ds_secret_policy (d_spec d) = Some SecretPolicyLabeled \<longrightarrow> labeled k (d_namespace d) w x}"
  proof (cases "ds_secret_policy (d_spec d) = Some SecretPolicyLabeled")
    case True
    with names have "filterLabeledSecrets k (d_namespace d)
        (sort_by str_compare (remdups (referenced d n cards iws))) w = Inr names" by simp
    from filterLabeledSecrets_exact [OF this] True show ?thesis by simp
  next
    case False
    with names show ?thesis by (simp add: run_simps)
  qed
  with lists ds show ?thesis by auto
qed

lemma roleSecretNames_run:
  assumes "roleSecretNames k (d, w) = (Inr names, s')"
  shows "\<exists>ds cards iws. rd_list_dashboards (ku_reader k w) (d_namespace d) = Inr ds \<and>
    rd_list_service_cards (ku_reader k w) (d_namespace d) = Inr cards \<and>
    rd_list_info_widgets (ku_reader k w) (d_namespace d) = Inr iws \<and>
    set names = set (authSecretNames d) \<union> {n \<in> set (referenced d (length ds) cards iws).
      ds_secret_policy (d_spec d) = Some SecretPolicyLabeled \<longrightarrow> labeled k (d_namespace d) w n}"
proof -
  from assms obtain refs t where refs: "referencedSecretNames k (d, w) = (Inr refs, t)"
    and names: "names = (if authSecretNames d \<noteq> []
      then remdups_adj (sort_by str_compare (refs @ authSecretNames d)) else refs)"
    unfolding roleSecretNames_def run_simps by (auto simp: run_simps)
  from names have "set names = set (authSecretNames d) \<union> set refs" by auto
  with referencedSecretNames_run [OF refs] show ?thesis by auto
qed

section \<open>The pod under its Role\<close>

text \<open>What the pod's direct reader returns when the API server enforces a Role.\<close>

definition under_role :: "policy_rule list \<Rightarrow> reader \<Rightarrow> reader" where
  "under_role rules rd = rd\<lparr>rd_get_secret := \<lambda>ns n.
     if rules_grant rules verbGet [] resourceSecrets n then rd_get_secret rd ns n
     else GetError ''forbidden''\<rparr>"

lemma under_role_secret:
  "n \<in> set names \<Longrightarrow>
   rd_get_secret (under_role (dashboardRoles names disc g) rd) ns n = rd_get_secret rd ns n"
  by (simp add: under_role_def resourceSecrets_def dashboardRoles_secrets verbGet_def)

lemma resolveSecret_under:
  "set (source_secret src) \<subseteq> set names \<Longrightarrow>
   resolveSecret (under_role (dashboardRoles names disc g) rd) ns src = resolveSecret rd ns src"
  by (auto simp: resolveSecret_def source_secret_def under_role_secret split: option.splits)

lemma resolve_fields_under:
  "set (concat (map (source_secret \<circ> snd) srcs)) \<subseteq> set names \<Longrightarrow>
   resolve_fields (under_role (dashboardRoles names disc g) rd) ns srcs cfg = resolve_fields rd ns srcs cfg"
  by (induction srcs arbitrary: cfg) (auto simp: resolveSecret_under split: sum.splits)

lemma set_gcopy: "set (gcopy dst src) \<subseteq> set dst \<union> set src"
proof -
  have up: "set (gput k v m) \<subseteq> insert (k, v) (set m)" for k and v :: 'a and m
    unfolding gput_def by (induction m) auto
  have "set (foldl (\<lambda>m (k, v). gput k v m) dst src) \<subseteq> set dst \<union> set src"
    using up by (induction src arbitrary: dst) fastforce+
  then show ?thesis by (simp add: gcopy_def)
qed

lemma mergeWidgetSecrets_sources:
  assumes "mergeWidgetSecrets t [] ca defaults = (srcs, ca')"
  shows "set (concat (map (source_secret \<circ> snd) srcs)) \<subseteq> set (default_secrets defaults)"
    and "(case ca' of None \<Rightarrow> {} | Some c \<Rightarrow> set (source_secret c)) \<subseteq>
      (case ca of None \<Rightarrow> {} | Some c \<Rightarrow> set (source_secret c)) \<union> set (default_secrets defaults)"
proof -
  have copy: "set (gcopy (gcopy [] m) []) \<subseteq> set m" for m :: "secret_value_source gomap"
    using set_gcopy [of "[]" m] by (simp add: gcopy_def)
  have entry: "(t, e) \<in> set defaults" if "gget defaults t = Some e" for e
    using that by (simp add: gget_def map_of_SomeD)
  have "set srcs \<subseteq> (case gget defaults t of None \<Rightarrow> {} | Some e \<Rightarrow> set (wd_secrets e))"
    using assms copy by (auto simp: mergeWidgetSecrets_def split: option.splits if_splits)
  then show "set (concat (map (source_secret \<circ> snd) srcs)) \<subseteq> set (default_secrets defaults)"
    using entry by (fastforce simp: default_secrets_def widget_secrets_def split: option.splits)
  show "(case ca' of None \<Rightarrow> {} | Some c \<Rightarrow> set (source_secret c)) \<subseteq>
      (case ca of None \<Rightarrow> {} | Some c \<Rightarrow> set (source_secret c)) \<union> set (default_secrets defaults)"
    using assms entry
    by (fastforce simp: mergeWidgetSecrets_def default_secrets_def widget_secrets_def split: option.splits)
qed

lemma resolveWidgetSecrets_under:
  assumes "set (widget_secrets secrets ref ca) \<subseteq> set names" "set (default_secrets defaults) \<subseteq> set names"
  shows "resolveWidgetSecrets (under_role (dashboardRoles names disc g) rd) ns t secrets ref ca defaults cfg =
    resolveWidgetSecrets rd ns t secrets ref ca defaults cfg"
proof -
  obtain srcs ca' where m: "mergeWidgetSecrets t [] ca defaults = (srcs, ca')" by fastforce
  from mergeWidgetSecrets_sources(1) [OF m] assms(2)
  have a: "set (concat (map (source_secret \<circ> snd) srcs)) \<subseteq> set names" by blast
  from assms(1) have b: "set (concat (map (source_secret \<circ> snd) secrets)) \<subseteq> set names"
    by (auto simp: widget_secrets_def)
  have c: "resolveSecretRefFields (under_role (dashboardRoles names disc g) rd) ns n =
      resolveSecretRefFields rd ns n" if "ref = Some n" for n
    using assms(1) that by (simp add: widget_secrets_def resolveSecretRefFields_def under_role_secret)
  show ?thesis
    unfolding resolveWidgetSecrets_def m prod.case resolve_fields_under [OF a] resolve_fields_under [OF b]
    using c by (cases ref; cases "resolve_fields rd ns srcs cfg") simp_all
qed

lemma resolveWidgetSecrets_ca:
  assumes "resolveWidgetSecrets rd ns t secrets ref ca defaults cfg = Inr (ca', cfg')"
  shows "ca' = snd (mergeWidgetSecrets t [] ca defaults)"
proof -
  obtain srcs c where m: "mergeWidgetSecrets t [] ca defaults = (srcs, c)" by fastforce
  show ?thesis
    using assms unfolding resolveWidgetSecrets_def m prod.case snd_conv by (simp split: sum.splits)
qed

section \<open>Properties\<close>

text \<open>
  C4. The Role of a dashboard pod grants reading exactly the Secrets that the bound widgets, the
  widget defaults and the basic authentication name (of the widgets', only the labelled ones where the
  policy says so), one by one: no other verb, and not every Secret when nothing references one.
\<close>

theorem role_secrets_exact:
  assumes "roleSecretNames k (d, w) = (Inr names, s')"
    and "rd_list_dashboards (ku_reader k w) (d_namespace d) = Inr ds"
    and "rd_list_service_cards (ku_reader k w) (d_namespace d) = Inr cards"
    and "rd_list_info_widgets (ku_reader k w) (d_namespace d) = Inr iws"
  shows "rules_grant (dashboardRoles names (ds_discovery (d_spec d)) g) verb [] ''secrets'' n \<longleftrightarrow>
    verb = ''get'' \<and> (n \<in> set (authSecretNames d) \<or>
      n \<in> set (referenced d (length ds) cards iws) \<and>
      (ds_secret_policy (d_spec d) = Some SecretPolicyLabeled \<longrightarrow> labeled k (d_namespace d) w n))"
  using roleSecretNames_run [OF assms(1)] assms(2-) by (auto simp: dashboardRoles_secrets)

text \<open>
  C19. The Role is enough: unless the policy asks for labels, the poller resolves the secrets and
  the CA certificate of a bound card's widget under its Role as if every Secret were readable.
\<close>

theorem widget_secrets_granted:
  assumes "roleSecretNames k (d, w) = (Inr names, s')"
    and "rd_list_dashboards (ku_reader k w) (d_namespace d) = Inr ds"
    and "rd_list_service_cards (ku_reader k w) (d_namespace d) = Inr cards"
    and "ds_secret_policy (d_spec d) \<noteq> Some SecretPolicyLabeled"
    and "c \<in> set cards" "bound_to (ref_name (sc_dashboard_ref (card_spec c))) (d_name d) (length ds)"
    and "e \<in> set (service_entries (card_spec c))" "wg \<in> set (se_widgets e)"
    and pod: "pod = under_role (dashboardRoles names (ds_discovery (d_spec d)) g) rd"
  shows "resolveWidgetSecrets pod (d_namespace d) (sw_type wg) (sw_secrets wg) (sw_secret_ref wg)
      (sw_ca_cert wg) (ds_widget_defaults (d_spec d)) [] =
    resolveWidgetSecrets rd (d_namespace d) (sw_type wg) (sw_secrets wg) (sw_secret_ref wg)
      (sw_ca_cert wg) (ds_widget_defaults (d_spec d)) [] \<and>
    (\<forall>ca cfg. resolveWidgetSecrets rd (d_namespace d) (sw_type wg) (sw_secrets wg) (sw_secret_ref wg)
        (sw_ca_cert wg) (ds_widget_defaults (d_spec d)) [] = Inr (ca, cfg) \<longrightarrow>
      httpClientForCACert lib pod (d_namespace d) ca base st =
      httpClientForCACert lib rd (d_namespace d) ca base st)"
proof -
  from roleSecretNames_run [OF assms(1)] assms(2-4) obtain iws
    where "set (referenced d (length ds) cards iws) \<subseteq> set names" by auto
  moreover have "set (widget_secrets (sw_secrets wg) (sw_secret_ref wg) (sw_ca_cert wg)) \<subseteq>
      set (card_secrets (d_name d) (length ds) cards)"
    using assms(5-8) by (auto simp: card_secrets_def intro!: bexI [of _ c] bexI [of _ e] bexI [of _ wg])
  ultimately have own: "set (widget_secrets (sw_secrets wg) (sw_secret_ref wg) (sw_ca_cert wg)) \<subseteq> set names"
    and defaults: "set (default_secrets (ds_widget_defaults (d_spec d))) \<subseteq> set names"
    by (auto simp: referenced_def)
  have "httpClientForCACert lib pod (d_namespace d) ca base st = httpClientForCACert lib rd (d_namespace d) ca base st"
    if run: "resolveWidgetSecrets rd (d_namespace d) (sw_type wg) (sw_secrets wg) (sw_secret_ref wg)
        (sw_ca_cert wg) (ds_widget_defaults (d_spec d)) [] = Inr (ca, cfg)" for ca cfg
  proof -
    obtain srcs ca' where m: "mergeWidgetSecrets (sw_type wg) [] (sw_ca_cert wg)
        (ds_widget_defaults (d_spec d)) = (srcs, ca')" by fastforce
    with resolveWidgetSecrets_ca [OF run] have "ca = ca'" by simp
    moreover have "(case sw_ca_cert wg of None \<Rightarrow> {} | Some c \<Rightarrow> set (source_secret c)) \<subseteq> set names"
      using own by (cases "sw_ca_cert wg") (simp_all add: widget_secrets_def)
    ultimately have "(case ca of None \<Rightarrow> {} | Some c \<Rightarrow> set (source_secret c)) \<subseteq> set names"
      using mergeWidgetSecrets_sources(2) [OF m] defaults by (meson Un_least order_trans)
    then have "set (source_secret src) \<subseteq> set names" if "ca = Some src" for src
      using that by simp
    then show ?thesis
      unfolding pod by (cases ca) (simp_all add: httpClientForCACert_def resolveSecret_under)
  qed
  then show ?thesis
    unfolding pod using resolveWidgetSecrets_under [OF own defaults] by blast
qed

section \<open>Witnesses\<close>

definition ex_secret_widget :: service_widget where
  "ex_secret_widget = zero_service_widget\<lparr>sw_type := ''gitea'', sw_secret_ref := Some ''creds''\<rparr>"

definition ex_secret_card :: service_card where
  "ex_secret_card = ex_service_card ''web'' ''media'' [zero_service_entry\<lparr>se_widgets := [ex_secret_widget]\<rparr>]"

definition ex_secret_cluster :: "mem kube" where
  "ex_secret_cluster = mem_kube (ex_reader (ex_dashboard ''web'' ''home'') [ex_secret_card] [] []
     [(''creds'', [(''token'', ''t'')])])"

lemma ex_roleSecretNames:
  "roleSecretNames ex_secret_cluster (ex_dashboard ''web'' ''home'', w) =
     (Inr [''creds''], (ex_dashboard ''web'' ''home'', w))"
proof -
  have refs: "sort_by str_compare (remdups (referenced (ex_dashboard ''web'' ''home'') 1 [ex_secret_card] [])) = [''creds'']"
    by code_simp
  have counts: "rd_list_service_cards (ku_reader ex_secret_cluster w) ns = Inr [ex_secret_card]"
    "rd_list_info_widgets (ku_reader ex_secret_cluster w) ns = Inr []"
    "namespaceDashboardCount (ku_reader ex_secret_cluster w) ns = Inr 1" for ns
    by (simp_all add: ex_secret_cluster_def mem_kube_def ex_reader_def namespaceDashboardCount_def)
  have spec: "ds_secret_policy (d_spec (ex_dashboard ''web'' ''home'')) = None"
    "authSecretNames (ex_dashboard ''web'' ''home'') = []"
    by (simp_all add: ex_dashboard_def zero_dashboard_spec_def authSecretNames_def)
  have "referencedSecretNames ex_secret_cluster (ex_dashboard ''web'' ''home'', w) =
      (Inr [''creds''], (ex_dashboard ''web'' ''home'', w))"
    unfolding referencedSecretNames_def run_simps
    by (simp add: Let_def counts spec refs [unfolded referenced_def One_nat_def] simple_Inr(3) simple_Inr(4) ret_def)
  then show ?thesis
    unfolding roleSecretNames_def run_simps by (simp add: spec simple_Inr(3) ret_def)
qed

theorem role_secrets_exact_witness:
  "rules_grant (dashboardRoles [''creds''] None False) ''get'' [] ''secrets'' ''creds'' \<and>
   \<not> rules_grant (dashboardRoles [''creds''] None False) ''get'' [] ''secrets'' ''other'' \<and>
   \<not> rules_grant (dashboardRoles [''creds''] None False) ''list'' [] ''secrets'' ''creds''"
proof -
  let ?d = "ex_dashboard ''web'' ''home''"
  have lists: "rd_list_dashboards (ku_reader ex_secret_cluster w) (d_namespace ?d) = Inr [?d]"
    "rd_list_service_cards (ku_reader ex_secret_cluster w) (d_namespace ?d) = Inr [ex_secret_card]"
    "rd_list_info_widgets (ku_reader ex_secret_cluster w) (d_namespace ?d) = Inr []" for w
    by (simp_all add: ex_secret_cluster_def mem_kube_def ex_reader_def)
  have refs: "set (referenced ?d 1 [ex_secret_card] []) = {''creds''}"
    "set (authSecretNames ?d) = {}" "ds_discovery (d_spec ?d) = None" "ds_secret_policy (d_spec ?d) = None"
    by code_simp+
  show ?thesis
    using role_secrets_exact [OF ex_roleSecretNames lists, where g = False] refs by simp
qed

theorem widget_secrets_granted_witness:
  "(let d = ex_dashboard ''web'' ''home''; rd = ku_reader ex_secret_cluster (empty_mem d)
    in resolveWidgetSecrets (under_role (dashboardRoles [''creds''] None False) rd) ''web'' ''gitea'' [] (Some ''creds'') None [] [] =
       resolveWidgetSecrets rd ''web'' ''gitea'' [] (Some ''creds'') None [] [])"
proof -
  let ?d = "ex_dashboard ''web'' ''home''" and ?rd = "ku_reader ex_secret_cluster (empty_mem (ex_dashboard ''web'' ''home''))"
  have lists: "rd_list_dashboards ?rd (d_namespace ?d) = Inr [?d]"
    "rd_list_service_cards ?rd (d_namespace ?d) = Inr [ex_secret_card]"
    by (simp_all add: ex_secret_cluster_def mem_kube_def ex_reader_def)
  have spec: "ds_secret_policy (d_spec ?d) \<noteq> Some SecretPolicyLabeled" "ds_discovery (d_spec ?d) = None"
    "ds_widget_defaults (d_spec ?d) = []" "d_namespace ?d = ''web''"
    by (simp_all add: ex_dashboard_def zero_dashboard_spec_def)
  let ?e = "zero_service_entry\<lparr>se_widgets := [ex_secret_widget]\<rparr>"
  have bound: "bound_to (ref_name (sc_dashboard_ref (card_spec ex_secret_card))) (d_name ?d) (length [?d])"
    "?e \<in> set (service_entries (card_spec ex_secret_card))" "ex_secret_widget \<in> set (se_widgets ?e)"
    by (simp_all add: ex_secret_card_def ex_service_card_def bound_to_def ref_name_def service_entries_def zero_service_entry_def)
  have widget: "sw_type ex_secret_widget = ''gitea''" "sw_secrets ex_secret_widget = []"
    "sw_secret_ref ex_secret_widget = Some ''creds''" "sw_ca_cert ex_secret_widget = None"
    by (simp_all add: ex_secret_widget_def zero_service_widget_def)
  show ?thesis
    using widget_secrets_granted [OF ex_roleSecretNames lists spec(1) _ bound refl, where rd = ?rd and g = False]
    by (simp add: Let_def widget spec)
qed

end
