(* ===== verification/Network.thy ===== *)
theory Network
  imports Names Mem_Server
begin

text \<open>
  The network objects of a Dashboard (\<^verbatim>\<open>internal/controller/dashboard_network.go\<close>): Service,
  Ingress, HTTPRoute and NetworkPolicy, each created, compared with what is desired and repaired;
  the merging of annotations that other controllers write to as well; and the URL reported in the
  status.  Proved: merging touches only the keys that the spec names or named; repairing an object
  leaves no drift, so reconciling comes to rest (locale \<^verbatim>\<open>owned_object\<close>, with one
  interpretation per kind); and the Ingress is there exactly while it is enabled.
\<close>

section \<open>Annotations\<close>

definition managedAnnotationsKey :: string where
  "managedAnnotationsKey = ''page.kubepage.dev/managed-annotations''"

text \<open>\<^verbatim>\<open>strings.SplitSeq(s, ",")\<close>\<close>

fun split_commas :: "string \<Rightarrow> string list" where
  "split_commas [] = [[]]"
| "split_commas (c # s) =
     (if c = CHR '','' then [] # split_commas s
      else (case split_commas s of [] \<Rightarrow> [[c]] | l # ls \<Rightarrow> (c # l) # ls))"

definition mergeManagedAnnotations :: "string gomap \<Rightarrow> string gomap \<Rightarrow> string gomap" where
  "mergeManagedAnnotations existing desired =
     (let merged = foldl (\<lambda>m k. if k \<noteq> [] \<and> gget desired k = None then gdel k m else m) existing
                     (split_commas (gstr existing managedAnnotationsKey));
          merged = gcopy merged desired
      in if desired = [] then gdel managedAnnotationsKey merged
         else gput managedAnnotationsKey (join '','' (sort_by str_compare (map fst desired))) merged)"

section \<open>Service\<close>

definition instanceContainerName :: string where "instanceContainerName = ''dashboard''"
definition dashboardMetricsPort :: int where "dashboardMetricsPort = 9090"
definition dashboardMetricsPortName :: string where "dashboardMetricsPortName = ''metrics''"

definition metrics_enabled :: "dashboard \<Rightarrow> bool" where
  "metrics_enabled d = (case ds_metrics (d_spec d) of None \<Rightarrow> False | Some m \<Rightarrow> ms_enabled m)"

definition serviceForDashboard :: "(string \<Rightarrow> string) \<Rightarrow> 'w kube \<Rightarrow> (service, 'w cstate) action" where
  "serviceForDashboard sha256 k =
     andThen instance_of (\<lambda>d.
     let port = ds_container_port (d_spec d);
         ports = [\<lparr>sp_name = instanceContainerName, sp_port = port, sp_target_port = port\<rparr>] @
           (if metrics_enabled d
            then [\<lparr>sp_name = dashboardMetricsPortName, sp_port = dashboardMetricsPort,
                   sp_target_port = dashboardMetricsPort\<rparr>] else []);
         svcType = (case ds_service (d_spec d) of
                      None \<Rightarrow> ''ClusterIP''
                    | Some sv \<Rightarrow> if svs_type sv \<noteq> [] then svs_type sv else ''ClusterIP'');
         annotations = (case ds_service (d_spec d) of None \<Rightarrow> [] | Some sv \<Rightarrow> svs_annotations sv)
     in own k (\<lambda>m. \<lparr>sv_meta = m, sv_type = svcType,
            sv_selector = selectorLabelsForDashboard sha256 (d_name d), sv_ports = ports, sv_cluster_ip = []\<rparr>)
          ((meta (d_namespace d) (d_name d))\<lparr>om_annotations := annotations\<rparr>))"

definition portsEqual :: "svc_port list \<Rightarrow> svc_port list \<Rightarrow> bool" where
  "portsEqual a b \<longleftrightarrow> length a = length b \<and>
     list_all2 (\<lambda>x y. sp_name x = sp_name y \<and> sp_port x = sp_port y \<and> sp_target_port x = sp_target_port y) a b"

definition on_object :: "string \<Rightarrow> dashboard \<Rightarrow> string" where
  "on_object what d = what @ '' '' @ d_namespace d @ ''/'' @ d_name d"

definition service_drifted :: "service \<Rightarrow> service \<Rightarrow> bool" where
  "service_drifted found desired \<longleftrightarrow>
     \<not> portsEqual (sv_ports found) (sv_ports desired) \<or>
     \<not> gequal (sv_selector found) (sv_selector desired) \<or> sv_type found \<noteq> sv_type desired \<or>
     \<not> gequal (om_annotations (sv_meta found))
         (mergeManagedAnnotations (om_annotations (sv_meta found)) (om_annotations (sv_meta desired)))"

definition repair_meta :: "object_meta \<Rightarrow> object_meta \<Rightarrow> object_meta" where
  "repair_meta found desired =
     found\<lparr>om_annotations := mergeManagedAnnotations (om_annotations found) (om_annotations desired)\<rparr>"

text \<open>The cluster IP is kept.\<close>

definition service_repaired :: "service \<Rightarrow> service \<Rightarrow> service" where
  "service_repaired found desired =
     found\<lparr>sv_ports := sv_ports desired, sv_selector := sv_selector desired, sv_type := sv_type desired,
           sv_meta := repair_meta (sv_meta found) (sv_meta desired)\<rparr>"

definition reconcileService :: "(string \<Rightarrow> string) \<Rightarrow> 'w kube \<Rightarrow> (unit, 'w cstate) action" where
  "reconcileService sha256 k =
     andThen instance_of (\<lambda>d.
     andThen (wrap ''defining Service'' (serviceForDashboard sha256 k)) (\<lambda>desired.
     andThen (kget (ku_services k) (d_namespace d) (d_name d)) (\<lambda>r. case r of
         NotFound \<Rightarrow> wrap (on_object ''creating Service'' d) (kcreate (ku_services k) desired)
       | GetError e \<Rightarrow> fail (on_object ''getting Service'' d @ '': '' @ e)
       | Found found \<Rightarrow>
           if service_drifted found desired
           then wrap (on_object ''updating Service'' d)
                  (kupdate (ku_services k) (service_repaired found desired))
           else ret ())))"

section \<open>The reported URL\<close>

definition enabled_ingress :: "dashboard \<Rightarrow> ingress_spec option" where
  "enabled_ingress d =
     (case ds_ingress (d_spec d) of Some ing \<Rightarrow> if is_enabled ing then Some ing else None | None \<Rightarrow> None)"

definition enabled_gateway :: "dashboard \<Rightarrow> gateway_spec option" where
  "enabled_gateway d =
     (case ds_gateway (d_spec d) of Some gw \<Rightarrow> if gs_enabled gw then Some gw else None | None \<Rightarrow> None)"

definition dashboardURL :: "dashboard \<Rightarrow> string" where
  "dashboardURL d =
     (case enabled_ingress d of
        Some ing \<Rightarrow> (if is_tls ing \<noteq> None then ''https'' else ''http'') @ ''://'' @ is_host ing @ ''/''
      | None \<Rightarrow>
          (case Option.bind (enabled_gateway d) (\<lambda>gw. case gs_hostnames gw of [] \<Rightarrow> None | h # _ \<Rightarrow> Some h) of
             Some h \<Rightarrow> ''https://'' @ h @ ''/''
           | None \<Rightarrow> ''http://'' @ d_name d @ ''.'' @ d_namespace d @ ''.svc.cluster.local:'' @
               fmt_int (ds_container_port (d_spec d)) @ ''/''))"

section \<open>Ingress\<close>

definition ingressForDashboard :: "'w kube \<Rightarrow> ingress_spec \<Rightarrow> (ingress, 'w cstate) action" where
  "ingressForDashboard k ing =
     andThen instance_of (\<lambda>d.
     own k (\<lambda>m. \<lparr>ig_meta = m,
         ig_spec = \<lparr>igs_class_name = is_class_name ing,
           igs_rules = [\<lparr>igr_host = is_host ing,
             igr_paths = Some [\<lparr>ip_path = ''/'',
               ip_service = Some \<lparr>sb_name = d_name d, sb_port = ds_container_port (d_spec d)\<rparr>\<rparr>]\<rparr>],
           igs_tls = (case is_tls ing of None \<Rightarrow> []
             | Some t \<Rightarrow> [\<lparr>igt_hosts = [is_host ing], igt_secret_name = its_secret_name t\<rparr>])\<rparr>\<rparr>)
       ((meta (d_namespace d) (d_name d))\<lparr>om_annotations := is_annotations ing\<rparr>))"

definition ingressPathsEqual :: "ingress_path \<Rightarrow> ingress_path \<Rightarrow> bool" where
  "ingressPathsEqual a b \<longleftrightarrow> ip_path a = ip_path b \<and> ip_service a \<noteq> None \<and> ip_service a = ip_service b"

definition ingressRulesEqual :: "ingress_rule \<Rightarrow> ingress_rule \<Rightarrow> bool" where
  "ingressRulesEqual a b \<longleftrightarrow> igr_host a = igr_host b \<and>
     (case (igr_paths a, igr_paths b) of
        (Some ps, Some qs) \<Rightarrow> length ps = length qs \<and> list_all2 ingressPathsEqual ps qs
      | _ \<Rightarrow> False)"

definition ingressSpecsEqual :: "ingress_obj_spec \<Rightarrow> ingress_obj_spec \<Rightarrow> bool" where
  "ingressSpecsEqual a b \<longleftrightarrow> igs_class_name a = igs_class_name b \<and>
     length (igs_rules a) = length (igs_rules b) \<and> length (igs_tls a) = length (igs_tls b) \<and>
     list_all2 ingressRulesEqual (igs_rules a) (igs_rules b) \<and>
     list_all2 (\<lambda>s t. igt_secret_name s = igt_secret_name t \<and> length (igt_hosts s) = length (igt_hosts t) \<and>
       list_all2 (=) (igt_hosts s) (igt_hosts t)) (igs_tls a) (igs_tls b)"

definition ingress_drifted :: "ingress \<Rightarrow> ingress \<Rightarrow> bool" where
  "ingress_drifted found desired \<longleftrightarrow> \<not> ingressSpecsEqual (ig_spec found) (ig_spec desired) \<or>
     \<not> gequal (om_annotations (ig_meta found))
         (mergeManagedAnnotations (om_annotations (ig_meta found)) (om_annotations (ig_meta desired)))"

definition ingress_repaired :: "ingress \<Rightarrow> ingress \<Rightarrow> ingress" where
  "ingress_repaired found desired =
     found\<lparr>ig_spec := ig_spec desired, ig_meta := repair_meta (ig_meta found) (ig_meta desired)\<rparr>"

definition reconcileIngress :: "'w kube \<Rightarrow> (unit, 'w cstate) action" where
  "reconcileIngress k =
     andThen instance_of (\<lambda>d.
     andThen (kget (ku_ingresses k) (d_namespace d) (d_name d)) (\<lambda>r. case r of
         NotFound \<Rightarrow>
           (case enabled_ingress d of
              None \<Rightarrow> ret ()
            | Some ing \<Rightarrow>
                andThen (wrap ''defining Ingress'' (ingressForDashboard k ing)) (\<lambda>desired.
                wrap (on_object ''creating Ingress'' d) (kcreate (ku_ingresses k) desired)))
       | GetError e \<Rightarrow> fail (on_object ''getting Ingress'' d @ '': '' @ e)
       | Found found \<Rightarrow>
           (case enabled_ingress d of
              None \<Rightarrow> wrap (on_object ''deleting Ingress'' d)
                       (kdelete (ku_ingresses k) (d_namespace d) (d_name d))
            | Some ing \<Rightarrow>
                andThen (wrap ''defining Ingress'' (ingressForDashboard k ing)) (\<lambda>desired.
                if ingress_drifted found desired
                then wrap (on_object ''updating Ingress'' d)
                       (kupdate (ku_ingresses k) (ingress_repaired found desired))
                else ret ()))))"

section \<open>HTTPRoute\<close>

definition errGatewayAPINotInstalled :: string where
  "errGatewayAPINotInstalled =
     ''spec.gateway is enabled but Gateway API CRDs are not installed in this cluster''"

definition httpRouteForDashboard :: "'w kube \<Rightarrow> gateway_spec \<Rightarrow> (http_route, 'w cstate) action" where
  "httpRouteForDashboard k gw =
     andThen instance_of (\<lambda>d.
     own k (\<lambda>m. \<lparr>hr_meta = m,
         hr_spec = \<lparr>hs_parent_refs = [gs_parent_ref gw], hs_hostnames = gs_hostnames gw,
           hs_rules = [[\<lparr>br_name = d_name d, br_port = Some (ds_container_port (d_spec d))\<rparr>]]\<rparr>\<rparr>)
       ((meta (d_namespace d) (d_name d))\<lparr>om_annotations := gs_annotations gw\<rparr>))"

definition httpRouteSpecsEqual :: "http_route_spec \<Rightarrow> http_route_spec \<Rightarrow> bool" where
  "httpRouteSpecsEqual a b \<longleftrightarrow> length (hs_parent_refs a) = length (hs_parent_refs b) \<and>
     length (hs_hostnames a) = length (hs_hostnames b) \<and> length (hs_rules a) = length (hs_rules b) \<and>
     list_all2 (\<lambda>p q. gp_name p = gp_name q \<and> gp_namespace p = gp_namespace q \<and>
       gp_section_name p = gp_section_name q) (hs_parent_refs a) (hs_parent_refs b) \<and>
     list_all2 (=) (hs_hostnames a) (hs_hostnames b) \<and>
     list_all2 (\<lambda>rs ts. length rs = length ts \<and>
       list_all2 (\<lambda>x y. br_name x = br_name y \<and> br_port x = br_port y) rs ts) (hs_rules a) (hs_rules b)"

definition route_drifted :: "http_route \<Rightarrow> http_route \<Rightarrow> bool" where
  "route_drifted found desired \<longleftrightarrow> \<not> httpRouteSpecsEqual (hr_spec found) (hr_spec desired) \<or>
     \<not> gequal (om_annotations (hr_meta found))
         (mergeManagedAnnotations (om_annotations (hr_meta found)) (om_annotations (hr_meta desired)))"

definition route_repaired :: "http_route \<Rightarrow> http_route \<Rightarrow> http_route" where
  "route_repaired found desired =
     found\<lparr>hr_spec := hr_spec desired, hr_meta := repair_meta (hr_meta found) (hr_meta desired)\<rparr>"

definition reconcileHTTPRoute :: "bool \<Rightarrow> 'w kube \<Rightarrow> (unit, 'w cstate) action" where
  "reconcileHTTPRoute gatewayAPIEnabled k =
     andThen instance_of (\<lambda>d.
     case enabled_gateway d of
       None \<Rightarrow>
         if \<not> gatewayAPIEnabled then ret ()
         else andThen (kget (ku_http_routes k) (d_namespace d) (d_name d)) (\<lambda>r. case r of
                  NotFound \<Rightarrow> ret ()
                | GetError e \<Rightarrow> fail (on_object ''getting HTTPRoute'' d @ '': '' @ e)
                | Found _ \<Rightarrow> wrap (on_object ''deleting HTTPRoute'' d)
                    (kdelete (ku_http_routes k) (d_namespace d) (d_name d)))
     | Some gw \<Rightarrow>
         if \<not> gatewayAPIEnabled then fail errGatewayAPINotInstalled
         else andThen (wrap ''defining HTTPRoute'' (httpRouteForDashboard k gw)) (\<lambda>desired.
              andThen (kget (ku_http_routes k) (d_namespace d) (d_name d)) (\<lambda>r. case r of
                  NotFound \<Rightarrow> wrap (on_object ''creating HTTPRoute'' d) (kcreate (ku_http_routes k) desired)
                | GetError e \<Rightarrow> fail (on_object ''getting HTTPRoute'' d @ '': '' @ e)
                | Found found \<Rightarrow>
                    if route_drifted found desired
                    then wrap (on_object ''updating HTTPRoute'' d)
                           (kupdate (ku_http_routes k) (route_repaired found desired))
                    else ret ())))"

section \<open>NetworkPolicy\<close>

definition dnsPort :: int where "dnsPort = 53"
definition apiServerPort :: int where "apiServerPort = 443"

definition namespaceSelectorPeers :: "label_selector option \<Rightarrow> policy_peer list" where
  "namespaceSelectorPeers selector = (case selector of None \<Rightarrow> [] | Some s \<Rightarrow> [NamespacePeer s])"

definition policySpecForDashboard :: "(string \<Rightarrow> string) \<Rightarrow> dashboard \<Rightarrow> network_policy_spec \<Rightarrow>
    network_policy_obj_spec" where
  "policySpecForDashboard sha256 d np =
     \<lparr>nps_pod_selector = selectorLabelsForDashboard sha256 (d_name d),
      nps_policy_types = ''Ingress'' # (if ns_egress_cidrs np \<noteq> [] then [''Egress''] else []),
      nps_ingress =
        [\<lparr>pt_ports = [(TCP, ds_container_port (d_spec d))],
          pt_peers = namespaceSelectorPeers (ns_ingress_namespace_selector np)\<rparr>] @
        (if metrics_enabled d
         then [\<lparr>pt_ports = [(TCP, dashboardMetricsPort)],
                pt_peers = namespaceSelectorPeers (ns_metrics_namespace_selector np)\<rparr>] else []),
      nps_egress =
        (if ns_egress_cidrs np \<noteq> []
         then [\<lparr>pt_ports = [(UDP, dnsPort), (TCP, dnsPort)], pt_peers = []\<rparr>,
               \<lparr>pt_ports = [(TCP, apiServerPort)], pt_peers = []\<rparr>] @
              map (\<lambda>cidr. \<lparr>pt_ports = [], pt_peers = [CIDRPeer cidr]\<rparr>) (ns_egress_cidrs np)
         else [])\<rparr>"

definition networkPolicyForDashboard :: "(string \<Rightarrow> string) \<Rightarrow> 'w kube \<Rightarrow> network_policy_spec \<Rightarrow>
    (network_policy, 'w cstate) action" where
  "networkPolicyForDashboard sha256 k np =
     andThen instance_of (\<lambda>d.
     own k (\<lambda>m. \<lparr>np_meta = m, np_spec = policySpecForDashboard sha256 d np\<rparr>)
       (meta (d_namespace d) (d_name d)))"

text \<open>\<^verbatim>\<open>reflect.DeepEqual\<close> on the specs: two maps are equal in whatever order.\<close>

fun peersEqual :: "policy_peer \<Rightarrow> policy_peer \<Rightarrow> bool" where
  "peersEqual (NamespacePeer s) (NamespacePeer t) \<longleftrightarrow>
     gequal (ls_match_labels s) (ls_match_labels t) \<and> ls_match_expressions s = ls_match_expressions t"
| "peersEqual (CIDRPeer c) (CIDRPeer e) \<longleftrightarrow> c = e"
| "peersEqual _ _ \<longleftrightarrow> False"

definition trafficEqual :: "policy_traffic \<Rightarrow> policy_traffic \<Rightarrow> bool" where
  "trafficEqual a b \<longleftrightarrow> pt_ports a = pt_ports b \<and> list_all2 peersEqual (pt_peers a) (pt_peers b)"

definition policySpecsEqual :: "network_policy_obj_spec \<Rightarrow> network_policy_obj_spec \<Rightarrow> bool" where
  "policySpecsEqual a b \<longleftrightarrow> gequal (nps_pod_selector a) (nps_pod_selector b) \<and>
     nps_policy_types a = nps_policy_types b \<and> list_all2 trafficEqual (nps_ingress a) (nps_ingress b) \<and>
     list_all2 trafficEqual (nps_egress a) (nps_egress b)"

definition policy_repaired :: "network_policy \<Rightarrow> network_policy \<Rightarrow> network_policy" where
  "policy_repaired found desired = found\<lparr>np_spec := np_spec desired\<rparr>"

definition reconcileNetworkPolicy :: "(string \<Rightarrow> string) \<Rightarrow> 'w kube \<Rightarrow> (unit, 'w cstate) action" where
  "reconcileNetworkPolicy sha256 k =
     andThen instance_of (\<lambda>d.
     case (case ds_network_policy (d_spec d) of Some np \<Rightarrow> if ns_enabled np then Some np else None | None \<Rightarrow> None) of
       None \<Rightarrow> ret ()
     | Some np \<Rightarrow>
         andThen (kget (ku_network_policies k) (d_namespace d) (d_name d)) (\<lambda>r. case r of
             NotFound \<Rightarrow>
               andThen (wrap ''defining NetworkPolicy'' (networkPolicyForDashboard sha256 k np)) (\<lambda>desired.
               wrap (on_object ''creating NetworkPolicy'' d) (kcreate (ku_network_policies k) desired))
           | GetError e \<Rightarrow> fail (on_object ''getting NetworkPolicy'' d @ '': '' @ e)
           | Found found \<Rightarrow>
               andThen (wrap ''defining NetworkPolicy'' (networkPolicyForDashboard sha256 k np)) (\<lambda>desired.
               if \<not> policySpecsEqual (np_spec found) (np_spec desired)
               then wrap (on_object ''updating NetworkPolicy'' d)
                      (kupdate (ku_network_policies k) (policy_repaired found desired))
               else ret ())))"

section \<open>Lemmas on annotations\<close>

lemma split_commas_plain: "CHR '','' \<notin> set k \<Longrightarrow> split_commas k = [k]"
  by (induction k) auto

lemma split_commas_append:
  "CHR '','' \<notin> set k \<Longrightarrow> split_commas (k @ CHR '','' # s) = k # split_commas s"
  by (induction k) auto

lemma split_commas_join:
  assumes "ks \<noteq> []" "list_all (\<lambda>k. CHR '','' \<notin> set k) ks"
  shows "split_commas (join '','' ks) = ks"
  using assms
proof (induction ks)
  case (Cons k ks)
  then show ?case by (cases ks) (simp_all add: split_commas_plain split_commas_append)
qed simp

text \<open>The keys an object records as managed.\<close>

definition recorded :: "string gomap \<Rightarrow> string set" where
  "recorded m = set (split_commas (gstr m managedAnnotationsKey)) - {[]}"

lemma gget_gdel: "gget (gdel k m) x = (if x = k then None else gget m x)"
  by (simp add: gget_def gdel_def delete_conv)

lemma gget_prune_fold:
  "gget (foldl (\<lambda>m k. if P k then gdel k m else m) m ks) x = (if x \<in> set ks \<and> P x then None else gget m x)"
  by (induction ks arbitrary: m) (auto simp: gget_gdel)

lemma gget_merge:
  assumes "gwf d"
  shows "gget (mergeManagedAnnotations e d) x =
    (if x = managedAnnotationsKey then
       (if d = [] then None else Some (join '','' (sort_by str_compare (map fst d))))
     else case gget d x of Some v \<Rightarrow> Some v | None \<Rightarrow> if x \<in> recorded e then None else gget e x)"
proof -
  let ?m = "foldl (\<lambda>m k. if k \<noteq> [] \<and> gget d k = None then gdel k m else m) e
      (split_commas (gstr e managedAnnotationsKey))"
  define M where "M = gcopy ?m d"
  have g: "gget M x =
      (case gget d x of Some v \<Rightarrow> Some v | None \<Rightarrow> if x \<in> recorded e then None else gget e x)"
    by (auto simp: M_def gget_gcopy [OF assms] gget_prune_fold [of "\<lambda>k. k \<noteq> [] \<and> gget d k = None"] recorded_def
        split: option.split)
  have "mergeManagedAnnotations e d = (if d = [] then gdel managedAnnotationsKey M
      else gput managedAnnotationsKey (join '','' (sort_by str_compare (map fst d))) M)"
    by (simp only: mergeManagedAnnotations_def Let_def M_def)
  then show ?thesis by (simp add: gget_gdel gm.get_put g)
qed

definition comma_free :: "string gomap \<Rightarrow> bool" where
  "comma_free m \<longleftrightarrow> list_all (\<lambda>(k, _). k \<noteq> [] \<and> CHR '','' \<notin> set k) m"

lemma recorded_merge:
  assumes "gwf d" "comma_free d"
  shows "recorded (mergeManagedAnnotations e d) = fst ` set d"
proof (cases "d = []")
  case True
  then have "gstr (mergeManagedAnnotations e d) managedAnnotationsKey = []"
    using gget_merge [OF assms(1), of e managedAnnotationsKey] by (simp add: gstr_def)
  with True show ?thesis by (simp add: recorded_def)
next
  case False
  let ?ks = "sort_by str_compare (map fst d)"
  have "gstr (mergeManagedAnnotations e d) managedAnnotationsKey = join '','' ?ks"
    using False gget_merge [OF assms(1), of e managedAnnotationsKey] by (simp add: gstr_def)
  moreover have "split_commas (join '','' ?ks) = ?ks"
  proof (rule split_commas_join)
    have "length ?ks \<noteq> 0" using False by simp
    then show "?ks \<noteq> []" by fastforce
    show "list_all (\<lambda>k. CHR '','' \<notin> set k) ?ks"
      using assms(2) by (auto simp: comma_free_def list_all_iff)
  qed
  ultimately show ?thesis
    using assms(2) by (force simp: recorded_def comma_free_def list_all_iff)
qed

lemma keys_gget: "x \<in> fst ` set m \<longleftrightarrow> gget m x \<noteq> None"
  by (simp add: gget_None_keys)

lemma merge_stable:
  assumes "gwf d" "comma_free d"
  shows "gequal (mergeManagedAnnotations e d) (mergeManagedAnnotations (mergeManagedAnnotations e d) d)"
proof -
  let ?m = "mergeManagedAnnotations e d"
  have "gget ?m x = gget (mergeManagedAnnotations ?m d) x" for x
    by (auto simp: gget_merge [OF assms(1)] recorded_merge [OF assms] keys_gget split: option.split)
  then show ?thesis by (auto simp: gequal_iff)
qed

section \<open>The contract of an owned object\<close>

text \<open>
  The cycle that the reconcilers share: look up, create or repair.  Repairing an object leaves no
  drift, so that two runs bring the object to rest, whatever the API server adds on its own
  to the fields that the comparison leaves out.
\<close>

definition settle :: "('o \<Rightarrow> 'o \<Rightarrow> bool) \<Rightarrow> ('o \<Rightarrow> 'o \<Rightarrow> 'o) \<Rightarrow> ('o, 'w) kind_client \<Rightarrow> string \<Rightarrow> string \<Rightarrow> 'o \<Rightarrow>
    (unit, 'w cstate) action" where
  "settle drifted repaired c ns n desired =
     andThen (kget c ns n) (\<lambda>r. case r of
         NotFound \<Rightarrow> kcreate c desired
       | GetError e \<Rightarrow> fail e
       | Found found \<Rightarrow> if drifted found desired then kupdate c (repaired found desired) else ret ())"

text \<open>
  What the API server promises about the object \<^verbatim>\<open>ns/n\<close>: a read returns what is stored and changes
  nothing, a successful write stores the object as far as the comparison can tell.
\<close>

definition stores :: "('o \<Rightarrow> 'o \<Rightarrow> bool) \<Rightarrow> ('o \<Rightarrow> object_meta) \<Rightarrow> ('w \<Rightarrow> 'o option) \<Rightarrow> ('o, 'w) kind_client \<Rightarrow>
    string \<Rightarrow> string \<Rightarrow> bool" where
  "stores drifted key stored c ns n \<longleftrightarrow>
     (\<forall>w r w'. kc_get c ns n w = (r, w') \<longrightarrow> stored w' = stored w \<and>
        (\<forall>x. r = Found x \<longrightarrow> stored w = Some x \<and> at_key key ns n x) \<and> (r = NotFound \<longrightarrow> stored w = None)) \<and>
     (\<forall>x w w'. at_key key ns n x \<longrightarrow> kc_create c x w = (None, w') \<or> kc_update c x w = (None, w') \<longrightarrow>
        (\<exists>y. stored w' = Some y \<and> (\<forall>d. drifted y d \<longleftrightarrow> drifted x d))) \<and>
     (\<forall>w r w'. kc_delete c ns n w = (r, w') \<longrightarrow> (\<forall>e. r \<noteq> GetError e) \<longrightarrow> stored w' = None)"

locale owned_object =
  fixes drifted :: "'o \<Rightarrow> 'o \<Rightarrow> bool" and repaired :: "'o \<Rightarrow> 'o \<Rightarrow> 'o" and key :: "'o \<Rightarrow> object_meta" and fit :: "'o \<Rightarrow> bool"
  assumes repaired: "fit desired \<Longrightarrow> \<not> drifted (repaired found desired) desired"
    and key_repaired: "at_key key ns n (repaired found desired) \<longleftrightarrow> at_key key ns n found"
begin

lemma settle_at_rest:
  assumes "stores drifted key stored c ns n" "stored w = Some x" "\<not> drifted x desired"
    and "kc_get c ns n w = (Found y, w')"
  shows "settle drifted repaired c ns n desired (d, w) = (Inr (), (d, w'))"
proof -
  from assms have "y = x" by (auto simp: stores_def)
  with assms show ?thesis by (simp add: settle_def andThen_def kget_def ret_def)
qed

lemma settle_once:
  assumes law: "stores drifted key stored c ns n" and desired: "fit desired" "at_key key ns n desired"
    and run: "settle drifted repaired c ns n desired (d, w) = (Inr (), (d', w'))"
  shows "\<exists>x. stored w' = Some x \<and> (stored w \<noteq> None \<longrightarrow> \<not> drifted x desired)"
proof -
  obtain r w1 where get: "kc_get c ns n w = (r, w1)" by fastforce
  with law have same: "stored w1 = stored w" "r = NotFound \<Longrightarrow> stored w = None"
    "\<And>x. r = Found x \<Longrightarrow> stored w = Some x \<and> at_key key ns n x"
    unfolding stores_def by blast+
  show ?thesis
  proof (cases r)
    case NotFound
    with run get have "kc_create c desired w1 = (None, w')"
      by (auto simp: settle_def run_simps)
    with law NotFound same desired(2) show ?thesis unfolding stores_def by blast
  next
    case (GetError e)
    with run get show ?thesis by (simp add: settle_def andThen_def kget_def fail_def)
  next
    case (Found x)
    show ?thesis
    proof (cases "drifted x desired")
      case True
      with run get Found have "kc_update c (repaired x desired) w1 = (None, w')"
        by (auto simp: settle_def run_simps)
      moreover have "\<not> drifted (repaired x desired) desired" using repaired desired(1) by blast
      moreover have "at_key key ns n (repaired x desired)" using same(3) [OF Found] key_repaired by blast
      ultimately show ?thesis using law unfolding stores_def by blast
    next
      case False
      with run get Found have "w' = w1" by (simp add: settle_def andThen_def kget_def ret_def)
      with False same Found show ?thesis by simp
    qed
  qed
qed

text \<open>A freshly created object may need one repair: its annotations are not yet recorded as managed.\<close>

lemma settle_twice:
  assumes "stores drifted key stored c ns n" "fit desired" "at_key key ns n desired"
    and "settle drifted repaired c ns n desired (d, w) = (Inr (), (d1, w1))"
    and "settle drifted repaired c ns n desired (d1, w1) = (Inr (), (d2, w2))"
  shows "\<exists>x. stored w2 = Some x \<and> \<not> drifted x desired"
  using settle_once [OF assms(1-4)] settle_once [OF assms(1-3,5)] by auto

end

section \<open>The four kinds\<close>

definition fit_meta :: "object_meta \<Rightarrow> bool" where
  "fit_meta m \<longleftrightarrow> gwf (om_annotations m) \<and> comma_free (om_annotations m)"

definition complete_ingress :: "ingress_obj_spec \<Rightarrow> bool" where
  "complete_ingress sp \<longleftrightarrow> list_all (\<lambda>rl. case igr_paths rl of None \<Rightarrow> False
     | Some ps \<Rightarrow> list_all (\<lambda>p. ip_service p \<noteq> None) ps) (igs_rules sp)"

lemma repair_meta_stable:
  "fit_meta desired \<Longrightarrow>
   gequal (om_annotations (repair_meta found desired))
     (mergeManagedAnnotations (om_annotations (repair_meta found desired)) (om_annotations desired))"
  by (simp add: repair_meta_def fit_meta_def merge_stable)

lemma repair_meta_key [simp]:
  "om_namespace (repair_meta f d) = om_namespace f" "om_name (repair_meta f d) = om_name f"
  by (simp_all add: repair_meta_def)

lemma portsEqual_refl [simp]: "portsEqual ps ps"
  by (simp add: portsEqual_def list_all2_same)

lemma ingressRulesEqual_refl:
  "(case igr_paths rl of None \<Rightarrow> False | Some ps \<Rightarrow> list_all (\<lambda>p. ip_service p \<noteq> None) ps) \<Longrightarrow> ingressRulesEqual rl rl"
  by (cases "igr_paths rl") (auto simp: ingressRulesEqual_def ingressPathsEqual_def list_all2_same list_all_iff)

lemma ingressSpecsEqual_refl: "complete_ingress sp \<Longrightarrow> ingressSpecsEqual sp sp"
  unfolding complete_ingress_def
  by (auto simp: ingressSpecsEqual_def list_all2_same list_all_iff intro: ingressRulesEqual_refl)

lemma httpRouteSpecsEqual_refl [simp]: "httpRouteSpecsEqual sp sp"
  by (simp add: httpRouteSpecsEqual_def list_all2_same)

lemma peersEqual_refl [simp]: "peersEqual p p"
  by (cases p) simp_all

lemma policySpecsEqual_refl [simp]: "policySpecsEqual sp sp"
  by (simp add: policySpecsEqual_def trafficEqual_def list_all2_same)

interpretation service_object: owned_object service_drifted service_repaired sv_meta "\<lambda>x. fit_meta (sv_meta x)"
  by unfold_locales (simp_all add: at_key_def service_drifted_def service_repaired_def repair_meta_stable)

interpretation ingress_object: owned_object ingress_drifted ingress_repaired ig_meta "\<lambda>x. fit_meta (ig_meta x) \<and> complete_ingress (ig_spec x)"
  by unfold_locales (simp_all add: at_key_def ingress_drifted_def ingress_repaired_def repair_meta_stable ingressSpecsEqual_refl)

interpretation route_object: owned_object route_drifted route_repaired hr_meta "\<lambda>x. fit_meta (hr_meta x)"
  by unfold_locales (simp_all add: at_key_def route_drifted_def route_repaired_def repair_meta_stable)

interpretation policy_object: owned_object "\<lambda>f d. \<not> policySpecsEqual (np_spec f) (np_spec d)" policy_repaired np_meta
  "\<lambda>_. True"
  by unfold_locales (simp_all add: at_key_def policy_repaired_def)

text \<open>The Ingress's reconciler is the shared cycle while the Ingress is enabled.\<close>

lemma ingressForDashboard_run:
  assumes "ingressForDashboard k ing (d, w) = (Inr desired, s')"
  shows "s' = (d, w) \<and> (\<exists>m'. ku_set_owner k d ((meta (d_namespace d) (d_name d))\<lparr>om_annotations := is_annotations ing\<rparr>) = Inr m' \<and>
    ig_meta desired = m') \<and> complete_ingress (ig_spec desired)"
  using assms
  by (auto simp: ingressForDashboard_def run_simps complete_ingress_def)

lemma ingress_settles:
  assumes "reconcileIngress k (d, w) = (Inr (), s')" "enabled_ingress d = Some ing"
    and "ingressForDashboard k ing (d, w) = (Inr desired, (d, w))"
  shows "settle ingress_drifted ingress_repaired (ku_ingresses k) (d_namespace d) (d_name d) desired (d, w) = (Inr (), s')"
proof -
  have any: "ingressForDashboard k ing (d, w') = (Inr desired, (d, w'))" for w'
    using assms(3) by (simp add: ingressForDashboard_def andThen_def instance_of_def own_def)
  show ?thesis
    using assms(1) unfolding reconcileIngress_def settle_def assms(2)
    by (auto simp: run_simps any assms(2) split: get_result.splits if_splits)
qed

section \<open>Properties\<close>

text \<open>
  Annotations that other controllers wrote on an owned object survive every reconcile: the merge
  sets what the spec names, drops what an earlier merge recorded and the spec no longer names, and
  leaves every other key; it is idempotent, so it causes no endless updates; and a later merge with
  nothing desired removes exactly what was set.
\<close>

theorem annotations_merged:
  assumes "gwf desired" "comma_free desired" "key \<noteq> managedAnnotationsKey"
  shows "gget (mergeManagedAnnotations existing desired) key =
      (case gget desired key of Some v \<Rightarrow> Some v
       | None \<Rightarrow> if key \<in> recorded existing then None else gget existing key) \<and>
    gequal (mergeManagedAnnotations existing desired)
      (mergeManagedAnnotations (mergeManagedAnnotations existing desired) desired) \<and>
    gget (mergeManagedAnnotations (mergeManagedAnnotations existing desired) []) key =
      (if gget desired key \<noteq> None \<or> key \<in> recorded existing then None else gget existing key)"
  using assms merge_stable [OF assms(1,2)]
  by (auto simp: gget_merge recorded_merge keys_gget split: option.split)

theorem annotations_merged_witness:
  "gget (mergeManagedAnnotations [(''lb'', ''internal''), (managedAnnotationsKey, ''old''), (''old'', ''x'')]
     [(''dns'', ''home'')]) ''lb'' = Some ''internal''"
  using annotations_merged [of "[(''dns'', ''home'')]" "''lb''"
      "[(''lb'', ''internal''), (managedAnnotationsKey, ''old''), (''old'', ''x'')]"]
  by (simp add: gwf_def comma_free_def managedAnnotationsKey_def gget_def recorded_def gstr_def)

text \<open>
  A created object carries the desired annotations without the record; one that the spec drops
  before the first update is taken for a foreign one and stays.
\<close>

lemma first_annotations_unmanaged: "mergeManagedAnnotations [(''dns'', ''home'')] [] = [(''dns'', ''home'')]"
  by code_simp

text \<open>A disabled policy is not even looked up, so an existing one stays.\<close>

lemma disabled_policy_stays:
  "ds_network_policy (d_spec d) = Some np \<Longrightarrow> \<not> ns_enabled np \<Longrightarrow>
   reconcileNetworkPolicy sha k (d, w) = (Inr (), (d, w))"
  by (simp add: reconcileNetworkPolicy_def andThen_def instance_of_def ret_def)

lemma ingress_removed:
  assumes law: "stores ingress_drifted ig_meta stored (ku_ingresses k) (d_namespace d) (d_name d)"
    and off: "enabled_ingress d = None" and run: "reconcileIngress k (d, w) = (Inr (), (d', w'))"
  shows "stored w' = None"
proof -
  obtain r w1 where get: "kc_get (ku_ingresses k) (d_namespace d) (d_name d) w = (r, w1)" by fastforce
  with law have same: "r = NotFound \<Longrightarrow> stored w1 = None" unfolding stores_def by metis
  show ?thesis
  proof (cases r)
    case NotFound
    with run get off same show ?thesis by (auto simp: reconcileIngress_def run_simps)
  next
    case (GetError e)
    with run get show ?thesis by (auto simp: reconcileIngress_def run_simps)
  next
    case (Found x)
    with run get off have "kdelete (ku_ingresses k) (d_namespace d) (d_name d) (d, w1) = (Inr (), (d', w'))"
      by (auto simp: reconcileIngress_def run_simps)
    then obtain r' where "kc_delete (ku_ingresses k) (d_namespace d) (d_name d) w1 = (r', w')" "\<forall>e. r' \<noteq> GetError e"
      by (auto simp: kdelete_def split: prod.splits get_result.splits)
    with law show ?thesis unfolding stores_def by metis
  qed
qed

lemma ingress_defined:
  assumes run: "reconcileIngress k (d, w) = (Inr (), s')" and on: "enabled_ingress d = Some ing"
  shows "\<exists>desired. \<forall>v. ingressForDashboard k ing (d, v) = (Inr desired, (d, v))"
proof -
  obtain r w1 where get: "kc_get (ku_ingresses k) (d_namespace d) (d_name d) w = (r, w1)" by fastforce
  have "\<exists>v x t. ingressForDashboard k ing (d, v) = (Inr x, t)"
    using run on get by (cases r) (auto simp: reconcileIngress_def run_simps)
  then obtain m' where "ku_set_owner k d ((meta (d_namespace d) (d_name d))\<lparr>om_annotations := is_annotations ing\<rparr>) = Inr m'"
    by (auto simp: ingressForDashboard_def run_simps)
  then show ?thesis by (simp add: ingressForDashboard_def andThen_def instance_of_def own_def)
qed

text \<open>
  C24. Reconciling the Ingress comes to rest after two successful runs: while the spec enables it, the
  stored Ingress is the desired one in every compared field and annotation, and a further run only
  reads; when the spec disables it, none is stored.
\<close>

theorem ingress_converges:
  assumes "stores ingress_drifted ig_meta stored (ku_ingresses k) (d_namespace d) (d_name d)"
    and "\<And>m m'. ku_set_owner k d m = Inr m' \<Longrightarrow> om_annotations m' = om_annotations m \<and>
      om_namespace m' = om_namespace m \<and> om_name m' = om_name m"
    and "\<And>ing. enabled_ingress d = Some ing \<Longrightarrow> gwf (is_annotations ing) \<and> comma_free (is_annotations ing)"
    and "reconcileIngress k (d, w) = (Inr (), (d, w1))" "reconcileIngress k (d, w1) = (Inr (), (d, w2))"
  shows "case enabled_ingress d of
      None \<Rightarrow> stored w2 = None
    | Some ing \<Rightarrow> \<exists>desired x. ingressForDashboard k ing (d, w2) = (Inr desired, (d, w2)) \<and>
        stored w2 = Some x \<and> \<not> ingress_drifted x desired \<and>
        (\<forall>y w3. kc_get (ku_ingresses k) (d_namespace d) (d_name d) w2 = (Found y, w3) \<longrightarrow>
           reconcileIngress k (d, w2) = (Inr (), (d, w3)))"
proof (cases "enabled_ingress d")
  case None
  with ingress_removed [OF assms(1) None assms(5)] show ?thesis by simp
next
  case (Some ing)
  from ingress_defined [OF assms(4) Some] obtain desired
    where made: "\<And>v. ingressForDashboard k ing (d, v) = (Inr desired, (d, v))" by blast
  obtain m where "ku_set_owner k d ((meta (d_namespace d) (d_name d))\<lparr>om_annotations := is_annotations ing\<rparr>) = Inr m"
    and "ig_meta desired = m" and complete: "complete_ingress (ig_spec desired)"
    using ingressForDashboard_run [OF made] by blast
  with assms(2) assms(3) [OF Some]
  have fit: "fit_meta (ig_meta desired) \<and> complete_ingress (ig_spec desired)"
    and key: "at_key ig_meta (d_namespace d) (d_name d) desired"
    by (auto simp: fit_meta_def at_key_def meta_def)
  note two = ingress_object.settle_twice [OF assms(1) fit key
      ingress_settles [OF assms(4) Some made] ingress_settles [OF assms(5) Some made]]
  then obtain x where x: "stored w2 = Some x" "\<not> ingress_drifted x desired" by blast
  have "reconcileIngress k (d, w2) = (Inr (), (d, w3))"
    if get: "kc_get (ku_ingresses k) (d_namespace d) (d_name d) w2 = (Found y, w3)" for y w3
  proof -
    from assms(1) get x(1) have "y = x" by (auto simp: stores_def)
    with get Some made x(2) show ?thesis
      by (simp add: reconcileIngress_def andThen_def instance_of_def kget_def wrap_def ret_def)
  qed
  with Some made x show ?thesis by auto
qed

lemma mem_stores:
  assumes "\<And>f w. sel (upd f w) = f (sel w)"
  shows "stores drifted key (\<lambda>w. find (at_key key ns n) (sel w)) (list_client sel upd key) ns n"
  unfolding stores_def
proof (intro conjI allI impI, goal_cases)
  case (1 w r w')
  then show ?case using list_client_reads(1) by metis
next
  case (2 w r w' x)
  then show ?case using list_client_reads(2) by metis
next
  case (3 w r w' x)
  then show ?case using list_client_reads(2) by metis
next
  case (4 w r w')
  then show ?case using list_client_reads(3) by metis
next
  case (5 x w w')
  with list_client_writes [where sel = sel and upd = upd and key = key] assms show ?case by blast
next
  case (6 w r w')
  with list_client_deletes [where sel = sel and upd = upd and key = key] assms show ?case by blast
qed

definition ex_exposed :: dashboard where
  "ex_exposed = (ex_dashboard ''web'' ''home'')\<lparr>d_spec := zero_dashboard_spec\<lparr>ds_ingress := Some
     \<lparr>is_enabled = True, is_host = ''h'', is_class_name = None, is_annotations = [], is_tls = None\<rparr>\<rparr>\<rparr>"

definition ex_exposed_run :: "mem \<Rightarrow> (string + unit) \<times> mem cstate" where
  "ex_exposed_run w = reconcileIngress (mem_kube (ex_reader ex_exposed [] [] [] [])) (ex_exposed, w)"

lemma reconcileIngress_instance:
  assumes "reconcileIngress k (d, w) = (Inr u, (d', w'))"
  shows "d' = d"
proof -
  obtain g w1 where get: "kc_get (ku_ingresses k) (d_namespace d) (d_name d) w = (g, w1)" by fastforce
  have del: "kdelete c ns n (e, x) = (r, (e', x')) \<Longrightarrow> e' = e" for c :: "('o, 'a) kind_client" and ns n e x r e' x'
    by (auto simp: kdelete_def split: prod.splits)
  show ?thesis
    using assms get
    by (cases g) (auto simp: reconcileIngress_def run_simps ingressForDashboard_def dest: del split: option.splits if_splits)
qed

theorem ingress_converges_witness:
  "(let w2 = snd (snd (ex_exposed_run (snd (snd (ex_exposed_run (empty_mem ex_exposed))))))
    in \<exists>desired x. find (at_key ig_meta ''web'' ''home'') (mem_ingresses w2) = Some x \<and> \<not> ingress_drifted x desired \<and>
         fst (ingressForDashboard (mem_kube (ex_reader ex_exposed [] [] [] [])) (the (ds_ingress (d_spec ex_exposed))) (ex_exposed, w2)) =
           Inr desired)"
proof -
  let ?k = "mem_kube (ex_reader ex_exposed [] [] [] [])" and ?w0 = "empty_mem ex_exposed"
  let ?w1 = "snd (snd (ex_exposed_run ?w0))"
  let ?w2 = "snd (snd (ex_exposed_run ?w1))"
  have ok: "\<not> isl (fst (ex_exposed_run ?w0))" "\<not> isl (fst (ex_exposed_run ?w1))" by code_simp+
  have run: "reconcileIngress ?k (ex_exposed, w) = (Inr (), (ex_exposed, snd (snd (ex_exposed_run w))))"
    if "\<not> isl (fst (ex_exposed_run w))" for w
  proof -
    obtain r d' w' where r: "reconcileIngress ?k (ex_exposed, w) = (r, (d', w'))" by (metis prod.collapse)
    with that obtain u where u: "r = Inr u" by (cases r) (auto simp: ex_exposed_run_def)
    with r reconcileIngress_instance [of ?k ex_exposed w u d' w'] show ?thesis by (simp add: ex_exposed_run_def)
  qed
  have id: "d_namespace ex_exposed = ''web''" "d_name ex_exposed = ''home''"
    by (simp_all add: ex_exposed_def ex_dashboard_def)
  have law: "stores ingress_drifted ig_meta (\<lambda>w. find (at_key ig_meta ''web'' ''home'') (mem_ingresses w))
      (ku_ingresses ?k) (d_namespace ex_exposed) (d_name ex_exposed)"
    unfolding id by (simp add: mem_kube_def mem_stores)
  have on: "enabled_ingress ex_exposed = ds_ingress (d_spec ex_exposed)" "ds_ingress (d_spec ex_exposed) \<noteq> None"
    by (simp_all add: enabled_ingress_def ex_exposed_def)
  then obtain ing where ing: "ds_ingress (d_spec ex_exposed) = Some ing" by blast
  then have "is_annotations ing = []" by (auto simp: ex_exposed_def)
  then have fit: "gwf (is_annotations i) \<and> comma_free (is_annotations i)" if "enabled_ingress ex_exposed = Some i" for i
    using that on ing by (simp add: comma_free_def)
  have owner: "om_annotations m' = om_annotations m \<and> om_namespace m' = om_namespace m \<and> om_name m' = om_name m"
    if "ku_set_owner ?k ex_exposed m = Inr m'" for m m'
    using that by (auto simp: mem_kube_def)
  from ingress_converges [OF law owner fit run [OF ok(1)] run [OF ok(2)]]
  show ?thesis unfolding on(1) ing by (auto simp: Let_def)
qed

end
