(* ===== verification/Deployment.thy ===== *)
theory Deployment
  imports Rbac Network
begin

text \<open>
  The Deployment of a Dashboard (\<^verbatim>\<open>internal/controller/dashboard_controller.go\<close>): what the pod template
  is made of, when a stored Deployment counts as drifted from it, and how one reconcile creates or
  repairs it.  Proved: the operator's security settings survive every override that does not name
  them; the Deployment's pods carry its own selector; and one repair settles the Deployment exactly when
  no compared field of the spec is one that the API server stores differently.
\<close>

section \<open>Conditions\<close>

definition instanceFinalizer :: string where "instanceFinalizer = ''page.kubepage.dev/finalizer''"
definition typeAvailableDashboard :: string where "typeAvailableDashboard = ''Available''"
definition typeDegradedDashboard :: string where "typeDegradedDashboard = ''Degraded''"
definition reasonReconciling :: string where "reasonReconciling = ''Reconciling''"
definition reasonFinalizing :: string where "reasonFinalizing = ''Finalizing''"
definition reasonReconcileSucceeded :: string where "reasonReconcileSucceeded = ''ReconcileSucceeded''"
definition reasonRBACFailed :: string where "reasonRBACFailed = ''RBACReconcileFailed''"
definition reasonDeploymentDefinitionFailed :: string where
  "reasonDeploymentDefinitionFailed = ''DeploymentDefinitionFailed''"
definition reasonDeploymentUpdateFailed :: string where
  "reasonDeploymentUpdateFailed = ''DeploymentUpdateFailed''"
definition reasonServiceFailed :: string where "reasonServiceFailed = ''ServiceReconcileFailed''"
definition reasonIngressFailed :: string where "reasonIngressFailed = ''IngressReconcileFailed''"
definition reasonHTTPRouteFailed :: string where "reasonHTTPRouteFailed = ''HTTPRouteReconcileFailed''"
definition reasonNetworkPolicyFailed :: string where
  "reasonNetworkPolicyFailed = ''NetworkPolicyReconcileFailed''"
definition reasonBoundCountsFailed :: string where "reasonBoundCountsFailed = ''BoundCountsListFailed''"
definition reasonDeploymentNotReady :: string where "reasonDeploymentNotReady = ''DeploymentNotReady''"
definition reasonDiscoveryHTTPRouteUnavailable :: string where
  "reasonDiscoveryHTTPRouteUnavailable = ''DiscoveryHTTPRouteUnavailable''"

text \<open>\<^verbatim>\<open>meta.SetStatusCondition(&instance.Status.Conditions, ...)\<close>\<close>

definition set_condition :: "'w kube \<Rightarrow> string \<Rightarrow> cond_status \<Rightarrow> string \<Rightarrow> string \<Rightarrow> dashboard \<Rightarrow> dashboard" where
  "set_condition k t st reason message d =
     d\<lparr>d_status := (d_status d)\<lparr>dst_conditions := ku_set_condition k
         \<lparr>cond_type = t, cond_status = st, cond_reason = reason, cond_message = message,
          cond_observed_generation = d_generation d\<rparr> (dst_conditions (d_status d))\<rparr>\<rparr>"

text \<open>What \<^verbatim>\<open>Reconcile\<close> returns beside the error: nothing, \<^verbatim>\<open>Requeue\<close>, or \<^verbatim>\<open>RequeueAfter\<close> in seconds.\<close>

datatype ctrl_result = Done | Requeue | RequeueAfter int

section \<open>The pod template\<close>

definition defaultPollIntervalSeconds :: int where "defaultPollIntervalSeconds = 15"

definition dashboardArgs :: "dashboard \<Rightarrow> string list" where
  "dashboardArgs d =
     [''dashboard'', ''--namespace='' @ d_namespace d, ''--dashboard-name='' @ d_name d,
      ''--addr=:'' @ fmt_int (ds_container_port (d_spec d)),
      ''--metrics-addr=:'' @ fmt_int dashboardMetricsPort,
      ''--poll-interval='' @ fmt_int (case ds_poll_interval_seconds (d_spec d) of
         Some n \<Rightarrow> n | None \<Rightarrow> defaultPollIntervalSeconds) @ ''s'']"

text \<open>
  A struct of pointers, slices and maps is a map of the fields that are set; an override replaces
  field by field.
\<close>

definition mergeOverride :: "json gomap \<Rightarrow> json gomap option \<Rightarrow> json gomap" where
  "mergeOverride base override = (case override of None \<Rightarrow> base | Some ov \<Rightarrow> gcopy base ov)"

definition probeOrDefault :: "json option \<Rightarrow> int \<Rightarrow> probe" where
  "probeOrDefault p containerPort =
     (case p of Some j \<Rightarrow> UserProbe j | None \<Rightarrow> DefaultProbe ''/healthz'' containerPort)"

definition defaultDashboardResources :: "json gomap" where
  "defaultDashboardResources =
     [(''limits'', JObj [(''cpu'', JStr ''500m''), (''memory'', JStr ''128Mi'')]),
      (''requests'', JObj [(''cpu'', JStr ''10m''), (''memory'', JStr ''64Mi'')])]"

definition base_pod_security :: "json gomap" where
  "base_pod_security =
     [(''runAsNonRoot'', JBool True), (''seccompProfile'', JObj [(''type'', JStr ''RuntimeDefault'')])]"

definition base_container_security :: "json gomap" where
  "base_container_security =
     [(''runAsNonRoot'', JBool True), (''runAsUser'', JNum ''568''), (''allowPrivilegeEscalation'', JBool False),
      (''readOnlyRootFilesystem'', JBool True), (''capabilities'', JObj [(''drop'', JArr [JStr ''ALL''])])]"

definition dashboard_container :: "DashboardReconciler \<Rightarrow> dashboard \<Rightarrow> container" where
  "dashboard_container r d =
     (let sp = d_spec d; pod = ds_pod sp in
      \<lparr>ct_name = instanceContainerName, ct_image = re_image r, ct_pull_policy = ''IfNotPresent'',
       ct_args = dashboardArgs d,
       ct_ports = [(ds_container_port sp, instanceContainerName, TCP),
                   (dashboardMetricsPort, dashboardMetricsPortName, TCP)],
       ct_env = pp_env pod,
       ct_readiness = probeOrDefault (ds_readiness_probe sp) (ds_container_port sp),
       ct_liveness = probeOrDefault (ds_liveness_probe sp) (ds_container_port sp),
       ct_resources = mergeOverride defaultDashboardResources (Some (ds_resources sp)),
       ct_security_context = mergeOverride base_container_security (ds_container_security_context sp),
       ct_volume_mounts = pp_volume_mounts pod\<rparr>)"

definition dashboard_template :: "DashboardReconciler \<Rightarrow> dashboard \<Rightarrow> pod_template" where
  "dashboard_template r d =
     (let sp = d_spec d; pod = ds_pod sp in
      \<lparr>tp_labels = mergeStringMaps (ds_labels sp) (labelsForDashboard (re_sha256 r) (d_name d) (re_image r)),
       tp_annotations = ds_annotations sp,
       tp_spec = \<lparr>ps_host_users = pp_host_users pod, ps_service_account = d_name d,
         ps_node_selector = pp_node_selector pod, ps_tolerations = pp_tolerations pod,
         ps_affinity = pp_affinity pod, ps_topology_spread = pp_topology_spread pod,
         ps_image_pull_secrets = pp_image_pull_secrets pod, ps_volumes = pp_volumes pod,
         ps_priority_class = set_opt (pp_priority_class pod) [],
         ps_security_context = mergeOverride base_pod_security (ds_pod_security_context sp),
         ps_containers = [dashboard_container r d]\<rparr>\<rparr>)"

definition deploymentForDashboard :: "DashboardReconciler \<Rightarrow> 'w kube \<Rightarrow> dashboard \<Rightarrow> string + deployment" where
  "deploymentForDashboard r k d =
     map_sum id (\<lambda>m.
       \<lparr>dep_meta = m,
        dep_replicas = Some (case ds_replicas (d_spec d) of Some n \<Rightarrow> n | None \<Rightarrow> 1),
        dep_selector = selectorLabelsForDashboard (re_sha256 r) (d_name d),
        dep_template = dashboard_template r d, dep_ready_replicas = 0\<rparr>)
       (ku_set_owner k d (meta (d_namespace d) (d_name d)))"

section \<open>Drift\<close>

text \<open>\<^verbatim>\<open>reflect.DeepEqual\<close> on maps: a nil map and an empty one differ.\<close>

fun same_map :: "'v gomap option \<Rightarrow> 'v gomap option \<Rightarrow> bool" where
  "same_map None None \<longleftrightarrow> True"
| "same_map (Some a) (Some b) \<longleftrightarrow> gequal a b"
| "same_map _ _ \<longleftrightarrow> False"

definition container_changed :: "container \<Rightarrow> container \<Rightarrow> bool" where
  "container_changed found desired \<longleftrightarrow>
     ct_image found \<noteq> ct_image desired \<or> ct_args found \<noteq> ct_args desired \<or> ct_ports found \<noteq> ct_ports desired \<or>
     ct_env found \<noteq> ct_env desired \<or> ct_readiness found \<noteq> ct_readiness desired \<or>
     ct_liveness found \<noteq> ct_liveness desired \<or> \<not> gequal (ct_resources found) (ct_resources desired) \<or>
     \<not> gequal (ct_security_context found) (ct_security_context desired) \<or>
     ct_volume_mounts found \<noteq> ct_volume_mounts desired"

definition pod_changed :: "(json list \<Rightarrow> json list \<Rightarrow> bool) \<Rightarrow> pod_spec \<Rightarrow> pod_spec \<Rightarrow> bool" where
  "pod_changed derives found desired \<longleftrightarrow>
     ps_host_users found \<noteq> ps_host_users desired \<or>
     \<not> gequal (ps_security_context found) (ps_security_context desired) \<or>
     \<not> same_map (ps_node_selector found) (ps_node_selector desired) \<or>
     ps_tolerations found \<noteq> ps_tolerations desired \<or> ps_affinity found \<noteq> ps_affinity desired \<or>
     ps_topology_spread found \<noteq> ps_topology_spread desired \<or>
     ps_image_pull_secrets found \<noteq> ps_image_pull_secrets desired \<or>
     \<not> derives (ps_volumes desired) (ps_volumes found) \<or>
     ps_priority_class found \<noteq> ps_priority_class desired \<or>
     ps_service_account found \<noteq> ps_service_account desired"

definition deploymentTemplateChanged :: "'w kube \<Rightarrow> deployment \<Rightarrow> deployment \<Rightarrow> bool" where
  "deploymentTemplateChanged k found desired \<longleftrightarrow>
     (case ps_containers (tp_spec (dep_template found)) of
        [] \<Rightarrow> True
      | c # _ \<Rightarrow>
          container_changed c (hd (ps_containers (tp_spec (dep_template desired)))) \<or>
          \<not> gequal (tp_labels (dep_template found)) (tp_labels (dep_template desired)) \<or>
          \<not> same_map (tp_annotations (dep_template found)) (tp_annotations (dep_template desired)) \<or>
          pod_changed (ku_derives k) (tp_spec (dep_template found)) (tp_spec (dep_template desired)))"

definition deployment_drifted :: "'w kube \<Rightarrow> deployment \<Rightarrow> deployment \<Rightarrow> bool" where
  "deployment_drifted k found desired \<longleftrightarrow>
     dep_replicas found = None \<or> dep_replicas desired = None \<or> dep_replicas found \<noteq> dep_replicas desired \<or>
     deploymentTemplateChanged k found desired"

definition deployment_repaired :: "deployment \<Rightarrow> deployment \<Rightarrow> deployment" where
  "deployment_repaired found desired =
     found\<lparr>dep_replicas := dep_replicas desired, dep_template := dep_template desired\<rparr>"

section \<open>Reconciling\<close>

text \<open>
  The result is \<^verbatim>\<open>None\<close> when the Deployment was up to date and the caller goes on, or what the
  caller returns at once.
\<close>

definition fail_deployment :: "'w kube \<Rightarrow> string \<Rightarrow> string \<Rightarrow> string \<Rightarrow> (ctrl_result option, 'w cstate) action" where
  "fail_deployment k reason what e =
     andThen (set_instance (\<lambda>d. set_condition k typeAvailableDashboard CondFalse reason
       (what @ '' the custom resource ('' @ d_name d @ ''): ('' @ e @ '')'') d)) (\<lambda>_.
     andThen (updateStatus k) (\<lambda>_. fail e))"

definition reconcileDeployment :: "DashboardReconciler \<Rightarrow> 'w kube \<Rightarrow> (ctrl_result option, 'w cstate) action" where
  "reconcileDeployment r k =
     andThen instance_of (\<lambda>d.
     case deploymentForDashboard r k d of
       Inl e \<Rightarrow> fail_deployment k reasonDeploymentDefinitionFailed ''Failed to create Deployment for'' e
     | Inr desired \<Rightarrow>
         andThen (kget (ku_deployments k) (d_namespace d) (d_name d)) (\<lambda>res. case res of
             NotFound \<Rightarrow> andThen (kcreate (ku_deployments k) desired) (\<lambda>_. ret (Some (RequeueAfter 60)))
           | GetError e \<Rightarrow> fail e
           | Found found \<Rightarrow>
               if \<not> deployment_drifted k found desired then ret None
               else
                 andThen (attempt (kupdate (ku_deployments k) (deployment_repaired found desired))) (\<lambda>res. case res of
                     Inr _ \<Rightarrow> ret (Some Requeue)
                   | Inl e \<Rightarrow>
                       andThen (refetch k (d_namespace d) (d_name d)) (\<lambda>_.
                       fail_deployment k reasonDeploymentUpdateFailed ''Failed to update the Deployment for'' e))))"

section \<open>Lemmas\<close>

lemma same_map_iff: "same_map a b \<longleftrightarrow> map_option gget a = map_option gget b"
  by (cases a; cases b) (simp_all add: gequal_iff)

lemma gget_mergeOverride:
  assumes "\<forall>m. override = Some m \<longrightarrow> gwf m"
  shows "gget (mergeOverride base override) f =
    (case Option.bind override (\<lambda>m. gget m f) of Some v \<Rightarrow> Some v | None \<Rightarrow> gget base f)"
  using assms by (auto simp: mergeOverride_def gget_gcopy split: option.split)

lemma deploymentForDashboard_Inr:
  "deploymentForDashboard r k d = Inr dep \<longleftrightarrow>
   (\<exists>m. ku_set_owner k d (meta (d_namespace d) (d_name d)) = Inr m \<and>
     dep = \<lparr>dep_meta = m, dep_replicas = Some (case ds_replicas (d_spec d) of Some n \<Rightarrow> n | None \<Rightarrow> 1),
       dep_selector = selectorLabelsForDashboard (re_sha256 r) (d_name d),
       dep_template = dashboard_template r d, dep_ready_replicas = 0\<rparr>)"
  by (cases "ku_set_owner k d (meta (d_namespace d) (d_name d))") (auto simp: deploymentForDashboard_def)

lemma deployment_fields:
  assumes "deploymentForDashboard r k d = Inr dep"
  shows "dep_template dep = dashboard_template r d"
    "dep_selector dep = selectorLabelsForDashboard (re_sha256 r) (d_name d)"
    "dep_replicas dep = Some (case ds_replicas (d_spec d) of Some n \<Rightarrow> n | None \<Rightarrow> 1)"
    "ku_set_owner k d (meta (d_namespace d) (d_name d)) = Inr (dep_meta dep)"
  using assms by (auto simp: deploymentForDashboard_Inr)

text \<open>
  What the API server stores of a Deployment: every field has \<^verbatim>\<open>omitempty\<close>, so an empty list or map
  comes back as nil; and in what the user passes through it may complete or normalize the content of
  every structured field (the \<^verbatim>\<open>apiVersion\<close> of a field reference in \<open>env\<close>, the timeouts of a probe, the
  spelling of a quantity, empty lists inside a security context).
\<close>

record server_defaults =
  sdf_env :: "json list \<Rightarrow> json list"
  sdf_volume_mounts :: "json list \<Rightarrow> json list"
  sdf_probe :: "json \<Rightarrow> json"
  sdf_resources :: "json gomap \<Rightarrow> json gomap"
  sdf_container_security :: "json gomap \<Rightarrow> json gomap"
  sdf_pod_security :: "json gomap \<Rightarrow> json gomap"
  sdf_tolerations :: "json list \<Rightarrow> json list"
  sdf_affinity :: "json \<Rightarrow> json"
  sdf_topology_spread :: "json list \<Rightarrow> json list"
  sdf_volumes :: "json list \<Rightarrow> json list"

definition omit_empty :: "'a list option \<Rightarrow> 'a list option" where
  "omit_empty x = (if x = Some [] then None else x)"

definition stored_list :: "(json list \<Rightarrow> json list) \<Rightarrow> json list option \<Rightarrow> json list option" where
  "stored_list f x = omit_empty (map_option f x)"

fun default_probe :: "(json \<Rightarrow> json) \<Rightarrow> probe \<Rightarrow> probe" where
  "default_probe pd (UserProbe j) = UserProbe (pd j)"
| "default_probe pd (DefaultProbe path port) = DefaultProbe path port"

definition stored_container :: "server_defaults \<Rightarrow> container \<Rightarrow> container" where
  "stored_container sd c = c\<lparr>ct_env := stored_list (sdf_env sd) (ct_env c),
     ct_volume_mounts := stored_list (sdf_volume_mounts sd) (ct_volume_mounts c),
     ct_readiness := default_probe (sdf_probe sd) (ct_readiness c),
     ct_liveness := default_probe (sdf_probe sd) (ct_liveness c),
     ct_resources := sdf_resources sd (ct_resources c),
     ct_security_context := sdf_container_security sd (ct_security_context c)\<rparr>"

definition stored_pod :: "server_defaults \<Rightarrow> pod_spec \<Rightarrow> pod_spec" where
  "stored_pod sd p = p\<lparr>ps_node_selector := omit_empty (ps_node_selector p),
     ps_tolerations := stored_list (sdf_tolerations sd) (ps_tolerations p),
     ps_affinity := map_option (sdf_affinity sd) (ps_affinity p),
     ps_topology_spread := stored_list (sdf_topology_spread sd) (ps_topology_spread p),
     ps_image_pull_secrets := omit_empty (ps_image_pull_secrets p), ps_volumes := sdf_volumes sd (ps_volumes p),
     ps_security_context := sdf_pod_security sd (ps_security_context p),
     ps_containers := map (stored_container sd) (ps_containers p)\<rparr>"

definition stored_template :: "server_defaults \<Rightarrow> pod_template \<Rightarrow> pod_template" where
  "stored_template sd t = t\<lparr>tp_annotations := omit_empty (tp_annotations t), tp_spec := stored_pod sd (tp_spec t)\<rparr>"

definition keeps_deployments :: "'w kube \<Rightarrow> server_defaults \<Rightarrow> ('w \<Rightarrow> deployment option) \<Rightarrow> string \<Rightarrow> string \<Rightarrow> bool" where
  "keeps_deployments k sd stored ns n \<longleftrightarrow>
     (\<forall>w r w'. kc_get (ku_deployments k) ns n w = (r, w') \<longrightarrow>
        (\<forall>x. r = Found x \<longrightarrow> stored w = Some x \<and> at_key dep_meta ns n x)) \<and>
     (\<forall>x w w'. at_key dep_meta ns n x \<longrightarrow>
        kc_create (ku_deployments k) x w = (None, w') \<or> kc_update (ku_deployments k) x w = (None, w') \<longrightarrow>
        (\<exists>y. stored w' = Some y \<and> dep_replicas y = dep_replicas x \<and>
          dep_template y = stored_template sd (dep_template x))) \<and>
     (\<forall>d m m'. ku_set_owner k d m = Inr m' \<longrightarrow> om_namespace m' = om_namespace m \<and> om_name m' = om_name m) \<and>
     (\<forall>vs. ku_derives k vs (sdf_volumes sd vs))"

text \<open>
  The compared fields come back from the API server as they were sent: a list of the spec is absent,
  or it is not empty and nothing is completed in it, and nothing is completed in the rest.
\<close>

definition list_kept :: "(json list \<Rightarrow> json list) \<Rightarrow> json list option \<Rightarrow> bool" where
  "list_kept f x \<longleftrightarrow> (case x of None \<Rightarrow> True | Some vs \<Rightarrow> vs \<noteq> [] \<and> f vs = vs)"

definition comes_back :: "server_defaults \<Rightarrow> dashboard \<Rightarrow> bool" where
  "comes_back sd d \<longleftrightarrow> (let sp = d_spec d; pod = ds_pod sp;
       res = mergeOverride defaultDashboardResources (Some (ds_resources sp));
       csec = mergeOverride base_container_security (ds_container_security_context sp);
       psec = mergeOverride base_pod_security (ds_pod_security_context sp) in
     list_kept (sdf_env sd) (pp_env pod) \<and> list_kept (sdf_volume_mounts sd) (pp_volume_mounts pod) \<and>
     list_kept (sdf_tolerations sd) (pp_tolerations pod) \<and>
     list_kept (sdf_topology_spread sd) (pp_topology_spread pod) \<and>
     (\<forall>a. pp_affinity pod = Some a \<longrightarrow> sdf_affinity sd a = a) \<and>
     pp_node_selector pod \<noteq> Some [] \<and> pp_image_pull_secrets pod \<noteq> Some [] \<and> ds_annotations sp \<noteq> Some [] \<and>
     (\<forall>p. ds_readiness_probe sp = Some p \<longrightarrow> sdf_probe sd p = p) \<and>
     (\<forall>p. ds_liveness_probe sp = Some p \<longrightarrow> sdf_probe sd p = p) \<and>
     gequal (sdf_resources sd res) res \<and> gequal (sdf_container_security sd csec) csec \<and>
     gequal (sdf_pod_security sd psec) psec)"

lemma omit_empty_eq: "omit_empty x = x \<longleftrightarrow> x \<noteq> Some []"
  by (auto simp: omit_empty_def)

lemma same_map_omit: "same_map (omit_empty x) x \<longleftrightarrow> x \<noteq> Some []"
  by (auto simp: omit_empty_def same_map_iff)

lemma default_probe_eq:
  "default_probe pd (probeOrDefault p port) = probeOrDefault p port \<longleftrightarrow> (\<forall>j. p = Some j \<longrightarrow> pd j = j)"
  by (cases p) (simp_all add: probeOrDefault_def)

lemma stored_list_eq: "stored_list f x = x \<longleftrightarrow> list_kept f x"
  by (cases x) (auto simp: stored_list_def list_kept_def omit_empty_def)

lemma map_option_eq: "map_option f x = x \<longleftrightarrow> (\<forall>a. x = Some a \<longrightarrow> f a = a)"
  by (cases x) simp_all

lemma stored_container_changed:
  "container_changed (stored_container sd c) c \<longleftrightarrow>
     \<not> list_kept (sdf_env sd) (ct_env c) \<or> \<not> list_kept (sdf_volume_mounts sd) (ct_volume_mounts c) \<or>
     default_probe (sdf_probe sd) (ct_readiness c) \<noteq> ct_readiness c \<or>
     default_probe (sdf_probe sd) (ct_liveness c) \<noteq> ct_liveness c \<or>
     \<not> gequal (sdf_resources sd (ct_resources c)) (ct_resources c) \<or>
     \<not> gequal (sdf_container_security sd (ct_security_context c)) (ct_security_context c)"
  by (auto simp: container_changed_def stored_container_def stored_list_eq)

lemma stored_pod_changed:
  assumes "\<And>vs. derives vs (sdf_volumes sd vs)"
  shows "pod_changed derives (stored_pod sd p) p \<longleftrightarrow>
     ps_node_selector p = Some [] \<or> \<not> list_kept (sdf_tolerations sd) (ps_tolerations p) \<or>
     (\<exists>a. ps_affinity p = Some a \<and> sdf_affinity sd a \<noteq> a) \<or>
     \<not> list_kept (sdf_topology_spread sd) (ps_topology_spread p) \<or> ps_image_pull_secrets p = Some [] \<or>
     \<not> gequal (sdf_pod_security sd (ps_security_context p)) (ps_security_context p)"
  by (auto simp: pod_changed_def stored_pod_def omit_empty_eq same_map_omit stored_list_eq map_option_eq assms)

lemma stored_drift:
  assumes y: "dep_replicas y = dep_replicas dep" "dep_template y = stored_template sd (dep_template dep)"
    and dep: "deploymentForDashboard r k d = Inr dep" and derives: "\<And>vs. ku_derives k vs (sdf_volumes sd vs)"
  shows "deployment_drifted k y dep \<longleftrightarrow> \<not> comes_back sd d"
proof -
  let ?t = "dep_template dep" and ?c = "dashboard_container r d"
  have cs: "ps_containers (tp_spec ?t) = [?c]"
    by (simp add: deployment_fields [OF dep] dashboard_template_def Let_def)
  have cs': "ps_containers (tp_spec (dep_template y)) = [stored_container sd ?c]"
    by (simp add: y stored_template_def stored_pod_def cs)
  then have cs'': "ps_containers (stored_pod sd (tp_spec ?t)) = [stored_container sd ?c]"
    by (simp add: y stored_template_def)
  have parts: "tp_labels (dep_template y) = tp_labels ?t" "tp_spec (dep_template y) = stored_pod sd (tp_spec ?t)"
    "tp_annotations (dep_template y) = omit_empty (tp_annotations ?t)"
    by (simp_all add: y stored_template_def)
  have "dep_replicas dep \<noteq> None" using deployment_fields(3) [OF dep] by simp
  then have "deployment_drifted k y dep \<longleftrightarrow> container_changed (stored_container sd ?c) ?c \<or>
      tp_annotations ?t = Some [] \<or> pod_changed (ku_derives k) (stored_pod sd (tp_spec ?t)) (tp_spec ?t)"
    unfolding deployment_drifted_def deploymentTemplateChanged_def cs' cs list.case list.sel parts y(1)
      same_map_omit by (auto simp: cs'')
  also have "\<dots> \<longleftrightarrow> \<not> comes_back sd d"
    unfolding stored_container_changed stored_pod_changed [where derives = "ku_derives k", OF derives]
    by (simp add: comes_back_def deployment_fields [OF dep] dashboard_template_def dashboard_container_def Let_def
        default_probe_eq) blast
  finally show ?thesis .
qed

lemma attempt_Inr [run_simps]: "attempt m s = (Inr x, s') \<longleftrightarrow> m s = (x, s')"
  by (simp add: attempt_def split: prod.split)

lemma fail_deployment_not: "fail_deployment k a b e s \<noteq> (Inr z, s')"
  by (auto simp: fail_deployment_def run_simps)

lemma reconcileDeployment_at:
  assumes "deploymentForDashboard r k d = Inr dep"
    and "kc_get (ku_deployments k) (d_namespace d) (d_name d) w = (Found y, w')"
  shows "fst (reconcileDeployment r k (d, w)) = Inr None \<longleftrightarrow> \<not> deployment_drifted k y dep"
    "\<not> deployment_drifted k y dep \<Longrightarrow> reconcileDeployment r k (d, w) = (Inr None, (d, w'))"
proof -
  let ?repair = "andThen (attempt (kupdate (ku_deployments k) (deployment_repaired y dep))) (\<lambda>res. case res of
           Inr _ \<Rightarrow> ret (Some Requeue)
         | Inl e \<Rightarrow> andThen (refetch k (d_namespace d) (d_name d)) (\<lambda>_.
             fail_deployment k reasonDeploymentUpdateFailed ''Failed to update the Deployment for'' e))"
  have run: "reconcileDeployment r k (d, w) =
      (if \<not> deployment_drifted k y dep then (Inr None, (d, w')) else ?repair (d, w'))"
    by (simp add: reconcileDeployment_def andThen_def [of instance_of] andThen_def [of "kget _ _ _"]
        instance_of_def assms kget_def ret_def)
  have "?repair (d, w') \<noteq> (Inr None, s')" for s'
    by (auto simp: run_simps fail_deployment_not split: sum.splits)
  then have "fst (?repair (d, w')) \<noteq> Inr None" by (metis prod.collapse)
  then show "fst (reconcileDeployment r k (d, w)) = Inr None \<longleftrightarrow> \<not> deployment_drifted k y dep"
    "\<not> deployment_drifted k y dep \<Longrightarrow> reconcileDeployment r k (d, w) = (Inr None, (d, w'))"
    unfolding run by simp_all
qed

lemma reconcileDeployment_wrote:
  assumes law: "keeps_deployments k sd stored (d_namespace d) (d_name d)"
    and run: "reconcileDeployment r k (d, w) = (Inr (Some x), (d', w'))"
  shows "\<exists>dep y. deploymentForDashboard r k d = Inr dep \<and> stored w' = Some y \<and>
    dep_replicas y = dep_replicas dep \<and> dep_template y = stored_template sd (dep_template dep)"
proof -
  note laws = law [unfolded keeps_deployments_def]
  obtain dep where dep: "deploymentForDashboard r k d = Inr dep"
    using run
    by (cases "deploymentForDashboard r k d") (auto simp: reconcileDeployment_def run_simps fail_deployment_not)
  have key: "at_key dep_meta (d_namespace d) (d_name d) dep"
    proof -
    have "om_namespace m' = om_namespace m \<and> om_name m' = om_name m" if "ku_set_owner k d m = Inr m'" for m m'
      using laws that by blast
    from this [OF deployment_fields(4) [OF dep]] show ?thesis by (simp add: at_key_def meta_def)
  qed
  obtain g w1 where get: "kc_get (ku_deployments k) (d_namespace d) (d_name d) w = (g, w1)" by fastforce
  show ?thesis
  proof (cases g)
    case NotFound
    with run dep get have "kc_create (ku_deployments k) dep w1 = (None, w')"
      by (auto simp: reconcileDeployment_def run_simps)
    with laws key dep show ?thesis by blast
  next
    case (GetError e)
    with run dep get show ?thesis by (auto simp: reconcileDeployment_def run_simps)
  next
    case (Found y)
    with laws get have "at_key dep_meta (d_namespace d) (d_name d) y" by blast
    then have at: "at_key dep_meta (d_namespace d) (d_name d) (deployment_repaired y dep)"
      by (simp add: at_key_def deployment_repaired_def)
    obtain o' w2 where up: "kc_update (ku_deployments k) (deployment_repaired y dep) w1 = (o', w2)" by fastforce
    have "kc_update (ku_deployments k) (deployment_repaired y dep) w1 = (None, w')"
      using run dep get Found up
      by (auto simp: reconcileDeployment_def run_simps kupdate_def written_def fail_deployment_not
          split: if_splits sum.splits option.splits)
    with laws at have "\<exists>z. stored w' = Some z \<and> dep_replicas z = dep_replicas (deployment_repaired y dep) \<and>
        dep_template z = stored_template sd (dep_template (deployment_repaired y dep))" by blast
    with dep show ?thesis by (auto simp: deployment_repaired_def)
  qed
qed

lemma deployment_at_rest:
  assumes "keeps_deployments k sd stored (d_namespace d) (d_name d)"
    and "reconcileDeployment r k (d, w) = (Inr (Some x), (d', w'))"
    and "kc_get (ku_deployments k) (d_namespace d) (d_name d) w' = (Found y, w2)"
  shows "(fst (reconcileDeployment r k (d, w')) = Inr None \<longleftrightarrow> comes_back sd d) \<and>
    (comes_back sd d \<longrightarrow> reconcileDeployment r k (d, w') = (Inr None, (d, w2)))"
proof -
  from reconcileDeployment_wrote [OF assms(1,2)] obtain dep y'
    where dep: "deploymentForDashboard r k d = Inr dep" and y': "stored w' = Some y'"
      "dep_replicas y' = dep_replicas dep" "dep_template y' = stored_template sd (dep_template dep)" by blast
  have derives: "ku_derives k vs (sdf_volumes sd vs)" for vs
    using assms(1) by (simp add: keeps_deployments_def)
  have "y = y'" using assms(1,3) y'(1) by (auto simp: keeps_deployments_def)
  with stored_drift [OF y'(2,3) dep derives] have "deployment_drifted k y dep \<longleftrightarrow> \<not> comes_back sd d" by simp
  with reconcileDeployment_at [OF dep assms(3)] show ?thesis by simp
qed

section \<open>Properties\<close>

text \<open>
  C17. The operator's defaults survive a partial override, field by field: a security context, pod security
  context or resource field of the pod is the user's exactly when the spec names it, and the hardened
  default otherwise; and the Deployment selects the pods it makes.
\<close>

theorem security_defaults_survive:
  assumes "deploymentForDashboard r k d = Inr dep" "c \<in> set (ps_containers (tp_spec (dep_template dep)))"
    and "\<forall>m. ds_container_security_context (d_spec d) = Some m \<longrightarrow> gwf m"
    and "\<forall>m. ds_pod_security_context (d_spec d) = Some m \<longrightarrow> gwf m"
    and "gwf (ds_resources (d_spec d))" "gwf (ds_labels (d_spec d))"
  shows "gget (ct_security_context c) f =
      (case Option.bind (ds_container_security_context (d_spec d)) (\<lambda>m. gget m f) of
         Some v \<Rightarrow> Some v | None \<Rightarrow> gget base_container_security f) \<and>
    gget (ps_security_context (tp_spec (dep_template dep))) f =
      (case Option.bind (ds_pod_security_context (d_spec d)) (\<lambda>m. gget m f) of
         Some v \<Rightarrow> Some v | None \<Rightarrow> gget base_pod_security f) \<and>
    gget (ct_resources c) f =
      (case gget (ds_resources (d_spec d)) f of Some v \<Rightarrow> Some v | None \<Rightarrow> gget defaultDashboardResources f) \<and>
    selects (dep_selector dep) (tp_labels (dep_template dep))"
  using assms(2,5) gget_mergeOverride [OF assms(3)] gget_mergeOverride [OF assms(4)]
    gget_mergeOverride [of "Some (ds_resources (d_spec d))"] selects_pod [OF assms(6)]
  by (simp add: deployment_fields [OF assms(1)] dashboard_template_def dashboard_container_def Let_def)

definition ex_reconciler :: DashboardReconciler where
  "ex_reconciler = \<lparr>re_image = ''repo:1'', re_gateway_enabled = False, re_sha256 = (\<lambda>_. replicate 32 (CHR 0x61))\<rparr>"

definition ex_cluster :: "dashboard \<Rightarrow> mem kube" where
  "ex_cluster d = mem_kube (ex_reader d [] [] [] [])"

definition ex_home :: dashboard where
  "ex_home = (ex_dashboard ''web'' ''home'')\<lparr>d_spec := zero_dashboard_spec\<lparr>ds_container_port := 8080,
     ds_container_security_context := Some [(''runAsUser'', JNum ''0'')]\<rparr>\<rparr>"

theorem security_defaults_survive_witness:
  "(let dep = projr (deploymentForDashboard ex_reconciler (ex_cluster ex_home) ex_home);
        c = hd (ps_containers (tp_spec (dep_template dep)))
    in gget (ct_security_context c) ''allowPrivilegeEscalation'' = Some (JBool False) \<and>
       gget (ct_security_context c) ''runAsUser'' = Some (JNum ''0''))"
proof -
  let ?dep = "projr (deploymentForDashboard ex_reconciler (ex_cluster ex_home) ex_home)"
  let ?c = "hd (ps_containers (tp_spec (dep_template ?dep)))"
  have dep: "deploymentForDashboard ex_reconciler (ex_cluster ex_home) ex_home = Inr ?dep"
    by (simp add: deploymentForDashboard_def ex_cluster_def mem_kube_def)
  have c: "?c \<in> set (ps_containers (tp_spec (dep_template ?dep)))"
    by (simp add: deployment_fields [OF dep] dashboard_template_def Let_def)
  have spec: "ds_container_security_context (d_spec ex_home) = Some [(''runAsUser'', JNum ''0'')]"
    "ds_pod_security_context (d_spec ex_home) = None" "ds_resources (d_spec ex_home) = []"
    "ds_labels (d_spec ex_home) = []"
    by (simp_all add: ex_home_def zero_dashboard_spec_def)
  note * = security_defaults_survive [OF dep c, unfolded spec]
  have "gget (ct_security_context ?c) f =
      (case Option.bind (Some [(''runAsUser'', JNum ''0'')]) (\<lambda>m. gget m f) of
         Some v \<Rightarrow> Some v | None \<Rightarrow> gget base_container_security f)" for f
    using * [of f] by (simp add: gwf_def)
  then show ?thesis
    by (simp add: Let_def gget_def base_container_security_def)
qed

text \<open>
  C15. A created or repaired Deployment comes to rest exactly when the API server gives back every compared
  field as it was sent: no list or map of the spec that is empty but present, and nothing that the server
  completes or normalizes in the environment, the mounts, a probe, a quantity, a security context or the
  scheduling constraints.  Otherwise the next reconcile repairs it again.
\<close>

theorem deployment_settles:
  assumes "keeps_deployments k sd stored (d_namespace d) (d_name d)"
    and "reconcileDeployment r k (d, w) = (Inr (Some x), (d', w'))"
    and "kc_get (ku_deployments k) (d_namespace d) (d_name d) w' = (Found y, w2)"
  shows "(fst (reconcileDeployment r k (d, w')) = Inr None \<longleftrightarrow> comes_back sd d) \<and>
    (comes_back sd d \<longrightarrow> reconcileDeployment r k (d, w') = (Inr None, (d, w2)))"
  using deployment_at_rest [OF assms] .

text \<open>A server that stores Deployments as the API server does, with nothing of its own to complete.\<close>

definition ex_defaults :: server_defaults where
  "ex_defaults = \<lparr>sdf_env = id, sdf_volume_mounts = id, sdf_probe = id, sdf_resources = id,
     sdf_container_security = id, sdf_pod_security = id, sdf_tolerations = id, sdf_affinity = id,
     sdf_topology_spread = id, sdf_volumes = id\<rparr>"

definition ex_stored :: "deployment \<Rightarrow> deployment" where
  "ex_stored x = x\<lparr>dep_template := stored_template ex_defaults (dep_template x)\<rparr>"

definition ex_deployments :: "(deployment, mem) kind_client" where
  "ex_deployments = (let c = list_client mem_deployments mem_deployments_update dep_meta in
     c\<lparr>kc_create := \<lambda>x. kc_create c (ex_stored x), kc_update := \<lambda>x. kc_update c (ex_stored x)\<rparr>)"

lemma ex_keeps_deployments:
  "keeps_deployments ((mem_kube rd)\<lparr>ku_deployments := ex_deployments\<rparr>) ex_defaults
     (\<lambda>w. find (at_key dep_meta ns n) (mem_deployments w)) ns n"
proof -
  let ?c = "list_client mem_deployments mem_deployments_update dep_meta"
  have upd: "mem_deployments (mem_deployments_update f w) = f (mem_deployments w)" for f w by simp
  have clients: "kc_get ex_deployments = kc_get ?c" "kc_create ex_deployments x = kc_create ?c (ex_stored x)"
    "kc_update ex_deployments x = kc_update ?c (ex_stored x)" for x
    by (simp_all add: ex_deployments_def Let_def)
  have key: "at_key dep_meta ns n (ex_stored x) \<longleftrightarrow> at_key dep_meta ns n x" for x
    by (simp add: at_key_def ex_stored_def)
  have fields: "dep_replicas (ex_stored x) = dep_replicas x"
    "dep_template (ex_stored x) = stored_template ex_defaults (dep_template x)" for x
    by (simp_all add: ex_stored_def)
  show ?thesis
    unfolding keeps_deployments_def
  proof (intro conjI allI impI, goal_cases)
    case (1 w r w' x)
    then show ?case using list_client_reads(2) [of mem_deployments mem_deployments_update dep_meta] by (simp add: clients)
  next
    case (2 w r w' x)
    then show ?case using list_client_reads(2) [of mem_deployments mem_deployments_update dep_meta] by (simp add: clients)
  next
    case (3 x w w')
    then have "kc_create ?c (ex_stored x) w = (None, w') \<or> kc_update ?c (ex_stored x) w = (None, w')"
      by (simp add: clients)
    with list_client_writes [OF _ upd this] 3 key fields show ?case by blast
  qed (auto simp: mem_kube_def ex_defaults_def)
qed

definition ex_kube :: "dashboard \<Rightarrow> mem kube" where
  "ex_kube d = (ex_cluster d)\<lparr>ku_deployments := ex_deployments\<rparr>"

theorem deployment_settles_witness:
  "(let w = snd (snd (reconcileDeployment ex_reconciler (ex_kube ex_home) (ex_home, empty_mem ex_home)))
    in reconcileDeployment ex_reconciler (ex_kube ex_home) (ex_home, w) = (Inr None, (ex_home, w)))"
proof -
  let ?k = "ex_kube ex_home" and ?r = ex_reconciler
  let ?run = "reconcileDeployment ?r ?k (ex_home, empty_mem ex_home)"
  obtain dep where dep: "deploymentForDashboard ?r ?k ex_home = Inr dep"
    by (simp add: deploymentForDashboard_def ex_kube_def ex_cluster_def mem_kube_def)
  let ?w = "(empty_mem ex_home)\<lparr>mem_deployments := [ex_stored dep]\<rparr>"
  have at: "at_key dep_meta (d_namespace ex_home) (d_name ex_home) dep"
    using deployment_fields(4) [OF dep, symmetric]
    by (auto simp: ex_kube_def ex_cluster_def mem_kube_def at_key_def meta_def)
  have run: "?run = (Inr (Some (RequeueAfter 60)), (ex_home, ?w))"
    unfolding reconcileDeployment_def andThen_def [of instance_of] instance_of_def prod.case sum.case fst_conv dep
    by (simp add: andThen_def kget_def kcreate_def written_def ret_def ex_kube_def ex_deployments_def
        list_client_def empty_mem_def Let_def)
  have get: "kc_get (ku_deployments ?k) (d_namespace ex_home) (d_name ex_home) ?w = (Found (ex_stored dep), ?w)"
    using at by (simp add: ex_kube_def ex_deployments_def list_client_def Let_def at_key_def ex_stored_def)
  have "comes_back ex_defaults ex_home"
    by (simp add: comes_back_def ex_home_def zero_dashboard_spec_def zero_pod_passthrough_def ex_defaults_def Let_def list_kept_def)
  moreover have "keeps_deployments ?k ex_defaults
      (\<lambda>w. find (at_key dep_meta (d_namespace ex_home) (d_name ex_home)) (mem_deployments w))
      (d_namespace ex_home) (d_name ex_home)"
    unfolding ex_kube_def ex_cluster_def by (rule ex_keeps_deployments)
  ultimately show ?thesis using deployment_settles [OF _ run get] by (simp add: run Let_def)
qed

text \<open>A list that is present but empty is enough: every reconcile repairs the Deployment again.\<close>

lemma empty_tolerations_never_settle:
  assumes "keeps_deployments k sd stored (d_namespace d) (d_name d)"
    and "reconcileDeployment r k (d, w) = (Inr (Some x), (d', w'))"
    and "kc_get (ku_deployments k) (d_namespace d) (d_name d) w' = (Found y, w2)"
    and "pp_tolerations (ds_pod (d_spec d)) = Some []"
  shows "fst (reconcileDeployment r k (d, w')) \<noteq> Inr None"
  using deployment_at_rest [OF assms(1-3)] assms(4) by (simp add: comes_back_def Let_def list_kept_def)

text \<open>
  \<^verbatim>\<open>DeepDerivative\<close> takes an empty list of desired volumes for one that is not specified: the volumes
  of a running Deployment stay when the spec no longer has any.
\<close>

lemma removed_volumes_unnoticed:
  assumes "deploymentForDashboard r k d = Inr dep" "ku_derives k [] vs" "pp_volumes (ds_pod (d_spec d)) = []"
    and found: "found = dep\<lparr>dep_template := (dep_template dep)\<lparr>tp_spec :=
      (tp_spec (dep_template dep))\<lparr>ps_volumes := vs\<rparr>\<rparr>\<rparr>"
  shows "\<not> deployment_drifted k found dep"
  using assms(2,3)
  by (simp add: found deployment_fields [OF assms(1)] deployment_drifted_def deploymentTemplateChanged_def
      dashboard_template_def Let_def container_changed_def pod_changed_def same_map_iff)

end
