(* ===== verification/Grants.thy ===== *)
theory Grants
  imports Rbac
begin

text \<open>
  No standing grant is lost track of.  The bindings in other namespaces and the cluster-scoped
  objects have no owner: what removes them is the bookkeeping in the Dashboard's status and the
  finalizer (\<^verbatim>\<open>reconcileDiscoveryRBAC\<close>, \<^verbatim>\<open>reconcileMonitorRBAC\<close>, \<^verbatim>\<open>reconcileClusterMetricsRBAC\<close> of
  \<^verbatim>\<open>internal/controller/dashboard_rbac.go\<close>).  The API server is known by what its documentation
  promises (\<^verbatim>\<open>api_laws\<close>): a call touches the object it names, a failed call may or may not have had its
  effect.  The two reconcilers of foreign namespaces share the contract \<^verbatim>\<open>grant_scope\<close>.
\<close>

section \<open>What the API server promises\<close>

text \<open>
  A view of the world: the standing grants, and the status and the finalizer of the stored Dashboard.
\<close>

datatype grant = Binding string string | Cluster_Role string | Cluster_Binding string

record 'w view =
  vw_grants :: "'w \<Rightarrow> grant set"
  vw_status :: "'w \<Rightarrow> dashboard_status"
  vw_held :: "'w \<Rightarrow> bool"

definition steps :: "'w view \<Rightarrow> grant set \<Rightarrow> 'w \<Rightarrow> 'w \<Rightarrow> bool" where
  "steps v F w w' \<longleftrightarrow> vw_grants v w' \<subseteq> vw_grants v w \<union> F \<and> vw_status v w' = vw_status v w \<and>
     vw_held v w' = vw_held v w"

text \<open>\<^verbatim>\<open>Create\<close> may add what \<^verbatim>\<open>F\<close> says, successful or not; nothing else adds a grant.\<close>

definition client_steps :: "'w view \<Rightarrow> ('o \<Rightarrow> grant set) \<Rightarrow> ('o, 'w) kind_client \<Rightarrow> bool" where
  "client_steps v F c \<longleftrightarrow>
     (\<forall>w ns n. steps v {} w (snd (kc_get c ns n w))) \<and>
     (\<forall>w x. steps v (F x) w (snd (kc_create c x w))) \<and>
     (\<forall>w x. steps v {} w (snd (kc_update c x w))) \<and>
     (\<forall>w ns n. steps v {} w (snd (kc_delete c ns n w)))"

text \<open>A deletion that succeeds, or does not find the object, leaves none.\<close>

definition client_deletes :: "'w view \<Rightarrow> (string \<Rightarrow> string \<Rightarrow> grant) \<Rightarrow> ('o, 'w) kind_client \<Rightarrow> bool" where
  "client_deletes v g c \<longleftrightarrow>
     (\<forall>w ns n. (\<forall>e. fst (kc_delete c ns n w) \<noteq> GetError e) \<longrightarrow> g ns n \<notin> vw_grants v (snd (kc_delete c ns n w)))"

definition binding_grant :: "role_binding \<Rightarrow> grant set" where
  "binding_grant b = {Binding (om_namespace (rb_meta b)) (om_name (rb_meta b))}"

definition cluster_role_grant :: "role \<Rightarrow> grant set" where
  "cluster_role_grant x = {Cluster_Role (om_name (ro_meta x))}"

definition cluster_binding_grant :: "role_binding \<Rightarrow> grant set" where
  "cluster_binding_grant b = {Cluster_Binding (om_name (rb_meta b))}"

definition rbac_laws :: "'w kube \<Rightarrow> 'w view \<Rightarrow> bool" where
  "rbac_laws k v \<longleftrightarrow>
     client_steps v (\<lambda>_. {}) (ku_service_accounts k) \<and> client_steps v (\<lambda>_. {}) (ku_roles k) \<and>
     client_steps v binding_grant (ku_role_bindings k) \<and> client_deletes v Binding (ku_role_bindings k) \<and>
     client_steps v cluster_role_grant (ku_cluster_roles k) \<and>
     client_deletes v (\<lambda>_. Cluster_Role) (ku_cluster_roles k) \<and>
     client_steps v cluster_binding_grant (ku_cluster_role_bindings k) \<and>
     client_deletes v (\<lambda>_. Cluster_Binding) (ku_cluster_role_bindings k) \<and>
     (\<forall>d m m'. ku_set_owner k d m = Inr m' \<longrightarrow> om_namespace m' = om_namespace m \<and> om_name m' = om_name m)"

text \<open>
  Updating the status stores it, or fails, perhaps after storing it; it changes nothing else.
\<close>

definition status_laws :: "'w kube \<Rightarrow> 'w view \<Rightarrow> bool" where
  "status_laws k v \<longleftrightarrow> (\<forall>d w r w'. ku_update_status k d w = (r, w') \<longrightarrow>
     vw_grants v w' \<subseteq> vw_grants v w \<and> vw_held v w' = vw_held v w \<and>
     (vw_status v w' = d_status d \<or> r \<noteq> None \<and> vw_status v w' = vw_status v w))"

lemma steps_refl [simp]: "steps v F w w"
  by (simp add: steps_def)

lemma steps_trans: "steps v F w w' \<Longrightarrow> steps v F w' w'' \<Longrightarrow> steps v F w w''"
  by (auto simp: steps_def)

lemma steps_mono: "steps v F w w' \<Longrightarrow> F \<subseteq> G \<Longrightarrow> steps v G w w'"
  by (auto simp: steps_def)

section \<open>Footprints\<close>

text \<open>
  \<^verbatim>\<open>within v d F m\<close>: started with the Dashboard \<^verbatim>\<open>d\<close> in memory, the operation leaves it alone, and of
  grants it adds at most those in \<^verbatim>\<open>F\<close>.
\<close>

definition within :: "'w view \<Rightarrow> dashboard \<Rightarrow> grant set \<Rightarrow> ('a, 'w cstate) action \<Rightarrow> bool" where
  "within v d F m \<longleftrightarrow> (\<forall>w. fst (snd (m (d, w))) = d \<and> steps v F w (snd (snd (m (d, w)))))"

named_theorems within_intros

lemma withinI:
  assumes "\<And>w r d' w'. m (d, w) = (r, (d', w')) \<Longrightarrow> d' = d \<and> steps v F w w'"
  shows "within v d F m"
  unfolding within_def
proof
  fix w
  have "m (d, w) = (fst (m (d, w)), (fst (snd (m (d, w))), snd (snd (m (d, w)))))" by simp
  from assms [OF this] show "fst (snd (m (d, w))) = d \<and> steps v F w (snd (snd (m (d, w))))" .
qed

lemma withinD:
  assumes "within v d F m" "m (d, w) = (r, (d', w'))"
  shows "d' = d \<and> steps v F w w'"
proof -
  have "fst (snd (m (d, w))) = d \<and> steps v F w (snd (snd (m (d, w))))"
    using assms(1) unfolding within_def by blast
  with assms(2) show ?thesis by simp
qed

lemma within_simple [within_intros]:
  "within v d F (ret x)" "within v d F (fail e)" "within v d F (from_sum r)"
  "within v d F (klist k g)" "within v d F instance_of" "within v d F (own k mk m)"
  by (simp_all add: within_def action_defs klist_def instance_of_def own_def)

lemma within_andThen [within_intros]:
  assumes "within v d F m" "\<And>x. within v d F (f x)"
  shows "within v d F (andThen m f)"
proof (rule withinI)
  fix w r d' w' assume "andThen m f (d, w) = (r, (d', w'))"
  then consider "\<exists>e. m (d, w) = (Inl e, (d', w'))"
    | x d1 w1 where "m (d, w) = (Inr x, (d1, w1))" "f x (d1, w1) = (r, (d', w'))"
    by (auto simp: andThen_def split: prod.splits sum.splits)
  then show "d' = d \<and> steps v F w w'"
  proof cases
    case 1
    then show ?thesis using withinD [OF assms(1)] by blast
  next
    case 2
    then show ?thesis using withinD [OF assms(1)] withinD [OF assms(2)] steps_trans by metis
  qed
qed

lemma within_instance: "within v d F (f d) \<Longrightarrow> within v d F (andThen instance_of f)"
  by (simp add: within_def andThen_def instance_of_def)

lemma within_own:
  assumes "\<And>m'. ku_set_owner k d m = Inr m' \<Longrightarrow> within v d F (f (mk m'))"
  shows "within v d F (andThen (own k mk m) f)"
proof (cases "ku_set_owner k d m")
  case (Inr m')
  with assms [OF this] show ?thesis by (simp add: within_def andThen_def own_def)
qed (simp add: within_def andThen_def own_def)

lemma within_wrap [within_intros]: "within v d F m \<Longrightarrow> within v d F (wrap msg m)"
  by (rule withinI) (auto simp: wrap_def split: prod.splits sum.splits dest: withinD)

lemma within_attempt [within_intros]: "within v d F m \<Longrightarrow> within v d F (attempt m)"
  by (rule withinI) (auto simp: attempt_def split: prod.splits dest: withinD)

lemma within_each [within_intros]: "(\<And>x. within v d F (f x)) \<Longrightarrow> within v d F (each f xs)"
  by (induction xs) (simp_all add: within_intros)

lemma within_if [within_intros]: "within v d F m \<Longrightarrow> within v d F m' \<Longrightarrow> within v d F (if b then m else m')"
  by simp

lemma within_get_result [within_intros]:
  "(\<And>x. within v d F (f x)) \<Longrightarrow> within v d F m \<Longrightarrow> (\<And>e. within v d F (g e)) \<Longrightarrow>
   within v d F (case r of Found x \<Rightarrow> f x | NotFound \<Rightarrow> m | GetError e \<Rightarrow> g e)"
  by (cases r) simp_all

lemma client_stepsD:
  assumes "client_steps v G c"
  shows "steps v F w (snd (kc_get c ns n w))" "G x \<subseteq> F \<Longrightarrow> steps v F w (snd (kc_create c x w))"
    "steps v F w (snd (kc_update c x w))" "steps v F w (snd (kc_delete c ns n w))"
proof -
  note laws = assms [unfolded client_steps_def]
  show "steps v F w (snd (kc_get c ns n w))" by (rule steps_mono [OF _ empty_subsetI]) (use laws in blast)
  show "steps v F w (snd (kc_update c x w))" by (rule steps_mono [OF _ empty_subsetI]) (use laws in blast)
  show "steps v F w (snd (kc_delete c ns n w))" by (rule steps_mono [OF _ empty_subsetI]) (use laws in blast)
  show "G x \<subseteq> F \<Longrightarrow> steps v F w (snd (kc_create c x w))" by (rule steps_mono) (use laws in blast)+
qed

lemma within_calls:
  assumes "client_steps v G c"
  shows "within v d F (kget c ns n)" "within v d F (kupdate c x)" "within v d F (kdelete c ns n)"
    "G x \<subseteq> F \<Longrightarrow> within v d F (kcreate c x)"
  by (simp_all add: within_def kget_def kupdate_def kdelete_def kcreate_def written_def
      client_stepsD [OF assms] case_prod_unfold)

section \<open>Footprints of the reconcile steps\<close>

lemma rbac_lawsD:
  assumes "rbac_laws k v"
  shows "client_steps v (\<lambda>_. {}) (ku_service_accounts k)" "client_steps v (\<lambda>_. {}) (ku_roles k)"
    "client_steps v binding_grant (ku_role_bindings k)" "client_deletes v Binding (ku_role_bindings k)"
    "client_steps v cluster_role_grant (ku_cluster_roles k)"
    "client_deletes v (\<lambda>_. Cluster_Role) (ku_cluster_roles k)"
    "client_steps v cluster_binding_grant (ku_cluster_role_bindings k)"
    "client_deletes v (\<lambda>_. Cluster_Binding) (ku_cluster_role_bindings k)"
    "ku_set_owner k d m = Inr m' \<Longrightarrow> om_namespace m' = om_namespace m \<and> om_name m' = om_name m"
  using assms unfolding rbac_laws_def by blast+

lemma within_ensureExists:
  assumes "client_steps v G c" "G x \<subseteq> F"
  shows "within v d F (ensureExists c ns n x)"
  unfolding ensureExists_def by (intro within_intros within_calls [OF assms(1)] assms(2))

lemma within_reconcileRules:
  assumes "client_steps v G c" "G x \<subseteq> F"
  shows "within v d F (reconcileRules c x)"
  unfolding reconcileRules_def by (intro within_intros within_calls [OF assms(1)] assms(2))

text \<open>The objects of the own namespace: one binding, which the Dashboard owns.\<close>

lemma within_reconcileDashboardRBAC:
  assumes laws: "rbac_laws k v"
  shows "within v d {Binding (d_namespace d) (d_name d)} (reconcileDashboardRBAC r k)"
proof -
  let ?F = "{Binding (d_namespace d) (d_name d)}"
  have sa: "within v d ?F (reconcileServiceAccount k)"
    unfolding reconcileServiceAccount_def
    by (intro within_instance within_own within_ensureExists [OF rbac_lawsD(1) [OF laws]]) simp
  have read: "within v d ?F (roleSecretNames k)"
  proof -
    have filter: "within v d ?F (\<lambda>s. (filterLabeledSecrets k ns xs (snd s), s))" for ns xs
      by (simp add: within_def)
    have "within v d ?F (referencedSecretNames k)"
      unfolding referencedSecretNames_def Let_def by (intro within_intros filter)
    then show ?thesis
      unfolding roleSecretNames_def by (intro within_intros)
  qed
  have ro: "within v d ?F (reconcileRole r k)"
    unfolding reconcileRole_def
    by (intro within_instance within_andThen within_own read within_reconcileRules [OF rbac_lawsD(2) [OF laws]]) simp
  have rb: "within v d ?F (reconcileRoleBinding k)"
    unfolding reconcileRoleBinding_def
    by (intro within_instance within_own within_ensureExists [OF rbac_lawsD(3) [OF laws]])
      (auto simp: binding_grant_def role_binding_to_def dest: rbac_lawsD(9) [OF laws])
  show ?thesis
    unfolding reconcileDashboardRBAC_def by (intro within_andThen within_wrap sa ro rb)
qed

lemma within_reconcileClusterMetricsRBAC:
  assumes laws: "rbac_laws k v" and n_def: "n = clusterRBACName (re_sha256 r) d"
  shows "within v d {Cluster_Role n, Cluster_Binding n} (reconcileClusterMetricsRBAC r k)"
proof -
  let ?F = "{Cluster_Role n, Cluster_Binding n}"
  have ask: "within v d ?F (instanceHasKubeMetricsWidget k)"
    unfolding instanceHasKubeMetricsWidget_def by (intro within_intros)
  have del: "within v d ?F (deleteClusterMetricsRBAC r k)"
    unfolding deleteClusterMetricsRBAC_def Let_def
    by (intro within_intros within_calls [OF rbac_lawsD(5) [OF laws]] within_calls [OF rbac_lawsD(7) [OF laws]])
  have cr: "within v d ?F (reconcileClusterRole r k)"
    unfolding reconcileClusterRole_def
    by (intro within_instance within_reconcileRules [OF rbac_lawsD(5) [OF laws]])
      (simp add: cluster_role_grant_def n_def)
  have crb: "within v d ?F (reconcileClusterRoleBinding r k)"
    unfolding reconcileClusterRoleBinding_def Let_def
    by (intro within_instance within_ensureExists [OF rbac_lawsD(7) [OF laws]])
      (simp add: cluster_binding_grant_def role_binding_to_def n_def)
  show ?thesis
    unfolding reconcileClusterMetricsRBAC_def by (intro within_intros ask del cr crb)
qed

section \<open>Bookkeeping\<close>

text \<open>
  Every binding of the name in a foreign namespace is named by the stored status, and by the one in
  memory.
\<close>

definition tracked :: "'w view \<Rightarrow> string \<Rightarrow> (dashboard_status \<Rightarrow> string list) \<Rightarrow> 'w cstate \<Rightarrow> bool" where
  "tracked v n f s \<longleftrightarrow> (\<forall>ns. Binding ns n \<in> vw_grants v (snd s) \<longrightarrow> ns = d_namespace (fst s) \<or>
     ns \<in> set (f (vw_status v (snd s))) \<and> ns \<in> set (f (d_status (fst s))))"

definition upto_status :: "dashboard \<Rightarrow> 'w cstate \<Rightarrow> bool" where
  "upto_status d s \<longleftrightarrow> (\<exists>st. fst s = d\<lparr>d_status := st\<rparr>)"

definition memory :: "'w view \<Rightarrow> string \<Rightarrow> (dashboard_status \<Rightarrow> string list) \<Rightarrow> dashboard \<Rightarrow> string list \<Rightarrow>
    'w cstate \<Rightarrow> bool" where
  "memory v n f d xs s \<longleftrightarrow> upto_status d s \<and> tracked v n f s \<and> f (d_status (fst s)) = xs"

lemma within_keeps:
  assumes "\<And>d w. I (d, w) \<Longrightarrow> within v d (F d) m" "\<And>d w w'. I (d, w) \<Longrightarrow> steps v (F d) w w' \<Longrightarrow> I (d, w')"
  shows "keeps I m"
proof -
  have "I s'" if "I s" "m s = (r, s')" for s r s'
  proof -
    obtain d w d' w' where s: "s = (d, w)" "s' = (d', w')" by fastforce
    with that withinD [OF assms(1)] have "d' = d" "steps v (F d) w w'" by blast+
    with assms(2) that s show ?thesis by blast
  qed
  then show ?thesis by (intro tripleI)
qed

lemma tracked_step:
  "tracked v n f (d, w) \<Longrightarrow> steps v F w w' \<Longrightarrow>
   (\<And>ns. Binding ns n \<in> F \<Longrightarrow> ns = d_namespace d \<or> ns \<in> set (f (vw_status v w)) \<and> ns \<in> set (f (d_status d))) \<Longrightarrow>
   tracked v n f (d, w')"
  unfolding tracked_def steps_def by auto

lemma upto_status_step: "upto_status d (d', w) \<Longrightarrow> upto_status d (d', w')"
  by (simp add: upto_status_def)

lemma triple_set_status:
  assumes "\<And>d w. P (d, w) \<Longrightarrow> Q () (d\<lparr>d_status := f (d_status d)\<rparr>, w)"
  shows "triple P (set_status f) Q E"
  by (rule tripleI) (use assms in \<open>auto simp: set_status_def set_instance_def\<close>)

lemma triple_updateStatus:
  assumes "status_laws k v"
    and "\<And>d w w'. P (d, w) \<Longrightarrow> vw_grants v w' \<subseteq> vw_grants v w \<Longrightarrow> vw_held v w' = vw_held v w \<Longrightarrow>
      vw_status v w' = d_status d \<Longrightarrow> Q () (d, w') \<and> E (d, w')"
    and "\<And>d w w'. P (d, w) \<Longrightarrow> vw_grants v w' \<subseteq> vw_grants v w \<Longrightarrow> vw_held v w' = vw_held v w \<Longrightarrow>
      vw_status v w' = vw_status v w \<Longrightarrow> E (d, w')"
  shows "triple P (updateStatus k) Q E"
proof (rule tripleI)
  fix s x s' assume P: "P s" and run: "updateStatus k s = (Inr x, s')"
  obtain d w where s: "s = (d, w)" by fastforce
  obtain o' w' where u: "ku_update_status k d w = (o', w')" by fastforce
  with run s have "o' = None" "s' = (d, w')"
    by (auto simp: updateStatus_def written_def split: option.splits)
  moreover from assms(1) u have "vw_grants v w' \<subseteq> vw_grants v w" "vw_held v w' = vw_held v w"
    "vw_status v w' = d_status d \<or> o' \<noteq> None \<and> vw_status v w' = vw_status v w"
    by (auto simp: status_laws_def)
  ultimately show "Q x s'" using assms(2) P s by simp
next
  fix s e s' assume P: "P s" and run: "updateStatus k s = (Inl e, s')"
  obtain d w where s: "s = (d, w)" by fastforce
  obtain o' w' where u: "ku_update_status k d w = (o', w')" by fastforce
  with run s have "s' = (d, w')"
    by (auto simp: updateStatus_def written_def split: option.splits)
  moreover from assms(1) u have "vw_grants v w' \<subseteq> vw_grants v w" "vw_held v w' = vw_held v w"
    "vw_status v w' = d_status d \<or> o' \<noteq> None \<and> vw_status v w' = vw_status v w"
    by (auto simp: status_laws_def)
  ultimately show "E s'" using assms(2,3) P s by blast
qed

section \<open>The contract of the reconcilers of foreign namespaces\<close>

locale grant_scope =
  fixes name :: "DashboardReconciler \<Rightarrow> dashboard \<Rightarrow> string"
    and grants_in :: "dashboard_status \<Rightarrow> string list"
    and set_grants :: "string list \<Rightarrow> dashboard_status \<Rightarrow> dashboard_status"
    and wanted :: "dashboard \<Rightarrow> string list"
    and ensure_role drop_role :: "DashboardReconciler \<Rightarrow> 'w kube \<Rightarrow> (unit, 'w cstate) action"
    and bind_in :: "DashboardReconciler \<Rightarrow> 'w kube \<Rightarrow> string \<Rightarrow> (unit, 'w cstate) action"
    and unbind :: "DashboardReconciler \<Rightarrow> 'w kube \<Rightarrow> string list \<Rightarrow> (unit, 'w cstate) action"
    and reconcile :: "DashboardReconciler \<Rightarrow> 'w kube \<Rightarrow> (unit, 'w cstate) action"
    and role_msg status_msg :: string
    and bind_msg :: "string \<Rightarrow> string"
  assumes get_set: "grants_in (set_grants xs st) = xs"
    and name_status: "name r (d\<lparr>d_status := st\<rparr>) = name r d"
    and bind_in: "rbac_laws k v \<Longrightarrow> within v d {Binding ns (name r d)} (bind_in r k ns)"
    and unbind: "rbac_laws k v \<Longrightarrow> within v d {} (unbind r k nss)"
    and unbind_all: "rbac_laws k v \<Longrightarrow> unbind r k nss (d, w) = (Inr u, (d', w')) \<Longrightarrow> ns \<in> set nss \<Longrightarrow>
      Binding ns (name r d) \<notin> vw_grants v w'"
    and ensure_role: "rbac_laws k v \<Longrightarrow> within v d {Cluster_Role (name r d)} (ensure_role r k)"
    and drop_role: "rbac_laws k v \<Longrightarrow> within v d {} (drop_role r k)"
    and drop_role_done: "rbac_laws k v \<Longrightarrow> drop_role r k (d, w) = (Inr u, (d', w')) \<Longrightarrow>
      Cluster_Role (name r d) \<notin> vw_grants v w'"
    and reconcile: "reconcile r k =
      andThen instance_of (\<lambda>d.
      let desired = wanted d; previous = grants_in (d_status d) in
      if desired = [] then
        andThen (unbind r k previous) (\<lambda>_.
        andThen (set_status (set_grants [])) (\<lambda>_.
        drop_role r k))
      else
        andThen (wrap role_msg (ensure_role r k)) (\<lambda>_.
        andThen (set_status (set_grants (unionSortedDeduped previous desired))) (\<lambda>_.
        andThen (wrap status_msg (updateStatus k)) (\<lambda>_.
        andThen (each (\<lambda>ns. wrap (bind_msg ns) (bind_in r k ns)) desired) (\<lambda>_.
        andThen (unbind r k (filter (\<lambda>ns. ns \<notin> set desired) previous)) (\<lambda>_.
        set_status (set_grants desired)))))))"
begin

abbreviation mem :: "'w view \<Rightarrow> DashboardReconciler \<Rightarrow> dashboard \<Rightarrow> string list \<Rightarrow> 'w cstate \<Rightarrow> bool" where
  "mem v r d \<equiv> memory v (name r d) grants_in d"

lemma mem_name: "upto_status d (d', w) \<Longrightarrow> name r d' = name r d"
  by (auto simp: upto_status_def name_status)

lemma mem_step:
  "mem v r d xs (d', w) \<Longrightarrow> steps v F w w' \<Longrightarrow>
   (\<And>ns. Binding ns (name r d) \<in> F \<Longrightarrow> ns \<in> set (grants_in (vw_status v w)) \<and> ns \<in> set xs) \<Longrightarrow>
   mem v r d xs (d', w')"
  unfolding memory_def by (auto intro: tracked_step upto_status_step)

lemma keeps_ensure_role: "rbac_laws k v \<Longrightarrow> keeps (mem v r d xs) (ensure_role r k)"
  by (rule within_keeps [where F = "\<lambda>d. {Cluster_Role (name r d)}", OF ensure_role]) (auto intro: mem_step)

lemma keeps_drop_role: "rbac_laws k v \<Longrightarrow> keeps (mem v r d xs) (drop_role r k)"
  by (rule within_keeps [OF drop_role]) (auto intro: mem_step)

lemma keeps_unbind: "rbac_laws k v \<Longrightarrow> keeps (mem v r d xs) (unbind r k nss)"
  by (rule within_keeps [OF unbind]) (auto intro: mem_step)

lemma triple_unbind:
  assumes "rbac_laws k v"
  shows "triple (mem v r d xs) (unbind r k nss)
    (\<lambda>_ s. mem v r d xs s \<and> (\<forall>ns \<in> set nss. Binding ns (name r d) \<notin> vw_grants v (snd s))) (mem v r d xs)"
proof (rule tripleI)
  fix s u s' assume pre: "mem v r d xs s" and run: "unbind r k nss s = (Inr u, s')"
  obtain d1 w d2 w' where s: "s = (d1, w)" "s' = (d2, w')" by fastforce
  from keeps_unbind [OF assms] pre run have "mem v r d xs s'" by (rule triple_success)
  moreover from pre s have "name r d1 = name r d" by (auto simp: memory_def dest: mem_name)
  ultimately show "mem v r d xs s' \<and> (\<forall>ns \<in> set nss. Binding ns (name r d) \<notin> vw_grants v (snd s'))"
    using unbind_all [OF assms, of r nss d1 w u d2 w'] run s by auto
next
  fix s e s' assume "mem v r d xs s" "unbind r k nss s = (Inl e, s')"
  with keeps_unbind [OF assms] show "mem v r d xs s'" by (rule triple_error)
qed

text \<open>After the status is stored, bindings may be created in the namespaces it names.\<close>

definition stored :: "'w view \<Rightarrow> DashboardReconciler \<Rightarrow> dashboard \<Rightarrow> string list \<Rightarrow> 'w cstate \<Rightarrow> bool" where
  "stored v r d xs s \<longleftrightarrow> mem v r d xs s \<and> grants_in (vw_status v (snd s)) = xs"

lemma keeps_bind:
  assumes "rbac_laws k v" "ns \<in> set xs"
  shows "keeps (stored v r d xs) (bind_in r k ns)"
proof (rule within_keeps [where F = "\<lambda>d. {Binding ns (name r d)}", OF bind_in [OF assms(1)]])
  fix d' w w' assume s: "stored v r d xs (d', w)" and st: "steps v {Binding ns (name r d')} w w'"
  then show "stored v r d xs (d', w')"
    using assms(2) mem_step [of v r d xs d' w "{Binding ns (name r d')}" w']
    by (auto simp: stored_def steps_def)
qed

lemma triple_persist:
  assumes "status_laws k v"
  shows "triple (mem v r d xs) (updateStatus k) (\<lambda>_. stored v r d xs) (mem v r d xs)"
  by (rule triple_updateStatus [OF assms])
    (auto simp: stored_def memory_def tracked_def upto_status_def)

lemma triple_track:
  "set xs \<subseteq> set ys \<Longrightarrow> triple (mem v r d xs) (set_status (set_grants ys)) (\<lambda>_. mem v r d ys) E"
  by (rule triple_set_status) (auto simp: memory_def tracked_def upto_status_def get_set)

lemma triple_forget:
  "set xs - set rm \<subseteq> set ys \<Longrightarrow>
   triple (\<lambda>s. mem v r d xs s \<and> (\<forall>ns \<in> set rm. Binding ns (name r d) \<notin> vw_grants v (snd s)))
     (set_status (set_grants ys)) (\<lambda>_. mem v r d ys) E"
  by (rule triple_set_status) (fastforce simp: memory_def tracked_def upto_status_def get_set)

end

lemma triple_instance:
  assumes "\<And>d. triple (\<lambda>s. P s \<and> fst s = d) (f d) Q E"
  shows "triple P (andThen instance_of f) Q E"
proof (rule tripleI)
  fix s x s' assume "P s" "andThen instance_of f s = (Inr x, s')"
  with triple_success [OF assms [of "fst s"], of s x s'] show "Q x s'" by (simp add: andThen_def instance_of_def)
next
  fix s e s' assume "P s" "andThen instance_of f s = (Inl e, s')"
  with triple_error [OF assms [of "fst s"], of s e s'] show "E s'" by (simp add: andThen_def instance_of_def)
qed

lemma keeps_ex: "(\<And>y. keeps (I y) m) \<Longrightarrow> keeps (\<lambda>s. \<exists>y. I y s) m"
  by (rule tripleI) (blast dest: triple_success triple_error)+

lemma set_union [simp]: "set (unionSortedDeduped a b) = set a \<union> set b"
  by (simp add: unionSortedDeduped_def)

context grant_scope
begin

lemma reconcile_tracks:
  assumes laws: "rbac_laws k v" "status_laws k v"
  shows "triple (\<lambda>s. fst s = d \<and> tracked v (name r d) grants_in s) (reconcile r k)
    (\<lambda>_ s. \<exists>ys. mem v r d ys s) (\<lambda>s. \<exists>ys. mem v r d ys s)"
proof -
  let ?P = "grants_in (d_status d)" and ?D = "wanted d"
  let ?A = "\<lambda>s. \<exists>ys. mem v r d ys s"
  let ?gone = "\<lambda>xs rm s. mem v r d xs s \<and> (\<forall>ns \<in> set rm. Binding ns (name r d) \<notin> vw_grants v (snd s))"
  have start: "mem v r d ?P s" if "fst s = d \<and> tracked v (name r d) grants_in s" for s
  proof -
    have "upto_status d s" unfolding upto_status_def by (rule exI [of _ "d_status d"]) (simp add: that)
    with that show ?thesis by (simp add: memory_def)
  qed
  have unbind': "triple (mem v r d xs) (unbind r k rm) (\<lambda>_. ?gone xs rm) ?A" for xs rm
    by (rule triple_weaken [OF triple_unbind [OF laws(1)]]) blast+
  have none: "triple (mem v r d ?P)
      (andThen (unbind r k ?P) (\<lambda>_. andThen (set_status (set_grants [])) (\<lambda>_. drop_role r k))) (\<lambda>_. ?A) ?A"
    by (rule triple_andThen [OF unbind'], rule triple_andThen [OF triple_forget],
        simp, rule triple_weaken [OF keeps_drop_role [OF laws(1)]]) blast+
  have some: "triple (mem v r d ?P)
      (andThen (wrap role_msg (ensure_role r k)) (\<lambda>_.
       andThen (set_status (set_grants (unionSortedDeduped ?P ?D))) (\<lambda>_.
       andThen (wrap status_msg (updateStatus k)) (\<lambda>_.
       andThen (each (\<lambda>ns. wrap (bind_msg ns) (bind_in r k ns)) ?D) (\<lambda>_.
       andThen (unbind r k (filter (\<lambda>ns. ns \<notin> set ?D) ?P)) (\<lambda>_.
       set_status (set_grants ?D))))))) (\<lambda>_. ?A) ?A"
  proof (rule triple_andThen [where R = "\<lambda>_. mem v r d ?P"])
    show "triple (mem v r d ?P) (wrap role_msg (ensure_role r k)) (\<lambda>_. mem v r d ?P) ?A"
      by (rule triple_wrap, rule triple_weaken [OF keeps_ensure_role [OF laws(1)]]) blast+
  next
    fix u
    let ?U = "unionSortedDeduped ?P ?D"
    have persist: "triple (mem v r d ?U) (wrap status_msg (updateStatus k)) (\<lambda>_. stored v r d ?U) ?A"
      by (rule triple_wrap, rule triple_weaken [OF triple_persist [OF laws(2)]]) blast+
    have "keeps (stored v r d ?U) (each (\<lambda>ns. wrap (bind_msg ns) (bind_in r k ns)) ?D)"
      by (intro triple_each triple_wrap keeps_bind [OF laws(1)]) simp
    then have bind: "triple (stored v r d ?U) (each (\<lambda>ns. wrap (bind_msg ns) (bind_in r k ns)) ?D)
        (\<lambda>_. mem v r d ?U) ?A"
      by (rule triple_weaken) (auto simp: stored_def)
    have sub: "set ?U - set (filter (\<lambda>ns. ns \<notin> set ?D) ?P) \<subseteq> set ?D" by auto
    have forget: "triple (?gone ?U (filter (\<lambda>ns. ns \<notin> set ?D) ?P)) (set_status (set_grants ?D)) (\<lambda>_. ?A) ?A"
      by (rule triple_weaken [OF triple_forget [OF sub]]) blast+
    show "triple (mem v r d ?P)
      (andThen (set_status (set_grants ?U)) (\<lambda>_.
       andThen (wrap status_msg (updateStatus k)) (\<lambda>_.
       andThen (each (\<lambda>ns. wrap (bind_msg ns) (bind_in r k ns)) ?D) (\<lambda>_.
       andThen (unbind r k (filter (\<lambda>ns. ns \<notin> set ?D) ?P)) (\<lambda>_.
       set_status (set_grants ?D)))))) (\<lambda>_. ?A) ?A"
      by (rule triple_andThen [OF triple_track], simp, rule triple_andThen [OF persist],
          rule triple_andThen [OF bind], rule triple_andThen [OF unbind' forget])
  qed
  show ?thesis
    unfolding reconcile
  proof (rule triple_instance)
    fix d'
    let ?body = "\<lambda>d. let desired = wanted d; previous = grants_in (d_status d) in
      if desired = [] then
        andThen (unbind r k previous) (\<lambda>_. andThen (set_status (set_grants [])) (\<lambda>_. drop_role r k))
      else
        andThen (wrap role_msg (ensure_role r k)) (\<lambda>_.
        andThen (set_status (set_grants (unionSortedDeduped previous desired))) (\<lambda>_.
        andThen (wrap status_msg (updateStatus k)) (\<lambda>_.
        andThen (each (\<lambda>ns. wrap (bind_msg ns) (bind_in r k ns)) desired) (\<lambda>_.
        andThen (unbind r k (filter (\<lambda>ns. ns \<notin> set desired) previous)) (\<lambda>_.
        set_status (set_grants desired))))))"
    have body: "triple (mem v r d ?P) (?body d) (\<lambda>_. ?A) ?A"
      using none some by (simp add: Let_def)
    show "triple (\<lambda>s. (fst s = d \<and> tracked v (name r d) grants_in s) \<and> fst s = d') (?body d') (\<lambda>_. ?A) ?A"
    proof (cases "d' = d")
      case True
      show ?thesis unfolding True by (rule triple_pre [OF body]) (use start in blast)
    qed (auto intro: tripleI)
  qed
qed

end

definition scope_footprint :: "string \<Rightarrow> grant set" where
  "scope_footprint n = insert (Cluster_Role n) (range (\<lambda>ns. Binding ns n))"

context grant_scope
begin

text \<open>An invariant of anything else is kept, if it bears with the scope's grants and bookkeeping.\<close>

lemma reconcile_keeps:
  assumes laws: "rbac_laws k v"
    and step: "\<And>d w w'. I (d, w) \<Longrightarrow> steps v (scope_footprint (name r d)) w w' \<Longrightarrow> I (d, w')"
    and mem: "\<And>d w xs. I (d, w) \<Longrightarrow> I (d\<lparr>d_status := set_grants xs (d_status d)\<rparr>, w)"
    and stat: "keeps I (updateStatus k)"
  shows "keeps I (reconcile r k)"
proof -
  have foot: "steps v F w w' \<Longrightarrow> F \<subseteq> scope_footprint (name r d) \<Longrightarrow> I (d, w) \<Longrightarrow> I (d, w')" for F d w w'
    by (rule step) (auto intro: steps_mono)
  have a: "keeps I (ensure_role r k)"
    by (rule within_keeps [where F = "\<lambda>d. {Cluster_Role (name r d)}", OF ensure_role [OF laws]])
      (erule foot [rotated 2], assumption, simp add: scope_footprint_def)
  have b: "keeps I (drop_role r k)"
    by (rule within_keeps [where F = "\<lambda>d. {}", OF drop_role [OF laws]]) (erule foot [rotated 2], assumption, simp)
  have c: "keeps I (bind_in r k ns)" for ns
    by (rule within_keeps [where F = "\<lambda>d. {Binding ns (name r d)}", OF bind_in [OF laws]])
      (erule foot [rotated 2], assumption, simp add: scope_footprint_def)
  have e: "keeps I (unbind r k nss)" for nss
    by (rule within_keeps [where F = "\<lambda>d. {}", OF unbind [OF laws]]) (erule foot [rotated 2], assumption, simp)
  have f: "keeps I (set_status (set_grants xs))" for xs
    by (rule triple_set_status) (rule mem)
  show ?thesis
    unfolding reconcile Let_def by (intro triple_intros a b c e f stat)
qed

text \<open>Where everything the status names is unbound, no binding is left in a foreign namespace.\<close>

lemma unbind_tracked:
  assumes laws: "rbac_laws k v" and tr: "tracked v (name r d) grants_in (d, w)"
    and run: "unbind r k (grants_in (d_status d)) (d, w) = (Inr u, (d', w'))"
    and foreign: "ns \<noteq> d_namespace d"
  shows "Binding ns (name r d) \<notin> vw_grants v w'"
proof
  assume b: "Binding ns (name r d) \<in> vw_grants v w'"
  from withinD [OF unbind [OF laws] run] have "vw_grants v w' \<subseteq> vw_grants v w" by (auto simp: steps_def)
  with b tr foreign have "ns \<in> set (grants_in (d_status d))" by (auto simp: tracked_def)
  from unbind_all [OF laws run this] b show False ..
qed

end

lemma triple_kdelete:
  assumes "client_steps v G c" "client_deletes v g c"
  shows "triple (\<lambda>s. fst s = d) (kdelete c ns n) (\<lambda>_ s. fst s = d \<and> g ns n \<notin> vw_grants v (snd s)) (\<lambda>s. fst s = d)"
proof (rule tripleI)
  fix s u s' assume d: "fst s = d" and run: "kdelete c ns n s = (Inr u, s')"
  then have "\<forall>e. fst (kc_delete c ns n (snd s)) \<noteq> GetError e" "snd s' = snd (kc_delete c ns n (snd s))" "fst s' = d"
    by (auto simp: kdelete_def case_prod_unfold split: get_result.splits)
  with assms(2) show "fst s' = d \<and> g ns n \<notin> vw_grants v (snd s')" by (simp add: client_deletes_def)
qed (auto simp: kdelete_def case_prod_unfold)

lemma unbind_each:
  assumes c: "client_steps v G c" "client_deletes v Binding c"
    and run: "each (\<lambda>ns. wrap (msg ns) (kdelete c ns n)) nss (d, w) = (Inr u, (d', w'))" and ns: "ns \<in> set nss"
  shows "Binding ns n \<notin> vw_grants v w'"
proof -
  have "triple (\<lambda>s. fst s = d) (each (\<lambda>ns. wrap (msg ns) (kdelete c ns n)) nss)
      (\<lambda>_ s. fst s = d \<and> (\<forall>x \<in> set nss. Binding x n \<notin> vw_grants v (snd s))) (\<lambda>s. fst s = d)"
  proof (rule triple_each_all)
    show "triple (\<lambda>s. fst s = d) (wrap (msg x) (kdelete c x n))
        (\<lambda>_ s. fst s = d \<and> Binding x n \<notin> vw_grants v (snd s)) (\<lambda>s. fst s = d)" for x
      by (rule triple_wrap [OF triple_kdelete [OF c]])
    show "keeps (\<lambda>s. fst s = d \<and> Binding y n \<notin> vw_grants v (snd s)) (wrap (msg x) (kdelete c x n))" for x y
      by (rule triple_wrap, rule within_keeps [where F = "\<lambda>_. {}", OF within_calls(3) [OF c(1)]])
        (auto simp: steps_def)
  qed
  from triple_success [OF this _ run] ns show ?thesis by simp
qed

lemma name_status_simps [simp]:
  "clusterRBACName sha (d\<lparr>d_status := st\<rparr>) = clusterRBACName sha d"
  "discoveryRBACName sha (d\<lparr>d_status := st\<rparr>) = discoveryRBACName sha d"
  "monitorRBACName sha (d\<lparr>d_status := st\<rparr>) = monitorRBACName sha d"
  by (simp_all add: clusterRBACName_def discoveryRBACName_def monitorRBACName_def length_prefixed_def)

lemma within_foreign_binding:
  assumes "rbac_laws k v"
  shows "within v d {Binding ns n} (ensureExists (ku_role_bindings k) ns n (role_binding_to kind n d (meta ns n)))"
  by (rule within_ensureExists [OF rbac_lawsD(3) [OF assms]]) (simp add: binding_grant_def role_binding_to_def)

lemma delete_role_done:
  assumes "rbac_laws k v" "andThen instance_of (\<lambda>d. wrap msg (kdelete (ku_cluster_roles k) [] (f d))) (d, w) = (Inr u, (d', w'))"
  shows "Cluster_Role (f d) \<notin> vw_grants v w'"
proof -
  from assms(2) have "wrap msg (kdelete (ku_cluster_roles k) [] (f d)) (d, w) = (Inr u, (d', w'))"
    by (simp add: andThen_def instance_of_def)
  from triple_success [OF triple_wrap [OF triple_kdelete [OF rbac_lawsD(5,6) [OF assms(1)]]] _ this]
  show ?thesis by simp
qed

interpretation discovery: grant_scope "\<lambda>r. discoveryRBACName (re_sha256 r)" dst_discovery_namespaces
  "\<lambda>xs st. st\<lparr>dst_discovery_namespaces := xs\<rparr>" discoveryNamespaces reconcileDiscoveryClusterRole
  deleteDiscoveryClusterRole reconcileDiscoveryRoleBinding deleteDiscoveryRoleBindings reconcileDiscoveryRBAC
  "''reconciling discovery ClusterRole''" "''persisting discovery namespaces before creating RoleBindings''"
  "\<lambda>ns. ''reconciling discovery RoleBinding in namespace '' @ ns"
proof unfold_locales
  fix k :: "'a kube" and v and r :: DashboardReconciler and d d' :: dashboard and ns nss w u w'
  assume laws: "rbac_laws k v"
  let ?n = "discoveryRBACName (re_sha256 r) d"
  show "within v d {Binding ns ?n} (reconcileDiscoveryRoleBinding r k ns)"
    unfolding reconcileDiscoveryRoleBinding_def Let_def
    by (rule within_instance) (rule within_foreign_binding [OF laws])
  show "within v d {} (deleteDiscoveryRoleBindings r k nss)"
    unfolding deleteDiscoveryRoleBindings_def
    by (intro within_intros within_calls(3) [OF rbac_lawsD(3) [OF laws]])
  show "within v d {Cluster_Role ?n} (reconcileDiscoveryClusterRole r k)"
    unfolding reconcileDiscoveryClusterRole_def
    by (rule within_instance, cases "ds_discovery (d_spec d)")
      (auto simp: cluster_role_grant_def intro!: within_intros within_reconcileRules [OF rbac_lawsD(5) [OF laws]])
  show "within v d {} (deleteDiscoveryClusterRole r k)"
    unfolding deleteDiscoveryClusterRole_def
    by (intro within_intros within_calls(3) [OF rbac_lawsD(5) [OF laws]])
  show "Cluster_Role ?n \<notin> vw_grants v w'" if "deleteDiscoveryClusterRole r k (d, w) = (Inr u, d', w')"
    by (rule delete_role_done [OF laws that [unfolded deleteDiscoveryClusterRole_def]])
  show "Binding ns ?n \<notin> vw_grants v w'"
    if "deleteDiscoveryRoleBindings r k nss (d, w) = (Inr u, d', w')" "ns \<in> set nss"
    using unbind_each [OF rbac_lawsD(3,4) [OF laws], where ns = ns] that
    by (simp add: deleteDiscoveryRoleBindings_def andThen_def instance_of_def)
qed (simp_all add: reconcileDiscoveryRBAC_def)

interpretation monitors: grant_scope "\<lambda>r. monitorRBACName (re_sha256 r)" dst_monitor_namespaces
  "\<lambda>xs st. st\<lparr>dst_monitor_namespaces := xs\<rparr>" monitorNamespaces reconcileMonitorClusterRole
  deleteMonitorClusterRole reconcileMonitorRoleBinding deleteMonitorRoleBindings reconcileMonitorRBAC
  "''reconciling monitor ClusterRole''" "''persisting monitor namespaces before creating RoleBindings''"
  "\<lambda>ns. ''reconciling monitor RoleBinding in namespace '' @ ns"
proof unfold_locales
  fix k :: "'a kube" and v and r :: DashboardReconciler and d d' :: dashboard and ns nss w u w'
  assume laws: "rbac_laws k v"
  let ?n = "monitorRBACName (re_sha256 r) d"
  show "within v d {Binding ns ?n} (reconcileMonitorRoleBinding r k ns)"
    unfolding reconcileMonitorRoleBinding_def Let_def
    by (rule within_instance) (rule within_foreign_binding [OF laws])
  show "within v d {} (deleteMonitorRoleBindings r k nss)"
    unfolding deleteMonitorRoleBindings_def
    by (intro within_intros within_calls(3) [OF rbac_lawsD(3) [OF laws]])
  show "within v d {Cluster_Role ?n} (reconcileMonitorClusterRole r k)"
    unfolding reconcileMonitorClusterRole_def
    by (rule within_instance) (rule within_reconcileRules [OF rbac_lawsD(5) [OF laws]], simp add: cluster_role_grant_def)
  show "within v d {} (deleteMonitorClusterRole r k)"
    unfolding deleteMonitorClusterRole_def
    by (intro within_intros within_calls(3) [OF rbac_lawsD(5) [OF laws]])
  show "Cluster_Role ?n \<notin> vw_grants v w'" if "deleteMonitorClusterRole r k (d, w) = (Inr u, d', w')"
    by (rule delete_role_done [OF laws that [unfolded deleteMonitorClusterRole_def]])
  show "Binding ns ?n \<notin> vw_grants v w'"
    if "deleteMonitorRoleBindings r k nss (d, w) = (Inr u, d', w')" "ns \<in> set nss"
    using unbind_each [OF rbac_lawsD(3,4) [OF laws], where ns = ns] that
    by (simp add: deleteMonitorRoleBindings_def andThen_def instance_of_def)
qed (simp_all add: reconcileMonitorRBAC_def)

end
