(* ===== verification/Orphans.thy ===== *)
theory Orphans
  imports Dashboard_Controller
begin

text \<open>
  The whole of \<^verbatim>\<open>Reconcile\<close> and of the finalizer against the bookkeeping of theory \<^verbatim>\<open>Grants\<close>: the grants that
  no owner reference cleans up are accounted for after every reconcile, wherever it fails.
\<close>

section \<open>What the API server promises about the Dashboard itself\<close>

text \<open>
  Reading the Dashboard gives its stored status and finalizers; updating it stores the finalizers or
  fails, perhaps after storing them, and leaves the status alone as long as the object is there.
\<close>

definition dashboard_laws :: "'w kube \<Rightarrow> 'w view \<Rightarrow> string \<Rightarrow> string \<Rightarrow> bool" where
  "dashboard_laws k v ns n \<longleftrightarrow>
     (\<forall>w r w'. ku_get_dashboard k ns n w = (r, w') \<longrightarrow> steps v {} w w' \<and>
        (\<forall>d. r = Found d \<longrightarrow> d_namespace d = ns \<and> d_name d = n \<and> d_status d = vw_status v w' \<and>
          (instanceFinalizer \<in> set (d_finalizers d) \<longleftrightarrow> vw_held v w'))) \<and>
     (\<forall>d w r w'. ku_update_dashboard k d w = (r, w') \<longrightarrow> vw_grants v w' \<subseteq> vw_grants v w \<and>
        (vw_held v w' \<longrightarrow> vw_status v w' = vw_status v w) \<and>
        (vw_held v w' = (instanceFinalizer \<in> set (d_finalizers d)) \<or> r \<noteq> None \<and> vw_held v w' = vw_held v w))"

definition finalizer_laws :: "'w kube \<Rightarrow> bool" where
  "finalizer_laws k \<longleftrightarrow>
     (\<forall>d f. ku_contains_finalizer k d f \<longleftrightarrow> f \<in> set (d_finalizers d)) \<and>
     (\<forall>d f. \<exists>fs. ku_add_finalizer k d f = d\<lparr>d_finalizers := fs\<rparr> \<and> set fs = insert f (set (d_finalizers d))) \<and>
     (\<forall>d f. \<exists>fs. ku_remove_finalizer k d f = (d\<lparr>d_finalizers := fs\<rparr>, f \<in> set (d_finalizers d)) \<and>
        set fs = set (d_finalizers d) - {f})"

definition object_laws :: "'w kube \<Rightarrow> 'w view \<Rightarrow> bool" where
  "object_laws k v \<longleftrightarrow>
     client_steps v (\<lambda>_. {}) (ku_deployments k) \<and> client_steps v (\<lambda>_. {}) (ku_services k) \<and>
     client_steps v (\<lambda>_. {}) (ku_ingresses k) \<and> client_steps v (\<lambda>_. {}) (ku_http_routes k) \<and>
     client_steps v (\<lambda>_. {}) (ku_network_policies k)"

definition cluster_laws :: "'w kube \<Rightarrow> 'w view \<Rightarrow> string \<Rightarrow> string \<Rightarrow> bool" where
  "cluster_laws k v ns n \<longleftrightarrow> rbac_laws k v \<and> status_laws k v \<and> dashboard_laws k v ns n \<and> finalizer_laws k \<and>
     object_laws k v"

section \<open>Accounted grants\<close>

definition same_id :: "dashboard \<Rightarrow> dashboard \<Rightarrow> bool" where
  "same_id d d' \<longleftrightarrow> d_namespace d = d_namespace d' \<and> d_name d = d_name d'"

definition cluster_grants :: "DashboardReconciler \<Rightarrow> dashboard \<Rightarrow> grant set" where
  "cluster_grants r d = {Cluster_Role (clusterRBACName (re_sha256 r) d), Cluster_Binding (clusterRBACName (re_sha256 r) d),
     Cluster_Role (discoveryRBACName (re_sha256 r) d), Cluster_Role (monitorRBACName (re_sha256 r) d)}"

definition foreign :: "dashboard \<Rightarrow> string \<Rightarrow> grant set" where
  "foreign d name = {Binding ns name | ns. ns \<noteq> d_namespace d}"

text \<open>Every grant of the Dashboard that nothing owns: the cluster's, and those in other namespaces.\<close>

definition unowned :: "DashboardReconciler \<Rightarrow> dashboard \<Rightarrow> grant set" where
  "unowned r d = cluster_grants r d \<union> foreign d (discoveryRBACName (re_sha256 r) d) \<union>
     foreign d (monitorRBACName (re_sha256 r) d)"

definition accounted :: "'w view \<Rightarrow> DashboardReconciler \<Rightarrow> dashboard \<Rightarrow> 'w \<Rightarrow> bool" where
  "accounted v r d w \<longleftrightarrow> (vw_grants v w \<inter> unowned r d \<noteq> {} \<longrightarrow> vw_held v w) \<and>
     (\<forall>ns. ns \<noteq> d_namespace d \<longrightarrow>
       (Binding ns (discoveryRBACName (re_sha256 r) d) \<in> vw_grants v w \<longrightarrow>
          ns \<in> set (dst_discovery_namespaces (vw_status v w))) \<and>
       (Binding ns (monitorRBACName (re_sha256 r) d) \<in> vw_grants v w \<longrightarrow>
          ns \<in> set (dst_monitor_namespaces (vw_status v w))))"

text \<open>The invariant while the Dashboard holds its finalizer: the memory's bookkeeping covers the grants, too.\<close>

definition held_inv :: "'w view \<Rightarrow> DashboardReconciler \<Rightarrow> dashboard \<Rightarrow> 'w cstate \<Rightarrow> bool" where
  "held_inv v r d0 s \<longleftrightarrow> same_id (fst s) d0 \<and> vw_held v (snd s) \<and>
     tracked v (discoveryRBACName (re_sha256 r) d0) dst_discovery_namespaces s \<and>
     tracked v (monitorRBACName (re_sha256 r) d0) dst_monitor_namespaces s"

text \<open>The memory is as the stored object, as far as the bookkeeping goes.\<close>

definition in_sync :: "'w view \<Rightarrow> DashboardReconciler \<Rightarrow> dashboard \<Rightarrow> 'w cstate \<Rightarrow> bool" where
  "in_sync v r d0 s \<longleftrightarrow> same_id (fst s) d0 \<and> accounted v r d0 (snd s) \<and>
     (instanceFinalizer \<in> set (d_finalizers (fst s)) \<longleftrightarrow> vw_held v (snd s)) \<and>
     dst_discovery_namespaces (d_status (fst s)) = dst_discovery_namespaces (vw_status v (snd s)) \<and>
     dst_monitor_namespaces (d_status (fst s)) = dst_monitor_namespaces (vw_status v (snd s))"

definition no_grants :: "'w view \<Rightarrow> DashboardReconciler \<Rightarrow> dashboard \<Rightarrow> 'w cstate \<Rightarrow> bool" where
  "no_grants v r d0 s \<longleftrightarrow> vw_grants v (snd s) \<inter> unowned r d0 = {}"

lemma same_id_names:
  assumes "same_id d d'"
  shows "clusterRBACName sha d = clusterRBACName sha d'" "discoveryRBACName sha d = discoveryRBACName sha d'"
    "monitorRBACName sha d = monitorRBACName sha d'"
  using assms by (simp_all add: same_id_def clusterRBACName_def discoveryRBACName_def monitorRBACName_def
      length_prefixed_def)

lemma same_id_simps [simp]:
  "same_id (d\<lparr>d_status := st\<rparr>) d0 = same_id d d0" "same_id (d\<lparr>d_finalizers := fs\<rparr>) d0 = same_id d d0" "same_id d d"
  by (simp_all add: same_id_def)

lemma foreign_iff [simp]: "Binding ns m \<in> foreign d n \<longleftrightarrow> m = n \<and> ns \<noteq> d_namespace d"
  by (auto simp: foreign_def)

lemma unowned_bindings:
  "ns \<noteq> d_namespace d \<Longrightarrow> Binding ns (discoveryRBACName (re_sha256 r) d) \<in> unowned r d"
  "ns \<noteq> d_namespace d \<Longrightarrow> Binding ns (monitorRBACName (re_sha256 r) d) \<in> unowned r d"
  by (simp_all add: unowned_def)

lemma no_grants_accounted:
  assumes "no_grants v r d0 s"
  shows "accounted v r d0 (snd s)"
proof -
  have "x \<notin> vw_grants v (snd s)" if "x \<in> unowned r d0" for x
    using assms that by (auto simp: no_grants_def)
  then show ?thesis using assms unowned_bindings [of _ d0 r] by (simp add: no_grants_def accounted_def)
qed

lemma held_inv_accounted: "held_inv v r d0 s \<Longrightarrow> accounted v r d0 (snd s)"
  by (auto simp: held_inv_def accounted_def tracked_def same_id_def)

lemma in_sync_held: "in_sync v r d0 s \<Longrightarrow> instanceFinalizer \<in> set (d_finalizers (fst s)) \<Longrightarrow> held_inv v r d0 s"
  by (auto simp: in_sync_def held_inv_def accounted_def tracked_def same_id_def)

lemma accounted_shrink:
  assumes acc: "accounted v r d0 w" and sub: "vw_grants v w' \<subseteq> vw_grants v w" and held: "vw_held v w \<longrightarrow> vw_held v w'"
    and eq: "dst_discovery_namespaces (vw_status v w') = dst_discovery_namespaces (vw_status v w)"
      "dst_monitor_namespaces (vw_status v w') = dst_monitor_namespaces (vw_status v w)"
  shows "accounted v r d0 w'"
  unfolding accounted_def eq
proof (intro conjI allI impI)
  note acc' = acc [unfolded accounted_def]
  show "vw_held v w'" if "vw_grants v w' \<inter> unowned r d0 \<noteq> {}"
    using conjunct1 [OF acc'] that sub held by blast
  show "ns \<in> set (dst_discovery_namespaces (vw_status v w))"
    if "ns \<noteq> d_namespace d0" "Binding ns (discoveryRBACName (re_sha256 r) d0) \<in> vw_grants v w'" for ns
    using conjunct2 [OF acc'] that sub by blast
  show "ns \<in> set (dst_monitor_namespaces (vw_status v w))"
    if "ns \<noteq> d_namespace d0" "Binding ns (monitorRBACName (re_sha256 r) d0) \<in> vw_grants v w'" for ns
    using conjunct2 [OF acc'] that sub by blast
qed

section \<open>The invariant and the steps\<close>

lemma triple_conj:
  assumes "triple P m Q E" "triple P' m Q' E'"
  shows "triple (\<lambda>s. P s \<and> P' s) m (\<lambda>x s. Q x s \<and> Q' x s) (\<lambda>s. E s \<and> E' s)"
proof (rule tripleI)
  show "Q x s' \<and> Q' x s'" if "P s \<and> P' s" "m s = (Inr x, s')" for s x s'
    using that triple_success [OF assms(1)] triple_success [OF assms(2)] by blast
  show "E s' \<and> E' s'" if "P s \<and> P' s" "m s = (Inl e, s')" for s e s'
    using that triple_error [OF assms(1)] triple_error [OF assms(2)] by blast
qed

lemma triple_fix_instance:
  assumes "\<And>d. triple (\<lambda>s. P s \<and> fst s = d) m Q E"
  shows "triple P m Q E"
proof (rule tripleI)
  show "Q x s'" if "P s" "m s = (Inr x, s')" for s x s'
    using triple_success [OF assms [of "fst s"] _ that(2)] that(1) by blast
  show "E s'" if "P s" "m s = (Inl e, s')" for s e s'
    using triple_error [OF assms [of "fst s"] _ that(2)] that(1) by blast
qed

lemma keeps_set_instance:
  assumes "\<And>d w. I (d, w) \<Longrightarrow> I (f d, w)"
  shows "keeps I (set_instance f)"
  by (rule tripleI) (use assms in \<open>auto simp: set_instance_def\<close>)

lemma held_inv_within:
  assumes "\<And>d. same_id d d0 \<Longrightarrow> within v d F m" "F \<inter> foreign d0 (discoveryRBACName (re_sha256 r) d0) = {}"
    "F \<inter> foreign d0 (monitorRBACName (re_sha256 r) d0) = {}"
  shows "keeps (held_inv v r d0) m"
proof (rule within_keeps [where F = "\<lambda>_. F"])
  show "within v d F m" if "held_inv v r d0 (d, w)" for d w
    using assms(1) that by (simp add: held_inv_def)
  show "held_inv v r d0 (d, w')" if inv: "held_inv v r d0 (d, w)" and st: "steps v F w w'" for d w w'
  proof -
    from inv have id: "d_namespace d = d_namespace d0" by (simp add: held_inv_def same_id_def)
    then have "ns = d_namespace d" if "Binding ns n \<in> F" "F \<inter> foreign d0 n = {}" for ns n
      using that by (auto simp: foreign_def)
    then show ?thesis
      using inv st assms(2,3) unfolding held_inv_def
      by (auto simp: steps_def intro!: tracked_step [OF _ st])
  qed
qed

lemma held_inv_status:
  assumes "status_laws k v"
  shows "keeps (held_inv v r d0) (updateStatus k)"
  by (rule triple_updateStatus [OF assms]) (auto simp: held_inv_def tracked_def)

lemma held_inv_memory:
  assumes "\<And>d. same_id (f d) d" "\<And>d. dst_discovery_namespaces (d_status (f d)) = dst_discovery_namespaces (d_status d)"
    "\<And>d. dst_monitor_namespaces (d_status (f d)) = dst_monitor_namespaces (d_status d)"
  shows "keeps (held_inv v r d0) (set_instance f)"
  by (rule keeps_set_instance) (use assms in \<open>auto simp: held_inv_def tracked_def same_id_def\<close>)

lemma set_condition_simps [simp]:
  "d_namespace (set_condition k t st reason msg d) = d_namespace d" "d_name (set_condition k t st reason msg d) = d_name d"
  "d_finalizers (set_condition k t st reason msg d) = d_finalizers d"
  "d_spec (set_condition k t st reason msg d) = d_spec d"
  "dst_discovery_namespaces (d_status (set_condition k t st reason msg d)) = dst_discovery_namespaces (d_status d)"
  "dst_monitor_namespaces (d_status (set_condition k t st reason msg d)) = dst_monitor_namespaces (d_status d)"
  by (simp_all add: set_condition_def)

lemma held_inv_condition:
  "keeps (held_inv v r d0) (set_instance (\<lambda>d. set_condition k t st reason (msg d) d))"
  by (rule held_inv_memory) (simp_all add: same_id_def)

lemma refetch_run:
  assumes "dashboard_laws k v ns n" "refetch k ns n (d, w) = (res, (d', w'))"
  shows "steps v {} w w'"
    "res = Inr u \<Longrightarrow> d_namespace d' = ns \<and> d_name d' = n \<and> d_status d' = vw_status v w' \<and>
      (instanceFinalizer \<in> set (d_finalizers d') \<longleftrightarrow> vw_held v w')"
    "res = Inl e \<Longrightarrow> d' = d"
proof -
  obtain g w1 where get: "ku_get_dashboard k ns n w = (g, w1)" by fastforce
  from assms(1) get have law: "steps v {} w w1" "\<And>d. g = Found d \<Longrightarrow> d_namespace d = ns \<and> d_name d = n \<and>
      d_status d = vw_status v w1 \<and> (instanceFinalizer \<in> set (d_finalizers d) \<longleftrightarrow> vw_held v w1)"
    unfolding dashboard_laws_def by blast+
  have w': "w' = w1" using assms(2) get by (auto simp: refetch_def split: get_result.splits)
  show "steps v {} w w'" using law w' by simp
  show "res = Inr u \<Longrightarrow> d_namespace d' = ns \<and> d_name d' = n \<and> d_status d' = vw_status v w' \<and>
      (instanceFinalizer \<in> set (d_finalizers d') \<longleftrightarrow> vw_held v w')"
    using assms(2) get w' law(2) by (auto simp: refetch_def split: get_result.splits)
  show "res = Inl e \<Longrightarrow> d' = d"
    using assms(2) get by (auto simp: refetch_def split: get_result.splits)
qed

lemma held_inv_refetch:
  assumes "dashboard_laws k v (d_namespace d0) (d_name d0)"
  shows "keeps (held_inv v r d0) (refetch k (d_namespace d0) (d_name d0))"
proof (rule tripleI)
  fix s u s' assume inv: "held_inv v r d0 s" and run: "refetch k (d_namespace d0) (d_name d0) s = (Inr u, s')"
  obtain d w d' w' where s: "s = (d, w)" "s' = (d', w')" by fastforce
  note f = refetch_run [OF assms run [unfolded s]]
  from f(1) f(2) [OF refl] inv show "held_inv v r d0 s'"
    by (auto simp: s held_inv_def tracked_def same_id_def steps_def)
next
  fix s e s' assume inv: "held_inv v r d0 s" and run: "refetch k (d_namespace d0) (d_name d0) s = (Inl e, s')"
  obtain d w d' w' where s: "s = (d, w)" "s' = (d', w')" by fastforce
  note f = refetch_run [OF assms run [unfolded s]]
  from f(1) f(3) [OF refl] inv show "held_inv v r d0 s'"
    by (auto simp: s held_inv_def tracked_def same_id_def steps_def)
qed

section \<open>The reconcile steps keep the invariant\<close>

lemma within_option [within_intros]:
  "within v d F m \<Longrightarrow> (\<And>x. within v d F (f x)) \<Longrightarrow> within v d F (case opt of None \<Rightarrow> m | Some x \<Rightarrow> f x)"
  by (cases opt) simp_all

lemma object_lawsD:
  assumes "object_laws k v"
  shows "client_steps v (\<lambda>_. {}) (ku_deployments k)" "client_steps v (\<lambda>_. {}) (ku_services k)"
    "client_steps v (\<lambda>_. {}) (ku_ingresses k)" "client_steps v (\<lambda>_. {}) (ku_http_routes k)"
    "client_steps v (\<lambda>_. {}) (ku_network_policies k)"
  using assms by (simp_all add: object_laws_def)

lemma within_objects:
  assumes "object_laws k v"
  shows "within v d {} (reconcileService sha k)" "within v d {} (reconcileIngress k)"
    "within v d {} (reconcileHTTPRoute g k)" "within v d {} (reconcileNetworkPolicy sha k)"
  unfolding reconcileService_def serviceForDashboard_def reconcileIngress_def ingressForDashboard_def
    reconcileHTTPRoute_def httpRouteForDashboard_def reconcileNetworkPolicy_def networkPolicyForDashboard_def Let_def
  by (intro within_intros within_calls [OF object_lawsD(2) [OF assms]] within_calls [OF object_lawsD(3) [OF assms]]
      within_calls [OF object_lawsD(4) [OF assms]] within_calls [OF object_lawsD(5) [OF assms]] empty_subsetI)+

lemma within_reads:
  assumes "object_laws k v"
  shows "within v d {} (boundCountsForDashboard k)" "within v d {} (deploymentReady k n)"
  unfolding boundCountsForDashboard_def deploymentReady_def Let_def
  by (intro within_intros within_calls [OF object_lawsD(1) [OF assms]])+

lemma held_inv_harmless: "(\<And>d. within v d {} m) \<Longrightarrow> keeps (held_inv v r d0) m"
  by (rule held_inv_within [where F = "{}"]) simp_all

lemma rbac_names_differ:
  assumes "\<And>key. length (sha key) = 32"
  shows "discoveryRBACName sha d \<noteq> monitorRBACName sha d" "clusterRBACName sha d \<noteq> discoveryRBACName sha d"
    "clusterRBACName sha d \<noteq> monitorRBACName sha d"
proof -
  have "discoveryRBACName sha d ! 9 = take 13 (discoveryRBACName sha d) ! 9"
    "monitorRBACName sha d ! 9 = take 12 (monitorRBACName sha d) ! 9" by simp_all
  then have "discoveryRBACName sha d ! 9 = CHR ''d''" "monitorRBACName sha d ! 9 = CHR ''m''"
    unfolding rbac_name_heads(3,4) [where sha = sha, OF assms] by simp_all
  then show "discoveryRBACName sha d \<noteq> monitorRBACName sha d" "clusterRBACName sha d \<noteq> discoveryRBACName sha d"
    "clusterRBACName sha d \<noteq> monitorRBACName sha d"
    using rbac_name_heads(2) [where sha = sha and d = d, OF assms] by (auto simp: is_digit_def)
qed

lemma held_inv_own_rbac:
  assumes "rbac_laws k v"
  shows "keeps (held_inv v r d0) (reconcileDashboardRBAC re k)"
proof (rule held_inv_within [where F = "{Binding (d_namespace d0) (d_name d0)}"])
  show "within v d {Binding (d_namespace d0) (d_name d0)} (reconcileDashboardRBAC re k)" if "same_id d d0" for d
    using within_reconcileDashboardRBAC [OF assms, of d re] that by (simp add: same_id_def)
qed auto

lemma held_inv_metrics:
  assumes "rbac_laws k v"
  shows "keeps (held_inv v r d0) (reconcileClusterMetricsRBAC r k)"
proof (rule held_inv_within)
  let ?n = "clusterRBACName (re_sha256 r) d0"
  show "within v d {Cluster_Role ?n, Cluster_Binding ?n} (reconcileClusterMetricsRBAC r k)" if "same_id d d0" for d
    by (rule within_reconcileClusterMetricsRBAC [OF assms]) (simp add: same_id_names [OF that])
qed (auto simp: foreign_def)

text \<open>A reconciler of foreign namespaces: its own contract for its bookkeeping, its footprint for the rest.\<close>

context grant_scope
begin

lemma reconcile_keeps_both:
  assumes laws: "rbac_laws k v" "status_laws k v"
    and name: "\<And>d w. J (d, w) \<Longrightarrow> name r d = name r d0"
    and step: "\<And>d w w'. J (d, w) \<Longrightarrow> steps v (scope_footprint (name r d0)) w w' \<Longrightarrow> J (d, w')"
    and mem: "\<And>d w xs. J (d, w) \<Longrightarrow> J (d\<lparr>d_status := set_grants xs (d_status d)\<rparr>, w)"
    and stat: "keeps J (updateStatus k)"
  shows "keeps (\<lambda>s. J s \<and> tracked v (name r d0) grants_in s) (reconcile r k)"
proof (rule triple_fix_instance)
  fix d
  have rest: "keeps J (reconcile r k)"
    by (rule reconcile_keeps [OF laws(1) _ mem stat]) (use name step in metis)
  let ?A = "\<lambda>s. (\<exists>ys. memory v (name r d) grants_in d ys s) \<and> J s"
  have run: "triple (\<lambda>s. (fst s = d \<and> tracked v (name r d) grants_in s) \<and> J s) (reconcile r k) (\<lambda>_. ?A) ?A"
    by (rule triple_conj [OF reconcile_tracks [OF laws] rest])
  have weak: "J s \<and> tracked v (name r d0) grants_in s" if "?A s" for s
  proof -
    from that obtain ys where "memory v (name r d) grants_in d ys s" "J s" by blast
    moreover from this have "name r (fst s) = name r d" "name r (fst s) = name r d0"
      using name [of "fst s" "snd s"] by (auto simp: memory_def upto_status_def name_status)
    ultimately show ?thesis by (simp add: memory_def)
  qed
  show "triple (\<lambda>s. (J s \<and> tracked v (name r d0) grants_in s) \<and> fst s = d) (reconcile r k)
      (\<lambda>_ s. J s \<and> tracked v (name r d0) grants_in s) (\<lambda>s. J s \<and> tracked v (name r d0) grants_in s)"
  proof (rule triple_weaken [OF run])
    show "(fst s = d \<and> tracked v (name r d) grants_in s) \<and> J s"
      if "(J s \<and> tracked v (name r d0) grants_in s) \<and> fst s = d" for s
      using that name [of d "snd s"] by auto
  qed (use weak in blast)+
qed

end

lemma held_inv_scopes:
  assumes laws: "rbac_laws k v" "status_laws k v" and sha: "\<And>key. length (re_sha256 r key) = 32"
  shows "keeps (held_inv v r d0) (reconcileDiscoveryRBAC r k)" "keeps (held_inv v r d0) (reconcileMonitorRBAC r k)"
proof -
  let ?D = "discoveryRBACName (re_sha256 r)" and ?M = "monitorRBACName (re_sha256 r)"
  let ?I = "\<lambda>n f s. (same_id (fst s) d0 \<and> vw_held v (snd s)) \<and> tracked v n f s"
  note differ = rbac_names_differ(1) [of "re_sha256 r" d0, OF sha]
  have stat: "keeps (?I n f) (updateStatus k)" for n f
    by (rule triple_updateStatus [OF laws(2)]) (auto simp: tracked_def)
  have step: "?I n f (d, w')" if "?I n f (d, w)" "steps v (scope_footprint m) w w'" "n \<noteq> m" for n f m d w w'
    using that by (auto simp: steps_def scope_footprint_def intro!: tracked_step [OF _ that(2)])
  have names: "?D d = ?D d0" "?M d = ?M d0" if "?I n f (d, w)" for n f d w
    using that same_id_names [of d d0] by simp_all
  have "keeps (\<lambda>s. ?I (?M d0) dst_monitor_namespaces s \<and> tracked v (?D d0) dst_discovery_namespaces s)
      (reconcileDiscoveryRBAC r k)"
  proof (rule discovery.reconcile_keeps_both [OF laws _ _ _ stat])
    show "?I (?M d0) dst_monitor_namespaces (d, w')"
      if "?I (?M d0) dst_monitor_namespaces (d, w)" "steps v (scope_footprint (?D d0)) w w'" for d w w'
      by (rule step [OF that]) (use differ in simp)
  qed (erule names, simp add: tracked_def)
  then show "keeps (held_inv v r d0) (reconcileDiscoveryRBAC r k)"
    by (rule triple_weaken) (auto simp: held_inv_def)
  have "keeps (\<lambda>s. ?I (?D d0) dst_discovery_namespaces s \<and> tracked v (?M d0) dst_monitor_namespaces s)
      (reconcileMonitorRBAC r k)"
  proof (rule monitors.reconcile_keeps_both [OF laws _ _ _ stat])
    show "?I (?D d0) dst_discovery_namespaces (d, w')"
      if "?I (?D d0) dst_discovery_namespaces (d, w)" "steps v (scope_footprint (?M d0)) w w'" for d w w'
      by (rule step [OF that]) (use differ in simp)
  qed (erule names, simp add: tracked_def)
  then show "keeps (held_inv v r d0) (reconcileMonitorRBAC r k)"
    by (rule triple_weaken) (auto simp: held_inv_def)
qed

section \<open>The live Dashboard\<close>

lemma keeps_failAvailable:
  assumes "\<And>f. keeps I (set_instance (\<lambda>d. set_condition k typeAvailableDashboard CondFalse (fst f) (snd f d) d))"
    "keeps I (updateStatus k)"
  shows "keeps I (failAvailable k resource reason e)"
  unfolding failAvailable_def
  using assms(1) [of "(reason, \<lambda>d. ''Failed to reconcile '' @ resource @ '' for the custom resource ('' @ d_name d @
    ''): ('' @ e @ '')'')"] assms(2)
  by (intro triple_intros) simp_all

lemma held_inv_failAvailable:
  "status_laws k v \<Longrightarrow> keeps (held_inv v r d0) (failAvailable k resource reason e)"
  by (rule keeps_failAvailable) (rule held_inv_condition, erule held_inv_status)

lemma held_inv_orFail:
  assumes "status_laws k v" "keeps (held_inv v r d0) m"
  shows "keeps (held_inv v r d0) (orFail k resource reason m)"
  unfolding orFail_def by (intro triple_intros assms held_inv_failAvailable)

lemma held_inv_fail_deployment:
  assumes "status_laws k v"
  shows "keeps (held_inv v r d0) (fail_deployment k reason what e)"
  unfolding fail_deployment_def by (intro triple_intros held_inv_condition held_inv_status [OF assms])

lemma keeps_same_id:
  assumes "\<And>d. same_id d d0 \<Longrightarrow> keeps (held_inv v r d0) (f d)"
  shows "keeps (held_inv v r d0) (andThen instance_of f)"
proof (rule triple_instance)
  fix d
  show "triple (\<lambda>s. held_inv v r d0 s \<and> fst s = d) (f d) (\<lambda>_. held_inv v r d0) (held_inv v r d0)"
  proof (cases "same_id d d0")
    case True
    show ?thesis by (rule triple_pre [OF assms [OF True]]) blast
  next
    case False
    then show ?thesis by (auto simp: held_inv_def intro: tripleI)
  qed
qed

lemma held_inv_deployment:
  assumes laws: "cluster_laws k v (d_namespace d0) (d_name d0)"
  shows "keeps (held_inv v r d0) (reconcileDeployment re k)"
proof -
  note l = laws [unfolded cluster_laws_def]
  have cs: "client_steps v (\<lambda>_. {}) (ku_deployments k)" using l object_lawsD(1) by blast
  have calls: "keeps (held_inv v r d0) (kget (ku_deployments k) ns n)" "keeps (held_inv v r d0) (kcreate (ku_deployments k) x)"
    "keeps (held_inv v r d0) (kupdate (ku_deployments k) x)" for ns n x
    by (rule held_inv_harmless, simp add: within_calls [OF cs])+
  have again: "keeps (held_inv v r d0) (refetch k (d_namespace d) (d_name d))" if "same_id d d0" for d
    using that l held_inv_refetch [of k v d0 r] by (simp add: same_id_def)
  show ?thesis
    unfolding reconcileDeployment_def
    by (rule keeps_same_id) (intro triple_intros calls again held_inv_fail_deployment; use l in simp)
qed

lemma held_inv_reportStatus:
  assumes "status_laws k v" "object_laws k v"
  shows "keeps (held_inv v r d0) (reportStatus k counts)"
proof -
  have st: "keeps (held_inv v r d0) (set_status (\<lambda>st. st\<lparr>dst_observed_generation := g, dst_bound_service_cards := a,
      dst_bound_bookmarks := b, dst_bound_info_widgets := c, dst_url := u\<rparr>))" for g a b c u
    unfolding set_status_def by (rule held_inv_memory) simp_all
  have ready: "keeps (held_inv v r d0) (deploymentReady k n)" for n
    by (rule held_inv_harmless) (rule within_reads [OF assms(2)])
  have cond: "keeps (held_inv v r d0) (set_instance (set_condition k t s reason msg))" for t s reason msg
    using held_inv_condition [of v r d0 k t s reason "\<lambda>_. msg"] by simp
  show ?thesis
    unfolding reportStatus_def case_prod_unfold
    by (intro triple_intros st cond held_inv_orFail [OF assms(1)] ready held_inv_status [OF assms(1)])
qed

lemma held_inv_live:
  assumes laws: "cluster_laws k v (d_namespace d0) (d_name d0)" and sha: "\<And>key. length (re_sha256 r key) = 32"
  shows "keeps (held_inv v r d0) (reconcileLive r k)"
proof -
  note l = laws [unfolded cluster_laws_def]
  have all: "keeps (held_inv v r d0) (reconcileAllDashboardRBAC r k)"
    unfolding reconcileAllDashboardRBAC_def
    using l by (intro triple_intros held_inv_own_rbac held_inv_metrics held_inv_scopes sha) simp_all
  have objects: "keeps (held_inv v r d0) (reconcileService (re_sha256 r) k)" "keeps (held_inv v r d0) (reconcileIngress k)"
    "keeps (held_inv v r d0) (reconcileHTTPRoute (re_gateway_enabled r) k)"
    "keeps (held_inv v r d0) (reconcileNetworkPolicy (re_sha256 r) k)" "keeps (held_inv v r d0) (boundCountsForDashboard k)"
    using l by (intro held_inv_harmless within_objects within_reads; simp)+
  have option: "keeps I m \<Longrightarrow> (\<And>x. keeps I (f x)) \<Longrightarrow> keeps I (case opt of None \<Rightarrow> m | Some x \<Rightarrow> f x)"
    for I :: "'a cstate \<Rightarrow> bool" and m :: "(ctrl_result, 'a cstate) action" and f :: "ctrl_result \<Rightarrow> (ctrl_result, 'a cstate) action" and opt
    by (cases opt) simp_all
  show ?thesis
    unfolding reconcileLive_def
    using l by (intro triple_intros option held_inv_orFail held_inv_failAvailable all objects
        held_inv_deployment [OF laws] held_inv_reportStatus) simp_all
qed

section \<open>Finalizing\<close>

lemma deleteClusterMetricsRBAC_done:
  assumes laws: "rbac_laws k v" and run: "deleteClusterMetricsRBAC r k (d, w) = (Inr u, (d', w'))"
  shows "Cluster_Binding (clusterRBACName (re_sha256 r) d) \<notin> vw_grants v w'"
    "Cluster_Role (clusterRBACName (re_sha256 r) d) \<notin> vw_grants v w'"
proof -
  let ?n = "clusterRBACName (re_sha256 r) d"
  let ?b = "wrap ''deleting ClusterRoleBinding'' (kdelete (ku_cluster_role_bindings k) [] ?n)"
  let ?r = "wrap ''deleting ClusterRole'' (kdelete (ku_cluster_roles k) [] ?n)"
  obtain x d1 w1 y where b: "?b (d, w) = (x, (d1, w1))" and r: "?r (d1, w1) = (y, (d', w'))"
    and ok: "(case x of Inl e \<Rightarrow> Inl e | Inr _ \<Rightarrow> y) = Inr u"
    using run by (auto simp: deleteClusterMetricsRBAC_def Let_def run_simps from_sum_def)
  from ok obtain z where x: "x = Inr z" by (cases x) simp_all
  with ok have y: "y = Inr u" by simp
  from triple_success [OF triple_wrap [OF triple_kdelete [OF rbac_lawsD(7,8) [OF laws]]] _ b [unfolded x]]
  have 1: "d1 = d" "Cluster_Binding ?n \<notin> vw_grants v w1" by simp_all
  have "within v d {} ?r" by (intro within_intros within_calls(3) [OF rbac_lawsD(5) [OF laws]])
  from withinD [OF this r [unfolded 1(1)]] 1(2) show "Cluster_Binding ?n \<notin> vw_grants v w'" by (auto simp: steps_def)
  from triple_success [OF triple_wrap [OF triple_kdelete [OF rbac_lawsD(5,6) [OF laws]]] _ r [unfolded y 1(1)]]
  show "Cluster_Role ?n \<notin> vw_grants v w'" by simp
qed

lemma within_deleteClusterMetricsRBAC: "rbac_laws k v \<Longrightarrow> within v d {} (deleteClusterMetricsRBAC r k)"
  unfolding deleteClusterMetricsRBAC_def Let_def
  by (intro within_instance within_intros within_calls(3) [OF rbac_lawsD(5)] within_calls(3) [OF rbac_lawsD(7)])

text \<open>One deletion after the other: what is gone stays gone.\<close>

definition gone :: "'w view \<Rightarrow> DashboardReconciler \<Rightarrow> dashboard \<Rightarrow> dashboard \<Rightarrow> grant set \<Rightarrow> 'w cstate \<Rightarrow> bool" where
  "gone v r d0 d X s \<longleftrightarrow> held_inv v r d0 s \<and> fst s = d \<and> vw_grants v (snd s) \<inter> X = {}"

lemma triple_gone:
  assumes m: "within v d {} m"
    and clean: "\<And>w u w'. held_inv v r d0 (d, w) \<Longrightarrow> m (d, w) = (Inr u, (d, w')) \<Longrightarrow> vw_grants v w' \<inter> Y = {}"
  shows "triple (gone v r d0 d X) m (\<lambda>_. gone v r d0 d (X \<union> Y)) (held_inv v r d0)"
proof -
  have step: "d' = d \<and> vw_grants v w' \<subseteq> vw_grants v w \<and> held_inv v r d0 (d, w')"
    if "held_inv v r d0 (d, w)" "m (d, w) = (res, (d', w'))" for w res d' w'
  proof -
    from withinD [OF m that(2)] have 1: "d' = d" "steps v {} w w'" by simp_all
    have "tracked v n f (d, w')" if "tracked v n f (d, w)" for n f
      using tracked_step [OF that 1(2)] by simp
    with that(1) 1 show ?thesis by (auto simp: held_inv_def steps_def)
  qed
  show ?thesis
  proof (rule tripleI)
    fix s u s' assume pre: "gone v r d0 d X s" and run: "m s = (Inr u, s')"
    obtain w d' w' where s: "s = (d, w)" "s' = (d', w')" using pre by (cases s, cases s') (auto simp: gone_def)
    from pre s have inv: "held_inv v r d0 (d, w)" by (simp add: gone_def)
    from step [OF inv run [unfolded s]] have st: "d' = d" "vw_grants v w' \<subseteq> vw_grants v w" "held_inv v r d0 (d, w')" by simp_all
    with clean [OF inv run [unfolded s st(1)]] pre s show "gone v r d0 d (X \<union> Y) s'" by (auto simp: gone_def)
  next
    fix s e s' assume pre: "gone v r d0 d X s" and run: "m s = (Inl e, s')"
    obtain w d' w' where s: "s = (d, w)" "s' = (d', w')" using pre by (cases s, cases s') (auto simp: gone_def)
    from pre s have inv: "held_inv v r d0 (d, w)" by (simp add: gone_def)
    from step [OF inv run [unfolded s]] s show "held_inv v r d0 s'" by simp
  qed
qed

lemma triple_finalizer:
  assumes laws: "rbac_laws k v"
  shows "triple (held_inv v r d0) (doFinalizerOperationsForDashboard r k)
    (\<lambda>_ s. held_inv v r d0 s \<and> no_grants v r d0 s) (held_inv v r d0)"
  unfolding doFinalizerOperationsForDashboard_def
proof (rule triple_instance)
  fix d
  let ?D = "discoveryRBACName (re_sha256 r) d0" and ?M = "monitorRBACName (re_sha256 r) d0"
    and ?C = "clusterRBACName (re_sha256 r) d0"
  let ?G = "gone v r d0 d" and ?E = "held_inv v r d0"
  show "triple (\<lambda>s. ?E s \<and> fst s = d)
      (andThen (deleteDiscoveryRoleBindings r k (dst_discovery_namespaces (d_status d))) (\<lambda>_.
       andThen (deleteDiscoveryClusterRole r k) (\<lambda>_.
       andThen (deleteMonitorRoleBindings r k (dst_monitor_namespaces (d_status d))) (\<lambda>_.
       andThen (deleteMonitorClusterRole r k) (\<lambda>_. deleteClusterMetricsRBAC r k)))))
      (\<lambda>_ s. ?E s \<and> no_grants v r d0 s) ?E"
  proof (cases "same_id d d0")
    case False
    then show ?thesis by (auto simp: held_inv_def intro: tripleI)
  next
    case True
    note names = same_id_names [OF True, of "re_sha256 r"]
    from True have ns: "d_namespace d = d_namespace d0" by (simp add: same_id_def)
    have 1: "triple (?G X) (deleteDiscoveryRoleBindings r k (dst_discovery_namespaces (d_status d)))
        (\<lambda>_. ?G (X \<union> foreign d0 ?D)) ?E" for X
    proof (rule triple_gone [OF discovery.unbind [OF laws]])
      fix w u w' assume "held_inv v r d0 (d, w)"
        and run: "deleteDiscoveryRoleBindings r k (dst_discovery_namespaces (d_status d)) (d, w) = (Inr u, (d, w'))"
      then have "tracked v (discoveryRBACName (re_sha256 r) d) dst_discovery_namespaces (d, w)"
        by (simp add: held_inv_def names)
      from discovery.unbind_tracked [OF laws this run]
      show "vw_grants v w' \<inter> foreign d0 ?D = {}" by (auto simp: foreign_def names ns)
    qed
    have 2: "triple (?G X) (deleteDiscoveryClusterRole r k) (\<lambda>_. ?G (X \<union> {Cluster_Role ?D})) ?E" for X
      by (rule triple_gone [OF discovery.drop_role [OF laws]])
        (simp add: discovery.drop_role_done [OF laws, where d = d and r = r, unfolded names])
    have 3: "triple (?G X) (deleteMonitorRoleBindings r k (dst_monitor_namespaces (d_status d)))
        (\<lambda>_. ?G (X \<union> foreign d0 ?M)) ?E" for X
    proof (rule triple_gone [OF monitors.unbind [OF laws]])
      fix w u w' assume "held_inv v r d0 (d, w)"
        and run: "deleteMonitorRoleBindings r k (dst_monitor_namespaces (d_status d)) (d, w) = (Inr u, (d, w'))"
      then have "tracked v (monitorRBACName (re_sha256 r) d) dst_monitor_namespaces (d, w)"
        by (simp add: held_inv_def names)
      from monitors.unbind_tracked [OF laws this run]
      show "vw_grants v w' \<inter> foreign d0 ?M = {}" by (auto simp: foreign_def names ns)
    qed
    have 4: "triple (?G X) (deleteMonitorClusterRole r k) (\<lambda>_. ?G (X \<union> {Cluster_Role ?M})) ?E" for X
      by (rule triple_gone [OF monitors.drop_role [OF laws]])
        (simp add: monitors.drop_role_done [OF laws, where d = d and r = r, unfolded names])
    have 5: "triple (?G X) (deleteClusterMetricsRBAC r k) (\<lambda>_. ?G (X \<union> {Cluster_Role ?C, Cluster_Binding ?C})) ?E" for X
      by (rule triple_gone [OF within_deleteClusterMetricsRBAC [OF laws]])
        (simp add: deleteClusterMetricsRBAC_done [OF laws, where d = d and r = r, unfolded names])
    have all: "triple (?G {})
      (andThen (deleteDiscoveryRoleBindings r k (dst_discovery_namespaces (d_status d))) (\<lambda>_.
       andThen (deleteDiscoveryClusterRole r k) (\<lambda>_.
       andThen (deleteMonitorRoleBindings r k (dst_monitor_namespaces (d_status d))) (\<lambda>_.
       andThen (deleteMonitorClusterRole r k) (\<lambda>_. deleteClusterMetricsRBAC r k)))))
      (\<lambda>_. ?G ({} \<union> foreign d0 ?D \<union> {Cluster_Role ?D} \<union> foreign d0 ?M \<union> {Cluster_Role ?M} \<union> {Cluster_Role ?C, Cluster_Binding ?C})) ?E"
      by (rule triple_andThen [OF 1], rule triple_andThen [OF 2], rule triple_andThen [OF 3], rule triple_andThen [OF 4],
          rule 5)
    show ?thesis
      by (rule triple_weaken [OF all])
        (auto simp: gone_def no_grants_def unowned_def cluster_grants_def)
  qed
qed

lemma no_grants_shrink: "no_grants v r d0 (d, w) \<Longrightarrow> vw_grants v w' \<subseteq> vw_grants v w \<Longrightarrow> no_grants v r d0 (d', w')"
  by (auto simp: no_grants_def)

lemma no_grants_kept:
  assumes laws: "cluster_laws k v ns n"
  shows "keeps (no_grants v r d0) (set_instance f)" "keeps (no_grants v r d0) (updateStatus k)"
    "keeps (no_grants v r d0) (refetch k ns n)" "keeps (no_grants v r d0) (updateInstance k)"
proof -
  note l = laws [unfolded cluster_laws_def]
  show "keeps (no_grants v r d0) (set_instance f)" by (rule keeps_set_instance) (simp add: no_grants_def)
  have "status_laws k v" using l by simp
  then show "keeps (no_grants v r d0) (updateStatus k)"
    by (rule triple_updateStatus) (auto simp: no_grants_def)
  have "no_grants v r d0 s'" if "no_grants v r d0 s" "refetch k ns n s = (res, s')" for s res s'
    using that refetch_run(1) [of k v ns n "fst s" "snd s" res "fst s'" "snd s'"] l
    by (auto simp: no_grants_def steps_def)
  then show "keeps (no_grants v r d0) (refetch k ns n)" by (intro tripleI)
  have "no_grants v r d0 s'" if "no_grants v r d0 s" "updateInstance k s = (res, s')" for s res s'
  proof -
    obtain o' w' where u: "ku_update_dashboard k (fst s) (snd s) = (o', w')" by fastforce
    with l have "vw_grants v w' \<subseteq> vw_grants v (snd s)" unfolding dashboard_laws_def by blast
    moreover have "snd s' = w'" using that(2) u by (auto simp: updateInstance_def written_def)
    ultimately show ?thesis using that(1) by (auto simp: no_grants_def)
  qed
  then show "keeps (no_grants v r d0) (updateInstance k)" by (intro tripleI)
qed

lemma keeps_pair [triple_intros]: "(\<And>x y. p = (x, y) \<Longrightarrow> keeps I (f x y)) \<Longrightarrow> keeps I (case p of (x, y) \<Rightarrow> f x y)"
  by (cases p) simp

lemma triple_finalize:
  assumes laws: "cluster_laws k v (d_namespace d0) (d_name d0)"
  shows "triple (held_inv v r d0) (finalizeDashboard r k (d_namespace d0) (d_name d0))
    (\<lambda>_ s. accounted v r d0 (snd s)) (\<lambda>s. accounted v r d0 (snd s))"
proof -
  let ?ns = "d_namespace d0" and ?n = "d_name d0" and ?N = "no_grants v r d0" and ?H = "held_inv v r d0"
    and ?A = "\<lambda>s. accounted v r d0 (snd s)"
  note l = laws [unfolded cluster_laws_def]
  have acc: "triple ?H m (\<lambda>_. ?A) ?A" if "keeps ?H m" for m :: "(ctrl_result, 'a cstate) action"
    by (rule triple_weaken [OF that]) (rule held_inv_accounted | assumption)+
  have rest: "keeps ?N (andThen (refetch k ?ns ?n) (\<lambda>_.
       andThen (set_degraded k CondTrue ''Finalizer operations for custom resource '' '' name were successfully accomplished'') (\<lambda>_.
       andThen (updateStatus k) (\<lambda>_.
       andThen (removeFinalizer k) (\<lambda>_. ret Done)))))"
    unfolding set_degraded_def removeFinalizer_def
    by (intro triple_intros no_grants_kept [OF laws])
  have ops: "triple ?H (doFinalizerOperationsForDashboard r k) (\<lambda>_. ?N) ?A"
    by (rule triple_weaken [OF triple_finalizer]) (use l held_inv_accounted in auto)
  have tail: "triple ?N (andThen (refetch k ?ns ?n) (\<lambda>_.
       andThen (set_degraded k CondTrue ''Finalizer operations for custom resource '' '' name were successfully accomplished'') (\<lambda>_.
       andThen (updateStatus k) (\<lambda>_.
       andThen (removeFinalizer k) (\<lambda>_. ret Done))))) (\<lambda>_. ?A) ?A"
    by (rule triple_weaken [OF rest]) (use no_grants_accounted in blast)+
  have deg: "triple ?H (set_degraded k CondUnknown pre post) (\<lambda>_. ?H) ?A" for pre post
    unfolding set_degraded_def by (rule triple_weaken [OF held_inv_condition]) (auto intro: held_inv_accounted)
  have upd: "triple ?H (updateStatus k) (\<lambda>_. ?H) ?A"
    by (rule triple_weaken [OF held_inv_status]) (use l in \<open>auto intro: held_inv_accounted\<close>)
  show ?thesis
    unfolding finalizeDashboard_def
  proof (rule triple_instance)
    fix d
    show "triple (\<lambda>s. ?H s \<and> fst s = d)
       (if \<not> ku_contains_finalizer k d instanceFinalizer then ret Done
        else andThen (set_degraded k CondUnknown ''Performing finalizer operations for the custom resource: '' '' '') (\<lambda>_.
         andThen (updateStatus k) (\<lambda>_.
         andThen (doFinalizerOperationsForDashboard r k) (\<lambda>_.
         andThen (refetch k ?ns ?n) (\<lambda>_.
         andThen (set_degraded k CondTrue ''Finalizer operations for custom resource '' '' name were successfully accomplished'') (\<lambda>_.
         andThen (updateStatus k) (\<lambda>_.
         andThen (removeFinalizer k) (\<lambda>_. ret Done)))))))) (\<lambda>_. ?A) ?A"
      by (rule triple_pre [where P = ?H], rule triple_if, rule acc, rule keeps_simple,
          rule triple_andThen [OF deg], rule triple_andThen [OF upd], rule triple_andThen [OF ops tail]) blast
  qed
qed

section \<open>The whole reconcile\<close>

lemma triple_fetch:
  assumes laws: "dashboard_laws k v (d_namespace d0) (d_name d0)"
  shows "triple (\<lambda>s. accounted v r d0 (snd s)) (fetchDashboard k (d_namespace d0) (d_name d0))
    (\<lambda>found s. if found then in_sync v r d0 s else accounted v r d0 (snd s)) (\<lambda>s. accounted v r d0 (snd s))"
proof -
  have go: "accounted v r d0 w1 \<and> (res = Inr True \<longrightarrow> in_sync v r d0 (d1, w1))"
    if pre: "accounted v r d0 w" and run: "fetchDashboard k (d_namespace d0) (d_name d0) (d, w) = (res, (d1, w1))" for d w res d1 w1
  proof -
    obtain g w' where get: "ku_get_dashboard k (d_namespace d0) (d_name d0) w = (g, w')" by fastforce
    with laws have st: "steps v {} w w'" "\<And>d. g = Found d \<Longrightarrow> d_namespace d = d_namespace d0 \<and> d_name d = d_name d0 \<and>
        d_status d = vw_status v w' \<and> (instanceFinalizer \<in> set (d_finalizers d) \<longleftrightarrow> vw_held v w')"
      unfolding dashboard_laws_def by blast+
    have "accounted v r d0 w'" by (rule accounted_shrink [OF pre]) (use st(1) in \<open>auto simp: steps_def\<close>)
    with st(2) get run show ?thesis
      by (auto simp: fetchDashboard_def in_sync_def same_id_def split: get_result.splits)
  qed
  show ?thesis
  proof (rule tripleI)
    fix s x s' assume "accounted v r d0 (snd s)" "fetchDashboard k (d_namespace d0) (d_name d0) s = (Inr x, s')"
    with go [of "snd s" "fst s" "Inr x" "fst s'" "snd s'"]
    show "if x then in_sync v r d0 s' else accounted v r d0 (snd s')" by (cases x) simp_all
  next
    fix s e s' assume "accounted v r d0 (snd s)" "fetchDashboard k (d_namespace d0) (d_name d0) s = (Inl e, s')"
    with go [of "snd s" "fst s" "Inl e" "fst s'" "snd s'"] show "accounted v r d0 (snd s')" by simp
  qed
qed

lemma keeps_initConditions:
  assumes laws: "cluster_laws k v (d_namespace d0) (d_name d0)"
  shows "keeps (in_sync v r d0) (initConditions k (d_namespace d0) (d_name d0))"
proof -
  note l = laws [unfolded cluster_laws_def]
  have cond: "keeps (in_sync v r d0) (set_instance (set_condition k t st reason msg))" for t st reason msg
    by (rule keeps_set_instance) (simp add: in_sync_def same_id_def)
  have "status_laws k v" using l by simp
  then have upd: "keeps (in_sync v r d0) (updateStatus k)"
    by (rule triple_updateStatus) (auto simp: in_sync_def elim: accounted_shrink)
  have "in_sync v r d0 s'" if pre: "in_sync v r d0 s" and run: "refetch k (d_namespace d0) (d_name d0) s = (res, s')" for s res s'
  proof -
    obtain d w d' w' where s: "s = (d, w)" "s' = (d', w')" by fastforce
    have dl: "dashboard_laws k v (d_namespace d0) (d_name d0)" using l by simp
    note f = refetch_run [OF dl run [unfolded s]]
    have acc: "accounted v r d0 w'"
      by (rule accounted_shrink [of _ _ _ w]) (use f(1) pre in \<open>auto simp: s steps_def in_sync_def\<close>)
    show ?thesis
    proof (cases res)
      case (Inl e)
      with f(1,3) pre acc show ?thesis by (auto simp: s in_sync_def steps_def)
    next
      case (Inr u)
      with f(2) acc show ?thesis by (simp add: s in_sync_def same_id_def)
    qed
  qed
  then have ref: "keeps (in_sync v r d0) (refetch k (d_namespace d0) (d_name d0))" by (intro tripleI)
  show ?thesis unfolding initConditions_def by (intro triple_intros cond upd ref)
qed

lemma triple_ensureFinalizer:
  assumes laws: "cluster_laws k v (d_namespace d0) (d_name d0)"
  shows "triple (in_sync v r d0) (ensureFinalizer k) (\<lambda>_. held_inv v r d0) (\<lambda>s. accounted v r d0 (snd s))"
proof -
  note l = laws [unfolded cluster_laws_def]
  have fin: "ku_contains_finalizer k d f \<longleftrightarrow> f \<in> set (d_finalizers d)" for d f
    using l by (simp add: finalizer_laws_def)
  have add: "\<exists>fs. ku_add_finalizer k d f = d\<lparr>d_finalizers := fs\<rparr> \<and> set fs = insert f (set (d_finalizers d))" for d f
    using l by (simp add: finalizer_laws_def)
  let ?A = "\<lambda>s. accounted v r d0 (snd s)"
  have upd: "triple (\<lambda>s. in_sync v r d0 (d, snd s) \<and> instanceFinalizer \<notin> set (d_finalizers d) \<and>
      fst s = ku_add_finalizer k d instanceFinalizer) (updateInstance k) (\<lambda>_. held_inv v r d0) ?A" for d
  proof -
    have go: "?A s' \<and> (\<forall>u. res = Inr u \<longrightarrow> held_inv v r d0 s')"
      if pre: "in_sync v r d0 (d, snd s)" "instanceFinalizer \<notin> set (d_finalizers d)"
        "fst s = ku_add_finalizer k d instanceFinalizer" and run: "updateInstance k s = (res, s')" for s res s'
    proof -
      obtain o' w' where u: "ku_update_dashboard k (fst s) (snd s) = (o', w')" by fastforce
      obtain fs where fs: "fst s = d\<lparr>d_finalizers := fs\<rparr>" "instanceFinalizer \<in> set fs"
        using add [of d instanceFinalizer] pre(3) by auto
      have s': "s' = (fst s, w')" "res = Inr u' \<Longrightarrow> o' = None" for u'
        using run u by (auto simp: updateInstance_def written_def split: option.splits)
      from u l have law: "vw_grants v w' \<subseteq> vw_grants v (snd s)" "vw_held v w' \<Longrightarrow> vw_status v w' = vw_status v (snd s)"
        "vw_held v w' = (instanceFinalizer \<in> set (d_finalizers (fst s))) \<or> o' \<noteq> None \<and> vw_held v w' = vw_held v (snd s)"
        unfolding dashboard_laws_def by blast+
      from pre(1,2) have none: "no_grants v r d0 s" "same_id d d0"
        by (auto simp: in_sync_def accounted_def no_grants_def)
      from no_grants_shrink [of v r d0 "fst s" "snd s" w' "fst s"] none(1) law(1)
      have none': "no_grants v r d0 s'" by (simp add: s')
      have "held_inv v r d0 s'" if "res = Inr u'" for u'
      proof -
        have "o' = None" using s'(2) [OF that] .
        with law(3) fs have "vw_held v w'" by simp
        moreover have "tracked v (discoveryRBACName (re_sha256 r) d0) dst_discovery_namespaces s'"
          "tracked v (monitorRBACName (re_sha256 r) d0) dst_monitor_namespaces s'"
          using none' none(2) fs(1) unowned_bindings [of _ d0 r]
          by (auto simp: no_grants_def tracked_def s' same_id_def)
        ultimately show ?thesis using none(2) fs(1) by (simp add: held_inv_def s')
      qed
      with no_grants_accounted [OF none'] show ?thesis by blast
    qed
    show ?thesis by (rule tripleI) (use go in blast)+
  qed
  show ?thesis
    unfolding ensureFinalizer_def
  proof (rule triple_instance)
    fix d
    show "triple (\<lambda>s. in_sync v r d0 s \<and> fst s = d)
      (if \<not> ku_contains_finalizer k d instanceFinalizer
       then andThen (set_instance (\<lambda>d. ku_add_finalizer k d instanceFinalizer)) (\<lambda>_. updateInstance k)
       else ret ()) (\<lambda>_. held_inv v r d0) ?A"
    proof (cases "ku_contains_finalizer k d instanceFinalizer")
      case True
      have "triple (\<lambda>s. in_sync v r d0 s \<and> fst s = d) (ret ()) (\<lambda>_. held_inv v r d0) ?A"
        by (rule triple_ret) (use True fin in_sync_held in blast)
      with True show ?thesis by simp
    next
      case False
      have "triple (\<lambda>s. in_sync v r d0 s \<and> fst s = d) (set_instance (\<lambda>d. ku_add_finalizer k d instanceFinalizer))
          (\<lambda>_ s. in_sync v r d0 (d, snd s) \<and> instanceFinalizer \<notin> set (d_finalizers d) \<and>
            fst s = ku_add_finalizer k d instanceFinalizer) ?A"
        by (rule tripleI) (use False fin in \<open>auto simp: set_instance_def\<close>)
      from triple_andThen [OF this upd] False show ?thesis by simp
    qed
  qed
qed

lemma triple_Reconcile:
  assumes laws: "cluster_laws k v (d_namespace d0) (d_name d0)" and sha: "\<And>key. length (re_sha256 r key) = 32"
  shows "keeps (\<lambda>s. accounted v r d0 (snd s)) (Reconcile r k (d_namespace d0) (d_name d0))"
proof -
  let ?A = "\<lambda>s. accounted v r d0 (snd s)" and ?H = "held_inv v r d0"
  note l = laws [unfolded cluster_laws_def]
  have live: "triple ?H (reconcileLive r k) (\<lambda>_. ?A) ?A"
    by (rule triple_weaken [OF held_inv_live [OF laws sha]]) (rule held_inv_accounted | assumption)+
  have branch: "triple ?H (andThen instance_of (\<lambda>d. if d_deleting d
      then finalizeDashboard r k (d_namespace d0) (d_name d0) else reconcileLive r k)) (\<lambda>_. ?A) ?A"
    by (rule triple_instance) (auto intro: triple_pre [OF live] triple_pre [OF triple_finalize [OF laws]])
  have init: "triple (in_sync v r d0) (initConditions k (d_namespace d0) (d_name d0)) (\<lambda>_. in_sync v r d0) ?A"
    by (rule triple_weaken [OF keeps_initConditions [OF laws]]) (auto simp: in_sync_def)
  have found: "triple (in_sync v r d0) (andThen (initConditions k (d_namespace d0) (d_name d0)) (\<lambda>_.
      andThen (ensureFinalizer k) (\<lambda>_.
      andThen instance_of (\<lambda>d. if d_deleting d then finalizeDashboard r k (d_namespace d0) (d_name d0)
        else reconcileLive r k)))) (\<lambda>_. ?A) ?A"
    by (rule triple_andThen [OF init], rule triple_andThen [OF triple_ensureFinalizer [OF laws] branch])
  show ?thesis
    unfolding Reconcile_def
  proof (rule triple_andThen [OF triple_fetch])
    show "dashboard_laws k v (d_namespace d0) (d_name d0)" using l by simp
    show "triple (\<lambda>s. if x then in_sync v r d0 s else accounted v r d0 (snd s))
       (if \<not> x then ret Done else andThen (initConditions k (d_namespace d0) (d_name d0)) (\<lambda>_.
          andThen (ensureFinalizer k) (\<lambda>_.
          andThen instance_of (\<lambda>d. if d_deleting d then finalizeDashboard r k (d_namespace d0) (d_name d0)
            else reconcileLive r k)))) (\<lambda>_. ?A) ?A" for x
      using found keeps_simple(1) [of ?A Done] by (cases x) simp_all
  qed
qed

section \<open>The server in memory keeps the promises\<close>

definition mem_view :: "mem view" where
  "mem_view =
     \<lparr>vw_grants = (\<lambda>w. {Binding (om_namespace (rb_meta b)) (om_name (rb_meta b)) |b. b \<in> set (mem_role_bindings w)} \<union>
        {Cluster_Role (om_name (ro_meta x)) |x. x \<in> set (mem_cluster_roles w)} \<union>
        {Cluster_Binding (om_name (rb_meta b)) |b. b \<in> set (mem_cluster_role_bindings w)}),
      vw_status = (\<lambda>w. case mem_dashboard w of Some d \<Rightarrow> d_status d | None \<Rightarrow> zero_dashboard_status),
      vw_held = (\<lambda>w. case mem_dashboard w of Some d \<Rightarrow> instanceFinalizer \<in> set (d_finalizers d) | None \<Rightarrow> False)\<rparr>"

lemma list_client_steps:
  assumes "\<And>f w. vw_status v (upd f w) = vw_status v w" "\<And>f w. vw_held v (upd f w) = vw_held v w"
    and grants: "\<And>f w. vw_grants v (upd f w) \<subseteq> others w \<union> (\<Union>x\<in>set (f (sel w)). g (key x))"
      "\<And>w. vw_grants v w = others w \<union> (\<Union>x\<in>set (sel w). g (key x))"
    and g: "\<And>m m'. om_namespace m = om_namespace m' \<Longrightarrow> om_name m = om_name m' \<Longrightarrow> g m = g m'" "\<And>x. g (key x) \<subseteq> F x"
  shows "client_steps v F (list_client sel upd key)"
proof -
  have create: "vw_grants v (upd (\<lambda>xs. x # xs) w) \<subseteq> vw_grants v w \<union> F x" for x w
    using grants(1) [of "\<lambda>xs. x # xs" w] g(2) [of x] unfolding grants(2) by fastforce
  have filter: "vw_grants v (upd (filter Q) w) \<subseteq> vw_grants v w" for Q w
    using grants(1) [of "filter Q" w] unfolding grants(2) by fastforce
  have update: "vw_grants v (upd (map (\<lambda>y. if at_key key (om_namespace (key x)) (om_name (key x)) y then x else y)) w) \<subseteq>
      vw_grants v w" (is "vw_grants v (upd (map ?f) w) \<subseteq> _") for x w
  proof -
    have "g (key (?f y)) = g (key y)" for y
      by (rule g(1)) (auto simp: at_key_def)
    then have "(\<Union>y\<in>set (map ?f (sel w)). g (key y)) = (\<Union>y\<in>set (sel w). g (key y))"
      by (simp only: set_map image_image)
    then show ?thesis using grants(1) [of "map ?f" w] unfolding grants(2) by simp
  qed
  show ?thesis
    unfolding client_steps_def steps_def
    using create filter update by (simp add: list_client_def assms(1,2))
qed

lemma list_client_deletes_grant:
  assumes "\<And>w. vw_grants v w = others w \<union> (\<Union>x\<in>set (sel w). {g (om_namespace (key x)) (om_name (key x))})"
    and "\<And>f w. sel (upd f w) = f (sel w)" "\<And>w n ns. g ns n \<notin> others w" "\<And>a b c e. g a b = g c e \<longleftrightarrow> a = c \<and> b = e"
  shows "client_deletes v g (list_client sel upd key)"
  unfolding client_deletes_def
  using assms(2-) by (auto simp: list_client_def at_key_def list_ex_iff assms(1))

lemma cluster_client_laws:
  assumes "client_steps v F (list_client sel upd (\<lambda>x. (key x)\<lparr>om_namespace := []\<rparr>))"
    and "client_deletes v (\<lambda>_. g) (list_client sel upd (\<lambda>x. (key x)\<lparr>om_namespace := []\<rparr>)) \<or>
      (\<forall>w n. (\<forall>e. fst (kc_delete (list_client sel upd (\<lambda>x. (key x)\<lparr>om_namespace := []\<rparr>)) [] n w) \<noteq> GetError e) \<longrightarrow>
        g n \<notin> vw_grants v (snd (kc_delete (list_client sel upd (\<lambda>x. (key x)\<lparr>om_namespace := []\<rparr>)) [] n w)))"
  shows "client_steps v F (cluster_client sel upd key)" "client_deletes v (\<lambda>_. g) (cluster_client sel upd key)"
  using assms by (auto simp: client_steps_def client_deletes_def cluster_client_def Let_def)

lemma mem_rbac_laws: "rbac_laws (mem_kube rd) mem_view"
proof -
  let ?b = "\<lambda>w. \<Union>b\<in>set (mem_role_bindings w). {Binding (om_namespace (rb_meta b)) (om_name (rb_meta b))}"
    and ?c = "\<lambda>w. \<Union>x\<in>set (mem_cluster_roles w). {Cluster_Role (om_name (ro_meta x))}"
    and ?d = "\<lambda>w. \<Union>b\<in>set (mem_cluster_role_bindings w). {Cluster_Binding (om_name (rb_meta b))}"
  have view: "vw_grants mem_view w = ?b w \<union> ?c w \<union> ?d w" for w
    by (auto simp: mem_view_def)
  have keep: "vw_status mem_view (mem_service_accounts_update f1 w) = vw_status mem_view w"
    "vw_status mem_view (mem_roles_update f2 w) = vw_status mem_view w"
    "vw_status mem_view (mem_role_bindings_update f3 w) = vw_status mem_view w"
    "vw_status mem_view (mem_cluster_roles_update f2 w) = vw_status mem_view w"
    "vw_status mem_view (mem_cluster_role_bindings_update f3 w) = vw_status mem_view w"
    "vw_held mem_view (mem_service_accounts_update f1 w) = vw_held mem_view w"
    "vw_held mem_view (mem_roles_update f2 w) = vw_held mem_view w"
    "vw_held mem_view (mem_role_bindings_update f3 w) = vw_held mem_view w"
    "vw_held mem_view (mem_cluster_roles_update f2 w) = vw_held mem_view w"
    "vw_held mem_view (mem_cluster_role_bindings_update f3 w) = vw_held mem_view w" for f1 f2 f3 w
    by (simp_all add: mem_view_def)
  have 1: "client_steps mem_view (\<lambda>_. {}) (list_client mem_service_accounts mem_service_accounts_update sa_meta)"
    by (rule list_client_steps [where others = "vw_grants mem_view" and g = "\<lambda>_. {}"]) (simp_all add: keep view)
  have 2: "client_steps mem_view (\<lambda>_. {}) (list_client mem_roles mem_roles_update ro_meta)"
    by (rule list_client_steps [where others = "vw_grants mem_view" and g = "\<lambda>_. {}"]) (simp_all add: keep view)
  have 3: "client_steps mem_view binding_grant (list_client mem_role_bindings mem_role_bindings_update rb_meta)"
    by (rule list_client_steps [where others = "\<lambda>w. ?c w \<union> ?d w" and g = "\<lambda>m. {Binding (om_namespace m) (om_name m)}"])
      (auto simp: keep view binding_grant_def)
  have 4: "client_deletes mem_view Binding (list_client mem_role_bindings mem_role_bindings_update rb_meta)"
    by (rule list_client_deletes_grant [where others = "\<lambda>w. ?c w \<union> ?d w"]) (auto simp: view)
  have 5: "client_steps mem_view cluster_role_grant
      (list_client mem_cluster_roles mem_cluster_roles_update (\<lambda>x. (ro_meta x)\<lparr>om_namespace := []\<rparr>))"
    by (rule list_client_steps [where others = "\<lambda>w. ?b w \<union> ?d w" and g = "\<lambda>m. {Cluster_Role (om_name m)}"])
      (auto simp: keep view cluster_role_grant_def)
  have 6: "client_steps mem_view cluster_binding_grant
      (list_client mem_cluster_role_bindings mem_cluster_role_bindings_update (\<lambda>x. (rb_meta x)\<lparr>om_namespace := []\<rparr>))"
    by (rule list_client_steps [where others = "\<lambda>w. ?b w \<union> ?c w" and g = "\<lambda>m. {Cluster_Binding (om_name m)}"])
      (auto simp: keep view cluster_binding_grant_def)
  have 7: "Cluster_Role n \<notin> vw_grants mem_view (snd (kc_delete
      (list_client mem_cluster_roles mem_cluster_roles_update (\<lambda>x. (ro_meta x)\<lparr>om_namespace := []\<rparr>)) [] n w))" for n w
    by (auto simp: view list_client_def at_key_def list_ex_iff)
  have 8: "Cluster_Binding n \<notin> vw_grants mem_view (snd (kc_delete
      (list_client mem_cluster_role_bindings mem_cluster_role_bindings_update (\<lambda>x. (rb_meta x)\<lparr>om_namespace := []\<rparr>)) [] n w))" for n w
    by (auto simp: view list_client_def at_key_def list_ex_iff)
  note cr = cluster_client_laws [OF 5 disjI2, where g = Cluster_Role]
  note cb = cluster_client_laws [OF 6 disjI2, where g = Cluster_Binding]
  show ?thesis
    unfolding rbac_laws_def
    using 1 2 3 4 cr cb 7 8 by (simp add: mem_kube_def)
qed

lemma mem_status_laws: "status_laws (mem_kube rd) mem_view"
  by (auto simp: status_laws_def mem_kube_def mem_view_def split: option.splits)

lemma mem_dashboard_laws: "dashboard_laws (mem_kube rd) mem_view ns n"
  by (auto simp: dashboard_laws_def mem_kube_def mem_view_def steps_def split: option.splits if_splits)

lemma mem_finalizer_laws: "finalizer_laws (mem_kube rd)"
proof -
  let ?k = "mem_kube rd"
  have add: "\<exists>fs. ku_add_finalizer ?k d f = d\<lparr>d_finalizers := fs\<rparr> \<and> set fs = insert f (set (d_finalizers d))" for d f
    by (rule exI [of _ "if f \<in> set (d_finalizers d) then d_finalizers d else d_finalizers d @ [f]"])
      (auto simp: mem_kube_def)
  have remove: "\<exists>fs. ku_remove_finalizer ?k d f = (d\<lparr>d_finalizers := fs\<rparr>, f \<in> set (d_finalizers d)) \<and>
      set fs = set (d_finalizers d) - {f}" for d f
    by (rule exI [of _ "filter (\<lambda>x. x \<noteq> f) (d_finalizers d)"]) (auto simp: mem_kube_def)
  show ?thesis
    unfolding finalizer_laws_def using add remove by (simp add: mem_kube_def)
qed

lemma mem_object_laws: "object_laws (mem_kube rd) mem_view"
proof -
  note rule = list_client_steps [where v = mem_view and others = "vw_grants mem_view" and g = "\<lambda>_. {}" and F = "\<lambda>_. {}"]
  have "client_steps mem_view (\<lambda>_. {}) (list_client mem_deployments mem_deployments_update dep_meta)"
    "client_steps mem_view (\<lambda>_. {}) (list_client mem_services mem_services_update sv_meta)"
    "client_steps mem_view (\<lambda>_. {}) (list_client mem_ingresses mem_ingresses_update ig_meta)"
    "client_steps mem_view (\<lambda>_. {}) (list_client mem_http_routes mem_http_routes_update hr_meta)"
    "client_steps mem_view (\<lambda>_. {}) (list_client mem_network_policies mem_network_policies_update np_meta)"
    by (rule rule; simp add: mem_view_def)+
  then show ?thesis by (simp add: object_laws_def mem_kube_def)
qed

lemma mem_cluster_laws: "cluster_laws (mem_kube rd) mem_view ns n"
  unfolding cluster_laws_def
  using mem_rbac_laws mem_status_laws mem_dashboard_laws mem_finalizer_laws mem_object_laws by blast

section \<open>Properties\<close>

text \<open>Others may change anything but grant more, touch the finalizer or the bookkeeping in the status.\<close>

definition others_do :: "'w view \<Rightarrow> 'w \<Rightarrow> 'w \<Rightarrow> bool" where
  "others_do v w w' \<longleftrightarrow> vw_grants v w' \<subseteq> vw_grants v w \<and> vw_held v w' = vw_held v w \<and>
     dst_discovery_namespaces (vw_status v w') = dst_discovery_namespaces (vw_status v w) \<and>
     dst_monitor_namespaces (vw_status v w') = dst_monitor_namespaces (vw_status v w)"

inductive cluster_run :: "'w view \<Rightarrow> DashboardReconciler \<Rightarrow> 'w kube \<Rightarrow> dashboard \<Rightarrow> 'w \<Rightarrow> 'w \<Rightarrow> bool"
  for v r k d0 w where
  start: "cluster_run v r k d0 w w"
| reconcile: "cluster_run v r k d0 w w' \<Longrightarrow>
    Reconcile r k (d_namespace d0) (d_name d0) (d, w') = (res, (d', w'')) \<Longrightarrow> cluster_run v r k d0 w w''"
| others: "cluster_run v r k d0 w w' \<Longrightarrow> others_do v w' w'' \<Longrightarrow> cluster_run v r k d0 w w''"

lemma cluster_run_accounted:
  assumes laws: "cluster_laws k v (d_namespace d0) (d_name d0)" and sha: "\<And>key. length (re_sha256 r key) = 32"
    and run: "cluster_run v r k d0 w w'" and start: "accounted v r d0 w"
  shows "accounted v r d0 w'"
  using run
proof induction
  case (reconcile w' d res d' w'')
  note inv = triple_Reconcile [OF laws sha]
  show ?case
    using triple_success [OF inv, of "(d, w')" _ "(d', w'')"] triple_error [OF inv, of "(d, w')" _ "(d', w'')"]
      reconcile by (cases res) simp_all
next
  case (others w' w'')
  show ?case by (rule accounted_shrink [OF others.IH]) (use others.hyps in \<open>auto simp: others_do_def\<close>)
qed (rule start)

text \<open>
  C1. No grant is ever orphaned.  However reconciles and other clients' changes alternate, and whichever
  API calls fail on the way, with or without effect: a role binding of the Dashboard in a foreign namespace is
  named by its stored status, and while any such binding, cluster role or cluster role binding stands, the stored
  Dashboard holds the finalizer that will remove it.
\<close>

theorem no_orphaned_grants:
  assumes "cluster_laws k v (d_namespace d) (d_name d)" "\<And>key. length (re_sha256 r key) = 32"
    and "cluster_run v r k d w w'" "vw_grants v w \<inter> unowned r d = {}"
  shows "(vw_grants v w' \<inter> unowned r d \<noteq> {} \<longrightarrow> vw_held v w') \<and>
    (\<forall>ns. ns \<noteq> d_namespace d \<longrightarrow>
       (Binding ns (discoveryRBACName (re_sha256 r) d) \<in> vw_grants v w' \<longrightarrow>
          ns \<in> set (dst_discovery_namespaces (vw_status v w'))) \<and>
       (Binding ns (monitorRBACName (re_sha256 r) d) \<in> vw_grants v w' \<longrightarrow>
          ns \<in> set (dst_monitor_namespaces (vw_status v w'))))"
proof -
  have "accounted v r d w" using no_grants_accounted [of v r d "(d, w)"] assms(4) by (simp add: no_grants_def)
  from cluster_run_accounted [OF assms(1,2,3) this] show ?thesis by (simp add: accounted_def)
qed

definition ex_discovering :: dashboard where
  "ex_discovering = (ex_dashboard ''web'' ''home'')\<lparr>d_spec := zero_dashboard_spec\<lparr>ds_discovery := Some
     \<lparr>ds_enabled = True, ds_sources = [], ds_annotation_prefix = None, ds_homepage_compat = None,
      ds_namespaces = [''apps'']\<rparr>\<rparr>\<rparr>"

definition ex_reconciled :: mem where
  "ex_reconciled = snd (snd (Reconcile ex_reconciler (ex_cluster ex_discovering) ''web'' ''home''
     (ex_discovering, empty_mem ex_discovering)))"

theorem no_orphaned_grants_witness:
  "(vw_grants mem_view ex_reconciled \<inter> unowned ex_reconciler ex_discovering = {} \<or> vw_held mem_view ex_reconciled) \<and>
   {ns. ns \<noteq> ''web'' \<and> Binding ns (discoveryRBACName (re_sha256 ex_reconciler) ex_discovering) \<in> vw_grants mem_view ex_reconciled}
     \<subseteq> set (dst_discovery_namespaces (vw_status mem_view ex_reconciled))"
proof -
  have id: "d_namespace ex_discovering = ''web''" "d_name ex_discovering = ''home''"
    by (simp_all add: ex_discovering_def ex_dashboard_def)
  let ?run = "Reconcile ex_reconciler (ex_cluster ex_discovering) ''web'' ''home'' (ex_discovering, empty_mem ex_discovering)"
  have run: "?run = (fst ?run, (fst (snd ?run), ex_reconciled))" by (simp add: ex_reconciled_def)
  have reached: "cluster_run mem_view ex_reconciler (ex_cluster ex_discovering) ex_discovering
      (empty_mem ex_discovering) ex_reconciled"
    by (rule cluster_run.reconcile [OF cluster_run.start run [folded id]])
  have fresh: "vw_grants mem_view (empty_mem ex_discovering) \<inter> unowned ex_reconciler ex_discovering = {}"
    by (simp add: mem_view_def empty_mem_def)
  have sha: "length (re_sha256 ex_reconciler key) = 32" for key by (simp add: ex_reconciler_def)
  have laws: "cluster_laws (ex_cluster ex_discovering) mem_view (d_namespace ex_discovering) (d_name ex_discovering)"
    unfolding ex_cluster_def by (rule mem_cluster_laws)
  from no_orphaned_grants [OF laws sha reached fresh] show ?thesis by (auto simp: id)
qed

text \<open>
  C7. When the finalizer's operations report success, nothing is left: no cluster role, no cluster role
  binding and no role binding in a foreign namespace that the operator ever granted this Dashboard.
\<close>

theorem finalizer_leaves_nothing:
  assumes "rbac_laws k v" "accounted v r d w" "vw_held v w" "d_status d = vw_status v w"
    and "doFinalizerOperationsForDashboard r k (d, w) = (Inr u, (d', w'))"
  shows "vw_grants v w' \<inter> unowned r d = {}"
proof -
  have "held_inv v r d (d, w)"
    using assms(2-4) by (auto simp: held_inv_def accounted_def tracked_def)
  from triple_success [OF triple_finalizer [OF assms(1)] this assms(5)] show ?thesis by (simp add: no_grants_def)
qed

definition ex_granted :: dashboard where
  "ex_granted = ex_discovering\<lparr>d_finalizers := [instanceFinalizer],
     d_status := zero_dashboard_status\<lparr>dst_discovery_namespaces := [''apps'']\<rparr>\<rparr>"

definition ex_granted_mem :: mem where
  "ex_granted_mem = (empty_mem ex_granted)\<lparr>mem_role_bindings := [role_binding_to clusterRoleKind
     (discoveryRBACName (re_sha256 ex_reconciler) ex_granted) ex_granted
     (meta ''apps'' (discoveryRBACName (re_sha256 ex_reconciler) ex_granted))]\<rparr>"

theorem finalizer_leaves_nothing_witness:
  "Binding ''apps'' (discoveryRBACName (re_sha256 ex_reconciler) ex_granted) \<in> vw_grants mem_view ex_granted_mem \<and>
   Binding ''apps'' (discoveryRBACName (re_sha256 ex_reconciler) ex_granted) \<notin>
     vw_grants mem_view (snd (snd (doFinalizerOperationsForDashboard ex_reconciler (ex_cluster ex_granted) (ex_granted, ex_granted_mem))))"
proof -
  let ?run = "doFinalizerOperationsForDashboard ex_reconciler (ex_cluster ex_granted) (ex_granted, ex_granted_mem)"
  let ?n = "discoveryRBACName (re_sha256 ex_reconciler) ex_granted"
  have id: "d_namespace ex_granted = ''web''"
    by (simp add: ex_granted_def ex_discovering_def ex_dashboard_def)
  have view: "vw_grants mem_view ex_granted_mem = {Binding ''apps'' ?n}"
    "vw_status mem_view ex_granted_mem = d_status ex_granted" "vw_held mem_view ex_granted_mem"
    by (auto simp: mem_view_def ex_granted_mem_def empty_mem_def role_binding_to_def ex_granted_def)
  have differ: "?n \<noteq> monitorRBACName (re_sha256 ex_reconciler) ex_granted"
    by (rule rbac_names_differ) (simp add: ex_reconciler_def)
  have acc: "accounted mem_view ex_reconciler ex_granted ex_granted_mem"
    using differ by (simp add: accounted_def view) (simp add: ex_granted_def)
  have "\<not> isl (fst ?run)" by code_simp
  then obtain u where run: "?run = (Inr u, (fst (snd ?run), snd (snd ?run)))"
    by (metis isl_def prod.collapse sum.collapse(2))
  have laws: "rbac_laws (ex_cluster ex_granted) mem_view" unfolding ex_cluster_def by (rule mem_rbac_laws)
  from finalizer_leaves_nothing [OF laws acc view(3) view(2) [symmetric] run] view(1) unowned_bindings(1) [of "''apps''" ex_granted ex_reconciler]
  show ?thesis by (auto simp: id)
qed

end
