(* ===== verification/Reports.thy ===== *)
theory Reports
  imports Orphans
begin

text \<open>
  What a reconcile tells its users: the Available condition, the counts and the URL in the stored status
  after success and after failure (\<^verbatim>\<open>internal/controller/dashboard_controller.go\<close>).
\<close>

section \<open>Status updates\<close>

definition available :: "dashboard_status \<Rightarrow> cond_status option" where
  "available st = status_of typeAvailableDashboard (dst_conditions st)"

lemma available_set_condition:
  "sets_condition (ku_set_condition k) \<Longrightarrow>
   available (d_status (set_condition k typeAvailableDashboard st reason msg d)) = Some st"
  by (simp add: available_def set_condition_def status_of_def sets_condition_def)

lemma set_condition_fields [simp]:
  "d_generation (set_condition k t st reason msg d) = d_generation d"
  "dst_observed_generation (d_status (set_condition k t st reason msg d)) = dst_observed_generation (d_status d)"
  "dst_bound_service_cards (d_status (set_condition k t st reason msg d)) = dst_bound_service_cards (d_status d)"
  "dst_bound_bookmarks (d_status (set_condition k t st reason msg d)) = dst_bound_bookmarks (d_status d)"
  "dst_bound_info_widgets (d_status (set_condition k t st reason msg d)) = dst_bound_info_widgets (d_status d)"
  "dst_url (d_status (set_condition k t st reason msg d)) = dst_url (d_status d)"
  by (simp_all add: set_condition_def)

lemma updateStatus_Inr:
  assumes "status_laws k v" "updateStatus k s = (Inr u, s')"
  shows "fst s' = fst s" "vw_status v (snd s') = d_status (fst s)"
proof -
  obtain o' w' where u: "ku_update_status k (fst s) (snd s) = (o', w')" by fastforce
  with assms(2) have "o' = None" "s' = (fst s, w')"
    by (auto simp: updateStatus_def written_def split: option.splits)
  with u assms(1) show "fst s' = fst s" "vw_status v (snd s') = d_status (fst s)"
    by (auto simp: status_laws_def)
qed

lemma set_instance_Inr [run_simps]: "set_instance f s = (Inr u, s') \<longleftrightarrow> s' = (f (fst s), snd s)"
  by (auto simp: set_instance_def)

lemma set_status_Inr [run_simps]:
  "set_status f s = (Inr u, s') \<longleftrightarrow> s' = ((fst s)\<lparr>d_status := f (d_status (fst s))\<rparr>, snd s)"
  by (auto simp: set_status_def run_simps)

lemma failAvailable_not: "failAvailable k resource reason e s \<noteq> (Inr x, s')"
  by (auto simp: failAvailable_def run_simps)

lemma orFail_Inr [run_simps]: "orFail k resource reason m s = (Inr x, s') \<longleftrightarrow> m s = (Inr x, s')"
  by (cases "m s"; cases "fst (m s)") (auto simp: orFail_def andThen_def attempt_def ret_def failAvailable_not)

section \<open>Success\<close>

definition ready_seen :: "'w kube \<Rightarrow> dashboard \<Rightarrow> bool" where
  "ready_seen k d \<longleftrightarrow> (\<exists>w w' dep. kc_get (ku_deployments k) (d_namespace d) (d_name d) w = (Found dep, w') \<and>
     desired_replicas d \<le> dep_ready_replicas dep)"

lemma deploymentReady_Inr:
  assumes "deploymentReady k n (d, w) = (Inr (ready, msg), (d', w'))"
  shows "d' = d \<and> (ready \<longleftrightarrow> (\<exists>dep. kc_get (ku_deployments k) (d_namespace d) (d_name d) w = (Found dep, w') \<and>
    n \<le> dep_ready_replicas dep))"
proof -
  obtain g w1 where get: "kc_get (ku_deployments k) (d_namespace d) (d_name d) w = (g, w1)" by fastforce
  show ?thesis
    using assms get by (cases g) (auto simp: deploymentReady_def run_simps split: if_splits)
qed

lemma reportStatus_run:
  assumes laws: "status_laws k v" "sets_condition (ku_set_condition k)"
    and run: "reportStatus k counts (d, w) = (Inr x, (d', w'))"
  shows "vw_status v w' = d_status d' \<and> d_namespace d' = d_namespace d \<and> d_name d' = d_name d \<and> d_spec d' = d_spec d \<and>
    d_generation d' = d_generation d \<and> dst_observed_generation (d_status d') = d_generation d \<and>
    dst_bound_service_cards (d_status d') = bc_service_entries counts \<and>
    dst_bound_bookmarks (d_status d') = bc_bookmarks counts \<and>
    dst_bound_info_widgets (d_status d') = bc_info_widgets counts \<and> dst_url (d_status d') = dashboardURL d \<and>
    (x = Done \<and> available (d_status d') = Some CondTrue \<and> ready_seen k d \<or>
     x = RequeueAfter 15 \<and> available (d_status d') = Some CondFalse)"
proof -
  let ?d1 = "d\<lparr>d_status := (d_status d)\<lparr>dst_observed_generation := d_generation d,
       dst_bound_service_cards := bc_service_entries counts, dst_bound_bookmarks := bc_bookmarks counts,
       dst_bound_info_widgets := bc_info_widgets counts, dst_url := dashboardURL d\<rparr>\<rparr>"
  obtain ready msg d2 w2 where r: "deploymentReady k (desired_replicas d) (?d1, w) = (Inr (ready, msg), (d2, w2))"
    and rest: "(if \<not> ready then
       andThen (set_instance (set_condition k typeAvailableDashboard CondFalse reasonDeploymentNotReady msg)) (\<lambda>_.
       andThen (updateStatus k) (\<lambda>_. ret (RequeueAfter deploymentNotReadyRequeueInterval)))
     else
       andThen (set_instance (set_condition k typeAvailableDashboard CondTrue reasonReconcileSucceeded
         (''Deployment for custom resource ('' @ d_name d @ '') with '' @ fmt_int (desired_replicas d) @
          '' replicas created successfully''))) (\<lambda>_.
       andThen (updateStatus k) (\<lambda>_. ret Done))) (d2, w2) = (Inr x, (d', w'))"
    using run by (auto simp: reportStatus_def run_simps)
  from deploymentReady_Inr [OF r] have d2: "d2 = ?d1" and seen: "ready \<Longrightarrow> ready_seen k d"
    by (auto simp: ready_seen_def)
  let ?st = "if ready then CondTrue else CondFalse"
  obtain reason message where "updateStatus k (set_condition k typeAvailableDashboard ?st reason message ?d1, w2) = (Inr (), (d', w'))"
    and x: "x = (if ready then Done else RequeueAfter 15)"
    using rest by (cases ready) (auto simp: run_simps d2 deploymentNotReadyRequeueInterval_def)
  from updateStatus_Inr [OF laws(1) this(1)] have
    "d' = set_condition k typeAvailableDashboard ?st reason message ?d1" "vw_status v w' = d_status d'" by simp_all
  moreover from this have "available (d_status d') = Some ?st"
    using available_set_condition [OF laws(2)] by blast
  ultimately show ?thesis using x seen by (cases ready) simp_all
qed

definition counts_at :: "'w kube \<Rightarrow> dashboard \<Rightarrow> 'w \<Rightarrow> bound_counts \<Rightarrow> bool" where
  "counts_at k d w counts \<longleftrightarrow> (\<exists>ds cards bms iws.
     rd_list_dashboards (ku_reader k w) (d_namespace d) = Inr ds \<and>
     rd_list_service_cards (ku_reader k w) (d_namespace d) = Inr cards \<and>
     rd_list_bookmarks (ku_reader k w) (d_namespace d) = Inr bms \<and>
     rd_list_info_widgets (ku_reader k w) (d_namespace d) = Inr iws \<and>
     (let bound = (\<lambda>ref. bound_to (ref_name ref) (d_name d) (length ds)) in
      bc_service_entries counts = int (length (filter (\<lambda>s. bound (sc_dashboard_ref (card_spec s))) cards)) \<and>
      bc_bookmarks counts = int (length (filter (\<lambda>b. bound (bm_dashboard_ref (bmk_spec b))) bms)) \<and>
      bc_info_widgets counts = int (length (filter (\<lambda>i. bound (iw_dashboard_ref (iwd_spec i))) iws))))"

lemma boundCounts_run:
  assumes "boundCountsForDashboard k (d, w) = (Inr counts, s')"
  shows "s' = (d, w) \<and> counts_at k d w counts"
  using assms
  by (auto simp: boundCountsForDashboard_def run_simps Let_def counts_at_def namespaceDashboardCount_def
      split: sum.splits)

lemma counts_at_cong:
  "d_namespace d = d_namespace e \<Longrightarrow> d_name d = d_name e \<Longrightarrow> counts_at k d w counts = counts_at k e w counts"
  by (simp add: counts_at_def)

lemma dashboardURL_cong:
  assumes "d_namespace d = d_namespace e" "d_name d = d_name e" "d_spec d = d_spec e"
  shows "dashboardURL d = dashboardURL e"
  unfolding dashboardURL_def enabled_ingress_def enabled_gateway_def assms ..

lemma reconcileDeployment_result:
  assumes "reconcileDeployment r k (d, w) = (Inr (Some x), s')"
  shows "x = Requeue \<or> x = RequeueAfter 60"
proof -
  obtain g w1 where get: "kc_get (ku_deployments k) (d_namespace d) (d_name d) w = (g, w1)" by fastforce
  show ?thesis
  proof (cases "deploymentForDashboard r k d")
    case (Inr dep)
    show ?thesis
    proof (cases g)
      case (Found y)
      obtain o' w2 where up: "kc_update (ku_deployments k) (deployment_repaired y dep) w1 = (o', w2)" by fastforce
      show ?thesis
        using assms get Inr Found up
        by (auto simp: reconcileDeployment_def run_simps kupdate_def written_def fail_deployment_not
            split: if_splits sum.splits option.splits)
    qed (use assms get Inr in \<open>auto simp: reconcileDeployment_def run_simps\<close>)
  qed (use assms in \<open>auto simp: reconcileDeployment_def run_simps fail_deployment_not\<close>)
qed

text \<open>A reconcile that ran to its end has counted and reported.\<close>

lemma reconcileLive_reports:
  assumes "reconcileLive r k (d, w) = (Inr x, (d', w'))" "x = Done \<or> x = RequeueAfter 15"
  shows "\<exists>d1 w1 counts w0. boundCountsForDashboard k (d1, w0) = (Inr counts, (d1, w1)) \<and>
    reportStatus k counts (d1, w1) = (Inr x, (d', w'))"
proof -
  from assms(1) obtain handled d1 w1 d2 w2
    where dep: "reconcileDeployment r k (d1, w1) = (Inr handled, (d2, w2))"
      and rest: "(case handled of Some res \<Rightarrow> ret res | None \<Rightarrow>
        andThen (orFail k ''Service'' reasonServiceFailed (reconcileService (re_sha256 r) k)) (\<lambda>_.
        andThen (orFail k ''Ingress'' reasonIngressFailed (reconcileIngress k)) (\<lambda>_.
        andThen (orFail k ''HTTPRoute'' reasonHTTPRouteFailed (reconcileHTTPRoute (re_gateway_enabled r) k)) (\<lambda>_.
        andThen instance_of (\<lambda>d.
        if \<not> discoveryHTTPRouteAvailable r d
        then failAvailable k ''Discovery'' reasonDiscoveryHTTPRouteUnavailable errDiscoveryHTTPRouteUnavailable
        else
        andThen (orFail k ''NetworkPolicy'' reasonNetworkPolicyFailed (reconcileNetworkPolicy (re_sha256 r) k)) (\<lambda>_.
        andThen (orFail k ''bound config CRDs'' reasonBoundCountsFailed (boundCountsForDashboard k)) (\<lambda>counts.
        reportStatus k counts))))))) (d2, w2) = (Inr x, (d', w'))"
    unfolding reconcileLive_def by (auto simp: andThen_Inr)
  have "handled = None"
  proof (cases handled)
    case (Some res)
    with rest have "res = x" by (simp add: run_simps)
    with Some reconcileDeployment_result [OF dep [unfolded Some]] assms(2) show ?thesis by auto
  qed
  with rest obtain s3 counts s4 where "boundCountsForDashboard k s3 = (Inr counts, s4)"
    "reportStatus k counts s4 = (Inr x, (d', w'))"
    by (auto simp: andThen_Inr orFail_Inr simple_Inr failAvailable_not split: if_splits)
  moreover from this boundCounts_run [of k "fst s3" "snd s3" counts s4] have "s4 = s3" by simp
  ultimately show ?thesis by (cases s3) auto
qed

section \<open>Failure\<close>

text \<open>What holds when an operation fails, whatever state it started in.\<close>

definition fails_with :: "('s \<Rightarrow> bool) \<Rightarrow> ('a, 's) action \<Rightarrow> bool" where
  "fails_with E m \<longleftrightarrow> (\<forall>s e s'. m s = (Inl e, s') \<longrightarrow> E s')"

lemma fails_withI: "(\<And>s e s'. m s = (Inl e, s') \<Longrightarrow> E s') \<Longrightarrow> fails_with E m"
  by (auto simp: fails_with_def)

named_theorems fails_intros

lemma fails_andThen [fails_intros]:
  assumes "fails_with E m" "\<And>x. fails_with E (f x)"
  shows "fails_with E (andThen m f)"
proof (rule fails_withI)
  fix s e s' assume "andThen m f s = (Inl e, s')"
  then consider "m s = (Inl e, s')" | x t where "f x t = (Inl e, s')"
    by (auto simp: andThen_def split: prod.splits sum.splits)
  then show "E s'" using assms by cases (auto simp: fails_with_def)
qed

lemma fails_simple [fails_intros]:
  "fails_with E (ret x)" "fails_with E instance_of" "fails_with E (attempt m)" "fails_with E (set_instance f)"
  "fails_with E (set_status g)"
  by (auto simp: fails_with_def ret_def instance_of_def attempt_def set_instance_def set_status_def split: prod.splits)

lemma fails_cases [fails_intros]:
  "(b \<Longrightarrow> fails_with E m) \<Longrightarrow> (\<not> b \<Longrightarrow> fails_with E m') \<Longrightarrow> fails_with E (if b then m else m')"
  "(\<And>e. fails_with E (f e)) \<Longrightarrow> (\<And>x. fails_with E (g x)) \<Longrightarrow> fails_with E (case r of Inl e \<Rightarrow> f e | Inr x \<Rightarrow> g x)"
  "fails_with E m1 \<Longrightarrow> (\<And>x. fails_with E (h x)) \<Longrightarrow> fails_with E (case opt of None \<Rightarrow> m1 | Some x \<Rightarrow> h x)"
  "(\<And>x y. fails_with E (i x y)) \<Longrightarrow> fails_with E (case p of (x, y) \<Rightarrow> i x y)"
  by (simp_all split: sum.split option.split prod.split)

definition reported :: "'w view \<Rightarrow> 'w cstate \<Rightarrow> bool" where
  "reported v s \<longleftrightarrow> available (vw_status v (snd s)) = Some CondFalse"

text \<open>Status updates succeed, and so do reading and creating the Deployment and fetching the Dashboard again.\<close>

definition status_writable :: "'w kube \<Rightarrow> bool" where
  "status_writable k \<longleftrightarrow> (\<forall>d w. fst (ku_update_status k d w) = None)"

definition deployment_reachable :: "'w kube \<Rightarrow> bool" where
  "deployment_reachable k \<longleftrightarrow> (\<forall>ns n w e. fst (kc_get (ku_deployments k) ns n w) \<noteq> GetError e) \<and>
     (\<forall>x w. fst (kc_create (ku_deployments k) x w) = None) \<and>
     (\<forall>ns n w. \<exists>d. fst (ku_get_dashboard k ns n w) = Found d)"

lemma fails_updateStatus [fails_intros]: "status_writable k \<Longrightarrow> fails_with E (updateStatus k)"
  by (auto simp: fails_with_def updateStatus_def written_def status_writable_def split: option.splits)

lemma reported_fail:
  assumes laws: "status_laws k v" "sets_condition (ku_set_condition k)" and writable: "status_writable k"
  shows "fails_with (reported v) (andThen (set_instance (\<lambda>d. set_condition k typeAvailableDashboard CondFalse reason (msg d) d))
    (\<lambda>_. andThen (updateStatus k) (\<lambda>_. fail e)))"
proof (rule fails_withI)
  fix s e' s'
  assume run: "andThen (set_instance (\<lambda>d. set_condition k typeAvailableDashboard CondFalse reason (msg d) d))
    (\<lambda>_. andThen (updateStatus k) (\<lambda>_. fail e)) s = (Inl e', s')"
  let ?t = "(set_condition k typeAvailableDashboard CondFalse reason (msg (fst s)) (fst s), snd s)"
  have "\<exists>t. updateStatus k ?t = (Inr (), t)"
    using writable by (auto simp: updateStatus_def written_def status_writable_def split: option.splits)
  then obtain t where up: "updateStatus k ?t = (Inr (), t)" ..
  with run have "s' = t" by (simp add: andThen_def set_instance_def fail_def)
  with updateStatus_Inr(2) [OF laws(1) up] available_set_condition [OF laws(2)] show "reported v s'"
    by (simp add: reported_def)
qed

lemma reported_failAvailable:
  assumes "status_laws k v" "sets_condition (ku_set_condition k)" "status_writable k"
  shows "fails_with (reported v) (failAvailable k resource reason e)"
  unfolding failAvailable_def by (rule reported_fail [OF assms])

lemma reported_orFail:
  assumes "status_laws k v" "sets_condition (ku_set_condition k)" "status_writable k"
  shows "fails_with (reported v) (orFail k resource reason m)"
  unfolding orFail_def by (intro fails_intros reported_failAvailable [OF assms])

lemma reported_deployment:
  assumes laws: "status_laws k v" "sets_condition (ku_set_condition k)" "status_writable k" and reach: "deployment_reachable k"
  shows "fails_with (reported v) (reconcileDeployment r k)"
proof -
  have fd: "fails_with (reported v) (fail_deployment k reason what e)" for reason what e
    unfolding fail_deployment_def by (rule reported_fail [OF laws])
  
  have create: "fails_with E (kcreate (ku_deployments k) x)" for E x
    using reach by (auto simp: fails_with_def kcreate_def written_def deployment_reachable_def split: option.splits)
  have again: "fails_with E (refetch k ns n)" for E ns n
  proof (rule fails_withI)
    fix s e s' assume run: "refetch k ns n s = (Inl e, s')"
    obtain d where "fst (ku_get_dashboard k ns n (snd s)) = Found d"
      using reach unfolding deployment_reachable_def by blast
    with run show "E s'" by (auto simp: refetch_def case_prod_unfold)
  qed
  have error: "fails_with E (andThen (kget (ku_deployments k) ns n) m)"
    if "\<And>res. (\<forall>e. res \<noteq> GetError e) \<Longrightarrow> fails_with E (m res)" for E ns n m
  proof (rule fails_withI)
    fix s e s' assume run: "andThen (kget (ku_deployments k) ns n) m s = (Inl e, s')"
    obtain res w where g: "kc_get (ku_deployments k) ns n (snd s) = (res, w)" by fastforce
    with reach have "\<forall>e. res \<noteq> GetError e" by (auto simp: deployment_reachable_def) (metis fst_conv)
    with that have "fails_with E (m res)" by blast
    moreover from run g have "m res (fst s, w) = (Inl e, s')" by (simp add: andThen_def kget_def)
    ultimately show "E s'" unfolding fails_with_def by blast
  qed
  show ?thesis
    unfolding reconcileDeployment_def
  proof (rule fails_andThen, rule fails_simple, rule fails_cases(2), rule fd, rule error)
    fix d desired and res :: "deployment get_result"
    assume ok: "\<forall>e. res \<noteq> GetError e"
    show "fails_with (reported v) (case res of
             NotFound \<Rightarrow> andThen (kcreate (ku_deployments k) desired) (\<lambda>_. ret (Some (RequeueAfter 60)))
           | GetError e \<Rightarrow> fail e
           | Found found \<Rightarrow>
               if \<not> deployment_drifted k found desired then ret None
               else
                 andThen (attempt (kupdate (ku_deployments k) (deployment_repaired found desired))) (\<lambda>res. case res of
                     Inr _ \<Rightarrow> ret (Some Requeue)
                   | Inl e \<Rightarrow>
                       andThen (refetch k (d_namespace d) (d_name d)) (\<lambda>_.
                       fail_deployment k reasonDeploymentUpdateFailed ''Failed to update the Deployment for'' e)))"
    proof (cases res)
      case (Found found)
      then show ?thesis by (simp only: get_result.case) (intro fails_intros fd again)
    next
      case NotFound
      then show ?thesis by (simp only: get_result.case) (intro fails_intros create)
    qed (use ok in simp)
  qed
qed

lemma reported_live:
  assumes laws: "status_laws k v" "sets_condition (ku_set_condition k)" "status_writable k" and reach: "deployment_reachable k"
  shows "fails_with (reported v) (reconcileLive r k)"
  unfolding reconcileLive_def reportStatus_def
  by (intro fails_intros reported_orFail [OF laws] reported_failAvailable [OF laws] reported_deployment [OF laws reach] laws(3))

text \<open>The steps of a reconcile before the Dashboard is looked at: it is fetched and given its first condition and its finalizer.\<close>

definition prepared :: "'w kube \<Rightarrow> string \<Rightarrow> string \<Rightarrow> (bool, 'w cstate) action" where
  "prepared k ns n =
     andThen (fetchDashboard k ns n) (\<lambda>found.
     if \<not> found then ret False
     else andThen (initConditions k ns n) (\<lambda>_. andThen (ensureFinalizer k) (\<lambda>_. ret True)))"

lemma Reconcile_prepared:
  "Reconcile r k ns n =
     andThen (prepared k ns n) (\<lambda>found.
     if \<not> found then ret Done
     else andThen instance_of (\<lambda>d. if d_deleting d then finalizeDashboard r k ns n else reconcileLive r k))"
  unfolding Reconcile_def prepared_def
  by (rule ext) (simp add: andThen_def ret_def split: prod.split sum.split)

lemma Reconcile_live:
  assumes "Reconcile r k ns n s = (Inl e, s')"
  shows "(\<exists>t. reconcileLive r k t = (Inl e, s')) \<or>
    isl (fst (prepared k ns n s)) \<or> d_deleting (fst (snd (prepared k ns n s)))"
  using assms unfolding Reconcile_prepared
  by (auto simp: andThen_def ret_def instance_of_def split: prod.splits sum.splits if_splits)

section \<open>Properties\<close>

text \<open>
  C20. What a reconcile that ran to its end has stored: Available is True, and the reconcile over, only if
  the Deployment was seen with at least the wanted replicas ready, and False, with another
  reconcile in 15 seconds, otherwise; the generation, the URL and the numbers of bound objects are those
  of the Dashboard just reconciled.
\<close>

theorem reconciled_status:
  assumes "status_laws k v" "sets_condition (ku_set_condition k)"
    and "reconcileLive r k (d, w) = (Inr x, (d', w'))" "x = Done \<or> x = RequeueAfter 15"
  shows "vw_status v w' = d_status d' \<and>
    (available (d_status d') = Some CondTrue \<and> x = Done \<and> ready_seen k d' \<or>
     available (d_status d') = Some CondFalse \<and> x = RequeueAfter 15) \<and>
    dst_observed_generation (d_status d') = d_generation d' \<and> dst_url (d_status d') = dashboardURL d' \<and>
    (\<exists>w0. counts_at k d' w0 \<lparr>bc_service_entries = dst_bound_service_cards (d_status d'),
       bc_bookmarks = dst_bound_bookmarks (d_status d'), bc_info_widgets = dst_bound_info_widgets (d_status d')\<rparr>)"
proof -
  from reconcileLive_reports [OF assms(3,4)]
  obtain d1 w1 counts w0 where counts: "boundCountsForDashboard k (d1, w0) = (Inr counts, (d1, w1))"
    and report: "reportStatus k counts (d1, w1) = (Inr x, (d', w'))" by blast
  note rep = reportStatus_run [OF assms(1,2) report]
  have at: "counts_at k d' w0 counts"
    using boundCounts_run [OF counts] counts_at_cong [of d' d1 k w0 counts] rep by blast
  moreover have "counts = \<lparr>bc_service_entries = dst_bound_service_cards (d_status d'),
       bc_bookmarks = dst_bound_bookmarks (d_status d'), bc_info_widgets = dst_bound_info_widgets (d_status d')\<rparr>"
    using rep by simp
  ultimately have counted: "\<exists>w0. counts_at k d' w0 \<lparr>bc_service_entries = dst_bound_service_cards (d_status d'),
       bc_bookmarks = dst_bound_bookmarks (d_status d'), bc_info_widgets = dst_bound_info_widgets (d_status d')\<rparr>"
    by metis
  have seen: "ready_seen k d' = ready_seen k d1" using rep by (simp add: ready_seen_def desired_replicas_def)
  have url: "dashboardURL d' = dashboardURL d1" using rep by (intro dashboardURL_cong) simp_all
  show ?thesis
    unfolding seen url
  proof (intro conjI)
    show "available (d_status d') = Some CondTrue \<and> x = Done \<and> ready_seen k d1 \<or>
        available (d_status d') = Some CondFalse \<and> x = RequeueAfter 15"
      using rep by blast
  qed (use rep counted in simp_all)
qed

text \<open>
  C16. A reconcile that returns an error has left the stored Available condition False, when status updates
  work, with these exceptions: getting the Dashboard, giving it its first condition or giving it its
  finalizer failed, which is never reported; the Dashboard is being deleted; or it was the reading or the
  creation of the Deployment, or fetching the Dashboard again after its update failed, that went wrong.
\<close>

theorem failure_reported:
  assumes "status_laws k v" "sets_condition (ku_set_condition k)" "status_writable k" "deployment_reachable k"
    and "Reconcile r k ns n s = (Inl e, (d', w'))"
  shows "available (vw_status v w') = Some CondFalse \<or>
    isl (fst (prepared k ns n s)) \<or> d_deleting (fst (snd (prepared k ns n s)))"
  using Reconcile_live [OF assms(5)] reported_live [OF assms(1-4), of r]
  by (fastforce simp: fails_with_def reported_def)

section \<open>Witnesses\<close>

text \<open>
  A cluster in which the Deployment of a Dashboard is up and no other call has anything to do but to succeed;
  its state is the stored status.
\<close>

definition idle_client :: "('o, 'w) kind_client" where
  "idle_client = \<lparr>kc_get = (\<lambda>_ _ w. (NotFound, w)), kc_create = (\<lambda>_ w. (None, w)),
     kc_update = (\<lambda>_ w. (None, w)), kc_delete = (\<lambda>_ _ w. (NotFound, w))\<rparr>"

definition ex_idle :: "deployment get_result \<Rightarrow> dashboard_status kube" where
  "ex_idle running =
     \<lparr>ku_reader = (\<lambda>_. ex_reader ex_home [] [] [] []), ku_secret_labels = (\<lambda>_ _ _. NotFound),
      ku_set_owner = (\<lambda>d m. Inr m), ku_set_condition = ex_set_cond, ku_derives = (\<lambda>_ _. True),
      ku_contains_finalizer = (\<lambda>d f. f \<in> set (d_finalizers d)), ku_add_finalizer = (\<lambda>d f. d),
      ku_remove_finalizer = (\<lambda>d f. (d, True)), ku_get_dashboard = (\<lambda>ns n w. (Found (ex_home\<lparr>d_status := w\<rparr>), w)),
      ku_update_dashboard = (\<lambda>d w. (None, w)), ku_update_status = (\<lambda>d w. (None, d_status d)),
      ku_service_accounts = idle_client, ku_roles = idle_client, ku_role_bindings = idle_client,
      ku_cluster_roles = idle_client, ku_cluster_role_bindings = idle_client,
      ku_deployments = idle_client\<lparr>kc_get := \<lambda>_ _ w. (running, w)\<rparr>,
      ku_services = idle_client, ku_ingresses = idle_client, ku_http_routes = idle_client,
      ku_network_policies = idle_client\<rparr>"

definition ex_status_view :: "dashboard_status view" where
  "ex_status_view = \<lparr>vw_grants = (\<lambda>_. {}), vw_status = (\<lambda>w. w), vw_held = (\<lambda>_. True)\<rparr>"

lemmas idle_defs = ex_idle_def idle_client_def andThen_def attempt_def ret_def fail_def instance_of_def kget_def kcreate_def
  kdelete_def klist_def written_def wrap_def own_def ensureExists_def set_status_def set_instance_def Let_def

lemma ex_home_fields [simp]:
  "d_namespace ex_home = ''web''" "d_name ex_home = ''home''" "d_status ex_home = zero_dashboard_status"
  "ds_discovery (d_spec ex_home) = None" "ds_ingress (d_spec ex_home) = None" "ds_gateway (d_spec ex_home) = None"
  "ds_network_policy (d_spec ex_home) = None" "ds_widget_defaults (d_spec ex_home) = []"
  "ds_secret_policy (d_spec ex_home) = None" "ds_auth (d_spec ex_home) = None" "ds_replicas (d_spec ex_home) = None"
  "ds_monitor_namespaces (d_spec ex_home) = []"
  by (simp_all add: ex_home_def ex_dashboard_def zero_dashboard_spec_def)

lemma idle_rbac: "reconcileAllDashboardRBAC r (ex_idle g) (ex_home, w) = (Inr (), (ex_home, w))"
proof -
  have account: "reconcileServiceAccount (ex_idle g) (ex_home, w) = (Inr (), (ex_home, w))"
    by (simp add: reconcileServiceAccount_def idle_defs)
  have role: "reconcileRole r (ex_idle g) (ex_home, w) = (Inr (), (ex_home, w))"
    by (simp add: reconcileRole_def roleSecretNames_def referencedSecretNames_def authSecretNames_def
        reconcileRules_def idle_defs namespaceDashboardCount_def ex_reader_def split: option.splits)
  have binding: "reconcileRoleBinding (ex_idle g) (ex_home, w) = (Inr (), (ex_home, w))"
    by (simp add: reconcileRoleBinding_def idle_defs)
  have metrics: "reconcileClusterMetricsRBAC r (ex_idle g) (ex_home, w) = (Inr (), (ex_home, w))"
    by (simp add: reconcileClusterMetricsRBAC_def instanceHasKubeMetricsWidget_def deleteClusterMetricsRBAC_def
        idle_defs from_sum_def namespaceDashboardCount_def ex_reader_def)
  have discovery: "reconcileDiscoveryRBAC r (ex_idle g) (ex_home, w) = (Inr (), (ex_home, w))"
    by (simp add: reconcileDiscoveryRBAC_def discoveryNamespaces_def deleteDiscoveryRoleBindings_def
        deleteDiscoveryClusterRole_def idle_defs zero_dashboard_status_def)
  have monitors: "reconcileMonitorRBAC r (ex_idle g) (ex_home, w) = (Inr (), (ex_home, w))"
    by (simp add: reconcileMonitorRBAC_def monitorNamespaces_def deleteMonitorRoleBindings_def
        deleteMonitorClusterRole_def idle_defs zero_dashboard_status_def)
  show ?thesis
    by (simp add: reconcileAllDashboardRBAC_def reconcileDashboardRBAC_def wrap_def andThen_def
        account role binding metrics discovery monitors)
qed

definition ex_running :: deployment where
  "ex_running = (projr (deploymentForDashboard ex_reconciler (ex_idle NotFound) ex_home))\<lparr>dep_ready_replicas := 1\<rparr>"

lemma idle_deployment:
  "reconcileDeployment ex_reconciler (ex_idle (Found ex_running)) (ex_home, w) = (Inr None, (ex_home, w))"
proof -
  let ?k = "ex_idle (Found ex_running)"
  obtain dep where first: "deploymentForDashboard ex_reconciler (ex_idle NotFound) ex_home = Inr dep"
    by (simp add: deploymentForDashboard_def ex_idle_def)
  then have dep: "deploymentForDashboard ex_reconciler ?k ex_home = Inr dep"
    by (simp add: deploymentForDashboard_def ex_idle_def)
  have found: "ex_running = dep\<lparr>dep_ready_replicas := 1\<rparr>" by (simp add: ex_running_def first)
  have "\<not> deployment_drifted ?k ex_running dep"
    by (simp add: found deployment_fields [OF dep] deployment_drifted_def deploymentTemplateChanged_def
        dashboard_template_def Let_def container_changed_def pod_changed_def same_map_iff ex_idle_def)
  moreover have "kget (ku_deployments ?k) ns n s = (Inr (Found ex_running), s)" for ns n s
    by (simp add: kget_def ex_idle_def)
  ultimately show ?thesis
    by (simp add: reconcileDeployment_def andThen_def instance_of_def dep ret_def)
qed

lemma idle_status_laws: "status_laws (ex_idle g) ex_status_view"
  by (simp add: status_laws_def ex_idle_def ex_status_view_def)

lemma idle_sets_condition: "sets_condition (ku_set_condition (ex_idle g))"
  using ex_sets_condition by (simp add: ex_idle_def)

theorem reconciled_status_witness:
  "(let (d, st) = snd (reconcileLive ex_reconciler (ex_idle (Found ex_running)) (ex_home, zero_dashboard_status))
    in available st = Some CondTrue \<and> ready_seen (ex_idle (Found ex_running)) d \<and>
       dst_observed_generation st = d_generation d \<and> dst_url st = dashboardURL d)"
proof -
  let ?k = "ex_idle (Found ex_running)" and ?w = zero_dashboard_status
  let ?run = "reconcileLive ex_reconciler ?k (ex_home, ?w)"
  have service: "reconcileService sha ?k (ex_home, w) = (Inr (), (ex_home, w))" for sha w
    by (simp add: reconcileService_def serviceForDashboard_def idle_defs)
  have exposure: "reconcileIngress ?k (ex_home, w) = (Inr (), (ex_home, w))"
    "reconcileHTTPRoute g ?k (ex_home, w) = (Inr (), (ex_home, w))" for w g
    by (simp_all add: reconcileIngress_def reconcileHTTPRoute_def enabled_ingress_def enabled_gateway_def idle_defs)
  have policy: "reconcileNetworkPolicy sha ?k (ex_home, w) = (Inr (), (ex_home, w))" for sha w
    by (simp add: reconcileNetworkPolicy_def idle_defs)
  have counts: "boundCountsForDashboard ?k (ex_home, w) = (Inr \<lparr>bc_service_entries = 0, bc_bookmarks = 0, bc_info_widgets = 0\<rparr>, (ex_home, w))" for w
    by (simp add: boundCountsForDashboard_def idle_defs namespaceDashboardCount_def ex_reader_def)
  have orFail: "orFail ?k a b m s = (Inr x, s)" if "m s = (Inr x, s)" for a b and m :: "('a, dashboard_status cstate) action" and s x
    using that by (simp add: orFail_def andThen_def attempt_def ret_def)
  have ready: "deploymentReady ?k 1 s = (Inr (True, []), s)" for s
    by (simp add: deploymentReady_def idle_defs ex_running_def)
  have updated: "updateStatus ?k s = (Inr (), (fst s, d_status (fst s)))" for s
    by (simp add: updateStatus_def written_def ex_idle_def)
  have "desired_replicas ex_home = 1" by (simp add: desired_replicas_def)
  then have report: "\<exists>d' w'. reportStatus ?k counts (ex_home, w) = (Inr Done, (d', w'))" for counts w
    by (simp add: reportStatus_def ready orFail instance_of_def andThen_def set_status_def set_instance_def
        updated ret_def)
  have free: "discoveryHTTPRouteAvailable ex_reconciler ex_home" by (simp add: discoveryHTTPRouteAvailable_def)
  have "\<exists>d' w'. ?run = (Inr Done, (d', w'))"
    unfolding reconcileLive_def andThen_def
    by (simp add: idle_rbac idle_deployment service exposure policy counts orFail instance_of_def free report)
  then obtain d' w' where run: "?run = (Inr Done, (d', w'))" by blast
  from reconciled_status [OF idle_status_laws idle_sets_condition run]
  show ?thesis by (simp add: run ex_status_view_def)
qed

text \<open>The same cluster, with ServiceAccounts that nobody can read.\<close>

definition ex_forbidden :: "dashboard_status kube" where
  "ex_forbidden = (ex_idle NotFound)\<lparr>ku_service_accounts :=
     idle_client\<lparr>kc_get := \<lambda>_ _ w. (GetError ''forbidden'', w)\<rparr>\<rparr>"

theorem failure_reported_witness:
  "(let run = Reconcile ex_reconciler ex_forbidden ''web'' ''home'' (ex_home, zero_dashboard_status)
    in isl (fst run) \<and> available (snd (snd run)) = Some CondFalse)"
proof -
  let ?run = "Reconcile ex_reconciler ex_forbidden ''web'' ''home'' (ex_home, zero_dashboard_status)"
  have account: "reconcileServiceAccount ex_forbidden (ex_home\<lparr>d_status := st\<rparr>, w) =
      (Inl ''forbidden'', (ex_home\<lparr>d_status := st\<rparr>, w))" for st w
    by (simp add: reconcileServiceAccount_def idle_defs ex_forbidden_def)
  then have rbac: "\<exists>e. reconcileAllDashboardRBAC ex_reconciler ex_forbidden (ex_home\<lparr>d_status := st\<rparr>, w) =
      (Inl e, (ex_home\<lparr>d_status := st\<rparr>, w))" for st w
    by (simp add: reconcileAllDashboardRBAC_def reconcileDashboardRBAC_def wrap_def andThen_def)
  have updated: "updateStatus ex_forbidden s = (Inr (), (fst s, d_status (fst s)))" for s
    by (simp add: updateStatus_def written_def ex_forbidden_def ex_idle_def)
  have live: "\<exists>e t. reconcileLive ex_reconciler ex_forbidden (ex_home\<lparr>d_status := st\<rparr>, w) = (Inl e, t)" for st w
    using rbac [of st w]
    by (auto simp: reconcileLive_def andThen_def orFail_def attempt_def failAvailable_def set_instance_def updated fail_def)
  have alive: "\<not> d_deleting ex_home" by (simp add: ex_home_def ex_dashboard_def)
  have fetch: "fetchDashboard ex_forbidden ''web'' ''home'' s = (Inr True, (ex_home\<lparr>d_status := snd s\<rparr>, snd s))" for s
    by (simp add: fetchDashboard_def ex_forbidden_def ex_idle_def)
  have again: "refetch ex_forbidden ''web'' ''home'' s = (Inr (), (ex_home\<lparr>d_status := snd s\<rparr>, snd s))" for s
    by (simp add: refetch_def ex_forbidden_def ex_idle_def)
  have init: "\<exists>st. initConditions ex_forbidden ''web'' ''home'' (ex_home\<lparr>d_status := zero_dashboard_status\<rparr>, w) =
      (Inr (), (ex_home\<lparr>d_status := st\<rparr>, st))" for w
    by (simp add: initConditions_def andThen_def instance_of_def set_instance_def updated again zero_dashboard_status_def)
  have finalizer: "ensureFinalizer ex_forbidden (ex_home\<lparr>d_status := st\<rparr>, w) = (Inr (), (ex_home\<lparr>d_status := st\<rparr>, w))" for st w
    by (simp add: ensureFinalizer_def andThen_def instance_of_def set_instance_def updateInstance_def written_def ret_def
        ex_forbidden_def ex_idle_def)
  have "\<exists>st. prepared ex_forbidden ''web'' ''home'' (ex_home, zero_dashboard_status) = (Inr True, (ex_home\<lparr>d_status := st\<rparr>, st))"
    using init [of zero_dashboard_status] by (auto simp: prepared_def andThen_def fetch finalizer ret_def)
  then obtain st where prep: "prepared ex_forbidden ''web'' ''home'' (ex_home, zero_dashboard_status) =
      (Inr True, (ex_home\<lparr>d_status := st\<rparr>, st))" ..
  with alive live [of st st] obtain e d w where run: "?run = (Inl e, (d, w))"
    by (auto simp: Reconcile_prepared andThen_def instance_of_def)
  have laws: "status_laws ex_forbidden ex_status_view" "sets_condition (ku_set_condition ex_forbidden)"
    using idle_status_laws [of NotFound] idle_sets_condition [of NotFound]
    by (simp_all add: ex_forbidden_def status_laws_def)
  have calls: "status_writable ex_forbidden" "deployment_reachable ex_forbidden"
    by (simp_all add: status_writable_def deployment_reachable_def ex_forbidden_def ex_idle_def idle_client_def)
  have "available (vw_status ex_status_view w) = Some CondFalse"
    using failure_reported [OF laws calls run] alive by (simp add: prep)
  then show ?thesis by (simp add: run ex_status_view_def)
qed

end
