(* ===== verification/Watches.thy ===== *)
theory Watches
  imports Reports
begin

text \<open>
  What calls a reconcile again (the watches set up in \<^verbatim>\<open>internal/controller/dashboard_controller.go\<close>):
  a change of a Secret's labels or of a configuration object that changes what the reconcile of a Dashboard
  computes is let through and enqueues that Dashboard.
\<close>

section \<open>Secrets\<close>

text \<open>The event a change of a Secret's metadata makes; no event without an object before or after.\<close>

fun secret_change :: "string gomap option \<Rightarrow> string gomap option \<Rightarrow> secret_event option" where
  "secret_change None None = None"
| "secret_change None (Some new) = Some (SecretCreated new)"
| "secret_change (Some old) None = Some (SecretDeleted old)"
| "secret_change (Some old) (Some new) = Some (SecretUpdated old new)"

fun read_labels :: "string gomap option \<Rightarrow> string gomap get_result" where
  "read_labels None = NotFound"
| "read_labels (Some labels) = Found labels"

text \<open>Two worlds that differ in the metadata of one Secret.\<close>

definition secret_changed :: "'w kube \<Rightarrow> string \<Rightarrow> string \<Rightarrow> string gomap option \<Rightarrow> string gomap option \<Rightarrow>
    'w \<Rightarrow> 'w \<Rightarrow> bool" where
  "secret_changed k ns name old new w w' \<longleftrightarrow> ku_reader k w' = ku_reader k w \<and>
     ku_secret_labels k ns name w = read_labels old \<and> ku_secret_labels k ns name w' = read_labels new \<and>
     (\<forall>ns' n'. (ns', n') \<noteq> (ns, name) \<longrightarrow> ku_secret_labels k ns' n' w' = ku_secret_labels k ns' n' w)"

definition passed :: "secret_event option \<Rightarrow> bool" where
  "passed e \<longleftrightarrow> (case e of None \<Rightarrow> False | Some e \<Rightarrow> secretAllowWidgetsLabelChanged e)"

lemma filter_unchanged:
  assumes "secret_changed k ns name old new w w'" "passed (secret_change old new) \<Longrightarrow> dns \<noteq> ns"
  shows "filterLabeledSecrets k dns names w' = filterLabeledSecrets k dns names w"
proof (induction names)
  case (Cons n names)
  show ?case
  proof (cases "(dns, n) = (ns, name)")
    case True
    with assms(2) have "\<not> passed (secret_change old new)" by blast
    then consider "old = None" "new = None"
      | a b where "old = Some a" "new = Some b" "gstr a SecretAllowWidgetsLabel = gstr b SecretAllowWidgetsLabel"
      by (cases old; cases new) (auto simp: passed_def)
    then show ?thesis using assms(1) True Cons by cases (simp_all add: secret_changed_def)
  next
    case False
    with assms(1) have "ku_secret_labels k dns n w' = ku_secret_labels k dns n w" unfolding secret_changed_def by blast
    then show ?thesis by (simp only: filterLabeledSecrets.simps Cons)
  qed
qed simp

lemma roleSecretNames_unchanged:
  assumes "secret_changed k ns name old new w w'" "passed (secret_change old new) \<Longrightarrow> d_namespace d \<noteq> ns"
  shows "fst (roleSecretNames k (d, w')) = fst (roleSecretNames k (d, w))"
proof -
  have rd: "ku_reader k w' = ku_reader k w" using assms(1) by (simp add: secret_changed_def)
  have "fst (referencedSecretNames k (d, w')) = fst (referencedSecretNames k (d, w)) \<and>
      fst (snd (referencedSecretNames k (d, w'))) = d \<and> fst (snd (referencedSecretNames k (d, w))) = d"
    by (auto simp: referencedSecretNames_def andThen_def instance_of_def wrap_def klist_def ret_def rd Let_def
        filter_unchanged [OF assms] split: sum.splits)
  then show ?thesis
    by (auto simp: roleSecretNames_def andThen_def instance_of_def ret_def split: prod.splits sum.splits)
qed

section \<open>Configuration objects\<close>

text \<open>Two readers that differ in one ServiceCard of a namespace: created, changed or deleted.\<close>

definition cards_changed :: "reader \<Rightarrow> reader \<Rightarrow> string \<Rightarrow> service_card list \<Rightarrow> bool" where
  "cards_changed rd rd' ns touched \<longleftrightarrow>
     rd_list_dashboards rd' = rd_list_dashboards rd \<and> rd_list_bookmarks rd' = rd_list_bookmarks rd \<and>
     rd_list_info_widgets rd' = rd_list_info_widgets rd \<and>
     (\<forall>ns'. ns' \<noteq> ns \<longrightarrow> rd_list_service_cards rd' ns' = rd_list_service_cards rd ns') \<and>
     (\<exists>xs ys olds news. rd_list_service_cards rd ns = Inr (xs @ olds @ ys) \<and>
        rd_list_service_cards rd' ns = Inr (xs @ news @ ys) \<and> set olds \<union> set news = set touched)"

lemma unbound_cards:
  assumes "\<And>c. c \<in> set cs \<Longrightarrow> \<not> bound_to (ref_name (sc_dashboard_ref (card_spec c))) name n"
  shows "card_secrets name n cs = []" "filter (\<lambda>c. bound_to (ref_name (sc_dashboard_ref (card_spec c))) name n) cs = []"
  using assms by (auto simp: card_secrets_def filter_empty_conv)

lemma card_secrets_append: "card_secrets name n (xs @ ys) = card_secrets name n xs @ card_secrets name n ys"
  by (simp add: card_secrets_def)

lemma enqueues_bound:
  assumes "rd_list_dashboards rd ns = Inr ds" "d \<in> set ds" "bound_to ref (d_name d) (length ds)"
  shows "(ns, d_name d) \<in> set (mapToDashboard rd ns ref)"
  using assms by (auto simp: mapToDashboard_def bound_to_def split: if_splits)

lemma cards_unseen:
  assumes changed: "cards_changed rd rd' ns touched" and ds: "rd_list_dashboards rd ns = Inr ds" "d \<in> set ds"
    and none: "\<forall>c \<in> set touched. (ns, d_name d) \<notin> set (mapToDashboard rd ns (ref_name (sc_dashboard_ref (card_spec c))))"
  shows "\<exists>cs cs'. rd_list_service_cards rd ns = Inr cs \<and> rd_list_service_cards rd' ns = Inr cs' \<and>
    card_secrets (d_name d) (length ds) cs' = card_secrets (d_name d) (length ds) cs \<and>
    filter (\<lambda>c. bound_to (ref_name (sc_dashboard_ref (card_spec c))) (d_name d) (length ds)) cs' =
    filter (\<lambda>c. bound_to (ref_name (sc_dashboard_ref (card_spec c))) (d_name d) (length ds)) cs"
proof -
  obtain xs ys olds news where lists: "rd_list_service_cards rd ns = Inr (xs @ olds @ ys)"
    "rd_list_service_cards rd' ns = Inr (xs @ news @ ys)" "set olds \<union> set news = set touched"
    using changed unfolding cards_changed_def by blast
  have "\<not> bound_to (ref_name (sc_dashboard_ref (card_spec c))) (d_name d) (length ds)"
    if "c \<in> set olds \<or> c \<in> set news" for c
    using that lists(3) none enqueues_bound [OF ds] by blast
  then have "card_secrets (d_name d) (length ds) olds = []" "card_secrets (d_name d) (length ds) news = []"
    "filter (\<lambda>c. bound_to (ref_name (sc_dashboard_ref (card_spec c))) (d_name d) (length ds)) olds = []"
    "filter (\<lambda>c. bound_to (ref_name (sc_dashboard_ref (card_spec c))) (d_name d) (length ds)) news = []"
    using unbound_cards by blast+
  then show ?thesis using lists(1,2) by (simp add: card_secrets_append)
qed

section \<open>Properties\<close>

text \<open>
  C25. No change of a Secret's labels that matters is missed: when creating, deleting or relabelling one
  Secret changes the names a Dashboard's Role must grant, or whether they can be computed, the watch lets the
  event through, the Secret is in the Dashboard's namespace, and the Dashboard is enqueued.
\<close>

theorem secret_watch_complete:
  assumes "secret_changed k ns name old new w w'"
    and "rd_list_dashboards (ku_reader k w') (d_namespace d) = Inr ds" "d \<in> set ds"
    and "fst (roleSecretNames k (d, w')) \<noteq> fst (roleSecretNames k (d, w))"
  shows "passed (secret_change old new) \<and> d_namespace d = ns \<and>
    (d_namespace d, d_name d) \<in> set (mapSecretToDashboards (ku_reader k w') ns)"
proof -
  have "passed (secret_change old new) \<and> d_namespace d = ns"
    using roleSecretNames_unchanged [OF assms(1), of d] assms(4) by blast
  with assms(2,3) show ?thesis by (auto simp: mapSecretToDashboards_def)
qed

text \<open>
  C26. No change of a ServiceCard that matters is missed: when creating, deleting or changing one card changes the
  counts a Dashboard reports or the Secrets its Role must grant, the old or the new card enqueues the
  Dashboard, also where the card names no Dashboard.
\<close>

theorem card_watch_complete:
  assumes "cards_changed (ku_reader k w) (ku_reader k w') (d_namespace d) touched"
    and "rd_list_dashboards (ku_reader k w) (d_namespace d) = Inr ds" "d \<in> set ds"
    and "\<And>n. ku_secret_labels k (d_namespace d) n w' = ku_secret_labels k (d_namespace d) n w"
    and "fst (boundCountsForDashboard k (d, w')) \<noteq> fst (boundCountsForDashboard k (d, w)) \<or>
      fst (referencedSecretNames k (d, w')) \<noteq> fst (referencedSecretNames k (d, w))"
  shows "\<exists>c \<in> set touched. (d_namespace d, d_name d) \<in>
    set (mapToDashboard (ku_reader k w) (d_namespace d) (ref_name (sc_dashboard_ref (card_spec c))))"
proof (rule ccontr)
  let ?rd = "ku_reader k w" and ?rd' = "ku_reader k w'" and ?ns = "d_namespace d"
  assume "\<not> ?thesis"
  then obtain cs cs' where cs: "rd_list_service_cards ?rd ?ns = Inr cs" "rd_list_service_cards ?rd' ?ns = Inr cs'"
    and same: "card_secrets (d_name d) (length ds) cs' = card_secrets (d_name d) (length ds) cs"
      "filter (\<lambda>c. bound_to (ref_name (sc_dashboard_ref (card_spec c))) (d_name d) (length ds)) cs' =
       filter (\<lambda>c. bound_to (ref_name (sc_dashboard_ref (card_spec c))) (d_name d) (length ds)) cs"
    using cards_unseen [OF assms(1-3)] by blast
  have rest: "rd_list_dashboards ?rd' = rd_list_dashboards ?rd" "rd_list_bookmarks ?rd' = rd_list_bookmarks ?rd"
    "rd_list_info_widgets ?rd' = rd_list_info_widgets ?rd"
    using assms(1) unfolding cards_changed_def by blast+
  have filtered: "filterLabeledSecrets k ?ns names w' = filterLabeledSecrets k ?ns names w" for names
    by (induction names) (simp_all add: assms(4) cong: get_result.case_cong)
  have "fst (boundCountsForDashboard k (d, w')) = fst (boundCountsForDashboard k (d, w))"
    by (auto simp: boundCountsForDashboard_def andThen_def instance_of_def wrap_def klist_def ret_def Let_def
        namespaceDashboardCount_def cs rest same assms(2) split: sum.splits)
  moreover have "fst (referencedSecretNames k (d, w')) = fst (referencedSecretNames k (d, w))"
    by (auto simp: referencedSecretNames_def andThen_def instance_of_def wrap_def klist_def ret_def Let_def
        namespaceDashboardCount_def cs rest same assms(2) filtered split: sum.splits)
  ultimately show False using assms(5) by blast
qed

section \<open>Witnesses\<close>

text \<open>A cluster whose state is only read; the writes of a reconcile play no part here.\<close>

definition ex_watched :: "('w \<Rightarrow> reader) \<Rightarrow> ('w \<Rightarrow> string gomap get_result) \<Rightarrow> 'w kube" where
  "ex_watched rd labels =
     \<lparr>ku_reader = rd, ku_secret_labels = (\<lambda>ns n w. if ns = ''web'' \<and> n = ''creds'' then labels w else NotFound),
      ku_set_owner = (\<lambda>d m. Inr m), ku_set_condition = ex_set_cond, ku_derives = (\<lambda>_ _. True),
      ku_contains_finalizer = (\<lambda>d f. f \<in> set (d_finalizers d)), ku_add_finalizer = (\<lambda>d f. d),
      ku_remove_finalizer = (\<lambda>d f. (d, True)), ku_get_dashboard = (\<lambda>ns n w. (NotFound, w)),
      ku_update_dashboard = (\<lambda>d w. (None, w)), ku_update_status = (\<lambda>d w. (None, w)),
      ku_service_accounts = idle_client, ku_roles = idle_client, ku_role_bindings = idle_client,
      ku_cluster_roles = idle_client, ku_cluster_role_bindings = idle_client, ku_deployments = idle_client,
      ku_services = idle_client, ku_ingresses = idle_client, ku_http_routes = idle_client,
      ku_network_policies = idle_client\<rparr>"

definition ex_labelled :: dashboard where
  "ex_labelled = (ex_dashboard ''web'' ''home'')\<lparr>d_spec := zero_dashboard_spec\<lparr>ds_secret_policy := Some SecretPolicyLabeled\<rparr>\<rparr>"

definition ex_label_cluster :: "string gomap option kube" where
  "ex_label_cluster = ex_watched (\<lambda>_. ex_reader ex_labelled [ex_secret_card] [] [] []) read_labels"

theorem secret_watch_complete_witness:
  "(''web'', ''home'') \<in> set (mapSecretToDashboards (ku_reader ex_label_cluster None) ''web'')"
proof -
  let ?labels = "[(SecretAllowWidgetsLabel, ''true'')]"
  have "secret_changed ex_label_cluster ''web'' ''creds'' None (Some ?labels) None (Some ?labels)"
    by (simp add: secret_changed_def ex_label_cluster_def ex_watched_def)
  moreover have "rd_list_dashboards (ku_reader ex_label_cluster (Some ?labels)) (d_namespace ex_labelled) = Inr [ex_labelled]"
    by (simp add: ex_label_cluster_def ex_watched_def ex_reader_def)
  moreover have "fst (roleSecretNames ex_label_cluster (ex_labelled, Some ?labels)) \<noteq>
      fst (roleSecretNames ex_label_cluster (ex_labelled, None))"
    by code_simp
  ultimately show ?thesis
    using secret_watch_complete [of ex_label_cluster "''web''" "''creds''" None "Some ?labels" None "Some ?labels" ex_labelled "[ex_labelled]"]
    by (simp add: ex_labelled_def ex_dashboard_def ex_label_cluster_def ex_watched_def)
qed

definition ex_card_cluster :: "service_card list kube" where
  "ex_card_cluster = ex_watched (\<lambda>cards. (ex_reader (ex_dashboard ''web'' ''home'') [] [] [] [])
     \<lparr>rd_list_service_cards := \<lambda>ns. Inr (if ns = ''web'' then cards else [])\<rparr>) (\<lambda>_. NotFound)"

theorem card_watch_complete_witness:
  "(''web'', ''home'') \<in> set (mapToDashboard (ku_reader ex_card_cluster []) ''web''
     (ref_name (sc_dashboard_ref (card_spec ex_secret_card))))"
proof -
  let ?d = "ex_dashboard ''web'' ''home''" and ?k = ex_card_cluster
  have "cards_changed (ku_reader ?k []) (ku_reader ?k [ex_secret_card]) (d_namespace ?d) [ex_secret_card]"
  proof -
    have "rd_list_service_cards (ku_reader ?k []) (d_namespace ?d) = Inr ([] @ [] @ [])"
      "rd_list_service_cards (ku_reader ?k [ex_secret_card]) (d_namespace ?d) = Inr ([] @ [ex_secret_card] @ [])"
      "set [] \<union> set [ex_secret_card] = set [ex_secret_card]"
      by (simp_all add: ex_card_cluster_def ex_watched_def ex_dashboard_def)
    then have lists: "\<exists>xs ys olds news. rd_list_service_cards (ku_reader ?k []) (d_namespace ?d) = Inr (xs @ olds @ ys) \<and>
        rd_list_service_cards (ku_reader ?k [ex_secret_card]) (d_namespace ?d) = Inr (xs @ news @ ys) \<and>
        set olds \<union> set news = set [ex_secret_card]" by blast
    have other: "rd_list_service_cards (ku_reader ?k [ex_secret_card]) ns = rd_list_service_cards (ku_reader ?k []) ns"
      if "ns \<noteq> d_namespace ?d" for ns
      using that by (simp add: ex_card_cluster_def ex_watched_def ex_dashboard_def)
    have "rd_list_dashboards (ku_reader ?k cs) = (\<lambda>_. Inr [?d])" "rd_list_bookmarks (ku_reader ?k cs) = (\<lambda>_. Inr [])"
      "rd_list_info_widgets (ku_reader ?k cs) = (\<lambda>_. Inr [])" for cs
      by (simp_all add: ex_card_cluster_def ex_watched_def ex_reader_def)
    then show ?thesis unfolding cards_changed_def using lists other by simp
  qed
  moreover have "rd_list_dashboards (ku_reader ?k []) (d_namespace ?d) = Inr [?d]"
    by (simp add: ex_card_cluster_def ex_watched_def ex_reader_def)
  moreover have "fst (referencedSecretNames ?k (?d, [ex_secret_card])) \<noteq> fst (referencedSecretNames ?k (?d, []))"
    by code_simp
  ultimately show ?thesis
    using card_watch_complete [of ?k "[]" "[ex_secret_card]" ?d "[ex_secret_card]" "[?d]"]
    by (simp add: ex_dashboard_def ex_card_cluster_def ex_watched_def)
qed

end
