(* ===== verification/Preview.thy ===== *)
theory Preview
  imports Auth Cards
begin

text \<open>
  The preview mode (\<^verbatim>\<open>internal/preview\<close>): reading manifests from files and directories (\<^verbatim>\<open>loader.go\<close>),
  choosing the Dashboard and filling in namespaces (\<^verbatim>\<open>select.go\<close>), and reloading when files change
  (\<^verbatim>\<open>watch.go\<close>).  The operating system, the YAML and manifest decoders and the in-memory client are
  arguments; paths are taken apart as \<^verbatim>\<open>path/filepath\<close> does on Unix.  Proved: what a load serves, that
  every file a load reads lies in a watched directory, and that the page follows the last good load.
\<close>

section \<open>Paths\<close>

text \<open>The loop of \<^verbatim>\<open>filepath.Clean\<close> over the elements of a path, the result so far in reverse.\<close>

fun clean_parts :: "bool \<Rightarrow> string list \<Rightarrow> string list \<Rightarrow> string list" where
  "clean_parts rooted acc [] = rev acc"
| "clean_parts rooted acc (e # es) =
     (if e = [] \<or> e = ''.'' then clean_parts rooted acc es
      else if e = ''..'' then
        (case acc of
           [] \<Rightarrow> clean_parts rooted (if rooted then [] else [e]) es
         | x # xs \<Rightarrow> clean_parts rooted (if x = ''..'' then e # acc else xs) es)
      else clean_parts rooted (e # acc) es)"

definition clean_path :: "string \<Rightarrow> string" where
  "clean_path p =
     (let rooted = has_prefix p [slash]; s = join [slash] (clean_parts rooted [] (split_slash p))
      in if rooted then slash # s else if s = [] then ''.'' else s)"

definition path_join :: "string \<Rightarrow> string \<Rightarrow> string" where
  "path_join a b = (if a = [] then clean_path b else clean_path (a @ slash # b))"

definition path_dir :: "string \<Rightarrow> string" where
  "path_dir p = (case last_index [slash] p of None \<Rightarrow> clean_path [] | Some i \<Rightarrow> clean_path (take (Suc i) p))"

definition path_ext :: "string \<Rightarrow> string" where
  "path_ext p =
     (let base = (case last_index [slash] p of None \<Rightarrow> p | Some i \<Rightarrow> drop (Suc i) p)
      in case last_index ''.'' base of None \<Rightarrow> [] | Some i \<Rightarrow> drop i base)"

definition isYAMLFile :: "string \<Rightarrow> bool" where
  "isYAMLFile path \<longleftrightarrow> to_lower (path_ext path) \<in> {''.yaml'', ''.yml''}"

section \<open>Files\<close>

text \<open>
  What lies below a path: a directory lists its entries by name, or cannot be listed; everything else, a
  symbolic link among it, is a file.  \<open>fs_stat\<close> follows links and says whether a path is a directory.
\<close>

datatype fs_node = File | Unreadable string | Dir "(string \<times> fs_node) list"

record filesystem =
  fs_stat :: "string \<Rightarrow> string + bool"
  fs_node_at :: "string \<Rightarrow> string + fs_node"
  fs_read :: "string \<Rightarrow> string + string"

text \<open>
  \<^verbatim>\<open>filepath.WalkDir\<close> with a callback that returns every error it is given: \<open>visit\<close> gets the path and
  whether it is a directory, and says whether to skip what is below it.
\<close>

fun walk :: "(string \<Rightarrow> bool \<Rightarrow> 'a \<Rightarrow> bool \<times> 'a) \<Rightarrow> string \<Rightarrow> fs_node \<Rightarrow> 'a \<Rightarrow> string + 'a"
  and walk_entries :: "(string \<Rightarrow> bool \<Rightarrow> 'a \<Rightarrow> bool \<times> 'a) \<Rightarrow> string \<Rightarrow> (string \<times> fs_node) list \<Rightarrow> 'a \<Rightarrow> string + 'a" where
  "walk visit path File a = Inr (snd (visit path False a))"
| "walk visit path (Unreadable e) a = (case visit path True a of (skip, a') \<Rightarrow> if skip then Inr a' else Inl e)"
| "walk visit path (Dir es) a =
     (case visit path True a of (skip, a') \<Rightarrow> if skip then Inr a' else walk_entries visit path es a')"
| "walk_entries visit path [] a = Inr a"
| "walk_entries visit path ((n, t) # es) a =
     (case walk visit (path_join path n) t a of Inl e \<Rightarrow> Inl e | Inr a' \<Rightarrow> walk_entries visit path es a')"

definition visit_yaml :: "bool \<Rightarrow> string \<Rightarrow> string \<Rightarrow> bool \<Rightarrow> string list \<Rightarrow> bool \<times> string list" where
  "visit_yaml recursive p path is_dir files =
     (if is_dir then (\<not> recursive \<and> path \<noteq> p, files)
      else (False, if isYAMLFile path then files @ [path] else files))"

definition walk_from :: "filesystem \<Rightarrow> (string \<Rightarrow> bool \<Rightarrow> 'a \<Rightarrow> bool \<times> 'a) \<Rightarrow> string \<Rightarrow> 'a \<Rightarrow> string + 'a" where
  "walk_from fs visit p a =
     (case (case fs_node_at fs p of Inl e \<Rightarrow> Inl e | Inr t \<Rightarrow> walk visit p t a) of
        Inl e \<Rightarrow> Inl (''walking '' @ p @ '': '' @ e)
      | Inr a' \<Rightarrow> Inr a')"

fun collect_paths :: "filesystem \<Rightarrow> bool \<Rightarrow> string list \<Rightarrow> string list \<Rightarrow> string + string list" where
  "collect_paths fs recursive [] files = Inr files"
| "collect_paths fs recursive (p # ps) files =
     (case fs_stat fs p of
        Inl e \<Rightarrow> Inl (''stat '' @ p @ '': '' @ e)
      | Inr is_dir \<Rightarrow>
          if \<not> is_dir then collect_paths fs recursive ps (files @ [p])
          else (case walk_from fs (visit_yaml recursive p) p files of
                  Inl e \<Rightarrow> Inl e
                | Inr files' \<Rightarrow> collect_paths fs recursive ps files'))"

definition collectFiles :: "filesystem \<Rightarrow> string list \<Rightarrow> bool \<Rightarrow> string + string list" where
  "collectFiles fs paths recursive = map_sum id (sort_by str_compare) (collect_paths fs recursive paths [])"

definition add_dir :: "string \<Rightarrow> string list \<Rightarrow> string list" where
  "add_dir d dirs = (if d \<in> set dirs then dirs else dirs @ [d])"

definition visit_dir :: "string \<Rightarrow> bool \<Rightarrow> string list \<Rightarrow> bool \<times> string list" where
  "visit_dir path is_dir dirs = (False, if is_dir then add_dir path dirs else dirs)"

fun watch_paths :: "filesystem \<Rightarrow> bool \<Rightarrow> string list \<Rightarrow> string list \<Rightarrow> string + string list" where
  "watch_paths fs recursive [] dirs = Inr dirs"
| "watch_paths fs recursive (p # ps) dirs =
     (case fs_stat fs p of
        Inl e \<Rightarrow> Inl (''stat '' @ p @ '': '' @ e)
      | Inr is_dir \<Rightarrow>
          if \<not> is_dir then watch_paths fs recursive ps (add_dir (path_dir p) dirs)
          else if \<not> recursive then watch_paths fs recursive ps (add_dir p dirs)
          else (case walk_from fs visit_dir p (add_dir p dirs) of
                  Inl e \<Rightarrow> Inl e
                | Inr dirs' \<Rightarrow> watch_paths fs recursive ps dirs'))"

definition watchDirs :: "filesystem \<Rightarrow> string list \<Rightarrow> bool \<Rightarrow> string + string list" where
  "watchDirs fs paths recursive = watch_paths fs recursive paths []"

section \<open>Manifests\<close>

record secret_object =
  so_namespace :: string
  so_name :: string
  so_data :: "string gomap"
  so_string_data :: "string gomap"

text \<open>A decoded object: a kind the dashboard knows, or the namespace and name of another registered one.\<close>

datatype loaded =
    LoadedDashboard dashboard
  | LoadedCard service_card
  | LoadedBookmark bookmark
  | LoadedInfoWidget info_widget
  | LoadedSecret secret_object
  | LoadedOther string string

text \<open>The answers of the decoder, and the documents of a file with the error that ends them.\<close>

datatype decoded = Unregistered | MissingKind | Malformed string | NotAnObject | Object loaded

record manifest_decoder =
  md_documents :: "string \<Rightarrow> string list \<times> string option"
  md_decode :: "string \<Rightarrow> decoded"

definition normalizeSecretStringData :: "secret_object \<Rightarrow> secret_object" where
  "normalizeSecretStringData s =
     (if so_string_data s = [] then s
      else s\<lparr>so_data := gcopy (so_data s) (so_string_data s), so_string_data := []\<rparr>)"

fun normalized :: "loaded \<Rightarrow> loaded" where
  "normalized (LoadedSecret s) = LoadedSecret (normalizeSecretStringData s)"
| "normalized x = x"

fun decode_docs :: "manifest_decoder \<Rightarrow> string \<Rightarrow> string option \<Rightarrow> string list \<Rightarrow> loaded list \<Rightarrow> string + loaded list" where
  "decode_docs md f err [] objs =
     (case err of None \<Rightarrow> Inr objs | Some e \<Rightarrow> Inl (''reading '' @ f @ '': '' @ e))"
| "decode_docs md f err (doc # docs) objs =
     (let doc = trim_space doc in
      if doc = [] then decode_docs md f err docs objs
      else case md_decode md doc of
             Unregistered \<Rightarrow> decode_docs md f err docs objs
           | MissingKind \<Rightarrow> decode_docs md f err docs objs
           | Malformed e \<Rightarrow> Inl (''decoding '' @ f @ '': '' @ e)
           | NotAnObject \<Rightarrow> decode_docs md f err docs objs
           | Object x \<Rightarrow> decode_docs md f err docs (objs @ [normalized x]))"

fun decodeFiles :: "manifest_decoder \<Rightarrow> filesystem \<Rightarrow> string list \<Rightarrow> loaded list \<Rightarrow> string + loaded list" where
  "decodeFiles md fs [] objs = Inr objs"
| "decodeFiles md fs (f # files) objs =
     (case fs_read fs f of
        Inl e \<Rightarrow> Inl (''reading '' @ f @ '': '' @ e)
      | Inr data \<Rightarrow>
          (case md_documents md data of (docs, err) \<Rightarrow>
             (case decode_docs md f err docs objs of
                Inl e \<Rightarrow> Inl e
              | Inr objs' \<Rightarrow> decodeFiles md fs files objs')))"

section \<open>Selection\<close>

definition defaultNamespace :: string where "defaultNamespace = ''preview''"

fun dashboards_of :: "loaded list \<Rightarrow> dashboard list" where
  "dashboards_of [] = []"
| "dashboards_of (LoadedDashboard d # xs) = d # dashboards_of xs"
| "dashboards_of (x # xs) = dashboards_of xs"

definition candidate :: "string \<Rightarrow> string \<Rightarrow> dashboard \<Rightarrow> bool" where
  "candidate namespace dashboardName d \<longleftrightarrow>
     \<not> (dashboardName \<noteq> [] \<and> d_name d \<noteq> dashboardName) \<and>
     \<not> (namespace \<noteq> [] \<and> d_namespace d \<noteq> [] \<and> d_namespace d \<noteq> namespace)"

definition anyNamespaced :: "dashboard list \<Rightarrow> bool" where
  "anyNamespaced ds \<longleftrightarrow> list_ex (\<lambda>d. d_namespace d \<noteq> []) ds"

definition describeDashboards :: "dashboard list \<Rightarrow> string" where
  "describeDashboards ds = join '', '' (map (\<lambda>d. or_str (d_namespace d) ''<none>'' @ [slash] @ d_name d) ds)"

definition selectDashboard :: "loaded list \<Rightarrow> string \<Rightarrow> string \<Rightarrow> string + dashboard" where
  "selectDashboard objs namespace dashboardName =
     (let all = dashboards_of objs; candidates = filter (candidate namespace dashboardName) all in
      case candidates of
        [] \<Rightarrow>
          Inl (if all = [] then ''no Dashboard object found in the given -f paths''
               else ''no Dashboard matches --namespace='' @ quoted namespace @ '' --dashboard-name='' @
                 quoted dashboardName @ ''; found: '' @ describeDashboards all)
      | [d] \<Rightarrow> Inr d
      | _ \<Rightarrow>
          let hint = (if \<not> anyNamespaced candidates
            then ''pass --dashboard-name to select one (none of these set metadata.namespace, so --namespace can'' @
              [CHR 0x27] @ ''t tell them apart)''
            else ''pass --namespace/--dashboard-name to select one'')
          in Inl (''multiple Dashboards found, '' @ hint @ '': '' @ describeDashboards candidates))"

fun object_namespace :: "loaded \<Rightarrow> string" where
  "object_namespace (LoadedDashboard d) = d_namespace d"
| "object_namespace (LoadedCard c) = card_namespace c"
| "object_namespace (LoadedBookmark b) = bmk_namespace b"
| "object_namespace (LoadedInfoWidget i) = iwd_namespace i"
| "object_namespace (LoadedSecret s) = so_namespace s"
| "object_namespace (LoadedOther ns n) = ns"

fun set_namespace :: "string \<Rightarrow> loaded \<Rightarrow> loaded" where
  "set_namespace ns (LoadedDashboard d) = LoadedDashboard (d\<lparr>d_namespace := ns\<rparr>)"
| "set_namespace ns (LoadedCard c) = LoadedCard (c\<lparr>card_namespace := ns\<rparr>)"
| "set_namespace ns (LoadedBookmark b) = LoadedBookmark (b\<lparr>bmk_namespace := ns\<rparr>)"
| "set_namespace ns (LoadedInfoWidget i) = LoadedInfoWidget (i\<lparr>iwd_namespace := ns\<rparr>)"
| "set_namespace ns (LoadedSecret s) = LoadedSecret (s\<lparr>so_namespace := ns\<rparr>)"
| "set_namespace ns (LoadedOther _ n) = LoadedOther ns n"

definition applyDefaultNamespace :: "loaded list \<Rightarrow> dashboard \<Rightarrow> loaded list" where
  "applyDefaultNamespace objs d =
     (let ns = or_str (d_namespace d) defaultNamespace
      in map (\<lambda>x. if object_namespace x = [] then set_namespace ns x else x) objs)"

record preview_config =
  pv_paths :: "string list"
  pv_recursive :: bool
  pv_namespace :: string
  pv_dashboard_name :: string

text \<open>The result holds the objects of the in-memory client.\<close>

record load_result =
  lr_objects :: "loaded list"
  lr_namespace :: string
  lr_dashboard_name :: string

definition Load :: "manifest_decoder \<Rightarrow> filesystem \<Rightarrow> preview_config \<Rightarrow> string + load_result" where
  "Load md fs cfg =
     (case collectFiles fs (pv_paths cfg) (pv_recursive cfg) of
        Inl e \<Rightarrow> Inl e
      | Inr files \<Rightarrow>
          if files = [] then Inl (''no .yaml/.yml files found in '' @ join '', '' (pv_paths cfg))
          else case decodeFiles md fs files [] of
                 Inl e \<Rightarrow> Inl e
               | Inr objs \<Rightarrow>
                   (case selectDashboard objs (pv_namespace cfg) (pv_dashboard_name cfg) of
                      Inl e \<Rightarrow> Inl e
                    | Inr d \<Rightarrow>
                        Inr \<lparr>lr_objects = applyDefaultNamespace objs d,
                             lr_namespace = or_str (d_namespace d) defaultNamespace,
                             lr_dashboard_name = d_name d\<rparr>))"

section \<open>Reloading\<close>

record watch_event =
  ev_name :: string
  ev_create :: bool
  ev_write :: bool
  ev_remove :: bool
  ev_rename :: bool

text \<open>
  What the loop and its timer meet: an event of the watcher, with what \<^verbatim>\<open>os.Stat\<close> then says of its
  file; the timer's function starting, which reads the files as they are; a started one finishing,
  counted from the oldest; an error of the watcher; the end.
\<close>

datatype watch_input =
    FileEvent watch_event "string + bool"
  | TimerFires filesystem
  | ReloadEnds nat
  | WatcherError
  | WatchDone

record watch_loop =
  wl_timer :: bool
  wl_loading :: "(string + load_result) list"
  wl_objects :: "loaded list"
  wl_auth :: auth_cache
  wl_added :: "string list"
  wl_running :: bool

definition relevant :: "preview_config \<Rightarrow> watch_event \<Rightarrow> string + bool \<Rightarrow> bool" where
  "relevant cfg ev stat \<longleftrightarrow>
     pv_recursive cfg \<and> ev_create ev \<and> stat = Inr True \<or>
     isYAMLFile (ev_name ev) \<and> (ev_write ev \<or> ev_create ev \<or> ev_remove ev \<or> ev_rename ev)"

definition finish_reload :: "string + load_result \<Rightarrow> watch_loop \<Rightarrow> watch_loop" where
  "finish_reload res w =
     (case res of
        Inl _ \<Rightarrow> w
      | Inr r \<Rightarrow> w\<lparr>wl_objects := lr_objects r,
                    wl_auth := InvalidateAuthCache (lr_namespace r) (lr_dashboard_name r) (wl_auth w)\<rparr>)"

text \<open>The timer's function runs on although the loop has ended; only a timer that has not fired is stopped.\<close>

fun watch_step :: "manifest_decoder \<Rightarrow> preview_config \<Rightarrow> watch_loop \<Rightarrow> watch_input \<Rightarrow> watch_loop" where
  "watch_step md cfg w (FileEvent ev stat) =
     (if \<not> wl_running w \<or> \<not> relevant cfg ev stat then w
      else (if pv_recursive cfg \<and> ev_create ev \<and> stat = Inr True then w\<lparr>wl_added := wl_added w @ [ev_name ev]\<rparr> else w)
             \<lparr>wl_timer := True\<rparr>)"
| "watch_step md cfg w (TimerFires fs) =
     (if wl_timer w then w\<lparr>wl_timer := False, wl_loading := wl_loading w @ [Load md fs cfg]\<rparr> else w)"
| "watch_step md cfg w (ReloadEnds i) =
     (if i < length (wl_loading w)
      then finish_reload (wl_loading w ! i) (w\<lparr>wl_loading := take i (wl_loading w) @ drop (Suc i) (wl_loading w)\<rparr>)
      else w)"
| "watch_step md cfg w WatcherError = w"
| "watch_step md cfg w WatchDone = w\<lparr>wl_timer := False, wl_running := False\<rparr>"

definition runWatchLoop :: "manifest_decoder \<Rightarrow> preview_config \<Rightarrow> watch_loop \<Rightarrow> watch_input list \<Rightarrow> watch_loop" where
  "runWatchLoop md cfg = foldl (watch_step md cfg)"

text \<open>\<^verbatim>\<open>Watch\<close>: the directories to watch, and the loop's start; the target stays the Dashboard that was loaded.\<close>

definition Watch :: "filesystem \<Rightarrow> preview_config \<Rightarrow> string \<Rightarrow> string \<Rightarrow> string + string list \<times> preview_config" where
  "Watch fs cfg namespace dashboardName =
     (case watchDirs fs (pv_paths cfg) (pv_recursive cfg) of
        Inl e \<Rightarrow> Inl e
      | Inr dirs \<Rightarrow> Inr (dirs, cfg\<lparr>pv_namespace := namespace, pv_dashboard_name := dashboardName\<rparr>))"

section \<open>Lemmas on paths\<close>

text \<open>What \<^verbatim>\<open>Clean\<close> leaves, in reverse: no empty or dot element, and only leading double dots, unless rooted.\<close>

fun clean_rev :: "bool \<Rightarrow> string list \<Rightarrow> bool" where
  "clean_rev rooted [] \<longleftrightarrow> True"
| "clean_rev rooted (x # xs) \<longleftrightarrow> clean_rev rooted xs \<and> x \<noteq> [] \<and> x \<noteq> ''.'' \<and>
     (x = ''..'' \<longrightarrow> \<not> rooted \<and> (\<forall>y \<in> set xs. y = ''..''))"

lemma clean_rev_append: "clean_rev rooted (xs @ ys) \<Longrightarrow> clean_rev rooted ys"
  by (induction xs) auto

lemma clean_rev_all_up: "clean_rev rooted (x # xs) \<Longrightarrow> x = ''..'' \<Longrightarrow> \<forall>y \<in> set (x # xs). y = ''..''"
  by simp

lemma clean_parts_clean: "clean_rev rooted acc \<Longrightarrow> clean_rev rooted (rev (clean_parts rooted acc es))"
  by (induction rooted acc es rule: clean_parts.induct) (auto split: list.splits)

lemma clean_parts_id: "clean_rev rooted (rev es @ acc) \<Longrightarrow> clean_parts rooted acc es = rev acc @ es"
proof (induction es arbitrary: acc)
  case (Cons e es)
  then have "clean_rev rooted (e # acc)" by (auto dest: clean_rev_append)
  with Cons show ?case by (auto split: list.splits)
qed simp

lemma clean_parts_empty [simp]: "clean_parts rooted acc (es @ [[]]) = clean_parts rooted acc es"
  by (induction rooted acc es rule: clean_parts.induct) (auto split: list.splits)

lemma clean_parts_snoc:
  "n \<noteq> [] \<Longrightarrow> n \<noteq> ''.'' \<Longrightarrow> n \<noteq> ''..'' \<Longrightarrow> clean_parts rooted acc (es @ [n]) = clean_parts rooted acc es @ [n]"
  by (induction rooted acc es rule: clean_parts.induct) (auto split: list.splits)

lemma set_clean_parts: "set (clean_parts rooted acc es) \<subseteq> set acc \<union> set es"
  by (induction rooted acc es rule: clean_parts.induct) (auto split: list.splits if_splits)

lemma split_slash_free: "x \<in> set (split_slash s) \<Longrightarrow> slash \<notin> set x"
  by (induction s arbitrary: x) (auto split: list.splits if_splits)

lemma split_slash_snoc: "slash \<notin> set n \<Longrightarrow> split_slash (p @ slash # n) = split_slash p @ [n]"
  by (induction p) (auto simp: split_slash_atom split: list.splits)

lemma split_slash_join:
  "xs \<noteq> [] \<Longrightarrow> \<forall>x \<in> set xs. slash \<notin> set x \<Longrightarrow> split_slash (join [slash] xs) = xs"
proof (induction "[slash]" xs rule: join.induct)
  case (3 x y xs)
  then show ?case using split_slash_append [of x "join [slash] (y # xs)"] by simp
qed (simp_all add: split_slash_atom)

lemma join_snoc: "xs \<noteq> [] \<Longrightarrow> join sep (xs @ [n]) = join sep xs @ sep @ n"
  by (induction sep xs rule: join.induct) auto

lemma join_head: "xs \<noteq> [] \<Longrightarrow> hd xs \<noteq> [] \<Longrightarrow> \<exists>r. join sep xs = hd (hd xs) # r"
  by (cases xs; cases "tl xs"; cases "hd xs") auto

text \<open>The elements a path comes down to.\<close>

definition path_parts :: "string \<Rightarrow> string list" where
  "path_parts p = clean_parts (has_prefix p [slash]) [] (split_slash p)"

lemma clean_path_eq:
  "clean_path p = (if has_prefix p [slash] then slash # join [slash] (path_parts p)
     else if join [slash] (path_parts p) = [] then ''.'' else join [slash] (path_parts p))"
  by (simp add: clean_path_def path_parts_def Let_def)

lemma path_parts_free: "x \<in> set (path_parts p) \<Longrightarrow> slash \<notin> set x"
  using set_clean_parts [of "has_prefix p [slash]" "[]" "split_slash p"] split_slash_free by (auto simp: path_parts_def)

lemma path_parts_clean: "clean_rev (has_prefix p [slash]) (rev (path_parts p))"
  using clean_parts_clean [of "has_prefix p [slash]" "[]" "split_slash p"] by (simp add: path_parts_def)

lemma clean_rev_member: "clean_rev rooted xs \<Longrightarrow> x \<in> set xs \<Longrightarrow> x \<noteq> [] \<and> x \<noteq> ''.''"
  by (induction xs) auto

lemma join_path_parts_Nil: "join [slash] (path_parts p) = [] \<longleftrightarrow> path_parts p = []"
proof
  assume *: "join [slash] (path_parts p) = []"
  show "path_parts p = []"
  proof (rule ccontr)
    assume ne: "path_parts p \<noteq> []"
    then have "hd (path_parts p) \<noteq> []" using clean_rev_member [OF path_parts_clean, of "hd (path_parts p)" p] by simp
    with join_head [OF ne, of "[slash]"] * show False by simp
  qed
qed simp

text \<open>A cleaned path with a slash behind it is the cleaned path again.\<close>

lemma cleaned:
  assumes "path_parts p \<noteq> []"
  shows "clean_path (clean_path p @ [slash]) = clean_path p" "path_parts (clean_path p) = path_parts p"
    "has_prefix (clean_path p) [slash] = has_prefix p [slash]"
proof -
  let ?P = "path_parts p" and ?rooted = "has_prefix p [slash]"
  let ?q = "clean_path p @ [slash]"
  have hd: "hd ?P \<noteq> [] \<and> slash \<notin> set (hd ?P)"
    using assms clean_rev_member [OF path_parts_clean, of "hd ?P" p] path_parts_free [of "hd ?P" p] by simp
  have q: "clean_path p = (if ?rooted then [slash] else []) @ join [slash] ?P"
    using assms by (simp add: clean_path_eq join_path_parts_Nil)
  obtain r where r: "join [slash] ?P = hd (hd ?P) # r" using join_head [OF assms, of "[slash]"] hd by blast
  have "hd (hd ?P) \<noteq> slash" using hd by (metis hd_in_set)
  then have rooted: "has_prefix ?q [slash] = ?rooted" "has_prefix (clean_path p) [slash] = ?rooted"
    unfolding q r by simp_all
  have free: "\<forall>x \<in> set ?P. slash \<notin> set x" using path_parts_free by blast
  have "split_slash (join [slash] ?P @ [slash]) = ?P @ [[]]"
    using split_slash_snoc [of "[]" "join [slash] ?P"] split_slash_join [OF assms free] by simp
  moreover have "clean_parts ?rooted [] ?P = ?P" using clean_parts_id [of ?rooted ?P "[]"] path_parts_clean by simp
  ultimately have both: "path_parts ?q = ?P" and same: "path_parts (clean_path p) = ?P"
    unfolding path_parts_def [of ?q] path_parts_def [of "clean_path p"] rooted
    using split_slash_join [OF assms free] by (cases ?rooted; simp add: q)+
  have "join [slash] ?P \<noteq> []" using assms by (simp add: join_path_parts_Nil)
  then show "clean_path ?q = clean_path p" unfolding clean_path_eq [of ?q] rooted both by (simp add: q)
  show "path_parts (clean_path p) = ?P" by (rule same)
  show "has_prefix (clean_path p) [slash] = ?rooted" by (rule rooted)
qed

lemma clean_idem [simp]: "clean_path (clean_path p) = clean_path p"
proof (cases "path_parts p = []")
  case True
  then have "clean_path p \<in> {[slash], ''.''}" by (simp add: clean_path_eq)
  then show ?thesis by (auto simp: clean_path_def)
next
  case False
  then show ?thesis
    unfolding clean_path_eq [of "clean_path p"] cleaned(2,3) [OF False] by (simp add: clean_path_eq join_path_parts_Nil)
qed

definition entry_name :: "string \<Rightarrow> bool" where
  "entry_name n \<longleftrightarrow> n \<noteq> [] \<and> n \<noteq> ''.'' \<and> n \<noteq> ''..'' \<and> slash \<notin> set n"

text \<open>The directory of an entry is the one it was found in.\<close>

lemma path_dir_join:
  assumes "entry_name n"
  shows "path_dir (path_join p n) = clean_path p"
proof -
  have n: "n \<noteq> []" "n \<noteq> ''.''" "n \<noteq> ''..''" "slash \<notin> set n" using assms by (simp_all add: entry_name_def)
  show ?thesis
  proof (cases "p = []")
    case True
    have "\<not> has_prefix n [slash]" using n by (cases n) auto
    then have "clean_path n = n" using n by (simp add: clean_path_def split_slash_atom)
    moreover have "last_index [slash] n = None" using n by (simp add: last_index_char_None)
    ultimately show ?thesis using True by (simp add: path_join_def path_dir_def)
  next
    case False
    let ?q = "clean_path (p @ slash # n)"
    have rooted: "has_prefix (p @ slash # n) [slash] = has_prefix p [slash]" using False by (cases p) simp_all
    have parts: "path_parts (p @ slash # n) = path_parts p @ [n]"
      unfolding path_parts_def rooted split_slash_snoc [OF n(4)] by (rule clean_parts_snoc [OF n(1-3)])
    show ?thesis
    proof (cases "path_parts p = []")
      case True
      then have "?q = (if has_prefix p [slash] then slash # n else n)"
        using n(1) by (simp add: clean_path_eq [of "p @ slash # n"] rooted parts)
      moreover have "clean_path p = (if has_prefix p [slash] then [slash] else ''.'')"
        using True by (simp add: clean_path_eq)
      moreover have "last_index [slash] (slash # n) = Some 0" "last_index [slash] n = None"
        using n(4) last_index_char_append [of slash n "[]"] by (simp_all add: last_index_char_None)
      moreover have "clean_path [slash] = [slash]" "clean_path [] = ''.''" by (simp_all add: clean_path_def)
      ultimately show ?thesis using False by (auto simp: path_join_def path_dir_def)
    next
      case P: False
      then have "?q = clean_path p @ slash # n"
        by (simp add: clean_path_eq [of "p @ slash # n"] clean_path_eq [of p] rooted parts join_snoc join_path_parts_Nil)
      moreover have "last_index [slash] (clean_path p @ slash # n) = Some (length (clean_path p))"
        using n(4) by (simp add: last_index_char_append)
      ultimately show ?thesis using False cleaned(1) [OF P] by (simp add: path_join_def path_dir_def)
    qed
  qed
qed

lemma path_join_longer:
  assumes "entry_name n"
  shows "path_join p n \<noteq> p"
proof (cases "p = []")
  case False
  have n: "n \<noteq> []" "n \<noteq> ''.''" "n \<noteq> ''..''" "slash \<notin> set n" using assms by (simp_all add: entry_name_def)
  have rooted: "has_prefix (p @ slash # n) [slash] = has_prefix p [slash]" using False by (cases p) simp_all
  have parts: "path_parts (p @ slash # n) = path_parts p @ [n]"
    unfolding path_parts_def rooted split_slash_snoc [OF n(4)] by (rule clean_parts_snoc [OF n(1-3)])
  then have "path_parts (path_join p n) = path_parts p @ [n]"
    using cleaned(2) [of "p @ slash # n"] False by (simp add: path_join_def)
  then show ?thesis by force
qed (simp add: path_join_def clean_path_def Let_def)

section \<open>Every file that is read is watched\<close>

text \<open>Directory entries have names of their own, and what counts as a directory is one, not a link to one.\<close>

fun named_entries :: "fs_node \<Rightarrow> bool" where
  "named_entries (Dir es) \<longleftrightarrow> list_all (\<lambda>(n, t). entry_name n \<and> named_entries t) es"
| "named_entries _ \<longleftrightarrow> True"

definition sane_fs :: "filesystem \<Rightarrow> bool" where
  "sane_fs fs \<longleftrightarrow> (\<forall>p t. fs_node_at fs p = Inr t \<longrightarrow> named_entries t \<and> (fs_stat fs p = Inr True \<longrightarrow> t \<noteq> File))"

definition covered :: "string list \<Rightarrow> string \<Rightarrow> bool" where
  "covered dirs f \<longleftrightarrow> (\<exists>d \<in> set dirs. clean_path d = path_dir f)"

lemma set_add_dir [simp]: "set (add_dir d dirs) = insert d (set dirs)"
  by (auto simp: add_dir_def)

lemma covered_mono: "set dirs \<subseteq> set dirs' \<Longrightarrow> covered dirs f \<Longrightarrow> covered dirs' f"
  by (auto simp: covered_def)

lemma walk_dirs_grow:
  "walk visit_dir path t dirs = Inr dirs' \<Longrightarrow> set dirs \<subseteq> set dirs'"
  "walk_entries visit_dir path es dirs = Inr dirs' \<Longrightarrow> set dirs \<subseteq> set dirs'"
  by (induction visit_dir path t dirs and visit_dir path es dirs arbitrary: dirs' and dirs' rule: walk_walk_entries.induct)
    (auto simp: visit_dir_def split: sum.splits if_splits)

text \<open>A recursive walk: what it collects below a directory, the other walk watches.\<close>

lemma walk_covered:
  "named_entries t \<Longrightarrow> walk (visit_yaml True root) path t files = Inr files' \<Longrightarrow>
   walk visit_dir path t dirs = Inr dirs' \<Longrightarrow> (t = File \<Longrightarrow> covered dirs path) \<Longrightarrow>
   \<forall>f \<in> set files' - set files. covered dirs' f"
  "list_all (\<lambda>(n, t). entry_name n \<and> named_entries t) es \<Longrightarrow>
   walk_entries (visit_yaml True root) path es files = Inr files' \<Longrightarrow>
   walk_entries visit_dir path es dirs = Inr dirs' \<Longrightarrow> path \<in> set dirs \<Longrightarrow>
   \<forall>f \<in> set files' - set files. covered dirs' f"
proof (induction "visit_yaml True root" path t files and "visit_yaml True root" path es files
    arbitrary: files' dirs dirs' and files' dirs dirs' rule: walk_walk_entries.induct)
  case (1 path files)
  then show ?case by (auto simp: visit_yaml_def visit_dir_def split: if_splits)
next
  case (2 path e files)
  then show ?case by (auto simp: visit_yaml_def)
next
  case (3 path es files)
  then show ?case by (auto simp: visit_yaml_def visit_dir_def)
next
  case (4 path files)
  then show ?case by simp
next
  case (5 path n t es files)
  obtain files1 where f1: "walk (visit_yaml True root) (path_join path n) t files = Inr files1"
    and f2: "walk_entries (visit_yaml True root) path es files1 = Inr files'"
    using "5.prems"(2) by (auto split: sum.splits)
  obtain dirs1 where d1: "walk visit_dir (path_join path n) t dirs = Inr dirs1"
    and d2: "walk_entries visit_dir path es dirs1 = Inr dirs'"
    using "5.prems"(3) by (auto split: sum.splits)
  have named: "entry_name n" "named_entries t" "list_all (\<lambda>(n, t). entry_name n \<and> named_entries t) es"
    using "5.prems"(1) by simp_all
  have "covered dirs (path_join path n)"
    using "5.prems"(4) path_dir_join [OF named(1), of path] by (auto simp: covered_def)
  with "5.hyps"(1) [OF named(2) f1 d1] have "\<forall>f \<in> set files1 - set files. covered dirs1 f" by blast
  moreover have "path \<in> set dirs1" using walk_dirs_grow(1) [OF d1] "5.prems"(4) by blast
  with "5.hyps"(2) [OF f1 named(3) f2 d2] have "\<forall>f \<in> set files' - set files1. covered dirs' f" by blast
  moreover have "set dirs1 \<subseteq> set dirs'" by (rule walk_dirs_grow(2) [OF d2])
  ultimately show ?case using covered_mono by blast
qed

text \<open>Without recursion, only the entries of the directory itself are read.\<close>

lemma walk_entries_flat:
  assumes "list_all (\<lambda>(n, t). entry_name n \<and> named_entries t) es"
    and "walk_entries (visit_yaml False root) path es files = Inr files'" "root \<in> set dirs" "path = root"
  shows "\<forall>f \<in> set files' - set files. covered dirs f"
  using assms
proof (induction es arbitrary: files)
  case (Cons e es)
  obtain n t where e: "e = (n, t)" by (cases e)
  obtain files1 where f1: "walk (visit_yaml False root) (path_join path n) t files = Inr files1"
    and f2: "walk_entries (visit_yaml False root) path es files1 = Inr files'"
    using Cons.prems(2) by (auto simp: e split: sum.splits)
  have name: "entry_name n" using Cons.prems(1) by (simp add: e)
  have "\<forall>f \<in> set files1 - set files. covered dirs f"
  proof (cases t)
    case File
    with f1 have "set files1 - set files \<subseteq> {path_join path n}" by (auto simp: visit_yaml_def split: if_splits)
    moreover have "covered dirs (path_join path n)"
      using path_dir_join [OF name, of path] Cons.prems(3,4) by (auto simp: covered_def)
    ultimately show ?thesis by blast
  next
    case (Unreadable e)
    with f1 show ?thesis by (auto simp: visit_yaml_def split: if_splits)
  next
    case (Dir ts)
    with f1 path_join_longer [OF name, of path] Cons.prems(4) show ?thesis by (simp add: visit_yaml_def)
  qed
  with Cons.IH [OF _ f2] Cons.prems show ?case by (auto simp: e)
qed simp

lemma walk_from_Inr:
  "walk_from fs visit p a = Inr a' \<longleftrightarrow> (\<exists>t. fs_node_at fs p = Inr t \<and> walk visit p t a = Inr a')"
  by (auto simp: walk_from_def split: sum.splits)

lemma directory_covered:
  assumes "sane_fs fs" "fs_stat fs p = Inr True" "walk_from fs (visit_yaml recursive p) p files = Inr files'"
    and "if recursive then walk_from fs visit_dir p (add_dir p dirs) = Inr dirs' else dirs' = add_dir p dirs"
  shows "(\<forall>f \<in> set files' - set files. covered dirs' f) \<and> set dirs \<subseteq> set dirs'"
proof -
  from assms(3) obtain t where t: "fs_node_at fs p = Inr t" "walk (visit_yaml recursive p) p t files = Inr files'"
    by (auto simp: walk_from_Inr)
  with assms(1,2) have named: "named_entries t" "t \<noteq> File" by (auto simp: sane_fs_def)
  show ?thesis
  proof (cases recursive)
    case True
    with assms(4) t have dirs: "walk visit_dir p t (add_dir p dirs) = Inr dirs'" by (simp add: walk_from_Inr)
    from walk_covered(1) [OF named(1) _ this] t True named(2) walk_dirs_grow(1) [OF dirs] show ?thesis by auto
  next
    case False
    with assms(4) have dirs: "dirs' = add_dir p dirs" by simp
    show ?thesis
    proof (cases t)
      case (Dir es)
      with t False have "walk_entries (visit_yaml False p) p es files = Inr files'" by (simp add: visit_yaml_def)
      from walk_entries_flat [OF _ this, of dirs'] named(1) Dir dirs show ?thesis by auto
    qed (use named t False in \<open>auto simp: visit_yaml_def\<close>)
  qed
qed

lemma paths_covered:
  assumes "sane_fs fs"
  shows "collect_paths fs recursive ps files = Inr files' \<Longrightarrow> watch_paths fs recursive ps dirs = Inr dirs' \<Longrightarrow>
    (\<forall>f \<in> set files' - set files. covered dirs' f) \<and> set dirs \<subseteq> set dirs'"
proof (induction ps arbitrary: files dirs)
  case (Cons p ps)
  from Cons.prems(1) obtain is_dir where stat: "fs_stat fs p = Inr is_dir" by (auto split: sum.splits)
  have "\<exists>files1 dirs1. collect_paths fs recursive ps files1 = Inr files' \<and> watch_paths fs recursive ps dirs1 = Inr dirs' \<and>
      (\<forall>f \<in> set files1 - set files. covered dirs1 f) \<and> set dirs \<subseteq> set dirs1"
  proof (cases is_dir)
    case False
    have "clean_path (path_dir p) = path_dir p" by (simp add: path_dir_def split: option.split)
    then have "covered (add_dir (path_dir p) dirs) p" by (auto simp: covered_def)
    with False Cons.prems stat show ?thesis
      by (intro exI [of _ "files @ [p]"] exI [of _ "add_dir (path_dir p) dirs"]) auto
  next
    case True
    then obtain files1 where f1: "walk_from fs (visit_yaml recursive p) p files = Inr files1"
      and f2: "collect_paths fs recursive ps files1 = Inr files'"
      using Cons.prems(1) stat by (auto split: sum.splits)
    obtain dirs1 where d1: "if recursive then walk_from fs visit_dir p (add_dir p dirs) = Inr dirs1 else dirs1 = add_dir p dirs"
      and d2: "watch_paths fs recursive ps dirs1 = Inr dirs'"
      using Cons.prems(2) stat True by (cases recursive) (auto split: sum.splits)
    have "fs_stat fs p = Inr True" using stat True by simp
    from directory_covered [OF assms this f1 d1] f2 d2 show ?thesis by blast
  qed
  then obtain files1 dirs1 where rest: "collect_paths fs recursive ps files1 = Inr files'"
    "watch_paths fs recursive ps dirs1 = Inr dirs'"
    and here: "\<forall>f \<in> set files1 - set files. covered dirs1 f" "set dirs \<subseteq> set dirs1" by blast
  from Cons.IH [OF rest] have "\<forall>f \<in> set files' - set files1. covered dirs' f" "set dirs1 \<subseteq> set dirs'" by blast+
  with here covered_mono show ?case by blast
qed simp

text \<open>A walk collects files with the name of a YAML file; others are those that were named themselves.\<close>

lemma walk_yaml_files:
  "walk (visit_yaml recursive root) path t files = Inr files' \<Longrightarrow> \<forall>f \<in> set files' - set files. isYAMLFile f"
  "walk_entries (visit_yaml recursive root) path es files = Inr files' \<Longrightarrow> \<forall>f \<in> set files' - set files. isYAMLFile f"
proof (induction "visit_yaml recursive root" path t files and "visit_yaml recursive root" path es files
    arbitrary: files' and files' rule: walk_walk_entries.induct)
  case (5 path n t es files)
  obtain files1 where f1: "walk (visit_yaml recursive root) (path_join path n) t files = Inr files1"
    and f2: "walk_entries (visit_yaml recursive root) path es files1 = Inr files'"
    using "5.prems" by (auto split: sum.splits)
  from "5.hyps"(1) [OF f1] "5.hyps"(2) [OF f1 f2] show ?case by blast
qed (auto simp: visit_yaml_def split: if_splits)

lemma collected_files:
  "collect_paths fs recursive ps files = Inr files' \<Longrightarrow> \<forall>f \<in> set files' - set files. f \<in> set ps \<or> isYAMLFile f"
proof (induction ps arbitrary: files)
  case (Cons p ps)
  then obtain files1 where rest: "collect_paths fs recursive ps files1 = Inr files'"
    and here: "\<forall>f \<in> set files1 - set files. f = p \<or> isYAMLFile f"
    by (fastforce simp: walk_from_Inr dest: walk_yaml_files split: sum.splits if_splits)
  from Cons.IH [OF rest] here show ?case by auto
qed simp

text \<open>The last element of a path; the watcher's name for a file ends with the same one.\<close>

definition base_name :: "string \<Rightarrow> string" where
  "base_name p = (case last_index [slash] p of None \<Rightarrow> p | Some i \<Rightarrow> drop (Suc i) p)"

lemma isYAMLFile_base: "base_name p = base_name q \<Longrightarrow> isYAMLFile p = isYAMLFile q"
  by (simp add: isYAMLFile_def path_ext_def base_name_def)

definition edits :: "watch_event \<Rightarrow> bool" where
  "edits ev \<longleftrightarrow> ev_write ev \<or> ev_create ev \<or> ev_remove ev \<or> ev_rename ev"

section \<open>The page follows the files\<close>

text \<open>
  What a preview should serve: a relevant event makes a reload due, a due reload happens at once when the
  timer fires, and one that fails changes nothing.
\<close>

fun served :: "manifest_decoder \<Rightarrow> preview_config \<Rightarrow> bool \<times> bool \<times> loaded list \<Rightarrow> watch_input \<Rightarrow> bool \<times> bool \<times> loaded list" where
  "served md cfg (due, running, objs) (FileEvent ev stat) = (due \<or> running \<and> relevant cfg ev stat, running, objs)"
| "served md cfg (due, running, objs) (TimerFires fs) =
     (if due then (False, running, case Load md fs cfg of Inl _ \<Rightarrow> objs | Inr r \<Rightarrow> lr_objects r) else (due, running, objs))"
| "served md cfg (due, running, objs) WatchDone = (False, False, objs)"
| "served md cfg s _ = s"

definition serving :: "watch_loop \<Rightarrow> bool \<times> bool \<times> loaded list" where
  "serving w = (wl_timer w, wl_running w,
     case wl_loading w of Inr r # _ \<Rightarrow> lr_objects r | _ \<Rightarrow> wl_objects w)"

text \<open>No reload starts while another is still loading.\<close>

definition idle_for :: "watch_loop \<Rightarrow> watch_input \<Rightarrow> bool" where
  "idle_for w i \<longleftrightarrow> (case i of TimerFires _ \<Rightarrow> wl_loading w = [] | _ \<Rightarrow> True)"

fun serial :: "manifest_decoder \<Rightarrow> preview_config \<Rightarrow> watch_loop \<Rightarrow> watch_input list \<Rightarrow> bool" where
  "serial md cfg w [] \<longleftrightarrow> True"
| "serial md cfg w (i # is) \<longleftrightarrow> idle_for w i \<and> serial md cfg (watch_step md cfg w i) is"

lemma serving_step:
  assumes "length (wl_loading w) \<le> 1" "idle_for w i"
  shows "serving (watch_step md cfg w i) = served md cfg (serving w) i \<and> length (wl_loading (watch_step md cfg w i)) \<le> 1"
proof (cases i)
  case (ReloadEnds n)
  with assms(1) show ?thesis
    by (cases "wl_loading w") (auto simp: serving_def finish_reload_def split: sum.splits list.splits)
qed (use assms in \<open>auto simp: serving_def idle_for_def split: sum.splits list.splits\<close>)

lemma serving_run:
  "length (wl_loading w) \<le> 1 \<Longrightarrow> serial md cfg w inputs \<Longrightarrow>
   serving (runWatchLoop md cfg w inputs) = foldl (served md cfg) (serving w) inputs"
proof (induction inputs arbitrary: w)
  case (Cons i inputs)
  have "idle_for w i" using Cons.prems(2) by simp
  from serving_step [OF Cons.prems(1) this, of md cfg] Cons.IH [of "watch_step md cfg w i"] Cons.prems(2)
  show ?case by (simp add: runWatchLoop_def)
qed (simp add: runWatchLoop_def)

text \<open>What is loading or served came from a load of this run, however reloads overlap.\<close>

definition loads_in :: "manifest_decoder \<Rightarrow> preview_config \<Rightarrow> watch_input list \<Rightarrow> (string + load_result) set" where
  "loads_in md cfg inputs = {Load md fs cfg | fs. TimerFires fs \<in> set inputs}"

lemma loads_in_Cons: "loads_in md cfg (i # is) =
    (case i of TimerFires fs \<Rightarrow> insert (Load md fs cfg) (loads_in md cfg is) | _ \<Rightarrow> loads_in md cfg is)"
  by (auto simp: loads_in_def split: watch_input.split)

lemma watch_step_loads:
  "set (wl_loading (watch_step md cfg w i)) \<subseteq> set (wl_loading w) \<union> loads_in md cfg [i] \<and>
   (wl_objects (watch_step md cfg w i) = wl_objects w \<or>
    (\<exists>r. Inr r \<in> set (wl_loading w) \<and> wl_objects (watch_step md cfg w i) = lr_objects r))"
proof (cases i)
  case (ReloadEnds n)
  then show ?thesis
    using set_take_subset [of n "wl_loading w"] set_drop_subset [of "Suc n" "wl_loading w"]
    by (auto simp: finish_reload_def split: sum.splits) (metis nth_mem)+
qed (auto simp: loads_in_def)

lemma run_loads:
  "set (wl_loading w) \<subseteq> L \<Longrightarrow> loads_in md cfg inputs \<subseteq> L \<Longrightarrow>
   wl_objects (runWatchLoop md cfg w inputs) = wl_objects w \<or>
   (\<exists>r. Inr r \<in> L \<and> wl_objects (runWatchLoop md cfg w inputs) = lr_objects r)"
proof (induction inputs arbitrary: w)
  case (Cons i inputs)
  let ?w = "watch_step md cfg w i"
  have "loads_in md cfg [i] \<subseteq> loads_in md cfg (i # inputs)" by (auto simp: loads_in_def)
  then have L: "set (wl_loading ?w) \<subseteq> L"
    using watch_step_loads [of md cfg w i] Cons.prems by blast
  have rest: "loads_in md cfg inputs \<subseteq> L" using Cons.prems(2) by (auto simp: loads_in_def)
  from Cons.IH [OF L rest] watch_step_loads [of md cfg w i] Cons.prems(1) show ?case
    by (auto simp: runWatchLoop_def)
qed (simp add: runWatchLoop_def)

lemma dashboards_of_iff: "d \<in> set (dashboards_of objs) \<longleftrightarrow> LoadedDashboard d \<in> set objs"
  by (induction objs rule: dashboards_of.induct) auto

lemma selectDashboard_Inr:
  "selectDashboard objs ns name = Inr d \<Longrightarrow> filter (candidate ns name) (dashboards_of objs) = [d]"
  by (auto simp: selectDashboard_def Let_def split: list.splits)

lemma set_namespace_namespace [simp]: "object_namespace (set_namespace ns x) = ns"
  by (cases x) simp_all

lemma default_namespace_set [simp]: "or_str ns defaultNamespace \<noteq> []"
  by (simp add: or_str_def defaultNamespace_def)

section \<open>Properties\<close>

text \<open>
  A load serves one Dashboard, the only one that matches the flags, under the name and namespace it
  reports; every object has a namespace, one without got the Dashboard's, and what the manifests name
  explicitly is kept.
\<close>

theorem load_serves:
  assumes "Load md fs cfg = Inr r"
  shows "\<exists>objs d. filter (candidate (pv_namespace cfg) (pv_dashboard_name cfg)) (dashboards_of objs) = [d] \<and>
    lr_dashboard_name r = d_name d \<and> lr_namespace r = or_str (d_namespace d) defaultNamespace \<and>
    lr_objects r = map (\<lambda>x. if object_namespace x = [] then set_namespace (lr_namespace r) x else x) objs \<and>
    LoadedDashboard (d\<lparr>d_namespace := lr_namespace r\<rparr>) \<in> set (lr_objects r) \<and>
    [] \<notin> object_namespace ` set (lr_objects r)"
proof -
  from assms obtain objs d where select: "selectDashboard objs (pv_namespace cfg) (pv_dashboard_name cfg) = Inr d"
    and r: "r = \<lparr>lr_objects = applyDefaultNamespace objs d,
      lr_namespace = or_str (d_namespace d) defaultNamespace, lr_dashboard_name = d_name d\<rparr>"
    by (auto simp: Load_def split: sum.splits if_splits)
  note only = selectDashboard_Inr [OF select]
  then have "d \<in> set (filter (candidate (pv_namespace cfg) (pv_dashboard_name cfg)) (dashboards_of objs))" by simp
  then have d: "LoadedDashboard d \<in> set objs" by (simp add: dashboards_of_iff)
  let ?fill = "\<lambda>x. if object_namespace x = [] then set_namespace (or_str (d_namespace d) defaultNamespace) x else x"
  have filled: "?fill (LoadedDashboard d) = LoadedDashboard (d\<lparr>d_namespace := or_str (d_namespace d) defaultNamespace\<rparr>)"
    by (simp add: or_str_def)
  have "LoadedDashboard (d\<lparr>d_namespace := or_str (d_namespace d) defaultNamespace\<rparr>) \<in> ?fill ` set objs"
    unfolding filled [symmetric] using d by (rule imageI)
  moreover have "lr_objects r = map ?fill objs" by (simp add: r applyDefaultNamespace_def Let_def)
  moreover have "[] \<notin> object_namespace ` (?fill ` set objs)" by (auto simp: default_namespace_set [symmetric])
  ultimately show ?thesis
    using only by (intro exI [of _ objs] exI [of _ d] conjI) (simp_all add: r)
qed

definition ex_decoder :: manifest_decoder where
  "ex_decoder = \<lparr>md_documents = (\<lambda>data. ([data], None)),
     md_decode = (\<lambda>doc. if doc = ''home'' then Object (LoadedDashboard (ex_dashboard [] ''home''))
       else if doc = ''media'' then Object (LoadedCard (ex_service_card [] ''media'' [])) else Malformed ''bad'')\<rparr>"

definition ex_files :: "string \<Rightarrow> filesystem" where
  "ex_files second = \<lparr>fs_stat = (\<lambda>p. Inr (p = ''m'')),
     fs_node_at = (\<lambda>p. Inr (if p = ''m'' then Dir [(''a.yaml'', File), (''sub'', Dir [(''b.yml'', File), (''notes'', File)])] else File)),
     fs_read = (\<lambda>p. Inr (if p = ''m/a.yaml'' then ''home'' else second))\<rparr>"

definition ex_preview :: preview_config where
  "ex_preview = \<lparr>pv_paths = [''m''], pv_recursive = True, pv_namespace = [], pv_dashboard_name = []\<rparr>"

theorem load_serves_witness:
  "(let r = projr (Load ex_decoder (ex_files ''media'') ex_preview)
    in lr_namespace r = ''preview'' \<and> lr_dashboard_name r = ''home'' \<and> length (lr_objects r) = 2 \<and>
       [] \<notin> object_namespace ` set (lr_objects r))"
proof -
  let ?load = "Load ex_decoder (ex_files ''media'') ex_preview"
  have load: "\<not> isl ?load" "lr_namespace (projr ?load) = ''preview''" "lr_dashboard_name (projr ?load) = ''home''"
    "length (lr_objects (projr ?load)) = 2"
    by code_simp+
  then have "?load = Inr (projr ?load)" by (simp add: isl_def)
  from load_serves [OF this] load(2-4) show ?thesis by (auto simp: Let_def)
qed

text \<open>
  C39. Edits of the manifests are noticed: every file that a load reads lies in one of the directories that
  are watched, as the watcher names it, with and without recursion; unless it was itself named on the
  command line it has the extension of a YAML file; and an event that tells of a write, creation, removal
  or renaming of a file with such an extension makes a reload due.  The exception is a file named on the
  command line that has another extension: it is loaded, and its events are dropped.
\<close>

theorem manifests_watched:
  assumes "sane_fs fs" "collectFiles fs paths recursive = Inr files" "watchDirs fs paths recursive = Inr dirs"
    and "f \<in> set files"
  shows "(\<exists>d \<in> set dirs. clean_path d = path_dir f) \<and> (f \<in> set paths \<or> isYAMLFile f) \<and>
    (isYAMLFile f \<and> wl_running w \<and> base_name (ev_name ev) = base_name f \<and> edits ev \<longrightarrow>
       wl_timer (watch_step md cfg w (FileEvent ev stat)))"
proof (intro conjI impI)
  from assms(2) obtain found where found: "collect_paths fs recursive paths [] = Inr found" "set files = set found"
    by (cases "collect_paths fs recursive paths []") (auto simp: collectFiles_def)
  from paths_covered [OF assms(1) found(1)] assms(3) have "\<forall>f \<in> set found - set []. covered dirs f"
    unfolding watchDirs_def by blast
  with assms(4) found(2) show "\<exists>d \<in> set dirs. clean_path d = path_dir f" by (simp add: covered_def)
  from collected_files [OF found(1)] assms(4) found(2) show "f \<in> set paths \<or> isYAMLFile f" by auto
next
  assume "isYAMLFile f \<and> wl_running w \<and> base_name (ev_name ev) = base_name f \<and> edits ev"
  then show "wl_timer (watch_step md cfg w (FileEvent ev stat))"
    using isYAMLFile_base [of "ev_name ev" f] by (simp add: relevant_def edits_def)
qed

text \<open>The exception: such a file is loaded and its directory is watched, but no event of it has an effect.\<close>

lemma other_extension_unnoticed:
  assumes "fs_stat fs f = Inr False" "\<not> isYAMLFile f" "ev_name ev = f" "stat = Inr False"
  shows "collectFiles fs [f] recursive = Inr [f] \<and> watch_step md cfg w (FileEvent ev stat) = w"
  using assms by (simp add: collectFiles_def relevant_def)

definition ex_edit :: watch_event where
  "ex_edit = \<lparr>ev_name = ''m/sub/b.yml'', ev_create = False, ev_write = True, ev_remove = False, ev_rename = False\<rparr>"

definition ex_loop :: watch_loop where
  "ex_loop = \<lparr>wl_timer = False, wl_loading = [], wl_objects = [], wl_auth = [], wl_added = [], wl_running = True\<rparr>"

theorem manifests_watched_witness:
  "(\<exists>d \<in> set (projr (watchDirs (ex_files ''media'') [''m''] True)). clean_path d = path_dir ''m/sub/b.yml'') \<and>
   wl_timer (watch_step ex_decoder ex_preview ex_loop (FileEvent ex_edit (Inr False)))"
proof -
  have "sane_fs (ex_files ''media'')" by (simp add: sane_fs_def ex_files_def entry_name_def)
  moreover have "collectFiles (ex_files ''media'') [''m''] True = Inr [''m/a.yaml'', ''m/sub/b.yml'']"
    "watchDirs (ex_files ''media'') [''m''] True = Inr [''m'', ''m/sub'']"
    by code_simp+
  moreover have "isYAMLFile ''m/sub/b.yml'' \<and> wl_running ex_loop \<and>
      base_name (ev_name ex_edit) = base_name ''m/sub/b.yml'' \<and> edits ex_edit"
    by code_simp
  ultimately show ?thesis
    using manifests_watched [of "ex_files ''media''" "[''m'']" True "[''m/a.yaml'', ''m/sub/b.yml'']" "[''m'', ''m/sub'']"
        "''m/sub/b.yml''" ex_loop ex_edit ex_decoder ex_preview "Inr False"] by simp
qed

text \<open>
  C40. A running preview serves what the last good load of the files gave: while one reload ends before the
  next starts, the loop with its timer and its background loads behaves as if every due reload were
  atomic and a failed one had not happened; and whatever overlaps, what is served is the old objects or
  those of a load of this run.
\<close>

theorem preview_follows_files:
  assumes "wl_loading w = []" "w' = runWatchLoop md cfg w inputs"
  shows "(serial md cfg w inputs \<longrightarrow> serving w' = foldl (served md cfg) (serving w) inputs) \<and>
    (wl_objects w' = wl_objects w \<or> (\<exists>r. Inr r \<in> loads_in md cfg inputs \<and> wl_objects w' = lr_objects r))"
  using serving_run [of w md cfg inputs] run_loads [of w "loads_in md cfg inputs" md cfg inputs] assms by simp

lemma ex_loop_loading [simp]: "wl_loading ex_loop = []"
  by (simp add: ex_loop_def)

definition ex_saved :: watch_input where
  "ex_saved = FileEvent \<lparr>ev_name = ''m/a.yaml'', ev_create = False, ev_write = True, ev_remove = False, ev_rename = False\<rparr> (Inr False)"

definition ex_inputs :: "watch_input list" where
  "ex_inputs = [ex_saved, ex_saved, TimerFires (ex_files ''media''), ReloadEnds 0, ex_saved, TimerFires (ex_files ''broken''), ReloadEnds 0]"

theorem preview_follows_files_witness:
  "serving (runWatchLoop ex_decoder ex_preview ex_loop ex_inputs) =
   (False, True, lr_objects (projr (Load ex_decoder (ex_files ''media'') ex_preview)))"
proof -
  let ?good = "Load ex_decoder (ex_files ''media'') ex_preview" and ?bad = "Load ex_decoder (ex_files ''broken'') ex_preview"
  have "\<not> isl ?good" "isl ?bad" by code_simp+
  then obtain g b where good: "?good = Inr g" and bad: "?bad = Inl b" by (cases ?good; cases ?bad) auto
  have relevant: "relevant ex_preview \<lparr>ev_name = ''m/a.yaml'', ev_create = False, ev_write = True, ev_remove = False, ev_rename = False\<rparr> (Inr False)"
    by code_simp
  have "serial ex_decoder ex_preview ex_loop ex_inputs"
    by (simp add: ex_inputs_def ex_saved_def ex_loop_def idle_for_def relevant finish_reload_def split: sum.split)
  moreover have "foldl (served ex_decoder ex_preview) (serving ex_loop) ex_inputs = (False, True, lr_objects g)"
    by (simp add: ex_inputs_def ex_saved_def ex_loop_def serving_def relevant good bad)
  ultimately show ?thesis
    using preview_follows_files [OF _ refl, of ex_loop ex_decoder ex_preview ex_inputs] by (simp add: good)
qed

text \<open>
  The flag \<^verbatim>\<open>--namespace\<close> selects a Dashboard without a namespace, but is not the namespace it is served in:
  the objects of that namespace are not those of its page.
\<close>

lemma namespace_flag_ignored:
  "map_sum id lr_namespace (Load ex_decoder (ex_files ''media'') (ex_preview\<lparr>pv_namespace := ''web''\<rparr>)) = Inr ''preview''"
  by code_simp

text \<open>Two reloads that overlap and end in the other order leave the older files on the page.\<close>

lemma overlapping_reloads_stale:
  assumes "Load md fs1 cfg = Inr r1" "Load md fs2 cfg = Inr r2" "relevant cfg ev stat" "wl_running w" "wl_loading w = []"
  shows "wl_objects (runWatchLoop md cfg w
    [FileEvent ev stat, TimerFires fs1, FileEvent ev stat, TimerFires fs2, ReloadEnds 1, ReloadEnds 0]) = lr_objects r1"
  using assms by (simp add: runWatchLoop_def finish_reload_def)

text \<open>Of a whole tree that appears at once, only the top is watched; a restart would watch all of it.\<close>

lemma new_tree_partly_watched:
  assumes "wl_running w" "pv_recursive cfg" "ev_create ev"
    and "fs_stat fs (ev_name ev) = Inr True"
    and "fs_node_at fs (ev_name ev) = Inr (Dir [(n, Dir [])])" "path_join (ev_name ev) n \<noteq> ev_name ev"
  shows "wl_added (runWatchLoop md cfg w [FileEvent ev (Inr True)]) = wl_added w @ [ev_name ev]"
    and "watchDirs fs [ev_name ev] True = Inr [ev_name ev, path_join (ev_name ev) n]"
  using assms
  by (simp_all add: runWatchLoop_def relevant_def watchDirs_def walk_from_def visit_dir_def add_dir_def)

end
