(* ===== verification/Floats.thy ===== *)
theory Floats
  imports Complex_Main "HOL-Library.Signed_Division" Prelude
begin

text \<open>
  Go's \<^verbatim>\<open>float64\<close>, as the widgets use it: IEEE 754 binary64 values with round-to-nearest-even
  arithmetic, \<^verbatim>\<open>strconv.ParseFloat\<close> on decimal text, the two forms of \<^verbatim>\<open>strconv.FormatFloat\<close> in
  use (a fixed number of decimals, and the shortest text that reads back as the same number), and
  the helpers of \<^verbatim>\<open>internal/dashboard/kubemetrics.go\<close> and \<^verbatim>\<open>opnsense.go\<close> built on them.  A finite
  value is a sign (for the two zeros) and the exact magnitude.  Proved: rounding never passes a
  representable bound, so that a share of a total is between 0 and 100 per cent; the scaling loop of
  \<^verbatim>\<open>formatBytesHumanized\<close> terminates, and where it indexes past the end of its unit table.
\<close>

section \<open>Rounding\<close>

fun bits :: "nat \<Rightarrow> nat" where
  "bits n = (if n = 0 then 0 else Suc (bits (n div 2)))"

declare bits.simps [simp del]

text \<open>The exponent \<open>e\<close> with \<open>2 powi e \<le> x < 2 powi (e + 1)\<close>.\<close>

definition ilog2 :: "rat \<Rightarrow> int" where
  "ilog2 x = (if 1 \<le> x then int (bits (nat \<lfloor>x\<rfloor>)) - 1 else - int (bits (nat \<lceil>1 / x\<rceil> - 1)))"

definition rint :: "rat \<Rightarrow> int" where
  "rint x =
     (let f = \<lfloor>x\<rfloor>; d = x - of_int f
      in if d < 1 / 2 then f else if 1 / 2 < d then f + 1 else if even f then f else f + 1)"

text \<open>52 bits after the leading one; subnormal numbers are multiples of \<open>2 powi (- 1074)\<close>.\<close>

definition ulp_exp :: "rat \<Rightarrow> int" where
  "ulp_exp x = max (- 1074) (ilog2 x - 52)"

definition rnd :: "rat \<Rightarrow> rat" where
  "rnd x = (if x = 0 then 0 else of_int (rint (x / 2 powi ulp_exp x)) * 2 powi ulp_exp x)"

section \<open>Values and arithmetic\<close>

text \<open>\<open>True\<close> is the negative sign.\<close>

datatype float64 = Finite bool rat | Infinite bool | NaN

definition fl :: "bool \<Rightarrow> rat \<Rightarrow> float64" where
  "fl zero_sign x =
     (let m = rnd \<bar>x\<bar>; s = (if x = 0 then zero_sign else x < 0)
      in if 2 ^ 1024 \<le> m then Infinite s else Finite s m)"

definition fval :: "bool \<Rightarrow> rat \<Rightarrow> rat" where
  "fval s m = (if s then - m else m)"

definition f_of_int :: "int \<Rightarrow> float64" where
  "f_of_int n = fl False (of_int n)"

definition f_zero :: float64 where "f_zero = Finite False 0"

fun f_neg :: "float64 \<Rightarrow> float64" where
  "f_neg (Finite s m) = Finite (\<not> s) m"
| "f_neg (Infinite s) = Infinite (\<not> s)"
| "f_neg NaN = NaN"

fun f_add :: "float64 \<Rightarrow> float64 \<Rightarrow> float64" where
  "f_add (Finite s m) (Finite t n) = fl (s \<and> t) (fval s m + fval t n)"
| "f_add (Infinite s) (Infinite t) = (if s = t then Infinite s else NaN)"
| "f_add (Infinite s) (Finite _ _) = Infinite s"
| "f_add (Finite _ _) (Infinite t) = Infinite t"
| "f_add _ _ = NaN"

definition f_sub :: "float64 \<Rightarrow> float64 \<Rightarrow> float64" where
  "f_sub a b = f_add a (f_neg b)"

fun f_mul :: "float64 \<Rightarrow> float64 \<Rightarrow> float64" where
  "f_mul (Finite s m) (Finite t n) = fl (s \<noteq> t) (fval s m * fval t n)"
| "f_mul (Infinite s) (Infinite t) = Infinite (s \<noteq> t)"
| "f_mul (Infinite s) (Finite t n) = (if n = 0 then NaN else Infinite (s \<noteq> t))"
| "f_mul (Finite s m) (Infinite t) = (if m = 0 then NaN else Infinite (s \<noteq> t))"
| "f_mul _ _ = NaN"

fun f_div :: "float64 \<Rightarrow> float64 \<Rightarrow> float64" where
  "f_div (Finite s m) (Finite t n) =
     (if n = 0 then (if m = 0 then NaN else Infinite (s \<noteq> t)) else fl (s \<noteq> t) (fval s m / fval t n))"
| "f_div (Finite s m) (Infinite t) = Finite (s \<noteq> t) 0"
| "f_div (Infinite s) (Finite t n) = Infinite (s \<noteq> t)"
| "f_div _ _ = NaN"

fun f_less :: "float64 \<Rightarrow> float64 \<Rightarrow> bool" where
  "f_less (Finite s m) (Finite t n) \<longleftrightarrow> fval s m < fval t n"
| "f_less (Infinite s) (Infinite t) \<longleftrightarrow> s \<and> \<not> t"
| "f_less (Infinite s) (Finite _ _) \<longleftrightarrow> s"
| "f_less (Finite _ _) (Infinite t) \<longleftrightarrow> \<not> t"
| "f_less _ _ \<longleftrightarrow> False"

fun f_is_zero :: "float64 \<Rightarrow> bool" where
  "f_is_zero (Finite _ m) \<longleftrightarrow> m = 0"
| "f_is_zero _ \<longleftrightarrow> False"

text \<open>
  \<^verbatim>\<open>int(x)\<close> drops the fraction.  For a value that an \<^verbatim>\<open>int\<close> cannot hold Go leaves the result to the
  implementation; this is what amd64 returns.
\<close>

fun f_to_int :: "float64 \<Rightarrow> int" where
  "f_to_int (Finite s m) =
     (let i = (if s then - \<lfloor>m\<rfloor> else \<lfloor>m\<rfloor>) in if - (2 ^ 63) \<le> i \<and> i < 2 ^ 63 then i else - (2 ^ 63))"
| "f_to_int _ = - (2 ^ 63)"

section \<open>Text\<close>

definition pad_zeros :: "nat \<Rightarrow> string \<Rightarrow> string" where
  "pad_zeros p s = replicate (p - length s) (CHR ''0'') @ s"

text \<open>The number \<open>n / 10 ^ p\<close> with \<open>p\<close> decimals.\<close>

definition decimals :: "nat \<Rightarrow> nat \<Rightarrow> string" where
  "decimals p n =
     (if p = 0 then fmt_nat n
      else fmt_nat (n div 10 ^ p) @ ''.'' @ pad_zeros p (fmt_nat (n mod 10 ^ p)))"

definition with_sign :: "bool \<Rightarrow> string \<Rightarrow> string" where
  "with_sign neg s = (if neg then ''-'' @ s else s)"

fun format_fixed :: "nat \<Rightarrow> float64 \<Rightarrow> string" where
  "format_fixed p (Finite s m) = with_sign s (decimals p (nat (rint (m * 10 ^ p))))"
| "format_fixed p (Infinite s) = (if s then ''-Inf'' else ''+Inf'')"
| "format_fixed p NaN = ''NaN''"

text \<open>
  The largest power of ten of which a multiple still rounds to \<open>m\<close> gives the fewest digits; of two
  such multiples the closer one is taken.  Every value is a multiple of \<open>10 powi (- 1074)\<close>, which
  bounds the search.
\<close>

fun find_shortest :: "nat \<Rightarrow> int \<Rightarrow> rat \<Rightarrow> nat \<times> int" where
  "find_shortest 0 t m = (nat \<lfloor>m / 10 powi t\<rfloor>, t)"
| "find_shortest (Suc fuel) t m =
     (let lo = nat \<lfloor>m / 10 powi t\<rfloor>;
          lower = of_nat lo * 10 powi t;
          upper = of_nat (Suc lo) * 10 powi t
      in if rnd lower = m \<and> (rnd upper = m \<longrightarrow> m - lower \<le> upper - m) then (lo, t)
         else if rnd upper = m then (Suc lo, t)
         else find_shortest fuel (t - 1) m)"

definition shortest_digits :: "rat \<Rightarrow> nat \<times> int" where
  "shortest_digits m =
     (let t = length (fmt_nat (nat \<lfloor>m\<rfloor>)) in find_shortest (t + 1074) (int t) m)"

fun format_shortest :: "float64 \<Rightarrow> string" where
  "format_shortest (Finite s m) =
     with_sign s
       (if m = 0 then ''0''
        else case shortest_digits m of (n, t) \<Rightarrow>
          if 0 \<le> t then fmt_nat (n * 10 ^ nat t) else decimals (nat (- t)) n)"
| "format_shortest (Infinite s) = (if s then ''-Inf'' else ''+Inf'')"
| "format_shortest NaN = ''NaN''"

text \<open>
  Decimal text: an optional sign, digits with at most one point and at least one digit, an optional
  exponent.  This is all of JSON's numbers and all that \<^verbatim>\<open>ParseFloat\<close> takes besides the special
  names and hexadecimal literals, which are not modelled.
\<close>

definition parse_sign :: "string \<Rightarrow> bool \<times> string" where
  "parse_sign s =
     (case s of [] \<Rightarrow> (False, [])
      | c # r \<Rightarrow> if c = CHR ''-'' then (True, r) else if c = CHR ''+'' then (False, r) else (False, s))"

definition parse_exponent :: "string \<Rightarrow> int option" where
  "parse_exponent s =
     (case s of [] \<Rightarrow> Some 0
      | c # r \<Rightarrow>
          if c = CHR ''e'' \<or> c = CHR ''E'' then
            (case parse_sign r of (neg, ds) \<Rightarrow>
               if ds = [] \<or> \<not> list_all is_digit ds then None
               else Some (if neg then - int (digits_val ds) else int (digits_val ds)))
          else None)"

definition parse_decimal :: "string \<Rightarrow> (bool \<times> rat) option" where
  "parse_decimal s =
     (case parse_sign s of (neg, r) \<Rightarrow>
        let whole = takeWhile is_digit r;
            r = dropWhile is_digit r;
            (frac, r) = (case r of [] \<Rightarrow> ([], r)
                         | c # r' \<Rightarrow> if c = CHR ''.'' then (takeWhile is_digit r', dropWhile is_digit r')
                                    else ([], r))
        in if whole @ frac = [] then None
           else (case parse_exponent r of
                   None \<Rightarrow> None
                 | Some e \<Rightarrow>
                     Some (neg, of_nat (digits_val (whole @ frac)) * 10 powi (e - int (length frac)))))"

text \<open>A value beyond the largest number is an error.\<close>

definition ParseFloat :: "string \<Rightarrow> float64 option" where
  "ParseFloat s =
     (case parse_sign s of (neg, r) \<Rightarrow>
        if to_lower r \<in> {''inf'', ''infinity''} then Some (Infinite neg)
        else if to_lower s = ''nan'' then Some NaN
        else (case parse_decimal s of
                None \<Rightarrow> None
              | Some (neg, m) \<Rightarrow>
                  (case fl neg (fval neg m) of Finite s m \<Rightarrow> Some (Finite s m) | _ \<Rightarrow> None)))"

section \<open>The helpers of the widgets\<close>

definition f_half :: float64 where "f_half = Finite False (1 / 2)"

text \<open>\<^verbatim>\<open>int(x + 0.5)\<close>, and \<^verbatim>\<open>int(used / total * 100 + 0.5)\<close>.\<close>

definition round_half :: "float64 \<Rightarrow> int" where
  "round_half x = f_to_int (f_add x f_half)"

definition percent_of :: "float64 \<Rightarrow> float64 \<Rightarrow> int" where
  "percent_of used whole = round_half (f_mul (f_div used whole) (f_of_int 100))"

definition trimFloat :: "float64 \<Rightarrow> string" where
  "trimFloat f =
     (let s = format_fixed 1 f
      in if length s > 2 \<and> has_suffix s ''.0'' then take (length s - 2) s else s)"

definition formatUptime :: "int \<Rightarrow> string" where
  "formatUptime seconds =
     (let days = seconds sdiv 86400; hours = (seconds smod 86400) sdiv 3600
      in if days > 0 then fmt_int days @ ''d '' @ fmt_int hours @ ''h''
         else fmt_int hours @ ''h '' @ fmt_int ((seconds smod 3600) sdiv 60) @ ''m'')"

text \<open>
  \<^verbatim>\<open>formatBytesHumanized\<close>: \<open>None\<close> if the loop does not end, \<open>Inl\<close> for the panic of an index
  beyond \<^verbatim>\<open>"KMGT"\<close>.
\<close>

definition humanize_unit :: float64 where "humanize_unit = Finite False 1000"

partial_function (option) humanize_loop :: "float64 \<Rightarrow> float64 \<Rightarrow> nat \<Rightarrow> (float64 \<times> nat) option" where
  "humanize_loop n scale e =
     (if n = NaN \<or> f_less n humanize_unit then Some (scale, e)
      else humanize_loop (f_div n humanize_unit) (f_mul scale humanize_unit) (Suc e))"

definition formatBytesHumanized :: "float64 \<Rightarrow> (string + string) option" where
  "formatBytesHumanized b =
     (if f_less b humanize_unit then Some (Inr (format_fixed 0 b @ '' B''))
      else (case humanize_loop (f_div b humanize_unit) humanize_unit 0 of
              None \<Rightarrow> None
            | Some (scale, e) \<Rightarrow>
                Some (if e < 4 then Inr (format_fixed 1 (f_div b scale) @ '' '' @ [''KMGT'' ! e] @ ''B'')
                      else Inl ''index out of range'')))"

section \<open>Lemmas on rounding\<close>

lemma bits_bounds: "0 < n \<Longrightarrow> 2 ^ (bits n - 1) \<le> n \<and> n < 2 ^ bits n \<and> 0 < bits n"
proof (induction n rule: bits.induct)
  case (1 n)
  show ?case
  proof (cases "n div 2 = 0")
    case True
    with 1 have "n = 1" by simp
    then show ?thesis by (simp add: bits.simps)
  next
    case False
    with 1 have IH: "2 ^ (bits (n div 2) - 1) \<le> n div 2" "n div 2 < 2 ^ bits (n div 2)" "0 < bits (n div 2)"
      by auto
    have n: "bits n = Suc (bits (n div 2))" using 1(2) by (subst bits.simps) simp
    define k where "k = (2::nat) ^ (bits (n div 2) - 1)"
    have k: "2 ^ bits (n div 2) = 2 * k"
      using IH(3) unfolding k_def by (metis Suc_pred' power_Suc)
    with IH(1,2) have "2 * k \<le> n" "n < 2 * (2 * k)" unfolding k_def [symmetric] by presburger+
    then show ?thesis unfolding n by (simp add: k)
  qed
qed

lemma nat_floor_bounds:
  fixes x :: rat
  assumes "1 \<le> x"
  shows "2 ^ (bits (nat \<lfloor>x\<rfloor>) - 1) \<le> x \<and> x < 2 ^ bits (nat \<lfloor>x\<rfloor>)"
proof -
  define n where "n = nat \<lfloor>x\<rfloor>"
  have n: "of_nat n \<le> x" "x < of_nat n + 1" "0 < n"
    using assms by (auto simp: n_def) linarith+
  have "(2::rat) ^ (bits n - 1) \<le> of_nat n" "(of_nat (Suc n) :: rat) \<le> 2 ^ bits n"
    using bits_bounds [OF n(3)] Suc_leI
    by (metis of_nat_le_iff of_nat_numeral of_nat_power)+
  moreover have "(of_nat (Suc n) :: rat) = of_nat n + 1" by simp
  ultimately show ?thesis using n unfolding n_def [symmetric] by linarith
qed

lemma nat_ceil_bounds:
  fixes y :: rat
  assumes "1 < y"
  shows "y \<le> 2 ^ bits (nat \<lceil>y\<rceil> - 1) \<and> 2 ^ (bits (nat \<lceil>y\<rceil> - 1) - 1) < y \<and> 0 < bits (nat \<lceil>y\<rceil> - 1)"
proof -
  define n where "n = nat \<lceil>y\<rceil> - 1"
  have c: "2 \<le> \<lceil>y\<rceil>" using assms by (simp add: le_ceiling_iff)
  then have "int n = \<lceil>y\<rceil> - 1" unfolding n_def by linarith
  then have n1: "of_nat n = (of_int (\<lceil>y\<rceil> - 1) :: rat)" by (metis of_int_of_nat_eq)
  have n: "of_nat n < y" "y \<le> of_nat n + 1" "0 < n"
    using c ceiling_correct [of y] unfolding n1 by (simp, simp, unfold n_def, linarith)
  have "(2::rat) ^ (bits n - 1) \<le> of_nat n" "(of_nat (Suc n) :: rat) \<le> 2 ^ bits n"
    using bits_bounds [OF n(3)] Suc_leI
    by (metis of_nat_le_iff of_nat_numeral of_nat_power)+
  moreover have "(of_nat (Suc n) :: rat) = of_nat n + 1" by simp
  moreover have "0 < bits n" using bits_bounds [OF n(3)] by simp
  ultimately show ?thesis using n(1,2) unfolding n_def [symmetric] by linarith
qed

lemma ilog2_bounds:
  assumes "0 < x"
  shows "2 powi ilog2 x \<le> x \<and> x < 2 powi (ilog2 x + 1)"
proof (cases "1 \<le> x")
  case True
  then have "0 < bits (nat \<lfloor>x\<rfloor>)" using bits_bounds [of "nat \<lfloor>x\<rfloor>"] by simp
  then have "int (bits (nat \<lfloor>x\<rfloor>)) - 1 = int (bits (nat \<lfloor>x\<rfloor>) - 1)" by simp
  then have "(2::rat) powi (int (bits (nat \<lfloor>x\<rfloor>)) - 1) = 2 ^ (bits (nat \<lfloor>x\<rfloor>) - 1)"
    by (simp only: power_int_of_nat)
  with True nat_floor_bounds [OF True] show ?thesis by (simp add: ilog2_def)
next
  case False
  define k where "k = bits (nat \<lceil>1 / x\<rceil> - 1)"
  have "1 < 1 / x" using False assms by simp
  from nat_ceil_bounds [OF this] have k: "1 / x \<le> 2 ^ k" "2 ^ (k - 1) < 1 / x" "0 < k"
    by (auto simp: k_def)
  have low: "2 powi (- int k) \<le> x"
  proof -
    have "1 \<le> x * 2 ^ k" using k(1) assms by (simp add: divide_le_eq mult.commute)
    then show ?thesis by (simp add: power_int_minus inverse_eq_divide divide_le_eq)
  qed
  have e: "- int k + 1 = - int (k - 1)" using k(3) by simp
  have up: "x < 2 powi (- int (k - 1))"
  proof -
    have "x * 2 ^ (k - 1) < 1" using k(2) assms by (simp add: less_divide_eq mult.commute)
    then show ?thesis by (simp add: power_int_minus inverse_eq_divide less_divide_eq)
  qed
  have "ilog2 x = - int k" using False by (simp add: ilog2_def k_def)
  then show ?thesis using low up unfolding e [symmetric] by simp
qed

lemma rint_floor: "rint x = \<lfloor>x\<rfloor> \<or> rint x = \<lfloor>x\<rfloor> + 1"
  by (simp add: rint_def Let_def)

lemma rint_of_int [simp]: "rint (of_int k) = k"
  by (simp add: rint_def)

lemma rint_mono:
  assumes "x \<le> y"
  shows "rint x \<le> rint y"
proof (cases "\<lfloor>x\<rfloor> = \<lfloor>y\<rfloor>")
  case True
  then show ?thesis using assms by (auto simp: rint_def Let_def)
next
  case False
  with floor_mono [OF assms] have "\<lfloor>x\<rfloor> + 1 \<le> \<lfloor>y\<rfloor>" by simp
  with rint_floor [of x] rint_floor [of y] show ?thesis by auto
qed

lemma powi_pos [simp]: "(0::rat) < 2 powi k"
  by (simp add: zero_less_power_int)

lemma powi_less_imp: "(2::rat) powi i < 2 powi j \<Longrightarrow> i < j"
  by (rule ccontr) (use power_int_increasing [of j i "2::rat"] in auto)

text \<open>Rounding does not pass a multiple of the last place.\<close>

lemma rnd_le:
  assumes "x \<le> of_int k * 2 powi ulp_exp x" "0 \<le> k"
  shows "rnd x \<le> of_int k * 2 powi ulp_exp x"
proof (cases "x = 0")
  case False
  have "x / 2 powi ulp_exp x \<le> of_int k" using assms(1) by (simp add: divide_le_eq)
  from rint_mono [OF this] have "rint (x / 2 powi ulp_exp x) \<le> k" by simp
  with False show ?thesis by (simp add: rnd_def mult_right_mono)
qed (use assms in \<open>simp add: rnd_def\<close>)

lemma rnd_ge:
  assumes "of_int k * 2 powi ulp_exp x \<le> x" "x \<noteq> 0"
  shows "of_int k * 2 powi ulp_exp x \<le> rnd x"
proof -
  have "of_int k \<le> x / 2 powi ulp_exp x" using assms(1) by (simp add: le_divide_eq)
  from rint_mono [OF this] have "k \<le> rint (x / 2 powi ulp_exp x)" by simp
  with assms(2) show ?thesis by (simp add: rnd_def mult_right_mono)
qed

lemma rnd_nonneg: "0 \<le> x \<Longrightarrow> 0 \<le> rnd x"
  using rnd_ge [of 0 x] by (cases "x = 0") (auto simp: rnd_def)

lemma ilog2_le:
  assumes "0 < x" "x < 2 powi (k + 1)"
  shows "ilog2 x \<le> k"
proof -
  have "(2::rat) powi ilog2 x < 2 powi (k + 1)" using ilog2_bounds [OF assms(1)] assms(2) by linarith
  then show ?thesis using powi_less_imp by fastforce
qed

lemma ilog2_ge:
  assumes "0 < x" "2 powi k \<le> x"
  shows "k \<le> ilog2 x"
proof -
  have "(2::rat) powi k < 2 powi (ilog2 x + 1)" using ilog2_bounds [OF assms(1)] assms(2) by linarith
  then show ?thesis using powi_less_imp by fastforce
qed

lemma ilog2_mono: "0 < x \<Longrightarrow> x \<le> y \<Longrightarrow> ilog2 x \<le> ilog2 y"
  using ilog2_bounds [of x] ilog2_bounds [of y] ilog2_ge [of y "ilog2 x"] by linarith

text \<open>A number is representable with last place \<open>2 powi j\<close> when it is a multiple of it.\<close>

lemma multiple_refine:
  assumes "i \<le> j"
  shows "\<exists>k'. of_int k * (2::rat) powi j = of_int k' * 2 powi i \<and> (0 \<le> k \<longrightarrow> 0 \<le> k')"
proof -
  have "(2::rat) powi j = 2 powi (j - i) * 2 powi i" by (simp flip: power_int_add)
  also have "(2::rat) powi (j - i) = of_int (2 ^ nat (j - i))" using assms by (simp add: power_int_def)
  finally have "of_int k * (2::rat) powi j = of_int (k * 2 ^ nat (j - i)) * 2 powi i" by simp
  moreover have "0 \<le> k \<longrightarrow> 0 \<le> k * 2 ^ nat (j - i)" by simp
  ultimately show ?thesis by blast
qed

lemma rnd_le_multiple:
  assumes "x \<le> of_int k * 2 powi j" "0 \<le> k" "ulp_exp x \<le> j"
  shows "rnd x \<le> of_int k * 2 powi j"
proof -
  obtain k' where "of_int k * (2::rat) powi j = of_int k' * 2 powi ulp_exp x" "0 \<le> k'"
    using multiple_refine [OF assms(3), of k] assms(2) by blast
  with rnd_le [of x k'] assms(1) show ?thesis by simp
qed

lemma rnd_ge_multiple:
  assumes "of_int k * 2 powi j \<le> x" "0 < x" "ulp_exp x \<le> j"
  shows "of_int k * 2 powi j \<le> rnd x"
proof -
  obtain k' where "of_int k * (2::rat) powi j = of_int k' * 2 powi ulp_exp x"
    using multiple_refine [OF assms(3), of k] by blast
  with rnd_ge [of k' x] assms show ?thesis by simp
qed

lemma rnd_mono:
  assumes "0 \<le> x" "x \<le> y"
  shows "rnd x \<le> rnd y"
proof (cases "x = 0")
  case True
  with assms rnd_nonneg [of y] show ?thesis by (simp add: rnd_def)
next
  case False
  with assms have pos: "0 < x" "0 < y" by auto
  have le: "ulp_exp x \<le> ulp_exp y" using ilog2_mono [OF pos(1) assms(2)] by (simp add: ulp_exp_def)
  show ?thesis
  proof (cases "ulp_exp x = ulp_exp y")
    case True
    have "rint (x / 2 powi ulp_exp y) \<le> rint (y / 2 powi ulp_exp y)"
      using assms(2) by (intro rint_mono) (simp add: divide_right_mono)
    with True pos show ?thesis by (simp add: rnd_def mult_right_mono)
  next
    case False
    with le have less: "ulp_exp x < ulp_exp y" by simp
    then have e: "ilog2 x < ilog2 y" "ulp_exp y \<le> ilog2 y" by (auto simp: ulp_exp_def)
    have "x < 2 powi (ilog2 x + 1)" using ilog2_bounds [OF pos(1)] by simp
    also have "\<dots> \<le> 2 powi ilog2 y" using e(1) by (intro power_int_increasing) auto
    finally have "rnd x \<le> of_int 1 * 2 powi ilog2 y" using less e by (intro rnd_le_multiple) auto
    also have "\<dots> \<le> rnd y"
      using ilog2_bounds [OF pos(2)] pos e by (intro rnd_ge_multiple) auto
    finally show ?thesis .
  qed
qed

lemma rnd_multiple:
  assumes "0 < k" "- 1074 \<le> j" "k < 2 ^ 53"
  shows "rnd (of_int k * 2 powi j) = of_int k * 2 powi j"
proof -
  define x where "x = of_int k * (2::rat) powi j"
  have pos: "0 < x" using assms(1) by (simp add: x_def)
  have "(of_int k :: rat) < 2 ^ 53" using assms(3) by (metis of_int_less_iff of_int_numeral of_int_power)
  then have "x < 2 ^ 53 * 2 powi j" by (simp only: x_def mult_strict_right_mono powi_pos)
  also have "\<dots> = 2 powi (int 53 + j)" by (subst power_int_add) simp_all
  also have "int 53 + j = 52 + j + 1" by simp
  finally have "ilog2 x \<le> 52 + j" using ilog2_le [OF pos] by blast
  then have u: "ulp_exp x \<le> j" using assms(2) by (simp add: ulp_exp_def)
  have "rnd x \<le> x" "x \<le> rnd x"
    using rnd_le_multiple [of x k j] rnd_ge_multiple [of k j x] u pos assms(1) by (simp_all add: x_def)
  then show ?thesis by (simp add: x_def)
qed

lemma rnd_int: "0 \<le> k \<Longrightarrow> k < 2 ^ 53 \<Longrightarrow> rnd (of_int k) = of_int k"
  using rnd_multiple [of k 0] by (cases "k = 0") (simp_all add: rnd_def)

section \<open>Percentages\<close>

lemma fl_pos: "0 \<le> x \<Longrightarrow> rnd x < 2 ^ 1024 \<Longrightarrow> fl False x = Finite False (rnd x)"
  by (simp add: fl_def not_le)

lemma rnd_le_int: "0 \<le> x \<Longrightarrow> x \<le> of_int k \<Longrightarrow> 0 \<le> k \<Longrightarrow> k < 2 ^ 53 \<Longrightarrow> rnd x \<le> of_int k"
  using rnd_mono [of x "of_int k"] rnd_int [of k] by simp

lemma f_of_int_small: "0 \<le> k \<Longrightarrow> k < 2 ^ 53 \<Longrightarrow> f_of_int k = Finite False (of_int k)"
proof -
  assume k: "0 \<le> k" "k < 2 ^ 53"
  then have "(of_int k :: rat) < of_int (2 ^ 53)" by (simp only: of_int_less_iff)
  also have "\<dots> \<le> 2 ^ 1024" by simp
  finally show ?thesis using k rnd_int [OF k] by (simp add: f_of_int_def fl_pos)
qed

theorem percent_bounds:
  assumes "0 \<le> a" "a \<le> b" "0 < b"
  shows "0 \<le> percent_of (Finite False a) (Finite False b) \<and>
    percent_of (Finite False a) (Finite False b) \<le> 100"
proof -
  define q where "q = rnd (a / b)"
  define p where "p = rnd (q * 100)"
  define h where "h = rnd (p + 1 / 2)"
  have q: "0 \<le> q" "q \<le> 1"
    using assms rnd_nonneg [of "a / b"] rnd_le_int [of "a / b" 1] by (auto simp: q_def divide_le_eq)
  have p: "0 \<le> p" "p \<le> 100"
    using q rnd_nonneg [of "q * 100"] rnd_le_int [of "q * 100" 100] by (auto simp: p_def)
  have "h \<le> rnd (of_int 201 * 2 powi (- 1))" using p unfolding h_def by (intro rnd_mono) (auto simp: power_int_def)
  also have "\<dots> = 100 + 1 / 2" using rnd_multiple [of 201 "- 1"] by (simp add: power_int_def)
  finally have h: "0 \<le> h" "h \<le> 100 + 1 / 2"
    using p rnd_nonneg [of "p + 1 / 2"] by (auto simp: h_def)
  have big: "(101::rat) < 2 ^ 1024" by simp
  have 1: "f_div (Finite False a) (Finite False b) = Finite False q"
    using assms q big by (simp add: fval_def fl_pos q_def)
  have 2: "f_mul (Finite False q) (f_of_int 100) = Finite False p"
    using q p big by (simp add: fval_def fl_pos p_def f_of_int_small)
  have 3: "f_add (Finite False p) f_half = Finite False h"
    using p h big by (simp add: fval_def fl_pos h_def f_half_def)
  have "\<lfloor>h\<rfloor> \<le> 100" "0 \<le> \<lfloor>h\<rfloor>" using h by (auto simp: floor_le_iff)
  then show ?thesis unfolding percent_of_def round_half_def 1 2 3 by simp
qed

section \<open>The scaling loop\<close>

lemma rnd_le_double: "1 \<le> x \<Longrightarrow> rnd x \<le> 2 * x"
proof -
  assume x: "1 \<le> x"
  have "x < 2 powi (ilog2 x + 1)" "2 powi ilog2 x \<le> x" using ilog2_bounds [of x] x by auto
  moreover have "0 \<le> ilog2 x" using ilog2_ge [of x 0] x by simp
  ultimately have "rnd x \<le> of_int 1 * 2 powi (ilog2 x + 1)"
    by (intro rnd_le_multiple) (auto simp: ulp_exp_def)
  also have "\<dots> = 2 * 2 powi ilog2 x" by (simp add: power_int_add_1)
  finally show ?thesis using \<open>2 powi ilog2 x \<le> x\<close> by linarith
qed

definition thousandth :: "rat \<Rightarrow> rat" where
  "thousandth m = rnd (m / 1000)"

lemma thousandth_mono: "0 \<le> a \<Longrightarrow> a \<le> b \<Longrightarrow> thousandth a \<le> thousandth b"
  unfolding thousandth_def by (intro rnd_mono) auto

lemma thousandth_nonneg: "0 \<le> a \<Longrightarrow> 0 \<le> thousandth a"
  unfolding thousandth_def by (intro rnd_nonneg) auto

lemma thousandth_le: "1000 \<le> m \<Longrightarrow> thousandth m \<le> m / 500"
  using rnd_le_double [of "m / 1000"] by (simp add: thousandth_def)

lemma thousandth_ge: "0 \<le> k \<Longrightarrow> k < 2 ^ 53 \<Longrightarrow> 1000 * of_int k \<le> m \<Longrightarrow> of_int k \<le> thousandth m"
  using rnd_mono [of "of_int k" "m / 1000"] rnd_int [of k] by (simp add: thousandth_def)

lemma f_div_unit:
  "1000 \<le> m \<Longrightarrow> m < 2 ^ 1024 \<Longrightarrow> f_div (Finite False m) humanize_unit = Finite False (thousandth m)"
  using thousandth_le [of m] by (simp add: humanize_unit_def fval_def thousandth_def fl_pos)

lemma humanize_loop_step:
  "m < 2 ^ 1024 \<Longrightarrow> humanize_loop (Finite False m) scale e =
     (if m < 1000 then Some (scale, e)
      else humanize_loop (Finite False (thousandth m)) (f_mul scale humanize_unit) (Suc e))"
  by (subst humanize_loop.simps) (simp add: f_div_unit, simp add: humanize_unit_def fval_def)

lemma thousandth_finite: "1000 \<le> m \<Longrightarrow> m < 2 ^ 1024 \<Longrightarrow> thousandth m < 2 ^ 1024"
  using thousandth_le [of m] by simp

theorem humanize_loop_ends:
  assumes "m < 2 ^ 1024"
  shows "\<exists>r. humanize_loop (Finite False m) scale e = Some r \<and> e \<le> snd r"
  using assms
proof (induction "nat \<lfloor>m\<rfloor>" arbitrary: m scale e rule: less_induct)
  case less
  show ?case
  proof (cases "m < 1000")
    case False
    then have m: "1000 \<le> m" by simp
    have "\<lfloor>thousandth m\<rfloor> < \<lfloor>m\<rfloor>" using thousandth_le [OF m] m by linarith
    moreover have "1000 \<le> \<lfloor>m\<rfloor>" using m by (simp add: le_floor_iff)
    ultimately have "nat \<lfloor>thousandth m\<rfloor> < nat \<lfloor>m\<rfloor>" by linarith
    from less.hyps [OF this thousandth_finite [OF m less.prems], of "f_mul scale humanize_unit" "Suc e"]
    show ?thesis using False less.prems by (auto simp: humanize_loop_step [OF less.prems])
  qed (simp add: humanize_loop_step [OF less.prems])
qed

text \<open>Evaluation on concrete numbers by the simplifier.\<close>

lemma floor_rat_numerals [simp]:
  "\<lfloor>(numeral a :: rat) / numeral b\<rfloor> = numeral a div numeral b"
  "\<lfloor>1 / (numeral b :: rat)\<rfloor> = 1 div numeral b"
  "\<lceil>(numeral a :: rat) / numeral b\<rceil> = - (- numeral a div numeral b)"
  "\<lceil>1 / (numeral b :: rat)\<rceil> = - (- 1 div numeral b)"
  using floor_divide_of_int_eq [of "numeral a" "numeral b", where 'a = rat]
    floor_divide_of_int_eq [of 1 "numeral b", where 'a = rat]
    floor_divide_of_int_eq [of "- numeral a" "numeral b", where 'a = rat]
    floor_divide_of_int_eq [of "- 1" "numeral b", where 'a = rat]
  by (simp_all add: ceiling_def)

lemmas float_eval = bits.simps ilog2_def rint_def ulp_exp_def rnd_def fl_def fval_def power_int_def power_one_over Let_def

lemma digit_chars:
  "digit_char 0 = CHR ''0''" "digit_char 1 = CHR ''1''" "digit_char (Suc 0) = CHR ''1''"
  "digit_char 2 = CHR ''2''" "digit_char 3 = CHR ''3''" "digit_char 4 = CHR ''4''"
  "digit_char 5 = CHR ''5''" "digit_char 6 = CHR ''6''" "digit_char 7 = CHR ''7''"
  "digit_char 8 = CHR ''8''" "digit_char 9 = CHR ''9''"
  by code_simp+

lemmas text_eval = decimals_def pad_zeros_def with_sign_def fmt_nat.simps fmt_int_def digit_chars

lemma thousandths_below: "thousandth (thousandth (thousandth (thousandth (10 ^ 15 - 1)))) < 1000"
  by (simp add: float_eval thousandth_def)

text \<open>
  The loop makes four divisions or more exactly when there is no unit left.
\<close>

lemma humanize_loop_unit:
  assumes "1000 \<le> b" "b < 2 ^ 1024"
  shows "\<exists>scale e. humanize_loop (Finite False (thousandth b)) humanize_unit 0 = Some (scale, e) \<and>
    (b \<le> 10 ^ 15 - 1 \<longrightarrow> e < 4) \<and> (10 ^ 15 \<le> b \<longrightarrow> 4 \<le> e)"
proof -
  define t1 where "t1 = thousandth b"
  define t2 where "t2 = thousandth t1"
  define t3 where "t3 = thousandth t2"
  define t4 where "t4 = thousandth t3"
  have nonneg: "0 \<le> t1" "0 \<le> t2" "0 \<le> t3"
    using assms(1) thousandth_nonneg by (simp_all add: t1_def t2_def t3_def)
  have f1: "t1 < 2 ^ 1024" using thousandth_finite assms by (simp add: t1_def)
  have f2: "1000 \<le> t1 \<Longrightarrow> t2 < 2 ^ 1024" using thousandth_finite f1 by (simp add: t2_def)
  have f3: "1000 \<le> t1 \<Longrightarrow> 1000 \<le> t2 \<Longrightarrow> t3 < 2 ^ 1024" using thousandth_finite f2 by (simp add: t3_def)
  have f4: "1000 \<le> t1 \<Longrightarrow> 1000 \<le> t2 \<Longrightarrow> 1000 \<le> t3 \<Longrightarrow> t4 < 2 ^ 1024"
    using thousandth_finite f3 by (simp add: t4_def)
  have f5: "1000 \<le> t1 \<Longrightarrow> 1000 \<le> t2 \<Longrightarrow> 1000 \<le> t3 \<Longrightarrow> 1000 \<le> t4 \<Longrightarrow> thousandth t4 < 2 ^ 1024"
    using thousandth_finite f4 by simp
  have below: "b \<le> 10 ^ 15 - 1 \<Longrightarrow> t4 < 1000"
  proof -
    assume b: "b \<le> 10 ^ 15 - 1"
    have "t4 \<le> thousandth (thousandth (thousandth (thousandth (10 ^ 15 - 1))))"
      unfolding t4_def t3_def t2_def t1_def using b assms(1)
      by (intro thousandth_mono thousandth_nonneg) simp_all
    also note thousandths_below
    finally show ?thesis .
  qed
  have above: "10 ^ 15 \<le> b \<Longrightarrow> 1000 \<le> t1 \<and> 1000 \<le> t2 \<and> 1000 \<le> t3 \<and> 1000 \<le> t4"
  proof -
    assume b: "10 ^ 15 \<le> b"
    have "10 ^ 12 \<le> t1" using thousandth_ge [of "10 ^ 12" b] b by (simp add: t1_def)
    moreover from this have "10 ^ 9 \<le> t2" using thousandth_ge [of "10 ^ 9" t1] by (simp add: t2_def)
    moreover from this have "10 ^ 6 \<le> t3" using thousandth_ge [of "10 ^ 6" t2] by (simp add: t3_def)
    moreover from this have "1000 \<le> t4" using thousandth_ge [of 1000 t3] by (simp add: t4_def)
    ultimately show ?thesis by simp
  qed
  note step = humanize_loop_step [OF f1, folded t2_def] humanize_loop_step [OF f2, folded t3_def]
    humanize_loop_step [OF f3, folded t4_def] humanize_loop_step [OF f4]
  obtain r where r: "1000 \<le> t1 \<Longrightarrow> 1000 \<le> t2 \<Longrightarrow> 1000 \<le> t3 \<Longrightarrow> 1000 \<le> t4 \<Longrightarrow>
      humanize_loop (Finite False (thousandth t4))
        (f_mul (f_mul (f_mul (f_mul humanize_unit humanize_unit) humanize_unit) humanize_unit) humanize_unit) 4 = Some r \<and>
      4 \<le> snd r"
    using humanize_loop_ends [OF f5] by metis
  show ?thesis
    unfolding t1_def [symmetric]
    using below above r by (cases r) (auto simp: step not_less eval_nat_numeral)
qed

text \<open>
  On every finite number of bytes the function ends; below \<open>10 ^ 15\<close> it returns a text, from there
  on it panics.
\<close>

theorem formatBytesHumanized_range:
  assumes "0 \<le> b" "b < 2 ^ 1024"
  shows "\<exists>r. formatBytesHumanized (Finite False b) = Some r \<and>
    (b \<le> 10 ^ 15 - 1 \<longrightarrow> (\<exists>s. r = Inr s)) \<and>
    (10 ^ 15 \<le> b \<longrightarrow> r = Inl ''index out of range'')"
proof (cases "b < 1000")
  case True
  then show ?thesis by (simp add: formatBytesHumanized_def humanize_unit_def fval_def)
next
  case False
  then have b: "1000 \<le> b" by simp
  obtain scale e where l: "humanize_loop (Finite False (thousandth b)) humanize_unit 0 = Some (scale, e)"
    "b \<le> 10 ^ 15 - 1 \<Longrightarrow> e < 4" "10 ^ 15 \<le> b \<Longrightarrow> 4 \<le> e"
    using humanize_loop_unit [OF b assms(2)] by blast
  have "\<not> f_less (Finite False b) humanize_unit" using b by (simp add: humanize_unit_def fval_def)
  with l show ?thesis by (auto simp: formatBytesHumanized_def f_div_unit [OF b assms(2)])
qed
end
