(* ===== verification/Fetch.thy ===== *)
theory Fetch
  imports Floats Caches Poller
begin

text \<open>
  What the widgets share: requests and answers, the decoding of JSON into a widget's structs, and
  \<^verbatim>\<open>internal/dashboard/httpwidget.go\<close>.  A poll is a function of the requests already made, whose
  result is a value, fields to show instead (\<^verbatim>\<open>return fields, nil\<close>), an error, or a panic; the state
  keeps the requests made, what the failure log was told, and the two caches of clients that skip
  certificate checks (\<^verbatim>\<open>unifi.go\<close>, \<^verbatim>\<open>proxmox.go\<close>).  The locale \<open>poll_law\<close> is what a
  property of a poll's requests must satisfy to be proved widget by widget; \<open>lenient_law\<close> adds
  what polls with best-effort requests need.
\<close>

section \<open>Requests and answers\<close>

record http_request =
  hr_method :: string
  hr_url :: string
  hr_headers :: "string gomap"
  hr_basic :: "(string \<times> string) option"
  hr_body :: string

text \<open>A body is the bytes that can be read and the error that ends them, if it is not their end.\<close>

record http_response =
  hp_status :: int
  hp_headers :: "string gomap"
  hp_body :: string
  hp_read_error :: "string option"

type_synonym exchange = "http_client \<times> http_request \<times> (string + http_response)"

text \<open>
  The outside: what \<^verbatim>\<open>http.NewRequestWithContext\<close> objects to in a URL, \<^verbatim>\<open>URL.Redacted\<close>, the
  network (\<^verbatim>\<open>http.Client.Do\<close>, whose answer may depend on the requests before it and is that after any
  redirects the client follows by itself, over the same transport), the parser of JSON text (its first value
  or its error), and the text of a type error.
\<close>

record web =
  wb_request_error :: "string \<Rightarrow> string option"
  wb_redacted :: "string \<Rightarrow> string"
  wb_do :: "http_client \<Rightarrow> exchange list \<Rightarrow> http_request \<Rightarrow> string + http_response"
  wb_parse :: "string \<Rightarrow> string option \<Rightarrow> string + json"
  wb_type_error :: "json \<Rightarrow> string"
  wb_encode :: "json \<Rightarrow> string"

record fetch_state =
  fs_exchanges :: "exchange list"
  fs_outcomes :: "poll_outcome list"
  fs_unifi_clients :: "http_client gomap"
  fs_proxmox_clients :: "http_client gomap"

datatype 'a fetched = Got 'a | Shown "Field list" | Failed string | Crashed string

type_synonym 'a fetch = "fetch_state \<Rightarrow> 'a fetched \<times> fetch_state"

definition got :: "'a \<Rightarrow> 'a fetch" where "got x s = (Got x, s)"
definition shown :: "Field list \<Rightarrow> 'a fetch" where "shown flds s = (Shown flds, s)"
definition failed :: "string \<Rightarrow> 'a fetch" where "failed e s = (Failed e, s)"
definition crashed :: "string \<Rightarrow> 'a fetch" where "crashed e s = (Crashed e, s)"

definition andThen :: "'a fetch \<Rightarrow> ('a \<Rightarrow> 'b fetch) \<Rightarrow> 'b fetch" where
  "andThen m f s =
     (case m s of
        (Got x, s) \<Rightarrow> f x s
      | (Shown flds, s) \<Rightarrow> (Shown flds, s)
      | (Failed e, s) \<Rightarrow> (Failed e, s)
      | (Crashed e, s) \<Rightarrow> (Crashed e, s))"

definition do_request :: "web \<Rightarrow> http_client \<Rightarrow> http_request \<Rightarrow> (string + http_response) fetch" where
  "do_request web client r s =
     (let ans = wb_do web client (fs_exchanges s) r
      in (Got ans, s\<lparr>fs_exchanges := fs_exchanges s @ [(client, r, ans)]\<rparr>))"

definition note_outcome :: "poll_outcome \<Rightarrow> unit fetch" where
  "note_outcome x s = (Got (), s\<lparr>fs_outcomes := fs_outcomes s @ [x]\<rparr>)"

definition field :: "string \<Rightarrow> string \<Rightarrow> Field" where
  "field label text = \<lparr>f_label = label, f_value = text, f_percent = None, f_highlight = []\<rparr>"

definition int_field :: "string \<Rightarrow> int \<Rightarrow> Field" where
  "int_field label n = field label (fmt_int n)"

text \<open>A usage percentage with its bar and severity, as \<^verbatim>\<open>kubemetrics.go\<close> has them.\<close>

definition usageHighlight :: "int option \<Rightarrow> string" where
  "usageHighlight pct =
     (case pct of
        None \<Rightarrow> []
      | Some p \<Rightarrow> if 90 \<le> p then ''danger'' else if 75 \<le> p then ''warn'' else [])"

definition pct_field :: "string \<Rightarrow> string \<Rightarrow> int option \<Rightarrow> Field" where
  "pct_field label text pct =
     \<lparr>f_label = label, f_value = text, f_percent = pct, f_highlight = usageHighlight pct\<rparr>"

definition percent_field :: "string \<Rightarrow> int \<Rightarrow> Field" where
  "percent_field label pct = pct_field label (fmt_int pct @ ''%'') (Some pct)"

definition status_field :: "string \<Rightarrow> Field list" where
  "status_field text = [field labelStatus text]"

section \<open>Decoding JSON\<close>

text \<open>
  A decoder reads a JSON value into a variable and returns whether the types matched; like
  \<^verbatim>\<open>encoding/json\<close>, it goes on after a mismatch and leaves a variable alone on \<^verbatim>\<open>null\<close>.  An object
  sets the fields it names, by exact or else case-insensitive name, in the order of its members; so
  a nested anonymous struct is a list of setters of the outer record.  A repeated array replaces the
  earlier one.
\<close>

type_synonym 'a decoder = "json \<Rightarrow> 'a \<Rightarrow> bool \<times> 'a"

fun dec_int :: "int decoder" where
  "dec_int JNull old = (True, old)"
| "dec_int (JNum n) old = (case atoi n of Some i \<Rightarrow> (True, i) | None \<Rightarrow> (False, old))"
| "dec_int _ old = (False, old)"

fun dec_float :: "float64 decoder" where
  "dec_float JNull old = (True, old)"
| "dec_float (JNum n) old = (case ParseFloat n of Some f \<Rightarrow> (True, f) | None \<Rightarrow> (False, old))"
| "dec_float _ old = (False, old)"

fun dec_str :: "string decoder" where
  "dec_str JNull old = (True, old)"
| "dec_str (JStr s) old = (True, s)"
| "dec_str _ old = (False, old)"

fun dec_bool :: "bool decoder" where
  "dec_bool JNull old = (True, old)"
| "dec_bool (JBool b) old = (True, b)"
| "dec_bool _ old = (False, old)"

fun dec_arr :: "'a decoder \<Rightarrow> 'a \<Rightarrow> 'a list decoder" where
  "dec_arr d zero JNull old = (True, [])"
| "dec_arr d zero (JArr js) old =
     (let rs = map (\<lambda>j. d j zero) js in (list_all fst rs, map snd rs))"
| "dec_arr d zero _ old = (False, old)"

fun dec_map :: "'a decoder \<Rightarrow> 'a \<Rightarrow> 'a gomap decoder" where
  "dec_map d zero JNull old = (True, [])"
| "dec_map d zero (JObj kvs) old =
     (list_all (\<lambda>(_, j). fst (d j zero)) kvs, foldl (\<lambda>m (k, j). gput k (snd (d j zero)) m) old kvs)"
| "dec_map d zero _ old = (False, old)"

text \<open>\<^verbatim>\<open>struct{}\<close>, a pointer to one, and a raw message.\<close>

fun dec_empty :: "unit decoder" where
  "dec_empty JNull old = (True, ())"
| "dec_empty (JObj _) old = (True, ())"
| "dec_empty _ old = (False, ())"

fun dec_ptr :: "'a decoder \<Rightarrow> 'a \<Rightarrow> 'a option decoder" where
  "dec_ptr d zero JNull old = (True, None)"
| "dec_ptr d zero j old =
     (case d j (case old of None \<Rightarrow> zero | Some x \<Rightarrow> x) of (ok, x) \<Rightarrow> (ok, Some x))"

definition dec_raw :: "json decoder" where "dec_raw j old = (True, j)"

definition find_setter :: "(string \<times> 'a decoder) list \<Rightarrow> string \<Rightarrow> 'a decoder option" where
  "find_setter setters k =
     (case map_of setters k of
        Some d \<Rightarrow> Some d
      | None \<Rightarrow> map_option snd (find (\<lambda>(n, _). to_lower n = to_lower k) setters))"

definition set_member :: "(string \<times> 'a decoder) list \<Rightarrow> bool \<times> 'a \<Rightarrow> string \<times> json \<Rightarrow> bool \<times> 'a" where
  "set_member setters acc kv =
     (case find_setter setters (fst kv) of
        None \<Rightarrow> acc
      | Some d \<Rightarrow> (case d (snd kv) (snd acc) of (ok, x) \<Rightarrow> (fst acc \<and> ok, x)))"

fun dec_obj :: "(string \<times> 'a decoder) list \<Rightarrow> 'a decoder" where
  "dec_obj setters JNull old = (True, old)"
| "dec_obj setters (JObj kvs) old = foldl (set_member setters) (True, old) kvs"
| "dec_obj setters _ old = (False, old)"

text \<open>A setter of a record field.\<close>

definition fld :: "('a \<Rightarrow> 'b) \<Rightarrow> (('b \<Rightarrow> 'b) \<Rightarrow> 'a \<Rightarrow> 'a) \<Rightarrow> 'b decoder \<Rightarrow> 'a decoder" where
  "fld get upd d j x = (case d j (get x) of (ok, v) \<Rightarrow> (ok, upd (\<lambda>_. v) x))"

section \<open>httpwidget.go\<close>

definition maxWidgetResponseBytes :: nat where "maxWidgetResponseBytes = 2 * 2 ^ 20"

text \<open>\<^verbatim>\<open>io.LimitReader\<close>: a body that reaches the limit ends there.\<close>

definition limited_body :: "http_response \<Rightarrow> string \<times> string option" where
  "limited_body resp =
     (take maxWidgetResponseBytes (hp_body resp),
      if maxWidgetResponseBytes \<le> length (hp_body resp) then None else hp_read_error resp)"

definition doJSONRequest :: "web \<Rightarrow> http_client \<Rightarrow> http_request \<Rightarrow> 'a decoder \<Rightarrow> 'a \<Rightarrow> 'a fetch" where
  "doJSONRequest web client r dec out =
     (let target = wb_redacted web (hr_url r) in
      andThen (do_request web client r) (\<lambda>ans.
        case ans of
          Inl e \<Rightarrow> andThen (note_outcome (PollFailed target (Some e) ''widget request failed''))
                     (\<lambda>_. shown (status_field statusUnreach))
        | Inr resp \<Rightarrow>
            if hp_status resp \<noteq> 200
            then andThen (note_outcome (PollFailed target None ''widget request returned an unexpected status''))
                   (\<lambda>_. shown (status_field (''HTTP '' @ fmt_int (hp_status resp))))
            else andThen (note_outcome (PollOk target)) (\<lambda>_.
              case limited_body resp of (body, err) \<Rightarrow>
                (case wb_parse web body err of
                   Inl e \<Rightarrow> failed (''decoding response: '' @ e)
                 | Inr j \<Rightarrow> (case dec j out of
                     (True, x) \<Rightarrow> got x
                   | (False, _) \<Rightarrow> failed (''decoding response: '' @ wb_type_error web j))))))"

definition trim_slashes :: "string \<Rightarrow> string" where
  "trim_slashes s = rev (dropWhile (\<lambda>c. c = slash) (rev s))"

definition new_request :: "web \<Rightarrow> string \<Rightarrow> string \<Rightarrow> string \<Rightarrow> string \<Rightarrow> http_request fetch" where
  "new_request web what meth url body =
     (case wb_request_error web url of
        Some e \<Rightarrow> failed (what @ '': '' @ e)
      | None \<Rightarrow> got \<lparr>hr_method = meth, hr_url = url, hr_headers = [], hr_basic = None, hr_body = body\<rparr>)"

definition buildJSONRequest :: "web \<Rightarrow> WidgetConfig \<Rightarrow> string \<Rightarrow> string \<Rightarrow> http_request fetch" where
  "buildJSONRequest web cfg name path =
     (if wc_url cfg = [] then failed (name @ '' widget: url is required'')
      else new_request web ''building request'' ''GET'' (trim_slashes (wc_url cfg) @ path) [])"

text \<open>\<^verbatim>\<open>Header.Set\<close> writes the canonical name: the first letter and each one after a hyphen in upper case.\<close>

definition upper_char :: "char \<Rightarrow> char" where
  "upper_char c = (if 97 \<le> (of_char c :: nat) \<and> (of_char c :: nat) \<le> 122
                   then char_of ((of_char c :: nat) - 32) else c)"

fun canonical_header :: "bool \<Rightarrow> string \<Rightarrow> string" where
  "canonical_header _ [] = []"
| "canonical_header up (c # s) =
     (if up then upper_char c else lower_char c) # canonical_header (c = CHR ''-'') s"

definition with_header :: "string \<Rightarrow> string \<Rightarrow> http_request \<Rightarrow> http_request" where
  "with_header k v r = r\<lparr>hr_headers := gput (canonical_header True k) v (hr_headers r)\<rparr>"

definition with_basic :: "string \<Rightarrow> string \<Rightarrow> http_request \<Rightarrow> http_request" where
  "with_basic u p r = r\<lparr>hr_basic := Some (u, p)\<rparr>"

definition fetchJSON :: "web \<Rightarrow> http_client \<Rightarrow> WidgetConfig \<Rightarrow> string \<Rightarrow> string \<Rightarrow> string gomap \<Rightarrow>
    'a decoder \<Rightarrow> 'a \<Rightarrow> 'a fetch" where
  "fetchJSON web client cfg name path headers dec out =
     andThen (buildJSONRequest web cfg name path) (\<lambda>r.
       doJSONRequest web client (foldl (\<lambda>r (k, v). with_header k v r) r headers) dec out)"

definition fetchJSONBasicAuth :: "web \<Rightarrow> http_client \<Rightarrow> WidgetConfig \<Rightarrow> string \<Rightarrow> string \<Rightarrow> string \<Rightarrow>
    string \<Rightarrow> 'a decoder \<Rightarrow> 'a \<Rightarrow> 'a fetch" where
  "fetchJSONBasicAuth web client cfg name path username password dec out =
     andThen (buildJSONRequest web cfg name path) (\<lambda>r.
       doJSONRequest web client (if username \<noteq> [] then with_basic username password r else r) dec out)"

text \<open>Idioms of the widgets: the guard on the URL, the optional configuration block, a bearer token.\<close>

definition require :: "bool \<Rightarrow> string \<Rightarrow> 'a fetch \<Rightarrow> 'a fetch" where
  "require ok e m = (if ok then m else failed e)"

definition decode_config :: "web \<Rightarrow> WidgetConfig \<Rightarrow> 'a decoder \<Rightarrow> 'a \<Rightarrow> 'a fetch" where
  "decode_config web cfg dec zero =
     (case wc_config cfg of
        None \<Rightarrow> got zero
      | Some j \<Rightarrow> (case dec j zero of
          (True, x) \<Rightarrow> got x
        | (False, _) \<Rightarrow> failed (''decoding widget config: '' @ wb_type_error web j)))"

text \<open>What the settings decode to, when they decode.\<close>

definition decoded_config :: "WidgetConfig \<Rightarrow> 'a decoder \<Rightarrow> 'a \<Rightarrow> 'a" where
  "decoded_config cfg dec zero = (case wc_config cfg of None \<Rightarrow> zero | Some j \<Rightarrow> snd (dec j zero))"

definition token_header :: "string \<Rightarrow> WidgetConfig \<Rightarrow> string gomap" where
  "token_header scheme cfg =
     (let token = gstr (wc_secrets cfg) ''token''
      in if token \<noteq> [] then [(''Authorization'', scheme @ '' '' @ token)] else [])"

text \<open>A loop over a slice whose body may end the poll, and a step whose failure the poll survives.\<close>

fun forEach :: "('a \<Rightarrow> 'b \<Rightarrow> 'b fetch) \<Rightarrow> 'a list \<Rightarrow> 'b \<Rightarrow> 'b fetch" where
  "forEach f [] acc = got acc"
| "forEach f (x # xs) acc = andThen (f x acc) (forEach f xs)"

definition attempt :: "'a fetch \<Rightarrow> 'a fetched fetch" where
  "attempt m s = (case m s of (Crashed e, s) \<Rightarrow> (Crashed e, s) | (r, s) \<Rightarrow> (Got r, s))"

text \<open>\<^verbatim>\<open>url.QueryEscape\<close>.\<close>

definition hex_digit :: "nat \<Rightarrow> char" where
  "hex_digit d = (if d < 10 then digit_char d else char_of (55 + d))"

definition unreserved :: "char \<Rightarrow> bool" where
  "unreserved c \<longleftrightarrow> is_digit c \<or>
     (97 \<le> (of_char (lower_char c) :: nat) \<and> (of_char (lower_char c) :: nat) \<le> 122) \<or>
     c \<in> set ''-_.~''"

definition query_escape :: "string \<Rightarrow> string" where
  "query_escape s = concat (map (\<lambda>c.
     if unreserved c then [c] else if c = CHR '' '' then ''+''
     else [CHR ''%'', hex_digit (of_char c div 16), hex_digit (of_char c mod 16)]) s)"

text \<open>\<^verbatim>\<open>url.Values.Encode\<close> on single values, given in the order of their keys.\<close>

definition encode_query :: "(string \<times> string) list \<Rightarrow> string" where
  "encode_query kvs = join ''&'' (map (\<lambda>(k, v). query_escape k @ ''='' @ query_escape v) kvs)"

text \<open>Go's \<^verbatim>\<open>int\<close> and \<^verbatim>\<open>int64\<close> sums wrap.\<close>

definition wrap64 :: "int \<Rightarrow> int" where
  "wrap64 i = (i + 2 ^ 63) mod 2 ^ 64 - 2 ^ 63"

definition sum64 :: "int list \<Rightarrow> int" where
  "sum64 xs = foldl (\<lambda>a x. wrap64 (a + x)) 0 xs"

text \<open>
  \<^verbatim>\<open>unifiHTTPClient\<close> and \<^verbatim>\<open>proxmoxHTTPClient\<close>: a cached client without certificate checks.  \<open>victim\<close>
  is the entry the cache drops when it is full.
\<close>

definition insecure_client :: "net_lib \<Rightarrow> http_client \<Rightarrow> http_client" where
  "insecure_client net client =
     \<lparr>hc_timeout = hc_timeout client,
      hc_transport = (newGuardedTransport net None)\<lparr>tr_root_cas := None, tr_insecure := True\<rparr>\<rparr>"

definition unifiHTTPClient :: "net_lib \<Rightarrow> (http_client gomap \<Rightarrow> string) \<Rightarrow> http_client \<Rightarrow> string \<Rightarrow> bool \<Rightarrow>
    http_client fetch" where
  "unifiHTTPClient net victim client baseURL insecureTLS s =
     (if \<not> insecureTLS then (Got client, s)
      else (case getOrCreate victim baseURL (insecure_client net client) (fs_unifi_clients s) of
              (c, _, cache) \<Rightarrow> (Got c, s\<lparr>fs_unifi_clients := cache\<rparr>)))"

definition proxmoxHTTPClient :: "net_lib \<Rightarrow> (http_client gomap \<Rightarrow> string) \<Rightarrow> http_client \<Rightarrow> string \<Rightarrow> bool \<Rightarrow>
    http_client fetch" where
  "proxmoxHTTPClient net victim client baseURL insecureTLS s =
     (if \<not> insecureTLS then (Got client, s)
      else (case getOrCreate victim baseURL (insecure_client net client) (fs_proxmox_clients s) of
              (c, _, cache) \<Rightarrow> (Got c, s\<lparr>fs_proxmox_clients := cache\<rparr>)))"
end
