(* ===== verification/Poll_Laws.thy ===== *)
theory Poll_Laws
  imports Fetch
begin

text \<open>
  Properties of the requests a poll makes, proved compositionally.  The locale \<open>poll_law\<close> fixes what
  clients and URLs are admissible, an invariant of the cached clients, which lists of exchanges
  are good for a poll that went on (\<open>True\<close>) or ended early (\<open>False\<close>), and whether the widgets may ask
  for a client that skips certificate checks; its lemmas carry that through every building block of
  the widgets.  \<open>lenient_law\<close> is for properties that do not depend on how
  the poll ended, which polls with best-effort requests keep too.
\<close>

named_theorems poll_rules \<open>introduction rules of \<open>holds\<close> for the building blocks of a poll\<close>

section \<open>Answers and failures\<close>

text \<open>An exchange in which the upstream answered with status 200.\<close>

fun answered :: "exchange \<Rightarrow> bool" where
  "answered (_, _, Inl _) \<longleftrightarrow> False"
| "answered (_, _, Inr resp) \<longleftrightarrow> hp_status resp = 200"

fun goes_on :: "'a fetched \<Rightarrow> bool" where
  "goes_on (Got _) \<longleftrightarrow> True"
| "goes_on _ \<longleftrightarrow> False"

text \<open>Fields that \<^verbatim>\<open>metricErr\<close> counts as a failure.\<close>

fun shows_failure :: "'a fetched \<Rightarrow> bool" where
  "shows_failure (Shown flds) \<longleftrightarrow> metricErr (Inr flds) \<noteq> None"
| "shows_failure _ \<longleftrightarrow> True"

fun crash_in :: "(string \<Rightarrow> bool) \<Rightarrow> 'a fetched \<Rightarrow> bool" where
  "crash_in Q (Crashed e) \<longleftrightarrow> Q e"
| "crash_in _ _ \<longleftrightarrow> True"

lemma metricErr_unreach: "metricErr (Inr (status_field statusUnreach)) \<noteq> None"
  by (simp add: metricErr_def status_field_def field_def)

lemma metricErr_unauth: "metricErr (Inr (status_field statusUnauth)) \<noteq> None"
  by (simp add: metricErr_def status_field_def field_def)

lemma metricErr_http: "metricErr (Inr (status_field (''HTTP '' @ s))) \<noteq> None"
  by (simp add: metricErr_def status_field_def field_def)

section \<open>The laws\<close>

text \<open>
  \<open>inv\<close> is of the two client caches; \<open>cached\<close> says what the caches may be asked for.
\<close>

locale poll_law =
  fixes good :: "bool \<Rightarrow> exchange list \<Rightarrow> bool"
    and client_ok :: "http_client \<Rightarrow> bool"
    and url_ok :: "string \<Rightarrow> bool"
    and inv :: "http_client gomap \<times> http_client gomap \<Rightarrow> bool"
    and net :: net_lib
    and may_crash :: "string \<Rightarrow> bool"
    and lax :: bool
  assumes good_Nil: "good b []"
    and good_append: "good True xs \<Longrightarrow> good b ys \<Longrightarrow> good b (xs @ ys)"
    and good_exchange: "client_ok c \<Longrightarrow> url_ok (hr_url r) \<Longrightarrow> b \<longrightarrow> answered (c, r, ans) \<Longrightarrow>
      good b [(c, r, ans)]"
    and inv_unifi: "lax \<Longrightarrow> inv (u, p) \<Longrightarrow> client_ok c \<Longrightarrow>
      getOrCreate victim k (insecure_client net c) u = (c', dropped, u') \<Longrightarrow> client_ok c' \<and> inv (u', p)"
    and inv_proxmox: "lax \<Longrightarrow> inv (u, p) \<Longrightarrow> client_ok c \<Longrightarrow>
      getOrCreate victim k (insecure_client net c) p = (c', dropped, p') \<Longrightarrow> client_ok c' \<and> inv (u, p')"
begin

definition caches_ok :: "fetch_state \<Rightarrow> bool" where
  "caches_ok s \<longleftrightarrow> inv (fs_unifi_clients s, fs_proxmox_clients s)"

definition ran :: "bool \<Rightarrow> fetch_state \<Rightarrow> fetch_state \<Rightarrow> bool" where
  "ran b s s' \<longleftrightarrow> caches_ok s' \<and> (\<exists>xs. fs_exchanges s' = fs_exchanges s @ xs \<and> good b xs)"

definition ends_well :: "'a fetched \<Rightarrow> bool" where
  "ends_well r \<longleftrightarrow> shows_failure r \<and> crash_in may_crash r"

definition holds_for :: "('a \<Rightarrow> bool) \<Rightarrow> 'a fetch \<Rightarrow> bool" where
  "holds_for Q m \<longleftrightarrow>
     (\<forall>s. caches_ok s \<longrightarrow> ran (goes_on (fst (m s))) s (snd (m s)) \<and> ends_well (fst (m s)) \<and>
        (\<forall>x. fst (m s) = Got x \<longrightarrow> Q x))"

abbreviation holds :: "'a fetch \<Rightarrow> bool" where
  "holds \<equiv> holds_for (\<lambda>_. True)"

text \<open>\<open>cfg\<close>'s URL, without its trailing slashes, may be extended by a path.\<close>

definition serves :: "string \<Rightarrow> bool" where
  "serves base \<longleftrightarrow> (\<forall>p. url_ok (trim_slashes base @ slash # p))"

lemma servesD: "serves base \<Longrightarrow> url_ok (trim_slashes base @ slash # p)"
  by (simp add: serves_def)

lemma serves_path: "serves base \<Longrightarrow> has_prefix path [slash] \<Longrightarrow> url_ok (trim_slashes base @ path)"
  by (auto simp: serves_def has_prefix_iff)

lemma ran_refl: "caches_ok s \<Longrightarrow> ran b s s"
  by (auto simp: ran_def good_Nil)

lemma ran_trans: "ran True s t \<Longrightarrow> ran b t u \<Longrightarrow> ran b s u"
  using good_append by (fastforce simp: ran_def)

lemma ran_caches: "ran b s t \<Longrightarrow> caches_ok t"
  by (simp add: ran_def)

lemma holds_weaken: "holds_for Q m \<Longrightarrow> holds m"
  by (simp add: holds_for_def)

lemma ends_well_simps [simp]:
  "ends_well (Got x)" "ends_well (Failed e)" "ends_well (Crashed e) \<longleftrightarrow> may_crash e"
  "ends_well (Shown flds) \<longleftrightarrow> metricErr (Inr flds) \<noteq> None"
  by (simp_all add: ends_well_def)

lemma holds_got [poll_rules]: "Q x \<Longrightarrow> holds_for Q (got x)"
  by (simp add: holds_for_def got_def ran_refl)

lemma holds_failed [poll_rules]: "holds_for Q (failed e)"
  by (simp add: holds_for_def failed_def ran_refl)

lemma holds_crashed [poll_rules]: "may_crash e \<Longrightarrow> holds_for Q (crashed e)"
  by (simp add: holds_for_def crashed_def ran_refl)

lemma holds_shown [poll_rules]: "metricErr (Inr flds) \<noteq> None \<Longrightarrow> holds_for Q (shown flds)"
  by (simp add: holds_for_def shown_def ran_refl)

lemma holds_status [poll_rules]:
  "holds_for Q (shown (status_field statusUnreach))" "holds_for Q (shown (status_field statusUnauth))"
  by (rule holds_shown, rule metricErr_unreach, rule holds_shown, rule metricErr_unauth)

lemma holds_note [poll_rules]: "holds (note_outcome x)"
  by (simp add: holds_for_def note_outcome_def ran_def good_Nil caches_ok_def)

lemma holds_andThen:
  assumes "holds_for P m" and "\<And>x. P x \<Longrightarrow> holds_for Q (f x)"
  shows "holds_for Q (andThen m f)"
proof (unfold holds_for_def, intro allI impI)
  fix s assume s: "caches_ok s"
  obtain r t where m: "m s = (r, t)" by fastforce
  have 1: "ran (goes_on r) s t" "ends_well r" "\<And>x. r = Got x \<Longrightarrow> P x"
    using assms(1) s unfolding holds_for_def by (auto simp: m dest!: spec [of _ s])
  let ?r = "andThen m f s"
  show "ran (goes_on (fst ?r)) s (snd ?r) \<and> ends_well (fst ?r) \<and> (\<forall>x. fst ?r = Got x \<longrightarrow> Q x)"
  proof (cases r)
    case (Got x)
    with 1 have "ran True s t" "P x" by auto
    moreover from this ran_caches have "caches_ok t" by blast
    ultimately show ?thesis
      using assms(2) [of x] ran_trans [of s t] by (simp add: andThen_def m Got holds_for_def)
  qed (use 1 in \<open>auto simp: andThen_def m\<close>)
qed

lemmas holds_bind [poll_rules] = holds_andThen [where P = "\<lambda>_. True"]

lemma holds_require [poll_rules]: "(ok \<Longrightarrow> holds_for Q m) \<Longrightarrow> holds_for Q (require ok e m)"
  by (simp add: require_def holds_failed)

lemma holds_if [poll_rules]:
  "(b \<Longrightarrow> holds_for Q m) \<Longrightarrow> (\<not> b \<Longrightarrow> holds_for Q m') \<Longrightarrow> holds_for Q (if b then m else m')"
  by simp

lemma holds_decoded: "holds_for (\<lambda>x. x = decoded_config cfg dec zero) (decode_config web cfg dec zero)"
  by (auto simp: decode_config_def decoded_config_def split: option.split prod.split bool.split
      intro!: holds_got holds_failed)

lemma holds_decode_config [poll_rules]: "holds (decode_config web cfg dec zero)"
  by (rule holds_weaken [OF holds_decoded])

text \<open>One request.  It goes on only with an answer of status 200.\<close>

lemma holds_doJSONRequest:
  assumes "client_ok c" "url_ok (hr_url r)"
  shows "holds (doJSONRequest web c r dec out)"
proof (unfold holds_for_def, intro allI impI)
  fix s assume s: "caches_ok s"
  define ans where "ans = wb_do web c (fs_exchanges s) r"
  have ran: "ran b s (s\<lparr>fs_exchanges := fs_exchanges s @ [(c, r, ans)], fs_outcomes := os\<rparr>)"
    if "b \<longrightarrow> answered (c, r, ans)" for b os
    using good_exchange [OF assms, of b ans] that s by (auto simp: ran_def caches_ok_def)
  note defs = doJSONRequest_def Let_def andThen_def do_request_def note_outcome_def shown_def failed_def got_def
  let ?m = "doJSONRequest web c r dec out s"
  show "ran (goes_on (fst ?m)) s (snd ?m) \<and> ends_well (fst ?m) \<and> (\<forall>x. fst ?m = Got x \<longrightarrow> True)"
  proof (cases ans)
    case (Inl e)
    then show ?thesis
      using ran [of False] metricErr_unreach by (simp add: defs ans_def [symmetric])
  next
    case (Inr resp)
    show ?thesis
    proof (cases "hp_status resp = 200")
      case True
      with Inr show ?thesis using ran
        by (auto simp: defs ans_def [symmetric] split: sum.split prod.split bool.split)
    next
      case False
      with Inr show ?thesis
        using ran [of False] metricErr_http by (simp add: defs ans_def [symmetric])
    qed
  qed
qed

lemma holds_new_request:
  "holds_for (\<lambda>r. hr_url r = url) (new_request web what meth url body)"
  by (auto simp: new_request_def split: option.split intro!: poll_rules)

lemma holds_buildJSONRequest:
  "holds_for (\<lambda>r. hr_url r = trim_slashes (wc_url cfg) @ path) (buildJSONRequest web cfg name path)"
  by (auto simp: buildJSONRequest_def intro!: poll_rules holds_new_request)

lemma hr_url_headers: "hr_url (foldl (\<lambda>r (k, v). with_header k v r) r headers) = hr_url r"
  by (induction headers arbitrary: r) (auto simp: with_header_def)

lemma holds_fetchJSON [poll_rules]:
  assumes "client_ok c" "serves (wc_url cfg)" "has_prefix path [slash]"
  shows "holds (fetchJSON web c cfg name path headers dec out)"
  unfolding fetchJSON_def
  by (rule holds_andThen [OF holds_buildJSONRequest], rule holds_doJSONRequest)
    (use assms in \<open>simp_all add: hr_url_headers serves_path\<close>)

lemma holds_fetchJSONBasicAuth [poll_rules]:
  assumes "client_ok c" "serves (wc_url cfg)" "has_prefix path [slash]"
  shows "holds (fetchJSONBasicAuth web c cfg name path u pw dec out)"
  unfolding fetchJSONBasicAuth_def
  by (rule holds_andThen [OF holds_buildJSONRequest], rule holds_doJSONRequest)
    (use assms in \<open>simp_all add: with_basic_def serves_path\<close>)

lemma holds_unifiHTTPClient:
  assumes "client_ok c" "insecureTLS \<longrightarrow> lax"
  shows "holds_for client_ok (unifiHTTPClient net victim c base insecureTLS)"
proof (unfold holds_for_def, intro allI impI)
  fix s assume s: "caches_ok s"
  obtain c' dropped m where g: "getOrCreate victim base (insecure_client net c) (fs_unifi_clients s) = (c', dropped, m)"
    by (metis prod_cases3)
  have "client_ok c' \<and> inv (m, fs_proxmox_clients s)" if insecureTLS
    using inv_unifi [OF _ _ assms(1) g] assms(2) that s by (simp add: caches_ok_def)
  then show "ran (goes_on (fst (unifiHTTPClient net victim c base insecureTLS s))) s
      (snd (unifiHTTPClient net victim c base insecureTLS s)) \<and>
    ends_well (fst (unifiHTTPClient net victim c base insecureTLS s)) \<and>
    (\<forall>x. fst (unifiHTTPClient net victim c base insecureTLS s) = Got x \<longrightarrow> client_ok x)"
    using assms s by (simp add: unifiHTTPClient_def g ran_def good_Nil caches_ok_def)
qed

lemma holds_proxmoxHTTPClient:
  assumes "client_ok c" "insecureTLS \<longrightarrow> lax"
  shows "holds_for client_ok (proxmoxHTTPClient net victim c base insecureTLS)"
proof (unfold holds_for_def, intro allI impI)
  fix s assume s: "caches_ok s"
  obtain c' dropped m where g: "getOrCreate victim base (insecure_client net c) (fs_proxmox_clients s) = (c', dropped, m)"
    by (metis prod_cases3)
  have "client_ok c' \<and> inv (fs_unifi_clients s, m)" if insecureTLS
    using inv_proxmox [OF _ _ assms(1) g] assms(2) that s by (simp add: caches_ok_def)
  then show "ran (goes_on (fst (proxmoxHTTPClient net victim c base insecureTLS s))) s
      (snd (proxmoxHTTPClient net victim c base insecureTLS s)) \<and>
    ends_well (fst (proxmoxHTTPClient net victim c base insecureTLS s)) \<and>
    (\<forall>x. fst (proxmoxHTTPClient net victim c base insecureTLS s) = Got x \<longrightarrow> client_ok x)"
    using assms s by (simp add: proxmoxHTTPClient_def g ran_def good_Nil caches_ok_def)
qed

text \<open>
  A request whose answer the widget looks at itself: it must end the poll on anything but status 200.
\<close>

definition ends :: "'a fetch \<Rightarrow> bool" where
  "ends m \<longleftrightarrow> (\<forall>s. \<not> goes_on (fst (m s)) \<and> ends_well (fst (m s)) \<and> snd (m s) = s)"

lemma ends_shown: "metricErr (Inr flds) \<noteq> None \<Longrightarrow> ends (shown flds)"
  by (simp add: ends_def shown_def)

lemma holds_do_request:
  assumes "client_ok c" "url_ok (hr_url r)"
    and "\<And>resp. hp_status resp = 200 \<Longrightarrow> holds_for Q (f (Inr resp))"
    and "\<And>ans. \<not> answered (c, r, ans) \<Longrightarrow> ends (f ans)"
  shows "holds_for Q (andThen (do_request web c r) f)"
proof (unfold holds_for_def, intro allI impI)
  fix s assume s: "caches_ok s"
  define ans where "ans = wb_do web c (fs_exchanges s) r"
  define t where "t = s\<lparr>fs_exchanges := fs_exchanges s @ [(c, r, ans)]\<rparr>"
  have m: "andThen (do_request web c r) f s = f ans t"
    by (simp add: andThen_def do_request_def Let_def ans_def t_def)
  have ran: "ran b s t" if "b \<longrightarrow> answered (c, r, ans)" for b
    using good_exchange [OF assms(1,2), of b ans] that s by (auto simp: ran_def caches_ok_def t_def)
  show "ran (goes_on (fst (andThen (do_request web c r) f s))) s (snd (andThen (do_request web c r) f s)) \<and>
    ends_well (fst (andThen (do_request web c r) f s)) \<and>
    (\<forall>x. fst (andThen (do_request web c r) f s) = Got x \<longrightarrow> Q x)"
  proof (cases "answered (c, r, ans)")
    case True
    then obtain resp where resp: "ans = Inr resp" "hp_status resp = 200" by (cases ans) auto
    have "ran True s t" using ran True by blast
    moreover from this ran_caches have "caches_ok t" by blast
    ultimately show ?thesis
      using assms(3) [OF resp(2)] ran_trans [of s t] unfolding m resp(1) holds_for_def by blast
  next
    case False
    with assms(4) have e: "\<not> goes_on (fst (f ans t))" "ends_well (fst (f ans t))" "snd (f ans t) = t"
      by (auto simp: ends_def)
    then show ?thesis using ran [of False] unfolding m by (cases "fst (f ans t)") auto
  qed
qed

lemma holds_forEach [poll_rules]:
  "(\<And>x acc. x \<in> set xs \<Longrightarrow> holds (f x acc)) \<Longrightarrow> holds (forEach f xs acc)"
  by (induction xs arbitrary: acc) (auto intro!: holds_got holds_bind)

end

section \<open>Best-effort requests\<close>

locale lenient_law = poll_law +
  assumes forgive: "good b xs \<Longrightarrow> good b' xs"
begin

lemma ran_forgive: "ran b s t \<Longrightarrow> ran b' s t"
  using forgive by (auto simp: ran_def)

lemma holds_attempt [poll_rules]:
  assumes "holds m"
  shows "holds (attempt m)"
proof (unfold holds_for_def, intro allI impI)
  fix s assume s: "caches_ok s"
  obtain r t where m: "m s = (r, t)" by fastforce
  have "ran (goes_on r) s t" "ends_well r"
    using assms s by (auto simp: holds_for_def m dest!: spec [of _ s])
  then show "ran (goes_on (fst (attempt m s))) s (snd (attempt m s)) \<and> ends_well (fst (attempt m s)) \<and>
      (\<forall>x. fst (attempt m s) = Got x \<longrightarrow> True)"
    using ran_forgive by (cases r) (auto simp: attempt_def m)
qed

lemma holds_attempt_for:
  assumes "holds m"
  shows "holds_for ends_well (attempt m)"
proof (unfold holds_for_def, intro allI impI)
  fix s assume s: "caches_ok s"
  have "ran (goes_on (fst (attempt m s))) s (snd (attempt m s)) \<and> ends_well (fst (attempt m s))"
    using holds_attempt [OF assms] s by (simp add: holds_for_def)
  moreover have "ends_well x" if "fst (attempt m s) = Got x" for x
    using that assms s by (auto simp: attempt_def holds_for_def split: prod.splits fetched.splits
      dest: spec [of _ s])
  ultimately show "ran (goes_on (fst (attempt m s))) s (snd (attempt m s)) \<and>
      ends_well (fst (attempt m s)) \<and> (\<forall>x. fst (attempt m s) = Got x \<longrightarrow> ends_well x)" by blast
qed

lemma holds_any_request [poll_rules]:
  assumes "client_ok c" "url_ok (hr_url r)"
  shows "holds (do_request web c r)"
proof (unfold holds_for_def, intro allI impI)
  fix s assume s: "caches_ok s"
  define ans where "ans = wb_do web c (fs_exchanges s) r"
  have "good True [(c, r, ans)]" using forgive good_exchange [OF assms, of False] by blast
  then show "ran (goes_on (fst (do_request web c r s))) s (snd (do_request web c r s)) \<and>
      ends_well (fst (do_request web c r s)) \<and> (\<forall>x. fst (do_request web c r s) = Got x \<longrightarrow> True)"
    using s by (auto simp: do_request_def Let_def ran_def caches_ok_def ans_def)
qed

end

section \<open>Instances\<close>

text \<open>A poll that goes on to its result had every request answered with status 200.\<close>

definition all_answered :: "bool \<Rightarrow> exchange list \<Rightarrow> bool" where
  "all_answered b xs \<longleftrightarrow> (b \<longrightarrow> list_all answered xs)"

interpretation strict: poll_law all_answered "\<lambda>_. True" "\<lambda>_. True" "\<lambda>_. True" net may_crash True
  for net may_crash
  by unfold_locales (auto simp: all_answered_def)

text \<open>Requests stay on the configured URL.\<close>

definition below :: "string \<Rightarrow> string \<Rightarrow> bool" where
  "below base url \<longleftrightarrow> url = base \<or> has_prefix url (trim_slashes base @ [slash])"

definition all_below :: "string \<Rightarrow> exchange list \<Rightarrow> bool" where
  "all_below base xs \<longleftrightarrow> list_all (\<lambda>(_, r, _). below base (hr_url r)) xs"

interpretation confined: lenient_law "\<lambda>_. all_below base" "\<lambda>_. True" "below base" "\<lambda>_. True" net "\<lambda>_. True" True
  for base net
  by unfold_locales (auto simp: all_below_def)

text \<open>Every client is one whose transport has the dial guard.\<close>

definition guarded_clients :: "net_lib \<Rightarrow> http_client gomap \<Rightarrow> bool" where
  "guarded_clients net m \<longleftrightarrow> list_all (\<lambda>(_, c). guarded net (hc_transport c)) m"

definition all_guarded :: "net_lib \<Rightarrow> exchange list \<Rightarrow> bool" where
  "all_guarded net xs \<longleftrightarrow> list_all (\<lambda>(c, _, _). guarded net (hc_transport c)) xs"

lemma insecure_client_guarded: "guarded net (hc_transport (insecure_client net c))"
  by (simp add: insecure_client_def guarded_def newGuardedTransport_def Let_def)

lemma guarded_clients_gput:
  "guarded_clients net m \<Longrightarrow> guarded net (hc_transport c) \<Longrightarrow> guarded_clients net (gput k c m)"
  unfolding guarded_clients_def gput_def by (induction m) auto

lemma guarded_clients_gdel: "guarded_clients net m \<Longrightarrow> guarded_clients net (gdel k m)"
  unfolding guarded_clients_def gdel_def by (auto simp: AList.delete_eq list_all_iff)

lemma getOrCreate_guarded:
  assumes "guarded_clients net m" "getOrCreate victim k (insecure_client net c) m = (c', dropped, m')"
  shows "guarded net (hc_transport c') \<and> guarded_clients net m'"
proof (cases "gget m k")
  case None
  with assms insecure_client_guarded show ?thesis
    by (auto simp: getOrCreate_def Let_def guarded_clients_gput guarded_clients_gdel split: if_splits)
next
  case (Some x)
  then have "(k, x) \<in> set m" by (simp add: gget_def map_of_SomeD)
  with Some assms show ?thesis by (auto simp: getOrCreate_def guarded_clients_def list_all_iff)
qed

interpretation guard: lenient_law "\<lambda>_. all_guarded net" "\<lambda>c. guarded net (hc_transport c)" "\<lambda>_. True"
    "\<lambda>(u, p). guarded_clients net u \<and> guarded_clients net p" net "\<lambda>_. True" True
  for net
  by unfold_locales (use getOrCreate_guarded in \<open>auto simp: all_guarded_def\<close>)

lemma serves_any: "strict.serves base" "guard.serves base"
  by (simp_all add: strict.serves_def guard.serves_def)

lemma confined_serves: "confined.serves base base"
  by (simp add: confined.serves_def below_def has_prefix_iff)

text \<open>The law that says nothing of the exchanges: what is left is how a poll may end.\<close>

interpretation ending: lenient_law "\<lambda>_ _. True" "\<lambda>_. True" "\<lambda>_. True" "\<lambda>_. True" net may_crash True
  for net may_crash
  by unfold_locales simp_all

text \<open>Every request is sent over the transport the poll was given, as long as none may skip certificate checks.\<close>

definition all_over :: "transport \<Rightarrow> exchange list \<Rightarrow> bool" where
  "all_over t xs \<longleftrightarrow> list_all (\<lambda>(c, _, _). hc_transport c = t) xs"

interpretation trusting: lenient_law "\<lambda>_. all_over t" "\<lambda>c. hc_transport c = t" "\<lambda>_. True" "\<lambda>_. True" net "\<lambda>_. True" False
  for t net
  by unfold_locales (auto simp: all_over_def)


end
