(* ===== verification/Widgets_Media.thy ===== *)
theory Widgets_Media
  imports Poll_Laws
begin

text \<open>
  The widgets of media servers: \<^verbatim>\<open>sonarr.go\<close>, \<^verbatim>\<open>radarr.go\<close>, \<^verbatim>\<open>immich.go\<close>, \<^verbatim>\<open>jellyfin.go\<close>,
  \<^verbatim>\<open>jellyseerr.go\<close>, \<^verbatim>\<open>plex.go\<close>, \<^verbatim>\<open>tautulli.go\<close> and \<^verbatim>\<open>stash.go\<close> of \<^verbatim>\<open>internal/dashboard\<close>.  Each
  widget has its \<^verbatim>\<open>Poll\<close> and its \<^verbatim>\<open>Sample\<close>, and a lemma that its poll obeys every poll law;
  labels (\<^verbatim>\<open>labels.go\<close>) are written out.
\<close>

section \<open>sonarr, radarr, immich\<close>

definition api_key_header :: "string \<Rightarrow> WidgetConfig \<Rightarrow> string gomap" where
  "api_key_header h cfg = [(h, gstr (wc_secrets cfg) ''apiKey'')]"

definition sonarr_Poll :: "web \<Rightarrow> http_client \<Rightarrow> WidgetConfig \<Rightarrow> Field list fetch" where
  "sonarr_Poll web c cfg =
     (let headers = api_key_header ''X-Api-Key'' cfg in
      andThen (fetchJSON web c cfg ''sonarr'' ''/api/v3/series'' headers (dec_arr dec_empty ()) []) (\<lambda>items.
      andThen (fetchJSON web c cfg ''sonarr'' ''/api/v3/queue'' headers (dec_obj [(''totalRecords'', dec_int)]) 0) (\<lambda>queue.
      got [int_field ''Series'' (int (length items)), int_field ''Queue'' queue])))"

definition sonarr_Sample :: "WidgetConfig \<Rightarrow> Field list" where
  "sonarr_Sample _ = [field ''Series'' ''142'', field ''Queue'' ''2'']"

definition radarr_Poll :: "web \<Rightarrow> http_client \<Rightarrow> WidgetConfig \<Rightarrow> Field list fetch" where
  "radarr_Poll web c cfg =
     (let headers = api_key_header ''X-Api-Key'' cfg in
      andThen (fetchJSON web c cfg ''radarr'' ''/api/v3/movie'' headers (dec_arr dec_empty ()) []) (\<lambda>items.
      andThen (fetchJSON web c cfg ''radarr'' ''/api/v3/queue'' headers (dec_obj [(''totalRecords'', dec_int)]) 0) (\<lambda>queue.
      got [int_field ''Movies'' (int (length items)), int_field ''Queue'' queue])))"

definition radarr_Sample :: "WidgetConfig \<Rightarrow> Field list" where
  "radarr_Sample _ = [field ''Movies'' ''318'', field ''Queue'' ''1'']"

record immichStatisticsResponse =
  im_photos :: int
  im_videos :: int

definition immich_Poll :: "web \<Rightarrow> http_client \<Rightarrow> WidgetConfig \<Rightarrow> Field list fetch" where
  "immich_Poll web c cfg =
     andThen (fetchJSON web c cfg ''immich'' ''/api/server/statistics'' (api_key_header ''x-api-key'' cfg)
       (dec_obj [(''photos'', fld im_photos im_photos_update dec_int), (''videos'', fld im_videos im_videos_update dec_int)])
       \<lparr>im_photos = 0, im_videos = 0\<rparr>) (\<lambda>parsed.
     got [int_field ''Photos'' (im_photos parsed), int_field ''Videos'' (im_videos parsed)])"

definition immich_Sample :: "WidgetConfig \<Rightarrow> Field list" where
  "immich_Sample _ = [field ''Photos'' ''18234'', field ''Videos'' ''412'']"

section \<open>jellyfin, jellyseerr\<close>

definition jellyfin_Poll :: "web \<Rightarrow> http_client \<Rightarrow> WidgetConfig \<Rightarrow> Field list fetch" where
  "jellyfin_Poll web c cfg =
     (let headers = [(''X-Emby-Token'', gstr (wc_secrets cfg) ''token'')] in
      andThen (fetchJSON web c cfg ''jellyfin'' ''/System/Info'' headers (dec_obj [(''Version'', dec_str)]) []) (\<lambda>version.
      andThen (fetchJSON web c cfg ''jellyfin'' ''/Sessions'' headers
        (dec_arr (dec_obj [(''NowPlayingItem'', dec_ptr dec_empty ())]) None) []) (\<lambda>sessions.
      got [field ''Version'' version,
           int_field ''Streams'' (int (length (filter (\<lambda>s. s \<noteq> None) sessions)))])))"

definition jellyfin_Sample :: "WidgetConfig \<Rightarrow> Field list" where
  "jellyfin_Sample _ = [field ''Version'' ''10.9.7'', field ''Streams'' ''1'']"

definition jellyseerr_Poll :: "web \<Rightarrow> http_client \<Rightarrow> WidgetConfig \<Rightarrow> Field list fetch" where
  "jellyseerr_Poll web c cfg =
     (let headers = api_key_header ''X-Api-Key'' cfg in
      andThen (fetchJSON web c cfg ''jellyseerr'' ''/api/v1/status'' headers (dec_obj [(''version'', dec_str)]) []) (\<lambda>version.
      andThen (fetchJSON web c cfg ''jellyseerr'' ''/api/v1/request/count'' headers
        (dec_obj [(''pending'', dec_int)]) 0) (\<lambda>pending.
      got [field ''Version'' version, int_field ''Pending'' pending])))"

definition jellyseerr_Sample :: "WidgetConfig \<Rightarrow> Field list" where
  "jellyseerr_Sample _ = [field ''Version'' ''2.1.0'', field ''Pending'' ''3'']"

section \<open>plex\<close>

record plexSection =
  pls_key :: string
  pls_type :: string

record plexSectionCount =
  plc_size :: int
  plc_total_size :: int

definition plexCountHeaders :: "string gomap \<Rightarrow> string gomap" where
  "plexCountHeaders base =
     gput ''X-Plex-Container-Size'' ''0'' (gput ''X-Plex-Container-Start'' ''0'' base)"

record plex_counts =
  plex_albums :: int
  plex_movies :: int
  plex_tv :: int

definition plex_section :: "web \<Rightarrow> http_client \<Rightarrow> WidgetConfig \<Rightarrow> string gomap \<Rightarrow> plexSection \<Rightarrow>
    plex_counts \<Rightarrow> plex_counts fetch" where
  "plex_section web c cfg headers sec counts =
     (let leaf = (if pls_type sec \<in> {''movie'', ''show''} then Some ''/all''
                  else if pls_type sec = ''artist'' then Some ''/albums'' else None)
      in case leaf of
           None \<Rightarrow> got counts
         | Some leaf \<Rightarrow>
             andThen (fetchJSON web c cfg ''plex'' (''/library/sections/'' @ pls_key sec @ leaf) headers
               (dec_obj [(''MediaContainer'', dec_obj [(''size'', fld plc_size plc_size_update dec_int),
                  (''totalSize'', fld plc_total_size plc_total_size_update dec_int)])])
               \<lparr>plc_size = 0, plc_total_size = 0\<rparr>) (\<lambda>count.
             let size = (if plc_total_size count > 0 then plc_total_size count else plc_size count) in
             got (if pls_type sec = ''movie'' then counts\<lparr>plex_movies := wrap64 (plex_movies counts + size)\<rparr>
                  else if pls_type sec = ''show'' then counts\<lparr>plex_tv := wrap64 (plex_tv counts + size)\<rparr>
                  else counts\<lparr>plex_albums := wrap64 (plex_albums counts + size)\<rparr>)))"

definition plex_Poll :: "web \<Rightarrow> http_client \<Rightarrow> WidgetConfig \<Rightarrow> Field list fetch" where
  "plex_Poll web c cfg =
     (let token = gstr (wc_secrets cfg) ''token'';
          headers = (''Accept'', ''application/json'') # (if token \<noteq> [] then [(''X-Plex-Token'', token)] else [])
      in andThen (fetchJSON web c cfg ''plex'' ''/status/sessions'' headers
           (dec_obj [(''MediaContainer'', dec_obj [(''size'', dec_int)])]) 0) (\<lambda>streams.
         andThen (fetchJSON web c cfg ''plex'' ''/library/sections'' headers
           (dec_obj [(''MediaContainer'', dec_obj [(''Directory'',
              dec_arr (dec_obj [(''key'', fld pls_key pls_key_update dec_str),
                                (''type'', fld pls_type pls_type_update dec_str)])
                \<lparr>pls_key = [], pls_type = []\<rparr>)])]) []) (\<lambda>sections.
         andThen (forEach (plex_section web c cfg (plexCountHeaders headers)) sections
           \<lparr>plex_albums = 0, plex_movies = 0, plex_tv = 0\<rparr>) (\<lambda>counts.
         got [int_field ''Streams'' streams, int_field ''Albums'' (plex_albums counts),
              int_field ''Movies'' (plex_movies counts), int_field ''TV'' (plex_tv counts)]))))"

definition plex_Sample :: "WidgetConfig \<Rightarrow> Field list" where
  "plex_Sample _ = [field ''Streams'' ''3'', field ''Albums'' ''1240'', field ''Movies'' ''842'', field ''TV'' ''120'']"

section \<open>tautulli\<close>

record tautulliActivityResponse =
  ta_stream_count :: string
  ta_total_bandwidth :: int

definition tautulli_Poll :: "web \<Rightarrow> http_client \<Rightarrow> WidgetConfig \<Rightarrow> Field list fetch" where
  "tautulli_Poll web c cfg =
     (let path = ''/api/v2?'' @ encode_query [(''apikey'', gstr (wc_secrets cfg) ''apiKey''), (''cmd'', ''get_activity'')] in
      andThen (fetchJSON web c cfg ''tautulli'' path []
        (dec_obj [(''response'', dec_obj [(''data'', dec_obj
           [(''stream_count'', fld ta_stream_count ta_stream_count_update dec_str),
            (''total_bandwidth'', fld ta_total_bandwidth ta_total_bandwidth_update dec_int)])])])
        \<lparr>ta_stream_count = [], ta_total_bandwidth = 0\<rparr>) (\<lambda>parsed.
      got [field ''Streams'' (or_str (ta_stream_count parsed) ''0''),
           field ''Bandwidth'' (format_fixed 1 (f_div (f_of_int (ta_total_bandwidth parsed)) (f_of_int 1000)) @ '' Mbps'')]))"

definition tautulli_Sample :: "WidgetConfig \<Rightarrow> Field list" where
  "tautulli_Sample _ = [field ''Streams'' ''2'', field ''Bandwidth'' ''12.3 Mbps'']"

section \<open>stash\<close>

record stashStats =
  st_scene_count :: int
  st_scenes_size :: float64
  st_scenes_duration :: float64
  st_scenes_played :: int
  st_image_count :: int
  st_images_size :: float64
  st_gallery_count :: int
  st_performer_count :: int
  st_studio_count :: int
  st_movie_count :: int
  st_tag_count :: int
  st_total_o_count :: int
  st_total_play_count :: int
  st_total_play_duration :: float64

definition zero_stash :: stashStats where
  "zero_stash = \<lparr>st_scene_count = 0, st_scenes_size = f_zero, st_scenes_duration = f_zero, st_scenes_played = 0,
     st_image_count = 0, st_images_size = f_zero, st_gallery_count = 0, st_performer_count = 0,
     st_studio_count = 0, st_movie_count = 0, st_tag_count = 0, st_total_o_count = 0,
     st_total_play_count = 0, st_total_play_duration = f_zero\<rparr>"

definition dec_stash :: "stashStats decoder" where
  "dec_stash = dec_obj
     [(''scene_count'', fld st_scene_count st_scene_count_update dec_int),
      (''scenes_size'', fld st_scenes_size st_scenes_size_update dec_float),
      (''scenes_duration'', fld st_scenes_duration st_scenes_duration_update dec_float),
      (''scenes_played'', fld st_scenes_played st_scenes_played_update dec_int),
      (''image_count'', fld st_image_count st_image_count_update dec_int),
      (''images_size'', fld st_images_size st_images_size_update dec_float),
      (''gallery_count'', fld st_gallery_count st_gallery_count_update dec_int),
      (''performer_count'', fld st_performer_count st_performer_count_update dec_int),
      (''studio_count'', fld st_studio_count st_studio_count_update dec_int),
      (''movie_count'', fld st_movie_count st_movie_count_update dec_int),
      (''tag_count'', fld st_tag_count st_tag_count_update dec_int),
      (''total_o_count'', fld st_total_o_count st_total_o_count_update dec_int),
      (''total_play_count'', fld st_total_play_count st_total_play_count_update dec_int),
      (''total_play_duration'', fld st_total_play_duration st_total_play_duration_update dec_float)]"

definition stashStatsQuery :: string where
  \<open>stashStatsQuery = ''{"query":"{ stats { '' @
     ''scene_count scenes_size scenes_duration scenes_played '' @
     ''image_count images_size gallery_count '' @
     ''performer_count studio_count movie_count tag_count '' @
     ''total_o_count total_play_count total_play_duration '' @
     ''} }"}''\<close>

text \<open>\<^verbatim>\<open>formatBytesHumanized\<close> in a poll; a JSON number is finite, so its loop ends.\<close>

definition humanized :: "float64 \<Rightarrow> string + string" where
  "humanized b = (case formatBytesHumanized b of Some r \<Rightarrow> r | None \<Rightarrow> Inl ''does not return'')"

definition duration_field :: "string \<Rightarrow> float64 \<Rightarrow> Field" where
  "duration_field label seconds = field label (formatUptime (f_to_int seconds))"

definition stashFields :: "stashStats \<Rightarrow> string + Field list" where
  "stashFields s =
     (case humanized (st_scenes_size s) of
        Inl e \<Rightarrow> Inl e
      | Inr sceneSize \<Rightarrow>
          (case humanized (st_images_size s) of
             Inl e \<Rightarrow> Inl e
           | Inr imageSize \<Rightarrow> Inr
               [int_field ''Scenes'' (st_scene_count s),
                field ''Scene Size'' sceneSize,
                duration_field ''Scene Duration'' (st_scenes_duration s),
                int_field ''Scenes Played'' (st_scenes_played s),
                int_field ''Images'' (st_image_count s),
                field ''Image Size'' imageSize,
                int_field ''Galleries'' (st_gallery_count s),
                int_field ''Performers'' (st_performer_count s),
                int_field ''Studios'' (st_studio_count s),
                int_field ''Movies'' (st_movie_count s),
                int_field ''Tags'' (st_tag_count s),
                int_field ''O Count'' (st_total_o_count s),
                int_field ''Play Count'' (st_total_play_count s),
                duration_field ''Play Duration'' (st_total_play_duration s)]))"

definition or_crash :: "string + 'a \<Rightarrow> 'a fetch" where
  "or_crash r = (case r of Inl e \<Rightarrow> crashed e | Inr x \<Rightarrow> got x)"

definition stash_Poll :: "web \<Rightarrow> http_client \<Rightarrow> WidgetConfig \<Rightarrow> Field list fetch" where
  "stash_Poll web c cfg =
     require (wc_url cfg \<noteq> []) ''stash widget: url is required''
       (andThen (new_request web ''building request'' ''POST'' (trim_slashes (wc_url cfg) @ ''/graphql'') stashStatsQuery) (\<lambda>r.
          let r = with_header ''Content-Type'' ''application/json'' r;
              token = gstr (wc_secrets cfg) ''token'';
              r = (if token \<noteq> [] then with_header ''ApiKey'' token r else r)
          in andThen (doJSONRequest web c r (dec_obj [(''data'', dec_obj [(''stats'', dec_stash)])]) zero_stash) (\<lambda>stats.
             or_crash (stashFields stats))))"

definition stash_Sample :: "WidgetConfig \<Rightarrow> Field list" where
  "stash_Sample _ =
     (case stashFields (zero_stash\<lparr>st_scene_count := 512, st_scenes_size := f_of_int 128849018880,
         st_scenes_duration := f_of_int 3672000, st_scenes_played := 301, st_image_count := 10234,
         st_images_size := f_of_int 21474836480, st_gallery_count := 87, st_performer_count := 142,
         st_studio_count := 23, st_movie_count := 9, st_tag_count := 64, st_total_o_count := 58,
         st_total_play_count := 890, st_total_play_duration := f_of_int 4320000\<rparr>) of
        Inr flds \<Rightarrow> flds | Inl _ \<Rightarrow> [])"

section \<open>The laws hold\<close>

context poll_law
begin

lemma holds_sonarr: "client_ok c \<Longrightarrow> serves (wc_url cfg) \<Longrightarrow> holds (sonarr_Poll web c cfg)"
  by (auto simp: sonarr_Poll_def Let_def intro!: poll_rules)

lemma holds_radarr: "client_ok c \<Longrightarrow> serves (wc_url cfg) \<Longrightarrow> holds (radarr_Poll web c cfg)"
  by (auto simp: radarr_Poll_def Let_def intro!: poll_rules)

lemma holds_immich: "client_ok c \<Longrightarrow> serves (wc_url cfg) \<Longrightarrow> holds (immich_Poll web c cfg)"
  by (auto simp: immich_Poll_def intro!: poll_rules)

lemma holds_jellyfin: "client_ok c \<Longrightarrow> serves (wc_url cfg) \<Longrightarrow> holds (jellyfin_Poll web c cfg)"
  by (auto simp: jellyfin_Poll_def Let_def intro!: poll_rules)

lemma holds_jellyseerr: "client_ok c \<Longrightarrow> serves (wc_url cfg) \<Longrightarrow> holds (jellyseerr_Poll web c cfg)"
  by (auto simp: jellyseerr_Poll_def Let_def intro!: poll_rules)

lemma holds_plex: "client_ok c \<Longrightarrow> serves (wc_url cfg) \<Longrightarrow> holds (plex_Poll web c cfg)"
  by (auto simp: plex_Poll_def plex_section_def Let_def intro!: poll_rules)

lemma holds_tautulli: "client_ok c \<Longrightarrow> serves (wc_url cfg) \<Longrightarrow> holds (tautulli_Poll web c cfg)"
  by (auto simp: tautulli_Poll_def Let_def intro!: poll_rules)

lemma holds_or_crash [poll_rules]: "(\<And>e. r = Inl e \<Longrightarrow> may_crash e) \<Longrightarrow> holds (or_crash r)"
  by (auto simp: or_crash_def split: sum.split intro: poll_rules)

lemma holds_stash:
  assumes "client_ok c" "serves (wc_url cfg)" "\<And>e. may_crash e"
  shows "holds (stash_Poll web c cfg)"
  unfolding stash_Poll_def
  by (rule holds_require, rule holds_andThen [OF holds_new_request])
    (use assms servesD in \<open>auto simp: Let_def with_header_def intro!: poll_rules holds_doJSONRequest\<close>)

end
end
