(* ===== verification/Widgets_Services.thy ===== *)
theory Widgets_Services
  imports Poll_Laws Auth
begin

text \<open>
  The widgets of self-hosted services that are polled with one kind of credential:
  \<^verbatim>\<open>netdata.go\<close>, \<^verbatim>\<open>paperlessngx.go\<close>, \<^verbatim>\<open>portainer.go\<close>, \<^verbatim>\<open>mealie.go\<close>, \<^verbatim>\<open>gitea.go\<close>, \<^verbatim>\<open>gatus.go\<close>,
  \<^verbatim>\<open>argocd.go\<close>, \<^verbatim>\<open>linkwarden.go\<close>, \<^verbatim>\<open>cloudflared.go\<close>, \<^verbatim>\<open>prometheus.go\<close>, \<^verbatim>\<open>uptimekuma.go\<close>,
  \<^verbatim>\<open>grafana.go\<close>, \<^verbatim>\<open>homeassistant.go\<close> and \<^verbatim>\<open>speedtest.go\<close> of \<^verbatim>\<open>internal/dashboard\<close>, with the
  lemmas that their polls obey the poll laws.
\<close>

section \<open>netdata, paperlessngx\<close>

record netdataAlarms =
  nd_warning :: int
  nd_critical :: int

definition netdata_Poll :: "web \<Rightarrow> http_client \<Rightarrow> WidgetConfig \<Rightarrow> Field list fetch" where
  "netdata_Poll web c cfg =
     andThen (fetchJSON web c cfg ''netdata'' ''/api/v1/info'' []
       (dec_obj [(''alarms'', dec_obj [(''warning'', fld nd_warning nd_warning_update dec_int),
                                       (''critical'', fld nd_critical nd_critical_update dec_int)])])
       \<lparr>nd_warning = 0, nd_critical = 0\<rparr>) (\<lambda>parsed.
     got [int_field ''Warnings'' (nd_warning parsed), int_field ''Criticals'' (nd_critical parsed)])"

definition netdata_Sample :: "WidgetConfig \<Rightarrow> Field list" where
  "netdata_Sample _ = [field ''Warnings'' ''2'', field ''Criticals'' ''0'']"

record paperlessngxStatisticsResponse =
  pl_documents_total :: int
  pl_documents_inbox :: int

definition paperlessngx_Poll :: "web \<Rightarrow> http_client \<Rightarrow> WidgetConfig \<Rightarrow> Field list fetch" where
  "paperlessngx_Poll web c cfg =
     andThen (fetchJSON web c cfg ''paperlessngx'' ''/api/statistics/'' (token_header ''Token'' cfg)
       (dec_obj [(''documents_total'', fld pl_documents_total pl_documents_total_update dec_int),
                 (''documents_inbox'', fld pl_documents_inbox pl_documents_inbox_update dec_int)])
       \<lparr>pl_documents_total = 0, pl_documents_inbox = 0\<rparr>) (\<lambda>parsed.
     got [int_field ''Documents'' (pl_documents_total parsed), int_field ''Inbox'' (pl_documents_inbox parsed)])"

definition paperlessngx_Sample :: "WidgetConfig \<Rightarrow> Field list" where
  "paperlessngx_Sample _ = [field ''Documents'' ''1234'', field ''Inbox'' ''12'']"

section \<open>portainer, mealie\<close>

definition portainer_Poll :: "web \<Rightarrow> http_client \<Rightarrow> WidgetConfig \<Rightarrow> Field list fetch" where
  "portainer_Poll web c cfg =
     require (wc_url cfg \<noteq> []) ''portainer widget: url is required''
       (andThen (decode_config web cfg (dec_obj [(''endpointId'', dec_int)]) 0) (\<lambda>endpointID.
        require (0 < endpointID) ''portainer widget: config.endpointId is required''
          (let path = ''/api/endpoints/'' @ fmt_int endpointID @ ''/docker/containers/json?all=1'';
               headers = [(''X-Api-Key'', gstr (wc_secrets cfg) ''apiKey'')]
           in andThen (fetchJSON web c cfg ''portainer'' path headers
                (dec_arr (dec_obj [(''State'', dec_str)]) []) []) (\<lambda>containers.
              got [int_field ''Running'' (int (length (filter (\<lambda>s. s = ''running'') containers))),
                   int_field ''Stopped'' (int (length (filter (\<lambda>s. s \<noteq> ''running'') containers)))]))))"

definition portainer_Sample :: "WidgetConfig \<Rightarrow> Field list" where
  "portainer_Sample _ = [field ''Running'' ''14'', field ''Stopped'' ''2'']"

record mealieStatisticsResponse =
  me_recipes :: int
  me_users :: int
  me_categories :: int
  me_tags :: int

definition mealie_Poll :: "web \<Rightarrow> http_client \<Rightarrow> WidgetConfig \<Rightarrow> Field list fetch" where
  "mealie_Poll web c cfg =
     require (wc_url cfg \<noteq> []) ''mealie widget: url is required''
       (andThen (decode_config web cfg (dec_obj [(''version'', dec_int)]) 0) (\<lambda>version.
        let path = (if version = 1 then ''/api/groups/statistics'' else ''/api/households/statistics'') in
        andThen (fetchJSON web c cfg ''mealie'' path (token_header ''Bearer'' cfg)
          (dec_obj [(''totalRecipes'', fld me_recipes me_recipes_update dec_int),
                    (''totalUsers'', fld me_users me_users_update dec_int),
                    (''totalCategories'', fld me_categories me_categories_update dec_int),
                    (''totalTags'', fld me_tags me_tags_update dec_int)])
          \<lparr>me_recipes = 0, me_users = 0, me_categories = 0, me_tags = 0\<rparr>) (\<lambda>parsed.
        got [int_field ''Recipes'' (me_recipes parsed), int_field ''Users'' (me_users parsed),
             int_field ''Categories'' (me_categories parsed), int_field ''Tags'' (me_tags parsed)])))"

definition mealie_Sample :: "WidgetConfig \<Rightarrow> Field list" where
  "mealie_Sample _ = [field ''Recipes'' ''87'', field ''Users'' ''3'', field ''Categories'' ''12'', field ''Tags'' ''20'']"

section \<open>gitea\<close>

text \<open>\<open>None\<close> is \<^verbatim>\<open>ok=false\<close>.\<close>

definition giteaTotalRepos :: "web \<Rightarrow> http_client \<Rightarrow> string \<Rightarrow> string \<Rightarrow> string option fetch" where
  "giteaTotalRepos web c base token =
     (let url = base @ ''/api/v1/repos/search?limit=1'' in
      if wb_request_error web url \<noteq> None then got None
      else
        let r = \<lparr>hr_method = ''GET'', hr_url = url, hr_headers = [], hr_basic = None, hr_body = []\<rparr>;
            r = (if token \<noteq> [] then with_header ''Authorization'' (''token '' @ token) r else r)
        in andThen (do_request web c r) (\<lambda>ans.
             case ans of
               Inl e \<Rightarrow> got None
             | Inr resp \<Rightarrow>
                 if hp_status resp \<noteq> 200 then got None
                 else let n = gstr (hp_headers resp) ''X-Total-Count''
                      in got (if n = [] then None else Some n)))"

definition gitea_Poll :: "web \<Rightarrow> http_client \<Rightarrow> WidgetConfig \<Rightarrow> Field list fetch" where
  "gitea_Poll web c cfg =
     (let token = gstr (wc_secrets cfg) ''token''; base = trim_slashes (wc_url cfg) in
      andThen (fetchJSON web c cfg ''gitea'' ''/api/v1/version'' (token_header ''token'' cfg)
        (dec_obj [(''version'', dec_str)]) []) (\<lambda>version.
      andThen (giteaTotalRepos web c base token) (\<lambda>repos.
      got (field ''Version'' version # (case repos of Some r \<Rightarrow> [field ''Repos'' r] | None \<Rightarrow> [])))))"

definition gitea_Sample :: "WidgetConfig \<Rightarrow> Field list" where
  "gitea_Sample _ = [field ''Version'' ''1.22.3'', field ''Repos'' ''57'']"

section \<open>gatus, argocd, linkwarden\<close>

definition gatus_Poll :: "web \<Rightarrow> http_client \<Rightarrow> WidgetConfig \<Rightarrow> Field list fetch" where
  "gatus_Poll web c cfg =
     andThen (fetchJSON web c cfg ''gatus'' ''/api/v1/endpoints/statuses'' []
       (dec_map (dec_obj [(''results'', dec_arr (dec_obj [(''success'', dec_bool)]) False)]) []) []) (\<lambda>parsed.
     let latest = map last (filter (\<lambda>rs. rs \<noteq> []) (map snd parsed)) in
     got [int_field ''Up'' (int (length (filter (\<lambda>ok. ok) latest))),
          int_field ''Down'' (int (length (filter Not latest)))])"

definition gatus_Sample :: "WidgetConfig \<Rightarrow> Field list" where
  "gatus_Sample _ = [field ''Up'' ''11'', field ''Down'' ''1'']"

record argocd_app =
  ar_sync :: string
  ar_health :: string

definition argocd_Poll :: "web \<Rightarrow> http_client \<Rightarrow> WidgetConfig \<Rightarrow> Field list fetch" where
  "argocd_Poll web c cfg =
     andThen (fetchJSON web c cfg ''argocd'' ''/api/v1/applications'' (token_header ''Bearer'' cfg)
       (dec_obj [(''items'', dec_arr (dec_obj [(''status'', dec_obj
          [(''sync'', dec_obj [(''status'', fld ar_sync ar_sync_update dec_str)]),
           (''health'', dec_obj [(''status'', fld ar_health ar_health_update dec_str)])])])
          \<lparr>ar_sync = [], ar_health = []\<rparr>)]) []) (\<lambda>items.
     got [int_field ''Apps'' (int (length items)),
          int_field ''Synced'' (int (length (filter (\<lambda>a. ar_sync a = ''Synced'') items))),
          int_field ''Healthy'' (int (length (filter (\<lambda>a. ar_health a = ''Healthy'') items)))])"

definition argocd_Sample :: "WidgetConfig \<Rightarrow> Field list" where
  "argocd_Sample _ = [field ''Apps'' ''22'', field ''Synced'' ''21'', field ''Healthy'' ''20'']"

definition linkwarden_Poll :: "web \<Rightarrow> http_client \<Rightarrow> WidgetConfig \<Rightarrow> Field list fetch" where
  "linkwarden_Poll web c cfg =
     (let headers = token_header ''Bearer'' cfg in
      andThen (fetchJSON web c cfg ''linkwarden'' ''/api/v1/collections'' headers
        (dec_obj [(''response'', dec_arr (dec_obj [(''_count'', dec_obj [(''links'', dec_int)])]) 0)]) []) (\<lambda>collections.
      andThen (fetchJSON web c cfg ''linkwarden'' ''/api/v1/tags'' headers
        (dec_obj [(''response'', dec_arr (dec_obj [(''id'', dec_int)]) 0)]) []) (\<lambda>tags.
      got [int_field ''Links'' (sum64 collections), int_field ''Collections'' (int (length collections)),
           int_field ''Tags'' (int (length tags))])))"

definition linkwarden_Sample :: "WidgetConfig \<Rightarrow> Field list" where
  "linkwarden_Sample _ = [field ''Links'' ''128'', field ''Collections'' ''6'', field ''Tags'' ''14'']"

section \<open>cloudflared, prometheus, uptime-kuma\<close>

definition statusHealthy :: string where "statusHealthy = ''Healthy''"
definition statusDegraded :: string where "statusDegraded = ''Degraded''"
definition statusUnknown :: string where "statusUnknown = ''Unknown''"
definition statusInactive :: string where "statusInactive = ''Inactive''"

definition cloudflaredAPIBase :: string where
  "cloudflaredAPIBase = ''https://api.cloudflare.com/client/v4''"

record cloudflaredConfig =
  cf_account_id :: string
  cf_tunnel_id :: string

record cloudflaredTunnelResponse =
  ct_tunnel_name :: string
  ct_tunnel_status :: string

definition cloudflared_status :: "string \<Rightarrow> string" where
  "cloudflared_status s =
     (if s = ''healthy'' then statusHealthy else if s = ''degraded'' then statusDegraded
      else if s = ''down'' then statusDown else if s = ''inactive'' then statusInactive else statusUnknown)"

definition cloudflared_Poll :: "web \<Rightarrow> http_client \<Rightarrow> WidgetConfig \<Rightarrow> Field list fetch" where
  "cloudflared_Poll web c cfg =
     (let e = ''cloudflared widget: config.accountId and config.tunnelId are required'' in
      require (wc_config cfg \<noteq> None) e
        (andThen (decode_config web cfg (dec_obj [(''accountId'', fld cf_account_id cf_account_id_update dec_str),
             (''tunnelId'', fld cf_tunnel_id cf_tunnel_id_update dec_str)])
           \<lparr>cf_account_id = [], cf_tunnel_id = []\<rparr>) (\<lambda>tunnelCfg.
         require (cf_account_id tunnelCfg \<noteq> [] \<and> cf_tunnel_id tunnelCfg \<noteq> []) e
           (let cfg = cfg\<lparr>wc_url := or_str (wc_url cfg) cloudflaredAPIBase\<rparr>;
                path = ''/accounts/'' @ cf_account_id tunnelCfg @ ''/cfd_tunnel/'' @ cf_tunnel_id tunnelCfg
            in andThen (fetchJSON web c cfg ''cloudflared'' path (token_header ''Bearer'' cfg)
                 (dec_obj [(''result'', dec_obj
                    [(''name'', fld ct_tunnel_name ct_tunnel_name_update dec_str),
                     (''status'', fld ct_tunnel_status ct_tunnel_status_update dec_str)])])
                 \<lparr>ct_tunnel_name = [], ct_tunnel_status = []\<rparr>) (\<lambda>parsed.
               got [field labelStatus (cloudflared_status (ct_tunnel_status parsed)),
                    field ''Tunnel'' (ct_tunnel_name parsed)])))))"

definition cloudflared_Sample :: "WidgetConfig \<Rightarrow> Field list" where
  "cloudflared_Sample _ = [field labelStatus statusHealthy, field ''Tunnel'' ''sample-tunnel'']"

definition prometheus_Poll :: "web \<Rightarrow> http_client \<Rightarrow> WidgetConfig \<Rightarrow> Field list fetch" where
  "prometheus_Poll web c cfg =
     andThen (fetchJSON web c cfg ''prometheus'' ''/api/v1/targets?state=active'' []
       (dec_obj [(''status'', \<lambda>j ts. (fst (dec_str j []), ts)),
                 (''data'', dec_obj [(''activeTargets'', dec_arr (dec_obj [(''health'', dec_str)]) [])])]) []) (\<lambda>targets.
     let total = int (length targets);
         up = int (length (filter (\<lambda>h. h = ''up'') targets));
         down = int (length (filter (\<lambda>h. h = ''down'') targets));
         status = (if total = 0 then statusUnknown else if up < total then statusDegraded else statusHealthy)
     in got [field labelStatus status, int_field ''Targets Up'' up, int_field ''Targets Down'' down,
             int_field ''Targets Total'' total])"

definition prometheus_Sample :: "WidgetConfig \<Rightarrow> Field list" where
  "prometheus_Sample _ = [field labelStatus statusHealthy, field ''Targets Up'' ''8'',
     field ''Targets Down'' ''0'', field ''Targets Total'' ''8'']"

text \<open>A monitor is up when its last heartbeat has status 1.\<close>

definition monitor_up :: "int list gomap \<Rightarrow> int \<Rightarrow> bool" where
  "monitor_up heartbeats ident =
     (case gget heartbeats (fmt_int ident) of
        None \<Rightarrow> False
      | Some hs \<Rightarrow> hs \<noteq> [] \<and> last hs = 1)"

definition uptimeKuma_Poll :: "web \<Rightarrow> http_client \<Rightarrow> WidgetConfig \<Rightarrow> Field list fetch" where
  "uptimeKuma_Poll web c cfg =
     require (wc_url cfg \<noteq> []) ''uptime-kuma widget: url is required''
       (andThen (decode_config web cfg (dec_obj [(''slug'', dec_str)]) []) (\<lambda>slug.
        require (slug \<noteq> []) ''uptime-kuma widget: config.slug is required''
          (andThen (fetchJSON web c cfg ''uptime-kuma'' (''/api/status-page/'' @ slug) []
             (dec_obj [(''publicGroupList'', dec_arr (dec_obj [(''monitorList'',
                dec_arr (dec_obj [(''id'', dec_int)]) 0)]) [])]) []) (\<lambda>groups.
           andThen (fetchJSON web c cfg ''uptime-kuma'' (''/api/status-page/heartbeat/'' @ slug) []
             (dec_obj [(''heartbeatList'', dec_map (dec_arr (dec_obj [(''status'', dec_int)]) 0) [])]) []) (\<lambda>heartbeats.
           got [int_field ''Up'' (int (length (filter (monitor_up heartbeats) (concat groups)))),
                int_field ''Down'' (int (length (filter (\<lambda>i. \<not> monitor_up heartbeats i) (concat groups))))])))))"

definition uptimeKuma_Sample :: "WidgetConfig \<Rightarrow> Field list" where
  "uptimeKuma_Sample _ = [field ''Up'' ''11'', field ''Down'' ''1'']"

section \<open>grafana\<close>

definition grafanaRequest :: "web \<Rightarrow> WidgetConfig \<Rightarrow> string \<Rightarrow> http_request fetch" where
  "grafanaRequest web cfg path =
     andThen (buildJSONRequest web cfg ''grafana'' path) (\<lambda>r.
       let username = gstr (wc_secrets cfg) ''username''; token = gstr (wc_secrets cfg) ''token'' in
       got (if username \<noteq> [] then with_basic username (gstr (wc_secrets cfg) ''password'') r
            else if token \<noteq> [] then with_header ''Authorization'' (''Bearer '' @ token) r else r))"

definition resume :: "'a fetched \<Rightarrow> ('a \<Rightarrow> 'b fetch) \<Rightarrow> 'b fetch" where
  "resume r f =
     (case r of Got x \<Rightarrow> f x | Shown flds \<Rightarrow> shown flds | Failed e \<Rightarrow> failed e | Crashed e \<Rightarrow> crashed e)"

fun any_alerts :: "string list fetched \<Rightarrow> bool" where
  "any_alerts (Got alerts) \<longleftrightarrow> alerts \<noteq> []"
| "any_alerts _ \<longleftrightarrow> False"

definition triggeredAlerts :: "web \<Rightarrow> http_client \<Rightarrow> WidgetConfig \<Rightarrow> int fetch" where
  "triggeredAlerts web c cfg =
     andThen (grafanaRequest web cfg ''/api/alerts'') (\<lambda>legacyReq.
     andThen (attempt (doJSONRequest web c legacyReq (dec_arr (dec_obj [(''state'', dec_str)]) []) [])) (\<lambda>legacy.
     if any_alerts legacy
     then resume legacy (\<lambda>alerts. got (int (length (filter (\<lambda>a. a = ''alerting'') alerts))))
     else
       andThen (grafanaRequest web cfg ''/api/alertmanager/grafana/api/v2/alerts'') (\<lambda>amReq.
       andThen (attempt (doJSONRequest web c amReq (dec_arr dec_raw JNull) [])) (\<lambda>active.
       case active of
         Got alerts \<Rightarrow> got (int (length alerts))
       | _ \<Rightarrow> resume legacy (\<lambda>_. got 0)))))"

record grafanaStatsResponse =
  gr_dashboards :: int
  gr_datasources :: int
  gr_alerts :: int

definition grafana_Poll :: "web \<Rightarrow> http_client \<Rightarrow> WidgetConfig \<Rightarrow> Field list fetch" where
  "grafana_Poll web c cfg =
     require (wc_url cfg \<noteq> []) ''grafana widget: url is required''
       (andThen (grafanaRequest web cfg ''/api/admin/stats'') (\<lambda>statsReq.
        andThen (doJSONRequest web c statsReq
          (dec_obj [(''dashboards'', fld gr_dashboards gr_dashboards_update dec_int),
                    (''datasources'', fld gr_datasources gr_datasources_update dec_int),
                    (''alerts'', fld gr_alerts gr_alerts_update dec_int)])
          \<lparr>gr_dashboards = 0, gr_datasources = 0, gr_alerts = 0\<rparr>) (\<lambda>stats.
        andThen (triggeredAlerts web c cfg) (\<lambda>triggered.
        got [int_field ''Dashboards'' (gr_dashboards stats), int_field ''Data Sources'' (gr_datasources stats),
             int_field ''Total Alerts'' (gr_alerts stats), int_field ''Alerts Triggered'' triggered]))))"

definition grafana_Sample :: "WidgetConfig \<Rightarrow> Field list" where
  "grafana_Sample _ = [field ''Dashboards'' ''24'', field ''Data Sources'' ''6'',
     field ''Total Alerts'' ''18'', field ''Alerts Triggered'' ''2'']"

section \<open>homeassistant, speedtest\<close>

text \<open>The counts of the entities of a domain that are in a state, and of all of them.\<close>

definition count_template :: "string \<Rightarrow> string \<Rightarrow> string" where
  "count_template kind st =
     (let q = (\<lambda>s. [CHR 0x27] @ s @ [CHR 0x27])
      in ''{{ states.'' @ kind @ ''|selectattr('' @ q ''state'' @ '','' @ q ''equalto'' @ '','' @ q st @
         '')|list|length }} / {{ states.'' @ kind @ ''|list|length }}'')"

definition homeassistantTemplates :: "(string \<times> string) list" where
  "homeassistantTemplates =
     [(''People Home'', count_template ''person'' ''home''),
      (''Lights On'', count_template ''light'' ''on''),
      (''Switches On'', count_template ''switch'' ''on'')]"

definition homeassistantRenderTemplate :: "web \<Rightarrow> http_client \<Rightarrow> string \<Rightarrow> string \<Rightarrow> string \<Rightarrow> string fetch" where
  "homeassistantRenderTemplate web c baseURL token template =
     andThen (new_request web ''building request'' ''POST'' (trim_slashes baseURL @ ''/api/template'')
       (wb_encode web (JObj [(''template'', JStr template)]))) (\<lambda>r.
     let r = with_header ''Content-Type'' ''application/json'' r;
         r = (if token \<noteq> [] then with_header ''Authorization'' (''Bearer '' @ token) r else r)
     in andThen (do_request web c r) (\<lambda>ans.
          case ans of
            Inl e \<Rightarrow> shown (status_field statusUnreach)
          | Inr resp \<Rightarrow>
              if hp_status resp \<noteq> 200 then shown (status_field (''HTTP '' @ fmt_int (hp_status resp)))
              else (case limited_body resp of
                      (_, Some e) \<Rightarrow> failed (''reading response: '' @ e)
                    | (body, None) \<Rightarrow> got (trim_space body))))"

definition homeassistant_Poll :: "web \<Rightarrow> http_client \<Rightarrow> WidgetConfig \<Rightarrow> Field list fetch" where
  "homeassistant_Poll web c cfg =
     require (wc_url cfg \<noteq> []) ''homeassistant widget: url is required''
       (forEach (\<lambda>(label, template) flds.
          andThen (homeassistantRenderTemplate web c (wc_url cfg) (gstr (wc_secrets cfg) ''token'') template) (\<lambda>text.
          got (flds @ [field label text]))) homeassistantTemplates [])"

definition homeassistant_Sample :: "WidgetConfig \<Rightarrow> Field list" where
  "homeassistant_Sample _ = [field ''People Home'' ''2 / 4'', field ''Lights On'' ''5 / 12'', field ''Switches On'' ''1 / 3'']"

record speedtestData =
  sp_download :: float64
  sp_upload :: float64
  sp_ping :: float64

definition speedtest_Poll :: "web \<Rightarrow> http_client \<Rightarrow> WidgetConfig \<Rightarrow> Field list fetch" where
  "speedtest_Poll web c cfg =
     require (wc_url cfg \<noteq> []) ''speedtest widget: url is required''
       (andThen (decode_config web cfg (dec_obj [(''version'', dec_int)]) 0) (\<lambda>version.
        let path = (if version = 2 then ''/api/v1/results/latest'' else ''/api/speedtest/latest'');
            key = gstr (wc_secrets cfg) ''apiKey'';
            headers = (if key \<noteq> [] then [(''Authorization'', ''Bearer '' @ key)] else []);
            mbps = (\<lambda>x. if version = 2 then f_div (f_mul x (f_of_int 8)) (f_of_int 1000000) else x)
        in andThen (fetchJSON web c cfg ''speedtest'' path headers
             (dec_obj [(''data'', dec_obj
                [(''download'', fld sp_download sp_download_update dec_float),
                 (''upload'', fld sp_upload sp_upload_update dec_float),
                 (''ping'', fld sp_ping sp_ping_update dec_float)])])
             \<lparr>sp_download = f_zero, sp_upload = f_zero, sp_ping = f_zero\<rparr>) (\<lambda>parsed.
           got [field ''Download'' (format_fixed 1 (mbps (sp_download parsed)) @ '' Mbps''),
                field ''Upload'' (format_fixed 1 (mbps (sp_upload parsed)) @ '' Mbps''),
                field ''Ping'' (format_fixed 0 (sp_ping parsed) @ '' ms'')])))"

definition speedtest_Sample :: "WidgetConfig \<Rightarrow> Field list" where
  "speedtest_Sample _ = [field ''Download'' ''94.3 Mbps'', field ''Upload'' ''11.2 Mbps'', field ''Ping'' ''8 ms'']"

section \<open>The laws hold\<close>

context poll_law
begin

lemma holds_netdata: "client_ok c \<Longrightarrow> serves (wc_url cfg) \<Longrightarrow> holds (netdata_Poll web c cfg)"
  by (auto simp: netdata_Poll_def intro!: poll_rules)

lemma holds_paperlessngx: "client_ok c \<Longrightarrow> serves (wc_url cfg) \<Longrightarrow> holds (paperlessngx_Poll web c cfg)"
  by (auto simp: paperlessngx_Poll_def intro!: poll_rules)

lemma holds_portainer: "client_ok c \<Longrightarrow> serves (wc_url cfg) \<Longrightarrow> holds (portainer_Poll web c cfg)"
  by (auto simp: portainer_Poll_def Let_def intro!: poll_rules)

lemma holds_mealie: "client_ok c \<Longrightarrow> serves (wc_url cfg) \<Longrightarrow> holds (mealie_Poll web c cfg)"
  by (auto simp: mealie_Poll_def Let_def intro!: poll_rules)

lemma holds_gatus: "client_ok c \<Longrightarrow> serves (wc_url cfg) \<Longrightarrow> holds (gatus_Poll web c cfg)"
  by (auto simp: gatus_Poll_def Let_def intro!: poll_rules)

lemma holds_argocd: "client_ok c \<Longrightarrow> serves (wc_url cfg) \<Longrightarrow> holds (argocd_Poll web c cfg)"
  by (auto simp: argocd_Poll_def intro!: poll_rules)

lemma holds_linkwarden: "client_ok c \<Longrightarrow> serves (wc_url cfg) \<Longrightarrow> holds (linkwarden_Poll web c cfg)"
  by (auto simp: linkwarden_Poll_def Let_def intro!: poll_rules)

lemma holds_cloudflared:
  "client_ok c \<Longrightarrow> serves (or_str (wc_url cfg) cloudflaredAPIBase) \<Longrightarrow> holds (cloudflared_Poll web c cfg)"
  by (auto simp: cloudflared_Poll_def Let_def intro!: poll_rules)

lemma holds_prometheus: "client_ok c \<Longrightarrow> serves (wc_url cfg) \<Longrightarrow> holds (prometheus_Poll web c cfg)"
  by (auto simp: prometheus_Poll_def Let_def intro!: poll_rules)

lemma holds_uptimeKuma: "client_ok c \<Longrightarrow> serves (wc_url cfg) \<Longrightarrow> holds (uptimeKuma_Poll web c cfg)"
  by (auto simp: uptimeKuma_Poll_def intro!: poll_rules)

lemma holds_homeassistant_template:
  assumes "client_ok c" "serves base"
  shows "holds (homeassistantRenderTemplate web c base token template)"
  unfolding homeassistantRenderTemplate_def Let_def
proof (rule holds_andThen [OF holds_new_request], rule holds_do_request)
  fix r :: http_request and ans
  show "ends (case ans of Inl e \<Rightarrow> shown (status_field statusUnreach)
      | Inr resp \<Rightarrow> if hp_status resp \<noteq> 200 then shown (status_field (''HTTP '' @ fmt_int (hp_status resp)))
          else (case limited_body resp of (_, Some e) \<Rightarrow> failed (''reading response: '' @ e)
                | (body, None) \<Rightarrow> got (trim_space body)))"
    if "\<not> answered (c, r', ans)" for r'
    using that metricErr_unreach metricErr_http by (cases ans) (auto intro!: ends_shown)
qed (use assms servesD in \<open>auto simp: with_header_def split: prod.split option.split intro!: poll_rules\<close>)

lemma holds_homeassistant: "client_ok c \<Longrightarrow> serves (wc_url cfg) \<Longrightarrow> holds (homeassistant_Poll web c cfg)"
  by (auto simp: homeassistant_Poll_def intro!: poll_rules holds_homeassistant_template split: prod.split)

lemma holds_speedtest: "client_ok c \<Longrightarrow> serves (wc_url cfg) \<Longrightarrow> holds (speedtest_Poll web c cfg)"
  by (auto simp: speedtest_Poll_def Let_def intro!: poll_rules)

end

text \<open>gitea and grafana survive the failure of a request.\<close>

context lenient_law
begin

lemma holds_giteaTotalRepos:
  assumes "client_ok c" "serves url"
  shows "holds (giteaTotalRepos web c (trim_slashes url) token)"
  using assms servesD [of url "''api/v1/repos/search?limit=1''"]
  by (auto simp: giteaTotalRepos_def Let_def with_header_def intro!: poll_rules split: sum.split)

lemma holds_gitea: "client_ok c \<Longrightarrow> serves (wc_url cfg) \<Longrightarrow> holds (gitea_Poll web c cfg)"
  by (auto simp: gitea_Poll_def Let_def intro!: poll_rules holds_giteaTotalRepos)

lemma holds_grafanaRequest:
  "holds_for (\<lambda>r. hr_url r = trim_slashes (wc_url cfg) @ path) (grafanaRequest web cfg path)"
  unfolding grafanaRequest_def Let_def
  by (rule holds_andThen [OF holds_buildJSONRequest])
    (auto simp: with_basic_def with_header_def intro!: poll_rules)

lemma holds_resume [poll_rules]:
  "ends_well r \<Longrightarrow> (\<And>x. holds (f x)) \<Longrightarrow> holds (resume r f)"
  by (cases r) (auto simp: resume_def intro!: poll_rules)

lemma holds_grafana_step:
  assumes "client_ok c" "serves (wc_url cfg)" "has_prefix path [slash]" "\<And>x. holds (f x)"
  shows "holds (andThen (grafanaRequest web cfg path) (\<lambda>r. andThen (doJSONRequest web c r dec out) f))"
  by (rule holds_andThen [OF holds_grafanaRequest], rule holds_bind, rule holds_doJSONRequest)
    (use assms serves_path in auto)

lemma holds_triggeredAlerts:
  assumes "client_ok c" "serves (wc_url cfg)"
  shows "holds (triggeredAlerts web c cfg)"
  unfolding triggeredAlerts_def
proof (rule holds_andThen [OF holds_grafanaRequest],
    rule holds_andThen [OF holds_attempt_for], rule holds_doJSONRequest)
  fix legacy :: "string list fetched"
  assume legacy: "ends_well legacy"
  have am: "holds (andThen (grafanaRequest web cfg ''/api/alertmanager/grafana/api/v2/alerts'') (\<lambda>amReq.
      andThen (attempt (doJSONRequest web c amReq (dec_arr dec_raw JNull) [])) (\<lambda>active.
      case active of Got alerts \<Rightarrow> got (int (length alerts)) | _ \<Rightarrow> resume legacy (\<lambda>_. got 0))))"
    by (rule holds_andThen [OF holds_grafanaRequest], rule holds_bind, rule holds_attempt, rule holds_doJSONRequest)
      (use assms servesD legacy in \<open>auto intro!: poll_rules split: fetched.split\<close>)
  show "holds (if any_alerts legacy
     then resume legacy (\<lambda>alerts. got (int (length (filter (\<lambda>a. a = ''alerting'') alerts))))
     else andThen (grafanaRequest web cfg ''/api/alertmanager/grafana/api/v2/alerts'') (\<lambda>amReq.
      andThen (attempt (doJSONRequest web c amReq (dec_arr dec_raw JNull) [])) (\<lambda>active.
      case active of Got alerts \<Rightarrow> got (int (length alerts)) | _ \<Rightarrow> resume legacy (\<lambda>_. got 0))))"
    using am legacy by (auto intro!: poll_rules)
qed (use assms servesD in auto)

lemma holds_grafana: "client_ok c \<Longrightarrow> serves (wc_url cfg) \<Longrightarrow> holds (grafana_Poll web c cfg)"
  unfolding grafana_Poll_def
  by (intro holds_require holds_grafana_step) (auto intro!: poll_rules holds_triggeredAlerts)

end
end
