(* ===== verification/Widgets_Network.thy ===== *)
theory Widgets_Network
  imports Widgets_Media Widgets_Services
begin

text \<open>
  The widgets of network and infrastructure hosts: \<^verbatim>\<open>adguard.go\<close>, \<^verbatim>\<open>pihole.go\<close>,
  \<^verbatim>\<open>opnsense.go\<close>, \<^verbatim>\<open>nextcloud.go\<close>, \<^verbatim>\<open>unifi.go\<close> and \<^verbatim>\<open>proxmox.go\<close> of
  \<^verbatim>\<open>internal/dashboard\<close>: basic authentication, a login before the request proper, text scraped
  from answers, and clients without certificate checks.
\<close>

section \<open>adguard\<close>

record adguardStatsResponse =
  ad_num_dns_queries :: int
  ad_num_blocked_filtering :: int

definition adguard_Poll :: "web \<Rightarrow> http_client \<Rightarrow> WidgetConfig \<Rightarrow> Field list fetch" where
  "adguard_Poll web c cfg =
     andThen (fetchJSONBasicAuth web c cfg ''adguard'' ''/control/stats''
       (gstr (wc_secrets cfg) ''username'') (gstr (wc_secrets cfg) ''password'')
       (dec_obj [(''num_dns_queries'', fld ad_num_dns_queries ad_num_dns_queries_update dec_int),
                 (''num_blocked_filtering'', fld ad_num_blocked_filtering ad_num_blocked_filtering_update dec_int)])
       \<lparr>ad_num_dns_queries = 0, ad_num_blocked_filtering = 0\<rparr>) (\<lambda>parsed.
     let queries = ad_num_dns_queries parsed;
         blocked = ad_num_blocked_filtering parsed;
         pct = (if queries > 0 then f_mul (f_div (f_of_int blocked) (f_of_int queries)) (f_of_int 100) else f_zero)
     in got [int_field ''Queries'' queries,
             field ''Blocked'' (fmt_int blocked @ '' ('' @ format_fixed 1 pct @ ''%)'')])"

definition adguard_Sample :: "WidgetConfig \<Rightarrow> Field list" where
  "adguard_Sample _ = [field ''Queries'' ''48213'', field ''Blocked'' ''9127 (18.9%)'']"

section \<open>pihole\<close>

record piholeAuthResponse =
  pa_valid :: bool
  pa_sid :: string

record piholeStatsSummaryResponse =
  pq_total :: int
  pq_blocked :: int
  pq_percent_blocked :: float64

definition pihole_Poll :: "web \<Rightarrow> http_client \<Rightarrow> WidgetConfig \<Rightarrow> Field list fetch" where
  "pihole_Poll web c cfg =
     require (wc_url cfg \<noteq> []) ''pihole widget: url is required''
       (let password = gstr (wc_secrets cfg) ''password'' in
        require (password \<noteq> []) ''pihole widget: secrets.password is required''
          (let base = trim_slashes (wc_url cfg) in
           andThen (new_request web ''building auth request'' ''POST'' (base @ ''/api/auth'')
             (wb_encode web (JObj [(''password'', JStr password)]))) (\<lambda>authReq.
           andThen (doJSONRequest web c (with_header ''Content-Type'' ''application/json'' authReq)
             (dec_obj [(''session'', dec_obj [(''valid'', fld pa_valid pa_valid_update dec_bool),
                                              (''sid'', fld pa_sid pa_sid_update dec_str)])])
             \<lparr>pa_valid = False, pa_sid = []\<rparr>) (\<lambda>auth.
           if \<not> pa_valid auth \<or> pa_sid auth = [] then shown (status_field statusUnreach)
           else
             andThen (new_request web ''building stats request'' ''GET'' (base @ ''/api/stats/summary'') []) (\<lambda>statsReq.
             andThen (doJSONRequest web c (with_header ''X-FTL-SID'' (pa_sid auth) statsReq)
               (dec_obj [(''queries'', dec_obj
                  [(''total'', fld pq_total pq_total_update dec_int),
                   (''blocked'', fld pq_blocked pq_blocked_update dec_int),
                   (''percent_blocked'', fld pq_percent_blocked pq_percent_blocked_update dec_float)])])
               \<lparr>pq_total = 0, pq_blocked = 0, pq_percent_blocked = f_zero\<rparr>) (\<lambda>stats.
             got [int_field ''Queries'' (pq_total stats), int_field ''Blocked'' (pq_blocked stats),
                  field ''Block %'' (format_fixed 1 (pq_percent_blocked stats) @ ''%'')]))))))"

definition pihole_Sample :: "WidgetConfig \<Rightarrow> Field list" where
  "pihole_Sample _ = [field ''Queries'' ''63482'', field ''Blocked'' ''12904'', field ''Block %'' ''20.3%'']"

section \<open>opnsense\<close>

text \<open>
  \<^verbatim>\<open>json.Number\<close>: a number's text, or a string that is a valid JSON number.
\<close>

definition valid_number :: "string \<Rightarrow> bool" where
  "valid_number s =
     (let r = (case s of c # r \<Rightarrow> if c = CHR ''-'' then r else s | [] \<Rightarrow> s);
          whole = takeWhile is_digit r; r = dropWhile is_digit r;
          whole_ok = (whole = ''0'' \<or> (whole \<noteq> [] \<and> hd whole \<noteq> CHR ''0''));
          (frac_ok, r) = (case r of c # r' \<Rightarrow> if c = CHR ''.''
                            then (takeWhile is_digit r' \<noteq> [], dropWhile is_digit r') else (True, r)
                          | [] \<Rightarrow> (True, r))
      in whole_ok \<and> frac_ok \<and> parse_exponent r \<noteq> None)"

fun dec_number :: "string decoder" where
  "dec_number JNull old = (True, old)"
| "dec_number (JNum n) old = (True, n)"
| "dec_number (JStr s) old = (if valid_number s then (True, s) else (False, old))"
| "dec_number _ old = (False, old)"

record opnsenseInterfaceStats =
  op_transmitted :: string
  op_received :: string

text \<open>
  The two expressions: \<^verbatim>\<open>([0-9.]+)% idle\<close> matches at the first run of digits and points that
  \<^verbatim>\<open>% idle\<close> follows; \<^verbatim>\<open>Mem: (.+) Active,\<close> takes as much of the line as it can.
\<close>

definition digit_or_point :: "char \<Rightarrow> bool" where
  "digit_or_point c \<longleftrightarrow> is_digit c \<or> c = CHR ''.''"

fun cpu_idle :: "string \<Rightarrow> string option" where
  "cpu_idle [] = None"
| "cpu_idle (c # s) =
     (if digit_or_point c \<and> has_prefix (dropWhile digit_or_point (c # s)) ''% idle''
      then Some (takeWhile digit_or_point (c # s)) else cpu_idle s)"

text \<open>The longest non-empty prefix of a line that \<open>sub\<close> follows.\<close>

fun greedy_before :: "string \<Rightarrow> string \<Rightarrow> string option" where
  "greedy_before sub [] = None"
| "greedy_before sub (c # s) =
     (case greedy_before sub s of
        Some t \<Rightarrow> Some (c # t)
      | None \<Rightarrow> if has_prefix s sub then Some [c] else None)"

fun mem_active :: "string \<Rightarrow> string option" where
  "mem_active [] = None"
| "mem_active (c # s) =
     (case (case cut_prefix (c # s) ''Mem: '' of
              None \<Rightarrow> None
            | Some r \<Rightarrow> greedy_before '' Active,'' (takeWhile (\<lambda>x. x \<noteq> CHR 0x0A) r)) of
        Some t \<Rightarrow> Some t
      | None \<Rightarrow> mem_active s)"

definition opnsense_activity :: "string list \<Rightarrow> Field list" where
  "opnsense_activity headers =
     (if length headers > 3
      then (case Option.bind (cpu_idle (headers ! 2)) ParseFloat of
              Some idle \<Rightarrow> [percent_field ''CPU'' (round_half (f_sub (f_of_int 100) idle))]
            | None \<Rightarrow> []) @
           (case mem_active (headers ! 3) of
              Some m \<Rightarrow> [field ''Memory'' (trim_space m)]
            | None \<Rightarrow> [])
      else [])"

definition traffic_field :: "string \<Rightarrow> string \<Rightarrow> string + Field list" where
  "traffic_field label n =
     (case ParseFloat n of
        None \<Rightarrow> Inr []
      | Some b \<Rightarrow> (case humanized b of Inl e \<Rightarrow> Inl e | Inr s \<Rightarrow> Inr [field label s]))"

definition opnsense_traffic :: "opnsenseInterfaceStats gomap \<Rightarrow> string \<Rightarrow> string + Field list" where
  "opnsense_traffic ifaces wan =
     (case gget ifaces wan of
        None \<Rightarrow> Inr []
      | Some stats \<Rightarrow>
          (case traffic_field ''WAN Upload'' (op_transmitted stats) of
             Inl e \<Rightarrow> Inl e
           | Inr up \<Rightarrow> (case traffic_field ''WAN Download'' (op_received stats) of
               Inl e \<Rightarrow> Inl e
             | Inr down \<Rightarrow> Inr (up @ down))))"

definition opnsense_Poll :: "web \<Rightarrow> http_client \<Rightarrow> WidgetConfig \<Rightarrow> Field list fetch" where
  "opnsense_Poll web c cfg =
     require (wc_url cfg \<noteq> []) ''opnsense widget: url is required''
       (let username = gstr (wc_secrets cfg) ''username''; password = gstr (wc_secrets cfg) ''password'' in
        andThen (decode_config web cfg (dec_obj [(''wan'', dec_str)]) []) (\<lambda>wan.
        andThen (fetchJSONBasicAuth web c cfg ''opnsense'' ''/api/diagnostics/activity/getActivity'' username password
          (dec_obj [(''headers'', dec_arr dec_str [])]) []) (\<lambda>headers.
        andThen (fetchJSONBasicAuth web c cfg ''opnsense'' ''/api/diagnostics/traffic/interface'' username password
          (dec_obj [(''interfaces'', dec_map (dec_obj
             [(''bytes transmitted'', fld op_transmitted op_transmitted_update dec_number),
              (''bytes received'', fld op_received op_received_update dec_number)])
             \<lparr>op_transmitted = [], op_received = []\<rparr>)]) []) (\<lambda>ifaces.
        andThen (or_crash (opnsense_traffic ifaces (or_str wan ''wan''))) (\<lambda>traffic.
        got (opnsense_activity headers @ traffic))))))"

definition opnsense_Sample :: "WidgetConfig \<Rightarrow> Field list" where
  "opnsense_Sample _ = [percent_field ''CPU'' 12, field ''Memory'' ''1.8G'',
     field ''WAN Upload'' ''12.4 GB'', field ''WAN Download'' ''84.7 GB'']"

section \<open>nextcloud\<close>

text \<open>
  \<^verbatim>\<open>fmt.Sscanf(s, "%g", &v)\<close>: the longest text of the shape of a number after leading spaces; what
  follows it is ignored.
\<close>

definition float_token :: "string \<Rightarrow> string" where
  "float_token s =
     (let digit = (\<lambda>c. is_digit c \<or> c = CHR ''_'');
          (sign, r) = (case s of c # r \<Rightarrow> if c \<in> {CHR ''+'', CHR ''-''} then ([c], r) else ([], s) | [] \<Rightarrow> ([], s));
          whole = takeWhile digit r; r = dropWhile digit r;
          (frac, r) = (case r of c # r' \<Rightarrow> if c = CHR ''.'' then (c # takeWhile digit r', dropWhile digit r')
                                            else ([], r)
                       | [] \<Rightarrow> ([], r));
          expo = (case r of [] \<Rightarrow> []
                  | c # r' \<Rightarrow>
                      if c \<in> {CHR ''e'', CHR ''E'', CHR ''p'', CHR ''P''}
                      then c # (case r' of d # r'' \<Rightarrow> if d \<in> {CHR ''+'', CHR ''-''} then d # takeWhile digit r''
                                                     else takeWhile digit r'
                                | [] \<Rightarrow> [])
                      else [])
      in if to_lower (take 3 s) = ''nan'' then ''nan''
         else if to_lower (take 3 (drop (length sign) s)) = ''inf'' then sign @ ''inf''
         else sign @ whole @ frac @ expo)"

definition sscanf_g :: "string \<Rightarrow> float64 option" where
  "sscanf_g s = ParseFloat (float_token (dropWhile is_space s))"

definition trim_quotes :: "string \<Rightarrow> string" where
  "trim_quotes s = rev (dropWhile (\<lambda>c. c = CHR 0x22) (rev (dropWhile (\<lambda>c. c = CHR 0x22) s)))"

text \<open>\<^verbatim>\<open>UnmarshalJSON\<close> is called on \<^verbatim>\<open>null\<close> too, and fails on it.\<close>

fun nextcloudFlexFloat :: "float64 decoder" where
  "nextcloudFlexFloat (JNum n) old = (case sscanf_g n of Some v \<Rightarrow> (True, v) | None \<Rightarrow> (False, old))"
| "nextcloudFlexFloat (JStr s) old = (case sscanf_g (trim_quotes s) of Some v \<Rightarrow> (True, v) | None \<Rightarrow> (False, old))"
| "nextcloudFlexFloat _ old = (False, old)"

record nextcloudInfo =
  nc_cpuload :: "float64 list"
  nc_mem_total :: float64
  nc_mem_free :: float64
  nc_freespace :: float64
  nc_last24hours :: int

definition dec_nextcloud :: "nextcloudInfo decoder" where
  "dec_nextcloud = dec_obj [(''ocs'', dec_obj [(''data'', dec_obj
     [(''nextcloud'', dec_obj [(''system'', dec_obj
        [(''cpuload'', fld nc_cpuload nc_cpuload_update (dec_arr dec_float f_zero)),
         (''mem_total'', fld nc_mem_total nc_mem_total_update nextcloudFlexFloat),
         (''mem_free'', fld nc_mem_free nc_mem_free_update nextcloudFlexFloat),
         (''freespace'', fld nc_freespace nc_freespace_update dec_float)])]),
      (''activeUsers'', dec_obj [(''last24hours'', fld nc_last24hours nc_last24hours_update dec_int)])])])]"

definition bytesPerGiB :: float64 where "bytesPerGiB = Finite False (1024 * 1024 * 1024)"

definition nextcloud_fields :: "nextcloudInfo \<Rightarrow> Field list" where
  "nextcloud_fields d =
     (let cpuLoad = (case nc_cpuload d of [] \<Rightarrow> f_zero | x # _ \<Rightarrow> x);
          memPct = (if f_less f_zero (nc_mem_total d)
                    then percent_of (f_sub (nc_mem_total d) (nc_mem_free d)) (nc_mem_total d) else 0)
      in [field ''CPU Load'' (format_fixed 2 cpuLoad @ ''%''), percent_field ''Memory Usage'' memPct,
          field ''Free Space'' (trimFloat (f_div (nc_freespace d) bytesPerGiB) @ '' GiB''),
          int_field ''Active Users'' (nc_last24hours d)])"

definition nextcloud_Poll :: "web \<Rightarrow> http_client \<Rightarrow> WidgetConfig \<Rightarrow> Field list fetch" where
  "nextcloud_Poll web c cfg =
     andThen (buildJSONRequest web cfg ''nextcloud'' ''/ocs/v2.php/apps/serverinfo/api/v1/info?format=json'') (\<lambda>r.
     let key = gstr (wc_secrets cfg) ''key''; username = gstr (wc_secrets cfg) ''username'';
         r = (if key \<noteq> [] then with_header ''NC-Token'' key r
              else if username \<noteq> [] then with_basic username (gstr (wc_secrets cfg) ''password'') r else r)
     in andThen (doJSONRequest web c r dec_nextcloud
          \<lparr>nc_cpuload = [], nc_mem_total = f_zero, nc_mem_free = f_zero, nc_freespace = f_zero,
           nc_last24hours = 0\<rparr>) (\<lambda>parsed.
        got (nextcloud_fields parsed)))"

definition nextcloud_Sample :: "WidgetConfig \<Rightarrow> Field list" where
  "nextcloud_Sample _ = [field ''CPU Load'' ''0.42%'', percent_field ''Memory Usage'' 61,
     field ''Free Space'' ''812.5 GiB'', field ''Active Users'' ''17'']"

section \<open>unifi\<close>

record unifiConfig =
  un_site :: string
  un_insecure_tls :: bool

record unifiIntegrationSite =
  us_id :: string
  us_name :: string

definition unifiIntegrationBasePath :: string where
  "unifiIntegrationBasePath = ''/proxy/network/integration/v1''"

definition unifiClientsPageLimit :: int where "unifiClientsPageLimit = 200"

definition unifiIntegrationRequest :: "web \<Rightarrow> string \<Rightarrow> string \<Rightarrow> http_request fetch" where
  "unifiIntegrationRequest web endpoint apiKey =
     andThen (new_request web ''building request'' ''GET'' endpoint []) (\<lambda>r.
     got (with_header ''X-API-KEY'' apiKey r))"

text \<open>The ID of the first site of that name, which may be empty.\<close>

definition unifi_site_id :: "unifiIntegrationSite list \<Rightarrow> string \<Rightarrow> string" where
  "unifi_site_id sites site =
     (case find (\<lambda>s. us_name s = site) sites of Some s \<Rightarrow> us_id s | None \<Rightarrow> [])"

definition unifi_fields :: "string list \<Rightarrow> string list \<Rightarrow> Field list" where
  "unifi_fields devices clients =
     (let status = (if devices = [] then statusUnknown
                    else if list_all (\<lambda>d. to_lower d = ''online'') devices then statusHealthy else statusDegraded)
      in [field labelStatus status,
          int_field ''LAN Users'' (int (length (filter (\<lambda>t. t = ''WIRED'') clients))),
          int_field ''WLAN Users'' (int (length (filter (\<lambda>t. t = ''WIRELESS'') clients)))])"

text \<open>One request of the Integration API: its \<^verbatim>\<open>data\<close>; the totals beside it are decoded and not used.\<close>

definition unifi_data :: "web \<Rightarrow> http_client \<Rightarrow> string \<Rightarrow> string \<Rightarrow> bool \<Rightarrow> 'a decoder \<Rightarrow> 'a \<Rightarrow> 'a list fetch" where
  "unifi_data web c endpoint apiKey counted dec zero =
     andThen (unifiIntegrationRequest web endpoint apiKey) (\<lambda>r.
     doJSONRequest web c r
       (dec_obj ((''data'', dec_arr dec zero) #
         (if counted then [(''totalCount'', \<lambda>j xs. (fst (dec_int j 0), xs))] else []))) [])"

definition dec_unifi :: "unifiConfig decoder" where
  "dec_unifi = dec_obj [(''site'', fld un_site un_site_update dec_str),
     (''insecureTLS'', fld un_insecure_tls un_insecure_tls_update dec_bool)]"

definition zero_unifi :: unifiConfig where
  "zero_unifi = \<lparr>un_site = [], un_insecure_tls = False\<rparr>"

definition unifi_Poll :: "web \<Rightarrow> net_lib \<Rightarrow> (http_client gomap \<Rightarrow> string) \<Rightarrow> http_client \<Rightarrow> WidgetConfig \<Rightarrow>
    Field list fetch" where
  "unifi_Poll web net victim c cfg =
     require (wc_url cfg \<noteq> []) ''unifi widget: url is required''
       (let apiKey = gstr (wc_secrets cfg) ''apiKey'' in
        require (apiKey \<noteq> []) ''unifi widget: secrets.apiKey is required''
          (andThen (decode_config web cfg dec_unifi zero_unifi) (\<lambda>unifiCfg.
           let site = or_str (un_site unifiCfg) ''default''; baseURL = trim_slashes (wc_url cfg);
               api = baseURL @ unifiIntegrationBasePath
           in andThen (unifiHTTPClient net victim c baseURL (un_insecure_tls unifiCfg)) (\<lambda>client.
              andThen (unifi_data web client (api @ ''/sites'') apiKey False
                (dec_obj [(''id'', fld us_id us_id_update dec_str), (''name'', fld us_name us_name_update dec_str)])
                \<lparr>us_id = [], us_name = []\<rparr>) (\<lambda>sites.
              let siteID = unifi_site_id sites site in
              if siteID = []
              then andThen (note_outcome (PollFailed baseURL None ''unifi site not found''))
                     (\<lambda>_. shown (status_field statusUnreach))
              else
                andThen (unifi_data web client (api @ ''/sites/'' @ siteID @ ''/devices'') apiKey True
                  (dec_obj [(''state'', dec_str)]) []) (\<lambda>devices.
                andThen (unifi_data web client
                  (api @ ''/sites/'' @ siteID @ ''/clients?limit='' @ fmt_int unifiClientsPageLimit) apiKey True
                  (dec_obj [(''type'', dec_str)]) []) (\<lambda>clients.
                got (unifi_fields devices clients))))))))"

definition unifi_Sample :: "WidgetConfig \<Rightarrow> Field list" where
  "unifi_Sample _ = [field labelStatus statusHealthy, field ''LAN Users'' ''18'', field ''WLAN Users'' ''6'']"

section \<open>proxmox\<close>

record proxmoxConfig =
  px_node :: string
  px_insecure_tls :: bool

record proxmoxResource =
  pr_type :: string
  pr_status :: string
  pr_node :: string
  pr_template :: int
  pr_maxmem :: float64
  pr_mem :: float64
  pr_maxcpu :: float64
  pr_cpu :: float64

record proxmox_totals =
  pt_vms :: int
  pt_vms_running :: int
  pt_lxc :: int
  pt_lxc_running :: int
  pt_nodes :: int
  pt_maxmem :: float64
  pt_mem :: float64
  pt_maxcpu :: float64
  pt_cpu :: float64

definition zero_totals :: proxmox_totals where
  "zero_totals = \<lparr>pt_vms = 0, pt_vms_running = 0, pt_lxc = 0, pt_lxc_running = 0, pt_nodes = 0,
     pt_maxmem = f_zero, pt_mem = f_zero, pt_maxcpu = f_zero, pt_cpu = f_zero\<rparr>"

definition count_resource :: "string \<Rightarrow> proxmox_totals \<Rightarrow> proxmoxResource \<Rightarrow> proxmox_totals" where
  "count_resource node t r =
     (let running = (if pr_status r = ''running'' then 1 else 0) in
      if node \<noteq> [] \<and> pr_node r \<noteq> node then t
      else if pr_type r = ''qemu'' then
        (if pr_template r \<noteq> 0 then t
         else t\<lparr>pt_vms := pt_vms t + 1, pt_vms_running := pt_vms_running t + running\<rparr>)
      else if pr_type r = ''lxc'' then
        (if pr_template r \<noteq> 0 then t
         else t\<lparr>pt_lxc := pt_lxc t + 1, pt_lxc_running := pt_lxc_running t + running\<rparr>)
      else if pr_type r = ''node'' then
        (if pr_status r \<noteq> ''online'' then t
         else t\<lparr>pt_nodes := pt_nodes t + 1, pt_maxmem := f_add (pt_maxmem t) (pr_maxmem r),
                pt_mem := f_add (pt_mem t) (pr_mem r), pt_maxcpu := f_add (pt_maxcpu t) (pr_maxcpu r),
                pt_cpu := f_add (pt_cpu t) (f_mul (pr_cpu r) (pr_maxcpu r))\<rparr>)
      else t)"

definition proxmox_fields :: "proxmox_totals \<Rightarrow> Field list" where
  "proxmox_fields t =
     [field ''VMs'' (fmt_int (pt_vms_running t) @ '' / '' @ fmt_int (pt_vms t)),
      field ''LXC'' (fmt_int (pt_lxc_running t) @ '' / '' @ fmt_int (pt_lxc t))] @
     (if pt_nodes t = 0 \<or> f_is_zero (pt_maxcpu t) \<or> f_is_zero (pt_maxmem t) then []
      else [percent_field ''CPU'' (percent_of (pt_cpu t) (pt_maxcpu t)),
            percent_field ''Memory'' (percent_of (pt_mem t) (pt_maxmem t))])"

definition dec_resource :: "proxmoxResource decoder" where
  "dec_resource = dec_obj
     [(''type'', fld pr_type pr_type_update dec_str), (''status'', fld pr_status pr_status_update dec_str),
      (''node'', fld pr_node pr_node_update dec_str), (''template'', fld pr_template pr_template_update dec_int),
      (''maxmem'', fld pr_maxmem pr_maxmem_update dec_float), (''mem'', fld pr_mem pr_mem_update dec_float),
      (''maxcpu'', fld pr_maxcpu pr_maxcpu_update dec_float), (''cpu'', fld pr_cpu pr_cpu_update dec_float)]"

definition zero_resource :: proxmoxResource where
  "zero_resource = \<lparr>pr_type = [], pr_status = [], pr_node = [], pr_template = 0, pr_maxmem = f_zero,
     pr_mem = f_zero, pr_maxcpu = f_zero, pr_cpu = f_zero\<rparr>"

definition dec_proxmox :: "proxmoxConfig decoder" where
  "dec_proxmox = dec_obj [(''node'', fld px_node px_node_update dec_str),
     (''insecureTLS'', fld px_insecure_tls px_insecure_tls_update dec_bool)]"

definition zero_proxmox :: proxmoxConfig where
  "zero_proxmox = \<lparr>px_node = [], px_insecure_tls = False\<rparr>"

definition proxmox_Poll :: "web \<Rightarrow> net_lib \<Rightarrow> (http_client gomap \<Rightarrow> string) \<Rightarrow> http_client \<Rightarrow> WidgetConfig \<Rightarrow>
    Field list fetch" where
  "proxmox_Poll web net victim c cfg =
     require (wc_url cfg \<noteq> []) ''proxmox widget: url is required''
       (let username = gstr (wc_secrets cfg) ''username''; password = gstr (wc_secrets cfg) ''password'' in
        require (username \<noteq> [] \<and> password \<noteq> [])
          ''proxmox widget: secrets.username and secrets.password are required''
          (andThen (decode_config web cfg dec_proxmox zero_proxmox) (\<lambda>proxCfg.
           andThen (new_request web ''building request'' ''GET''
             (trim_slashes (wc_url cfg) @ ''/api2/json/cluster/resources'') []) (\<lambda>r.
           let r = with_header ''Authorization'' (''PVEAPIToken='' @ username @ ''='' @ password) r in
           andThen (proxmoxHTTPClient net victim c (wc_url cfg) (px_insecure_tls proxCfg)) (\<lambda>client.
           andThen (doJSONRequest web client r (dec_obj [(''data'', dec_arr dec_resource zero_resource)]) []) (\<lambda>rs.
           got (proxmox_fields (foldl (count_resource (px_node proxCfg)) zero_totals rs))))))))"

definition proxmox_Sample :: "WidgetConfig \<Rightarrow> Field list" where
  "proxmox_Sample _ = [field ''VMs'' ''6 / 8'', field ''LXC'' ''4 / 5'', percent_field ''CPU'' 32, percent_field ''Memory'' 54]"

section \<open>The laws hold\<close>

context poll_law
begin

lemma holds_adguard: "client_ok c \<Longrightarrow> serves (wc_url cfg) \<Longrightarrow> holds (adguard_Poll web c cfg)"
  by (auto simp: adguard_Poll_def Let_def intro!: poll_rules)

text \<open>A request built for a path of the base, and then made.\<close>

lemma holds_request_below:
  assumes "client_ok c" "serves base" "has_prefix path [slash]"
    and "\<And>r. hr_url (g r) = hr_url r"
    and "\<And>x. holds (f x)"
  shows "holds (andThen (new_request web what meth (trim_slashes base @ path) body)
    (\<lambda>r. andThen (doJSONRequest web c (g r) dec out) f))"
  by (rule holds_andThen [OF holds_new_request], rule holds_bind, rule holds_doJSONRequest)
    (use assms serves_path in auto)

lemma holds_pihole: "client_ok c \<Longrightarrow> serves (wc_url cfg) \<Longrightarrow> holds (pihole_Poll web c cfg)"
  unfolding pihole_Poll_def Let_def
  by (intro holds_require holds_request_below holds_if holds_shown holds_got)
    (auto simp: with_header_def metricErr_unreach)

lemma holds_opnsense:
  "client_ok c \<Longrightarrow> serves (wc_url cfg) \<Longrightarrow> (\<And>e. may_crash e) \<Longrightarrow> holds (opnsense_Poll web c cfg)"
  by (auto simp: opnsense_Poll_def Let_def intro!: poll_rules)

lemma holds_nextcloud: "client_ok c \<Longrightarrow> serves (wc_url cfg) \<Longrightarrow> holds (nextcloud_Poll web c cfg)"
  unfolding nextcloud_Poll_def Let_def
  by (rule holds_andThen [OF holds_buildJSONRequest], rule holds_bind, rule holds_doJSONRequest)
    (auto simp: with_header_def with_basic_def serves_path intro!: poll_rules)

lemma holds_unifi_data:
  assumes "client_ok c" "url_ok endpoint"
  shows "holds (unifi_data web c endpoint apiKey counted dec zero)"
proof -
  have "holds_for (\<lambda>r. hr_url r = endpoint) (unifiIntegrationRequest web endpoint apiKey)"
    unfolding unifiIntegrationRequest_def
    by (rule holds_andThen [OF holds_new_request]) (auto simp: with_header_def intro!: poll_rules)
  then show ?thesis
    unfolding unifi_data_def by (rule holds_andThen) (use assms in \<open>auto intro!: holds_doJSONRequest\<close>)
qed

lemma holds_unifi_below:
  "client_ok c \<Longrightarrow> serves base \<Longrightarrow>
    holds (unifi_data web c ((trim_slashes base @ unifiIntegrationBasePath) @ path) apiKey counted dec zero)"
  unfolding append_assoc
  by (rule holds_unifi_data) (auto simp: unifiIntegrationBasePath_def intro!: serves_path)

lemma holds_unifi:
  assumes "client_ok c" "serves (wc_url cfg)" "un_insecure_tls (decoded_config cfg dec_unifi zero_unifi) \<longrightarrow> lax"
  shows "holds (unifi_Poll web net victim c cfg)"
  unfolding unifi_Poll_def Let_def
  by (intro holds_require holds_andThen [OF holds_decoded] holds_andThen [OF holds_unifiHTTPClient]
      holds_bind [OF holds_unifi_below] holds_if holds_bind [OF holds_note] holds_shown holds_got)
    (use assms metricErr_unreach in auto)

lemma holds_proxmox:
  assumes "client_ok c" "serves (wc_url cfg)" "px_insecure_tls (decoded_config cfg dec_proxmox zero_proxmox) \<longrightarrow> lax"
  shows "holds (proxmox_Poll web net victim c cfg)"
  unfolding proxmox_Poll_def Let_def
  by (intro holds_require holds_andThen [OF holds_decoded] holds_andThen [OF holds_new_request]
      holds_andThen [OF holds_proxmoxHTTPClient] holds_bind [OF holds_doJSONRequest] holds_got)
    (use assms in \<open>auto simp: with_header_def serves_path\<close>)

end
end
