(* ===== verification/Widgets_Header.thy ===== *)
theory Widgets_Header
  imports Widgets_Network
begin

text \<open>
  The widgets of the header strip: \<^verbatim>\<open>glances.go\<close>, \<^verbatim>\<open>longhorn.go\<close>, \<^verbatim>\<open>kubemetrics.go\<close>,
  \<^verbatim>\<open>openmeteo.go\<close>, \<^verbatim>\<open>openweathermap.go\<close> of \<^verbatim>\<open>internal/dashboard\<close>, and the weather labels of
  \<^verbatim>\<open>labels.go\<close>.  Quantities of Kubernetes are a parameter.  Proved besides the poll laws: the usage
  of the cluster and of the storage is a percentage.
\<close>

section \<open>glances\<close>

record glancesQuicklookResponse =
  gl_cpu :: float64
  gl_mem :: float64

definition glances_Poll :: "web \<Rightarrow> http_client \<Rightarrow> WidgetConfig \<Rightarrow> Field list fetch" where
  "glances_Poll web c cfg =
     require (wc_url cfg \<noteq> []) ''glances widget: url is required''
       (andThen (decode_config web cfg (dec_obj [(''apiVersion'', dec_str)]) []) (\<lambda>version.
        let path = ''/api/'' @ or_str version ''4'' @ ''/quicklook'' in
        andThen (fetchJSON web c cfg ''glances'' path []
          (dec_obj [(''cpu'', fld gl_cpu gl_cpu_update dec_float), (''mem'', fld gl_mem gl_mem_update dec_float)])
          \<lparr>gl_cpu = f_zero, gl_mem = f_zero\<rparr>) (\<lambda>parsed.
        got [percent_field ''CPU'' (round_half (gl_cpu parsed)),
             percent_field ''Memory'' (round_half (gl_mem parsed))])))"

definition glances_Sample :: "WidgetConfig \<Rightarrow> Field list" where
  "glances_Sample _ = [percent_field ''CPU'' 45, percent_field ''Memory'' 82]"

section \<open>longhorn\<close>

record longhornDisk =
  lh_maximum :: int
  lh_available :: int

definition used_of_total :: "float64 \<Rightarrow> float64 \<Rightarrow> string \<Rightarrow> string" where
  "used_of_total used whole suffix =
     trimFloat used @ '' / '' @ trimFloat whole @ suffix @ '' ('' @ fmt_int (percent_of used whole) @ ''%)''"

definition longhorn_fields :: "longhornDisk gomap list \<Rightarrow> Field list" where
  "longhorn_fields nodes =
     (let disks = concat (map (map snd) nodes);
          maxBytes = sum64 (map lh_maximum disks);
          availBytes = sum64 (map lh_available disks)
      in if maxBytes = 0 then [field labelStatus statusUnknown]
         else
           let used = f_div (f_of_int (wrap64 (maxBytes - availBytes))) bytesPerGiB;
               whole = f_div (f_of_int maxBytes) bytesPerGiB
           in [pct_field ''Storage'' (used_of_total used whole '' GiB'') (Some (percent_of used whole))])"

definition longhorn_Poll :: "web \<Rightarrow> http_client \<Rightarrow> WidgetConfig \<Rightarrow> Field list fetch" where
  "longhorn_Poll web c cfg =
     andThen (fetchJSON web c cfg ''longhorn'' ''/v1/nodes'' []
       (dec_obj [(''data'', dec_arr (dec_obj [(''disks'', dec_map (dec_obj
          [(''storageMaximum'', fld lh_maximum lh_maximum_update dec_int),
           (''storageAvailable'', fld lh_available lh_available_update dec_int)])
          \<lparr>lh_maximum = 0, lh_available = 0\<rparr>)]) [])]) []) (\<lambda>nodes.
     got (longhorn_fields nodes))"

definition longhorn_Sample :: "WidgetConfig \<Rightarrow> Field list" where
  "longhorn_Sample _ =
     (let used = f_of_int 750; whole = f_of_int 1000
      in [pct_field ''Storage'' (used_of_total used whole '' GiB'') (Some (percent_of used whole))])"

section \<open>kubemetrics\<close>

text \<open>
  \<^verbatim>\<open>resource.Quantity\<close>: its zero value, \<^verbatim>\<open>Add\<close>, \<^verbatim>\<open>MilliValue\<close> and \<^verbatim>\<open>Value\<close>; and what the two
  lists of the cluster reader return, the usage and the allocatable resources of each node.
\<close>

record 'q quantity_lib =
  ql_zero :: 'q
  ql_add :: "'q \<Rightarrow> 'q \<Rightarrow> 'q"
  ql_milli :: "'q \<Rightarrow> int"
  ql_value :: "'q \<Rightarrow> int"

record 'q node_lists =
  nl_metrics :: "string + 'q gomap list"
  nl_nodes :: "string + 'q gomap list"

definition resolveKubeMetricsLabels :: "web \<Rightarrow> WidgetConfig \<Rightarrow> string \<times> string \<times> string option" where
  "resolveKubeMetricsLabels web cfg =
     (case wc_config cfg of
        None \<Rightarrow> (''CPU'', ''Memory'', None)
      | Some j \<Rightarrow>
          (case dec_obj [(''cpuLabel'', fld fst apfst dec_str), (''memoryLabel'', fld snd apsnd dec_str)] j ([], []) of
             (False, _) \<Rightarrow> (''CPU'', ''Memory'', Some (''decoding widget config: '' @ wb_type_error web j))
           | (True, cpu, mem) \<Rightarrow> (or_str cpu ''CPU'', or_str mem ''Memory'', None)))"

definition formatCPU :: "'q quantity_lib \<Rightarrow> 'q \<Rightarrow> 'q \<Rightarrow> string \<times> int option" where
  "formatCPU ql used whole =
     (let usedCores = f_div (f_of_int (ql_milli ql used)) (f_of_int 1000);
          totalCores = f_div (f_of_int (ql_milli ql whole)) (f_of_int 1000)
      in if f_is_zero totalCores then (trimFloat usedCores @ '' cores'', None)
         else (used_of_total usedCores totalCores '' cores'', Some (percent_of usedCores totalCores)))"

definition formatMemory :: "'q quantity_lib \<Rightarrow> 'q \<Rightarrow> 'q \<Rightarrow> string \<times> int option" where
  "formatMemory ql used whole =
     (let usedGiB = f_div (f_of_int (ql_value ql used)) bytesPerGiB;
          totalGiB = f_div (f_of_int (ql_value ql whole)) bytesPerGiB
      in if f_is_zero totalGiB then (trimFloat usedGiB @ '' GiB'', None)
         else (used_of_total usedGiB totalGiB '' GiB'', Some (percent_of usedGiB totalGiB)))"

definition sum_resource :: "'q quantity_lib \<Rightarrow> string \<Rightarrow> 'q gomap list \<Rightarrow> 'q" where
  "sum_resource ql name xs =
     foldl (\<lambda>a m. ql_add ql a (case gget m name of Some q \<Rightarrow> q | None \<Rightarrow> ql_zero ql)) (ql_zero ql) xs"

definition kubeMetrics_Poll :: "http_client \<Rightarrow> WidgetConfig \<Rightarrow> Field list fetch" where
  "kubeMetrics_Poll _ _ = failed ''kubemetrics: cluster-only widget''"

definition kubeMetrics_PollCluster :: "web \<Rightarrow> 'q quantity_lib \<Rightarrow> 'q node_lists \<Rightarrow> WidgetConfig \<Rightarrow>
    string + Field list" where
  "kubeMetrics_PollCluster web ql cluster cfg =
     (case resolveKubeMetricsLabels web cfg of
        (_, _, Some e) \<Rightarrow> Inl e
      | (cpuLabel, memoryLabel, None) \<Rightarrow>
          (case nl_metrics cluster of
             Inl _ \<Rightarrow> Inr (status_field statusUnreach)
           | Inr usage \<Rightarrow>
               (case nl_nodes cluster of
                  Inl _ \<Rightarrow> Inr (status_field statusUnreach)
                | Inr alloc \<Rightarrow>
                    (case formatCPU ql (sum_resource ql ''cpu'' usage) (sum_resource ql ''cpu'' alloc) of
                       (cpuValue, cpuPct) \<Rightarrow>
                     case formatMemory ql (sum_resource ql ''memory'' usage) (sum_resource ql ''memory'' alloc) of
                       (memValue, memPct) \<Rightarrow>
                     Inr [pct_field cpuLabel cpuValue cpuPct, pct_field memoryLabel memValue memPct]))))"

definition kubeMetrics_Sample :: "web \<Rightarrow> WidgetConfig \<Rightarrow> Field list" where
  "kubeMetrics_Sample web cfg =
     (case resolveKubeMetricsLabels web cfg of
        (cpuLabel, memoryLabel, _) \<Rightarrow>
          [pct_field cpuLabel ''2.6 / 4 cores (65%)'' (Some 65), pct_field memoryLabel ''11 / 12 GiB (92%)'' (Some 92)])"

section \<open>Weather\<close>

definition degree :: string where "degree = [CHR 0xC2, CHR 0xB0]"

definition weatherLabelAndSuffix :: "string \<Rightarrow> string \<Rightarrow> string \<times> string" where
  "weatherLabelAndSuffix label units =
     (or_str label ''Weather'', degree @ (if units = ''imperial'' then ''F'' else ''C''))"

record weatherConfig =
  wt_latitude :: float64
  wt_longitude :: float64
  wt_units :: string
  wt_label :: string

definition zero_weather :: weatherConfig where
  "zero_weather = \<lparr>wt_latitude = f_zero, wt_longitude = f_zero, wt_units = [], wt_label = []\<rparr>"

definition dec_weather :: "weatherConfig decoder" where
  "dec_weather = dec_obj
     [(''latitude'', fld wt_latitude wt_latitude_update dec_float),
      (''longitude'', fld wt_longitude wt_longitude_update dec_float),
      (''units'', fld wt_units wt_units_update dec_str), (''label'', fld wt_label wt_label_update dec_str)]"

definition nowhere :: "weatherConfig \<Rightarrow> bool" where
  "nowhere w \<longleftrightarrow> f_is_zero (wt_latitude w) \<and> f_is_zero (wt_longitude w)"

definition weatherCondition :: "int \<Rightarrow> string" where
  "weatherCondition code =
     (if code = 0 then ''Clear'' else if code \<le> 3 then ''Partly cloudy'' else if code \<le> 48 then ''Fog''
      else if code \<le> 57 then ''Drizzle'' else if code \<le> 67 then ''Rain'' else if code \<le> 77 then ''Snow''
      else if code \<le> 82 then ''Rain showers'' else if code \<le> 86 then ''Snow showers''
      else if code \<le> 99 then ''Thunderstorm'' else statusUnknown)"

definition openMeteoDefaultBase :: string where "openMeteoDefaultBase = ''https://api.open-meteo.com''"

record openMeteoResponse =
  om_temperature :: float64
  om_weathercode :: int

definition openMeteo_Poll :: "web \<Rightarrow> http_client \<Rightarrow> WidgetConfig \<Rightarrow> Field list fetch" where
  "openMeteo_Poll web c cfg =
     (let e = ''openmeteo widget: config.latitude/longitude are required'' in
      require (wc_config cfg \<noteq> None) e
        (andThen (decode_config web cfg dec_weather zero_weather) (\<lambda>w.
         require (\<not> nowhere w) e
           (case weatherLabelAndSuffix (wt_label w) (wt_units w) of (label, tempSuffix) \<Rightarrow>
              let query = encode_query
                    [(''current_weather'', ''true''), (''latitude'', format_shortest (wt_latitude w)),
                     (''longitude'', format_shortest (wt_longitude w)),
                     (''temperature_unit'', if wt_units w = ''imperial'' then ''fahrenheit'' else ''celsius'')]
              in andThen (new_request web ''building request'' ''GET''
                   (trim_slashes (or_str (wc_url cfg) openMeteoDefaultBase) @ ''/v1/forecast?'' @ query) []) (\<lambda>r.
                 andThen (doJSONRequest web c r (dec_obj [(''current_weather'', dec_obj
                    [(''temperature'', fld om_temperature om_temperature_update dec_float),
                     (''weathercode'', fld om_weathercode om_weathercode_update dec_int)])])
                    \<lparr>om_temperature = f_zero, om_weathercode = 0\<rparr>) (\<lambda>parsed.
                 got [field label (format_shortest (om_temperature parsed) @ tempSuffix),
                      field ''Conditions'' (weatherCondition (om_weathercode parsed))]))))))"

text \<open>A sample reads what it can of the configuration.\<close>

definition sample_weather :: "WidgetConfig \<Rightarrow> weatherConfig" where
  "sample_weather cfg =
     (case wc_config cfg of None \<Rightarrow> zero_weather | Some j \<Rightarrow> snd (dec_weather j zero_weather))"

definition openMeteo_Sample :: "WidgetConfig \<Rightarrow> Field list" where
  "openMeteo_Sample cfg =
     (let w = sample_weather cfg in
      case weatherLabelAndSuffix (wt_label w) (wt_units w) of (label, tempSuffix) \<Rightarrow>
        [field label (''18'' @ tempSuffix), field ''Conditions'' ''Clear''])"

definition openWeatherMapDefaultBase :: string where
  "openWeatherMapDefaultBase = ''https://api.openweathermap.org''"

record openWeatherMapResponse =
  ow_temp :: float64
  ow_weather :: "string list"

definition openWeatherMap_Poll :: "web \<Rightarrow> http_client \<Rightarrow> WidgetConfig \<Rightarrow> Field list fetch" where
  "openWeatherMap_Poll web c cfg =
     (let e = ''openweathermap widget: config.latitude/longitude are required'' in
      require (wc_config cfg \<noteq> None) e
        (andThen (decode_config web cfg dec_weather zero_weather) (\<lambda>w.
         require (\<not> nowhere w) e
           (let apiKey = gstr (wc_secrets cfg) ''apiKey'' in
            require (apiKey \<noteq> []) ''openweathermap widget: secrets.apiKey is required''
              (case weatherLabelAndSuffix (wt_label w) (wt_units w) of (label, tempSuffix) \<Rightarrow>
                 let query = encode_query
                       [(''appid'', apiKey), (''lat'', format_shortest (wt_latitude w)),
                        (''lon'', format_shortest (wt_longitude w)),
                        (''units'', if wt_units w = ''imperial'' then ''imperial'' else ''metric'')]
                 in andThen (new_request web ''building request'' ''GET''
                      (trim_slashes (or_str (wc_url cfg) openWeatherMapDefaultBase) @ ''/data/2.5/weather?'' @ query) []) (\<lambda>r.
                    andThen (doJSONRequest web c r
                      (dec_obj [(''main'', dec_obj [(''temp'', fld ow_temp ow_temp_update dec_float)]),
                                (''weather'', fld ow_weather ow_weather_update
                                   (dec_arr (dec_obj [(''main'', dec_str)]) []))])
                      \<lparr>ow_temp = f_zero, ow_weather = []\<rparr>) (\<lambda>parsed.
                    let conditions = (case ow_weather parsed of [] \<Rightarrow> statusUnknown | m # _ \<Rightarrow> or_str m statusUnknown)
                    in got [field label (format_shortest (ow_temp parsed) @ tempSuffix),
                            field ''Conditions'' conditions])))))))"

definition openWeatherMap_Sample :: "WidgetConfig \<Rightarrow> Field list" where
  "openWeatherMap_Sample cfg =
     (let w = sample_weather cfg in
      case weatherLabelAndSuffix (wt_label w) (wt_units w) of (label, tempSuffix) \<Rightarrow>
        [field label (''21'' @ tempSuffix), field ''Conditions'' ''Clouds''])"

section \<open>The laws hold\<close>

context poll_law
begin

lemma holds_glances: "client_ok c \<Longrightarrow> serves (wc_url cfg) \<Longrightarrow> holds (glances_Poll web c cfg)"
  by (auto simp: glances_Poll_def Let_def intro!: poll_rules)

lemma holds_kubeMetrics: "holds (kubeMetrics_Poll c cfg)"
  by (simp add: kubeMetrics_Poll_def holds_failed)

lemma holds_longhorn: "client_ok c \<Longrightarrow> serves (wc_url cfg) \<Longrightarrow> holds (longhorn_Poll web c cfg)"
  by (auto simp: longhorn_Poll_def intro!: poll_rules)

lemma holds_openMeteo:
  assumes "client_ok c" "serves (or_str (wc_url cfg) openMeteoDefaultBase)"
  shows "holds (openMeteo_Poll web c cfg)"
  unfolding openMeteo_Poll_def Let_def weatherLabelAndSuffix_def prod.case
  by (intro holds_require holds_bind [OF holds_decode_config] holds_andThen [OF holds_new_request]
      holds_bind [OF holds_doJSONRequest] holds_got)
    (use assms serves_path in auto)

lemma holds_openWeatherMap:
  assumes "client_ok c" "serves (or_str (wc_url cfg) openWeatherMapDefaultBase)"
  shows "holds (openWeatherMap_Poll web c cfg)"
  unfolding openWeatherMap_Poll_def Let_def weatherLabelAndSuffix_def prod.case
  by (intro holds_require holds_bind [OF holds_decode_config] holds_andThen [OF holds_new_request]
      holds_bind [OF holds_doJSONRequest] holds_got)
    (use assms serves_path in auto)

end

section \<open>Usage is a percentage\<close>

lemma rnd_int64: "0 \<le> k \<Longrightarrow> k < 2 ^ 63 \<Longrightarrow> 0 \<le> rnd (of_int k) \<and> rnd (of_int k) \<le> 2 ^ 63"
proof -
  assume k: "0 \<le> k" "k < 2 ^ 63"
  then have "(of_int k :: rat) \<le> 2 ^ 63" by (metis less_imp_le of_int_le_iff of_int_numeral of_int_power)
  then have "rnd (of_int k) \<le> rnd (2 ^ 63)" using k by (intro rnd_mono) auto
  also have "rnd (2 ^ 63) = 2 ^ 63" using rnd_multiple [of 1 63] by simp
  finally show ?thesis using k rnd_nonneg by simp
qed

lemma scaled_int:
  assumes "0 \<le> k" "k < 2 ^ 63" "1 \<le> d"
  shows "f_div (f_of_int k) (Finite False d) = Finite False (rnd (rnd (of_int k) / d))"
proof -
  have a: "0 \<le> rnd (of_int k)" "rnd (of_int k) \<le> 2 ^ 63" using rnd_int64 assms by auto
  have "rnd (of_int k) / d \<le> rnd (of_int k)" using a assms(3) mult_left_mono [of 1 d "rnd (of_int k)"] by (simp add: divide_le_eq)
  with a have "rnd (of_int k) / d \<le> of_int 1 * 2 powi 63" by simp
  then have "rnd (rnd (of_int k) / d) \<le> rnd (of_int 1 * 2 powi 63)"
    using a assms(3) by (intro rnd_mono) auto
  also have "\<dots> = 2 ^ 63" using rnd_multiple [of 1 63] by simp
  finally have b: "rnd (rnd (of_int k) / d) \<le> 2 ^ 63" .
  have "f_of_int k = Finite False (rnd (of_int k))" using a assms(1) by (simp add: f_of_int_def fl_pos)
  with a b assms(3) show ?thesis by (simp add: fval_def fl_pos)
qed

lemma usage_percent:
  assumes "0 \<le> u" "u \<le> t" "t < 2 ^ 63" "1 \<le> d"
    and "\<not> f_is_zero (f_div (f_of_int t) (Finite False d))"
  shows "0 \<le> percent_of (f_div (f_of_int u) (Finite False d)) (f_div (f_of_int t) (Finite False d)) \<and>
    percent_of (f_div (f_of_int u) (Finite False d)) (f_div (f_of_int t) (Finite False d)) \<le> 100"
proof -
  define a b where "a = rnd (rnd (of_int u) / d)" and "b = rnd (rnd (of_int t) / d)"
  have u: "0 \<le> rnd (of_int u)" using rnd_int64 [of u] assms by simp
  have "rnd (of_int u) \<le> rnd (of_int t)" using assms by (intro rnd_mono) auto
  then have ab: "0 \<le> a" "a \<le> b"
    using u assms(4) unfolding a_def b_def by (auto intro!: rnd_nonneg rnd_mono divide_right_mono)
  have f: "f_div (f_of_int u) (Finite False d) = Finite False a" "f_div (f_of_int t) (Finite False d) = Finite False b"
    unfolding a_def b_def using assms by (auto intro!: scaled_int)
  with assms(5) ab have "0 < b" by auto
  with ab show ?thesis unfolding f by (intro percent_bounds)
qed

definition usage_field_ok :: "Field \<Rightarrow> bool" where
  "usage_field_ok f \<longleftrightarrow>
     (case f_percent f of
        None \<Rightarrow> f_highlight f = []
      | Some p \<Rightarrow> 0 \<le> p \<and> p \<le> 100 \<and>
          f_highlight f = (if p < 75 then [] else if p < 90 then ''warn'' else ''danger''))"

lemma formatCPU_ok:
  assumes "0 \<le> ql_milli ql u" "ql_milli ql u \<le> ql_milli ql t" "ql_milli ql t < 2 ^ 63"
  shows "usage_field_ok (pct_field l v (snd (formatCPU ql u t)))"
  using usage_percent [OF assms, of 1000] f_of_int_small [of 1000]
  by (auto simp: formatCPU_def Let_def usage_field_ok_def pct_field_def usageHighlight_def)

lemma formatMemory_ok:
  assumes "0 \<le> ql_value ql u" "ql_value ql u \<le> ql_value ql t" "ql_value ql t < 2 ^ 63"
  shows "usage_field_ok (pct_field l v (snd (formatMemory ql u t)))"
  using usage_percent [OF assms, of "1024 * 1024 * 1024"]
  by (auto simp: formatMemory_def Let_def bytesPerGiB_def usage_field_ok_def pct_field_def usageHighlight_def)

text \<open>
  When the nodes use no more than they have, the cluster usage of the header is a percentage from 0
  to 100 despite the roundings of the floating-point arithmetic, its colour is the one of its range, and
  without a known capacity there is neither a bar nor a colour.
\<close>

theorem cluster_usage_bounded:
  assumes "nl_metrics cluster = Inr usage" "nl_nodes cluster = Inr alloc"
    and "0 \<le> ql_milli ql (sum_resource ql ''cpu'' usage)"
    and "ql_milli ql (sum_resource ql ''cpu'' usage) \<le> ql_milli ql (sum_resource ql ''cpu'' alloc)"
    and "ql_milli ql (sum_resource ql ''cpu'' alloc) < 2 ^ 63"
    and "0 \<le> ql_value ql (sum_resource ql ''memory'' usage)"
    and "ql_value ql (sum_resource ql ''memory'' usage) \<le> ql_value ql (sum_resource ql ''memory'' alloc)"
    and "ql_value ql (sum_resource ql ''memory'' alloc) < 2 ^ 63"
    and "kubeMetrics_PollCluster web ql cluster cfg = Inr flds"
  shows "length flds = 2 \<and> list_all usage_field_ok flds"
proof -
  obtain cv cp where c: "formatCPU ql (sum_resource ql ''cpu'' usage) (sum_resource ql ''cpu'' alloc) = (cv, cp)"
    by fastforce
  obtain mv mp where m: "formatMemory ql (sum_resource ql ''memory'' usage) (sum_resource ql ''memory'' alloc) = (mv, mp)"
    by fastforce
  obtain cl ml where "flds = [pct_field cl cv cp, pct_field ml mv mp]"
    using assms(1,2,9) c m by (auto simp: kubeMetrics_PollCluster_def split: option.splits prod.splits)
  then show ?thesis
    using formatCPU_ok [OF assms(3-5), of cl cv] formatMemory_ok [OF assms(6-8), of ml mv] c m by simp
qed
end
