(* ===== verification/Widgets_Generic.thy ===== *)
theory Widgets_Generic
  imports Widgets_Header
begin

text \<open>
  The configurable widgets: \<^verbatim>\<open>customapi.go\<close> (JSON paths into any endpoint), \<^verbatim>\<open>prometheusmetric.go\<close>
  (one PromQL query) and \<^verbatim>\<open>iframe.go\<close> (an embed that is not polled) of \<^verbatim>\<open>internal/dashboard\<close>.
  Besides the poll laws: a JSON path never leaves the value it walks, and following it is walking its
  segments one by one.
\<close>

section \<open>customapi\<close>

text \<open>A value decoded into \<^verbatim>\<open>any\<close>: every number must be a \<^verbatim>\<open>float64\<close>.\<close>

fun any_ok :: "json \<Rightarrow> bool" where
  "any_ok (JNum n) \<longleftrightarrow> ParseFloat n \<noteq> None"
| "any_ok (JArr js) \<longleftrightarrow> list_all any_ok js"
| "any_ok (JObj kvs) \<longleftrightarrow> list_all (\<lambda>kv. any_ok (snd kv)) kvs"
| "any_ok _ \<longleftrightarrow> True"

definition dec_any :: "json decoder" where
  "dec_any j old = (any_ok j, j)"

record customAPIFieldConfig =
  cm_label :: string
  cm_jsonpath :: string
  cm_suffix :: string

definition dec_mappings :: "customAPIFieldConfig list decoder" where
  "dec_mappings = dec_obj [(''mappings'', dec_arr (dec_obj
     [(''label'', fld cm_label cm_label_update dec_str), (''jsonpath'', fld cm_jsonpath cm_jsonpath_update dec_str),
      (''suffix'', fld cm_suffix cm_suffix_update dec_str)])
     \<lparr>cm_label = [], cm_jsonpath = [], cm_suffix = []\<rparr>)]"

fun split_dots :: "string \<Rightarrow> string list" where
  "split_dots [] = [[]]"
| "split_dots (c # s) =
     (if c = CHR ''.'' then [] # split_dots s
      else case split_dots s of seg # segs \<Rightarrow> (c # seg) # segs | [] \<Rightarrow> [[c]])"

text \<open>A step into a value; of a repeated member the last one counts.\<close>

fun json_step :: "json \<Rightarrow> string \<Rightarrow> json option" where
  "json_step (JObj kvs) seg = map_of (rev kvs) seg"
| "json_step (JArr js) seg =
     (case atoi seg of
        None \<Rightarrow> None
      | Some i \<Rightarrow> if i < 0 \<or> int (length js) \<le> i then None else Some (js ! nat i))"
| "json_step _ seg = None"

fun walk_path :: "json \<Rightarrow> string list \<Rightarrow> json option" where
  "walk_path v [] = Some v"
| "walk_path v (seg # segs) =
     (if seg = [] then walk_path v segs
      else case json_step v seg of None \<Rightarrow> None | Some v \<Rightarrow> walk_path v segs)"

definition jsonPathLookup :: "json \<Rightarrow> string \<Rightarrow> json option" where
  "jsonPathLookup v path = walk_path v (split_dots path)"

fun formatJSONValue :: "web \<Rightarrow> json \<Rightarrow> string" where
  "formatJSONValue web (JStr s) = s"
| "formatJSONValue web (JNum n) = (case ParseFloat n of Some f \<Rightarrow> format_shortest f | None \<Rightarrow> n)"
| "formatJSONValue web (JBool b) = (if b then ''true'' else ''false'')"
| "formatJSONValue web JNull = []"
| "formatJSONValue web v = wb_encode web v"

definition usable_mapping :: "customAPIFieldConfig \<Rightarrow> bool" where
  "usable_mapping m \<longleftrightarrow> cm_label m \<noteq> [] \<and> cm_jsonpath m \<noteq> []"

definition mapped_field :: "web \<Rightarrow> json \<Rightarrow> customAPIFieldConfig \<Rightarrow> Field" where
  "mapped_field web v m =
     (case jsonPathLookup v (cm_jsonpath m) of
        None \<Rightarrow> field (cm_label m) statusUnknown
      | Some v \<Rightarrow> field (cm_label m) (formatJSONValue web v @ cm_suffix m))"

definition bearer :: "WidgetConfig \<Rightarrow> http_request \<Rightarrow> http_request" where
  "bearer cfg r =
     (let token = gstr (wc_secrets cfg) ''token''
      in if token \<noteq> [] then with_header ''Authorization'' (''Bearer '' @ token) r else r)"

definition customAPI_Poll :: "web \<Rightarrow> http_client \<Rightarrow> WidgetConfig \<Rightarrow> Field list fetch" where
  "customAPI_Poll web c cfg =
     require (wc_url cfg \<noteq> []) ''customapi widget: url is required''
       (require (wc_config cfg \<noteq> None) ''customapi widget: config.mappings is required''
         (andThen (decode_config web cfg dec_mappings []) (\<lambda>mappings.
          require (mappings \<noteq> []) ''customapi widget: config.mappings must not be empty''
            (andThen (new_request web ''building request'' ''GET'' (wc_url cfg) []) (\<lambda>r.
             andThen (doJSONRequest web c (bearer cfg r) dec_any JNull) (\<lambda>body.
             got (map (mapped_field web body) (filter usable_mapping mappings))))))))"

definition customAPI_Sample :: "WidgetConfig \<Rightarrow> Field list" where
  "customAPI_Sample cfg =
     (let fallback = [field ''Value'' ''42''] in
      case wc_config cfg of
        None \<Rightarrow> fallback
      | Some j \<Rightarrow>
          (case dec_mappings j [] of
             (False, _) \<Rightarrow> fallback
           | (True, mappings) \<Rightarrow>
               if filter usable_mapping mappings = [] then fallback
               else map (\<lambda>m. field (cm_label m) (''42'' @ cm_suffix m)) (filter usable_mapping mappings)))"

section \<open>prometheusmetric\<close>

record prometheusMetricConfig =
  pm_query :: string
  pm_label :: string
  pm_empty_value :: string

definition zero_metric :: prometheusMetricConfig where
  "zero_metric = \<lparr>pm_query = [], pm_label = [], pm_empty_value = []\<rparr>"

definition dec_metric :: "prometheusMetricConfig decoder" where
  "dec_metric = dec_obj
     [(''query'', fld pm_query pm_query_update dec_str), (''label'', fld pm_label pm_label_update dec_str),
      (''emptyValue'', fld pm_empty_value pm_empty_value_update dec_str)]"

text \<open>The second element of a \<^verbatim>\<open>[2]any\<close>; a shorter array leaves it nil.\<close>

fun dec_second :: "json decoder" where
  "dec_second JNull old = (True, old)"
| "dec_second (JArr js) old =
     (list_all any_ok (take 2 js), case js of _ # v # _ \<Rightarrow> v | _ \<Rightarrow> JNull)"
| "dec_second _ old = (False, old)"

definition metric_value :: "prometheusMetricConfig \<Rightarrow> json list \<Rightarrow> string" where
  "metric_value m results =
     (case results of
        [] \<Rightarrow> or_str (pm_empty_value m) statusUnknown
      | JStr raw # _ \<Rightarrow> (case ParseFloat raw of Some f \<Rightarrow> format_shortest f | None \<Rightarrow> raw)
      | _ \<Rightarrow> statusUnknown)"

definition prometheusMetric_Poll :: "web \<Rightarrow> http_client \<Rightarrow> WidgetConfig \<Rightarrow> Field list fetch" where
  "prometheusMetric_Poll web c cfg =
     require (wc_url cfg \<noteq> []) ''prometheusmetric widget: url is required''
       (let e = ''prometheusmetric widget: config.query is required'' in
        require (wc_config cfg \<noteq> None) e
          (andThen (decode_config web cfg dec_metric zero_metric) (\<lambda>m.
           require (pm_query m \<noteq> []) e
             (andThen (fetchJSON web c cfg ''prometheusmetric'' (''/api/v1/query?query='' @ query_escape (pm_query m)) []
                (dec_obj [(''status'', \<lambda>j rs. (fst (dec_str j []), rs)),
                          (''data'', dec_obj [(''result'', dec_arr (dec_obj [(''value'', dec_second)]) JNull)])]) [])
                (\<lambda>results.
              got [field (or_str (pm_label m) ''Value'') (metric_value m results)])))))"

definition prometheusMetric_Sample :: "WidgetConfig \<Rightarrow> Field list" where
  "prometheusMetric_Sample cfg =
     (let label = (case wc_config cfg of
           None \<Rightarrow> ''Value''
         | Some j \<Rightarrow> (case dec_metric j zero_metric of
             (True, m) \<Rightarrow> or_str (pm_label m) ''Value''
           | (False, _) \<Rightarrow> ''Value''))
      in [field label ''42''])"

section \<open>iframe\<close>

definition iframe_height_of :: "WidgetConfig \<Rightarrow> bool \<times> string" where
  "iframe_height_of cfg =
     (case wc_config cfg of
        None \<Rightarrow> (True, ''300px'')
      | Some j \<Rightarrow> (case dec_obj [(''height'', dec_str)] j [] of (ok, h) \<Rightarrow> (ok, or_str h ''300px'')))"

definition iframe_Poll :: "web \<Rightarrow> http_client \<Rightarrow> WidgetConfig \<Rightarrow> Field list fetch" where
  "iframe_Poll web c cfg =
     require (wc_url cfg \<noteq> []) ''iframe widget: url is required''
       (require (isHTTPURL (wc_url cfg)) ''iframe widget: url must be http:// or https://''
         (andThen (decode_config web cfg (dec_obj [(''height'', dec_str)]) []) (\<lambda>h.
          got [field ''iframeSrc'' (wc_url cfg), field ''iframeHeight'' (or_str h ''300px'')])))"

definition iframe_Sample :: "WidgetConfig \<Rightarrow> Field list" where
  "iframe_Sample cfg =
     [field ''iframeSrc''
        (if wc_url cfg = [] \<or> \<not> isHTTPURL (wc_url cfg) then ''https://example.invalid/embed'' else wc_url cfg),
      field ''iframeHeight'' (case iframe_height_of cfg of (True, h) \<Rightarrow> h | (False, _) \<Rightarrow> ''300px'')]"

section \<open>The laws hold\<close>

context poll_law
begin

lemma holds_customAPI: "client_ok c \<Longrightarrow> url_ok (wc_url cfg) \<Longrightarrow> holds (customAPI_Poll web c cfg)"
  unfolding customAPI_Poll_def
  by (intro holds_require holds_bind [OF holds_decode_config] holds_andThen [OF holds_new_request]
      holds_bind [OF holds_doJSONRequest] holds_got)
    (auto simp: bearer_def Let_def with_header_def)

lemma holds_prometheusMetric:
  "client_ok c \<Longrightarrow> serves (wc_url cfg) \<Longrightarrow> holds (prometheusMetric_Poll web c cfg)"
  by (auto simp: prometheusMetric_Poll_def Let_def intro!: poll_rules)

lemma holds_iframe: "holds (iframe_Poll web c cfg)"
  by (auto simp: iframe_Poll_def intro!: poll_rules)

end

section \<open>JSON paths\<close>

text \<open>The values inside a value.\<close>

inductive inside :: "json \<Rightarrow> json \<Rightarrow> bool" where
  inside_refl: "inside v v"
| inside_arr: "inside v w \<Longrightarrow> w \<in> set js \<Longrightarrow> inside v (JArr js)"
| inside_obj: "inside v w \<Longrightarrow> (k, w) \<in> set kvs \<Longrightarrow> inside v (JObj kvs)"

lemma inside_step: "json_step v seg = Some w \<Longrightarrow> inside u w \<Longrightarrow> inside u v"
proof (cases v)
  case (JArr js)
  assume "json_step v seg = Some w" "inside u w"
  with JArr show ?thesis by (auto split: option.splits if_splits intro!: inside_arr [of u w] nth_mem)
next
  case (JObj kvs)
  assume a: "json_step v seg = Some w" "inside u w"
  with JObj have "(seg, w) \<in> set (rev kvs)" using map_of_SomeD by fastforce
  with JObj a show ?thesis by (auto intro: inside_obj)
qed auto

lemma walk_path_inside: "walk_path v segs = Some w \<Longrightarrow> inside w v"
proof (induction segs arbitrary: v)
  case (Cons seg segs)
  then show ?case by (auto intro: inside_step split: if_splits option.splits)
qed (simp add: inside_refl)

lemma walk_path_append:
  "walk_path v (xs @ ys) = (case walk_path v xs of None \<Rightarrow> None | Some w \<Rightarrow> walk_path w ys)"
  by (induction v xs rule: walk_path.induct) (auto split: option.splits)

lemma split_dots_nonempty: "split_dots s \<noteq> []"
  by (induction s) (auto split: list.splits)

lemma split_dots_join: "split_dots (a @ CHR ''.'' # b) = split_dots a @ split_dots b"
proof (induction a)
  case (Cons c a)
  show ?case
  proof (cases "c = CHR ''.''")
    case False
    obtain seg segs where "split_dots a = seg # segs" using split_dots_nonempty [of a] by (cases "split_dots a") auto
    with False Cons show ?thesis by simp
  qed (use Cons in simp)
qed simp

text \<open>A dotted path is its parts, one after the other.\<close>

theorem jsonPathLookup_compose:
  "jsonPathLookup v (a @ CHR ''.'' # b) =
     (case jsonPathLookup v a of None \<Rightarrow> None | Some w \<Rightarrow> jsonPathLookup w b)"
  by (simp add: jsonPathLookup_def split_dots_join walk_path_append split: option.split)

lemma jsonPathLookup_inside: "jsonPathLookup v path = Some w \<Longrightarrow> inside w v"
  unfolding jsonPathLookup_def by (rule walk_path_inside)
end
