(* ===== verification/Truenas.thy ===== *)
theory Truenas
  imports Widgets_Network
begin

text \<open>
  The TrueNAS widget (\<^verbatim>\<open>internal/dashboard/truenas.go\<close>): JSON-RPC over a WebSocket, whose library
  is a parameter.  A connection is the list of frames sent and received so far.  Proved: a call
  returns only an answer with its own ID, and reads at most nine frames, whatever the server sends;
  a rejected key is told apart from an unreachable server.
\<close>

section \<open>The connection\<close>

datatype frame = Sent json | Received json

text \<open>
  \<open>ws_dial\<close> is the error of opening the connection; \<open>ws_write\<close> and \<open>ws_read\<close> may depend on all the
  frames before.  \<open>ws_parse_url\<close> and \<open>ws_print_url\<close> are \<^verbatim>\<open>url.Parse\<close> and \<^verbatim>\<open>URL.String\<close>.
\<close>

record url_parts =
  ur_scheme :: string
  ur_authority :: string
  ur_path :: string
  ur_raw_query :: string

record ws_lib =
  ws_parse_url :: "string \<Rightarrow> string + url_parts"
  ws_print_url :: "url_parts \<Rightarrow> string"
  ws_dial :: "http_client \<Rightarrow> int \<Rightarrow> string \<Rightarrow> string option"
  ws_write :: "frame list \<Rightarrow> json \<Rightarrow> string option"
  ws_read :: "frame list \<Rightarrow> string + json"

definition truenasWebSocketURL :: "ws_lib \<Rightarrow> string \<Rightarrow> string + string" where
  "truenasWebSocketURL ws rawURL =
     (case ws_parse_url ws (trim_slashes rawURL) of
        Inl e \<Rightarrow> Inl (''parsing url: '' @ e)
      | Inr u \<Rightarrow>
          let u = (if ur_scheme u = ''https'' then u\<lparr>ur_scheme := ''wss''\<rparr>
                   else if ur_scheme u = ''http'' then u\<lparr>ur_scheme := ''ws''\<rparr> else u)
          in Inr (ws_print_url ws (u\<lparr>ur_path := ''/api/current'', ur_raw_query := []\<rparr>)))"

section \<open>One call\<close>

record jsonrpcError =
  je_code :: int
  je_message :: string

record jsonrpcResponse =
  jr_id :: int
  jr_result :: "json option"
  jr_error :: "jsonrpcError option"

definition zero_response :: jsonrpcResponse where
  "zero_response = \<lparr>jr_id = 0, jr_result = None, jr_error = None\<rparr>"

definition dec_response :: "jsonrpcResponse decoder" where
  "dec_response = dec_obj
     [(''id'', fld jr_id jr_id_update dec_int),
      (''result'', fld jr_result jr_result_update (\<lambda>j _. (True, Some j))),
      (''error'', fld jr_error jr_error_update (dec_ptr (dec_obj
         [(''code'', fld je_code je_code_update dec_int), (''message'', fld je_message je_message_update dec_str)])
         \<lparr>je_code = 0, je_message = []\<rparr>))]"

definition jsonrpc_request :: "string \<Rightarrow> json list \<Rightarrow> int \<Rightarrow> json" where
  "jsonrpc_request meth params ident =
     JObj [(''jsonrpc'', JStr ''2.0''), (''method'', JStr meth), (''params'', JArr params), (''id'', JNum (fmt_int ident))]"

definition truenasMaxSkippedFrames :: nat where "truenasMaxSkippedFrames = 8"

text \<open>The loop: \<open>left\<close> frames may still be read.\<close>

fun read_reply :: "web \<Rightarrow> ws_lib \<Rightarrow> string \<Rightarrow> int \<Rightarrow> nat \<Rightarrow> frame list \<Rightarrow>
    (string + jsonrpcResponse) \<times> frame list" where
  "read_reply web ws meth ident 0 conn =
     (Inl (''reading '' @ meth @ '' response: no reply after '' @ fmt_nat truenasMaxSkippedFrames @
           '' unrelated frames''), conn)"
| "read_reply web ws meth ident (Suc left) conn =
     (case ws_read ws conn of
        Inl e \<Rightarrow> (Inl (''reading '' @ meth @ '' response: '' @ e), conn)
      | Inr j \<Rightarrow>
          let conn = conn @ [Received j] in
          (case dec_response j zero_response of
             (False, _) \<Rightarrow> (Inl (''reading '' @ meth @ '' response: '' @ wb_type_error web j), conn)
           | (True, resp) \<Rightarrow>
               if jr_id resp = ident then (Inr resp, conn)
               else read_reply web ws meth ident left conn))"

definition truenasCall :: "web \<Rightarrow> ws_lib \<Rightarrow> string \<Rightarrow> json list \<Rightarrow> int \<Rightarrow> 'a decoder \<Rightarrow> 'a \<Rightarrow> frame list \<Rightarrow>
    (string + 'a) \<times> frame list" where
  "truenasCall web ws meth params ident dec out conn =
     (let req = jsonrpc_request meth params ident in
      case ws_write ws conn req of
        Some e \<Rightarrow> (Inl (''writing '' @ meth @ '' request: '' @ e), conn)
      | None \<Rightarrow>
          (case read_reply web ws meth ident (Suc truenasMaxSkippedFrames) (conn @ [Sent req]) of
             (Inl e, conn) \<Rightarrow> (Inl e, conn)
           | (Inr resp, conn) \<Rightarrow>
               ((case jr_error resp of
                   Some e \<Rightarrow> Inl (meth @ '': jsonrpc error '' @ fmt_int (je_code e) @ '': '' @ je_message e)
                 | None \<Rightarrow>
                     (case jr_result resp of
                        None \<Rightarrow> Inl (''decoding '' @ meth @ '' result: unexpected end of JSON input'')
                      | Some j \<Rightarrow> (case dec j out of
                          (True, x) \<Rightarrow> Inr x
                        | (False, _) \<Rightarrow> Inl (''decoding '' @ meth @ '' result: '' @ wb_type_error web j)))), conn)))"

section \<open>The poll\<close>

record truenasSystemInfoResult =
  ts_uptime_seconds :: int
  ts_loadavg :: "float64 list"

definition truenas_fields :: "truenasSystemInfoResult \<Rightarrow> bool list \<Rightarrow> Field list" where
  "truenas_fields info alerts =
     [field ''Load'' (case ts_loadavg info of [] \<Rightarrow> ''0.00'' | l # _ \<Rightarrow> format_fixed 2 l),
      field ''Uptime'' (formatUptime (ts_uptime_seconds info)),
      int_field ''Alerts'' (int (length (filter Not alerts)))]"

definition truenasDefaultTimeout :: int where "truenasDefaultTimeout = 10"

text \<open>The three calls on an open connection.\<close>

definition truenas_session :: "web \<Rightarrow> ws_lib \<Rightarrow> string \<Rightarrow> string \<Rightarrow> Field list fetch" where
  "truenas_session web ws wsURL token =
     (let unreachable = (\<lambda>e msg. andThen (note_outcome (PollFailed wsURL (Some e) msg))
                                  (\<lambda>_. shown (status_field statusUnreach))) in
      case truenasCall web ws ''auth.login_with_api_key'' [JStr token] 1 dec_bool False [] of
        (Inl e, _) \<Rightarrow> unreachable e ''truenas login call failed''
      | (Inr False, _) \<Rightarrow>
          andThen (note_outcome (PollFailed wsURL None
            ''truenas rejected the API key: check secrets.token holds the full key''))
            (\<lambda>_. shown (status_field statusUnauth))
      | (Inr True, conn) \<Rightarrow>
          (case truenasCall web ws ''system.info'' [] 2
                (dec_obj [(''uptime_seconds'', fld ts_uptime_seconds ts_uptime_seconds_update dec_int),
                          (''loadavg'', fld ts_loadavg ts_loadavg_update (dec_arr dec_float f_zero))])
                \<lparr>ts_uptime_seconds = 0, ts_loadavg = []\<rparr> conn of
             (Inl e, _) \<Rightarrow> unreachable e ''truenas system.info call failed''
           | (Inr info, conn) \<Rightarrow>
               (case truenasCall web ws ''alert.list'' [] 3 (dec_arr (dec_obj [(''dismissed'', dec_bool)]) False) [] conn of
                  (Inl e, _) \<Rightarrow> unreachable e ''truenas alert.list call failed''
                | (Inr alerts, _) \<Rightarrow>
                    andThen (note_outcome (PollOk wsURL)) (\<lambda>_. got (truenas_fields info alerts)))))"

definition truenas_Poll :: "web \<Rightarrow> ws_lib \<Rightarrow> http_client \<Rightarrow> WidgetConfig \<Rightarrow> Field list fetch" where
  "truenas_Poll web ws c cfg =
     require (wc_url cfg \<noteq> []) ''truenas widget: url is required''
       (case truenasWebSocketURL ws (wc_url cfg) of
          Inl e \<Rightarrow> failed (''building websocket url: '' @ e)
        | Inr wsURL \<Rightarrow>
            let timeout = (if hc_timeout c \<le> 0 then truenasDefaultTimeout else hc_timeout c) in
            (case ws_dial ws c timeout wsURL of
               Some e \<Rightarrow> andThen (note_outcome (PollFailed wsURL (Some e) ''truenas websocket dial failed''))
                           (\<lambda>_. shown (status_field statusUnreach))
             | None \<Rightarrow> truenas_session web ws wsURL (gstr (wc_secrets cfg) ''token'')))"

definition truenas_Sample :: "WidgetConfig \<Rightarrow> Field list" where
  "truenas_Sample _ = [field ''Load'' ''0.42'', field ''Uptime'' (formatUptime 370000), field ''Alerts'' ''0'']"

section \<open>Properties\<close>

text \<open>The frame \<open>j\<close> is an answer to the call \<open>ident\<close>.\<close>

definition answers :: "int \<Rightarrow> frame \<Rightarrow> bool" where
  "answers ident f =
     (case f of Received j \<Rightarrow> (case dec_response j zero_response of (ok, resp) \<Rightarrow> ok \<and> jr_id resp = ident)
      | Sent _ \<Rightarrow> False)"

lemma read_reply_frames:
  "\<exists>skipped rest. snd (read_reply web ws meth ident left conn) = conn @ skipped @ rest \<and>
     length (skipped @ rest) \<le> left \<and> list_all (\<lambda>f. \<not> answers ident f) skipped \<and>
     (case fst (read_reply web ws meth ident left conn) of
        Inl _ \<Rightarrow> rest = []
      | Inr resp \<Rightarrow> jr_id resp = ident \<and>
          (\<exists>j. rest = [Received j] \<and> dec_response j zero_response = (True, resp)))"
proof (induction left arbitrary: conn)
  case (Suc left)
  show ?case
  proof (cases "ws_read ws conn")
    case (Inl e)
    then show ?thesis by simp
  next
    case (Inr j)
    obtain ok resp where d: "dec_response j zero_response = (ok, resp)" by fastforce
    consider "\<not> ok" | "ok" "jr_id resp = ident" | "ok" "jr_id resp \<noteq> ident" by blast
    then show ?thesis
    proof cases
      case 1
      then show ?thesis using Inr d
        by (intro exI [of _ "[Received j]"] exI [of _ "[]"]) (simp add: Let_def answers_def)
    next
      case 2
      then show ?thesis using Inr d
        by (intro exI [of _ "[]"] exI [of _ "[Received j]"]) (simp add: Let_def)
    next
      case 3
      obtain sk rest where IH: "snd (read_reply web ws meth ident left (conn @ [Received j])) =
            (conn @ [Received j]) @ sk @ rest"
          "length (sk @ rest) \<le> left" "list_all (\<lambda>f. \<not> answers ident f) sk"
          "case fst (read_reply web ws meth ident left (conn @ [Received j])) of
             Inl _ \<Rightarrow> rest = []
           | Inr resp \<Rightarrow> jr_id resp = ident \<and>
               (\<exists>j. rest = [Received j] \<and> dec_response j zero_response = (True, resp))"
        using Suc.IH [of "conn @ [Received j]"] by blast
      have r: "read_reply web ws meth ident (Suc left) conn = read_reply web ws meth ident left (conn @ [Received j])"
        using 3 Inr d by (simp add: Let_def)
      show ?thesis unfolding r using IH 3 d
        by (intro exI [of _ "Received j # sk"] exI [of _ rest]) (simp add: answers_def)
    qed
  qed
qed simp

text \<open>
  C37. A TrueNAS call always comes back after at most nine frames of the server: the frames it skips
  are not answers to it, and it returns a result only from a frame that carries its own ID and no
  error object.
\<close>

theorem truenas_call_answer:
  "\<exists>sent skipped rest.
     snd (truenasCall web ws meth params ident dec out conn) = conn @ sent @ skipped @ rest \<and>
     length (skipped @ rest) \<le> 9 \<and> list_all (\<lambda>f. \<not> answers ident f) skipped \<and>
     (case fst (truenasCall web ws meth params ident dec out conn) of
        Inl _ \<Rightarrow> True
      | Inr x \<Rightarrow> sent = [Sent (jsonrpc_request meth params ident)] \<and>
          (\<exists>j resp r. rest = [Received j] \<and> dec_response j zero_response = (True, resp) \<and>
             jr_id resp = ident \<and> jr_error resp = None \<and> jr_result resp = Some r \<and> dec r out = (True, x)))"
proof (cases "ws_write ws conn (jsonrpc_request meth params ident)")
  case None
  let ?sent = "[Sent (jsonrpc_request meth params ident)]"
  obtain r conn' where rr: "read_reply web ws meth ident (Suc truenasMaxSkippedFrames) (conn @ ?sent) = (r, conn')"
    by fastforce
  obtain sk rest where f: "conn' = (conn @ ?sent) @ sk @ rest" "length (sk @ rest) \<le> 9"
      "list_all (\<lambda>f. \<not> answers ident f) sk"
      "case r of Inl _ \<Rightarrow> rest = []
       | Inr resp \<Rightarrow> jr_id resp = ident \<and> (\<exists>j. rest = [Received j] \<and> dec_response j zero_response = (True, resp))"
    using read_reply_frames [of web ws meth ident "Suc truenasMaxSkippedFrames" "conn @ ?sent"]
    unfolding rr by (auto simp: truenasMaxSkippedFrames_def)
  have call: "truenasCall web ws meth params ident dec out conn =
      (case r of Inl e \<Rightarrow> (Inl e, conn')
       | Inr resp \<Rightarrow>
           ((case jr_error resp of
               Some e \<Rightarrow> Inl (meth @ '': jsonrpc error '' @ fmt_int (je_code e) @ '': '' @ je_message e)
             | None \<Rightarrow>
                 (case jr_result resp of
                    None \<Rightarrow> Inl (''decoding '' @ meth @ '' result: unexpected end of JSON input'')
                  | Some j \<Rightarrow> (case dec j out of
                      (True, x) \<Rightarrow> Inr x
                    | (False, _) \<Rightarrow> Inl (''decoding '' @ meth @ '' result: '' @ wb_type_error web j)))), conn'))"
    using None rr by (simp add: truenasCall_def Let_def del: read_reply.simps split: sum.split)
  show ?thesis
    by (rule exI [of _ ?sent], rule exI [of _ sk], rule exI [of _ rest])
      (use f in \<open>cases r; auto simp: call split: option.split prod.split bool.split\<close>)
next
  case (Some e)
  then show ?thesis by (intro exI [of _ "[]"]) (simp add: truenasCall_def Let_def)
qed

context poll_law
begin

lemma holds_truenas_session: "holds (truenas_session web ws url token)"
  by (auto simp: truenas_session_def Let_def
      intro!: poll_rules split: sum.split prod.split bool.split)

lemma holds_truenas: "holds (truenas_Poll web ws c cfg)"
  by (auto simp: truenas_Poll_def Let_def
      intro!: poll_rules holds_truenas_session split: sum.split option.split)

end

text \<open>A rejected key and an unreachable server are shown as different failures.\<close>

lemma truenas_unauthorized:
  "truenasCall web ws ''auth.login_with_api_key'' [JStr token] 1 dec_bool False [] = (Inr False, conn) \<Longrightarrow>
   fst (truenas_session web ws url token s) = Shown (status_field statusUnauth)"
  by (simp add: truenas_session_def Let_def andThen_def note_outcome_def shown_def)
end
