(* ===== verification/Registry.thy ===== *)
theory Registry
  imports Widgets_Generic Truenas
begin

text \<open>
  The registry of the widgets (\<^verbatim>\<open>Register\<close> in the \<^verbatim>\<open>init\<close> functions of
  \<^verbatim>\<open>internal/dashboard/*.go\<close>, in the order of the files): every integration as a \<open>Widget\<close> of the
  poller.  Here are the properties that hold of all of them: the registration does not panic;
  a poll that counts as successful had every request answered; requests stay on the configured URL
  and behind the dial guard; only two widgets can panic; and a sample has the layout of the poll.
\<close>

section \<open>The integrations\<close>

record 'q widget_env =
  we_web :: web
  we_net :: net_lib
  we_victim :: "http_client gomap \<Rightarrow> string"
  we_ws :: ws_lib
  we_quantities :: "'q quantity_lib"
  we_cluster :: "'q node_lists"

definition polls :: "'q widget_env \<Rightarrow> (string \<times> (http_client \<Rightarrow> WidgetConfig \<Rightarrow> Field list fetch)) list" where
  "polls env =
     (let web = we_web env; net = we_net env; victim = we_victim env in
      [(''adguard'', adguard_Poll web), (''argocd'', argocd_Poll web), (''cloudflared'', cloudflared_Poll web),
       (''customapi'', customAPI_Poll web), (''gatus'', gatus_Poll web), (''gitea'', gitea_Poll web),
       (''glances'', glances_Poll web), (''grafana'', grafana_Poll web), (''homeassistant'', homeassistant_Poll web),
       (''iframe'', iframe_Poll web), (''immich'', immich_Poll web), (''jellyfin'', jellyfin_Poll web),
       (''jellyseerr'', jellyseerr_Poll web), (''kubemetrics'', kubeMetrics_Poll),
       (''linkwarden'', linkwarden_Poll web), (''longhorn'', longhorn_Poll web), (''mealie'', mealie_Poll web),
       (''netdata'', netdata_Poll web), (''nextcloud'', nextcloud_Poll web), (''openmeteo'', openMeteo_Poll web),
       (''openweathermap'', openWeatherMap_Poll web), (''opnsense'', opnsense_Poll web),
       (''paperlessngx'', paperlessngx_Poll web), (''pihole'', pihole_Poll web), (''plex'', plex_Poll web),
       (''portainer'', portainer_Poll web), (''prometheus'', prometheus_Poll web),
       (''prometheusmetric'', prometheusMetric_Poll web), (''proxmox'', proxmox_Poll web net victim),
       (''radarr'', radarr_Poll web), (''sonarr'', sonarr_Poll web), (''speedtest'', speedtest_Poll web),
       (''stash'', stash_Poll web), (''tautulli'', tautulli_Poll web), (''truenas'', truenas_Poll web (we_ws env)),
       (''unifi'', unifi_Poll web net victim), (''uptime-kuma'', uptimeKuma_Poll web)])"

definition samples :: "web \<Rightarrow> (string \<times> (WidgetConfig \<Rightarrow> Field list)) list" where
  "samples web =
     [(''adguard'', adguard_Sample), (''argocd'', argocd_Sample), (''cloudflared'', cloudflared_Sample),
      (''customapi'', customAPI_Sample), (''gatus'', gatus_Sample), (''gitea'', gitea_Sample),
      (''glances'', glances_Sample), (''grafana'', grafana_Sample), (''homeassistant'', homeassistant_Sample),
      (''iframe'', iframe_Sample), (''immich'', immich_Sample), (''jellyfin'', jellyfin_Sample),
      (''jellyseerr'', jellyseerr_Sample), (''kubemetrics'', kubeMetrics_Sample web),
      (''linkwarden'', linkwarden_Sample), (''longhorn'', longhorn_Sample), (''mealie'', mealie_Sample),
      (''netdata'', netdata_Sample), (''nextcloud'', nextcloud_Sample), (''openmeteo'', openMeteo_Sample),
      (''openweathermap'', openWeatherMap_Sample), (''opnsense'', opnsense_Sample),
      (''paperlessngx'', paperlessngx_Sample), (''pihole'', pihole_Sample), (''plex'', plex_Sample),
      (''portainer'', portainer_Sample), (''prometheus'', prometheus_Sample),
      (''prometheusmetric'', prometheusMetric_Sample), (''proxmox'', proxmox_Sample),
      (''radarr'', radarr_Sample), (''sonarr'', sonarr_Sample), (''speedtest'', speedtest_Sample),
      (''stash'', stash_Sample), (''tautulli'', tautulli_Sample), (''truenas'', truenas_Sample),
      (''unifi'', unifi_Sample), (''uptime-kuma'', uptimeKuma_Sample)]"

text \<open>
  What the poller sees of a poll.  A panic would end the process; to a caller it is like an error.
  The poller's view of a widget starts every poll without a history of requests.
\<close>

definition poll_result :: "Field list fetched \<Rightarrow> string + Field list" where
  "poll_result r =
     (case r of Got flds \<Rightarrow> Inr flds | Shown flds \<Rightarrow> Inr flds | Failed e \<Rightarrow> Inl e
      | Crashed e \<Rightarrow> Inl (''panic: '' @ e))"

definition idle :: fetch_state where
  "idle = \<lparr>fs_exchanges = [], fs_outcomes = [], fs_unifi_clients = [], fs_proxmox_clients = []\<rparr>"

definition integration :: "'q widget_env \<Rightarrow> string \<Rightarrow> (http_client \<Rightarrow> WidgetConfig \<Rightarrow> Field list fetch) \<Rightarrow>
    (WidgetConfig \<Rightarrow> Field list) option \<Rightarrow> Widget" where
  "integration env ty poll sample =
     \<lparr>w_poll = (\<lambda>c cfg. poll_result (fst (poll c cfg idle))),
      w_poll_cluster = (if ty = ''kubemetrics''
        then Some (\<lambda>_ cfg. kubeMetrics_PollCluster (we_web env) (we_quantities env) (we_cluster env) cfg) else None),
      w_sample = sample\<rparr>"

definition integrations :: "'q widget_env \<Rightarrow> (string \<times> Widget) list" where
  "integrations env =
     map (\<lambda>(ty, poll). (ty, integration env ty poll (map_of (samples (we_web env)) ty))) (polls env)"

fun register_all :: "(string \<times> Widget) list \<Rightarrow> Widget gomap \<Rightarrow> string + Widget gomap" where
  "register_all [] reg = Inr reg"
| "register_all ((ty, w) # ws) reg =
     (case Register ty w reg of Inl e \<Rightarrow> Inl e | Inr reg \<Rightarrow> register_all ws reg)"

section \<open>Registration\<close>

lemma register_all_fresh:
  "distinct (map fst ws) \<Longrightarrow> fst ` set ws \<inter> fst ` set reg = {} \<Longrightarrow> register_all ws reg = Inr (reg @ ws)"
proof (induction ws reg rule: register_all.induct)
  case (2 ty w ws reg)
  then have n: "ty \<notin> fst ` set reg" by auto
  then have r: "Register ty w reg = Inr (reg @ [(ty, w)])"
    by (simp add: Register_def gget_def gput_fresh map_of_eq_None_iff)
  show ?case using 2 by (auto simp: r)
qed simp

lemma poll_types: "map fst (polls env) = map fst (samples web)"
  by (simp add: polls_def samples_def Let_def)

lemma poll_types_distinct: "distinct (map fst (polls env))"
  by (simp add: polls_def Let_def)

lemma integration_types: "map fst (integrations env) = map fst (polls env)"
  by (simp add: integrations_def case_prod_unfold comp_def)

section \<open>The laws hold of every integration\<close>

text \<open>Where a widget's requests go: two weather services and Cloudflare have a default.\<close>

definition base_url :: "string \<Rightarrow> WidgetConfig \<Rightarrow> string" where
  "base_url ty cfg =
     (if ty = ''cloudflared'' then or_str (wc_url cfg) cloudflaredAPIBase
      else if ty = ''openmeteo'' then or_str (wc_url cfg) openMeteoDefaultBase
      else if ty = ''openweathermap'' then or_str (wc_url cfg) openWeatherMapDefaultBase
      else wc_url cfg)"

definition may_panic :: "string \<Rightarrow> bool" where
  "may_panic ty \<longleftrightarrow> ty = ''opnsense'' \<or> ty = ''stash''"

definition best_effort :: "string \<Rightarrow> bool" where
  "best_effort ty \<longleftrightarrow> ty = ''gitea'' \<or> ty = ''grafana''"

text \<open>The two types with an \<^verbatim>\<open>insecureTLS\<close> setting, when it is on.\<close>

definition skips_checks :: "string \<Rightarrow> WidgetConfig \<Rightarrow> bool" where
  "skips_checks ty cfg \<longleftrightarrow>
     ty = ''unifi'' \<and> un_insecure_tls (decoded_config cfg dec_unifi zero_unifi) \<or>
     ty = ''proxmox'' \<and> px_insecure_tls (decoded_config cfg dec_proxmox zero_proxmox)"

context poll_law
begin

lemmas holds_polls = holds_adguard holds_argocd holds_cloudflared holds_customAPI holds_gatus holds_glances
  holds_homeassistant holds_iframe holds_immich holds_jellyfin holds_jellyseerr holds_kubeMetrics
  holds_linkwarden holds_longhorn holds_mealie holds_netdata holds_nextcloud holds_openMeteo
  holds_openWeatherMap holds_opnsense holds_paperlessngx holds_pihole holds_plex holds_portainer
  holds_prometheus holds_prometheusMetric holds_proxmox holds_radarr holds_sonarr holds_speedtest
  holds_stash holds_tautulli holds_truenas holds_unifi holds_uptimeKuma

lemma holds_integration:
  assumes "(ty, poll) \<in> set (polls env)" "we_net env = net" "client_ok c"
    and "serves (base_url ty cfg)" "url_ok (base_url ty cfg)"
    and "\<not> best_effort ty" "may_panic ty \<Longrightarrow> \<forall>e. may_crash e" "skips_checks ty cfg \<Longrightarrow> lax"
  shows "holds (poll c cfg)"
proof -
  have "list_all (\<lambda>(ty, poll). serves (base_url ty cfg) \<longrightarrow> url_ok (base_url ty cfg) \<longrightarrow> \<not> best_effort ty \<longrightarrow>
      (skips_checks ty cfg \<longrightarrow> lax) \<longrightarrow> (may_panic ty \<longrightarrow> (\<forall>e. may_crash e)) \<longrightarrow> holds (poll c cfg)) (polls env)"
    unfolding polls_def Let_def
    by (simp add: base_url_def best_effort_def may_panic_def skips_checks_def holds_polls assms(2,3))
  with assms show ?thesis by (fastforce simp: list_all_iff)
qed

end

context lenient_law
begin

lemma holds_lenient_integration:
  assumes "(ty, poll) \<in> set (polls env)" "we_net env = net" "client_ok c"
    and "serves (base_url ty cfg)" "url_ok (base_url ty cfg)" "may_panic ty \<Longrightarrow> \<forall>e. may_crash e"
    and "skips_checks ty cfg \<Longrightarrow> lax"
  shows "holds (poll c cfg)"
proof (cases "best_effort ty")
  case True
  have "list_all (\<lambda>(ty, poll). serves (base_url ty cfg) \<longrightarrow> best_effort ty \<longrightarrow> holds (poll c cfg)) (polls env)"
    unfolding polls_def Let_def
    by (simp add: base_url_def best_effort_def holds_gitea holds_grafana assms(3))
  with True assms show ?thesis by (fastforce simp: list_all_iff)
next
  case False
  show ?thesis by (rule holds_integration [OF assms(1-5) False assms(6,7)])
qed

end

section \<open>What follows for the poller\<close>

text \<open>
  C30. A poll that the metrics count as a success had every one of its requests answered with status
  200: the convention of showing a failure as a field of the card hides no failure.  The exceptions are
  gitea and grafana, whose polls survive a failed request by design.
\<close>

theorem successful_poll_answered:
  assumes "(ty, poll) \<in> set (polls env)" "\<not> best_effort ty"
    and "metricErr (poll_result (fst (poll c cfg s))) = None"
  shows "\<exists>xs. fs_exchanges (snd (poll c cfg s)) = fs_exchanges s @ xs \<and> list_all answered xs"
proof -
  have "strict.holds (\<lambda>_. True) (poll c cfg)"
    by (rule strict.holds_integration [OF assms(1)])
      (use assms(2) in \<open>auto simp: strict.serves_def\<close>)
  then have r: "strict.ran (goes_on (fst (poll c cfg s))) s (snd (poll c cfg s))"
      "strict.ends_well (\<lambda>_. True) (fst (poll c cfg s))"
    by (auto simp: strict.holds_for_def strict.caches_ok_def)
  have "goes_on (fst (poll c cfg s))"
    using r(2) assms(3) by (cases "fst (poll c cfg s)") (auto simp: poll_result_def metricErr_def)
  with r(1) show ?thesis by (auto simp: strict.ran_def all_answered_def)
qed

lemma guarded_holds:
  assumes "(ty, poll) \<in> set (polls env)" "guarded (we_net env) (hc_transport c)"
  shows "guard.holds (we_net env) (poll c cfg)"
  by (rule guard.holds_lenient_integration [OF assms(1) refl assms(2)]) (simp_all add: serves_any)

text \<open>
  C31. Whatever the upstream answers and however many requests a poll makes, each one that it hands to its
  HTTP client is for the URL the widget is configured with, or else its service's default, or for a path
  below it, and the client's transport has the dial guard, also where certificate checks are switched
  off.  Not among these requests are the redirects that the client follows by itself, to any host but over
  the same guarded transport, and the websocket of truenas.
\<close>

theorem polls_confined:
  assumes "(ty, poll) \<in> set (polls env)" "guarded (we_net env) (hc_transport c)"
    and "guarded_clients (we_net env) (fs_unifi_clients s)"
    and "guarded_clients (we_net env) (fs_proxmox_clients s)"
  shows "\<exists>xs. fs_exchanges (snd (poll c cfg s)) = fs_exchanges s @ xs \<and>
    all_below (base_url ty cfg) xs \<and> all_guarded (we_net env) xs \<and>
    guarded_clients (we_net env) (fs_unifi_clients (snd (poll c cfg s))) \<and>
    guarded_clients (we_net env) (fs_proxmox_clients (snd (poll c cfg s)))"
proof -
  have "confined.holds (base_url ty cfg) (poll c cfg)"
    by (rule confined.holds_lenient_integration [OF assms(1) refl])
      (simp_all add: confined_serves below_def)
  then have 1: "confined.ran (base_url ty cfg) (goes_on (fst (poll c cfg s))) s (snd (poll c cfg s))"
    by (simp add: confined.holds_for_def confined.caches_ok_def)
  have "guard.ran (we_net env) (goes_on (fst (poll c cfg s))) s (snd (poll c cfg s))"
    using guarded_holds [OF assms(1,2)] assms(3,4)
    by (simp add: guard.holds_for_def guard.caches_ok_def)
  with 1 show ?thesis by (auto simp: confined.ran_def guard.ran_def guard.caches_ok_def)
qed

text \<open>
  C22. With a CA certificate every request of a poll is sent over a transport that trusts a bundle with
  that certificate's hash, checks certificates and has the metadata guard, or the widget is not polled at
  all: no error, and no cached client, puts it on another trust store.  The exceptions are unifi and
  proxmox widgets whose settings turn \<^verbatim>\<open>insecureTLS\<close> on, which discard the client with the certificate;
  the websocket of truenas is not among these requests.
\<close>

theorem ca_cert_never_downgraded:
  assumes "ca_coherent lib st"
    and "httpClientForCACert lib rd namespace (Some src) base st = (Inr c, st')"
    and "(ty, poll) \<in> set (polls env)" "\<not> skips_checks ty cfg"
  shows "\<exists>pem pem' xs. resolveSecret rd namespace src = Inr pem \<and> cl_sha256 lib pem' = cl_sha256 lib pem \<and>
    xl_parse_pem (cl_x509 lib) pem' \<noteq> [] \<and> fs_exchanges (snd (poll c cfg s)) = fs_exchanges s @ xs \<and>
    list_all (\<lambda>(sender, _, _). tr_root_cas (hc_transport sender) =
        Some ((case xl_system_pool (cl_x509 lib) of None \<Rightarrow> [] | Some p \<Rightarrow> p) @ xl_parse_pem (cl_x509 lib) pem') \<and>
      \<not> tr_insecure (hc_transport sender) \<and> guarded (cl_net lib) (hc_transport sender)) xs \<and> ca_coherent lib st'"
proof -
  have "trusting.holds (hc_transport c) (poll c cfg)"
    by (rule trusting.holds_lenient_integration [OF assms(3) refl])
      (use assms(4) in \<open>simp_all add: trusting.serves_def\<close>)
  then obtain xs where xs: "fs_exchanges (snd (poll c cfg s)) = fs_exchanges s @ xs" "all_over (hc_transport c) xs"
    by (auto simp: trusting.holds_for_def trusting.caches_ok_def trusting.ran_def)
  obtain pem pem' where pem: "resolveSecret rd namespace src = Inr pem" "cl_sha256 lib pem' = cl_sha256 lib pem"
      "xl_parse_pem (cl_x509 lib) pem' \<noteq> []" "ca_coherent lib st'"
    and c: "tr_root_cas (hc_transport c) =
        Some ((case xl_system_pool (cl_x509 lib) of None \<Rightarrow> [] | Some p \<Rightarrow> p) @ xl_parse_pem (cl_x509 lib) pem')"
      "\<not> tr_insecure (hc_transport c)" "guarded (cl_net lib) (hc_transport c)"
    using ca_client_trusts [OF assms(1,2)] by blast
  have "list_all (\<lambda>(sender, _, _). tr_root_cas (hc_transport sender) =
        Some ((case xl_system_pool (cl_x509 lib) of None \<Rightarrow> [] | Some p \<Rightarrow> p) @ xl_parse_pem (cl_x509 lib) pem') \<and>
      \<not> tr_insecure (hc_transport sender) \<and> guarded (cl_net lib) (hc_transport sender)) xs"
    using xs(2) c by (auto simp: all_over_def list_all_iff)
  with pem xs(1) show ?thesis by blast
qed

text \<open>The exceptions: the client with the certificate is replaced by one that checks nothing.\<close>

lemma insecure_tls_discards_ca:
  assumes "gget (fs_unifi_clients s) base = None"
  shows "\<exists>c'. fst (unifiHTTPClient net victim c base True s) = Got c' \<and>
    tr_root_cas (hc_transport c') = None \<and> tr_insecure (hc_transport c')"
  using assms by (auto simp: unifiHTTPClient_def getOrCreate_def insecure_client_def Let_def split: prod.splits)

text \<open>
  C35. No answer of an upstream makes a poll panic, except with the two widgets that print byte
  counts with \<^verbatim>\<open>formatBytesHumanized\<close>.
\<close>

theorem only_byte_counts_panic:
  assumes "(ty, poll) \<in> set (polls env)" "fst (poll c cfg s) = Crashed e"
  shows "ty = ''opnsense'' \<or> ty = ''stash''"
proof -
  have "ending.holds (\<lambda>_. may_panic ty) (poll c cfg)"
    by (rule ending.holds_lenient_integration [OF assms(1) refl]) (simp_all add: ending.serves_def)
  then have "ending.ends_well (\<lambda>_. may_panic ty) (fst (poll c cfg s))"
    by (simp add: ending.holds_for_def ending.caches_ok_def)
  with assms(2) show ?thesis by (simp add: may_panic_def)
qed

section \<open>The registry and the API\<close>

text \<open>The types that the custom resource definitions admit.\<close>

definition service_widget_types :: "string list" where
  "service_widget_types =
     [''plex'', ''stash'', ''paperlessngx'', ''grafana'', ''prometheus'', ''prometheusmetric'', ''unifi'',
      ''truenas'', ''cloudflared'', ''linkwarden'', ''homeassistant'', ''mealie'', ''customapi'', ''iframe'',
      ''sonarr'', ''radarr'', ''jellyfin'', ''jellyseerr'', ''immich'', ''adguard'', ''pihole'', ''uptime-kuma'',
      ''portainer'', ''argocd'', ''gitea'', ''tautulli'', ''proxmox'', ''nextcloud'', ''opnsense'', ''netdata'',
      ''speedtest'', ''gatus'']"

definition info_widget_types :: "string list" where
  "info_widget_types =
     [''greeting'', ''datetime'', ''logo'', ''openmeteo'', ''kubemetrics'', ''glances'', ''longhorn'', ''openweathermap'']"

definition static_info_types :: "string list" where
  "static_info_types = [''greeting'', ''datetime'', ''logo'']"

lemma register_integrations: "register_all (integrations env) [] = Inr (integrations env)"
  using register_all_fresh [of "integrations env" "[]"] poll_types_distinct [of env]
  by (simp add: integration_types)

lemma poll_type_list:
  "map fst (polls env) =
     [''adguard'', ''argocd'', ''cloudflared'', ''customapi'', ''gatus'', ''gitea'', ''glances'',
      ''grafana'', ''homeassistant'', ''iframe'', ''immich'', ''jellyfin'', ''jellyseerr'',
      ''kubemetrics'', ''linkwarden'', ''longhorn'', ''mealie'', ''netdata'', ''nextcloud'',
      ''openmeteo'', ''openweathermap'', ''opnsense'', ''paperlessngx'', ''pihole'', ''plex'',
      ''portainer'', ''prometheus'', ''prometheusmetric'', ''proxmox'', ''radarr'', ''sonarr'',
      ''speedtest'', ''stash'', ''tautulli'', ''truenas'', ''unifi'', ''uptime-kuma'']"
  by (simp add: polls_def Let_def)

lemma type_lists_agree:
  "set [''adguard'', ''argocd'', ''cloudflared'', ''customapi'', ''gatus'', ''gitea'', ''glances'',
      ''grafana'', ''homeassistant'', ''iframe'', ''immich'', ''jellyfin'', ''jellyseerr'',
      ''kubemetrics'', ''linkwarden'', ''longhorn'', ''mealie'', ''netdata'', ''nextcloud'',
      ''openmeteo'', ''openweathermap'', ''opnsense'', ''paperlessngx'', ''pihole'', ''plex'',
      ''portainer'', ''prometheus'', ''prometheusmetric'', ''proxmox'', ''radarr'', ''sonarr'',
      ''speedtest'', ''stash'', ''tautulli'', ''truenas'', ''unifi'', ''uptime-kuma''] =
     set service_widget_types \<union> (set info_widget_types - set static_info_types)"
  by code_simp

lemma map_of_distinct: "distinct (map fst xs) \<Longrightarrow> map (map_of xs) (map fst xs) = map (\<lambda>x. Some (snd x)) xs"
  by (induction xs) (auto simp: image_iff intro!: map_cong)

text \<open>
  The \<^verbatim>\<open>init\<close> functions register every integration without a panic; afterwards the registered
  types are exactly those the custom resource definitions admit (the static header widgets aside), each
  is looked up as its own implementation, and each has a sample.
\<close>

theorem registry_complete:
  "\<exists>reg. register_all (integrations env) [] = Inr reg \<and>
     set (RegisteredTypes reg) =
       set service_widget_types \<union> (set info_widget_types - set static_info_types) \<and>
     map (Lookup reg) (map fst (polls env)) =
       map (\<lambda>(ty, poll). Some (integration env ty poll (map_of (samples (we_web env)) ty))) (polls env) \<and>
     map fst (samples (we_web env)) = map fst (polls env)"
proof (rule exI, intro conjI)
  show "register_all (integrations env) [] = Inr (integrations env)" by (rule register_integrations)
  show "set (RegisteredTypes (integrations env)) =
      set service_widget_types \<union> (set info_widget_types - set static_info_types)"
    unfolding RegisteredTypes_def set_sort_by integration_types poll_type_list by (rule type_lists_agree)
  show "map (Lookup (integrations env)) (map fst (polls env)) =
      map (\<lambda>(ty, poll). Some (integration env ty poll (map_of (samples (we_web env)) ty))) (polls env)"
    using map_of_distinct [of "integrations env"] poll_types_distinct [of env]
    by (simp only: integration_types) (simp add: Lookup_def gget_def integrations_def case_prod_unfold comp_def)
  show "map fst (samples (we_web env)) = map fst (polls env)" by (rule poll_types [symmetric])
qed

section \<open>Witnesses\<close>

definition ex_web :: "json \<Rightarrow> web" where
  "ex_web j = \<lparr>wb_request_error = (\<lambda>_. None), wb_redacted = (\<lambda>u. u),
     wb_do = (\<lambda>_ _ _. Inr \<lparr>hp_status = 200, hp_headers = [], hp_body = [], hp_read_error = None\<rparr>),
     wb_parse = (\<lambda>_ _. Inr j), wb_type_error = (\<lambda>_. ''type''), wb_encode = (\<lambda>_. [])\<rparr>"

definition ex_quantities :: "int quantity_lib" where
  "ex_quantities = \<lparr>ql_zero = 0, ql_add = (+), ql_milli = (\<lambda>q. 1000 * q), ql_value = (\<lambda>q. q)\<rparr>"

definition ex_cluster :: "int node_lists" where
  "ex_cluster = \<lparr>nl_metrics = Inr [[(''cpu'', 1), (''memory'', 3)]],
     nl_nodes = Inr [[(''cpu'', 4), (''memory'', 8)]]\<rparr>"

definition ex_env :: "json \<Rightarrow> int widget_env" where
  "ex_env j = \<lparr>we_web = ex_web j, we_net = ex_net, we_victim = (\<lambda>_. []),
     we_ws = \<lparr>ws_parse_url = (\<lambda>_. Inl []), ws_print_url = (\<lambda>_. []), ws_dial = (\<lambda>_ _ _. None),
       ws_write = (\<lambda>_ _. None), ws_read = (\<lambda>_. Inl [])\<rparr>,
     we_quantities = ex_quantities, we_cluster = ex_cluster\<rparr>"

definition ex_cfg :: WidgetConfig where
  "ex_cfg = \<lparr>wc_url = ''http://nas/'', wc_secrets = [(''apiKey'', ''k'')],
     wc_config = Some (JObj [(''insecureTLS'', JBool True)])\<rparr>"

lemmas fetch_eval = andThen_def got_def shown_def failed_def crashed_def require_def decode_config_def
  fetchJSON_def buildJSONRequest_def new_request_def doJSONRequest_def do_request_def note_outcome_def
  limited_body_def set_member_def find_setter_def fld_def Let_def ex_web_def ex_cfg_def idle_def

definition ex_alarms :: json where
  "ex_alarms = JObj [(''alarms'', JObj [(''warning'', JNum ''2'')])]"

lemma ex_polls:
  "(''netdata'', netdata_Poll (ex_web j)) \<in> set (polls (ex_env j))"
  "(''unifi'', unifi_Poll (ex_web j) ex_net (\<lambda>_. [])) \<in> set (polls (ex_env j))"
  "(''stash'', stash_Poll (ex_web j)) \<in> set (polls (ex_env j))"
  by (simp_all add: polls_def Let_def ex_env_def)

lemma netdata_alarms: "metricErr (poll_result (fst (netdata_Poll (ex_web ex_alarms) c ex_cfg idle))) = None"
  by (simp add: netdata_Poll_def fetch_eval ex_alarms_def poll_result_def
      metricErr_def int_field_def field_def labelStatus_def atoi_def digits_val_def digit_val_def is_digit_def)

theorem successful_poll_answered_witness:
  "\<exists>xs. fs_exchanges (snd (netdata_Poll (ex_web ex_alarms) (newGuardedHTTPClient ex_net 10) ex_cfg idle)) =
     fs_exchanges idle @ xs \<and> list_all answered xs"
  by (rule successful_poll_answered [OF ex_polls(1) _ netdata_alarms]) (simp add: best_effort_def)

theorem polls_confined_witness:
  "\<exists>xs. fs_exchanges (snd (unifi_Poll (ex_web JNull) ex_net (\<lambda>_. []) (newGuardedHTTPClient ex_net 10) ex_cfg idle)) =
      fs_exchanges idle @ xs \<and>
    all_below (base_url ''unifi'' ex_cfg) xs \<and> all_guarded (we_net (ex_env JNull)) xs \<and>
    guarded_clients (we_net (ex_env JNull)) (fs_unifi_clients (snd (unifi_Poll (ex_web JNull) ex_net (\<lambda>_. [])
      (newGuardedHTTPClient ex_net 10) ex_cfg idle))) \<and>
    guarded_clients (we_net (ex_env JNull)) (fs_proxmox_clients (snd (unifi_Poll (ex_web JNull) ex_net (\<lambda>_. [])
      (newGuardedHTTPClient ex_net 10) ex_cfg idle)))"
  by (rule polls_confined [OF ex_polls(2)])
    (simp_all add: ex_env_def idle_def guarded_clients_def newGuardedHTTPClient_def
      newGuardedTransport_def guarded_def)

theorem ca_cert_never_downgraded_witness:
  "(let c = projr (fst (httpClientForCACert ex_client_lib ex_secret_reader ''web'' (Some (ex_value ''PEM'')) ex_client ex_ca_state));
        run = snd (unifi_Poll (ex_web JNull) ex_net (\<lambda>_. []) c (ex_cfg\<lparr>wc_config := None\<rparr>) idle)
    in fs_exchanges run \<noteq> [] \<and>
       list_all (\<lambda>(sender, _, _). tr_root_cas (hc_transport sender) = Some [''PEM''] \<and>
         \<not> tr_insecure (hc_transport sender)) (fs_exchanges run))"
proof -
  let ?get = "httpClientForCACert ex_client_lib ex_secret_reader ''web'' (Some (ex_value ''PEM'')) ex_client ex_ca_state"
  let ?c = "projr (fst ?get)" and ?cfg = "ex_cfg\<lparr>wc_config := None\<rparr>"
  let ?run = "unifi_Poll (ex_web JNull) ex_net (\<lambda>_. []) ?c ?cfg idle"
  have "ca_coherent ex_client_lib ex_ca_state" by (simp add: ex_ca_state_def ca_coherent_init)
  moreover have "?get = (Inr ?c, snd ?get)"
    by (simp add: httpClientForCACert_def resolveSecret_def ex_value_def caClient_def markCAKeyUsed_def
        ex_ca_state_def newGuardedTransportWithCA_def ex_client_lib_def Let_def)
  moreover have "\<not> skips_checks ''unifi'' ?cfg"
    by (simp add: skips_checks_def decoded_config_def zero_unifi_def ex_cfg_def)
  ultimately obtain pem pem' xs where pem: "resolveSecret ex_secret_reader ''web'' (ex_value ''PEM'') = Inr pem"
      "cl_sha256 ex_client_lib pem' = cl_sha256 ex_client_lib pem"
    and xs: "fs_exchanges (snd ?run) = fs_exchanges idle @ xs"
      "list_all (\<lambda>(sender, _, _). tr_root_cas (hc_transport sender) =
        Some ((case xl_system_pool (cl_x509 ex_client_lib) of None \<Rightarrow> [] | Some p \<Rightarrow> p) @ xl_parse_pem (cl_x509 ex_client_lib) pem') \<and>
        \<not> tr_insecure (hc_transport sender) \<and> guarded (cl_net ex_client_lib) (hc_transport sender)) xs"
    using ca_cert_never_downgraded [OF _ _ ex_polls(2)] by meson
  from pem have "pem' = ''PEM''" by (simp add: resolveSecret_def ex_value_def ex_client_lib_def)
  moreover have "fs_exchanges (snd ?run) \<noteq> []"
    by (simp add: unifi_Poll_def unifi_data_def unifiIntegrationRequest_def unifiHTTPClient_def fetch_eval
        zero_unifi_def gget_def gstr_def)
  ultimately show ?thesis
    using xs by (auto simp: Let_def ex_client_lib_def list_all_iff idle_def)
qed

definition ex_petabyte :: json where
  "ex_petabyte = JObj [(''data'', JObj [(''stats'', JObj [(''scenes_size'', JNum ''1e15'')])])]"

lemma ParseFloat_petabyte: "ParseFloat ''1e15'' = Some (Finite False (10 ^ 15))"
  by (simp add: ParseFloat_def parse_sign_def parse_decimal_def parse_exponent_def is_digit_def digits_val_def
      digit_val_def to_lower_def lower_char_def float_eval)

lemma humanized_petabyte: "humanized (Finite False (10 ^ 15)) = Inl ''index out of range''"
  using formatBytesHumanized_range [of "10 ^ 15"] by (auto simp: humanized_def)

lemma stash_petabyte: "fst (stash_Poll (ex_web ex_petabyte) c ex_cfg idle) = Crashed ''index out of range''"
  using ParseFloat_petabyte humanized_petabyte
  by (simp add: stash_Poll_def fetch_eval ex_petabyte_def dec_stash_def zero_stash_def stashFields_def or_crash_def)

theorem only_byte_counts_panic_witness:
  "fst (stash_Poll (ex_web ex_petabyte) (newGuardedHTTPClient ex_net 10) ex_cfg idle) = Crashed ''index out of range'' \<and>
   (''stash'' = ''opnsense'' \<or> ''stash'' = ''stash'')"
  using stash_petabyte [where c = "newGuardedHTTPClient ex_net 10"]
    only_byte_counts_panic [OF ex_polls(3) stash_petabyte [where c = "newGuardedHTTPClient ex_net 10"]]
  by (rule conjI)

definition ex_usage :: "Field list" where
  "ex_usage =
     (case formatCPU ex_quantities 1 4 of (cv, cp) \<Rightarrow>
      case formatMemory ex_quantities 3 8 of (mv, mp) \<Rightarrow> [pct_field ''CPU'' cv cp, pct_field ''Memory'' mv mp])"

theorem cluster_usage_bounded_witness: "length ex_usage = 2 \<and> list_all usage_field_ok ex_usage"
proof (rule cluster_usage_bounded)
  show "nl_metrics ex_cluster = Inr [[(''cpu'', 1), (''memory'', 3)]]" by (simp add: ex_cluster_def)
  show "nl_nodes ex_cluster = Inr [[(''cpu'', 4), (''memory'', 8)]]" by (simp add: ex_cluster_def)
  show "kubeMetrics_PollCluster (ex_web JNull) ex_quantities ex_cluster (ex_cfg\<lparr>wc_config := None\<rparr>) = Inr ex_usage"
    by (simp add: kubeMetrics_PollCluster_def resolveKubeMetricsLabels_def ex_cfg_def ex_cluster_def ex_usage_def
        sum_resource_def gget_def ex_quantities_def split: prod.split)
qed (simp_all add: sum_resource_def gget_def ex_quantities_def)
end
