(* ===== verification/Samples.thy ===== *)
theory Samples
  imports Registry "HOL-Library.Sublist"
begin

text \<open>
  The samples of \<^verbatim>\<open>--sample-data\<close> against the polls: the fields of a successful poll carry the labels
  of the widget's sample, so that a preview shows the layout of the live card.  \<open>yields\<close> is the
  postcondition of a poll's fields; its rules do not look at requests.
\<close>

section \<open>What a poll's result satisfies\<close>

definition yields :: "('a \<Rightarrow> bool) \<Rightarrow> 'a fetch \<Rightarrow> bool" where
  "yields Q m \<longleftrightarrow> (\<forall>s x. fst (m s) = Got x \<longrightarrow> Q x)"

named_theorems yield_rules \<open>rules of \<open>yields\<close>\<close>

lemma yields_andThen_with: "yields P m \<Longrightarrow> (\<And>x. P x \<Longrightarrow> yields Q (f x)) \<Longrightarrow> yields Q (andThen m f)"
  unfolding yields_def andThen_def by (auto split: prod.splits fetched.splits) (metis fst_conv)+

lemma yields_andThen [yield_rules]: "(\<And>x. yields Q (f x)) \<Longrightarrow> yields Q (andThen m f)"
  by (rule yields_andThen_with [where P = "\<lambda>_. True"]) (auto simp: yields_def)

lemma yields_got [yield_rules]: "Q x \<Longrightarrow> yields Q (got x)"
  by (simp add: yields_def got_def)

lemma yields_ended [yield_rules]: "yields Q (failed e)" "yields Q (shown flds)" "yields Q (crashed e)"
  by (simp_all add: yields_def failed_def shown_def crashed_def)

lemma yields_require [yield_rules]: "(ok \<Longrightarrow> yields Q m) \<Longrightarrow> yields Q (require ok e m)"
  by (simp add: require_def yields_ended)

lemma yields_if [yield_rules]: "(b \<Longrightarrow> yields Q m) \<Longrightarrow> (\<not> b \<Longrightarrow> yields Q m') \<Longrightarrow> yields Q (if b then m else m')"
  by simp

text \<open>The configuration a poll has decoded.\<close>

definition config_is :: "'a decoder \<Rightarrow> 'a \<Rightarrow> WidgetConfig \<Rightarrow> 'a \<Rightarrow> bool" where
  "config_is dec zero cfg x =
     (case wc_config cfg of None \<Rightarrow> x = zero | Some j \<Rightarrow> dec j zero = (True, x))"

lemma yields_decode_config: "yields (config_is dec zero cfg) (decode_config web cfg dec zero)"
  by (auto simp: yields_def decode_config_def config_is_def got_def failed_def
      split: option.splits prod.splits bool.splits)

section \<open>Layouts\<close>

definition layout :: "Field list \<Rightarrow> string list" where
  "layout flds = map f_label flds"

lemma labels [simp]:
  "f_label (field l t) = l" "f_label (int_field l n) = l" "f_label (pct_field l t p) = l"
  "f_label (percent_field l q) = l"
  by (simp_all add: field_def int_field_def pct_field_def percent_field_def)

text \<open>
  Three widgets leave out fields that the upstream does not provide; longhorn without any disk shows a
  status; and a customapi widget whose mappings are all incomplete has a sample but no field.
\<close>

definition optional_fields :: "string \<Rightarrow> bool" where
  "optional_fields ty \<longleftrightarrow> ty \<in> {''gitea'', ''proxmox'', ''opnsense''}"

definition layout_agrees :: "string \<Rightarrow> string list \<Rightarrow> string list \<Rightarrow> bool" where
  "layout_agrees ty live sampled \<longleftrightarrow>
     (if optional_fields ty then subseq live sampled
      else if ty = ''longhorn'' then live = sampled \<or> live = [labelStatus]
      else if ty = ''customapi'' then live = sampled \<or> live = []
      else live = sampled)"

lemmas fixed_polls = adguard_Poll_def argocd_Poll_def cloudflared_Poll_def gatus_Poll_def glances_Poll_def
  grafana_Poll_def immich_Poll_def jellyfin_Poll_def jellyseerr_Poll_def kubeMetrics_Poll_def
  linkwarden_Poll_def mealie_Poll_def netdata_Poll_def paperlessngx_Poll_def pihole_Poll_def plex_Poll_def
  portainer_Poll_def prometheus_Poll_def radarr_Poll_def sonarr_Poll_def speedtest_Poll_def tautulli_Poll_def
  unifi_Poll_def unifi_fields_def uptimeKuma_Poll_def nextcloud_Poll_def nextcloud_fields_def

lemmas fixed_samples = adguard_Sample_def argocd_Sample_def cloudflared_Sample_def gatus_Sample_def
  glances_Sample_def grafana_Sample_def immich_Sample_def jellyfin_Sample_def jellyseerr_Sample_def
  linkwarden_Sample_def mealie_Sample_def netdata_Sample_def paperlessngx_Sample_def
  pihole_Sample_def plex_Sample_def portainer_Sample_def prometheus_Sample_def radarr_Sample_def
  sonarr_Sample_def speedtest_Sample_def tautulli_Sample_def unifi_Sample_def uptimeKuma_Sample_def
  nextcloud_Sample_def

abbreviation agrees :: "string \<Rightarrow> Field list \<Rightarrow> Field list \<Rightarrow> bool" where
  "agrees ty sample flds \<equiv> layout_agrees ty (layout flds) (layout sample)"

lemma fixed_layouts:
  "list_all (\<lambda>(ty, poll, sample). yields (agrees ty (sample cfg)) (poll c cfg))
     [(''adguard'', adguard_Poll web, adguard_Sample), (''argocd'', argocd_Poll web, argocd_Sample),
      (''cloudflared'', cloudflared_Poll web, cloudflared_Sample), (''gatus'', gatus_Poll web, gatus_Sample),
      (''glances'', glances_Poll web, glances_Sample), (''grafana'', grafana_Poll web, grafana_Sample),
      (''immich'', immich_Poll web, immich_Sample), (''jellyfin'', jellyfin_Poll web, jellyfin_Sample),
      (''jellyseerr'', jellyseerr_Poll web, jellyseerr_Sample),
      (''linkwarden'', linkwarden_Poll web, linkwarden_Sample), (''mealie'', mealie_Poll web, mealie_Sample),
      (''netdata'', netdata_Poll web, netdata_Sample), (''paperlessngx'', paperlessngx_Poll web, paperlessngx_Sample),
      (''pihole'', pihole_Poll web, pihole_Sample), (''plex'', plex_Poll web, plex_Sample),
      (''portainer'', portainer_Poll web, portainer_Sample), (''prometheus'', prometheus_Poll web, prometheus_Sample),
      (''radarr'', radarr_Poll web, radarr_Sample), (''sonarr'', sonarr_Poll web, sonarr_Sample),
      (''speedtest'', speedtest_Poll web, speedtest_Sample), (''tautulli'', tautulli_Poll web, tautulli_Sample),
      (''unifi'', unifi_Poll web net victim, unifi_Sample),
      (''uptime-kuma'', uptimeKuma_Poll web, uptimeKuma_Sample),
      (''nextcloud'', nextcloud_Poll web, nextcloud_Sample)]"
  by (simp only: list.pred_inject prod.case HOL.simp_thms) (intro conjI;
    auto simp: fixed_polls fixed_samples layout_agrees_def optional_fields_def layout_def Let_def
      intro!: yield_rules)

section \<open>Layouts that depend on the answer or the configuration\<close>

lemma layout_homeassistant_loop:
  "yields (\<lambda>flds. layout flds = layout acc @ map fst ts)
    (forEach (\<lambda>t flds. andThen (render (snd t)) (\<lambda>text. got (flds @ [field (fst t) text]))) ts acc)"
proof (induction ts arbitrary: acc)
  case (Cons t ts)
  have "yields (\<lambda>flds. layout flds = layout acc @ [fst t])
      (andThen (render (snd t)) (\<lambda>text. got (acc @ [field (fst t) text])))"
    by (auto simp: layout_def intro!: yield_rules)
  then show ?case
    unfolding forEach.simps by (rule yields_andThen_with) (use Cons.IH in \<open>simp add: yields_def\<close>)
qed (simp add: yields_got)

lemma layout_homeassistant:
  "yields (agrees ''homeassistant'' (homeassistant_Sample cfg)) (homeassistant_Poll web c cfg)"
  unfolding homeassistant_Poll_def case_prod_unfold
  by (rule yields_require, insert layout_homeassistant_loop [of "[]" homeassistantTemplates
        "homeassistantRenderTemplate web c (wc_url cfg) (gstr (wc_secrets cfg) ''token'')"])
    (simp add: layout_agrees_def optional_fields_def homeassistant_Sample_def layout_def
      homeassistantTemplates_def)

lemma layout_gitea: "yields (agrees ''gitea'' (gitea_Sample cfg)) (gitea_Poll web c cfg)"
  by (auto simp: gitea_Poll_def gitea_Sample_def layout_agrees_def optional_fields_def layout_def Let_def
      intro!: yield_rules split: option.split)

lemma layout_longhorn: "yields (agrees ''longhorn'' (longhorn_Sample cfg)) (longhorn_Poll web c cfg)"
  by (auto simp: longhorn_Poll_def longhorn_fields_def longhorn_Sample_def layout_agrees_def optional_fields_def
      layout_def Let_def intro!: yield_rules)

lemma layout_proxmox: "yields (agrees ''proxmox'' (proxmox_Sample cfg)) (proxmox_Poll web net victim c cfg)"
  by (auto simp: proxmox_Poll_def proxmox_fields_def proxmox_Sample_def layout_agrees_def optional_fields_def
      layout_def Let_def intro!: yield_rules)

lemma layout_traffic:
  assumes "opnsense_traffic ifaces wan = Inr flds"
  shows "subseq (layout flds) [''WAN Upload'', ''WAN Download'']"
  using assms unfolding opnsense_traffic_def traffic_field_def
  by (auto simp: layout_def split: option.splits sum.splits)

lemma yields_or_crash: "(\<And>x. r = Inr x \<Longrightarrow> yields Q (f x)) \<Longrightarrow> yields Q (andThen (or_crash r) f)"
  by (rule yields_andThen_with [where P = "\<lambda>x. r = Inr x"])
    (auto simp: or_crash_def intro!: yield_rules split: sum.split)

lemma layout_opnsense: "yields (agrees ''opnsense'' (opnsense_Sample cfg)) (opnsense_Poll web c cfg)"
proof -
  have act: "subseq (layout (opnsense_activity headers)) [''CPU'', ''Memory'']" for headers
    by (auto simp: opnsense_activity_def layout_def split: option.split)
  have "subseq (layout (opnsense_activity headers @ traffic)) (layout (opnsense_Sample cfg))"
    if "opnsense_traffic ifaces wan = Inr traffic" for headers traffic ifaces wan
    using list_emb_append_mono [OF act [of headers] layout_traffic [OF that]]
    by (simp add: opnsense_Sample_def layout_def)
  then show ?thesis
    unfolding opnsense_Poll_def Let_def layout_agrees_def optional_fields_def
    by (intro yields_require yields_or_crash yields_andThen yields_got) auto
qed

lemma layout_stash: "yields (agrees ''stash'' (stash_Sample cfg)) (stash_Poll web c cfg)"
proof -
  have labels: "layout flds = layout flds'" if "stashFields a = Inr flds" "stashFields b = Inr flds'" for a b flds flds'
    using that by (auto simp: stashFields_def duration_field_def layout_def split: sum.splits)
  have small: "\<exists>t. humanized (f_of_int k) = Inr t" if "0 \<le> k" "k < 10 ^ 15" for k
  proof -
    have "(of_int k :: rat) \<le> 10 ^ 15 - 1" using that by (simp flip: of_int_le_iff)
    moreover from this have "(of_int k :: rat) < 2 ^ 1024" by simp
    ultimately show ?thesis
      using formatBytesHumanized_range [of "of_int k"] that f_of_int_small [of k] by (auto simp: humanized_def)
  qed
  define st where "st = zero_stash\<lparr>st_scene_count := 512, st_scenes_size := f_of_int 128849018880,
         st_scenes_duration := f_of_int 3672000, st_scenes_played := 301, st_image_count := 10234,
         st_images_size := f_of_int 21474836480, st_gallery_count := 87, st_performer_count := 142,
         st_studio_count := 23, st_movie_count := 9, st_tag_count := 64, st_total_o_count := 58,
         st_total_play_count := 890, st_total_play_duration := f_of_int 4320000\<rparr>"
  obtain t u where "humanized (st_scenes_size st) = Inr t" "humanized (st_images_size st) = Inr u"
    using small [of 128849018880] small [of 21474836480] by (auto simp: st_def)
  then obtain flds where st: "stashFields st = Inr flds" by (simp add: stashFields_def)
  then have "stash_Sample cfg = flds" by (simp add: stash_Sample_def st_def)
  with labels [OF _ st] show ?thesis
    by (auto simp: stash_Poll_def Let_def or_crash_def layout_agrees_def optional_fields_def
        intro!: yield_rules split: sum.split)
qed

lemma layout_truenas: "yields (agrees ''truenas'' (truenas_Sample cfg)) (truenas_Poll web ws c cfg)"
  by (auto simp: truenas_Poll_def truenas_session_def truenas_fields_def truenas_Sample_def layout_agrees_def
      optional_fields_def layout_def Let_def intro!: yield_rules
      split: sum.split option.split prod.split bool.split)

lemma layout_kubeMetrics: "yields Q (kubeMetrics_Poll c cfg)"
  by (auto simp: kubeMetrics_Poll_def intro!: yield_rules)

text \<open>Here the sample reads the configuration itself, and must arrive at the same labels.\<close>

lemma yields_config:
  "(\<And>x. config_is dec zero cfg x \<Longrightarrow> yields Q (f x)) \<Longrightarrow> yields Q (andThen (decode_config web cfg dec zero) f)"
  by (rule yields_andThen_with [OF yields_decode_config])

lemma layout_iframe: "yields (agrees ''iframe'' (iframe_Sample cfg)) (iframe_Poll web c cfg)"
  by (auto simp: iframe_Poll_def iframe_Sample_def layout_agrees_def optional_fields_def layout_def
      intro!: yield_rules)

lemma layout_openMeteo: "yields (agrees ''openmeteo'' (openMeteo_Sample cfg)) (openMeteo_Poll web c cfg)"
proof -
  have "sample_weather cfg = w" if "config_is dec_weather zero_weather cfg w" for w
    using that by (auto simp: config_is_def sample_weather_def split: option.splits)
  then show ?thesis
    unfolding openMeteo_Poll_def Let_def weatherLabelAndSuffix_def prod.case
    by (intro yields_require yields_config yields_andThen yields_got)
      (simp add: openMeteo_Sample_def weatherLabelAndSuffix_def layout_agrees_def optional_fields_def layout_def)
qed

lemma layout_openWeatherMap:
  "yields (agrees ''openweathermap'' (openWeatherMap_Sample cfg)) (openWeatherMap_Poll web c cfg)"
proof -
  have "sample_weather cfg = w" if "config_is dec_weather zero_weather cfg w" for w
    using that by (auto simp: config_is_def sample_weather_def split: option.splits)
  then show ?thesis
    unfolding openWeatherMap_Poll_def Let_def weatherLabelAndSuffix_def prod.case
    by (intro yields_require yields_config yields_andThen yields_got)
      (simp add: openWeatherMap_Sample_def weatherLabelAndSuffix_def layout_agrees_def optional_fields_def layout_def)
qed

lemma layout_prometheusMetric:
  "yields (agrees ''prometheusmetric'' (prometheusMetric_Sample cfg)) (prometheusMetric_Poll web c cfg)"
  unfolding prometheusMetric_Poll_def Let_def
  by (intro yields_require yields_config yields_andThen yields_got)
    (auto simp: prometheusMetric_Sample_def config_is_def zero_metric_def layout_agrees_def optional_fields_def
      layout_def split: option.splits)

lemma layout_customAPI: "yields (agrees ''customapi'' (customAPI_Sample cfg)) (customAPI_Poll web c cfg)"
proof -
  have live: "layout (map (mapped_field web body) ms) = map cm_label ms" for body ms
    by (induction ms) (auto simp: layout_def mapped_field_def split: option.split)
  have "agrees ''customapi'' (customAPI_Sample cfg) (map (mapped_field web body) (filter usable_mapping ms))"
    if "config_is dec_mappings [] cfg ms" "ms \<noteq> []" for ms body
  proof -
    have "layout (customAPI_Sample cfg) = map cm_label (filter usable_mapping ms) \<or> filter usable_mapping ms = []"
      using that by (auto simp: config_is_def customAPI_Sample_def Let_def layout_def comp_def split: option.splits)
    then show ?thesis unfolding live layout_agrees_def optional_fields_def by auto
  qed
  then show ?thesis
    unfolding customAPI_Poll_def
    by (intro yields_require yields_config yields_andThen yields_got)
qed

section \<open>Every widget\<close>

lemma all_layouts:
  "list_all (\<lambda>((ty, poll), (_, sample)). yields (agrees ty (sample cfg)) (poll c cfg))
     (zip (polls env) (samples (we_web env)))"
  using fixed_layouts [of cfg c "we_web env" "we_net env" "we_victim env"]
  unfolding list.pred_inject prod.case
  by (simp add: polls_def samples_def Let_def layout_homeassistant layout_gitea layout_longhorn layout_proxmox
      layout_opnsense layout_stash layout_truenas layout_kubeMetrics layout_iframe layout_openMeteo
      layout_openWeatherMap layout_prometheusMetric layout_customAPI)

lemma zip_lookup:
  assumes "map fst xs = map fst ys" "distinct (map fst xs)" "(k, a) \<in> set xs" "map_of ys k = Some b"
  shows "((k, a), (k, b)) \<in> set (zip xs ys)"
  using assms
proof (induction xs arbitrary: ys)
  case (Cons x xs)
  then obtain y ys' where ys: "ys = y # ys'" "fst y = fst x" "map fst xs = map fst ys'" by (cases ys) auto
  show ?case
  proof (cases "(k, a) = x")
    case True
    with Cons.prems(4) ys show ?thesis by (cases y) auto
  next
    case False
    with Cons.prems(3) have k: "(k, a) \<in> set xs" by simp
    then have "k \<in> fst ` set xs" by force
    moreover have "fst x \<notin> fst ` set xs" using Cons.prems(2) by simp
    ultimately have "k \<noteq> fst x" by blast
    note this k
    with Cons ys show ?thesis by (cases y) auto
  qed
qed simp

text \<open>
  C36. The sample of a widget has the layout of its live card: whenever a poll succeeds, its fields carry
  the labels of the sample for the same configuration, in the same order.  Three widgets leave
  out what the upstream does not report, longhorn shows a status when there is no disk, and customapi
  nothing when no mapping is complete.
\<close>

theorem sample_layout:
  assumes "(ty, poll) \<in> set (polls env)" "map_of (samples (we_web env)) ty = Some sample"
    and "fst (poll c cfg s) = Got flds"
  shows "layout_agrees ty (layout flds) (layout (sample cfg))"
proof -
  have "((ty, poll), (ty, sample)) \<in> set (zip (polls env) (samples (we_web env)))"
    using zip_lookup [OF poll_types poll_types_distinct assms(1,2)] .
  then have "yields (agrees ty (sample cfg)) (poll c cfg)"
    using all_layouts [of cfg c env] by (auto simp: list_all_iff)
  with assms(3) show ?thesis by (auto simp: yields_def)
qed

theorem sample_layout_witness:
  "layout_agrees ''netdata'' (layout [int_field ''Warnings'' 2, int_field ''Criticals'' 0])
     (layout (netdata_Sample ex_cfg))"
proof (rule sample_layout [OF ex_polls(1) [where j = ex_alarms]])
  show "map_of (samples (we_web (ex_env ex_alarms))) ''netdata'' = Some netdata_Sample"
    by (simp add: samples_def)
  show "fst (netdata_Poll (ex_web ex_alarms) (newGuardedHTTPClient ex_net 10) ex_cfg idle) =
      Got [int_field ''Warnings'' 2, int_field ''Criticals'' 0]"
    by (simp add: netdata_Poll_def fetch_eval ex_alarms_def atoi_def digits_val_def digit_val_def is_digit_def)
qed
end
