(* ===== verification/Html.thy ===== *)
theory Html
  imports Prelude
begin

text \<open>
  A reader of the markup that the templates write: the part of the HTML tokenizer that concerns
  elements with quoted attribute values.  It is the judge of the templates: what a browser takes for
  markup is what \<open>run\<close> returns, and it returns nothing at all for text outside this part of the
  language.  Trees of elements are the abstract documents the written pages are compared with.
\<close>

section \<open>Tokens\<close>

datatype tok = Start string "(string \<times> string) list" | End string | Ch char

datatype lex_state =
  Text
| Tag string
| EndTag string
| Attrs string "(string \<times> string) list"
| Name string "(string \<times> string) list" string
| Equals string "(string \<times> string) list" string
| Value string "(string \<times> string) list" string string

text \<open>Characters that end or spoil a name.\<close>

definition name_char :: "char \<Rightarrow> bool" where
  "name_char c \<longleftrightarrow> c \<notin> {CHR ''<'', CHR ''>'', CHR ''/'', CHR ''='', CHR '' '', CHR 0x22, CHR 0x27}"

fun step :: "lex_state \<Rightarrow> char \<Rightarrow> (lex_state \<times> tok list) option" where
  "step Text c = (if c = CHR ''<'' then Some (Tag [], []) else Some (Text, [Ch c]))"
| "step (Tag n) c =
     (if n = [] \<and> c = CHR ''/'' then Some (EndTag [], [])
      else if n \<noteq> [] \<and> c = CHR '' '' then Some (Attrs n [], [])
      else if n \<noteq> [] \<and> c = CHR ''>'' then Some (Text, [Start n []])
      else if name_char c then Some (Tag (n @ [c]), []) else None)"
| "step (EndTag n) c =
     (if n \<noteq> [] \<and> c = CHR ''>'' then Some (Text, [End n])
      else if name_char c then Some (EndTag (n @ [c]), []) else None)"
| "step (Attrs n as) c =
     (if c = CHR '' '' then Some (Attrs n as, [])
      else if c = CHR ''>'' then Some (Text, [Start n as])
      else if name_char c then Some (Name n as [c], []) else None)"
| "step (Name n as a) c =
     (if c = CHR ''='' then Some (Equals n as a, [])
      else if c = CHR '' '' then Some (Attrs n (as @ [(a, [])]), [])
      else if c = CHR ''>'' then Some (Text, [Start n (as @ [(a, [])])])
      else if name_char c then Some (Name n as (a @ [c]), []) else None)"
| "step (Equals n as a) c = (if c = CHR 0x22 then Some (Value n as a [], []) else None)"
| "step (Value n as a v) c =
     (if c = CHR 0x22 then Some (Attrs n (as @ [(a, v)]), []) else Some (Value n as a (v @ [c]), []))"

fun run :: "lex_state \<Rightarrow> string \<Rightarrow> (lex_state \<times> tok list) option" where
  "run st [] = Some (st, [])"
| "run st (c # s) =
     (case step st c of
        None \<Rightarrow> None
      | Some (st', ts) \<Rightarrow> (case run st' s of None \<Rightarrow> None | Some (st'', us) \<Rightarrow> Some (st'', ts @ us)))"

definition tokens :: "string \<Rightarrow> tok list option" where
  "tokens s = (case run Text s of Some (Text, ts) \<Rightarrow> Some ts | _ \<Rightarrow> None)"

lemma run_append:
  "run st s = Some (st', ts) \<Longrightarrow> run st' t = Some (st'', us) \<Longrightarrow> run st (s @ t) = Some (st'', ts @ us)"
  by (induction st s arbitrary: st' ts rule: run.induct) (fastforce split: option.splits)+

text \<open>Text without an opening bracket stays text, a value without a quote stays in its value.\<close>

lemma run_text: "CHR ''<'' \<notin> set s \<Longrightarrow> run Text s = Some (Text, map Ch s)"
  by (induction s) auto

lemma run_value: "CHR 0x22 \<notin> set v \<Longrightarrow> run (Value n as a w) v = Some (Value n as a (w @ v), [])"
  by (induction v arbitrary: w) auto

section \<open>Documents\<close>

datatype node = Elem string "(string \<times> string) list" "node list" | Void string "(string \<times> string) list" | Chars string

fun flat :: "node \<Rightarrow> tok list" where
  "flat (Elem n as ns) = Start n as # concat (map flat ns) @ [End n]"
| "flat (Void n as) = [Start n as]"
| "flat (Chars s) = map Ch s"

definition flats :: "node list \<Rightarrow> tok list" where "flats ns = concat (map flat ns)"

lemma flats_simps [simp]:
  "flats [] = []" "flats (n # ns) = flat n @ flats ns" "flats (ms @ ns) = flats ms @ flats ns"
  by (simp_all add: flats_def)

lemma flat_Elem [simp]: "flat (Elem n as ns) = Start n as # flats ns @ [End n]"
  by (simp add: flats_def)

declare flat.simps(1) [simp del]

lemma flats_concat: "flats (concat nss) = concat (map flats nss)"
  by (induction nss) auto

text \<open>
  The reader of tokens that a browser has: an end tag closes the innermost open element.  The
  elements without content never have an end tag.
\<close>

definition void_tags :: "string set" where "void_tags = {''img''}"

fun nest :: "string list \<Rightarrow> tok list \<Rightarrow> string list option" where
  "nest open_tags [] = Some open_tags"
| "nest open_tags (Ch _ # ts) = nest open_tags ts"
| "nest open_tags (Start n _ # ts) = nest (if n \<in> void_tags then open_tags else n # open_tags) ts"
| "nest open_tags (End n # ts) =
     (case open_tags of [] \<Rightarrow> None | m # ms \<Rightarrow> if m = n then nest ms ts else None)"

text \<open>Only elements and attributes of two given sets.\<close>

fun tags_ok :: "(string \<Rightarrow> bool) \<Rightarrow> (string \<times> string \<Rightarrow> bool) \<Rightarrow> node \<Rightarrow> bool" where
  "tags_ok t a (Elem n as ns) \<longleftrightarrow> t n \<and> n \<notin> void_tags \<and> list_all a as \<and> list_all (tags_ok t a) ns"
| "tags_ok t a (Void n as) \<longleftrightarrow> t n \<and> n \<in> void_tags \<and> list_all a as"
| "tags_ok t a (Chars s) \<longleftrightarrow> True"

fun tok_ok :: "(string \<Rightarrow> bool) \<Rightarrow> (string \<times> string \<Rightarrow> bool) \<Rightarrow> tok \<Rightarrow> bool" where
  "tok_ok t a (Start n as) \<longleftrightarrow> t n \<and> list_all a as"
| "tok_ok t a (End n) \<longleftrightarrow> t n"
| "tok_ok t a (Ch _) \<longleftrightarrow> True"

lemma nest_append: "nest st (ts @ us) = (case nest st ts of None \<Rightarrow> None | Some st' \<Rightarrow> nest st' us)"
  by (induction st ts rule: nest.induct) (auto split: list.splits)

lemma nest_chars: "nest st (map Ch s) = Some st"
  by (induction s) auto

lemma nest_flat: "tags_ok t a n \<Longrightarrow> nest st (flat n) = Some st"
proof (induction n arbitrary: st)
  case (Elem n as ns)
  have "list_all (tags_ok t a) ms \<Longrightarrow> set ms \<subseteq> set ns \<Longrightarrow> nest st' (flats ms) = Some st'" for ms st'
    by (induction ms) (auto simp: nest_append Elem.IH)
  with Elem.prems show ?case by (auto simp: nest_append)
qed (auto simp: nest_chars)

lemma nest_flats: "list_all (tags_ok t a) ns \<Longrightarrow> nest st (flats ns) = Some st"
  by (induction ns) (auto simp: nest_append nest_flat)

lemma tok_ok_flat: "tags_ok t a n \<Longrightarrow> list_all (tok_ok t a) (flat n)"
proof (induction n)
  case (Elem n as ns)
  then show ?case by (auto simp: list_all_iff flats_def)
qed (auto simp: list_all_iff)

lemma tok_ok_flats: "list_all (tags_ok t a) ns \<Longrightarrow> list_all (tok_ok t a) (flats ns)"
  by (induction ns) (auto simp: tok_ok_flat)

end
