(* ===== verification/Shell.thy ===== *)
theory Shell
  imports Html
begin

text \<open>
  The constant texts of the page shell (\<^verbatim>\<open>internal/dashboard/index_templ.go\<close>): its style sheet, its
  scripts and two comments, line by line, cut into definitions of a few dozen lines.  All that is
  shown of them is what a browser must know to find their end: no line of the style sheet or of a
  script opens an end tag or a comment, and the comments hold no bracket that would end them.
\<close>

section \<open>Lines\<close>

text \<open>A line is its indentation, in tabs, and its text.\<close>

definition text_lines :: "(nat \<times> string) list \<Rightarrow> string" where
  "text_lines ls = concat (map (\<lambda>(n, s). replicate n (CHR 0x09) @ s @ [CHR 0x0A]) ls)"

text \<open>No bracket before a slash or an exclamation mark.\<close>

fun calm :: "string \<Rightarrow> bool" where
  "calm [] \<longleftrightarrow> True"
| "calm (c # s) \<longleftrightarrow> (c = CHR ''<'' \<longrightarrow> s \<noteq> [] \<and> hd s \<notin> {CHR ''/'', CHR ''!''}) \<and> calm s"

definition no_close :: "string \<Rightarrow> bool" where "no_close s \<longleftrightarrow> CHR ''>'' \<notin> set s"

lemma calm_append: "calm s \<Longrightarrow> calm t \<Longrightarrow> calm (s @ t)"
  by (induction s) auto

lemma calm_replicate: "c \<noteq> CHR ''<'' \<Longrightarrow> calm (replicate n c)"
  by (induction n) auto

lemma calm_lines_Nil: "calm (text_lines [])"
  by (simp add: text_lines_def)

lemma calm_lines_Cons: "calm s \<Longrightarrow> calm (text_lines ls) \<Longrightarrow> calm (text_lines ((n, s) # ls))"
  by (auto simp: text_lines_def intro!: calm_append calm_replicate)

lemma no_close_append: "no_close s \<Longrightarrow> no_close t \<Longrightarrow> no_close (s @ t)"
  by (simp add: no_close_def)

lemma no_close_lines_Nil: "no_close (text_lines [])"
  by (simp add: no_close_def text_lines_def)

lemma no_close_lines_Cons: "no_close s \<Longrightarrow> no_close (text_lines ls) \<Longrightarrow> no_close (text_lines ((n, s) # ls))"
  by (simp add: no_close_def text_lines_def)

text \<open>
  The characters of a literal are told apart from the brackets by a single bit, and the rest of the
  text is not looked at before its turn.
\<close>

lemma calm_char:
  "calm (Char True b1 b2 b3 b4 b5 b6 b7 # s) = calm s"
  "calm (Char b0 True b2 b3 b4 b5 b6 b7 # s) = calm s"
  "calm (Char b0 b1 False b3 b4 b5 b6 b7 # s) = calm s"
  "calm (Char b0 b1 b2 False b4 b5 b6 b7 # s) = calm s"
  "calm (Char b0 b1 b2 b3 False b5 b6 b7 # s) = calm s"
  "calm (Char b0 b1 b2 b3 b4 False b6 b7 # s) = calm s"
  "calm (Char b0 b1 b2 b3 b4 b5 True b7 # s) = calm s"
  "calm (Char b0 b1 b2 b3 b4 b5 b6 True # s) = calm s"
  "calm (CHR ''<'' # Char b0 b1 b2 b3 b4 b5 True b7 # s) = calm (Char b0 b1 b2 b3 b4 b5 True b7 # s)"
  "calm (CHR ''<'' # Char False b1 b2 b3 b4 b5 b6 b7 # s) = calm (Char False b1 b2 b3 b4 b5 b6 b7 # s)"
  "calm [] = True"
  by simp_all

lemma no_close_char:
  "no_close (Char True b1 b2 b3 b4 b5 b6 b7 # s) = no_close s"
  "no_close (Char b0 False b2 b3 b4 b5 b6 b7 # s) = no_close s"
  "no_close (Char b0 b1 False b3 b4 b5 b6 b7 # s) = no_close s"
  "no_close (Char b0 b1 b2 False b4 b5 b6 b7 # s) = no_close s"
  "no_close (Char b0 b1 b2 b3 False b5 b6 b7 # s) = no_close s"
  "no_close (Char b0 b1 b2 b3 b4 False b6 b7 # s) = no_close s"
  "no_close (Char b0 b1 b2 b3 b4 b5 True b7 # s) = no_close s"
  "no_close (Char b0 b1 b2 b3 b4 b5 b6 True # s) = no_close s"
  "no_close [] = True"
  by (auto simp: no_close_def)

lemma calm_weak: "calm s = calm s" by (rule refl)

lemma no_close_weak: "no_close s = no_close s" by (rule refl)

lemmas calm_intros = calm_lines_Cons calm_lines_Nil calm_append

lemmas no_close_intros = no_close_lines_Cons no_close_lines_Nil no_close_append

section \<open>The style sheet\<close>

definition page_css_1 :: string where
  "page_css_1 = text_lines
     [(4, ''@font-face { font-family: \"Manrope\"; font-style: normal; font-weight: 400; font-display: swap; src: url(\"/assets/manrope-400.woff2\") format(\"woff2\"); }''),
      (4, ''@font-face { font-family: \"Manrope\"; font-style: normal; font-weight: 600; font-display: swap; src: url(\"/assets/manrope-600.woff2\") format(\"woff2\"); }''),
      (4, ''@font-face { font-family: \"Manrope\"; font-style: normal; font-weight: 700; font-display: swap; src: url(\"/assets/manrope-700.woff2\") format(\"woff2\"); }''),
      (4, ''/* The chosen palette tints the whole UI (homepage-style), not just an accent. */''),
      (4, ''/* Status colors are theme-scoped rather than fixed Tailwind 400''),
      (4, ''   shades: the 400 shades read fine as text on the dark theme's''),
      (4, ''   near-black background but fail contrast badly on light's''),
      (4, ''   near-white one, so light gets darker 600/700 shades instead. */''),
      (4, ''[data-theme=\"dark\"] { color-scheme: dark; --bg: var(--c900); --panel: var(--c800); --text: var(--c50); --muted: var(--c400); --border: var(--c700); --good: #4ade80; --warn: #fbbf24; --danger: #f87171; }''),
      (4, ''[data-theme=\"light\"] { color-scheme: light; --bg: var(--c50); --panel: #ffffff; --text: var(--c900); --muted: var(--c500); --border: var(--c200); --good: #16a34a; --warn: #b45309; --danger: #dc2626; }''),
      (4, ''/* Fluid body gutter (clamp between the old 640px-and-below 1rem and''),
      (4, ''   the old desktop 2rem, scaling with viewport width in between)''),
      (4, ''   replaces the old @media (max-width: 640px) step '' @ [CHR 0xE2, CHR 0x80, CHR 0x94] @ '' see below,''),
      (4, ''   where every other rule that block touched picks up its own''),
      (4, ''   clamp so the breakpoint can go away entirely. */''),
      (4, ''body {''),
      (5, ''margin: 0; padding: clamp(1rem, 3vw, 2rem); background: var(--bg); color: var(--text);''),
      (5, ''font-family: Manrope, system-ui, sans-serif;''),
      (5, ''letter-spacing: 0.1px; -webkit-font-smoothing: antialiased; text-rendering: optimizeLegibility;''),
      (5, ''/* Page-level scrollbar kept subtle (muted against the''),
      (5, ''   palette, not a stock OS gray) rather than colored with''),
      (5, ''   --accent '' @ [CHR 0xE2, CHR 0x80, CHR 0x94] @ '' a scrollbar is chrome, not content, so it''),
      (5, ''   shouldn't compete with the accent used for actual UI''),
      (5, ''   emphasis (tabs, links, focus rings) elsewhere on the''),
      (5, ''   page. */''),
      (5, ''scrollbar-color: color-mix(in srgb, var(--muted) 45%, transparent) var(--bg);''),
      (4, ''}''),
      (4, ''.wrap { max-width: 1200px; margin: 0 auto; position: relative; }''),
      (4, ''[data-full-width] .wrap { max-width: none; }''),
      (4, ''.sample-data-banner {'')]"

definition page_css_2 :: string where
  "page_css_2 = text_lines
     [(5, ''background: color-mix(in srgb, var(--warn) 22%, transparent); color: var(--warn);''),
      (5, ''border: 1px solid color-mix(in srgb, var(--warn) 45%, transparent); border-radius: 0.4rem;''),
      (5, ''padding: 0.5rem 0.9rem; font-size: 0.8rem; font-weight: 600; margin-bottom: 1rem;''),
      (5, ''display: flex; align-items: center; gap: 0.4rem;''),
      (4, ''}''),
      (4, ''.sample-data-banner::before { content: \"'' @ [CHR 0xE2, CHR 0x9A, CHR 0xA0] @ ''\"; }''),
      (4, ''.page-title { margin: 0; font-size: clamp(1.25rem, 1rem + 1.2vw, 1.5rem); }''),
      (4, ''.page-desc { margin: 0.25rem 0 1rem; color: var(--muted); }''),
      (4, ''/* Same translucent-chip treatment as h2 above: the footer sits''),
      (4, ''   directly over any configured background image, so give it its''),
      (4, ''   own chip rather than rendering bare text over the image. */''),
      (4, ''.footer {''),
      (5, ''width: fit-content; margin: 2rem auto 0; text-align: center; font-size: 0.75rem; color: var(--muted);''),
      (5, ''padding: 0.25rem 0.6rem; border-radius: 0.4rem;''),
      (5, ''background: color-mix(in srgb, var(--panel) 85%, transparent);''),
      (4, ''}''),
      (4, ''.header-strip { display: flex; flex-wrap: wrap; flex-grow: 0; gap: clamp(0.6rem, 2vw, 1rem); }''),
      (4, ''/* An empty strip (before the async /header load lands, or a''),
      (4, ''   dashboard with no InfoWidgets bound at all) would otherwise''),
      (4, ''   still occupy a flex slot '' @ [CHR 0xE2, CHR 0x80, CHR 0x94] @ '' insetting the search bar by the row''),
      (4, ''   gap, and rendering a stray empty box under headerStyle: boxed.''),
      (4, ''   idiomorph swaps innerHTML, so :empty re-evaluates once widgets''),
      (4, ''   populate. */''),
      (4, ''.header-strip:empty { display: none; }''),
      (4, ''/* Header row: the info-widget strip and the search bar share one''),
      (4, ''   flex-wrap line by default (search bar inline, to the strip's''),
      (4, ''   right), and only the search bar drops to its own full-width''),
      (4, ''   line once the row runs out of horizontal room '' @ [CHR 0xE2, CHR 0x80, CHR 0x94] @ '' .search-bar's''),
      (4, ''   flex-basis below is the \"no room\" threshold. .header-strip gets''),
      (4, ''   flex-grow: 0 above so the search bar alone absorbs any leftover'')]"

definition page_css_3 :: string where
  "page_css_3 = text_lines
     [(4, ''   horizontal slack; the strip itself never stretches to fill the''),
      (4, ''   row. The row (not its two children) owns the vertical gap above''),
      (4, ''   #cards, since the flex gap already covers the line1'' @ [CHR 0xE2, CHR 0x86, CHR 0x92] @ ''line2 gap''),
      (4, ''   when the search bar wraps. [data-has-switcher] reserves a right''),
      (4, ''   gutter matching .switcher's width so an inline-line1 search bar''),
      (4, ''   never runs underneath the absolutely-positioned switcher''),
      (4, ''   buttons '' @ [CHR 0xE2, CHR 0x80, CHR 0x94] @ '' see the .wrap[data-has-switcher] rule below. */''),
      (4, ''.header-row { display: flex; flex-wrap: wrap; align-items: center; gap: clamp(0.6rem, 2vw, 1rem); margin-bottom: clamp(1rem, 2.5vw, 1.5rem); }''),
      (4, ''.wrap[data-has-switcher] .header-row { padding-right: 4.5rem; }''),
      (4, ''/* Homepage keeps information widgets unboxed unless boxedWidgets is selected. */''),
      (4, ''.header-widget { display: flex; align-items: center; gap: 0.5rem; font-size: 0.9rem; }''),
      (4, ''.header-widget-push-right { margin-left: auto; }''),
      (4, ''/* Fields stack as compact rows (icon/label trailing the value, bar''),
      (4, ''   directly beneath) rather than side-by-side blocks '' @ [CHR 0xE2, CHR 0x80, CHR 0x94] @ '' homepage's own''),
      (4, ''   header widget layout, and a lot denser than laying every field out''),
      (4, ''   horizontally when a widget has more than one. */''),
      (4, ''.header-fields { display: flex; flex-direction: column; gap: 0.15rem; }''),
      (4, ''.header-field { display: flex; flex-direction: column; gap: 0.1rem; min-width: 5rem; }''),
      (4, ''.header-field-row { display: flex; align-items: center; justify-content: space-between; gap: 0.4rem; }''),
      (4, ''.header-field-row img.field-icon { width: 0.8rem; height: 0.8rem; object-fit: contain; opacity: 0.85; flex: none; }''),
      (4, ''.header-field .usage-bar { width: 100%; }''),
      (4, ''.header-field.hl-good .value { color: var(--good); }''),
      (4, ''.header-field.hl-warn .value { color: var(--warn); }''),
      (4, ''.header-field.hl-danger .value { color: var(--danger); }''),
      (4, ''.greeting { font-size: 1.25rem; }''),
      (4, ''.clock { font-size: 1.125rem; font-variant-numeric: tabular-nums; }''),
      (4, ''/* 18rem flex-basis is the \"no room\" threshold (search wraps below''),
      (4, ''   once the strip's widgets + 18rem no longer fit the row); min-width:''),
      (4, ''   0 keeps the wrapped, full-width line-2 bar free to shrink with the''),
      (4, ''   viewport rather than forcing page-level horizontal overflow on very'')]"

definition page_css_4 :: string where
  "page_css_4 = text_lines
     [(4, ''   narrow screens or enlarged root fonts. */''),
      (4, ''.search-bar { flex: 1 1 18rem; min-width: 0; }''),
      (4, ''.search-bar input {''),
      (5, ''width: 100%; box-sizing: border-box; padding: 0.6rem 1rem; font-size: 1rem;''),
      (5, ''border: 1px solid var(--border); border-radius: 0.5rem; background: var(--panel); color: var(--text);''),
      (4, ''}''),
      (4, ''.search-bar input:focus { outline: 2px solid var(--accent); }''),
      (4, ''/* Group headings: text blends the theme's high-contrast foreground''),
      (4, ''   with a slice of the chosen accent color (rather than accent''),
      (4, ''   alone, which can be too close to the background's own dark/muted''),
      (4, ''   tones to stand out '' @ [CHR 0xE2, CHR 0x80, CHR 0x94] @ '' e.g. the default slate palette), and a''),
      (4, ''   subtle translucent chip insulates the text from a background''),
      (4, ''   image regardless of what color ends up behind it. */''),
      (4, ''h2 {''),
      (5, ''font-size: 0.9rem; text-transform: uppercase; letter-spacing: 0.05em;''),
      (5, ''color: color-mix(in srgb, var(--text) 82%, var(--accent) 18%);''),
      (5, ''margin: 1.5rem 0 0.5rem; display: inline-flex; align-items: center; gap: 0.4rem;''),
      (5, ''padding: 0.3rem 0.7rem; border-radius: 0.4rem;''),
      (5, ''background: color-mix(in srgb, var(--panel) 85%, transparent);''),
      (5, ''border: 1px solid color-mix(in srgb, var(--accent) 30%, transparent);''),
      (5, ''text-wrap: balance;''),
      (4, ''}''),
      (4, ''/* Homepage's headerStyle boxes/underlines the header info-widget strip''),
      (4, ''   as a whole, not the service/bookmark group headers below it. */''),
      (4, ''[data-header-style=\"underlined\"] .header-strip { border-bottom: 1px solid var(--accent); padding-bottom: 0.75rem; }''),
      (4, ''[data-header-style=\"boxed\"] .header-strip {''),
      (5, ''background: var(--panel); border: 1px solid var(--border); border-radius: 0.5rem;''),
      (5, ''box-shadow: 0 1px 2px rgba(0, 0, 0, 0.06); padding: 0.75rem 1rem;''),
      (4, ''}''),
      (4, ''/* The boxed/underlined styles treat the header strip as a single'')]"

definition page_css_5 :: string where
  "page_css_5 = text_lines
     [(4, ''   visual block, so keep it full-width (basis 100% takes the whole''),
      (4, ''   first row) with the search bar wrapping onto its own line below '' @ [CHR 0xE2, CHR 0x80, CHR 0x94]),
      (4, ''   otherwise the box/underline would shrink-wrap to the widgets and''),
      (4, ''   float mid-row beside the input. The default (no header style) and''),
      (4, ''   boxedWidgets keep the search bar inline. */''),
      (4, ''[data-header-style=\"underlined\"] .header-strip,''),
      (4, ''[data-header-style=\"boxed\"] .header-strip { flex: 1 1 100%; }''),
      (4, ''[data-header-style=\"boxedWidgets\"] .header-widget {''),
      (5, ''background: var(--panel); border: 1px solid var(--border); border-radius: 0.5rem;''),
      (5, ''box-shadow: 0 1px 2px rgba(0, 0, 0, 0.06); padding: 0.5rem 0.9rem;''),
      (4, ''}''),
      (4, ''details.group summary {''),
      (5, ''font-size: 0.9rem; text-transform: uppercase; letter-spacing: 0.05em;''),
      (5, ''color: color-mix(in srgb, var(--text) 82%, var(--accent) 18%);''),
      (5, ''margin: 1.5rem 0 0.5rem; cursor: pointer; list-style: none; display: inline-flex; align-items: center; gap: 0.4rem;''),
      (5, ''padding: 0.3rem 0.7rem; border-radius: 0.4rem;''),
      (5, ''background: color-mix(in srgb, var(--panel) 85%, transparent);''),
      (5, ''border: 1px solid color-mix(in srgb, var(--accent) 30%, transparent);''),
      (5, ''text-wrap: balance;''),
      (4, ''}''),
      (4, ''details.group summary::-webkit-details-marker { display: none; }''),
      (4, ''details.group summary::before { content: \"'' @ [CHR 0xE2, CHR 0x96, CHR 0xB8] @ ''\"; display: inline-block; transition: transform .12s ease; font-size: 0.7em; }''),
      (4, ''details.group[open] summary::before { transform: rotate(90deg); }''),
      (4, ''details.group > .grid { margin-top: 0.5rem; }''),
      (4, ''/* Nested service groups (homepage parity, up to 3 levels deep '' @ [CHR 0xE2, CHR 0x80, CHR 0x94] @ '' see''),
      (4, ''   docs/design/nested-groups.md): .subgroups (cards.templ's''),
      (4, ''   serviceSubgroups) is a grid '' @ [CHR 0xE2, CHR 0x80, CHR 0x94] @ '' carrying the parent group's own''),
      (4, ''   Columns/Style, so subgroups flow into the parent's layout instead''),
      (4, ''   of stacking '' @ [CHR 0xE2, CHR 0x80, CHR 0x94] @ '' wrapping each child group's own <details>/plain''),
      (4, ''   block, so collapsing the parent hides them for free. Each level'')]"

definition page_css_6 :: string where
  "page_css_6 = text_lines
     [(4, ''   still steps its summary/h2 heading down the type scale, so a''),
      (4, ''   subgroup's heading reads visually subordinate to its parent's. */''),
      (4, ''.subgroups details.group summary, .subgroups h2 { font-size: 0.82rem; margin-top: 1rem; }''),
      (4, ''.subgroups .subgroups details.group summary, .subgroups .subgroups h2 { font-size: 0.76rem; }''),
      (4, ''.grid.grid-equal { align-items: stretch; }''),
      (4, ''.grid.grid-equal .card { display: flex; flex-direction: column; height: 100%; box-sizing: border-box; }''),
      (4, ''.tabs { display: flex; flex-wrap: wrap; gap: 0.5rem; margin-bottom: 1rem; }''),
      (4, ''.tab-btn {''),
      (5, ''background: var(--panel); color: var(--text); border: 1px solid var(--border);''),
      (5, ''border-radius: 0.4rem; padding: 0.4rem 0.9rem; font-size: 0.9rem; cursor: pointer;''),
      (4, ''}''),
      (4, ''/* Filled rather than accent-colored text: a neutral accent (e.g. the''),
      (4, ''   default slate palette) sits close to --text in luminance, so an''),
      (4, ''   outline-only active state can read dimmer than the inactive tabs''),
      (4, ''   around it '' @ [CHR 0xE2, CHR 0x80, CHR 0x94] @ '' hue alone isn't a reliable emphasis cue. --bg always''),
      (4, ''   contrasts with a mid-tone accent (near-black on dark, near-white''),
      (4, ''   on light), and the added font-weight gives a non-color cue too. */''),
      (4, ''.tab-btn.active { background: var(--accent); border-color: var(--accent); color: var(--bg); font-weight: 700; }''),
      (4, ''.tab-panel.hidden { display: none; }''),
      (4, ''/* auto-fit (not auto-fill): auto-fill would reserve empty ghost''),
      (4, ''   tracks for cards that don't exist yet, leaving an ugly gap''),
      (4, ''   after the last card on a wide viewport with few cards;''),
      (4, ''   auto-fit collapses those tracks and lets the existing cards''),
      (4, ''   grow to fill the row instead. min(220px, 100%) as the floor''),
      (4, ''   (rather than a bare 220px) keeps a single card from''),
      (4, ''   overflowing a viewport narrower than 220px. */''),
      (4, ''.grid { display: grid; grid-template-columns: repeat(auto-fit, minmax(min(220px, 100%), 1fr)); gap: 1rem; }''),
      (4, ''/* Row groups (style: row WITHOUT explicit columns '' @ [CHR 0xE2, CHR 0x80, CHR 0x94] @ '' see''),
      (4, ''   gridClasses in render_helpers.go) scroll within their own box''),
      (4, ''   rather than widening the page past the viewport once more cards'')]"

definition page_css_7 :: string where
  "page_css_7 = text_lines
     [(4, ''   are bound than fit. scroll-snap settles the horizontal scroll on''),
      (4, ''   a card boundary instead of leaving it stopped mid-card. */''),
      (4, ''/* scrollbar-width/-color theme this track to the palette''),
      (4, ''   (muted, translucent) instead of the OS default gray, same''),
      (4, ''   subtlety rationale as body's page-level scrollbar above. */''),
      (4, ''.grid.grid-row { grid-auto-flow: column; grid-template-columns: none; grid-auto-columns: minmax(min(220px, 100%), 1fr); overflow-x: auto; padding-bottom: 0.25rem; scroll-snap-type: x proximity; scrollbar-width: thin; scrollbar-color: color-mix(in srgb, var(--muted) 45%, transparent) transparent; }''),
      (4, ''.grid.grid-row > .card { scroll-snap-align: start; }''),
      (4, ''.card {''),
      (5, ''background: color-mix(in srgb, var(--panel) var(--card-opacity, 72%), transparent);''),
      (5, ''border: 1px solid color-mix(in srgb, var(--border) 35%, transparent);''),
      (5, ''border-radius: 0.5rem; padding: 1rem; display: block; text-decoration: none; color: inherit;''),
      (5, ''box-shadow: 0 1px 2px rgba(0, 0, 0, 0.06);''),
      (5, ''backdrop-filter: var(--card-backdrop, none); -webkit-backdrop-filter: var(--card-backdrop, none);''),
      (5, ''transition: transform .15s ease, box-shadow .15s ease, border-color .15s ease;''),
      (5, ''container-type: inline-size;''),
      (4, ''}''),
      (4, ''.card:hover {''),
      (5, ''transform: translateY(-2px); box-shadow: 0 6px 16px rgba(0, 0, 0, 0.18);''),
      (5, ''border-color: color-mix(in srgb, var(--accent) 55%, transparent);''),
      (4, ''}''),
      (4, ''/* Card title/icon scale with the card's own width (.card is an''),
      (4, ''   inline-size container '' @ [CHR 0xE2, CHR 0x80, CHR 0x94] @ '' see above), same precedent as''),
      (4, ''   .status-pill below: a narrow card (small Columns count, or a''),
      (4, ''   narrow viewport) shrinks its heading smoothly instead of''),
      (4, ''   wrapping/truncating immediately. Each clamp's cap equals this''),
      (4, ''   stylesheet's previous fixed size, and each cqw slope is''),
      (4, ''   calibrated to reach that cap at exactly the grid's 220px''),
      (4, ''   track floor (cap-in-px / 220 per cqw) '' @ [CHR 0xE2, CHR 0x80, CHR 0x94] @ '' so any card at or''),
      (4, ''   above the floor renders identically to before, and shrinking''),
      (4, ''   only starts below it. */'')]"

definition page_css_8 :: string where
  "page_css_8 = text_lines
     [(4, ''/* No flex-wrap here on purpose: with it, a long title would make''),
      (4, ''   flexbox drop the whole .status-indicators onto a second flex''),
      (4, ''   line (the line-break step ignores flex-shrink), shoving the''),
      (4, ''   pills below the title. Instead the title (.card-title below) is''),
      (4, ''   the single shrinkable item and wraps INTERNALLY, so the pills''),
      (4, ''   stay on this one line, pinned to the top via align-self. An''),
      (4, ''   ultra-narrow card degrades gracefully: the title keeps wrapping''),
      (4, ''   and the pills shrink (cqw font below) / wrap within their own''),
      (4, ''   flex-wrapping .status-indicators box, rather than dropping under''),
      (4, ''   the title. */''),
      (4, ''.card h3 { margin: 0 0 0.5rem; font-size: clamp(0.85rem, 7.3cqw, 1rem); display: flex; align-items: center; gap: 0.6rem; }''),
      (4, ''.card h3 .card-title { flex: 1 1 auto; min-width: 0; }''),
      (4, ''.card h3 a { color: inherit; text-decoration: none; }''),
      (4, ''.card h3 a:hover { color: var(--accent); }''),
      (4, ''img.icon { width: 1.2rem; height: 1.2rem; object-fit: contain; }''),
      (4, ''.card h3 img.icon { width: clamp(1.4rem, 14.6cqw, 2rem); height: clamp(1.4rem, 14.6cqw, 2rem); }''),
      (4, ''.status-indicators { display: flex; align-items: center; flex-wrap: wrap; gap: 0.35rem; margin-left: auto; align-self: flex-start; min-width: 0; }''),
      (4, ''.status-dot { display: inline-block; width: 0.6rem; height: 0.6rem; border-radius: 50%; background: var(--muted); }''),
      (4, ''.status-dot.status-Up { background: var(--good); }''),
      (4, ''.status-dot.status-Partial { background: var(--warn); }''),
      (4, ''.status-dot.status-Down { background: var(--danger); }''),
      (4, ''/* Pill metrics are em-based off a container-query-scaled font-size:''),
      (4, ''   on a narrow card (.card is an inline-size container) the whole''),
      (4, ''   pill '' @ [CHR 0xE2, CHR 0x80, CHR 0x94] @ '' dot, padding, text '' @ [CHR 0xE2, CHR 0x80, CHR 0x94] @ '' shrinks smoothly down to a 0.36rem''),
      (4, ''   floor, then wraps within .status-indicators, as the title''),
      (4, ''   (.card-title) wraps internally beside it. The clamp() cap also''),
      (4, ''   bounds the cqw unit's no-container (older-browser) viewport''),
      (4, ''   fallback. */''),
      (4, ''.status-pill { display: inline-flex; align-items: center; gap: 0.48em; font-size: clamp(0.36rem, 2.6cqw, 0.43rem); font-weight: 700; text-transform: uppercase; letter-spacing: 0.06em; padding: 0.24em 0.83em 0.24em 0.76em; border-radius: 999px; white-space: nowrap; background: color-mix(in srgb, var(--muted) 14%, transparent); border: 1px solid color-mix(in srgb, var(--muted) 38%, transparent); color: var(--muted); }''),
      (4, ''.status-pill::before { content: \"\"; width: 0.64em; height: 0.64em; border-radius: 50%; background: currentColor; flex: none; }'')]"

definition page_css_9 :: string where
  "page_css_9 = text_lines
     [(4, ''.status-pill .detail { opacity: 0.72; font-weight: 600; white-space: pre; }''),
      (4, ''.status-pill.status-Up { background: color-mix(in srgb, var(--good) 14%, transparent); border-color: color-mix(in srgb, var(--good) 38%, transparent); color: var(--good); }''),
      (4, ''.status-pill.status-Partial { background: color-mix(in srgb, var(--warn) 14%, transparent); border-color: color-mix(in srgb, var(--warn) 38%, transparent); color: var(--warn); }''),
      (4, ''.status-pill.status-Down { background: color-mix(in srgb, var(--danger) 14%, transparent); border-color: color-mix(in srgb, var(--danger) 38%, transparent); color: var(--danger); }''),
      (4, ''.stats { display: flex; flex-direction: row; width: 100%; margin-top: 0.5rem; }''),
      (4, ''.grid.grid-equal .card .stats { margin-top: auto; }''),
      (4, ''.stat {''),
      (5, ''flex: 1 1 0%; margin: 0.15rem; padding: 0.25rem;''),
      (5, ''background: color-mix(in srgb, var(--muted) 14%, transparent);''),
      (5, ''border-radius: 0.25rem;''),
      (5, ''display: flex; flex-direction: column; align-items: center; justify-content: center; text-align: center;''),
      (5, ''line-height: 1.2; min-width: 0;''),
      (4, ''}''),
      (4, ''/* clamp() is the natural/max size (and the no-JS fallback);''),
      (4, ''   white-space: nowrap keeps each on one line so fitStatText()''),
      (4, ''   (see the script below) can shrink the font to fit a long''),
      (4, ''   single word instead of the browser wrapping it. */''),
      (4, ''.stat .value { font-size: clamp(0.7rem, 6.2cqw, 0.85rem); font-weight: 300; max-width: 100%; white-space: nowrap; }''),
      (4, ''.stat .label { font-size: clamp(0.55rem, 4.5cqw, 0.62rem); font-weight: 700; text-transform: uppercase; letter-spacing: 0.04em; max-width: 100%; white-space: nowrap; }''),
      (4, ''/* Below 180px a widget with 3+ stats in a single flex row crushes''),
      (4, ''   each one down to a sliver even with the clamp()s above '' @ [CHR 0xE2, CHR 0x80, CHR 0x94] @ '' switch''),
      (4, ''   to a wrapping 2-up layout instead so each stat keeps a usable''),
      (4, ''   minimum width. */''),
      (4, ''@container (max-width: 180px) {''),
      (5, ''.stats { flex-wrap: wrap; }''),
      (5, ''.stat { flex: 1 1 calc(50% - 0.3rem); }''),
      (4, ''}''),
      (4, ''.stat-good { background: color-mix(in srgb, var(--good) 22%, transparent); }''),
      (4, ''.stat-good .value { color: var(--good); }''),
      (4, ''.stat-warn { background: color-mix(in srgb, var(--warn) 22%, transparent); }'')]"

definition page_css_10 :: string where
  "page_css_10 = text_lines
     [(4, ''.stat-warn .value { color: var(--warn); }''),
      (4, ''.stat-danger { background: color-mix(in srgb, var(--danger) 22%, transparent); }''),
      (4, ''.stat-danger .value { color: var(--danger); }''),
      (4, ''.card-iframe { width: 100%; margin-top: 0.5rem; border: 0; border-radius: 0.25rem; }''),
      (4, ''.usage-bar { width: 100%; height: 4px; margin-top: 0.3rem; border-radius: 2px; overflow: hidden; background: color-mix(in srgb, var(--muted) 25%, transparent); }''),
      (4, ''.usage-bar-fill { height: 100%; background: var(--accent); border-radius: 2px; }''),
      (4, ''.stat-good .usage-bar-fill { background: var(--good); }''),
      (4, ''.stat-warn .usage-bar-fill { background: var(--warn); }''),
      (4, ''.stat-danger .usage-bar-fill { background: var(--danger); }''),
      (4, ''.field { display: flex; justify-content: space-between; font-size: clamp(0.72rem, 6.2cqw, 0.85rem); padding: 0.15rem 0; }''),
      (4, ''.field .label { color: var(--muted); }''),
      (4, ''/* Bookmark groups (homepage parity: bookmarks.yaml groups render as''),
      (4, ''   side-by-side columns, not stacked full-width blocks) '' @ [CHR 0xE2, CHR 0x80, CHR 0x94] @ '' one grid''),
      (4, ''   item per top-level group (cards.templ's Cards templ), sized like''),
      (4, ''   the service-card grid's own minmax floor. A group's own''),
      (4, ''   columns/style layout entry still governs the grid INSIDE that''),
      (4, ''   group's cell (bookmarkCardGrid), unaffected by this wrapper. */''),
      (4, ''.bookmark-groups { display: grid; grid-template-columns: repeat(auto-fit, minmax(min(220px, 100%), 1fr)); gap: 1rem; align-items: start; }''),
      (4, ''.card.bookmark { display: flex; align-items: center; gap: 0.65rem; padding: 0.6rem 0.8rem; }''),
      (4, ''.card.bookmark h3 { margin: 0; font-size: 0.9rem; }''),
      (4, ''.card.bookmark-icons-only { justify-content: center; padding: 0.6rem; }''),
      (4, ''.abbr { display: inline-flex; align-items: center; justify-content: center; width: 1.6rem; height: 1.6rem; flex: none; border-radius: 0.4rem; background: var(--accent); color: #fff; font-size: 0.7rem; font-weight: 700; }''),
      (4, ''.desc { font-size: clamp(0.7rem, 5.9cqw, 0.8rem); color: var(--muted); text-wrap: pretty; }''),
      (4, ''.err { color: var(--danger); font-size: 0.85rem; display: flex; align-items: center; gap: 0.35rem; }''),
      (4, ''.err::before { content: \"'' @ [CHR 0xE2, CHR 0x9A, CHR 0xA0] @ ''\"; }''),
      (4, ''/* .ql-box is itself the popover (popover=\"auto\" in the markup''),
      (4, ''   below) rather than a plain child of a hand-rolled full-screen''),
      (4, ''   overlay div: that makes the dimmed area behind it a real''),
      (4, ''   ::backdrop (top-layer, no z-index bookkeeping needed) and''),
      (4, ''   makes a click anywhere outside the box itself '' @ [CHR 0xE2, CHR 0x80, CHR 0x94] @ '' including on'')]"

definition page_css_11 :: string where
  "page_css_11 = text_lines
     [(4, ''   that backdrop '' @ [CHR 0xE2, CHR 0x80, CHR 0x94] @ '' count as \"outside the popover\" for the''),
      (4, ''   browser's own light-dismiss, which is exactly the manual''),
      (4, ''   click-outside handler this used to need. Positioning is''),
      (4, ''   explicit (fixed/top/left/translate) rather than relying on''),
      (4, ''   the UA popover stylesheet's own inset:0;margin:auto''),
      (4, ''   auto-centering, since the design wants it anchored near the''),
      (4, ''   top of the viewport, not vertically centered. */''),
      (4, ''.ql-box {''),
      (5, ''position: fixed; top: 12vh; left: 50%; translate: -50% 0; margin: 0;''),
      (5, ''width: min(560px, 92vw); background: var(--panel); border: 1px solid color-mix(in srgb, var(--border) 45%, transparent);''),
      (5, ''border-radius: 0.6rem; box-shadow: 0 20px 60px rgba(0, 0, 0, 0.4); overflow: hidden;''),
      (4, ''}''),
      (4, ''.ql-box::backdrop { background: rgba(0, 0, 0, 0.5); }''),
      (4, ''.ql-box input { width: 100%; box-sizing: border-box; padding: 0.9rem 1rem; font-size: 1.05rem; border: none; background: transparent; color: var(--text); outline: none; }''),
      (4, ''.ql-results { max-height: 50vh; overflow-y: auto; scrollbar-width: thin; scrollbar-color: color-mix(in srgb, var(--muted) 45%, transparent) transparent; }''),
      (4, ''.ql-item { display: flex; align-items: center; gap: 0.6rem; padding: 0.55rem 1rem; cursor: pointer; color: inherit; text-decoration: none; }''),
      (4, ''.ql-item.active { background: color-mix(in srgb, var(--accent) 18%, transparent); }''),
      (4, ''.ql-item img { width: 1.1rem; height: 1.1rem; object-fit: contain; }''),
      (4, ''.ql-item .ql-sub { margin-left: auto; font-size: 0.7rem; color: var(--muted); }''),
      (4, ''.switcher { position: absolute; top: 0; right: 0; display: flex; gap: 0.4rem; }''),
      (4, ''.switcher-btn {''),
      (5, ''background: var(--panel); color: var(--text); border: 1px solid var(--border);''),
      (5, ''border-radius: 0.4rem; width: 2rem; height: 2rem; font-size: 0.95rem; cursor: pointer;''),
      (5, ''display: inline-flex; align-items: center; justify-content: center; padding: 0;''),
      (4, ''}''),
      (4, ''.switcher-btn:hover { border-color: color-mix(in srgb, var(--accent) 55%, transparent); }''),
      (4, ''.color-swatch { width: 1.1rem; height: 1.1rem; border-radius: 50%; background: var(--accent); border: 1px solid color-mix(in srgb, var(--border) 60%, transparent); }''),
      (4, ''/* .color-menu is a popover (popover=\"auto\" in the markup below),''),
      (4, ''   promoted to the top layer once open '' @ [CHR 0xE2, CHR 0x80, CHR 0x94] @ '' no z-index bookkeeping''),
      (4, ''   needed against the rest of the page, and the browser's own'')]"

definition page_css_12 :: string where
  "page_css_12 = text_lines
     [(4, ''   light-dismiss/Escape handling replaces the old''),
      (4, ''   click-outside/keydown JS. That promotion also means it's no''),
      (4, ''   longer laid out relative to the .switcher-btn that opens it''),
      (4, ''   (the old `position: absolute; right: 0` was relative to a''),
      (4, ''   `position: relative` wrapper around the button, which a''),
      (4, ''   top-layer element ignores), so this fixed position under the''),
      (4, ''   switcher corner is a reasonable non-anchor-positioning''),
      (4, ''   fallback; the real fix (tying it to the button precisely) is''),
      (4, ''   CSS anchor positioning, gated behind @supports below. */''),
      (4, ''.color-menu {''),
      (5, ''position: fixed; top: 3.5rem; right: clamp(1rem, 3vw, 2rem); margin: 0;''),
      (5, ''grid-template-columns: repeat(7, 1.4rem); gap: 0.35rem; padding: 0.5rem;''),
      (5, ''background: var(--panel); border: 1px solid var(--border); border-radius: 0.5rem; box-shadow: 0 8px 24px rgba(0, 0, 0, 0.3);''),
      (4, ''}''),
      (4, ''.color-menu:popover-open { display: grid; }''),
      (4, ''.color-menu button { width: 1.4rem; height: 1.4rem; border-radius: 50%; border: 1px solid color-mix(in srgb, var(--border) 60%, transparent); cursor: pointer; padding: 0; }''),
      (4, ''/* CSS anchor positioning ties the menu to the switcher button''),
      (4, ''   it opens from, replacing the fixed-corner guess above with''),
      (4, ''   the menu's actual position: anchor-name on the button,''),
      (4, ''   position-anchor + position-area on the menu (top-layer''),
      (4, ''   popovers can still participate in anchor positioning even''),
      (4, ''   though they're no longer laid out relative to their DOM''),
      (4, ''   ancestor '' @ [CHR 0xE2, CHR 0x80, CHR 0x94] @ '' see the .color-menu comment above). Gated behind''),
      (4, ''   @supports since anchor positioning isn't supported''),
      (4, ''   everywhere the rest of this stylesheet's Baseline features''),
      (4, ''   are yet; the fixed fallback above still applies otherwise. */''),
      (4, ''@supports (anchor-name: --color-switcher-btn) {''),
      (5, ''#color-switcher-btn { anchor-name: --color-switcher-btn; }''),
      (5, ''.color-menu {''),
      (6, ''position-anchor: --color-switcher-btn;'')]"

definition page_css_13 :: string where
  "page_css_13 = text_lines
     [(6, ''position-area: bottom span-left;''),
      (6, ''top: auto; right: auto; margin-top: 0.3rem;''),
      (5, ''}''),
      (4, ''}''),
      (4, ''/* Motion-sensitive users get the same end states (hover lift,''),
      (4, ''   open caret) instantly rather than animated. Targeted rules''),
      (4, ''   rather than a blanket \"* { transition: none }\", matching this''),
      (4, ''   stylesheet's existing preference for specific selectors. */''),
      (4, ''@media (prefers-reduced-motion: reduce) {''),
      (5, ''.card { transition: none; }''),
      (5, ''details.group summary::before { transition: none; }''),
      (5, ''/* Same-document View Transitions (see the script below) cross-fade''),
      (5, ''   #cards/#header updates and tab switches; motion-sensitive users''),
      (5, ''   get the same before/after states with no animation at all. */''),
      (5, ''::view-transition-group('' @ [CHR 0x2A] @ ''), ::view-transition-old('' @ [CHR 0x2A] @ ''), ::view-transition-new('' @ [CHR 0x2A] @ '') { animation: none !important; }''),
      (4, ''}'')]"

definition page_css :: string where
  "page_css = page_css_1 @ page_css_2 @ page_css_3 @ page_css_4 @ page_css_5 @ page_css_6 @ page_css_7 @ page_css_8 @ page_css_9 @ page_css_10 @ page_css_11 @ page_css_12 @ page_css_13"

lemma page_css_1_calm: "calm page_css_1"
  unfolding page_css_1_def by (intro calm_intros; simp only: calm_char cong: calm_weak)

lemma page_css_2_calm: "calm page_css_2"
  unfolding page_css_2_def by (intro calm_intros; simp only: calm_char cong: calm_weak)

lemma page_css_3_calm: "calm page_css_3"
  unfolding page_css_3_def by (intro calm_intros; simp only: calm_char cong: calm_weak)

lemma page_css_4_calm: "calm page_css_4"
  unfolding page_css_4_def by (intro calm_intros; simp only: calm_char cong: calm_weak)

lemma page_css_5_calm: "calm page_css_5"
  unfolding page_css_5_def by (intro calm_intros; simp only: calm_char cong: calm_weak)

lemma page_css_6_calm: "calm page_css_6"
  unfolding page_css_6_def by (intro calm_intros; simp only: calm_char cong: calm_weak)

lemma page_css_7_calm: "calm page_css_7"
  unfolding page_css_7_def by (intro calm_intros; simp only: calm_char cong: calm_weak)

lemma page_css_8_calm: "calm page_css_8"
  unfolding page_css_8_def by (intro calm_intros; simp only: calm_char cong: calm_weak)

lemma page_css_9_calm: "calm page_css_9"
  unfolding page_css_9_def by (intro calm_intros; simp only: calm_char cong: calm_weak)

lemma page_css_10_calm: "calm page_css_10"
  unfolding page_css_10_def by (intro calm_intros; simp only: calm_char cong: calm_weak)

lemma page_css_11_calm: "calm page_css_11"
  unfolding page_css_11_def by (intro calm_intros; simp only: calm_char cong: calm_weak)

lemma page_css_12_calm: "calm page_css_12"
  unfolding page_css_12_def by (intro calm_intros; simp only: calm_char cong: calm_weak)

lemma page_css_13_calm: "calm page_css_13"
  unfolding page_css_13_def by (intro calm_intros; simp only: calm_char cong: calm_weak)

lemma page_css_calm: "calm page_css"
  unfolding page_css_def by (intro calm_append page_css_1_calm page_css_2_calm page_css_3_calm page_css_4_calm page_css_5_calm page_css_6_calm page_css_7_calm page_css_8_calm page_css_9_calm page_css_10_calm page_css_11_calm page_css_12_calm page_css_13_calm)

section \<open>The script of the switcher\<close>

definition switcher_js :: string where
  "switcher_js = text_lines
     [(5, ''// Apply any stored theme/color override before first paint''),
      (5, ''// (standard dark-mode-FOUC-avoidance pattern), only for the axis''),
      (5, ''// that isn't fixed by the Dashboard's spec.style. window.__paletteRamps is also''),
      (5, ''// read by the switcher click handlers further down the page.''),
      (5, ''(function () {''),
      (6, ''var cfg = JSON.parse(document.getElementById(\"switcher-config\").textContent);''),
      (6, ''var ramps = JSON.parse(document.getElementById(\"palette-ramps\").textContent);''),
      (6, ''window.__paletteRamps = ramps;''),
      (6, ''if (!cfg.themeFixed) {''),
      (7, ''var theme = localStorage.getItem(\"kubepage-theme\");''),
      (7, ''if (theme) document.documentElement.setAttribute(\"data-theme\", theme);''),
      (6, ''}''),
      (6, ''if (!cfg.colorFixed) {''),
      (7, ''var color = localStorage.getItem(\"kubepage-color\");''),
      (7, ''var ramp = color && ramps[color];''),
      (7, ''if (ramp) applyPaletteVars(ramp);''),
      (6, ''}''),
      (5, ''})();''),
      (5, ''// Shared by the FOUC-avoidance script above and the''),
      (5, ''// color-switcher click handler further down the page.''),
      (5, ''function applyPaletteVars(ramp) {''),
      (6, ''var el = document.documentElement;''),
      (6, ''el.style.setProperty(\"--accent\", ramp.accent);''),
      (6, ''[\"c50\", \"c100\", \"c200\", \"c300\", \"c400\", \"c500\", \"c600\", \"c700\", \"c800\", \"c900\"].forEach(function (k) {''),
      (7, ''el.style.setProperty(\"--\" + k, ramp[k]);''),
      (6, ''});''),
      (5, ''}'')]"

lemma switcher_js_calm: "calm switcher_js"
  unfolding switcher_js_def by (intro calm_intros; simp only: calm_char cong: calm_weak)

section \<open>The script of the page\<close>

definition page_js_1 :: string where
  "page_js_1 = text_lines
     [(4, ''// htmx's own hx-trigger event-filter syntax (e.g.''),
      (4, ''// \"every 10s[document.visibilityState === 'visible']\") evaluates''),
      (4, ''// the bracketed expression via the Function constructor, which the''),
      (4, ''// page's nonce-based CSP (script-src 'self' 'nonce-...', no''),
      (4, ''// 'unsafe-eval' '' @ [CHR 0xE2, CHR 0x80, CHR 0x94] @ '' see server.go's securityHeaders) rejects outright.''),
      (4, ''// allowEval = false makes htmx fail loudly instead of silently if''),
      (4, ''// any future hx-trigger reintroduces a filter, and the''),
      (4, ''// htmx:beforeRequest listener below reimplements the same''),
      (4, ''// \"skip polling while the tab is hidden\" behavior without eval,''),
      (4, ''// for the #header/#cards interval triggers.''),
      (4, ''htmx.config.allowEval = false;''),
      (4, ''document.body.addEventListener(\"htmx:beforeRequest\", function (e) {''),
      (5, ''if (document.visibilityState !== \"visible\") {''),
      (6, ''e.preventDefault();''),
      (5, ''}''),
      (4, ''});''),
      (0, []),
      (4, ''const searchConfig = JSON.parse(document.getElementById(\"search-config\").textContent);''),
      (0, []),
      (4, ''function searchURL(query) {''),
      (5, ''const q = encodeURIComponent(query);''),
      (5, ''switch (searchConfig.provider) {''),
      (6, ''case \"google\": return \"https://www.google.com/search?q=\" + q;''),
      (6, ''case \"bing\": return \"https://www.bing.com/search?q=\" + q;''),
      (6, ''case \"custom\": return searchConfig.url + (searchConfig.url.indexOf(\"?\") >= 0 ? \"&\" : \"?\") + \"q=\" + q;''),
      (6, ''default: return \"https://duckduckgo.com/?q=\" + q;''),
      (5, ''}''),
      (4, ''}''),
      (0, []),
      (4, ''document.getElementById(\"search-input\").addEventListener(\"keydown\", function (e) {'')]"

definition page_js_2 :: string where
  "page_js_2 = text_lines
     [(5, ''if (e.key !== \"Enter\") return;''),
      (5, ''const q = e.target.value.trim();''),
      (5, ''if (!q) return;''),
      (5, ''window.open(searchURL(q), searchConfig.target || \"_blank\");''),
      (4, ''});''),
      (0, []),
      (4, ''if (searchConfig.filterCards) {''),
      (5, ''document.getElementById(\"search-input\").addEventListener(\"input\", function (e) {''),
      (6, ''const q = e.target.value.toLowerCase();''),
      (6, ''document.querySelectorAll(\"[data-name]\").forEach(function (card) {''),
      (7, ''const haystack = (card.dataset.name + \" \" + (card.dataset.description || \"\")).toLowerCase();''),
      (7, ''card.style.display = haystack.includes(q) ? \"\" : \"none\";''),
      (6, ''});''),
      (5, ''});''),
      (4, ''}''),
      (0, []),
      (4, ''// Push-based refresh: GET /events is a Server-Sent Events stream that''),
      (4, ''// emits a \"fragmentChanged\"/\"headerChanged\" event the moment a poll''),
      (4, ''// cycle actually changes what /fragment or /header would render (see''),
      (4, ''// Server.handleEvents), so the two htmx-polled divs above can be''),
      (4, ''// re-fetched immediately instead of waiting for their own interval''),
      (4, ''// trigger. That interval trigger stays wired up regardless '' @ [CHR 0xE2, CHR 0x80, CHR 0x94] @ '' as a''),
      (4, ''// fallback for a browser without EventSource, and to recover once the''),
      (4, ''// SSE connection itself drops (the browser retries it automatically,''),
      (4, ''// per the EventSource spec, but a poll in the meantime keeps the page''),
      (4, ''// from going stale for however long that takes). htmx.ajax's own''),
      (4, ''// hx-swap=\"morph:innerHTML\" keeps the push and interval paths''),
      (4, ''// rendering identically '' @ [CHR 0xE2, CHR 0x80, CHR 0x94] @ '' but only once htmx knows to use the morph''),
      (4, ''// extension at all: htmx resolves which extensions apply from the''),
      (4, ''// *source*/context element passed to htmx.ajax, not from the target'')]"

definition page_js_3 :: string where
  "page_js_3 = text_lines
     [(4, ''// being swapped into, and without an explicit source it falls back to''),
      (4, ''// document.body. #cards/#header carry hx-ext=\"morph\" themselves, but''),
      (4, ''// document.body sits outside that scope, so an unqualified call here''),
      (4, ''// would silently degrade \"morph:innerHTML\" to a plain innerHTML''),
      (4, ''// replace '' @ [CHR 0xE2, CHR 0x80, CHR 0x94] @ '' a full DOM teardown/rebuild on every push event instead of''),
      (4, ''// an in-place patch. Passing source explicitly (and, as a second line''),
      (4, ''// of defense, hx-ext=\"morph\" on <body> itself below) keeps that from''),
      (4, ''// happening regardless of which element ends up as target.''),
      (4, ''// Same-document View Transitions (Baseline 2024) cross-fade a''),
      (4, ''// push-driven #cards/#header update instead of popping the new''),
      (4, ''// content in. Feature-detected '' @ [CHR 0xE2, CHR 0x80, CHR 0x94] @ '' a browser without''),
      (4, ''// document.startViewTransition just runs the update function''),
      (4, ''// directly, i.e. exactly today's behavior. htmx.ajax(...) returns''),
      (4, ''// a promise that resolves once the request has been swapped AND''),
      (4, ''// settled, so passing it straight to startViewTransition's''),
      (4, ''// callback is the correct \"wait for the DOM update\" signal: the''),
      (4, ''// transition captures the \"old\" snapshot before the callback''),
      (4, ''// runs, waits for the returned promise, then captures \"new\" and''),
      (4, ''// cross-fades between them.''),
      (4, ''//''),
      (4, ''// Overlapping transitions are coalesced rather than queued: the''),
      (4, ''// View Transitions API doesn't support nesting, so if one is''),
      (4, ''// already in flight (e.g. a fragment update still settling when''),
      (4, ''// a tab switch or another push event fires) the newer update''),
      (4, ''// just runs immediately, without its own transition, rather than''),
      (4, ''// waiting its turn '' @ [CHR 0xE2, CHR 0x80, CHR 0x94] @ '' a skipped cross-fade reads as far less''),
      (4, ''// janky than a delayed DOM update.''),
      (4, ''let activeViewTransition = null;''),
      (4, ''function withViewTransition(update) {''),
      (5, ''if (!document.startViewTransition || activeViewTransition) {'')]"

definition page_js_4 :: string where
  "page_js_4 = text_lines
     [(6, ''update();''),
      (6, ''return;''),
      (5, ''}''),
      (5, ''activeViewTransition = document.startViewTransition(update);''),
      (5, ''activeViewTransition.finished.finally(function () {''),
      (6, ''activeViewTransition = null;''),
      (5, ''});''),
      (4, ''}''),
      (0, []),
      (4, ''if (window.EventSource) {''),
      (5, ''const events = new EventSource(\"/events\");''),
      (5, ''events.addEventListener(\"fragmentChanged\", function () {''),
      (6, ''withViewTransition(function () {''),
      (7, ''return htmx.ajax(\"GET\", \"/fragment\", { source: \"#cards\", target: \"#cards\", swap: \"morph:innerHTML\" });''),
      (6, ''});''),
      (5, ''});''),
      (5, ''events.addEventListener(\"headerChanged\", function () {''),
      (6, ''withViewTransition(function () {''),
      (7, ''return htmx.ajax(\"GET\", \"/header\", { source: \"#header\", target: \"#header\", swap: \"morph:innerHTML\" });''),
      (6, ''});''),
      (5, ''});''),
      (4, ''}''),
      (0, []),
      (4, ''// Refocus catch-up: the hx-trigger interval polls above are''),
      (4, ''// gated to `document.visibilityState === 'visible'`, so their''),
      (4, ''// underlying setInterval keeps ticking on its own schedule''),
      (4, ''// while the tab is hidden '' @ [CHR 0xE2, CHR 0x80, CHR 0x94] @ '' becoming visible again doesn't''),
      (4, ''// reset it, so the next poll can be up to a full''),
      (4, ''// RefreshSeconds away. EventSource itself isn't''),
      (4, ''// visibility-gated, but a background tab can still have its'')]"

definition page_js_5 :: string where
  "page_js_5 = text_lines
     [(4, ''// SSE connection suspended or dropped (mobile tab''),
      (4, ''// suspension, an idle-timing-out proxy) without this page''),
      (4, ''// finding out until the browser's own reconnect logic gets''),
      (4, ''// around to it. Either way, the fix is the same: the instant''),
      (4, ''// the tab becomes visible again, fetch both routes directly''),
      (4, ''// rather than waiting on the interval or the SSE reconnect.''),
      (4, ''document.addEventListener(\"visibilitychange\", function () {''),
      (5, ''if (document.visibilityState !== \"visible\") return;''),
      (5, ''htmx.ajax(\"GET\", \"/fragment\", { source: \"#cards\", target: \"#cards\", swap: \"morph:innerHTML\" });''),
      (5, ''htmx.ajax(\"GET\", \"/header\", { source: \"#header\", target: \"#header\", swap: \"morph:innerHTML\" });''),
      (4, ''});''),
      (0, []),
      (4, ''// datetime header widget: tick every second, re-selecting each tick so it''),
      (4, ''// keeps working across htmx swaps of the header strip. data-format, when''),
      (4, ''// present, is a JSON-encoded Intl.DateTimeFormat options object (e.g.''),
      (4, ''// '{\"dateStyle\":\"short\",\"timeStyle\":\"short\"}'); invalid or absent falls''),
      (4, ''// back to the default medium date/short time (no seconds). Also runs''),
      (4, ''// immediately (not just on the 1s interval) on load and after every htmx''),
      (4, ''// swap, so a freshly-swapped-in clock span (e.g. from the /header poll,''),
      (4, ''// which re-renders the whole header strip whenever any header widget's''),
      (4, ''// live value changes) never sits blank for up to a second.''),
      (4, ''function tickClocks() {''),
      (5, ''const now = new Date();''),
      (5, ''document.querySelectorAll(\"[data-clock]\").forEach(function (el) {''),
      (6, ''let opts = { dateStyle: \"medium\", timeStyle: \"short\" };''),
      (6, ''if (el.dataset.format) {''),
      (7, ''try {''),
      (8, ''opts = JSON.parse(el.dataset.format);''),
      (7, ''} catch (e) {''),
      (8, ''// keep the default on invalid JSON'')]"

definition page_js_6 :: string where
  "page_js_6 = text_lines
     [(7, ''}''),
      (6, ''}''),
      (6, ''el.textContent = now.toLocaleString(undefined, opts);''),
      (5, ''});''),
      (4, ''}''),
      (4, ''tickClocks();''),
      (4, ''document.body.addEventListener(\"htmx:afterSwap\", tickClocks);''),
      (4, ''setInterval(tickClocks, 1000);''),
      (0, []),
      (4, ''// Auto-fit widget-chip text: a long single word in a .stat''),
      (4, ''// value/label would wrap onto a second line (the CSS pins each''),
      (4, ''// to white-space: nowrap), so step its font-size down until it''),
      (4, ''// fits its chip on one line rather than wrapping. Each element's''),
      (4, ''// own inline font-size is cleared first so it re-measures''),
      (4, ''// against the stylesheet's clamp() (its natural/max size) '' @ [CHR 0xE2, CHR 0x80, CHR 0x94] @ '' that''),
      (4, ''// also lets a chip grow back when a wider card, a resize, or a''),
      (4, ''// shorter freshly-polled value gives it room again. Bounded by a''),
      (4, ''// MIN_PX floor so pathologically long text stops shrinking''),
      (4, ''// instead of vanishing. Runs on load, on (debounced) resize, and''),
      (4, ''// after every htmx swap '' @ [CHR 0xE2, CHR 0x80, CHR 0x94] @ '' the SSE/interval refresh re-renders''),
      (4, ''// #cards wholesale, so unfitted chips would otherwise revert.''),
      (4, ''function fitStatText() {''),
      (5, ''const MIN_PX = 8;''),
      (5, ''document.querySelectorAll(\".stat .value, .stat .label\").forEach(function (el) {''),
      (6, ''// Reset to the stylesheet's clamp() size and nowrap so''),
      (6, ''// this re-measures from scratch (and can grow back).''),
      (6, ''el.style.fontSize = \"\";''),
      (6, ''el.style.whiteSpace = \"\";''),
      (6, ''el.style.overflowWrap = \"\";''),
      (6, ''let size = parseFloat(getComputedStyle(el).fontSize);'')]"

definition page_js_7 :: string where
  "page_js_7 = text_lines
     [(6, ''// scrollWidth > clientWidth means the (nowrap) text is''),
      (6, ''// wider than its box; shrink until it fits or hits MIN_PX.''),
      (6, ''while (el.scrollWidth > el.clientWidth && size > MIN_PX) {''),
      (7, ''size *= 0.92;''),
      (7, ''el.style.fontSize = size + \"px\";''),
      (6, ''}''),
      (6, ''// A pathologically long single word can still overflow at''),
      (6, ''// the floor; let it wrap rather than spill outside the chip.''),
      (6, ''if (el.scrollWidth > el.clientWidth) {''),
      (7, ''el.style.whiteSpace = \"normal\";''),
      (7, ''el.style.overflowWrap = \"anywhere\";''),
      (6, ''}''),
      (5, ''});''),
      (4, ''}''),
      (4, ''fitStatText();''),
      (4, ''document.body.addEventListener(\"htmx:afterSwap\", fitStatText);''),
      (4, ''let fitResizeTimer = null;''),
      (4, ''window.addEventListener(\"resize\", function () {''),
      (5, ''clearTimeout(fitResizeTimer);''),
      (5, ''fitResizeTimer = setTimeout(fitStatText, 150);''),
      (4, ''});''),
      (0, []),
      (4, ''// Tab selection lives outside the polled fragment, so it survives the''),
      (4, ''// htmx swap that re-renders #cards (and would otherwise reset to tab 0)''),
      (4, ''// on every poll.''),
      (4, ''let currentTab = 0;''),
      (4, ''function showTab(i) {''),
      (5, ''withViewTransition(function () {''),
      (6, ''currentTab = i;''),
      (6, ''document.querySelectorAll(\".tab-btn\").forEach(function (b, idx) {'')]"

definition page_js_8 :: string where
  "page_js_8 = text_lines
     [(7, ''const selected = idx === i;''),
      (7, ''b.classList.toggle(\"active\", selected);''),
      (7, ''b.setAttribute(\"aria-selected\", selected ? \"true\" : \"false\");''),
      (7, ''b.tabIndex = selected ? 0 : -1;''),
      (6, ''});''),
      (6, ''document.querySelectorAll(\".tab-panel\").forEach(function (p, idx) { p.classList.toggle(\"hidden\", idx !== i); });''),
      (5, ''});''),
      (4, ''}''),
      (4, ''// Keyboard navigation per the WAI-ARIA tabs pattern (automatic''),
      (4, ''// activation): ArrowLeft/ArrowRight move focus to and activate the''),
      (4, ''// adjacent tab (wrapping around both ends), Home/End jump to the''),
      (4, ''// first/last tab. Delegated to #cards (like captureGroupState/''),
      (4, ''// restoreGroupState below) rather than bound per-button, since the''),
      (4, ''// tab buttons themselves are replaced wholesale by every htmx swap''),
      (4, ''// of #cards's innerHTML '' @ [CHR 0xE2, CHR 0x80, CHR 0x94] @ '' a delegated listener on the container''),
      (4, ''// keeps working without needing to be re-attached after each swap.''),
      (4, ''document.getElementById(\"cards\").addEventListener(\"keydown\", function (e) {''),
      (5, ''if (!e.target.classList.contains(\"tab-btn\")) return;''),
      (5, ''const btns = document.querySelectorAll(\".tab-btn\");''),
      (5, ''let next;''),
      (5, ''switch (e.key) {''),
      (6, ''case \"ArrowRight\": next = (currentTab + 1) % btns.length; break;''),
      (6, ''case \"ArrowLeft\": next = (currentTab - 1 + btns.length) % btns.length; break;''),
      (6, ''case \"Home\": next = 0; break;''),
      (6, ''case \"End\": next = btns.length - 1; break;''),
      (6, ''default: return;''),
      (5, ''}''),
      (5, ''e.preventDefault();''),
      (5, ''showTab(next);''),
      (5, ''btns[next].focus();'')]"

definition page_js_9 :: string where
  "page_js_9 = text_lines
     [(4, ''});''),
      (4, ''// Collapsible group open/closed state likewise lives outside the''),
      (4, ''// polled fragment: captured from the old DOM just before htmx''),
      (4, ''// discards it, reapplied (by data-group-name) to the freshly''),
      (4, ''// rendered <details> elements right after.''),
      (4, ''let groupOpenState = {};''),
      (4, ''function captureGroupState() {''),
      (5, ''document.querySelectorAll(\"#cards details.group[data-group-name]\").forEach(function (d) {''),
      (6, ''groupOpenState[d.dataset.groupName] = d.open;''),
      (5, ''});''),
      (4, ''}''),
      (4, ''function restoreGroupState() {''),
      (5, ''document.querySelectorAll(\"#cards details.group[data-group-name]\").forEach(function (d) {''),
      (6, ''const name = d.dataset.groupName;''),
      (6, ''if (Object.prototype.hasOwnProperty.call(groupOpenState, name)) d.open = groupOpenState[name];''),
      (5, ''});''),
      (4, ''}''),
      (4, ''// The server always renders tab 0 active/visible (it has no idea''),
      (4, ''// which tab the client currently has selected) and every''),
      (4, ''// <details.group> open (ditto for collapse state), so an''),
      (4, ''// unmodified swap of its markup would momentarily show the wrong''),
      (4, ''// tab / re-expand a collapsed group before the afterSettle''),
      (4, ''// backstop below corrects it. htmx documents''),
      (4, ''// evt.detail.serverResponse as mutable in beforeSwap, so rewrite''),
      (4, ''// the incoming markup to already reflect client state '' @ [CHR 0xE2, CHR 0x80, CHR 0x94] @ '' tab''),
      (4, ''// selection and group open/closed '' @ [CHR 0xE2, CHR 0x80, CHR 0x94] @ '' before it ever reaches the''),
      (4, ''// DOM. That makes the morph (and the id-matching settle step''),
      (4, ''// that follows it) a no-op for these two bits of state instead''),
      (4, ''// of a change-then-revert, which is what was producing a''),
      (4, ''// one-frame flash of tab 0 / a re-opened group on every refresh.'')]"

definition page_js_10 :: string where
  "page_js_10 = text_lines
     [(4, ''document.getElementById(\"cards\").addEventListener(\"htmx:beforeSwap\", function (evt) {''),
      (5, ''captureGroupState();''),
      (5, ''// A detached <template> parses the incoming HTML without''),
      (5, ''// executing scripts or affecting the live document, and its''),
      (5, ''// .content is a DocumentFragment we can query/mutate exactly''),
      (5, ''// like a normal subtree before serializing it back out.''),
      (5, ''const tpl = document.createElement(\"template\");''),
      (5, ''tpl.innerHTML = evt.detail.serverResponse;''),
      (0, []),
      (5, ''const panels = tpl.content.querySelectorAll(\".tab-panel\");''),
      (5, ''const tab = panels.length > 0 && currentTab < panels.length ? currentTab : 0;''),
      (5, ''tpl.content.querySelectorAll(\".tab-btn\").forEach(function (b, idx) {''),
      (6, ''const selected = idx === tab;''),
      (6, ''b.classList.toggle(\"active\", selected);''),
      (6, ''b.setAttribute(\"aria-selected\", selected ? \"true\" : \"false\");''),
      (6, ''b.tabIndex = selected ? 0 : -1;''),
      (5, ''});''),
      (5, ''panels.forEach(function (p, idx) { p.classList.toggle(\"hidden\", idx !== tab); });''),
      (0, []),
      (5, ''tpl.content.querySelectorAll(\"details.group[data-group-name]\").forEach(function (d) {''),
      (6, ''const name = d.dataset.groupName;''),
      (6, ''if (Object.prototype.hasOwnProperty.call(groupOpenState, name)) {''),
      (7, ''if (groupOpenState[name]) d.setAttribute(\"open\", \"\");''),
      (7, ''else d.removeAttribute(\"open\");''),
      (6, ''}''),
      (5, ''});''),
      (0, []),
      (5, ''evt.detail.serverResponse = tpl.innerHTML;''),
      (4, ''});''),
      (0, [])]"

definition page_js_11 :: string where
  "page_js_11 = text_lines
     [(4, ''// Backstop, not the primary defense: the beforeSwap rewrite above''),
      (4, ''// already makes the incoming markup match client state, so this''),
      (4, ''// should normally be a no-op. It stays as a safety net for''),
      (4, ''// anything the rewrite misses (e.g. markup shapes it doesn't''),
      (4, ''// anticipate) '' @ [CHR 0xE2, CHR 0x80, CHR 0x94] @ '' restored on htmx:afterSettle rather than''),
      (4, ''// htmx:afterSwap because the tab buttons/panels carry ids (for''),
      (4, ''// the ARIA tab wiring), and htmx's settle step id-matches them''),
      (4, ''// across the swap '' @ [CHR 0xE2, CHR 0x80, CHR 0x94] @ '' it briefly keeps the old element's''),
      (4, ''// attributes, then re-applies the incoming markup's attributes''),
      (4, ''// shortly AFTER afterSwap fires. A restore run at afterSwap gets''),
      (4, ''// silently clobbered by that; afterSettle runs once settling is''),
      (4, ''// done.''),
      (4, ''document.getElementById(\"cards\").addEventListener(\"htmx:afterSettle\", function () {''),
      (5, ''const panels = document.querySelectorAll(\".tab-panel\").length;''),
      (5, ''showTab(panels > 0 && currentTab < panels ? currentTab : 0);''),
      (5, ''restoreGroupState();''),
      (4, ''});''),
      (0, []),
      (4, ''// Quick-launch overlay (homepage-style): Ctrl/Cmd-K or \"/\" opens a palette''),
      (4, ''// that fuzzy-jumps to any service/bookmark card, falling back to a web''),
      (4, ''// search. Built from the same [data-name] cards the inline filter uses, so''),
      (4, ''// it needs no extra server data.''),
      (4, ''const qlOverlay = document.getElementById(\"ql-overlay\");''),
      (4, ''const qlInput = document.getElementById(\"ql-input\");''),
      (4, ''const qlResults = document.getElementById(\"ql-results\");''),
      (4, ''let qlActive = 0;''),
      (0, []),
      (4, ''function qlHref(el) {''),
      (5, ''if (el.tagName === \"A\" && el.href) return el.href;''),
      (5, ''const a = el.querySelector(\"h3 a[href]\");'')]"

definition page_js_12 :: string where
  "page_js_12 = text_lines
     [(5, ''return a ? a.href : null;''),
      (4, ''}''),
      (0, []),
      (4, ''// looksLikeURL/normalizeURL back the quick-launch \"visit <url>\" entry''),
      (4, ''// (hidden via searchConfig.hideVisitURL): a bare domain like''),
      (4, ''// \"example.com\" counts as a URL too, not just an explicit scheme.''),
      (4, ''function looksLikeURL(q) {''),
      (5, ''if (/^https?:'' @ [CHR 0x5C] @ ''/'' @ [CHR 0x5C] @ ''//i.test(q)) return true;''),
      (5, ''return /^[a-z0-9-]+('' @ [CHR 0x5C] @ ''.[a-z0-9-]+)+([:/?#].*'' @ [CHR 0x29] @ ''?$/i.test(q);''),
      (4, ''}''),
      (4, ''function normalizeURL(q) {''),
      (5, ''return /^https?:'' @ [CHR 0x5C] @ ''/'' @ [CHR 0x5C] @ ''//i.test(q) ? q : \"https://\" + q;''),
      (4, ''}''),
      (0, []),
      (4, ''function qlAppendItem(text, href) {''),
      (5, ''const a = document.createElement(\"a\");''),
      (5, ''a.className = \"ql-item\" + (qlResults.children.length === 0 ? \" active\" : \"\");''),
      (5, ''a.href = href;''),
      (5, ''a.target = searchConfig.target || \"_blank\";''),
      (5, ''const querySpan = document.createElement(\"span\");''),
      (5, ''querySpan.textContent = text;''),
      (5, ''a.appendChild(querySpan);''),
      (5, ''const subSpan = document.createElement(\"span\");''),
      (5, ''subSpan.className = \"ql-sub\";''),
      (5, ''subSpan.textContent = \"'' @ [CHR 0xE2, CHR 0x86, CHR 0xB5] @ ''\";''),
      (5, ''a.appendChild(subSpan);''),
      (5, ''qlResults.appendChild(a);''),
      (4, ''}''),
      (0, []),
      (4, ''function qlRender() {'')]"

definition page_js_13 :: string where
  "page_js_13 = text_lines
     [(5, ''const raw = qlInput.value.trim();''),
      (5, ''const q = raw.toLowerCase();''),
      (5, ''const items = [];''),
      (5, ''document.querySelectorAll(\"#cards [data-name]\").forEach(function (el) {''),
      (6, ''const name = el.dataset.name || \"\";''),
      (6, ''const href = qlHref(el);''),
      (6, ''if (!href) return;''),
      (6, ''const hay = (searchConfig.searchDescriptions ? (name + \" \" + (el.dataset.description || \"\")) : name).toLowerCase();''),
      (6, ''if (q && !hay.includes(q)) return;''),
      (6, ''const icon = el.querySelector(\"img.icon\");''),
      (6, ''items.push({ name: name, href: href, icon: icon ? icon.src : null });''),
      (5, ''});''),
      (5, ''qlActive = 0;''),
      (5, ''qlResults.innerHTML = \"\";''),
      (5, ''items.slice(0, 8).forEach(function (it, idx) {''),
      (6, ''const a = document.createElement(\"a\");''),
      (6, ''a.className = \"ql-item\" + (idx === 0 ? \" active\" : \"\");''),
      (6, ''a.href = it.href;''),
      (6, ''a.target = searchConfig.target || \"_blank\";''),
      (6, ''if (it.icon) {''),
      (7, ''const img = document.createElement(\"img\");''),
      (7, ''img.src = it.icon;''),
      (7, ''img.alt = \"\";''),
      (7, ''a.appendChild(img);''),
      (6, ''}''),
      (6, ''const nameSpan = document.createElement(\"span\");''),
      (6, ''nameSpan.textContent = it.name;''),
      (6, ''a.appendChild(nameSpan);''),
      (6, ''qlResults.appendChild(a);''),
      (5, ''});'')]"

definition page_js_14 :: string where
  "page_js_14 = text_lines
     [(5, ''if (raw && !searchConfig.hideVisitURL && looksLikeURL(raw)) {''),
      (6, ''qlAppendItem(\"Visit \" + raw, normalizeURL(raw));''),
      (5, ''}''),
      (5, ''if (raw && !searchConfig.hideInternetSearch) {''),
      (6, ''qlAppendItem(\"Search the web for '' @ [CHR 0xE2, CHR 0x80, CHR 0x9C] @ ''\" + raw + \"'' @ [CHR 0xE2, CHR 0x80, CHR 0x9D] @ ''\", searchURL(raw));''),
      (5, ''}''),
      (4, ''}''),
      (0, []),
      (4, ''function qlMove(delta) {''),
      (5, ''const els = qlResults.querySelectorAll(\".ql-item\");''),
      (5, ''if (!els.length) return;''),
      (5, ''els[qlActive] && els[qlActive].classList.remove(\"active\");''),
      (5, ''qlActive = (qlActive + delta + els.length) % els.length;''),
      (5, ''els[qlActive].classList.add(\"active\");''),
      (5, ''els[qlActive].scrollIntoView({ block: \"nearest\" });''),
      (4, ''}''),
      (0, []),
      (4, ''// showPopover()/hidePopover() replace the old classList(\"open\")''),
      (4, ''// toggling; light-dismiss (click on the ::backdrop, since''),
      (4, ''// ql-box IS the popover '' @ [CHR 0xE2, CHR 0x80, CHR 0x94] @ '' see the CSS above) and Escape are''),
      (4, ''// handled by the browser, so the manual click-outside listener''),
      (4, ''// and the Escape branch below are gone rather than kept''),
      (4, ''// alongside the native behavior.''),
      (4, ''function qlOpen() { qlOverlay.showPopover(); qlInput.value = \"\"; qlRender(); qlInput.focus(); }''),
      (4, ''function qlClose() { qlOverlay.hidePopover(); }''),
      (0, []),
      (4, ''document.addEventListener(\"keydown\", function (e) {''),
      (5, ''const inField = /^(input|textarea)$/i.test((e.target.tagName || \"\"));''),
      (5, ''if ((e.key === \"k\" && (e.metaKey || e.ctrlKey)) || (e.key === \"/\" && !inField)) {''),
      (6, ''e.preventDefault(); qlOpen();'')]"

definition page_js_15 :: string where
  "page_js_15 = text_lines
     [(5, ''}''),
      (4, ''});''),
      (4, ''qlInput.addEventListener(\"input\", qlRender);''),
      (4, ''qlInput.addEventListener(\"keydown\", function (e) {''),
      (5, ''if (e.key === \"ArrowDown\") { e.preventDefault(); qlMove(1); }''),
      (5, ''else if (e.key === \"ArrowUp\") { e.preventDefault(); qlMove(-1); }''),
      (5, ''else if (e.key === \"Enter\") {''),
      (6, ''const els = qlResults.querySelectorAll(\".ql-item\");''),
      (6, ''if (els[qlActive]) { e.preventDefault(); window.open(els[qlActive].href, els[qlActive].target); qlClose(); }''),
      (5, ''}''),
      (4, ''});''),
      (0, []),
      (4, ''// Theme/color switcher: only present when index.templ's FOUC-avoidance''),
      (4, ''// script ran (window.__paletteRamps set), i.e. at least one axis isn't''),
      (4, ''// fixed by the Dashboard's spec.style '' @ [CHR 0xE2, CHR 0x80, CHR 0x94] @ '' each button is itself only rendered for the''),
      (4, ''// axis that applies, so these listeners no-op via the null checks below''),
      (4, ''// when a button is absent.''),
      (4, ''const themeBtn = document.getElementById(\"theme-switcher-btn\");''),
      (4, ''if (themeBtn) {''),
      (5, ''themeBtn.addEventListener(\"click\", function () {''),
      (6, ''const current = document.documentElement.getAttribute(\"data-theme\");''),
      (6, ''const next = current === \"dark\" ? \"light\" : \"dark\";''),
      (6, ''document.documentElement.setAttribute(\"data-theme\", next);''),
      (6, ''localStorage.setItem(\"kubepage-theme\", next);''),
      (5, ''});''),
      (4, ''}''),
      (0, []),
      (4, ''// The button opens/closes color-menu declaratively via its''),
      (4, ''// popovertarget attribute (see the markup above) '' @ [CHR 0xE2, CHR 0x80, CHR 0x94] @ '' no click''),
      (4, ''// handler needed here, just populating the palette swatches'')]"

definition page_js_16 :: string where
  "page_js_16 = text_lines
     [(4, ''// and closing the popover once one is picked.''),
      (4, ''const colorMenu = document.getElementById(\"color-menu\");''),
      (4, ''if (colorMenu && window.__paletteRamps) {''),
      (5, ''Object.keys(window.__paletteRamps).sort().forEach(function (name) {''),
      (6, ''const ramp = window.__paletteRamps[name];''),
      (6, ''const swatch = document.createElement(\"button\");''),
      (6, ''swatch.type = \"button\";''),
      (6, ''swatch.title = name;''),
      (6, ''swatch.setAttribute(\"aria-label\", name);''),
      (6, ''swatch.style.background = ramp.accent;''),
      (6, ''swatch.addEventListener(\"click\", function () {''),
      (7, ''applyPaletteVars(ramp);''),
      (7, ''localStorage.setItem(\"kubepage-color\", name);''),
      (7, ''colorMenu.hidePopover();''),
      (6, ''});''),
      (6, ''colorMenu.appendChild(swatch);''),
      (5, ''});''),
      (4, ''}'')]"

definition page_js :: string where
  "page_js = page_js_1 @ page_js_2 @ page_js_3 @ page_js_4 @ page_js_5 @ page_js_6 @ page_js_7 @ page_js_8 @ page_js_9 @ page_js_10 @ page_js_11 @ page_js_12 @ page_js_13 @ page_js_14 @ page_js_15 @ page_js_16"

lemma page_js_1_calm: "calm page_js_1"
  unfolding page_js_1_def by (intro calm_intros; simp only: calm_char cong: calm_weak)

lemma page_js_2_calm: "calm page_js_2"
  unfolding page_js_2_def by (intro calm_intros; simp only: calm_char cong: calm_weak)

lemma page_js_3_calm: "calm page_js_3"
  unfolding page_js_3_def by (intro calm_intros; simp only: calm_char cong: calm_weak)

lemma page_js_4_calm: "calm page_js_4"
  unfolding page_js_4_def by (intro calm_intros; simp only: calm_char cong: calm_weak)

lemma page_js_5_calm: "calm page_js_5"
  unfolding page_js_5_def by (intro calm_intros; simp only: calm_char cong: calm_weak)

lemma page_js_6_calm: "calm page_js_6"
  unfolding page_js_6_def by (intro calm_intros; simp only: calm_char cong: calm_weak)

lemma page_js_7_calm: "calm page_js_7"
  unfolding page_js_7_def by (intro calm_intros; simp only: calm_char cong: calm_weak)

lemma page_js_8_calm: "calm page_js_8"
  unfolding page_js_8_def by (intro calm_intros; simp only: calm_char cong: calm_weak)

lemma page_js_9_calm: "calm page_js_9"
  unfolding page_js_9_def by (intro calm_intros; simp only: calm_char cong: calm_weak)

lemma page_js_10_calm: "calm page_js_10"
  unfolding page_js_10_def by (intro calm_intros; simp only: calm_char cong: calm_weak)

lemma page_js_11_calm: "calm page_js_11"
  unfolding page_js_11_def by (intro calm_intros; simp only: calm_char cong: calm_weak)

lemma page_js_12_calm: "calm page_js_12"
  unfolding page_js_12_def by (intro calm_intros; simp only: calm_char cong: calm_weak)

lemma page_js_13_calm: "calm page_js_13"
  unfolding page_js_13_def by (intro calm_intros; simp only: calm_char cong: calm_weak)

lemma page_js_14_calm: "calm page_js_14"
  unfolding page_js_14_def by (intro calm_intros; simp only: calm_char cong: calm_weak)

lemma page_js_15_calm: "calm page_js_15"
  unfolding page_js_15_def by (intro calm_intros; simp only: calm_char cong: calm_weak)

lemma page_js_16_calm: "calm page_js_16"
  unfolding page_js_16_def by (intro calm_intros; simp only: calm_char cong: calm_weak)

lemma page_js_calm: "calm page_js"
  unfolding page_js_def by (intro calm_append page_js_1_calm page_js_2_calm page_js_3_calm page_js_4_calm page_js_5_calm page_js_6_calm page_js_7_calm page_js_8_calm page_js_9_calm page_js_10_calm page_js_11_calm page_js_12_calm page_js_13_calm page_js_14_calm page_js_15_calm page_js_16_calm)

section \<open>The script that registers the service worker\<close>

definition worker_js :: string where
  "worker_js = text_lines
     [(5, ''// Offline app shell: registers the service worker (assets/sw.js,''),
      (5, ''// served from GET /sw.js) that caches static assets and the''),
      (5, ''// last-successful page shell for instant/offline loads. Registered''),
      (5, ''// after \"load\" so it never competes with this page's own initial''),
      (5, ''// resource fetches. Widget data (/fragment, /header, /events) is''),
      (5, ''// never cached by the worker '' @ [CHR 0xE2, CHR 0x80, CHR 0x94] @ '' see sw.js's own doc comment '' @ [CHR 0xE2, CHR 0x80, CHR 0x94] @ '' so''),
      (5, ''// this has no effect on how fresh the dashboard's live data is.''),
      (5, ''// Skipped entirely on a password-protected Dashboard (see''),
      (5, ''// indexData.AuthEnabled's doc comment): Cache Storage isn't''),
      (5, ''// itself gated by HTTP Basic Auth, so caching an authenticated''),
      (5, ''// page would let anyone with local access to the browser''),
      (5, ''// profile read its last-cached contents offline, with no''),
      (5, ''// credential check at all.''),
      (5, ''if (\"serviceWorker\" in navigator) {''),
      (6, ''window.addEventListener(\"load\", function () {''),
      (7, ''navigator.serviceWorker.register(\"/sw.js\");''),
      (6, ''});''),
      (5, ''}'')]"

lemma worker_js_calm: "calm worker_js"
  unfolding worker_js_def by (intro calm_intros; simp only: calm_char cong: calm_weak)

section \<open>The comment on the color menu\<close>

definition color_comment :: string where
  "color_comment = text_lines
     [(0, '' popovertarget wires the button to the menu declaratively:''),
      (7, ''     the browser handles open/toggle, light-dismiss (click''),
      (7, ''     outside), and Escape with no JS at all, and '' @ [CHR 0xE2, CHR 0x80, CHR 0x94] @ '' because the''),
      (7, ''     button is the popover's own invoking element '' @ [CHR 0xE2, CHR 0x80, CHR 0x94] @ '' a click on''),
      (7, ''     the button while the menu is open toggles it shut rather''),
      (7, ''     than the browser's light-dismiss and this button's own''),
      (7, ''     toggle fighting each other. The `position: relative`''),
      (7, ''     wrapper the old absolute-positioned dropdown needed is''),
      (7, ''     gone: a popover is promoted to the top layer, so it no''),
      (7, ''     longer lays out relative to a DOM ancestor (see the'')] @
     replicate 7 (CHR 0x09) @ ''     .color-menu CSS above/below). ''"

lemma color_comment_no_close: "no_close color_comment"
proof -
  have "no_close (replicate 7 (CHR 0x09))" by (simp add: no_close_def)
  then show ?thesis
    unfolding color_comment_def by (intro no_close_intros; (assumption | simp only: no_close_char cong: no_close_weak))
qed

section \<open>The comment on the quick launch box\<close>

definition launch_comment :: string where
  "launch_comment = text_lines
     [(0, '' popover=\"auto\" makes ql-box itself the popover element (no''),
      (3, ''     separate full-screen overlay div needed): opened/closed from''),
      (3, ''     JS via showPopover()/hidePopover() (keyboard-triggered, so''),
      (3, ''     there's no single invoking button to hang popovertarget off''),
      (3, ''     of), with light-dismiss (click on the ::backdrop) and Escape''),
      (3, ''     handled natively '' @ [CHR 0xE2, CHR 0x80, CHR 0x94] @ '' see the qlOpen/qlClose script further'')] @
     replicate 3 (CHR 0x09) @ ''     down the page. ''"

lemma launch_comment_no_close: "no_close launch_comment"
proof -
  have "no_close (replicate 3 (CHR 0x09))" by (simp add: no_close_def)
  then show ?thesis
    unfolding launch_comment_def by (intro no_close_intros; (assumption | simp only: no_close_char cong: no_close_weak))
qed

end
