(* ===== verification/Templates.thy ===== *)
theory Templates
  imports Server Html
begin

text \<open>
  The templates of the page's fragments (\<^verbatim>\<open>internal/dashboard/cards_templ.go\<close> and
  \<^verbatim>\<open>header_templ.go\<close>, generated from \<^verbatim>\<open>cards.templ\<close> and \<^verbatim>\<open>header.templ\<close>).  A component is the sequence
  of its writes, as the generated code makes them; \<open>render\<close> makes them one after the other into the
  buffer and stops at the first that fails.  The runtime of the templates is not part of the
  repository: it is the record \<open>templ_lib\<close>, and \<open>templ_ok\<close> is what its documentation promises of
  escaping.  The whole page (\<^verbatim>\<open>index_templ.go\<close>) is the subject of theory \<open>Page\<close>.
\<close>

section \<open>The runtime\<close>

text \<open>
  \<open>tl_ctx\<close> is the state of the request's context when the buffer holds a text, \<open>tl_attr\<close> is
  \<^verbatim>\<open>ResolveAttributeValue\<close>, \<open>tl_url\<close> and \<open>tl_safe_url\<close> are \<^verbatim>\<open>JoinURLErrs\<close> on a string and on a
  \<^verbatim>\<open>SafeURL\<close>, \<open>tl_style\<close> and \<open>tl_safe_css\<close> are \<^verbatim>\<open>SanitizeStyleAttributeValues\<close> on a string and on a
  \<^verbatim>\<open>SafeCSS\<close>, \<open>tl_classes\<close> is the text of \<^verbatim>\<open>CSSClasses\<close> and \<open>tl_call\<close> the text of a \<^verbatim>\<open>JSFuncCall\<close>.
\<close>

record templ_lib =
  tl_ctx :: "string \<Rightarrow> string option"
  tl_escape :: "string \<Rightarrow> string"
  tl_attr :: "string \<Rightarrow> string + string"
  tl_url :: "string \<Rightarrow> string + string"
  tl_safe_url :: "string \<Rightarrow> string + string"
  tl_style :: "string \<Rightarrow> string + string"
  tl_safe_css :: "string \<Rightarrow> string + string"
  tl_css_items :: "(string \<times> bool) list \<Rightarrow> string + string"
  tl_classes :: "(string \<times> bool) list \<Rightarrow> string"
  tl_script_items :: "string \<Rightarrow> int \<Rightarrow> string + string"
  tl_call :: "string \<Rightarrow> int \<Rightarrow> string"

datatype chunk =
  Ctx
| Lit string
| Txt string
| Attr string
| Url string
| SafeURL string
| Style string
| SafeCSS string
| CSSItems "(string \<times> bool) list"
| Classes "(string \<times> bool) list"
| ScriptItems string int
| Call string int

text \<open>What a write adds to the buffer, or its error.\<close>

definition escaped :: "templ_lib \<Rightarrow> string + string \<Rightarrow> string + string" where
  "escaped l r = (case r of Inl e \<Rightarrow> Inl e | Inr v \<Rightarrow> Inr (tl_escape l v))"

fun emit :: "templ_lib \<Rightarrow> chunk \<Rightarrow> string \<Rightarrow> string + string" where
  "emit l Ctx buf = (case tl_ctx l buf of Some e \<Rightarrow> Inl e | None \<Rightarrow> Inr [])"
| "emit l (Lit s) buf = Inr s"
| "emit l (Txt s) buf = Inr (tl_escape l s)"
| "emit l (Attr s) buf = tl_attr l s"
| "emit l (Url s) buf = escaped l (tl_url l s)"
| "emit l (SafeURL s) buf = escaped l (tl_safe_url l s)"
| "emit l (Style s) buf = escaped l (tl_style l s)"
| "emit l (SafeCSS s) buf = escaped l (tl_safe_css l s)"
| "emit l (CSSItems cs) buf = tl_css_items l cs"
| "emit l (Classes cs) buf = tl_attr l (tl_classes l cs)"
| "emit l (ScriptItems f i) buf = tl_script_items l f i"
| "emit l (Call f i) buf = Inr (tl_call l f i)"

fun render :: "templ_lib \<Rightarrow> chunk list \<Rightarrow> string \<Rightarrow> string option \<times> string" where
  "render l [] buf = (None, buf)"
| "render l (c # cs) buf = (case emit l c buf of Inl e \<Rightarrow> (Some e, buf) | Inr s \<Rightarrow> render l cs (buf @ s))"

section \<open>Cards\<close>

definition icon :: "string \<Rightarrow> int \<Rightarrow> chunk list" where
  "icon url sizePx =
     [Ctx] @
     (if url \<noteq> []
      then [Lit ''<img class=\"icon\" src=\"'', Attr url, Lit ''\" alt=\"\" width=\"'', Attr (fmt_int sizePx),
            Lit ''\" height=\"'', Attr (fmt_int sizePx), Lit ''\" loading=\"lazy\" referrerpolicy=\"no-referrer\">'']
      else [])"

definition desc :: "string \<Rightarrow> chunk list" where
  "desc text = [Ctx] @ (if text \<noteq> [] then [Lit ''<div class=\"desc\">'', Txt text, Lit ''</div>''] else [])"

definition usageBar :: "int option \<Rightarrow> chunk list" where
  "usageBar percent =
     [Ctx] @
     (case percent of
        None \<Rightarrow> []
      | Some p \<Rightarrow> [Lit ''<div class=\"usage-bar\"><div class=\"usage-bar-fill\" style=\"'', SafeCSS (percentBarStyle p),
                   Lit ''\"></div></div>''])"

text \<open>The parts of \<^verbatim>\<open>serviceCardView\<close>: the title, the status in its two styles, and the body.\<close>

definition card_title :: "Card \<Rightarrow> string \<Rightarrow> chunk list" where
  "card_title c siteTarget =
     (if c_href c \<noteq> []
      then [Lit ''<a class=\"card-title\" href=\"'', Url (c_href c), Lit ''\" target=\"'', Attr (cardTarget c siteTarget),
            Lit ''\"''] @
           (if isNewTabTarget (cardTarget c siteTarget) then [Lit '' rel=\"noopener noreferrer\"''] else []) @
           [Lit ''>'', Txt (c_service_name c), Lit ''</a> '']
      else [Lit ''<span class=\"card-title\">'', Txt (c_service_name c), Lit ''</span> ''])"

definition status_pills :: "Card \<Rightarrow> chunk list" where
  "status_pills c =
     [Lit ''<span class=\"status-indicators\">''] @
     (if c_status c \<noteq> []
      then (let classes = [(''status-pill'', True), (''status-'' @ c_status c, True)] in
            [CSSItems classes, Lit ''<span class=\"'', Classes classes, Lit ''\" title=\"'',
             Attr (statusWithLatency (c_status c) (c_latency c)), Lit ''\">'', Txt (c_status c), Lit '' '']) @
           (if c_latency c \<noteq> []
            then [Lit ''<span class=\"detail\">'', Txt ([CHR '' '', CHR 0xC2, CHR 0xB7, CHR '' ''] @ c_latency c),
                  Lit ''</span>'']
            else []) @
           [Lit ''</span> '']
      else []) @
     (if c_pod_status c \<noteq> []
      then (let classes = [(''status-pill'', True), (''status-'' @ c_pod_status c, True)] in
            [CSSItems classes, Lit ''<span class=\"'', Classes classes, Lit ''\" title=\"'',
             Attr (statusWithReadyText (c_pod_status c) (c_pod_ready_text c)), Lit ''\">'', Txt (podPillText c),
             Lit ''</span>''])
      else []) @
     [Lit ''</span>'']"

definition status_dots :: "Card \<Rightarrow> chunk list" where
  "status_dots c =
     [Lit ''<span class=\"status-indicators\">''] @
     (if c_status c \<noteq> []
      then (let classes = [(''status-dot'', True), (''status-'' @ c_status c, True)];
                shown = statusWithLatency (c_status c) (c_latency c) in
            [CSSItems classes, Lit ''<span class=\"'', Classes classes, Lit ''\" role=\"img\" aria-label=\"'', Attr shown,
             Lit ''\" title=\"'', Attr shown, Lit ''\"></span> ''])
      else []) @
     (if c_pod_status c \<noteq> []
      then (let classes = [(''status-dot'', True), (''status-'' @ c_pod_status c, True)];
                shown = statusWithReadyText (c_pod_status c) (c_pod_ready_text c) in
            [CSSItems classes, Lit ''<span class=\"'', Classes classes, Lit ''\" role=\"img\" aria-label=\"'', Attr shown,
             Lit ''\" title=\"'', Attr shown, Lit ''\"></span>''])
      else []) @
     [Lit ''</span>'']"

definition iframeSandbox :: string where "iframeSandbox = ''allow-scripts allow-same-origin''"

definition card_frame :: "Card \<Rightarrow> chunk list" where
  "card_frame c =
     [Lit ''<iframe class=\"card-iframe\" id=\"'', Attr (''iframe-'' @ c_key c), Lit ''\" src=\"'',
      Attr (iframeSrc (c_fields c)), Lit ''\" style=\"'', Style (''height: '' @ iframeHeight (c_fields c)),
      Lit ''\" sandbox=\"'', Attr iframeSandbox, Lit ''\" loading=\"lazy\" hx-preserve=\"true\"></iframe>'']"

definition card_stat :: "Field \<Rightarrow> chunk list" where
  "card_stat f =
     (let classes = [(''stat'', True), (''stat-good'', f_highlight f = ''good''), (''stat-warn'', f_highlight f = ''warn''),
                     (''stat-danger'', f_highlight f = ''danger'')] in
      [CSSItems classes, Lit ''<div class=\"'', Classes classes, Lit ''\"><span class=\"value\">'', Txt (f_value f),
       Lit ''</span><span class=\"label\">'', Txt (f_label f), Lit ''</span>''] @
      usageBar (f_percent f) @ [Lit ''</div>''])"

definition card_body :: "Card \<Rightarrow> chunk list" where
  "card_body c =
     (if c_err c \<noteq> [] then [Lit ''<div class=\"err\">'', Txt (c_err c), Lit ''</div>'']
      else if c_widget_type c = ''iframe'' \<and> c_fields c \<noteq> [] then card_frame c
      else if c_fields c \<noteq> []
        then [Lit ''<div class=\"stats\">''] @ concat (map card_stat (c_fields c)) @ [Lit ''</div>'']
      else [])"

definition serviceCardView :: "Card \<Rightarrow> string \<Rightarrow> chunk list" where
  "serviceCardView c siteTarget =
     [Ctx, Lit ''<div class=\"card\" id=\"'', Attr (''card-'' @ c_key c), Lit ''\" data-name=\"'', Attr (c_service_name c),
      Lit ''\" data-description=\"'', Attr (c_description c), Lit ''\"><h3>''] @
     icon (c_icon_url c) 32 @
     card_title c siteTarget @
     (if c_status c \<noteq> [] \<or> c_pod_status c \<noteq> []
      then (if c_status_style c = ''basic'' then status_pills c else status_dots c)
      else []) @
     [Lit ''</h3>''] @
     desc (c_description c) @
     card_body c @
     [Lit ''</div>'']"

section \<open>Bookmarks\<close>

definition bookmarkCardView :: "BookmarkCard \<Rightarrow> string \<Rightarrow> bool \<Rightarrow> chunk list" where
  "bookmarkCardView b siteTarget iconsOnly =
     (let classes = [(''card'', True), (''bookmark'', True), (''bookmark-icons-only'', iconsOnly)];
          target = bookmarkTarget b siteTarget in
      [Ctx, CSSItems classes, Lit ''<a class=\"'', Classes classes, Lit ''\" href=\"'', SafeURL (bc_href b),
       Lit ''\" target=\"'', Attr target, Lit ''\"''] @
      (if isNewTabTarget target then [Lit '' rel=\"noopener noreferrer\"''] else []) @
      [Lit '' data-name=\"'', Attr (bc_name b), Lit ''\" data-description=\"'', Attr (bc_description b),
       Lit ''\" title=\"'', Attr (bc_name b), Lit ''\">''] @
      (if bc_icon_url b \<noteq> [] then icon (bc_icon_url b) 19
       else if bc_abbr b \<noteq> [] then [Lit ''<span class=\"abbr\">'', Txt (bc_abbr b), Lit ''</span> '']
       else []) @
      (if \<not> iconsOnly
       then [Lit ''<div><h3>'', Txt (bc_name b), Lit ''</h3>''] @ desc (bc_description b) @ [Lit ''</div>'']
       else []) @
      [Lit ''</a>''])"

section \<open>Groups\<close>

definition groupHeading :: "string \<Rightarrow> string \<Rightarrow> chunk list" where
  "groupHeading name iconURL = [Ctx] @ icon iconURL 19 @ [Txt '' '', Lit '' '', Txt name]"

text \<open>The opening tag of a grid is written in the same way by three components.\<close>

definition grid_open :: "string \<Rightarrow> int option \<Rightarrow> chunk list" where
  "grid_open class columns =
     [CSSItems [(class, True)], Lit ''<div class=\"'', Classes [(class, True)], Lit ''\"''] @
     (case columns of None \<Rightarrow> [] | Some n \<Rightarrow> [Lit '' style=\"'', Style (gridStyle n), Lit ''\"'']) @
     [Lit ''>'']"

definition serviceCardGrid :: "group_head \<Rightarrow> string \<Rightarrow> chunk list" where
  "serviceCardGrid g siteTarget =
     [Ctx] @
     (if g_cards g \<noteq> []
      then grid_open (gridClasses [] (g_style g) (g_columns g) (g_use_equal_heights g)) (g_columns g) @
           concat (map (\<lambda>c. serviceCardView c siteTarget) (g_cards g)) @
           [Lit ''</div>'']
      else [])"

text \<open>\<open>block\<close> is \<^verbatim>\<open>serviceGroupBlock\<close>, which calls this component and is called by it.\<close>

definition serviceSubgroups :: "(cardGroup \<Rightarrow> chunk list) \<Rightarrow> group_head \<Rightarrow> cardGroup list \<Rightarrow> chunk list" where
  "serviceSubgroups block g subs =
     [Ctx] @
     (if subs \<noteq> []
      then grid_open (gridClasses ''subgroups'' (g_style g) (g_columns g) False) (g_columns g) @
           concat (map (\<lambda>sg. [Lit ''<div class=\"subgroup-item\">''] @ block sg @ [Lit ''</div>'']) subs) @
           [Lit ''</div>'']
      else [])"

lemma serviceSubgroups_cong [fundef_cong]:
  "g = g' \<Longrightarrow> subs = subs' \<Longrightarrow> (\<And>sg. sg \<in> set subs' \<Longrightarrow> block sg = block' sg) \<Longrightarrow>
     serviceSubgroups block g subs = serviceSubgroups block' g' subs'"
  unfolding serviceSubgroups_def by (auto intro!: arg_cong [where f = concat])

fun serviceGroupBlock :: "string \<Rightarrow> bool \<Rightarrow> cardGroup \<Rightarrow> chunk list" where
  "serviceGroupBlock siteTarget collapsible (CardGroup g subs) =
     [Ctx] @
     (if \<not> g_header g
      then serviceCardGrid g siteTarget @ [Lit '' ''] @
           serviceSubgroups (serviceGroupBlock siteTarget collapsible) g subs
      else if collapsible
      then [Lit ''<details class=\"group\" data-group-name=\"'', Attr (g_path g), Lit ''\"''] @
           (if \<not> g_initially_collapsed g then [Lit '' open''] else []) @
           [Lit ''><summary>''] @ groupHeading (g_name g) (g_icon_url g) @ [Lit ''</summary>''] @
           serviceCardGrid g siteTarget @
           serviceSubgroups (serviceGroupBlock siteTarget collapsible) g subs @
           [Lit ''</details>'']
      else [Lit ''<h2>''] @ groupHeading (g_name g) (g_icon_url g) @ [Lit ''</h2>''] @
           serviceCardGrid g siteTarget @ [Lit '' ''] @
           serviceSubgroups (serviceGroupBlock siteTarget collapsible) g subs)"

definition bookmarkCardGrid :: "BookmarkGroup \<Rightarrow> string \<Rightarrow> bool \<Rightarrow> chunk list" where
  "bookmarkCardGrid bg siteTarget iconsOnly =
     [Ctx] @
     grid_open (gridClasses [] (bg_style bg) (bg_columns bg) (bg_use_equal_heights bg)) (bg_columns bg) @
     concat (map (\<lambda>b. bookmarkCardView b siteTarget iconsOnly) (bg_bookmarks bg)) @
     [Lit ''</div>'']"

definition bookmarkGroupBlock :: "BookmarkGroup \<Rightarrow> string \<Rightarrow> bool \<Rightarrow> bool \<Rightarrow> chunk list" where
  "bookmarkGroupBlock bg siteTarget disableCollapse iconsOnly =
     [Ctx] @
     (if \<not> bg_header bg then bookmarkCardGrid bg siteTarget iconsOnly
      else if \<not> disableCollapse
      then [Lit ''<details class=\"group\" data-group-name=\"'', Attr (''bookmark:'' @ bg_name bg), Lit ''\"''] @
           (if \<not> bg_initially_collapsed bg then [Lit '' open''] else []) @
           [Lit ''><summary>''] @ groupHeading (bg_name bg) (bg_icon_url bg) @ [Lit ''</summary>''] @
           bookmarkCardGrid bg siteTarget iconsOnly @ [Lit ''</details>'']
      else [Lit ''<h2>''] @ groupHeading (bg_name bg) (bg_icon_url bg) @ [Lit ''</h2>''] @
           bookmarkCardGrid bg siteTarget iconsOnly)"

section \<open>The two fragments\<close>

definition tab_button :: "int \<Rightarrow> layoutTab \<Rightarrow> chunk list" where
  "tab_button i t =
     (let classes = [(''tab-btn'', True), (''active'', i = 0)] in
      [CSSItems classes, ScriptItems ''showTab'' i, Lit ''<button type=\"button\" id=\"'', Attr (tabID i),
       Lit ''\" class=\"'', Classes classes, Lit ''\" role=\"tab\" aria-controls=\"'', Attr (panelID i),
       Lit ''\" aria-selected=\"'', Attr (ariaSelectedAttr (i = 0)), Lit ''\" tabindex=\"'', Attr (tabIndexAttr (i = 0)),
       Lit ''\" onclick=\"'', Call ''showTab'' i, Lit ''\">'', Txt (tab_name t), Lit ''</button>''])"

definition tab_panel :: "fragmentData \<Rightarrow> int \<Rightarrow> layoutTab \<Rightarrow> chunk list" where
  "tab_panel data i t =
     (let classes = [(''tab-panel'', True), (''hidden'', i \<noteq> 0)] in
      [CSSItems classes, Lit ''<div class=\"'', Classes classes, Lit ''\"''] @
      (if 1 < length (fd_tabs data)
       then [Lit '' id=\"'', Attr (panelID i), Lit ''\" role=\"tabpanel\" aria-labelledby=\"'', Attr (tabID i), Lit ''\"'']
       else []) @
      [Lit ''>''] @
      concat (map (serviceGroupBlock (fd_site_target data) (\<not> fd_disable_collapse data)) (tab_groups t)) @
      [Lit ''</div>''])"

text \<open>A loop with its index.\<close>

definition indexed :: "(int \<Rightarrow> 'a \<Rightarrow> 'b list) \<Rightarrow> 'a list \<Rightarrow> 'b list" where
  "indexed f xs = concat (map (\<lambda>(i, x). f (int i) x) (enumerate 0 xs))"

definition Cards :: "fragmentData \<Rightarrow> chunk list" where
  "Cards data =
     [Ctx] @
     (if 1 < length (fd_tabs data)
      then [Lit ''<div class=\"tabs\" role=\"tablist\">''] @ indexed tab_button (fd_tabs data) @ [Lit ''</div>'']
      else []) @
     indexed (tab_panel data) (fd_tabs data) @
     (if fd_bookmark_groups data \<noteq> []
      then [Lit ''<div class=\"bookmark-groups\">''] @
           concat (map (\<lambda>bg. [Lit ''<div class=\"bookmark-group-item\">''] @
                             bookmarkGroupBlock bg (fd_site_target data) (fd_disable_collapse data)
                               (fd_bookmarks_icons_only data) @
                             [Lit ''</div>'']) (fd_bookmark_groups data)) @
           [Lit ''</div>'']
      else [])"

definition header_field :: "headerFieldView \<Rightarrow> chunk list" where
  "header_field f =
     (let classes = [(''header-field'', True), (''hl-good'', fv_highlight f = ''good''),
                     (''hl-warn'', fv_highlight f = ''warn''), (''hl-danger'', fv_highlight f = ''danger'')] in
      [CSSItems classes, Lit ''<span class=\"'', Classes classes,
       Lit ''\"><span class=\"header-field-row\"><span class=\"value\">'', Txt (fv_value f), Lit ''</span> ''] @
      (if fv_icon_url f \<noteq> []
       then [Lit ''<img class=\"field-icon\" src=\"'', Attr (fv_icon_url f),
             Lit ''\" alt=\"\" width=\"13\" height=\"13\" loading=\"lazy\" referrerpolicy=\"no-referrer\">'']
       else if fv_label f \<noteq> []
       then [Lit ''<span class=\"label\">'', Txt (fv_label f), Lit ''</span>'']
       else []) @
      [Lit ''</span>''] @ usageBar (fv_percent f) @ [Lit ''</span>''])"

definition header_content :: "headerWidgetView \<Rightarrow> chunk list" where
  "header_content w =
     (if hv_type w = headerTypeGreeting
      then [Lit ''<span class=\"greeting\">'', Txt (hv_greeting w), Lit ''</span>'']
      else if hv_type w = headerTypeDatetime
      then [Lit ''<span class=\"clock\" data-clock data-format=\"'', Attr (hv_format w), Lit ''\"></span>'']
      else if hv_type w = headerTypeLogo
      then (if hv_href w \<noteq> []
            then [Lit ''<a href=\"'', Url (hv_href w), Lit ''\">''] @ icon (hv_icon_url w) 19 @ [Lit ''</a>'']
            else icon (hv_icon_url w) 19)
      else icon (hv_icon_url w) 19 @ [Lit '' ''] @
           (if hv_err w \<noteq> [] then [Lit ''<span class=\"err\">'', Txt (hv_err w), Lit ''</span>'']
            else [Lit ''<span class=\"header-fields\">''] @ concat (map header_field (hv_fields w)) @
                 [Lit ''</span>'']))"

definition header_item :: "headerWidgetView \<Rightarrow> chunk list" where
  "header_item w =
     (let classes = [(''header-widget'', True), (''header-widget-'' @ hv_type w, True),
                     (''header-widget-push-right'', hv_push_right w)] in
      [CSSItems classes, Lit ''<div class=\"'', Classes classes, Lit ''\">''] @ header_content w @ [Lit ''</div>''])"

definition Header :: "headerWidgetView list \<Rightarrow> chunk list" where
  "Header widgets = [Ctx] @ concat (map header_item widgets)"

text \<open>A rendering as the handlers see it: the bytes, or the error that dropped them.\<close>

definition rendering :: "templ_lib \<Rightarrow> chunk list \<Rightarrow> string + string" where
  "rendering l cs = (case render l cs [] of (Some e, _) \<Rightarrow> Inl e | (None, html) \<Rightarrow> Inr html)"

end
