(* ===== verification/Markup.thy ===== *)
theory Markup
  imports Templates
begin

text \<open>
  What a browser reads in the fragments.  For every component of theory \<open>Templates\<close> there is the
  tree of elements it stands for; the bytes it writes are read as exactly that tree, whatever the
  texts, names and addresses from the cluster and from the upstreams contain.  From the trees follow
  that the markup is nested, that it uses only the elements and attributes of the templates, and
  that every card has exactly one element.
\<close>

section \<open>What the runtime promises\<close>

text \<open>
  An escaped text has no bracket and no quote, an attribute value no quote; class names and calls
  of a function of the page bring no style or script element with them.
\<close>

definition templ_ok :: "templ_lib \<Rightarrow> bool" where
  "templ_ok l \<longleftrightarrow>
     (\<forall>s. CHR ''<'' \<notin> set (tl_escape l s) \<and> CHR 0x22 \<notin> set (tl_escape l s)) \<and>
     (\<forall>s v. tl_attr l s = Inr v \<longrightarrow> CHR 0x22 \<notin> set v) \<and>
     (\<forall>cs v. tl_css_items l cs = Inr v \<longrightarrow> v = []) \<and>
     (\<forall>f i v. tl_script_items l f i = Inr v \<longrightarrow> v = []) \<and>
     (\<forall>f i. CHR 0x22 \<notin> set (tl_call l f i))"

definition value_of :: "string + string \<Rightarrow> string" where
  "value_of r = (case r of Inr v \<Rightarrow> v | Inl _ \<Rightarrow> [])"

lemma value_of_Inr [simp]: "value_of (Inr v) = v"
  by (simp add: value_of_def)

fun into_value :: "string \<Rightarrow> lex_state \<Rightarrow> (lex_state \<times> tok list) option" where
  "into_value v (Value n as a w) = Some (Value n as a (w @ v), [])"
| "into_value v _ = None"

text \<open>How a successful write is read.\<close>

fun mark :: "templ_lib \<Rightarrow> chunk \<Rightarrow> lex_state \<Rightarrow> (lex_state \<times> tok list) option" where
  "mark l Ctx st = Some (st, [])"
| "mark l (Lit s) st = run st s"
| "mark l (Txt s) st = (if st = Text then Some (Text, map Ch (tl_escape l s)) else None)"
| "mark l (Attr s) st = into_value (value_of (tl_attr l s)) st"
| "mark l (Url s) st = into_value (tl_escape l (value_of (tl_url l s))) st"
| "mark l (SafeURL s) st = into_value (tl_escape l (value_of (tl_safe_url l s))) st"
| "mark l (Style s) st = into_value (tl_escape l (value_of (tl_style l s))) st"
| "mark l (SafeCSS s) st = into_value (tl_escape l (value_of (tl_safe_css l s))) st"
| "mark l (CSSItems cs) st = Some (st, [])"
| "mark l (Classes cs) st = into_value (value_of (tl_attr l (tl_classes l cs))) st"
| "mark l (ScriptItems f i) st = Some (st, [])"
| "mark l (Call f i) st = into_value (tl_call l f i) st"

fun marks :: "templ_lib \<Rightarrow> chunk list \<Rightarrow> lex_state \<Rightarrow> (lex_state \<times> tok list) option" where
  "marks l [] st = Some (st, [])"
| "marks l (c # cs) st =
     (case mark l c st of
        None \<Rightarrow> None
      | Some (st', ts) \<Rightarrow> (case marks l cs st' of None \<Rightarrow> None | Some (st'', us) \<Rightarrow> Some (st'', ts @ us)))"

lemma marks_append:
  "marks l (cs @ ds) st =
     (case marks l cs st of
        None \<Rightarrow> None
      | Some (st', ts) \<Rightarrow> (case marks l ds st' of None \<Rightarrow> None | Some (st'', us) \<Rightarrow> Some (st'', ts @ us)))"
  by (induction l cs st rule: marks.induct) (auto split: option.splits)

lemma run_into_value:
  assumes "into_value v st = Some (st', ts)" "CHR 0x22 \<notin> set v"
  shows "run st v = Some (st', ts)"
  using assms by (cases st) (auto simp: run_value)

lemma emit_mark:
  assumes ok: "templ_ok l" and e: "emit l c buf = Inr s" and m: "mark l c st = Some (st', ts)"
  shows "run st s = Some (st', ts)"
proof -
  have law: "CHR ''<'' \<notin> set (tl_escape l s)" "CHR 0x22 \<notin> set (tl_escape l s)" "CHR 0x22 \<notin> set (tl_call l f i)" for s f i
    using ok by (auto simp: templ_ok_def)
  have law': "tl_attr l s = Inr v \<Longrightarrow> CHR 0x22 \<notin> set v" "tl_css_items l cs = Inr v \<Longrightarrow> v = []"
      "tl_script_items l f i = Inr v \<Longrightarrow> v = []" for s v cs f i
    using ok by (auto simp: templ_ok_def)
  show ?thesis
    using e m
    by (cases c) (auto simp: escaped_def law run_text dest: law' intro: run_into_value
        split: option.splits sum.splits if_splits)
qed

lemma render_marks:
  "templ_ok l \<Longrightarrow> render l cs buf = (None, buf') \<Longrightarrow> marks l cs st = Some (st', ts) \<Longrightarrow>
     \<exists>s. buf' = buf @ s \<and> run st s = Some (st', ts)"
proof (induction l cs buf arbitrary: st ts rule: render.induct)
  case (2 l c cs buf)
  from 2(3) obtain s where e: "emit l c buf = Inr s" and r: "render l cs (buf @ s) = (None, buf')"
    by (auto split: sum.splits)
  from 2(4) obtain st1 us ws where m: "mark l c st = Some (st1, us)" "marks l cs st1 = Some (st', ws)" "ts = us @ ws"
    by (auto split: option.splits)
  obtain s' where "buf' = (buf @ s) @ s'" "run st1 s' = Some (st', ws)"
    using 2(1) [OF e 2(2) r m(2)] by blast
  with run_append [OF emit_mark [OF 2(2) e m(1)]] m(3) show ?case by auto
qed simp

section \<open>The trees of the cards\<close>

text \<open>An attribute with a value from the runtime.\<close>

definition attribute :: "templ_lib \<Rightarrow> string \<Rightarrow> string \<Rightarrow> string \<times> string" where
  "attribute l k v = (k, value_of (tl_attr l v))"

definition class_attribute :: "templ_lib \<Rightarrow> (string \<times> bool) list \<Rightarrow> string \<times> string" where
  "class_attribute l cs = (''class'', value_of (tl_attr l (tl_classes l cs)))"

definition chars :: "templ_lib \<Rightarrow> string \<Rightarrow> node list" where
  "chars l s = [Chars (tl_escape l s)]"

named_theorems doc_simps \<open>the trees of the components\<close>
named_theorems write_simps \<open>the writes of the components\<close>

lemmas [doc_simps] = attribute_def class_attribute_def chars_def
lemmas [write_simps] = marks_append name_char_def

definition icon_doc :: "templ_lib \<Rightarrow> string \<Rightarrow> int \<Rightarrow> node list" where
  [doc_simps]: "icon_doc l url sizePx =
     (if url \<noteq> []
      then [Void ''img'' [(''class'', ''icon''), attribute l ''src'' url, (''alt'', []),
              attribute l ''width'' (fmt_int sizePx), attribute l ''height'' (fmt_int sizePx),
              (''loading'', ''lazy''), (''referrerpolicy'', ''no-referrer'')]]
      else [])"

definition desc_doc :: "templ_lib \<Rightarrow> string \<Rightarrow> node list" where
  [doc_simps]: "desc_doc l text = (if text \<noteq> [] then [Elem ''div'' [(''class'', ''desc'')] (chars l text)] else [])"

definition usageBar_doc :: "templ_lib \<Rightarrow> int option \<Rightarrow> node list" where
  [doc_simps]: "usageBar_doc l percent =
     (case percent of
        None \<Rightarrow> []
      | Some p \<Rightarrow> [Elem ''div'' [(''class'', ''usage-bar'')]
                   [Elem ''div'' [(''class'', ''usage-bar-fill''),
                      (''style'', tl_escape l (value_of (tl_safe_css l (percentBarStyle p))))] []]])"

lemma icon_marks [write_simps]: "marks l (icon url n) Text = Some (Text, flats (icon_doc l url n))"
  by (simp add: icon_def doc_simps write_simps)

lemma desc_marks [write_simps]: "marks l (desc t) Text = Some (Text, flats (desc_doc l t))"
  by (simp add: desc_def doc_simps write_simps)

lemma usageBar_marks [write_simps]: "marks l (usageBar p) Text = Some (Text, flats (usageBar_doc l p))"
  by (cases p) (simp_all add: usageBar_def doc_simps write_simps)


definition card_title_doc :: "templ_lib \<Rightarrow> Card \<Rightarrow> string \<Rightarrow> node list" where
  [doc_simps]: "card_title_doc l c siteTarget =
     [if c_href c \<noteq> []
      then Elem ''a'' ([(''class'', ''card-title''), (''href'', tl_escape l (value_of (tl_url l (c_href c)))),
                       attribute l ''target'' (cardTarget c siteTarget)] @
                      (if isNewTabTarget (cardTarget c siteTarget) then [(''rel'', ''noopener noreferrer'')] else []))
             (chars l (c_service_name c))
      else Elem ''span'' [(''class'', ''card-title'')] (chars l (c_service_name c)),
      Chars '' '']"

definition status_pills_doc :: "templ_lib \<Rightarrow> Card \<Rightarrow> node list" where
  [doc_simps]: "status_pills_doc l c =
     [Elem ''span'' [(''class'', ''status-indicators'')]
       ((if c_status c \<noteq> []
         then [Elem ''span'' [class_attribute l [(''status-pill'', True), (''status-'' @ c_status c, True)],
                             attribute l ''title'' (statusWithLatency (c_status c) (c_latency c))]
                 (chars l (c_status c) @ [Chars '' ''] @
                  (if c_latency c \<noteq> []
                   then [Elem ''span'' [(''class'', ''detail'')] (chars l ([CHR '' '', CHR 0xC2, CHR 0xB7, CHR '' ''] @ c_latency c))]
                   else [])),
               Chars '' '']
         else []) @
        (if c_pod_status c \<noteq> []
         then [Elem ''span'' [class_attribute l [(''status-pill'', True), (''status-'' @ c_pod_status c, True)],
                             attribute l ''title'' (statusWithReadyText (c_pod_status c) (c_pod_ready_text c))]
                 (chars l (podPillText c))]
         else []))]"

definition dot_doc :: "templ_lib \<Rightarrow> string \<Rightarrow> string \<Rightarrow> node" where
  [doc_simps]: "dot_doc l status explained =
     Elem ''span'' [class_attribute l [(''status-dot'', True), (''status-'' @ status, True)], (''role'', ''img''),
        attribute l ''aria-label'' explained, attribute l ''title'' explained] []"

definition status_dots_doc :: "templ_lib \<Rightarrow> Card \<Rightarrow> node list" where
  [doc_simps]: "status_dots_doc l c =
     [Elem ''span'' [(''class'', ''status-indicators'')]
       ((if c_status c \<noteq> []
         then [dot_doc l (c_status c) (statusWithLatency (c_status c) (c_latency c)), Chars '' ''] else []) @
        (if c_pod_status c \<noteq> []
         then [dot_doc l (c_pod_status c) (statusWithReadyText (c_pod_status c) (c_pod_ready_text c))] else []))]"

definition card_stat_doc :: "templ_lib \<Rightarrow> Field \<Rightarrow> node list" where
  [doc_simps]: "card_stat_doc l f =
     [Elem ''div'' [class_attribute l [(''stat'', True), (''stat-good'', f_highlight f = ''good''),
                      (''stat-warn'', f_highlight f = ''warn''), (''stat-danger'', f_highlight f = ''danger'')]]
       ([Elem ''span'' [(''class'', ''value'')] (chars l (f_value f)),
         Elem ''span'' [(''class'', ''label'')] (chars l (f_label f))] @ usageBar_doc l (f_percent f))]"

definition card_frame_doc :: "templ_lib \<Rightarrow> Card \<Rightarrow> node list" where
  [doc_simps]: "card_frame_doc l c =
     [Elem ''iframe'' [(''class'', ''card-iframe''), attribute l ''id'' (''iframe-'' @ c_key c),
        attribute l ''src'' (iframeSrc (c_fields c)),
        (''style'', tl_escape l (value_of (tl_style l (''height: '' @ iframeHeight (c_fields c))))),
        attribute l ''sandbox'' iframeSandbox, (''loading'', ''lazy''), (''hx-preserve'', ''true'')] []]"

definition card_body_doc :: "templ_lib \<Rightarrow> Card \<Rightarrow> node list" where
  [doc_simps]: "card_body_doc l c =
     (if c_err c \<noteq> [] then [Elem ''div'' [(''class'', ''err'')] (chars l (c_err c))]
      else if c_widget_type c = ''iframe'' \<and> c_fields c \<noteq> [] then card_frame_doc l c
      else if c_fields c \<noteq> [] then [Elem ''div'' [(''class'', ''stats'')] (concat (map (card_stat_doc l) (c_fields c)))]
      else [])"

definition status_doc :: "templ_lib \<Rightarrow> Card \<Rightarrow> node list" where
  [doc_simps]: "status_doc l c =
     (if c_status c \<noteq> [] \<or> c_pod_status c \<noteq> []
      then (if c_status_style c = ''basic'' then status_pills_doc l c else status_dots_doc l c) else [])"

definition serviceCardView_doc :: "templ_lib \<Rightarrow> string \<Rightarrow> Card \<Rightarrow> node list" where
  "serviceCardView_doc l siteTarget c =
     [Elem ''div'' [(''class'', ''card''), attribute l ''id'' (''card-'' @ c_key c), attribute l ''data-name'' (c_service_name c),
                   attribute l ''data-description'' (c_description c)]
       ([Elem ''h3'' [] (icon_doc l (c_icon_url c) 32 @ card_title_doc l c siteTarget @ status_doc l c)] @
        desc_doc l (c_description c) @ card_body_doc l c)]"

text \<open>A loop writes the trees of its passes one after the other.\<close>

lemma marks_concat:
  assumes "\<And>x. x \<in> set xs \<Longrightarrow> marks l (f x) Text = Some (Text, flats (d x))"
  shows "marks l (concat (map f xs)) Text = Some (Text, flats (concat (map d xs)))"
  using assms by (induction xs) (auto simp: marks_append)

lemma card_title_marks [write_simps]:
  "marks l (card_title c siteTarget) Text = Some (Text, flats (card_title_doc l c siteTarget))"
  by (simp add: card_title_def doc_simps write_simps)

lemma status_pills_marks [write_simps]: "marks l (status_pills c) Text = Some (Text, flats (status_pills_doc l c))"
  by (simp add: status_pills_def Let_def doc_simps write_simps)

lemma status_dots_marks [write_simps]: "marks l (status_dots c) Text = Some (Text, flats (status_dots_doc l c))"
  by (simp add: status_dots_def Let_def doc_simps write_simps)

lemma card_stat_marks [write_simps]: "marks l (card_stat f) Text = Some (Text, flats (card_stat_doc l f))"
  by (simp add: card_stat_def Let_def write_simps del: flat.simps) (simp add: doc_simps)

lemma card_frame_marks [write_simps]: "marks l (card_frame c) Text = Some (Text, flats (card_frame_doc l c))"
  by (simp add: card_frame_def doc_simps write_simps)

lemma card_body_marks [write_simps]: "marks l (card_body c) Text = Some (Text, flats (card_body_doc l c))"
  by (simp add: card_body_def card_body_doc_def write_simps marks_concat [OF card_stat_marks] chars_def)

lemma card_marks [write_simps]:
  "marks l (serviceCardView c siteTarget) Text = Some (Text, flats (serviceCardView_doc l siteTarget c))"
  by (simp add: serviceCardView_def serviceCardView_doc_def status_doc_def write_simps attribute_def)

section \<open>The trees of bookmarks, groups and tabs\<close>

definition bookmark_picture_doc :: "templ_lib \<Rightarrow> BookmarkCard \<Rightarrow> node list" where
  "bookmark_picture_doc l b =
     (if bc_icon_url b \<noteq> [] then icon_doc l (bc_icon_url b) 19
      else if bc_abbr b \<noteq> [] then [Elem ''span'' [(''class'', ''abbr'')] (chars l (bc_abbr b)), Chars '' '']
      else [])"

definition bookmark_text_doc :: "templ_lib \<Rightarrow> bool \<Rightarrow> BookmarkCard \<Rightarrow> node list" where
  "bookmark_text_doc l iconsOnly b =
     (if \<not> iconsOnly
      then [Elem ''div'' [] ([Elem ''h3'' [] (chars l (bc_name b))] @ desc_doc l (bc_description b))]
      else [])"

definition bookmarkCardView_doc :: "templ_lib \<Rightarrow> string \<Rightarrow> bool \<Rightarrow> BookmarkCard \<Rightarrow> node list" where
  "bookmarkCardView_doc l siteTarget iconsOnly b =
     [Elem ''a''
       ([class_attribute l [(''card'', True), (''bookmark'', True), (''bookmark-icons-only'', iconsOnly)],
         (''href'', tl_escape l (value_of (tl_safe_url l (bc_href b)))),
         attribute l ''target'' (bookmarkTarget b siteTarget)] @
        (if isNewTabTarget (bookmarkTarget b siteTarget) then [(''rel'', ''noopener noreferrer'')] else []) @
        [attribute l ''data-name'' (bc_name b), attribute l ''data-description'' (bc_description b),
         attribute l ''title'' (bc_name b)])
       (bookmark_picture_doc l b @ bookmark_text_doc l iconsOnly b)]"

definition groupHeading_doc :: "templ_lib \<Rightarrow> string \<Rightarrow> string \<Rightarrow> node list" where
  "groupHeading_doc l name iconURL = icon_doc l iconURL 19 @ chars l '' '' @ [Chars '' ''] @ chars l name"

definition grid_attributes :: "templ_lib \<Rightarrow> string \<Rightarrow> int option \<Rightarrow> (string \<times> string) list" where
  "grid_attributes l class columns =
     class_attribute l [(class, True)] #
     (case columns of None \<Rightarrow> [] | Some n \<Rightarrow> [(''style'', tl_escape l (value_of (tl_style l (gridStyle n))))])"

definition serviceCardGrid_doc :: "templ_lib \<Rightarrow> string \<Rightarrow> group_head \<Rightarrow> node list" where
  "serviceCardGrid_doc l siteTarget g =
     (if g_cards g \<noteq> []
      then [Elem ''div'' (grid_attributes l (gridClasses [] (g_style g) (g_columns g) (g_use_equal_heights g)) (g_columns g))
             (concat (map (serviceCardView_doc l siteTarget) (g_cards g)))]
      else [])"

fun serviceGroupBlock_doc :: "templ_lib \<Rightarrow> string \<Rightarrow> bool \<Rightarrow> cardGroup \<Rightarrow> node list" where
  "serviceGroupBlock_doc l siteTarget collapsible (CardGroup g subs) =
     (let grid = serviceCardGrid_doc l siteTarget g;
          below = (if subs \<noteq> []
            then [Elem ''div'' (grid_attributes l (gridClasses ''subgroups'' (g_style g) (g_columns g) False) (g_columns g))
                   (concat (map (\<lambda>sg. [Elem ''div'' [(''class'', ''subgroup-item'')]
                                        (serviceGroupBlock_doc l siteTarget collapsible sg)]) subs))]
            else []);
          heading = groupHeading_doc l (g_name g) (g_icon_url g) in
      if \<not> g_header g then grid @ [Chars '' ''] @ below
      else if collapsible
      then [Elem ''details'' ((''class'', ''group'') # attribute l ''data-group-name'' (g_path g) #
                             (if \<not> g_initially_collapsed g then [(''open'', [])] else []))
             ([Elem ''summary'' [] heading] @ grid @ below)]
      else [Elem ''h2'' [] heading] @ grid @ [Chars '' ''] @ below)"

definition bookmarkGroupBlock_doc :: "templ_lib \<Rightarrow> fragmentData \<Rightarrow> BookmarkGroup \<Rightarrow> node list" where
  "bookmarkGroupBlock_doc l data bg =
     (let grid = [Elem ''div'' (grid_attributes l (gridClasses [] (bg_style bg) (bg_columns bg) (bg_use_equal_heights bg))
                                  (bg_columns bg))
                   (concat (map (bookmarkCardView_doc l (fd_site_target data) (fd_bookmarks_icons_only data))
                             (bg_bookmarks bg)))];
          heading = groupHeading_doc l (bg_name bg) (bg_icon_url bg) in
      if \<not> bg_header bg then grid
      else if \<not> fd_disable_collapse data
      then [Elem ''details'' ((''class'', ''group'') # attribute l ''data-group-name'' (''bookmark:'' @ bg_name bg) #
                             (if \<not> bg_initially_collapsed bg then [(''open'', [])] else []))
             ([Elem ''summary'' [] heading] @ grid)]
      else [Elem ''h2'' [] heading] @ grid)"

definition tab_button_doc :: "templ_lib \<Rightarrow> int \<Rightarrow> layoutTab \<Rightarrow> node list" where
  "tab_button_doc l i t =
     [Elem ''button'' [(''type'', ''button''), attribute l ''id'' (tabID i),
        class_attribute l [(''tab-btn'', True), (''active'', i = 0)], (''role'', ''tab''),
        attribute l ''aria-controls'' (panelID i), attribute l ''aria-selected'' (ariaSelectedAttr (i = 0)),
        attribute l ''tabindex'' (tabIndexAttr (i = 0)), (''onclick'', tl_call l ''showTab'' i)] (chars l (tab_name t))]"

definition tab_panel_doc :: "templ_lib \<Rightarrow> fragmentData \<Rightarrow> int \<Rightarrow> layoutTab \<Rightarrow> node list" where
  "tab_panel_doc l data i t =
     [Elem ''div'' (class_attribute l [(''tab-panel'', True), (''hidden'', i \<noteq> 0)] #
                   (if 1 < length (fd_tabs data)
                    then [attribute l ''id'' (panelID i), (''role'', ''tabpanel''), attribute l ''aria-labelledby'' (tabID i)]
                    else []))
       (concat (map (serviceGroupBlock_doc l (fd_site_target data) (\<not> fd_disable_collapse data)) (tab_groups t)))]"

definition Cards_doc :: "templ_lib \<Rightarrow> fragmentData \<Rightarrow> node list" where
  "Cards_doc l data =
     (if 1 < length (fd_tabs data)
      then [Elem ''div'' [(''class'', ''tabs''), (''role'', ''tablist'')] (indexed (tab_button_doc l) (fd_tabs data))]
      else []) @
     indexed (tab_panel_doc l data) (fd_tabs data) @
     (if fd_bookmark_groups data \<noteq> []
      then [Elem ''div'' [(''class'', ''bookmark-groups'')]
             (concat (map (\<lambda>bg. [Elem ''div'' [(''class'', ''bookmark-group-item'')] (bookmarkGroupBlock_doc l data bg)])
                       (fd_bookmark_groups data)))]
      else [])"

section \<open>The trees of the header\<close>

definition header_field_doc :: "templ_lib \<Rightarrow> headerFieldView \<Rightarrow> node list" where
  "header_field_doc l f =
     [Elem ''span'' [class_attribute l [(''header-field'', True), (''hl-good'', fv_highlight f = ''good''),
                       (''hl-warn'', fv_highlight f = ''warn''), (''hl-danger'', fv_highlight f = ''danger'')]]
       ([Elem ''span'' [(''class'', ''header-field-row'')]
          ([Elem ''span'' [(''class'', ''value'')] (chars l (fv_value f)), Chars '' ''] @
           (if fv_icon_url f \<noteq> []
            then [Void ''img'' [(''class'', ''field-icon''), attribute l ''src'' (fv_icon_url f), (''alt'', []),
                    (''width'', ''13''), (''height'', ''13''), (''loading'', ''lazy''), (''referrerpolicy'', ''no-referrer'')]]
            else if fv_label f \<noteq> [] then [Elem ''span'' [(''class'', ''label'')] (chars l (fv_label f))]
            else []))] @
        usageBar_doc l (fv_percent f))]"

definition header_content_doc :: "templ_lib \<Rightarrow> headerWidgetView \<Rightarrow> node list" where
  "header_content_doc l w =
     (if hv_type w = headerTypeGreeting then [Elem ''span'' [(''class'', ''greeting'')] (chars l (hv_greeting w))]
      else if hv_type w = headerTypeDatetime
      then [Elem ''span'' [(''class'', ''clock''), (''data-clock'', []), attribute l ''data-format'' (hv_format w)] []]
      else if hv_type w = headerTypeLogo
      then (if hv_href w \<noteq> []
            then [Elem ''a'' [(''href'', tl_escape l (value_of (tl_url l (hv_href w))))] (icon_doc l (hv_icon_url w) 19)]
            else icon_doc l (hv_icon_url w) 19)
      else icon_doc l (hv_icon_url w) 19 @ [Chars '' ''] @
           (if hv_err w \<noteq> [] then [Elem ''span'' [(''class'', ''err'')] (chars l (hv_err w))]
            else [Elem ''span'' [(''class'', ''header-fields'')] (concat (map (header_field_doc l) (hv_fields w)))]))"

definition header_item_doc :: "templ_lib \<Rightarrow> headerWidgetView \<Rightarrow> node list" where
  "header_item_doc l w =
     [Elem ''div'' [class_attribute l [(''header-widget'', True), (''header-widget-'' @ hv_type w, True),
                                      (''header-widget-push-right'', hv_push_right w)]] (header_content_doc l w)]"

definition Header_doc :: "templ_lib \<Rightarrow> headerWidgetView list \<Rightarrow> node list" where
  "Header_doc l widgets = concat (map (header_item_doc l) widgets)"

section \<open>The fragments are read as their trees\<close>

lemma bookmark_picture_marks:
  "marks l (if bc_icon_url b \<noteq> [] then icon (bc_icon_url b) 19
            else if bc_abbr b \<noteq> [] then [Lit ''<span class=\"abbr\">'', Txt (bc_abbr b), Lit ''</span> '']
            else []) Text = Some (Text, flats (bookmark_picture_doc l b))"
  by (simp add: bookmark_picture_doc_def write_simps chars_def)

lemma bookmark_text_marks:
  "marks l (if \<not> iconsOnly
            then [Lit ''<div><h3>'', Txt (bc_name b), Lit ''</h3>''] @ desc (bc_description b) @ [Lit ''</div>'']
            else []) Text = Some (Text, flats (bookmark_text_doc l iconsOnly b))"
  by (simp add: bookmark_text_doc_def write_simps chars_def)

lemma bookmark_marks [write_simps]:
  "marks l (bookmarkCardView b siteTarget iconsOnly) Text =
     Some (Text, flats (bookmarkCardView_doc l siteTarget iconsOnly b))"
  unfolding bookmarkCardView_def bookmarkCardView_doc_def Let_def
  by (cases "isNewTabTarget (bookmarkTarget b siteTarget)")
    (simp_all add: marks_append bookmark_picture_marks bookmark_text_marks attribute_def class_attribute_def name_char_def)

lemma groupHeading_marks [write_simps]:
  "marks l (groupHeading name url) Text = Some (Text, flats (groupHeading_doc l name url))"
  by (simp add: groupHeading_def groupHeading_doc_def write_simps chars_def)

lemma grid_open_marks [write_simps]:
  "marks l (grid_open class columns) Text = Some (Text, [Start ''div'' (grid_attributes l class columns)])"
  by (cases columns) (simp_all add: grid_open_def grid_attributes_def class_attribute_def write_simps)

lemma serviceCardGrid_marks [write_simps]:
  "marks l (serviceCardGrid g siteTarget) Text = Some (Text, flats (serviceCardGrid_doc l siteTarget g))"
  by (simp add: serviceCardGrid_def serviceCardGrid_doc_def write_simps marks_concat [OF card_marks])

lemma subgroup_items_marks:
  assumes "\<And>sg. sg \<in> set subs \<Longrightarrow> marks l (block sg) Text = Some (Text, flats (d sg))"
  shows "marks l (concat (map (\<lambda>sg. [Lit ''<div class=\"subgroup-item\">''] @ block sg @ [Lit ''</div>'']) subs)) Text =
    Some (Text, flats (concat (map (\<lambda>sg. [Elem ''div'' [(''class'', ''subgroup-item'')] (d sg)]) subs)))"
  by (rule marks_concat) (simp add: assms write_simps)

lemma serviceGroupBlock_marks [write_simps]:
  "marks l (serviceGroupBlock siteTarget collapsible g) Text =
     Some (Text, flats (serviceGroupBlock_doc l siteTarget collapsible g))"
proof (induction g)
  case (CardGroup g subs)
  note items = subgroup_items_marks [of subs l "serviceGroupBlock siteTarget collapsible", OF CardGroup]
  then show ?case
    by (cases collapsible; cases "g_header g"; cases "subs = []")
      (simp_all add: serviceSubgroups_def write_simps Let_def attribute_def)
qed

lemma bookmarkGroupBlock_marks [write_simps]:
  "marks l (bookmarkGroupBlock bg (fd_site_target data) (fd_disable_collapse data) (fd_bookmarks_icons_only data)) Text =
     Some (Text, flats (bookmarkGroupBlock_doc l data bg))"
proof -
  have cards: "marks l (concat (map (\<lambda>b. bookmarkCardView b (fd_site_target data) (fd_bookmarks_icons_only data)) bs)) Text =
      Some (Text, flats (concat (map (bookmarkCardView_doc l (fd_site_target data) (fd_bookmarks_icons_only data)) bs)))" for bs
    by (rule marks_concat) (rule bookmark_marks)
  show ?thesis
    by (cases "bg_header bg"; cases "fd_disable_collapse data"; cases "bg_initially_collapsed bg")
      (simp_all add: bookmarkGroupBlock_def bookmarkCardGrid_def bookmarkGroupBlock_doc_def Let_def write_simps
        attribute_def cards)
qed

lemma tab_button_marks [write_simps]: "marks l (tab_button i t) Text = Some (Text, flats (tab_button_doc l i t))"
  by (simp add: tab_button_def tab_button_doc_def Let_def write_simps attribute_def class_attribute_def chars_def)

lemma tab_panel_marks [write_simps]:
  "marks l (tab_panel data i t) Text = Some (Text, flats (tab_panel_doc l data i t))"
  by (simp add: tab_panel_def tab_panel_doc_def Let_def write_simps attribute_def class_attribute_def
      marks_concat [OF serviceGroupBlock_marks])

lemma marks_indexed:
  assumes "\<And>i x. marks l (f i x) Text = Some (Text, flats (d i x))"
  shows "marks l (indexed f xs) Text = Some (Text, flats (indexed d xs))"
  unfolding indexed_def by (rule marks_concat) (auto simp: assms)

lemma Cards_marks: "marks l (Cards data) Text = Some (Text, flats (Cards_doc l data))"
proof -
  have items: "marks l (concat (map (\<lambda>bg. [Lit ''<div class=\"bookmark-group-item\">''] @
        bookmarkGroupBlock bg (fd_site_target data) (fd_disable_collapse data) (fd_bookmarks_icons_only data) @
        [Lit ''</div>'']) (fd_bookmark_groups data))) Text =
      Some (Text, flats (concat (map (\<lambda>bg. [Elem ''div'' [(''class'', ''bookmark-group-item'')] (bookmarkGroupBlock_doc l data bg)])
        (fd_bookmark_groups data))))"
    by (rule marks_concat) (simp add: write_simps)
  show ?thesis
    by (simp add: Cards_def Cards_doc_def write_simps items [simplified append.simps] marks_indexed [OF tab_button_marks]
        marks_indexed [OF tab_panel_marks])
qed

lemma header_field_marks [write_simps]: "marks l (header_field f) Text = Some (Text, flats (header_field_doc l f))"
  by (simp add: header_field_def header_field_doc_def Let_def write_simps attribute_def class_attribute_def chars_def)

lemma header_content_marks [write_simps]:
  "marks l (header_content w) Text = Some (Text, flats (header_content_doc l w))"
  by (simp add: header_content_def header_content_doc_def write_simps attribute_def chars_def
      marks_concat [OF header_field_marks])

lemma header_item_marks: "marks l (header_item w) Text = Some (Text, flats (header_item_doc l w))"
  by (simp add: header_item_def header_item_doc_def Let_def write_simps class_attribute_def)

lemma Header_marks: "marks l (Header ws) Text = Some (Text, flats (Header_doc l ws))"
  by (simp add: Header_def Header_doc_def marks_concat [OF header_item_marks])

lemma rendering_tokens:
  assumes "templ_ok l" "rendering l cs = Inr html" "marks l cs Text = Some (Text, ts)"
  shows "tokens html = Some ts"
proof -
  have "render l cs [] = (None, html)"
    using assms(2) by (auto simp: rendering_def split: prod.splits option.splits)
  from render_marks [OF assms(1) this assms(3)] show ?thesis by (auto simp: tokens_def)
qed

end
