(* ===== verification/Fragments.thy ===== *)
theory Fragments
  imports Markup
begin

text \<open>
  What follows from the trees of theory \<open>Markup\<close>: the fragments are nested markup made of the
  templates' own elements and attributes, and the grid that \<^verbatim>\<open>GET /fragment\<close> serves has exactly one
  element for every merged card of the store.
\<close>

section \<open>Only the templates' markup\<close>

definition page_tag :: "string \<Rightarrow> bool" where
  "page_tag n \<longleftrightarrow> n \<in> {''div'', ''span'', ''a'', ''img'', ''h2'', ''h3'', ''iframe'', ''details'', ''summary'', ''button''}"

text \<open>
  The attributes without effect of their own, and the three others: an iframe is sandboxed as the
  code says, an address has passed the runtime's check or is that of a bookmark, and the only script
  is the call that shows a tab.
\<close>

definition plain_attribute :: "string \<Rightarrow> bool" where
  "plain_attribute k \<longleftrightarrow>
     k \<in> {''class'', ''id'', ''alt'', ''width'', ''height'', ''loading'', ''referrerpolicy'', ''src'', ''style'', ''target'',
       ''rel'', ''title'', ''role'', ''aria-label'', ''aria-controls'', ''aria-selected'', ''aria-labelledby'', ''tabindex'',
       ''type'', ''data-name'', ''data-description'', ''data-group-name'', ''data-clock'', ''data-format'', ''open'',
       ''hx-preserve''}"

definition page_attribute :: "templ_lib \<Rightarrow> string \<times> string \<Rightarrow> bool" where
  "page_attribute l a \<longleftrightarrow>
     (case a of (k, v) \<Rightarrow>
        plain_attribute k \<or>
        k = ''sandbox'' \<and> v = value_of (tl_attr l iframeSandbox) \<or>
        k = ''href'' \<and> (\<exists>u. v = tl_escape l (value_of (tl_url l u)) \<or> v = tl_escape l (value_of (tl_safe_url l u))) \<or>
        k = ''onclick'' \<and> (\<exists>i. v = tl_call l ''showTab'' i))"

abbreviation page_node :: "templ_lib \<Rightarrow> node \<Rightarrow> bool" where
  "page_node l \<equiv> tags_ok page_tag (page_attribute l)"

named_theorems page_simps \<open>the elements of a tree are the page's\<close>

lemma page_attribute_simps [page_simps]:
  "page_attribute l (''href'', tl_escape l (value_of (tl_url l u)))"
  "page_attribute l (''href'', tl_escape l (value_of (tl_safe_url l u)))"
  "page_attribute l (''onclick'', tl_call l ''showTab'' i)"
  "page_attribute l (attribute l ''sandbox'' iframeSandbox)"
  "plain_attribute k \<Longrightarrow> page_attribute l (attribute l k v)"
  "page_attribute l (class_attribute l cs)"
  by (auto simp: page_attribute_def attribute_def class_attribute_def plain_attribute_def)

lemma page_plain [page_simps]: "plain_attribute k \<Longrightarrow> page_attribute l (k, v)"
  by (simp add: page_attribute_def)

lemma plain_names [page_simps]:
  "plain_attribute ''class''" "plain_attribute ''id''" "plain_attribute ''alt''" "plain_attribute ''width''"
  "plain_attribute ''height''" "plain_attribute ''loading''" "plain_attribute ''referrerpolicy''" "plain_attribute ''src''"
  "plain_attribute ''style''" "plain_attribute ''target''" "plain_attribute ''rel''" "plain_attribute ''title''"
  "plain_attribute ''role''" "plain_attribute ''aria-label''" "plain_attribute ''aria-controls''"
  "plain_attribute ''aria-selected''" "plain_attribute ''aria-labelledby''" "plain_attribute ''tabindex''"
  "plain_attribute ''type''" "plain_attribute ''data-name''" "plain_attribute ''data-description''"
  "plain_attribute ''data-group-name''" "plain_attribute ''data-clock''" "plain_attribute ''data-format''"
  "plain_attribute ''open''" "plain_attribute ''hx-preserve''"
  by (simp_all add: plain_attribute_def)

lemma page_tags [page_simps]:
  "page_tag ''div''" "page_tag ''span''" "page_tag ''a''" "page_tag ''img''" "page_tag ''h2''" "page_tag ''h3''"
  "page_tag ''iframe''" "page_tag ''details''" "page_tag ''summary''" "page_tag ''button''"
  "''div'' \<notin> void_tags" "''span'' \<notin> void_tags" "''a'' \<notin> void_tags" "''img'' \<in> void_tags" "''h2'' \<notin> void_tags"
  "''h3'' \<notin> void_tags" "''iframe'' \<notin> void_tags" "''details'' \<notin> void_tags" "''summary'' \<notin> void_tags" "''button'' \<notin> void_tags"
  by (simp_all add: page_tag_def void_tags_def)

lemma list_all_concat_map [page_simps]: "list_all P (concat (map f xs)) \<longleftrightarrow> list_all (\<lambda>x. list_all P (f x)) xs"
  by (induction xs) auto

lemma list_all_True [page_simps]: "list_all (\<lambda>x. True) xs"
  by (simp add: list_all_iff)

lemmas [page_simps] = list.pred_map comp_def

lemma page_chars [page_simps]: "list_all (page_node l) (chars l s)"
  by (simp add: chars_def)

lemma page_icon [page_simps]: "list_all (page_node l) (icon_doc l url n)"
  by (simp add: icon_doc_def page_simps)

lemma page_desc [page_simps]: "list_all (page_node l) (desc_doc l t)"
  by (simp add: desc_doc_def page_simps)

lemma page_usageBar [page_simps]: "list_all (page_node l) (usageBar_doc l p)"
  by (cases p) (simp_all add: usageBar_doc_def page_simps)

lemma page_card_title [page_simps]: "list_all (page_node l) (card_title_doc l c t)"
  by (simp add: card_title_doc_def page_simps)

lemma page_status [page_simps]: "list_all (page_node l) (status_doc l c)"
  by (simp add: status_doc_def status_pills_doc_def status_dots_doc_def dot_doc_def page_simps)

lemma page_card_body [page_simps]: "list_all (page_node l) (card_body_doc l c)"
  by (simp add: card_body_doc_def card_frame_doc_def card_stat_doc_def page_simps)

lemma page_card [page_simps]: "list_all (page_node l) (serviceCardView_doc l t c)"
  by (simp add: serviceCardView_doc_def page_simps)

lemma page_bookmark [page_simps]: "list_all (page_node l) (bookmarkCardView_doc l t io b)"
  by (simp add: bookmarkCardView_doc_def bookmark_picture_doc_def bookmark_text_doc_def page_simps)

lemma page_heading [page_simps]: "list_all (page_node l) (groupHeading_doc l n u)"
  by (simp add: groupHeading_doc_def page_simps)

lemma page_grid [page_simps]: "list_all (page_attribute l) (grid_attributes l cl cols)"
  by (cases cols) (simp_all add: grid_attributes_def page_simps)

lemma page_cardGrid [page_simps]: "list_all (page_node l) (serviceCardGrid_doc l t g)"
  by (simp add: serviceCardGrid_doc_def page_simps)

lemma page_group [page_simps]: "list_all (page_node l) (serviceGroupBlock_doc l t cl g)"
proof (induction g)
  case (CardGroup g subs)
  then have "list_all (\<lambda>sg. list_all (page_node l) (serviceGroupBlock_doc l t cl sg)) subs"
    by (simp add: list_all_iff)
  then show ?case by (cases cl) (simp_all add: page_simps Let_def)
qed

lemma page_bookmarks [page_simps]: "list_all (page_node l) (bookmarkGroupBlock_doc l data bg)"
  by (simp add: bookmarkGroupBlock_doc_def Let_def page_simps)

lemma page_indexed [page_simps]:
  assumes "\<And>i x. list_all P (f i x)"
  shows "list_all P (indexed f xs)"
  unfolding indexed_def using assms by (simp add: page_simps case_prod_unfold)

lemma page_tab_button [page_simps]: "list_all (page_node l) (tab_button_doc l i t)"
  by (simp add: tab_button_doc_def page_simps)

lemma page_tab_panel [page_simps]: "list_all (page_node l) (tab_panel_doc l data i t)"
  by (simp add: tab_panel_doc_def page_simps)

lemma page_Cards: "list_all (page_node l) (Cards_doc l data)"
  by (simp add: Cards_doc_def page_simps)

lemma page_header_field [page_simps]: "list_all (page_node l) (header_field_doc l f)"
  by (simp add: header_field_doc_def page_simps)

lemma page_header_content [page_simps]: "list_all (page_node l) (header_content_doc l w)"
  by (simp add: header_content_doc_def page_simps)

lemma page_Header: "list_all (page_node l) (Header_doc l ws)"
  by (simp add: Header_doc_def header_item_doc_def page_simps)

text \<open>
  C11. Whatever the cluster's objects and the upstreams' answers put into names, descriptions, states,
  values and addresses, the card grid and the header strip are nested markup that a browser reads as
  elements and attributes of the templates only: no value opens, closes or extends an element, adds
  a script or a handler, or loosens the sandbox of an embedded page.
\<close>

theorem markup_confined:
  assumes "templ_ok l" "cs = Cards data \<or> cs = Header widgets" "rendering l cs = Inr html"
  shows "\<exists>ts. tokens html = Some ts \<and> nest [] ts = Some [] \<and> list_all (tok_ok page_tag (page_attribute l)) ts"
proof -
  obtain ns where ns: "marks l cs Text = Some (Text, flats ns)" "list_all (page_node l) ns"
    using assms(2) Cards_marks page_Cards Header_marks page_Header by blast
  from rendering_tokens [OF assms(1,3) ns(1)] nest_flats [OF ns(2)] tok_ok_flats [OF ns(2)] show ?thesis by blast
qed

section \<open>Every card once\<close>

text \<open>The cards of a fragment: the elements with an id and a name, and these two.\<close>

definition card_of :: "tok \<Rightarrow> (string \<times> string) list" where
  "card_of t =
     (case t of
        Start n as \<Rightarrow>
          if n = ''div''
          then (case (map_of as ''id'', map_of as ''data-name'') of (Some i, Some nm) \<Rightarrow> [(i, nm)] | _ \<Rightarrow> [])
          else []
      | _ \<Rightarrow> [])"

definition cards_in :: "tok list \<Rightarrow> (string \<times> string) list" where
  "cards_in ts = concat (map card_of ts)"

lemma cards_in_simps [simp]:
  "cards_in [] = []" "cards_in (t # ts) = card_of t @ cards_in ts" "cards_in (ts @ us) = cards_in ts @ cards_in us"
  "card_of (End n) = []" "card_of (Ch c) = []"
  by (simp_all add: cards_in_def card_of_def)

lemma cards_in_map_Ch [simp]: "cards_in (map Ch s) = []"
  by (induction s) auto

lemma cards_in_concat: "cards_in (flats (concat (map f xs))) = concat (map (\<lambda>x. cards_in (flats (f x))) xs)"
  by (induction xs) auto

lemma cards_in_map: "cards_in (flats (map f xs)) = concat (map (\<lambda>x. cards_in (flat (f x))) xs)"
  by (induction xs) auto

text \<open>The trees without a card.\<close>

named_theorems no_card \<open>trees without a card\<close>

lemma no_card_basic [no_card]:
  "cards_in (flats (chars l s)) = []" "cards_in (flats (icon_doc l url n)) = []" "cards_in (flats (desc_doc l t)) = []"
  by (simp_all add: chars_def icon_doc_def desc_doc_def card_of_def)

lemma no_card_usageBar [no_card]: "cards_in (flats (usageBar_doc l p)) = []"
  by (cases p) (simp_all add: usageBar_doc_def card_of_def)

lemma no_card_title [no_card]: "cards_in (flats (card_title_doc l c t)) = []"
  by (simp add: card_title_doc_def no_card card_of_def)

lemma no_card_status [no_card]: "cards_in (flats (status_doc l c)) = []"
  by (simp add: status_doc_def status_pills_doc_def status_dots_doc_def dot_doc_def no_card card_of_def)

lemma no_card_stat [no_card]: "cards_in (flats (card_stat_doc l f)) = []"
  by (simp add: card_stat_doc_def no_card card_of_def class_attribute_def)

lemma no_card_body [no_card]: "cards_in (flats (card_body_doc l c)) = []"
  by (simp add: card_body_doc_def card_frame_doc_def cards_in_concat no_card card_of_def)

lemma no_card_bookmark [no_card]: "cards_in (flats (bookmarkCardView_doc l t io b)) = []"
  by (simp add: bookmarkCardView_doc_def bookmark_picture_doc_def bookmark_text_doc_def no_card card_of_def)

lemma no_card_heading [no_card]: "cards_in (flats (groupHeading_doc l n u)) = []"
  by (simp add: groupHeading_doc_def no_card)

lemma no_card_grid [no_card]: "card_of (Start n (grid_attributes l cl cols)) = []"
  by (cases cols) (simp_all add: grid_attributes_def class_attribute_def card_of_def)

lemma no_card_bookmarks [no_card]: "cards_in (flats (bookmarkGroupBlock_doc l data bg)) = []"
  by (simp add: bookmarkGroupBlock_doc_def Let_def cards_in_concat no_card) (simp add: card_of_def)

lemma no_card_tab_button [no_card]: "cards_in (flats (tab_button_doc l i t)) = []"
  by (simp add: tab_button_doc_def no_card card_of_def)

definition card_mark :: "templ_lib \<Rightarrow> Card \<Rightarrow> string \<times> string" where
  "card_mark l c = (value_of (tl_attr l (''card-'' @ c_key c)), value_of (tl_attr l (c_service_name c)))"

lemma cards_in_card: "cards_in (flats (serviceCardView_doc l t c)) = [card_mark l c]"
  by (simp add: serviceCardView_doc_def no_card card_mark_def attribute_def) (simp add: card_of_def)

lemma cards_in_grid: "cards_in (flats (serviceCardGrid_doc l t g)) = map (card_mark l) (g_cards g)"
  by (simp add: serviceCardGrid_doc_def cards_in_concat cards_in_card no_card)

lemma cards_in_group:
  "mset (cards_in (flats (serviceGroupBlock_doc l t cl g))) = tree_sum (\<lambda>h. image_mset (card_mark l) (mset (g_cards h))) g"
proof (induction g)
  case (CardGroup h subs)
  have "mset (cards_in (flats (concat (map (\<lambda>sg. [Elem ''div'' [(''class'', ''subgroup-item'')]
        (serviceGroupBlock_doc l t cl sg)]) ss)))) =
      (\<Sum>s\<leftarrow>ss. tree_sum (\<lambda>h. image_mset (card_mark l) (mset (g_cards h))) s)" if "set ss \<subseteq> set subs" for ss
    using that by (induction ss) (auto simp: CardGroup card_of_def)
  then show ?case
    by (cases cl; cases "subs = []") (simp_all add: Let_def no_card cards_in_grid, simp_all add: card_of_def attribute_def)
qed

lemma cards_in_panel:
  "mset (cards_in (flats (tab_panel_doc l data i t))) =
     (\<Sum>g\<leftarrow>tab_groups t. tree_sum (\<lambda>h. image_mset (card_mark l) (mset (g_cards h))) g)"
proof -
  have "mset (cards_in (flats (concat (map (serviceGroupBlock_doc l tg cl) gs)))) =
      (\<Sum>g\<leftarrow>gs. tree_sum (\<lambda>h. image_mset (card_mark l) (mset (g_cards h))) g)" for tg cl gs
    by (induction gs) (simp_all add: cards_in_group)
  then show ?thesis by (simp add: tab_panel_doc_def) (simp add: card_of_def attribute_def class_attribute_def)
qed

lemma no_card_indexed:
  "(\<And>i x. cards_in (flats (d i x)) = []) \<Longrightarrow> cards_in (flats (indexed d xs)) = []"
  by (simp add: indexed_def cards_in_concat case_prod_unfold)

lemma cards_in_indexed:
  assumes "\<And>i x. mset (cards_in (flats (d i x))) = f x"
  shows "mset (cards_in (flats (indexed d xs))) = (\<Sum>x\<leftarrow>xs. f x)"
proof -
  have "mset (cards_in (flats (concat (map (\<lambda>(i, x). d (int i) x) (enumerate n xs))))) = (\<Sum>x\<leftarrow>xs. f x)" for n
    by (induction xs arbitrary: n) (simp_all add: assms)
  then show ?thesis by (simp add: indexed_def)
qed

lemma cards_in_Cards:
  "mset (cards_in (flats (Cards_doc l data))) = shown (\<lambda>h. image_mset (card_mark l) (mset (g_cards h))) (fd_tabs data)"
  by (simp add: Cards_doc_def shown_def cards_in_indexed [OF cards_in_panel] no_card_indexed [OF no_card_tab_button]
      cards_in_map no_card) (simp add: card_of_def)

lemma tree_sum_image: "tree_sum (\<lambda>h. image_mset f (p h)) g = image_mset f (tree_sum p g)"
proof (induction g)
  case (CardGroup h subs)
  have "(\<Sum>s\<leftarrow>ss. tree_sum (\<lambda>h. image_mset f (p h)) s) = image_mset f (\<Sum>s\<leftarrow>ss. tree_sum p s)" if "set ss \<subseteq> set subs" for ss
    using that by (induction ss) (auto simp: CardGroup)
  then show ?case by simp
qed

lemma shown_image: "shown (\<lambda>h. image_mset f (p h)) tabs = image_mset f (shown p tabs)"
proof -
  have "(\<Sum>g\<leftarrow>gs. tree_sum (\<lambda>h. image_mset f (p h)) g) = image_mset f (\<Sum>g\<leftarrow>gs. tree_sum p g)" for gs
    by (induction gs) (simp_all add: tree_sum_image)
  then show ?thesis by (induction tabs) simp_all
qed

lemma cards_of_layout:
  "shown (\<lambda>h. image_mset f (mset (g_cards h))) (layoutTabs cards site) = image_mset f (mset cards)"
proof -
  have "shown (\<lambda>h. image_mset f (mset (g_cards h))) (layoutTabs cards site) =
      shown (\<lambda>h. image_mset (f \<circ> snd) (placed h)) (layoutTabs cards site)"
    by (simp add: placed_def image_mset.compositionality comp_def)
  also have "\<dots> = image_mset (f \<circ> snd) (shown placed (layoutTabs cards site))" by (rule shown_image)
  also have "\<dots> = image_mset f (mset cards)"
    by (simp add: layoutTabs_shown [of placed, OF applyLayoutStyle_placed] nestGroups_placed
        image_mset.compositionality comp_def)
  finally show ?thesis .
qed

lemma fragment_body:
  assumes "LoadSite (sv_reader s) (sv_namespace s) (sv_dashboard_name s) = Inr site"
    and "r = handleFragment render_cards gz s req empty_response"
    and "rs_status r = 200" "gstr (rs_headers r) ''Content-Encoding'' = []"
  shows "render_cards (buildFragmentData (Store_Snapshot (sv_store s)) site) = Inr (rs_body r)"
proof (cases "render_cards (buildFragmentData (Store_Snapshot (sv_store s)) site)")
  case (Inl e)
  then have "rs_status r = 500"
    using assms(1,2) by (simp add: handleFragment_def writeCachedHTML_def http_error_def)
  with assms(3) show ?thesis by simp
next
  case (Inr html)
  from fragment_etag_agrees [where s = s and site = site and render_cards = render_cards and html = html
      and render_header = "\<lambda>_. Inr []" and gz = gz and req = req, OF assms(1) Inr] assms(2)
  have "if gstr req ''If-None-Match'' = etagFor html then rs_status r = 304 \<and> rs_body r = []
      else rs_status r = 200 \<and>
        (if contains (gstr req ''Accept-Encoding'') ''gzip''
         then rs_body r = gz html \<and> gstr (rs_headers r) ''Content-Encoding'' = ''gzip''
         else rs_body r = html \<and> gstr (rs_headers r) ''Content-Encoding'' = [])"
    by (simp add: Let_def)
  with assms(3,4) Inr show ?thesis by (auto split: if_splits)
qed

text \<open>
  C9. A browser that gets the card grid finds in it exactly one card element for every card the store's
  widgets merge into, with the key and the name of that card: from the store through merging, tabs,
  nested groups and escaping, no card is lost, doubled or renamed.
\<close>

theorem fragment_cards_once:
  assumes "templ_ok l" "LoadSite (sv_reader s) (sv_namespace s) (sv_dashboard_name s) = Inr site"
    and "r = handleFragment (\<lambda>data. rendering l (Cards data)) gz s req empty_response"
    and "rs_status r = 200" "gstr (rs_headers r) ''Content-Encoding'' = []"
  shows "\<exists>ts. tokens (rs_body r) = Some ts \<and>
    mset (cards_in ts) = image_mset (card_mark l) (mset (mergeServiceCards (serviceCards (Store_Snapshot (sv_store s)))))"
proof -
  let ?data = "buildFragmentData (Store_Snapshot (sv_store s)) site"
  have "tokens (rs_body r) = Some (flats (Cards_doc l ?data))"
    by (rule rendering_tokens [OF assms(1) fragment_body [OF assms(2-5)] Cards_marks])
  moreover have "mset (cards_in (flats (Cards_doc l ?data))) =
      image_mset (card_mark l) (mset (mergeServiceCards (serviceCards (Store_Snapshot (sv_store s)))))"
    by (simp add: cards_in_Cards buildFragmentData_def cards_of_layout)
  ultimately show ?thesis by blast
qed

section \<open>Witnesses\<close>

text \<open>A runtime that escapes as the documentation says and never fails.\<close>

definition ex_escape :: "string \<Rightarrow> string" where
  "ex_escape s = concat (map (\<lambda>c.
     if c = CHR ''<'' then ''&lt;'' else if c = CHR ''>'' then ''&gt;'' else if c = CHR ''&'' then ''&amp;''
     else if c = CHR 0x22 then ''&#34;'' else if c = CHR 0x27 then ''&#39;'' else [c]) s)"

definition ex_templ :: templ_lib where
  "ex_templ = \<lparr>tl_ctx = (\<lambda>_. None), tl_escape = ex_escape, tl_attr = (\<lambda>s. Inr (ex_escape s)), tl_url = Inr, tl_safe_url = Inr,
     tl_style = Inr, tl_safe_css = Inr, tl_css_items = (\<lambda>_. Inr []),
     tl_classes = (\<lambda>cs. join '' '' (map fst (filter snd cs))), tl_script_items = (\<lambda>_ _. Inr []),
     tl_call = (\<lambda>f i. ex_escape (f @ ''('' @ fmt_int i @ '')''))\<rparr>"

lemma ex_templ_ok: "templ_ok ex_templ"
proof -
  have "CHR ''<'' \<notin> set (ex_escape s) \<and> CHR 0x22 \<notin> set (ex_escape s)" for s
    by (induction s) (auto simp: ex_escape_def)
  then show ?thesis by (auto simp: templ_ok_def ex_templ_def)
qed

lemma ex_rendering: "rendering ex_templ cs = Inr (snd (render ex_templ cs []))"
proof -
  have "\<exists>s. emit ex_templ c buf = Inr s" for c buf by (cases c) (auto simp: ex_templ_def escaped_def)
  then have "fst (render ex_templ cs buf) = None" for buf
    by (induction cs arbitrary: buf) (simp, metis (no_types, lifting) render.simps(2) sum.simps(6))
  then show ?thesis by (simp add: rendering_def case_prod_unfold)
qed

definition ex_page :: Server where
  "ex_page = ex_server\<lparr>sv_store := [(''web/app/0/0'', zero_card\<lparr>c_key := ''web/app/0/0'', c_service_name := ''<b>Wiki'',
     c_group := ''Media/Books''\<rparr>)]\<rparr>"

definition ex_page_response :: response where
  "ex_page_response = handleFragment (\<lambda>data. rendering ex_templ (Cards data)) id ex_page [] empty_response"

theorem fragment_cards_once_witness:
  "\<exists>ts. tokens (rs_body ex_page_response) = Some ts \<and> cards_in ts = [(''card-web/app/0/0'', ''&lt;b&gt;Wiki'')]"
proof -
  have site: "LoadSite (sv_reader ex_page) (sv_namespace ex_page) (sv_dashboard_name ex_page) = Inr default_site"
    by (simp add: ex_page_def ex_server_def LoadSite_def boundStyleSpec_def namespaceDashboardCount_def ex_reader_def
        ex_dashboard_def zero_dashboard_spec_def groupBookmarks_def bound_bookmarks_def headerWidgets_def
        flat_header_widgets_def Let_def default_site_def)
  obtain html where "rendering ex_templ (Cards (buildFragmentData (Store_Snapshot (sv_store ex_page)) default_site)) = Inr html"
    using ex_rendering by blast
  moreover have "gstr [] k = []" for k by (simp add: gstr_def gget_def)
  ultimately have r: "rs_status ex_page_response = 200" "gstr (rs_headers ex_page_response) ''Content-Encoding'' = []"
    unfolding ex_page_response_def
    by (simp_all add: handleFragment_def site writeCachedHTML_def Let_def gstr_set_header empty_response_def etagFor_def)
  have "mergeServiceCards [c] = [c]" for c
    using bucket_const [of "[c]" "\<lambda>c. mergeCardGroupKey (c_key c)" "mergeCardGroupKey (c_key c)"]
    by (simp add: mergeServiceCards_def merge_group_def)
  then have "mset (cards_in ts) = image_mset (card_mark ex_templ)
        (mset (mergeServiceCards (serviceCards (Store_Snapshot (sv_store ex_page))))) \<Longrightarrow>
      cards_in ts = [(''card-web/app/0/0'', ''&lt;b&gt;Wiki'')]" for ts
    by (simp add: ex_page_def Store_Snapshot_def serviceCards_def zero_card_def card_mark_def ex_templ_def ex_escape_def)
  with fragment_cards_once [OF ex_templ_ok site ex_page_response_def r] show ?thesis by blast
qed

definition ex_widget_view :: headerWidgetView where
  "ex_widget_view = \<lparr>hv_type = ''greeting'', hv_greeting = ''</span><script>'', hv_format = [], hv_icon_url = [],
     hv_href = [], hv_fields = [], hv_err = [], hv_push_right = False\<rparr>"

theorem markup_confined_witness:
  "\<exists>ts. tokens (snd (render ex_templ (Header [ex_widget_view]) [])) = Some ts \<and> nest [] ts = Some [] \<and>
     list_all (tok_ok page_tag (page_attribute ex_templ)) ts"
  by (rule markup_confined [OF ex_templ_ok _ ex_rendering, where data = "buildFragmentData [] default_site" and widgets = "[ex_widget_view]"])
    simp

end
