(* ===== verification/Page.thy ===== *)
theory Page
  imports Shell Fragments
begin

text \<open>
  The whole page (\<^verbatim>\<open>internal/dashboard/index_templ.go\<close>, generated from \<^verbatim>\<open>index.templ\<close>): the shell with
  its style sheet and scripts around the card grid.  The reader of theory \<open>Html\<close> gets comments and
  the elements whose content is code: \<open>script\<close> and \<open>style\<close>.  Proved: a browser finds in the page
  exactly the code the program means it to run, each piece whole and vouched for by the nonce that
  the response's security policy names.
\<close>

section \<open>Reading code\<close>

text \<open>
  A declaration or comment is skipped.  The content of a script or style element ends at its end
  tag, in any case, and nothing in it is markup; the reader gives up where a script holds the
  start of a comment, from which on a browser may pass over the end tag.
\<close>

datatype page_tok = Plain tok | Code string "(string \<times> string) list" string

datatype page_state = Html lex_state | Decl string | Raw string "(string \<times> string) list" string

definition raw_tags :: "string set" where "raw_tags = {''script'', ''style''}"

fun enter :: "lex_state \<Rightarrow> tok list \<Rightarrow> page_state \<times> page_tok list" where
  "enter st [Start n as] = (if n \<in> raw_tags then (Raw n as [], []) else (Html st, [Plain (Start n as)]))"
| "enter st ts = (Html st, map Plain ts)"

definition ends_name :: "char \<Rightarrow> bool" where
  "ends_name c \<longleftrightarrow> c \<in> {CHR 0x09, CHR 0x0A, CHR 0x0C, CHR 0x0D, CHR '' '', CHR ''/'', CHR ''>''}"

fun page_step :: "page_state \<Rightarrow> char \<Rightarrow> (page_state \<times> page_tok list) option" where
  "page_step (Html st) c =
     (if st = Tag [] \<and> c = CHR ''!'' then Some (Decl [], [])
      else case step st c of None \<Rightarrow> None | Some (st', ts) \<Rightarrow> Some (enter st' ts))"
| "page_step (Decl d) c =
     (if c = CHR ''>'' \<and> (has_prefix d ''--'' \<longrightarrow> has_suffix d ''--'' \<or> has_suffix d ''--!'')
      then Some (Html Text, []) else Some (Decl (d @ [c]), []))"
| "page_step (Raw n as w) c =
     (if ends_name c \<and> has_suffix (to_lower w) (''</'' @ n)
      then (if c = CHR ''>'' then Some (Html Text, [Code n as (take (length w - length (''</'' @ n)) w)]) else None)
      else if n = ''script'' \<and> has_suffix (w @ [c]) ''<!--'' then None
      else Some (Raw n as (w @ [c]), []))"

fun page_run :: "page_state \<Rightarrow> string \<Rightarrow> (page_state \<times> page_tok list) option" where
  "page_run st [] = Some (st, [])"
| "page_run st (c # s) =
     (case page_step st c of
        None \<Rightarrow> None
      | Some (st', ts) \<Rightarrow> (case page_run st' s of None \<Rightarrow> None | Some (st'', us) \<Rightarrow> Some (st'', ts @ us)))"

definition page_tokens :: "string \<Rightarrow> page_tok list option" where
  "page_tokens s = (case page_run (Html Text) s of Some (Html Text, ts) \<Rightarrow> Some ts | _ \<Rightarrow> None)"

text \<open>What a browser executes or applies: the code that is not marked as data.\<close>

fun code_of :: "page_tok \<Rightarrow> (string \<times> (string \<times> string) list \<times> string) list" where
  "code_of (Plain t) = []"
| "code_of (Code n as w) = (if (''type'', ''application/json'') \<in> set as then [] else [(n, as, w)])"

definition codes :: "page_tok list \<Rightarrow> (string \<times> (string \<times> string) list \<times> string) list" where
  "codes ts = concat (map code_of ts)"

lemma codes_simps [simp]:
  "codes [] = []" "codes (t # ts) = code_of t @ codes ts" "codes (ts @ us) = codes ts @ codes us"
  by (simp_all add: codes_def)

lemma codes_plain [simp]: "codes (map Plain ts) = []" "codes (map (Plain \<circ> f) xs) = []"
  by (simp_all add: codes_def)

lemma page_run_append:
  "page_run st (s @ t) =
     (case page_run st s of
        None \<Rightarrow> None
      | Some (st', ts) \<Rightarrow> (case page_run st' t of None \<Rightarrow> None | Some (st'', us) \<Rightarrow> Some (st'', ts @ us)))"
  by (induction st s rule: page_run.induct) (auto split: option.splits)

lemma page_run_text: "CHR ''<'' \<notin> set s \<Longrightarrow> page_run (Html Text) s = Some (Html Text, map Plain (map Ch s))"
  by (induction s) auto

lemma page_run_value:
  "CHR 0x22 \<notin> set v \<Longrightarrow> page_run (Html (Value n as a w)) v = Some (Html (Value n as a (w @ v)), [])"
  by (induction v arbitrary: w) auto

section \<open>The template\<close>

text \<open>The values that are written as JSON for the scripts of the page.\<close>

datatype script_data = SwitcherData bool bool | PaletteData "string gomap gomap" | SearchData Search

datatype piece = Chunk chunk | JSONScript string script_data

text \<open>\<open>js\<close> is the runtime's \<^verbatim>\<open>JSONScript\<close>; \<^verbatim>\<open>templ.Raw\<close> writes its text as it is.\<close>

definition piece_emit :: "templ_lib \<Rightarrow> (string \<Rightarrow> script_data \<Rightarrow> string + string) \<Rightarrow> piece \<Rightarrow> string \<Rightarrow> string + string" where
  "piece_emit l js p buf = (case p of Chunk c \<Rightarrow> emit l c buf | JSONScript i d \<Rightarrow> js i d)"

fun page_render :: "templ_lib \<Rightarrow> (string \<Rightarrow> script_data \<Rightarrow> string + string) \<Rightarrow> piece list \<Rightarrow> string \<Rightarrow> string option \<times> string" where
  "page_render l js [] buf = (None, buf)"
| "page_render l js (p # ps) buf =
     (case piece_emit l js p buf of Inl e \<Rightarrow> (Some e, buf) | Inr s \<Rightarrow> page_render l js ps (buf @ s))"

definition page_rendering :: "templ_lib \<Rightarrow> (string \<Rightarrow> script_data \<Rightarrow> string + string) \<Rightarrow> piece list \<Rightarrow> string + string" where
  "page_rendering l js ps = (case page_render l js ps [] of (Some e, _) \<Rightarrow> Inl e | (None, html) \<Rightarrow> Inr html)"

abbreviation newline :: char where "newline \<equiv> CHR 0x0A"

text \<open>The parts of \<^verbatim>\<open>Index\<close>, in their order: the head, its styles and scripts, the body.\<close>

definition index_meta :: "indexData \<Rightarrow> piece list" where
  "index_meta data =
     (let site = id_site data in
      map Chunk
        ([Ctx, Lit ''<!doctype html><html lang=\"'', Attr (langOrDefault (site_language site)),
          Lit ''\" data-theme=\"'', Attr (site_theme site), Lit ''\" data-header-style=\"'', Attr (site_header_style site),
          Lit ''\"''] @
         (if site_full_width site then [Lit '' data-full-width''] else []) @
         [Lit '' style=\"'',
          SafeCSS (rootVarsCSS (id_accent_hex data) (id_ramp data) (site_card_blur site) (site_background site)),
          Lit ''\"><head><meta charset=\"utf-8\"><meta name=\"viewport\" content=\"width=device-width, initial-scale=1\"><meta name=\"theme-color\" content=\"'',
          Attr (themeColorHex (site_theme site) (id_ramp data)), Lit ''\"><title>'', Txt (site_title site), Lit ''</title>''] @
         (if site_description site \<noteq> []
          then [Lit ''<meta name=\"description\" content=\"'', Attr (site_description site), Lit ''\">''] else []) @
         (if site_favicon site \<noteq> [] then [Lit ''<link rel=\"icon\" href=\"'', Url (site_favicon site), Lit ''\">''] else []) @
         (if site_disable_indexing site then [Lit ''<meta name=\"robots\" content=\"noindex, nofollow\">''] else [])))"

definition index_styles :: "string \<Rightarrow> Site \<Rightarrow> piece list" where
  "index_styles nonce site =
     map Chunk
       ([Lit ''<link rel=\"manifest\" href=\"/manifest.json\"><style nonce=\"'', Attr nonce,
         Lit (''\">'' @ [newline] @ page_css @ replicate 3 (CHR 0x09) @ ''</style>'')] @
        (if site_background site \<noteq> None then [Lit (backgroundStyle nonce (site_background site))] else []) @
        (if site_custom_css site \<noteq> [] then [Lit (customStyle nonce (site_custom_css site))] else []) @
        (if site_custom_js site \<noteq> [] then [Lit (customScript nonce (site_custom_js site))] else []))"

definition has_switcher :: "Site \<Rightarrow> bool" where
  "has_switcher site \<longleftrightarrow> \<not> site_theme_fixed site \<or> \<not> site_color_fixed site"

definition index_switcher :: "string \<Rightarrow> Site \<Rightarrow> piece list" where
  "index_switcher nonce site =
     (if has_switcher site
      then [JSONScript ''switcher-config'' (SwitcherData (site_theme_fixed site) (site_color_fixed site)), Chunk (Lit '' ''),
            JSONScript ''palette-ramps'' (PaletteData AllPalettes), Chunk (Lit '' <script nonce=\"''), Chunk (Attr nonce),
            Chunk (Lit (''\">'' @ [newline] @ switcher_js @ replicate 4 (CHR 0x09) @ ''</script>''))]
      else [])"

definition index_header :: "indexData \<Rightarrow> piece list" where
  "index_header data =
     (let site = id_site data in
      map Chunk
        ([Lit ''</head><body hx-ext=\"morph\"><div class=\"wrap\"''] @
         (if has_switcher site then [Lit '' data-has-switcher''] else []) @
         [Lit ''>''] @
         (if id_sample_data data
          then [Lit (''<div class=\"sample-data-banner\">Sample data '' @ [CHR 0xE2, CHR 0x80, CHR 0x94] @
                     '' no live upstreams polled</div>'')]
          else []) @
         (if site_title site \<noteq> defaultTitle then [Lit ''<h1 class=\"page-title\">'', Txt (site_title site), Lit ''</h1>''] else []) @
         (if site_description site \<noteq> []
          then [Lit ''<p class=\"page-desc\">'', Txt (site_description site), Lit ''</p>''] else []) @
         [Lit ''<div class=\"header-row\"><div class=\"header-strip\" id=\"header\" hx-ext=\"morph\" hx-get=\"/header\" hx-trigger=\"'',
          Attr (''load, every '' @ fmt_int (id_refresh_seconds data) @ ''s''),
          Lit ''\" hx-swap=\"morph:innerHTML\"></div><div class=\"search-bar\"><input id=\"search-input\" type=\"text\" placeholder=\"Search or filter cards...\" aria-label=\"Search or filter cards\" autocomplete=\"off\"></div></div>'']))"

definition index_buttons :: "Site \<Rightarrow> piece list" where
  "index_buttons site =
     map Chunk
       (if has_switcher site
        then [Lit ''<div class=\"switcher\">''] @
             (if \<not> site_color_fixed site
              then [Lit (''<!--'' @ color_comment @ ''-->'' @
                    '' <button type=\"button\" class=\"switcher-btn\" id=\"color-switcher-btn\" popovertarget=\"color-menu\" title=\"Color palette\" aria-label=\"Color palette\"><span class=\"color-swatch\"></span></button><div class=\"color-menu\" id=\"color-menu\" popover=\"auto\"></div>'')]
              else []) @
             (if \<not> site_theme_fixed site
              then [Lit (''<button type=\"button\" class=\"switcher-btn\" id=\"theme-switcher-btn\" title=\"Toggle theme\" aria-label=\"Toggle theme\">'' @
                    [CHR 0xE2, CHR 0x97, CHR 0x90] @ ''</button>'')]
              else []) @
             [Lit ''</div>'']
        else [])"

definition index_cards :: "indexData \<Rightarrow> piece list" where
  "index_cards data =
     map Chunk
       ([Lit ''<div id=\"cards\" hx-ext=\"morph\" hx-get=\"/fragment\" hx-trigger=\"'',
         Attr (''every '' @ fmt_int (id_refresh_seconds data) @ ''s''), Lit ''\" hx-swap=\"morph:innerHTML\">''] @
        Cards (id_fragment data) @
        [Lit ''</div></div>''] @
        (if \<not> site_hide_version (id_site data)
         then [Lit ''<div class=\"footer\">'', Txt (versionFooterText (id_version data) (id_commit data)), Lit ''</div>'']
         else []))"

definition index_scripts :: "string \<Rightarrow> indexData \<Rightarrow> piece list" where
  "index_scripts nonce data =
     [Chunk (Lit (''<!--'' @ launch_comment @ ''-->'' @
        ''<div class=\"ql-box\" id=\"ql-overlay\" popover=\"auto\"><input id=\"ql-input\" type=\"text\" placeholder=\"Jump to a service or search the web'' @
        [CHR 0xE2, CHR 0x80, CHR 0xA6] @
        ''\" autocomplete=\"off\"><div class=\"ql-results\" id=\"ql-results\"></div></div>'')),
      JSONScript ''search-config'' (SearchData (site_search (id_site data)))] @
     map Chunk
       ([Lit ''<script src=\"/assets/htmx-2.0.10.min.js\"></script><script src=\"/assets/idiomorph-ext-0.7.3.min.js\"></script><script nonce=\"'',
         Attr nonce, Lit (''\">'' @ [newline] @ page_js @ replicate 3 (CHR 0x09) @ ''</script>'')] @
        (if \<not> id_auth_enabled data
         then [Lit ''<script nonce=\"'', Attr nonce,
               Lit (''\">'' @ [newline] @ worker_js @ replicate 4 (CHR 0x09) @ ''</script>'')]
         else []) @
        [Lit ''</body></html>''])"

definition Index :: "string \<Rightarrow> indexData \<Rightarrow> piece list" where
  "Index nonce data =
     index_meta data @ index_styles nonce (id_site data) @ index_switcher nonce (id_site data) @ index_header data @
     index_buttons (id_site data) @ index_cards data @ index_scripts nonce data"

section \<open>Code is read whole\<close>

lemma has_suffix_rev: "has_suffix s p \<longleftrightarrow> has_prefix (rev s) (rev p)"
proof -
  have "has_suffix s p \<longleftrightarrow> (\<exists>r. s = r @ p)"
    by (auto simp: has_suffix_def) (metis append_take_drop_id)
  then show ?thesis by (metis has_prefix_iff rev_append rev_rev_ident)
qed

lemma suffix_contains: "has_suffix s p \<Longrightarrow> contains (s @ t) p"
  by (auto simp: contains_iff has_suffix_def) (metis append.assoc append_take_drop_id)

definition held :: "string \<Rightarrow> string \<Rightarrow> bool" where
  "held n w \<longleftrightarrow> \<not> contains (to_lower w) (''</'' @ n) \<and> (n = ''script'' \<longrightarrow> \<not> contains w ''<!--'')"

lemma raw_content: "held n (u @ v) \<Longrightarrow> page_run (Raw n as u) v = Some (Raw n as (u @ v), [])"
proof (induction v arbitrary: u)
  case (Cons c v)
  have "\<not> has_suffix (to_lower u) (''</'' @ n)"
    using Cons.prems suffix_contains [of "to_lower u" "''</'' @ n" "to_lower (c # v)"]
    by (auto simp: held_def to_lower_def)
  moreover have "n = ''script'' \<longrightarrow> \<not> has_suffix (u @ [c]) ''<!--''"
    using Cons.prems suffix_contains [of "u @ [c]" "''<!--''" v] by (auto simp: held_def)
  moreover have "page_run (Raw n as (u @ [c])) v = Some (Raw n as ((u @ [c]) @ v), [])"
    using Cons by (intro Cons.IH) simp
  ultimately show ?case by simp
qed simp

lemma raw_end:
  "n \<in> raw_tags \<Longrightarrow> page_run (Raw n as w) (''</'' @ n @ ''>'') = Some (Html Text, [Code n as w])"
  by (auto simp: raw_tags_def has_suffix_rev ends_name_def to_lower_def lower_char_def)

lemma raw_block:
  assumes "n \<in> raw_tags" "held n w"
  shows "page_run (Raw n as []) (w @ ''</'' @ n @ ''>'') = Some (Html Text, [Code n as w])"
proof -
  have "page_run (Raw n as []) w = Some (Raw n as w, [])" using raw_content [of n "[]" w as] assms(2) by simp
  then show ?thesis
    by (subst page_run_append) (simp only: option.case prod.case raw_end [OF assms(1)] append_Nil)
qed

lemma lower_slash: "lower_char c = CHR ''/'' \<longleftrightarrow> c = CHR ''/''"
  by (auto simp: lower_char_def char_of_eq_iff take_bit_eq_mod)

lemma calm_held:
  assumes "calm w"
  shows "held n w"
proof -
  have "\<not> has_prefix (to_lower (c # s)) (''</'' @ n) \<and> \<not> has_prefix (c # s) ''<!--''" if "calm (c # s)" for c s
    using that by (cases s) (auto simp: to_lower_def lower_char_less lower_slash)
  with assms have "\<not> contains (to_lower w) (''</'' @ n) \<and> \<not> contains w ''<!--''"
    by (induction w) (auto simp: to_lower_def)
  then show ?thesis by (simp add: held_def)
qed

lemma page_run_decl: "no_close s \<Longrightarrow> page_run (Decl d) s = Some (Decl (d @ s), [])"
  by (induction s arbitrary: d) (auto simp: no_close_def)

lemma page_run_comment:
  assumes "no_close s"
  shows "page_run (Html Text) (''<!--'' @ s @ ''-->'' @ t) = page_run (Html Text) t"
proof -
  have "page_run (Html Text) ''<!--'' = Some (Decl ''--'', [])" by simp
  moreover have "page_run (Decl (''--'' @ s)) ''-->'' = Some (Html Text, [])" by (simp add: has_suffix_rev)
  ultimately show ?thesis
    by (simp only: page_run_append page_run_decl [OF assms] option.case prod.case append_Nil)
      (simp split: option.splits)
qed

text \<open>Markup that has no code is read as before.\<close>

fun open_name :: "lex_state \<Rightarrow> string" where
  "open_name (Tag n) = n"
| "open_name (Attrs n as) = n"
| "open_name (Name n as a) = n"
| "open_name (Equals n as a) = n"
| "open_name (Value n as a v) = n"
| "open_name _ = []"

definition quiet :: "tok \<Rightarrow> bool" where
  "quiet t \<longleftrightarrow> (case t of Start n as \<Rightarrow> n \<notin> raw_tags \<and> \<not> has_prefix n ''!'' | _ \<Rightarrow> True)"

abbreviation declares :: "lex_state \<Rightarrow> bool" where "declares st \<equiv> has_prefix (open_name st) ''!''"

lemma declaration_seen:
  "run st s = Some (st', ts) \<Longrightarrow> declares st \<Longrightarrow> list_all quiet ts \<Longrightarrow> declares st'"
proof (induction st s arbitrary: ts rule: run.induct)
  case (2 st c s)
  then obtain st1 us vs where *: "step st c = Some (st1, us)" "run st1 s = Some (st', vs)" "ts = us @ vs"
    by (auto split: option.splits)
  have "declares st1"
    using *(1,3) 2(3,4) by (cases st) (auto simp: quiet_def has_prefix_iff split: if_splits)
  with * 2(1,4) show ?case by auto
qed simp

lemma page_run_markup:
  "run st s = Some (st', ts) \<Longrightarrow> list_all quiet ts \<Longrightarrow> \<not> declares st' \<Longrightarrow>
     page_run (Html st) s = Some (Html st', map Plain ts)"
proof (induction st s arbitrary: ts rule: run.induct)
  case (2 st c s)
  then obtain st1 us vs where *: "step st c = Some (st1, us)" "run st1 s = Some (st', vs)" "ts = us @ vs"
    by (auto split: option.splits)
  have "\<not> (st = Tag [] \<and> c = CHR ''!'')"
  proof
    assume "st = Tag [] \<and> c = CHR ''!''"
    then have "declares st1" using *(1) by (auto simp: name_char_def)
    with declaration_seen [OF *(2)] *(3) 2(3,4) show False by simp
  qed
  moreover have "enter st1 us = (Html st1, map Plain us)"
    using *(1,3) 2(3) by (cases st) (auto simp: quiet_def split: if_splits)
  ultimately show ?case using * 2(1) [OF *(1) refl *(2)] 2(3,4) by auto
qed simp

lemma declaration_marked:
  "marks l cs st = Some (st', ts) \<Longrightarrow> declares st \<Longrightarrow> list_all quiet ts \<Longrightarrow> declares st'"
proof (induction l cs st arbitrary: ts rule: marks.induct)
  case (2 l c cs st)
  then obtain st1 us vs where *: "mark l c st = Some (st1, us)" "marks l cs st1 = Some (st', vs)" "ts = us @ vs"
    by (auto split: option.splits)
  have written: "into_value v st = Some (st1, us) \<Longrightarrow> declares st1" for v
    using 2(3) by (cases st) auto
  have "declares st1"
    using *(1,3) 2(3,4) declaration_seen written by (cases c) (auto split: if_splits)
  with * 2(1,4) show ?case by auto
qed simp

section \<open>How the writes are read\<close>

text \<open>
  What the documentation says of \<^verbatim>\<open>JSONScript\<close>: it writes one script element that is marked as data,
  whatever the values hold.
\<close>

definition json_ok :: "(string \<Rightarrow> script_data \<Rightarrow> string + string) \<Rightarrow> bool" where
  "json_ok js \<longleftrightarrow>
     (\<forall>i d v. js i d = Inr v \<longrightarrow>
        (\<exists>as w. page_run (Html Text) v = Some (Html Text, [Code ''script'' as w]) \<and> (''type'', ''application/json'') \<in> set as))"

definition piece_mark :: "templ_lib \<Rightarrow> (string \<Rightarrow> script_data \<Rightarrow> string + string) \<Rightarrow> piece \<Rightarrow> page_state \<Rightarrow>
    (page_state \<times> page_tok list) option" where
  "piece_mark l js p st =
     (case p of
        JSONScript i d \<Rightarrow> page_run st (value_of (js i d))
      | Chunk c \<Rightarrow>
          (case c of
             Lit s \<Rightarrow> page_run st s
           | _ \<Rightarrow> (case st of
                     Html h \<Rightarrow> (case mark l c h of None \<Rightarrow> None | Some (h', ts) \<Rightarrow> Some (Html h', map Plain ts))
                   | _ \<Rightarrow> None)))"

fun page_marks :: "templ_lib \<Rightarrow> (string \<Rightarrow> script_data \<Rightarrow> string + string) \<Rightarrow> piece list \<Rightarrow> page_state \<Rightarrow>
    (page_state \<times> page_tok list) option" where
  "page_marks l js [] st = Some (st, [])"
| "page_marks l js (p # ps) st =
     (case piece_mark l js p st of
        None \<Rightarrow> None
      | Some (st', ts) \<Rightarrow> (case page_marks l js ps st' of None \<Rightarrow> None | Some (st'', us) \<Rightarrow> Some (st'', ts @ us)))"

lemma page_marks_append:
  "page_marks l js (ps @ qs) st =
     (case page_marks l js ps st of
        None \<Rightarrow> None
      | Some (st', ts) \<Rightarrow> (case page_marks l js qs st' of None \<Rightarrow> None | Some (st'', us) \<Rightarrow> Some (st'', ts @ us)))"
  by (induction l js ps st rule: page_marks.induct) (auto split: option.splits)

lemma page_run_into_value:
  assumes "into_value v st = Some (st', ts)" "CHR 0x22 \<notin> set v"
  shows "page_run (Html st) v = Some (Html st', map Plain ts)"
  using assms by (cases st) (auto simp: page_run_value)

lemma piece_emit_mark:
  assumes ok: "templ_ok l" and e: "piece_emit l js p buf = Inr s" and m: "piece_mark l js p st = Some (st', ts)"
  shows "page_run st s = Some (st', ts)"
proof -
  have law: "CHR ''<'' \<notin> set (tl_escape l s)" "CHR 0x22 \<notin> set (tl_escape l s)" "CHR 0x22 \<notin> set (tl_call l f i)" for s f i
    using ok by (auto simp: templ_ok_def)
  have law': "tl_attr l s = Inr v \<Longrightarrow> CHR 0x22 \<notin> set v" "tl_css_items l cs = Inr v \<Longrightarrow> v = []"
      "tl_script_items l f i = Inr v \<Longrightarrow> v = []" for s v cs f i
    using ok by (auto simp: templ_ok_def)
  show ?thesis
  proof (cases p)
    case (Chunk c)
    with e m show ?thesis
      by (cases c) (auto simp: piece_emit_def piece_mark_def escaped_def law page_run_text dest: law'
          intro: page_run_into_value split: option.splits sum.splits if_splits page_state.splits)
  next
    case (JSONScript i d)
    with e m show ?thesis by (simp add: piece_emit_def piece_mark_def)
  qed
qed

lemma page_render_marks:
  "templ_ok l \<Longrightarrow> page_render l js ps buf = (None, buf') \<Longrightarrow> page_marks l js ps st = Some (st', ts) \<Longrightarrow>
     \<exists>s. buf' = buf @ s \<and> page_run st s = Some (st', ts)"
proof (induction l js ps buf arbitrary: st ts rule: page_render.induct)
  case (2 l js p ps buf)
  from 2(3) obtain s where e: "piece_emit l js p buf = Inr s" and r: "page_render l js ps (buf @ s) = (None, buf')"
    by (auto split: sum.splits)
  from 2(4) obtain st1 us ws where m: "piece_mark l js p st = Some (st1, us)" "page_marks l js ps st1 = Some (st', ws)" "ts = us @ ws"
    by (auto split: option.splits)
  obtain s' where "buf' = (buf @ s) @ s'" "page_run st1 s' = Some (st', ws)"
    using 2(1) [OF e 2(2) r m(2)] by blast
  with piece_emit_mark [OF 2(2) e m(1)] m(3) show ?case by (auto simp: page_run_append)
qed simp

text \<open>A sequence of writes leads the reader from one state to another and past so much code.\<close>

definition reads :: "templ_lib \<Rightarrow> (string \<Rightarrow> script_data \<Rightarrow> string + string) \<Rightarrow> piece list \<Rightarrow> page_state \<Rightarrow> page_state \<Rightarrow>
    (string \<times> (string \<times> string) list \<times> string) list \<Rightarrow> bool" where
  "reads l js ps st st' cs \<longleftrightarrow> (\<exists>ts. page_marks l js ps st = Some (st', ts) \<and> codes ts = cs)"

lemma reads_append: "reads l js ps st st1 bs \<Longrightarrow> reads l js qs st1 st2 cs \<Longrightarrow> reads l js (ps @ qs) st st2 (bs @ cs)"
  by (auto simp: reads_def page_marks_append)

lemma reads_Nil: "reads l js [] st st []"
  by (simp add: reads_def)

lemma reads_if:
  "(b \<Longrightarrow> reads l js (map Chunk cs) st st us) \<Longrightarrow> reads l js (map Chunk (if b then cs else [])) st st (if b then us else [])"
  by (simp add: reads_Nil)

lemma reads_plain_if:
  "(b \<Longrightarrow> reads l js (map Chunk cs) st st []) \<Longrightarrow> reads l js (map Chunk (if b then cs else [])) st st []"
  by (simp add: reads_Nil)

lemma reads_json:
  assumes "json_ok js"
  shows "reads l js [JSONScript i d] (Html Text) (Html Text) []"
proof (cases "js i d")
  case (Inr v)
  with assms obtain as w where "page_run (Html Text) v = Some (Html Text, [Code ''script'' as w])"
    "(''type'', ''application/json'') \<in> set as"
    unfolding json_ok_def by blast
  with Inr show ?thesis by (simp add: reads_def piece_mark_def)
qed (simp add: reads_def piece_mark_def value_of_def)

lemmas read_simps = reads_def piece_mark_def name_char_def raw_tags_def page_run_append

lemma meta_head:
  "reads l js (map Chunk
     ([Ctx, Lit ''<!doctype html><html lang=\"'', Attr lang, Lit ''\" data-theme=\"'', Attr theme,
       Lit ''\" data-header-style=\"'', Attr style, Lit ''\"''] @
      (if full then [Lit '' data-full-width''] else []) @
      [Lit '' style=\"'', SafeCSS css,
       Lit ''\"><head><meta charset=\"utf-8\"><meta name=\"viewport\" content=\"width=device-width, initial-scale=1\"><meta name=\"theme-color\" content=\"'',
       Attr color, Lit ''\"><title>'', Txt title, Lit ''</title>''])) (Html Text) (Html Text) []"
  by (cases full) (simp_all add: read_simps)

lemma meta_description:
  "reads l js (map Chunk [Lit ''<meta name=\"description\" content=\"'', Attr d, Lit ''\">'']) (Html Text) (Html Text) []"
  by (simp add: read_simps)

lemma meta_icon:
  "reads l js (map Chunk [Lit ''<link rel=\"icon\" href=\"'', Url u, Lit ''\">'']) (Html Text) (Html Text) []"
  by (simp add: read_simps)

lemma meta_robots:
  "reads l js (map Chunk [Lit ''<meta name=\"robots\" content=\"noindex, nofollow\">'']) (Html Text) (Html Text) []"
  by (simp add: read_simps)

lemma meta_reads: "reads l js (index_meta data) (Html Text) (Html Text) []"
  unfolding index_meta_def Let_def
  using reads_append [OF meta_head reads_append [OF reads_plain_if [OF meta_description]
      reads_append [OF reads_plain_if [OF meta_icon] reads_plain_if [OF meta_robots]]]]
  by simp

text \<open>An element with the nonce, its start tag written by several writes or by one.\<close>

lemma page_run_trans:
  "page_run st s = Some (st1, ts) \<Longrightarrow> page_run st1 t = Some (st2, us) \<Longrightarrow> page_run st (s @ t) = Some (st2, ts @ us)"
  by (simp add: page_run_append)

lemma nonce_content:
  assumes "n \<in> raw_tags" "held n w"
  shows "page_run (Html (Value n [] ''nonce'' N)) (''\">'' @ w @ ''</'' @ n @ ''>'') =
    Some (Html Text, [] @ [Code n [(''nonce'', N)] w])"
  by (rule page_run_trans [OF _ raw_block [OF assms]]) (use assms(1) in simp)

lemma nonce_code:
  assumes "n \<in> raw_tags" "held n w"
  shows "reads l js [Chunk (Lit (''\">'' @ w @ ''</'' @ n @ ''>''))] (Html (Value n [] ''nonce'' N)) (Html Text)
    [(n, [(''nonce'', N)], w)]"
  using nonce_content [OF assms, of N] by (simp add: reads_def piece_mark_def)

lemma nonce_element:
  assumes "n \<in> raw_tags" "held n w" "CHR 0x22 \<notin> set nonce"
  shows "reads l js [Chunk (Lit (''<'' @ n @ '' nonce='' @ attr nonce @ ''>'' @ w @ ''</'' @ n @ ''>''))] (Html Text) (Html Text)
    [(n, [(''nonce'', nonce)], w)]"
proof -
  have start: "page_run (Html Text) (''<'' @ n @ '' nonce=\"'') = Some (Html (Value n [] ''nonce'' []), [])"
    using assms(1) by (auto simp: raw_tags_def name_char_def)
  have "page_run (Html Text) ((''<'' @ n @ '' nonce=\"'') @ nonce @ (''\">'' @ w @ ''</'' @ n @ ''>'')) =
      Some (Html Text, [] @ [] @ [] @ [Code n [(''nonce'', nonce)] w])"
    by (rule page_run_trans [OF start page_run_trans [OF page_run_value [OF assms(3)]]])
      (simp only: append_Nil nonce_content [OF assms(1,2)])
  then show ?thesis by (simp add: reads_def piece_mark_def attr_def)
qed

section \<open>The code of the page\<close>

text \<open>The style sheet of a background image, without its element.\<close>

definition background_css :: "Background \<Rightarrow> string" where
  "background_css bg =
     ''body::before { content: '' @ attr [] @ ''; position: fixed; '' @ backgroundInsetCSS bg @
     ''z-index: -1; background-image: url('' @ attr (cssStringEscape (bg_image bg)) @
     ''); background-size: cover; background-position: center; will-change: transform;'' @ backgroundFilterCSS bg @ '' }''"

text \<open>Every piece of code, by element, attributes and content: what the page is meant to run.\<close>

definition vouched :: "string \<Rightarrow> string \<Rightarrow> string \<Rightarrow> string \<times> (string \<times> string) list \<times> string" where
  "vouched nonce n w = (n, [(''nonce'', nonce)], w)"

definition page_code :: "string \<Rightarrow> Site \<Rightarrow> bool \<Rightarrow> (string \<times> (string \<times> string) list \<times> string) list" where
  "page_code nonce site auth =
     [vouched nonce ''style'' (newline # page_css @ replicate 3 (CHR 0x09))] @
     (case site_background site of None \<Rightarrow> [] | Some bg \<Rightarrow> [vouched nonce ''style'' (background_css bg)]) @
     (if site_custom_css site \<noteq> [] then [vouched nonce ''style'' (cssBlockEscape (site_custom_css site))] else []) @
     (if site_custom_js site \<noteq> [] then [vouched nonce ''script'' (jsStringEscape (site_custom_js site))] else []) @
     (if has_switcher site
      then [vouched nonce ''script'' (newline # switcher_js @ replicate 4 (CHR 0x09))] else []) @
     [(''script'', [(''src'', ''/assets/htmx-2.0.10.min.js'')], []),
      (''script'', [(''src'', ''/assets/idiomorph-ext-0.7.3.min.js'')], []),
      vouched nonce ''script'' (newline # page_js @ replicate 3 (CHR 0x09))] @
     (if \<not> auth then [vouched nonce ''script'' (newline # worker_js @ replicate 4 (CHR 0x09))] else [])"

lemma calm_lacks: "CHR ''<'' \<notin> set w \<Longrightarrow> calm w"
  by (induction w) auto

lemma calm_code: "calm w \<Longrightarrow> held n (newline # w @ replicate k (CHR 0x09))"
  by (intro calm_held) (simp add: calm_append calm_replicate)

lemma style_open:
  "reads l js (map Chunk [Lit ''<link rel=\"manifest\" href=\"/manifest.json\"><style nonce=\"'', Attr nonce]) (Html Text)
     (Html (Value ''style'' [] ''nonce'' (value_of (tl_attr l nonce)))) []"
  by (simp add: read_simps)

lemma page_css_reads:
  "reads l js [Chunk (Lit (''\">'' @ [newline] @ page_css @ replicate 3 (CHR 0x09) @ ''</style>''))]
     (Html (Value ''style'' [] ''nonce'' N)) (Html Text) [vouched N ''style'' (newline # page_css @ replicate 3 (CHR 0x09))]"
  using nonce_code [OF _ calm_code [OF page_css_calm], where n = "''style''" and N = N and l = l and js = js and k1 = 3]
  by (simp add: raw_tags_def vouched_def)

lemma join_lacks: "c \<notin> set sep \<Longrightarrow> \<forall>x \<in> set xs. c \<notin> set x \<Longrightarrow> c \<notin> set (join sep xs)"
  by (induction sep xs rule: join.induct) auto

lemma fmt_int_lacks: "CHR ''<'' \<notin> set (fmt_int i)"
proof -
  have "CHR ''<'' \<notin> set (fmt_nat n)" for n
    using fmt_nat_digits [of n] by (auto simp: list_all_iff is_digit_def)
  then show ?thesis by (simp add: fmt_int_def)
qed

lemma background_lacks:
  assumes "CHR ''<'' \<notin> set (bg_blur bg)"
  shows "CHR ''<'' \<notin> set (background_css bg)"
proof -
  have "CHR ''<'' \<notin> set (backgroundFilterCSS bg)"
    by (auto simp: backgroundFilterCSS_def Let_def intro!: join_lacks)
      (auto simp: assms fmt_int_lacks split: option.splits)
  then show ?thesis
    using assms cssStringEscape_contained [of "bg_image bg"]
    by (auto simp: background_css_def attr_def backgroundInsetCSS_def)
qed

lemma background_reads:
  assumes "CHR 0x22 \<notin> set nonce" "CHR ''<'' \<notin> set (bg_blur bg)"
  shows "reads l js [Chunk (Lit (backgroundStyle nonce (Some bg)))] (Html Text) (Html Text) [vouched nonce ''style'' (background_css bg)]"
proof -
  have "CHR ''<'' \<notin> set (background_css bg)" using assms(2) by (rule background_lacks)
  then have "calm (background_css bg)" by (rule calm_lacks)
  from nonce_element [OF _ calm_held [OF this] assms(1), of "''style''"] show ?thesis
    by (simp add: raw_tags_def vouched_def backgroundStyle_def background_css_def)
qed

lemma replace_fold_prefix_exact:
  "has_prefix (replace_fold pat (CHR ''<'' # r) s) p \<Longrightarrow> CHR ''<'' \<notin> set p \<Longrightarrow> has_prefix s p"
proof (induction p arbitrary: s)
  case (Cons a p)
  let ?R = "replace_fold pat (CHR ''<'' # r)"
  from Cons.prems obtain c t where s: "s = c # t" by (cases s) auto
  with Cons.prems have "match_fold pat (c # t) = None" by (auto split: option.splits)
  with Cons.prems s have "c = a" "has_prefix (?R t) p" by simp_all
  with Cons.IH [of t] Cons.prems(2) s show ?case by simp
qed simp

lemma replace_fold_comment:
  assumes "CHR ''<'' \<notin> set r"
  shows "contains (replace_fold (CHR ''<'' # q) (CHR ''<'' # backslash # r) s) ''<!--'' \<Longrightarrow> contains s ''<!--''"
proof (induction "CHR ''<'' # q" "CHR ''<'' # backslash # r" s rule: replace_fold.induct)
  case (2 c s)
  let ?R = "replace_fold (CHR ''<'' # q) (CHR ''<'' # backslash # r)"
  have skip: "contains (r @ t) ''<!--'' \<Longrightarrow> contains t ''<!--''" for t
    using assms by (induction r) auto
  show ?case
  proof (cases "match_fold (CHR ''<'' # q) (c # s)")
    case None
    then have out: "?R (c # s) = c # ?R s" by simp
    from 2(3) consider "c = CHR ''<''" "has_prefix (?R s) ''!--''" | "contains (?R s) ''<!--''"
      unfolding out contains.simps has_prefix_Cons by blast
    then show ?thesis
      using 2(1) [OF None] replace_fold_prefix_exact [of "CHR ''<'' # q" "backslash # r" s "''!--''"] by cases simp_all
  next
    case (Some n)
    then have "?R (c # s) = CHR ''<'' # backslash # r @ ?R (drop (n - 1) s)" by simp
    with 2(3) have "contains (r @ ?R (drop (n - 1) s)) ''<!--''" by simp
    from 2(2) [OF Some skip [OF this]] show ?thesis
      unfolding contains_iff by (metis append_take_drop_id append.assoc append_Cons)
  qed
qed simp

lemma jsStringEscape_held:
  assumes "\<not> contains js ''<!--''"
  shows "held ''script'' (jsStringEscape js)"
  using escaped_blocks_stay_closed [of "[]" js] replace_fold_comment [of "''/script''" "''/script''" js] assms
  by (auto simp: held_def jsStringEscape_def)

lemma cssBlockEscape_held: "held ''style'' (cssBlockEscape css)"
  using escaped_blocks_stay_closed [of css "[]"] by (simp add: held_def)

lemma styles_read:
  assumes "CHR 0x22 \<notin> set nonce" "value_of (tl_attr l nonce) = nonce" "\<not> contains (site_custom_js site) ''<!--''"
    and "\<And>bg. site_background site = Some bg \<Longrightarrow> CHR ''<'' \<notin> set (bg_blur bg)"
  shows "reads l js (index_styles nonce site) (Html Text) (Html Text)
    ([vouched nonce ''style'' (newline # page_css @ replicate 3 (CHR 0x09))] @
     (case site_background site of None \<Rightarrow> [] | Some bg \<Rightarrow> [vouched nonce ''style'' (background_css bg)]) @
     (if site_custom_css site \<noteq> [] then [vouched nonce ''style'' (cssBlockEscape (site_custom_css site))] else []) @
     (if site_custom_js site \<noteq> [] then [vouched nonce ''script'' (jsStringEscape (site_custom_js site))] else []))"
proof -
  have css: "reads l js (map Chunk [Lit (customStyle nonce css)]) (Html Text) (Html Text) [vouched nonce ''style'' (cssBlockEscape css)]"
    if "css \<noteq> []" for css
    using nonce_element [OF _ cssBlockEscape_held assms(1)] that
    by (simp add: raw_tags_def vouched_def customStyle_def)
  have script: "reads l js (map Chunk [Lit (customScript nonce (site_custom_js site))]) (Html Text) (Html Text)
      [vouched nonce ''script'' (jsStringEscape (site_custom_js site))]" if "site_custom_js site \<noteq> []"
    using nonce_element [OF _ jsStringEscape_held [OF assms(3)] assms(1)] that
    by (simp add: raw_tags_def vouched_def customScript_def)
  have bg: "reads l js (map Chunk (if site_background site \<noteq> None then [Lit (backgroundStyle nonce (site_background site))] else []))
      (Html Text) (Html Text)
      (case site_background site of None \<Rightarrow> [] | Some bg \<Rightarrow> [vouched nonce ''style'' (background_css bg)])"
    using background_reads [OF assms(1,4)] by (cases "site_background site") (simp_all add: reads_Nil)
  note head = reads_append [OF style_open [of l js nonce, unfolded assms(2)] page_css_reads [where l = l and js = js]]
  show ?thesis
    using reads_append [OF head reads_append [OF bg reads_append [OF reads_if [OF css] reads_if [OF script]]]]
    by (simp add: index_styles_def)
qed

lemma switcher_reads:
  assumes "json_ok js" "value_of (tl_attr l nonce) = nonce"
  shows "reads l js (index_switcher nonce site) (Html Text) (Html Text)
    (if has_switcher site then [vouched nonce ''script'' (newline # switcher_js @ replicate 4 (CHR 0x09))] else [])"
proof -
  have blank: "reads l js [Chunk (Lit '' '')] (Html Text) (Html Text) []"
    and start: "reads l js (map Chunk [Lit '' <script nonce=\"'', Attr nonce]) (Html Text) (Html (Value ''script'' [] ''nonce'' nonce)) []"
    by (simp_all add: read_simps assms(2))
  have code: "reads l js [Chunk (Lit (''\">'' @ [newline] @ switcher_js @ replicate 4 (CHR 0x09) @ ''</script>''))]
      (Html (Value ''script'' [] ''nonce'' nonce)) (Html Text) [vouched nonce ''script'' (newline # switcher_js @ replicate 4 (CHR 0x09))]"
    using nonce_code [OF _ calm_code [OF switcher_js_calm], where n = "''script''" and N = nonce and l = l and js = js and k1 = 4]
    by (simp add: raw_tags_def vouched_def)
  note config = reads_json [OF assms(1), of l "''switcher-config''" "SwitcherData (site_theme_fixed site) (site_color_fixed site)"]
  note palette = reads_json [OF assms(1), of l "''palette-ramps''" "PaletteData AllPalettes"]
  show ?thesis
    using reads_append [OF config reads_append [OF blank reads_append [OF palette reads_append [OF start code]]]]
    by (simp add: index_switcher_def reads_Nil)
qed

lemma header_open:
  "reads l js (map Chunk ([Lit ''</head><body hx-ext=\"morph\"><div class=\"wrap\"''] @
     (if b then [Lit '' data-has-switcher''] else []) @ [Lit ''>''])) (Html Text) (Html Text) []"
  by (cases b) (simp_all add: read_simps)

lemma header_banner:
  "reads l js (map Chunk [Lit (''<div class=\"sample-data-banner\">Sample data '' @ [CHR 0xE2, CHR 0x80, CHR 0x94] @
     '' no live upstreams polled</div>'')]) (Html Text) (Html Text) []"
  by (simp add: read_simps)

lemma header_title:
  "reads l js (map Chunk [Lit ''<h1 class=\"page-title\">'', Txt t, Lit ''</h1>'']) (Html Text) (Html Text) []"
  "reads l js (map Chunk [Lit ''<p class=\"page-desc\">'', Txt t, Lit ''</p>'']) (Html Text) (Html Text) []"
  by (simp_all add: read_simps)

lemma header_row:
  "reads l js (map Chunk
     [Lit ''<div class=\"header-row\"><div class=\"header-strip\" id=\"header\" hx-ext=\"morph\" hx-get=\"/header\" hx-trigger=\"'',
      Attr every,
      Lit ''\" hx-swap=\"morph:innerHTML\"></div><div class=\"search-bar\"><input id=\"search-input\" type=\"text\" placeholder=\"Search or filter cards...\" aria-label=\"Search or filter cards\" autocomplete=\"off\"></div></div>''])
     (Html Text) (Html Text) []"
  by (simp add: read_simps)

lemma header_reads: "reads l js (index_header data) (Html Text) (Html Text) []"
  unfolding index_header_def Let_def
  using reads_append [OF header_open reads_append [OF reads_plain_if [OF header_banner]
      reads_append [OF reads_plain_if [OF header_title(1)] reads_append [OF reads_plain_if [OF header_title(2)] header_row]]]]
  by simp

lemma button_theme:
  "reads l js (map Chunk [Lit (''<button type=\"button\" class=\"switcher-btn\" id=\"theme-switcher-btn\" title=\"Toggle theme\" aria-label=\"Toggle theme\">'' @
     [CHR 0xE2, CHR 0x97, CHR 0x90] @ ''</button>'')]) (Html Text) (Html Text) []"
  by (simp add: read_simps)

lemma button_color:
  "reads l js (map Chunk [Lit (''<!--'' @ color_comment @ ''-->'' @
     '' <button type=\"button\" class=\"switcher-btn\" id=\"color-switcher-btn\" popovertarget=\"color-menu\" title=\"Color palette\" aria-label=\"Color palette\"><span class=\"color-swatch\"></span></button><div class=\"color-menu\" id=\"color-menu\" popover=\"auto\"></div>'')])
     (Html Text) (Html Text) []"
  unfolding reads_def list.map page_marks.simps piece_mark_def piece.case chunk.case
    page_run_comment [OF color_comment_no_close]
  by (simp add: read_simps)

lemma buttons_read: "reads l js (index_buttons site) (Html Text) (Html Text) []"
proof -
  have "reads l js (map Chunk [Lit ''<div class=\"switcher\">'']) (Html Text) (Html Text) []"
    "reads l js (map Chunk [Lit ''</div>'']) (Html Text) (Html Text) []"
    by (simp_all add: read_simps)
  from reads_append [OF this(1) reads_append [OF reads_plain_if [OF button_color] reads_append [OF reads_plain_if [OF button_theme] this(2)]]]
  show ?thesis unfolding index_buttons_def by (intro reads_plain_if) simp
qed

lemma marks_pieces:
  "marks l cs st = Some (Text, ts) \<Longrightarrow> list_all quiet ts \<Longrightarrow>
     page_marks l js (map Chunk cs) (Html st) = Some (Html Text, map Plain ts)"
proof (induction l cs st arbitrary: ts rule: marks.induct)
  case (2 l c cs st)
  then obtain st1 us vs where *: "mark l c st = Some (st1, us)" "marks l cs st1 = Some (Text, vs)" "ts = us @ vs"
    by (auto split: option.splits)
  have "\<not> declares st1" using declaration_marked [OF *(2)] *(3) 2(3) by auto
  with *(1,3) 2(3) have "piece_mark l js (Chunk c) (Html st) = Some (Html st1, map Plain us)"
    by (cases c) (auto simp: piece_mark_def page_run_markup)
  with * 2(1,3) show ?case by auto
qed simp

lemma cards_read: "reads l js (map Chunk (Cards data)) (Html Text) (Html Text) []"
proof -
  have "page_tag n \<Longrightarrow> n \<notin> raw_tags \<and> \<not> has_prefix n ''!''" for n
    by (auto simp: page_tag_def raw_tags_def)
  then have "tok_ok page_tag (page_attribute l) t \<Longrightarrow> quiet t" for t
    by (cases t) (auto simp: quiet_def)
  then have "list_all quiet (flats (Cards_doc l data))"
    using tok_ok_flats [OF page_Cards [of l data]] by (auto simp: list_all_iff)
  from marks_pieces [OF Cards_marks this] show ?thesis by (simp add: reads_def)
qed

lemma index_cards_read: "reads l js (index_cards data) (Html Text) (Html Text) []"
proof -
  have start: "reads l js (map Chunk
      [Lit ''<div id=\"cards\" hx-ext=\"morph\" hx-get=\"/fragment\" hx-trigger=\"'', Attr every,
       Lit ''\" hx-swap=\"morph:innerHTML\">'']) (Html Text) (Html Text) []" for every
    by (simp add: read_simps)
  have finish: "reads l js (map Chunk [Lit ''</div></div>'']) (Html Text) (Html Text) []"
    by (simp add: read_simps)
  have footer: "reads l js (map Chunk [Lit ''<div class=\"footer\">'', Txt t, Lit ''</div>'']) (Html Text) (Html Text) []" for t
    by (simp add: read_simps)
  show ?thesis
    using reads_append [OF start reads_append [OF cards_read reads_append [OF finish reads_plain_if [OF footer]]]]
    by (simp add: index_cards_def)
qed

lemma launch_box:
  "reads l js [Chunk (Lit (''<!--'' @ launch_comment @ ''-->'' @
     ''<div class=\"ql-box\" id=\"ql-overlay\" popover=\"auto\"><input id=\"ql-input\" type=\"text\" placeholder=\"Jump to a service or search the web'' @
     [CHR 0xE2, CHR 0x80, CHR 0xA6] @
     ''\" autocomplete=\"off\"><div class=\"ql-results\" id=\"ql-results\"></div></div>''))] (Html Text) (Html Text) []"
  unfolding reads_def page_marks.simps piece_mark_def piece.case chunk.case page_run_comment [OF launch_comment_no_close]
  by (simp add: read_simps)

lemma script_sources:
  "reads l js (map Chunk
     [Lit ''<script src=\"/assets/htmx-2.0.10.min.js\"></script><script src=\"/assets/idiomorph-ext-0.7.3.min.js\"></script><script nonce=\"'',
      Attr nonce]) (Html Text) (Html (Value ''script'' [] ''nonce'' (value_of (tl_attr l nonce))))
     [(''script'', [(''src'', ''/assets/htmx-2.0.10.min.js'')], []),
      (''script'', [(''src'', ''/assets/idiomorph-ext-0.7.3.min.js'')], [])]"
  by (simp add: read_simps has_suffix_rev ends_name_def to_lower_def lower_char_def)

lemma scripts_read:
  assumes "json_ok js" "value_of (tl_attr l nonce) = nonce"
  shows "reads l js (index_scripts nonce data) (Html Text) (Html Text)
    ([(''script'', [(''src'', ''/assets/htmx-2.0.10.min.js'')], []),
      (''script'', [(''src'', ''/assets/idiomorph-ext-0.7.3.min.js'')], []),
      vouched nonce ''script'' (newline # page_js @ replicate 3 (CHR 0x09))] @
     (if \<not> id_auth_enabled data then [vouched nonce ''script'' (newline # worker_js @ replicate 4 (CHR 0x09))] else []))"
proof -
  note search = reads_json [OF assms(1), of l "''search-config''" "SearchData (site_search (id_site data))"]
  have code: "reads l js [Chunk (Lit (''\">'' @ [newline] @ w @ replicate k (CHR 0x09) @ ''</script>''))]
      (Html (Value ''script'' [] ''nonce'' nonce)) (Html Text) [vouched nonce ''script'' (newline # w @ replicate k (CHR 0x09))]"
    if "calm w" for w k
    using nonce_code [OF _ calm_code [OF that], where n = "''script''" and N = nonce and l = l and js = js and k1 = k]
    by (simp add: raw_tags_def vouched_def)
  have start: "reads l js (map Chunk [Lit ''<script nonce=\"'', Attr nonce]) (Html Text) (Html (Value ''script'' [] ''nonce'' nonce)) []"
    by (simp add: read_simps assms(2))
  have worker: "reads l js (map Chunk [Lit ''<script nonce=\"'', Attr nonce,
        Lit (''\">'' @ [newline] @ worker_js @ replicate 4 (CHR 0x09) @ ''</script>'')]) (Html Text) (Html Text)
      [vouched nonce ''script'' (newline # worker_js @ replicate 4 (CHR 0x09))]"
    using reads_append [OF start code [OF worker_js_calm]] by simp
  have finish: "reads l js (map Chunk [Lit ''</body></html>'']) (Html Text) (Html Text) []"
    by (simp add: read_simps)
  show ?thesis
    using reads_append [OF launch_box reads_append [OF search reads_append [OF script_sources [where nonce = nonce and l = l, unfolded assms(2)]
        reads_append [OF code [OF page_js_calm] reads_append [OF reads_if [OF worker] finish]]]]]
    by (simp add: index_scripts_def)
qed

lemma Index_reads:
  assumes "json_ok js" "CHR 0x22 \<notin> set nonce" "value_of (tl_attr l nonce) = nonce"
    and "\<not> contains (site_custom_js (id_site data)) ''<!--''"
    and "\<And>bg. site_background (id_site data) = Some bg \<Longrightarrow> CHR ''<'' \<notin> set (bg_blur bg)"
  shows "reads l js (Index nonce data) (Html Text) (Html Text) (page_code nonce (id_site data) (id_auth_enabled data))"
proof -
  note styles = styles_read [OF assms(2,3,4,5), of js]
  show ?thesis
    using reads_append [OF meta_reads reads_append [OF styles reads_append [OF switcher_reads [OF assms(1,3)]
        reads_append [OF header_reads reads_append [OF buttons_read reads_append [OF index_cards_read
          scripts_read [OF assms(1,3)]]]]]]]
    by (simp add: Index_def page_code_def)
qed

text \<open>The blur of a background is one of the code's own lengths.\<close>

lemma LoadSite_blur:
  assumes "LoadSite rd ns n = Inr site" "site_background site = Some bg"
  shows "CHR ''<'' \<notin> set (bg_blur bg)"
proof -
  have px: "CHR ''<'' \<notin> set (blurPx k)" for k by (simp add: blurPx_def)
  have kept: "site_background (applyStyle default_site spec) = site_background (applyLookFields default_site spec)" for spec
    by (simp add: applyStyle_def applySearch_def applyLayout_def applyBehaviorFields_def Let_def split: option.splits)
  have none: "site_background default_site = None" by (simp add: default_site_def)
  have "site_background site = None \<or> (\<exists>spec. site_background site = site_background (applyLookFields default_site spec))"
    using assms(1) by (auto simp: LoadSite_def Let_def kept none split: sum.splits option.splits)
  with assms(2) obtain spec where "site_background (applyLookFields default_site spec) = Some bg" by auto
  then show ?thesis
    by (auto simp: applyLookFields_def none px split: option.splits) (simp add: set_opt_def px split: option.splits)
qed

lemma page_rendering_reads:
  assumes "templ_ok l" "page_rendering l js ps = Inr html" "reads l js ps (Html Text) (Html Text) cs"
  shows "\<exists>ts. page_tokens html = Some ts \<and> codes ts = cs"
proof -
  have "page_render l js ps [] = (None, html)"
    using assms(2) by (auto simp: page_rendering_def split: prod.splits option.splits)
  moreover obtain ts where ts: "page_marks l js ps (Html Text) = Some (Html Text, ts)" "codes ts = cs"
    using assms(3) unfolding reads_def by blast
  ultimately have "page_run (Html Text) html = Some (Html Text, ts)"
    using page_render_marks [OF assms(1)] by fastforce
  with ts(2) show ?thesis by (simp add: page_tokens_def)
qed

section \<open>Properties\<close>

text \<open>Escaping leaves a value without special characters alone.\<close>

definition plain_values :: "templ_lib \<Rightarrow> bool" where
  "plain_values l \<longleftrightarrow>
     (\<forall>s. set s \<inter> {CHR 0x22, CHR 0x27, CHR ''<'', CHR ''>'', CHR ''&''} = {} \<longrightarrow> tl_attr l s = Inr s)"

text \<open>The route of the page.\<close>

definition page_response :: "templ_lib \<Rightarrow> (string \<Rightarrow> script_data \<Rightarrow> string + string) \<Rightarrow> Server \<Rightarrow> int \<Rightarrow> int \<Rightarrow> auth_cache \<Rightarrow>
    string \<Rightarrow> response" where
  "page_response l js s now later cache rand =
     Routes (\<lambda>nonce r. fst (handleIndex (\<lambda>data. page_rendering l js (Index nonce data)) s now later cache r)) Pass rand"

definition index_data :: "Server \<Rightarrow> Site \<Rightarrow> bool \<Rightarrow> indexData" where
  "index_data s site auth =
     \<lparr>id_site = site, id_accent_hex = AccentHex (site_color site), id_ramp = PaletteRamp (site_color site),
      id_refresh_seconds = (if sv_refresh_seconds s \<le> 0 then 10 else sv_refresh_seconds s),
      id_fragment = buildFragmentData (Store_Snapshot (sv_store s)) site, id_version = sv_version s,
      id_commit = sv_commit s, id_sample_data = sv_sample_data s, id_auth_enabled = auth\<rparr>"

lemma index_answer:
  assumes "LoadSite (sv_reader s) (sv_namespace s) (sv_dashboard_name s) = Inr site"
    and "loadBasicAuth (sv_reader s) (sv_secret_reader s) (sv_namespace s) (sv_dashboard_name s) now later cache =
      (Inr (users, auth), cache', e)"
  shows "fst (handleIndex shell s now later cache r) =
    (let r = set_header ''Content-Type'' ''text/html; charset=utf-8'' r in
     case shell (index_data s site auth) of Inl e \<Rightarrow> http_error e 500 r | Inr b \<Rightarrow> r\<lparr>rs_body := b\<rparr>)"
  by (simp add: handleIndex_def assms index_data_def Let_def)

text \<open>
  C8. As long as the custom script holds no \<^verbatim>\<open><!--\<close>, a browser that gets the page finds in it exactly the code
  the program means to run, in this order and each piece whole: the style sheet, the background, the
  custom styles and scripts with their end tags disarmed, the page's scripts and the two files of its own
  origin.  Every inline piece carries the nonce that the content security policy of this very response
  admits, and under the same condition nothing that a resource or an upstream holds, on the cards or in the
  site's settings, adds a piece or ends one early.  With \<^verbatim>\<open><!--\<close> in the custom script a browser may
  pass over the script's end tag.
\<close>

theorem page_runs_its_code:
  assumes "templ_ok l" "plain_values l" "json_ok js"
    and "LoadSite (sv_reader s) (sv_namespace s) (sv_dashboard_name s) = Inr site"
    and "loadBasicAuth (sv_reader s) (sv_secret_reader s) (sv_namespace s) (sv_dashboard_name s) now later cache =
      (Inr (users, auth), cache', e)"
    and "\<not> contains (site_custom_js site) ''<!--''"
    and "r = page_response l js s now later cache rand" "rs_status r = 200"
  shows "gstr (rs_headers r) ''Content-Security-Policy'' = contentSecurityPolicy (generateNonce rand) \<and>
    (\<exists>ts. page_tokens (rs_body r) = Some ts \<and> codes ts = page_code (generateNonce rand) site auth)"
proof -
  let ?nonce = "generateNonce rand"
  have nonce: "CHR 0x22 \<notin> set ?nonce" "value_of (tl_attr l ?nonce) = ?nonce"
    using nonce_safe [of rand] assms(2) by (auto simp: plain_values_def)
  have r: "r = (let r = set_header ''Content-Type'' ''text/html; charset=utf-8''
        (set_header ''Referrer-Policy'' ''no-referrer'' (set_header ''X-Frame-Options'' ''DENY''
          (set_header ''X-Content-Type-Options'' ''nosniff''
            (set_header ''Content-Security-Policy'' (contentSecurityPolicy ?nonce) empty_response)))) in
      case page_rendering l js (Index ?nonce (index_data s site auth)) of
        Inl e \<Rightarrow> http_error e 500 r | Inr b \<Rightarrow> r\<lparr>rs_body := b\<rparr>)"
    unfolding assms(7) page_response_def Routes_def securityHeaders_def apply_verdict_def Let_def
    by (simp add: index_answer [OF assms(4,5)] Let_def)
  then have csp: "gstr (rs_headers r) ''Content-Security-Policy'' = contentSecurityPolicy ?nonce"
    by (simp add: Let_def http_error_headers gstr_set_header split: sum.split)
  obtain html where html: "page_rendering l js (Index ?nonce (index_data s site auth)) = Inr html" "rs_body r = html"
    using r assms(8) by (auto simp: Let_def http_error_def split: sum.splits)
  have data: "id_site (index_data s site auth) = site" "id_auth_enabled (index_data s site auth) = auth"
    by (simp_all add: index_data_def)
  have "reads l js (Index ?nonce (index_data s site auth)) (Html Text) (Html Text) (page_code ?nonce site auth)"
    using Index_reads [OF assms(3) nonce, where data = "index_data s site auth"] LoadSite_blur [OF assms(4)] assms(6)
    by (simp add: data)
  from page_rendering_reads [OF assms(1) html(1) this] csp html(2) show ?thesis by simp
qed

section \<open>Witness\<close>

definition ex_json :: "string \<Rightarrow> script_data \<Rightarrow> string + string" where
  "ex_json i d = Inr (''<script id=\"'' @ ex_escape i @ ''\" type=\"application/json\">'' @ ''{}'' @ ''</script>'')"

lemma ex_json_ok: "json_ok ex_json"
proof -
  have "page_run (Html Text) (''<script id=\"'' @ ex_escape i @ ''\" type=\"application/json\">'' @ ''{}'' @ ''</script>'') =
      Some (Html Text, [Code ''script'' [(''id'', ex_escape i), (''type'', ''application/json'')] ''{}''])" for i
  proof -
    have "CHR 0x22 \<notin> set (ex_escape i)" by (induction i) (auto simp: ex_escape_def)
    from page_run_value [OF this] show ?thesis
      by (simp add: page_run_append name_char_def raw_tags_def has_suffix_rev ends_name_def to_lower_def lower_char_def)
  qed
  then show ?thesis by (auto simp: json_ok_def ex_json_def)
qed

lemma ex_templ_plain: "plain_values ex_templ"
proof -
  have "set s \<inter> {CHR 0x22, CHR 0x27, CHR ''<'', CHR ''>'', CHR ''&''} = {} \<Longrightarrow> ex_escape s = s" for s
    by (induction s) (auto simp: ex_escape_def)
  then show ?thesis by (simp add: plain_values_def ex_templ_def)
qed

lemma ex_page_rendering: "\<exists>html. page_rendering ex_templ ex_json ps = Inr html"
proof -
  have "\<exists>s. piece_emit ex_templ ex_json p buf = Inr s" for p buf
  proof (cases p)
    case (Chunk c)
    then show ?thesis by (cases c) (auto simp: piece_emit_def ex_templ_def escaped_def)
  qed (simp add: piece_emit_def ex_json_def)
  then have "fst (page_render ex_templ ex_json ps buf) = None" for buf
    by (induction ps arbitrary: buf) (simp, metis (no_types, lifting) page_render.simps(2) sum.simps(6))
  then show ?thesis by (simp add: page_rendering_def case_prod_unfold)
qed

definition ex_page_code :: response where
  "ex_page_code = page_response ex_templ ex_json ex_page 0 1 [] ''0123456789abcdef''"

theorem page_runs_its_code_witness:
  "\<exists>ts. page_tokens (rs_body ex_page_code) = Some ts \<and>
     codes ts = page_code (generateNonce ''0123456789abcdef'') default_site False"
proof -
  have site: "LoadSite (sv_reader ex_page) (sv_namespace ex_page) (sv_dashboard_name ex_page) = Inr default_site"
    by (simp add: ex_page_def ex_server_def LoadSite_def boundStyleSpec_def namespaceDashboardCount_def ex_reader_def
        ex_dashboard_def zero_dashboard_spec_def groupBookmarks_def bound_bookmarks_def headerWidgets_def
        flat_header_widgets_def Let_def default_site_def)
  have auth: "loadBasicAuth (sv_reader ex_page) (sv_secret_reader ex_page) (sv_namespace ex_page) (sv_dashboard_name ex_page)
      0 1 [] = (Inr ([], False), [], None)"
    by (simp add: loadBasicAuth_def ex_page_def ex_server_def ex_reader_def ex_dashboard_def zero_dashboard_spec_def)
  obtain html where html:
      "page_rendering ex_templ ex_json (Index (generateNonce ''0123456789abcdef'') (index_data ex_page default_site False)) = Inr html"
    using ex_page_rendering by blast
  have "rs_status ex_page_code = 200"
    unfolding ex_page_code_def page_response_def Routes_def securityHeaders_def apply_verdict_def Let_def
    by (simp add: index_answer [OF site auth] html Let_def empty_response_def)
  from page_runs_its_code [OF ex_templ_ok ex_templ_plain ex_json_ok site auth _ ex_page_code_def this]
  show ?thesis by (simp add: default_site_def)
qed

text \<open>
  A comment inside a script is not disarmed: from \<open><!--\<close> and \<open><script\<close> on, a browser passes over the
  end tag, and the rest of the page is lost to the custom script.
\<close>

lemma custom_script_comment: "jsStringEscape ''<!--<script>'' = ''<!--<script>''"
  by code_simp

end
