(* ===== verification/Flags.thy ===== *)
theory Flags
  imports Reader Floats
begin

text \<open>
  The command line as the entry points of \<^verbatim>\<open>cmd/main.go\<close> read it: \<^verbatim>\<open>FlagSet.Parse\<close> of package \<^verbatim>\<open>flag\<close>
  over a table of flags, \<^verbatim>\<open>strconv.ParseBool\<close> and \<^verbatim>\<open>time.ParseDuration\<close>.
\<close>

section \<open>Durations\<close>

text \<open>Digits up to \<^term>\<open>2 ^ 63\<close>, and what follows them.\<close>

fun leadingInt :: "nat \<Rightarrow> string \<Rightarrow> (nat \<times> string) option" where
  "leadingInt x [] = Some (x, [])"
| "leadingInt x (c # s) =
     (if is_digit c
      then (if 2 ^ 63 div 10 < x then None
            else let y = 10 * x + digit_val c in if 2 ^ 63 < y then None else leadingInt y s)
      else Some (x, c # s))"

text \<open>The digits of a fraction: those that would overflow are read and dropped.\<close>

fun leadingFraction :: "bool \<Rightarrow> nat \<Rightarrow> float64 \<Rightarrow> string \<Rightarrow> nat \<times> float64 \<times> string" where
  "leadingFraction overflow x scale [] = (x, scale, [])"
| "leadingFraction overflow x scale (c # s) =
     (if is_digit c
      then (let y = 10 * x + digit_val c in
            if overflow \<or> (2 ^ 63 - 1) div 10 < x \<or> 2 ^ 63 < y then leadingFraction True x scale s
            else leadingFraction False y (f_mul scale (f_of_int 10)) s)
      else (x, scale, c # s))"

definition duration_units :: "(string \<times> nat) list" where
  "duration_units =
     [(''ns'', 1), (''us'', 1000), ([CHR 0xC2, CHR 0xB5, CHR ''s''], 1000), ([CHR 0xCE, CHR 0xBC, CHR ''s''], 1000),
      (''ms'', 1000000), (''s'', 1000000000), (''m'', 60 * 1000000000), (''h'', 3600 * 1000000000)]"

text \<open>A number with its unit at the start of a text, in nanoseconds, and what follows it.\<close>

definition duration_part :: "string \<Rightarrow> (nat \<times> string) option" where
  "duration_part s =
     (case leadingInt 0 s of
        None \<Rightarrow> None
      | Some (v, s1) \<Rightarrow>
          let pre = length s1 \<noteq> length s;
              point = (s1 \<noteq> [] \<and> hd s1 = CHR ''.'');
              (f, scale, s2) = (if point then leadingFraction False 0 (f_of_int 1) (tl s1) else (0, f_of_int 1, s1));
              post = (point \<and> length s2 \<noteq> length (tl s1));
              u = takeWhile (\<lambda>c. c \<noteq> CHR ''.'' \<and> \<not> is_digit c) s2;
              rest = dropWhile (\<lambda>c. c \<noteq> CHR ''.'' \<and> \<not> is_digit c) s2
          in if (hd s \<noteq> CHR ''.'' \<and> \<not> is_digit (hd s)) \<or> (\<not> pre \<and> \<not> post) \<or> u = [] then None
             else (case map_of duration_units u of
                     None \<Rightarrow> None
                   | Some n \<Rightarrow>
                       if 2 ^ 63 div n < v then None
                       else
                         let v = v * n;
                             v = (if 0 < f then v + nat (f_to_int (f_mul (f_of_int (int f)) (f_div (f_of_int (int n)) scale)))
                                  else v)
                         in if 2 ^ 63 < v then None else Some (v, rest)))"

text \<open>
  The loop over number and unit; each pass takes a character at least, so the length of the text
  is fuel enough (\<open>duration_sum_enough\<close>).
\<close>

fun duration_sum :: "nat \<Rightarrow> string \<Rightarrow> nat \<Rightarrow> nat option" where
  "duration_sum fuel [] d = Some d"
| "duration_sum 0 (c # s) d = None"
| "duration_sum (Suc fuel) (c # s) d =
     (case duration_part (c # s) of
        None \<Rightarrow> None
      | Some (v, rest) \<Rightarrow> if 2 ^ 63 < d + v then None else duration_sum fuel rest (d + v))"

definition ParseDuration :: "string \<Rightarrow> int option" where
  "ParseDuration s =
     (let (neg, s) = (case s of [] \<Rightarrow> (False, []) | c # r \<Rightarrow>
            if c = CHR ''-'' then (True, r) else if c = CHR ''+'' then (False, r) else (False, s)) in
      if s = ''0'' then Some 0
      else if s = [] then None
      else (case duration_sum (length s) s 0 of
              None \<Rightarrow> None
            | Some d \<Rightarrow> if neg then Some (- int d) else if 2 ^ 63 - 1 < d then None else Some (int d)))"

lemma leadingInt_length: "leadingInt x s = Some (v, r) \<Longrightarrow> length r \<le> length s"
  by (induction x s rule: leadingInt.induct) (auto simp: Let_def split: if_splits)

lemma leadingFraction_length: "leadingFraction b x scale s = (f, g, r) \<Longrightarrow> length r \<le> length s"
  by (induction b x scale s rule: leadingFraction.induct) (auto simp: Let_def split: if_splits)

lemma duration_part_shorter:
  assumes "duration_part s = Some (v, rest)"
  shows "length rest < length s"
proof -
  obtain n s1 where int: "leadingInt 0 s = Some (n, s1)"
    using assms by (auto simp: duration_part_def split: option.splits)
  obtain f scale s2 where frac: "(if s1 \<noteq> [] \<and> hd s1 = CHR ''.'' then leadingFraction False 0 (f_of_int 1) (tl s1)
      else (0, f_of_int 1, s1)) = (f, scale, s2)"
    by (metis prod_cases3)
  let ?P = "\<lambda>c. c \<noteq> CHR ''.'' \<and> \<not> is_digit c"
  have rest: "rest = dropWhile ?P s2" "takeWhile ?P s2 \<noteq> []"
    using assms unfolding duration_part_def int option.case prod.case Let_def frac
    by (auto split: if_splits option.splits)
  have "length s2 \<le> length s1"
    using frac by (auto split: if_splits dest!: leadingFraction_length intro: order_trans)
  moreover have "length rest < length s2"
    unfolding rest(1) using rest(2) by (cases s2) (auto split: if_splits simp: le_imp_less_Suc length_dropWhile_le)
  ultimately show ?thesis using leadingInt_length [OF int] by linarith
qed

lemma duration_sum_enough:
  "length s \<le> n \<Longrightarrow> length s \<le> m \<Longrightarrow> duration_sum n s d = duration_sum m s d"
proof (induction n arbitrary: m s d)
  case (Suc n)
  show ?case
  proof (cases s)
    case (Cons c r)
    with Suc.prems obtain m' where m: "m = Suc m'" by (cases m) auto
    have "duration_sum n rest (d + v) = duration_sum m' rest (d + v)" if "duration_part (c # r) = Some (v, rest)" for v rest
      using Suc.IH [of rest m' "d + v"] duration_part_shorter [OF that] Suc.prems by (simp add: Cons m)
    then show ?thesis by (auto simp: Cons m split: option.split prod.split)
  qed simp
qed simp

lemma foldl_digits_ge: "x \<le> foldl (\<lambda>a c. 10 * a + digit_val c) x ds"
proof (induction ds arbitrary: x)
  case (Cons c ds)
  from Cons [of "10 * x + digit_val c"] show ?case by simp
qed simp

lemma leadingInt_digits:
  "list_all is_digit ds \<Longrightarrow> foldl (\<lambda>a c. 10 * a + digit_val c) x ds \<le> 2 ^ 63 \<Longrightarrow> \<not> is_digit c \<Longrightarrow>
     leadingInt x (ds @ c # s) = Some (foldl (\<lambda>a c. 10 * a + digit_val c) x ds, c # s)"
proof (induction ds arbitrary: x)
  case (Cons e ds)
  have le: "10 * x + digit_val e \<le> 2 ^ 63"
    using Cons.prems(2) foldl_digits_ge [of "10 * x + digit_val e" ds] by simp
  then have "x \<le> 2 ^ 63 div 10" by simp
  with Cons le show ?case by (simp add: Let_def)
qed simp

lemma fmt_nat_leading:
  assumes "n \<le> 2 ^ 63" "\<not> is_digit c"
  shows "leadingInt 0 (fmt_nat n @ c # s) = Some (n, c # s)"
proof -
  have "list_all is_digit (fmt_nat n)" using fmt_nat_digits [of n] by (auto simp: list_all_iff)
  moreover have "foldl (\<lambda>a c. 10 * a + digit_val c) 0 (fmt_nat n) = n"
    using digits_val_fmt_nat [of n] by (simp add: digits_val_def)
  ultimately show ?thesis using leadingInt_digits [of "fmt_nat n" 0 c s] assms by simp
qed

text \<open>A number of seconds is read as so many nanoseconds.\<close>

lemma ParseDuration_seconds:
  assumes "n < 2 ^ 31"
  shows "ParseDuration (fmt_nat n @ ''s'') = Some (int n * 1000000000)"
proof -
  obtain c s where cs: "fmt_nat n = c # s" "is_digit c"
    using fmt_nat_hd_digit [of n] fmt_nat_nonempty [of n] by (cases "fmt_nat n") auto
  have lead: "leadingInt 0 (c # s @ ''s'') = Some (n, ''s'')"
    using fmt_nat_leading [of n "CHR ''s''" "[]"] assms cs(1) by (simp add: is_digit_def)
  have "duration_part (c # s @ ''s'') = Some (n * 1000000000, [])"
    using assms cs(2) by (simp add: duration_part_def lead Let_def is_digit_def duration_units_def del: leadingInt.simps)
  then have "duration_sum (Suc (Suc (length s))) (c # s @ ''s'') 0 = Some (n * 1000000000)"
    using assms by simp
  moreover have "c \<noteq> CHR ''-''" "c \<noteq> CHR ''+''" using cs(2) by (auto simp: is_digit_def)
  ultimately show ?thesis using assms by (simp add: ParseDuration_def cs(1))
qed

section \<open>Flags\<close>

definition ParseBool :: "string \<Rightarrow> bool option" where
  "ParseBool s =
     (if s \<in> {''1'', ''t'', ''T'', ''TRUE'', ''true'', ''True''} then Some True
      else if s \<in> {''0'', ''f'', ''F'', ''FALSE'', ''false'', ''False''} then Some False else None)"

text \<open>A flag is boolean or takes a value; setting it may fail.\<close>

datatype 'r flag = BoolFlag "bool \<Rightarrow> 'r \<Rightarrow> 'r" | ValueFlag "string \<Rightarrow> 'r \<Rightarrow> 'r option"

definition StringFlag :: "(string \<Rightarrow> 'r \<Rightarrow> 'r) \<Rightarrow> 'r flag" where
  "StringFlag f = ValueFlag (\<lambda>v r. Some (f v r))"

definition DurationFlag :: "(int \<Rightarrow> 'r \<Rightarrow> 'r) \<Rightarrow> 'r flag" where
  "DurationFlag f = ValueFlag (\<lambda>v r. map_option (\<lambda>d. f d r) (ParseDuration v))"

text \<open>
  \<^verbatim>\<open>Parse\<close>: the flags up to the first argument that is none.  Every error ends the process, as the
  sets are made with \<^verbatim>\<open>ExitOnError\<close>; so does a request for help.
\<close>

definition split_assign :: "string \<Rightarrow> string \<times> string option" where
  "split_assign name = (case name of [] \<Rightarrow> ([], None) | c # s \<Rightarrow> (case cut_char (CHR ''='') s of (a, b) \<Rightarrow> (c # a, b)))"

definition set_flag :: "string \<Rightarrow> (string \<Rightarrow> 'r \<Rightarrow> 'r option) \<Rightarrow> string \<Rightarrow> 'r \<Rightarrow> string + 'r" where
  "set_flag name f v r =
     (case f v r of
        Some r \<Rightarrow> Inr r
      | None \<Rightarrow> Inl (''invalid value '' @ quoted v @ '' for flag -'' @ name @ '': parse error''))"

fun parse_flags :: "(string \<times> 'r flag) list \<Rightarrow> string list \<Rightarrow> 'r \<Rightarrow> string + 'r" where
  "parse_flags table [] r = Inr r"
| "parse_flags table (s # args) r =
     (if length s < 2 \<or> hd s \<noteq> CHR ''-'' then Inr r
      else if s = ''--'' then Inr r
      else
        let whole = (if s ! 1 = CHR ''-'' then drop 2 s else drop 1 s) in
        if whole = [] \<or> hd whole = CHR ''-'' \<or> hd whole = CHR ''='' then Inl (''bad flag syntax: '' @ s)
        else
          (case split_assign whole of (name, assigned) \<Rightarrow>
             (case map_of table name of
                None \<Rightarrow>
                  if name = ''help'' \<or> name = ''h'' then Inl ''flag: help requested''
                  else Inl (''flag provided but not defined: -'' @ name)
              | Some (BoolFlag f) \<Rightarrow>
                  (case ParseBool (case assigned of Some v \<Rightarrow> v | None \<Rightarrow> ''true'') of
                     Some b \<Rightarrow> parse_flags table args (f b r)
                   | None \<Rightarrow> Inl (''invalid boolean value '' @ quoted (the assigned) @ '' for -'' @ name @ '': parse error''))
              | Some (ValueFlag f) \<Rightarrow>
                  (case assigned of
                     Some v \<Rightarrow> (case set_flag name f v r of Inl e \<Rightarrow> Inl e | Inr r \<Rightarrow> parse_flags table args r)
                   | None \<Rightarrow>
                       (case args of
                          [] \<Rightarrow> Inl (''flag needs an argument: -'' @ name)
                        | v # args' \<Rightarrow>
                            (case set_flag name f v r of Inl e \<Rightarrow> Inl e | Inr r \<Rightarrow> parse_flags table args' r))))))"

lemma parse_assigned:
  assumes "name \<noteq> []" "CHR ''='' \<notin> set name" "hd name \<noteq> CHR ''-''" "map_of table name = Some (ValueFlag f)" "f v r = Some r'"
  shows "parse_flags table ((''--'' @ name @ ''='' @ v) # args) r = parse_flags table args r'"
proof -
  obtain c s where n: "name = c # s" using assms(1) by (cases name) auto
  have "cut_char (CHR ''='') (s @ CHR ''='' # v) = (s, Some v)" using assms(2) by (simp add: n cut_char_append)
  with assms show ?thesis by (auto simp: n split_assign_def set_flag_def Let_def)
qed

end
