(* ===== verification/Entry.thy ===== *)
theory Entry
  imports Flags Deployment Cycle Server
begin

text \<open>
  The entry points (\<^verbatim>\<open>cmd/main.go\<close>, \<^verbatim>\<open>cmd/browser.go\<close>, \<^verbatim>\<open>Run\<close>, \<^verbatim>\<open>RunPreview\<close> and \<^verbatim>\<open>serve\<close> of
  \<^verbatim>\<open>internal/dashboard\<close>): the choice of the mode, the flags of each mode and what is built from them.
  Starting caches, listeners and servers is I/O and left out; what the process then runs is the
  reconciler, the poller and the server built here.  An exit with an error is \<open>Inl\<close>.  Proved: the
  pod the controller writes serves the Dashboard it is written for, and the image it runs.
\<close>

section \<open>Modes\<close>

datatype mode = DashboardMode "string list" | PreviewMode "string list" | ManagerMode

definition main_mode :: "string list \<Rightarrow> mode" where
  "main_mode args =
     (case args of
        [] \<Rightarrow> ManagerMode
      | a # rest \<Rightarrow>
          if a = ''dashboard'' then DashboardMode rest else if a = ''preview'' then PreviewMode rest else ManagerMode)"

section \<open>Serving a dashboard\<close>

record options =
  op_namespace :: string
  op_dashboard_name :: string
  op_addr :: string
  op_metrics_addr :: string
  op_poll_interval :: int
  op_version :: string
  op_commit :: string
  op_gateway_api :: bool
  op_sample_data :: bool
  op_preview :: bool

text \<open>
  \<^verbatim>\<open>serve\<close>: the poller, the server and the address of the metrics.  \<open>base\<close> carries what is not an
  option: the upstreams and the libraries.  The seconds of an interval are whole, as truncation
  leaves them (\<^verbatim>\<open>Seconds\<close> is a float, exact enough for intervals below 97 days).
\<close>

definition defaultMetricsAddr :: string where "defaultMetricsAddr = '':9090''"

definition serve_poller :: "poller \<Rightarrow> net_lib \<Rightarrow> options \<Rightarrow> reader \<Rightarrow> reader \<Rightarrow> reader \<Rightarrow> poller" where
  "serve_poller base net opts rd secretReader kubeReader =
     base\<lparr>po_reader := rd, po_secret_reader := secretReader, po_kube_reader := kubeReader,
       po_namespace := op_namespace opts, po_dashboard_name := op_dashboard_name opts,
       po_interval := op_poll_interval opts, po_http_client := newGuardedHTTPClient net 10,
       po_gateway_api := op_gateway_api opts, po_sample_data := op_sample_data opts,
       po_preview := op_preview opts\<rparr>"

definition serve_server :: "options \<Rightarrow> reader \<Rightarrow> reader \<Rightarrow> Server" where
  "serve_server opts rd secretReader =
     \<lparr>sv_reader = rd, sv_secret_reader = secretReader, sv_namespace = op_namespace opts,
      sv_dashboard_name = op_dashboard_name opts, sv_store = NewStore,
      sv_refresh_seconds = (if op_poll_interval opts < 0 then - (- op_poll_interval opts div 1000000000)
                            else op_poll_interval opts div 1000000000),
      sv_version = op_version opts, sv_commit = op_commit opts, sv_sample_data = op_sample_data opts\<rparr>"

definition metrics_addr :: "options \<Rightarrow> string" where
  "metrics_addr opts = or_str (op_metrics_addr opts) defaultMetricsAddr"

section \<open>The \<^verbatim>\<open>dashboard\<close> mode\<close>

record dashboard_flags =
  df_namespace :: string
  df_dashboard_name :: string
  df_addr :: string
  df_metrics_addr :: string
  df_poll_interval :: int

definition dashboard_flag_defaults :: dashboard_flags where
  "dashboard_flag_defaults = \<lparr>df_namespace = [], df_dashboard_name = [], df_addr = '':8080'',
     df_metrics_addr = '':9090'', df_poll_interval = 15 * 1000000000\<rparr>"

definition dashboard_flag_table :: "(string \<times> dashboard_flags flag) list" where
  "dashboard_flag_table =
     [(''namespace'', StringFlag (\<lambda>v r. r\<lparr>df_namespace := v\<rparr>)),
      (''dashboard-name'', StringFlag (\<lambda>v r. r\<lparr>df_dashboard_name := v\<rparr>)),
      (''addr'', StringFlag (\<lambda>v r. r\<lparr>df_addr := v\<rparr>)),
      (''metrics-addr'', StringFlag (\<lambda>v r. r\<lparr>df_metrics_addr := v\<rparr>)),
      (''poll-interval'', DurationFlag (\<lambda>d r. r\<lparr>df_poll_interval := d\<rparr>))]"

text \<open>The logger adds flags of its own, \<open>zap\<close>; \<open>gateway\<close> is what \<^verbatim>\<open>gatewayAPIAvailable\<close> returned.\<close>

definition runDashboard :: "(string \<times> dashboard_flags flag) list \<Rightarrow> string + bool \<Rightarrow> string \<Rightarrow> string \<Rightarrow>
    string list \<Rightarrow> string + options" where
  "runDashboard zap gateway version commit args =
     (case parse_flags (dashboard_flag_table @ zap) args dashboard_flag_defaults of
        Inl e \<Rightarrow> Inl e
      | Inr f \<Rightarrow>
          if df_namespace f = [] \<or> df_dashboard_name f = []
          then Inl ''--namespace and --dashboard-name are required''
          else Inr \<lparr>op_namespace = df_namespace f, op_dashboard_name = df_dashboard_name f, op_addr = df_addr f,
                    op_metrics_addr = df_metrics_addr f, op_poll_interval = df_poll_interval f,
                    op_version = version, op_commit = commit,
                    op_gateway_api = (case gateway of Inr b \<Rightarrow> b | Inl _ \<Rightarrow> False),
                    op_sample_data = False, op_preview = False\<rparr>)"

section \<open>The \<^verbatim>\<open>preview\<close> mode\<close>

record preview_flags =
  pf_paths :: "string list"
  pf_recursive :: bool
  pf_namespace :: string
  pf_dashboard_name :: string
  pf_addr :: string
  pf_metrics_addr :: string
  pf_poll_interval :: int
  pf_open :: bool
  pf_sample_data :: bool

definition preview_flag_defaults :: preview_flags where
  "preview_flag_defaults = \<lparr>pf_paths = [], pf_recursive = False, pf_namespace = [], pf_dashboard_name = [],
     pf_addr = ''127.0.0.1:8080'', pf_metrics_addr = ''127.0.0.1:0'', pf_poll_interval = 15 * 1000000000,
     pf_open = False, pf_sample_data = False\<rparr>"

definition preview_flag_table :: "(string \<times> preview_flags flag) list" where
  "preview_flag_table =
     [(''f'', StringFlag (\<lambda>v r. r\<lparr>pf_paths := pf_paths r @ [v]\<rparr>)),
      (''recursive'', BoolFlag (\<lambda>b r. r\<lparr>pf_recursive := b\<rparr>)),
      (''namespace'', StringFlag (\<lambda>v r. r\<lparr>pf_namespace := v\<rparr>)),
      (''dashboard-name'', StringFlag (\<lambda>v r. r\<lparr>pf_dashboard_name := v\<rparr>)),
      (''addr'', StringFlag (\<lambda>v r. r\<lparr>pf_addr := v\<rparr>)),
      (''metrics-addr'', StringFlag (\<lambda>v r. r\<lparr>pf_metrics_addr := v\<rparr>)),
      (''poll-interval'', DurationFlag (\<lambda>d r. r\<lparr>pf_poll_interval := d\<rparr>)),
      (''open'', BoolFlag (\<lambda>b r. r\<lparr>pf_open := b\<rparr>)),
      (''sample-data'', BoolFlag (\<lambda>b r. r\<lparr>pf_sample_data := b\<rparr>))]"

text \<open>\<open>load\<close> is the load of the manifests: the namespace and the name of the Dashboard it selected.\<close>

definition runPreview :: "(string \<times> preview_flags flag) list \<Rightarrow> (preview_flags \<Rightarrow> string + string \<times> string) \<Rightarrow>
    string \<Rightarrow> string \<Rightarrow> string list \<Rightarrow> string + options" where
  "runPreview zap load version commit args =
     (case parse_flags (preview_flag_table @ zap) args preview_flag_defaults of
        Inl e \<Rightarrow> Inl e
      | Inr f \<Rightarrow>
          if pf_paths f = [] then Inl ''-f is required (path to a YAML file or directory of manifests)''
          else (case load f of
                  Inl e \<Rightarrow> Inl e
                | Inr (ns, n) \<Rightarrow>
                    Inr \<lparr>op_namespace = ns, op_dashboard_name = n, op_addr = pf_addr f,
                      op_metrics_addr = pf_metrics_addr f, op_poll_interval = pf_poll_interval f,
                      op_version = version, op_commit = commit, op_gateway_api = False,
                      op_sample_data = pf_sample_data f, op_preview = True\<rparr>))"

text \<open>\<^verbatim>\<open>RunPreview\<close>: the manifests stand in for the cluster, except for the node metrics, which have no source.\<close>

definition errNoCluster :: string where
  "errNoCluster = ''preview: no cluster available for cluster-scoped widgets''"

definition noopClusterReader :: reader where
  "noopClusterReader =
     \<lparr>rd_get_dashboard = (\<lambda>_ _. GetError errNoCluster), rd_list_dashboards = (\<lambda>_. Inl errNoCluster),
      rd_list_service_cards = (\<lambda>_. Inl errNoCluster), rd_list_bookmarks = (\<lambda>_. Inl errNoCluster),
      rd_list_info_widgets = (\<lambda>_. Inl errNoCluster), rd_get_secret = (\<lambda>_ _. GetError errNoCluster),
      rd_get_service = (\<lambda>_ _. GetError errNoCluster), rd_list_services = (\<lambda>_ _. Inl errNoCluster),
      rd_list_pods = (\<lambda>_ _. Inl errNoCluster), rd_list_ingresses = (\<lambda>_. Inl errNoCluster),
      rd_list_routes = (\<lambda>_. Inl errNoCluster)\<rparr>"

definition RunPreview :: "poller \<Rightarrow> net_lib \<Rightarrow> options \<Rightarrow> reader \<Rightarrow> poller \<times> Server" where
  "RunPreview base net opts rd =
     (let o' = opts\<lparr>op_gateway_api := False, op_preview := True\<rparr> in
      (serve_poller base net o' rd rd noopClusterReader, serve_server o' rd rd))"

text \<open>\<^verbatim>\<open>net.SplitHostPort\<close>, \<^verbatim>\<open>net.JoinHostPort\<close> and the address that is opened in a browser.\<close>

definition index_char :: "char \<Rightarrow> string \<Rightarrow> nat option" where
  "index_char c s = (case cut_char c s of (a, None) \<Rightarrow> None | (a, Some _) \<Rightarrow> Some (length a))"

definition SplitHostPort :: "string \<Rightarrow> (string \<times> string) option" where
  "SplitHostPort s =
     (case last_index '':'' s of
        None \<Rightarrow> None
      | Some i \<Rightarrow>
          let port = drop (Suc i) s in
          if hd s = CHR ''[''
          then (case index_char (CHR '']'') s of
                  None \<Rightarrow> None
                | Some e \<Rightarrow>
                    if Suc e = i \<and> CHR ''['' \<notin> set (drop 1 s) \<and> CHR '']'' \<notin> set (drop (Suc e) s)
                    then Some (drop 1 (take e s), port) else None)
          else if CHR '':'' \<in> set (take i s) \<or> CHR ''['' \<in> set s \<or> CHR '']'' \<in> set s then None
          else Some (take i s, port))"

definition JoinHostPort :: "string \<Rightarrow> string \<Rightarrow> string" where
  "JoinHostPort h p = (if CHR '':'' \<in> set h then ''['' @ h @ '']:'' @ p else h @ '':'' @ p)"

definition browserURL :: "string \<Rightarrow> string" where
  "browserURL addr =
     (case SplitHostPort addr of
        None \<Rightarrow> ''http://'' @ addr
      | Some (h, p) \<Rightarrow> ''http://'' @ JoinHostPort (if h \<in> {''0.0.0.0'', ''::''} then ''127.0.0.1'' else h) p)"

section \<open>The manager\<close>

definition parseWatchNamespaces :: "string \<Rightarrow> string list" where
  "parseWatchNamespaces s = filter (\<lambda>ns. ns \<noteq> []) (map trim_space (split_commas s))"

definition namespaceCacheConfigs :: "string list \<Rightarrow> unit gomap" where
  "namespaceCacheConfigs namespaces = foldl (\<lambda>m ns. gput ns () m) [] namespaces"

definition managerContainerName :: string where "managerContainerName = ''manager''"

text \<open>The parts of the manager's own Pod: containers with their image, statuses with their image ID.\<close>

record own_pod =
  wp_containers :: "(string \<times> string) list"
  wp_statuses :: "(string \<times> string) list"

text \<open>\<^verbatim>\<open>strings.Index\<close>\<close>

fun first_index :: "string \<Rightarrow> string \<Rightarrow> nat option" where
  "first_index sub [] = (if sub = [] then Some 0 else None)"
| "first_index sub (c # s) =
     (if has_prefix (c # s) sub then Some 0 else map_option Suc (first_index sub s))"

definition imageRepo :: "string \<Rightarrow> string" where
  "imageRepo img =
     (case last_index ''@'' img of
        Some i \<Rightarrow> take i img
      | None \<Rightarrow>
          (case last_index '':'' img of
             Some colon \<Rightarrow> if contains (drop colon img) [slash] then img else take colon img
           | None \<Rightarrow> img))"

definition digestPinnedImage :: "string \<Rightarrow> (string \<times> string) list \<Rightarrow> string option" where
  "digestPinnedImage specImage statuses =
     (case find (\<lambda>(n, _). n = managerContainerName) statuses of
        None \<Rightarrow> None
      | Some (_, imageID) \<Rightarrow>
          (case first_index ''@sha256:'' imageID of
             None \<Rightarrow> None
           | Some idx \<Rightarrow>
               if take idx imageID \<noteq> imageRepo specImage then None
               else Some (imageRepo specImage @ ''@'' @ drop (Suc idx) imageID)))"

definition ownDashboardImage :: "(string \<Rightarrow> string) \<Rightarrow> (string \<Rightarrow> string \<Rightarrow> own_pod get_result) \<Rightarrow> string + string" where
  "ownDashboardImage getenv get_pod =
     (let podName = getenv ''POD_NAME''; podNamespace = getenv ''POD_NAMESPACE'';
          own = podNamespace @ [slash] @ podName in
      if podName = [] \<or> podNamespace = []
      then Inl (''POD_NAME and POD_NAMESPACE env vars must be set (via the downward API) '' @
                ''to determine the manager's own image'')
      else (case get_pod podNamespace podName of
              NotFound \<Rightarrow> Inl (''getting own Pod '' @ own @ '': not found'')
            | GetError e \<Rightarrow> Inl (''getting own Pod '' @ own @ '': '' @ e)
            | Found pod \<Rightarrow>
                let specImage = (case find (\<lambda>(n, _). n = managerContainerName) (wp_containers pod) of
                      Some (_, img) \<Rightarrow> img | None \<Rightarrow> []) in
                if specImage = []
                then Inl (''container '' @ quoted managerContainerName @ '' not found in own Pod '' @ own)
                else (case digestPinnedImage specImage (wp_statuses pod) of
                        Some img \<Rightarrow> Inr img | None \<Rightarrow> Inr specImage)))"

definition resolveDashboardImage :: "(string \<Rightarrow> string) \<Rightarrow> (string \<Rightarrow> string \<Rightarrow> own_pod get_result) \<Rightarrow> string \<Rightarrow>
    string + string" where
  "resolveDashboardImage getenv get_pod override =
     (if override \<noteq> [] then Inr override else ownDashboardImage getenv get_pod)"

text \<open>
  \<open>discovery\<close> is the discovery client, or the error of building it: the kinds of the Gateway API's
  version.
\<close>

definition gatewayAPIAvailable :: "string \<Rightarrow> string + string list get_result \<Rightarrow> string + bool" where
  "gatewayAPIAvailable version discovery =
     (case discovery of
        Inl e \<Rightarrow> Inl (''building discovery client: '' @ e)
      | Inr NotFound \<Rightarrow> Inr False
      | Inr (GetError e) \<Rightarrow> Inl (''listing '' @ version @ '' resources: '' @ e)
      | Inr (Found kinds) \<Rightarrow> Inr (list_ex (\<lambda>k. k = ''HTTPRoute'') kinds))"

record manager_flags =
  mf_metrics_addr :: string
  mf_metrics_cert_path :: string
  mf_metrics_cert_name :: string
  mf_metrics_cert_key :: string
  mf_webhook_cert_path :: string
  mf_webhook_cert_name :: string
  mf_webhook_cert_key :: string
  mf_leader_elect :: bool
  mf_probe_addr :: string
  mf_metrics_secure :: bool
  mf_enable_http2 :: bool
  mf_watch_namespaces :: string
  mf_dashboard_image :: string

definition manager_flag_defaults :: manager_flags where
  "manager_flag_defaults = \<lparr>mf_metrics_addr = ''0'', mf_metrics_cert_path = [], mf_metrics_cert_name = ''tls.crt'',
     mf_metrics_cert_key = ''tls.key'', mf_webhook_cert_path = [], mf_webhook_cert_name = ''tls.crt'',
     mf_webhook_cert_key = ''tls.key'', mf_leader_elect = False, mf_probe_addr = '':8081'', mf_metrics_secure = True,
     mf_enable_http2 = False, mf_watch_namespaces = [], mf_dashboard_image = []\<rparr>"

definition manager_flag_table :: "(string \<times> manager_flags flag) list" where
  "manager_flag_table =
     [(''metrics-bind-address'', StringFlag (\<lambda>v r. r\<lparr>mf_metrics_addr := v\<rparr>)),
      (''watch-namespaces'', StringFlag (\<lambda>v r. r\<lparr>mf_watch_namespaces := v\<rparr>)),
      (''health-probe-bind-address'', StringFlag (\<lambda>v r. r\<lparr>mf_probe_addr := v\<rparr>)),
      (''leader-elect'', BoolFlag (\<lambda>b r. r\<lparr>mf_leader_elect := b\<rparr>)),
      (''metrics-secure'', BoolFlag (\<lambda>b r. r\<lparr>mf_metrics_secure := b\<rparr>)),
      (''webhook-cert-path'', StringFlag (\<lambda>v r. r\<lparr>mf_webhook_cert_path := v\<rparr>)),
      (''webhook-cert-name'', StringFlag (\<lambda>v r. r\<lparr>mf_webhook_cert_name := v\<rparr>)),
      (''webhook-cert-key'', StringFlag (\<lambda>v r. r\<lparr>mf_webhook_cert_key := v\<rparr>)),
      (''dashboard-image'', StringFlag (\<lambda>v r. r\<lparr>mf_dashboard_image := v\<rparr>)),
      (''metrics-cert-path'', StringFlag (\<lambda>v r. r\<lparr>mf_metrics_cert_path := v\<rparr>)),
      (''metrics-cert-name'', StringFlag (\<lambda>v r. r\<lparr>mf_metrics_cert_name := v\<rparr>)),
      (''metrics-cert-key'', StringFlag (\<lambda>v r. r\<lparr>mf_metrics_cert_key := v\<rparr>)),
      (''enable-http2'', BoolFlag (\<lambda>b r. r\<lparr>mf_enable_http2 := b\<rparr>))]"

text \<open>A server's certificate: directory, certificate and key, when a directory is given.\<close>

definition cert_files :: "string \<Rightarrow> string \<Rightarrow> string \<Rightarrow> (string \<times> string \<times> string) option" where
  "cert_files path name key = (if path \<noteq> [] then Some (path, name, key) else None)"

text \<open>The protocols the metrics and webhook servers offer: \<open>None\<close> leaves the default, HTTP/2 included.\<close>

record manager_options =
  mo_next_protos :: "string list option"
  mo_webhook_cert :: "(string \<times> string \<times> string) option"
  mo_metrics_addr :: string
  mo_metrics_secure :: bool
  mo_metrics_authorized :: bool
  mo_metrics_cert :: "(string \<times> string \<times> string) option"
  mo_probe_addr :: string
  mo_leader_election :: bool
  mo_cache_namespaces :: "unit gomap option"

definition managerOptions :: "manager_flags \<Rightarrow> manager_options" where
  "managerOptions f =
     (let namespaces = parseWatchNamespaces (mf_watch_namespaces f) in
      \<lparr>mo_next_protos = (if mf_enable_http2 f then None else Some [''http/1.1'']),
       mo_webhook_cert = cert_files (mf_webhook_cert_path f) (mf_webhook_cert_name f) (mf_webhook_cert_key f),
       mo_metrics_addr = mf_metrics_addr f, mo_metrics_secure = mf_metrics_secure f,
       mo_metrics_authorized = mf_metrics_secure f,
       mo_metrics_cert = cert_files (mf_metrics_cert_path f) (mf_metrics_cert_name f) (mf_metrics_cert_key f),
       mo_probe_addr = mf_probe_addr f, mo_leader_election = mf_leader_elect f,
       mo_cache_namespaces = (if namespaces \<noteq> [] then Some (namespaceCacheConfigs namespaces) else None)\<rparr>)"

text \<open>\<^verbatim>\<open>runManager\<close> up to the start of the controllers: the manager's options and the Dashboard reconciler.\<close>

definition runManager :: "(string \<times> manager_flags flag) list \<Rightarrow> (string \<Rightarrow> string) \<Rightarrow>
    (string \<Rightarrow> string \<Rightarrow> own_pod get_result) \<Rightarrow> string + bool \<Rightarrow> (string \<Rightarrow> string) \<Rightarrow> string list \<Rightarrow>
    string + manager_options \<times> DashboardReconciler" where
  "runManager others getenv get_pod gateway sha256 args =
     (case parse_flags (manager_flag_table @ others) args manager_flag_defaults of
        Inl e \<Rightarrow> Inl e
      | Inr f \<Rightarrow>
          (case resolveDashboardImage getenv get_pod (mf_dashboard_image f) of
             Inl e \<Rightarrow> Inl e
           | Inr img \<Rightarrow>
               Inr (managerOptions f,
                 \<lparr>re_image = img, re_gateway_enabled = (case gateway of Inr b \<Rightarrow> b | Inl _ \<Rightarrow> False),
                  re_sha256 = sha256\<rparr>)))"

section \<open>Properties\<close>

lemma dashboard_args_parse:
  assumes "d_namespace d \<noteq> []" "d_name d \<noteq> []"
    and "(case ds_poll_interval_seconds (d_spec d) of Some n \<Rightarrow> n | None \<Rightarrow> defaultPollIntervalSeconds) = int n" "n < 2 ^ 31"
  shows "parse_flags (dashboard_flag_table @ zap) (tl (dashboardArgs d)) dashboard_flag_defaults =
    Inr \<lparr>df_namespace = d_namespace d, df_dashboard_name = d_name d,
         df_addr = '':'' @ fmt_int (ds_container_port (d_spec d)), df_metrics_addr = '':'' @ fmt_int dashboardMetricsPort,
         df_poll_interval = int n * 1000000000\<rparr>"
proof -
  note parse = parse_assigned [where table = "dashboard_flag_table @ zap"]
  have "parse_flags (dashboard_flag_table @ zap)
      [''--namespace='' @ d_namespace d, ''--dashboard-name='' @ d_name d, ''--addr=:'' @ port, ''--metrics-addr=:'' @ mport,
       ''--poll-interval='' @ fmt_nat n @ ''s''] dashboard_flag_defaults =
    Inr \<lparr>df_namespace = d_namespace d, df_dashboard_name = d_name d, df_addr = '':'' @ port, df_metrics_addr = '':'' @ mport,
         df_poll_interval = int n * 1000000000\<rparr>" for port mport
    using parse [where name = "''namespace''" and v = "d_namespace d"]
      parse [where name = "''dashboard-name''" and v = "d_name d"]
      parse [where name = "''addr''" and v = "'':'' @ port"]
      parse [where name = "''metrics-addr''" and v = "'':'' @ mport"]
      parse [where name = "''poll-interval''" and v = "fmt_nat n @ ''s''"]
    by (simp add: dashboard_flag_table_def StringFlag_def DurationFlag_def ParseDuration_seconds [OF assms(4)]
        dashboard_flag_defaults_def del: parse_flags.simps(2))
  then show ?thesis by (simp add: dashboardArgs_def assms(3) fmt_int_def [of "int n"] del: parse_flags.simps)
qed

text \<open>
  C10. The pod the controller writes for a Dashboard serves that Dashboard: the binary, started with the
  arguments of the Deployment's container, chooses the dashboard mode, accepts every flag, and polls
  and serves exactly this namespace and name, on the port of the spec, at the interval of the spec,
  with real data.
\<close>

theorem pod_serves_its_dashboard:
  assumes "deploymentForDashboard r k d = Inr dep" "ps_containers (tp_spec (dep_template dep)) = [c]"
    and "d_namespace d \<noteq> []" "d_name d \<noteq> []"
    and "(case ds_poll_interval_seconds (d_spec d) of Some n \<Rightarrow> n | None \<Rightarrow> defaultPollIntervalSeconds) = int n" "n < 2 ^ 31"
  shows "\<exists>args opts. main_mode (ct_args c) = DashboardMode args \<and> runDashboard zap gateway version commit args = Inr opts \<and>
    op_addr opts = '':'' @ fmt_int (ds_container_port (d_spec d)) \<and>
    (let p = serve_poller base net opts rd srd krd; s = serve_server opts rd srd in
     po_namespace p = d_namespace d \<and> po_dashboard_name p = d_name d \<and> po_interval p = int n * 1000000000 \<and>
     po_sample_data p = False \<and> po_preview p = False \<and>
     sv_namespace s = d_namespace d \<and> sv_dashboard_name s = d_name d \<and> sv_refresh_seconds s = int n)"
proof -
  have c: "ct_args c = dashboardArgs d"
    using assms(2) deployment_fields(1) [OF assms(1)]
    by (auto simp: dashboard_template_def dashboard_container_def Let_def)
  have "main_mode (ct_args c) = DashboardMode (tl (dashboardArgs d))" by (simp add: c main_mode_def dashboardArgs_def)
  then show ?thesis
    using assms(3,4) dashboard_args_parse [OF assms(3-6), of zap]
    by (simp add: runDashboard_def serve_poller_def serve_server_def Let_def)
qed

theorem pod_serves_its_dashboard_witness:
  "\<exists>args opts. main_mode (ct_args (dashboard_container ex_reconciler ex_home)) = DashboardMode args \<and>
     runDashboard [] (Inr False) ''v1'' ''abc'' args = Inr opts \<and>
     op_namespace opts = d_namespace ex_home \<and> op_dashboard_name opts = d_name ex_home \<and> op_poll_interval opts = 15000000000"
proof -
  obtain dep where dep: "deploymentForDashboard ex_reconciler (ex_kube ex_home) ex_home = Inr dep"
    by (simp add: deploymentForDashboard_def ex_kube_def ex_cluster_def mem_kube_def)
  have c: "ps_containers (tp_spec (dep_template dep)) = [dashboard_container ex_reconciler ex_home]"
    by (simp add: deployment_fields(1) [OF dep] dashboard_template_def Let_def)
  have d: "d_namespace ex_home \<noteq> []" "d_name ex_home \<noteq> []" "ds_poll_interval_seconds (d_spec ex_home) = None"
    by (simp_all add: ex_home_def ex_dashboard_def zero_dashboard_spec_def)
  then have "(case ds_poll_interval_seconds (d_spec ex_home) of Some n \<Rightarrow> n | None \<Rightarrow> defaultPollIntervalSeconds) = int 15"
    by (simp add: defaultPollIntervalSeconds_def)
  from pod_serves_its_dashboard [OF dep c d(1,2) this, where zap = "[]" and gateway = "Inr False" and version = "''v1''"
      and commit = "''abc''" and rd = "sv_reader ex_server" and srd = "sv_reader ex_server"]
  show ?thesis by (auto simp: serve_poller_def serve_server_def Let_def)
qed

lemma first_index_Some:
  "first_index sub s = Some i \<Longrightarrow> s = take i s @ sub @ drop (i + length sub) s \<and> i \<le> length s"
proof (induction s arbitrary: i)
  case (Cons c s)
  show ?case
  proof (cases "has_prefix (c # s) sub")
    case True
    then show ?thesis using Cons.prems by (auto simp: has_prefix_iff)
  next
    case False
    with Cons.prems obtain j where "first_index sub s = Some j" "i = Suc j" by auto
    with Cons.IH [of j] show ?thesis by auto
  qed
qed (auto split: if_splits)

lemma find_mem: "find P xs = Some x \<Longrightarrow> x \<in> set xs \<and> P x"
  by (induction xs) (auto split: if_splits)

lemma digest_image:
  assumes "digestPinnedImage spec statuses = Some img"
  shows "(managerContainerName, img) \<in> set statuses \<and> (\<exists>digest. img = imageRepo spec @ ''@sha256:'' @ digest)"
proof -
  obtain n i idx where f: "find (\<lambda>(n, _). n = managerContainerName) statuses = Some (n, i)"
    and idx: "first_index ''@sha256:'' i = Some idx" "take idx i = imageRepo spec"
    and img: "img = imageRepo spec @ ''@'' @ drop (Suc idx) i"
    using assms by (auto simp: digestPinnedImage_def split: option.splits if_splits)
  have mem: "(managerContainerName, i) \<in> set statuses" using find_mem [OF f] by auto
  have "length ''@sha256:'' = 8" by simp
  note i = first_index_Some [OF idx(1), unfolded this, THEN conjunct1] first_index_Some [OF idx(1), THEN conjunct2]
  have "drop (Suc idx) (take idx i @ ''@sha256:'' @ drop (idx + 8) i) = ''sha256:'' @ drop (idx + 8) i" using i(2) by simp
  from arg_cong [OF i(1), of "drop (Suc idx)", unfolded this]
  have img': "img = imageRepo spec @ ''@sha256:'' @ drop (idx + 8) i" using img by simp
  have "img = i" unfolding img' idx(2) [symmetric] by (rule i(1) [symmetric])
  show ?thesis
  proof (intro conjI exI)
    show "(managerContainerName, img) \<in> set statuses" unfolding \<open>img = i\<close> by (rule mem)
    show "img = imageRepo spec @ ''@sha256:'' @ drop (idx + 8) i" by (rule img')
  qed
qed

text \<open>
  C21. The image of the dashboards is the one on the command line; else it is the image that the
  manager's own container names, or the one the node reports for that container, word for word, and
  then with a digest and of the same repository.  Without one of these the manager does not start.
\<close>

theorem dashboard_image_exact:
  assumes "runManager others getenv get_pod gateway sha args = Inr (opts, rec)"
  shows "\<exists>f. parse_flags (manager_flag_table @ others) args manager_flag_defaults = Inr f \<and>
    (mf_dashboard_image f \<noteq> [] \<and> re_image rec = mf_dashboard_image f \<or>
     mf_dashboard_image f = [] \<and> (\<exists>pod spec.
       get_pod (getenv ''POD_NAMESPACE'') (getenv ''POD_NAME'') = Found pod \<and>
       (managerContainerName, spec) \<in> set (wp_containers pod) \<and> spec \<noteq> [] \<and>
       (re_image rec = spec \<or>
        (managerContainerName, re_image rec) \<in> set (wp_statuses pod) \<and>
        (\<exists>digest. re_image rec = imageRepo spec @ ''@sha256:'' @ digest))))"
proof -
  obtain f img where f: "parse_flags (manager_flag_table @ others) args manager_flag_defaults = Inr f"
    and img: "resolveDashboardImage getenv get_pod (mf_dashboard_image f) = Inr img" and rec: "re_image rec = img"
    using assms by (auto simp: runManager_def split: sum.splits)
  show ?thesis
  proof (cases "mf_dashboard_image f = []")
    case True
    with img obtain pod where pod: "get_pod (getenv ''POD_NAMESPACE'') (getenv ''POD_NAME'') = Found pod"
      by (auto simp: resolveDashboardImage_def ownDashboardImage_def Let_def split: get_result.splits if_splits)
    define c where "c = find (\<lambda>(n, _). n = managerContainerName) (wp_containers pod)"
    define spec where "spec = (case c of Some (_, img) \<Rightarrow> img | None \<Rightarrow> [])"
    have i: "spec \<noteq> []" "(case digestPinnedImage spec (wp_statuses pod) of Some img \<Rightarrow> Inr img | None \<Rightarrow> Inr spec) =
        (Inr img :: string + string)"
      using img True
      unfolding resolveDashboardImage_def ownDashboardImage_def Let_def pod get_result.case c_def [symmetric] spec_def [symmetric]
      by (auto split: if_splits)
    obtain n where "c = Some (n, spec)" using i(1) by (auto simp: spec_def split: option.splits)
    from find_mem [OF this [unfolded c_def]] have "(managerContainerName, spec) \<in> set (wp_containers pod)" by auto
    moreover have "img = spec \<or> (managerContainerName, img) \<in> set (wp_statuses pod) \<and>
        (\<exists>digest. img = imageRepo spec @ ''@sha256:'' @ digest)"
      using i(2) digest_image [of spec "wp_statuses pod"] by (cases "digestPinnedImage spec (wp_statuses pod)") auto
    ultimately have "\<exists>pod spec. get_pod (getenv ''POD_NAMESPACE'') (getenv ''POD_NAME'') = Found pod \<and>
       (managerContainerName, spec) \<in> set (wp_containers pod) \<and> spec \<noteq> [] \<and>
       (img = spec \<or> (managerContainerName, img) \<in> set (wp_statuses pod) \<and>
        (\<exists>digest. img = imageRepo spec @ ''@sha256:'' @ digest))"
      using pod i(1) by (intro exI [of _ pod] exI [of _ spec] conjI)
    then show ?thesis unfolding rec by (intro exI [of _ f] conjI disjI2 f True)
  next
    case False
    with img have "img = mf_dashboard_image f" by (simp add: resolveDashboardImage_def)
    with False f rec show ?thesis by blast
  qed
qed

definition ex_own_pod :: own_pod where
  "ex_own_pod = \<lparr>wp_containers = [(''proxy'', ''p:1''), (''manager'', ''ghcr.io/op:v1'')],
     wp_statuses = [(''manager'', ''ghcr.io/op@sha256:ab'')]\<rparr>"

lemma ex_manager:
  "runManager [] id (\<lambda>_ _. Found ex_own_pod) (Inr True) id [] =
     Inr (managerOptions manager_flag_defaults,
          \<lparr>re_image = ''ghcr.io/op@sha256:ab'', re_gateway_enabled = True, re_sha256 = id\<rparr>)"
  by (simp add: runManager_def manager_flag_defaults_def resolveDashboardImage_def ownDashboardImage_def ex_own_pod_def
      managerContainerName_def digestPinnedImage_def imageRepo_def)

theorem dashboard_image_exact_witness:
  "\<exists>f. parse_flags manager_flag_table [] manager_flag_defaults = Inr f \<and>
     imageRepo ''ghcr.io/op:v1'' = ''ghcr.io/op'' \<and>
     (mf_dashboard_image f \<noteq> [] \<and> ''ghcr.io/op@sha256:ab'' = mf_dashboard_image f \<or>
      mf_dashboard_image f = [] \<and> (''manager'', ''ghcr.io/op@sha256:ab'') \<in> set (wp_statuses ex_own_pod))"
  using dashboard_image_exact [OF ex_manager]
  by (auto simp: ex_own_pod_def managerContainerName_def imageRepo_def)

text \<open>
  C33. The flag that confines the manager says what it means: a list of namespaces, written with commas,
  is read back as it is, and the cache then holds these namespaces and no other.
\<close>

theorem watch_namespaces_roundtrip:
  assumes "nss \<noteq> []" "list_all (\<lambda>ns. ns \<noteq> [] \<and> CHR '','' \<notin> set ns \<and> list_all (\<lambda>c. \<not> is_space c) ns) nss"
    and "mf_watch_namespaces f = join '','' nss"
  shows "parseWatchNamespaces (join '','' nss) = nss \<and>
    (\<exists>m. mo_cache_namespaces (managerOptions f) = Some m \<and> set (map fst m) = set nss \<and> distinct (map fst m))"
proof -
  have trim: "trim_space ns = ns" if "list_all (\<lambda>c. \<not> is_space c) ns" for ns
  proof -
    have "dropWhile is_space xs = xs" if "list_all (\<lambda>c. \<not> is_space c) xs" for xs
      using that by (cases xs) auto
    from this [of ns] this [of "rev ns"] that show ?thesis by (simp add: trim_space_def)
  qed
  have "list_all (\<lambda>k. CHR '','' \<notin> set k) nss" using assms(2) by (auto simp: list_all_iff)
  moreover have "filter (\<lambda>ns. ns \<noteq> []) (map trim_space nss) = nss" using assms(2) by (induction nss) (auto simp: trim)
  ultimately have p: "parseWatchNamespaces (join '','' nss) = nss"
    using assms(1) by (simp add: parseWatchNamespaces_def split_commas_join)
  have keys: "fst ` set (foldl (\<lambda>m ns. gput ns () m) m xs) = fst ` set m \<union> set xs \<and>
      (distinct (map fst m) \<longrightarrow> distinct (map fst (foldl (\<lambda>m ns. gput ns () m) m xs)))" for m xs
  proof (induction xs arbitrary: m)
    case (Cons x xs)
    from Cons [of "gput x () m"] show ?case by (auto simp: gput_def dom_update distinct_update)
  qed simp
  from keys [of "[]" nss] show ?thesis
    using assms(1,3) p by (simp add: managerOptions_def Let_def namespaceCacheConfigs_def)
qed

theorem watch_namespaces_roundtrip_witness: "parseWatchNamespaces ''team-a,team-b'' = [''team-a'', ''team-b'']"
  using watch_namespaces_roundtrip [of "[''team-a'', ''team-b'']"
      "manager_flag_defaults\<lparr>mf_watch_namespaces := ''team-a,team-b''\<rparr>"]
  by (simp add: is_space_def)

end
