(* ===== verification/Spec2Isabelle.thy ===== *)
theory Spec2Isabelle
  imports Tabs Render Header Caches Cycle Watches Preview Samples Page Entry
begin

text \<open>
  A verification development for kubepage-operator, a Kubernetes operator that serves dashboard pages from
  custom resources.

  The program is one binary with three modes.  The \<^bold>\<open>controller\<close> (\<^verbatim>\<open>internal/controller\<close>) watches Dashboard,
  ServiceCard, Bookmark and InfoWidget resources; for each Dashboard it keeps a Deployment that runs the
  same binary in \<^bold>\<open>dashboard\<close> mode, with the Service, Ingress, HTTPRoute, NetworkPolicy, ServiceAccount, roles and
  bindings around it, and reports in the resources' status.  The dashboard process (\<^verbatim>\<open>internal/dashboard\<close>)
  reads the resources bound to its Dashboard, polls the services they describe once per cycle, keeps one card
  per widget in a store, and serves the page, its fragments and server-sent events.  The \<^bold>\<open>preview\<close> mode
  (\<^verbatim>\<open>internal/preview\<close>) runs the dashboard on local YAML files.

  \<^bold>\<open>Reading guide.\<close>  Definitions carry the names of the Go declarations they translate; a struct is a
  record with one field per struct field and a prefix for the struct, an enumeration a datatype, an optional
  pointer an option, a Go map the list of its bindings in the order an iteration takes (theory \<open>Go_Maps\<close>,
  so that a theorem over it holds for every iteration order), a Go string the list of its bytes.  A function
  that may fail returns \<^typ>\<open>string + 'a\<close>, the text of the error on the left.  Sorting is the stable insertion sort
  \<open>sort_by\<close> with Go's comparison function.  Integers are mathematical where the code's bounds exclude wrap-around
  (lengths, ports, durations far from 64 bits).

  \<^bold>\<open>Theories.\<close>
  \<^item> Shared: \<open>Prelude\<close> (strings, number formats, comparison and sorting), \<open>Go_Maps\<close> (maps), \<open>Api_Types\<close>
    (\<^verbatim>\<open>api/v1alpha1\<close>), \<open>Reader\<close> (the reads of the cluster client).
  \<^item> The page (\<^verbatim>\<open>server.go\<close>, \<^verbatim>\<open>site.go\<close>, \<^verbatim>\<open>store.go\<close>, \<^verbatim>\<open>render_helpers.go\<close>, \<^verbatim>\<open>palette.go\<close>, \<^verbatim>\<open>icon.go\<close>): \<open>Store\<close>,
    \<open>Cards\<close> (keys and merging), \<open>Layout\<close> and \<open>Tabs\<close> (group tree, tabs, order), \<open>Site\<close>, \<open>Header\<close>, \<open>Render\<close>,
    \<open>Icon\<close>, \<open>Highlight\<close>.  Shown: every card is on exactly one tab, groups come in the order the spec asks
    for, merging loses and duplicates nothing, escaped text cannot close the block it stands in.
  \<^item> Polling (\<^verbatim>\<open>poller.go\<close>, \<^verbatim>\<open>monitor.go\<close>, \<^verbatim>\<open>discovery.go\<close>, \<^verbatim>\<open>widget_defaults.go\<close>, \<^verbatim>\<open>transport.go\<close>,
    \<^verbatim>\<open>clientcache.go\<close>, \<^verbatim>\<open>pollfailure.go\<close>): \<open>Poller\<close>, \<open>Monitor\<close>, \<open>Discovery\<close>, \<open>Secrets\<close>, \<open>Transport\<close>, \<open>Caches\<close>,
    \<open>Schedule\<close> (goroutines sharing a semaphore, as a step relation) and \<open>Cycle\<close> (a whole \<^verbatim>\<open>pollOnce\<close>).  Shown: a
    cycle ends after a number of steps known beforehand, its page does not depend on the schedule and shows exactly
    the cards of the cluster; secrets and trust are resolved in the documented order and never downgraded but by \<^verbatim>\<open>insecureTLS\<close>;
    monitors and dials stay within their bounds.
  \<^item> Serving (\<^verbatim>\<open>server.go\<close>, \<^verbatim>\<open>sse.go\<close>, \<^verbatim>\<open>auth.go\<close>): \<open>Server\<close>, \<open>Sse\<close>, \<open>Auth\<close>.  Shown: basic authentication
    fails closed, every response of the whole chain carries the security headers, the entity tags and events
    agree with the page.
  \<^item> Widget integrations (one file of \<^verbatim>\<open>internal/dashboard\<close> per service): \<open>Floats\<close> (binary64 arithmetic,
    exact, and number formats), \<open>Fetch\<close> (\<^verbatim>\<open>httpwidget.go\<close>, \<^verbatim>\<open>kubemetrics.go\<close>'s formats, JSON decoding,
    requests over a network), \<open>Poll_Laws\<close>, \<open>Widgets_Media\<close>, \<open>Widgets_Services\<close>, \<open>Widgets_Network\<close>,
    \<open>Widgets_Header\<close>, \<open>Widgets_Generic\<close>, \<open>Truenas\<close> (the websocket session), \<open>Registry\<close> (all registered
    types) and \<open>Samples\<close>.  Shown: a poll succeeds only on answers that were read and decoded, the requests
    handed to the HTTP client stay on the configured URL, behind the dial guard and on the trust store of the CA
    certificate, the only panics are byte counts, samples have the layout of a poll.
  \<^item> Templates (\<^verbatim>\<open>cards_templ.go\<close>, \<^verbatim>\<open>header_templ.go\<close>, \<^verbatim>\<open>index_templ.go\<close>): \<open>Html\<close> (a tokenizer of markup),
    \<open>Templates\<close> (the components as sequences of writes), \<open>Markup\<close> (the tree each of them stands for), \<open>Fragments\<close>,
    \<open>Shell\<close> (the constant texts of the page) and \<open>Page\<close> (the whole page, read with its scripts and styles).
    Shown: no text of a resource or an upstream can leave its element or attribute, the card grid has each card
    once, and the page runs exactly its own code, under the nonce of the response, as long as the custom script
    opens no comment.
  \<^item> Entry points (\<^verbatim>\<open>cmd\<close>, \<^verbatim>\<open>dashboard.go\<close>, \<^verbatim>\<open>preview.go\<close>): \<open>Flags\<close> (the part of Go's \<^verbatim>\<open>flag\<close> package in use) and
    \<open>Entry\<close>.  Shown: the pod the controller writes serves the Dashboard it is written for.
  \<^item> Configuration objects (\<^verbatim>\<open>bound_config_reconciler.go\<close> and its three instances): \<open>Binding\<close>.
  \<^item> The Dashboard controller (\<^verbatim>\<open>dashboard_controller.go\<close>, \<^verbatim>\<open>dashboard_rbac.go\<close>, \<^verbatim>\<open>dashboard_network.go\<close>): \<open>Kube\<close>
    (the written objects, the API calls as a record, and a small logic of triples over operations that may
    fail), \<open>Names\<close>, \<open>Rbac\<close>, \<open>Network\<close>, \<open>Deployment\<close>, \<open>Dashboard_Controller\<close> (the whole \<^verbatim>\<open>Reconcile\<close>).  On
    top of them \<open>Grants\<close> and \<open>Orphans\<close> (no grant in a foreign namespace is ever lost track of, however
    reconciles, failures and other clients alternate), \<open>Reports\<close> (status and errors) and \<open>Watches\<close> (no relevant
    change is missed).  \<open>Mem_Server\<close> is an API server in memory that keeps all the promises assumed.
  \<^item> Preview (\<^verbatim>\<open>internal/preview\<close>): \<open>Preview\<close>.  Shown: what a load serves, that edits of the manifests it reads
    are noticed, and that the page follows the last good load.

  \<^bold>\<open>Interfaces.\<close>  The locales name what one part relies on in another: \<open>go_map\<close> and \<open>comparator\<close> (maps and
  orders), \<open>task_pool\<close> and \<open>counted_pool\<close> (closures of a cycle), \<open>poll_law\<close> and \<open>lenient_law\<close> (laws of
  every widget's poll, for the ones that fail with their first request and the ones that go on), \<open>owned_object\<close> (objects repaired when they drift), \<open>grant_scope\<close> (the discovery and the monitor
  grants follow one protocol); each is interpreted on the code's own definitions where these are made.

  \<^bold>\<open>Parameters.\<close>  Code outside the repository is an argument: the Kubernetes client (records \<open>reader\<close> and
  \<open>kube\<close>, over any type of world), \<^verbatim>\<open>DeepDerivative\<close>, the condition, finalizer and owner helpers of
  controller-runtime, SHA-256, bcrypt, x509, regular expressions, URL and JSON text parsing, quantities, the
  answer of an HTTP client, after any redirects it follows itself, and websockets (the network of \<open>Fetch\<close>), the
  path functions of \<^verbatim>\<open>http.ServeMux\<close>, the templ runtime (\<open>templ_lib\<close>).  What a theorem needs of
  them is named in its hypotheses (\<open>status_laws\<close>, \<open>cluster_laws\<close>, \<open>stores\<close>, \<open>keeps_deployments\<close>,
  \<open>sets_condition\<close>, \<open>templ_ok\<close>, \<open>plain_values\<close>, \<open>json_ok\<close>, \<dots>) and shown to be satisfiable by \<open>Mem_Server\<close>, \<open>ex_templ\<close> or a similar instance.
  A read sees the latest write; a conflicting write is a write that fails; a failed write may or may not
  have had its effect.

  \<^bold>\<open>Bounds.\<close>  Loops run over finite lists or are structural, except for three definitions with fuel: \<open>toValue\<close>
  (theory \<open>Layout\<close>) follows child links with one more than the longest path's length, which every path stays
  under (\<open>nest_fuel_enough\<close>); \<open>duration_sum\<close> (\<open>Flags\<close>) reads a number and its unit a turn with the text's length,
  and more changes nothing (\<open>duration_sum_enough\<close>); \<open>find_shortest\<close> (\<open>Floats\<close>) lowers an exponent to -1074, of whose
  power of ten every float is a multiple, so the last turn is exact.  The steps of a cycle
  are bounded by twice the number of its closures (\<open>cycle_terminates\<close>); the semaphore has Go's 8 slots; a truenas
  call reads at most its limit of skipped frames.  Floats are rounded to binary64 after every operation;
  a conversion of a float out of the range of an integer is the one of amd64; hexadecimal floats are not read.

  \<^bold>\<open>Not modelled.\<close>  Log lines, events and metrics of the controller; the generated deep copies (the
  identity on immutable values); the start of listeners, caches and signal handlers in \<^verbatim>\<open>cmd\<close> and \<^verbatim>\<open>dashboard.go\<close>; the
  development tools.  Interleavings within one closure of a cycle are not split further: what closures
  share is guarded by mutexes.  A widget's poll starts with idle connections, and a panic in it is an error of
  the poll in \<open>Poller\<close>; \<open>Registry\<close> says which polls can panic.
\<close>

end
